(* ===== verification/OR_Prelude.thy ===== *)
theory OR_Prelude
  imports Complex_Main "HOL-Library.AList" "HOL-Library.Char_ord" "HOL-Library.List_Lexorder"
    "HOL-Library.Product_Lexorder"
begin

section \<open>Shared vocabulary of the model\<close>

text \<open>
  What every component uses: results of Python code that may raise (a sum, the exception on
  the left), Python strings over the code points 0 to 255 (one \<open>char\<close> per code point) with the
  two notions of white space the code relies on, Python's \<open>str(int)\<close>, \<open>str.find\<close>, slices,
  \<open>dict\<close> as association lists in insertion order, and first-occurrence de-duplication.
\<close>

named_theorems res_simps \<open>unfolding and splitting of results that may be an exception\<close>

subsection \<open>Results\<close>

text \<open>\<open>bind_res m f\<close>: run \<open>m\<close>, go on with \<open>f\<close> unless \<open>m\<close> raised.\<close>

definition bind_res :: "'e + 'a \<Rightarrow> ('a \<Rightarrow> 'e + 'b) \<Rightarrow> 'e + 'b" where
  "bind_res m f = (case m of Inl e \<Rightarrow> Inl e | Inr x \<Rightarrow> f x)"

lemma bind_res_simps [simp]:
  "bind_res (Inl e) f = Inl e"
  "bind_res (Inr x) f = f x"
  by (simp_all add: bind_res_def)

lemma bind_res_Inr_iff [res_simps]:
  "bind_res m f = Inr y \<longleftrightarrow> (\<exists>x. m = Inr x \<and> f x = Inr y)"
  by (cases m) auto

lemma bind_res_Inl_iff [res_simps]:
  "bind_res m f = Inl e \<longleftrightarrow> m = Inl e \<or> (\<exists>x. m = Inr x \<and> f x = Inl e)"
  by (cases m) auto

lemma bind_res_InrE:
  assumes "bind_res m f = Inr y"
  obtains x where "m = Inr x" and "f x = Inr y"
  using assms by (auto simp: bind_res_Inr_iff)

text \<open>\<open>guard_res b e\<close>: raise \<open>e\<close> unless \<open>b\<close>.\<close>

definition guard_res :: "bool \<Rightarrow> 'e \<Rightarrow> 'e + unit" where
  "guard_res b e = (if b then Inr () else Inl e)"

lemma guard_res_iff [simp]:
  "guard_res b e = Inr u \<longleftrightarrow> b"
  "guard_res b e = Inl e' \<longleftrightarrow> \<not> b \<and> e' = e"
  by (auto simp: guard_res_def)

text \<open>\<open>try_map g m\<close>: translate the exception of \<open>m\<close>, as \<open>except E as exc: raise F from exc\<close> does.\<close>

definition try_map :: "('e \<Rightarrow> 'f) \<Rightarrow> 'e + 'a \<Rightarrow> 'f + 'a" where
  "try_map g m = (case m of Inl e \<Rightarrow> Inl (g e) | Inr x \<Rightarrow> Inr x)"

lemma try_map_iff [simp]:
  "try_map g m = Inr x \<longleftrightarrow> m = Inr x"
  "try_map g m = Inl e' \<longleftrightarrow> (\<exists>e. m = Inl e \<and> e' = g e)"
  by (cases m; auto simp: try_map_def)+

text \<open>A loop that runs a check on every element and stops at the first exception.\<close>

fun for_each :: "('a \<Rightarrow> 'e + unit) \<Rightarrow> 'a list \<Rightarrow> 'e + unit" where
  "for_each f [] = Inr ()"
| "for_each f (x # xs) = bind_res (f x) (\<lambda>_. for_each f xs)"

lemma for_each_Inr_iff [simp]: "for_each f xs = Inr u \<longleftrightarrow> (\<forall>x \<in> set xs. f x = Inr ())"
  by (induction xs) (auto simp: bind_res_Inr_iff)

text \<open>A list comprehension whose element expression may raise.\<close>

fun map_res :: "('a \<Rightarrow> 'e + 'b) \<Rightarrow> 'a list \<Rightarrow> 'e + 'b list" where
  "map_res f [] = Inr []"
| "map_res f (x # xs) = bind_res (f x) (\<lambda>y. bind_res (map_res f xs) (\<lambda>ys. Inr (y # ys)))"

lemma map_res_Inr_iff: "map_res f xs = Inr ys \<longleftrightarrow> list_all2 (\<lambda>x y. f x = Inr y) xs ys"
  by (induction xs arbitrary: ys) (auto simp: bind_res_Inr_iff list_all2_Cons1)

lemma map_res_total: "(\<And>x. x \<in> set xs \<Longrightarrow> f x = Inr (g x)) \<Longrightarrow> map_res f xs = Inr (map g xs)"
  by (induction xs) auto

lemma map_res_length: "map_res f xs = Inr ys \<Longrightarrow> length ys = length xs"
  by (auto simp: map_res_Inr_iff dest: list_all2_lengthD)

text \<open>A loop that threads a state and may raise.\<close>

fun fold_res :: "('s \<Rightarrow> 'a \<Rightarrow> 'e + 's) \<Rightarrow> 's \<Rightarrow> 'a list \<Rightarrow> 'e + 's" where
  "fold_res f s [] = Inr s"
| "fold_res f s (x # xs) = bind_res (f s x) (\<lambda>t. fold_res f t xs)"

lemma fold_res_append: "fold_res f s (xs @ ys) = bind_res (fold_res f s xs) (\<lambda>t. fold_res f t ys)"
proof (induction xs arbitrary: s)
  case (Cons x xs)
  then show ?case by (cases "f s x") simp_all
qed simp

lemma fold_res_prefix:
  assumes "fold_res f s xs = Inr t" and "P [] s"
    and "\<And>ys y u v. P ys u \<Longrightarrow> y \<in> set xs \<Longrightarrow> f u y = Inr v \<Longrightarrow> P (ys @ [y]) v"
  shows "P xs t"
  using assms(1,3)
proof (induction xs arbitrary: t rule: rev_induct)
  case Nil
  with assms(2) show ?case by simp
next
  case (snoc x xs)
  from snoc.prems(1) obtain u where u: "fold_res f s xs = Inr u" "f u x = Inr t"
    by (auto simp: fold_res_append bind_res_Inr_iff)
  have "P xs u" by (rule snoc.IH [OF u(1)]) (use snoc.prems(2) in auto)
  with u(2) show ?case by (auto intro: snoc.prems(2))
qed

lemma fold_res_total: "(\<And>s x. x \<in> set xs \<Longrightarrow> \<exists>t. f s x = Inr t) \<Longrightarrow> \<exists>t. fold_res f s xs = Inr t"
proof (induction xs arbitrary: s)
  case (Cons x xs)
  then obtain u where "f s x = Inr u" by fastforce
  moreover from Cons.IH [of u] Cons.prems obtain t where "fold_res f u xs = Inr t" by fastforce
  ultimately show ?case by simp
qed simp

text \<open>An invariant of a loop that relates its state to the part of the list done.\<close>

lemma foldl_prefix:
  assumes "P [] s" and "\<And>ys y t. P ys t \<Longrightarrow> y \<in> set xs \<Longrightarrow> P (ys @ [y]) (f t y)"
  shows "P xs (foldl f s xs)"
  using assms(2) by (induction xs rule: rev_induct) (simp_all add: assms(1))

subsection \<open>White space\<close>

text \<open>
  \<open>str.strip()\<close> and \<open>str.split()\<close> use \<open>str.isspace\<close>: on code points below 256 these are TAB,
  LF, VT, FF, CR, the four separators 28 to 31, SPACE, NEL and NBSP. Pydantic's
  \<open>strip_whitespace=True\<close> (the \<open>NonEmptyStr\<close> of \<open>domain/types.py\<close>) trims the Unicode
  \<open>White_Space\<close> characters, which are the same without 28 to 31.
\<close>

definition py_isspace :: "char \<Rightarrow> bool" where
  "py_isspace c \<longleftrightarrow> (let n = (of_char c :: nat) in
     (9 \<le> n \<and> n \<le> 13) \<or> (28 \<le> n \<and> n \<le> 32) \<or> n = 133 \<or> n = 160)"

definition uni_isspace :: "char \<Rightarrow> bool" where
  "uni_isspace c \<longleftrightarrow> (let n = (of_char c :: nat) in
     (9 \<le> n \<and> n \<le> 13) \<or> n = 32 \<or> n = 133 \<or> n = 160)"

definition strip_by :: "('a \<Rightarrow> bool) \<Rightarrow> 'a list \<Rightarrow> 'a list" where
  "strip_by p s = rev (dropWhile p (rev (dropWhile p s)))"

definition py_strip :: "string \<Rightarrow> string" where
  "py_strip = strip_by py_isspace"

definition trim :: "string \<Rightarrow> string" where
  "trim = strip_by uni_isspace"

lemma uni_py_isspace: "uni_isspace c \<Longrightarrow> py_isspace c"
  by (auto simp: uni_isspace_def py_isspace_def Let_def)

lemma strip_by_prefix: "strip_by p s @ rev (takeWhile p (rev (dropWhile p s))) = dropWhile p s"
  by (metis rev_append rev_rev_ident strip_by_def takeWhile_dropWhile_id)

lemma strip_by_hd: "strip_by p s \<noteq> [] \<Longrightarrow> \<not> p (hd (strip_by p s))"
  by (metis append_is_Nil_conv hd_append2 hd_dropWhile strip_by_prefix)

lemma strip_by_last: "strip_by p s \<noteq> [] \<Longrightarrow> \<not> p (last (strip_by p s))"
  by (simp add: strip_by_def last_rev hd_dropWhile)

lemma strip_by_id: "s = [] \<or> \<not> p (hd s) \<and> \<not> p (last s) \<Longrightarrow> strip_by p s = s"
proof (cases s)
  case (Cons c cs)
  assume "s = [] \<or> \<not> p (hd s) \<and> \<not> p (last s)"
  with Cons have h: "\<not> p (hd s)" and "\<not> p (last s)" by auto
  then have l: "\<not> p (hd (rev s))" by (simp only: hd_rev not_False_eq_True)
  from Cons h have 1: "dropWhile p s = s" by simp
  from Cons have "rev s \<noteq> []" by simp
  with l have "dropWhile p (rev s) = rev s" by (cases "rev s") simp_all
  with 1 show ?thesis by (simp add: strip_by_def)
qed (simp add: strip_by_def)

lemma strip_by_idem [simp]: "strip_by p (strip_by p s) = strip_by p s"
  by (rule strip_by_id) (auto dest: strip_by_hd strip_by_last)

lemma trim_idem [simp]: "trim (trim s) = trim s"
  by (simp add: trim_def)

lemma py_strip_idem [simp]: "py_strip (py_strip s) = py_strip s"
  by (simp add: py_strip_def)

lemma strip_by_Nil [simp]: "strip_by p [] = []"
  by (simp add: strip_by_def)

lemma strip_by_eq_Nil_iff: "strip_by p s = [] \<longleftrightarrow> (\<forall>c \<in> set s. p c)"
proof
  assume "\<forall>c \<in> set s. p c"
  then have "dropWhile p s = []" by simp
  then show "strip_by p s = []" by (simp add: strip_by_def del: dropWhile_eq_Nil_conv)
next
  assume "strip_by p s = []"
  then have "\<forall>c \<in> set (dropWhile p s). p c" by (simp add: strip_by_def)
  then have "dropWhile p s = []" by (metis hd_dropWhile hd_in_set)
  then show "\<forall>c \<in> set s. p c" by simp
qed

lemma strip_by_sub: "set (strip_by p s) \<subseteq> set s"
proof
  fix c assume "c \<in> set (strip_by p s)"
  then have "c \<in> set (dropWhile p (rev (dropWhile p s)))" by (simp add: strip_by_def)
  then have "c \<in> set (rev (dropWhile p s))" by (blast dest: set_dropWhileD)
  then show "c \<in> set s" by (auto dest: set_dropWhileD)
qed

text \<open>A string is blank when \<open>strip()\<close> leaves nothing.\<close>

definition nonblank :: "string \<Rightarrow> bool" where
  "nonblank s \<longleftrightarrow> s \<noteq> [] \<and> py_strip s \<noteq> []"

lemma nonblank_trim: "nonblank s \<Longrightarrow> trim s \<noteq> []"
  by (auto simp: nonblank_def trim_def py_strip_def strip_by_eq_Nil_iff dest: uni_py_isspace)

lemma in_dropWhile: "c \<in> set s \<Longrightarrow> \<not> p c \<Longrightarrow> c \<in> set (dropWhile p s)"
  by (induction s) auto

lemma in_strip_by: "c \<in> set s \<Longrightarrow> \<not> p c \<Longrightarrow> c \<in> set (strip_by p s)"
  by (simp add: strip_by_def in_dropWhile)

lemma nonblank_iff: "nonblank s \<longleftrightarrow> (\<exists>c \<in> set s. \<not> py_isspace c)"
  by (auto simp: nonblank_def py_strip_def strip_by_eq_Nil_iff)

lemma nonblank_trimmed: "nonblank s \<Longrightarrow> nonblank (trim s)"
  unfolding nonblank_iff trim_def by (meson in_strip_by uni_py_isspace)

subsection \<open>Numbers as strings\<close>

text \<open>Python's \<open>str(n)\<close> for \<open>n \<ge> 0\<close>.\<close>

fun str_nat :: "nat \<Rightarrow> string" where
  "str_nat n = (if n < 10 then [char_of (48 + n)] else str_nat (n div 10) @ [char_of (48 + n mod 10)])"

declare str_nat.simps [simp del]

definition str_int :: "int \<Rightarrow> string" where
  "str_int i = (if i < 0 then CHR ''-'' # str_nat (nat (- i)) else str_nat (nat i))"

fun nat_of_digits :: "string \<Rightarrow> nat" where
  "nat_of_digits s = foldl (\<lambda>a c. 10 * a + (of_char c - 48)) 0 s"

lemma nat_of_str_nat: "nat_of_digits (str_nat n) = n"
proof (induction n rule: str_nat.induct)
  case (1 n)
  show ?case
  proof (cases "n < 10")
    case True
    then show ?thesis by (simp add: str_nat.simps [of n])
  next
    case False
    with 1 have "foldl (\<lambda>a c. 10 * a + (of_char c - 48)) 0 (str_nat (n div 10)) = n div 10"
      by simp
    moreover have "n mod 10 < 10" by simp
    ultimately show ?thesis using False by (simp add: str_nat.simps [of n])
  qed
qed

lemma str_nat_inj [simp]: "str_nat m = str_nat n \<longleftrightarrow> m = n"
  by (metis nat_of_str_nat)

lemma str_nat_nonempty [simp]: "str_nat n \<noteq> []"
  by (subst str_nat.simps) simp

definition is_digit :: "char \<Rightarrow> bool" where
  "is_digit c \<longleftrightarrow> (let n = (of_char c :: nat) in 48 \<le> n \<and> n \<le> 57)"

lemma str_nat_digits: "c \<in> set (str_nat n) \<Longrightarrow> is_digit c"
proof (induction n rule: str_nat.induct)
  case (1 n)
  have "n mod 10 < 10" by simp
  with 1 show ?case
    by (subst (asm) str_nat.simps) (auto simp: is_digit_def Let_def split: if_splits)
qed

lemma hd_str_nat: "0 < n \<Longrightarrow> hd (str_nat n) \<noteq> CHR ''0''"
proof (induction n rule: str_nat.induct)
  case (1 n)
  show ?case
  proof (cases "n < 10")
    case True
    have "of_char (char_of (48 + n) :: char) = 48 + n" using True by simp
    moreover have "of_char (CHR ''0'') = (48 :: nat)" by simp
    ultimately have "char_of (48 + n) \<noteq> CHR ''0''" using 1 by (metis add_cancel_left_right less_not_refl)
    with True show ?thesis by (subst str_nat.simps) simp
  next
    case False
    with 1 show ?thesis by (subst str_nat.simps) simp
  qed
qed

subsection \<open>Slices and search\<close>

text \<open>\<open>s[i:j]\<close> for \<open>0 \<le> i \<le> j\<close>.\<close>

definition py_slice :: "'a list \<Rightarrow> nat \<Rightarrow> nat \<Rightarrow> 'a list" where
  "py_slice s i j = take (j - i) (drop i s)"

lemma length_py_slice: "i \<le> j \<Longrightarrow> j \<le> length s \<Longrightarrow> length (py_slice s i j) = j - i"
  by (simp add: py_slice_def)

lemma py_slice_full [simp]: "py_slice s 0 (length s) = s"
  by (simp add: py_slice_def)

lemma py_slice_slice:
  "i \<le> a \<Longrightarrow> a \<le> b \<Longrightarrow> b \<le> j \<Longrightarrow> py_slice (py_slice s i j) (a - i) (b - i) = py_slice s a b"
  by (simp add: py_slice_def drop_take)

text \<open>\<open>text.find(pat, start)\<close>: the least index from \<open>start\<close> on at which \<open>pat\<close> occurs.\<close>

fun find_aux :: "'a list \<Rightarrow> 'a list \<Rightarrow> nat \<Rightarrow> nat option" where
  "find_aux pat [] i = (if pat = [] then Some i else None)"
| "find_aux pat (c # cs) i =
     (if take (length pat) (c # cs) = pat then Some i else find_aux pat cs (Suc i))"

definition py_find :: "'a list \<Rightarrow> 'a list \<Rightarrow> nat \<Rightarrow> nat option" where
  "py_find pat text start =
     (if start \<le> length text then find_aux pat (drop start text) start else None)"

definition occurs_at :: "'a list \<Rightarrow> 'a list \<Rightarrow> nat \<Rightarrow> bool" where
  "occurs_at pat text i \<longleftrightarrow> i + length pat \<le> length text \<and> py_slice text i (i + length pat) = pat"

lemma find_aux_shift: "find_aux pat s i = map_option (\<lambda>k. k + i) (find_aux pat s 0)"
proof (induction s arbitrary: i)
  case Nil
  then show ?case by simp
next
  case (Cons c cs)
  have "find_aux pat cs (Suc i) = map_option (\<lambda>k. k + Suc i) (find_aux pat cs 0)"
    by (rule Cons.IH)
  moreover have "find_aux pat cs (Suc 0) = map_option (\<lambda>k. k + Suc 0) (find_aux pat cs 0)"
    by (rule Cons.IH)
  ultimately show ?case by (simp add: option.map_comp comp_def)
qed

lemma occurs_at_take: "occurs_at pat s i \<longleftrightarrow> i \<le> length s \<and> take (length pat) (drop i s) = pat"
proof
  assume a: "i \<le> length s \<and> take (length pat) (drop i s) = pat"
  then have "length (take (length pat) (drop i s)) = length pat" by simp
  then have "length pat \<le> length s - i" by simp
  with a show "occurs_at pat s i" by (auto simp: occurs_at_def py_slice_def)
qed (auto simp: occurs_at_def py_slice_def)

lemma find_aux_0:
  "find_aux pat s 0 = (if \<exists>i. occurs_at pat s i then Some (LEAST i. occurs_at pat s i) else None)"
proof (induction s)
  case Nil
  have o: "occurs_at pat [] i \<longleftrightarrow> i = 0 \<and> pat = []" for i
    by (auto simp: occurs_at_take)
  have "(LEAST i. occurs_at pat [] i) = 0" if "pat = []"
    by (rule Least_equality) (simp_all add: occurs_at_def py_slice_def that)
  then show ?case by (simp add: o)
next
  case (Cons c cs)
  have S: "occurs_at pat (c # cs) (Suc i) \<longleftrightarrow> occurs_at pat cs i" for i
    by (simp add: occurs_at_take)
  have Z: "occurs_at pat (c # cs) 0 \<longleftrightarrow> take (length pat) (c # cs) = pat"
    by (simp add: occurs_at_take)
  show ?case
  proof (cases "occurs_at pat (c # cs) 0")
    case True
    then have "(LEAST i. occurs_at pat (c # cs) i) = 0" by simp
    with True Z show ?thesis by auto
  next
    case False
    have ex: "(\<exists>i. occurs_at pat (c # cs) i) \<longleftrightarrow> (\<exists>i. occurs_at pat cs i)"
      using False S by (metis not0_implies_Suc)
    have lst: "(LEAST i. occurs_at pat (c # cs) i) = Suc (LEAST i. occurs_at pat cs i)"
      if "occurs_at pat cs i" for i
      using Least_Suc [of "occurs_at pat (c # cs)" "Suc i"] that False S by simp
    show ?thesis
    proof (cases "\<exists>i. occurs_at pat cs i")
    case True
    then obtain i where "occurs_at pat cs i" ..
    with False Z True ex lst [of i] show ?thesis
      by (simp add: find_aux_shift [of pat cs "Suc 0"] Cons.IH)
  next
    case none: False
    with False Z ex show ?thesis
      by (simp add: find_aux_shift [of pat cs "Suc 0"] Cons.IH)
  qed  qed
qed

lemma occurs_at_drop: "start \<le> length s \<Longrightarrow> occurs_at pat (drop start s) i \<longleftrightarrow> occurs_at pat s (start + i)"
  by (auto simp: occurs_at_take add.commute)

lemma py_find_Some:
  assumes "py_find pat s start = Some i"
  shows "start \<le> i" and "occurs_at pat s i" and "\<And>j. start \<le> j \<Longrightarrow> j < i \<Longrightarrow> \<not> occurs_at pat s j"
proof -
  from assms have st: "start \<le> length s" and "find_aux pat (drop start s) start = Some i"
    by (auto simp: py_find_def split: if_splits)
  then obtain k where k: "find_aux pat (drop start s) 0 = Some k" and i: "i = k + start"
    by (auto simp: find_aux_shift [of pat _ start])
  from k have ex: "\<exists>j. occurs_at pat (drop start s) j" and l: "k = (LEAST j. occurs_at pat (drop start s) j)"
    by (auto simp: find_aux_0 split: if_splits)
  from ex l have "occurs_at pat (drop start s) k" by (auto intro: LeastI_ex)
  with st i show "occurs_at pat s i" by (simp add: occurs_at_drop add.commute)
  from i show "start \<le> i" by simp
  fix j assume "start \<le> j" "j < i"
  then have "j - start < k" using i by simp
  then have "\<not> occurs_at pat (drop start s) (j - start)" using l not_less_Least by blast
  with st \<open>start \<le> j\<close> show "\<not> occurs_at pat s j" by (simp add: occurs_at_drop)
qed

lemma py_find_None:
  "py_find pat s start = None \<Longrightarrow> start \<le> j \<Longrightarrow> \<not> occurs_at pat s j"
proof
  assume n: "py_find pat s start = None" and sj: "start \<le> j" and oc: "occurs_at pat s j"
  from sj oc have st: "start \<le> length s" by (auto simp: occurs_at_def)
  with n have "find_aux pat (drop start s) 0 = None"
    by (auto simp: py_find_def find_aux_shift [of pat _ start])
  then have "\<not> occurs_at pat (drop start s) (j - start)"
    by (auto simp: find_aux_0 split: if_splits)
  with st sj oc show False by (simp add: occurs_at_drop)
qed

subsection \<open>String methods\<close>

text \<open>\<open>str.lower()\<close> on the code points below 256\<close>

definition py_lower_char :: "char \<Rightarrow> char" where
  "py_lower_char c = (let n = (of_char c :: nat) in
     if (65 \<le> n \<and> n \<le> 90) \<or> (192 \<le> n \<and> n \<le> 222 \<and> n \<noteq> 215) then char_of (n + 32) else c)"

definition py_lower :: "string \<Rightarrow> string" where
  "py_lower = map py_lower_char"

text \<open>\<open>s.split(c)\<close> for one character\<close>

fun split_char :: "char \<Rightarrow> string \<Rightarrow> string list" where
  "split_char c [] = [[]]"
| "split_char c (x # xs) =
     (if x = c then [] # split_char c xs
      else (case split_char c xs of [] \<Rightarrow> [[x]] | p # ps \<Rightarrow> (x # p) # ps))"

text \<open>\<open>s.startswith(p)\<close>, \<open>s.endswith(p)\<close> and \<open>p in s\<close>\<close>

definition starts_with :: "string \<Rightarrow> string \<Rightarrow> bool" where
  "starts_with s p \<longleftrightarrow> take (length p) s = p"

definition ends_with :: "string \<Rightarrow> string \<Rightarrow> bool" where
  "ends_with s suffix \<longleftrightarrow> length suffix \<le> length s \<and> drop (length s - length suffix) s = suffix"

definition py_in :: "string \<Rightarrow> string \<Rightarrow> bool" where
  "py_in p s \<longleftrightarrow> py_find p s 0 \<noteq> None"

definition is_ascii_alnum :: "char \<Rightarrow> bool" where
  "is_ascii_alnum c \<longleftrightarrow> (let n = (of_char c :: nat) in
     (48 \<le> n \<and> n \<le> 57) \<or> (65 \<le> n \<and> n \<le> 90) \<or> (97 \<le> n \<and> n \<le> 122))"

subsection \<open>Dictionaries in insertion order\<close>

text \<open>
  A Python \<open>dict\<close> is an association list with distinct keys: \<open>d[k] = v\<close> is
  \<open>AList.update k v d\<close> (in place when the key is there, else at the end), \<open>d.get(k)\<close> is
  \<open>map_of d k\<close>, and iteration follows the list.
\<close>

abbreviation dict_set :: "'k \<Rightarrow> 'v \<Rightarrow> ('k \<times> 'v) list \<Rightarrow> ('k \<times> 'v) list" where
  "dict_set k v d \<equiv> AList.update k v d"

lemma map_of_dict_set [simp]: "map_of (dict_set k v d) = (map_of d)(k \<mapsto> v)"
  by (rule update_conv')

lemma keys_dict_set: "map fst (dict_set k v d) =
    (if k \<in> set (map fst d) then map fst d else map fst d @ [k])"
  by (induction d) auto

text \<open>\<open>{key(x): x for x in xs}\<close>\<close>

definition dict_by :: "('a \<Rightarrow> 'k) \<Rightarrow> 'a list \<Rightarrow> ('k \<times> 'a) list" where
  "dict_by key xs = foldl (\<lambda>d x. dict_set (key x) x d) [] xs"

lemma distinct_foldl_dict_set:
  "distinct (map fst d) \<Longrightarrow> distinct (map fst (foldl (\<lambda>d x. dict_set (key x) x d) d xs))"
  by (induction xs arbitrary: d) (auto simp: distinct_update)

lemma distinct_dict_by [simp]: "distinct (map fst (dict_by key xs))"
  by (simp add: dict_by_def distinct_foldl_dict_set)

lemma map_of_foldl_dict_set:
  "map_of (foldl (\<lambda>d x. dict_set (key x) x d) d xs) k =
     (case find (\<lambda>x. key x = k) (rev xs) of Some x \<Rightarrow> Some x | None \<Rightarrow> map_of d k)"
  by (induction xs rule: rev_induct) auto

lemma map_of_dict_by: "map_of (dict_by key xs) k = find (\<lambda>x. key x = k) (rev xs)"
  by (simp add: dict_by_def map_of_foldl_dict_set split: option.splits)

lemma dict_by_SomeD: "map_of (dict_by key xs) k = Some x \<Longrightarrow> x \<in> set xs \<and> key x = k"
  by (auto simp: map_of_dict_by find_Some_iff) (metis length_rev nth_mem set_rev)

lemma dict_by_in: "map_of (dict_by key xs) k \<noteq> None \<longleftrightarrow> (\<exists>x \<in> set xs. key x = k)"
  by (auto simp: map_of_dict_by find_None_iff)

lemma dict_by_None: "map_of (dict_by key xs) k = None \<longleftrightarrow> (\<forall>x \<in> set xs. key x \<noteq> k)"
  by (auto simp: map_of_dict_by find_None_iff)

lemma dict_by_distinct:
  assumes "distinct (map key xs)" and "x \<in> set xs"
  shows "map_of (dict_by key xs) (key x) = Some x"
proof -
  from assms(2) obtain y where y: "map_of (dict_by key xs) (key x) = Some y"
    using dict_by_in [of key xs "key x"] by auto
  then have "y \<in> set xs" and "key y = key x" by (blast dest: dict_by_SomeD)+
  with assms have "y = x" by (auto simp: distinct_map inj_on_def)
  with y show ?thesis by simp
qed

lemma update_fresh: "k \<notin> fst ` set d \<Longrightarrow> dict_set k v d = d @ [(k, v)]"
  by (induction d) auto

lemma dict_by_distinct_map: "distinct (map key xs) \<Longrightarrow> dict_by key xs = map (\<lambda>x. (key x, x)) xs"
proof (induction xs rule: rev_induct)
  case (snoc x xs)
  then have "key x \<notin> fst ` set (map (\<lambda>x. (key x, x)) xs)" by auto
  with snoc show ?case by (simp add: dict_by_def update_fresh)
qed (simp add: dict_by_def)

subsection \<open>First occurrences\<close>

text \<open>
  The loop \<open>for x in xs: if x not in seen: seen.add(x); out.append(x)\<close>.
\<close>

definition first_occ :: "'a list \<Rightarrow> 'a list" where
  "first_occ xs = foldl (\<lambda>out x. if x \<in> set out then out else out @ [x]) [] xs"

lemma set_foldl_first_occ:
  "set (foldl (\<lambda>out x. if x \<in> set out then out else out @ [x]) acc xs) = set acc \<union> set xs"
  by (induction xs arbitrary: acc) auto

lemma distinct_foldl_first_occ:
  "distinct acc \<Longrightarrow> distinct (foldl (\<lambda>out x. if x \<in> set out then out else out @ [x]) acc xs)"
  by (induction xs arbitrary: acc) auto

lemma set_first_occ [simp]: "set (first_occ xs) = set xs"
  by (simp add: first_occ_def set_foldl_first_occ)

lemma distinct_first_occ [simp]: "distinct (first_occ xs)"
  by (simp add: first_occ_def distinct_foldl_first_occ)

lemma map_filter_in: "e \<in> set (List.map_filter f xs) \<longleftrightarrow> (\<exists>x \<in> set xs. f x = Some e)"
  by (induction xs) (auto simp: List.map_filter_simps split: option.splits)

lemma distinct_map_via:
  "distinct (map g xs) \<Longrightarrow> (\<And>x y. f x = f y \<Longrightarrow> g x = g y) \<Longrightarrow> distinct (map f xs)"
  unfolding distinct_map inj_on_def by blast

text \<open>\<open>sep.join(xs)\<close>\<close>

fun join :: "string \<Rightarrow> string list \<Rightarrow> string" where
  "join sep [] = []"
| "join sep [x] = x"
| "join sep (x # y # xs) = x @ sep @ join sep (y # xs)"

lemma join_append: "xs \<noteq> [] \<Longrightarrow> join sep (xs @ [y]) = join sep xs @ sep @ y"
  by (induction sep xs rule: join.induct) auto

lemma join_eq_Nil: "(\<And>x. x \<in> set xs \<Longrightarrow> x \<noteq> []) \<Longrightarrow> join sep xs = [] \<longleftrightarrow> xs = []"
  by (induction sep xs rule: join.induct) auto

text \<open>Positions of a list counted from 1, as \<open>enumerate(xs, start=1)\<close> does.\<close>

definition enum1 :: "'a list \<Rightarrow> (nat \<times> 'a) list" where
  "enum1 xs = zip [1 ..< Suc (length xs)] xs"

lemma length_enum1 [simp]: "length (enum1 xs) = length xs"
  by (simp add: enum1_def del: upt_Suc)

lemma enum1_nth: "i < length xs \<Longrightarrow> enum1 xs ! i = (Suc i, xs ! i)"
  by (simp add: enum1_def nth_upt del: upt_Suc)

lemma map_snd_enum1 [simp]: "map snd (enum1 xs) = xs"
  by (simp add: enum1_def del: upt_Suc)

lemma map_fst_enum1 [simp]: "map fst (enum1 xs) = [1 ..< Suc (length xs)]"
  by (simp add: enum1_def del: upt_Suc)

end
