(* ===== verification/Py_Json.thy ===== *)
theory Py_Json
  imports OR_Prelude
begin

section \<open>Python values as the code inspects them\<close>

text \<open>
  The values \<open>json.loads\<close> returns and \<open>model_dump\<close> produces: \<open>None\<close>, booleans, integers,
  floats (finite, as rationals), strings, lists, and dictionaries with string keys in insertion
  order. \<open>dict_get\<close> is \<open>d.get(k)\<close>.
\<close>

type_synonym pyfloat = rat

datatype json =
    JNull
  | JBool bool
  | JInt int
  | JFloat pyfloat
  | JStr string
  | JList "json list"
  | JObj "(string \<times> json) list"

definition dict_get :: "(string \<times> json) list \<Rightarrow> string \<Rightarrow> json" where
  "dict_get d k = (case map_of d k of Some v \<Rightarrow> v | None \<Rightarrow> JNull)"

definition json_opt :: "('a \<Rightarrow> json) \<Rightarrow> 'a option \<Rightarrow> json" where
  "json_opt f x = (case x of None \<Rightarrow> JNull | Some y \<Rightarrow> f y)"

lemma json_opt_simps [simp]: "json_opt f None = JNull" "json_opt f (Some y) = f y"
  by (simp_all add: json_opt_def)

text \<open>A dump of an optional field is injective when the dump is and never yields \<open>JNull\<close>.\<close>

lemma json_opt_inj:
  assumes "\<And>x y. f x = f y \<Longrightarrow> x = y" and "\<And>x. f x \<noteq> JNull"
  shows "json_opt f a = json_opt f b \<longleftrightarrow> a = b"
proof (cases a)
  case None
  then show ?thesis using assms(2) by (cases b) (auto dest: sym)
next
  case (Some x)
  then show ?thesis using assms by (cases b) auto
qed

lemma map_json_inj:
  assumes "\<And>x y. f x = f y \<Longrightarrow> x = y"
  shows "map f xs = map f ys \<longleftrightarrow> xs = ys"
  using assms by (metis injI inj_map_eq_map)

text \<open>What the properties ask of the rounding of float operations.\<close>

definition float_rounding :: "(pyfloat \<Rightarrow> pyfloat) \<Rightarrow> bool" where
  "float_rounding rnd \<longleftrightarrow> mono rnd \<and> rnd 0 = 0 \<and> rnd 1 = 1 \<and> (\<forall>x. rnd (rnd x) = rnd x)"

lemma float_rounding_facts:
  assumes "float_rounding rnd"
  shows "x \<le> y \<Longrightarrow> rnd x \<le> rnd y" and "0 \<le> x \<Longrightarrow> 0 \<le> rnd x" and "1 \<le> x \<Longrightarrow> 1 \<le> rnd x"
  using assms monoD [of rnd 0 x] monoD [of rnd 1 x] by (auto simp: float_rounding_def dest: monoD)

end
