(* ===== verification/Context_Contracts.thy ===== *)
theory Context_Contracts
  imports Py_Json
begin

section \<open>Contracts of context assembly (context/contracts.py, domain/indexing.py, domain/documents.py)\<close>

text \<open>
  The stop reasons of an assembly, chunks and evidence units with the checks of their Pydantic
  models, and the assembly diagnostics.
\<close>

subsection \<open>Stop reasons\<close>

text \<open>The assembly stop reasons of \<open>context/contracts.py\<close>.\<close>

datatype assembly_stop_reason =
    STOP_COMPLETED
  | STOP_BUDGET_EXHAUSTED
  | STOP_CHILD_WOULD_NOT_FIT
  | STOP_PARENT_CLIPPED_TO_BUDGET
  | STOP_NO_ANCHORS
  | STOP_ANCHOR_WOULD_NOT_FIT

fun stop_value :: "assembly_stop_reason \<Rightarrow> string" where
  "stop_value STOP_COMPLETED = ''completed''"
| "stop_value STOP_BUDGET_EXHAUSTED = ''budget_exhausted''"
| "stop_value STOP_CHILD_WOULD_NOT_FIT = ''child_would_not_fit''"
| "stop_value STOP_PARENT_CLIPPED_TO_BUDGET = ''parent_clipped_to_budget''"
| "stop_value STOP_NO_ANCHORS = ''no_anchors''"
| "stop_value STOP_ANCHOR_WOULD_NOT_FIT = ''anchor_would_not_fit''"

definition all_stop_reasons :: "assembly_stop_reason list" where
  "all_stop_reasons = [STOP_COMPLETED, STOP_BUDGET_EXHAUSTED, STOP_CHILD_WOULD_NOT_FIT,
     STOP_PARENT_CLIPPED_TO_BUDGET, STOP_NO_ANCHORS, STOP_ANCHOR_WOULD_NOT_FIT]"

definition CONTEXT_STOP_REASONS_V1 :: "string list" where
  "CONTEXT_STOP_REASONS_V1 = map stop_value all_stop_reasons"

text \<open>\<open>AssemblyStopReasonV1(value)\<close>, \<open>None\<close> where the enum lookup raises.\<close>

definition stop_of_value :: "string \<Rightarrow> assembly_stop_reason option" where
  "stop_of_value v = find (\<lambda>r. stop_value r = v) all_stop_reasons"

lemma stop_of_value_inverse [simp]: "stop_of_value (stop_value r) = Some r"
  by (cases r) (simp_all add: stop_of_value_def all_stop_reasons_def)

lemma stop_of_value_known: "v \<in> set CONTEXT_STOP_REASONS_V1 \<longleftrightarrow> (\<exists>r. stop_of_value v = Some r)"
proof
  assume "v \<in> set CONTEXT_STOP_REASONS_V1"
  then obtain r where "v = stop_value r" by (auto simp: CONTEXT_STOP_REASONS_V1_def)
  then show "\<exists>r. stop_of_value v = Some r" by simp
next
  assume "\<exists>r. stop_of_value v = Some r"
  then show "v \<in> set CONTEXT_STOP_REASONS_V1"
    by (auto simp: stop_of_value_def CONTEXT_STOP_REASONS_V1_def find_Some_iff)
qed

subsection \<open>Chunks\<close>

datatype chunk_kind = PARENT | CHILD

record chunk =
  ck_chunk_id :: string
  ck_document_id :: string
  ck_kind :: chunk_kind
  ck_parent_chunk_id :: "string option"
  ck_text :: string
  ck_page_start :: "nat option"
  ck_page_end :: "nat option"
  ck_line_start :: "nat option"
  ck_line_end :: "nat option"
  ck_section_path :: "string list"
  ck_order :: nat
  ck_token_count :: nat
  ck_content_type :: string
  ck_content_hash :: string
  ck_source_block_ids :: "string list"
  ck_previous_chunk_id :: "string option"
  ck_next_chunk_id :: "string option"
  ck_metadata :: "(string \<times> json) list"

definition range_reversed :: "nat option \<Rightarrow> nat option \<Rightarrow> bool" where
  "range_reversed a b = (case (a, b) of (Some i, Some j) \<Rightarrow> j < i | _ \<Rightarrow> False)"

text \<open>The model validator \<open>Chunk._validate_chunk\<close>.\<close>

definition validate_chunk :: "chunk \<Rightarrow> string + chunk" where
  "validate_chunk c =
     (if range_reversed (ck_page_start c) (ck_page_end c) then Inl ''page_end must be >= page_start''
      else if range_reversed (ck_line_start c) (ck_line_end c) then
        Inl ''line_end must be >= line_start''
      else if ck_source_block_ids c = [] then Inl ''source_block_ids must be non-empty''
      else if ck_kind c = PARENT then
        (if ck_parent_chunk_id c \<noteq> None then Inl ''parent chunks cannot have parent_chunk_id''
         else if ck_previous_chunk_id c \<noteq> None \<or> ck_next_chunk_id c \<noteq> None then
           Inl ''parent chunks cannot have neighbor links''
         else Inr c)
      else Inr c)"

text \<open>The Pydantic string type \<open>NonEmptyStr\<close> (strip white space, then at least one character).\<close>

definition nonempty_str :: "string \<Rightarrow> string option" where
  "nonempty_str s = (let t = trim s in if t = [] then None else Some t)"

definition is_nonempty_str :: "string \<Rightarrow> bool" where
  "is_nonempty_str s \<longleftrightarrow> nonempty_str s = Some s"

lemma nonempty_str_SomeD: "nonempty_str s = Some t \<Longrightarrow> is_nonempty_str t \<and> t = trim s"
  by (auto simp: nonempty_str_def is_nonempty_str_def Let_def split: if_splits)

lemma is_nonempty_str_iff: "is_nonempty_str s \<longleftrightarrow> s \<noteq> [] \<and> trim s = s"
  by (auto simp: nonempty_str_def is_nonempty_str_def Let_def)

text \<open>What the field types of a constructed chunk guarantee of the strings the assembly uses.\<close>

definition wf_chunk :: "chunk \<Rightarrow> bool" where
  "wf_chunk c \<longleftrightarrow> is_nonempty_str (ck_chunk_id c) \<and> is_nonempty_str (ck_document_id c) \<and>
     is_nonempty_str (ck_text c) \<and> (\<forall>p. ck_parent_chunk_id c = Some p \<longrightarrow> is_nonempty_str p)"

subsection \<open>Exceptions of context expansion\<close>

text \<open>
  \<open>Conversion_Error\<close> is the \<open>TypeError\<close> or \<open>ValueError\<close> of \<open>int(x)\<close>; \<open>Unit_Validation_Error\<close> the
  validation error of an evidence unit with an empty string field.
\<close>

datatype context_exc =
    Context_Structure_Error string
  | Conversion_Error
  | Unit_Validation_Error

subsection \<open>Evidence units\<close>

datatype unit_kind = Parent_Unit | Child_Unit

record evidence_clip_info =
  cl_contract :: string
  cl_start_char :: nat
  cl_end_char :: nat
  cl_anchor_start_char :: nat
  cl_anchor_end_char :: nat
  cl_original_token_count :: nat
  cl_emitted_token_count :: nat

record evidence_unit =
  eu_evidence_unit_id :: string
  eu_source_chunk_id :: string
  eu_kind :: unit_kind
  eu_text :: string
  eu_clipped :: bool
  eu_token_count :: nat
  eu_primary_anchor_chunk_id :: string
  eu_contributing_anchor_chunk_ids :: "string list"
  eu_document_id :: string
  eu_parent_chunk_id :: "string option"
  eu_section_path :: "string list"
  eu_page_start :: "nat option"
  eu_page_end :: "nat option"
  eu_line_start :: "nat option"
  eu_line_end :: "nat option"
  eu_clip :: "evidence_clip_info option"
  eu_relationship :: "string option"
  eu_distance :: "nat option"

definition req_str :: "string \<Rightarrow> context_exc + string" where
  "req_str s = (case nonempty_str s of None \<Rightarrow> Inl Unit_Validation_Error | Some t \<Rightarrow> Inr t)"

definition opt_str :: "string option \<Rightarrow> context_exc + string option" where
  "opt_str s = (case s of None \<Rightarrow> Inr None | Some v \<Rightarrow> bind_res (req_str v) (\<lambda>t. Inr (Some t)))"

text \<open>
  The constructor \<open>EvidenceUnit(...)\<close>: every \<open>NonEmptyStr\<close> field, the text among them, is stored
  stripped of surrounding white space.
\<close>

definition mk_evidence_unit :: "evidence_unit \<Rightarrow> context_exc + evidence_unit" where
  "mk_evidence_unit u =
     bind_res (req_str (eu_evidence_unit_id u)) (\<lambda>unit_id.
     bind_res (req_str (eu_source_chunk_id u)) (\<lambda>source.
     bind_res (req_str (eu_text u)) (\<lambda>text.
     bind_res (req_str (eu_primary_anchor_chunk_id u)) (\<lambda>primary.
     bind_res (map_res req_str (eu_contributing_anchor_chunk_ids u)) (\<lambda>contributing.
     bind_res (req_str (eu_document_id u)) (\<lambda>document.
     bind_res (opt_str (eu_parent_chunk_id u)) (\<lambda>parent.
     bind_res (opt_str (eu_relationship u)) (\<lambda>relationship.
     Inr (u\<lparr>eu_evidence_unit_id := unit_id, eu_source_chunk_id := source, eu_text := text,
            eu_primary_anchor_chunk_id := primary,
            eu_contributing_anchor_chunk_ids := contributing, eu_document_id := document,
            eu_parent_chunk_id := parent, eu_relationship := relationship\<rparr>)))))))))"

lemma req_str_Inr: "req_str s = Inr t \<longleftrightarrow> trim s = t \<and> t \<noteq> []"
  by (auto simp: req_str_def nonempty_str_def Let_def)

lemma req_str_id: "is_nonempty_str s \<Longrightarrow> req_str s = Inr s"
  by (simp add: req_str_Inr is_nonempty_str_iff)

lemma opt_str_id: "(\<And>v. s = Some v \<Longrightarrow> is_nonempty_str v) \<Longrightarrow> opt_str s = Inr s"
  by (cases s) (simp_all add: opt_str_def req_str_id)

lemma mk_evidence_unit_InrD:
  assumes "mk_evidence_unit u = Inr v"
  shows "eu_text v = trim (eu_text u)" and "eu_text v \<noteq> []"
    and "eu_source_chunk_id v = trim (eu_source_chunk_id u)"
    and "eu_document_id v = trim (eu_document_id u)"
    and "eu_kind v = eu_kind u" and "eu_clipped v = eu_clipped u" and "eu_clip v = eu_clip u"
    and "eu_primary_anchor_chunk_id v = trim (eu_primary_anchor_chunk_id u)"
    and "eu_contributing_anchor_chunk_ids v = map trim (eu_contributing_anchor_chunk_ids u)"
    and "eu_evidence_unit_id v = trim (eu_evidence_unit_id u)"
    and "eu_parent_chunk_id v = map_option trim (eu_parent_chunk_id u)"
proof -
  have m: "map_res req_str xs = Inr ys \<Longrightarrow> ys = map trim xs" for xs ys
    by (induction xs arbitrary: ys) (auto simp: bind_res_Inr_iff req_str_Inr)
  have o: "opt_str s = Inr t \<Longrightarrow> t = map_option trim s" for s t
    by (cases s) (auto simp: opt_str_def bind_res_Inr_iff req_str_Inr)
  from assms obtain a b c d e f g h where "req_str (eu_text u) = Inr c"
    "req_str (eu_source_chunk_id u) = Inr b" "req_str (eu_document_id u) = Inr f"
    "req_str (eu_primary_anchor_chunk_id u) = Inr d" "req_str (eu_evidence_unit_id u) = Inr a"
    "map_res req_str (eu_contributing_anchor_chunk_ids u) = Inr e"
    "opt_str (eu_parent_chunk_id u) = Inr g"
    "v = u\<lparr>eu_evidence_unit_id := a, eu_source_chunk_id := b, eu_text := c,
            eu_primary_anchor_chunk_id := d, eu_contributing_anchor_chunk_ids := e,
            eu_document_id := f, eu_parent_chunk_id := g, eu_relationship := h\<rparr>"
    unfolding mk_evidence_unit_def by (elim bind_res_InrE) auto
  then show "eu_text v = trim (eu_text u)" and "eu_text v \<noteq> []"
    and "eu_source_chunk_id v = trim (eu_source_chunk_id u)"
    and "eu_document_id v = trim (eu_document_id u)"
    and "eu_kind v = eu_kind u" and "eu_clipped v = eu_clipped u" and "eu_clip v = eu_clip u"
    and "eu_primary_anchor_chunk_id v = trim (eu_primary_anchor_chunk_id u)"
    and "eu_contributing_anchor_chunk_ids v = map trim (eu_contributing_anchor_chunk_ids u)"
    and "eu_evidence_unit_id v = trim (eu_evidence_unit_id u)"
    and "eu_parent_chunk_id v = map_option trim (eu_parent_chunk_id u)"
    by (auto simp: req_str_Inr dest: m o)
qed

text \<open>The strings by which a unit is cited.\<close>

definition unit_named :: "evidence_unit \<Rightarrow> bool" where
  "unit_named u \<longleftrightarrow> is_nonempty_str (eu_evidence_unit_id u) \<and> nonblank (eu_evidence_unit_id u) \<and>
     is_nonempty_str (eu_source_chunk_id u) \<and> is_nonempty_str (eu_document_id u) \<and>
     is_nonempty_str (eu_primary_anchor_chunk_id u)"

lemma mk_evidence_unit_named:
  assumes "mk_evidence_unit u = Inr v" and "nonblank (eu_evidence_unit_id u)"
  shows "unit_named v"
proof -
  have clean: "is_nonempty_str t" if "req_str s = Inr t" for s t
    using that by (auto simp: req_str_Inr is_nonempty_str_iff)
  from assms(1) obtain b d f where "req_str (eu_source_chunk_id u) = Inr b"
    "req_str (eu_document_id u) = Inr f" "req_str (eu_primary_anchor_chunk_id u) = Inr d"
    unfolding mk_evidence_unit_def by (elim bind_res_InrE) auto
  then have "is_nonempty_str (eu_source_chunk_id v)" "is_nonempty_str (eu_document_id v)"
    "is_nonempty_str (eu_primary_anchor_chunk_id v)"
    using clean mk_evidence_unit_InrD(3,4,8) [OF assms(1)] by (metis req_str_Inr)+
  then show ?thesis
    using mk_evidence_unit_InrD(10) [OF assms(1)] nonblank_trimmed [OF assms(2)] nonblank_trim [OF assms(2)]
    by (simp add: unit_named_def is_nonempty_str_iff)
qed


subsection \<open>Diagnostics\<close>

record assembly_diagnostics =
  ad_requested_anchor_k :: nat
  ad_actual_anchor_count :: nat
  ad_anchors_processed :: nat
  ad_evidence_unit_count :: nat
  ad_context_token_count :: nat
  ad_budget_exhausted :: bool
  ad_stop_reason :: assembly_stop_reason
  ad_clipping_occurred :: bool
  ad_dedup_hits :: nat
  ad_containment_suppressions :: nat

end
