(* ===== verification/Retrieval_Types.thy ===== *)
theory Retrieval_Types
  imports Context_Contracts "HOL-Library.Multiset"
begin

section \<open>Retrieval records and shared checks\<close>

text \<open>
  The records of \<open>domain/indexing.py\<close> that the retrieval stages exchange, the corpus name check
  of \<open>ingestion/discovery.py\<close>, the document-scope check of \<open>retrieval/scope.py\<close>, and the
  interface of a scoped retriever. The fields of \<open>DenseCandidate\<close>, \<open>LexicalCandidate\<close>,
  \<open>HybridCandidate\<close> and \<open>HybridRerankCandidate\<close> that the code shares are one record,
  \<open>candidate_core\<close>, which the others extend; the free-form \<open>metadata\<close> dictionaries no stage
  reads are left out. A value of these records stands for a constructed Pydantic model: strings
  of type \<open>NonEmptyStr\<close> are trimmed and nonempty (\<open>wf_core\<close>).
\<close>

subsection \<open>Exceptions of the retrieval stages\<close>

text \<open>\<open>Branch_Error\<close> is an exception of an injected retriever, by its \<open>str\<close>.\<close>

datatype retrieval_exc =
    Hybrid_Retrieval_Error string
  | Hybrid_Rerank_Error string
  | Discovery_Error string
  | Value_Error string
  | Branch_Error string

subsection \<open>Candidates\<close>

record candidate_core =
  cd_rank :: nat
  cd_score :: pyfloat
  cd_chunk_id :: string
  cd_document_id :: string
  cd_parent_chunk_id :: "string option"
  cd_previous_chunk_id :: "string option"
  cd_next_chunk_id :: "string option"
  cd_text :: string
  cd_section_path :: "string list"
  cd_page_start :: "nat option"
  cd_page_end :: "nat option"
  cd_line_start :: "nat option"
  cd_line_end :: "nat option"
  cd_token_count :: nat
  cd_chunk_artifact_id :: "string option"

record dense_candidate = candidate_core +
  dn_point_id :: "string option"
  dn_embedding_id :: "string option"

type_synonym lexical_candidate = candidate_core

record fusion_provenance =
  fp_rrf_score :: pyfloat
  fp_dense_rank :: "int option"
  fp_dense_score :: "pyfloat option"
  fp_lexical_rank :: "int option"
  fp_lexical_score :: "pyfloat option"

record hybrid_candidate = candidate_core +
  hc_fusion :: fusion_provenance

record hybrid_rerank_provenance =
  rp_reranker_score :: pyfloat
  rp_hybrid_rank :: nat
  rp_rrf_score :: pyfloat
  rp_dense_rank :: "int option"
  rp_dense_score :: "pyfloat option"
  rp_lexical_rank :: "int option"
  rp_lexical_score :: "pyfloat option"

record hybrid_rerank_candidate = candidate_core +
  hc_rerank :: hybrid_rerank_provenance

definition wf_core :: "'a candidate_core_scheme \<Rightarrow> bool" where
  "wf_core c \<longleftrightarrow> 1 \<le> cd_rank c \<and> is_nonempty_str (cd_chunk_id c) \<and>
     is_nonempty_str (cd_document_id c) \<and> is_nonempty_str (cd_text c)"

text \<open>The fields a stage copies from its source candidate.\<close>

definition core_of :: "'a candidate_core_scheme \<Rightarrow> candidate_core" where
  "core_of c = candidate_core.truncate c"

lemma core_of_sel [simp]:
  "cd_rank (core_of c) = cd_rank c" "cd_score (core_of c) = cd_score c"
  "cd_chunk_id (core_of c) = cd_chunk_id c" "cd_document_id (core_of c) = cd_document_id c"
  "cd_text (core_of c) = cd_text c" "cd_token_count (core_of c) = cd_token_count c"
  by (simp_all add: core_of_def candidate_core.truncate_def)

subsection \<open>Corpus names\<close>

text \<open>\<open>[A-Za-z0-9][A-Za-z0-9._-]{0,63}\<close>, matched in full.\<close>

definition corpus_name_start :: "char \<Rightarrow> bool" where
  "corpus_name_start c \<longleftrightarrow> (let n = (of_char c :: nat) in
     (65 \<le> n \<and> n \<le> 90) \<or> (97 \<le> n \<and> n \<le> 122) \<or> (48 \<le> n \<and> n \<le> 57))"

definition corpus_name_char :: "char \<Rightarrow> bool" where
  "corpus_name_char c \<longleftrightarrow> corpus_name_start c \<or> c \<in> {CHR ''.'', CHR ''_'', CHR ''-''}"

definition validate_corpus_name :: "string \<Rightarrow> retrieval_exc + string" where
  "validate_corpus_name name =
     (if name = [] \<or> py_strip name = [] then
        Inl (Discovery_Error ''corpus name must be non-empty'')
      else if \<not> (corpus_name_start (hd name) \<and> list_all corpus_name_char (tl name) \<and>
                 length (tl name) \<le> 63) then
        Inl (Discovery_Error (''invalid corpus name; use [A-Za-z0-9][A-Za-z0-9._-]{0,63} '' @
          ''without path separators or traversal''))
      else Inr name)"

subsection \<open>Document scope\<close>

fun assert_document_scope ::
    "(string \<Rightarrow> 'e) \<Rightarrow> string \<Rightarrow> string set option \<Rightarrow> 'a candidate_core_scheme list \<Rightarrow> 'e + unit" where
  "assert_document_scope error_cls stage None cs = Inr ()"
| "assert_document_scope error_cls stage (Some ids) [] = Inr ()"
| "assert_document_scope error_cls stage (Some ids) (c # cs) =
     (if cd_document_id c \<notin> ids then
        Inl (error_cls (''scoped '' @ stage @ '' candidate escaped allowed document set: '' @
          cd_document_id c))
      else assert_document_scope error_cls stage (Some ids) cs)"

definition in_scope :: "string set option \<Rightarrow> string \<Rightarrow> bool" where
  "in_scope scope d \<longleftrightarrow> (\<forall>ids. scope = Some ids \<longrightarrow> d \<in> ids)"

lemma in_scope_simps [simp]: "in_scope None d" "in_scope (Some ids) d \<longleftrightarrow> d \<in> ids"
  by (simp_all add: in_scope_def)

lemma assert_document_scope_iff [simp]:
  "assert_document_scope err stage scope cs = Inr u \<longleftrightarrow>
     (\<forall>c \<in> set cs. in_scope scope (cd_document_id c))"
  by (induction err stage scope cs rule: assert_document_scope.induct) auto

subsection \<open>Interface: a retriever that respects its document scope\<close>

text \<open>
  What the next stage relies on: every document a successful call returns is in the scope it was
  called with. A stage that only reorders, truncates or re-labels what it was given keeps that.
\<close>

locale scoped_retriever =
  fixes retrieve :: "'q \<Rightarrow> 'e + 'r"
    and scope_of :: "'q \<Rightarrow> string set option"
    and documents :: "'r \<Rightarrow> string list"
  assumes in_scope_law: "retrieve q = Inr r \<Longrightarrow> d \<in> set (documents r) \<Longrightarrow> in_scope (scope_of q) d"
begin

lemma selection_in_scope:
  "retrieve q = Inr r \<Longrightarrow> set ds \<subseteq> set (documents r) \<Longrightarrow> \<forall>d \<in> set ds. in_scope (scope_of q) d"
  by (blast intro: in_scope_law)

lemma empty_scope:
  "retrieve q = Inr r \<Longrightarrow> scope_of q = Some {} \<Longrightarrow> documents r = []"
  using in_scope_law [of q r] by (cases "documents r") auto

end

subsection \<open>Sorting by an injective key\<close>

lemma sort_key_perm_eq:
  assumes "inj_on f (set xs)" and "mset xs = mset ys"
  shows "sort_key f xs = sort_key f ys"
  by (rule sort_key_inj_key_eq [OF _ assms(1)]) (simp_all add: assms(2))

lemma set_take_subset_sort: "set (take n (sort_key f xs)) \<subseteq> set xs"
  using set_take_subset [of n "sort_key f xs"] by simp

lemma sorted_take_map: "sorted (map f xs) \<Longrightarrow> sorted (map f (take n xs))"
  by (simp add: take_map [symmetric] sorted_wrt_take)

end
