(* ===== verification/Fusion.thy ===== *)
theory Fusion
  imports Retrieval_Types
begin

section \<open>Reciprocal rank fusion (hybrid/fusion.py)\<close>

text \<open>
  \<open>rrf-v1\<close>: de-duplication of a branch, the equal-weight score and the final order. Python
  floats are rationals, and every float operation is followed by the rounding \<open>rnd\<close>, a parameter;
  the theorems that compare scores assume it is monotone, as IEEE rounding is. The code iterates
  over a Python \<open>set\<close> of chunk ids, whose order is not specified: \<open>fuse_over\<close> takes the iteration
  order as an argument, and the lemma \<open>fuse_over_perm\<close> shows that it does not matter.
\<close>

record branch_hit =
  bh_chunk_id :: string
  bh_rank :: int
  bh_score :: pyfloat

record fused_hit =
  fh_chunk_id :: string
  fh_rrf_score :: pyfloat
  fh_dense_rank :: "int option"
  fh_dense_score :: "pyfloat option"
  fh_lexical_rank :: "int option"
  fh_lexical_score :: "pyfloat option"

fun unique_loop ::
    "string \<Rightarrow> (string \<times> branch_hit) list \<Rightarrow> branch_hit list \<Rightarrow>
     retrieval_exc + (string \<times> branch_hit) list" where
  "unique_loop branch seen [] = Inr seen"
| "unique_loop branch seen (hit # hits) =
     (if bh_rank hit < 1 then
        Inl (Value_Error (branch @ '' ranks must be 1-based (got '' @ str_int (bh_rank hit) @ '')''))
      else (case map_of seen (bh_chunk_id hit) of
          None \<Rightarrow> unique_loop branch (dict_set (bh_chunk_id hit) hit seen) hits
        | Some existing \<Rightarrow>
            if bh_rank hit < bh_rank existing
            then unique_loop branch (dict_set (bh_chunk_id hit) hit seen) hits
            else unique_loop branch seen hits))"

definition unique_branch_hits :: "string \<Rightarrow> branch_hit list \<Rightarrow> retrieval_exc + branch_hit list" where
  "unique_branch_hits branch hits =
     bind_res (unique_loop branch [] hits) (\<lambda>seen.
       Inr (sort_key (\<lambda>h. (bh_rank h, bh_chunk_id h)) (map snd seen)))"

text \<open>\<open>ReciprocalRankFusion.__init__\<close>\<close>

definition rrf_init :: "int \<Rightarrow> retrieval_exc + int" where
  "rrf_init k = (if k < 1 then Inl (Value_Error ''rrf_k must be >= 1'') else Inr k)"

definition rrf_term :: "(pyfloat \<Rightarrow> pyfloat) \<Rightarrow> int \<Rightarrow> int \<Rightarrow> pyfloat" where
  "rrf_term rnd k r = rnd (1 / rnd (of_int (k + r)))"

definition rrf_score ::
    "(pyfloat \<Rightarrow> pyfloat) \<Rightarrow> int \<Rightarrow> int option \<Rightarrow> int option \<Rightarrow> pyfloat" where
  "rrf_score rnd k dense_rank lexical_rank =
     (let score = 0;
          score = (case dense_rank of Some r \<Rightarrow> rnd (score + rrf_term rnd k r) | None \<Rightarrow> score)
      in (case lexical_rank of Some r \<Rightarrow> rnd (score + rrf_term rnd k r) | None \<Rightarrow> score))"

definition fused_hit_of ::
    "(pyfloat \<Rightarrow> pyfloat) \<Rightarrow> int \<Rightarrow> (string \<times> branch_hit) list \<Rightarrow> (string \<times> branch_hit) list \<Rightarrow>
     string \<Rightarrow> fused_hit" where
  "fused_hit_of rnd k dense_by_id lexical_by_id cid =
     (let dense_hit = map_of dense_by_id cid; lexical_hit = map_of lexical_by_id cid
      in \<lparr>fh_chunk_id = cid,
          fh_rrf_score = rrf_score rnd k (map_option bh_rank dense_hit) (map_option bh_rank lexical_hit),
          fh_dense_rank = map_option bh_rank dense_hit,
          fh_dense_score = map_option bh_score dense_hit,
          fh_lexical_rank = map_option bh_rank lexical_hit,
          fh_lexical_score = map_option bh_score lexical_hit\<rparr>)"

definition fuse_key :: "fused_hit \<Rightarrow> pyfloat \<times> string" where
  "fuse_key h = (- fh_rrf_score h, fh_chunk_id h)"

definition fuse_over ::
    "(pyfloat \<Rightarrow> pyfloat) \<Rightarrow> int \<Rightarrow> (string \<times> branch_hit) list \<Rightarrow> (string \<times> branch_hit) list \<Rightarrow>
     string list \<Rightarrow> fused_hit list" where
  "fuse_over rnd k dense_by_id lexical_by_id chunk_ids =
     sort_key fuse_key (map (fused_hit_of rnd k dense_by_id lexical_by_id) chunk_ids)"

definition fuse ::
    "(pyfloat \<Rightarrow> pyfloat) \<Rightarrow> int \<Rightarrow> branch_hit list \<Rightarrow> branch_hit list \<Rightarrow>
     retrieval_exc + fused_hit list" where
  "fuse rnd k dense lexical =
     bind_res (unique_branch_hits ''dense'' dense) (\<lambda>dense_hits.
     bind_res (unique_branch_hits ''lexical'' lexical) (\<lambda>lexical_hits.
       let dense_by_id = dict_by bh_chunk_id dense_hits;
           lexical_by_id = dict_by bh_chunk_id lexical_hits;
           chunk_ids = first_occ (map fst dense_by_id @ map fst lexical_by_id)
       in Inr (fuse_over rnd k dense_by_id lexical_by_id chunk_ids)))"

subsection \<open>De-duplication keeps a best hit of every chunk\<close>

definition best_hit :: "branch_hit list \<Rightarrow> string \<Rightarrow> branch_hit \<Rightarrow> bool" where
  "best_hit hits cid h \<longleftrightarrow> h \<in> set hits \<and> bh_chunk_id h = cid \<and>
     (\<forall>h' \<in> set hits. bh_chunk_id h' = cid \<longrightarrow> bh_rank h \<le> bh_rank h')"

definition best_map :: "branch_hit list \<Rightarrow> (string \<Rightarrow> branch_hit option) \<Rightarrow> bool" where
  "best_map hits m \<longleftrightarrow> (\<forall>cid. case m cid of
       Some h \<Rightarrow> best_hit hits cid h
     | None \<Rightarrow> (\<forall>h \<in> set hits. bh_chunk_id h \<noteq> cid))"

lemma best_map_SomeD: "best_map hits m \<Longrightarrow> m cid = Some h \<Longrightarrow> best_hit hits cid h"
  by (auto simp: best_map_def dest: spec [of _ cid])

lemma best_map_None: "best_map hits m \<Longrightarrow> m cid = None \<longleftrightarrow> (\<forall>h \<in> set hits. bh_chunk_id h \<noteq> cid)"
  by (cases "m cid") (auto simp: best_map_def best_hit_def dest!: spec [of _ cid])

lemma best_map_snoc:
  assumes "best_map hits m"
  shows "best_map (hits @ [h]) (case m (bh_chunk_id h) of
      None \<Rightarrow> m(bh_chunk_id h \<mapsto> h)
    | Some ex \<Rightarrow> if bh_rank h < bh_rank ex then m(bh_chunk_id h \<mapsto> h) else m)"
    (is "best_map _ ?m")
proof -
  have "case ?m cid of Some x \<Rightarrow> best_hit (hits @ [h]) cid x
      | None \<Rightarrow> (\<forall>x \<in> set (hits @ [h]). bh_chunk_id x \<noteq> cid)" for cid
  proof (cases "m cid")
    case None
    with assms have "\<forall>x \<in> set hits. bh_chunk_id x \<noteq> cid" by (simp add: best_map_None)
    with None show ?thesis
      by (cases "cid = bh_chunk_id h") (auto simp: best_hit_def split: option.split)
  next
    case (Some ex)
    with assms have b: "best_hit hits cid ex" by (rule best_map_SomeD)
    show ?thesis
    proof (cases "cid = bh_chunk_id h")
      case True
      with Some b show ?thesis by (fastforce simp: best_hit_def)
    next
      case False
      with Some b show ?thesis by (auto simp: best_hit_def split: option.split)
    qed
  qed
  then show ?thesis by (simp add: best_map_def)
qed

lemma unique_loop_best:
  assumes "unique_loop branch seen hits = Inr seen'" and "best_map done (map_of seen)"
  shows "best_map (done @ hits) (map_of seen')"
  using assms
proof (induction hits arbitrary: seen "done")
  case (Cons h hits)
  define seen1 where "seen1 = (case map_of seen (bh_chunk_id h) of
      None \<Rightarrow> dict_set (bh_chunk_id h) h seen
    | Some ex \<Rightarrow> if bh_rank h < bh_rank ex then dict_set (bh_chunk_id h) h seen else seen)"
  from Cons.prems(1) have r: "unique_loop branch seen1 hits = Inr seen'"
    by (auto simp: seen1_def split: if_splits option.splits)
  from best_map_snoc [OF Cons.prems(2), of h] have "best_map (done @ [h]) (map_of seen1)"
    by (cases "map_of seen (bh_chunk_id h)") (simp_all add: seen1_def split: if_splits)
  from Cons.IH [OF r this] show ?case by simp
qed simp

lemma unique_loop_distinct:
  "unique_loop branch seen hits = Inr seen' \<Longrightarrow> distinct (map fst seen) \<Longrightarrow> distinct (map fst seen')"
proof (induction hits arbitrary: seen)
  case (Cons h hits)
  then show ?case
    by (auto simp: distinct_update split: if_splits option.splits)
qed simp

lemma unique_loop_keyed:
  "unique_loop branch seen hits = Inr seen' \<Longrightarrow> \<forall>(k, h) \<in> set seen. k = bh_chunk_id h \<Longrightarrow>
    \<forall>(k, h) \<in> set seen'. k = bh_chunk_id h"
proof (induction hits arbitrary: seen)
  case (Cons h hits)
  have "\<forall>(k, x) \<in> set (dict_set (bh_chunk_id h) h seen). k = bh_chunk_id x"
  proof clarify
    fix k x assume "(k, x) \<in> set (dict_set (bh_chunk_id h) h seen)"
    then have "(k, x) = (bh_chunk_id h, h) \<or> (k, x) \<in> set seen"
      by (induction seen) (auto split: if_splits)
    with Cons.prems(2) show "k = bh_chunk_id x" by auto
  qed
  with Cons show ?case by (auto split: if_splits option.splits)
qed simp

lemma unique_loop_ranks:
  "unique_loop branch seen hits = Inr seen' \<Longrightarrow> \<forall>h \<in> set hits. 1 \<le> bh_rank h"
  by (induction hits arbitrary: seen) (auto split: if_splits option.splits)

lemma unique_loop_total:
  "\<forall>h \<in> set hits. 1 \<le> bh_rank h \<Longrightarrow> \<exists>seen'. unique_loop branch seen hits = Inr seen'"
  by (induction hits arbitrary: seen) (auto split: option.split)

lemma unique_branch_hits_facts:
  assumes "unique_branch_hits branch hits = Inr us"
  shows "best_map hits (map_of (dict_by bh_chunk_id us))"
    and "set (map fst (dict_by bh_chunk_id us)) = bh_chunk_id ` set hits"
    and "\<forall>h \<in> set hits. 1 \<le> bh_rank h"
proof -
  from assms obtain seen where s: "unique_loop branch [] hits = Inr seen"
    and us: "us = sort_key (\<lambda>h. (bh_rank h, bh_chunk_id h)) (map snd seen)"
    by (auto simp: unique_branch_hits_def bind_res_Inr_iff)
  have b: "best_map hits (map_of seen)"
    using unique_loop_best [OF s, of "[]"] by (simp add: best_map_def)
  have d: "distinct (map fst seen)" using unique_loop_distinct [OF s] by simp
  have k: "\<forall>(c, h) \<in> set seen. c = bh_chunk_id h" using unique_loop_keyed [OF s] by simp
  then have mk: "map bh_chunk_id (map snd seen) = map fst seen" by auto
  have "mset (map bh_chunk_id us) = mset (map fst seen)"
    by (simp add: us mk [symmetric] del: map_map)
  then have du: "distinct (map bh_chunk_id us)"
    using d by (metis mset_eq_imp_distinct_iff)
  have same: "map_of (dict_by bh_chunk_id us) cid = map_of seen cid" for cid
  proof (cases "map_of seen cid")
    case None
    then have "\<forall>h \<in> set us. bh_chunk_id h \<noteq> cid"
      using k by (fastforce simp: us map_of_eq_None_iff image_iff)
    with None show ?thesis by (simp add: dict_by_None)
  next
    case (Some h)
    then have "(cid, h) \<in> set seen" by (rule map_of_SomeD)
    with k have "h \<in> set us" and "cid = bh_chunk_id h" by (force simp: us)+
    with dict_by_distinct [OF du] Some show ?thesis by simp
  qed
  then show m: "best_map hits (map_of (dict_by bh_chunk_id us))"
    using b by (simp add: best_map_def)
  show "\<forall>h \<in> set hits. 1 \<le> bh_rank h" using unique_loop_ranks [OF s] .
  have "cid \<in> set (map fst (dict_by bh_chunk_id us)) \<longleftrightarrow> cid \<in> bh_chunk_id ` set hits" for cid
    using best_map_None [OF m, of cid] by (auto simp: map_of_eq_None_iff image_iff)
  then show "set (map fst (dict_by bh_chunk_id us)) = bh_chunk_id ` set hits" by blast
qed

lemma unique_branch_hits_total:
  "\<forall>h \<in> set hits. 1 \<le> bh_rank h \<Longrightarrow> \<exists>us. unique_branch_hits branch hits = Inr us"
  using unique_loop_total [of hits branch "[]"] by (auto simp: unique_branch_hits_def)

subsection \<open>The fused list\<close>

lemma fused_hit_of_id [simp]: "fh_chunk_id (fused_hit_of rnd k d l cid) = cid"
  by (simp add: fused_hit_of_def Let_def)

lemma inj_fuse_key: "inj_on fuse_key (fused_hit_of rnd k d l ` S)"
  by (auto simp: inj_on_def fuse_key_def)

lemma fuse_over_perm:
  assumes "distinct ids" and "distinct ids'" and "set ids = set ids'"
  shows "fuse_over rnd k d l ids = fuse_over rnd k d l ids'"
  unfolding fuse_over_def
proof (rule sort_key_perm_eq)
  show "inj_on fuse_key (set (map (fused_hit_of rnd k d l) ids))"
    by (simp add: inj_fuse_key)
  have "mset ids = mset ids'" using assms by (simp add: set_eq_iff_mset_eq_distinct)
  then show "mset (map (fused_hit_of rnd k d l) ids) = mset (map (fused_hit_of rnd k d l) ids')"
    by simp
qed

lemma fuse_over_facts:
  "sorted (map fuse_key (fuse_over rnd k d l ids))"
  "set (fuse_over rnd k d l ids) = fused_hit_of rnd k d l ` set ids"
  "distinct ids \<Longrightarrow> distinct (map fh_chunk_id (fuse_over rnd k d l ids))"
proof -
  show "sorted (map fuse_key (fuse_over rnd k d l ids))"
    and "set (fuse_over rnd k d l ids) = fused_hit_of rnd k d l ` set ids"
    by (simp_all add: fuse_over_def)
  assume "distinct ids"
  moreover have "mset (map fh_chunk_id (fuse_over rnd k d l ids)) = mset ids"
    by (simp add: fuse_over_def multiset.map_comp comp_def)
  ultimately show "distinct (map fh_chunk_id (fuse_over rnd k d l ids))"
    by (metis mset_eq_imp_distinct_iff)
qed

lemma fuse_InrE:
  assumes "fuse rnd k dense lexical = Inr fs"
  obtains d l where "best_map dense (map_of d)" and "best_map lexical (map_of l)"
    and "set (map fst d) = bh_chunk_id ` set dense" and "set (map fst l) = bh_chunk_id ` set lexical"
    and "\<forall>h \<in> set dense \<union> set lexical. 1 \<le> bh_rank h"
    and "fs = fuse_over rnd k d l (first_occ (map fst d @ map fst l))"
proof -
  from assms obtain du lu where u: "unique_branch_hits ''dense'' dense = Inr du"
    "unique_branch_hits ''lexical'' lexical = Inr lu"
    and fs: "fs = fuse_over rnd k (dict_by bh_chunk_id du) (dict_by bh_chunk_id lu)
      (first_occ (map fst (dict_by bh_chunk_id du) @ map fst (dict_by bh_chunk_id lu)))"
    by (auto simp: fuse_def Let_def bind_res_Inr_iff)
  from unique_branch_hits_facts [OF u(1)] unique_branch_hits_facts [OF u(2)] fs
  show thesis by (intro that) auto
qed

definition branch_view :: "branch_hit list \<Rightarrow> string \<Rightarrow> int option \<Rightarrow> pyfloat option \<Rightarrow> bool" where
  "branch_view hits cid rank score \<longleftrightarrow>
     (case rank of
        None \<Rightarrow> score = None \<and> cid \<notin> bh_chunk_id ` set hits
      | Some r \<Rightarrow> (\<exists>h. best_hit hits cid h \<and> r = bh_rank h \<and> score = Some (bh_score h)))"

lemma branch_viewI:
  "best_map hits m \<Longrightarrow> branch_view hits cid (map_option bh_rank (m cid)) (map_option bh_score (m cid))"
proof (cases "m cid")
  case None
  moreover assume "best_map hits m"
  then have "m cid = None \<longleftrightarrow> (\<forall>h \<in> set hits. bh_chunk_id h \<noteq> cid)" by (rule best_map_None)
  ultimately show ?thesis by (auto simp: branch_view_def)
qed (auto simp: branch_view_def dest: best_map_SomeD)

lemma fuse_hits:
  assumes "fuse rnd k dense lexical = Inr fs" and "h \<in> set fs"
  shows "branch_view dense (fh_chunk_id h) (fh_dense_rank h) (fh_dense_score h) \<and>
    branch_view lexical (fh_chunk_id h) (fh_lexical_rank h) (fh_lexical_score h) \<and>
    fh_rrf_score h = rrf_score rnd k (fh_dense_rank h) (fh_lexical_rank h)"
  using assms(1)
proof (rule fuse_InrE)
  fix d l
  assume b: "best_map dense (map_of d)" "best_map lexical (map_of l)"
    and fs: "fs = fuse_over rnd k d l (first_occ (map fst d @ map fst l))"
  from assms(2) fs obtain cid where "h = fused_hit_of rnd k d l cid"
    by (auto simp: fuse_over_facts)
  then show ?thesis
    using branch_viewI [OF b(1), of cid] branch_viewI [OF b(2), of cid]
    by (simp add: fused_hit_of_def Let_def)
qed

lemma fuse_ids:
  assumes "fuse rnd k dense lexical = Inr fs"
  shows "distinct (map fh_chunk_id fs)"
    and "fh_chunk_id ` set fs = bh_chunk_id ` (set dense \<union> set lexical)"
    and "sorted (map fuse_key fs)"
  using assms by (auto elim!: fuse_InrE simp: fuse_over_facts image_image image_Un)

lemma fuse_total:
  assumes "\<forall>h \<in> set dense \<union> set lexical. 1 \<le> bh_rank h"
  shows "\<exists>fs. fuse rnd k dense lexical = Inr fs"
proof -
  from assms obtain du lu where "unique_branch_hits ''dense'' dense = Inr du"
    "unique_branch_hits ''lexical'' lexical = Inr lu"
    using unique_branch_hits_total by (meson UnCI)
  then show ?thesis by (simp add: fuse_def Let_def)
qed

subsection \<open>Monotonicity of the score\<close>

definition rank_at_least :: "int option \<Rightarrow> int option \<Rightarrow> bool" where
  "rank_at_least a b \<longleftrightarrow> (\<forall>s. b = Some s \<longrightarrow> (\<exists>r. a = Some r \<and> r \<le> s))"

lemma rrf_term_bounds:
  assumes "float_rounding rnd" and "1 \<le> k" and "1 \<le> r" and "r \<le> s"
  shows "0 \<le> rrf_term rnd k s" and "rrf_term rnd k s \<le> rrf_term rnd k r"
proof -
  have "(1 :: rat) \<le> of_int (k + r)" using assms(2,3) by linarith
  then have 1: "1 \<le> rnd (of_int (k + r))" by (rule float_rounding_facts [OF assms(1)])
  have le: "rnd (of_int (k + r)) \<le> rnd (of_int (k + s))"
    using assms(4) by (intro float_rounding_facts(1) [OF assms(1)]) simp
  then have "1 / rnd (of_int (k + s)) \<le> 1 / rnd (of_int (k + r))"
    using 1 by (intro divide_left_mono) auto
  then show "rrf_term rnd k s \<le> rrf_term rnd k r"
    unfolding rrf_term_def by (rule float_rounding_facts(1) [OF assms(1)])
  show "0 \<le> rrf_term rnd k s"
    unfolding rrf_term_def using 1 le by (intro float_rounding_facts(2) [OF assms(1)]) simp
qed

definition add_term :: "(pyfloat \<Rightarrow> pyfloat) \<Rightarrow> int \<Rightarrow> int option \<Rightarrow> pyfloat \<Rightarrow> pyfloat" where
  "add_term rnd k rank s = (case rank of Some r \<Rightarrow> rnd (s + rrf_term rnd k r) | None \<Rightarrow> s)"

lemma rrf_score_add_term: "rrf_score rnd k d l = add_term rnd k l (add_term rnd k d 0)"
  by (simp add: rrf_score_def add_term_def Let_def)

lemma add_term_fix:
  "float_rounding rnd \<Longrightarrow> rnd s = s \<Longrightarrow> rnd (add_term rnd k d s) = add_term rnd k d s"
  by (cases d) (auto simp: add_term_def float_rounding_def)

lemma add_term_mono:
  assumes r: "float_rounding rnd" and "1 \<le> k" and le: "rank_at_least x y"
    and pos: "\<forall>v. x = Some v \<longrightarrow> 1 \<le> v" and s: "s' \<le> s" "rnd s = s"
  shows "add_term rnd k y s' \<le> add_term rnd k x s"
proof (cases y)
  case None
  have "s \<le> add_term rnd k x s"
  proof (cases x)
    case (Some v)
    with pos rrf_term_bounds(1) [OF r \<open>1 \<le> k\<close>, of v v] have "s \<le> s + rrf_term rnd k v" by simp
    then have "rnd s \<le> rnd (s + rrf_term rnd k v)" by (rule float_rounding_facts(1) [OF r])
    with s(2) Some show ?thesis by (simp add: add_term_def)
  qed (simp add: add_term_def)
  with s(1) None show ?thesis by (simp add: add_term_def)
next
  case (Some w)
  with le obtain v where v: "x = Some v" "v \<le> w" by (auto simp: rank_at_least_def)
  with pos rrf_term_bounds(2) [OF r \<open>1 \<le> k\<close>, of v w]
  have "s' + rrf_term rnd k w \<le> s + rrf_term rnd k v" using s(1) by (simp add: add_mono)
  with Some v show ?thesis by (simp add: add_term_def float_rounding_facts(1) [OF r])
qed

lemma rrf_score_mono:
  assumes "float_rounding rnd" and "1 \<le> k" and "rank_at_least d d'" and "rank_at_least l l'"
    and "\<forall>x. d = Some x \<longrightarrow> 1 \<le> x" and "\<forall>x. l = Some x \<longrightarrow> 1 \<le> x"
  shows "rrf_score rnd k d' l' \<le> rrf_score rnd k d l"
proof -
  have 0: "rnd 0 = 0" using assms(1) by (simp add: float_rounding_def)
  have "add_term rnd k d' 0 \<le> add_term rnd k d 0"
    by (rule add_term_mono) (use assms 0 in simp_all)
  then show ?thesis unfolding rrf_score_add_term
    by (intro add_term_mono) (use assms 0 add_term_fix [of rnd 0 k d] in simp_all)
qed

subsection \<open>A small instance\<close>

definition sample_dense :: "branch_hit list" where
  "sample_dense = [\<lparr>bh_chunk_id = ''a'', bh_rank = 1, bh_score = 1\<rparr>,
     \<lparr>bh_chunk_id = ''b'', bh_rank = 2, bh_score = 1\<rparr>]"

definition sample_lexical :: "branch_hit list" where
  "sample_lexical = [\<lparr>bh_chunk_id = ''a'', bh_rank = 5, bh_score = 3\<rparr>]"

lemma sample_fused:
  "\<exists>fs a b. fuse id 60 sample_dense sample_lexical = Inr fs \<and> length fs = 2 \<and>
     a \<in> set fs \<and> b \<in> set fs \<and> fh_chunk_id a = ''a'' \<and> fh_chunk_id b = ''b'' \<and>
     fh_dense_rank a = Some 1 \<and> fh_lexical_rank a = Some 5 \<and>
     fh_dense_rank b = Some 2 \<and> fh_lexical_rank b = None"
proof -
  obtain fs where run: "fuse id 60 sample_dense sample_lexical = Inr fs"
    using fuse_total [of sample_dense sample_lexical id 60]
    by (auto simp: sample_dense_def sample_lexical_def)
  have ids: "fh_chunk_id ` set fs = {''a'', ''b''}"
    unfolding fuse_ids(2) [OF run] by (auto simp: sample_dense_def sample_lexical_def)
  have "length fs = card (fh_chunk_id ` set fs)"
    using distinct_card [OF fuse_ids(1) [OF run]] by simp
  then have "length fs = 2" by (simp add: ids)
  moreover from ids have "''a'' \<in> fh_chunk_id ` set fs" and "''b'' \<in> fh_chunk_id ` set fs" by simp_all
  then obtain a b where ab: "a \<in> set fs" "b \<in> set fs" "fh_chunk_id a = ''a''" "fh_chunk_id b = ''b''"
    by (elim imageE) simp
  moreover have "fh_dense_rank a = Some 1 \<and> fh_lexical_rank a = Some 5"
    using fuse_hits [OF run ab(1)] ab(3)
    by (auto simp: branch_view_def best_hit_def sample_dense_def sample_lexical_def
        split: option.splits)
  moreover have "fh_dense_rank b = Some 2 \<and> fh_lexical_rank b = None"
    using fuse_hits [OF run ab(2)] ab(4)
    by (auto simp: branch_view_def best_hit_def sample_dense_def sample_lexical_def
        split: option.splits)
  ultimately show ?thesis using run by blast
qed

subsection \<open>Properties\<close>



text \<open>The fused list is ordered by falling score, equal scores by rising chunk id, and it does
  not depend on the order in which the set of chunk ids is iterated.\<close>

theorem fuse_order:
  assumes "fuse rnd k dense lexical = Inr fs" and "i < j" and "j < length fs"
  shows "(fh_rrf_score (fs ! j) < fh_rrf_score (fs ! i) \<or>
     fh_rrf_score (fs ! j) = fh_rrf_score (fs ! i) \<and> fh_chunk_id (fs ! i) < fh_chunk_id (fs ! j)) \<and>
   (\<forall>d l ids ids'. distinct ids \<longrightarrow> distinct ids' \<longrightarrow> set ids = set ids' \<longrightarrow>
     fuse_over rnd k d l ids = fuse_over rnd k d l ids')"
proof -
  from sorted_nth_mono [OF fuse_ids(3) [OF assms(1)], of i j] assms(2,3)
  have key: "fuse_key (fs ! i) \<le> fuse_key (fs ! j)" by simp
  have "fh_chunk_id (fs ! i) \<noteq> fh_chunk_id (fs ! j)"
    using nth_eq_iff_index_eq [OF fuse_ids(1) [OF assms(1)], of i j] assms(2,3) by simp
  with key have "fh_rrf_score (fs ! j) < fh_rrf_score (fs ! i) \<or>
     fh_rrf_score (fs ! j) = fh_rrf_score (fs ! i) \<and> fh_chunk_id (fs ! i) < fh_chunk_id (fs ! j)"
    by (auto simp: fuse_key_def less_eq_prod_def)
  then show ?thesis by (blast intro: fuse_over_perm)
qed

theorem fuse_order_witness:
  "\<exists>fs. fuse id 60 sample_dense sample_lexical = Inr fs \<and> length fs = 2 \<and>
     (fh_rrf_score (fs ! 1) < fh_rrf_score (fs ! 0) \<or>
      fh_rrf_score (fs ! 1) = fh_rrf_score (fs ! 0) \<and> fh_chunk_id (fs ! 0) < fh_chunk_id (fs ! 1))"
proof -
  from sample_fused obtain fs where run: "fuse id 60 sample_dense sample_lexical = Inr fs"
    and "length fs = 2" by blast
  with fuse_order [OF run, of 0 1] show ?thesis by simp
qed

text \<open>Reciprocal rank fusion is monotone: a chunk that both branches rank at least as well as
  another scores at least as much, whatever monotone rounding the float operations use.\<close>

theorem fuse_dominance:
  assumes "fuse rnd k dense lexical = Inr fs" and "float_rounding rnd" and "1 \<le> k"
    and "a \<in> set fs" and "b \<in> set fs"
    and "rank_at_least (fh_dense_rank a) (fh_dense_rank b)"
    and "rank_at_least (fh_lexical_rank a) (fh_lexical_rank b)"
  shows "fh_rrf_score b \<le> fh_rrf_score a"
proof -
  from assms(1) have pos: "\<forall>h \<in> set dense \<union> set lexical. 1 \<le> bh_rank h" by (elim fuse_InrE)
  have a: "\<forall>x. fh_dense_rank a = Some x \<longrightarrow> 1 \<le> x" "\<forall>x. fh_lexical_rank a = Some x \<longrightarrow> 1 \<le> x"
    using fuse_hits [OF assms(1,4)] pos by (auto simp: branch_view_def best_hit_def)
  from fuse_hits [OF assms(1,4)] fuse_hits [OF assms(1,5)]
    rrf_score_mono [OF assms(2,3,6,7) a] show ?thesis by simp
qed

theorem fuse_dominance_witness:
  "\<exists>fs a b. fuse id 60 sample_dense sample_lexical = Inr fs \<and> a \<in> set fs \<and> b \<in> set fs \<and>
     fh_chunk_id a = ''a'' \<and> fh_chunk_id b = ''b'' \<and> fh_rrf_score b \<le> fh_rrf_score a"
proof -
  from sample_fused obtain fs a b where run: "fuse id 60 sample_dense sample_lexical = Inr fs"
    and ab: "a \<in> set fs" "b \<in> set fs" "fh_chunk_id a = ''a''" "fh_chunk_id b = ''b''"
    and "fh_dense_rank a = Some 1" "fh_lexical_rank a = Some 5"
      "fh_dense_rank b = Some 2" "fh_lexical_rank b = None" by blast
  moreover have "float_rounding id" by (simp add: float_rounding_def mono_def)
  moreover from calculation have "fh_rrf_score b \<le> fh_rrf_score a"
    by (intro fuse_dominance [OF run _ _ ab(1,2)]) (simp_all add: rank_at_least_def)
  ultimately show ?thesis by blast
qed

end
