(* ===== verification/Hybrid_Retrieval.thy ===== *)
theory Hybrid_Retrieval
  imports Fusion
begin

section \<open>Hybrid retrieval (hybrid/retrieve.py)\<close>

text \<open>
  \<open>HybridRetriever.retrieve\<close>: argument checks, bound or current index, the two branches in
  sequence, the fail-closed handling of the lexical branch, fusion, truncation, and the join of
  the fused hits with the branch candidates. The two branch retrievers are constructor arguments
  of the class and arguments of the definition; what the code reads from the corpus directory is
  the record \<open>corpus_facts\<close>, one per corpus name, and the fusion configuration hash is a field of
  the environment. Timings are not modelled.
\<close>

subsection \<open>Requests, settings, branch calls\<close>

record retrieval_request =
  rq_query :: string
  rq_corpus_name :: string
  rq_top_k :: "int option"
  rq_dense_index_id :: "string option"
  rq_dense_collection_name :: "string option"
  rq_lexical_index_id :: "string option"
  rq_chunk_set_id :: "string option"
  rq_corpus_id :: "string option"
  rq_document_ids :: "string set option"

record fusion_settings =
  fs_method :: string
  fs_contract_version :: string
  fs_rrf_k :: int
  fs_dense_top_k :: int
  fs_lexical_top_k :: int
  fs_output_top_k :: int

record hybrid_status_details =
  sd_status :: string
  sd_dense_status :: "string option"
  sd_lexical_status :: "string option"
  sd_dense_chunk_set_id :: "string option"
  sd_lexical_chunk_set_id :: "string option"
  sd_active_chunk_set_id :: "string option"
  sd_dense_index_id :: "string option"
  sd_lexical_index_id :: "string option"

text \<open>What the code reads from the corpus directory: file existence, statuses and stored states.\<close>

record index_state =
  ix_source_chunk_set_id :: string
  ix_source_corpus_id :: "string option"
  ix_current_index_id :: string

record corpus_facts =
  cf_corpus_exists :: bool
  cf_chunking_status :: string
  cf_dense_status :: string
  cf_lexical_status :: string
  cf_dense_state :: "index_state option"
  cf_lexical_state :: "index_state option"
  cf_active_chunk_set :: "string option"

record hybrid_env =
  he_fusion :: fusion_settings
  he_facts :: "string \<Rightarrow> corpus_facts"
  he_fusion_config_hash :: string

subsection \<open>Readiness (hybrid/status.py)\<close>

text \<open>
  The chunk state is loaded only when the chunking status is \<open>CURRENT\<close>, which needs its file;
  \<open>cf_active_chunk_set\<close> is its current chunk set.
\<close>

definition hybrid_status_for_corpus :: "fusion_settings \<Rightarrow> corpus_facts \<Rightarrow> string" where
  "hybrid_status_for_corpus fs cf =
     (if \<not> cf_corpus_exists cf then ''NOT_READY''
      else if fs_method fs \<noteq> ''rrf'' \<or> fs_contract_version fs \<noteq> ''rrf-v1'' then ''NOT_READY''
      else if fs_rrf_k fs < 1 \<or> fs_dense_top_k fs < 1 \<or> fs_lexical_top_k fs < 1 then ''NOT_READY''
      else if cf_chunking_status cf \<noteq> ''CURRENT'' then ''NOT_READY''
      else if cf_dense_status cf \<noteq> ''CURRENT'' \<or> cf_lexical_status cf \<noteq> ''CURRENT'' then ''NOT_READY''
      else (case (cf_dense_state cf, cf_lexical_state cf) of
          (Some dense_state, Some lexical_state) \<Rightarrow>
            (let active = cf_active_chunk_set cf in
             if Some (ix_source_chunk_set_id dense_state) \<noteq> active then ''NOT_READY''
             else if Some (ix_source_chunk_set_id lexical_state) \<noteq> active then ''NOT_READY''
             else if ix_source_chunk_set_id dense_state \<noteq> ix_source_chunk_set_id lexical_state
               then ''NOT_READY''
             else ''READY'')
        | _ \<Rightarrow> ''NOT_READY''))"

definition describe_hybrid_status :: "fusion_settings \<Rightarrow> corpus_facts \<Rightarrow> hybrid_status_details" where
  "describe_hybrid_status fs cf =
     \<lparr>sd_status = hybrid_status_for_corpus fs cf,
      sd_dense_status = Some (cf_dense_status cf), sd_lexical_status = Some (cf_lexical_status cf),
      sd_dense_chunk_set_id = map_option ix_source_chunk_set_id (cf_dense_state cf),
      sd_lexical_chunk_set_id = map_option ix_source_chunk_set_id (cf_lexical_state cf),
      sd_active_chunk_set_id = cf_active_chunk_set cf,
      sd_dense_index_id = map_option ix_current_index_id (cf_dense_state cf),
      sd_lexical_index_id = map_option ix_current_index_id (cf_lexical_state cf)\<rparr>"

definition he_status :: "hybrid_env \<Rightarrow> string \<Rightarrow> hybrid_status_details" where
  "he_status env name = describe_hybrid_status (he_fusion env) (he_facts env name)"

definition he_dense_corpus_id :: "hybrid_env \<Rightarrow> string \<Rightarrow> string option" where
  "he_dense_corpus_id env name = Option.bind (cf_dense_state (he_facts env name)) ix_source_corpus_id"

record branch_query =
  bq_query :: string
  bq_corpus_name :: string
  bq_top_k :: int
  bq_index_id :: "string option"
  bq_collection_name :: "string option"
  bq_chunk_set_id :: "string option"
  bq_document_ids :: "string set option"

record 'c branch_result =
  br_index_id :: string
  br_candidates :: "'c list"
  br_chunk_set_id :: "string option"

record hybrid_result =
  hr_query :: string
  hr_method :: string
  hr_top_k :: int
  hr_candidates :: "hybrid_candidate list"
  hr_dense_index_id :: string
  hr_lexical_index_id :: string
  hr_fusion_config_hash :: string
  hr_corpus_id :: "string option"
  hr_chunk_set_id :: string
  hr_dense_top_k :: int
  hr_lexical_top_k :: int

text \<open>\<open>str(x or "")\<close> and the formatting of an optional string.\<close>

definition or_empty :: "string option \<Rightarrow> string" where
  "or_empty x = (case x of None \<Rightarrow> [] | Some s \<Rightarrow> s)"

definition fmt_opt :: "string option \<Rightarrow> string" where
  "fmt_opt x = (case x of None \<Rightarrow> ''None'' | Some s \<Rightarrow> s)"

definition LF :: string where
  "LF = [char_of (10 :: nat)]"

subsection \<open>Steps\<close>

definition hybrid_require_ready :: "hybrid_env \<Rightarrow> string \<Rightarrow> retrieval_exc + unit" where
  "hybrid_require_ready env name =
     (let details = he_status env name in
      if sd_status details = ''READY'' then Inr ()
      else Inl (Hybrid_Retrieval_Error (join LF
        [''Hybrid retrieval unavailable.'',
         ''Dense index:   '' @ fmt_opt (sd_dense_status details),
         ''Lexical index: '' @ fmt_opt (sd_lexical_status details),
         ''Active chunk set:  '' @ fmt_opt (sd_active_chunk_set_id details),
         ''Dense chunk set:   '' @ fmt_opt (sd_dense_chunk_set_id details),
         ''Lexical chunk set: '' @ fmt_opt (sd_lexical_chunk_set_id details),
         ''Status: Hybrid '' @ sd_status details,
         ''Ensure both indexes are CURRENT for the same chunk set:'',
         ''  offline-rag index --corpus '' @ name,
         ''  offline-rag index lexical --corpus '' @ name])))"

text \<open>Whether the five binding arguments are all given (\<open>True\<close>), all omitted (\<open>False\<close>), or mixed.\<close>

definition hybrid_binding :: "retrieval_request \<Rightarrow> bool option" where
  "hybrid_binding rq =
     (let given = [rq_dense_index_id rq, rq_dense_collection_name rq, rq_lexical_index_id rq,
                   rq_chunk_set_id rq, rq_corpus_id rq]
      in if list_all (\<lambda>v. v \<noteq> None) given then Some True
         else if list_all (\<lambda>v. v = None) given then Some False
         else None)"

definition dense_query :: "retrieval_request \<Rightarrow> bool \<Rightarrow> string \<Rightarrow> int \<Rightarrow> branch_query" where
  "dense_query rq bound name depth =
     \<lparr>bq_query = py_strip (rq_query rq), bq_corpus_name = name, bq_top_k = depth,
      bq_index_id = (if bound then rq_dense_index_id rq else None),
      bq_collection_name = (if bound then rq_dense_collection_name rq else None),
      bq_chunk_set_id = (if bound then rq_chunk_set_id rq else None),
      bq_document_ids = rq_document_ids rq\<rparr>"

definition lexical_query :: "retrieval_request \<Rightarrow> bool \<Rightarrow> string \<Rightarrow> int \<Rightarrow> branch_query" where
  "lexical_query rq bound name depth =
     \<lparr>bq_query = py_strip (rq_query rq), bq_corpus_name = name, bq_top_k = depth,
      bq_index_id = (if bound then rq_lexical_index_id rq else None),
      bq_collection_name = None,
      bq_chunk_set_id = (if bound then rq_chunk_set_id rq else None),
      bq_document_ids = rq_document_ids rq\<rparr>"

text \<open>\<open>RankedBranchHit\<close> of a candidate.\<close>

definition branch_hit_of :: "'a candidate_core_scheme \<Rightarrow> branch_hit" where
  "branch_hit_of c = \<lparr>bh_chunk_id = cd_chunk_id c, bh_rank = int (cd_rank c), bh_score = cd_score c\<rparr>"

text \<open>
  The \<open>try\<close> block around the lexical branch: hits, candidates by id, index id and chunk set. An
  exception that mentions zero analyzed terms is an empty branch, any other one is an error.
\<close>

definition lexical_branch ::
    "(branch_query \<Rightarrow> string + lexical_candidate branch_result) \<Rightarrow> branch_query \<Rightarrow> bool \<Rightarrow>
     retrieval_request \<Rightarrow> hybrid_status_details option \<Rightarrow>
     retrieval_exc + (branch_hit list \<times> (string \<times> lexical_candidate) list \<times> string \<times> string)" where
  "lexical_branch lexical q bound rq details =
     (case lexical q of
        Inr res \<Rightarrow> Inr (map branch_hit_of (br_candidates res),
                        dict_by cd_chunk_id (br_candidates res),
                        br_index_id res, or_empty (br_chunk_set_id res))
      | Inl message \<Rightarrow>
          if py_find ''zero analyzed terms'' message 0 \<noteq> None then
            (let index_id = (if bound then or_empty (rq_lexical_index_id rq)
                   else or_empty (case details of None \<Rightarrow> None | Some d \<Rightarrow> sd_lexical_index_id d));
                 chunk_set = (if bound then or_empty (rq_chunk_set_id rq)
                   else or_empty (case details of None \<Rightarrow> None | Some d \<Rightarrow> sd_lexical_chunk_set_id d))
             in if index_id = [] then Inl (Hybrid_Retrieval_Error message)
                else Inr ([], [], index_id, chunk_set))
          else Inl (Hybrid_Retrieval_Error (''lexical branch failed: '' @ message)))"

definition hybrid_candidate_of :: "nat \<Rightarrow> candidate_core \<Rightarrow> fused_hit \<Rightarrow> hybrid_candidate" where
  "hybrid_candidate_of rank source hit = candidate_core.extend
     (source\<lparr>cd_rank := rank, cd_score := fh_rrf_score hit\<rparr>)
     (hybrid_candidate.fields \<lparr>fp_rrf_score = fh_rrf_score hit, fp_dense_rank = fh_dense_rank hit,
        fp_dense_score = fh_dense_score hit, fp_lexical_rank = fh_lexical_rank hit,
        fp_lexical_score = fh_lexical_score hit\<rparr>)"

text \<open>One iteration of the join: the dense candidate if there is one, else the lexical one.\<close>

definition join_hit ::
    "(string \<times> dense_candidate) list \<Rightarrow> (string \<times> lexical_candidate) list \<Rightarrow>
     nat \<times> fused_hit \<Rightarrow> retrieval_exc + hybrid_candidate" where
  "join_hit dense_by_id lexical_by_id rh = (case rh of (rank, hit) \<Rightarrow>
     (case map_of dense_by_id (fh_chunk_id hit) of
        Some source \<Rightarrow> Inr (hybrid_candidate_of rank (core_of source) hit)
      | None \<Rightarrow> (case map_of lexical_by_id (fh_chunk_id hit) of
          Some source \<Rightarrow> Inr (hybrid_candidate_of rank (core_of source) hit)
        | None \<Rightarrow> Inl (Hybrid_Retrieval_Error
            (''missing canonical candidate for '' @ fh_chunk_id hit)))))"

subsection \<open>The whole call\<close>

definition hybrid_final_k :: "fusion_settings \<Rightarrow> retrieval_request \<Rightarrow> int" where
  "hybrid_final_k fs rq = (case rq_top_k rq of Some k \<Rightarrow> k | None \<Rightarrow> fs_output_top_k fs)"

text \<open>Checks before any retrieval: the corpus name, and whether the call is bound.\<close>

definition hybrid_preflight :: "hybrid_env \<Rightarrow> retrieval_request \<Rightarrow> retrieval_exc + (string \<times> bool)" where
  "hybrid_preflight env rq =
     (if rq_query rq = [] \<or> py_strip (rq_query rq) = [] then
        Inl (Hybrid_Retrieval_Error ''query must be non-empty'')
      else bind_res (validate_corpus_name (rq_corpus_name rq)) (\<lambda>name.
        let fs = he_fusion env; final_k = hybrid_final_k fs rq in
        if fs_method fs \<noteq> ''rrf'' \<or> fs_contract_version fs \<noteq> ''rrf-v1'' then
          Inl (Hybrid_Retrieval_Error (''unsupported fusion method/contract: '' @ fs_method fs @ ''/'' @
            fs_contract_version fs))
        else if final_k < 1 then Inl (Hybrid_Retrieval_Error ''top_k must be >= 1'')
        else if final_k > 1000 then
          Inl (Hybrid_Retrieval_Error ''top_k exceeds safety limit (1000)'')
        else (case hybrid_binding rq of
            Some True \<Rightarrow> Inr (name, True)
          | Some False \<Rightarrow> bind_res (hybrid_require_ready env name) (\<lambda>_. Inr (name, False))
          | None \<Rightarrow> Inl (Hybrid_Retrieval_Error
              (''dense_index_id, dense_collection_name, lexical_index_id, '' @
               ''chunk_set_id, and corpus_id must all be provided together or all omitted'')))))"

definition hybrid_retrieve ::
    "(pyfloat \<Rightarrow> pyfloat) \<Rightarrow> hybrid_env \<Rightarrow>
     (branch_query \<Rightarrow> string + dense_candidate branch_result) \<Rightarrow>
     (branch_query \<Rightarrow> string + lexical_candidate branch_result) \<Rightarrow>
     retrieval_request \<Rightarrow> retrieval_exc + hybrid_result" where
  "hybrid_retrieve rnd env dense lexical rq =
     bind_res (hybrid_preflight env rq) (\<lambda>(name, bound).
     let fs = he_fusion env;
         details = (if bound then None else Some (he_status env name));
         resolved_corpus_id = (if bound then rq_corpus_id rq else he_dense_corpus_id env name)
     in
     bind_res (try_map Branch_Error (dense (dense_query rq bound name (fs_dense_top_k fs)))) (\<lambda>dres.
     bind_res (lexical_branch lexical (lexical_query rq bound name (fs_lexical_top_k fs)) bound rq
        details) (\<lambda>(lexical_hits, lexical_by_id, lexical_index_id, lexical_chunk_set).
     let dense_by_id = dict_by cd_chunk_id (br_candidates dres);
         dense_hits = map branch_hit_of (br_candidates dres);
         dense_chunk_set = or_empty (br_chunk_set_id dres)
     in
     bind_res (assert_document_scope Hybrid_Retrieval_Error ''hybrid-dense-branch''
        (rq_document_ids rq) (br_candidates dres)) (\<lambda>_.
     bind_res (assert_document_scope Hybrid_Retrieval_Error ''hybrid-lexical-branch''
        (rq_document_ids rq) (map snd lexical_by_id)) (\<lambda>_.
     if lexical_chunk_set \<noteq> [] \<and> dense_chunk_set \<noteq> [] \<and> lexical_chunk_set \<noteq> dense_chunk_set then
       Inl (Hybrid_Retrieval_Error (''dense and lexical retrieval targeted different chunk sets: '' @
         dense_chunk_set @ '' != '' @ lexical_chunk_set))
     else
     bind_res (fuse rnd (fs_rrf_k fs) dense_hits lexical_hits) (\<lambda>fused.
     bind_res (map_res (join_hit dense_by_id lexical_by_id)
        (enum1 (take (nat (hybrid_final_k fs rq)) fused))) (\<lambda>candidates.
     bind_res (assert_document_scope Hybrid_Retrieval_Error ''hybrid''
        (rq_document_ids rq) candidates) (\<lambda>_.
     Inr \<lparr>hr_query = py_strip (rq_query rq), hr_method = ''hybrid'', hr_top_k = hybrid_final_k fs rq,
          hr_candidates = candidates, hr_dense_index_id = br_index_id dres,
          hr_lexical_index_id = lexical_index_id,
          hr_fusion_config_hash = he_fusion_config_hash env,
          hr_corpus_id = resolved_corpus_id,
          hr_chunk_set_id = (if dense_chunk_set \<noteq> [] then dense_chunk_set else lexical_chunk_set),
          hr_dense_top_k = fs_dense_top_k fs, hr_lexical_top_k = fs_lexical_top_k fs\<rparr>))))))))"

subsection \<open>The join never misses\<close>

definition join_source ::
    "(string \<times> dense_candidate) list \<Rightarrow> (string \<times> lexical_candidate) list \<Rightarrow> string \<Rightarrow>
     candidate_core option" where
  "join_source d l cid = (case map_of d cid of
     Some s \<Rightarrow> Some (core_of s) | None \<Rightarrow> map_option core_of (map_of l cid))"

lemma join_hit_source:
  "join_hit d l (rank, hit) = (case join_source d l (fh_chunk_id hit) of
     Some s \<Rightarrow> Inr (hybrid_candidate_of rank s hit)
   | None \<Rightarrow> Inl (Hybrid_Retrieval_Error (''missing canonical candidate for '' @ fh_chunk_id hit)))"
  by (auto simp: join_hit_def join_source_def split: option.split)

lemma hybrid_candidate_of_sel [simp]:
  "cd_rank (hybrid_candidate_of n s h) = n"
  "cd_score (hybrid_candidate_of n s h) = fh_rrf_score h"
  "cd_chunk_id (hybrid_candidate_of n s h) = cd_chunk_id s"
  "cd_document_id (hybrid_candidate_of n s h) = cd_document_id s"
  "cd_text (hybrid_candidate_of n s h) = cd_text s"
  "fp_rrf_score (hc_fusion (hybrid_candidate_of n s h)) = fh_rrf_score h"
  "fp_dense_rank (hc_fusion (hybrid_candidate_of n s h)) = fh_dense_rank h"
  "fp_lexical_rank (hc_fusion (hybrid_candidate_of n s h)) = fh_lexical_rank h"
  by (simp_all add: hybrid_candidate_of_def candidate_core.extend_def hybrid_candidate.fields_def)

text \<open>What a candidate keeps of the branch candidate it stands for.\<close>

definition same_content :: "'a candidate_core_scheme \<Rightarrow> candidate_core \<Rightarrow> bool" where
  "same_content c s \<longleftrightarrow> core_of c = (core_of s)\<lparr>cd_rank := cd_rank c, cd_score := cd_score c\<rparr>"

lemma same_content_hybrid: "same_content (hybrid_candidate_of n s h) s"
  by (cases s) (simp add: same_content_def hybrid_candidate_of_def core_of_def
      candidate_core.truncate_def candidate_core.extend_def hybrid_candidate.fields_def)

lemma same_contentD:
  "same_content c s \<Longrightarrow> cd_chunk_id c = cd_chunk_id s \<and> cd_document_id c = cd_document_id s \<and>
     cd_text c = cd_text s"
  unfolding same_content_def
  by (drule arg_cong [where f = "\<lambda>r. (cd_chunk_id r, cd_document_id r, cd_text r)"]) simp

lemma join_sourceD:
  assumes "join_source (dict_by cd_chunk_id ds) (dict_by cd_chunk_id ls) cid = Some s"
  shows "cd_chunk_id s = cid" and "(\<exists>c \<in> set ds. s = core_of c) \<or> (\<exists>c \<in> set ls. s = core_of c)"
proof -
  consider c where "map_of (dict_by cd_chunk_id ds) cid = Some c" "s = core_of c"
    | c where "map_of (dict_by cd_chunk_id ls) cid = Some c" "s = core_of c"
    using assms by (auto simp: join_source_def simp del: map_of_eq_Some_iff split: option.splits)
  then have "cd_chunk_id s = cid \<and> ((\<exists>c \<in> set ds. s = core_of c) \<or> (\<exists>c \<in> set ls. s = core_of c))"
    by cases (frule dict_by_SomeD, force)+
  then show "cd_chunk_id s = cid" and "(\<exists>c \<in> set ds. s = core_of c) \<or> (\<exists>c \<in> set ls. s = core_of c)"
    by blast+
qed

lemma join_source_total:
  assumes "cid \<in> cd_chunk_id ` set ds \<union> cd_chunk_id ` set ls"
  shows "\<exists>s. join_source (dict_by cd_chunk_id ds) (dict_by cd_chunk_id ls) cid = Some s"
proof (cases "map_of (dict_by cd_chunk_id ds) cid")
  case None
  with assms have "\<exists>c \<in> set ls. cd_chunk_id c = cid" by (auto simp: dict_by_None)
  then obtain y where "map_of (dict_by cd_chunk_id ls) cid = Some y"
    using dict_by_in [of cd_chunk_id ls cid] by auto
  with None show ?thesis by (simp add: join_source_def)
qed (simp add: join_source_def)

lemma join_total:
  assumes "\<forall>h \<in> set hits. fh_chunk_id h \<in> cd_chunk_id ` set ds \<union> cd_chunk_id ` set ls"
  shows "\<exists>cs. map_res (join_hit (dict_by cd_chunk_id ds) (dict_by cd_chunk_id ls)) (enum1 hits) = Inr cs"
proof -
  let ?j = "join_hit (dict_by cd_chunk_id ds) (dict_by cd_chunk_id ls)"
  define g where "g p = hybrid_candidate_of (fst p) (the (join_source (dict_by cd_chunk_id ds)
      (dict_by cd_chunk_id ls) (fh_chunk_id (snd p)))) (snd p)" for p
  have "?j p = Inr (g p)" if "p \<in> set (enum1 hits)" for p
  proof -
    from that have "snd p \<in> set hits" by (metis image_eqI list.set_map map_snd_enum1)
    with assms join_source_total obtain s where
      "join_source (dict_by cd_chunk_id ds) (dict_by cd_chunk_id ls) (fh_chunk_id (snd p)) = Some s"
      by blast
    then show ?thesis by (cases p) (simp add: join_hit_source g_def)
  qed
  then have "map_res ?j (enum1 hits) = Inr (map g (enum1 hits))" by (rule map_res_total)
  then show ?thesis ..
qed

lemma join_each:
  assumes "map_res (join_hit (dict_by cd_chunk_id ds) (dict_by cd_chunk_id ls)) (enum1 hits) = Inr cs"
  shows "length cs = length hits"
    and "i < length hits \<Longrightarrow> \<exists>s. cs ! i = hybrid_candidate_of (Suc i) s (hits ! i) \<and>
      cd_chunk_id s = fh_chunk_id (hits ! i) \<and>
      ((\<exists>c \<in> set ds. s = core_of c) \<or> (\<exists>c \<in> set ls. s = core_of c))"
proof -
  from assms have l: "list_all2 (\<lambda>p c. join_hit (dict_by cd_chunk_id ds) (dict_by cd_chunk_id ls) p = Inr c)
      (enum1 hits) cs" by (simp add: map_res_Inr_iff)
  then show "length cs = length hits" by (auto dest: list_all2_lengthD)
  assume i: "i < length hits"
  from list_all2_nthD [OF l, of i] i
  have "join_hit (dict_by cd_chunk_id ds) (dict_by cd_chunk_id ls) (Suc i, hits ! i) = Inr (cs ! i)"
    by (simp add: enum1_nth)
  then obtain s where s: "join_source (dict_by cd_chunk_id ds) (dict_by cd_chunk_id ls)
      (fh_chunk_id (hits ! i)) = Some s" and c: "cs ! i = hybrid_candidate_of (Suc i) s (hits ! i)"
    by (auto simp: join_hit_source split: option.splits)
  from join_sourceD [OF s] c
  show "\<exists>s. cs ! i = hybrid_candidate_of (Suc i) s (hits ! i) \<and> cd_chunk_id s = fh_chunk_id (hits ! i) \<and>
      ((\<exists>c \<in> set ds. s = core_of c) \<or> (\<exists>c \<in> set ls. s = core_of c))" by blast
qed

subsection \<open>When a call succeeds\<close>

definition empty_branch_error :: "string \<Rightarrow> bool" where
  "empty_branch_error message \<longleftrightarrow> py_find ''zero analyzed terms'' message 0 \<noteq> None"

lemma lexical_branch_InrE:
  assumes "lexical_branch lexical q bound rq details = Inr (hits, by_id, index_id, chunk_set)"
  obtains cs where "hits = map branch_hit_of cs" and "by_id = dict_by cd_chunk_id cs"
    and "(\<exists>res. lexical q = Inr res \<and> cs = br_candidates res \<and> index_id = br_index_id res \<and>
             chunk_set = or_empty (br_chunk_set_id res)) \<or>
         (\<exists>msg. lexical q = Inl msg \<and> empty_branch_error msg \<and> cs = [] \<and> index_id \<noteq> [])"
proof (cases "lexical q")
  case (Inl msg)
  with assms show thesis
    by (intro that [of "[]"])
      (auto simp: lexical_branch_def empty_branch_error_def Let_def dict_by_def split: if_splits)
next
  case (Inr res)
  with assms show thesis
    by (intro that [of "br_candidates res"]) (auto simp: lexical_branch_def)
qed

lemma branch_hit_ids [simp]: "bh_chunk_id ` set (map branch_hit_of cs) = cd_chunk_id ` set cs"
  by (force simp: branch_hit_of_def)

lemma dict_by_values_subset: "set (map snd (dict_by key xs)) \<subseteq> set xs"
proof
  fix y assume "y \<in> set (map snd (dict_by key xs))"
  then obtain k where "(k, y) \<in> set (dict_by key xs)" by auto
  then have "map_of (dict_by key xs) k = Some y" by (simp add: map_of_is_SomeI)
  then show "y \<in> set xs" by (blast dest: dict_by_SomeD)
qed

text \<open>The intermediate results of a successful call.\<close>

lemma hybrid_retrieve_InrE:
  assumes "hybrid_retrieve rnd env dense lexical rq = Inr r"
  obtains name bound dres ls li lcs fused where
    "hybrid_preflight env rq = Inr (name, bound)"
    "dense (dense_query rq bound name (fs_dense_top_k (he_fusion env))) = Inr dres"
    "lexical_branch lexical (lexical_query rq bound name (fs_lexical_top_k (he_fusion env))) bound rq
       (if bound then None else Some (he_status env name)) =
       Inr (map branch_hit_of ls, dict_by cd_chunk_id ls, li, lcs)"
    "ls = [] \<or> (\<exists>res. lexical (lexical_query rq bound name (fs_lexical_top_k (he_fusion env))) = Inr res \<and>
       ls = br_candidates res)"
    "\<forall>c \<in> set (br_candidates dres). in_scope (rq_document_ids rq) (cd_document_id c)"
    "\<forall>c \<in> set (map snd (dict_by cd_chunk_id ls)). in_scope (rq_document_ids rq) (cd_document_id c)"
    "lcs = [] \<or> or_empty (br_chunk_set_id dres) = [] \<or> lcs = or_empty (br_chunk_set_id dres)"
    "fuse rnd (fs_rrf_k (he_fusion env)) (map branch_hit_of (br_candidates dres))
       (map branch_hit_of ls) = Inr fused"
    "map_res (join_hit (dict_by cd_chunk_id (br_candidates dres)) (dict_by cd_chunk_id ls))
       (enum1 (take (nat (hybrid_final_k (he_fusion env) rq)) fused)) = Inr (hr_candidates r)"
    "hr_top_k r = hybrid_final_k (he_fusion env) rq"
    "hr_dense_index_id r = br_index_id dres" "hr_lexical_index_id r = li"
    "hr_chunk_set_id r = (if or_empty (br_chunk_set_id dres) \<noteq> [] then or_empty (br_chunk_set_id dres) else lcs)"
    "\<forall>c \<in> set (hr_candidates r). in_scope (rq_document_ids rq) (cd_document_id c)"
proof -
  from assms obtain name bound where p: "hybrid_preflight env rq = Inr (name, bound)"
    unfolding hybrid_retrieve_def by (elim bind_res_InrE) (auto split: prod.splits)
  note a1 = assms [unfolded hybrid_retrieve_def p bind_res_simps prod.case Let_def]
  from a1 obtain dres where d: "dense (dense_query rq bound name (fs_dense_top_k (he_fusion env))) = Inr dres"
    by (elim bind_res_InrE) simp
  note a2 = a1 [unfolded d try_map_def sum.case bind_res_simps]
  from a2 obtain lh lb li lcs where lx: "lexical_branch lexical
      (lexical_query rq bound name (fs_lexical_top_k (he_fusion env))) bound rq
      (if bound then None else Some (he_status env name)) = Inr (lh, lb, li, lcs)"
    by (elim bind_res_InrE) (auto split: prod.splits)
  from lexical_branch_InrE [OF lx] obtain ls where ls: "lh = map branch_hit_of ls"
    "lb = dict_by cd_chunk_id ls" and src: "ls = [] \<or> (\<exists>res. lexical (lexical_query rq bound name
      (fs_lexical_top_k (he_fusion env))) = Inr res \<and> ls = br_candidates res)" by blast
  note a3 = a2 [unfolded lx bind_res_simps prod.case]
  from a3 obtain fused cs where
    "\<forall>c \<in> set (br_candidates dres). in_scope (rq_document_ids rq) (cd_document_id c)"
    "\<forall>c \<in> set (map snd lb). in_scope (rq_document_ids rq) (cd_document_id c)"
    "lcs = [] \<or> or_empty (br_chunk_set_id dres) = [] \<or> lcs = or_empty (br_chunk_set_id dres)"
    "fuse rnd (fs_rrf_k (he_fusion env)) (map branch_hit_of (br_candidates dres)) lh = Inr fused"
    "map_res (join_hit (dict_by cd_chunk_id (br_candidates dres)) lb)
       (enum1 (take (nat (hybrid_final_k (he_fusion env) rq)) fused)) = Inr (hr_candidates r)"
    "hr_top_k r = hybrid_final_k (he_fusion env) rq"
    "hr_dense_index_id r = br_index_id dres" "hr_lexical_index_id r = li"
    "hr_chunk_set_id r = (if or_empty (br_chunk_set_id dres) \<noteq> [] then or_empty (br_chunk_set_id dres) else lcs)"
    "\<forall>c \<in> set (hr_candidates r). in_scope (rq_document_ids rq) (cd_document_id c)"
    by (elim bind_res_InrE) (auto split: if_splits elim!: bind_res_InrE)
  with p d lx src show thesis unfolding ls by (rule that)
qed

lemma hybrid_retrieve_total:
  assumes p: "hybrid_preflight env rq = Inr (name, bound)"
    and d: "dense (dense_query rq bound name (fs_dense_top_k (he_fusion env))) = Inr dres"
    and l: "lexical_branch lexical (lexical_query rq bound name (fs_lexical_top_k (he_fusion env)))
       bound rq (if bound then None else Some (he_status env name)) = Inr (lh, lb, li, lcs)"
    and scope: "\<forall>c \<in> set (br_candidates dres). in_scope (rq_document_ids rq) (cd_document_id c)"
       "\<forall>c \<in> set (map snd lb). in_scope (rq_document_ids rq) (cd_document_id c)"
    and cs: "lcs = [] \<or> or_empty (br_chunk_set_id dres) = [] \<or> lcs = or_empty (br_chunk_set_id dres)"
    and ranks: "\<forall>c \<in> set (br_candidates dres). 1 \<le> cd_rank c" "\<forall>h \<in> set lh. 1 \<le> bh_rank h"
  shows "\<exists>r. hybrid_retrieve rnd env dense lexical rq = Inr r"
proof -
  from lexical_branch_InrE [OF l] obtain ls where ls: "lh = map branch_hit_of ls"
    "lb = dict_by cd_chunk_id ls" by blast
  have "\<forall>h \<in> set (map branch_hit_of (br_candidates dres)) \<union> set lh. 1 \<le> bh_rank h"
    using ranks by (auto simp: branch_hit_of_def)
  with fuse_total obtain fused where f: "fuse rnd (fs_rrf_k (he_fusion env))
      (map branch_hit_of (br_candidates dres)) lh = Inr fused" by blast
  define sel where "sel = take (nat (hybrid_final_k (he_fusion env) rq)) fused"
  have "fh_chunk_id ` set fused = cd_chunk_id ` set (br_candidates dres) \<union> cd_chunk_id ` set ls"
    unfolding fuse_ids(2) [OF f] image_Un ls(1) branch_hit_ids ..
  then have "\<forall>h \<in> set sel. fh_chunk_id h \<in> cd_chunk_id ` set (br_candidates dres) \<union> cd_chunk_id ` set ls"
    using set_take_subset [of _ fused] unfolding sel_def by blast
  from join_total [OF this] obtain cs where j: "map_res (join_hit (dict_by cd_chunk_id
      (br_candidates dres)) lb) (enum1 sel) = Inr cs" unfolding ls by blast
  have "in_scope (rq_document_ids rq) (cd_document_id c)" if "c \<in> set cs" for c
  proof -
    from that obtain i where i: "i < length cs" "c = cs ! i" by (auto simp: in_set_conv_nth)
    from i join_each(1) [OF j [unfolded ls]] have "join_hit (dict_by cd_chunk_id (br_candidates dres)) lb
        (Suc i, sel ! i) = Inr c"
      using j by (auto simp: map_res_Inr_iff list_all2_conv_all_nth enum1_nth)
    then consider x where "map_of (dict_by cd_chunk_id (br_candidates dres)) (fh_chunk_id (sel ! i)) = Some x"
        "cd_document_id c = cd_document_id x"
      | x where "map_of lb (fh_chunk_id (sel ! i)) = Some x" "cd_document_id c = cd_document_id x"
      by (auto simp: join_hit_def simp del: map_of_eq_Some_iff split: option.splits)
    then show ?thesis
    proof cases
      case 1
      from dict_by_SomeD [OF 1(1)] scope(1) 1(2) show ?thesis by simp
    next
      case 2
      from map_of_SomeD [OF 2(1)] scope(2) 2(2) show ?thesis by force
    qed
  qed
  then have asserts: "assert_document_scope Hybrid_Retrieval_Error ''hybrid'' (rq_document_ids rq) cs = Inr ()"
      "assert_document_scope Hybrid_Retrieval_Error ''hybrid-dense-branch'' (rq_document_ids rq)
         (br_candidates dres) = Inr ()"
      "assert_document_scope Hybrid_Retrieval_Error ''hybrid-lexical-branch'' (rq_document_ids rq)
         (map snd lb) = Inr ()"
    using scope by simp_all
  show ?thesis
    unfolding hybrid_retrieve_def p bind_res_simps prod.case Let_def d try_map_def sum.case l asserts f
      j [unfolded sel_def]
    using cs by auto
qed

interpretation hybrid: scoped_retriever "hybrid_retrieve rnd env dense lexical" rq_document_ids
  "\<lambda>r. map cd_document_id (hr_candidates r)" for rnd env dense lexical
  by unfold_locales (auto elim!: hybrid_retrieve_InrE)

subsection \<open>A small instance\<close>

definition sample_candidate :: "nat \<Rightarrow> string \<Rightarrow> string \<Rightarrow> candidate_core" where
  "sample_candidate n c d = \<lparr>cd_rank = n, cd_score = 1, cd_chunk_id = c, cd_document_id = d,
     cd_parent_chunk_id = None, cd_previous_chunk_id = None, cd_next_chunk_id = None,
     cd_text = ''some text'', cd_section_path = [], cd_page_start = None, cd_page_end = None,
     cd_line_start = None, cd_line_end = None, cd_token_count = 2, cd_chunk_artifact_id = None\<rparr>"

definition sample_dense_result :: "dense_candidate branch_result" where
  "sample_dense_result = \<lparr>br_index_id = ''dense-1'', br_candidates =
     [candidate_core.extend (sample_candidate 1 ''chunk-a'' ''doc-1'')
        (dense_candidate.fields None None)], br_chunk_set_id = Some ''set-1''\<rparr>"

definition sample_dense_branch :: "branch_query \<Rightarrow> string + dense_candidate branch_result" where
  "sample_dense_branch q = Inr sample_dense_result"

definition sample_lexical_branch :: "branch_query \<Rightarrow> string + lexical_candidate branch_result" where
  "sample_lexical_branch q = Inr \<lparr>br_index_id = ''lexical-1'', br_candidates =
     [sample_candidate 1 ''chunk-b'' ''doc-2''], br_chunk_set_id = Some ''set-1''\<rparr>"

definition sample_env :: hybrid_env where
  "sample_env = \<lparr>he_fusion = \<lparr>fs_method = ''rrf'', fs_contract_version = ''rrf-v1'', fs_rrf_k = 60,
       fs_dense_top_k = 30, fs_lexical_top_k = 30, fs_output_top_k = 10\<rparr>,
     he_facts = (\<lambda>_. \<lparr>cf_corpus_exists = True, cf_chunking_status = ''CURRENT'',
       cf_dense_status = ''CURRENT'', cf_lexical_status = ''CURRENT'',
       cf_dense_state = Some \<lparr>ix_source_chunk_set_id = ''set-1'', ix_source_corpus_id = None,
         ix_current_index_id = ''dense-1''\<rparr>,
       cf_lexical_state = Some \<lparr>ix_source_chunk_set_id = ''set-1'', ix_source_corpus_id = None,
         ix_current_index_id = ''lexical-1''\<rparr>,
       cf_active_chunk_set = Some ''set-1''\<rparr>),
     he_fusion_config_hash = ''cfg_1''\<rparr>"

definition sample_request :: retrieval_request where
  "sample_request = \<lparr>rq_query = ''annual leave'', rq_corpus_name = ''default'', rq_top_k = None,
     rq_dense_index_id = None, rq_dense_collection_name = None, rq_lexical_index_id = None,
     rq_chunk_set_id = None, rq_corpus_id = None,
     rq_document_ids = Some {''doc-1'', ''doc-2''}\<rparr>"

lemma sample_preflight: "hybrid_preflight sample_env sample_request = Inr (''default'', False)"
proof -
  have 1: "py_strip ''annual leave'' \<noteq> []" and 2: "py_strip ''default'' \<noteq> []" by code_simp+
  have 3: "validate_corpus_name ''default'' = Inr ''default''" by code_simp
  show ?thesis
    by (simp add: hybrid_preflight_def sample_env_def sample_request_def 1 3 hybrid_final_k_def
        hybrid_binding_def hybrid_require_ready_def Let_def he_status_def describe_hybrid_status_def
        hybrid_status_for_corpus_def)
qed

lemma sample_lexical_result:
  "lexical_branch sample_lexical_branch q False sample_request details =
     Inr ([branch_hit_of (sample_candidate 1 ''chunk-b'' ''doc-2'')],
          [(''chunk-b'', sample_candidate 1 ''chunk-b'' ''doc-2'')], ''lexical-1'', ''set-1'')"
  by (simp add: lexical_branch_def sample_lexical_branch_def dict_by_def or_empty_def
      sample_candidate_def)

lemma sample_lexical_call:
  "lexical_branch sample_lexical_branch (lexical_query sample_request False ''default''
     (fs_lexical_top_k (he_fusion sample_env))) False sample_request
     (if False then None else Some (he_status sample_env ''default'')) =
   Inr ([branch_hit_of (sample_candidate 1 ''chunk-b'' ''doc-2'')],
        [(''chunk-b'', sample_candidate 1 ''chunk-b'' ''doc-2'')], ''lexical-1'', ''set-1'')"
  by (rule sample_lexical_result)

lemma sample_dense_call:
  "sample_dense_branch (dense_query sample_request False ''default''
     (fs_dense_top_k (he_fusion sample_env))) = Inr sample_dense_result"
  by (simp add: sample_dense_branch_def)

lemma sample_scopes:
  "\<forall>c \<in> set (br_candidates sample_dense_result).
     in_scope (rq_document_ids sample_request) (cd_document_id c)"
  "\<forall>c \<in> set (map snd [(''chunk-b'', sample_candidate 1 ''chunk-b'' ''doc-2'')]).
     in_scope (rq_document_ids sample_request) (cd_document_id c)"
  "''set-1'' = [] \<or> or_empty (br_chunk_set_id sample_dense_result) = [] \<or>
     ''set-1'' = or_empty (br_chunk_set_id sample_dense_result)"
  by (simp_all add: sample_dense_result_def sample_candidate_def sample_request_def or_empty_def
      candidate_core.extend_def dense_candidate.fields_def)

lemma sample_ranks:
  "sample_dense_branch q = Inr res \<Longrightarrow> c \<in> set (br_candidates res) \<Longrightarrow> 1 \<le> cd_rank c"
  "sample_lexical_branch q = Inr res' \<Longrightarrow> c' \<in> set (br_candidates res') \<Longrightarrow> 1 \<le> cd_rank c'"
  by (auto simp: sample_dense_branch_def sample_dense_result_def sample_candidate_def
      sample_lexical_branch_def candidate_core.extend_def dense_candidate.fields_def)

lemma sample_hybrid_ok:
  "\<exists>r. hybrid_retrieve id sample_env sample_dense_branch sample_lexical_branch sample_request = Inr r"
  by (rule hybrid_retrieve_total [where dense = sample_dense_branch and
        lexical = sample_lexical_branch and env = sample_env and rq = sample_request,
        OF sample_preflight sample_dense_call sample_lexical_call sample_scopes])
    (simp_all add: sample_ranks(1) [OF sample_dense_call, simplified] branch_hit_of_def sample_candidate_def)

subsection \<open>Members of the result\<close>

definition returned_by ::
    "(branch_query \<Rightarrow> string + 'a candidate_core_scheme branch_result) \<Rightarrow> string \<Rightarrow> candidate_core \<Rightarrow> bool" where
  "returned_by branch query s \<longleftrightarrow>
     (\<exists>q res. branch q = Inr res \<and> bq_query q = query \<and> s \<in> core_of ` set (br_candidates res))"

lemma hybrid_list:
  assumes "hybrid_retrieve rnd env dense lexical rq = Inr r"
  obtains sel where "length (hr_candidates r) = length sel" and "int (length sel) \<le> hr_top_k r"
    and "distinct (map fh_chunk_id sel)" and "sorted (map fuse_key sel)"
    and "\<And>i. i < length sel \<Longrightarrow> \<exists>s. hr_candidates r ! i = hybrid_candidate_of (Suc i) s (sel ! i) \<and>
      cd_chunk_id s = fh_chunk_id (sel ! i) \<and>
      (returned_by dense (py_strip (rq_query rq)) s \<or> returned_by lexical (py_strip (rq_query rq)) s)"
  using assms
proof (rule hybrid_retrieve_InrE)
  fix name bound dres ls li lcs and fused :: "fused_hit list"
  let ?k = "hybrid_final_k (he_fusion env) rq" and ?q = "py_strip (rq_query rq)"
  let ?sel = "take (nat ?k) fused"
  assume p: "hybrid_preflight env rq = Inr (name, bound)"
    and d: "dense (dense_query rq bound name (fs_dense_top_k (he_fusion env))) = Inr dres"
    and l: "ls = [] \<or> (\<exists>res. lexical (lexical_query rq bound name (fs_lexical_top_k (he_fusion env))) =
       Inr res \<and> ls = br_candidates res)"
    and f: "fuse rnd (fs_rrf_k (he_fusion env)) (map branch_hit_of (br_candidates dres))
      (map branch_hit_of ls) = Inr fused"
    and j: "map_res (join_hit (dict_by cd_chunk_id (br_candidates dres)) (dict_by cd_chunk_id ls))
       (enum1 ?sel) = Inr (hr_candidates r)"
    and k: "hr_top_k r = ?k"
  have pos: "1 \<le> ?k" using p
    by (auto simp: hybrid_preflight_def Let_def bind_res_Inr_iff split: if_splits)
  have dn: "bq_query (dense_query rq bound name n) = ?q"
    and ln: "bq_query (lexical_query rq bound name n) = ?q" for n
    by (simp_all add: dense_query_def lexical_query_def)
  have src: "returned_by dense ?q s \<or> returned_by lexical ?q s"
    if "(\<exists>c \<in> set (br_candidates dres). s = core_of c) \<or> (\<exists>c \<in> set ls. s = core_of c)" for s
    using that
  proof
    assume "\<exists>c \<in> set (br_candidates dres). s = core_of c"
    with d dn show ?thesis unfolding returned_by_def by blast
  next
    assume m: "\<exists>c \<in> set ls. s = core_of c"
    with l obtain res where "lexical (lexical_query rq bound name (fs_lexical_top_k (he_fusion env))) =
       Inr res" "ls = br_candidates res" by fastforce
    with m ln show ?thesis unfolding returned_by_def by blast
  qed
  show thesis
  proof (rule that [of ?sel])
    show "length (hr_candidates r) = length ?sel" using join_each(1) [OF j] .
    have "length ?sel \<le> nat ?k" by simp
    then show "int (length ?sel) \<le> hr_top_k r" using pos k by linarith
    show "distinct (map fh_chunk_id ?sel)" using fuse_ids(1) [OF f]
      by (simp add: take_map [symmetric])
    show "sorted (map fuse_key ?sel)" using fuse_ids(3) [OF f] by (rule sorted_take_map)
    fix i assume "i < length ?sel"
    from join_each(2) [OF j this] src
    show "\<exists>s. hr_candidates r ! i = hybrid_candidate_of (Suc i) s (?sel ! i) \<and>
      cd_chunk_id s = fh_chunk_id (?sel ! i) \<and> (returned_by dense ?q s \<or> returned_by lexical ?q s)"
      by blast
  qed
qed

lemma hybrid_ranked:
  assumes "hybrid_retrieve rnd env dense lexical rq = Inr r"
  shows "int (length (hr_candidates r)) \<le> hr_top_k r"
    and "map cd_rank (hr_candidates r) = [1 ..< Suc (length (hr_candidates r))]"
    and "distinct (map cd_chunk_id (hr_candidates r))"
    and "sorted_wrt (\<lambda>a b. cd_score b \<le> cd_score a) (hr_candidates r)"
proof -
  let ?cs = "hr_candidates r"
  from hybrid_list [OF assms] obtain sel where len: "length ?cs = length sel"
    and le: "int (length sel) \<le> hr_top_k r" and dist: "distinct (map fh_chunk_id sel)"
    and srt: "sorted (map fuse_key sel)"
    and nth: "\<And>i. i < length sel \<Longrightarrow> \<exists>s. ?cs ! i = hybrid_candidate_of (Suc i) s (sel ! i) \<and>
      cd_chunk_id s = fh_chunk_id (sel ! i)" by metis
  show "int (length ?cs) \<le> hr_top_k r" using le len by simp
  show "map cd_rank ?cs = [1 ..< Suc (length ?cs)]"
    by (rule nth_equalityI) (use nth len in \<open>force simp del: upt_Suc\<close>)+
  have "map cd_chunk_id ?cs = map fh_chunk_id sel"
    by (rule nth_equalityI) (use nth len in \<open>force+\<close>)
  with dist show "distinct (map cd_chunk_id ?cs)" by simp
  show "sorted_wrt (\<lambda>a b. cd_score b \<le> cd_score a) ?cs"
  proof (rule sorted_wrt_iff_nth_less [THEN iffD2], intro allI impI)
    fix i i' assume ii: "i < i'" "i' < length ?cs"
    then have "fuse_key (sel ! i) \<le> fuse_key (sel ! i')"
      using sorted_nth_mono [OF srt, of i i'] len by simp
    then have "fh_rrf_score (sel ! i') \<le> fh_rrf_score (sel ! i)"
      by (auto simp: fuse_key_def less_eq_prod_def)
    with nth [of i] nth [of i'] ii len show "cd_score (?cs ! i') \<le> cd_score (?cs ! i)" by auto
  qed
qed

lemma hybrid_member:
  assumes "hybrid_retrieve rnd env dense lexical rq = Inr r" and "c \<in> set (hr_candidates r)"
  shows "cd_score c = fp_rrf_score (hc_fusion c) \<and> (\<exists>s. same_content c s \<and>
    (returned_by dense (py_strip (rq_query rq)) s \<or> returned_by lexical (py_strip (rq_query rq)) s))"
proof -
  from assms(2) obtain i where i: "i < length (hr_candidates r)" "c = hr_candidates r ! i"
    by (auto simp: in_set_conv_nth)
  from hybrid_list [OF assms(1)] i obtain s h n where "c = hybrid_candidate_of n s h"
    "returned_by dense (py_strip (rq_query rq)) s \<or> returned_by lexical (py_strip (rq_query rq)) s"
    by metis
  then show ?thesis using same_content_hybrid by auto
qed

subsection \<open>Properties\<close>

text \<open>C17: A successful hybrid call returns at most \<open>top_k\<close> candidates ranked 1, 2, 3, ..., with distinct
  chunk ids and falling scores; each is in the requested document scope, repeats the content of a
  candidate one of the two branches returned for the stripped query, and carries as its score the
  fusion score of its provenance.\<close>

theorem hybrid_retrieve_sound:
  assumes "hybrid_retrieve rnd env dense lexical rq = Inr r"
  shows "int (length (hr_candidates r)) \<le> hr_top_k r \<and>
    map cd_rank (hr_candidates r) = [1 ..< Suc (length (hr_candidates r))] \<and>
    distinct (map cd_chunk_id (hr_candidates r)) \<and>
    sorted_wrt (\<lambda>a b. cd_score b \<le> cd_score a) (hr_candidates r) \<and>
    (\<forall>c \<in> set (hr_candidates r). in_scope (rq_document_ids rq) (cd_document_id c) \<and>
       cd_score c = fp_rrf_score (hc_fusion c) \<and>
       (\<exists>s. same_content c s \<and> (returned_by dense (py_strip (rq_query rq)) s \<or>
          returned_by lexical (py_strip (rq_query rq)) s)))"
  using hybrid_ranked [OF assms] hybrid_member [OF assms] hybrid.in_scope_law [OF assms]
  by (simp del: upt_Suc)

theorem hybrid_retrieve_sound_witness:
  "\<exists>r. hybrid_retrieve id sample_env sample_dense_branch sample_lexical_branch sample_request = Inr r \<and>
     distinct (map cd_chunk_id (hr_candidates r)) \<and>
     (\<forall>c \<in> set (hr_candidates r). cd_document_id c \<in> {''doc-1'', ''doc-2''})"
proof -
  from sample_hybrid_ok obtain r where r: "hybrid_retrieve id sample_env sample_dense_branch
      sample_lexical_branch sample_request = Inr r" ..
  have "rq_document_ids sample_request = Some {''doc-1'', ''doc-2''}"
    by (simp add: sample_request_def)
  with hybrid_retrieve_sound [OF r] r show ?thesis by auto
qed

text \<open>Exactly when a hybrid call succeeds: the arguments and the index are accepted, the dense
  branch returns, the lexical branch returns or is the empty branch of a query without terms, no
  branch left the document scope, and the two chunk sets do not disagree. In particular the join
  of fused hits with branch candidates never misses.\<close>

theorem hybrid_retrieve_succeeds_iff:
  assumes "\<And>q res c. dense q = Inr res \<Longrightarrow> c \<in> set (br_candidates res) \<Longrightarrow> 1 \<le> cd_rank c"
    and "\<And>q res c. lexical q = Inr res \<Longrightarrow> c \<in> set (br_candidates res) \<Longrightarrow> 1 \<le> cd_rank c"
  shows "(\<exists>r. hybrid_retrieve rnd env dense lexical rq = Inr r) \<longleftrightarrow>
    (\<exists>name bound dres lh lb li lcs. hybrid_preflight env rq = Inr (name, bound) \<and>
       dense (dense_query rq bound name (fs_dense_top_k (he_fusion env))) = Inr dres \<and>
       lexical_branch lexical (lexical_query rq bound name (fs_lexical_top_k (he_fusion env)))
         bound rq (if bound then None else Some (he_status env name)) = Inr (lh, lb, li, lcs) \<and>
       (\<forall>c \<in> set (br_candidates dres). in_scope (rq_document_ids rq) (cd_document_id c)) \<and>
       (\<forall>c \<in> set (map snd lb). in_scope (rq_document_ids rq) (cd_document_id c)) \<and>
       (lcs = [] \<or> or_empty (br_chunk_set_id dres) = [] \<or> lcs = or_empty (br_chunk_set_id dres)))"
    (is "?ok \<longleftrightarrow> ?cond")
proof
  assume ?ok
  then obtain r where "hybrid_retrieve rnd env dense lexical rq = Inr r" ..
  then show ?cond
  proof (rule hybrid_retrieve_InrE)
    fix name bound dres ls li lcs and fused :: "fused_hit list"
    assume "hybrid_preflight env rq = Inr (name, bound)"
      "dense (dense_query rq bound name (fs_dense_top_k (he_fusion env))) = Inr dres"
      "lexical_branch lexical (lexical_query rq bound name (fs_lexical_top_k (he_fusion env))) bound rq
         (if bound then None else Some (he_status env name)) =
         Inr (map branch_hit_of ls, dict_by cd_chunk_id ls, li, lcs)"
      "\<forall>c \<in> set (br_candidates dres). in_scope (rq_document_ids rq) (cd_document_id c)"
      "\<forall>c \<in> set (map snd (dict_by cd_chunk_id ls)). in_scope (rq_document_ids rq) (cd_document_id c)"
      "lcs = [] \<or> or_empty (br_chunk_set_id dres) = [] \<or> lcs = or_empty (br_chunk_set_id dres)"
    then show ?cond by blast
  qed
next
  assume ?cond
  then obtain name bound dres lh lb li lcs where c: "hybrid_preflight env rq = Inr (name, bound)"
    "dense (dense_query rq bound name (fs_dense_top_k (he_fusion env))) = Inr dres"
    and l: "lexical_branch lexical (lexical_query rq bound name (fs_lexical_top_k (he_fusion env)))
         bound rq (if bound then None else Some (he_status env name)) = Inr (lh, lb, li, lcs)"
    and c': "\<forall>c \<in> set (br_candidates dres). in_scope (rq_document_ids rq) (cd_document_id c)"
    "\<forall>c \<in> set (map snd lb). in_scope (rq_document_ids rq) (cd_document_id c)"
    "lcs = [] \<or> or_empty (br_chunk_set_id dres) = [] \<or> lcs = or_empty (br_chunk_set_id dres)"
    by blast
  have "\<forall>h \<in> set lh. 1 \<le> bh_rank h"
    using l
  proof (rule lexical_branch_InrE)
    fix cs assume lh: "lh = map branch_hit_of cs"
      and "(\<exists>res. lexical (lexical_query rq bound name (fs_lexical_top_k (he_fusion env))) = Inr res \<and>
          cs = br_candidates res \<and> li = br_index_id res \<and> lcs = or_empty (br_chunk_set_id res)) \<or>
        (\<exists>msg. lexical (lexical_query rq bound name (fs_lexical_top_k (he_fusion env))) = Inl msg \<and>
          empty_branch_error msg \<and> cs = [] \<and> li \<noteq> [])"
    then have "\<forall>c \<in> set cs. 1 \<le> cd_rank c" using assms(2) by auto
    then show ?thesis unfolding lh by (simp add: branch_hit_of_def)
  qed
  with hybrid_retrieve_total [where dense = dense and lexical = lexical and env = env and rq = rq,
      OF c l c'] assms(1) [OF c(2)] show ?ok by blast
qed

theorem hybrid_retrieve_succeeds_iff_witness:
  "\<exists>r. hybrid_retrieve id sample_env sample_dense_branch sample_lexical_branch sample_request = Inr r"
proof (rule hybrid_retrieve_succeeds_iff [THEN iffD2], goal_cases)
  case (1 q res c)
  then show ?case by (rule sample_ranks)
next
  case (2 q res c)
  then show ?case by (rule sample_ranks)
next
  case 3
  show ?case
    by (intro exI conjI, rule sample_preflight, rule sample_dense_call, rule sample_lexical_call)
      (rule sample_scopes)+
qed

text \<open>A lexical failure other than the empty query never degrades to dense-only results.\<close>

theorem lexical_failure_fails_closed:
  assumes "\<And>q. \<exists>msg. lexical q = Inl msg \<and> \<not> empty_branch_error msg"
  shows "\<exists>e. hybrid_retrieve rnd env dense lexical rq = Inl e"
proof (cases "hybrid_retrieve rnd env dense lexical rq")
  case (Inr r)
  then show ?thesis
  proof (rule hybrid_retrieve_InrE)
    fix name bound dres ls li lcs fused
    assume "lexical_branch lexical (lexical_query rq bound name (fs_lexical_top_k (he_fusion env)))
        bound rq (if bound then None else Some (he_status env name)) =
      Inr (map branch_hit_of ls, dict_by cd_chunk_id ls, li, lcs)"
    then show ?thesis
      using assms [of "lexical_query rq bound name (fs_lexical_top_k (he_fusion env))"]
      by (auto simp: lexical_branch_def empty_branch_error_def)
  qed
qed simp

theorem lexical_failure_fails_closed_witness:
  "\<exists>e. hybrid_retrieve id sample_env sample_dense_branch (\<lambda>_. Inl ''disk full'') sample_request = Inl e"
proof (rule lexical_failure_fails_closed)
  have "\<not> empty_branch_error ''disk full''" by code_simp
  then show "\<exists>msg. (Inl ''disk full'' :: string + lexical_candidate branch_result) = Inl msg \<and>
      \<not> empty_branch_error msg" by blast
qed

end
