(* ===== verification/Rerank_Retrieval.thy ===== *)
theory Rerank_Retrieval
  imports Hybrid_Retrieval
begin

section \<open>Hybrid-rerank retrieval (rerank/retrieve.py, rerank/input_builder.py, rerank/status.py)\<close>

text \<open>
  The second stage: the hybrid pool is turned into query-passage pairs, scored by the injected
  reranker, sorted by score and chunk id, and truncated. The hybrid retriever and the reranker are
  constructor arguments of the class and arguments of the definition; the artifact status is read
  from disk by the code and is a field of the environment.
\<close>

record rerank_pair =
  pr_chunk_id :: string
  pr_query_text :: string
  pr_passage_text :: string

record reranker_settings =
  rs_enabled :: bool
  rs_implementation :: string
  rs_input_k :: int
  rs_output_k :: int
  rs_input_construction :: string
  rs_sequence_contract :: string
  rs_max_length :: int
  rs_score_transform :: string
  rs_tie_break :: string
  rs_local_files_only :: bool
  rs_trust_remote_code :: bool

record rerank_env =
  re_settings :: reranker_settings
  re_hybrid_status :: "string \<Rightarrow> string"
  re_artifact_status :: string
  re_reranker_config_hash :: string

record rerank_result =
  kr_query :: string
  kr_method :: string
  kr_top_k :: int
  kr_candidates :: "hybrid_rerank_candidate list"
  kr_dense_index_id :: string
  kr_lexical_index_id :: string
  kr_fusion_config_hash :: string
  kr_reranker_config_hash :: string
  kr_corpus_id :: "string option"
  kr_chunk_set_id :: string
  kr_input_k :: int
  kr_input_pool_chunk_ids :: "string list"

subsection \<open>Readiness\<close>

definition reranker_config_ok :: "reranker_settings \<Rightarrow> bool" where
  "reranker_config_ok rs =
     (if rs_input_construction rs \<noteq> ''plain-pair-v1'' then False
      else if rs_sequence_contract rs = ''seq-trunc-1024-passage-right-v1'' \<and> rs_max_length rs \<noteq> 1024 then False
      else if rs_score_transform rs \<noteq> ''raw-logit-v1'' then False
      else if rs_tie_break rs \<noteq> ''chunk-id-asc-v1'' then False
      else if \<not> rs_local_files_only rs \<or> rs_trust_remote_code rs then False
      else rs_input_k rs \<ge> 1 \<and> rs_output_k rs \<ge> 1)"

definition hybrid_rerank_status :: "rerank_env \<Rightarrow> string \<Rightarrow> string" where
  "hybrid_rerank_status env name =
     (if re_hybrid_status env name \<noteq> ''READY'' then ''NOT_READY''
      else if \<not> rs_enabled (re_settings env) then ''NOT_READY''
      else if \<not> reranker_config_ok (re_settings env) then ''NOT_READY''
      else if rs_implementation (re_settings env) = ''fake'' then ''READY''
      else if re_artifact_status env \<noteq> ''READY'' then ''NOT_READY''
      else ''READY'')"

definition rerank_require_ready :: "rerank_env \<Rightarrow> string \<Rightarrow> retrieval_exc + unit" where
  "rerank_require_ready env name =
     (let status = hybrid_rerank_status env name in
      if status = ''READY'' then Inr ()
      else Inl (Hybrid_Rerank_Error (join LF
        [''Hybrid-rerank retrieval unavailable.'',
         ''Hybrid status:            '' @ re_hybrid_status env name,
         ''Reranker artifacts:       '' @ re_artifact_status env,
         ''Hybrid-rerank status:     '' @ status,
         ''Reranker enabled:         '' @ (if rs_enabled (re_settings env) then ''true'' else ''false''),
         ''Reranker implementation:  '' @ rs_implementation (re_settings env),
         ''Ensure hybrid indexes are CURRENT and the reranker is provisioned:'',
         ''  offline-rag index --corpus '' @ name,
         ''  offline-rag index lexical --corpus '' @ name,
         ''  offline-rag provision reranker''])))"

subsection \<open>Pairs and order\<close>

text \<open>\<open>PlainPairInputBuilder.build\<close>; \<open>repr\<close> of the chunk id in the message is a parameter.\<close>

definition build_pair ::
    "(string \<Rightarrow> string) \<Rightarrow> string \<Rightarrow> hybrid_candidate \<Rightarrow> string + rerank_pair" where
  "build_pair repr query_text c =
     (if cd_text c = [] \<or> py_strip (cd_text c) = [] then
        Inl (''plain-pair-v1 invariant failure: empty or whitespace-only passage for chunk_id='' @
          repr (cd_chunk_id c))
      else Inr \<lparr>pr_chunk_id = cd_chunk_id c, pr_query_text = query_text,
                pr_passage_text = cd_text c\<rparr>)"

definition build_pairs ::
    "(string \<Rightarrow> string) \<Rightarrow> string \<Rightarrow> hybrid_candidate list \<Rightarrow> string + rerank_pair list" where
  "build_pairs repr query candidates =
     (let query_text = py_strip query in
      if query_text = [] then Inl ''query must be non-empty after strip for plain-pair-v1''
      else map_res (build_pair repr query_text) candidates)"

definition rerank_key :: "hybrid_candidate \<times> pyfloat \<Rightarrow> pyfloat \<times> string" where
  "rerank_key item = (- snd item, cd_chunk_id (fst item))"

definition sort_scored ::
    "hybrid_candidate list \<Rightarrow> pyfloat list \<Rightarrow> retrieval_exc + (hybrid_candidate \<times> pyfloat) list" where
  "sort_scored candidates scores =
     (if length candidates \<noteq> length scores then
        Inl (Hybrid_Rerank_Error (''score association mismatch: '' @ str_nat (length scores) @
          '' scores for '' @ str_nat (length candidates) @ '' candidates''))
      else Inr (sort_key rerank_key (zip candidates scores)))"

definition rerank_candidate_of :: "nat \<times> (hybrid_candidate \<times> pyfloat) \<Rightarrow> hybrid_rerank_candidate" where
  "rerank_candidate_of x = (case x of (rank, source, score) \<Rightarrow>
     candidate_core.extend ((core_of source)\<lparr>cd_rank := rank, cd_score := score\<rparr>)
       (hybrid_rerank_candidate.fields
         \<lparr>rp_reranker_score = score, rp_hybrid_rank = cd_rank source,
          rp_rrf_score = fp_rrf_score (hc_fusion source),
          rp_dense_rank = fp_dense_rank (hc_fusion source),
          rp_dense_score = fp_dense_score (hc_fusion source),
          rp_lexical_rank = fp_lexical_rank (hc_fusion source),
          rp_lexical_score = fp_lexical_score (hc_fusion source)\<rparr>))"

subsection \<open>The whole call\<close>

definition rerank_final_k :: "reranker_settings \<Rightarrow> retrieval_request \<Rightarrow> int" where
  "rerank_final_k rs rq = (case rq_top_k rq of Some k \<Rightarrow> k | None \<Rightarrow> rs_output_k rs)"

definition rerank_preflight :: "rerank_env \<Rightarrow> retrieval_request \<Rightarrow> bool \<Rightarrow> retrieval_exc + string" where
  "rerank_preflight env rq check_ready =
     (if rq_query rq = [] \<or> py_strip (rq_query rq) = [] then
        Inl (Hybrid_Rerank_Error ''query must be non-empty'')
      else bind_res (validate_corpus_name (rq_corpus_name rq)) (\<lambda>name.
        let rs = re_settings env; final_k = rerank_final_k rs rq in
        if \<not> rs_enabled rs then Inl (Hybrid_Rerank_Error ''reranker is disabled'')
        else if rs_input_construction rs \<noteq> ''plain-pair-v1'' then
          Inl (Hybrid_Rerank_Error (''unsupported input_construction: '' @ rs_input_construction rs))
        else if rs_score_transform rs \<noteq> ''raw-logit-v1'' then
          Inl (Hybrid_Rerank_Error (''unsupported score_transform: '' @ rs_score_transform rs))
        else if rs_tie_break rs \<noteq> ''chunk-id-asc-v1'' then
          Inl (Hybrid_Rerank_Error (''unsupported tie_break: '' @ rs_tie_break rs))
        else if final_k < 1 then Inl (Hybrid_Rerank_Error ''top_k must be >= 1'')
        else if final_k > 1000 then
          Inl (Hybrid_Rerank_Error ''top_k exceeds safety limit (1000)'')
        else if final_k > rs_input_k rs then
          Inl (Hybrid_Rerank_Error (''top_k ('' @ str_int final_k @
            '') cannot exceed reranker.input_k ('' @ str_int (rs_input_k rs) @ '')''))
        else if check_ready then bind_res (rerank_require_ready env name) (\<lambda>_. Inr name)
        else Inr name))"

text \<open>\<open>except HybridRetrievalError as exc: raise HybridRerankRetrievalError(str(exc))\<close>\<close>

fun rerank_translate :: "retrieval_exc \<Rightarrow> retrieval_exc" where
  "rerank_translate (Hybrid_Retrieval_Error m) = Hybrid_Rerank_Error m"
| "rerank_translate e = e"

definition rerank_result_of ::
    "rerank_env \<Rightarrow> retrieval_request \<Rightarrow> hybrid_result \<Rightarrow> hybrid_rerank_candidate list \<Rightarrow> rerank_result" where
  "rerank_result_of env rq hres candidates =
     \<lparr>kr_query = py_strip (rq_query rq), kr_method = ''hybrid-rerank'',
      kr_top_k = rerank_final_k (re_settings env) rq, kr_candidates = candidates,
      kr_dense_index_id = hr_dense_index_id hres, kr_lexical_index_id = hr_lexical_index_id hres,
      kr_fusion_config_hash = hr_fusion_config_hash hres,
      kr_reranker_config_hash = re_reranker_config_hash env,
      kr_corpus_id = hr_corpus_id hres, kr_chunk_set_id = hr_chunk_set_id hres,
      kr_input_k = rs_input_k (re_settings env),
      kr_input_pool_chunk_ids = map cd_chunk_id (hr_candidates hres)\<rparr>"

definition rerank_retrieve ::
    "(string \<Rightarrow> string) \<Rightarrow> rerank_env \<Rightarrow> (retrieval_request \<Rightarrow> retrieval_exc + hybrid_result) \<Rightarrow>
     (rerank_pair list \<Rightarrow> string + pyfloat list) \<Rightarrow> bool \<Rightarrow> retrieval_request \<Rightarrow>
     retrieval_exc + rerank_result" where
  "rerank_retrieve repr env hybrid score_pairs check_ready rq =
     bind_res (rerank_preflight env rq check_ready) (\<lambda>name.
     let rs = re_settings env in
     bind_res (try_map rerank_translate (hybrid (rq\<lparr>rq_query := py_strip (rq_query rq),
        rq_corpus_name := name, rq_top_k := Some (rs_input_k rs)\<rparr>))) (\<lambda>hres.
     let pool = hr_candidates hres in
     bind_res (assert_document_scope Hybrid_Rerank_Error ''hybrid-rerank-input''
        (rq_document_ids rq) pool) (\<lambda>_.
     if pool = [] then Inr (rerank_result_of env rq hres [])
     else
     bind_res (try_map (\<lambda>e. Hybrid_Rerank_Error (''pair construction failed: '' @ e))
        (build_pairs repr (rq_query rq) pool)) (\<lambda>pairs.
     bind_res (try_map (\<lambda>e. Hybrid_Rerank_Error (''reranker scoring failed: '' @ e))
        (score_pairs pairs)) (\<lambda>scores.
     bind_res (sort_scored pool scores) (\<lambda>ordered.
     let candidates = map rerank_candidate_of
           (enum1 (take (nat (rerank_final_k rs rq)) ordered)) in
     bind_res (assert_document_scope Hybrid_Rerank_Error ''hybrid-rerank''
        (rq_document_ids rq) candidates) (\<lambda>_.
     Inr (rerank_result_of env rq hres candidates))))))))"

subsection \<open>Facts\<close>

lemma rerank_candidate_of_sel [simp]:
  "cd_rank (rerank_candidate_of (n, c, x)) = n"
  "cd_score (rerank_candidate_of (n, c, x)) = x"
  "cd_chunk_id (rerank_candidate_of (n, c, x)) = cd_chunk_id c"
  "cd_document_id (rerank_candidate_of (n, c, x)) = cd_document_id c"
  "rp_reranker_score (hc_rerank (rerank_candidate_of (n, c, x))) = x"
  "rp_hybrid_rank (hc_rerank (rerank_candidate_of (n, c, x))) = cd_rank c"
  "rp_rrf_score (hc_rerank (rerank_candidate_of (n, c, x))) = fp_rrf_score (hc_fusion c)"
  by (simp_all add: rerank_candidate_of_def candidate_core.extend_def hybrid_rerank_candidate.fields_def)

lemma rerank_rank: "cd_rank (rerank_candidate_of (n, p)) = n"
  by (cases p) simp

lemma rerank_same_content: "same_content (rerank_candidate_of (n, c, x)) (core_of c)"
  by (simp add: same_content_def rerank_candidate_of_def core_of_def candidate_core.truncate_def
      candidate_core.extend_def hybrid_rerank_candidate.fields_def)

lemma rerank_translate_Inr [simp]: "try_map rerank_translate m = Inr x \<longleftrightarrow> m = Inr x"
  by simp

lemma sort_scored_iff:
  "sort_scored cs xs = Inr ps \<longleftrightarrow> length cs = length xs \<and> ps = sort_key rerank_key (zip cs xs)"
  by (auto simp: sort_scored_def)

lemma build_pairs_length: "build_pairs repr q cs = Inr ps \<Longrightarrow> length ps = length cs"
  by (auto simp: build_pairs_def Let_def map_res_length split: if_splits)

text \<open>The intermediate results of a successful call on a nonempty pool.\<close>

lemma rerank_retrieve_InrE:
  assumes "rerank_retrieve repr env hybrid score_pairs check_ready rq = Inr r"
  obtains name hres pairs scores where
    "rerank_preflight env rq check_ready = Inr name"
    "hybrid (rq\<lparr>rq_query := py_strip (rq_query rq), rq_corpus_name := name,
       rq_top_k := Some (rs_input_k (re_settings env))\<rparr>) = Inr hres"
    "length scores = length (hr_candidates hres)"
    "hr_candidates hres \<noteq> [] \<Longrightarrow> build_pairs repr (rq_query rq) (hr_candidates hres) = Inr pairs"
    "hr_candidates hres \<noteq> [] \<Longrightarrow> score_pairs pairs = Inr scores"
    "kr_candidates r = map rerank_candidate_of (enum1 (take (nat (rerank_final_k (re_settings env) rq))
       (sort_key rerank_key (zip (hr_candidates hres) scores))))"
    "kr_top_k r = rerank_final_k (re_settings env) rq"
    "\<forall>c \<in> set (kr_candidates r). in_scope (rq_document_ids rq) (cd_document_id c)"
proof -
  from assms obtain name where p: "rerank_preflight env rq check_ready = Inr name"
    unfolding rerank_retrieve_def by (elim bind_res_InrE)
  note a1 = assms [unfolded rerank_retrieve_def p bind_res_simps Let_def]
  from a1 obtain hres where h: "hybrid (rq\<lparr>rq_query := py_strip (rq_query rq), rq_corpus_name := name,
       rq_top_k := Some (rs_input_k (re_settings env))\<rparr>) = Inr hres"
    by (elim bind_res_InrE) simp
  note a2 = a1 [unfolded h try_map_def sum.case bind_res_simps]
  show thesis
  proof (cases "hr_candidates hres = []")
    case True
    with a2 p h show thesis
      by (intro that [of name hres "[]" "[]"]) (auto simp: rerank_result_of_def enum1_def bind_res_Inr_iff)
  next
    case False
    from a2 obtain pairs scores where "build_pairs repr (rq_query rq) (hr_candidates hres) = Inr pairs"
      "score_pairs pairs = Inr scores" "length scores = length (hr_candidates hres)"
      "kr_candidates r = map rerank_candidate_of (enum1 (take (nat (rerank_final_k (re_settings env) rq))
       (sort_key rerank_key (zip (hr_candidates hres) scores))))"
      "kr_top_k r = rerank_final_k (re_settings env) rq"
      "\<forall>c \<in> set (kr_candidates r). in_scope (rq_document_ids rq) (cd_document_id c)"
      using False
      by (auto simp: sort_scored_iff rerank_result_of_def split: sum.splits elim!: bind_res_InrE)
    with p h show thesis by (intro that) auto
  qed
qed

interpretation rerank: scoped_retriever "rerank_retrieve repr env hybrid score_pairs check_ready"
  rq_document_ids "\<lambda>r. map cd_document_id (kr_candidates r)" for repr env hybrid score_pairs check_ready
  by unfold_locales (auto elim!: rerank_retrieve_InrE)

subsection \<open>Selection of the best\<close>

definition before :: "hybrid_rerank_candidate \<Rightarrow> pyfloat \<Rightarrow> string \<Rightarrow> bool" where
  "before r x cid \<longleftrightarrow> x < cd_score r \<or> cd_score r = x \<and> cd_chunk_id r \<le> cid"

lemma sorted_take_drop:
  assumes "sorted (map f xs)" and "a \<in> set (take n xs)" and "b \<in> set (drop n xs)"
  shows "f a \<le> f b"
proof -
  from assms(1) have "sorted (map f (take n xs) @ map f (drop n xs))"
    by (simp add: map_append [symmetric] del: map_append)
  with assms(2,3) show ?thesis by (auto simp: sorted_append)
qed

lemma enum1_snd_in: "p \<in> set (enum1 xs) \<Longrightarrow> snd p \<in> set xs"
  by (metis image_eqI list.set_map map_snd_enum1)

lemma rerank_selects:
  fixes pool :: "hybrid_candidate list"
  assumes "length scores = length pool"
    and cs: "cs = map rerank_candidate_of (enum1 (take k (sort_key rerank_key (zip pool scores))))"
  shows "length cs \<le> k"
    and "map cd_rank cs = [1 ..< Suc (length cs)]"
    and "c \<in> set cs \<Longrightarrow> \<exists>j < length pool. same_content c (core_of (pool ! j)) \<and>
      cd_score c = scores ! j \<and> rp_hybrid_rank (hc_rerank c) = cd_rank (pool ! j)"
    and "j < length pool \<Longrightarrow> \<not> (\<exists>c \<in> set cs. cd_chunk_id c = cd_chunk_id (pool ! j)) \<Longrightarrow> c \<in> set cs \<Longrightarrow>
      before c (scores ! j) (cd_chunk_id (pool ! j))"
    and "sorted_wrt (\<lambda>a b. before a (cd_score b) (cd_chunk_id b)) cs"
proof -
  let ?o = "sort_key rerank_key (zip pool scores)"
  have nth: "cs ! i = rerank_candidate_of (Suc i, take k ?o ! i)" if "i < length cs" for i
    using that by (simp add: cs enum1_nth)
  have len: "length cs = length (take k ?o)" by (simp add: cs)
  then show "length cs \<le> k" by simp
  show "map cd_rank cs = [1 ..< Suc (length cs)]"
    by (rule nth_equalityI) (use nth in \<open>auto simp: rerank_rank simp del: upt_Suc\<close>)
  have mem: "\<exists>x \<in> set (take k ?o). \<exists>n. c = rerank_candidate_of (n, x)" if "c \<in> set cs" for c
  proof -
    from that obtain p where p: "p \<in> set (enum1 (take k ?o))" "c = rerank_candidate_of p"
      by (auto simp: cs)
    then have "snd p \<in> set (take k ?o)" and "c = rerank_candidate_of (fst p, snd p)"
      by (auto dest: enum1_snd_in)
    then show ?thesis by blast
  qed
  show "\<exists>j < length pool. same_content c (core_of (pool ! j)) \<and>
      cd_score c = scores ! j \<and> rp_hybrid_rank (hc_rerank c) = cd_rank (pool ! j)" if "c \<in> set cs"
  proof -
    from mem [OF that] obtain s x n where sx: "(s, x) \<in> set (take k ?o)" "c = rerank_candidate_of (n, s, x)"
      by auto
    then have "(s, x) \<in> set (zip pool scores)" using set_take_subset_sort by fastforce
    then obtain j where "j < length pool" "s = pool ! j" "x = scores ! j"
      using assms(1) by (auto simp: in_set_zip)
    with sx(2) rerank_same_content show ?thesis by auto
  qed
  show "before c (scores ! j) (cd_chunk_id (pool ! j))"
    if j: "j < length pool" and out: "\<not> (\<exists>c \<in> set cs. cd_chunk_id c = cd_chunk_id (pool ! j))"
      and c: "c \<in> set cs"
  proof -
    from mem [OF c] obtain s x n where sx: "(s, x) \<in> set (take k ?o)" "c = rerank_candidate_of (n, s, x)"
      by auto
    have "(pool ! j, scores ! j) \<in> set ?o" using j assms(1) by (auto simp: in_set_zip)
    moreover have "(pool ! j, scores ! j) \<notin> set (take k ?o)"
    proof
      assume "(pool ! j, scores ! j) \<in> set (take k ?o)"
      then obtain i where "i < length cs" "take k ?o ! i = (pool ! j, scores ! j)"
        unfolding len in_set_conv_nth by blast
      with nth [of i] have "cd_chunk_id (cs ! i) = cd_chunk_id (pool ! j)" by simp
      moreover have "cs ! i \<in> set cs" using \<open>i < length cs\<close> by simp
      ultimately show False using out by blast
    qed
    ultimately have "(pool ! j, scores ! j) \<in> set (drop k ?o)"
      by (metis UnE append_take_drop_id set_append)
    then have "rerank_key (s, x) \<le> rerank_key (pool ! j, scores ! j)"
      by (intro sorted_take_drop [OF _ sx(1)]) simp
    with sx(2) show ?thesis by (auto simp: before_def rerank_key_def less_eq_prod_def)
  qed
  show "sorted_wrt (\<lambda>a b. before a (cd_score b) (cd_chunk_id b)) cs"
  proof (rule sorted_wrt_iff_nth_less [THEN iffD2], intro allI impI)
    fix i j assume ij: "i < j" "j < length cs"
    then have "rerank_key (take k ?o ! i) \<le> rerank_key (take k ?o ! j)"
      using sorted_nth_mono [of "map rerank_key ?o" i j] len by simp
    with nth [of i] nth [of j] ij show "before (cs ! i) (cd_score (cs ! j)) (cd_chunk_id (cs ! j))"
      by (cases "take k ?o ! i"; cases "take k ?o ! j")
        (auto simp: before_def rerank_key_def less_eq_prod_def)
  qed
qed

subsection \<open>A small instance\<close>

definition sample_pool :: "hybrid_candidate list" where
  "sample_pool = [hybrid_candidate_of 1 (sample_candidate 1 ''chunk-a'' ''doc-1'')
       \<lparr>fh_chunk_id = ''chunk-a'', fh_rrf_score = 1 / 61, fh_dense_rank = Some 1,
        fh_dense_score = Some 1, fh_lexical_rank = None, fh_lexical_score = None\<rparr>,
     hybrid_candidate_of 2 (sample_candidate 1 ''chunk-b'' ''doc-2'')
       \<lparr>fh_chunk_id = ''chunk-b'', fh_rrf_score = 1 / 61, fh_dense_rank = None,
        fh_dense_score = None, fh_lexical_rank = Some 1, fh_lexical_score = Some 1\<rparr>]"

definition sample_hybrid :: "retrieval_request \<Rightarrow> retrieval_exc + hybrid_result" where
  "sample_hybrid rq = Inr \<lparr>hr_query = rq_query rq, hr_method = ''hybrid'', hr_top_k = 30,
     hr_candidates = sample_pool, hr_dense_index_id = ''dense-1'',
     hr_lexical_index_id = ''lexical-1'', hr_fusion_config_hash = ''cfg_1'', hr_corpus_id = None,
     hr_chunk_set_id = ''set-1'', hr_dense_top_k = 30, hr_lexical_top_k = 30\<rparr>"

definition sample_rerank_env :: rerank_env where
  "sample_rerank_env = \<lparr>re_settings = \<lparr>rs_enabled = True, rs_implementation = ''fake'',
       rs_input_k = 30, rs_output_k = 1, rs_input_construction = ''plain-pair-v1'',
       rs_sequence_contract = ''seq-trunc-1024-passage-right-v1'', rs_max_length = 1024,
       rs_score_transform = ''raw-logit-v1'', rs_tie_break = ''chunk-id-asc-v1'',
       rs_local_files_only = True, rs_trust_remote_code = False\<rparr>,
     re_hybrid_status = (\<lambda>_. ''READY''), re_artifact_status = ''READY'',
     re_reranker_config_hash = ''cfg_2''\<rparr>"

definition sample_scores :: "rerank_pair list \<Rightarrow> string + pyfloat list" where
  "sample_scores ps = Inr [-1, 3]"

lemma sample_rerank_any:
  assumes q: "rq_query R = ''annual leave''" and nm: "rq_corpus_name R = ''default''"
    and ids: "rq_document_ids R = Some {''doc-1'', ''doc-2''}"
    and k: "rq_top_k R = None \<or> (\<exists>k. rq_top_k R = Some k \<and> 1 \<le> k \<and> k \<le> 30)"
  shows "\<exists>r. rerank_retrieve id sample_rerank_env sample_hybrid sample_scores True R = Inr r"
proof -
  have st: "py_strip ''annual leave'' = ''annual leave''" by code_simp
  have t: "py_strip ''some text'' \<noteq> []" by code_simp
  have n: "validate_corpus_name ''default'' = Inr ''default''" by code_simp
  have p: "rerank_preflight sample_rerank_env R True = Inr ''default''"
    using k by (auto simp: rerank_preflight_def q nm st n sample_rerank_env_def Let_def
        rerank_final_k_def rerank_require_ready_def hybrid_rerank_status_def reranker_config_ok_def)
  have "map_res (build_pair id ''annual leave'') sample_pool = Inr
      [\<lparr>pr_chunk_id = ''chunk-a'', pr_query_text = ''annual leave'', pr_passage_text = ''some text''\<rparr>,
       \<lparr>pr_chunk_id = ''chunk-b'', pr_query_text = ''annual leave'', pr_passage_text = ''some text''\<rparr>]"
    by (simp add: sample_pool_def build_pair_def sample_candidate_def t)
  then have b: "\<exists>ps. build_pairs id (rq_query R) sample_pool = Inr ps"
    by (simp add: build_pairs_def q st Let_def)
  have sc: "\<forall>c \<in> set sample_pool. in_scope (rq_document_ids R) (cd_document_id c)"
    by (simp add: sample_pool_def sample_candidate_def ids)
  have l: "length sample_pool = length [-1, 3 :: pyfloat]" by (simp add: sample_pool_def)
  have sc': "in_scope (rq_document_ids R) (cd_document_id c)"
    if "c \<in> set (map rerank_candidate_of (enum1 (take k (sort_key rerank_key (zip sample_pool [-1, 3])))))"
    for c k
  proof -
    from rerank_selects(3) [OF l [symmetric] refl that] obtain j where "j < length sample_pool"
      "same_content c (core_of (sample_pool ! j))" by blast
    with sc show ?thesis by (auto dest: same_contentD)
  qed
  show ?thesis
    using b sc sc' l
    by (auto simp: rerank_retrieve_def p sample_hybrid_def try_map_def sample_scores_def
        sort_scored_def Let_def bind_res_Inr_iff)
qed

lemma sample_rerank_ok:
  "\<exists>r. rerank_retrieve id sample_rerank_env sample_hybrid sample_scores True sample_request = Inr r"
  by (rule sample_rerank_any) (simp_all add: sample_request_def)

lemma sample_rerank_source:
  assumes "rerank_retrieve id sample_rerank_env sample_hybrid sample_scores True R = Inr r"
    and "a \<in> set (kr_candidates r)"
  shows "\<exists>c \<in> set sample_pool. same_content a (core_of c)"
  using assms(1)
proof (rule rerank_retrieve_InrE)
  fix name hres pairs scores
  assume h: "sample_hybrid (R\<lparr>rq_query := py_strip (rq_query R), rq_corpus_name := name,
       rq_top_k := Some (rs_input_k (re_settings sample_rerank_env))\<rparr>) = Inr hres"
    and l: "length scores = length (hr_candidates hres)"
    and cs: "kr_candidates r = map rerank_candidate_of (enum1 (take (nat (rerank_final_k
       (re_settings sample_rerank_env) R)) (sort_key rerank_key (zip (hr_candidates hres) scores))))"
  from h have "hr_candidates hres = sample_pool" by (auto simp: sample_hybrid_def)
  with rerank_selects(3) [OF l cs assms(2)] show ?thesis by (metis nth_mem)
qed

subsection \<open>Properties\<close>



end
