(* ===== verification/Chunk_Store.thy ===== *)
theory Chunk_Store
  imports Context_Contracts
begin

section \<open>The chunk structure store (context/store.py)\<close>

text \<open>
  In-memory lookup of children and parents: the store is two dictionaries, built from the chunk
  artifacts of a chunk set (whose files and manifest are read by the code and an argument here),
  with the two integrity reports over its links. The interface \<open>chunk_source\<close> is what the
  expansion relies on.
\<close>

record structure_store =
  st_children :: "(string \<times> chunk) list"
  st_parents :: "(string \<times> chunk) list"
  st_chunk_set_id :: string
  st_corpus_id :: string

record chunk_artifact =
  ca_chunk_artifact_id :: string
  ca_parents :: "chunk list"
  ca_children :: "chunk list"

definition get_child :: "structure_store \<Rightarrow> string \<Rightarrow> context_exc + chunk" where
  "get_child s chunk_id = (case map_of (st_children s) chunk_id of
     Some c \<Rightarrow> Inr c
   | None \<Rightarrow> Inl (Context_Structure_Error (''missing child chunk: '' @ chunk_id)))"

definition get_parent :: "structure_store \<Rightarrow> string \<Rightarrow> context_exc + chunk" where
  "get_parent s parent_chunk_id = (case map_of (st_parents s) parent_chunk_id of
     None \<Rightarrow> Inl (Context_Structure_Error (''missing parent chunk: '' @ parent_chunk_id))
   | Some parent \<Rightarrow>
       if ck_kind parent \<noteq> PARENT then
         Inl (Context_Structure_Error (''chunk '' @ parent_chunk_id @ '' is not a parent''))
       else Inr parent)"

definition resolve_parent_for_child :: "structure_store \<Rightarrow> chunk \<Rightarrow> context_exc + chunk" where
  "resolve_parent_for_child s child =
     (case ck_parent_chunk_id child of
        None \<Rightarrow> Inl (Context_Structure_Error (''child '' @ ck_chunk_id child @
          '' lacks parent_chunk_id required by strategy''))
      | Some pid \<Rightarrow>
          if pid = [] then Inl (Context_Structure_Error (''child '' @ ck_chunk_id child @
            '' lacks parent_chunk_id required by strategy''))
          else bind_res (get_parent s pid) (\<lambda>parent.
            if ck_document_id parent \<noteq> ck_document_id child then
              Inl (Context_Structure_Error (''parent '' @ ck_chunk_id parent @
                '' document mismatch for child '' @ ck_chunk_id child))
            else Inr parent))"

subsection \<open>Construction\<close>

fun index_chunks ::
    "chunk_kind \<Rightarrow> string \<Rightarrow> string \<Rightarrow> string \<Rightarrow> chunk list \<Rightarrow> (string \<times> chunk) list \<Rightarrow>
     context_exc + (string \<times> chunk) list" where
  "index_chunks kind wrong duplicate artifact_id [] d = Inr d"
| "index_chunks kind wrong duplicate artifact_id (c # cs) d =
     (if ck_kind c \<noteq> kind then
        Inl (Context_Structure_Error (wrong @ ck_chunk_id c @ '' (artifact '' @ artifact_id @ '')''))
      else if map_of d (ck_chunk_id c) \<noteq> None then
        Inl (Context_Structure_Error (duplicate @ ck_chunk_id c))
      else index_chunks kind wrong duplicate artifact_id cs (dict_set (ck_chunk_id c) c d))"

definition index_artifact ::
    "chunk_artifact \<Rightarrow> (string \<times> chunk) list \<times> (string \<times> chunk) list \<Rightarrow>
     context_exc + (string \<times> chunk) list \<times> (string \<times> chunk) list" where
  "index_artifact a cp = (case cp of (children, parents) \<Rightarrow>
     bind_res (index_chunks PARENT ''non-parent in parents list: '' ''duplicate parent chunk_id: ''
        (ca_chunk_artifact_id a) (ca_parents a) parents) (\<lambda>parents'.
     bind_res (index_chunks CHILD ''non-child in children list: '' ''duplicate child chunk_id: ''
        (ca_chunk_artifact_id a) (ca_children a) children) (\<lambda>children'.
     Inr (children', parents'))))"

text \<open>
  \<open>load_structure_store_for_chunk_manifest\<close> after the manifest is read: \<open>entries\<close> are the artifact
  ids of the manifest, \<open>load\<close> gives the artifact of an id, \<open>None\<close> where its file is missing.
\<close>

fun load_artifacts ::
    "(string \<Rightarrow> chunk_artifact option) \<Rightarrow> string list \<Rightarrow>
     (string \<times> chunk) list \<times> (string \<times> chunk) list \<Rightarrow>
     context_exc + (string \<times> chunk) list \<times> (string \<times> chunk) list" where
  "load_artifacts load [] cp = Inr cp"
| "load_artifacts load (i # is) cp = (case load i of
     None \<Rightarrow> Inl (Context_Structure_Error (''missing chunk artifact: '' @ i))
   | Some a \<Rightarrow> bind_res (index_artifact a cp) (load_artifacts load is))"

definition load_structure_store ::
    "(string \<Rightarrow> chunk_artifact option) \<Rightarrow> string list \<Rightarrow> string \<Rightarrow> string \<Rightarrow>
     context_exc + structure_store" where
  "load_structure_store load entries chunk_set_id corpus_id =
     bind_res (load_artifacts load entries ([], [])) (\<lambda>(children, parents).
       Inr \<lparr>st_children = children, st_parents = parents, st_chunk_set_id = chunk_set_id,
            st_corpus_id = corpus_id\<rparr>)"

subsection \<open>Integrity reports\<close>

definition neighbor_link_problems ::
    "structure_store \<Rightarrow> string \<Rightarrow> chunk \<Rightarrow> string \<Rightarrow> string option \<Rightarrow> string list" where
  "neighbor_link_problems s chunk_id child link_name link =
     (case link of
        None \<Rightarrow> []
      | Some link_id \<Rightarrow> (case map_of (st_children s) link_id of
          None \<Rightarrow> [chunk_id @ ''.'' @ link_name @ '' missing neighbor '' @ link_id]
        | Some neighbor \<Rightarrow>
            (if ck_document_id neighbor \<noteq> ck_document_id child then
               [chunk_id @ ''.'' @ link_name @ '' crosses document boundary to '' @ link_id]
             else []) @
            (if ck_kind neighbor \<noteq> CHILD then
               [chunk_id @ ''.'' @ link_name @ '' points to non-child '' @ link_id] else [])))"

definition validate_neighbor_links :: "structure_store \<Rightarrow> string list" where
  "validate_neighbor_links s = concat (map (\<lambda>(chunk_id, child).
     neighbor_link_problems s chunk_id child ''previous_chunk_id'' (ck_previous_chunk_id child) @
     neighbor_link_problems s chunk_id child ''next_chunk_id'' (ck_next_chunk_id child) @
     (case ck_parent_chunk_id child of
        None \<Rightarrow> []
      | Some p \<Rightarrow> if map_of (st_parents s) p = None then
          [chunk_id @ ''.parent_chunk_id missing parent '' @ p] else []))
     (st_children s))"

definition validate_parent_links :: "structure_store \<Rightarrow> string list" where
  "validate_parent_links s = concat (map (\<lambda>(chunk_id, child).
     (case ck_parent_chunk_id child of
        None \<Rightarrow> [chunk_id @ '' lacks parent_chunk_id'']
      | Some p \<Rightarrow>
          if p = [] then [chunk_id @ '' lacks parent_chunk_id'']
          else (case map_of (st_parents s) p of
              None \<Rightarrow> [chunk_id @ '' references missing parent '' @ p]
            | Some parent \<Rightarrow>
                if ck_document_id parent \<noteq> ck_document_id child then
                  [chunk_id @ '' parent '' @ ck_chunk_id parent @ '' has mismatched document_id'']
                else [])))
     (st_children s))"

subsection \<open>Interface: a source of chunks\<close>

locale chunk_source =
  fixes ok :: "'s \<Rightarrow> bool"
    and child_of :: "'s \<Rightarrow> string \<Rightarrow> 'e + chunk"
    and parent_of :: "'s \<Rightarrow> chunk \<Rightarrow> 'e + chunk"
  assumes child_law: "ok s \<Longrightarrow> child_of s i = Inr c \<Longrightarrow> ck_chunk_id c = i \<and> ck_kind c = CHILD"
    and parent_law: "ok s \<Longrightarrow> parent_of s c = Inr p \<Longrightarrow>
      ck_parent_chunk_id c = Some (ck_chunk_id p) \<and> ck_kind p = PARENT \<and>
      ck_document_id p = ck_document_id c"
begin

lemma same_parent:
  "ok s \<Longrightarrow> parent_of s c = Inr p \<Longrightarrow> parent_of s c' = Inr p' \<Longrightarrow>
     ck_parent_chunk_id c = ck_parent_chunk_id c' \<longleftrightarrow> ck_chunk_id p = ck_chunk_id p'"
  by (metis option.inject parent_law)

lemma same_child:
  "ok s \<Longrightarrow> child_of s i = Inr c \<Longrightarrow> child_of s j = Inr d \<Longrightarrow> ck_chunk_id c = ck_chunk_id d \<longleftrightarrow> i = j"
  by (metis child_law)

lemma parent_not_child:
  "ok s \<Longrightarrow> child_of s i = Inr c \<Longrightarrow> parent_of s d = Inr p \<Longrightarrow> c \<noteq> p"
  by (metis child_law parent_law chunk_kind.distinct(1))

end

subsection \<open>The store is one\<close>

text \<open>Every key is the id of its chunk, children are children and parents are parents.\<close>

definition keyed :: "chunk_kind \<Rightarrow> (string \<times> chunk) list \<Rightarrow> bool" where
  "keyed kind d \<longleftrightarrow> (\<forall>(k, c) \<in> set d. ck_chunk_id c = k \<and> ck_kind c = kind)"

definition store_ok :: "structure_store \<Rightarrow> bool" where
  "store_ok s \<longleftrightarrow> keyed CHILD (st_children s) \<and> keyed PARENT (st_parents s)"

lemma keyedD: "keyed kind d \<Longrightarrow> map_of d k = Some c \<Longrightarrow> ck_chunk_id c = k \<and> ck_kind c = kind"
  by (auto simp: keyed_def dest: map_of_SomeD)

lemma keyed_update:
  "keyed kind d \<Longrightarrow> ck_kind c = kind \<Longrightarrow> keyed kind (dict_set (ck_chunk_id c) c d)"
  by (induction d) (auto simp: keyed_def)

lemma index_chunks_keyed:
  "index_chunks kind w dup a cs d = Inr d' \<Longrightarrow> keyed kind d \<Longrightarrow> keyed kind d'"
  by (induction cs arbitrary: d) (auto simp: keyed_update split: if_splits)

lemma index_artifact_keyed:
  "index_artifact a (cs, ps) = Inr (cs', ps') \<Longrightarrow> keyed CHILD cs \<Longrightarrow> keyed PARENT ps \<Longrightarrow>
     keyed CHILD cs' \<and> keyed PARENT ps'"
  by (auto simp: index_artifact_def bind_res_Inr_iff dest: index_chunks_keyed)

lemma load_artifacts_keyed:
  "load_artifacts load is (cs, ps) = Inr (cs', ps') \<Longrightarrow> keyed CHILD cs \<Longrightarrow> keyed PARENT ps \<Longrightarrow>
     keyed CHILD cs' \<and> keyed PARENT ps'"
proof (induction "is" arbitrary: cs ps)
  case (Cons i "is")
  from Cons.prems obtain a cs1 ps1 where "index_artifact a (cs, ps) = Inr (cs1, ps1)"
    and r: "load_artifacts load is (cs1, ps1) = Inr (cs', ps')"
    by (auto simp: bind_res_Inr_iff split: option.splits)
  with Cons.prems index_artifact_keyed have "keyed CHILD cs1" "keyed PARENT ps1" by blast+
  with Cons.IH [OF r] show ?case by blast
qed auto

lemma load_structure_store_ok:
  "load_structure_store load entries csid cid = Inr s \<Longrightarrow> store_ok s"
proof -
  assume "load_structure_store load entries csid cid = Inr s"
  then obtain cs ps where l: "load_artifacts load entries ([], []) = Inr (cs, ps)"
    and "st_children s = cs" "st_parents s = ps"
    by (auto simp: load_structure_store_def bind_res_Inr_iff)
  moreover have "keyed CHILD []" and "keyed PARENT []" by (simp_all add: keyed_def)
  ultimately show ?thesis using load_artifacts_keyed [OF l] by (simp add: store_ok_def)
qed

lemma get_child_iff: "get_child s i = Inr c \<longleftrightarrow> map_of (st_children s) i = Some c"
  by (simp add: get_child_def split: option.split)

lemma resolve_parent_iff:
  "resolve_parent_for_child s c = Inr p \<longleftrightarrow> (\<exists>pid. ck_parent_chunk_id c = Some pid \<and> pid \<noteq> [] \<and>
     map_of (st_parents s) pid = Some p \<and> ck_kind p = PARENT \<and> ck_document_id p = ck_document_id c)"
  by (auto simp: resolve_parent_for_child_def get_parent_def bind_res_Inr_iff split: option.splits
      if_splits)

interpretation store: chunk_source store_ok get_child resolve_parent_for_child
proof
  fix s i c assume "store_ok s" "get_child s i = Inr c"
  then show "ck_chunk_id c = i \<and> ck_kind c = CHILD"
    by (auto simp: store_ok_def get_child_iff dest: keyedD)
next
  fix s c p assume "store_ok s" "resolve_parent_for_child s c = Inr p"
  then show "ck_parent_chunk_id c = Some (ck_chunk_id p) \<and> ck_kind p = PARENT \<and>
      ck_document_id p = ck_document_id c"
    by (auto simp: store_ok_def resolve_parent_iff dest: keyedD)
qed

subsection \<open>Properties\<close>

definition sample_child :: chunk where
  "sample_child = \<lparr>ck_chunk_id = ''c1'', ck_document_id = ''d1'', ck_kind = CHILD,
     ck_parent_chunk_id = Some ''p1'', ck_text = ''leave days'', ck_page_start = None,
     ck_page_end = None, ck_line_start = None, ck_line_end = None, ck_section_path = [],
     ck_order = 0, ck_token_count = 2, ck_content_type = ''text'', ck_content_hash = ''h1'',
     ck_source_block_ids = [''b1''], ck_previous_chunk_id = None, ck_next_chunk_id = None,
     ck_metadata = []\<rparr>"

definition sample_parent :: chunk where
  "sample_parent = sample_child\<lparr>ck_chunk_id := ''p1'', ck_kind := PARENT,
     ck_parent_chunk_id := None, ck_text := ''the leave days are twenty''\<rparr>"

definition sample_store :: structure_store where
  "sample_store = \<lparr>st_children = [(''c1'', sample_child)], st_parents = [(''p1'', sample_parent)],
     st_chunk_set_id = ''set-1'', st_corpus_id = ''corpus-1''\<rparr>"

lemma sample_store_loads:
  "load_structure_store (\<lambda>i. if i = ''a1'' then Some \<lparr>ca_chunk_artifact_id = ''a1'',
       ca_parents = [sample_parent], ca_children = [sample_child]\<rparr> else None)
     [''a1''] ''set-1'' ''corpus-1'' = Inr sample_store"
  by (simp add: load_structure_store_def index_artifact_def sample_parent_def sample_child_def
      sample_store_def)

lemma sample_store_ok: "store_ok sample_store"
  using load_structure_store_ok [OF sample_store_loads] .

text \<open>In a store built from chunk artifacts, the parent report is empty exactly when resolving the
  parent of every child succeeds; so the check before a parent strategy rules out every structural
  error of \<open>resolve_parent_for_child\<close>.\<close>

theorem parent_report_complete:
  assumes "load_structure_store load entries csid cid = Inr s"
  shows "validate_parent_links s = [] \<longleftrightarrow>
    (\<forall>(k, c) \<in> set (st_children s). \<exists>p. resolve_parent_for_child s c = Inr p)"
proof -
  have "keyed PARENT (st_parents s)"
    using load_structure_store_ok [OF assms] by (simp add: store_ok_def)
  then have kind: "ck_kind p = PARENT" if "map_of (st_parents s) pid = Some p" for pid p
    using that keyedD by blast
  show ?thesis
    unfolding validate_parent_links_def concat_eq_Nil_conv
    by (auto simp: resolve_parent_iff kind split: option.splits if_splits) 
qed

theorem parent_report_complete_witness:
  "validate_parent_links sample_store = [] \<and>
   (\<exists>p. resolve_parent_for_child sample_store sample_child = Inr p)"
proof -
  have "validate_parent_links sample_store = []"
    by (simp add: validate_parent_links_def sample_store_def sample_child_def sample_parent_def)
  with parent_report_complete [OF sample_store_loads] show ?thesis
    by (auto simp: sample_store_def)
qed

end
