(* ===== verification/Core_Ids.thy ===== *)
theory Core_Ids
  imports Py_Json "HOL-Library.Word" "HOL-Library.Multiset"
begin

section \<open>Content-derived identities (core/ids.py)\<close>

text \<open>
  \<open>json.dumps(x, sort_keys=True, separators=(",", ":"), ensure_ascii=False)\<close>, the UTF-8 encoding,
  and the identity functions of \<open>core/ids.py\<close>. \<open>sha\<close> stands for the hexadecimal SHA-256 digest
  of a byte string and \<open>fr\<close> for \<open>repr\<close> of a float; both are arguments. A \<open>ValueError\<close> is the
  left side of a sum, with its message.
\<close>

subsection \<open>UTF-8\<close>

type_synonym byte = "8 word"
type_synonym digest = "byte list \<Rightarrow> string"

definition utf8_char :: "char \<Rightarrow> byte list" where
  "utf8_char c = (let n = (of_char c :: nat) in
     if n < 128 then [word_of_nat n] else [word_of_nat (192 + n div 64), word_of_nat (128 + n mod 64)])"

definition utf8 :: "string \<Rightarrow> byte list" where
  "utf8 s = concat (map utf8_char s)"

lemma unat_byte: "n < 256 \<Longrightarrow> unat (word_of_nat n :: byte) = n"
  by (simp add: unat_of_nat)

lemma of_char_byte: "(of_char c :: nat) < 256"
  by (rule nat_of_char_less_256)

lemma utf8_char_code:
  "map unat (utf8_char c) = (let n = (of_char c :: nat) in
     if n < 128 then [n] else [192 + n div 64, 128 + n mod 64])"
proof -
  have "192 + (of_char c :: nat) div 64 < 256" using of_char_byte [of c] by linarith
  moreover have "(of_char c :: nat) mod 64 < 64" by simp
  then have "128 + (of_char c :: nat) mod 64 < 256" by linarith
  ultimately show ?thesis
    by (simp add: utf8_char_def Let_def unat_byte del: of_nat_add)
qed

lemma utf8_char_split:
  assumes "utf8_char c @ s = utf8_char d @ t"
  shows "c = d \<and> s = t"
proof -
  define n where "n = (of_char c :: nat)"
  define m where "m = (of_char d :: nat)"
  have nm: "n div 64 < 4" "m div 64 < 4"
    using of_char_byte [of c] of_char_byte [of d] by (simp_all add: n_def m_def less_mult_imp_div_less)
  have "map unat (utf8_char c @ s) = map unat (utf8_char d @ t)" using assms by simp
  then have e: "map unat (utf8_char c) @ map unat s = map unat (utf8_char d) @ map unat t"
    by (simp only: map_append)
  have "n = m"
  proof (cases "n < 128 \<or> m < 128")
    case True
    with e show ?thesis by (auto simp: utf8_char_code Let_def simp flip: n_def m_def split: if_splits)
  next
    case False
    with e have "n div 64 = m div 64" and "n mod 64 = m mod 64"
      by (simp_all add: utf8_char_code Let_def flip: n_def m_def)
    then show ?thesis by (metis div_mult_mod_eq)
  qed
  then have "c = d" by (simp add: n_def m_def)
  with assms show ?thesis by simp
qed

lemma utf8_char_nonempty: "utf8_char c \<noteq> []"
  by (simp add: utf8_char_def Let_def)

lemma utf8_inj: "utf8 s = utf8 t \<longleftrightarrow> s = t"
proof
  assume "utf8 s = utf8 t"
  then show "s = t"
  proof (induction s arbitrary: t)
    case Nil
    then show ?case by (cases t) (auto simp: utf8_def utf8_char_nonempty)
  next
    case (Cons c s)
    then obtain d t' where t: "t = d # t'" by (cases t) (auto simp: utf8_def utf8_char_nonempty)
    with Cons.prems have "utf8_char c @ utf8 s = utf8_char d @ utf8 t'" by (simp add: utf8_def)
    with Cons.IH t show ?case by (blast dest: utf8_char_split)
  qed
qed simp

subsection \<open>json.dumps\<close>

definition hex_digit :: "nat \<Rightarrow> char" where
  "hex_digit n = (if n < 10 then char_of (48 + n) else char_of (87 + n))"

text \<open>The escapes of \<open>json.encoder\<close> with \<open>ensure_ascii=False\<close>.\<close>

definition escape_char :: "char \<Rightarrow> string" where
  "escape_char c = (let n = (of_char c :: nat) in
     if n = 34 then [CHR 0x5C, CHR 0x22]
     else if n = 92 then [CHR 0x5C, CHR 0x5C]
     else if n = 10 then [CHR 0x5C, CHR ''n'']
     else if n = 13 then [CHR 0x5C, CHR ''r'']
     else if n = 9 then [CHR 0x5C, CHR ''t'']
     else if n = 12 then [CHR 0x5C, CHR ''f'']
     else if n = 8 then [CHR 0x5C, CHR ''b'']
     else if n < 32 then [CHR 0x5C, CHR ''u'', CHR ''0'', CHR ''0'', hex_digit (n div 16), hex_digit (n mod 16)]
     else [c])"

definition dumps_str :: "string \<Rightarrow> string" where
  "dumps_str s = CHR 0x22 # concat (map escape_char s) @ [CHR 0x22]"

definition dumps_member :: "string \<times> string \<Rightarrow> string" where
  "dumps_member kv = dumps_str (fst kv) @ '':'' @ snd kv"

primrec json_dumps :: "(pyfloat \<Rightarrow> string) \<Rightarrow> json \<Rightarrow> string" where
  "json_dumps fr JNull = ''null''"
| "json_dumps fr (JBool b) = (if b then ''true'' else ''false'')"
| "json_dumps fr (JInt i) = str_int i"
| "json_dumps fr (JFloat q) = fr q"
| "json_dumps fr (JStr s) = dumps_str s"
| "json_dumps fr (JList xs) = ''['' @ join '','' (map (json_dumps fr) xs) @ '']''"
| "json_dumps fr (JObj kvs) = ''{'' @ join '',''
     (map dumps_member (sort_key fst (map (map_prod (\<lambda>k. k) (json_dumps fr)) kvs))) @ ''}''"

text \<open>The value with the members of every object in key order.\<close>

primrec canon :: "json \<Rightarrow> json" where
  "canon JNull = JNull"
| "canon (JBool b) = JBool b"
| "canon (JInt i) = JInt i"
| "canon (JFloat q) = JFloat q"
| "canon (JStr s) = JStr s"
| "canon (JList xs) = JList (map canon xs)"
| "canon (JObj kvs) = JObj (sort_key fst (map (map_prod (\<lambda>k. k) canon) kvs))"

text \<open>\<open>json_dumps\<close> is the plain rendering of the sorted value.\<close>

primrec dumps_raw :: "(pyfloat \<Rightarrow> string) \<Rightarrow> json \<Rightarrow> string" where
  "dumps_raw fr JNull = ''null''"
| "dumps_raw fr (JBool b) = (if b then ''true'' else ''false'')"
| "dumps_raw fr (JInt i) = str_int i"
| "dumps_raw fr (JFloat q) = fr q"
| "dumps_raw fr (JStr s) = dumps_str s"
| "dumps_raw fr (JList xs) = ''['' @ join '','' (map (dumps_raw fr) xs) @ '']''"
| "dumps_raw fr (JObj kvs) = ''{'' @ join '',''
     (map dumps_member (map (map_prod (\<lambda>k. k) (dumps_raw fr)) kvs)) @ ''}''"

lemma insort_key_map: "(\<And>x. f (g x) = h x) \<Longrightarrow>
    insort_key f (g x) (map g xs) = map g (insort_key h x xs)"
  by (induction xs) auto

lemma sort_key_map: "(\<And>x. f (g x) = h x) \<Longrightarrow> sort_key f (map g xs) = map g (sort_key h xs)"
  by (induction xs) (simp_all add: insort_key_map)

lemma sort_members: "sort_key fst (map (map_prod (\<lambda>k. k) f) kvs) =
    map (map_prod (\<lambda>k. k) f) (sort_key fst kvs)"
  by (rule sort_key_map) (simp add: map_prod_def split: prod.split)

lemma map_prod_snd_eq: "(\<And>k v. (k, v) \<in> set kvs \<Longrightarrow> f v = g v) \<Longrightarrow>
    map (map_prod (\<lambda>k. k) f) kvs = map (map_prod (\<lambda>k. k) g) kvs"
  by (rule map_cong) auto

lemma json_dumps_raw: "json_dumps fr a = dumps_raw fr (canon a)"
proof (induction a)
  case (JList xs)
  then have "map (json_dumps fr) xs = map (\<lambda>x. dumps_raw fr (canon x)) xs" by simp
  then show ?case by (simp only: json_dumps.simps canon.simps dumps_raw.simps map_map comp_def)
next
  case (JObj kvs)
  have "map (map_prod (\<lambda>k. k) (json_dumps fr)) kvs =
      map (map_prod (\<lambda>k. k) (\<lambda>v. dumps_raw fr (canon v))) kvs"
    by (rule map_prod_snd_eq) (rule JObj, auto simp: prod_set_defs)
  also have "\<dots> = map (map_prod (\<lambda>k. k) (dumps_raw fr)) (map (map_prod (\<lambda>k. k) canon) kvs)"
    by (simp add: map_prod_def case_prod_beta)
  finally show ?case by (simp only: json_dumps.simps canon.simps dumps_raw.simps sort_members)
qed simp_all

subsection \<open>The rendering determines the value\<close>

definition unescape :: "string \<Rightarrow> char \<times> string" where
  "unescape s = (case s of
     c # d # cs \<Rightarrow>
       (if c \<noteq> CHR 0x5C then (c, d # cs)
        else if d = CHR ''n'' then (CHR 0x0A, cs)
        else if d = CHR ''r'' then (CHR 0x0D, cs)
        else if d = CHR ''t'' then (CHR 0x09, cs)
        else if d = CHR ''f'' then (CHR 0x0C, cs)
        else if d = CHR ''b'' then (CHR 0x08, cs)
        else if d = CHR ''u'' then
          (char_of (16 * (let a = (of_char (cs ! 2) :: nat) in if a < 58 then a - 48 else a - 87) +
             (let b = (of_char (cs ! 3) :: nat) in if b < 58 then b - 48 else b - 87)), drop 4 cs)
        else (d, cs))
   | [c] \<Rightarrow> (c, []) | [] \<Rightarrow> (CHR 0x00, []))"

lemma of_hex_digit: "n < 16 \<Longrightarrow>
    (let a = (of_char (hex_digit n) :: nat) in if a < 58 then a - 48 else a - 87) = n"
  by (simp add: hex_digit_def)

lemma char_eqI: "(of_char c :: nat) = n \<Longrightarrow> c = char_of n"
  by auto

lemma char_codes:
  "char_of (34 :: nat) = CHR 0x22" "char_of (92 :: nat) = CHR 0x5C"
  "char_of (10 :: nat) = CHR 0x0A" "char_of (13 :: nat) = CHR 0x0D"
  "char_of (9 :: nat) = CHR 0x09" "char_of (12 :: nat) = CHR 0x0C"
  "char_of (8 :: nat) = CHR 0x08"
  by (simp_all add: char_of_eq_iff)

lemma unescape_escape: "unescape (escape_char c @ r) = (c, r)"
proof -
  define n where "n = (of_char c :: nat)"
  have c: "c = char_of n" by (simp add: n_def)
  have lt: "n < 256" using of_char_byte [of c] by (simp add: n_def)
  consider "n \<in> {34, 92, 10, 13, 9, 12, 8}" | "n < 32" "n \<notin> {10, 13, 9, 12, 8}"
    | "32 \<le> n" "n \<notin> {34, 92}" by fastforce
  then show ?thesis
  proof cases
    case 1
    then show ?thesis by (auto simp: c escape_char_def unescape_def char_codes)
  next
    case 2
    then have "escape_char c = [CHR 0x5C, CHR ''u'', CHR ''0'', CHR ''0'', hex_digit (n div 16),
        hex_digit (n mod 16)]" by (simp add: escape_char_def flip: n_def)
    moreover have "n div 16 < 16" "n mod 16 < 16" using lt by (simp_all add: less_mult_imp_div_less)
    ultimately show ?thesis by (simp add: unescape_def of_hex_digit c numeral_2_eq_2 numeral_3_eq_3)
  next
    case 3
    then have "escape_char c = [c]" by (simp add: escape_char_def flip: n_def)
    moreover have "c \<noteq> CHR 0x5C" using 3 by (auto simp: n_def)
    ultimately show ?thesis by (cases r) (simp_all add: unescape_def)
  qed
qed

lemma escape_split: "escape_char c @ r = escape_char d @ t \<Longrightarrow> c = d \<and> r = t"
  by (metis prod.inject unescape_escape)

lemma escape_hd: "escape_char c \<noteq> [] \<and> hd (escape_char c) \<noteq> CHR 0x22"
  by (auto simp: escape_char_def Let_def)

lemma escape_not_quote: "escape_char c @ r \<noteq> CHR 0x22 # t"
  using escape_hd [of c] by (cases "escape_char c") auto

lemma escapes_split:
  "concat (map escape_char s) @ CHR 0x22 # r = concat (map escape_char t) @ CHR 0x22 # r' \<Longrightarrow>
     s = t \<and> r = r'"
proof (induction s arbitrary: t)
  case Nil
  show ?case
  proof (cases t)
    case Nil
    with Nil.prems show ?thesis by simp
  next
    case (Cons d t')
    with Nil.prems have "escape_char d @ (concat (map escape_char t') @ CHR 0x22 # r') = CHR 0x22 # r"
      by simp
    then show ?thesis by (simp only: escape_not_quote)
  qed
next
  case (Cons c s)
  show ?case
  proof (cases t)
    case Nil
    with Cons.prems escape_not_quote [of c] show ?thesis by simp
  next
    case (Cons d t')
    with Cons.prems have "escape_char c @ (concat (map escape_char s) @ CHR 0x22 # r) =
        escape_char d @ (concat (map escape_char t') @ CHR 0x22 # r')" by simp
    from escape_split [OF this] Cons.IH Cons show ?thesis by blast
  qed
qed

lemma dumps_str_split: "dumps_str s @ r = dumps_str t @ r' \<Longrightarrow> s = t \<and> r = r'"
  unfolding dumps_str_def append_Cons append_assoc list.inject append_Nil by (blast dest: escapes_split)

text \<open>
  What the model relies on of \<open>repr(float)\<close>: distinct finite floats have distinct renderings, over
  the digits, the signs, the point and the exponent letter, and a rendering has a point or an
  exponent, which that of an integer has not.
\<close>

definition num_char :: "char \<Rightarrow> bool" where
  "num_char c \<longleftrightarrow> is_digit c \<or> c \<in> {CHR ''-'', CHR ''+'', CHR ''.'', CHR ''e''}"

definition float_repr_ok :: "(pyfloat \<Rightarrow> string) \<Rightarrow> bool" where
  "float_repr_ok fr \<longleftrightarrow> inj fr \<and> (\<forall>q. (\<forall>c \<in> set (fr q). num_char c) \<and>
     (CHR ''.'' \<in> set (fr q) \<or> CHR ''e'' \<in> set (fr q)))"

definition delim :: "string \<Rightarrow> bool" where
  "delim r \<longleftrightarrow> r = [] \<or> \<not> num_char (hd r)"

lemma str_int_chars: "c \<in> set (str_int i) \<Longrightarrow> is_digit c \<or> c = CHR ''-''"
  by (auto simp: str_int_def split: if_splits dest: str_nat_digits)

lemma str_int_inj: "str_int i = str_int j \<Longrightarrow> i = j"
proof -
  have minus: "CHR ''-'' # s \<noteq> str_nat n" for s n
    using str_nat_digits [of "CHR ''-''" n] by (auto simp: is_digit_def dest: sym [of "_ # _"])
  show "str_int i = str_int j \<Longrightarrow> i = j"
    by (auto simp: str_int_def minus minus [symmetric] split: if_splits)
qed

lemma span_num: "\<forall>c \<in> set s. num_char c \<Longrightarrow> delim r \<Longrightarrow> takeWhile num_char (s @ r) = s"
  by (cases r) (simp_all add: delim_def takeWhile_tail takeWhile_eq_all_conv)

lemma num_split:
  assumes "s @ r = t @ r'" "\<forall>c \<in> set s. num_char c" "\<forall>c \<in> set t. num_char c" "delim r" "delim r'"
  shows "s = t \<and> r = r'"
proof -
  from assms have "s = t" by (metis span_num)
  with assms(1) show ?thesis by simp
qed

lemma join_Cons: "join sep (x # xs) = x @ concat (map (\<lambda>y. sep @ y) xs)"
proof (induction xs arbitrary: x)
  case (Cons y ys)
  then show ?case using Cons [of y] by simp
qed simp

text \<open>A comma-separated, closed sequence of renderings determines the sequence and the rest.\<close>

lemma tail_split:
  assumes "\<And>x y r r'. x \<in> set xs \<Longrightarrow> delim r \<Longrightarrow> delim r' \<Longrightarrow> f x @ r = f y @ r' \<Longrightarrow> x = y \<and> r = r'"
    and "cl \<noteq> CHR '',''" and "\<not> num_char cl"
    and "concat (map (\<lambda>y. '','' @ f y) xs) @ cl # r = concat (map (\<lambda>y. '','' @ f y) ys) @ cl # r'"
  shows "xs = ys \<and> r = r'"
  using assms(1,4)
proof (induction xs arbitrary: ys)
  case Nil
  then show ?case using assms(2) by (cases ys) auto
next
  case (Cons x xs)
  let ?t = "\<lambda>zs r. concat (map (\<lambda>y. '','' @ f y) zs) @ cl # r"
  have d: "delim (?t zs q)" for zs q
    using assms(3) by (cases zs) (auto simp: delim_def num_char_def is_digit_def)
  from Cons.prems(2) assms(2) obtain y ys' where ys: "ys = y # ys'" by (cases ys) auto
  with Cons.prems(2) have "f x @ ?t xs r = f y @ ?t ys' r'" by simp
  then have "x = y \<and> ?t xs r = ?t ys' r'" by (intro Cons.prems(1) d) simp_all
  then have "x = y" and e: "?t xs r = ?t ys' r'" by blast+
  moreover have "xs = ys' \<and> r = r'" by (rule Cons.IH [OF Cons.prems(1) e]) auto
  ultimately show ?case using ys by simp
qed

lemma join_split:
  assumes "\<And>x y r r'. x \<in> set xs \<Longrightarrow> delim r \<Longrightarrow> delim r' \<Longrightarrow> f x @ r = f y @ r' \<Longrightarrow> x = y \<and> r = r'"
    and "cl \<noteq> CHR '',''" and "\<not> num_char cl" and "\<And>x q q'. f x @ q \<noteq> cl # q'"
    and "join '','' (map f xs) @ cl # r = join '','' (map f ys) @ cl # r'"
  shows "xs = ys \<and> r = r'"
proof (cases xs)
  case Nil
  show ?thesis
  proof (cases ys)
    case Nil
    with \<open>xs = []\<close> assms(5) show ?thesis by simp
  next
    case (Cons y ys')
    have "f y @ (concat (map (\<lambda>y. '','' @ y) (map f ys')) @ cl # r') = cl # r"
      using assms(5) unfolding \<open>xs = []\<close> Cons list.map join_Cons
      by (simp only: append_assoc append_Nil join.simps)
    then show ?thesis by (simp only: assms(4))
  qed
next
  case (Cons x xs')
  let ?t = "\<lambda>zs r. concat (map (\<lambda>y. '','' @ f y) zs) @ cl # r"
  have d: "delim (?t zs q)" for zs q
    using assms(3) by (cases zs) (auto simp: delim_def num_char_def is_digit_def)
  have m: "concat (map (\<lambda>y. '','' @ y) (map f zs)) = concat (map (\<lambda>y. '','' @ f y) zs)" for zs
    by (simp add: comp_def)
  show ?thesis
  proof (cases ys)
    case Nil
    with assms(5) have "f x @ ?t xs' r = cl # r'"
      unfolding Cons Nil list.map(2) join_Cons m by simp
    then show ?thesis by (simp only: assms(4))
  next
    case (Cons y ys')
    with assms(5) have "f x @ ?t xs' r = f y @ ?t ys' r'"
      unfolding \<open>xs = x # xs'\<close> Cons list.map(2) join_Cons m by simp
    then have "x = y \<and> ?t xs' r = ?t ys' r'" by (intro assms(1) d) (simp_all add: \<open>xs = x # xs'\<close>)
    then have "x = y" and e: "?t xs' r = ?t ys' r'" by blast+
    moreover have "xs' = ys' \<and> r = r'"
      by (rule tail_split [OF _ assms(2,3) e]) (use assms(1) \<open>xs = x # xs'\<close> in auto)
    ultimately show ?thesis using Cons \<open>xs = x # xs'\<close> by simp
  qed
qed

text \<open>The kind of a value is visible in the first character of its rendering.\<close>

definition first_char_ok :: "json \<Rightarrow> string \<Rightarrow> bool" where
  "first_char_ok a s \<longleftrightarrow> s \<noteq> [] \<and> (case a of
     JNull \<Rightarrow> hd s = CHR ''n'' | JBool b \<Rightarrow> hd s = (if b then CHR ''t'' else CHR ''f'')
   | JInt _ \<Rightarrow> num_char (hd s) | JFloat _ \<Rightarrow> num_char (hd s) | JStr _ \<Rightarrow> hd s = CHR 0x22
   | JList _ \<Rightarrow> hd s = CHR ''['' | JObj _ \<Rightarrow> hd s = CHR ''{'')"

lemma str_int_nonempty [simp]: "str_int i \<noteq> []"
  by (simp add: str_int_def)

lemma str_int_num: "c \<in> set (str_int i) \<Longrightarrow> num_char c"
  using str_int_chars by (auto simp: num_char_def)

lemma float_num: "float_repr_ok fr \<Longrightarrow> fr q \<noteq> [] \<and> (\<forall>c \<in> set (fr q). num_char c)"
  unfolding float_repr_ok_def by (metis empty_iff empty_set)

lemma float_not_int: "float_repr_ok fr \<Longrightarrow> fr q \<noteq> str_int i"
  using str_int_chars [of "CHR ''.''" i] str_int_chars [of "CHR ''e''" i]
  by (auto simp: float_repr_ok_def is_digit_def dest!: spec [of _ q])

lemma dumps_first: "float_repr_ok fr \<Longrightarrow> first_char_ok a (dumps_raw fr a)"
proof -
  assume "float_repr_ok fr"
  then have "num_char (hd (fr q))" "fr q \<noteq> []" for q
    using float_num [of fr q] by (auto intro: hd_in_set)
  moreover have "num_char (hd (str_int i))" for i
    by (rule str_int_num [OF hd_in_set]) simp
  ultimately show ?thesis by (cases a) (auto simp: first_char_ok_def dumps_str_def)
qed

lemma dumps_nonempty: "float_repr_ok fr \<Longrightarrow> dumps_raw fr a \<noteq> []"
  using dumps_first [of fr a] by (simp add: first_char_ok_def)

lemma same_first:
  assumes "float_repr_ok fr" and "dumps_raw fr a @ r = dumps_raw fr b @ r'"
  shows "\<exists>s. first_char_ok a s \<and> first_char_ok b s"
proof -
  have "hd (dumps_raw fr a) = hd (dumps_raw fr b)"
    by (metis assms dumps_nonempty hd_append2)
  moreover have "first_char_ok b (dumps_raw fr b)" and "first_char_ok a (dumps_raw fr a)"
    by (rule dumps_first [OF assms(1)])+
  ultimately have "first_char_ok b (dumps_raw fr a)"
    by (simp add: first_char_ok_def split: json.splits)
  with \<open>first_char_ok a (dumps_raw fr a)\<close> show ?thesis by blast
qed

lemma dumps_not_close: "float_repr_ok fr \<Longrightarrow> cl \<in> {CHR '']'', CHR ''}'', CHR '',''} \<Longrightarrow>
    dumps_raw fr a @ q \<noteq> cl # q'"
  using dumps_first [of fr a]
  by (cases "dumps_raw fr a"; cases a) (auto simp: first_char_ok_def num_char_def is_digit_def)

lemma member_split:
  assumes "\<And>w r r'. delim r \<Longrightarrow> delim r' \<Longrightarrow> f v @ r = f w @ r' \<Longrightarrow> v = w \<and> r = r'"
    and "delim r" "delim r'"
    and "dumps_member (map_prod (\<lambda>k. k) f (k, v)) @ r = dumps_member (map_prod (\<lambda>k. k) f m) @ r'"
  shows "(k, v) = m \<and> r = r'"
proof -
  obtain k' w where m: "m = (k', w)" by fastforce
  from assms(4) have "dumps_str k @ ('':'' @ f v @ r) = dumps_str k' @ ('':'' @ f w @ r')"
    by (simp add: dumps_member_def m)
  from dumps_str_split [OF this] have "k = k'" and "f v @ r = f w @ r'" by auto
  with assms(1) [OF assms(2,3)] m show ?thesis by blast
qed

fun is_number :: "json \<Rightarrow> bool" where
  "is_number (JInt i) \<longleftrightarrow> True"
| "is_number (JFloat q) \<longleftrightarrow> True"
| "is_number _ \<longleftrightarrow> False"

lemma number_chars: "float_repr_ok fr \<Longrightarrow> is_number a \<Longrightarrow> \<forall>c \<in> set (dumps_raw fr a). num_char c"
  by (cases a) (auto simp: float_num str_int_num)

lemma number_split:
  assumes "float_repr_ok fr" "is_number a" "is_number b" "delim r" "delim r'"
    and "dumps_raw fr a @ r = dumps_raw fr b @ r'"
  shows "a = b \<and> r = r'"
proof -
  have "dumps_raw fr a = dumps_raw fr b \<and> r = r'"
    using assms by (intro num_split number_chars)
  moreover have "inj fr" using assms(1) by (simp add: float_repr_ok_def)
  ultimately show ?thesis
    using assms(2,3) float_not_int [OF assms(1)] float_not_int [OF assms(1), symmetric]
    by (cases a; cases b) (auto dest: str_int_inj injD)
qed

lemma dumps_raw_split:
  assumes "float_repr_ok fr" "delim r" "delim r'" "dumps_raw fr a @ r = dumps_raw fr b @ r'"
  shows "a = b \<and> r = r'"
  using assms(2-)
proof (induction a arbitrary: b r r')
  case JNull
  with same_first [OF assms(1) JNull(3)] show ?case
    by (cases b) (auto simp: first_char_ok_def num_char_def is_digit_def split: if_splits)
next
  case (JBool v)
  with same_first [OF assms(1) JBool(3)] show ?case
    by (cases b) (auto simp: first_char_ok_def num_char_def is_digit_def split: if_splits)
next
  case (JInt i)
  with same_first [OF assms(1) JInt(3)] have "is_number b"
    by (cases b) (auto simp: first_char_ok_def num_char_def is_digit_def split: if_splits)
  with number_split [OF assms(1) _ _ JInt] show ?case by simp
next
  case (JFloat p)
  with same_first [OF assms(1) JFloat(3)] have "is_number b"
    by (cases b) (auto simp: first_char_ok_def num_char_def is_digit_def split: if_splits)
  with number_split [OF assms(1) _ _ JFloat] show ?case by simp
next
  case (JStr s)
  with same_first [OF assms(1) JStr(3)] obtain t where "b = JStr t"
    by (cases b) (auto simp: first_char_ok_def num_char_def is_digit_def split: if_splits)
  with JStr show ?case by (auto dest: dumps_str_split)
next
  case (JList xs)
  with same_first [OF assms(1) JList(4)] obtain ys where b: "b = JList ys"
    by (cases b) (auto simp: first_char_ok_def num_char_def is_digit_def split: if_splits)
  have "xs = ys \<and> r = r'"
  proof (rule join_split [where f = "dumps_raw fr" and cl = "CHR '']''"])
    show "join '','' (map (dumps_raw fr) xs) @ CHR '']'' # r =
        join '','' (map (dumps_raw fr) ys) @ CHR '']'' # r'"
      using JList.prems(3) b by simp
  qed (use JList.IH dumps_not_close [OF assms(1)] in \<open>auto simp: num_char_def is_digit_def\<close>)
  with b show ?case by simp
next
  case (JObj kvs)
  with same_first [OF assms(1) JObj(4)] obtain mvs where b: "b = JObj mvs"
    by (cases b) (auto simp: first_char_ok_def num_char_def is_digit_def split: if_splits)
  let ?f = "\<lambda>m. dumps_member (map_prod (\<lambda>k. k) (dumps_raw fr) m)"
  have "kvs = mvs \<and> r = r'"
  proof (rule join_split [where f = ?f and cl = "CHR ''}''"])
    fix m m' r r'
    assume a: "m \<in> set kvs" "delim r" "delim r'" "?f m @ r = ?f m' @ r'"
    obtain k v where m: "m = (k, v)" by fastforce
    have "v = w \<and> s = s'"
      if "delim s" "delim s'" "dumps_raw fr v @ s = dumps_raw fr w @ s'" for w s s'
      by (rule JObj.IH [OF a(1) _ that]) (simp add: m)
    from member_split [OF this] a m show "m = m' \<and> r = r'" by blast
  next
    show "join '','' (map ?f kvs) @ CHR ''}'' # r = join '','' (map ?f mvs) @ CHR ''}'' # r'"
      using JObj.prems(3) b by (simp add: comp_def)
  qed (auto simp: num_char_def is_digit_def dumps_member_def dumps_str_def)
  with b show ?case by simp
qed

lemma json_dumps_eq_iff:
  assumes "float_repr_ok fr"
  shows "json_dumps fr a = json_dumps fr b \<longleftrightarrow> canon a = canon b"
  using dumps_raw_split [OF assms, of "[]" "[]" "canon a" "canon b"]
  by (auto simp: json_dumps_raw delim_def)

subsection \<open>Digests of byte strings and files\<close>

definition content_hash_from_bytes :: "digest \<Rightarrow> byte list \<Rightarrow> string + string" where
  "content_hash_from_bytes sha content =
     (if content = [] then Inl ''content bytes must be non-empty'' else Inr (sha content))"

definition document_id_from_bytes :: "digest \<Rightarrow> byte list \<Rightarrow> string + string" where
  "document_id_from_bytes sha content =
     bind_res (content_hash_from_bytes sha content) (\<lambda>h. Inr (''doc_'' @ h))"

definition validate_chunk_size :: "int \<Rightarrow> string + int" where
  "validate_chunk_size chunk_size =
     (if chunk_size \<le> 0 then Inl ''chunk_size must be positive'' else Inr chunk_size)"

text \<open>
  The reading loop: the state is the bytes not yet read, the bytes the digest object has been
  updated with, and their \<open>total\<close>. \<open>handle.read(size)\<close> returns the next \<open>size\<close> bytes, fewer at the end.
\<close>

function read_loop :: "nat \<Rightarrow> byte list \<Rightarrow> byte list \<Rightarrow> nat \<Rightarrow> byte list \<times> nat" where
  "read_loop n rest fed got =
     (if n = 0 \<or> take n rest = [] then (fed, got)
      else read_loop n (drop n rest) (fed @ take n rest) (got + length (take n rest)))"
  by pat_completeness auto
termination by (relation "measure (\<lambda>(size, rest, fed, got). length rest)") auto

declare read_loop.simps [simp del]

definition content_hash_from_path :: "digest \<Rightarrow> int \<Rightarrow> byte list \<Rightarrow> string + string" where
  "content_hash_from_path sha chunk_size content =
     bind_res (validate_chunk_size chunk_size) (\<lambda>size.
       case read_loop (nat size) content [] 0 of (fed, got) \<Rightarrow>
         if got = 0 then Inl ''content bytes must be non-empty'' else Inr (sha fed))"

definition document_id_from_path :: "digest \<Rightarrow> int \<Rightarrow> byte list \<Rightarrow> string + string" where
  "document_id_from_path sha chunk_size content =
     bind_res (content_hash_from_path sha chunk_size content) (\<lambda>h. Inr (''doc_'' @ h))"

definition artifact_bytes_hash :: "digest \<Rightarrow> byte list \<Rightarrow> string" where
  "artifact_bytes_hash sha data = ''art_'' @ sha data"

definition dataset_id_from_bytes :: "digest \<Rightarrow> byte list \<Rightarrow> string" where
  "dataset_id_from_bytes sha content = ''evaldataset_'' @ sha content"

definition embedding_text_hash :: "digest \<Rightarrow> string \<Rightarrow> string" where
  "embedding_text_hash sha text = ''embtxt_'' @ sha (utf8 text)"

definition text_content_hash :: "digest \<Rightarrow> string \<Rightarrow> string" where
  "text_content_hash sha text = sha (utf8 text)"

lemma read_loop_exact: "0 < n \<Longrightarrow> read_loop n rest fed got = (fed @ rest, got + length rest)"
proof (induction n rest fed got rule: read_loop.induct)
  case (1 n rest fed got)
  show ?case
  proof (cases "rest = []")
    case True
    then show ?thesis by (simp add: read_loop.simps [of n])
  next
    case False
    with 1 have "read_loop n (drop n rest) (fed @ take n rest)
        (got + length (take n rest)) =
      ((fed @ take n rest) @ drop n rest, got + length (take n rest) + length (drop n rest))"
      by auto
    with 1 False show ?thesis by (subst read_loop.simps) auto
  qed
qed

subsection \<open>Identities of structured payloads\<close>

text \<open>\<open>f"{prefix}{_sha256_hex(json.dumps(payload, ...).encode("utf-8"))}"\<close>\<close>

definition hashed :: "digest \<Rightarrow> (pyfloat \<Rightarrow> string) \<Rightarrow> string \<Rightarrow> json \<Rightarrow> string" where
  "hashed sha fr prefix payload = prefix @ sha (utf8 (json_dumps fr payload))"

definition strip_newlines :: "string \<Rightarrow> string" where
  "strip_newlines = strip_by (\<lambda>c. c = CHR 0x0A)"

definition jstrs :: "string list \<Rightarrow> json" where
  "jstrs xs = JList (map JStr xs)"

definition required :: "string \<Rightarrow> string \<Rightarrow> string + unit" where
  "required name s = guard_res (py_strip s \<noteq> []) (name @ '' must be a non-empty string'')"

definition chunk_id_payload :: "string \<Rightarrow> int \<Rightarrow> string \<Rightarrow> string option \<Rightarrow> json" where
  "chunk_id_payload document_id chunk_index text chunker_version = JObj
     [(''document_id'', JStr document_id), (''chunk_index'', JInt chunk_index),
      (''text'', JStr (strip_newlines text)),
      (''chunker_version'', JStr (case chunker_version of None \<Rightarrow> [] | Some v \<Rightarrow> v))]"

definition chunk_id_from_parts ::
    "digest \<Rightarrow> (pyfloat \<Rightarrow> string) \<Rightarrow> string \<Rightarrow> int \<Rightarrow> string \<Rightarrow> string option \<Rightarrow> string + string" where
  "chunk_id_from_parts sha fr document_id chunk_index text chunker_version =
     bind_res (required ''document_id'' document_id) (\<lambda>_.
       if chunk_index < 0 then Inl ''chunk_index must be >= 0''
       else Inr (hashed sha fr ''chunk_''
              (chunk_id_payload document_id chunk_index text chunker_version)))"

definition block_id_payload :: "string \<Rightarrow> int \<Rightarrow> string \<Rightarrow> string \<Rightarrow> json" where
  "block_id_payload document_id order content_type text = JObj
     [(''document_id'', JStr document_id), (''order'', JInt order),
      (''content_type'', JStr content_type), (''text'', JStr (strip_newlines text))]"

definition block_id_from_parts ::
    "digest \<Rightarrow> (pyfloat \<Rightarrow> string) \<Rightarrow> string \<Rightarrow> int \<Rightarrow> string \<Rightarrow> string \<Rightarrow> string + string" where
  "block_id_from_parts sha fr document_id order content_type text =
     bind_res (required ''document_id'' document_id) (\<lambda>_.
       if order < 0 then Inl ''order must be >= 0''
       else Inr (hashed sha fr ''block_'' (block_id_payload document_id order content_type text)))"

definition PARSER_SCHEMA_VERSION :: string where
  "PARSER_SCHEMA_VERSION = ''offline-rag-parsed-v1''"

definition parsed_artifact_id ::
    "digest \<Rightarrow> (pyfloat \<Rightarrow> string) \<Rightarrow> string \<Rightarrow> string \<Rightarrow> string \<Rightarrow> string + string" where
  "parsed_artifact_id sha fr document_id parse_cfg_hash parser_contract_version =
     bind_res (required ''document_id'' document_id) (\<lambda>_.
     bind_res (required ''parse_config_hash'' parse_cfg_hash) (\<lambda>_.
       Inr (hashed sha fr ''parsed_'' (JObj [(''document_id'', JStr document_id),
         (''parse_config_hash'', JStr parse_cfg_hash),
         (''parser_contract_version'', JStr parser_contract_version)]))))"

definition lexical_index_id ::
    "digest \<Rightarrow> (pyfloat \<Rightarrow> string) \<Rightarrow> string \<Rightarrow> string \<Rightarrow> string \<Rightarrow> string + string" where
  "lexical_index_id sha fr chunk_set_id lex_cfg_hash backend_contract =
     bind_res (required ''chunk_set_id'' chunk_set_id) (\<lambda>_.
     bind_res (required ''lexical_config_hash'' lex_cfg_hash) (\<lambda>_.
       Inr (hashed sha fr ''lexical_'' (JObj [(''chunk_set_id'', JStr chunk_set_id),
         (''lexical_config_hash'', JStr lex_cfg_hash),
         (''backend_contract'', JStr backend_contract)]))))"

definition chunk_artifact_id ::
    "digest \<Rightarrow> (pyfloat \<Rightarrow> string) \<Rightarrow> string \<Rightarrow> string \<Rightarrow> string \<Rightarrow> string" where
  "chunk_artifact_id sha fr parsed_id chunk_cfg_hash chunker_version =
     hashed sha fr ''chunkartifact_'' (JObj [(''parsed_artifact_id'', JStr parsed_id),
       (''chunk_config_hash'', JStr chunk_cfg_hash), (''chunker_version'', JStr chunker_version)])"

definition embedding_id_from_parts ::
    "digest \<Rightarrow> (pyfloat \<Rightarrow> string) \<Rightarrow> string \<Rightarrow> string \<Rightarrow> string \<Rightarrow> string" where
  "embedding_id_from_parts sha fr chunk_id embedding_text_digest emb_cfg_hash =
     hashed sha fr ''emb_'' (JObj [(''chunk_id'', JStr chunk_id),
       (''embedding_text_hash'', JStr embedding_text_digest),
       (''embedding_config_hash'', JStr emb_cfg_hash)])"

definition dense_index_id ::
    "digest \<Rightarrow> (pyfloat \<Rightarrow> string) \<Rightarrow> string \<Rightarrow> string \<Rightarrow> string \<Rightarrow> string" where
  "dense_index_id sha fr chunk_set_id idx_cfg_hash index_contract_version =
     hashed sha fr ''denseindex_'' (JObj [(''chunk_set_id'', JStr chunk_set_id),
       (''index_config_hash'', JStr idx_cfg_hash),
       (''index_contract_version'', JStr index_contract_version)])"

text \<open>\<open>s.removeprefix(p)\<close>\<close>

definition removeprefix :: "string \<Rightarrow> string \<Rightarrow> string" where
  "removeprefix p s = (if take (length p) s = p then drop (length p) s else s)"

definition dense_collection_name :: "string \<Rightarrow> string" where
  "dense_collection_name index_id = ''dense_'' @ take 48 (removeprefix ''denseindex_'' index_id)"

subsection \<open>Chunk identities\<close>

definition parent_chunk_id_from_parts ::
    "digest \<Rightarrow> (pyfloat \<Rightarrow> string) \<Rightarrow> string \<Rightarrow> string \<Rightarrow> string list \<Rightarrow> string \<Rightarrow> string \<Rightarrow> string" where
  "parent_chunk_id_from_parts sha fr document_id chunk_cfg_hash source_block_ids text chunker_version =
     hashed sha fr ''parent_'' (JObj [(''document_id'', JStr document_id),
       (''chunk_config_hash'', JStr chunk_cfg_hash), (''chunker_version'', JStr chunker_version),
       (''source_block_ids'', jstrs source_block_ids), (''text'', JStr (strip_newlines text)),
       (''kind'', JStr ''parent'')])"

text \<open>\<open>x or ""\<close> for an optional string\<close>

definition or_empty :: "string option \<Rightarrow> string" where
  "or_empty x = (case x of None \<Rightarrow> [] | Some v \<Rightarrow> v)"

definition child_chunk_payload ::
    "string \<Rightarrow> string option \<Rightarrow> string \<Rightarrow> string list \<Rightarrow> string \<Rightarrow> string \<Rightarrow> int \<Rightarrow> (string \<times> json) list" where
  "child_chunk_payload document_id parent_chunk_id chunk_cfg_hash source_block_ids text
       chunker_version occurrence =
     [(''document_id'', JStr document_id), (''parent_chunk_id'', JStr (or_empty parent_chunk_id)),
      (''chunk_config_hash'', JStr chunk_cfg_hash), (''chunker_version'', JStr chunker_version),
      (''source_block_ids'', jstrs source_block_ids), (''text'', JStr (strip_newlines text)),
      (''kind'', JStr ''child'')] @
     (if 0 < occurrence then [(''occurrence'', JInt occurrence)] else [])"

definition child_chunk_id_from_parts ::
    "digest \<Rightarrow> (pyfloat \<Rightarrow> string) \<Rightarrow> string \<Rightarrow> string option \<Rightarrow> string \<Rightarrow> string list \<Rightarrow> string \<Rightarrow>
     string \<Rightarrow> int \<Rightarrow> string + string" where
  "child_chunk_id_from_parts sha fr document_id parent_chunk_id chunk_cfg_hash source_block_ids
       text chunker_version occurrence =
     (if occurrence < 0 then Inl ''occurrence must be >= 0''
      else Inr (hashed sha fr ''chunk_'' (JObj (child_chunk_payload document_id parent_chunk_id
             chunk_cfg_hash source_block_ids text chunker_version occurrence))))"

subsection \<open>Corpora and chunk sets\<close>

text \<open>\<open>item[key]\<close> on a mapping of strings; the left side is the \<open>KeyError\<close>.\<close>

definition item_at :: "(string \<times> string) list \<Rightarrow> string \<Rightarrow> string + string" where
  "item_at item k = (case map_of item k of None \<Rightarrow> Inl k | Some v \<Rightarrow> Inr v)"

definition item_get :: "(string \<times> string) list \<Rightarrow> string \<Rightarrow> string" where
  "item_get item k = or_empty (map_of item k)"

record corpus_row =
  cr_document_id :: string
  cr_source_content_hash :: string
  cr_processed_artifact_hash :: string
  cr_parsed_artifact_id :: string

definition corpus_row_of :: "(string \<times> string) list \<Rightarrow> string + corpus_row" where
  "corpus_row_of item =
     bind_res (item_at item ''document_id'') (\<lambda>d.
     bind_res (item_at item ''source_content_hash'') (\<lambda>h.
     Inr \<lparr>cr_document_id = d, cr_source_content_hash = h,
          cr_processed_artifact_hash = item_get item ''processed_artifact_hash'',
          cr_parsed_artifact_id = item_get item ''parsed_artifact_id''\<rparr>))"

definition corpus_row_json :: "corpus_row \<Rightarrow> json" where
  "corpus_row_json r = JObj [(''document_id'', JStr (cr_document_id r)),
     (''source_content_hash'', JStr (cr_source_content_hash r)),
     (''processed_artifact_hash'', JStr (cr_processed_artifact_hash r)),
     (''parsed_artifact_id'', JStr (cr_parsed_artifact_id r))]"

definition corpus_row_key :: "corpus_row \<Rightarrow> string \<times> string \<times> string" where
  "corpus_row_key r = (cr_document_id r, cr_source_content_hash r, cr_parsed_artifact_id r)"

definition corpus_payload :: "string \<Rightarrow> string \<Rightarrow> corpus_row list \<Rightarrow> json" where
  "corpus_payload schema_version parse_cfg_hash rows = JObj
     [(''schema_version'', JStr schema_version), (''parse_config_hash'', JStr parse_cfg_hash),
      (''documents'', JList (map corpus_row_json (sort_key corpus_row_key rows)))]"

definition corpus_id_from_entries ::
    "digest \<Rightarrow> (pyfloat \<Rightarrow> string) \<Rightarrow> string \<Rightarrow> string \<Rightarrow> (string \<times> string) list list \<Rightarrow> string + string" where
  "corpus_id_from_entries sha fr schema_version parse_cfg_hash document_identities =
     bind_res (map_res corpus_row_of document_identities) (\<lambda>rows.
       Inr (''corpus_'' @ sha (utf8 (json_dumps fr (corpus_payload schema_version parse_cfg_hash rows)))))"

record chunk_set_row =
  sr_document_id :: string
  sr_parsed_artifact_id :: string
  sr_chunk_artifact_id :: string

definition chunk_set_row_of :: "(string \<times> string) list \<Rightarrow> string + chunk_set_row" where
  "chunk_set_row_of item =
     bind_res (item_at item ''document_id'') (\<lambda>d.
     bind_res (item_at item ''parsed_artifact_id'') (\<lambda>p.
     bind_res (item_at item ''chunk_artifact_id'') (\<lambda>c.
     Inr \<lparr>sr_document_id = d, sr_parsed_artifact_id = p, sr_chunk_artifact_id = c\<rparr>)))"

definition chunk_set_row_json :: "chunk_set_row \<Rightarrow> json" where
  "chunk_set_row_json r = JObj [(''document_id'', JStr (sr_document_id r)),
     (''parsed_artifact_id'', JStr (sr_parsed_artifact_id r)),
     (''chunk_artifact_id'', JStr (sr_chunk_artifact_id r))]"

definition chunk_set_payload :: "string \<Rightarrow> string \<Rightarrow> string \<Rightarrow> chunk_set_row list \<Rightarrow> json" where
  "chunk_set_payload corpus_id chunk_cfg_hash chunker_version rows = JObj
     [(''corpus_id'', JStr corpus_id), (''chunk_config_hash'', JStr chunk_cfg_hash),
      (''chunker_version'', JStr chunker_version),
      (''documents'', JList (map chunk_set_row_json (sort_key sr_document_id rows)))]"

definition chunk_set_id_from_entries ::
    "digest \<Rightarrow> (pyfloat \<Rightarrow> string) \<Rightarrow> string \<Rightarrow> string \<Rightarrow> string \<Rightarrow> (string \<times> string) list list \<Rightarrow>
     string + string" where
  "chunk_set_id_from_entries sha fr corpus_id chunk_cfg_hash chunker_version document_entries =
     bind_res (map_res chunk_set_row_of document_entries) (\<lambda>rows.
       Inr (''chunkset_'' @ sha (utf8 (json_dumps fr
              (chunk_set_payload corpus_id chunk_cfg_hash chunker_version rows)))))"

subsection \<open>Configuration hashes and payload identities\<close>

definition canonical_config_hash :: "digest \<Rightarrow> (pyfloat \<Rightarrow> string) \<Rightarrow> json \<Rightarrow> string" where
  "canonical_config_hash sha fr data = hashed sha fr ''cfg_'' data"

definition parse_config_hash ::
    "digest \<Rightarrow> (pyfloat \<Rightarrow> string) \<Rightarrow> string \<Rightarrow> string \<Rightarrow> bool \<Rightarrow> (string \<times> json) list option \<Rightarrow> string" where
  "parse_config_hash sha fr parser_name parser_version ocr_enabled extra =
     canonical_config_hash sha fr (JObj
       ([(''parser_schema_version'', JStr PARSER_SCHEMA_VERSION), (''parser_name'', JStr parser_name),
         (''parser_version'', JStr parser_version), (''ocr_enabled'', JBool ocr_enabled)] @
        (case extra of None \<Rightarrow> [] | Some x \<Rightarrow> if x = [] then [] else [(''extra'', JObj x)])))"

text \<open>\<open>s.replace(old, new, 1)\<close> for a non-empty \<open>old\<close>\<close>

definition replace_once :: "string \<Rightarrow> string \<Rightarrow> string \<Rightarrow> string" where
  "replace_once old new s = (case py_find old s 0 of
     None \<Rightarrow> s
   | Some i \<Rightarrow> take i s @ new @ drop (i + length old) s)"

definition config_hash_with :: "string \<Rightarrow> digest \<Rightarrow> (pyfloat \<Rightarrow> string) \<Rightarrow> json \<Rightarrow> string" where
  "config_hash_with prefix sha fr data =
     replace_once ''cfg_'' prefix (canonical_config_hash sha fr data)"

definition chunk_config_hash :: "digest \<Rightarrow> (pyfloat \<Rightarrow> string) \<Rightarrow> json \<Rightarrow> string" where
  "chunk_config_hash = config_hash_with ''chunkcfg_''"

definition embedding_config_hash :: "digest \<Rightarrow> (pyfloat \<Rightarrow> string) \<Rightarrow> json \<Rightarrow> string" where
  "embedding_config_hash = config_hash_with ''embcfg_''"

definition index_config_hash :: "digest \<Rightarrow> (pyfloat \<Rightarrow> string) \<Rightarrow> json \<Rightarrow> string" where
  "index_config_hash = config_hash_with ''idxcfg_''"

definition lexical_config_hash :: "digest \<Rightarrow> (pyfloat \<Rightarrow> string) \<Rightarrow> json \<Rightarrow> string" where
  "lexical_config_hash = config_hash_with ''lexcfg_''"

definition fusion_config_hash :: "digest \<Rightarrow> (pyfloat \<Rightarrow> string) \<Rightarrow> json \<Rightarrow> string" where
  "fusion_config_hash = config_hash_with ''fuscfg_''"

definition reranker_config_hash :: "digest \<Rightarrow> (pyfloat \<Rightarrow> string) \<Rightarrow> json \<Rightarrow> string" where
  "reranker_config_hash = config_hash_with ''rrkcfg_''"

definition context_config_hash :: "digest \<Rightarrow> (pyfloat \<Rightarrow> string) \<Rightarrow> json \<Rightarrow> string" where
  "context_config_hash = config_hash_with ''ctxcfg_''"

definition generation_config_hash :: "digest \<Rightarrow> (pyfloat \<Rightarrow> string) \<Rightarrow> json \<Rightarrow> string" where
  "generation_config_hash = config_hash_with ''gencfg_''"

definition authoring_config_hash :: "digest \<Rightarrow> (pyfloat \<Rightarrow> string) \<Rightarrow> json \<Rightarrow> string" where
  "authoring_config_hash = config_hash_with ''authorcfg_''"

definition recovery_rewriter_config_hash :: "digest \<Rightarrow> (pyfloat \<Rightarrow> string) \<Rightarrow> json \<Rightarrow> string" where
  "recovery_rewriter_config_hash = config_hash_with ''rrwcfg_''"

definition recovery_eval_config_hash :: "digest \<Rightarrow> (pyfloat \<Rightarrow> string) \<Rightarrow> json \<Rightarrow> string" where
  "recovery_eval_config_hash = config_hash_with ''receval_''"

definition judge_config_hash :: "digest \<Rightarrow> (pyfloat \<Rightarrow> string) \<Rightarrow> json \<Rightarrow> string" where
  "judge_config_hash = config_hash_with ''judgecfg_''"

definition security_invariant_registry_hash :: "digest \<Rightarrow> (pyfloat \<Rightarrow> string) \<Rightarrow> json \<Rightarrow> string" where
  "security_invariant_registry_hash = config_hash_with ''secinv_''"

definition adversarial_fixture_hash :: "digest \<Rightarrow> (pyfloat \<Rightarrow> string) \<Rightarrow> json \<Rightarrow> string" where
  "adversarial_fixture_hash = config_hash_with ''advfx_''"

definition benign_security_control_hash :: "digest \<Rightarrow> (pyfloat \<Rightarrow> string) \<Rightarrow> json \<Rightarrow> string" where
  "benign_security_control_hash = config_hash_with ''benc_''"

definition security_campaign_hash :: "digest \<Rightarrow> (pyfloat \<Rightarrow> string) \<Rightarrow> json \<Rightarrow> string" where
  "security_campaign_hash = config_hash_with ''seccamp_''"

definition gold_dataset_id_from_payload :: "digest \<Rightarrow> (pyfloat \<Rightarrow> string) \<Rightarrow> json \<Rightarrow> string" where
  "gold_dataset_id_from_payload sha fr payload = hashed sha fr ''gold_'' payload"

definition evidence_unit_id_from_payload :: "digest \<Rightarrow> (pyfloat \<Rightarrow> string) \<Rightarrow> json \<Rightarrow> string" where
  "evidence_unit_id_from_payload sha fr payload = hashed sha fr ''ev_'' payload"

definition generation_evidence_set_id_from_payload ::
    "digest \<Rightarrow> (pyfloat \<Rightarrow> string) \<Rightarrow> json \<Rightarrow> string" where
  "generation_evidence_set_id_from_payload sha fr payload = hashed sha fr ''genevidence_'' payload"

definition generation_comparison_id_from_payload ::
    "digest \<Rightarrow> (pyfloat \<Rightarrow> string) \<Rightarrow> json \<Rightarrow> string" where
  "generation_comparison_id_from_payload sha fr payload = hashed sha fr ''gencompare_'' payload"

subsection \<open>When two payloads are the same\<close>

lemma sort_key_eq_iff:
  assumes "inj_on f (set xs \<union> set ys)"
  shows "sort_key f xs = sort_key f ys \<longleftrightarrow> mset xs = mset ys"
proof
  assume "sort_key f xs = sort_key f ys"
  then show "mset xs = mset ys" by (metis mset_sort)
next
  assume "mset xs = mset ys"
  moreover have "inj_on f (set xs)" using assms by (rule inj_on_subset) simp
  ultimately show "sort_key f xs = sort_key f ys"
    by (intro sort_key_inj_key_eq) simp_all
qed

lemma sort_key_eq_set_iff:
  assumes "distinct (map f xs)" and "distinct (map f ys)"
  shows "sort_key f xs = sort_key f ys \<longleftrightarrow> set xs = set ys"
proof
  assume "sort_key f xs = sort_key f ys"
  then show "set xs = set ys" by (metis set_sort)
next
  assume e: "set xs = set ys"
  then have "inj_on f (set xs \<union> set ys)" using assms by (simp add: distinct_map)
  moreover have "mset xs = mset ys"
    using e assms by (simp add: distinct_map set_eq_iff_mset_eq_distinct)
  ultimately show "sort_key f xs = sort_key f ys" by (simp add: sort_key_eq_iff)
qed

lemma keys_map_prod: "map fst (map (map_prod (\<lambda>k. k) f) kvs) = map fst kvs"
  by simp

lemma map_of_map_prod: "map_of (map (map_prod (\<lambda>k. k) f) kvs) k = map_option f (map_of kvs k)"
  by (induction kvs) auto

text \<open>Objects with distinct keys have the same canonical form exactly when they have the same members.\<close>

lemma canon_obj_iff:
  assumes "distinct (map fst a)" and "distinct (map fst b)"
  shows "canon (JObj a) = canon (JObj b) \<longleftrightarrow>
    (\<forall>k. map_option canon (map_of a k) = map_option canon (map_of b k))"
proof -
  let ?a = "map (map_prod (\<lambda>k. k) canon) a" and ?b = "map (map_prod (\<lambda>k. k) canon) b"
  have d: "distinct (map fst ?a)" "distinct (map fst ?b)"
    using assms by (simp_all only: keys_map_prod)
  have "canon (JObj a) = canon (JObj b) \<longleftrightarrow> set ?a = set ?b"
    using sort_key_eq_set_iff [OF d] by simp
  also have "\<dots> \<longleftrightarrow> map_of ?a = map_of ?b" using map_of_inject_set [OF d] by simp
  also have "\<dots> \<longleftrightarrow> (\<forall>k. map_option canon (map_of a k) = map_option canon (map_of b k))"
    by (simp add: fun_eq_iff map_of_map_prod)
  finally show ?thesis .
qed

text \<open>Objects with the same fields: equal exactly when they are equal field by field.\<close>

lemma map_of_same_keys:
  assumes "map fst a = map fst b" and "distinct (map fst a)"
    and "\<forall>k. map_option f (map_of a k) = map_option f (map_of b k)"
  shows "map (\<lambda>m. f (snd m)) a = map (\<lambda>m. f (snd m)) b"
proof (rule nth_equalityI)
  show "length (map (\<lambda>m. f (snd m)) a) = length (map (\<lambda>m. f (snd m)) b)"
    using assms(1) by (metis length_map)
next
  fix i assume "i < length (map (\<lambda>m. f (snd m)) a)"
  then have i: "i < length a" "i < length b" using assms(1) map_eq_imp_length_eq by fastforce+
  have k: "fst (a ! i) = fst (b ! i)" using assms(1) i by (metis nth_map)
  have "map_of a (fst (a ! i)) = Some (snd (a ! i))"
    using i(1) assms(2) by (simp add: map_of_eq_Some_iff)
  moreover have "map_of b (fst (b ! i)) = Some (snd (b ! i))"
    using i(2) assms(1,2) by (simp add: map_of_eq_Some_iff)
  ultimately show "map (\<lambda>m. f (snd m)) a ! i = map (\<lambda>m. f (snd m)) b ! i"
    using assms(3) [rule_format, of "fst (a ! i)"] k i by simp
qed

lemma canon_fields:
  assumes "map fst a = map fst b" and "distinct (map fst a)"
  shows "canon (JObj a) = canon (JObj b) \<longleftrightarrow> map (\<lambda>m. canon (snd m)) a = map (\<lambda>m. canon (snd m)) b"
proof
  assume "canon (JObj a) = canon (JObj b)"
  then have "\<forall>k. map_option canon (map_of a k) = map_option canon (map_of b k)"
    using canon_obj_iff [of a b] assms by metis
  then show "map (\<lambda>m. canon (snd m)) a = map (\<lambda>m. canon (snd m)) b"
    using assms by (intro map_of_same_keys)
next
  assume "map (\<lambda>m. canon (snd m)) a = map (\<lambda>m. canon (snd m)) b"
  with assms(1) have "map (map_prod (\<lambda>k. k) canon) a = map (map_prod (\<lambda>k. k) canon) b"
    by (auto simp: list_eq_iff_nth_eq map_prod_def case_prod_beta)
  then show "canon (JObj a) = canon (JObj b)" by simp
qed

definition no_collision :: "digest \<Rightarrow> (pyfloat \<Rightarrow> string) \<Rightarrow> json \<Rightarrow> json \<Rightarrow> bool" where
  "no_collision sha fr a b \<longleftrightarrow>
     (sha (utf8 (json_dumps fr a)) = sha (utf8 (json_dumps fr b)) \<longrightarrow>
      utf8 (json_dumps fr a) = utf8 (json_dumps fr b))"

lemma hashed_eq_iff:
  assumes "float_repr_ok fr" and "no_collision sha fr a b"
  shows "hashed sha fr p a = hashed sha fr p b \<longleftrightarrow> canon a = canon b"
  using assms(2) json_dumps_eq_iff [OF assms(1), of a b]
  by (auto simp only: hashed_def no_collision_def utf8_inj same_append_eq)

lemma config_hash_with_eq: "config_hash_with p sha fr data = hashed sha fr p data"
proof -
  have "py_find ''cfg_'' (''cfg_'' @ h) 0 = Some 0" for h
    by (simp add: py_find_def)
  then show ?thesis
    by (simp add: config_hash_with_def replace_once_def canonical_config_hash_def hashed_def)
qed

text \<open>A digest and a float rendering to evaluate the identities with.\<close>

definition sample_digest :: digest where
  "sample_digest bs = map (\<lambda>b. char_of (unat b)) bs"

definition sample_float_repr :: "pyfloat \<Rightarrow> string" where
  "sample_float_repr q = (case quotient_of q of (a, b) \<Rightarrow> str_int a @ CHR ''.'' # str_int b)"

lemma sample_digest_inj: "sample_digest x = sample_digest y \<Longrightarrow> x = y"
proof -
  have "inj (\<lambda>b :: byte. (char_of (unat b) :: char))"
  proof (rule injI)
    fix a b :: byte assume "(char_of (unat a) :: char) = char_of (unat b)"
    then have "(of_char (char_of (unat a) :: char) :: nat) = of_char (char_of (unat b) :: char)"
      by simp
    moreover have "unat c < 256" for c :: byte
      by (rule order_less_le_trans [OF unsigned_less]) simp
    ultimately have "unat a = unat b" by simp
    then show "a = b" by (rule unsigned_word_eqI)
  qed
  then show "sample_digest x = sample_digest y \<Longrightarrow> x = y"
    by (simp add: sample_digest_def inj_map_eq_map)
qed

lemma sample_no_collision: "no_collision sample_digest fr a b"
  by (auto simp: no_collision_def dest: sample_digest_inj)

lemma sample_float_repr_ok: "float_repr_ok sample_float_repr"
proof -
  have point: "CHR ''.'' \<notin> set (str_int i)" for i
    by (auto dest!: str_int_chars simp: is_digit_def)
  have "inj sample_float_repr"
  proof (rule injI)
    fix p q assume e: "sample_float_repr p = sample_float_repr q"
    obtain a b c d where q: "quotient_of p = (a, b)" "quotient_of q = (c, d)" by fastforce
    from e have "str_int a @ CHR ''.'' # str_int b = str_int c @ CHR ''.'' # str_int d"
      by (simp add: sample_float_repr_def q)
    then have "str_int a = str_int c \<and> str_int b = str_int d"
      using point by (metis append_eq_append_conv_if append_Cons_eq_iff)
    then have "quotient_of p = quotient_of q" using q by (auto dest: str_int_inj)
    then show "p = q" by (simp add: quotient_of_inject_eq)
  qed
  moreover have "(\<forall>c \<in> set (sample_float_repr q). num_char c) \<and> CHR ''.'' \<in> set (sample_float_repr q)"
    for q
    by (cases "quotient_of q") (auto simp: sample_float_repr_def num_char_def dest: str_int_chars)
  ultimately show ?thesis by (simp add: float_repr_ok_def)
qed

subsection \<open>Properties\<close>

text \<open>Hashing a file by bounded reads of any positive size gives the hash of its bytes, with the
  same error for an empty file; a non-positive size is refused. The reading loop always ends.\<close>

theorem content_hash_from_path_exact:
  "content_hash_from_path sha chunk_size content =
     (if chunk_size \<le> 0 then Inl ''chunk_size must be positive''
      else content_hash_from_bytes sha content)"
proof (cases "chunk_size \<le> 0")
  case False
  then have "read_loop (nat chunk_size) content [] 0 = (content, length content)"
    by (simp add: read_loop_exact)
  with False show ?thesis
    by (simp add: content_hash_from_path_def validate_chunk_size_def content_hash_from_bytes_def)
qed (simp add: content_hash_from_path_def validate_chunk_size_def)

text \<open>C19: A configuration hash identifies its mapping: unless SHA-256 collides on the two encodings, two
  mappings have the same hash exactly when they have the same members, in whatever order they were
  inserted, nested mappings included; the families differ in the prefix only.\<close>

theorem config_hash_exact:
  assumes "float_repr_ok fr" and "distinct (map fst a)" and "distinct (map fst b)"
    and "no_collision sha fr (JObj a) (JObj b)"
  shows "(config_hash_with p sha fr (JObj a) = config_hash_with p sha fr (JObj b)) =
    (\<forall>k. map_option canon (map_of a k) = map_option canon (map_of b k))"
  using hashed_eq_iff [OF assms(1,4)] canon_obj_iff [OF assms(2,3)]
  by (simp only: config_hash_with_eq)

theorem config_hash_exact_witness:
  "chunk_config_hash sample_digest sample_float_repr
     (JObj [(''max_tokens'', JInt 512), (''overlap'', JInt 64)]) =
   chunk_config_hash sample_digest sample_float_repr
     (JObj [(''overlap'', JInt 64), (''max_tokens'', JInt 512)]) \<and>
   chunk_config_hash sample_digest sample_float_repr (JObj [(''max_tokens'', JInt 512)]) \<noteq>
   chunk_config_hash sample_digest sample_float_repr (JObj [(''max_tokens'', JFloat 512)])"
proof
  let ?a = "[(''max_tokens'', JInt 512), (''overlap'', JInt 64)]"
  let ?b = "[(''overlap'', JInt 64), (''max_tokens'', JInt 512)]"
  have "\<forall>k. map_option canon (map_of ?a k) = map_option canon (map_of ?b k)" by simp
  then show "chunk_config_hash sample_digest sample_float_repr (JObj ?a) =
      chunk_config_hash sample_digest sample_float_repr (JObj ?b)"
    using config_hash_exact [OF sample_float_repr_ok _ _ sample_no_collision, of ?a ?b]
    by (simp add: chunk_config_hash_def)
next
  let ?a = "[(''max_tokens'', JInt 512)]" and ?b = "[(''max_tokens'', JFloat 512)]"
  have "\<not> (\<forall>k. map_option canon (map_of ?a k) = map_option canon (map_of ?b k))" by auto
  then show "chunk_config_hash sample_digest sample_float_repr (JObj ?a) \<noteq>
      chunk_config_hash sample_digest sample_float_repr (JObj ?b)"
    using config_hash_exact [OF sample_float_repr_ok _ _ sample_no_collision, of ?a ?b]
    by (simp add: chunk_config_hash_def)
qed

lemma child_payload_keys:
  "distinct (map fst (child_chunk_payload d p cfg bs t v n))"
  by (simp add: child_chunk_payload_def)

lemma map_jstr_canon: "map (\<lambda>x. canon (JStr x)) bs = map JStr bs"
  by simp

lemma canon_jstrs [simp]: "canon (jstrs bs) = jstrs bs"
  by (simp add: jstrs_def comp_def)

lemma jstrs_inj [simp]: "jstrs bs = jstrs bs' \<longleftrightarrow> bs = bs'"
  by (simp add: jstrs_def inj_map_eq_map inj_def)

lemma child_payload_eq:
  assumes "0 \<le> n" and "0 \<le> n'"
  shows "canon (JObj (child_chunk_payload d p cfg bs t v n)) =
      canon (JObj (child_chunk_payload d' p' cfg' bs' t' v' n')) \<longleftrightarrow>
    d = d' \<and> or_empty p = or_empty p' \<and> cfg = cfg' \<and> bs = bs' \<and>
    strip_newlines t = strip_newlines t' \<and> v = v' \<and> n = n'" (is "?l = ?r")
proof
  assume ?l
  then have k: "map_option canon (map_of (child_chunk_payload d p cfg bs t v n) k) =
      map_option canon (map_of (child_chunk_payload d' p' cfg' bs' t' v' n') k)" for k
    by (simp only: canon_obj_iff [OF child_payload_keys child_payload_keys])
  show ?r
    using k [of "''document_id''"] k [of "''parent_chunk_id''"] k [of "''chunk_config_hash''"]
      k [of "''source_block_ids''"] k [of "''text''"] k [of "''chunker_version''"]
      k [of "''occurrence''"] assms
    by (auto simp: child_chunk_payload_def split: if_splits)
next
  assume ?r
  then have "child_chunk_payload d p cfg bs t v n = child_chunk_payload d' p' cfg' bs' t' v' n'"
    by (simp add: child_chunk_payload_def)
  then show ?l by simp
qed

text \<open>A child chunk id identifies its parts: unless SHA-256 collides, two ids are equal exactly when
  document, parent (a missing one counts as empty), configuration, blocks, chunker version, the text
  without surrounding newlines and the occurrence number agree; so repeated children are told apart
  by their occurrence alone.\<close>

theorem child_chunk_id_exact:
  assumes "float_repr_ok fr" and "0 \<le> n" and "0 \<le> n'"
    and "no_collision sha fr (JObj (child_chunk_payload d p cfg bs t v n))
           (JObj (child_chunk_payload d' p' cfg' bs' t' v' n'))"
  shows "(child_chunk_id_from_parts sha fr d p cfg bs t v n =
      child_chunk_id_from_parts sha fr d' p' cfg' bs' t' v' n') =
    (d = d' \<and> or_empty p = or_empty p' \<and> cfg = cfg' \<and> bs = bs' \<and>
     strip_newlines t = strip_newlines t' \<and> v = v' \<and> n = n')"
proof -
  have "(child_chunk_id_from_parts sha fr d p cfg bs t v n =
      child_chunk_id_from_parts sha fr d' p' cfg' bs' t' v' n') =
    (canon (JObj (child_chunk_payload d p cfg bs t v n)) =
      canon (JObj (child_chunk_payload d' p' cfg' bs' t' v' n')))"
    using assms(2,3) hashed_eq_iff [OF assms(1,4), of "''chunk_''"]
    by (simp add: child_chunk_id_from_parts_def)
  then show ?thesis by (simp only: child_payload_eq [OF assms(2,3)])
qed

theorem child_chunk_id_exact_witness:
  "child_chunk_id_from_parts sample_digest sample_float_repr ''doc_1'' None ''cfg'' [''b1''] ''text''
     ''v1'' 0 \<noteq>
   child_chunk_id_from_parts sample_digest sample_float_repr ''doc_1'' None ''cfg'' [''b1''] ''text''
     ''v1'' 1 \<and>
   child_chunk_id_from_parts sample_digest sample_float_repr ''doc_1'' (Some []) ''cfg'' [''b1'']
     (''text'' @ [CHR 0x0A]) ''v1'' 2 =
   child_chunk_id_from_parts sample_digest sample_float_repr ''doc_1'' None ''cfg'' [''b1''] ''text''
     ''v1'' 2"
  using child_chunk_id_exact [OF sample_float_repr_ok _ _ sample_no_collision, of 0 1 "''doc_1''" None
      "''cfg''" "[''b1'']" "''text''" "''v1''" "''doc_1''" None "''cfg''" "[''b1'']" "''text''" "''v1''"]
    child_chunk_id_exact [OF sample_float_repr_ok _ _ sample_no_collision, of 2 2 "''doc_1''" "Some []"
      "''cfg''" "[''b1'']" "''text'' @ [CHR 0x0A]" "''v1''" "''doc_1''" None "''cfg''" "[''b1'']" "''text''" "''v1''"]
  by (simp add: or_empty_def strip_newlines_def strip_by_def)

lemma corpus_row_json_inj: "canon (corpus_row_json r) = canon (corpus_row_json q) \<longleftrightarrow> r = q"
  unfolding corpus_row_json_def by (subst canon_fields) auto

lemma map_eq_inj:
  assumes "\<And>x y. f x = f y \<longleftrightarrow> x = y"
  shows "map f xs = map f ys \<longleftrightarrow> xs = ys"
  using assms by (simp add: inj_map_eq_map inj_def)

lemma corpus_payload_eq:
  assumes "distinct (map cr_document_id rows)" and "distinct (map cr_document_id rows')"
  shows "canon (corpus_payload schema cfg rows) = canon (corpus_payload schema' cfg' rows') \<longleftrightarrow>
    schema = schema' \<and> cfg = cfg' \<and> set rows = set rows'" (is "?l = ?r")
proof -
  let ?docs = "\<lambda>rs. JList (map corpus_row_json (sort_key corpus_row_key rs))"
  have key: "distinct (map corpus_row_key rs)" if "distinct (map cr_document_id rs)" for rs
    using that by (auto simp: distinct_map corpus_row_key_def inj_on_def)
  have "canon (?docs rows) = canon (?docs rows') \<longleftrightarrow>
      sort_key corpus_row_key rows = sort_key corpus_row_key rows'"
    using map_eq_inj [of "\<lambda>x. canon (corpus_row_json x)", OF corpus_row_json_inj]
    by (simp add: comp_def)
  also have "\<dots> \<longleftrightarrow> set rows = set rows'" by (rule sort_key_eq_set_iff [OF key key]) (rule assms)+
  finally have "canon (?docs rows) = canon (?docs rows') \<longleftrightarrow> set rows = set rows'" .
  then show ?thesis
    unfolding corpus_payload_def by (subst canon_fields) (simp_all del: canon.simps(6) cong: conj_cong)
qed

text \<open>A corpus id identifies the content of the corpus and not the order in which it was listed:
  for identities with distinct documents, and unless SHA-256 collides, two corpora have the same id
  exactly when schema, parse configuration and the set of document identities are the same.\<close>

theorem corpus_id_exact:
  assumes "float_repr_ok fr"
    and "map_res corpus_row_of ids = Inr rows" and "map_res corpus_row_of ids' = Inr rows'"
    and "distinct (map cr_document_id rows)" and "distinct (map cr_document_id rows')"
    and "no_collision sha fr (corpus_payload schema cfg rows) (corpus_payload schema' cfg' rows')"
  shows "(corpus_id_from_entries sha fr schema cfg ids =
      corpus_id_from_entries sha fr schema' cfg' ids') =
    (schema = schema' \<and> cfg = cfg' \<and> set rows = set rows')"
proof -
  have "(corpus_id_from_entries sha fr schema cfg ids = corpus_id_from_entries sha fr schema' cfg' ids')
      = (hashed sha fr ''corpus_'' (corpus_payload schema cfg rows) =
         hashed sha fr ''corpus_'' (corpus_payload schema' cfg' rows'))"
    by (simp add: corpus_id_from_entries_def hashed_def assms(2,3))
  then show ?thesis
    by (simp only: hashed_eq_iff [OF assms(1,6)] corpus_payload_eq [OF assms(4,5)])
qed

theorem corpus_id_exact_witness:
  "corpus_id_from_entries sample_digest sample_float_repr ''s'' ''c''
     [[(''document_id'', ''doc_b''), (''source_content_hash'', ''h2'')],
      [(''document_id'', ''doc_a''), (''source_content_hash'', ''h1'')]] =
   corpus_id_from_entries sample_digest sample_float_repr ''s'' ''c''
     [[(''document_id'', ''doc_a''), (''source_content_hash'', ''h1'')],
      [(''document_id'', ''doc_b''), (''source_content_hash'', ''h2'')]]"
proof -
  let ?a = "[(''document_id'', ''doc_a''), (''source_content_hash'', ''h1'')]"
  let ?b = "[(''document_id'', ''doc_b''), (''source_content_hash'', ''h2'')]"
  let ?ra = "\<lparr>cr_document_id = ''doc_a'', cr_source_content_hash = ''h1'',
    cr_processed_artifact_hash = [], cr_parsed_artifact_id = []\<rparr>"
  let ?rb = "\<lparr>cr_document_id = ''doc_b'', cr_source_content_hash = ''h2'',
    cr_processed_artifact_hash = [], cr_parsed_artifact_id = []\<rparr>"
  have r: "corpus_row_of ?a = Inr ?ra" "corpus_row_of ?b = Inr ?rb"
    by (simp_all add: corpus_row_of_def item_at_def item_get_def or_empty_def)
  show ?thesis
    by (subst corpus_id_exact [OF sample_float_repr_ok, where rows = "[?rb, ?ra]" and rows' = "[?ra, ?rb]"])
      (auto simp: r sample_no_collision)
qed

end
