(* ===== verification/Clip.thy ===== *)
theory Clip
  imports Chunk_Store Core_Ids
begin

section \<open>Anchor-preserving clipping of parents (context/clip.py)\<close>

text \<open>
  Where an anchor lies in its parent, the decision to emit a parent whole or clipped to the token
  budget, and the evidence units made of it. The token counter is an argument; the whitespace
  counter of \<open>chunking/tokenize.py\<close> is \<open>fake_count\<close>, and \<open>trim_counter\<close> is what the budget
  accounting needs of a counter.
\<close>

type_synonym token_counter = "string \<Rightarrow> nat"

definition CLIP_CONTRACT :: string where
  "CLIP_CONTRACT = ''anchor-preserving-v1''"

record clip_decision =
  dc_text :: string
  dc_clipped :: bool
  dc_clip :: "evidence_clip_info option"
  dc_evidence_unit_id :: string
  dc_token_count :: nat

subsection \<open>int(x)\<close>

text \<open>
  \<open>int(s)\<close> of a string: white space around, an optional sign, decimal digits with single
  underscores between them, at most 4300 digits.
\<close>

fun digits_ok :: "string \<Rightarrow> bool" where
  "digits_ok [] \<longleftrightarrow> False"
| "digits_ok [c] \<longleftrightarrow> is_digit c"
| "digits_ok (c # d # cs) \<longleftrightarrow> is_digit c \<and>
     (if d = CHR ''_'' then digits_ok cs else digits_ok (d # cs))"

definition int_of_digits :: "string \<Rightarrow> int option" where
  "int_of_digits s = (let ds = filter (\<lambda>c. c \<noteq> CHR ''_'') s in
     if digits_ok s \<and> length ds \<le> 4300 then Some (int (nat_of_digits ds)) else None)"

definition int_of_str :: "string \<Rightarrow> int option" where
  "int_of_str s = (case trim s of
     [] \<Rightarrow> None
   | c # cs \<Rightarrow>
       if c = CHR ''-'' then map_option uminus (int_of_digits cs)
       else if c = CHR ''+'' then int_of_digits cs
       else int_of_digits (c # cs))"

fun py_int :: "json \<Rightarrow> context_exc + int" where
  "py_int (JInt i) = Inr i"
| "py_int (JBool b) = Inr (if b then 1 else 0)"
| "py_int (JFloat q) = Inr (if q < 0 then - \<lfloor>- q\<rfloor> else \<lfloor>q\<rfloor>)"
| "py_int (JStr s) = (case int_of_str s of None \<Rightarrow> Inl Conversion_Error | Some i \<Rightarrow> Inr i)"
| "py_int _ = Inl Conversion_Error"

subsection \<open>Locating the anchor\<close>

lemma py_find_bounds: "py_find pat text start = Some i \<Longrightarrow> start \<le> i \<and> i \<le> length text"
  by (auto simp: occurs_at_def dest: py_find_Some)

function occurrences :: "string \<Rightarrow> string \<Rightarrow> nat \<Rightarrow> nat list" where
  "occurrences pat text start_at =
     (case py_find pat text start_at of
        None \<Rightarrow> []
      | Some found \<Rightarrow> found # occurrences pat text (found + 1))"
  by pat_completeness auto
termination
  by (relation "measure (\<lambda>(pat, text, start). Suc (length text) - start)")
    (auto dest: py_find_bounds)

declare occurrences.simps [simp del]

definition span_from_metadata :: "chunk \<Rightarrow> chunk \<Rightarrow> json \<Rightarrow> json \<Rightarrow> context_exc + nat \<times> nat" where
  "span_from_metadata parent anchor a b =
     bind_res (py_int a) (\<lambda>start. bind_res (py_int b) (\<lambda>end'.
       if \<not> (0 \<le> start \<and> start < end' \<and> end' \<le> int (length (ck_text parent))) then
         Inl (Context_Structure_Error (''anchor '' @ ck_chunk_id anchor @
           '' metadata parent span out of range''))
       else if py_slice (ck_text parent) (nat start) (nat end') \<noteq> ck_text anchor then
         Inl (Context_Structure_Error (''anchor '' @ ck_chunk_id anchor @
           '' metadata span does not match parent text''))
       else Inr (nat start, nat end')))"

definition span_from_search :: "chunk \<Rightarrow> chunk \<Rightarrow> context_exc + nat \<times> nat" where
  "span_from_search parent anchor =
     (case occurrences (ck_text anchor) (ck_text parent) 0 of
        [] \<Rightarrow> Inl (Context_Structure_Error (''anchor '' @ ck_chunk_id anchor @
          '' text not found in parent '' @ ck_chunk_id parent))
      | [start] \<Rightarrow> Inr (start, start + length (ck_text anchor))
      | found \<Rightarrow> Inl (Context_Structure_Error (''anchor '' @ ck_chunk_id anchor @ '' text occurs '' @
          str_nat (length found) @ '' times in parent '' @ ck_chunk_id parent @
          ''; structural disambiguation required'')))"

definition locate_anchor_in_parent :: "chunk \<Rightarrow> chunk \<Rightarrow> context_exc + nat \<times> nat" where
  "locate_anchor_in_parent parent anchor =
     (if ck_text anchor = [] then
        Inl (Context_Structure_Error (''anchor '' @ ck_chunk_id anchor @ '' has empty text''))
      else (case (map_of (ck_metadata anchor) ''parent_char_start'',
                  map_of (ck_metadata anchor) ''parent_char_end'') of
          (Some a, Some b) \<Rightarrow> span_from_metadata parent anchor a b
        | _ \<Rightarrow> span_from_search parent anchor))"

subsection \<open>Identities of evidence units\<close>

definition full_evidence_unit_id :: "digest \<Rightarrow> (pyfloat \<Rightarrow> string) \<Rightarrow> string \<Rightarrow> string" where
  "full_evidence_unit_id sha fr source_chunk_id = evidence_unit_id_from_payload sha fr
     (JObj [(''source_chunk_id'', JStr source_chunk_id), (''representation'', JStr ''full'')])"

definition clipped_evidence_unit_id ::
    "digest \<Rightarrow> (pyfloat \<Rightarrow> string) \<Rightarrow> string \<Rightarrow> nat \<Rightarrow> nat \<Rightarrow> string \<Rightarrow> string" where
  "clipped_evidence_unit_id sha fr source_chunk_id start_char end_char text =
     evidence_unit_id_from_payload sha fr (JObj
       [(''source_chunk_id'', JStr source_chunk_id), (''representation'', JStr ''clipped''),
        (''clip_contract'', JStr CLIP_CONTRACT), (''start_char'', JInt (int start_char)),
        (''end_char'', JInt (int end_char)), (''text_hash'', JStr (text_content_hash sha text))])"

lemma ev_id_nonblank:
  "nonblank (full_evidence_unit_id sha fr i)" "nonblank (clipped_evidence_unit_id sha fr i a b t)"
proof -
  have "CHR ''e'' \<in> set (evidence_unit_id_from_payload sha fr p)" "\<not> py_isspace (CHR ''e'')" for p
    by (simp_all add: evidence_unit_id_from_payload_def hashed_def py_isspace_def)
  then show "nonblank (full_evidence_unit_id sha fr i)" "nonblank (clipped_evidence_unit_id sha fr i a b t)"
    unfolding nonblank_iff full_evidence_unit_id_def clipped_evidence_unit_id_def by blast+
qed

subsection \<open>Emitting a parent\<close>

definition joined :: "string \<Rightarrow> string \<Rightarrow> string" where
  "joined existing text = (if existing \<noteq> [] then existing @ [CHR 0x0A, CHR 0x0A] @ text else text)"

definition rendered_count :: "token_counter \<Rightarrow> string \<Rightarrow> string \<Rightarrow> nat" where
  "rendered_count cnt existing candidate_text =
     (if existing \<noteq> [] then cnt (existing @ [CHR 0x0A, CHR 0x0A] @ candidate_text)
      else cnt candidate_text)"

text \<open>One round of the growing loop: one character to the left if it fits, then one to the right.\<close>

definition grow_step :: "(string \<Rightarrow> bool) \<Rightarrow> string \<Rightarrow> nat \<times> nat \<Rightarrow> nat \<times> nat" where
  "grow_step fits text se = (case se of (start, end') \<Rightarrow>
     let start' = (if 0 < start \<and> fits (py_slice text (start - 1) end') then start - 1 else start);
         end'' = (if end' < length text \<and> fits (py_slice text start' (end' + 1)) then end' + 1 else end')
     in (start', end''))"

lemma grow_step_bounds:
  "grow_step fits text (s, e) = (s', e') \<Longrightarrow>
     s' \<le> s \<and> e \<le> e' \<and> (e \<le> length text \<longrightarrow> e' \<le> length text) \<and>
     ((s', e') \<noteq> (s, e) \<longrightarrow> s' + (length text - e') < s + (length text - e))"
  by (auto simp: grow_step_def Let_def split: if_splits)

function grow :: "(string \<Rightarrow> bool) \<Rightarrow> string \<Rightarrow> nat \<times> nat \<Rightarrow> nat \<times> nat" where
  "grow fits text se =
     (let se' = grow_step fits text se in if se' = se then se else grow fits text se')"
  by pat_completeness auto
termination
proof (relation "measure (\<lambda>(fits, text, (s, e)). s + (length text - e))")
  fix fits and tx :: string and se x :: "nat \<times> nat"
  assume "x = grow_step fits tx se" "x \<noteq> se"
  then show "((fits, tx, x), fits, tx, se) \<in> measure (\<lambda>(fits, text, (s, e)). s + (length text - e))"
    using grow_step_bounds [of fits tx "fst se" "snd se" "fst x" "snd x"]
    by (cases se; cases x) (auto simp: case_prod_beta)
qed simp

declare grow.simps [simp del]

definition clip_of :: "token_counter \<Rightarrow> string \<Rightarrow> nat \<times> nat \<Rightarrow> nat \<times> nat \<Rightarrow> evidence_clip_info" where
  "clip_of cnt text anchor_span win =
     \<lparr>cl_contract = CLIP_CONTRACT, cl_start_char = fst win, cl_end_char = snd win,
      cl_anchor_start_char = fst anchor_span, cl_anchor_end_char = snd anchor_span,
      cl_original_token_count = cnt text,
      cl_emitted_token_count = cnt (py_slice text (fst win) (snd win))\<rparr>"

definition clipped_decision ::
    "digest \<Rightarrow> (pyfloat \<Rightarrow> string) \<Rightarrow> token_counter \<Rightarrow> chunk \<Rightarrow> nat \<times> nat \<Rightarrow> nat \<times> nat \<Rightarrow> clip_decision" where
  "clipped_decision sha fr cnt parent anchor_span win =
     (let excerpt = py_slice (ck_text parent) (fst win) (snd win) in
      \<lparr>dc_text = excerpt, dc_clipped = True,
       dc_clip = Some (clip_of cnt (ck_text parent) anchor_span win),
       dc_evidence_unit_id =
         clipped_evidence_unit_id sha fr (ck_chunk_id parent) (fst win) (snd win) excerpt,
       dc_token_count = cnt excerpt\<rparr>)"

definition full_decision ::
    "digest \<Rightarrow> (pyfloat \<Rightarrow> string) \<Rightarrow> token_counter \<Rightarrow> chunk \<Rightarrow> clip_decision" where
  "full_decision sha fr cnt parent =
     \<lparr>dc_text = ck_text parent, dc_clipped = False, dc_clip = None,
      dc_evidence_unit_id = full_evidence_unit_id sha fr (ck_chunk_id parent),
      dc_token_count = cnt (ck_text parent)\<rparr>"

definition try_emit_parent ::
    "digest \<Rightarrow> (pyfloat \<Rightarrow> string) \<Rightarrow> token_counter \<Rightarrow> nat \<Rightarrow> string \<Rightarrow> chunk \<Rightarrow> chunk \<Rightarrow>
     context_exc + clip_decision option" where
  "try_emit_parent sha fr cnt max_context_tokens existing parent anchor =
     (let fits = (\<lambda>t. rendered_count cnt existing t \<le> max_context_tokens) in
      if fits (ck_text parent) then Inr (Some (full_decision sha fr cnt parent))
      else bind_res (locate_anchor_in_parent parent anchor) (\<lambda>win.
        if \<not> fits (py_slice (ck_text parent) (fst win) (snd win)) then Inr None
        else Inr (Some (clipped_decision sha fr cnt parent win
               (grow fits (ck_text parent) win)))))"

definition make_parent_evidence_unit ::
    "chunk \<Rightarrow> clip_decision \<Rightarrow> string \<Rightarrow> string list \<Rightarrow> context_exc + evidence_unit" where
  "make_parent_evidence_unit parent decision primary_anchor_chunk_id contributing = mk_evidence_unit
     \<lparr>eu_evidence_unit_id = dc_evidence_unit_id decision, eu_source_chunk_id = ck_chunk_id parent,
      eu_kind = Parent_Unit, eu_text = dc_text decision, eu_clipped = dc_clipped decision,
      eu_token_count = dc_token_count decision,
      eu_primary_anchor_chunk_id = primary_anchor_chunk_id,
      eu_contributing_anchor_chunk_ids = contributing, eu_document_id = ck_document_id parent,
      eu_parent_chunk_id = None, eu_section_path = ck_section_path parent,
      eu_page_start = ck_page_start parent, eu_page_end = ck_page_end parent,
      eu_line_start = ck_line_start parent, eu_line_end = ck_line_end parent,
      eu_clip = dc_clip decision, eu_relationship = None, eu_distance = None\<rparr>"

definition make_child_evidence_unit ::
    "digest \<Rightarrow> (pyfloat \<Rightarrow> string) \<Rightarrow> token_counter \<Rightarrow> chunk \<Rightarrow> string \<Rightarrow> string list \<Rightarrow>
     string option \<Rightarrow> nat option \<Rightarrow> context_exc + evidence_unit" where
  "make_child_evidence_unit sha fr cnt child primary_anchor_chunk_id contributing relationship
       distance = mk_evidence_unit
     \<lparr>eu_evidence_unit_id = full_evidence_unit_id sha fr (ck_chunk_id child),
      eu_source_chunk_id = ck_chunk_id child, eu_kind = Child_Unit, eu_text = ck_text child,
      eu_clipped = False, eu_token_count = cnt (ck_text child),
      eu_primary_anchor_chunk_id = primary_anchor_chunk_id,
      eu_contributing_anchor_chunk_ids = contributing, eu_document_id = ck_document_id child,
      eu_parent_chunk_id = ck_parent_chunk_id child, eu_section_path = ck_section_path child,
      eu_page_start = ck_page_start child, eu_page_end = ck_page_end child,
      eu_line_start = ck_line_start child, eu_line_end = ck_line_end child, eu_clip = None,
      eu_relationship = relationship, eu_distance = distance\<rparr>"

definition candidate_fits :: "token_counter \<Rightarrow> nat \<Rightarrow> string \<Rightarrow> string \<Rightarrow> bool" where
  "candidate_fits cnt max_context_tokens existing new_text \<longleftrightarrow>
     (if existing \<noteq> [] then
        cnt (existing @ [CHR 0x0A, CHR 0x0A] @ new_text) \<le> max_context_tokens
      else cnt new_text \<le> max_context_tokens)"

subsection \<open>Searching and growing\<close>

lemma occurrences_set: "set (occurrences pat tx s) = {i. s \<le> i \<and> occurs_at pat tx i}"
proof (induction pat tx s rule: occurrences.induct)
  case (1 pat tx s)
  show ?case
  proof (cases "py_find pat tx s")
    case None
    then show ?thesis by (subst occurrences.simps) (auto dest: py_find_None)
  next
    case (Some i)
    note f = py_find_Some [OF Some]
    have "{j. s \<le> j \<and> occurs_at pat tx j} = insert i {j. i + 1 \<le> j \<and> occurs_at pat tx j}"
      using f by (auto simp: Suc_le_eq) (metis linorder_neqE_nat)
    with 1 [OF Some] Some show ?thesis by (subst occurrences.simps) simp
  qed
qed

lemma occurrences_distinct: "distinct (occurrences pat tx s)"
proof (induction pat tx s rule: occurrences.induct)
  case (1 pat tx s)
  then show ?case
    by (subst occurrences.simps) (auto simp: occurrences_set split: option.split)
qed

lemma occurrences_single:
  "occurrences pat tx 0 = [i] \<longleftrightarrow> (\<forall>j. occurs_at pat tx j \<longleftrightarrow> j = i)"
proof
  assume "occurrences pat tx 0 = [i]"
  then show "\<forall>j. occurs_at pat tx j \<longleftrightarrow> j = i"
    using occurrences_set [of pat tx 0] by (auto simp: set_eq_iff)
next
  assume "\<forall>j. occurs_at pat tx j \<longleftrightarrow> j = i"
  then have "set (occurrences pat tx 0) = {i}" by (auto simp: occurrences_set)
  with occurrences_distinct [of pat tx 0] show "occurrences pat tx 0 = [i]"
    by (cases "occurrences pat tx 0"; cases "tl (occurrences pat tx 0)") auto
qed

definition plain_metadata :: "chunk \<Rightarrow> bool" where
  "plain_metadata c \<longleftrightarrow> map_of (ck_metadata c) ''parent_char_start'' = None \<or>
     map_of (ck_metadata c) ''parent_char_end'' = None"

lemma span_from_search_Inr:
  "span_from_search p a = Inr se \<longleftrightarrow>
     (\<exists>s. occurrences (ck_text a) (ck_text p) 0 = [s] \<and> se = (s, s + length (ck_text a)))"
  by (auto simp: span_from_search_def split: list.splits)

lemma locate_Inr:
  assumes "locate_anchor_in_parent p a = Inr (s, e)"
  shows "s < e \<and> e \<le> length (ck_text p) \<and> py_slice (ck_text p) s e = ck_text a"
proof -
  from assms have ne: "ck_text a \<noteq> []" by (auto simp: locate_anchor_in_parent_def)
  from assms consider "span_from_search p a = Inr (s, e)"
    | x y where "span_from_metadata p a x y = Inr (s, e)"
    by (auto simp: locate_anchor_in_parent_def split: if_splits option.splits)
  then show ?thesis
  proof cases
    case 1
    then have "occurs_at (ck_text a) (ck_text p) s" and "e = s + length (ck_text a)"
      by (auto simp: span_from_search_Inr occurrences_single)
    with ne show ?thesis by (auto simp: occurs_at_def)
  next
    case 2
    then show ?thesis by (auto simp: span_from_metadata_def bind_res_Inr_iff split: if_splits)
  qed
qed

definition maximal_span :: "(string \<Rightarrow> bool) \<Rightarrow> string \<Rightarrow> nat \<times> nat \<Rightarrow> bool" where
  "maximal_span fits text se \<longleftrightarrow> (case se of (s, e) \<Rightarrow>
     (s = 0 \<or> \<not> fits (py_slice text (s - 1) e)) \<and>
     (e = length text \<or> \<not> fits (py_slice text s (e + 1))))"

lemma grow_inv:
  assumes "fits (py_slice tx (fst se) (snd se))" and "snd se \<le> length tx"
  shows "fits (py_slice tx (fst (grow fits tx se)) (snd (grow fits tx se))) \<and>
    fst (grow fits tx se) \<le> fst se \<and> snd se \<le> snd (grow fits tx se) \<and>
    snd (grow fits tx se) \<le> length tx \<and> maximal_span fits tx (grow fits tx se)"
  using assms
proof (induction fits tx se rule: grow.induct)
  case (1 fits tx se)
  obtain s e where se: "se = (s, e)" by fastforce
  obtain s' e' where g: "grow_step fits tx (s, e) = (s', e')" by fastforce
  show ?case
  proof (cases "(s', e') = (s, e)")
    case True
    with g have "maximal_span fits tx (s, e)" using 1(3)
      by (auto simp: se grow_step_def maximal_span_def Let_def split: if_splits)
    moreover have "grow fits tx (s, e) = (s, e)" using True g by (subst grow.simps) simp
    ultimately show ?thesis using 1(2,3) by (simp add: se)
  next
    case False
    from g 1(2) have "fits (py_slice tx s' e')"
      by (auto simp: se grow_step_def Let_def split: if_splits)
    moreover have "grow fits tx (s, e) = grow fits tx (s', e')"
      by (subst grow.simps) (simp only: g False Let_def if_False)
    ultimately show ?thesis
      using 1(1) [of "(s', e')"] g False grow_step_bounds [OF g] 1(3) by (simp add: se)
  qed
qed

subsection \<open>Counters\<close>

text \<open>\<open>text.split()\<close>\<close>

function py_split :: "string \<Rightarrow> string list" where
  "py_split s = (case dropWhile py_isspace s of
     [] \<Rightarrow> []
   | c # cs \<Rightarrow> takeWhile (\<lambda>x. \<not> py_isspace x) (c # cs) #
               py_split (dropWhile (\<lambda>x. \<not> py_isspace x) (c # cs)))"
  by pat_completeness auto
termination
proof (relation "measure length")
  fix s and c :: char and cs
  assume a: "dropWhile py_isspace s = c # cs"
  then have "\<not> py_isspace c" by (metis hd_dropWhile list.sel(1) list.distinct(1))
  then have "length (dropWhile (\<lambda>x. \<not> py_isspace x) (c # cs)) \<le> length cs"
    using length_dropWhile_le [of "\<lambda>x. \<not> py_isspace x" cs] by simp
  moreover have "length (c # cs) \<le> length s" by (metis a length_dropWhile_le)
  ultimately show "(dropWhile (\<lambda>x. \<not> py_isspace x) (c # cs), s) \<in> measure length" by simp
qed simp

declare py_split.simps [simp del]

text \<open>\<open>FakeTokenCounter.count\<close>\<close>

definition fake_count :: token_counter where
  "fake_count s = max (length (filter (\<lambda>p. p \<noteq> []) (py_split s))) (if py_strip s \<noteq> [] then 1 else 0)"

text \<open>The words counted at their first characters; \<open>sp\<close>: the previous character was white space.\<close>

fun word_starts :: "bool \<Rightarrow> string \<Rightarrow> nat" where
  "word_starts sp [] = 0"
| "word_starts sp (c # cs) =
     (if sp \<and> \<not> py_isspace c then 1 else 0) + word_starts (py_isspace c) cs"

lemma word_starts_append:
  "word_starts sp (s @ t) = word_starts sp s +
     word_starts (if s = [] then sp else py_isspace (last s)) t"
  by (induction s arbitrary: sp) auto

lemma word_starts_spaces: "\<forall>c \<in> set s. py_isspace c \<Longrightarrow> word_starts sp s = 0"
  by (induction s arbitrary: sp) auto

lemma word_starts_drop: "word_starts True (dropWhile py_isspace s) = word_starts True s"
  by (induction s) auto

lemma word_starts_word:
  "\<forall>c \<in> set w. \<not> py_isspace c \<Longrightarrow> word_starts False w = 0"
  by (induction w) auto

lemma word_starts_rest:
  "word_starts sp (dropWhile (\<lambda>x. \<not> py_isspace x) s) =
   word_starts True (dropWhile (\<lambda>x. \<not> py_isspace x) s)"
  by (induction s) auto

lemma py_split_words: "length (py_split s) = word_starts True s \<and> [] \<notin> set (py_split s)"
proof (induction s rule: py_split.induct)
  case (1 s)
  show ?case
  proof (cases "dropWhile py_isspace s")
    case Nil
    then have "word_starts True s = 0" by (simp add: word_starts_spaces)
    moreover have "py_split s = []" by (subst py_split.simps) (simp only: Nil list.case)
    ultimately show ?thesis by simp
  next
    case (Cons c cs)
    let ?w = "takeWhile (\<lambda>x. \<not> py_isspace x) (c # cs)"
    let ?r = "dropWhile (\<lambda>x. \<not> py_isspace x) (c # cs)"
    have c: "\<not> py_isspace c" by (metis Cons hd_dropWhile list.sel(1) list.distinct(1))
    have "word_starts True s = word_starts True (c # cs)"
      using word_starts_drop [of s] by (simp add: Cons)
    also have "\<dots> = word_starts True (?w @ ?r)" by (simp only: takeWhile_dropWhile_id)
    also have "\<dots> = word_starts True ?w + word_starts True ?r"
      by (subst word_starts_append, subst word_starts_rest, rule refl)
    also have "word_starts True ?w = 1"
    proof -
      have "\<forall>x \<in> set (takeWhile (\<lambda>x. \<not> py_isspace x) cs). \<not> py_isspace x"
        by (blast dest: set_takeWhileD)
      from word_starts_word [OF this] c show ?thesis by simp
    qed
    finally have "word_starts True s = 1 + word_starts True ?r" .
    moreover have "py_split s = ?w # py_split ?r"
      by (subst py_split.simps) (simp only: Cons list.case)
    moreover have "?w \<noteq> []" using c by simp
    ultimately show ?thesis using 1 [OF Cons] by (simp del: takeWhile.simps dropWhile.simps)
  qed
qed

lemma word_starts_pos: "py_strip s \<noteq> [] \<Longrightarrow> 1 \<le> word_starts True s"
proof -
  assume "py_strip s \<noteq> []"
  then have "dropWhile py_isspace s \<noteq> []" by (metis py_strip_def rev.simps(1) dropWhile.simps(1) strip_by_def)
  then obtain c cs where "dropWhile py_isspace s = c # cs" by (cases "dropWhile py_isspace s") auto
  moreover from this have "\<not> py_isspace c" by (metis hd_dropWhile list.sel(1) list.distinct(1))
  ultimately have "1 \<le> word_starts True (dropWhile py_isspace s)" by simp
  then show ?thesis by (simp add: word_starts_drop)
qed

lemma fake_count_words: "fake_count s = word_starts True s"
proof -
  have "filter (\<lambda>p. p \<noteq> []) (py_split s) = py_split s"
    using py_split_words [of s] by (auto simp: filter_id_conv)
  with py_split_words [of s] have "fake_count s = max (word_starts True s) (if py_strip s \<noteq> [] then 1 else 0)"
    by (simp add: fake_count_def)
  with word_starts_pos [of s] show ?thesis by (cases "py_strip s = []") simp_all
qed

text \<open>
  A counter that never counts more after surrounding white space is stripped off the last text of
  a context; and what follows for the budget.
\<close>

locale trim_counter =
  fixes cnt :: token_counter
  assumes trim_law: "cnt (joined e (trim t)) \<le> cnt (joined e t)"
begin

lemma unit_fits: "rendered_count cnt e t \<le> m \<Longrightarrow> cnt (joined e (trim t)) \<le> m"
  using trim_law [of e t] by (simp add: rendered_count_def joined_def split: if_splits)

end

lemma strip_by_split:
  obtains l r where "s = l @ strip_by p s @ r" and "\<forall>c \<in> set l. p c" and "\<forall>c \<in> set r. p c"
proof -
  let ?l = "takeWhile p s" and ?r = "rev (takeWhile p (rev (dropWhile p s)))"
  have "s = ?l @ strip_by p s @ ?r" using strip_by_prefix [of p s] by simp
  moreover have "\<forall>c \<in> set ?l. p c" "\<forall>c \<in> set ?r. p c" by (auto dest: set_takeWhileD)
  ultimately show ?thesis using that by blast
qed

lemma word_starts_trim: "word_starts True (trim t) = word_starts True t"
proof -
  obtain l r where t: "t = l @ trim t @ r" and l: "\<forall>c \<in> set l. py_isspace c"
    and r: "\<forall>c \<in> set r. py_isspace c"
    using strip_by_split [of t uni_isspace] uni_py_isspace unfolding trim_def by metis
  have "word_starts True t = word_starts True (l @ trim t @ r)" using t by simp
  also have "\<dots> = word_starts True (trim t)"
    using l by (auto simp: word_starts_append word_starts_spaces [OF l] word_starts_spaces [OF r])
  finally show ?thesis by simp
qed

interpretation fake: trim_counter fake_count
proof
  fix e t
  have "py_isspace (CHR 0x0A)" by (simp add: py_isspace_def)
  then show "fake_count (joined e (trim t)) \<le> fake_count (joined e t)"
    by (simp add: fake_count_words joined_def word_starts_append word_starts_trim)
qed

subsection \<open>Trimming keeps the anchor\<close>

lemma dropWhile_keep:
  "a \<noteq> [] \<Longrightarrow> \<not> p (hd a) \<Longrightarrow> dropWhile p (x @ a @ y) = dropWhile p x @ a @ y"
proof (induction x)
  case Nil
  then show ?case by (cases a) auto
qed auto

lemma strip_by_keep:
  assumes "a \<noteq> []" "\<not> p (hd a)" "\<not> p (last a)"
  shows "strip_by p (x @ a @ y) = dropWhile p x @ a @ rev (dropWhile p (rev y))"
proof -
  have "dropWhile p (rev y @ rev a @ rev (dropWhile p x)) =
      dropWhile p (rev y) @ rev a @ rev (dropWhile p x)"
    using assms by (intro dropWhile_keep) (simp_all add: hd_rev)
  moreover have "dropWhile p (x @ a @ y) = dropWhile p x @ a @ y"
    using assms by (intro dropWhile_keep)
  ultimately show ?thesis by (simp add: strip_by_def)
qed

lemma slice_split:
  assumes "s \<le> i" "i \<le> e"
  shows "py_slice t s e = py_slice t s i @ py_slice t i e"
proof -
  have "e - s = (i - s) + (e - i)" using assms by simp
  then have "take (e - s) (drop s t) = take (i - s) (drop s t) @ take (e - i) (drop (i - s) (drop s t))"
    by (simp only: take_add)
  with assms show ?thesis by (simp add: py_slice_def)
qed

lemma occurs_mid: "occurs_at a (x @ a @ y) (length x)"
  by (simp add: occurs_at_take)

lemma clipped_decision_sel [simp]:
  "dc_text (clipped_decision sha fr cnt p w0 w) = py_slice (ck_text p) (fst w) (snd w)"
  "dc_clipped (clipped_decision sha fr cnt p w0 w)"
  "dc_clip (clipped_decision sha fr cnt p w0 w) = Some (clip_of cnt (ck_text p) w0 w)"
  by (simp_all add: clipped_decision_def Let_def)

lemma try_emit_cases:
  fixes sha fr cnt m ex p a
  defines "fits \<equiv> \<lambda>t. rendered_count cnt ex t \<le> m"
  shows "case try_emit_parent sha fr cnt m ex p a of
      Inl e \<Rightarrow> \<not> fits (ck_text p) \<and> locate_anchor_in_parent p a = Inl e
    | Inr None \<Rightarrow> \<not> fits (ck_text p) \<and>
        (\<exists>s e. locate_anchor_in_parent p a = Inr (s, e) \<and> \<not> fits (py_slice (ck_text p) s e))
    | Inr (Some d) \<Rightarrow>
        (if dc_clipped d then \<not> fits (ck_text p) \<and>
           (\<exists>s e s0 e0. locate_anchor_in_parent p a = Inr (s0, e0) \<and> s \<le> s0 \<and> e0 \<le> e \<and>
              e \<le> length (ck_text p) \<and> dc_text d = py_slice (ck_text p) s e \<and> fits (dc_text d) \<and>
              maximal_span fits (ck_text p) (s, e) \<and>
              d = clipped_decision sha fr cnt p (s0, e0) (s, e))
         else fits (ck_text p) \<and> d = full_decision sha fr cnt p)"
proof (cases "fits (ck_text p)")
  case True
  then show ?thesis by (simp add: try_emit_parent_def fits_def full_decision_def)
next
  case no: False
  show ?thesis
  proof (cases "locate_anchor_in_parent p a")
    case (Inl e)
    with no show ?thesis by (simp add: try_emit_parent_def fits_def)
  next
    case (Inr w)
    obtain s0 e0 where w: "w = (s0, e0)" by fastforce
    show ?thesis
    proof (cases "fits (py_slice (ck_text p) s0 e0)")
      case False
      with no Inr w show ?thesis by (auto simp: try_emit_parent_def fits_def)
    next
      case True
      obtain s e where g: "grow fits (ck_text p) w = (s, e)" by fastforce
      from locate_Inr [of p a s0 e0] Inr w have "e0 \<le> length (ck_text p)" by simp
      with grow_inv [of fits "ck_text p" w] True w g
      have i: "fits (py_slice (ck_text p) s e)" "s \<le> s0" "e0 \<le> e" "e \<le> length (ck_text p)"
        "maximal_span fits (ck_text p) (s, e)" by simp_all
      have "try_emit_parent sha fr cnt m ex p a = Inr (Some (clipped_decision sha fr cnt p (s0, e0) (s, e)))"
        using no Inr True w g by (simp add: try_emit_parent_def fits_def)
      with no Inr w i show ?thesis by auto
    qed
  qed
qed

subsection \<open>Properties\<close>

text \<open>The anchor is located at \<open>[s, e)\<close> exactly when its text is not empty and either its metadata
  name both ends and these are the bounds of an occurrence, or they do not and the text occurs in
  the parent exactly once, at \<open>s\<close>.\<close>

theorem locate_anchor_exact:
  "(locate_anchor_in_parent p a = Inr (s, e)) =
     (ck_text a \<noteq> [] \<and>
      (case (map_of (ck_metadata a) ''parent_char_start'', map_of (ck_metadata a) ''parent_char_end'') of
         (Some x, Some y) \<Rightarrow> py_int x = Inr (int s) \<and> py_int y = Inr (int e) \<and> s < e \<and>
            e \<le> length (ck_text p) \<and> py_slice (ck_text p) s e = ck_text a
       | _ \<Rightarrow> e = s + length (ck_text a) \<and>
            (\<forall>j. occurs_at (ck_text a) (ck_text p) j = (j = s))))"
proof -
  have m: "span_from_metadata p a x y = Inr (s, e) \<longleftrightarrow> py_int x = Inr (int s) \<and>
      py_int y = Inr (int e) \<and> s < e \<and> e \<le> length (ck_text p) \<and> py_slice (ck_text p) s e = ck_text a"
    for x y
    by (cases "py_int x"; cases "py_int y") (auto simp: span_from_metadata_def)
  have f: "span_from_search p a = Inr (s, e) \<longleftrightarrow> e = s + length (ck_text a) \<and>
      (\<forall>j. occurs_at (ck_text a) (ck_text p) j = (j = s))"
    by (auto simp: span_from_search_Inr occurrences_single)
  show ?thesis
    by (auto simp: locate_anchor_in_parent_def m f split: option.splits)
qed

text \<open>C20: Emitting a parent, every case: it is emitted whole when it fits; otherwise an error is the error of
  locating the anchor, nothing is emitted exactly when the anchor alone does not fit, and else the
  excerpt holds the anchor, fits, and cannot be extended by one character on either side.\<close>

theorem try_emit_parent_exact:
  "case try_emit_parent sha fr cnt m ex p a of
      Inl e \<Rightarrow> m < rendered_count cnt ex (ck_text p) \<and> locate_anchor_in_parent p a = Inl e
    | Inr None \<Rightarrow> m < rendered_count cnt ex (ck_text p) \<and>
        (\<exists>s e. locate_anchor_in_parent p a = Inr (s, e) \<and> m < rendered_count cnt ex (ck_text a))
    | Inr (Some d) \<Rightarrow>
        (if dc_clipped d then m < rendered_count cnt ex (ck_text p) \<and>
           (\<exists>s e s0 e0. locate_anchor_in_parent p a = Inr (s0, e0) \<and> s \<le> s0 \<and> e0 \<le> e \<and>
              e \<le> length (ck_text p) \<and> dc_text d = py_slice (ck_text p) s e \<and>
              rendered_count cnt ex (dc_text d) \<le> m \<and>
              maximal_span (\<lambda>t. rendered_count cnt ex t \<le> m) (ck_text p) (s, e))
         else rendered_count cnt ex (ck_text p) \<le> m \<and> dc_text d = ck_text p)"
proof (cases "try_emit_parent sha fr cnt m ex p a")
  case (Inl e)
  with try_emit_cases [where sha = sha and fr = fr and cnt = cnt and m = m and ex = ex and p = p and a = a] show ?thesis by (simp add: not_le)
next
  case (Inr r)
  show ?thesis
  proof (cases r)
    case None
    with Inr try_emit_cases [where sha = sha and fr = fr and cnt = cnt and m = m and ex = ex and p = p and a = a] obtain s e where
      "m < rendered_count cnt ex (ck_text p)" "locate_anchor_in_parent p a = Inr (s, e)"
      "m < rendered_count cnt ex (py_slice (ck_text p) s e)"
      by (auto simp: not_le)
    with Inr None locate_Inr [of p a s e] show ?thesis by simp
  next
    case (Some d)
    with Inr try_emit_cases [where sha = sha and fr = fr and cnt = cnt and m = m and ex = ex and p = p and a = a] show ?thesis
      by (cases "dc_clipped d") (fastforce simp: not_le full_decision_def)+
  qed
qed

text \<open>C21: A clipped evidence unit carries the excerpt its clip offsets name without the white space around
  it, and the text of the anchor is still in it. (The offsets, the emitted token count and the
  identity are those of the excerpt before stripping, so they need not address the unit's text.)\<close>

theorem clipped_unit_text:
  assumes "try_emit_parent sha fr cnt m ex p a = Inr (Some d)" and "dc_clipped d"
    and "make_parent_evidence_unit p d prim contributing = Inr u"
    and "wf_chunk a"
  shows "\<exists>c i. eu_clip u = Some c \<and>
    eu_text u = trim (py_slice (ck_text p) (cl_start_char c) (cl_end_char c)) \<and>
    occurs_at (ck_text a) (eu_text u) i"
proof -
  from try_emit_cases [where sha = sha and fr = fr and cnt = cnt and m = m and ex = ex and p = p and a = a] assms(1,2) obtain s e s0 e0 where
    l: "locate_anchor_in_parent p a = Inr (s0, e0)" and le: "s \<le> s0" "e0 \<le> e" "e \<le> length (ck_text p)"
    and d: "d = clipped_decision sha fr cnt p (s0, e0) (s, e)"
    by auto
  from locate_Inr [OF l] have sl: "s0 \<le> e0" "py_slice (ck_text p) s0 e0 = ck_text a" by simp_all
  have u: "eu_text u = trim (dc_text d)" "eu_clip u = dc_clip d"
    using mk_evidence_unit_InrD [OF assms(3) [unfolded make_parent_evidence_unit_def]] by simp_all
  have wf: "ck_text a \<noteq> []" "\<not> uni_isspace (hd (ck_text a))" "\<not> uni_isspace (last (ck_text a))"
    using assms(4) strip_by_hd [of uni_isspace "ck_text a"] strip_by_last [of uni_isspace "ck_text a"]
    by (auto simp: wf_chunk_def is_nonempty_str_iff trim_def)
  have "py_slice (ck_text p) s e = py_slice (ck_text p) s s0 @ ck_text a @ py_slice (ck_text p) e0 e"
    using slice_split [of s s0 e "ck_text p"] slice_split [of s0 e0 e "ck_text p"] le sl by simp
  with strip_by_keep [where p = uni_isspace, OF wf] occurs_mid
  have "\<exists>i. occurs_at (ck_text a) (trim (py_slice (ck_text p) s e)) i"
    by (metis trim_def)
  then show ?thesis by (simp add: u d clip_of_def)
qed

definition clip_parent :: chunk where
  "clip_parent = sample_parent\<lparr>ck_text := ''aa bb''\<rparr>"

definition clip_anchor :: chunk where
  "clip_anchor = sample_child\<lparr>ck_text := ''bb''\<rparr>"

lemma clip_sample_located: "locate_anchor_in_parent clip_parent clip_anchor = Inr (3, 5)"
proof -
  have "occurrences ''bb'' ''aa bb'' 0 = [3]"
    by (simp add: occurrences.simps py_find_def)
  then show ?thesis
    by (simp add: locate_anchor_in_parent_def span_from_search_def clip_parent_def clip_anchor_def
        sample_parent_def sample_child_def)
qed

lemma clip_sample_grown:
  "grow (\<lambda>t. rendered_count fake_count [] t \<le> 1) ''aa bb'' (3, 5) = (2, 5)"
  by (simp add: grow.simps grow_step_def rendered_count_def fake_count_words py_slice_def
      py_isspace_def)

lemma clip_sample:
  "try_emit_parent sha fr fake_count 1 [] clip_parent clip_anchor =
     Inr (Some (clipped_decision sha fr fake_count clip_parent (3, 5) (2, 5)))"
proof -
  have t: "ck_text clip_parent = ''aa bb''" by (simp add: clip_parent_def sample_parent_def)
  have "\<not> rendered_count fake_count [] ''aa bb'' \<le> 1"
    and "rendered_count fake_count [] (py_slice ''aa bb'' 3 5) \<le> 1"
    by (simp_all add: rendered_count_def fake_count_words py_slice_def py_isspace_def)
  then show ?thesis
    by (simp add: try_emit_parent_def t clip_sample_located clip_sample_grown del: One_nat_def)
qed

lemma clip_sample_unit:
  "\<exists>u. make_parent_evidence_unit clip_parent
       (clipped_decision sha fr fake_count clip_parent (3, 5) (2, 5)) ''c1'' [''c1''] = Inr u"
proof -
  have "req_str (''ev_'' @ x) = Inr (trim (''ev_'' @ x))" for x
    by (simp add: req_str_Inr trim_def strip_by_eq_Nil_iff uni_isspace_def)
  moreover have "trim '' bb'' = ''bb''" by (simp add: trim_def strip_by_def uni_isspace_def)
  ultimately show ?thesis
    by (auto simp: make_parent_evidence_unit_def mk_evidence_unit_def clipped_decision_def Let_def
        clipped_evidence_unit_id_def evidence_unit_id_from_payload_def hashed_def clip_parent_def
        sample_parent_def sample_child_def opt_str_def req_str_Inr trim_def strip_by_def
        uni_isspace_def py_slice_def req_str_def nonempty_str_def)
qed

theorem clipped_unit_text_witness:
  "\<exists>u c i. make_parent_evidence_unit clip_parent
       (clipped_decision sample_digest sample_float_repr fake_count clip_parent (3, 5) (2, 5))
       ''c1'' [''c1''] = Inr u \<and> eu_clip u = Some c \<and>
     eu_text u = ''bb'' \<and> py_slice (ck_text clip_parent) (cl_start_char c) (cl_end_char c) = '' bb'' \<and>
     occurs_at ''bb'' (eu_text u) i"
proof -
  obtain u where u: "make_parent_evidence_unit clip_parent (clipped_decision sample_digest
      sample_float_repr fake_count clip_parent (3, 5) (2, 5)) ''c1'' [''c1''] = Inr u"
    using clip_sample_unit by blast
  have a: "ck_text clip_anchor = ''bb''" "ck_text clip_parent = ''aa bb''"
    by (simp_all add: clip_anchor_def clip_parent_def sample_child_def sample_parent_def)
  have wf: "wf_chunk clip_anchor"
    by (simp add: wf_chunk_def is_nonempty_str_iff clip_anchor_def sample_child_def trim_def
        strip_by_def uni_isspace_def)
  have clip: "eu_clip u = Some (clip_of fake_count (ck_text clip_parent) (3, 5) (2, 5))"
    using mk_evidence_unit_InrD [OF u [unfolded make_parent_evidence_unit_def]] by simp
  have slice: "py_slice ''aa bb'' 2 5 = '' bb''" "trim '' bb'' = ''bb''"
    by (simp_all add: py_slice_def trim_def strip_by_def uni_isspace_def)
  from clipped_unit_text [OF clip_sample _ u wf] clip slice obtain i
    where "eu_text u = ''bb''" "occurs_at ''bb'' (eu_text u) i"
    by (auto simp: a clip_of_def)
  with u clip slice show ?thesis by (auto simp: a clip_of_def)
qed

end
