(* ===== verification/Expand.thy ===== *)
theory Expand
  imports Clip
begin

section \<open>Context expansion (context/expand.py, context/render.py)\<close>

text \<open>
  \<open>ContextExpander.expand\<close>: ranked child anchors become budgeted evidence units under one of four
  strategies. The mutable \<open>units\<close>, \<open>owned\<close> and \<open>full_parent_ids\<close> of a run are the record
  \<open>expand_state\<close>, passed through every handler.
\<close>

record context_settings =
  cs_enabled :: bool
  cs_strategy :: string
  cs_anchor_k :: nat
  cs_max_context_tokens :: nat
  cs_neighbor_window :: nat

definition CONTEXT_STRATEGIES :: "string list" where
  "CONTEXT_STRATEGIES = [''child-only'', ''parent'', ''neighbors'', ''parent+neighbors'']"

text \<open>The validator \<open>ContextSettings._validate_context_policy\<close>.\<close>

definition validate_context_policy :: "context_settings \<Rightarrow> string + context_settings" where
  "validate_context_policy c =
     (if cs_strategy c \<notin> set CONTEXT_STRATEGIES then
        Inl ''context.strategy must be one of: child-only, neighbors, parent, parent+neighbors''
      else if cs_strategy c \<in> {''child-only'', ''parent''} \<and> cs_neighbor_window c \<noteq> 0 then
        Inl (''context.strategy='' @ cs_strategy c @ '' requires neighbor_window=0 (got '' @
          str_nat (cs_neighbor_window c) @ '')'')
      else if cs_strategy c \<in> {''neighbors'', ''parent+neighbors''} \<and> cs_neighbor_window c < 1 then
        Inl (''context.strategy='' @ cs_strategy c @ '' requires neighbor_window>=1 (got '' @
          str_nat (cs_neighbor_window c) @ '')'')
      else Inr c)"

record ranked_anchor =
  an_chunk_id :: string
  an_rank :: nat

record context_expander =
  xp_store :: structure_store
  xp_counter :: token_counter
  xp_context :: context_settings

record expanded_context =
  xc_evidence_units :: "evidence_unit list"
  xc_assembled_text :: string
  xc_context_token_count :: nat
  xc_diagnostics :: assembly_diagnostics

record anchor_outcome =
  ao_dedup_hits :: nat
  ao_containment_suppressions :: nat
  ao_clipping_occurred :: bool
  ao_stop_reason :: "assembly_stop_reason option"
  ao_budget_exhausted :: bool

definition outcome0 :: anchor_outcome where
  "outcome0 = \<lparr>ao_dedup_hits = 0, ao_containment_suppressions = 0, ao_clipping_occurred = False,
     ao_stop_reason = None, ao_budget_exhausted = False\<rparr>"

definition stop_outcome :: "assembly_stop_reason \<Rightarrow> anchor_outcome" where
  "stop_outcome r = outcome0\<lparr>ao_stop_reason := Some r, ao_budget_exhausted := True\<rparr>"

record expand_state =
  ex_units :: "evidence_unit list"
  ex_owned :: "(string \<times> nat) list"
  ex_full_parents :: "string set"

subsection \<open>Rendering\<close>

definition EVIDENCE_JOINER :: string where
  "EVIDENCE_JOINER = [CHR 0x0A, CHR 0x0A]"

definition render_plain_evidence :: "evidence_unit list \<Rightarrow> string" where
  "render_plain_evidence units = join EVIDENCE_JOINER (map eu_text units)"

subsection \<open>Steps of the expander\<close>

definition record_dedup :: "string \<Rightarrow> string \<Rightarrow> expand_state \<Rightarrow> bool \<times> expand_state" where
  "record_dedup structural_id anchor_chunk_id st =
     (case map_of (ex_owned st) structural_id of
        None \<Rightarrow> (False, st)
      | Some idx \<Rightarrow>
          let unit = ex_units st ! idx in
          if anchor_chunk_id \<in> set (eu_contributing_anchor_chunk_ids unit) then (True, st)
          else (True, st\<lparr>ex_units := (ex_units st)[idx :=
            unit\<lparr>eu_contributing_anchor_chunk_ids :=
              eu_contributing_anchor_chunk_ids unit @ [anchor_chunk_id]\<rparr>]\<rparr>))"

text \<open>\<open>owned[id] = len(units); units.append(unit)\<close>\<close>

definition append_unit :: "string \<Rightarrow> evidence_unit \<Rightarrow> expand_state \<Rightarrow> expand_state" where
  "append_unit structural_id unit st =
     st\<lparr>ex_owned := dict_set structural_id (length (ex_units st)) (ex_owned st),
        ex_units := ex_units st @ [unit]\<rparr>"

definition handle_child_only ::
    "digest \<Rightarrow> (pyfloat \<Rightarrow> string) \<Rightarrow> context_expander \<Rightarrow> chunk \<Rightarrow> ranked_anchor \<Rightarrow> expand_state \<Rightarrow>
     context_exc + anchor_outcome \<times> expand_state" where
  "handle_child_only sha fr x child anchor st =
     (case record_dedup (ck_chunk_id child) (an_chunk_id anchor) st of
        (True, st') \<Rightarrow> Inr (outcome0\<lparr>ao_dedup_hits := 1\<rparr>, st')
      | (False, _) \<Rightarrow>
          if \<not> candidate_fits (xp_counter x) (cs_max_context_tokens (xp_context x))
                (render_plain_evidence (ex_units st)) (ck_text child) then
            Inr (stop_outcome STOP_CHILD_WOULD_NOT_FIT, st)
          else bind_res (make_child_evidence_unit sha fr (xp_counter x) child (an_chunk_id anchor)
                 [an_chunk_id anchor] (Some ''anchor'') (Some 0)) (\<lambda>unit.
               Inr (outcome0, append_unit (ck_chunk_id child) unit st)))"

definition handle_parent ::
    "digest \<Rightarrow> (pyfloat \<Rightarrow> string) \<Rightarrow> context_expander \<Rightarrow> chunk \<Rightarrow> ranked_anchor \<Rightarrow> expand_state \<Rightarrow>
     context_exc + anchor_outcome \<times> expand_state" where
  "handle_parent sha fr x child anchor st =
     bind_res (resolve_parent_for_child (xp_store x) child) (\<lambda>parent.
     (case record_dedup (ck_chunk_id parent) (an_chunk_id anchor) st of
        (True, st') \<Rightarrow> Inr (outcome0\<lparr>ao_dedup_hits := 1\<rparr>, st')
      | (False, _) \<Rightarrow>
          bind_res (try_emit_parent sha fr (xp_counter x) (cs_max_context_tokens (xp_context x))
              (render_plain_evidence (ex_units st)) parent child) (\<lambda>decision.
          (case decision of
             None \<Rightarrow> Inr (stop_outcome STOP_ANCHOR_WOULD_NOT_FIT, st)
           | Some d \<Rightarrow>
               bind_res (make_parent_evidence_unit parent d (an_chunk_id anchor)
                   [an_chunk_id anchor]) (\<lambda>unit.
               let st' = append_unit (ck_chunk_id parent) unit st in
               if \<not> dc_clipped d then
                 Inr (outcome0, st'\<lparr>ex_full_parents := insert (ck_chunk_id parent) (ex_full_parents st')\<rparr>)
               else Inr ((stop_outcome STOP_PARENT_CLIPPED_TO_BUDGET)\<lparr>ao_clipping_occurred := True\<rparr>,
                         st'))))))"

text \<open>One direction of \<open>_neighbor_window_children\<close>: at most \<open>n\<close> links from the cursor on.\<close>

fun walk_chain ::
    "(chunk \<Rightarrow> string option) \<Rightarrow> structure_store \<Rightarrow> chunk \<Rightarrow> nat \<Rightarrow> chunk \<Rightarrow> context_exc + chunk list" where
  "walk_chain link s anchor_child 0 cursor = Inr []"
| "walk_chain link s anchor_child (Suc n) cursor =
     (case link cursor of
        None \<Rightarrow> Inr []
      | Some i \<Rightarrow> bind_res (get_child s i) (\<lambda>neighbor.
          if ck_document_id neighbor \<noteq> ck_document_id anchor_child then
            Inl (Context_Structure_Error (''neighbor walk crossed document for '' @
              ck_chunk_id anchor_child))
          else bind_res (walk_chain link s anchor_child n neighbor) (\<lambda>rest.
            Inr (neighbor # rest))))"

definition neighbor_window_children ::
    "structure_store \<Rightarrow> nat \<Rightarrow> chunk \<Rightarrow> context_exc + (chunk \<times> string \<times> nat) list" where
  "neighbor_window_children s window anchor_child =
     bind_res (walk_chain ck_previous_chunk_id s anchor_child window anchor_child) (\<lambda>prev_chain.
     bind_res (walk_chain ck_next_chunk_id s anchor_child window anchor_child) (\<lambda>next_chain.
     Inr (map (\<lambda>(index, chunk). (chunk, ''previous'', length prev_chain - index))
            (enumerate 0 (rev prev_chain)) @
          [(anchor_child, ''anchor'', 0)] @
          map (\<lambda>(distance, chunk). (chunk, ''next'', distance)) (enumerate 1 next_chain))))"

text \<open>
  \<open>_try_add_child_unit\<close>: \<open>None\<close> when the unit was added; \<open>full_parents\<close> is \<open>{}\<close> where the code
  passes no set.
\<close>

definition try_add_child_unit ::
    "digest \<Rightarrow> (pyfloat \<Rightarrow> string) \<Rightarrow> context_expander \<Rightarrow> string set \<Rightarrow> chunk \<Rightarrow> ranked_anchor \<Rightarrow>
     string \<Rightarrow> nat \<Rightarrow> expand_state \<Rightarrow> context_exc + anchor_outcome option \<times> expand_state" where
  "try_add_child_unit sha fr x full_parents child anchor relationship distance st =
     (if (case ck_parent_chunk_id child of None \<Rightarrow> False | Some p \<Rightarrow> p \<noteq> [] \<and> p \<in> full_parents) then
        Inr (Some (outcome0\<lparr>ao_containment_suppressions := 1\<rparr>), st)
      else (case record_dedup (ck_chunk_id child) (an_chunk_id anchor) st of
        (True, st') \<Rightarrow> Inr (Some (outcome0\<lparr>ao_dedup_hits := 1\<rparr>), st')
      | (False, _) \<Rightarrow>
          if \<not> candidate_fits (xp_counter x) (cs_max_context_tokens (xp_context x))
                (render_plain_evidence (ex_units st)) (ck_text child) then
            Inr (Some (stop_outcome STOP_CHILD_WOULD_NOT_FIT), st)
          else bind_res (make_child_evidence_unit sha fr (xp_counter x) child (an_chunk_id anchor)
                 [an_chunk_id anchor] (Some relationship) (Some distance)) (\<lambda>unit.
               Inr (None, append_unit (ck_chunk_id child) unit st))))"

text \<open>The loop of both neighbor handlers, with the running totals of the dedup hits and suppressions.\<close>

fun add_window ::
    "digest \<Rightarrow> (pyfloat \<Rightarrow> string) \<Rightarrow> context_expander \<Rightarrow> string set \<Rightarrow> ranked_anchor \<Rightarrow>
     (chunk \<times> string \<times> nat) list \<Rightarrow> nat \<Rightarrow> nat \<Rightarrow> expand_state \<Rightarrow>
     context_exc + anchor_outcome \<times> expand_state" where
  "add_window sha fr x full anchor [] dedup suppress st =
     Inr (outcome0\<lparr>ao_dedup_hits := dedup, ao_containment_suppressions := suppress\<rparr>, st)"
| "add_window sha fr x full anchor ((neighbor, relationship, distance) # rest) dedup suppress st =
     bind_res (try_add_child_unit sha fr x full neighbor anchor relationship distance st)
       (\<lambda>(outcome, st'). case outcome of
          None \<Rightarrow> add_window sha fr x full anchor rest dedup suppress st'
        | Some o' \<Rightarrow>
            let dedup' = dedup + ao_dedup_hits o';
                suppress' = suppress + ao_containment_suppressions o' in
            if ao_stop_reason o' \<noteq> None then
              Inr (o'\<lparr>ao_dedup_hits := dedup', ao_containment_suppressions := suppress'\<rparr>, st')
            else add_window sha fr x full anchor rest dedup' suppress' st')"

definition handle_neighbors ::
    "digest \<Rightarrow> (pyfloat \<Rightarrow> string) \<Rightarrow> context_expander \<Rightarrow> chunk \<Rightarrow> ranked_anchor \<Rightarrow> expand_state \<Rightarrow>
     context_exc + anchor_outcome \<times> expand_state" where
  "handle_neighbors sha fr x child anchor st =
     bind_res (neighbor_window_children (xp_store x) (cs_neighbor_window (xp_context x)) child)
       (\<lambda>window. add_window sha fr x {} anchor window 0 0 st)"

definition handle_parent_neighbors ::
    "digest \<Rightarrow> (pyfloat \<Rightarrow> string) \<Rightarrow> context_expander \<Rightarrow> chunk \<Rightarrow> ranked_anchor \<Rightarrow> expand_state \<Rightarrow>
     context_exc + anchor_outcome \<times> expand_state" where
  "handle_parent_neighbors sha fr x child anchor st =
     bind_res (handle_parent sha fr x child anchor st) (\<lambda>(parent_outcome, st').
       if ao_stop_reason parent_outcome \<noteq> None then Inr (parent_outcome, st')
       else bind_res (neighbor_window_children (xp_store x) (cs_neighbor_window (xp_context x)) child)
         (\<lambda>window. add_window sha fr x (ex_full_parents st') anchor window
            (ao_dedup_hits parent_outcome) 0 st'))"

definition handle_anchor ::
    "digest \<Rightarrow> (pyfloat \<Rightarrow> string) \<Rightarrow> context_expander \<Rightarrow> ranked_anchor \<Rightarrow> expand_state \<Rightarrow>
     context_exc + anchor_outcome \<times> expand_state" where
  "handle_anchor sha fr x anchor st =
     bind_res (get_child (xp_store x) (an_chunk_id anchor)) (\<lambda>child.
       let strategy = cs_strategy (xp_context x) in
       if strategy = ''child-only'' then handle_child_only sha fr x child anchor st
       else if strategy = ''parent'' then handle_parent sha fr x child anchor st
       else if strategy = ''neighbors'' then handle_neighbors sha fr x child anchor st
       else if strategy = ''parent+neighbors'' then handle_parent_neighbors sha fr x child anchor st
       else Inl (Context_Structure_Error (''unsupported strategy: '' @ strategy)))"

subsection \<open>The run\<close>

record expand_totals =
  tt_anchors_processed :: nat
  tt_dedup_hits :: nat
  tt_containment_suppressions :: nat
  tt_clipping_occurred :: bool
  tt_stop_reason :: assembly_stop_reason
  tt_budget_exhausted :: bool

definition totals0 :: expand_totals where
  "totals0 = \<lparr>tt_anchors_processed = 0, tt_dedup_hits = 0, tt_containment_suppressions = 0,
     tt_clipping_occurred = False, tt_stop_reason = STOP_COMPLETED, tt_budget_exhausted = False\<rparr>"

definition state0 :: expand_state where
  "state0 = \<lparr>ex_units = [], ex_owned = [], ex_full_parents = {}\<rparr>"

definition add_outcome :: "anchor_outcome \<Rightarrow> expand_totals \<Rightarrow> expand_totals" where
  "add_outcome o' t = t\<lparr>tt_anchors_processed := tt_anchors_processed t + 1,
     tt_dedup_hits := tt_dedup_hits t + ao_dedup_hits o',
     tt_containment_suppressions := tt_containment_suppressions t + ao_containment_suppressions o',
     tt_clipping_occurred := (tt_clipping_occurred t \<or> ao_clipping_occurred o')\<rparr>"

fun expand_loop ::
    "digest \<Rightarrow> (pyfloat \<Rightarrow> string) \<Rightarrow> context_expander \<Rightarrow> ranked_anchor list \<Rightarrow> expand_totals \<Rightarrow>
     expand_state \<Rightarrow> context_exc + expand_totals \<times> expand_state" where
  "expand_loop sha fr x [] t st = Inr (t, st)"
| "expand_loop sha fr x (anchor # rest) t st =
     bind_res (handle_anchor sha fr x anchor st) (\<lambda>(outcome, st').
       let t' = add_outcome outcome t in
       case ao_stop_reason outcome of
         Some r \<Rightarrow> Inr (t'\<lparr>tt_stop_reason := r, tt_budget_exhausted := ao_budget_exhausted outcome\<rparr>, st')
       | None \<Rightarrow> expand_loop sha fr x rest t' st')"

definition order_anchors :: "ranked_anchor list \<Rightarrow> ranked_anchor list" where
  "order_anchors anchors = sort_key (\<lambda>a. (an_rank a, an_chunk_id a)) anchors"

definition no_anchors_diagnostics :: "context_expander \<Rightarrow> assembly_diagnostics" where
  "no_anchors_diagnostics x = \<lparr>ad_requested_anchor_k = cs_anchor_k (xp_context x),
     ad_actual_anchor_count = 0, ad_anchors_processed = 0, ad_evidence_unit_count = 0,
     ad_context_token_count = 0, ad_budget_exhausted = False, ad_stop_reason = STOP_NO_ANCHORS,
     ad_clipping_occurred = False, ad_dedup_hits = 0, ad_containment_suppressions = 0\<rparr>"

definition finish_expand ::
    "context_expander \<Rightarrow> nat \<Rightarrow> expand_totals \<Rightarrow> expand_state \<Rightarrow> context_exc + expanded_context" where
  "finish_expand x anchor_count t st =
     (let assembled = render_plain_evidence (ex_units st);
          token_count = (if assembled \<noteq> [] then xp_counter x assembled else 0);
          budget = cs_max_context_tokens (xp_context x) in
      if budget < token_count then
        Inl (Context_Structure_Error (''assembled evidence exceeds max_context_tokens ('' @
          str_nat token_count @ '' > '' @ str_nat budget @ '')''))
      else Inr \<lparr>xc_evidence_units = ex_units st, xc_assembled_text = assembled,
             xc_context_token_count = token_count,
             xc_diagnostics = \<lparr>ad_requested_anchor_k = cs_anchor_k (xp_context x),
               ad_actual_anchor_count = anchor_count,
               ad_anchors_processed = tt_anchors_processed t,
               ad_evidence_unit_count = length (ex_units st),
               ad_context_token_count = token_count,
               ad_budget_exhausted = tt_budget_exhausted t, ad_stop_reason = tt_stop_reason t,
               ad_clipping_occurred = tt_clipping_occurred t, ad_dedup_hits = tt_dedup_hits t,
               ad_containment_suppressions = tt_containment_suppressions t\<rparr>\<rparr>)"

definition expand ::
    "digest \<Rightarrow> (pyfloat \<Rightarrow> string) \<Rightarrow> context_expander \<Rightarrow> ranked_anchor list \<Rightarrow>
     context_exc + expanded_context" where
  "expand sha fr x anchors =
     (let ordered = order_anchors anchors in
      if ordered = [] then
        Inr \<lparr>xc_evidence_units = [], xc_assembled_text = [], xc_context_token_count = 0,
             xc_diagnostics = no_anchors_diagnostics x\<rparr>
      else bind_res (expand_loop sha fr x ordered totals0 state0) (\<lambda>(t, st).
        finish_expand x (length ordered) t st))"

subsection \<open>What a handler does, as steps\<close>

text \<open>
  Every handler is a sequence of steps that attach the anchor to a unit already emitted, add a
  child, or add a whole parent; or it is the one step that adds a clipped parent.
\<close>

definition child_ok :: "context_expander \<Rightarrow> ranked_anchor \<Rightarrow> chunk \<Rightarrow> bool" where
  "child_ok x a c \<longleftrightarrow> (\<exists>i c0. get_child (xp_store x) i = Inr c \<and>
     get_child (xp_store x) (an_chunk_id a) = Inr c0 \<and> ck_document_id c = ck_document_id c0)"

definition emits ::
    "digest \<Rightarrow> (pyfloat \<Rightarrow> string) \<Rightarrow> context_expander \<Rightarrow> ranked_anchor \<Rightarrow> expand_state \<Rightarrow> chunk \<Rightarrow>
     clip_decision \<Rightarrow> evidence_unit \<Rightarrow> bool" where
  "emits sha fr x a st p d u \<longleftrightarrow>
     cs_strategy (xp_context x) \<in> {''parent'', ''parent+neighbors''} \<and>
     map_of (ex_owned st) (ck_chunk_id p) = None \<and>
     (\<exists>c. get_child (xp_store x) (an_chunk_id a) = Inr c \<and>
       resolve_parent_for_child (xp_store x) c = Inr p \<and>
       try_emit_parent sha fr (xp_counter x) (cs_max_context_tokens (xp_context x))
         (render_plain_evidence (ex_units st)) p c = Inr (Some d)) \<and>
     make_parent_evidence_unit p d (an_chunk_id a) [an_chunk_id a] = Inr u"

inductive expand_step ::
    "digest \<Rightarrow> (pyfloat \<Rightarrow> string) \<Rightarrow> context_expander \<Rightarrow> ranked_anchor \<Rightarrow> expand_state \<Rightarrow> expand_state \<Rightarrow>
     bool"
  for sha fr x a where
  attach: "record_dedup i (an_chunk_id a) st = (True, st') \<Longrightarrow> expand_step sha fr x a st st'"
| add_child: "map_of (ex_owned st) (ck_chunk_id c) = None \<Longrightarrow> child_ok x a c \<Longrightarrow>
    cs_strategy (xp_context x) \<noteq> ''parent'' \<Longrightarrow>
    (cs_strategy (xp_context x) = ''parent+neighbors'' \<Longrightarrow>
       \<forall>p. ck_parent_chunk_id c = Some p \<and> p \<noteq> [] \<longrightarrow> p \<notin> ex_full_parents st) \<Longrightarrow>
    candidate_fits (xp_counter x) (cs_max_context_tokens (xp_context x))
      (render_plain_evidence (ex_units st)) (ck_text c) \<Longrightarrow>
    make_child_evidence_unit sha fr (xp_counter x) c (an_chunk_id a) [an_chunk_id a] rel dst = Inr u \<Longrightarrow>
    expand_step sha fr x a st (append_unit (ck_chunk_id c) u st)"
| add_parent: "emits sha fr x a st p d u \<Longrightarrow> \<not> dc_clipped d \<Longrightarrow>
    st' = append_unit (ck_chunk_id p) u st \<Longrightarrow>
    expand_step sha fr x a st
      (st'\<lparr>ex_full_parents := insert (ck_chunk_id p) (ex_full_parents st')\<rparr>)"

inductive clip_step ::
    "digest \<Rightarrow> (pyfloat \<Rightarrow> string) \<Rightarrow> context_expander \<Rightarrow> ranked_anchor \<Rightarrow> expand_state \<Rightarrow> expand_state \<Rightarrow>
     bool"
  for sha fr x a where
  add_clipped: "emits sha fr x a st p d u \<Longrightarrow> dc_clipped d \<Longrightarrow>
    clip_step sha fr x a st (append_unit (ck_chunk_id p) u st)"

definition handled ::
    "digest \<Rightarrow> (pyfloat \<Rightarrow> string) \<Rightarrow> context_expander \<Rightarrow> ranked_anchor \<Rightarrow> expand_state \<Rightarrow>
     anchor_outcome \<Rightarrow> expand_state \<Rightarrow> bool" where
  "handled sha fr x a st o' st' \<longleftrightarrow>
     (if ao_clipping_occurred o' then
        ao_stop_reason o' = Some STOP_PARENT_CLIPPED_TO_BUDGET \<and> clip_step sha fr x a st st'
      else ao_stop_reason o' \<noteq> Some STOP_PARENT_CLIPPED_TO_BUDGET \<and>
        (expand_step sha fr x a)\<^sup>*\<^sup>* st st')"

end
