(* ===== verification/Expand_Inv.thy ===== *)
theory Expand_Inv
  imports Expand
begin

section \<open>Invariants of context expansion\<close>

text \<open>
  Every handler run is a sequence of the steps of \<open>expand_step\<close>, or one \<open>clip_step\<close>; the invariants
  are proved once per step and carried to the whole run. At the end the properties of
  \<open>ContextExpander.expand\<close>.
\<close>

subsection \<open>Handlers are sequences of steps\<close>

lemma outcome_sel [simp]:
  "ao_stop_reason outcome0 = None" "\<not> ao_clipping_occurred outcome0"
  "ao_stop_reason (stop_outcome r) = Some r" "\<not> ao_clipping_occurred (stop_outcome r)"
  "ao_dedup_hits outcome0 = 0" "ao_containment_suppressions outcome0 = 0"
  by (simp_all add: outcome0_def stop_outcome_def)

lemma record_dedup_fst: "fst (record_dedup i a st) \<longleftrightarrow> map_of (ex_owned st) i \<noteq> None"
  by (auto simp: record_dedup_def Let_def split: option.splits)

lemma record_dedup_False: "record_dedup i a st = (False, st') \<Longrightarrow> map_of (ex_owned st) i = None"
  using record_dedup_fst [of i a st] by simp

lemma child_ok_self: "get_child (xp_store x) (an_chunk_id a) = Inr c \<Longrightarrow> child_ok x a c"
  by (auto simp: child_ok_def)

lemma handle_child_only_handled:
  assumes "handle_child_only sha fr x c a st = Inr (o', st')"
    and "get_child (xp_store x) (an_chunk_id a) = Inr c"
    and "cs_strategy (xp_context x) = ''child-only''"
  shows "handled sha fr x a st o' st'"
proof (cases "record_dedup (ck_chunk_id c) (an_chunk_id a) st")
  case (Pair b s1)
  show ?thesis
  proof (cases b)
    case True
    with Pair assms(1) show ?thesis
      by (auto simp: handle_child_only_def handled_def intro: expand_step.attach)
  next
    case False
    with Pair have "map_of (ex_owned st) (ck_chunk_id c) = None" by (auto dest: record_dedup_False)
    with False Pair assms show ?thesis
      by (auto simp: handle_child_only_def handled_def bind_res_Inr_iff intro!: r_into_rtranclp
          expand_step.add_child child_ok_self split: if_splits)
  qed
qed

lemma handle_parent_handled:
  assumes "handle_parent sha fr x c a st = Inr (o', st')"
    and "get_child (xp_store x) (an_chunk_id a) = Inr c"
    and "cs_strategy (xp_context x) \<in> {''parent'', ''parent+neighbors''}"
  shows "handled sha fr x a st o' st'"
proof -
  from assms(1) obtain p where p: "resolve_parent_for_child (xp_store x) c = Inr p"
    by (auto simp: handle_parent_def bind_res_Inr_iff)
  obtain b s1 where r: "record_dedup (ck_chunk_id p) (an_chunk_id a) st = (b, s1)" by fastforce
  show ?thesis
  proof (cases b)
    case True
    with r p assms(1) show ?thesis
      by (auto simp: handle_parent_def handled_def intro: expand_step.attach)
  next
    case False
    with r have n: "map_of (ex_owned st) (ck_chunk_id p) = None" by (auto dest: record_dedup_False)
    from False r p assms(1) obtain dec where
      e: "try_emit_parent sha fr (xp_counter x) (cs_max_context_tokens (xp_context x))
         (render_plain_evidence (ex_units st)) p c = Inr dec"
      by (auto simp: handle_parent_def bind_res_Inr_iff)
    show ?thesis
    proof (cases dec)
      case None
      with False r p e assms(1) show ?thesis by (auto simp: handle_parent_def handled_def)
    next
      case (Some d)
      with False r p e assms(1) obtain u where
        u: "make_parent_evidence_unit p d (an_chunk_id a) [an_chunk_id a] = Inr u"
        by (auto simp: handle_parent_def bind_res_Inr_iff)
      with Some n p e assms(2,3) have em: "emits sha fr x a st p d u" by (auto simp: emits_def)
      show ?thesis
      proof (cases "dc_clipped d")
        case True
        with em have "clip_step sha fr x a st (append_unit (ck_chunk_id p) u st)"
          by (rule clip_step.add_clipped)
        with True False r p e Some u assms(1) show ?thesis
          by (auto simp: handle_parent_def handled_def)
      next
        case nc: False
        from expand_step.add_parent [OF em nc refl] False r p e Some u assms(1) nc show ?thesis
          by (auto simp: handle_parent_def handled_def Let_def)
      qed
    qed
  qed
qed

lemma try_add_steps:
  assumes "try_add_child_unit sha fr x full c a rel d st = Inr (o', st')" and "child_ok x a c"
    and "cs_strategy (xp_context x) \<noteq> ''parent''"
    and "cs_strategy (xp_context x) = ''parent+neighbors'' \<Longrightarrow> full = ex_full_parents st"
  shows "(expand_step sha fr x a)\<^sup>*\<^sup>* st st' \<and> ex_full_parents st' = ex_full_parents st \<and>
    (\<forall>out. o' = Some out \<longrightarrow> \<not> ao_clipping_occurred out \<and>
       ao_stop_reason out \<noteq> Some STOP_PARENT_CLIPPED_TO_BUDGET)"
proof -
  obtain b s1 where r: "record_dedup (ck_chunk_id c) (an_chunk_id a) st = (b, s1)" by fastforce
  have full1: "ex_full_parents s1 = ex_full_parents st"
    using r by (auto simp: record_dedup_def Let_def split: option.splits if_splits)
  let ?in = "case ck_parent_chunk_id c of None \<Rightarrow> False | Some p \<Rightarrow> p \<noteq> [] \<and> p \<in> full"
  consider ?in | "\<not> ?in" b | "\<not> ?in" "\<not> b" by blast
  then show ?thesis
  proof cases
    case 1
    with assms(1) show ?thesis by (auto simp: try_add_child_unit_def)
  next
    case 2
    with r have "expand_step sha fr x a st s1" by (auto intro: expand_step.attach)
    with 2 r full1 assms(1) show ?thesis by (auto simp: try_add_child_unit_def)
  next
    case 3
    then have n: "map_of (ex_owned st) (ck_chunk_id c) = None"
      using r by (auto dest: record_dedup_False)
    have p: "\<forall>p. ck_parent_chunk_id c = Some p \<and> p \<noteq> [] \<longrightarrow> p \<notin> ex_full_parents st"
      if "cs_strategy (xp_context x) = ''parent+neighbors''"
      using 3(1) assms(4) [OF that] by auto
    from 3 r assms(1) consider "o' = Some (stop_outcome STOP_CHILD_WOULD_NOT_FIT)" "st' = st"
      | u where "candidate_fits (xp_counter x) (cs_max_context_tokens (xp_context x))
           (render_plain_evidence (ex_units st)) (ck_text c)"
        "make_child_evidence_unit sha fr (xp_counter x) c (an_chunk_id a) [an_chunk_id a]
           (Some rel) (Some d) = Inr u" "o' = None" "st' = append_unit (ck_chunk_id c) u st"
      by (auto simp: try_add_child_unit_def bind_res_Inr_iff split: if_splits)
    then show ?thesis
    proof cases
      case 2
      have "expand_step sha fr x a st (append_unit (ck_chunk_id c) u st)"
        by (rule expand_step.add_child [OF n assms(2,3) p 2(1,2)])
      with 2 show ?thesis by (auto simp: append_unit_def)
    qed auto
  qed
qed

lemma walk_chain_sound:
  "walk_chain link s anchor n cursor = Inr cs \<Longrightarrow> c \<in> set cs \<Longrightarrow>
     (\<exists>i. get_child s i = Inr c) \<and> ck_document_id c = ck_document_id anchor"
proof (induction n arbitrary: cursor cs)
  case (Suc n)
  show ?case
  proof (cases "link cursor")
    case None
    with Suc.prems show ?thesis by simp
  next
    case (Some i)
    with Suc.prems(1) obtain nb rest where g: "get_child s i = Inr nb"
      and d: "ck_document_id nb = ck_document_id anchor"
      and r: "walk_chain link s anchor n nb = Inr rest" and "cs = nb # rest"
      by (auto simp: bind_res_Inr_iff split: if_splits)
    with Suc.prems(2) Suc.IH [OF r] show ?thesis by auto
  qed
qed simp

lemma window_child_ok:
  assumes "neighbor_window_children (xp_store x) n c = Inr w"
    and "get_child (xp_store x) (an_chunk_id a) = Inr c" and "(c', rel, d) \<in> set w"
  shows "child_ok x a c'"
proof -
  from assms(1) obtain ps ns where p: "walk_chain ck_previous_chunk_id (xp_store x) c n c = Inr ps"
    and n: "walk_chain ck_next_chunk_id (xp_store x) c n c = Inr ns"
    and w: "w = map (\<lambda>(index, chunk). (chunk, ''previous'', length ps - index)) (enumerate 0 (rev ps)) @
      [(c, ''anchor'', 0)] @ map (\<lambda>(distance, chunk). (chunk, ''next'', distance)) (enumerate 1 ns)"
    by (auto simp: neighbor_window_children_def bind_res_Inr_iff)
  have e: "y \<in> set ys" if "(i, y) \<in> set (enumerate k ys)" for i y k and ys :: "chunk list"
    using that by (auto simp: in_set_enumerate_eq)
  from assms(3) have "c' = c \<or> c' \<in> set ps \<or> c' \<in> set ns" unfolding w by (auto dest!: e)
  with walk_chain_sound [OF p] walk_chain_sound [OF n] assms(2) show ?thesis
    unfolding child_ok_def by blast
qed

lemma add_window_steps:
  assumes "add_window sha fr x full a w dd ss st = Inr (o', st')"
    and "\<forall>(c, rel, d) \<in> set w. child_ok x a c"
    and "cs_strategy (xp_context x) \<noteq> ''parent''"
    and "cs_strategy (xp_context x) = ''parent+neighbors'' \<Longrightarrow> full = ex_full_parents st"
  shows "(expand_step sha fr x a)\<^sup>*\<^sup>* st st' \<and> \<not> ao_clipping_occurred o' \<and>
    ao_stop_reason o' \<noteq> Some STOP_PARENT_CLIPPED_TO_BUDGET"
  using assms
proof (induction w arbitrary: dd ss st)
  case Nil
  then show ?case by auto
next
  case (Cons m w)
  obtain c rel d where m: "m = (c, rel, d)" by (cases m) auto
  with Cons.prems(1) obtain out s1 where
    t: "try_add_child_unit sha fr x full c a rel d st = Inr (out, s1)"
    by (auto simp: bind_res_Inr_iff)
  have "child_ok x a c" using Cons.prems(2) m by simp
  from try_add_steps [OF t this Cons.prems(3,4)] have
    s: "(expand_step sha fr x a)\<^sup>*\<^sup>* st s1" and f: "ex_full_parents s1 = ex_full_parents st"
    and o': "\<forall>q. out = Some q \<longrightarrow> \<not> ao_clipping_occurred q \<and>
       ao_stop_reason q \<noteq> Some STOP_PARENT_CLIPPED_TO_BUDGET" by simp_all
  have go: ?case if "add_window sha fr x full a w dd' ss' s1 = Inr (o', st')" for dd' ss'
    using Cons.IH [OF that] Cons.prems(2-4) f s by (auto intro: rtranclp_trans)
  show ?case
  proof (cases out)
    case None
    with Cons.prems(1) m t go show ?thesis by simp
  next
    case (Some q)
    show ?thesis
    proof (cases "ao_stop_reason q")
      case None
      with Some Cons.prems(1) m t show ?thesis by (intro go) (simp add: Let_def)
    next
      case stop: (Some r)
      with Some Cons.prems(1) m t s o' show ?thesis by (auto simp: Let_def)
    qed
  qed
qed

lemma handle_neighbors_handled:
  assumes "handle_neighbors sha fr x c a st = Inr (o', st')"
    and "get_child (xp_store x) (an_chunk_id a) = Inr c"
    and "cs_strategy (xp_context x) = ''neighbors''"
  shows "handled sha fr x a st o' st'"
proof -
  from assms(1) obtain w where
    w: "neighbor_window_children (xp_store x) (cs_neighbor_window (xp_context x)) c = Inr w"
    and a: "add_window sha fr x {} a w 0 0 st = Inr (o', st')"
    by (auto simp: handle_neighbors_def bind_res_Inr_iff)
  from add_window_steps [OF a] window_child_ok [OF w assms(2)] assms(3) show ?thesis
    by (auto simp: handled_def)
qed

lemma handle_parent_neighbors_handled:
  assumes "handle_parent_neighbors sha fr x c a st = Inr (o', st')"
    and "get_child (xp_store x) (an_chunk_id a) = Inr c"
    and "cs_strategy (xp_context x) = ''parent+neighbors''"
  shows "handled sha fr x a st o' st'"
proof -
  from assms(1) obtain po s1 where p: "handle_parent sha fr x c a st = Inr (po, s1)"
    by (auto simp: handle_parent_neighbors_def bind_res_Inr_iff)
  from handle_parent_handled [OF p assms(2)] assms(3) have h: "handled sha fr x a st po s1" by simp
  show ?thesis
  proof (cases "ao_stop_reason po = None")
    case False
    with assms(1) p h show ?thesis by (auto simp: handle_parent_neighbors_def)
  next
    case True
    with h have s: "(expand_step sha fr x a)\<^sup>*\<^sup>* st s1"
      by (auto simp: handled_def split: if_splits)
    from True assms(1) p obtain w dd where
      w: "neighbor_window_children (xp_store x) (cs_neighbor_window (xp_context x)) c = Inr w"
      and a: "add_window sha fr x (ex_full_parents s1) a w dd 0 s1 = Inr (o', st')"
      by (auto simp: handle_parent_neighbors_def bind_res_Inr_iff)
    from add_window_steps [OF a] window_child_ok [OF w assms(2)] assms(3) s show ?thesis
      by (auto simp: handled_def intro: rtranclp_trans)
  qed
qed

lemma handle_anchor_handled:
  assumes "handle_anchor sha fr x a st = Inr (o', st')"
  shows "handled sha fr x a st o' st'"
proof -
  from assms obtain c where "get_child (xp_store x) (an_chunk_id a) = Inr c"
    by (auto simp: handle_anchor_def bind_res_Inr_iff)
  with assms show ?thesis
    by (auto simp: handle_anchor_def Let_def handle_child_only_handled handle_parent_handled
        handle_neighbors_handled handle_parent_neighbors_handled split: if_splits)
qed

subsection \<open>Facts about units and rendering\<close>

text \<open>Every chunk of the store has the string fields its class guarantees.\<close>

definition store_wf :: "structure_store \<Rightarrow> bool" where
  "store_wf s \<longleftrightarrow> store_ok s \<and> (\<forall>(k, c) \<in> set (st_children s) \<union> set (st_parents s). wf_chunk c)"

lemma get_child_wf:
  assumes "store_wf s" and "get_child s i = Inr c"
  shows "wf_chunk c \<and> ck_chunk_id c = i \<and> is_nonempty_str i"
proof -
  have "(i, c) \<in> set (st_children s)" using assms(2) by (auto simp: get_child_iff dest: map_of_SomeD)
  with assms(1) have "wf_chunk c" by (auto simp: store_wf_def)
  moreover have "ck_chunk_id c = i" using assms store.child_law by (auto simp: store_wf_def)
  ultimately show ?thesis by (auto simp: wf_chunk_def)
qed

lemma get_parent_wf:
  assumes "store_wf s" and "resolve_parent_for_child s c = Inr p"
  shows "wf_chunk p \<and> ck_document_id p = ck_document_id c"
proof -
  from assms(2) obtain k where "map_of (st_parents s) k = Some p"
    and d: "ck_document_id p = ck_document_id c" by (auto simp: resolve_parent_iff)
  then have "(k, p) \<in> set (st_parents s)" by (auto dest: map_of_SomeD)
  with assms(1) d show ?thesis by (auto simp: store_wf_def)
qed

lemma trim_nonempty_id: "is_nonempty_str s \<Longrightarrow> trim s = s"
  by (simp add: is_nonempty_str_iff)

lemma child_unit_facts:
  assumes "make_child_evidence_unit sha fr cnt c i [i] rel dst = Inr u" and "wf_chunk c"
    and "is_nonempty_str i"
  shows "eu_source_chunk_id u = ck_chunk_id c" "eu_text u = ck_text c" "eu_text u \<noteq> []"
    "eu_document_id u = ck_document_id c" "eu_primary_anchor_chunk_id u = i"
    "eu_contributing_anchor_chunk_ids u = [i]" "eu_parent_chunk_id u = ck_parent_chunk_id c"
    "eu_kind u = Child_Unit" "\<not> eu_clipped u" "unit_named u"
proof -
  have p: "map_option trim (ck_parent_chunk_id c) = ck_parent_chunk_id c"
    using assms(2) by (cases "ck_parent_chunk_id c") (simp_all add: wf_chunk_def trim_nonempty_id)
  note f = mk_evidence_unit_InrD [OF assms(1) [unfolded make_child_evidence_unit_def], simplified]
  show "eu_source_chunk_id u = ck_chunk_id c" "eu_text u = ck_text c" "eu_text u \<noteq> []"
    "eu_document_id u = ck_document_id c" "eu_primary_anchor_chunk_id u = i"
    "eu_contributing_anchor_chunk_ids u = [i]" "eu_parent_chunk_id u = ck_parent_chunk_id c"
    "eu_kind u = Child_Unit" "\<not> eu_clipped u"
    using assms(2,3) p f(2)
    by (simp_all add: f(1,3-) wf_chunk_def trim_nonempty_id is_nonempty_str_iff)
  show "unit_named u"
    using assms(1) [unfolded make_child_evidence_unit_def] by (rule mk_evidence_unit_named) (simp add: ev_id_nonblank)
qed

lemma parent_unit_facts:
  assumes "make_parent_evidence_unit p d i [i] = Inr u" and "wf_chunk p" and "is_nonempty_str i"
  shows "eu_source_chunk_id u = ck_chunk_id p" "eu_text u = trim (dc_text d)" "eu_text u \<noteq> []"
    "eu_document_id u = ck_document_id p" "eu_primary_anchor_chunk_id u = i"
    "eu_contributing_anchor_chunk_ids u = [i]" "eu_kind u = Parent_Unit"
    "eu_clipped u = dc_clipped d"
proof -
  note f = mk_evidence_unit_InrD [OF assms(1) [unfolded make_parent_evidence_unit_def], simplified]
  show "eu_source_chunk_id u = ck_chunk_id p" "eu_text u = trim (dc_text d)" "eu_text u \<noteq> []"
    "eu_document_id u = ck_document_id p" "eu_primary_anchor_chunk_id u = i"
    "eu_contributing_anchor_chunk_ids u = [i]" "eu_kind u = Parent_Unit"
    "eu_clipped u = dc_clipped d"
    using assms(2,3) f(2) by (simp_all add: f(1,3-) wf_chunk_def trim_nonempty_id)
qed

lemma render_eq_Nil:
  "\<forall>u \<in> set us. eu_text u \<noteq> [] \<Longrightarrow> render_plain_evidence us = [] \<longleftrightarrow> us = []"
  unfolding render_plain_evidence_def by (subst join_eq_Nil) auto

lemma render_append:
  assumes "\<forall>u \<in> set us. eu_text u \<noteq> []"
  shows "render_plain_evidence (us @ [u]) = joined (render_plain_evidence us) (eu_text u)"
proof (cases "us = []")
  case True
  then show ?thesis by (simp add: render_plain_evidence_def joined_def)
next
  case False
  then have "join EVIDENCE_JOINER (map eu_text us @ [eu_text u]) =
      join EVIDENCE_JOINER (map eu_text us) @ EVIDENCE_JOINER @ eu_text u"
    by (intro join_append) simp
  moreover have "render_plain_evidence us \<noteq> []" using render_eq_Nil [OF assms] False by simp
  ultimately show ?thesis
    by (simp add: render_plain_evidence_def joined_def) (simp add: EVIDENCE_JOINER_def)
qed

lemma rendered_joined: "rendered_count cnt ex t = cnt (joined ex t)"
  by (simp add: rendered_count_def joined_def)

lemma fits_joined: "candidate_fits cnt m ex t \<longleftrightarrow> cnt (joined ex t) \<le> m"
  by (simp add: candidate_fits_def joined_def)

subsection \<open>The invariant\<close>

text \<open>A unit without the anchors attached to it later.\<close>

definition core :: "evidence_unit \<Rightarrow> evidence_unit" where
  "core u = u\<lparr>eu_contributing_anchor_chunk_ids := []\<rparr>"

lemma core_sel [simp]:
  "eu_source_chunk_id (core u) = eu_source_chunk_id u" "eu_text (core u) = eu_text u"
  "eu_kind (core u) = eu_kind u" "eu_clipped (core u) = eu_clipped u"
  "eu_parent_chunk_id (core u) = eu_parent_chunk_id u" "eu_document_id (core u) = eu_document_id u"
  "eu_primary_anchor_chunk_id (core u) = eu_primary_anchor_chunk_id u"
  by (simp_all add: core_def)

lemma unit_named_core [simp]: "unit_named (core u) \<longleftrightarrow> unit_named u"
  by (simp add: unit_named_def core_def)

lemma render_core: "render_plain_evidence (map core us) = render_plain_evidence us"
  by (simp add: render_plain_evidence_def comp_def)

text \<open>The unit belongs to the document of its primary anchor.\<close>

definition from_anchor :: "structure_store \<Rightarrow> evidence_unit \<Rightarrow> bool" where
  "from_anchor s u \<longleftrightarrow> (\<exists>c. get_child s (eu_primary_anchor_chunk_id u) = Inr c \<and>
     eu_document_id u = ck_document_id c)"

definition kind_allowed :: "string \<Rightarrow> evidence_unit \<Rightarrow> bool" where
  "kind_allowed strategy u \<longleftrightarrow>
     (if eu_kind u = Parent_Unit then strategy \<in> {''parent'', ''parent+neighbors''}
      else strategy \<noteq> ''parent'')"

text \<open>No child follows its whole parent.\<close>

definition contained :: "evidence_unit list \<Rightarrow> bool" where
  "contained us \<longleftrightarrow> (\<forall>i j. i < j \<and> j < length us \<and> eu_kind (us ! i) = Parent_Unit \<and>
     \<not> eu_clipped (us ! i) \<and> eu_kind (us ! j) = Child_Unit \<longrightarrow>
     eu_parent_chunk_id (us ! j) \<noteq> Some (eu_source_chunk_id (us ! i)))"

definition unit_ok :: "context_expander \<Rightarrow> evidence_unit \<Rightarrow> bool" where
  "unit_ok x u \<longleftrightarrow> unit_named u \<and> eu_text u \<noteq> [] \<and> eu_source_chunk_id u \<noteq> [] \<and> from_anchor (xp_store x) u \<and>
     kind_allowed (cs_strategy (xp_context x)) u"

definition owned_ok :: "evidence_unit list \<Rightarrow> (string \<times> nat) list \<Rightarrow> bool" where
  "owned_ok us owned \<longleftrightarrow>
     (\<forall>i k. map_of owned i = Some k \<longleftrightarrow> k < length us \<and> eu_source_chunk_id (us ! k) = i)"

definition full_parents_of :: "evidence_unit list \<Rightarrow> string set" where
  "full_parents_of us = {eu_source_chunk_id u | u. u \<in> set us \<and> eu_kind u = Parent_Unit \<and> \<not> eu_clipped u}"

definition within_budget :: "context_expander \<Rightarrow> evidence_unit list \<Rightarrow> bool" where
  "within_budget x us \<longleftrightarrow>
     us = [] \<or> xp_counter x (render_plain_evidence us) \<le> cs_max_context_tokens (xp_context x)"

definition good_units :: "context_expander \<Rightarrow> evidence_unit list \<Rightarrow> (string \<times> nat) list \<Rightarrow> bool" where
  "good_units x us owned \<longleftrightarrow> (\<forall>u \<in> set us. unit_ok x u) \<and> owned_ok us owned \<and> contained us"

definition good :: "context_expander \<Rightarrow> expand_state \<Rightarrow> bool" where
  "good x st \<longleftrightarrow> good_units x (map core (ex_units st)) (ex_owned st) \<and>
     (\<forall>u \<in> set (ex_units st). \<not> eu_clipped u) \<and>
     ex_full_parents st = full_parents_of (map core (ex_units st)) \<and>
     within_budget x (map core (ex_units st))"

lemma owned_ok_append:
  assumes "owned_ok us owned" and "map_of owned (eu_source_chunk_id u) = None"
  shows "owned_ok (us @ [u]) (dict_set (eu_source_chunk_id u) (length us) owned)"
proof -
  have n: "k < length us \<Longrightarrow> eu_source_chunk_id (us ! k) \<noteq> eu_source_chunk_id u" for k
    using assms unfolding owned_ok_def by (metis option.distinct(1))
  show ?thesis
    using assms(1) n by (auto simp: owned_ok_def nth_append less_Suc_eq)
qed

lemma owned_ok_distinct: "owned_ok us owned \<Longrightarrow> distinct (map eu_source_chunk_id us)"
  unfolding owned_ok_def distinct_conv_nth by (metis length_map nth_map option.inject)

lemma contained_append:
  assumes "contained us" and "eu_kind u = Child_Unit \<Longrightarrow>
    \<forall>p. eu_parent_chunk_id u = Some p \<longrightarrow> p \<notin> full_parents_of us"
  shows "contained (us @ [u])"
proof -
  have "eu_source_chunk_id (us ! i) \<in> full_parents_of us"
    if "i < length us" "eu_kind (us ! i) = Parent_Unit" "\<not> eu_clipped (us ! i)" for i
    using that by (auto simp: full_parents_of_def)
  with assms show ?thesis
    by (auto simp: contained_def nth_append less_Suc_eq)
qed

lemma good_units_append:
  assumes "good_units x us owned" and "unit_ok x u"
    and "map_of owned (eu_source_chunk_id u) = None"
    and "eu_kind u = Child_Unit \<Longrightarrow> \<forall>p. eu_parent_chunk_id u = Some p \<longrightarrow> p \<notin> full_parents_of us"
  shows "good_units x (us @ [u]) (dict_set (eu_source_chunk_id u) (length us) owned)"
  using assms by (auto simp: good_units_def intro: owned_ok_append contained_append)

subsection \<open>Steps keep the invariant\<close>

lemma record_dedup_core:
  assumes "record_dedup i a st = (b, st')"
  shows "map core (ex_units st') = map core (ex_units st)" "ex_owned st' = ex_owned st"
    "ex_full_parents st' = ex_full_parents st"
    "map eu_clipped (ex_units st') = map eu_clipped (ex_units st)"
proof -
  have core: "core (u\<lparr>eu_contributing_anchor_chunk_ids := c\<rparr>) = core u" for u c
    by (simp add: core_def)
  have upd: "map f (us[k := v]) = map f us" if "f v = f (us ! k)"
    for f :: "evidence_unit \<Rightarrow> 'z" and us v k
    using that by (metis list_update_id list_update_beyond map_update not_less nth_map
        length_list_update length_map)
  show "map core (ex_units st') = map core (ex_units st)" "ex_owned st' = ex_owned st"
    "ex_full_parents st' = ex_full_parents st"
    "map eu_clipped (ex_units st') = map eu_clipped (ex_units st)"
    using assms
    by (auto simp: record_dedup_def Let_def upd core split: option.splits if_splits)
qed

lemma good_attach:
  assumes "record_dedup i a st = (b, st')" and "good x st"
  shows "good x st'"
proof -
  have "set (map eu_clipped (ex_units st')) = set (map eu_clipped (ex_units st))"
    using record_dedup_core(4) [OF assms(1)] by simp
  then have "(\<forall>u \<in> set (ex_units st'). \<not> eu_clipped u) \<longleftrightarrow> (\<forall>u \<in> set (ex_units st). \<not> eu_clipped u)"
    by (auto simp: set_eq_iff)
  with assms(2) record_dedup_core [OF assms(1)] show ?thesis by (simp add: good_def)
qed

lemma full_parents_append: "full_parents_of (us @ [u]) =
    (if eu_kind u = Parent_Unit \<and> \<not> eu_clipped u then insert (eu_source_chunk_id u) (full_parents_of us)
     else full_parents_of us)"
  by (auto simp: full_parents_of_def)

lemma budget_append:
  assumes "\<forall>u \<in> set us. eu_text u \<noteq> []"
    and "xp_counter x (joined (render_plain_evidence us) (eu_text u)) \<le> cs_max_context_tokens (xp_context x)"
  shows "within_budget x (us @ [u])"
  using assms by (simp add: within_budget_def render_append)

lemma unit_ok_core [simp]: "unit_ok x (core u) \<longleftrightarrow> unit_ok x u"
  by (simp add: unit_ok_def from_anchor_def kind_allowed_def)

text \<open>Appending a unit to a good state, with the whole parents it leaves.\<close>

lemma good_append:
  assumes "good x st" and "unit_ok x u" and "\<not> eu_clipped u"
    and "map_of (ex_owned st) (eu_source_chunk_id u) = None"
    and "eu_kind u = Child_Unit \<Longrightarrow> \<forall>p. eu_parent_chunk_id u = Some p \<longrightarrow> p \<notin> ex_full_parents st"
    and "xp_counter x (joined (render_plain_evidence (ex_units st)) (eu_text u)) \<le>
      cs_max_context_tokens (xp_context x)"
  shows "good x ((append_unit (eu_source_chunk_id u) u st)\<lparr>ex_full_parents :=
    (if eu_kind u = Parent_Unit then insert (eu_source_chunk_id u) (ex_full_parents st)
     else ex_full_parents st)\<rparr>)"
proof -
  let ?us = "map core (ex_units st)"
  from assms(1) have g: "good_units x ?us (ex_owned st)" "ex_full_parents st = full_parents_of ?us"
    by (simp_all add: good_def)
  have u: "unit_ok x (core u)" using assms(2) by (simp only: unit_ok_core)
  have "good_units x (?us @ [core u]) (dict_set (eu_source_chunk_id (core u)) (length ?us) (ex_owned st))"
    by (rule good_units_append [OF g(1) u]) (use assms g(2) in simp_all)
  moreover have "within_budget x (?us @ [core u])"
  proof (rule budget_append)
    show "\<forall>u \<in> set ?us. eu_text u \<noteq> []" using g(1) by (auto simp: good_units_def unit_ok_def)
  qed (use assms(6) in \<open>simp add: render_core\<close>)
  ultimately show ?thesis
    using assms(1,3) by (auto simp: good_def append_unit_def full_parents_append)
qed

lemma good_texts: "good x st \<Longrightarrow> \<forall>u \<in> set (ex_units st). eu_text u \<noteq> []"
  by (auto simp: good_def good_units_def unit_ok_def)

lemma emits_facts:
  assumes "emits sha fr x a st p d u" and "store_wf (xp_store x)"
  shows "unit_ok x u" "eu_source_chunk_id u = ck_chunk_id p" "eu_kind u = Parent_Unit"
    "eu_clipped u = dc_clipped d" "eu_text u = trim (dc_text d)"
    "map_of (ex_owned st) (eu_source_chunk_id u) = None"
    "xp_counter x (joined (render_plain_evidence (ex_units st)) (dc_text d)) \<le>
      cs_max_context_tokens (xp_context x)"
    "\<not> dc_clipped d \<Longrightarrow> eu_text u = dc_text d"
    "eu_primary_anchor_chunk_id u = an_chunk_id a"
    "eu_contributing_anchor_chunk_ids u = [an_chunk_id a]"
proof -
  from assms(1) obtain c where c: "get_child (xp_store x) (an_chunk_id a) = Inr c"
    and p: "resolve_parent_for_child (xp_store x) c = Inr p"
    and e: "try_emit_parent sha fr (xp_counter x) (cs_max_context_tokens (xp_context x))
         (render_plain_evidence (ex_units st)) p c = Inr (Some d)"
    and m: "make_parent_evidence_unit p d (an_chunk_id a) [an_chunk_id a] = Inr u"
    and st: "cs_strategy (xp_context x) \<in> {''parent'', ''parent+neighbors''}"
    and n: "map_of (ex_owned st) (ck_chunk_id p) = None"
    by (auto simp: emits_def)
  from get_child_wf [OF assms(2) c] have i: "is_nonempty_str (an_chunk_id a)" by simp
  from get_parent_wf [OF assms(2) p] have wf: "wf_chunk p" and doc: "ck_document_id p = ck_document_id c"
    by simp_all
  note f = parent_unit_facts [OF m wf i]
  from try_emit_cases [where sha = sha and fr = fr and cnt = "xp_counter x"
      and m = "cs_max_context_tokens (xp_context x)" and ex = "render_plain_evidence (ex_units st)"
      and p = p and a = c] e
  have "nonblank (dc_evidence_unit_id d)"
    by (auto simp: full_decision_def clipped_decision_def Let_def ev_id_nonblank split: if_splits)
  then have "unit_named u"
    by (intro mk_evidence_unit_named [OF m [unfolded make_parent_evidence_unit_def]]) simp
  then show "unit_ok x u"
    using f c doc st wf by (auto simp: unit_ok_def from_anchor_def kind_allowed_def wf_chunk_def
        is_nonempty_str_iff)
  show "eu_source_chunk_id u = ck_chunk_id p" "eu_kind u = Parent_Unit" "eu_clipped u = dc_clipped d"
    "eu_text u = trim (dc_text d)" "eu_primary_anchor_chunk_id u = an_chunk_id a"
    "eu_contributing_anchor_chunk_ids u = [an_chunk_id a]"
    by (rule f)+
  show "map_of (ex_owned st) (eu_source_chunk_id u) = None" using n f by simp
  from try_emit_cases [where sha = sha and fr = fr and cnt = "xp_counter x"
      and m = "cs_max_context_tokens (xp_context x)" and ex = "render_plain_evidence (ex_units st)"
      and p = p and a = c] e
  have d: "rendered_count (xp_counter x) (render_plain_evidence (ex_units st)) (dc_text d) \<le>
      cs_max_context_tokens (xp_context x)" "\<not> dc_clipped d \<Longrightarrow> dc_text d = ck_text p"
    by (auto simp: full_decision_def split: if_splits)
  then show "xp_counter x (joined (render_plain_evidence (ex_units st)) (dc_text d)) \<le>
      cs_max_context_tokens (xp_context x)" by (simp add: rendered_joined)
  show "\<not> dc_clipped d \<Longrightarrow> eu_text u = dc_text d"
    using d(2) f(2) wf by (simp add: wf_chunk_def trim_nonempty_id)
qed

lemma no_parents_yet:
  assumes "good x st" and "cs_strategy (xp_context x) \<noteq> ''parent''"
    and "cs_strategy (xp_context x) \<noteq> ''parent+neighbors''"
  shows "ex_full_parents st = {}"
  using assms
  by (auto simp: good_def good_units_def full_parents_of_def unit_ok_def kind_allowed_def split: if_splits)

lemma full_parents_named: "good x st \<Longrightarrow> [] \<notin> ex_full_parents st"
  by (auto simp: good_def good_units_def full_parents_of_def unit_ok_def)

lemma step_good:
  assumes "expand_step sha fr x a st st'" and "good x st" and "store_wf (xp_store x)"
  shows "good x st'"
  using assms(1)
proof cases
  case (attach i)
  then show ?thesis using assms(2) by (rule good_attach)
next
  case (add_child c rel dst u)
  from add_child(3) obtain i c0 where c: "get_child (xp_store x) i = Inr c"
    and c0: "get_child (xp_store x) (an_chunk_id a) = Inr c0"
    and doc: "ck_document_id c = ck_document_id c0" by (auto simp: child_ok_def)
  have "wf_chunk c" and "is_nonempty_str (an_chunk_id a)"
    using get_child_wf [OF assms(3) c] get_child_wf [OF assms(3) c0] by simp_all
  note f = child_unit_facts [OF add_child(7) this]
  have id: "ck_chunk_id c \<noteq> []" using \<open>wf_chunk c\<close> by (simp add: wf_chunk_def is_nonempty_str_iff)
  have "unit_ok x u"
    using f c0 doc add_child(4) id by (simp add: unit_ok_def from_anchor_def kind_allowed_def)
  moreover have "\<forall>p. eu_parent_chunk_id u = Some p \<longrightarrow> p \<notin> ex_full_parents st"
  proof (cases "cs_strategy (xp_context x) = ''parent+neighbors''")
    case True
    with add_child(5) f(7) full_parents_named [OF assms(2)] show ?thesis by (auto) 
  next
    case False
    with no_parents_yet [OF assms(2) add_child(4)] show ?thesis by simp
  qed
  ultimately have "good x ((append_unit (eu_source_chunk_id u) u st)\<lparr>ex_full_parents :=
      (if eu_kind u = Parent_Unit then insert (eu_source_chunk_id u) (ex_full_parents st)
       else ex_full_parents st)\<rparr>)"
    using f add_child(2,6) by (intro good_append [OF assms(2)]) (simp_all add: fits_joined)
  then show ?thesis using f add_child(1) by (simp add: append_unit_def)
next
  case (add_parent p d u s1)
  note f = emits_facts [OF add_parent(2) assms(3)]
  have "good x ((append_unit (eu_source_chunk_id u) u st)\<lparr>ex_full_parents :=
      (if eu_kind u = Parent_Unit then insert (eu_source_chunk_id u) (ex_full_parents st)
       else ex_full_parents st)\<rparr>)"
    using f add_parent(3) by (intro good_append [OF assms(2)]) simp_all
  then show ?thesis using f(2,3) add_parent(1,4) by (simp add: append_unit_def)
qed

lemma steps_good:
  "(expand_step sha fr x a)\<^sup>*\<^sup>* st st' \<Longrightarrow> good x st \<Longrightarrow> store_wf (xp_store x) \<Longrightarrow> good x st'"
  by (induction rule: rtranclp_induct) (auto intro: step_good)

lemma good_state0: "good x state0"
  by (simp add: good_def state0_def good_units_def owned_ok_def contained_def full_parents_of_def
      within_budget_def)

subsection \<open>Provenance\<close>

text \<open>The anchors of a unit: its primary one first, no repetition, all of them processed.\<close>

definition anchored :: "string set \<Rightarrow> evidence_unit \<Rightarrow> bool" where
  "anchored done u \<longleftrightarrow> eu_contributing_anchor_chunk_ids u \<noteq> [] \<and>
     hd (eu_contributing_anchor_chunk_ids u) = eu_primary_anchor_chunk_id u \<and>
     distinct (eu_contributing_anchor_chunk_ids u) \<and>
     set (eu_contributing_anchor_chunk_ids u) \<subseteq> done"

lemma anchored_mono: "anchored A u \<Longrightarrow> A \<subseteq> B \<Longrightarrow> anchored B u"
  by (auto simp: anchored_def)

lemma attach_anchored:
  assumes "record_dedup i a st = (b, st')" and "a \<in> A"
    and "\<forall>u \<in> set (ex_units st). anchored A u" and "owned_ok (map core (ex_units st)) (ex_owned st)"
  shows "\<forall>u \<in> set (ex_units st'). anchored A u"
proof (cases "map_of (ex_owned st) i")
  case None
  with assms show ?thesis by (simp add: record_dedup_def)
next
  case (Some k)
  with assms(4) have k: "k < length (ex_units st)" by (auto simp: owned_ok_def)
  let ?u = "ex_units st ! k"
  have u: "anchored A ?u" using k assms(3) by simp
  have "anchored A (?u\<lparr>eu_contributing_anchor_chunk_ids := eu_contributing_anchor_chunk_ids ?u @ [a]\<rparr>)"
    if "a \<notin> set (eu_contributing_anchor_chunk_ids ?u)"
    using u that assms(2) by (auto simp: anchored_def hd_append)
  then have "\<forall>u \<in> set ((ex_units st)[k := ?u\<lparr>eu_contributing_anchor_chunk_ids :=
      eu_contributing_anchor_chunk_ids ?u @ [a]\<rparr>]). anchored A u"
    if "a \<notin> set (eu_contributing_anchor_chunk_ids ?u)"
    using that assms(3) set_update_subset_insert [of "ex_units st" k] by blast
  with Some assms(1,3) show ?thesis by (auto simp: record_dedup_def Let_def split: if_splits)
qed

lemma anchored_single: "eu_contributing_anchor_chunk_ids u = [i] \<Longrightarrow> eu_primary_anchor_chunk_id u = i \<Longrightarrow>
    i \<in> A \<Longrightarrow> anchored A u"
  by (simp add: anchored_def)

lemma step_anchored:
  assumes "expand_step sha fr x a st st'" and "good x st" and "store_wf (xp_store x)"
    and "an_chunk_id a \<in> A" and "\<forall>u \<in> set (ex_units st). anchored A u"
  shows "\<forall>u \<in> set (ex_units st'). anchored A u"
  using assms(1)
proof cases
  case (attach i)
  have "owned_ok (map core (ex_units st)) (ex_owned st)"
    using assms(2) by (simp add: good_def good_units_def)
  from attach_anchored [OF attach assms(4,5) this] show ?thesis .
next
  case (add_child c rel dst u)
  from add_child(3) obtain i c0 where c: "get_child (xp_store x) i = Inr c"
    and c0: "get_child (xp_store x) (an_chunk_id a) = Inr c0" by (auto simp: child_ok_def)
  have "wf_chunk c" and "is_nonempty_str (an_chunk_id a)"
    using get_child_wf [OF assms(3) c] get_child_wf [OF assms(3) c0] by simp_all
  note f = child_unit_facts [OF add_child(7) this]
  from anchored_single [OF f(6,5) assms(4)] assms(5) add_child(1) show ?thesis
    by (auto simp: append_unit_def)
next
  case (add_parent p d u s1)
  note f = emits_facts [OF add_parent(2) assms(3)]
  from anchored_single [OF f(10,9) assms(4)] assms(5) add_parent(1,4) show ?thesis
    by (auto simp: append_unit_def)
qed

lemma steps_anchored:
  assumes "(expand_step sha fr x a)\<^sup>*\<^sup>* st st'" and "good x st" and "store_wf (xp_store x)"
    and "an_chunk_id a \<in> A" and "\<forall>u \<in> set (ex_units st). anchored A u"
  shows "\<forall>u \<in> set (ex_units st'). anchored A u"
  using assms(1)
proof (induction rule: rtranclp_induct)
  case base
  show ?case by (rule assms(5))
next
  case (step s1 s2)
  from steps_good [OF step(1) assms(2,3)] have "good x s1" .
  from step_anchored [OF step(2) this assms(3,4) step(3)] show ?case .
qed

end
