(* ===== verification/Expansion_Properties.thy ===== *)
theory Expansion_Properties
  imports Expand_Inv
begin

section \<open>Properties of context expansion\<close>

text \<open>
  The invariants of \<open>Expand_Inv\<close> carried through the loop over the anchors, and what they say of
  the result of \<open>ContextExpander.expand\<close>: budget, structure and provenance.
\<close>

subsection \<open>The loop\<close>

definition run_end ::
    "digest \<Rightarrow> (pyfloat \<Rightarrow> string) \<Rightarrow> context_expander \<Rightarrow> expand_totals \<Rightarrow> expand_state \<Rightarrow> bool" where
  "run_end sha fr x t st \<longleftrightarrow>
     (if tt_clipping_occurred t then
        tt_stop_reason t = STOP_PARENT_CLIPPED_TO_BUDGET \<and>
        (\<exists>a s1. good x s1 \<and> clip_step sha fr x a s1 st)
      else tt_stop_reason t \<noteq> STOP_PARENT_CLIPPED_TO_BUDGET \<and> good x st)"

lemma expand_loop_end:
  assumes "expand_loop sha fr x as t st = Inr (t', st')" and "store_wf (xp_store x)"
    and "good x st" and "\<not> tt_clipping_occurred t"
    and "tt_stop_reason t \<noteq> STOP_PARENT_CLIPPED_TO_BUDGET"
    and "an_chunk_id ` set as \<subseteq> A" and "\<forall>u \<in> set (ex_units st). anchored A u"
  shows "run_end sha fr x t' st' \<and> (\<forall>u \<in> set (ex_units st'). anchored A u)"
  using assms
proof (induction "as" arbitrary: t st)
  case Nil
  then show ?case by (simp add: run_end_def)
next
  case (Cons a as)
  from Cons.prems(1) obtain o' s1 where h: "handle_anchor sha fr x a st = Inr (o', s1)"
    by (auto simp: bind_res_Inr_iff)
  note hd = handle_anchor_handled [OF h]
  have a: "an_chunk_id a \<in> A" using Cons.prems(6) by simp
  show ?case
  proof (cases "ao_clipping_occurred o'")
    case True
    with hd have "ao_stop_reason o' = Some STOP_PARENT_CLIPPED_TO_BUDGET"
      and c: "clip_step sha fr x a st s1" by (auto simp: handled_def)
    with Cons.prems(1) h True have "tt_clipping_occurred t'" "st' = s1"
      "tt_stop_reason t' = STOP_PARENT_CLIPPED_TO_BUDGET"
      by (auto simp: add_outcome_def Let_def)
    moreover have "\<forall>u \<in> set (ex_units s1). anchored A u"
      using c
    proof cases
      case (add_clipped p d u)
      note f = emits_facts [OF add_clipped(2) Cons.prems(2)]
      from anchored_single [OF f(10,9) a] Cons.prems(7) add_clipped(1) show ?thesis
        by (auto simp: append_unit_def)
    qed
    ultimately show ?thesis using c Cons.prems(3) by (auto simp: run_end_def)
  next
    case False
    with hd have st: "(expand_step sha fr x a)\<^sup>*\<^sup>* st s1"
      and r: "ao_stop_reason o' \<noteq> Some STOP_PARENT_CLIPPED_TO_BUDGET" by (auto simp: handled_def)
    have g: "good x s1" using steps_good [OF st Cons.prems(3,2)] .
    have an: "\<forall>u \<in> set (ex_units s1). anchored A u"
      by (rule steps_anchored [OF st Cons.prems(3,2) a Cons.prems(7)])
    show ?thesis
    proof (cases "ao_stop_reason o'")
      case None
      with Cons.prems(1) h have l: "expand_loop sha fr x as (add_outcome o' t) s1 = Inr (t', st')"
        by (simp add: Let_def)
      show ?thesis
        by (rule Cons.IH [OF l Cons.prems(2) g]) (use Cons.prems False an in \<open>auto simp: add_outcome_def\<close>)
    next
      case (Some q)
      with Cons.prems(1,4) h False have "st' = s1" "tt_stop_reason t' = q" "\<not> tt_clipping_occurred t'"
        by (auto simp: add_outcome_def Let_def)
      with Some r g an show ?thesis by (simp add: run_end_def)
    qed
  qed
qed

text \<open>What holds of the units at the end, clipped or not.\<close>

lemma run_end_units:
  assumes "run_end sha fr x t st" and "store_wf (xp_store x)"
  shows "good_units x (map core (ex_units st)) (ex_owned st)"
    "\<forall>u \<in> set (butlast (ex_units st)). \<not> eu_clipped u"
    "tt_clipping_occurred t \<longleftrightarrow> ex_units st \<noteq> [] \<and> eu_clipped (last (ex_units st))"
proof -
  have "good_units x (map core (ex_units st)) (ex_owned st) \<and>
    (\<forall>u \<in> set (butlast (ex_units st)). \<not> eu_clipped u) \<and>
    (tt_clipping_occurred t \<longleftrightarrow> ex_units st \<noteq> [] \<and> eu_clipped (last (ex_units st)))"
  proof (cases "tt_clipping_occurred t")
    case True
    with assms(1) obtain a s1 where g: "good x s1" and c: "clip_step sha fr x a s1 st"
      by (auto simp: run_end_def)
    from c show ?thesis
    proof cases
      case (add_clipped p d u)
      note f = emits_facts [OF add_clipped(2) assms(2)]
      have "good_units x (map core (ex_units s1) @ [core u])
          (dict_set (eu_source_chunk_id (core u)) (length (map core (ex_units s1))) (ex_owned s1))"
        by (rule good_units_append) (use g f in \<open>simp_all add: good_def\<close>)
      with add_clipped(1,3) f True g show ?thesis by (simp add: append_unit_def good_def)
    qed
  next
    case False
    with assms(1) show ?thesis
      by (cases "ex_units st" rule: rev_cases) (auto simp: run_end_def good_def)
  qed
  then show "good_units x (map core (ex_units st)) (ex_owned st)"
    "\<forall>u \<in> set (butlast (ex_units st)). \<not> eu_clipped u"
    "tt_clipping_occurred t \<longleftrightarrow> ex_units st \<noteq> [] \<and> eu_clipped (last (ex_units st))" by blast+
qed

text \<open>The law a counter must obey for the budget: stripping the last text never costs a token.\<close>

definition trim_monotone :: "token_counter \<Rightarrow> bool" where
  "trim_monotone cnt \<longleftrightarrow> (\<forall>e t. cnt (joined e (trim t)) \<le> cnt (joined e t))"

lemma run_end_budget:
  assumes "run_end sha fr x t st" and "store_wf (xp_store x)"
    and "tt_clipping_occurred t \<Longrightarrow> trim_monotone (xp_counter x)"
  shows "within_budget x (ex_units st)"
proof (cases "tt_clipping_occurred t")
  case True
  with assms(1) obtain a s1 where g: "good x s1" and c: "clip_step sha fr x a s1 st"
    by (auto simp: run_end_def)
  from c show ?thesis
  proof cases
    case (add_clipped p d u)
    note f = emits_facts [OF add_clipped(2) assms(2)]
    have "xp_counter x (joined (render_plain_evidence (ex_units s1)) (eu_text u)) \<le>
        xp_counter x (joined (render_plain_evidence (ex_units s1)) (dc_text d))"
      using assms(3) [OF True] by (simp add: trim_monotone_def f(5))
    with f(7) have "within_budget x (ex_units s1 @ [u])"
      by (intro budget_append good_texts [OF g]) simp
    with add_clipped(1) show ?thesis by (simp add: append_unit_def)
  qed
next
  case False
  with assms(1) show ?thesis by (auto simp: run_end_def good_def within_budget_def render_core)
qed

lemma finish_expand_within:
  "within_budget x (ex_units st) \<Longrightarrow> \<exists>r. finish_expand x n t st = Inr r"
  by (auto simp: finish_expand_def within_budget_def render_plain_evidence_def Let_def)

lemma expand_Inr_cases:
  assumes "expand sha fr x anchors = Inr r" and "store_wf (xp_store x)"
  obtains (none) "anchors = []" "xc_evidence_units r = []"
    "xc_diagnostics r = no_anchors_diagnostics x"
  | (run) t st where "anchors \<noteq> []" "run_end sha fr x t st"
      "\<forall>u \<in> set (ex_units st). anchored (an_chunk_id ` set anchors) u"
      "finish_expand x (length anchors) t st = Inr r" "xc_evidence_units r = ex_units st"
proof (cases "anchors = []")
  case True
  with assms none show ?thesis by (auto simp: expand_def order_anchors_def)
next
  case False
  then have "order_anchors anchors \<noteq> []" "length (order_anchors anchors) = length anchors"
    "set (order_anchors anchors) = set anchors"
    by (auto simp: order_anchors_def) (metis length_0_conv length_sort)
  with assms(1) obtain t st where
    l: "expand_loop sha fr x (order_anchors anchors) totals0 state0 = Inr (t, st)"
    and f: "finish_expand x (length anchors) t st = Inr r"
    by (auto simp: expand_def bind_res_Inr_iff)
  have "run_end sha fr x t st \<and> (\<forall>u \<in> set (ex_units st). anchored (an_chunk_id ` set anchors) u)"
    by (rule expand_loop_end [OF l assms(2) good_state0])
      (use \<open>set (order_anchors anchors) = set anchors\<close> in \<open>auto simp: totals0_def state0_def\<close>)
  moreover have "xc_evidence_units r = ex_units st"
    using f by (auto simp: finish_expand_def Let_def split: if_splits)
  ultimately show ?thesis using run False f by blast
qed

subsection \<open>Units can always be built\<close>

lemma req_str_prefixed: "\<exists>t. req_str (''ev_'' @ x) = Inr t"
  by (auto simp: req_str_Inr trim_def strip_by_eq_Nil_iff uni_isspace_def)

lemma make_child_total:
  assumes "wf_chunk c" and "is_nonempty_str i" and "is_nonempty_str rel"
  shows "\<exists>u. make_child_evidence_unit sha fr cnt c i [i] (Some rel) dst = Inr u"
proof -
  obtain t where t: "req_str (full_evidence_unit_id sha fr (ck_chunk_id c)) = Inr t"
    using req_str_prefixed
    by (auto simp: full_evidence_unit_id_def evidence_unit_id_from_payload_def hashed_def)
  have "opt_str (ck_parent_chunk_id c) = Inr (ck_parent_chunk_id c)"
    by (rule opt_str_id) (use assms(1) in \<open>simp add: wf_chunk_def\<close>)
  with assms t show ?thesis
    by (simp add: make_child_evidence_unit_def mk_evidence_unit_def wf_chunk_def req_str_id opt_str_def)
qed

lemma make_parent_total:
  assumes "wf_chunk p" and "is_nonempty_str i" and "trim (dc_text d) \<noteq> []"
    and "req_str (dc_evidence_unit_id d) = Inr t"
  shows "\<exists>u. make_parent_evidence_unit p d i [i] = Inr u"
proof -
  have "req_str (dc_text d) = Inr (trim (dc_text d))" using assms(3) by (simp add: req_str_Inr)
  with assms(1,2,4) show ?thesis
    by (simp add: make_parent_evidence_unit_def mk_evidence_unit_def wf_chunk_def req_str_id opt_str_def)
qed

lemma rel_strs: "is_nonempty_str ''anchor''" "is_nonempty_str ''previous''" "is_nonempty_str ''next''"
  by (simp_all add: is_nonempty_str_iff trim_def strip_by_def uni_isspace_def)

lemma try_add_total:
  assumes "wf_chunk c" and "is_nonempty_str (an_chunk_id a)" and "is_nonempty_str rel"
  shows "\<exists>q. try_add_child_unit sha fr x full c a rel d st = Inr q"
  using make_child_total [OF assms, of sha fr "xp_counter x" "Some d"]
  by (cases "record_dedup (ck_chunk_id c) (an_chunk_id a) st") (auto simp: try_add_child_unit_def split: bool.split)

lemma add_window_total:
  assumes "is_nonempty_str (an_chunk_id a)" and "\<forall>(c, rel, d) \<in> set w. wf_chunk c \<and> is_nonempty_str rel"
  shows "\<exists>q. add_window sha fr x full a w dd ss st = Inr q"
  using assms(2)
proof (induction w arbitrary: dd ss st)
  case (Cons m w)
  obtain c rel d where m: "m = (c, rel, d)" by (cases m) auto
  with Cons.prems have "wf_chunk c" "is_nonempty_str rel" by auto
  with try_add_total assms(1) obtain out s1 where
    t: "try_add_child_unit sha fr x full c a rel d st = Inr (out, s1)" by (metis surj_pair)
  show ?case
  proof (cases out)
    case None
    with m t Cons.IH [of dd ss s1] Cons.prems show ?thesis by auto
  next
    case (Some q)
    with m t Cons.IH [of "dd + ao_dedup_hits q" "ss + ao_containment_suppressions q" s1] Cons.prems
    show ?thesis by (cases "ao_stop_reason q") (auto simp: Let_def)
  qed
qed simp

text \<open>An empty link report means that no walk over the links can fail.\<close>

lemma report_link:
  assumes "validate_neighbor_links s = []" and "get_child s i = Inr c"
    and "ck_previous_chunk_id c = Some j \<or> ck_next_chunk_id c = Some j"
  shows "\<exists>n. get_child s j = Inr n \<and> ck_document_id n = ck_document_id c"
proof -
  from assms(2) have "(i, c) \<in> set (st_children s)" by (auto simp: get_child_iff dest: map_of_SomeD)
  with assms(1) have "neighbor_link_problems s i c ''previous_chunk_id'' (ck_previous_chunk_id c) = []"
    "neighbor_link_problems s i c ''next_chunk_id'' (ck_next_chunk_id c) = []"
    by (auto simp: validate_neighbor_links_def concat_eq_Nil_conv)
  with assms(3) obtain nm where "neighbor_link_problems s i c nm (Some j) = []" by auto
  then show ?thesis
    by (auto simp: neighbor_link_problems_def get_child_iff split: option.splits if_splits)
qed

lemma walk_total:
  assumes "validate_neighbor_links s = []"
    and "link = ck_previous_chunk_id \<or> link = ck_next_chunk_id"
    and "get_child s i = Inr cur" and "ck_document_id cur = ck_document_id anchor"
  shows "\<exists>cs. walk_chain link s anchor n cur = Inr cs"
  using assms(3,4)
proof (induction n arbitrary: i cur)
  case (Suc n)
  show ?case
  proof (cases "link cur")
    case (Some j)
    with assms(2) have "ck_previous_chunk_id cur = Some j \<or> ck_next_chunk_id cur = Some j" by auto
    from report_link [OF assms(1) Suc.prems(1) this] obtain nb where
      nb: "get_child s j = Inr nb" "ck_document_id nb = ck_document_id cur" by blast
    with Suc.prems(2) have d: "ck_document_id nb = ck_document_id anchor" by simp
    from Suc.IH [OF nb(1) d] obtain cs where "walk_chain link s anchor n nb = Inr cs" by blast
    with Some nb(1) d have "walk_chain link s anchor (Suc n) cur = Inr (nb # cs)" by simp
    then show ?thesis by blast
  qed simp
qed simp

lemma window_total:
  assumes "validate_neighbor_links s = []" and "get_child s i = Inr c"
  shows "\<exists>w. neighbor_window_children s n c = Inr w"
proof -
  from walk_total [OF assms(1) disjI1 [OF refl] assms(2) refl] obtain ps where
    p: "walk_chain ck_previous_chunk_id s c n c = Inr ps" ..
  from walk_total [OF assms(1) disjI2 [OF refl] assms(2) refl] obtain ns where
    "walk_chain ck_next_chunk_id s c n c = Inr ns" ..
  with p show ?thesis by (simp add: neighbor_window_children_def)
qed

lemma window_wf:
  assumes "neighbor_window_children s n c = Inr w" and "store_wf s" and "get_child s i = Inr c"
    and "(c', rel, d) \<in> set w"
  shows "wf_chunk c' \<and> is_nonempty_str rel"
proof -
  let ?x = "\<lparr>xp_store = s, xp_counter = \<lambda>_. 0, xp_context = undefined\<rparr>"
  have "child_ok ?x \<lparr>an_chunk_id = i, an_rank = 0\<rparr> c'"
    by (rule window_child_ok [of ?x n c w]) (use assms in simp_all)
  then obtain j where "get_child s j = Inr c'" by (auto simp: child_ok_def)
  with get_child_wf [OF assms(2)] have "wf_chunk c'" by blast
  moreover have "rel \<in> {''anchor'', ''previous'', ''next''}"
    using assms(1,4) by (auto simp: neighbor_window_children_def bind_res_Inr_iff)
  ultimately show ?thesis using rel_strs by auto
qed

lemma handle_anchor_total:
  assumes "store_wf (xp_store x)" and "get_child (xp_store x) (an_chunk_id a) = Inr c"
    and "cs_strategy (xp_context x) = ''child-only'' \<or>
      cs_strategy (xp_context x) = ''neighbors'' \<and> validate_neighbor_links (xp_store x) = []"
  shows "\<exists>q. handle_anchor sha fr x a st = Inr q"
proof -
  from get_child_wf [OF assms(1,2)] have wf: "wf_chunk c" "is_nonempty_str (an_chunk_id a)" by simp_all
  from assms(3) show ?thesis
  proof
    assume "cs_strategy (xp_context x) = ''child-only''"
    with make_child_total [OF wf rel_strs(1), of sha fr "xp_counter x" "Some 0"] assms(2)
    show ?thesis
      by (cases "record_dedup (ck_chunk_id c) (an_chunk_id a) st")
        (auto simp: handle_anchor_def handle_child_only_def split: bool.split)
  next
    assume n: "cs_strategy (xp_context x) = ''neighbors'' \<and> validate_neighbor_links (xp_store x) = []"
    then obtain w where w: "neighbor_window_children (xp_store x) (cs_neighbor_window (xp_context x)) c = Inr w"
      using window_total [OF _ assms(2)] by blast
    have "\<exists>q. add_window sha fr x {} a w 0 0 st = Inr q"
      by (rule add_window_total [OF wf(2)]) (use window_wf [OF w assms(1,2)] in auto)
    with n w assms(2) show ?thesis by (auto simp: handle_anchor_def handle_neighbors_def)
  qed
qed

lemma expand_loop_total:
  assumes "store_wf (xp_store x)"
    and "\<forall>a \<in> set as. \<exists>c. get_child (xp_store x) (an_chunk_id a) = Inr c"
    and "cs_strategy (xp_context x) = ''child-only'' \<or>
      cs_strategy (xp_context x) = ''neighbors'' \<and> validate_neighbor_links (xp_store x) = []"
  shows "\<exists>q. expand_loop sha fr x as t st = Inr q"
  using assms(2)
proof (induction "as" arbitrary: t st)
  case (Cons a as)
  then obtain c where "get_child (xp_store x) (an_chunk_id a) = Inr c" by auto
  from handle_anchor_total [OF assms(1) this assms(3)] obtain o' s1 where
    h: "handle_anchor sha fr x a st = Inr (o', s1)" by (metis surj_pair)
  with Cons.IH [of "add_outcome o' t" s1] Cons.prems show ?case
    by (cases "ao_stop_reason o'") (auto simp: Let_def)
qed simp

subsection \<open>The counter law is needed\<close>

text \<open>
  A counter that charges a word at the start of a text one token more than the same word after a
  space, as subword tokenizers do: clipping accepts an excerpt with a leading space, the evidence
  unit stores it stripped, and the final check then fails the whole expansion.
\<close>

definition start_sensitive_count :: token_counter where
  "start_sensitive_count t = fake_count t + length (filter (\<lambda>c. c = CHR ''a'') t) +
     (if take 2 t = ''bb'' then 1 else 0)"

definition tight_expander :: context_expander where
  "tight_expander = \<lparr>xp_store = \<lparr>st_children = [(''c1'', clip_anchor)],
       st_parents = [(''p1'', sample_parent\<lparr>ck_text := ''a bb cc''\<rparr>)],
       st_chunk_set_id = ''set-1'', st_corpus_id = ''corpus-1''\<rparr>,
     xp_counter = start_sensitive_count,
     xp_context = \<lparr>cs_enabled = True, cs_strategy = ''parent'', cs_anchor_k = 5,
       cs_max_context_tokens = 2, cs_neighbor_window = 0\<rparr>\<rparr>"

lemmas count_eval = start_sensitive_count_def fake_count_words py_isspace_def

lemma tight_counts:
  "start_sensitive_count '' bb'' = 1" "start_sensitive_count '' bb '' = 1"
  "start_sensitive_count ''a bb '' = 3" "start_sensitive_count '' bb c'' = 2"
  "start_sensitive_count ''a bb c'' = 4" "start_sensitive_count '' bb cc'' = 2"
  "start_sensitive_count ''a bb cc'' = 4" "start_sensitive_count ''bb'' = 2"
  "start_sensitive_count ''bb cc'' = 3"
  by (simp_all add: count_eval)

lemma tight_grown:
  "grow (\<lambda>t. rendered_count start_sensitive_count [] t \<le> 2) ''a bb cc'' (2, 4) = (1, 7)"
proof -
  let ?f = "\<lambda>t. rendered_count start_sensitive_count [] t \<le> 2"
  have s: "grow_step ?f ''a bb cc'' (2, 4) = (1, 5)" "grow_step ?f ''a bb cc'' (1, 5) = (1, 6)"
    "grow_step ?f ''a bb cc'' (1, 6) = (1, 7)" "grow_step ?f ''a bb cc'' (1, 7) = (1, 7)"
    by (simp_all add: grow_step_def rendered_count_def py_slice_def tight_counts)
  have "grow ?f ''a bb cc'' (1, 7) = (1, 7)" by (subst grow.simps) (simp add: s del: One_nat_def)
  then have "grow ?f ''a bb cc'' (1, 6) = (1, 7)" by (subst grow.simps) (simp add: s del: One_nat_def)
  then have "grow ?f ''a bb cc'' (1, 5) = (1, 7)" by (subst grow.simps) (simp add: s del: One_nat_def)
  then show ?thesis by (subst grow.simps) (simp add: s del: One_nat_def)
qed

lemma tight_located: "locate_anchor_in_parent (sample_parent\<lparr>ck_text := ''a bb cc''\<rparr>) clip_anchor = Inr (2, 4)"
proof -
  have "occurrences ''bb'' ''a bb cc'' 0 = [2]"
    by (simp add: occurrences.simps py_find_def)
  then show ?thesis
    by (simp add: locate_anchor_in_parent_def span_from_search_def clip_anchor_def sample_child_def)
qed

lemma tight_emitted:
  "try_emit_parent sha fr start_sensitive_count 2 [] (sample_parent\<lparr>ck_text := ''a bb cc''\<rparr>) clip_anchor =
     Inr (Some (clipped_decision sha fr start_sensitive_count (sample_parent\<lparr>ck_text := ''a bb cc''\<rparr>)
       (2, 4) (1, 7)))"
proof -
  have "\<not> rendered_count start_sensitive_count [] ''a bb cc'' \<le> 2"
    and "rendered_count start_sensitive_count [] (py_slice ''a bb cc'' 2 4) \<le> 2"
    by (simp_all add: rendered_count_def py_slice_def tight_counts)
  then show ?thesis by (simp add: try_emit_parent_def tight_located tight_grown del: One_nat_def)
qed


subsection \<open>Properties\<close>

text \<open>A run on the sample store: one anchor whose parent fits.\<close>

definition sample_expander :: context_expander where
  "sample_expander = \<lparr>xp_store = sample_store, xp_counter = fake_count,
     xp_context = \<lparr>cs_enabled = True, cs_strategy = ''child-only'', cs_anchor_k = 5,
       cs_max_context_tokens = 50, cs_neighbor_window = 0\<rparr>\<rparr>"

definition sample_anchors :: "ranked_anchor list" where
  "sample_anchors = [\<lparr>an_chunk_id = ''c1'', an_rank = 1\<rparr>]"

lemma sample_store_wf: "store_wf (xp_store sample_expander)"
  using sample_store_ok
  by (simp add: store_wf_def sample_expander_def sample_store_def wf_chunk_def is_nonempty_str_iff
      sample_child_def sample_parent_def trim_def strip_by_def uni_isspace_def)

lemma sample_trim_monotone: "trim_monotone (xp_counter sample_expander)"
  using fake.trim_law by (simp add: trim_monotone_def sample_expander_def)

lemma sample_get: "\<forall>a \<in> set sample_anchors. \<exists>c. get_child (xp_store sample_expander) (an_chunk_id a) = Inr c"
  by (simp add: sample_anchors_def sample_expander_def sample_store_def get_child_def)

lemma sample_strategy: "cs_strategy (xp_context sample_expander) = ''child-only''"
  by (simp add: sample_expander_def)

lemma sample_expanded: "\<exists>r. expand sha fr sample_expander sample_anchors = Inr r \<and> xc_evidence_units r \<noteq> []"
proof -
  have wf: "wf_chunk sample_child" "is_nonempty_str ''c1''"
    by (simp_all add: wf_chunk_def is_nonempty_str_iff sample_child_def trim_def strip_by_def uni_isspace_def)
  obtain u where u: "make_child_evidence_unit sha fr fake_count sample_child ''c1'' [''c1'']
      (Some ''anchor'') (Some 0) = Inr u"
    using make_child_total [OF wf rel_strs(1)] by blast
  have t: "eu_text u = ''leave days''"
    using child_unit_facts(2) [OF u wf] by (simp add: sample_child_def)
  have c: "fake_count ''leave days'' = 2"
    by (simp add: fake_count_words py_isspace_def)
  show ?thesis
    using u
    by (simp add: expand_def order_anchors_def sample_anchors_def sample_expander_def handle_anchor_def
        get_child_def sample_store_def handle_child_only_def record_dedup_def state0_def
        candidate_fits_def render_plain_evidence_def t c sample_child_def append_unit_def
        finish_expand_def add_outcome_def totals0_def outcome0_def)
qed

text \<open>C22: With a counter for which stripping a text never costs a token, the final budget check never
  fires: every failure of an expansion is a failure of one of its anchors, and on success the
  evidence is the rendering of the units, its token count is the counter's, and it is within the
  budget.\<close>

theorem expand_budget_sound:
  assumes "store_wf (xp_store x)" and "trim_monotone (xp_counter x)"
  shows "case expand sha fr x anchors of
      Inl e \<Rightarrow> expand_loop sha fr x (order_anchors anchors) totals0 state0 = Inl e
    | Inr r \<Rightarrow> xc_assembled_text r = render_plain_evidence (xc_evidence_units r) \<and>
        xc_context_token_count r =
          (if xc_evidence_units r = [] then 0 else xp_counter x (xc_assembled_text r)) \<and>
        xc_context_token_count r \<le> cs_max_context_tokens (xp_context x)"
proof (cases "expand sha fr x anchors")
  case (Inl e)
  then have ne: "order_anchors anchors \<noteq> []" by (auto simp: expand_def)
  have "expand_loop sha fr x (order_anchors anchors) totals0 state0 = Inl e"
  proof (cases "expand_loop sha fr x (order_anchors anchors) totals0 state0")
    case (Inr q)
    obtain t st where q: "q = (t, st)" by fastforce
    have "run_end sha fr x t st"
      using expand_loop_end [OF Inr [unfolded q] assms(1) good_state0, of UNIV]
      by (auto simp: totals0_def state0_def)
    then have "within_budget x (ex_units st)" using run_end_budget assms by blast
    with finish_expand_within Inl Inr ne q show ?thesis by (auto simp: expand_def) (metis sum.distinct(1))
  qed (use Inl ne in \<open>simp add: expand_def\<close>)
  with Inl show ?thesis by simp
next
  case (Inr r)
  then show ?thesis
  proof (cases rule: expand_Inr_cases [OF Inr assms(1)])
    case 1
    with Inr show ?thesis by (auto simp: expand_def order_anchors_def render_plain_evidence_def)
  next
    case (2 t st)
    have ne: "\<forall>u \<in> set (ex_units st). eu_text u \<noteq> []"
      using run_end_units(1) [OF 2(2) assms(1)] by (auto simp: good_units_def unit_ok_def)
    from 2(4) Inr render_eq_Nil [OF ne] show ?thesis
      by (auto simp: finish_expand_def Let_def split: if_splits)
  qed
qed

theorem expand_budget_sound_witness:
  "\<exists>r. expand sample_digest sample_float_repr sample_expander sample_anchors = Inr r \<and>
     xc_evidence_units r \<noteq> [] \<and> xc_context_token_count r \<le> 50"
proof -
  obtain r where r: "expand sample_digest sample_float_repr sample_expander sample_anchors = Inr r"
    "xc_evidence_units r \<noteq> []" using sample_expanded by blast
  with expand_budget_sound [OF sample_store_wf sample_trim_monotone, of sample_digest
      sample_float_repr sample_anchors] show ?thesis
    by (auto simp: sample_expander_def)
qed

text \<open>C23: The units of an expansion name distinct chunks; each belongs to the document of its primary
  anchor; under \<open>parent\<close> all are parents and under \<open>child-only\<close> and \<open>neighbors\<close> none is; no child
  follows its whole parent; and only the last unit can be clipped, which the diagnostics report.\<close>

theorem expand_structure:
  assumes "expand sha fr x anchors = Inr r" and "store_wf (xp_store x)"
  shows "distinct (map eu_source_chunk_id (xc_evidence_units r)) \<and>
    (\<forall>u \<in> set (xc_evidence_units r). from_anchor (xp_store x) u \<and>
       kind_allowed (cs_strategy (xp_context x)) u) \<and>
    contained (xc_evidence_units r) \<and>
    (\<forall>u \<in> set (butlast (xc_evidence_units r)). \<not> eu_clipped u) \<and>
    ad_clipping_occurred (xc_diagnostics r) =
      (xc_evidence_units r \<noteq> [] \<and> eu_clipped (last (xc_evidence_units r)))"
proof (cases rule: expand_Inr_cases [OF assms])
  case 1
  then show ?thesis by (simp add: contained_def no_anchors_diagnostics_def)
next
  case (2 t st)
  note u = run_end_units [OF 2(2) assms(2)]
  have "distinct (map eu_source_chunk_id (map core (ex_units st)))"
    using u(1) owned_ok_distinct unfolding good_units_def by blast
  moreover have "contained (ex_units st)"
    using u(1) by (simp add: good_units_def contained_def)
  moreover have "\<forall>v \<in> set (ex_units st). unit_ok x v"
    using u(1) by (auto simp: good_units_def)
  moreover have "ad_clipping_occurred (xc_diagnostics r) = tt_clipping_occurred t"
    using 2(4) by (auto simp: finish_expand_def Let_def split: if_splits)
  ultimately show ?thesis using u(2,3) 2(5) by (simp add: unit_ok_def comp_def)
qed

theorem expand_structure_witness:
  "\<exists>r. expand sample_digest sample_float_repr sample_expander sample_anchors = Inr r \<and>
     xc_evidence_units r \<noteq> [] \<and> distinct (map eu_source_chunk_id (xc_evidence_units r))"
proof -
  obtain r where "expand sample_digest sample_float_repr sample_expander sample_anchors = Inr r"
    "xc_evidence_units r \<noteq> []" using sample_expanded by blast
  with expand_structure [OF _ sample_store_wf] show ?thesis by blast
qed

text \<open>Every unit records the anchors it stands for: the first is its primary anchor, none is repeated,
  and all are among the anchors given.\<close>

theorem expand_provenance:
  assumes "expand sha fr x anchors = Inr r" and "store_wf (xp_store x)"
    and "u \<in> set (xc_evidence_units r)"
  shows "eu_contributing_anchor_chunk_ids u \<noteq> [] \<and>
    hd (eu_contributing_anchor_chunk_ids u) = eu_primary_anchor_chunk_id u \<and>
    distinct (eu_contributing_anchor_chunk_ids u) \<and>
    set (eu_contributing_anchor_chunk_ids u) \<subseteq> an_chunk_id ` set anchors"
proof (cases rule: expand_Inr_cases [OF assms(1,2)])
  case 1
  with assms(3) show ?thesis by simp
next
  case (2 t st)
  with assms(3) show ?thesis by (auto simp: anchored_def)
qed

theorem expand_provenance_witness:
  "\<exists>r u. expand sample_digest sample_float_repr sample_expander sample_anchors = Inr r \<and>
     u \<in> set (xc_evidence_units r) \<and> eu_primary_anchor_chunk_id u = ''c1''"
proof -
  obtain r where r: "expand sample_digest sample_float_repr sample_expander sample_anchors = Inr r"
    and ne: "xc_evidence_units r \<noteq> []" using sample_expanded by blast
  from ne obtain u where u: "u \<in> set (xc_evidence_units r)" by (cases "xc_evidence_units r") auto
  from expand_provenance [OF r sample_store_wf u]
  have "eu_primary_anchor_chunk_id u \<in> an_chunk_id ` set sample_anchors"
    by (metis hd_in_set subsetD)
  with r u show ?thesis by (auto simp: sample_anchors_def)
qed

text \<open>Expansion without parents always succeeds on a sound store: when every anchor is in the store,
  \<open>child-only\<close> never fails, and \<open>neighbors\<close> never fails if the neighbor-link report is empty.\<close>

theorem expand_children_total:
  assumes "store_wf (xp_store x)" and "trim_monotone (xp_counter x)"
    and "\<forall>a \<in> set anchors. \<exists>c. get_child (xp_store x) (an_chunk_id a) = Inr c"
    and "cs_strategy (xp_context x) = ''child-only'' \<or>
      cs_strategy (xp_context x) = ''neighbors'' \<and> validate_neighbor_links (xp_store x) = []"
  shows "\<exists>r. expand sha fr x anchors = Inr r"
proof (cases "order_anchors anchors = []")
  case True
  then show ?thesis by (simp add: expand_def)
next
  case False
  have "set (order_anchors anchors) = set anchors" by (simp add: order_anchors_def)
  with expand_loop_total [OF assms(1) _ assms(4)] assms(3) obtain t st where
    l: "expand_loop sha fr x (order_anchors anchors) totals0 state0 = Inr (t, st)"
    by (metis surj_pair)
  have "run_end sha fr x t st"
    using expand_loop_end [OF l assms(1) good_state0, of UNIV] by (auto simp: totals0_def state0_def)
  with run_end_budget assms(1,2) finish_expand_within l False show ?thesis
    by (fastforce simp: expand_def)
qed

theorem expand_children_total_witness:
  "\<exists>r. expand sample_digest sample_float_repr sample_expander sample_anchors = Inr r"
  by (rule expand_children_total [OF sample_store_wf sample_trim_monotone sample_get])
    (simp add: sample_strategy)

end
