(* ===== verification/Context_Assembly.thy ===== *)
theory Context_Assembly
  imports Rerank_Retrieval Expansion_Properties
begin

section \<open>Context assembly (context/assemble.py, context/status.py, context/config_hash.py)\<close>

text \<open>
  The orchestrator that retrieves ranked anchors and expands them: its readiness, its configuration
  hash, and \<open>HybridRerankContextAssembler.assemble\<close> with the retriever, the store loader and the
  token counter as arguments. Latencies are left out of the result.
\<close>

subsection \<open>Configuration identity\<close>

record counter_impl =
  ti_name :: string
  ti_encoding :: string
  ti_version :: string
  ti_count :: token_counter

definition ASSEMBLY_CONTRACT :: string where "ASSEMBLY_CONTRACT = ''rank-priority-hard-budget-v1''"
definition DEDUP_CONTRACT :: string where "DEDUP_CONTRACT = ''first-anchor-owns-v1''"
definition CONTAINMENT_CONTRACT :: string where
  "CONTAINMENT_CONTRACT = ''suppress-contained-children-v1''"
definition NEIGHBOR_CONTRACT :: string where "NEIGHBOR_CONTRACT = ''neighbor-window-v1''"
definition RENDER_CONTRACT :: string where "RENDER_CONTRACT = ''plain-evidence-v1''"

definition resolved_token_counter_identity :: "counter_impl \<Rightarrow> json" where
  "resolved_token_counter_identity c = JObj [(''implementation'', JStr (ti_name c)),
     (''encoding'', JStr (ti_encoding c)), (''contract_version'', JStr (ti_version c))]"

definition strategy_entries :: "context_settings \<Rightarrow> (string \<times> json) list" where
  "strategy_entries ctx =
     (if cs_strategy ctx = ''parent'' then [(''clip_contract'', JStr CLIP_CONTRACT)]
      else if cs_strategy ctx = ''neighbors'' then
        [(''neighbor_contract'', JStr NEIGHBOR_CONTRACT),
         (''neighbor_window'', JInt (int (cs_neighbor_window ctx)))]
      else if cs_strategy ctx = ''parent+neighbors'' then
        [(''clip_contract'', JStr CLIP_CONTRACT), (''neighbor_contract'', JStr NEIGHBOR_CONTRACT),
         (''neighbor_window'', JInt (int (cs_neighbor_window ctx))),
         (''containment_contract'', JStr CONTAINMENT_CONTRACT)]
      else [])"

definition build_context_semantic_payload :: "context_settings \<Rightarrow> counter_impl \<Rightarrow> json" where
  "build_context_semantic_payload ctx c = JObj
     ([(''strategy'', JStr (cs_strategy ctx)), (''anchor_k'', JInt (int (cs_anchor_k ctx))),
       (''max_context_tokens'', JInt (int (cs_max_context_tokens ctx))),
       (''assembly_contract'', JStr ASSEMBLY_CONTRACT), (''dedup_contract'', JStr DEDUP_CONTRACT),
       (''render_contract'', JStr RENDER_CONTRACT),
       (''token_counter'', resolved_token_counter_identity c)] @ strategy_entries ctx)"

definition build_context_config_hash ::
    "digest \<Rightarrow> (pyfloat \<Rightarrow> string) \<Rightarrow> context_settings \<Rightarrow> counter_impl \<Rightarrow> string" where
  "build_context_config_hash sha fr ctx c =
     context_config_hash sha fr (build_context_semantic_payload ctx c)"

subsection \<open>Readiness\<close>

text \<open>
  \<open>validate_tiktoken_artifacts\<close> and \<open>make_token_counter\<close> read the disk; their results are fields of
  the environment, as is the hybrid-rerank status of the corpus. The message of an invalid
  configuration is Pydantic's, \<open>Value error, ...\<close>.
\<close>

record assembler_env =
  ae_context :: context_settings
  ae_tokenizer_implementation :: string
  ae_tokenizer_encoding :: string
  ae_artifacts :: "bool \<times> string"
  ae_counter :: "string + counter_impl"
  ae_hybrid_rerank_status :: "string \<Rightarrow> string"
  ae_structure :: "string \<Rightarrow> context_exc + structure_store"

definition context_config_ok :: "assembler_env \<Rightarrow> bool \<times> string option" where
  "context_config_ok env = (case validate_context_policy (ae_context env) of
     Inl m \<Rightarrow> (False, Some (''invalid context configuration: Value error, '' @ m))
   | Inr _ \<Rightarrow> (True, None))"

definition token_counter_ready :: "assembler_env \<Rightarrow> bool \<times> string option" where
  "token_counter_ready env =
     (if ae_tokenizer_implementation env = ''fake'' then (True, None)
      else if ae_tokenizer_implementation env \<noteq> ''tiktoken'' then
        (False, Some (''unsupported token-counter implementation: '' @ ae_tokenizer_implementation env))
      else if ae_tokenizer_encoding env \<noteq> ''cl100k_base'' then
        (False, Some (''unsupported token-counter encoding: '' @ ae_tokenizer_encoding env))
      else if \<not> fst (ae_artifacts env) then
        (False, Some (''tiktoken-cl100k-v1 unavailable offline: '' @ snd (ae_artifacts env)))
      else (case ae_counter env of
          Inl m \<Rightarrow> (False, Some (''token counter initialization failed: '' @ m))
        | Inr c \<Rightarrow>
            if ti_version c \<noteq> ''tiktoken-cl100k-v1'' \<and> ae_tokenizer_implementation env \<noteq> ''fake'' then
              (False, Some (''unexpected token-counter contract: '' @ ti_version c))
            else (True, None)))"

fun context_exc_str :: "context_exc \<Rightarrow> string" where
  "context_exc_str (Context_Structure_Error m) = m"
| "context_exc_str Conversion_Error = ''conversion error''"
| "context_exc_str Unit_Validation_Error = ''validation error''"

text \<open>\<open>sub in s\<close> for strings\<close>

definition str_in :: "string \<Rightarrow> string \<Rightarrow> bool" where
  "str_in sub s \<longleftrightarrow> py_find sub s 0 \<noteq> None"

definition first_problem :: "string list \<Rightarrow> bool \<times> string option" where
  "first_problem ps = (case ps of [] \<Rightarrow> (True, None) | p # _ \<Rightarrow> (False, Some p))"

definition structure_ready :: "assembler_env \<Rightarrow> string \<Rightarrow> bool \<times> string option" where
  "structure_ready env name = (case ae_structure env name of
     Inl e \<Rightarrow> (False, Some (''chunk structure unavailable: '' @ context_exc_str e))
   | Inr s \<Rightarrow> (let strategy = cs_strategy (ae_context env) in
       if strategy = ''child-only'' then
         (if st_children s = [] then (False, Some ''chunk set has no child chunks'') else (True, None))
       else
         (let parents = (if strategy \<in> {''parent'', ''parent+neighbors''}
                         then first_problem (validate_parent_links s) else (True, None)) in
          if \<not> fst parents then parents
          else if strategy \<in> {''neighbors'', ''parent+neighbors''} then
            first_problem (filter (\<lambda>p. \<not> str_in ''parent_chunk_id'' p) (validate_neighbor_links s))
          else (True, None))))"

definition context_status_for_corpus :: "assembler_env \<Rightarrow> string \<Rightarrow> retrieval_exc + string" where
  "context_status_for_corpus env corpus_name =
     bind_res (validate_corpus_name corpus_name) (\<lambda>name. Inr
       (if \<not> cs_enabled (ae_context env) then ''NOT_READY''
        else if ae_hybrid_rerank_status env name \<noteq> ''READY'' then ''NOT_READY''
        else if \<not> fst (context_config_ok env) then ''NOT_READY''
        else if \<not> fst (token_counter_ready env) then ''NOT_READY''
        else if \<not> fst (structure_ready env name) then ''NOT_READY''
        else ''READY''))"

definition reason_of :: "bool \<times> string option \<Rightarrow> string list" where
  "reason_of r = (case r of (False, Some m) \<Rightarrow> if m = [] then [] else [m] | _ \<Rightarrow> [])"

text \<open>The \<open>reasons\<close> entry of \<open>describe_context_status\<close>.\<close>

definition context_reasons :: "assembler_env \<Rightarrow> string \<Rightarrow> string list" where
  "context_reasons env name =
     (if \<not> cs_enabled (ae_context env) then [''context.enabled is false''] else []) @
     (if ae_hybrid_rerank_status env name \<noteq> ''READY''
      then [''upstream hybrid-rerank is unavailable''] else []) @
     reason_of (context_config_ok env) @ reason_of (token_counter_ready env) @
     (if cs_enabled (ae_context env) \<and> ae_hybrid_rerank_status env name = ''READY''
      then reason_of (structure_ready env name) else [])"

subsection \<open>assemble\<close>

text \<open>
  \<open>Context_Error\<close> is \<open>HybridRerankContextError\<close>; the others are exceptions the call lets through:
  of the corpus name check and of a retriever that is not \<open>HybridRerankRetrievalError\<close>, and of
  loading the store.
\<close>

datatype assemble_exc =
    Context_Error string
  | Upstream_Error retrieval_exc
  | Store_Error context_exc
  | Counter_Error string

record context_result =
  cx_query :: string
  cx_method :: string
  cx_evidence_units :: "evidence_unit list"
  cx_assembled_text :: string
  cx_context_token_count :: nat
  cx_max_context_tokens :: nat
  cx_context_config_hash :: string
  cx_effective_context_semantics :: json
  cx_anchors :: "hybrid_rerank_candidate list"
  cx_dense_index_id :: string
  cx_lexical_index_id :: string
  cx_fusion_config_hash :: string
  cx_reranker_config_hash :: string
  cx_diagnostics :: assembly_diagnostics
  cx_corpus_id :: "string option"
  cx_chunk_set_id :: string
  cx_input_k :: int
  cx_input_pool_chunk_ids :: "string list"

definition context_require_ready :: "assembler_env \<Rightarrow> string \<Rightarrow> assemble_exc + unit" where
  "context_require_ready env name =
     bind_res (try_map Upstream_Error (context_status_for_corpus env name)) (\<lambda>status.
       if status = ''READY'' then Inr ()
       else Inl (Context_Error (join LF
         [''Context assembly unavailable.'',
          ''Context status:       '' @ status,
          ''Hybrid-rerank status: '' @ ae_hybrid_rerank_status env name,
          ''Context enabled:      '' @ (if cs_enabled (ae_context env) then ''true'' else ''false''),
          ''Reasons:              '' @ (let rs = context_reasons env name in
             if rs \<noteq> [] then join ''; '' rs else ''unknown'')])))"

fun assemble_translate :: "retrieval_exc \<Rightarrow> assemble_exc" where
  "assemble_translate (Hybrid_Rerank_Error m) = Context_Error m"
| "assemble_translate e = Upstream_Error e"

definition anchor_of :: "hybrid_rerank_candidate \<Rightarrow> ranked_anchor" where
  "anchor_of c = \<lparr>an_chunk_id = cd_chunk_id c, an_rank = cd_rank c\<rparr>"

fun assert_units_in_scope :: "string set option \<Rightarrow> evidence_unit list \<Rightarrow> assemble_exc + unit" where
  "assert_units_in_scope None us = Inr ()"
| "assert_units_in_scope (Some ids) [] = Inr ()"
| "assert_units_in_scope (Some ids) (u # us) =
     (if eu_document_id u \<notin> ids then
        Inl (Context_Error ''scoped context evidence escaped allowed document set'')
      else assert_units_in_scope (Some ids) us)"

definition context_result_of ::
    "digest \<Rightarrow> (pyfloat \<Rightarrow> string) \<Rightarrow> assembler_env \<Rightarrow> counter_impl \<Rightarrow> string \<Rightarrow> rerank_result \<Rightarrow>
     expanded_context \<Rightarrow> context_result" where
  "context_result_of sha fr env c query upstream expanded =
     \<lparr>cx_query = trim query, cx_method = ''hybrid-rerank-context'',
      cx_evidence_units = xc_evidence_units expanded,
      cx_assembled_text = xc_assembled_text expanded,
      cx_context_token_count = xc_context_token_count expanded,
      cx_max_context_tokens = cs_max_context_tokens (ae_context env),
      cx_context_config_hash = trim (build_context_config_hash sha fr (ae_context env) c),
      cx_effective_context_semantics = build_context_semantic_payload (ae_context env) c,
      cx_anchors = kr_candidates upstream, cx_dense_index_id = kr_dense_index_id upstream,
      cx_lexical_index_id = kr_lexical_index_id upstream,
      cx_fusion_config_hash = kr_fusion_config_hash upstream,
      cx_reranker_config_hash = kr_reranker_config_hash upstream,
      cx_diagnostics = xc_diagnostics expanded, cx_corpus_id = kr_corpus_id upstream,
      cx_chunk_set_id = kr_chunk_set_id upstream, cx_input_k = kr_input_k upstream,
      cx_input_pool_chunk_ids = kr_input_pool_chunk_ids upstream\<rparr>"

definition assemble_preflight ::
    "assembler_env \<Rightarrow> bool \<Rightarrow> retrieval_request \<Rightarrow> assemble_exc + string \<times> counter_impl" where
  "assemble_preflight env check_ready rq =
     (if rq_query rq = [] \<or> py_strip (rq_query rq) = [] then
        Inl (Context_Error ''query must be non-empty'')
      else bind_res (try_map Upstream_Error (validate_corpus_name (rq_corpus_name rq))) (\<lambda>name.
      bind_res (if check_ready then context_require_ready env name else Inr ()) (\<lambda>_.
      if \<not> cs_enabled (ae_context env) then Inl (Context_Error ''context.enabled is false'')
      else bind_res (try_map Counter_Error (ae_counter env)) (\<lambda>c. Inr (name, c)))))"

definition assemble ::
    "digest \<Rightarrow> (pyfloat \<Rightarrow> string) \<Rightarrow> assembler_env \<Rightarrow>
     (bool \<Rightarrow> retrieval_request \<Rightarrow> retrieval_exc + rerank_result) \<Rightarrow> bool \<Rightarrow> retrieval_request \<Rightarrow>
     assemble_exc + context_result" where
  "assemble sha fr env retrieve check_ready rq =
     bind_res (assemble_preflight env check_ready rq) (\<lambda>(name, c).
     bind_res (try_map assemble_translate (retrieve check_ready
         (rq\<lparr>rq_corpus_name := name, rq_top_k := Some (int (cs_anchor_k (ae_context env)))\<rparr>)))
       (\<lambda>upstream.
     bind_res (try_map Store_Error (ae_structure env name)) (\<lambda>store.
     bind_res (try_map (\<lambda>_. Context_Error ''context expansion failed'')
         (expand sha fr \<lparr>xp_store = store, xp_counter = ti_count c, xp_context = ae_context env\<rparr>
            (map anchor_of (kr_candidates upstream)))) (\<lambda>expanded.
     bind_res (assert_units_in_scope (rq_document_ids rq) (xc_evidence_units expanded)) (\<lambda>_.
     Inr (context_result_of sha fr env c (rq_query rq) upstream expanded))))))"

subsection \<open>Facts\<close>

lemma config_hash_nonblank: "nonblank (build_context_config_hash sha fr a c)"
proof -
  have "CHR ''c'' \<in> set (build_context_config_hash sha fr a c)" "\<not> py_isspace (CHR ''c'')"
    by (simp_all add: build_context_config_hash_def context_config_hash_def config_hash_with_eq hashed_def
        py_isspace_def)
  then show ?thesis unfolding nonblank_iff by blast
qed

lemma assert_units_iff [simp]:
  "assert_units_in_scope scope us = Inr u \<longleftrightarrow> (\<forall>v \<in> set us. in_scope scope (eu_document_id v))"
  by (induction scope us rule: assert_units_in_scope.induct) auto

lemma assemble_InrE:
  assumes "assemble sha fr env retrieve check_ready rq = Inr r"
  obtains name c up s x where "assemble_preflight env check_ready rq = Inr (name, c)"
    and "retrieve check_ready (rq\<lparr>rq_corpus_name := name,
           rq_top_k := Some (int (cs_anchor_k (ae_context env)))\<rparr>) = Inr up"
    and "ae_structure env name = Inr s"
    and "expand sha fr \<lparr>xp_store = s, xp_counter = ti_count c, xp_context = ae_context env\<rparr>
           (map anchor_of (kr_candidates up)) = Inr x"
    and "\<forall>u \<in> set (xc_evidence_units x). in_scope (rq_document_ids rq) (eu_document_id u)"
    and "r = context_result_of sha fr env c (rq_query rq) up x"
proof -
  from assms obtain name c where p: "assemble_preflight env check_ready rq = Inr (name, c)"
    by (auto simp: assemble_def bind_res_Inr_iff)
  with assms obtain up s x where
    "retrieve check_ready (rq\<lparr>rq_corpus_name := name,
       rq_top_k := Some (int (cs_anchor_k (ae_context env)))\<rparr>) = Inr up"
    "ae_structure env name = Inr s"
    "expand sha fr \<lparr>xp_store = s, xp_counter = ti_count c, xp_context = ae_context env\<rparr>
       (map anchor_of (kr_candidates up)) = Inr x"
    "\<forall>u \<in> set (xc_evidence_units x). in_scope (rq_document_ids rq) (eu_document_id u)"
    "r = context_result_of sha fr env c (rq_query rq) up x"
    by (auto simp: assemble_def bind_res_Inr_iff)
  with p that show thesis by blast
qed

lemma context_result_sel [simp]:
  "cx_evidence_units (context_result_of sha fr env c q up x) = xc_evidence_units x"
  "cx_anchors (context_result_of sha fr env c q up x) = kr_candidates up"
  "cx_assembled_text (context_result_of sha fr env c q up x) = xc_assembled_text x"
  "cx_context_token_count (context_result_of sha fr env c q up x) = xc_context_token_count x"
  "cx_max_context_tokens (context_result_of sha fr env c q up x) = cs_max_context_tokens (ae_context env)"
  "cx_query (context_result_of sha fr env c q up x) = trim q"
  by (simp_all add: context_result_of_def)

interpretation assembly: scoped_retriever "assemble sha fr env retrieve check_ready" rq_document_ids
  "\<lambda>r. map eu_document_id (cx_evidence_units r)" for sha fr env retrieve check_ready
  by unfold_locales (auto elim!: assemble_InrE)

text \<open>The store agrees with the candidates on the document of a chunk.\<close>

definition agrees :: "structure_store \<Rightarrow> hybrid_rerank_candidate list \<Rightarrow> bool" where
  "agrees s cs \<longleftrightarrow> (\<forall>k \<in> set cs. \<forall>c. get_child s (cd_chunk_id k) = Inr c \<longrightarrow>
     ck_document_id c = cd_document_id k)"

lemma unit_document_of_anchor:
  assumes "expand sha fr x (map anchor_of cs) = Inr r" and "store_wf (xp_store x)"
    and "agrees (xp_store x) cs" and "u \<in> set (xc_evidence_units r)"
  shows "\<exists>k \<in> set cs. eu_document_id u = cd_document_id k"
proof (cases rule: expand_Inr_cases [OF assms(1,2)])
  case 1
  with assms(4) show ?thesis by simp
next
  case (2 t st)
  then have a: "anchored (an_chunk_id ` set (map anchor_of cs)) u" using assms(4) by simp
  then have "eu_primary_anchor_chunk_id u \<in> an_chunk_id ` set (map anchor_of cs)"
    by (metis anchored_def hd_in_set subsetD)
  then obtain k where k: "k \<in> set cs" "eu_primary_anchor_chunk_id u = cd_chunk_id k"
    by (auto simp: anchor_of_def)
  have "\<forall>v \<in> set (ex_units st). unit_ok x v"
    using run_end_units(1) [OF 2(2) assms(2)] by (auto simp: good_units_def)
  with assms(4) 2(5) have "from_anchor (xp_store x) u" by (simp add: unit_ok_def)
  with k assms(3) show ?thesis by (auto simp: from_anchor_def agrees_def)
qed

lemma finish_expand_sound:
  "finish_expand x n t st = Inr r \<Longrightarrow>
     xc_assembled_text r = render_plain_evidence (xc_evidence_units r) \<and>
     xc_context_token_count r \<le> cs_max_context_tokens (xp_context x)"
  by (auto simp: finish_expand_def Let_def split: if_splits)

lemma expand_sound:
  assumes "expand sha fr x as = Inr r"
  shows "xc_assembled_text r = render_plain_evidence (xc_evidence_units r) \<and>
    xc_context_token_count r \<le> cs_max_context_tokens (xp_context x)"
  using assms finish_expand_sound
  by (auto simp: expand_def Let_def bind_res_Inr_iff render_plain_evidence_def split: if_splits)

subsection \<open>Properties\<close>

lemma canon_identity [simp]:
  "canon (resolved_token_counter_identity c) = canon (resolved_token_counter_identity d) \<longleftrightarrow>
     ti_name c = ti_name d \<and> ti_encoding c = ti_encoding d \<and> ti_version c = ti_version d"
  unfolding resolved_token_counter_identity_def by (subst canon_fields) auto

text \<open>The settings that matter: the neighbor window only where the strategy uses it.\<close>

definition effective_window :: "context_settings \<Rightarrow> nat option" where
  "effective_window ctx = (if cs_strategy ctx \<in> {''neighbors'', ''parent+neighbors''}
     then Some (cs_neighbor_window ctx) else None)"

lemma context_payload_eq:
  "canon (build_context_semantic_payload a c) = canon (build_context_semantic_payload b d) \<longleftrightarrow>
     cs_strategy a = cs_strategy b \<and> cs_anchor_k a = cs_anchor_k b \<and>
     cs_max_context_tokens a = cs_max_context_tokens b \<and> effective_window a = effective_window b \<and>
     ti_name c = ti_name d \<and> ti_encoding c = ti_encoding d \<and> ti_version c = ti_version d"
  (is "?l \<longleftrightarrow> ?r")
proof -
  define m where "m x y = [(''strategy'', JStr (cs_strategy x)), (''anchor_k'', JInt (int (cs_anchor_k x))),
       (''max_context_tokens'', JInt (int (cs_max_context_tokens x))),
       (''assembly_contract'', JStr ASSEMBLY_CONTRACT), (''dedup_contract'', JStr DEDUP_CONTRACT),
       (''render_contract'', JStr RENDER_CONTRACT),
       (''token_counter'', resolved_token_counter_identity y)] @ strategy_entries x"
    for x :: context_settings and y
  have p: "build_context_semantic_payload x y = JObj (m x y)" for x y
    by (simp add: build_context_semantic_payload_def m_def)
  have d: "distinct (map fst (m x y))" for x y by (auto simp: m_def strategy_entries_def)
  show ?thesis
  proof (cases "cs_strategy a = cs_strategy b")
    case True
    then have "map fst (m a c) = map fst (m b d)" by (simp add: m_def strategy_entries_def)
    from canon_fields [OF this d] True show ?thesis
      by (simp add: p m_def strategy_entries_def effective_window_def) blast
  next
    case False
    have "\<not> ?l"
    proof
      assume ?l
      then have "canon (JObj (m a c)) = canon (JObj (m b d))" by (simp only: p)
      then have "\<forall>k. map_option canon (map_of (m a c) k) = map_option canon (map_of (m b d) k)"
        by (rule iffD1 [OF canon_obj_iff [OF d d]])
      from this [rule_format, of "''strategy''"] False show False by (simp add: m_def)
    qed
    with False show ?thesis by simp
  qed
qed

text \<open>The context configuration hash identifies the effective settings: unless SHA-256 collides, two
  hashes agree exactly when strategy, anchor count, budget and counter identity agree, and the
  neighbor window where the strategy uses one; switching the feature off or on does not change it.\<close>

theorem context_hash_exact:
  assumes "float_repr_ok fr"
    and "no_collision sha fr (build_context_semantic_payload a c) (build_context_semantic_payload b d)"
  shows "(build_context_config_hash sha fr a c = build_context_config_hash sha fr b d) =
    (cs_strategy a = cs_strategy b \<and> cs_anchor_k a = cs_anchor_k b \<and>
     cs_max_context_tokens a = cs_max_context_tokens b \<and> effective_window a = effective_window b \<and>
     ti_name c = ti_name d \<and> ti_encoding c = ti_encoding d \<and> ti_version c = ti_version d)"
  using hashed_eq_iff [OF assms, of "''ctxcfg_''"]
  by (simp add: build_context_config_hash_def context_config_hash_def config_hash_with_eq
      context_payload_eq)

definition sample_counter :: counter_impl where
  "sample_counter = \<lparr>ti_name = ''fake'', ti_encoding = ''whitespace'',
     ti_version = ''fake-whitespace-v1'', ti_count = fake_count\<rparr>"

theorem context_hash_exact_witness:
  "build_context_config_hash sample_digest sample_float_repr (xp_context sample_expander) sample_counter =
   build_context_config_hash sample_digest sample_float_repr
     ((xp_context sample_expander)\<lparr>cs_neighbor_window := 7, cs_enabled := False\<rparr>) sample_counter \<and>
   build_context_config_hash sample_digest sample_float_repr (xp_context sample_expander) sample_counter \<noteq>
   build_context_config_hash sample_digest sample_float_repr
     ((xp_context sample_expander)\<lparr>cs_anchor_k := 6\<rparr>) sample_counter"
  by (simp add: context_hash_exact [OF sample_float_repr_ok sample_no_collision] effective_window_def
      sample_expander_def)

text \<open>C11: A context assembled under a document scope stays inside it: every unit and every anchor belongs to
  an allowed document, every unit to the document of one of the anchors; units name distinct chunks,
  the text is their rendering, and the token count is within the budget.\<close>

theorem assemble_sound:
  assumes "assemble sha fr env (\<lambda>ready q. rerank_retrieve repr renv hybrid score_pairs ready q)
      check_ready rq = Inr r"
    and "\<And>name s. ae_structure env name = Inr s \<Longrightarrow> store_wf s \<and> agrees s (cx_anchors r)"
  shows "(\<forall>u \<in> set (cx_evidence_units r). in_scope (rq_document_ids rq) (eu_document_id u) \<and>
       eu_document_id u \<in> cd_document_id ` set (cx_anchors r)) \<and>
    (\<forall>a \<in> set (cx_anchors r). in_scope (rq_document_ids rq) (cd_document_id a)) \<and>
    distinct (map eu_source_chunk_id (cx_evidence_units r)) \<and>
    cx_assembled_text r = render_plain_evidence (cx_evidence_units r) \<and>
    cx_context_token_count r \<le> cx_max_context_tokens r"
  using assms(1)
proof (rule assemble_InrE)
  fix name and c :: counter_impl and up s x
  let ?x = "\<lparr>xp_store = s, xp_counter = ti_count c, xp_context = ae_context env\<rparr>"
  assume up: "rerank_retrieve repr renv hybrid score_pairs check_ready (rq\<lparr>rq_corpus_name := name,
       rq_top_k := Some (int (cs_anchor_k (ae_context env)))\<rparr>) = Inr up"
    and s: "ae_structure env name = Inr s"
    and e: "expand sha fr ?x (map anchor_of (kr_candidates up)) = Inr x"
    and sc: "\<forall>u \<in> set (xc_evidence_units x). in_scope (rq_document_ids rq) (eu_document_id u)"
    and r: "r = context_result_of sha fr env c (rq_query rq) up x"
  have wf: "store_wf (xp_store ?x)" and ag: "agrees (xp_store ?x) (kr_candidates up)"
    using assms(2) [OF s] r by simp_all
  have "\<forall>u \<in> set (xc_evidence_units x). eu_document_id u \<in> cd_document_id ` set (kr_candidates up)"
    using unit_document_of_anchor [OF e wf ag] by blast
  moreover have "\<forall>a \<in> set (kr_candidates up). in_scope (rq_document_ids rq) (cd_document_id a)"
    using rerank.in_scope_law [OF up] by simp
  moreover have "distinct (map eu_source_chunk_id (xc_evidence_units x))"
  proof (cases rule: expand_Inr_cases [OF e wf])
    case (2 t st)
    from run_end_units(1) [OF 2(2) wf] owned_ok_distinct
    have "distinct (map eu_source_chunk_id (map core (ex_units st)))"
      unfolding good_units_def by blast
    with 2(5) show ?thesis by (simp add: comp_def)
  qed simp
  ultimately show ?thesis using sc expand_sound [OF e] r by simp
qed

definition sample_assembler :: assembler_env where
  "sample_assembler = \<lparr>ae_context = xp_context sample_expander,
     ae_tokenizer_implementation = ''fake'', ae_tokenizer_encoding = ''whitespace'',
     ae_artifacts = (False, ''directory missing''), ae_counter = Inr sample_counter,
     ae_hybrid_rerank_status = (\<lambda>_. ''READY''),
     ae_structure = (\<lambda>_. Inr \<lparr>st_children =
       [(''chunk-a'', sample_child\<lparr>ck_chunk_id := ''chunk-a'', ck_document_id := ''doc-1''\<rparr>),
        (''chunk-b'', sample_child\<lparr>ck_chunk_id := ''chunk-b'', ck_document_id := ''doc-2''\<rparr>)],
       st_parents = [], st_chunk_set_id = ''set-1'', st_corpus_id = ''corpus-1''\<rparr>)\<rparr>"

lemma assemble_total:
  assumes "assemble_preflight env check_ready rq = Inr (name, c)"
    and "rerank_retrieve repr renv hybrid score_pairs check_ready (rq\<lparr>rq_corpus_name := name,
           rq_top_k := Some (int (cs_anchor_k (ae_context env)))\<rparr>) = Inr up"
    and "ae_structure env name = Inr s" and "store_wf s" and "agrees s (kr_candidates up)"
    and "expand sha fr \<lparr>xp_store = s, xp_counter = ti_count c, xp_context = ae_context env\<rparr>
           (map anchor_of (kr_candidates up)) = Inr x"
  shows "assemble sha fr env (\<lambda>ready q. rerank_retrieve repr renv hybrid score_pairs ready q)
      check_ready rq = Inr (context_result_of sha fr env c (rq_query rq) up x)"
proof -
  have "\<forall>a \<in> set (kr_candidates up). in_scope (rq_document_ids rq) (cd_document_id a)"
    using rerank.in_scope_law [OF assms(2)] by simp
  moreover have "\<forall>u \<in> set (xc_evidence_units x). \<exists>k \<in> set (kr_candidates up). eu_document_id u = cd_document_id k"
    using unit_document_of_anchor [OF assms(6)] assms(4,5) by simp
  ultimately have "assert_units_in_scope (rq_document_ids rq) (xc_evidence_units x) = Inr ()" by fastforce
  with assms show ?thesis by (simp add: assemble_def try_map_def del: assert_units_iff)
qed

lemma sample_assembler_store:
  "ae_structure sample_assembler name = Inr s \<Longrightarrow> store_wf s \<and>
     (\<forall>c \<in> set sample_pool. \<exists>k. get_child s (cd_chunk_id c) = Inr k \<and> ck_document_id k = cd_document_id c)"
  by (auto simp: sample_assembler_def store_wf_def store_ok_def keyed_def wf_chunk_def is_nonempty_str_iff
      sample_child_def trim_def strip_by_def uni_isspace_def get_child_def sample_pool_def
      sample_candidate_def)

lemma sample_preflight_any:
  assumes "rq_query R = ''annual leave''" and "rq_corpus_name R = ''default''"
  shows "assemble_preflight sample_assembler True R = Inr (''default'', sample_counter)"
proof -
  have "py_strip ''annual leave'' \<noteq> []" "validate_corpus_name ''default'' = Inr ''default''"
    by code_simp+
  moreover have "validate_context_policy (ae_context sample_assembler) = Inr (ae_context sample_assembler)"
    by (simp add: sample_assembler_def sample_expander_def validate_context_policy_def CONTEXT_STRATEGIES_def)
  moreover have "fst (structure_ready sample_assembler ''default'')"
    by (simp add: structure_ready_def sample_assembler_def sample_expander_def)
  moreover have "fst (token_counter_ready sample_assembler)" "cs_enabled (ae_context sample_assembler)"
    "ae_hybrid_rerank_status sample_assembler name = ''READY''"
    "ae_counter sample_assembler = Inr sample_counter" for name
    by (simp_all add: token_counter_ready_def sample_assembler_def sample_expander_def)
  ultimately show ?thesis
    by (simp add: assemble_preflight_def assms context_require_ready_def
        context_status_for_corpus_def context_config_ok_def try_map_def)
qed

lemma sample_preflight_ok: "assemble_preflight sample_assembler True sample_request = Inr (''default'', sample_counter)"
  by (rule sample_preflight_any) (simp_all add: sample_request_def)

lemma sample_agrees:
  assumes "ae_structure sample_assembler name = Inr s"
    and "rerank_retrieve id sample_rerank_env sample_hybrid sample_scores True R = Inr up"
  shows "agrees s (kr_candidates up) \<and> (\<forall>a \<in> set (kr_candidates up). \<exists>c. get_child s (cd_chunk_id a) = Inr c)"
proof -
  have "\<exists>k. get_child s (cd_chunk_id a) = Inr k \<and> ck_document_id k = cd_document_id a"
    if "a \<in> set (kr_candidates up)" for a
  proof -
    from sample_rerank_source [OF assms(2) that] obtain c where c: "c \<in> set sample_pool" "same_content a (core_of c)"
      by blast
    with sample_assembler_store [OF assms(1)] obtain k where
      "get_child s (cd_chunk_id c) = Inr k" "ck_document_id k = cd_document_id c" by blast
    with c same_contentD [OF c(2)] show ?thesis by (auto simp: candidate_core.truncate_def)
  qed
  then show ?thesis unfolding agrees_def by fastforce
qed

lemma sample_expands:
  assumes s: "ae_structure sample_assembler name = Inr s"
    and c: "\<forall>a \<in> set cs. \<exists>k. get_child s (cd_chunk_id a) = Inr k"
  shows "\<exists>x. expand sha fr \<lparr>xp_store = s, xp_counter = ti_count sample_counter,
     xp_context = ae_context sample_assembler\<rparr> (map anchor_of cs) = Inr x"
proof -
  let ?x = "\<lparr>xp_store = s, xp_counter = ti_count sample_counter, xp_context = ae_context sample_assembler\<rparr>"
  have wf: "store_wf s" using sample_assembler_store s by blast
  show ?thesis
  proof (cases "order_anchors (map anchor_of cs) = []")
    case False
    have c': "\<forall>a \<in> set (order_anchors (map anchor_of cs)).
        \<exists>k. get_child (xp_store ?x) (an_chunk_id a) = Inr k"
      using c by (simp add: order_anchors_def anchor_of_def)
    have str: "cs_strategy (xp_context ?x) = ''child-only''"
      by (simp add: sample_assembler_def sample_expander_def)
    from expand_loop_total [OF _ c'] wf str obtain t st where
      l: "expand_loop sha fr ?x (order_anchors (map anchor_of cs)) totals0 state0 = Inr (t, st)"
      by (metis context_expander.select_convs(1) surj_pair)
    have "run_end sha fr ?x t st"
      using expand_loop_end [OF l _ good_state0, of UNIV] wf by (auto simp: totals0_def state0_def)
    moreover have "trim_monotone (xp_counter ?x)"
      using fake.trim_law by (simp add: trim_monotone_def sample_counter_def)
    ultimately have "within_budget ?x (ex_units st)" using run_end_budget wf by fastforce
    with finish_expand_within l False show ?thesis by (fastforce simp: expand_def)
  qed (simp add: expand_def)
qed

lemma sample_assembled:
  "\<exists>r. assemble sha fr sample_assembler
     (\<lambda>ready q. rerank_retrieve id sample_rerank_env sample_hybrid sample_scores ready q)
     True sample_request = Inr r \<and>
   (\<forall>name s. ae_structure sample_assembler name = Inr s \<longrightarrow> store_wf s \<and> agrees s (cx_anchors r))"
proof -
  let ?R = "sample_request\<lparr>rq_corpus_name := ''default'',
      rq_top_k := Some (int (cs_anchor_k (ae_context sample_assembler)))\<rparr>"
  obtain s where s: "\<And>name. ae_structure sample_assembler name = Inr s" by (simp add: sample_assembler_def)
  obtain up where up: "rerank_retrieve id sample_rerank_env sample_hybrid sample_scores True ?R = Inr up"
    using sample_rerank_any [of ?R]
    by (auto simp: sample_request_def sample_assembler_def sample_expander_def)
  have wf: "store_wf s" using sample_assembler_store s by blast
  note ag = sample_agrees [OF s up]
  from sample_expands [OF s conjunct2 [OF ag]] obtain x where
    x: "expand sha fr \<lparr>xp_store = s, xp_counter = ti_count sample_counter,
      xp_context = ae_context sample_assembler\<rparr> (map anchor_of (kr_candidates up)) = Inr x" by blast
  from assemble_total [OF sample_preflight_ok up s wf conjunct1 [OF ag] x] s wf ag show ?thesis
    by (metis Inr_inject context_result_sel(2))
qed

theorem assemble_sound_witness:
  "\<exists>r. assemble sample_digest sample_float_repr sample_assembler
     (\<lambda>ready q. rerank_retrieve id sample_rerank_env sample_hybrid sample_scores ready q)
     True sample_request = Inr r \<and>
   (\<forall>u \<in> set (cx_evidence_units r). eu_document_id u \<in> {''doc-1'', ''doc-2''})"
proof -
  obtain r where r: "assemble sample_digest sample_float_repr sample_assembler
     (\<lambda>ready q. rerank_retrieve id sample_rerank_env sample_hybrid sample_scores ready q)
     True sample_request = Inr r"
    and s: "\<forall>name s. ae_structure sample_assembler name = Inr s \<longrightarrow> store_wf s \<and> agrees s (cx_anchors r)"
    using sample_assembled by blast
  from s have "store_wf s \<and> agrees s (cx_anchors r)" if "ae_structure sample_assembler name = Inr s" for name s
    using that by blast
  from assemble_sound [OF r this] r show ?thesis by (auto simp: sample_request_def)
qed

end
