(* ===== verification/Recovery_Contracts.thy ===== *)
theory Recovery_Contracts
  imports Context_Contracts
begin

section \<open>Recovery state and protocol contracts (recovery/contracts.py)\<close>

text \<open>
  The typed records of \<open>recovery/contracts.py\<close> with the constructor-time checks of their
  Pydantic models: \<open>ExactNonBlankStr\<close> fields (\<open>sufficiency/contracts.py\<close>) and the semantic
  validator of \<open>RecoverySufficiencyDecisionRefV1\<close>. A constructor that Pydantic refuses is the
  exception \<open>Validation_Error\<close> (Pydantic's rendering of the message around the
  offending value is not modelled).
\<close>

subsection \<open>Frozen identifiers\<close>

definition SUFFICIENCY_POLICY_V1 :: string where
  "SUFFICIENCY_POLICY_V1 = ''sufficiency-v1''"

definition EMPTY_CONTEXT_GATE_V1 :: string where
  "EMPTY_CONTEXT_GATE_V1 = ''empty_context_v1''"

definition RECOVERY_STATE_V1 :: string where
  "RECOVERY_STATE_V1 = ''recovery-state-v1''"

definition RECOVERY_PROTOCOL_V1 :: string where
  "RECOVERY_PROTOCOL_V1 = ''recovery-protocol-v1''"

definition RECOVERY_POLICY_VERSION_V1 :: string where
  "RECOVERY_POLICY_VERSION_V1 = ''v1''"

definition MAX_RECOVERY_RETRIES_V1 :: nat where
  "MAX_RECOVERY_RETRIES_V1 = 1"

definition MAX_ATTEMPT_NUMBER_V1 :: nat where
  "MAX_ATTEMPT_NUMBER_V1 = 1"

subsection \<open>Errors\<close>

datatype recovery_error_code =
    INVALID_STATE
  | INVALID_TRANSITION
  | ORIGINAL_QUERY_MUTATION
  | INVALID_ATTEMPT_NUMBER
  | INVALID_ATTEMPT_ROLE
  | NON_CONTIGUOUS_ATTEMPTS
  | DUPLICATE_ATTEMPT
  | RECOVERY_WITHOUT_INITIAL_INSUFFICIENCY
  | SECOND_RECOVERY_ATTEMPT
  | TERMINAL_STATE_TRANSITION
  | INCONSISTENT_SUFFICIENCY
  | INCONSISTENT_TERMINAL
  | ACTIVE_QUERY_MUTATION
  | CORPUS_FREE_TEXT_FORBIDDEN
  | INVALID_EVENT

fun error_code_value :: "recovery_error_code \<Rightarrow> string" where
  "error_code_value INVALID_STATE = ''invalid_state''"
| "error_code_value INVALID_TRANSITION = ''invalid_transition''"
| "error_code_value ORIGINAL_QUERY_MUTATION = ''original_query_mutation''"
| "error_code_value INVALID_ATTEMPT_NUMBER = ''invalid_attempt_number''"
| "error_code_value INVALID_ATTEMPT_ROLE = ''invalid_attempt_role''"
| "error_code_value NON_CONTIGUOUS_ATTEMPTS = ''non_contiguous_attempts''"
| "error_code_value DUPLICATE_ATTEMPT = ''duplicate_attempt''"
| "error_code_value RECOVERY_WITHOUT_INITIAL_INSUFFICIENCY =
     ''recovery_without_initial_insufficiency''"
| "error_code_value SECOND_RECOVERY_ATTEMPT = ''second_recovery_attempt''"
| "error_code_value TERMINAL_STATE_TRANSITION = ''terminal_state_transition''"
| "error_code_value INCONSISTENT_SUFFICIENCY = ''inconsistent_sufficiency''"
| "error_code_value INCONSISTENT_TERMINAL = ''inconsistent_terminal''"
| "error_code_value ACTIVE_QUERY_MUTATION = ''active_query_mutation''"
| "error_code_value CORPUS_FREE_TEXT_FORBIDDEN = ''corpus_free_text_forbidden''"
| "error_code_value INVALID_EVENT = ''invalid_event''"

text \<open>The values \<open>expected\<close> and \<open>actual\<close> may carry (\<open>str | float | bool | None\<close>).\<close>

datatype detail = DNone | DStr string | DNum int | DBool bool

record recovery_error_details =
  err_field_name :: "string option"
  err_expected :: detail
  err_actual :: detail

datatype recovery_exc =
    Protocol_Error recovery_error_code string recovery_error_details
  | Validation_Error string

text \<open>The machine-readable code of a protocol error.\<close>

fun exc_code :: "recovery_exc \<Rightarrow> recovery_error_code option" where
  "exc_code (Protocol_Error c m d) = Some c"
| "exc_code (Validation_Error m) = None"

subsection \<open>Phases, outcomes, events\<close>

datatype recovery_phase =
    AWAITING_INITIAL_SUFFICIENCY
  | RECOVERY_ELIGIBLE
  | RECOVERY_ATTEMPT_PENDING
  | TERMINAL

fun phase_value :: "recovery_phase \<Rightarrow> string" where
  "phase_value AWAITING_INITIAL_SUFFICIENCY = ''awaiting_initial_sufficiency''"
| "phase_value RECOVERY_ELIGIBLE = ''recovery_eligible''"
| "phase_value RECOVERY_ATTEMPT_PENDING = ''recovery_attempt_pending''"
| "phase_value TERMINAL = ''terminal''"

datatype recovery_terminal_outcome =
    INITIAL_EVIDENCE_SUFFICIENT
  | RECOVERED_EVIDENCE_SUFFICIENT
  | INSUFFICIENT_AFTER_BOUNDED_RECOVERY
  | RECOVERY_PREPARATION_OR_EXECUTION_FAILED

fun outcome_value :: "recovery_terminal_outcome \<Rightarrow> string" where
  "outcome_value INITIAL_EVIDENCE_SUFFICIENT = ''initial_evidence_sufficient''"
| "outcome_value RECOVERED_EVIDENCE_SUFFICIENT = ''recovered_evidence_sufficient''"
| "outcome_value INSUFFICIENT_AFTER_BOUNDED_RECOVERY = ''insufficient_after_bounded_recovery''"
| "outcome_value RECOVERY_PREPARATION_OR_EXECUTION_FAILED =
     ''recovery_preparation_or_execution_failed''"

datatype recovery_failure_reason =
    REWRITE_PREPARATION_FAILED
  | RECOVERY_EXECUTION_FAILED
  | PROTOCOL_VIOLATION

fun reason_value :: "recovery_failure_reason \<Rightarrow> string" where
  "reason_value REWRITE_PREPARATION_FAILED = ''rewrite_preparation_failed''"
| "reason_value RECOVERY_EXECUTION_FAILED = ''recovery_execution_failed''"
| "reason_value PROTOCOL_VIOLATION = ''protocol_violation''"

datatype attempt_role = INITIAL | RECOVERY

fun role_value :: "attempt_role \<Rightarrow> string" where
  "role_value INITIAL = ''initial''"
| "role_value RECOVERY = ''recovery''"

record recovery_diagnostics =
  dg_anchor_count :: "nat option"
  dg_evidence_unit_count :: "nat option"
  dg_top_reranker_score :: "pyfloat option"
  dg_top1_top2_margin :: "pyfloat option"
  dg_top_anchor_cross_retriever_support :: "bool option"
  dg_distinct_document_count :: "nat option"
  dg_distinct_section_count :: "nat option"
  dg_clipping_occurred :: "bool option"
  dg_budget_exhausted :: "bool option"
  dg_stop_reason :: "assembly_stop_reason option"

record sufficiency_ref =
  policy_contract :: string
  policy_version :: string
  sufficient :: bool
  triggered_gates :: "string list"
  empty_context :: bool
  evidence_unit_count :: nat

text \<open>
  The model validator \<open>_enforce_sufficiency_v1_semantics\<close>, run when a
  \<open>RecoverySufficiencyDecisionRefV1\<close> is constructed.
\<close>

definition enforce_sufficiency_v1_semantics :: "sufficiency_ref \<Rightarrow> recovery_exc + sufficiency_ref" where
  "enforce_sufficiency_v1_semantics r =
     (if policy_contract r \<noteq> SUFFICIENCY_POLICY_V1 then
        Inl (Validation_Error ''policy_contract must be sufficiency-v1'')
      else if policy_version r \<noteq> RECOVERY_POLICY_VERSION_V1 then
        Inl (Validation_Error ''policy_version must be v1'')
      else if sufficient r then
        (if empty_context r then
           Inl (Validation_Error ''sufficient=true requires empty_context=false'')
         else if evidence_unit_count r \<le> 0 then
           Inl (Validation_Error ''sufficient=true requires evidence_unit_count > 0'')
         else if triggered_gates r \<noteq> [] then
           Inl (Validation_Error ''sufficient=true requires triggered_gates == []'')
         else Inr r)
      else
        (if \<not> empty_context r then
           Inl (Validation_Error ''sufficient=false requires empty_context=true'')
         else if evidence_unit_count r \<noteq> 0 then
           Inl (Validation_Error ''sufficient=false requires evidence_unit_count == 0'')
         else if triggered_gates r \<noteq> [EMPTY_CONTEXT_GATE_V1] then
           Inl (Validation_Error ''sufficient=false requires triggered_gates == [empty_context_v1]'')
         else Inr r))"

record recovery_attempt =
  attempt_number :: nat
  attempt_role :: attempt_role
  attempt_query :: string
  attempt_sufficiency :: sufficiency_ref
  attempt_diagnostics :: "recovery_diagnostics option"

record recovery_state =
  schema_version :: string
  protocol_contract :: string
  case_id :: "string option"
  original_query :: string
  active_retrieval_query :: string
  current_attempt_number :: nat
  current_attempt_role :: attempt_role
  max_retries :: nat
  phase :: recovery_phase
  attempts :: "recovery_attempt list"
  current_sufficiency :: "sufficiency_ref option"
  terminal_outcome :: "recovery_terminal_outcome option"
  failure_reason :: "recovery_failure_reason option"

datatype recovery_event_kind =
    RECORD_INITIAL_SUFFICIENCY
  | PREPARE_RECOVERY_QUERY
  | RECORD_RECOVERY_SUFFICIENCY
  | FAIL_RECOVERY

fun kind_value :: "recovery_event_kind \<Rightarrow> string" where
  "kind_value RECORD_INITIAL_SUFFICIENCY = ''record_initial_sufficiency''"
| "kind_value PREPARE_RECOVERY_QUERY = ''prepare_recovery_query''"
| "kind_value RECORD_RECOVERY_SUFFICIENCY = ''record_recovery_sufficiency''"
| "kind_value FAIL_RECOVERY = ''fail_recovery''"

record recovery_event =
  ev_kind :: recovery_event_kind
  ev_sufficiency :: "sufficiency_ref option"
  ev_diagnostics :: "recovery_diagnostics option"
  ev_prepared_query :: "string option"
  ev_failure_reason :: "recovery_failure_reason option"

subsection \<open>Constructors with their field constraints\<close>

text \<open>\<open>_exact_nonblank_str\<close>: a nonblank string, kept exactly (no stripping).\<close>

definition exact_nonblank_str :: "string \<Rightarrow> recovery_exc + string" where
  "exact_nonblank_str v =
     (if v = [] \<or> py_strip v = [] then Inl (Validation_Error ''must be a nonblank string'')
      else Inr v)"

lemma exact_nonblank_str_iff [simp]:
  "exact_nonblank_str v = Inr w \<longleftrightarrow> nonblank v \<and> w = v"
  by (auto simp: exact_nonblank_str_def nonblank_def)

definition mk_attempt ::
    "nat \<Rightarrow> attempt_role \<Rightarrow> string \<Rightarrow> sufficiency_ref \<Rightarrow> recovery_diagnostics option
     \<Rightarrow> recovery_exc + recovery_attempt" where
  "mk_attempt n role q r d =
     bind_res (exact_nonblank_str q) (\<lambda>q'.
       Inr \<lparr>attempt_number = n, attempt_role = role, attempt_query = q',
            attempt_sufficiency = r, attempt_diagnostics = d\<rparr>)"

definition mk_event ::
    "recovery_event_kind \<Rightarrow> sufficiency_ref option \<Rightarrow> recovery_diagnostics option \<Rightarrow> string option
     \<Rightarrow> recovery_failure_reason option \<Rightarrow> recovery_exc + recovery_event" where
  "mk_event k r d q f =
     bind_res (case q of None \<Rightarrow> Inr () | Some v \<Rightarrow> bind_res (exact_nonblank_str v) (\<lambda>_. Inr ()))
       (\<lambda>_. Inr \<lparr>ev_kind = k, ev_sufficiency = r, ev_diagnostics = d, ev_prepared_query = q,
                 ev_failure_reason = f\<rparr>)"

text \<open>The field constraints a constructed event and a constructed state satisfy.\<close>

definition wf_event :: "recovery_event \<Rightarrow> bool" where
  "wf_event e \<longleftrightarrow> (\<forall>q. ev_prepared_query e = Some q \<longrightarrow> nonblank q)"

definition wf_state :: "recovery_state \<Rightarrow> bool" where
  "wf_state s \<longleftrightarrow> nonblank (original_query s) \<and> nonblank (active_retrieval_query s) \<and>
     (\<forall>c. case_id s = Some c \<longrightarrow> nonblank c) \<and>
     (\<forall>a \<in> set (attempts s). nonblank (attempt_query a))"

lemma mk_event_wf: "mk_event k r d q f = Inr e \<Longrightarrow> wf_event e"
  by (auto simp: mk_event_def wf_event_def bind_res_Inr_iff split: option.splits)

lemma mk_attempt_iff [simp]:
  "mk_attempt n role q r d = Inr a \<longleftrightarrow> nonblank q \<and>
     a = \<lparr>attempt_number = n, attempt_role = role, attempt_query = q,
          attempt_sufficiency = r, attempt_diagnostics = d\<rparr>"
  by (auto simp: mk_attempt_def bind_res_Inr_iff)

end
