(* ===== verification/Sufficiency_Policy.thy ===== *)
theory Sufficiency_Policy
  imports Context_Assembly Recovery_Contracts
begin

section \<open>The runtime sufficiency policy (sufficiency/policy.py)\<close>

text \<open>
  The decision record of the policy \<open>sufficiency-v1\<close>, its evaluation on the final evidence units,
  and the fail-closed check of the configured policy. \<open>repr\<close> of a string and of a float, which only
  error messages show, are parameters.
\<close>

record abstention_settings =
  ab_enabled :: bool
  ab_policy :: string
  ab_threshold :: "pyfloat option"

record policy_decision =
  pd_policy_contract :: string
  pd_policy_version :: string
  pd_sufficient :: bool
  pd_triggered_gates :: "string list"
  pd_evidence_unit_count :: nat
  pd_empty_context :: bool
  pd_diagnostics :: "(string \<times> json) list"

definition empty_context_from_evidence_units :: "evidence_unit list \<Rightarrow> bool" where
  "empty_context_from_evidence_units us \<longleftrightarrow> length us = 0"

definition evaluate_sufficiency_policy_v1 :: "evidence_unit list \<Rightarrow> policy_decision" where
  "evaluate_sufficiency_policy_v1 us =
     (let evidence_unit_count = length us; empty = (evidence_unit_count = 0) in
      if empty then
        \<lparr>pd_policy_contract = SUFFICIENCY_POLICY_V1, pd_policy_version = ''v1'',
         pd_sufficient = False, pd_triggered_gates = [EMPTY_CONTEXT_GATE_V1],
         pd_evidence_unit_count = 0, pd_empty_context = True,
         pd_diagnostics = [(''rule'', JStr ''empty_context => insufficient''),
           (''authorized_gates'', JList [JStr EMPTY_CONTEXT_GATE_V1])]\<rparr>
      else
        \<lparr>pd_policy_contract = SUFFICIENCY_POLICY_V1, pd_policy_version = ''v1'',
         pd_sufficient = True, pd_triggered_gates = [],
         pd_evidence_unit_count = evidence_unit_count, pd_empty_context = False,
         pd_diagnostics = [(''rule'', JStr ''non-empty final EvidenceUnits => sufficient''),
           (''authorized_gates'', JList [JStr EMPTY_CONTEXT_GATE_V1])]\<rparr>)"

text \<open>\<open>SufficiencyPolicyError\<close> by its message\<close>

definition require_runtime_sufficiency_policy ::
    "(string \<Rightarrow> string) \<Rightarrow> (pyfloat \<Rightarrow> string) \<Rightarrow> abstention_settings \<Rightarrow> string + string" where
  "require_runtime_sufficiency_policy repr fr ab =
     (if ab_policy ab \<noteq> SUFFICIENCY_POLICY_V1 then
        Inl (''unsupported abstention.policy='' @ repr (ab_policy ab) @
          ''; authorized runtime contract is '' @ repr SUFFICIENCY_POLICY_V1)
      else if ab_threshold ab \<noteq> None then
        Inl (SUFFICIENCY_POLICY_V1 @ '' forbids numeric threshold; got threshold='' @
          (case ab_threshold ab of Some t \<Rightarrow> fr t | None \<Rightarrow> ''None''))
      else if \<not> ab_enabled ab then
        Inl (SUFFICIENCY_POLICY_V1 @ '' requires abstention.enabled=true '' @
          ''(empty_context hard gate cannot be disabled)'')
      else Inr SUFFICIENCY_POLICY_V1)"

definition evaluate_runtime_sufficiency ::
    "(string \<Rightarrow> string) \<Rightarrow> (pyfloat \<Rightarrow> string) \<Rightarrow> abstention_settings \<Rightarrow> evidence_unit list \<Rightarrow>
     string + policy_decision" where
  "evaluate_runtime_sufficiency repr fr ab us =
     bind_res (require_runtime_sufficiency_policy repr fr ab) (\<lambda>_.
       Inr (evaluate_sufficiency_policy_v1 us))"

definition decision_diagnostics :: "policy_decision \<Rightarrow> (string \<times> json) list" where
  "decision_diagnostics d =
     [(''sufficiency_policy_contract'', JStr (pd_policy_contract d)),
      (''sufficiency_policy_version'', JStr (pd_policy_version d)),
      (''sufficient'', JBool (pd_sufficient d)),
      (''triggered_gates'', JList (map JStr (pd_triggered_gates d))),
      (''empty_context'', JBool (pd_empty_context d)),
      (''evidence_unit_count'', JInt (int (pd_evidence_unit_count d)))]"

text \<open>The model validator \<open>AbstentionSettings._authorize_policy\<close> admits what the runtime admits.\<close>

definition authorize_policy ::
    "(string \<Rightarrow> string) \<Rightarrow> (pyfloat \<Rightarrow> string) \<Rightarrow> abstention_settings \<Rightarrow> string + abstention_settings" where
  "authorize_policy repr fr ab =
     (if ab_policy ab \<noteq> ''sufficiency-v1'' then
        Inl (''abstention.policy must be '' @ [char_of (39::nat)] @ ''sufficiency-v1'' @ [char_of (39::nat)] @
          '' (unsupported: '' @ repr (ab_policy ab) @ ''; score_threshold is not authorized)'')
      else (case ab_threshold ab of
          Some t \<Rightarrow> Inl (''abstention.threshold must be null for sufficiency-v1 (got '' @ fr t @ '')'')
        | None \<Rightarrow>
            if \<not> ab_enabled ab then
              Inl (''abstention.enabled must be true for sufficiency-v1 '' @
                ''(empty_context hard gate cannot be disabled)'')
            else Inr ab))"

subsection \<open>Facts\<close>

lemma runtime_policy_iff:
  "require_runtime_sufficiency_policy repr fr ab = Inr p \<longleftrightarrow>
     p = SUFFICIENCY_POLICY_V1 \<and> ab_policy ab = SUFFICIENCY_POLICY_V1 \<and> ab_threshold ab = None \<and>
     ab_enabled ab"
  by (auto simp: require_runtime_sufficiency_policy_def)

lemma authorize_policy_iff:
  "(\<exists>p. authorize_policy repr fr ab = Inr p) \<longleftrightarrow>
     (\<exists>p. require_runtime_sufficiency_policy repr fr ab = Inr p)"
  by (auto simp: authorize_policy_def runtime_policy_iff SUFFICIENCY_POLICY_V1_def
      split: option.splits if_splits)

lemma evaluate_runtime_Inr:
  "evaluate_runtime_sufficiency repr fr ab us = Inr d \<Longrightarrow> d = evaluate_sufficiency_policy_v1 us"
  by (auto simp: evaluate_runtime_sufficiency_def bind_res_Inr_iff)

lemma policy_decision_sel [simp]:
  "pd_sufficient (evaluate_sufficiency_policy_v1 us) \<longleftrightarrow> us \<noteq> []"
  "pd_empty_context (evaluate_sufficiency_policy_v1 us) \<longleftrightarrow> us = []"
  "pd_evidence_unit_count (evaluate_sufficiency_policy_v1 us) = length us"
  "pd_triggered_gates (evaluate_sufficiency_policy_v1 us) = (if us = [] then [EMPTY_CONTEXT_GATE_V1] else [])"
  by (simp_all add: evaluate_sufficiency_policy_v1_def Let_def)

end
