(* ===== verification/Grounded_Types.thy ===== *)
theory Grounded_Types
  imports Context_Assembly Sufficiency_Policy
begin

section \<open>Grounded answers (domain/generation.py, generation/contracts.py, config_hash.py, protocol.py)\<close>

text \<open>
  The generation settings with their validators, the configuration identity of both answer contracts,
  the requests and responses of a generator, and the answer envelope with the checks of its Pydantic
  model.
\<close>

subsection \<open>Settings and configuration identity\<close>

record generation_settings =
  gn_enabled :: bool
  gn_provider :: string
  gn_base_url :: string
  gn_model :: string
  gn_temperature :: pyfloat
  gn_max_output_tokens :: nat
  gn_strategy :: string
  gn_contract_version :: string

definition PROMPT_GROUNDED_V1 :: string where "PROMPT_GROUNDED_V1 = ''prompt-grounded-v1''"
definition PROMPT_GROUNDED_PROVENANCE_V2 :: string where
  "PROMPT_GROUNDED_PROVENANCE_V2 = ''prompt-grounded-provenance-v2''"
definition GROUNDED_ANSWER_V1 :: string where "GROUNDED_ANSWER_V1 = ''grounded-answer-v1''"
definition GROUNDED_ANSWER_V2 :: string where "GROUNDED_ANSWER_V2 = ''grounded_answer_v2''"

text \<open>\<open>GenerationPromptSettings._validate_prompt_pair\<close> and \<open>GenerationSettings._temperature_range\<close>.\<close>

definition validate_prompt_pair :: "generation_settings \<Rightarrow> string + unit" where
  "validate_prompt_pair gs =
     (if (gn_strategy gs, gn_contract_version gs) \<in>
         {(''grounded'', ''prompt-grounded-v1''),
          (''grounded_provenance'', ''prompt-grounded-provenance-v2'')} then Inr ()
      else Inl (''generation.prompt strategy/contract_version must be one of '' @
        ''grounded/prompt-grounded-v1 or grounded_provenance/prompt-grounded-provenance-v2; got '' @
        gn_strategy gs @ ''/'' @ gn_contract_version gs))"

definition temperature_range :: "pyfloat \<Rightarrow> string + pyfloat" where
  "temperature_range t =
     (if t < 0 \<or> 2 < t then Inl ''temperature must be between 0.0 and 2.0'' else Inr t)"

definition build_generation_semantic_payload :: "generation_settings \<Rightarrow> (string \<times> json) list" where
  "build_generation_semantic_payload gs =
     [(''provider'', JStr (gn_provider gs)), (''adapter_contract'', JStr ''openai-compatible-generator-v1''),
      (''model'', JStr (gn_model gs)), (''temperature'', JFloat (gn_temperature gs)),
      (''max_output_tokens'', JInt (int (gn_max_output_tokens gs))),
      (''prompt_contract'', JStr (gn_contract_version gs)),
      (''output_contract'', JStr GROUNDED_ANSWER_V1), (''recovery_contract'', JStr ''no-retry-v1''),
      (''reasoning_contract'', JStr ''direct-output-v1'')]"

definition build_product_v2_generation_semantic_payload ::
    "generation_settings \<Rightarrow> (string \<times> json) list" where
  "build_product_v2_generation_semantic_payload gs =
     dict_set ''output_contract'' (JStr GROUNDED_ANSWER_V2)
       (dict_set ''prompt_contract'' (JStr GROUNDED_ANSWER_V2) (build_generation_semantic_payload gs))"

definition build_generation_config_hash ::
    "digest \<Rightarrow> (pyfloat \<Rightarrow> string) \<Rightarrow> generation_settings \<Rightarrow> string" where
  "build_generation_config_hash sha fr gs =
     generation_config_hash sha fr (JObj (build_generation_semantic_payload gs))"

definition build_product_v2_generation_config_hash ::
    "digest \<Rightarrow> (pyfloat \<Rightarrow> string) \<Rightarrow> generation_settings \<Rightarrow> string" where
  "build_product_v2_generation_config_hash sha fr gs =
     generation_config_hash sha fr (JObj (build_product_v2_generation_semantic_payload gs))"

subsection \<open>The generator's interface\<close>

record chat_message =
  cm_role :: string
  cm_content :: string

record generator_request =
  gq_messages :: "chat_message list"
  gq_model :: string
  gq_temperature :: pyfloat
  gq_max_output_tokens :: nat
  gq_response_format :: json
  gq_metadata :: "(string \<times> json) list"

record generator_response =
  gr_content :: string
  gr_usage :: "(string \<times> json) list"

text \<open>
  What a call raises: \<open>OpenAICompatibleGeneratorError\<close> by its \<open>failure_reason\<close>, any other exception by
  its text.
\<close>

datatype generator_exc = Generator_Error string | Generator_Other string

subsection \<open>Answers\<close>

record resolved_citation =
  ct_evidence_unit_id :: string
  ct_source_chunk_id :: string
  ct_kind :: unit_kind
  ct_document_id :: string
  ct_representation :: string
  ct_clipped :: bool
  ct_section_path :: "string list"
  ct_page_start :: "nat option"
  ct_page_end :: "nat option"
  ct_line_start :: "nat option"
  ct_line_end :: "nat option"
  ct_clip :: "evidence_clip_info option"
  ct_primary_anchor_chunk_id :: "string option"

record answer_block =
  ab_text :: string
  ab_evidence_unit_ids :: "string list"

datatype answer_status = Answered | Insufficient_Evidence | Generation_Failed | Citation_Invalid
datatype abstention_reason = Empty_Context | Model_Abstain
datatype product_abstention_reason =
  No_Evidence | Insufficient_Support | Conflicting_Evidence | Model_Declined

fun abstention_value :: "abstention_reason \<Rightarrow> string" where
  "abstention_value Empty_Context = ''empty_context''"
| "abstention_value Model_Abstain = ''model_abstain''"

fun product_abstention_value :: "product_abstention_reason \<Rightarrow> string" where
  "product_abstention_value No_Evidence = ''no_evidence''"
| "product_abstention_value Insufficient_Support = ''insufficient_support''"
| "product_abstention_value Conflicting_Evidence = ''conflicting_evidence''"
| "product_abstention_value Model_Declined = ''model_declined''"

record grounded_answer_result =
  ga_query :: string
  ga_status :: answer_status
  ga_answer_text :: "string option"
  ga_citations :: "resolved_citation list"
  ga_answer_blocks :: "answer_block list"
  ga_abstention_reason :: "abstention_reason option"
  ga_product_abstention_reason :: "product_abstention_reason option"
  ga_generation_failure_reason :: "string option"
  ga_generator_invoked :: bool
  ga_attempt_count :: nat
  ga_generation_config_hash :: string
  ga_context_config_hash :: "string option"
  ga_dense_index_id :: "string option"
  ga_lexical_index_id :: "string option"
  ga_fusion_config_hash :: "string option"
  ga_reranker_config_hash :: "string option"
  ga_effective_generation_semantics :: "(string \<times> json) list"
  ga_diagnostics :: "(string \<times> json) list"
  ga_metadata :: "(string \<times> json) list"

definition evidence_unit_ids_used :: "grounded_answer_result \<Rightarrow> string list" where
  "evidence_unit_ids_used r = map ct_evidence_unit_id (ga_citations r)"

text \<open>
  What generation raises: \<open>GroundedGenerationError\<close>, Pydantic's \<open>ValidationError\<close> for an empty
  \<open>NonEmptyStr\<close>, a \<open>KeyError\<close>, the corpus name error, and the \<open>ValueError\<close> of prompt evidence.
\<close>

datatype generation_exc =
    Grounded_Generation_Error string
  | Result_Validation_Error
  | Missing_Key string
  | Name_Error retrieval_exc
  | Evidence_Value_Error string

definition field_str :: "string \<Rightarrow> generation_exc + string" where
  "field_str s = (case nonempty_str s of None \<Rightarrow> Inl Result_Validation_Error | Some t \<Rightarrow> Inr t)"

definition field_opt :: "string option \<Rightarrow> generation_exc + string option" where
  "field_opt s = (case s of None \<Rightarrow> Inr None | Some v \<Rightarrow> bind_res (field_str v) (\<lambda>t. Inr (Some t)))"

text \<open>The constructors \<open>ResolvedCitation(...)\<close>, \<open>GroundedAnswerBlock(...)\<close> and \<open>GroundedAnswerResult(...)\<close>.\<close>

definition mk_citation :: "resolved_citation \<Rightarrow> generation_exc + resolved_citation" where
  "mk_citation c =
     bind_res (field_str (ct_evidence_unit_id c)) (\<lambda>unit_id.
     bind_res (field_str (ct_source_chunk_id c)) (\<lambda>source.
     bind_res (field_str (ct_document_id c)) (\<lambda>document.
     bind_res (field_str (ct_representation c)) (\<lambda>representation.
     bind_res (field_opt (ct_primary_anchor_chunk_id c)) (\<lambda>primary.
     Inr (c\<lparr>ct_evidence_unit_id := unit_id, ct_source_chunk_id := source,
            ct_document_id := document, ct_representation := representation,
            ct_primary_anchor_chunk_id := primary\<rparr>))))))"

definition mk_answer_block :: "string \<Rightarrow> string list \<Rightarrow> generation_exc + answer_block" where
  "mk_answer_block s ids =
     bind_res (field_str s) (\<lambda>t. bind_res (map_res field_str ids) (\<lambda>es.
       Inr \<lparr>ab_text = t, ab_evidence_unit_ids = es\<rparr>))"

definition mk_grounded_answer :: "grounded_answer_result \<Rightarrow> generation_exc + grounded_answer_result" where
  "mk_grounded_answer r =
     bind_res (field_str (ga_query r)) (\<lambda>query.
     bind_res (field_opt (ga_generation_failure_reason r)) (\<lambda>failure.
     bind_res (field_str (ga_generation_config_hash r)) (\<lambda>gencfg.
     bind_res (field_opt (ga_context_config_hash r)) (\<lambda>ctxcfg.
     bind_res (field_opt (ga_dense_index_id r)) (\<lambda>dense.
     bind_res (field_opt (ga_lexical_index_id r)) (\<lambda>lexical.
     bind_res (field_opt (ga_fusion_config_hash r)) (\<lambda>fusion.
     bind_res (field_opt (ga_reranker_config_hash r)) (\<lambda>reranker.
     Inr (r\<lparr>ga_query := query, ga_generation_failure_reason := failure,
            ga_generation_config_hash := gencfg, ga_context_config_hash := ctxcfg,
            ga_dense_index_id := dense, ga_lexical_index_id := lexical,
            ga_fusion_config_hash := fusion, ga_reranker_config_hash := reranker\<rparr>)))))))))"

subsection \<open>Facts\<close>

definition opt_clean :: "string option \<Rightarrow> bool" where
  "opt_clean s \<longleftrightarrow> (\<forall>v. s = Some v \<longrightarrow> is_nonempty_str v)"

lemma opt_clean_simps [simp]: "opt_clean None" "opt_clean (Some v) \<longleftrightarrow> is_nonempty_str v"
  by (simp_all add: opt_clean_def)

lemma field_str_id: "is_nonempty_str s \<Longrightarrow> field_str s = Inr s"
  by (simp add: field_str_def is_nonempty_str_def)

lemma field_str_nonblank: "nonblank s \<Longrightarrow> field_str s = Inr (trim s)"
  using nonblank_trim [of s] by (simp add: field_str_def nonempty_str_def)

lemma field_opt_id: "opt_clean s \<Longrightarrow> field_opt s = Inr s"
  by (cases s) (simp_all add: field_opt_def field_str_id)

lemma map_field_str_id: "(\<And>s. s \<in> set xs \<Longrightarrow> is_nonempty_str s) \<Longrightarrow> map_res field_str xs = Inr xs"
  using map_res_total [of xs field_str "\<lambda>s. s"] field_str_id by simp

lemma mk_answer_block_ok:
  assumes "nonblank s" and "\<And>i. i \<in> set ids \<Longrightarrow> is_nonempty_str i"
  shows "mk_answer_block s ids = Inr \<lparr>ab_text = trim s, ab_evidence_unit_ids = ids\<rparr>"
  using assms by (simp add: mk_answer_block_def field_str_nonblank map_field_str_id)

lemma mk_grounded_answer_Inr:
  assumes "mk_grounded_answer r = Inr s"
  shows "ga_status s = ga_status r" "ga_citations s = ga_citations r"
    "ga_answer_text s = ga_answer_text r" "ga_answer_blocks s = ga_answer_blocks r"
    "ga_attempt_count s = ga_attempt_count r" "ga_generator_invoked s = ga_generator_invoked r"
    "ga_product_abstention_reason s = ga_product_abstention_reason r"
    "ga_abstention_reason s = ga_abstention_reason r" "ga_query s = trim (ga_query r)"
  using assms
  by (auto simp: mk_grounded_answer_def bind_res_Inr_iff field_str_def nonempty_str_def Let_def
      split: option.splits if_splits)

lemma mk_grounded_answer_clean:
  assumes "is_nonempty_str (ga_query r)" "is_nonempty_str (ga_generation_config_hash r)"
    "opt_clean (ga_generation_failure_reason r)" "opt_clean (ga_context_config_hash r)"
    "opt_clean (ga_dense_index_id r)" "opt_clean (ga_lexical_index_id r)"
    "opt_clean (ga_fusion_config_hash r)" "opt_clean (ga_reranker_config_hash r)"
  shows "mk_grounded_answer r = Inr r"
  using assms by (simp add: mk_grounded_answer_def field_str_id field_opt_id)

end
