(* ===== verification/Citations.thy ===== *)
theory Citations
  imports Grounded_Types
begin

section \<open>Citations (generation/citations.py, evidence_handles.py, excerpts.py, projection_v2.py)\<close>

text \<open>
  The evidence a response may name: membership and resolution of citation ids, the response-local
  handles E1, E2, ... and their resolution, the plain-text excerpt of a cited unit, and the public
  form of an answer with references c1, c2, ... A lookup \<open>d[k]\<close> that misses raises \<open>Missing_Key\<close>.
\<close>

definition dict_at :: "(string \<times> 'v) list \<Rightarrow> string \<Rightarrow> generation_exc + 'v" where
  "dict_at d k = (case map_of d k of None \<Rightarrow> Inl (Missing_Key k) | Some v \<Rightarrow> Inr v)"

lemma dict_at_Inr [simp]: "dict_at d k = Inr v \<longleftrightarrow> map_of d k = Some v"
  by (simp add: dict_at_def split: option.split)

subsection \<open>Membership and resolution\<close>

definition allowed_evidence_ids :: "evidence_unit list \<Rightarrow> string set" where
  "allowed_evidence_ids us = eu_evidence_unit_id ` set us"

definition validate_citation_membership :: "string list \<Rightarrow> evidence_unit list \<Rightarrow> string list" where
  "validate_citation_membership ids us =
     (let allowed = allowed_evidence_ids us in filter (\<lambda>i. i \<notin> allowed) ids)"

definition citation_of :: "evidence_unit \<Rightarrow> resolved_citation" where
  "citation_of u =
     \<lparr>ct_evidence_unit_id = eu_evidence_unit_id u, ct_source_chunk_id = eu_source_chunk_id u,
      ct_kind = eu_kind u, ct_document_id = eu_document_id u,
      ct_representation = (if eu_clipped u then ''clipped'' else ''full''), ct_clipped = eu_clipped u,
      ct_section_path = eu_section_path u, ct_page_start = eu_page_start u,
      ct_page_end = eu_page_end u, ct_line_start = eu_line_start u, ct_line_end = eu_line_end u,
      ct_clip = eu_clip u, ct_primary_anchor_chunk_id = Some (eu_primary_anchor_chunk_id u)\<rparr>"

definition resolve_citations ::
    "string list \<Rightarrow> evidence_unit list \<Rightarrow> generation_exc + resolved_citation list" where
  "resolve_citations ids us =
     (let by_id = dict_by eu_evidence_unit_id us in
      map_res (\<lambda>i. bind_res (dict_at by_id i) (\<lambda>u. mk_citation (citation_of u))) ids)"

subsection \<open>Evidence handles\<close>

definition handle_of :: "nat \<Rightarrow> string" where
  "handle_of n = CHR ''E'' # str_nat n"

text \<open>The handles are distinct, so the dictionaries keep one entry per unit, in context order.\<close>

definition assign_evidence_handles ::
    "evidence_unit list \<Rightarrow> (string \<times> string) list \<times> (string \<times> evidence_unit) list" where
  "assign_evidence_handles us =
     (map (\<lambda>(n, u). (handle_of n, eu_evidence_unit_id u)) (enum1 us),
      map (\<lambda>(n, u). (handle_of n, u)) (enum1 us))"

text \<open>The pattern \<open>^E([1-9][0-9]*)$\<close> under \<open>fullmatch\<close>.\<close>

fun is_valid_handle_syntax :: "string \<Rightarrow> bool" where
  "is_valid_handle_syntax (e # d # ds) \<longleftrightarrow>
     e = CHR ''E'' \<and> is_digit d \<and> d \<noteq> CHR ''0'' \<and> list_all is_digit ds"
| "is_valid_handle_syntax s \<longleftrightarrow> False"

definition resolve_handles_to_evidence_ids ::
    "string list \<Rightarrow> (string \<times> string) list \<Rightarrow> generation_exc + string list" where
  "resolve_handles_to_evidence_ids handles handle_to_id = map_res (dict_at handle_to_id) handles"

subsection \<open>Excerpts\<close>

definition EXCERPT_MAX_CHARS :: nat where "EXCERPT_MAX_CHARS = 400"

text \<open>\<open>re.sub("<[^>]*>", "", text)\<close>: each match runs from a \<open><\<close> to the next \<open>>\<close>.\<close>

function strip_tags :: "string \<Rightarrow> string" where
  "strip_tags [] = []"
| "strip_tags (c # cs) =
     (if c = CHR ''<'' \<and> CHR ''>'' \<in> set cs
      then strip_tags (tl (dropWhile (\<lambda>x. x \<noteq> CHR ''>'') cs)) else c # strip_tags cs)"
  by pat_completeness auto

termination
proof (relation "measure length")
  fix c and cs :: string
  have "length (dropWhile (\<lambda>x. x \<noteq> CHR ''>'') cs) \<le> length cs" by (rule length_dropWhile_le)
  then show "(tl (dropWhile (\<lambda>x. x \<noteq> CHR ''>'') cs), c # cs) \<in> measure length" by simp
qed auto

definition build_citation_excerpt :: "string \<Rightarrow> string \<times> bool" where
  "build_citation_excerpt s =
     (let plain = filter (\<lambda>c. c \<noteq> CHR 0x00) (strip_tags s) in
      if length plain \<le> EXCERPT_MAX_CHARS then (plain, False)
      else (take EXCERPT_MAX_CHARS plain, True))"

subsection \<open>Public projection\<close>

record public_answer_block =
  pb_text :: string
  pb_citation_refs :: "string list"

record public_citation =
  pc_evidence_unit_id :: string
  pc_document_id :: string
  pc_source_chunk_id :: string
  pc_kind :: unit_kind
  pc_section_path :: "string list"
  pc_page_start :: "nat option"
  pc_page_end :: "nat option"
  pc_line_start :: "nat option"
  pc_line_end :: "nat option"
  pc_clipped :: bool
  pc_citation_ref :: string
  pc_excerpt :: string
  pc_excerpt_clipped :: bool

definition project_plain_answer :: "answer_block list \<Rightarrow> string" where
  "project_plain_answer blocks = join [char_of (10::nat), char_of (10::nat)] (map ab_text blocks)"

definition ref_of :: "nat \<Rightarrow> string" where
  "ref_of n = CHR ''c'' # str_nat n"

definition id_to_ref :: "string list \<Rightarrow> (string \<times> string) list" where
  "id_to_ref ordered = foldl (\<lambda>d (n, i). dict_set i (ref_of n) d) [] (enum1 ordered)"

definition assign_public_citation_refs ::
    "answer_block list \<Rightarrow> generation_exc + public_answer_block list \<times> string list" where
  "assign_public_citation_refs blocks =
     (let ordered_unique = first_occ (concat (map ab_evidence_unit_ids blocks));
          refs = id_to_ref ordered_unique in
      bind_res (map_res (\<lambda>b. bind_res (map_res (dict_at refs) (ab_evidence_unit_ids b)) (\<lambda>rs.
         Inr \<lparr>pb_text = ab_text b, pb_citation_refs = rs\<rparr>)) blocks) (\<lambda>public_blocks.
      Inr (public_blocks, ordered_unique)))"

definition citation_public_row :: "resolved_citation \<Rightarrow> string \<Rightarrow> string \<Rightarrow> bool \<Rightarrow> public_citation" where
  "citation_public_row c r excerpt clipped =
     \<lparr>pc_evidence_unit_id = ct_evidence_unit_id c, pc_document_id = ct_document_id c,
      pc_source_chunk_id = ct_source_chunk_id c, pc_kind = ct_kind c,
      pc_section_path = ct_section_path c, pc_page_start = ct_page_start c,
      pc_page_end = ct_page_end c, pc_line_start = ct_line_start c, pc_line_end = ct_line_end c,
      pc_clipped = ct_clipped c, pc_citation_ref = r, pc_excerpt = excerpt,
      pc_excerpt_clipped = clipped\<rparr>"

definition project_public_citations ::
    "string list \<Rightarrow> evidence_unit list \<Rightarrow> generation_exc + public_citation list" where
  "project_public_citations ordered us =
     bind_res (resolve_citations ordered us) (\<lambda>resolved.
     let by_id = dict_by eu_evidence_unit_id us in
     map_res (\<lambda>(n, c). bind_res (dict_at by_id (ct_evidence_unit_id c)) (\<lambda>u.
       case build_citation_excerpt (eu_text u) of (excerpt, clipped) \<Rightarrow>
         Inr (citation_public_row c (ref_of n) excerpt clipped))) (enum1 resolved))"

subsection \<open>Facts: resolution\<close>

text \<open>What the constructor of an evidence unit guarantees of the fields a citation copies.\<close>

definition unit_clean :: "evidence_unit \<Rightarrow> bool" where
  "unit_clean u \<longleftrightarrow> is_nonempty_str (eu_evidence_unit_id u) \<and> is_nonempty_str (eu_source_chunk_id u) \<and>
     is_nonempty_str (eu_document_id u) \<and> is_nonempty_str (eu_primary_anchor_chunk_id u)"

lemma mk_citation_clean: "unit_clean u \<Longrightarrow> mk_citation (citation_of u) = Inr (citation_of u)"
proof -
  assume u: "unit_clean u"
  have "is_nonempty_str ''full''" "is_nonempty_str ''clipped''" by code_simp+
  with u show ?thesis
    by (simp add: mk_citation_def citation_of_def unit_clean_def field_str_id field_opt_id)
qed

lemma resolve_citations_clean:
  assumes "\<forall>u \<in> set us. unit_clean u" and "set ids \<subseteq> allowed_evidence_ids us"
  shows "\<exists>cs. resolve_citations ids us = Inr cs \<and> map ct_evidence_unit_id cs = ids \<and>
    (\<forall>c \<in> set cs. \<exists>u \<in> set us. c = citation_of u)"
proof -
  let ?d = "dict_by eu_evidence_unit_id us" and ?g = "\<lambda>i. citation_of (the (map_of (dict_by eu_evidence_unit_id us) i))"
  have each: "\<exists>u \<in> set us. map_of ?d i = Some u \<and> eu_evidence_unit_id u = i" if "i \<in> set ids" for i
  proof -
    from assms(2) that have "\<exists>u \<in> set us. eu_evidence_unit_id u = i"
      by (auto simp: allowed_evidence_ids_def)
    then have "map_of ?d i \<noteq> None" by (simp only: dict_by_in)
    then obtain u where "map_of ?d i = Some u" by blast
    with dict_by_SomeD [OF this] show ?thesis by blast
  qed
  have step: "bind_res (dict_at ?d i) (\<lambda>u. mk_citation (citation_of u)) = Inr (?g i)" if "i \<in> set ids" for i
    using each [OF that] assms(1) by (auto simp: dict_at_def mk_citation_clean)
  have "resolve_citations ids us = Inr (map ?g ids)"
    unfolding resolve_citations_def Let_def by (rule map_res_total) (rule step)
  moreover have "map ct_evidence_unit_id (map ?g ids) = ids"
    unfolding map_map by (rule map_idI) (use each in \<open>force simp: citation_of_def\<close>)
  moreover have "\<forall>c \<in> set (map ?g ids). \<exists>u \<in> set us. c = citation_of u"
  proof
    fix c assume "c \<in> set (map ?g ids)"
    then obtain i where i: "i \<in> set ids" and c: "c = ?g i" by auto
    from each [OF i] obtain u where "u \<in> set us" "map_of ?d i = Some u" by blast
    with c show "\<exists>u \<in> set us. c = citation_of u" by auto
  qed
  ultimately show ?thesis by blast
qed

lemma membership_empty_iff:
  "validate_citation_membership ids us = [] \<longleftrightarrow> set ids \<subseteq> allowed_evidence_ids us"
  by (auto simp: validate_citation_membership_def Let_def filter_empty_conv)

lemma unit_named_clean: "unit_named u \<Longrightarrow> unit_clean u"
  by (simp add: unit_named_def unit_clean_def)

subsection \<open>Facts: handles\<close>

lemma handle_of_inj [simp]: "handle_of m = handle_of n \<longleftrightarrow> m = n"
  by (simp add: handle_of_def)

lemma map_of_enum1:
  assumes "\<And>m n. h m = h n \<longleftrightarrow> m = n"
  shows "map_of (map (\<lambda>(n, x). (h n, f x)) (enum1 xs)) k = Some v \<longleftrightarrow>
    (\<exists>i < length xs. k = h (Suc i) \<and> v = f (xs ! i))"
proof -
  let ?l = "map (\<lambda>(n, x). (h n, f x)) (enum1 xs)"
  have "map fst ?l = map h (map fst (enum1 xs))" by (simp add: case_prod_unfold comp_def del: map_fst_enum1)
  then have "distinct (map fst ?l)"
    using assms by (simp add: distinct_map inj_on_def del: upt_Suc)
  then have "map_of ?l k = Some v \<longleftrightarrow> (k, v) \<in> set ?l" by simp
  also have "\<dots> \<longleftrightarrow> (\<exists>i < length ?l. ?l ! i = (k, v))" by (simp only: in_set_conv_nth)
  also have "\<dots> \<longleftrightarrow> (\<exists>i < length xs. k = h (Suc i) \<and> v = f (xs ! i))" by (auto simp: enum1_nth)
  finally show ?thesis .
qed

lemma handle_lookup:
  "map_of (fst (assign_evidence_handles us)) h = Some e \<longleftrightarrow>
     (\<exists>i < length us. h = handle_of (Suc i) \<and> e = eu_evidence_unit_id (us ! i))"
  unfolding assign_evidence_handles_def fst_conv
  using map_of_enum1 [of handle_of eu_evidence_unit_id us h e] by simp

lemma handle_keys: "set (map fst (fst (assign_evidence_handles us))) = {handle_of (Suc i) | i. i < length us}"
proof -
  have "h \<in> set (map fst (fst (assign_evidence_handles us))) \<longleftrightarrow>
      map_of (fst (assign_evidence_handles us)) h \<noteq> None" for h by (metis map_of_eq_None_iff set_map)
  then show ?thesis unfolding set_eq_iff using handle_lookup [of us] by fastforce
qed

lemma handle_syntax: "0 < n \<Longrightarrow> is_valid_handle_syntax (handle_of n)"
proof -
  assume "0 < n"
  then have "hd (str_nat n) \<noteq> CHR ''0''" by (rule hd_str_nat)
  moreover obtain d ds where "str_nat n = d # ds" using str_nat_nonempty [of n] by (cases "str_nat n") auto
  moreover have "\<forall>c \<in> set (str_nat n). is_digit c" using str_nat_digits by blast
  ultimately show ?thesis by (simp add: handle_of_def list_all_iff)
qed

lemma resolve_handles_ok:
  assumes "set hs \<subseteq> set (map fst (fst (assign_evidence_handles us)))"
  shows "\<exists>ids. resolve_handles_to_evidence_ids hs (fst (assign_evidence_handles us)) = Inr ids \<and>
    length ids = length hs \<and> (\<forall>k < length hs. \<exists>i < length us. hs ! k = handle_of (Suc i) \<and>
      ids ! k = eu_evidence_unit_id (us ! i))"
proof -
  let ?d = "fst (assign_evidence_handles us)"
  have "dict_at ?d h = Inr (the (map_of ?d h))" if "h \<in> set hs" for h
  proof -
    from assms that have "h \<in> fst ` set ?d" by auto
    then have "map_of ?d h \<noteq> None" by (simp add: map_of_eq_None_iff)
    then show ?thesis by (auto simp: dict_at_def)
  qed
  then have r: "resolve_handles_to_evidence_ids hs ?d = Inr (map (\<lambda>h. the (map_of ?d h)) hs)"
    unfolding resolve_handles_to_evidence_ids_def by (rule map_res_total)
  have "\<exists>i < length us. hs ! k = handle_of (Suc i) \<and> the (map_of ?d (hs ! k)) = eu_evidence_unit_id (us ! i)"
    if "k < length hs" for k
  proof -
    from that assms have "hs ! k \<in> set (map fst ?d)" by (meson nth_mem subsetD)
    then obtain i where i: "i < length us" "hs ! k = handle_of (Suc i)" unfolding handle_keys by blast
    then have "map_of ?d (hs ! k) = Some (eu_evidence_unit_id (us ! i))" using handle_lookup by blast
    with i show ?thesis by auto
  qed
  with r show ?thesis by auto
qed

lemma resolved_in_units:
  assumes "set hs \<subseteq> set (map fst (fst (assign_evidence_handles us)))"
    and "resolve_handles_to_evidence_ids hs (fst (assign_evidence_handles us)) = Inr ids"
  shows "set ids \<subseteq> allowed_evidence_ids us"
  using resolve_handles_ok [OF assms(1)] assms(2)
  by (fastforce simp: in_set_conv_nth allowed_evidence_ids_def)

end
