(* ===== verification/Answer_Schema.thy ===== *)
theory Answer_Schema
  imports Citations
begin

section \<open>Parsing of model responses (generation/schema.py, generation/schema_v2.py)\<close>

text \<open>
  The strict parsers of grounded-answer-v1 and grounded_answer_v2. \<open>json.loads\<close> is an argument,
  \<open>None\<close> where it raises \<open>JSONDecodeError\<close>. A failed outcome is its \<open>failure_reason\<close> on the left.
\<close>

definition PARSE_ERROR :: string where "PARSE_ERROR = ''response_parse_error''"
definition SCHEMA_INVALID :: string where "SCHEMA_INVALID = ''output_schema_invalid''"
definition CITATION_INVALID :: string where "CITATION_INVALID = ''citation_invalid''"

text \<open>The object a response consists of: both parsers start the same way.\<close>

definition parse_object :: "(string \<Rightarrow> json option) \<Rightarrow> string \<Rightarrow> string + (string \<times> json) list" where
  "parse_object loads raw =
     (let stripped = py_strip raw in
      if stripped = [] then Inl PARSE_ERROR
      else if take 3 stripped = ''```'' then Inl PARSE_ERROR
      else (case loads stripped of
          None \<Rightarrow> Inl PARSE_ERROR
        | Some (JObj kvs) \<Rightarrow> Inr kvs
        | Some _ \<Rightarrow> Inl SCHEMA_INVALID))"

fun as_str :: "json \<Rightarrow> string + string" where
  "as_str (JStr s) = Inr s"
| "as_str _ = Inl SCHEMA_INVALID"

fun as_bool :: "json \<Rightarrow> string + bool" where
  "as_bool (JBool b) = Inr b"
| "as_bool _ = Inl SCHEMA_INVALID"

fun as_list :: "json \<Rightarrow> string + json list" where
  "as_list (JList xs) = Inr xs"
| "as_list _ = Inl SCHEMA_INVALID"

fun as_obj :: "json \<Rightarrow> string + (string \<times> json) list" where
  "as_obj (JObj kvs) = Inr kvs"
| "as_obj _ = Inl SCHEMA_INVALID"

fun as_opt_str :: "json \<Rightarrow> string + string option" where
  "as_opt_str JNull = Inr None"
| "as_opt_str (JStr s) = Inr (Some s)"
| "as_opt_str _ = Inl SCHEMA_INVALID"

definition require :: "bool \<Rightarrow> string + unit" where
  "require b = (if b then Inr () else Inl SCHEMA_INVALID)"

subsection \<open>grounded-answer-v1\<close>

record v1_output =
  v1_abstain :: bool
  v1_answer :: "string option"
  v1_citation_ids :: "string list"

definition is_ev_id :: "string \<Rightarrow> bool" where
  "is_ev_id v \<longleftrightarrow> take 3 v = ''ev_'' \<and> 3 < length v"

definition v1_body :: "bool \<Rightarrow> string option \<Rightarrow> string list \<Rightarrow> string + v1_output" where
  "v1_body abstain answer citation_ids =
     bind_res (require (distinct citation_ids)) (\<lambda>_.
     if abstain then
       bind_res (require (answer = None \<and> citation_ids = [])) (\<lambda>_.
       Inr \<lparr>v1_abstain = True, v1_answer = None, v1_citation_ids = []\<rparr>)
     else
       bind_res (require (case answer of None \<Rightarrow> False | Some a \<Rightarrow> py_strip a \<noteq> [])) (\<lambda>_.
       bind_res (require (citation_ids \<noteq> [])) (\<lambda>_.
       bind_res (require (list_all is_ev_id citation_ids)) (\<lambda>_.
       Inr \<lparr>v1_abstain = False, v1_answer = answer, v1_citation_ids = citation_ids\<rparr>))))"

definition parse_grounded_answer_v1 :: "(string \<Rightarrow> json option) \<Rightarrow> string \<Rightarrow> string + v1_output" where
  "parse_grounded_answer_v1 loads raw =
     bind_res (parse_object loads raw) (\<lambda>payload.
     bind_res (require (fst ` set payload = {''abstain'', ''answer'', ''citation_ids''})) (\<lambda>_.
     bind_res (as_bool (dict_get payload ''abstain'')) (\<lambda>abstain.
     bind_res (as_opt_str (dict_get payload ''answer'')) (\<lambda>answer.
     bind_res (as_list (dict_get payload ''citation_ids'')) (\<lambda>items.
     bind_res (map_res as_str items) (\<lambda>citation_ids.
     v1_body abstain answer citation_ids))))))"

subsection \<open>grounded_answer_v2\<close>

definition MODEL_ABSTENTION_REASONS :: "string set" where
  "MODEL_ABSTENTION_REASONS = {''insufficient_support'', ''conflicting_evidence'', ''model_declined''}"

definition APPLICATION_ONLY_ABSTENTION_REASONS :: "string set" where
  "APPLICATION_ONLY_ABSTENTION_REASONS = {''no_evidence'', ''ambiguous_request''}"

record v2_block =
  vb_text :: string
  vb_evidence_handles :: "string list"

record v2_output =
  v2_abstain :: bool
  v2_blocks :: "v2_block list"
  v2_abstention_reason :: "string option"

definition check_handle :: "string set \<Rightarrow> string \<Rightarrow> string + unit" where
  "check_handle allowed h =
     (if \<not> is_valid_handle_syntax h then Inl SCHEMA_INVALID
      else if h \<notin> allowed then Inl CITATION_INVALID else Inr ())"

definition parse_block :: "string set \<Rightarrow> json \<Rightarrow> string + v2_block" where
  "parse_block allowed item =
     bind_res (as_obj item) (\<lambda>fields.
     bind_res (require (fst ` set fields = {''text'', ''evidence_handles''})) (\<lambda>_.
     bind_res (as_str (dict_get fields ''text'')) (\<lambda>block_text.
     bind_res (require (py_strip block_text \<noteq> [])) (\<lambda>_.
     bind_res (as_list (dict_get fields ''evidence_handles'')) (\<lambda>raw_handles.
     bind_res (require (raw_handles \<noteq> [])) (\<lambda>_.
     bind_res (map_res as_str raw_handles) (\<lambda>handles.
     bind_res (require (distinct handles)) (\<lambda>_.
     bind_res (for_each (check_handle allowed) handles) (\<lambda>_.
     Inr \<lparr>vb_text = block_text, vb_evidence_handles = handles\<rparr>)))))))))"

definition v2_body :: "string set \<Rightarrow> bool \<Rightarrow> json list \<Rightarrow> string option \<Rightarrow> string + v2_output" where
  "v2_body allowed abstain blocks_raw reason =
     (if abstain then
       bind_res (require (blocks_raw = [])) (\<lambda>_.
       bind_res (require (reason \<noteq> None)) (\<lambda>_.
       bind_res (require (the reason \<notin> APPLICATION_ONLY_ABSTENTION_REASONS)) (\<lambda>_.
       bind_res (require (the reason \<in> MODEL_ABSTENTION_REASONS)) (\<lambda>_.
       Inr \<lparr>v2_abstain = True, v2_blocks = [], v2_abstention_reason = reason\<rparr>))))
     else
       bind_res (require (reason = None)) (\<lambda>_.
       bind_res (require (blocks_raw \<noteq> [])) (\<lambda>_.
       bind_res (map_res (parse_block allowed) blocks_raw) (\<lambda>blocks.
       Inr \<lparr>v2_abstain = False, v2_blocks = blocks, v2_abstention_reason = None\<rparr>))))"

definition parse_grounded_answer_v2 ::
    "(string \<Rightarrow> json option) \<Rightarrow> string set \<Rightarrow> string \<Rightarrow> string + v2_output" where
  "parse_grounded_answer_v2 loads allowed raw =
     bind_res (parse_object loads raw) (\<lambda>payload.
     bind_res (require (fst ` set payload = {''abstain'', ''blocks'', ''abstention_reason''})) (\<lambda>_.
     bind_res (as_bool (dict_get payload ''abstain'')) (\<lambda>abstain.
     bind_res (as_list (dict_get payload ''blocks'')) (\<lambda>blocks_raw.
     bind_res (as_opt_str (dict_get payload ''abstention_reason'')) (\<lambda>reason.
     v2_body allowed abstain blocks_raw reason)))))"

subsection \<open>What a response must be\<close>

definition opens_plainly :: "string \<Rightarrow> bool" where
  "opens_plainly raw \<longleftrightarrow> py_strip raw \<noteq> [] \<and> take 3 (py_strip raw) \<noteq> ''```''"

definition encodes_block :: "json \<Rightarrow> v2_block \<Rightarrow> bool" where
  "encodes_block j b \<longleftrightarrow> (\<exists>fields. j = JObj fields \<and> fst ` set fields = {''text'', ''evidence_handles''} \<and>
     dict_get fields ''text'' = JStr (vb_text b) \<and>
     dict_get fields ''evidence_handles'' = JList (map JStr (vb_evidence_handles b)))"

definition encodes_v2 :: "json \<Rightarrow> v2_output \<Rightarrow> bool" where
  "encodes_v2 j r \<longleftrightarrow> (\<exists>payload bs. j = JObj payload \<and>
     fst ` set payload = {''abstain'', ''blocks'', ''abstention_reason''} \<and>
     dict_get payload ''abstain'' = JBool (v2_abstain r) \<and> dict_get payload ''blocks'' = JList bs \<and>
     list_all2 encodes_block bs (v2_blocks r) \<and>
     dict_get payload ''abstention_reason'' = json_opt JStr (v2_abstention_reason r))"

definition block_ok :: "string set \<Rightarrow> v2_block \<Rightarrow> bool" where
  "block_ok allowed b \<longleftrightarrow> nonblank (vb_text b) \<and> vb_evidence_handles b \<noteq> [] \<and>
     distinct (vb_evidence_handles b) \<and>
     (\<forall>h \<in> set (vb_evidence_handles b). is_valid_handle_syntax h \<and> h \<in> allowed)"

definition v2_ok :: "string set \<Rightarrow> v2_output \<Rightarrow> bool" where
  "v2_ok allowed r \<longleftrightarrow>
     (if v2_abstain r then v2_blocks r = [] \<and>
        (\<exists>reason \<in> MODEL_ABSTENTION_REASONS. v2_abstention_reason r = Some reason)
      else v2_abstention_reason r = None \<and> v2_blocks r \<noteq> [] \<and> (\<forall>b \<in> set (v2_blocks r). block_ok allowed b))"

subsection \<open>Facts\<close>

lemma require_iff [simp]: "require b = Inr u \<longleftrightarrow> b"
  by (simp add: require_def)

lemma as_iff [simp]:
  "as_str j = Inr s \<longleftrightarrow> j = JStr s" "as_bool j = Inr b \<longleftrightarrow> j = JBool b"
  "as_list j = Inr xs \<longleftrightarrow> j = JList xs" "as_obj j = Inr kvs \<longleftrightarrow> j = JObj kvs"
  "as_opt_str j = Inr r \<longleftrightarrow> j = json_opt JStr r"
  by (cases j; cases r; auto)+

lemma parse_object_iff:
  "parse_object loads raw = Inr kvs \<longleftrightarrow> opens_plainly raw \<and> loads (py_strip raw) = Some (JObj kvs)"
  unfolding parse_object_def opens_plainly_def Let_def
  by (simp split: option.split json.split)

lemma map_as_str_iff [simp]: "map_res as_str js = Inr ss \<longleftrightarrow> js = map JStr ss"
  by (simp add: map_res_Inr_iff list_all2_conv_all_nth list_eq_iff_nth_eq) auto

lemma check_handle_iff [simp]: "check_handle allowed h = Inr u \<longleftrightarrow> is_valid_handle_syntax h \<and> h \<in> allowed"
  by (simp add: check_handle_def)

lemma nonblank_iff_strip: "nonblank s \<longleftrightarrow> py_strip s \<noteq> []"
  by (auto simp: nonblank_def py_strip_def)

text \<open>The shape of the two parsers over any test and any field access.\<close>

lemma block_shape:
  "(\<exists>fields. j = JObj fields \<and> (\<exists>u::unit. K fields \<and> (\<exists>t. T fields = JStr t \<and> (\<exists>u::unit. py_strip t \<noteq> [] \<and>
     (\<exists>raw. H fields = JList raw \<and> (\<exists>u::unit. raw \<noteq> [] \<and> (\<exists>hs. raw = map JStr hs \<and>
     (\<exists>u::unit. distinct hs \<and> (\<exists>u::unit. (\<forall>h \<in> set hs. C h) \<and>
       Inr \<lparr>vb_text = t, vb_evidence_handles = hs\<rparr> = (Inr b :: string + v2_block)))))))))) \<longleftrightarrow>
   (\<exists>fields. j = JObj fields \<and> K fields \<and> T fields = JStr (vb_text b) \<and>
      H fields = JList (map JStr (vb_evidence_handles b))) \<and>
   py_strip (vb_text b) \<noteq> [] \<and> vb_evidence_handles b \<noteq> [] \<and> distinct (vb_evidence_handles b) \<and>
   (\<forall>h \<in> set (vb_evidence_handles b). C h)"
  by (cases b) auto

lemma parse_block_iff:
  "parse_block allowed j = Inr b \<longleftrightarrow> encodes_block j b \<and> block_ok allowed b"
  unfolding parse_block_def bind_res_Inr_iff as_iff require_iff map_as_str_iff for_each_Inr_iff
    check_handle_iff encodes_block_def block_ok_def nonblank_iff_strip
  by (rule block_shape)

lemma parse_blocks_iff:
  "map_res (parse_block allowed) js = Inr bs \<longleftrightarrow>
     list_all2 encodes_block js bs \<and> (\<forall>b \<in> set bs. block_ok allowed b)"
  unfolding map_res_Inr_iff parse_block_iff list_all2_conv_all_nth
  by (metis in_set_conv_nth)

lemma reasons_apart: "r \<in> MODEL_ABSTENTION_REASONS \<Longrightarrow> r \<notin> APPLICATION_ONLY_ABSTENTION_REASONS"
  by (auto simp: MODEL_ABSTENTION_REASONS_def APPLICATION_ONLY_ABSTENTION_REASONS_def)

lemma v2_body_iff:
  "v2_body allowed ab raw reason = Inr r \<longleftrightarrow> v2_abstain r = ab \<and> v2_abstention_reason r = reason \<and>
     list_all2 encodes_block raw (v2_blocks r) \<and> v2_ok allowed r"
  unfolding v2_body_def v2_ok_def
  by (cases r; cases reason) (auto simp: bind_res_Inr_iff parse_blocks_iff dest: reasons_apart)

definition encodes_v1 :: "json \<Rightarrow> v1_output \<Rightarrow> bool" where
  "encodes_v1 j r \<longleftrightarrow> (\<exists>payload. j = JObj payload \<and>
     fst ` set payload = {''abstain'', ''answer'', ''citation_ids''} \<and>
     dict_get payload ''abstain'' = JBool (v1_abstain r) \<and>
     dict_get payload ''answer'' = json_opt JStr (v1_answer r) \<and>
     dict_get payload ''citation_ids'' = JList (map JStr (v1_citation_ids r)))"

definition v1_ok :: "v1_output \<Rightarrow> bool" where
  "v1_ok r \<longleftrightarrow> (if v1_abstain r then v1_answer r = None \<and> v1_citation_ids r = []
     else (\<exists>a. v1_answer r = Some a \<and> nonblank a) \<and> v1_citation_ids r \<noteq> [] \<and>
       distinct (v1_citation_ids r) \<and> (\<forall>i \<in> set (v1_citation_ids r). is_ev_id i))"

lemma v1_body_iff:
  "v1_body ab answer ids = Inr r \<longleftrightarrow>
     v1_abstain r = ab \<and> v1_answer r = answer \<and> v1_citation_ids r = ids \<and> v1_ok r"
  unfolding v1_body_def v1_ok_def
  by (cases r; cases answer) (auto simp: bind_res_Inr_iff nonblank_iff_strip list_all_iff)

lemma v1_shape:
  "(\<exists>p. (Op \<and> L = Some (JObj p)) \<and> (\<exists>u::unit. K p \<and> (\<exists>ab. A p = JBool ab \<and> (\<exists>answer. B p = json_opt JStr answer \<and>
     (\<exists>items. R p = JList items \<and> (\<exists>ids. items = map JStr ids \<and>
       (v1_abstain r = ab \<and> v1_answer r = answer \<and> v1_citation_ids r = ids \<and> V))))))) \<longleftrightarrow>
   Op \<and> (\<exists>j. L = Some j \<and> (\<exists>p. j = JObj p \<and> K p \<and> A p = JBool (v1_abstain r) \<and>
     B p = json_opt JStr (v1_answer r) \<and> R p = JList (map JStr (v1_citation_ids r)))) \<and> V"
  by blast

lemma v2_shape:
  "(\<exists>p. (Op \<and> L = Some (JObj p)) \<and> (\<exists>u::unit. K p \<and> (\<exists>ab. A p = JBool ab \<and> (\<exists>raw. B p = JList raw \<and>
     (\<exists>reason. R p = json_opt JStr reason \<and> (v2_abstain r = ab \<and> v2_abstention_reason r = reason \<and>
       list_all2 E raw (v2_blocks r) \<and> V)))))) \<longleftrightarrow>
   Op \<and> (\<exists>j. L = Some j \<and> (\<exists>p bs. j = JObj p \<and> K p \<and> A p = JBool (v2_abstain r) \<and> B p = JList bs \<and>
     list_all2 E bs (v2_blocks r) \<and> R p = json_opt JStr (v2_abstention_reason r))) \<and> V"
  by blast

lemma parse_v1_iff:
  "parse_grounded_answer_v1 loads raw = Inr r \<longleftrightarrow>
     opens_plainly raw \<and> (\<exists>j. loads (py_strip raw) = Some j \<and> encodes_v1 j r) \<and> v1_ok r"
  unfolding parse_grounded_answer_v1_def bind_res_Inr_iff as_iff require_iff map_as_str_iff
    parse_object_iff encodes_v1_def v1_body_iff by (rule v1_shape)

lemma parse_v2_iff:
  "parse_grounded_answer_v2 loads allowed raw = Inr r \<longleftrightarrow>
     opens_plainly raw \<and> (\<exists>j. loads (py_strip raw) = Some j \<and> encodes_v2 j r) \<and> v2_ok allowed r"
  unfolding parse_grounded_answer_v2_def bind_res_Inr_iff as_iff require_iff
    parse_object_iff encodes_v2_def v2_body_iff by (rule v2_shape)

end
