(* ===== verification/Prompting.thy ===== *)
theory Prompting
  imports Citations
begin

section \<open>Prompts (generation/prompt.py, prompt_evidence.py, core/document_metadata.py)\<close>

text \<open>
  Document titles and section paths, the prompt evidence adapted from evidence units, and the request
  of the three prompt contracts. The fixed system prompt of a contract is an argument \<open>sys\<close> (one of
  the three texts has a character outside the code points of this model).
\<close>

subsection \<open>document-title-v1\<close>

text \<open>\<open>PurePosixPath(s).name\<close>: the last component that is neither empty nor a dot.\<close>

definition posix_name :: "string \<Rightarrow> string" where
  "posix_name s = (case rev (filter (\<lambda>p. p \<noteq> [] \<and> p \<noteq> ''.'') (split_char (CHR ''/'') s)) of
     [] \<Rightarrow> [] | p # _ \<Rightarrow> p)"

text \<open>\<open>re.sub(r"\s+", " ", s)\<close>\<close>

fun collapse_ws :: "string \<Rightarrow> string" where
  "collapse_ws [] = []"
| "collapse_ws (c # cs) =
     (if py_isspace c then
        (case cs of d # _ \<Rightarrow> if py_isspace d then collapse_ws cs else CHR '' '' # collapse_ws cs
         | [] \<Rightarrow> '' '')
      else c # collapse_ws cs)"

definition drop_extension :: "string \<Rightarrow> string" where
  "drop_extension name =
     (case find (ends_with (py_lower name)) [''.pdf'', ''.txt'', ''.md''] of
        Some ext \<Rightarrow> take (length name - length ext) name
      | None \<Rightarrow> name)"

definition resolve_document_title_v1 :: "string \<Rightarrow> string + string" where
  "resolve_document_title_v1 source_name =
     (let name = py_strip source_name in
      if name = [] then Inl ''source_name is blank''
      else let base = py_strip (posix_name (map (\<lambda>c. if c = CHR 0x5C then CHR ''/'' else c) name)) in
      if base = [] then Inl ''source_name basename is blank''
      else let title = collapse_ws (py_strip (drop_extension base)) in
      if title = [] then Inl ''document_title normalized to empty'' else Inr title)"

definition normalize_section_component :: "string \<Rightarrow> string option" where
  "normalize_section_component component =
     (let s = py_strip component in if s = [] then None else Some (collapse_ws s))"

definition render_section_path_v1 :: "string list \<Rightarrow> string option" where
  "render_section_path_v1 section_path =
     (let parts = List.map_filter normalize_section_component section_path in
      if parts = [] then None else Some (join '' / '' parts))"

subsection \<open>Prompt evidence\<close>

record prompt_evidence =
  pe_evidence_unit_id :: string
  pe_document_title :: string
  pe_section_path :: "string list"
  pe_text :: string

text \<open>\<open>PromptEvidence.__post_init__\<close>\<close>

definition mk_prompt_evidence :: "prompt_evidence \<Rightarrow> generation_exc + prompt_evidence" where
  "mk_prompt_evidence e =
     (if \<not> nonblank (pe_evidence_unit_id e) then
        Inl (Evidence_Value_Error ''PromptEvidence.evidence_unit_id must be non-empty'')
      else if \<not> nonblank (pe_document_title e) then
        Inl (Evidence_Value_Error ''PromptEvidence.document_title must be non-empty'')
      else if pe_text e = [] then
        Inl (Evidence_Value_Error ''PromptEvidence.text must be a non-empty string'')
      else Inr e)"

text \<open>\<open>PromptProvenanceUnavailable\<close> with its two attributes, or any other exception.\<close>

datatype prompt_exc =
    Provenance_Unavailable string "string option" "string option"
  | Prompt_Raised generation_exc

definition unit_unavailable :: "string \<Rightarrow> evidence_unit \<Rightarrow> prompt_exc" where
  "unit_unavailable m u = Provenance_Unavailable m (Some (eu_evidence_unit_id u)) (Some (eu_document_id u))"

definition document_title :: "(string \<times> string) list \<Rightarrow> evidence_unit \<Rightarrow> prompt_exc + string" where
  "document_title source_names u = (case map_of source_names (eu_document_id u) of
     None \<Rightarrow> Inl (unit_unavailable
       (''document_id not found in authoritative corpus metadata: '' @ eu_document_id u) u)
   | Some source_name \<Rightarrow>
       if py_strip source_name = [] then Inl (unit_unavailable
         (''authoritative source_name missing/blank for document_id='' @ eu_document_id u) u)
       else try_map (\<lambda>m. unit_unavailable m u) (resolve_document_title_v1 source_name))"

definition title_step ::
    "(string \<times> string) list \<Rightarrow> (string \<times> string) list \<Rightarrow> evidence_unit \<Rightarrow> prompt_exc + (string \<times> string) list" where
  "title_step source_names titles u =
     (if map_of titles (eu_document_id u) \<noteq> None then Inr titles
      else bind_res (document_title source_names u) (\<lambda>t. Inr (dict_set (eu_document_id u) t titles)))"

definition resolve_document_titles ::
    "evidence_unit list \<Rightarrow> (string \<times> string) list \<Rightarrow> prompt_exc + (string \<times> string) list" where
  "resolve_document_titles us source_names = fold_res (title_step source_names) [] us"

text \<open>\<open>load_names\<close> is \<open>_load_source_name_by_document_id\<close> of the corpus: it reads the corpus manifest.\<close>

definition adapt_prompt_evidence ::
    "prompt_exc + (string \<times> string) list \<Rightarrow> (string \<times> string) list option \<Rightarrow> evidence_unit list \<Rightarrow>
     prompt_exc + prompt_evidence list" where
  "adapt_prompt_evidence load_names source_names us =
     bind_res (case source_names of Some d \<Rightarrow> Inr d | None \<Rightarrow> load_names) (\<lambda>names.
     bind_res (resolve_document_titles us names) (\<lambda>titles.
     map_res (\<lambda>u. try_map Prompt_Raised
       (bind_res (dict_at titles (eu_document_id u)) (\<lambda>title.
        mk_prompt_evidence \<lparr>pe_evidence_unit_id = eu_evidence_unit_id u, pe_document_title = title,
          pe_section_path = eu_section_path u, pe_text = eu_text u\<rparr>))) us))"

subsection \<open>Requests\<close>

definition EVIDENCE_BEGIN :: string where "EVIDENCE_BEGIN = ''### BEGIN EVIDENCE''"
definition EVIDENCE_END :: string where "EVIDENCE_END = ''### END EVIDENCE''"

definition response_format :: json where
  "response_format = JObj [(''type'', JStr ''json_schema''), (''json_schema'', JObj
     [(''name'', JStr ''grounded_answer_v1''), (''strict'', JBool True), (''schema'', JObj
       [(''type'', JStr ''object''), (''additionalProperties'', JBool False),
        (''required'', JList [JStr ''abstain'', JStr ''answer'', JStr ''citation_ids'']),
        (''properties'', JObj
          [(''abstain'', JObj [(''type'', JStr ''boolean'')]),
           (''answer'', JObj [(''type'', JList [JStr ''string'', JStr ''null''])]),
           (''citation_ids'', JObj [(''type'', JStr ''array''),
              (''items'', JObj [(''type'', JStr ''string'')]), (''uniqueItems'', JBool True)])])])])]"

definition response_format_v2 :: json where
  "response_format_v2 = JObj [(''type'', JStr ''json_schema''), (''json_schema'', JObj
     [(''name'', JStr ''grounded_answer_v2''), (''strict'', JBool True), (''schema'', JObj
       [(''type'', JStr ''object''), (''additionalProperties'', JBool False),
        (''required'', JList [JStr ''abstain'', JStr ''blocks'', JStr ''abstention_reason'']),
        (''properties'', JObj
          [(''abstain'', JObj [(''type'', JStr ''boolean'')]),
           (''blocks'', JObj [(''type'', JStr ''array''), (''items'', JObj
              [(''type'', JStr ''object''), (''additionalProperties'', JBool False),
               (''required'', JList [JStr ''text'', JStr ''evidence_handles'']),
               (''properties'', JObj
                 [(''text'', JObj [(''type'', JStr ''string'')]),
                  (''evidence_handles'', JObj [(''type'', JStr ''array''),
                     (''items'', JObj [(''type'', JStr ''string'')])])])])]),
           (''abstention_reason'', JObj [(''type'', JList [JStr ''string'', JStr ''null'']),
              (''enum'', JList [JStr ''insufficient_support'', JStr ''conflicting_evidence'',
                 JStr ''model_declined'', JNull])])])])])]"

definition request_of :: "(string \<Rightarrow> string) \<Rightarrow> string \<Rightarrow> generation_settings \<Rightarrow> json \<Rightarrow> string \<Rightarrow> generator_request" where
  "request_of sys contract gs fmt user_content =
     \<lparr>gq_messages = [\<lparr>cm_role = ''system'', cm_content = sys contract\<rparr>,
        \<lparr>cm_role = ''user'', cm_content = user_content\<rparr>],
      gq_model = gn_model gs, gq_temperature = gn_temperature gs,
      gq_max_output_tokens = gn_max_output_tokens gs, gq_response_format = fmt,
      gq_metadata = [(''prompt_contract'', JStr contract)]\<rparr>"

definition user_content_v1 :: "string \<Rightarrow> string list \<Rightarrow> string" where
  "user_content_v1 query parts = ''QUERY:'' @ LF @ query @ LF @ LF @ ''EVIDENCE:'' @ LF @
     join (LF @ LF) parts @ LF @ LF @ ''Respond with grounded-answer-v1 JSON only.''"

definition build_prompt_grounded_v1 ::
    "(string \<Rightarrow> string) \<Rightarrow> generation_settings \<Rightarrow> string \<Rightarrow> evidence_unit list \<Rightarrow> generator_request" where
  "build_prompt_grounded_v1 sys gs query us =
     request_of sys PROMPT_GROUNDED_V1 gs response_format (user_content_v1 query
       (map (\<lambda>u. EVIDENCE_BEGIN @ '' '' @ eu_evidence_unit_id u @ LF @ eu_text u @ LF @
          EVIDENCE_END @ '' '' @ eu_evidence_unit_id u) us))"

text \<open>The lines above the text of a unit: \<open>begin\<close>, the title and the section path when there is one.\<close>

definition header_lines :: "string \<Rightarrow> prompt_evidence \<Rightarrow> string list" where
  "header_lines begin_line e = [begin_line, ''DOCUMENT: '' @ pe_document_title e] @
     (case render_section_path_v1 (pe_section_path e) of None \<Rightarrow> [] | Some s \<Rightarrow> [''SECTION: '' @ s])"

definition render_provenance_unit :: "prompt_evidence \<Rightarrow> string" where
  "render_provenance_unit e =
     join LF (header_lines (EVIDENCE_BEGIN @ '' '' @ pe_evidence_unit_id e) e) @ LF @ LF @ pe_text e @
     LF @ EVIDENCE_END @ '' '' @ pe_evidence_unit_id e"

definition build_prompt_grounded_provenance_v2 ::
    "(string \<Rightarrow> string) \<Rightarrow> generation_settings \<Rightarrow> string \<Rightarrow> prompt_evidence list \<Rightarrow> generator_request" where
  "build_prompt_grounded_provenance_v2 sys gs query es =
     request_of sys PROMPT_GROUNDED_PROVENANCE_V2 gs response_format
       (user_content_v1 query (map render_provenance_unit es))"

definition render_handle_unit :: "string \<Rightarrow> prompt_evidence \<Rightarrow> string" where
  "render_handle_unit handle e =
     join LF (header_lines (''[EVIDENCE '' @ handle @ '']'') e) @ LF @ LF @ pe_text e @ LF @
     ''[/EVIDENCE '' @ handle @ '']''"

definition user_content_v2 :: "string \<Rightarrow> string \<Rightarrow> string list \<Rightarrow> string" where
  "user_content_v2 user_question resolved_question parts =
     ''CURRENT USER QUESTION:'' @ LF @ user_question @ LF @ LF @
     ''RESOLVED QUESTION:'' @ LF @ resolved_question @ LF @ LF @ ''EVIDENCE:'' @ LF @
     join (LF @ LF) parts @ LF @ LF @ ''Respond with grounded_answer_v2 JSON only.''"

definition build_prompt_grounded_answer_v2 ::
    "(string \<Rightarrow> string) \<Rightarrow> generation_settings \<Rightarrow> string \<Rightarrow> string \<Rightarrow> (string \<times> string) list \<Rightarrow>
     prompt_evidence list \<Rightarrow> prompt_exc + generator_request" where
  "build_prompt_grounded_answer_v2 sys gs user_question resolved_question id_to_handle es =
     bind_res (map_res (\<lambda>e. try_map Prompt_Raised (bind_res (dict_at id_to_handle (pe_evidence_unit_id e))
        (\<lambda>handle. Inr (render_handle_unit handle e)))) es) (\<lambda>parts.
     Inr (request_of sys GROUNDED_ANSWER_V2 gs response_format_v2
       (user_content_v2 user_question resolved_question parts)))"

text \<open>\<open>{eid: handle for handle, eid in handle_to_id.items()}\<close>\<close>

definition id_to_handle :: "(string \<times> string) list \<Rightarrow> (string \<times> string) list" where
  "id_to_handle handle_to_id = foldl (\<lambda>d (h, i). dict_set i h d) [] handle_to_id"

subsection \<open>Facts: titles\<close>

definition unit_citable :: "evidence_unit \<Rightarrow> bool" where
  "unit_citable u \<longleftrightarrow> unit_clean u \<and> nonblank (eu_evidence_unit_id u) \<and> eu_text u \<noteq> []"

lemma unit_citableI: "unit_named u \<Longrightarrow> eu_text u \<noteq> [] \<Longrightarrow> unit_citable u"
  by (simp add: unit_citable_def unit_named_clean unit_named_def)

lemma collapse_keeps: "c \<in> set s \<Longrightarrow> \<not> py_isspace c \<Longrightarrow> c \<in> set (collapse_ws s)"
proof (induction s)
  case (Cons d s)
  then show ?case by (cases "c = d"; cases s) auto
qed simp

lemma title_shape:
  "(let name = N in if name = [] then Inl a else let base = B name in if base = [] then Inl b
     else let title = collapse_ws (py_strip (X base)) in if title = [] then Inl c else Inr title) = Inr t \<Longrightarrow>
   \<exists>s. t = collapse_ws (py_strip s) \<and> t \<noteq> []"
  by (auto simp: Let_def split: if_splits)

lemma title_nonblank: "resolve_document_title_v1 s = Inr t \<Longrightarrow> nonblank t"
proof -
  assume "resolve_document_title_v1 s = Inr t"
  from title_shape [OF this [unfolded resolve_document_title_v1_def]]
  obtain b where t: "t = collapse_ws (py_strip b)" "t \<noteq> []" by blast
  then have "py_strip b \<noteq> []" by auto
  then have "hd (py_strip b) \<in> set (py_strip b)" "\<not> py_isspace (hd (py_strip b))"
    by (simp, simp add: py_strip_def strip_by_hd)
  with t(1) show ?thesis unfolding nonblank_iff by (blast intro: collapse_keeps)
qed

lemma document_title_nonblank: "document_title names u = Inr t \<Longrightarrow> nonblank t"
  by (auto simp: document_title_def title_nonblank split: option.splits if_splits)

definition titles_sound :: "(string \<times> string) list \<Rightarrow> (string \<times> string) list \<Rightarrow> bool" where
  "titles_sound names titles \<longleftrightarrow> (\<forall>u t. map_of titles (eu_document_id u) = Some t \<longrightarrow>
     document_title names u = Inr t)"

lemma document_title_same:
  "eu_document_id u = eu_document_id v \<Longrightarrow> document_title names u = Inr t \<Longrightarrow> document_title names v = Inr t"
  by (auto simp: document_title_def split: option.splits if_splits)

lemma title_step_sound:
  assumes "titles_sound names d" and "document_title names u = Inr t"
  shows "\<exists>d'. title_step names d u = Inr d' \<and> titles_sound names d' \<and>
    map_of d' (eu_document_id u) = Some t \<and> (\<forall>k v. map_of d k = Some v \<longrightarrow> map_of d' k = Some v)"
proof (cases "map_of d (eu_document_id u)")
  case None
  with assms show ?thesis
    by (auto simp: title_step_def titles_sound_def intro: document_title_same)
next
  case (Some v)
  with assms show ?thesis by (auto simp: title_step_def titles_sound_def)
qed

lemma titles_total:
  assumes "titles_sound names d" and "\<And>u. u \<in> set us \<Longrightarrow> \<exists>t. document_title names u = Inr t"
  shows "\<exists>d'. fold_res (title_step names) d us = Inr d' \<and> (\<forall>k v. map_of d k = Some v \<longrightarrow> map_of d' k = Some v) \<and>
    (\<forall>u \<in> set us. \<exists>t. document_title names u = Inr t \<and> map_of d' (eu_document_id u) = Some t)"
  using assms
proof (induction us arbitrary: d)
  case (Cons u us)
  from Cons.prems(2) [of u] obtain t where t: "document_title names u = Inr t" by auto
  from title_step_sound [OF Cons.prems(1) t] obtain d1 where d1: "title_step names d u = Inr d1"
    "titles_sound names d1" "map_of d1 (eu_document_id u) = Some t"
    "\<forall>k v. map_of d k = Some v \<longrightarrow> map_of d1 k = Some v" by blast
  from Cons.IH [OF d1(2)] Cons.prems(2) obtain d2 where "fold_res (title_step names) d1 us = Inr d2"
    "\<forall>k v. map_of d1 k = Some v \<longrightarrow> map_of d2 k = Some v"
    "\<forall>u \<in> set us. \<exists>t. document_title names u = Inr t \<and> map_of d2 (eu_document_id u) = Some t" by auto
  with d1 t show ?case by auto
qed simp

lemma titles_Inl:
  "fold_res (title_step names) d us = Inl e \<Longrightarrow> \<exists>u \<in> set us. document_title names u = Inl e"
  by (induction us arbitrary: d) (auto simp: bind_res_Inl_iff title_step_def split: if_splits)

lemma document_title_Inl:
  "document_title names u = Inl e \<Longrightarrow>
     \<exists>m. e = Provenance_Unavailable m (Some (eu_evidence_unit_id u)) (Some (eu_document_id u))"
  by (auto simp: document_title_def unit_unavailable_def split: option.splits if_splits)

subsection \<open>Facts: prompt evidence\<close>

definition title_or_empty :: "(string \<times> string) list \<Rightarrow> evidence_unit \<Rightarrow> string" where
  "title_or_empty names u = (case document_title names u of Inr t \<Rightarrow> t | Inl _ \<Rightarrow> [])"

definition evidence_of :: "(string \<times> string) list \<Rightarrow> evidence_unit \<Rightarrow> prompt_evidence" where
  "evidence_of names u = \<lparr>pe_evidence_unit_id = eu_evidence_unit_id u,
     pe_document_title = title_or_empty names u, pe_section_path = eu_section_path u, pe_text = eu_text u\<rparr>"

text \<open>Adaptation succeeds exactly when every unit has a title, and else names a unit that has none.\<close>

lemma adapt_titles_ok:
  assumes "\<forall>u \<in> set us. unit_citable u" and "\<And>u. u \<in> set us \<Longrightarrow> \<exists>t. document_title names u = Inr t"
  shows "adapt_prompt_evidence load (Some names) us = Inr (map (evidence_of names) us)"
proof -
  have "titles_sound names []" by (simp add: titles_sound_def)
  from titles_total [OF this assms(2)] obtain d where d: "resolve_document_titles us names = Inr d"
    "\<forall>u \<in> set us. \<exists>t. document_title names u = Inr t \<and> map_of d (eu_document_id u) = Some t"
    unfolding resolve_document_titles_def by blast
  have "try_map Prompt_Raised (bind_res (dict_at d (eu_document_id u)) (\<lambda>title.
      mk_prompt_evidence \<lparr>pe_evidence_unit_id = eu_evidence_unit_id u, pe_document_title = title,
        pe_section_path = eu_section_path u, pe_text = eu_text u\<rparr>)) = Inr (evidence_of names u)"
    if "u \<in> set us" for u
  proof -
    from d(2) that obtain t where t: "document_title names u = Inr t" "map_of d (eu_document_id u) = Some t" by blast
    moreover from assms(1) that have "nonblank (eu_evidence_unit_id u)" "eu_text u \<noteq> []"
      by (simp_all add: unit_citable_def)
    ultimately show ?thesis using document_title_nonblank [OF t(1)]
      by (simp add: dict_at_def mk_prompt_evidence_def evidence_of_def title_or_empty_def try_map_def)
  qed
  then show ?thesis by (simp add: adapt_prompt_evidence_def d(1) map_res_total)
qed

lemma adapt_unavailable:
  assumes "v \<in> set us" and "document_title names v = Inl e0"
  shows "\<exists>m. \<exists>u \<in> set us. adapt_prompt_evidence load (Some names) us =
    Inl (Provenance_Unavailable m (Some (eu_evidence_unit_id u)) (Some (eu_document_id u))) \<and>
    (\<exists>e. document_title names u = Inl e)"
proof -
  have False if "fold_res (title_step names) d us = Inr d'" and "titles_sound names d" for d d'
    using assms that
  proof (induction us arbitrary: d)
    case (Cons u us)
    from Cons.prems(3) obtain d1 where d1: "title_step names d u = Inr d1" "fold_res (title_step names) d1 us = Inr d'"
      by (auto simp: bind_res_Inr_iff)
    show ?case
    proof (cases "document_title names u")
      case (Inl e)
      with Cons.prems(4) have "map_of d (eu_document_id u) = None"
        unfolding titles_sound_def by (metis Inl_Inr_False option.exhaust)
      with d1(1) Inl show ?thesis by (simp add: title_step_def)
    next
      case (Inr t)
      with Cons.prems(1,2) have v: "v \<in> set us" by auto
      from title_step_sound [OF Cons.prems(4) Inr] d1(1) have "titles_sound names d1" by auto
      with Cons.IH [OF v Cons.prems(2) d1(2)] show ?thesis .
    qed
  qed simp
  moreover have "titles_sound names []" by (simp add: titles_sound_def)
  ultimately obtain e where e: "fold_res (title_step names) [] us = Inl e"
    by (cases "fold_res (title_step names) [] us") auto
  from titles_Inl [OF this] obtain u where u: "u \<in> set us" "document_title names u = Inl e" by blast
  with document_title_Inl [OF u(2)] e show ?thesis
    by (auto simp: adapt_prompt_evidence_def resolve_document_titles_def)
qed

end
