(* ===== verification/Grounded_Executor.thy ===== *)
theory Grounded_Executor
  imports Answer_Schema Prompting
begin

section \<open>The generation executor (generation/executor.py)\<close>

text \<open>
  \<open>GroundedGenerationExecutor.execute\<close> on fixed evidence units, for the legacy contract and for the
  product contract. The generator, \<open>json.loads\<close>, the readiness of the provider, the loader of source
  names and the measured durations are fields of the environment; the requests a run sends to the
  generator are recorded beside its outcome. Pydantic's \<open>model_dump\<close> keeps the clip information of
  a citation as a record here.
\<close>

text \<open>Measured durations in milliseconds: the differences of \<open>perf_counter\<close> readings.\<close>

record durations =
  du_exec :: int
  du_prompt :: int
  du_generation :: int
  du_validation :: int

record executor_env =
  ex_generation :: generation_settings
  ex_abstention :: abstention_settings
  ex_ready :: "bool \<Rightarrow> string \<Rightarrow> generation_exc + unit"
  ex_generate :: "generator_request \<Rightarrow> generator_exc + generator_response"
  ex_loads :: "string \<Rightarrow> json option"
  ex_source_names :: "string \<Rightarrow> prompt_exc + (string \<times> string) list"
  ex_system_prompt :: "string \<Rightarrow> string"
  ex_durations :: durations

record context_provenance =
  gp_context_config_hash :: "string option"
  gp_dense_index_id :: "string option"
  gp_lexical_index_id :: "string option"
  gp_fusion_config_hash :: "string option"
  gp_reranker_config_hash :: "string option"
  gp_chunk_set_id :: "string option"
  gp_context_latency_ms :: int
  gp_context_breakdown :: json

definition no_provenance :: context_provenance where
  "no_provenance = \<lparr>gp_context_config_hash = None, gp_dense_index_id = None, gp_lexical_index_id = None,
     gp_fusion_config_hash = None, gp_reranker_config_hash = None, gp_chunk_set_id = None,
     gp_context_latency_ms = 0, gp_context_breakdown = JNull\<rparr>"

text \<open>What every result of one run shares.\<close>

record run_frame =
  fr_settings :: generation_settings
  fr_query :: string
  fr_gencfg :: string
  fr_semantics :: "(string \<times> json) list"
  fr_provenance :: context_provenance
  fr_sufficiency :: policy_decision

definition base_metadata :: "run_frame \<Rightarrow> (string \<times> json) list" where
  "base_metadata f = [(''chunk_set_id'', json_opt JStr (gp_chunk_set_id (fr_provenance f))),
     (''selected_endpoint'', JStr (gn_base_url (fr_settings f))),
     (''selected_model'', JStr (gn_model (fr_settings f)))]"

definition base_result :: "run_frame \<Rightarrow> answer_status \<Rightarrow> nat \<Rightarrow> (string \<times> json) list \<Rightarrow> grounded_answer_result" where
  "base_result f status calls diagnostics =
     \<lparr>ga_query = fr_query f, ga_status = status, ga_answer_text = None, ga_citations = [],
      ga_answer_blocks = [], ga_abstention_reason = None, ga_product_abstention_reason = None,
      ga_generation_failure_reason = None, ga_generator_invoked = (0 < calls),
      ga_attempt_count = calls, ga_generation_config_hash = fr_gencfg f,
      ga_context_config_hash = gp_context_config_hash (fr_provenance f),
      ga_dense_index_id = gp_dense_index_id (fr_provenance f),
      ga_lexical_index_id = gp_lexical_index_id (fr_provenance f),
      ga_fusion_config_hash = gp_fusion_config_hash (fr_provenance f),
      ga_reranker_config_hash = gp_reranker_config_hash (fr_provenance f),
      ga_effective_generation_semantics = fr_semantics f, ga_diagnostics = diagnostics,
      ga_metadata = base_metadata f\<rparr>"

subsection \<open>Result builders\<close>

definition latency_json :: "run_frame \<Rightarrow> (string \<times> int) list \<Rightarrow> json" where
  "latency_json f entries = JObj (map (\<lambda>(k, v). (k, JInt v)) entries @
     [(''context_breakdown'', gp_context_breakdown (fr_provenance f))])"

definition dict_update :: "(string \<times> json) list \<Rightarrow> (string \<times> json) list \<Rightarrow> (string \<times> json) list" where
  "dict_update d kvs = foldl (\<lambda>d (k, v). dict_set k v d) d kvs"

definition empty_context_result :: "executor_env \<Rightarrow> run_frame \<Rightarrow> bool \<Rightarrow> generation_exc + grounded_answer_result" where
  "empty_context_result env f product_v2 =
     (let product_reason = (if pd_empty_context (fr_sufficiency f) then No_Evidence else Insufficient_Support);
          product = (if product_v2 then Some product_reason else None);
          ctx_ms = gp_context_latency_ms (fr_provenance f) in
      mk_grounded_answer ((base_result f Insufficient_Evidence 0
        ([(''abstention_reason'', JStr ''empty_context''),
          (''product_abstention_reason'', json_opt (\<lambda>r. JStr (product_abstention_value r)) product),
          (''generator_invoked'', JBool False), (''attempt_count'', JInt 0)] @
         decision_diagnostics (fr_sufficiency f) @
         [(''latency_ms'', latency_json f [(''context'', ctx_ms), (''prompt_assembly'', 0),
            (''generation'', 0), (''validation'', 0), (''total'', ctx_ms + du_exec (ex_durations env))])]))
        \<lparr>ga_abstention_reason := Some Empty_Context, ga_product_abstention_reason := product\<rparr>))"

definition failed ::
    "run_frame \<Rightarrow> answer_status \<Rightarrow> string option \<Rightarrow> nat \<Rightarrow> (string \<times> int) list \<Rightarrow> string option \<Rightarrow>
     (string \<times> json) list \<Rightarrow> (string \<times> json) list \<Rightarrow> generation_exc + grounded_answer_result" where
  "failed f status reason calls latency raw_output usage extra =
     (let d0 = [(''generator_invoked'', JBool (0 < calls)), (''attempt_count'', JInt (int calls)),
            (''latency_ms'', latency_json f latency)];
          d1 = dict_update d0 (decision_diagnostics (fr_sufficiency f));
          d2 = (case reason of Some r \<Rightarrow> if r = [] then d1
                  else dict_set ''generation_failure_reason'' (JStr r) d1 | None \<Rightarrow> d1);
          d3 = (if usage = [] then d2 else dict_set ''usage'' (JObj usage) d2);
          d4 = (case raw_output of Some t \<Rightarrow> dict_set ''raw_model_output'' (JStr t) d3 | None \<Rightarrow> d3) in
      mk_grounded_answer ((base_result f status calls (dict_update d4 extra))
        \<lparr>ga_generation_failure_reason := reason\<rparr>))"

definition stage_latency :: "executor_env \<Rightarrow> run_frame \<Rightarrow> (string \<times> int) list" where
  "stage_latency env f =
     (let ctx_ms = gp_context_latency_ms (fr_provenance f); d = ex_durations env in
      [(''context'', ctx_ms), (''prompt_assembly'', du_prompt d), (''generation'', du_generation d),
       (''validation'', du_validation d),
       (''total'', ctx_ms + du_prompt d + du_generation d + du_validation d)])"

definition provenance_failed ::
    "executor_env \<Rightarrow> run_frame \<Rightarrow> string \<Rightarrow> string option \<Rightarrow> string option \<Rightarrow>
     generation_exc + grounded_answer_result" where
  "provenance_failed env f message unit_id document_id =
     (let ctx_ms = gp_context_latency_ms (fr_provenance f); prompt_ms = du_prompt (ex_durations env) in
      failed f Generation_Failed (Some ''prompt_provenance_unavailable'') 0
        [(''context'', ctx_ms), (''prompt_assembly'', prompt_ms), (''validation'', 0),
         (''total'', ctx_ms + prompt_ms)] None []
        [(''failure_stage'', JStr ''prompt_provenance_resolution''),
         (''failed_evidence_unit_id'', json_opt JStr unit_id),
         (''failed_document_id'', json_opt JStr document_id), (''error'', JStr message)])"

definition generator_failed ::
    "executor_env \<Rightarrow> run_frame \<Rightarrow> generator_exc \<Rightarrow> generation_exc + grounded_answer_result" where
  "generator_failed env f e =
     (let ctx_ms = gp_context_latency_ms (fr_provenance f); d = ex_durations env;
          latency = [(''context'', ctx_ms), (''prompt_assembly'', du_prompt d),
            (''generation'', du_generation d), (''validation'', 0),
            (''total'', ctx_ms + du_prompt d + du_generation d)] in
      (case e of
         Generator_Error reason \<Rightarrow> failed f Generation_Failed (Some reason) 1 latency None [] []
       | Generator_Other m \<Rightarrow>
           failed f Generation_Failed (Some ''provider_error'') 1 latency None [] [(''error'', JStr m)]))"

definition invoked_diagnostics ::
    "executor_env \<Rightarrow> run_frame \<Rightarrow> (string \<times> json) list \<Rightarrow> (string \<times> json) list \<Rightarrow> (string \<times> json) list" where
  "invoked_diagnostics env f abstention usage =
     abstention @ [(''generator_invoked'', JBool True), (''attempt_count'', JInt 1)] @
     decision_diagnostics (fr_sufficiency f) @
     [(''usage'', JObj usage), (''latency_ms'', latency_json f (stage_latency env f))]"

subsection \<open>After the response\<close>

definition conclude_v1 ::
    "executor_env \<Rightarrow> run_frame \<Rightarrow> evidence_unit list \<Rightarrow> generator_response \<Rightarrow>
     generation_exc + grounded_answer_result" where
  "conclude_v1 env f us response =
     (case parse_grounded_answer_v1 (ex_loads env) (gr_content response) of
        Inl reason \<Rightarrow> failed f Generation_Failed (Some reason) 1 (stage_latency env f)
          (Some (gr_content response)) (gr_usage response) []
      | Inr output \<Rightarrow>
          if v1_abstain output then
            mk_grounded_answer ((base_result f Insufficient_Evidence 1 (invoked_diagnostics env f
                [(''abstention_reason'', JStr ''model_abstain'')] (gr_usage response)))
              \<lparr>ga_abstention_reason := Some Model_Abstain\<rparr>)
          else (let invalid = validate_citation_membership (v1_citation_ids output) us in
            if invalid \<noteq> [] then failed f Citation_Invalid None 1 (stage_latency env f)
              (Some (gr_content response)) (gr_usage response)
              [(''invalid_citation_ids'', JList (map JStr invalid))]
            else bind_res (resolve_citations (v1_citation_ids output) us) (\<lambda>citations.
              mk_grounded_answer ((base_result f Answered 1 (invoked_diagnostics env f [] (gr_usage response)))
                \<lparr>ga_answer_text := v1_answer output, ga_citations := citations\<rparr>))))"

definition product_reason_of :: "string \<Rightarrow> product_abstention_reason option" where
  "product_reason_of s = find (\<lambda>r. product_abstention_value r = s)
     [No_Evidence, Insufficient_Support, Conflicting_Evidence, Model_Declined]"

definition resolve_blocks ::
    "(string \<times> string) list \<Rightarrow> v2_block list \<Rightarrow> generation_exc + answer_block list" where
  "resolve_blocks handle_to_id blocks =
     map_res (\<lambda>b. bind_res (resolve_handles_to_evidence_ids (vb_evidence_handles b) handle_to_id)
       (mk_answer_block (vb_text b))) blocks"

definition conclude_v2 ::
    "executor_env \<Rightarrow> run_frame \<Rightarrow> evidence_unit list \<Rightarrow> generator_response \<Rightarrow>
     generation_exc + grounded_answer_result" where
  "conclude_v2 env f us response =
     (let handle_to_id = fst (assign_evidence_handles us) in
      case parse_grounded_answer_v2 (ex_loads env) (set (map fst handle_to_id)) (gr_content response) of
        Inl reason \<Rightarrow>
          (let status = (if reason = CITATION_INVALID then Citation_Invalid else Generation_Failed) in
           failed f status (if status = Generation_Failed then Some reason else None) 1
             (stage_latency env f) (Some (gr_content response)) (gr_usage response) [])
      | Inr output \<Rightarrow>
          if v2_abstain output then
            (let reason = (case v2_abstention_reason output of
                 Some r \<Rightarrow> if r = [] then ''model_declined'' else r | None \<Rightarrow> ''model_declined'') in
             case product_reason_of reason of
               None \<Rightarrow> Inl Result_Validation_Error
             | Some pr \<Rightarrow> mk_grounded_answer ((base_result f Insufficient_Evidence 1
                 (invoked_diagnostics env f [(''abstention_reason'', JStr ''model_abstain''),
                    (''product_abstention_reason'', JStr reason)] (gr_usage response)))
                 \<lparr>ga_abstention_reason := Some Model_Abstain, ga_product_abstention_reason := Some pr\<rparr>))
          else
            bind_res (resolve_blocks handle_to_id (v2_blocks output)) (\<lambda>domain_blocks.
            bind_res (resolve_citations (first_occ (concat (map ab_evidence_unit_ids domain_blocks))) us)
              (\<lambda>citations.
            let r = base_result f Answered 1 (invoked_diagnostics env f [] (gr_usage response)) in
            mk_grounded_answer (r\<lparr>ga_answer_text := Some (project_plain_answer domain_blocks),
              ga_citations := citations, ga_answer_blocks := domain_blocks,
              ga_metadata := ga_metadata r @ [(''evidence_unit_texts'', JObj
                (map (\<lambda>(i, u). (i, JStr (eu_text u))) (dict_by eu_evidence_unit_id us)))]\<rparr>))))"

subsection \<open>Requests\<close>

definition build_generator_request ::
    "executor_env \<Rightarrow> string \<Rightarrow> string \<Rightarrow> evidence_unit list \<Rightarrow> (string \<times> string) list option \<Rightarrow>
     prompt_exc + generator_request" where
  "build_generator_request env query name us source_names =
     (let gs = ex_generation env; contract = gn_contract_version gs in
      if contract = PROMPT_GROUNDED_V1 then
        Inr (build_prompt_grounded_v1 (ex_system_prompt env) gs query us)
      else if contract = PROMPT_GROUNDED_PROVENANCE_V2 then
        bind_res (adapt_prompt_evidence (ex_source_names env name) source_names us) (\<lambda>es.
        Inr (build_prompt_grounded_provenance_v2 (ex_system_prompt env) gs query es))
      else Inl (Prompt_Raised (Grounded_Generation_Error (''unsupported prompt_contract: '' @ contract))))"

definition build_product_request ::
    "executor_env \<Rightarrow> string \<Rightarrow> string \<Rightarrow> string \<Rightarrow> evidence_unit list \<Rightarrow> (string \<times> string) list option \<Rightarrow>
     prompt_exc + generator_request" where
  "build_product_request env answer_intent retrieval_question name us source_names =
     bind_res (adapt_prompt_evidence (ex_source_names env name) source_names us) (\<lambda>es.
     build_prompt_grounded_answer_v2 (ex_system_prompt env) (ex_generation env) answer_intent
       retrieval_question (id_to_handle (fst (assign_evidence_handles us))) es)"

subsection \<open>execute\<close>

type_synonym 'a sent = "generator_request list \<times> (generation_exc + 'a)"

text \<open>The prompt, the one call of the generator and what follows, common to both contracts.\<close>

definition prompt_and_generate ::
    "executor_env \<Rightarrow> run_frame \<Rightarrow> prompt_exc + generator_request \<Rightarrow>
     (generator_response \<Rightarrow> generation_exc + grounded_answer_result) \<Rightarrow> grounded_answer_result sent" where
  "prompt_and_generate env f built conclude = (case built of
     Inl (Provenance_Unavailable m i d) \<Rightarrow> ([], provenance_failed env f m i d)
   | Inl (Prompt_Raised e) \<Rightarrow> ([], Inl e)
   | Inr request \<Rightarrow> ([request], (case ex_generate env request of
       Inl e \<Rightarrow> generator_failed env f e
     | Inr response \<Rightarrow> conclude response)))"

definition check_run ::
    "(string \<Rightarrow> string) \<Rightarrow> (pyfloat \<Rightarrow> string) \<Rightarrow> executor_env \<Rightarrow> string \<Rightarrow> bool \<Rightarrow> bool \<Rightarrow>
     evidence_unit list \<Rightarrow> generation_exc + string \<times> policy_decision" where
  "check_run repr fr env corpus_name check_ready provider_only us =
     bind_res (try_map Name_Error (validate_corpus_name corpus_name)) (\<lambda>name.
     bind_res (if check_ready then ex_ready env provider_only name else Inr ()) (\<lambda>_.
     if \<not> gn_enabled (ex_generation env) then Inl (Grounded_Generation_Error ''generation.enabled is false'')
     else bind_res (try_map Grounded_Generation_Error
       (evaluate_runtime_sufficiency repr fr (ex_abstention env) us)) (\<lambda>d. Inr (name, d))))"

definition execute_product_v2 ::
    "digest \<Rightarrow> (pyfloat \<Rightarrow> string) \<Rightarrow> (string \<Rightarrow> string) \<Rightarrow> executor_env \<Rightarrow> string \<Rightarrow> string \<Rightarrow> string \<Rightarrow>
     evidence_unit list \<Rightarrow> context_provenance \<Rightarrow> bool \<Rightarrow> bool \<Rightarrow> (string \<times> string) list option \<Rightarrow>
     grounded_answer_result sent" where
  "execute_product_v2 sha fr repr env retrieval_question answer_intent corpus_name us prov check_ready
     provider_only source_names =
     (case check_run repr fr env corpus_name check_ready provider_only us of
        Inl e \<Rightarrow> ([], Inl e)
      | Inr (name, d) \<Rightarrow>
          (let f = \<lparr>fr_settings = ex_generation env, fr_query = answer_intent,
               fr_gencfg = build_product_v2_generation_config_hash sha fr (ex_generation env),
               fr_semantics = build_product_v2_generation_semantic_payload (ex_generation env),
               fr_provenance = prov, fr_sufficiency = d\<rparr> in
           if \<not> pd_sufficient d then ([], empty_context_result env f True)
           else prompt_and_generate env f
             (build_product_request env answer_intent retrieval_question name us source_names)
             (conclude_v2 env f us)))"

definition or_str :: "string option \<Rightarrow> string option \<Rightarrow> string" where
  "or_str a b = (case a of Some v \<Rightarrow> if v \<noteq> [] then v else (case b of Some w \<Rightarrow> w | None \<Rightarrow> [])
     | None \<Rightarrow> (case b of Some w \<Rightarrow> w | None \<Rightarrow> []))"

record execute_args =
  ea_query :: "string option"
  ea_corpus_name :: string
  ea_evidence_units :: "evidence_unit list"
  ea_provenance :: "context_provenance option"
  ea_check_ready :: bool
  ea_provider_only :: bool
  ea_source_names :: "(string \<times> string) list option"
  ea_retrieval_question :: "string option"
  ea_answer_intent :: "string option"
  ea_product_v2 :: bool

definition execute_v1 ::
    "digest \<Rightarrow> (pyfloat \<Rightarrow> string) \<Rightarrow> (string \<Rightarrow> string) \<Rightarrow> executor_env \<Rightarrow> execute_args \<Rightarrow>
     grounded_answer_result sent" where
  "execute_v1 sha fr repr env a =
     (let query = or_str (ea_query a) None; us = ea_evidence_units a;
          prov = (case ea_provenance a of Some p \<Rightarrow> p | None \<Rightarrow> no_provenance) in
      if query = [] \<or> py_strip query = [] then
        ([], Inl (Grounded_Generation_Error ''query must be non-empty''))
      else (case check_run repr fr env (ea_corpus_name a) (ea_check_ready a) (ea_provider_only a) us of
          Inl e \<Rightarrow> ([], Inl e)
        | Inr (name, d) \<Rightarrow>
            (let f = \<lparr>fr_settings = ex_generation env, fr_query = py_strip query,
                 fr_gencfg = build_generation_config_hash sha fr (ex_generation env),
                 fr_semantics = build_generation_semantic_payload (ex_generation env),
                 fr_provenance = prov, fr_sufficiency = d\<rparr> in
             if \<not> pd_sufficient d then ([], empty_context_result env f False)
             else prompt_and_generate env f
               (build_generator_request env (py_strip query) name us (ea_source_names a))
               (conclude_v1 env f us))))"

definition execute ::
    "digest \<Rightarrow> (pyfloat \<Rightarrow> string) \<Rightarrow> (string \<Rightarrow> string) \<Rightarrow> executor_env \<Rightarrow> execute_args \<Rightarrow>
     grounded_answer_result sent" where
  "execute sha fr repr env a =
     (if ea_product_v2 a then
        (let rq = py_strip (or_str (ea_retrieval_question a) (ea_query a));
             ai = py_strip (or_str (ea_answer_intent a) (ea_query a)) in
         if rq = [] \<or> ai = [] then
           ([], Inl (Grounded_Generation_Error ''product_v2 requires retrieval_question and answer_intent''))
         else execute_product_v2 sha fr repr env rq ai (ea_corpus_name a) (ea_evidence_units a)
           (case ea_provenance a of Some p \<Rightarrow> p | None \<Rightarrow> no_provenance) (ea_check_ready a)
           (ea_provider_only a) (ea_source_names a))
      else execute_v1 sha fr repr env a)"

end
