(* ===== verification/Citation_Projection.thy ===== *)
theory Citation_Projection
  imports Citations
begin

section \<open>What a client sees of the citations\<close>

text \<open>
  Excerpts carry no markup, and the public references of an answer determine the evidence ids they
  were assigned to: facts of \<open>generation/excerpts.py\<close> and \<open>generation/projection_v2.py\<close>.
\<close>

subsection \<open>Excerpts\<close>

fun has_tag :: "string \<Rightarrow> bool" where
  "has_tag [] \<longleftrightarrow> False"
| "has_tag (c # cs) \<longleftrightarrow> (c = CHR ''<'' \<and> CHR ''>'' \<in> set cs) \<or> has_tag cs"

lemma set_tl_dropWhile: "x \<in> set (tl (dropWhile p s)) \<Longrightarrow> x \<in> set s"
  by (metis dropWhile_eq_drop drop_Suc in_set_dropD tl_drop)

lemma set_strip_tags: "x \<in> set (strip_tags s) \<Longrightarrow> x \<in> set s"
  by (induction s rule: strip_tags.induct) (auto split: if_splits dest: set_tl_dropWhile)

lemma strip_tags_plain: "\<not> has_tag (strip_tags s)"
  by (induction s rule: strip_tags.induct) (auto dest: set_strip_tags)

lemma strip_tags_id: "\<not> has_tag s \<Longrightarrow> strip_tags s = s"
  by (induction s) auto

lemma has_tag_filter: "has_tag (filter p s) \<Longrightarrow> has_tag s"
  by (induction s) (auto split: if_splits)

lemma has_tag_take: "has_tag (take n s) \<Longrightarrow> has_tag s"
proof (induction s arbitrary: n)
  case (Cons c cs)
  then show ?case by (cases n) (auto dest: in_set_takeD)
qed simp

subsection \<open>References\<close>

lemma ref_of_inj [simp]: "ref_of m = ref_of n \<longleftrightarrow> m = n"
  by (simp add: ref_of_def)

lemma map_of_id_to_ref_aux:
  assumes "distinct (map snd ps)"
  shows "map_of (foldl (\<lambda>d (n, i). dict_set i (ref_of n) d) d ps) i =
    (case map_of (map (\<lambda>(n, i). (i, ref_of n)) ps) i of Some r \<Rightarrow> Some r | None \<Rightarrow> map_of d i)"
  using assms
proof (induction ps arbitrary: d)
  case (Cons p ps)
  obtain n j where p: "p = (n, j)" by (cases p)
  with Cons.prems have "map_of (map (\<lambda>(n, i). (i, ref_of n)) ps) j = None"
    by (auto simp: map_of_eq_None_iff image_iff)
  with Cons p show ?case by (auto split: option.split)
qed simp

lemma id_to_ref_lookup:
  assumes "distinct ordered" and "k < length ordered"
  shows "map_of (id_to_ref ordered) (ordered ! k) = Some (ref_of (Suc k))"
proof -
  let ?m = "map (\<lambda>(n, i). (i, ref_of n)) (enum1 ordered)"
  have "map fst ?m = ordered" by (simp add: case_prod_unfold comp_def)
  with assms(1) have "distinct (map fst ?m)" by simp
  moreover have "?m ! k = (ordered ! k, ref_of (Suc k))" using assms(2) by (simp add: enum1_nth)
  with assms(2) have "(ordered ! k, ref_of (Suc k)) \<in> set ?m" by (metis length_enum1 length_map nth_mem)
  ultimately have "map_of ?m (ordered ! k) = Some (ref_of (Suc k))" by simp
  with assms(1) show ?thesis by (simp add: id_to_ref_def map_of_id_to_ref_aux)
qed

text \<open>The reference \<open>r\<close> names the evidence id \<open>i\<close> in the list of cited ids.\<close>

definition ref_names :: "string list \<Rightarrow> string \<Rightarrow> string \<Rightarrow> bool" where
  "ref_names ordered r i \<longleftrightarrow> (\<exists>k < length ordered. r = ref_of (Suc k) \<and> ordered ! k = i)"

lemma ref_names_unique: "ref_names ordered r i \<Longrightarrow> ref_names ordered r j \<Longrightarrow> i = j"
  by (auto simp: ref_names_def)

definition ref_for :: "string list \<Rightarrow> string \<Rightarrow> string" where
  "ref_for ordered i = the (map_of (id_to_ref ordered) i)"

lemma ref_for_names:
  assumes "distinct ordered" and "i \<in> set ordered"
  shows "dict_at (id_to_ref ordered) i = Inr (ref_for ordered i)" and "ref_names ordered (ref_for ordered i) i"
proof -
  from assms(2) obtain k where "k < length ordered" "i = ordered ! k" by (auto simp: in_set_conv_nth)
  with id_to_ref_lookup [OF assms(1)] show "dict_at (id_to_ref ordered) i = Inr (ref_for ordered i)"
    and "ref_names ordered (ref_for ordered i) i" by (auto simp: ref_for_def dict_at_def ref_names_def)
qed

lemma assign_refs_total:
  fixes blocks :: "answer_block list"
  defines "ordered \<equiv> first_occ (concat (map ab_evidence_unit_ids blocks))"
  shows "assign_public_citation_refs blocks = Inr (map (\<lambda>b. \<lparr>pb_text = ab_text b,
    pb_citation_refs = map (ref_for ordered) (ab_evidence_unit_ids b)\<rparr>) blocks, ordered)"
proof -
  have "map_res (dict_at (id_to_ref ordered)) (ab_evidence_unit_ids b) =
      Inr (map (ref_for ordered) (ab_evidence_unit_ids b))" if "b \<in> set blocks" for b
  proof (rule map_res_total)
    fix i assume "i \<in> set (ab_evidence_unit_ids b)"
    with that have "i \<in> set ordered" by (auto simp: ordered_def)
    then show "dict_at (id_to_ref ordered) i = Inr (ref_for ordered i)"
      by (simp add: ref_for_names ordered_def)
  qed
  then have "map_res (\<lambda>b. bind_res (map_res (dict_at (id_to_ref ordered)) (ab_evidence_unit_ids b)) (\<lambda>rs.
       Inr \<lparr>pb_text = ab_text b, pb_citation_refs = rs\<rparr>)) blocks =
     Inr (map (\<lambda>b. \<lparr>pb_text = ab_text b,
       pb_citation_refs = map (ref_for ordered) (ab_evidence_unit_ids b)\<rparr>) blocks)"
    by (intro map_res_total) simp
  then show ?thesis by (simp add: assign_public_citation_refs_def Let_def ordered_def)
qed

lemma project_rows:
  assumes "\<forall>u \<in> set us. unit_clean u" and "set ordered \<subseteq> allowed_evidence_ids us"
  shows "\<exists>rows. project_public_citations ordered us = Inr rows \<and> length rows = length ordered \<and>
    (\<forall>k < length ordered. pc_citation_ref (rows ! k) = ref_of (Suc k) \<and>
      pc_evidence_unit_id (rows ! k) = ordered ! k \<and>
      (\<exists>u \<in> set us. eu_evidence_unit_id u = ordered ! k \<and>
         (pc_excerpt (rows ! k), pc_excerpt_clipped (rows ! k)) = build_citation_excerpt (eu_text u)))"
proof -
  let ?d = "dict_by eu_evidence_unit_id us"
  from resolve_citations_clean [OF assms] obtain cs where cs: "resolve_citations ordered us = Inr cs"
    "map ct_evidence_unit_id cs = ordered" by blast
  have len: "length cs = length ordered" using cs(2) by (metis length_map)
  define row where "row = (\<lambda>(n, c). let e = build_citation_excerpt (eu_text (the (map_of ?d (ct_evidence_unit_id c))))
     in citation_public_row c (ref_of n) (fst e) (snd e))"
  have found: "\<exists>u \<in> set us. map_of ?d (ordered ! k) = Some u \<and> eu_evidence_unit_id u = ordered ! k"
    if "k < length ordered" for k
  proof -
    from that assms(2) have "ordered ! k \<in> allowed_evidence_ids us" by (meson nth_mem subsetD)
    then have "\<exists>u \<in> set us. eu_evidence_unit_id u = ordered ! k" by (auto simp: allowed_evidence_ids_def)
    then have "map_of ?d (ordered ! k) \<noteq> None" by (simp only: dict_by_in)
    then show ?thesis using dict_by_SomeD by fast
  qed
  have id: "ct_evidence_unit_id (cs ! k) = ordered ! k" if "k < length ordered" for k
    using cs(2) len that by (metis nth_map)
  have "(case p of (n, c) \<Rightarrow> bind_res (dict_at ?d (ct_evidence_unit_id c)) (\<lambda>u.
       case build_citation_excerpt (eu_text u) of (excerpt, clipped) \<Rightarrow>
         Inr (citation_public_row c (ref_of n) excerpt clipped))) = Inr (row p)" if "p \<in> set (enum1 cs)" for p
  proof -
    from that obtain k where k: "k < length ordered" "p = (Suc k, cs ! k)"
      by (auto simp: in_set_conv_nth enum1_nth len)
    with found [of k] id [of k] show ?thesis by (auto simp: row_def dict_at_def Let_def split: prod.split)
  qed
  then have "project_public_citations ordered us = Inr (map row (enum1 cs))"
    unfolding project_public_citations_def cs(1) bind_res_simps Let_def by (rule map_res_total)
  moreover have "pc_citation_ref (map row (enum1 cs) ! k) = ref_of (Suc k) \<and>
      pc_evidence_unit_id (map row (enum1 cs) ! k) = ordered ! k \<and>
      (\<exists>u \<in> set us. eu_evidence_unit_id u = ordered ! k \<and> (pc_excerpt (map row (enum1 cs) ! k),
         pc_excerpt_clipped (map row (enum1 cs) ! k)) = build_citation_excerpt (eu_text u))"
    if "k < length ordered" for k
    using found [OF that] id [OF that] that len
    by (auto simp: row_def enum1_nth Let_def citation_public_row_def)
  ultimately show ?thesis by (metis len length_enum1 length_map)
qed

end
