(* ===== verification/Grounded_Answers.thy ===== *)
theory Grounded_Answers
  imports Grounded_Executor Citation_Projection
begin

section \<open>What the executor returns\<close>

text \<open>
  Totality and grounding of \<open>execute\<close>: after its checks a run always returns a result, sends at most
  one request, and an answer cites exactly the units whose handles the response named.
\<close>

subsection \<open>Constructing results\<close>

definition opt_filled :: "string option \<Rightarrow> bool" where
  "opt_filled s \<longleftrightarrow> (\<forall>v. s = Some v \<longrightarrow> trim v \<noteq> [])"

lemma opt_filled_simps [simp]: "opt_filled None" "opt_filled (Some v) \<longleftrightarrow> trim v \<noteq> []"
  by (simp_all add: opt_filled_def)

lemma field_total: "trim s \<noteq> [] \<Longrightarrow> field_str s = Inr (trim s)"
  by (simp add: field_str_def nonempty_str_def)

lemma field_opt_total: "opt_filled s \<Longrightarrow> field_opt s = Inr (map_option trim s)"
  by (cases s) (simp_all add: field_opt_def field_total)

definition provenance_filled :: "context_provenance \<Rightarrow> bool" where
  "provenance_filled p \<longleftrightarrow> opt_filled (gp_context_config_hash p) \<and> opt_filled (gp_dense_index_id p) \<and>
     opt_filled (gp_lexical_index_id p) \<and> opt_filled (gp_fusion_config_hash p) \<and>
     opt_filled (gp_reranker_config_hash p)"

definition frame_ok :: "run_frame \<Rightarrow> bool" where
  "frame_ok f \<longleftrightarrow> trim (fr_query f) \<noteq> [] \<and> trim (fr_gencfg f) \<noteq> [] \<and> provenance_filled (fr_provenance f)"

text \<open>The fields every result of a frame takes from it.\<close>

definition framed :: "run_frame \<Rightarrow> grounded_answer_result \<Rightarrow> bool" where
  "framed f r \<longleftrightarrow> ga_query r = fr_query f \<and> ga_generation_config_hash r = fr_gencfg f \<and>
     ga_context_config_hash r = gp_context_config_hash (fr_provenance f) \<and>
     ga_dense_index_id r = gp_dense_index_id (fr_provenance f) \<and>
     ga_lexical_index_id r = gp_lexical_index_id (fr_provenance f) \<and>
     ga_fusion_config_hash r = gp_fusion_config_hash (fr_provenance f) \<and>
     ga_reranker_config_hash r = gp_reranker_config_hash (fr_provenance f)"

lemma framed_base: "framed f (base_result f status n d)"
  by (simp add: framed_def base_result_def)

lemma framed_total:
  assumes "frame_ok f" and "framed f r" and "opt_filled (ga_generation_failure_reason r)"
  obtains s where "mk_grounded_answer r = Inr s" "ga_status s = ga_status r"
    "ga_citations s = ga_citations r" "ga_answer_text s = ga_answer_text r"
    "ga_answer_blocks s = ga_answer_blocks r" "ga_attempt_count s = ga_attempt_count r"
    "ga_generator_invoked s = ga_generator_invoked r"
    "ga_product_abstention_reason s = ga_product_abstention_reason r"
proof -
  from assms have "\<exists>s. mk_grounded_answer r = Inr s"
    by (simp add: mk_grounded_answer_def frame_ok_def framed_def provenance_filled_def field_total
        field_opt_total)
  with mk_grounded_answer_Inr that show thesis by blast
qed

text \<open>A result without an answer after \<open>n\<close> calls of the generator.\<close>

definition refusal :: "nat \<Rightarrow> grounded_answer_result \<Rightarrow> bool" where
  "refusal n r \<longleftrightarrow> ga_status r \<noteq> Answered \<and> ga_citations r = [] \<and> ga_answer_text r = None \<and>
     ga_answer_blocks r = [] \<and> ga_attempt_count r = n \<and> (ga_generator_invoked r \<longleftrightarrow> 0 < n)"

lemma failed_total:
  assumes "frame_ok f" and "opt_filled reason" and "status \<noteq> Answered"
  shows "\<exists>r. failed f status reason n latency raw usage extra = Inr r \<and> refusal n r \<and> ga_status r = status"
proof -
  obtain d where d: "failed f status reason n latency raw usage extra =
      mk_grounded_answer (base_result f status n d\<lparr>ga_generation_failure_reason := reason\<rparr>)"
    unfolding failed_def Let_def by blast
  have "framed f (base_result f status n d\<lparr>ga_generation_failure_reason := reason\<rparr>)"
    by (simp add: framed_def base_result_def)
  with assms(1) show ?thesis
    by (rule framed_total) (use assms(2,3) d in \<open>simp_all add: refusal_def base_result_def\<close>)
qed

lemma empty_total:
  assumes "frame_ok f"
  shows "\<exists>r. empty_context_result env f v2 = Inr r \<and> refusal 0 r \<and> ga_status r = Insufficient_Evidence \<and>
    ga_product_abstention_reason r = (if v2 then
       Some (if pd_empty_context (fr_sufficiency f) then No_Evidence else Insufficient_Support) else None)"
proof -
  let ?p = "if v2 then Some (if pd_empty_context (fr_sufficiency f) then No_Evidence else Insufficient_Support)
    else None"
  obtain d where d: "empty_context_result env f v2 = mk_grounded_answer (base_result f Insufficient_Evidence 0 d
      \<lparr>ga_abstention_reason := Some Empty_Context, ga_product_abstention_reason := ?p\<rparr>)"
    unfolding empty_context_result_def Let_def by blast
  have "framed f (base_result f Insufficient_Evidence 0 d
      \<lparr>ga_abstention_reason := Some Empty_Context, ga_product_abstention_reason := ?p\<rparr>)"
    by (simp add: framed_def base_result_def)
  with assms show ?thesis
    by (rule framed_total) (use d in \<open>simp_all add: refusal_def base_result_def\<close>)
qed

subsection \<open>Names of failures\<close>

lemma known_strings [simp]:
  "trim ''prompt_provenance_unavailable'' \<noteq> []" "trim ''provider_error'' \<noteq> []"
  "trim PARSE_ERROR \<noteq> []" "trim SCHEMA_INVALID \<noteq> []" "trim CITATION_INVALID \<noteq> []"
  by code_simp+

lemma as_errors:
  "as_str j = Inl e \<Longrightarrow> e = SCHEMA_INVALID" "as_bool j = Inl e \<Longrightarrow> e = SCHEMA_INVALID"
  "as_list j = Inl e \<Longrightarrow> e = SCHEMA_INVALID" "as_obj j = Inl e \<Longrightarrow> e = SCHEMA_INVALID"
  "as_opt_str j = Inl e \<Longrightarrow> e = SCHEMA_INVALID"
  by (cases j; simp)+

lemma require_Inl: "require b = Inl e \<Longrightarrow> e = SCHEMA_INVALID"
  by (simp add: require_def split: if_splits)

lemma map_res_Inl: "map_res f xs = Inl e \<Longrightarrow> \<exists>x \<in> set xs. f x = Inl e"
  by (induction xs) (auto simp: bind_res_Inl_iff)

lemma for_each_Inl: "for_each f xs = Inl e \<Longrightarrow> \<exists>x \<in> set xs. f x = Inl e"
  by (induction xs) (auto simp: bind_res_Inl_iff)

definition failure_reasons :: "string set" where
  "failure_reasons = {PARSE_ERROR, SCHEMA_INVALID, CITATION_INVALID}"

lemma failure_reasonsI [intro, simp]:
  "PARSE_ERROR \<in> failure_reasons" "SCHEMA_INVALID \<in> failure_reasons" "CITATION_INVALID \<in> failure_reasons"
  by (simp_all add: failure_reasons_def)

lemma failure_reasons_filled: "r \<in> failure_reasons \<Longrightarrow> trim r \<noteq> []"
  by (auto simp: failure_reasons_def)

lemma parse_object_Inl: "parse_object loads raw = Inl e \<Longrightarrow> e \<in> failure_reasons"
  by (auto simp: parse_object_def Let_def split: if_splits option.splits json.splits)

lemma check_handle_Inl: "check_handle allowed h = Inl e \<Longrightarrow> e \<in> failure_reasons"
  by (auto simp: check_handle_def split: if_splits)

lemma parse_block_Inl:
  assumes "parse_block allowed j = Inl e"
  shows "e \<in> failure_reasons"
proof -
  have "for_each (check_handle allowed) hs = Inl e \<Longrightarrow> e \<in> failure_reasons" for hs
    by (blast dest: for_each_Inl check_handle_Inl)
  moreover have "map_res as_str js = Inl e \<Longrightarrow> e = SCHEMA_INVALID" for js
    by (blast dest: map_res_Inl as_errors)
  ultimately show ?thesis
    using assms unfolding parse_block_def bind_res_Inl_iff
    by (elim disjE exE conjE) (blast dest: as_errors require_Inl | simp)+
qed

lemma body_Inl:
  "v2_body allowed ab raw reason = Inl e \<Longrightarrow> e \<in> failure_reasons"
  "v1_body ab answer ids = Inl e \<Longrightarrow> e \<in> failure_reasons"
proof -
  have "map_res (parse_block allowed) js = Inl e \<Longrightarrow> e \<in> failure_reasons" for js
    by (blast dest: map_res_Inl parse_block_Inl)
  then show "v2_body allowed ab raw reason = Inl e \<Longrightarrow> e \<in> failure_reasons"
    unfolding v2_body_def by (auto simp: bind_res_Inl_iff split: if_splits dest: require_Inl)
  show "v1_body ab answer ids = Inl e \<Longrightarrow> e \<in> failure_reasons"
    unfolding v1_body_def by (auto simp: bind_res_Inl_iff split: if_splits dest: require_Inl)
qed

lemma parse_Inl:
  "parse_grounded_answer_v2 loads allowed raw = Inl e \<Longrightarrow> e \<in> failure_reasons"
  "parse_grounded_answer_v1 loads raw = Inl e \<Longrightarrow> e \<in> failure_reasons"
proof -
  have "map_res as_str js = Inl e \<Longrightarrow> e = SCHEMA_INVALID" for js
    by (blast dest: map_res_Inl as_errors)
  then show "parse_grounded_answer_v1 loads raw = Inl e \<Longrightarrow> e \<in> failure_reasons"
    unfolding parse_grounded_answer_v1_def bind_res_Inl_iff
    by (elim disjE exE conjE) (blast dest: as_errors require_Inl parse_object_Inl body_Inl | simp)+
  show "parse_grounded_answer_v2 loads allowed raw = Inl e \<Longrightarrow> e \<in> failure_reasons"
    unfolding parse_grounded_answer_v2_def bind_res_Inl_iff
    by (elim disjE exE conjE) (blast dest: as_errors require_Inl parse_object_Inl body_Inl | simp)+
qed

subsection \<open>Grounding\<close>

text \<open>An answer block cites, in order, the units whose handles its response block named.\<close>

definition handle_names :: "evidence_unit list \<Rightarrow> string \<Rightarrow> string \<Rightarrow> bool" where
  "handle_names us h i \<longleftrightarrow> (\<exists>k < length us. h = handle_of (Suc k) \<and> i = eu_evidence_unit_id (us ! k))"

definition block_grounded :: "evidence_unit list \<Rightarrow> v2_block \<Rightarrow> answer_block \<Rightarrow> bool" where
  "block_grounded us vb b \<longleftrightarrow> ab_text b = trim (vb_text vb) \<and> ab_text b \<noteq> [] \<and>
     ab_evidence_unit_ids b \<noteq> [] \<and>
     list_all2 (handle_names us) (vb_evidence_handles vb) (ab_evidence_unit_ids b)"

definition answer_grounded :: "evidence_unit list \<Rightarrow> grounded_answer_result \<Rightarrow> bool" where
  "answer_grounded us r \<longleftrightarrow> ga_answer_blocks r \<noteq> [] \<and>
     ga_answer_text r = Some (project_plain_answer (ga_answer_blocks r)) \<and>
     evidence_unit_ids_used r = first_occ (concat (map ab_evidence_unit_ids (ga_answer_blocks r))) \<and>
     ga_citations r \<noteq> [] \<and> (\<forall>c \<in> set (ga_citations r). \<exists>u \<in> set us. c = citation_of u)"

lemma resolve_handles_names:
  assumes "set hs \<subseteq> set (map fst (fst (assign_evidence_handles us)))"
  obtains ids where "resolve_handles_to_evidence_ids hs (fst (assign_evidence_handles us)) = Inr ids"
    and "list_all2 (handle_names us) hs ids" and "set ids \<subseteq> allowed_evidence_ids us"
proof -
  from resolve_handles_ok [OF assms] obtain ids where
    i: "resolve_handles_to_evidence_ids hs (fst (assign_evidence_handles us)) = Inr ids" "length ids = length hs"
      "\<forall>k < length hs. \<exists>i < length us. hs ! k = handle_of (Suc i) \<and> ids ! k = eu_evidence_unit_id (us ! i)"
    by blast
  then have "list_all2 (handle_names us) hs ids"
    unfolding list_all2_conv_all_nth handle_names_def by simp
  then show thesis using i(1) resolved_in_units [OF assms i(1)] that by blast
qed

lemma resolve_block:
  assumes "\<forall>u \<in> set us. unit_clean u"
    and "block_ok (set (map fst (fst (assign_evidence_handles us)))) vb"
  shows "\<exists>b. bind_res (resolve_handles_to_evidence_ids (vb_evidence_handles vb) (fst (assign_evidence_handles us)))
      (mk_answer_block (vb_text vb)) = Inr b \<and> block_grounded us vb b \<and>
    set (ab_evidence_unit_ids b) \<subseteq> allowed_evidence_ids us"
proof -
  have "set (vb_evidence_handles vb) \<subseteq> set (map fst (fst (assign_evidence_handles us)))"
    using assms(2) unfolding block_ok_def by blast
  then obtain ids where i: "resolve_handles_to_evidence_ids (vb_evidence_handles vb)
      (fst (assign_evidence_handles us)) = Inr ids" "list_all2 (handle_names us) (vb_evidence_handles vb) ids"
    "set ids \<subseteq> allowed_evidence_ids us" by (rule resolve_handles_names)
  have "is_nonempty_str j" if "j \<in> set ids" for j
    using that i(3) assms(1) by (auto simp: allowed_evidence_ids_def unit_clean_def)
  moreover have v: "nonblank (vb_text vb)" "vb_evidence_handles vb \<noteq> []" using assms(2) by (auto simp: block_ok_def)
  ultimately have "mk_answer_block (vb_text vb) ids = Inr \<lparr>ab_text = trim (vb_text vb), ab_evidence_unit_ids = ids\<rparr>"
    by (intro mk_answer_block_ok)
  moreover have "ids \<noteq> []" using i(2) v(2) by auto
  ultimately show ?thesis using i nonblank_trim [OF v(1)] by (simp add: block_grounded_def)
qed

lemma resolve_blocks_ok:
  assumes "\<forall>u \<in> set us. unit_clean u"
    and "\<forall>b \<in> set vbs. block_ok (set (map fst (fst (assign_evidence_handles us)))) b"
  obtains bs where "resolve_blocks (fst (assign_evidence_handles us)) vbs = Inr bs"
    and "list_all2 (block_grounded us) vbs bs"
    and "set (concat (map ab_evidence_unit_ids bs)) \<subseteq> allowed_evidence_ids us"
proof -
  let ?g = "\<lambda>vb. SOME b. bind_res (resolve_handles_to_evidence_ids (vb_evidence_handles vb)
      (fst (assign_evidence_handles us))) (mk_answer_block (vb_text vb)) = Inr b \<and> block_grounded us vb b \<and>
    set (ab_evidence_unit_ids b) \<subseteq> allowed_evidence_ids us"
  have each: "bind_res (resolve_handles_to_evidence_ids (vb_evidence_handles vb)
      (fst (assign_evidence_handles us))) (mk_answer_block (vb_text vb)) = Inr (?g vb) \<and>
      block_grounded us vb (?g vb) \<and> set (ab_evidence_unit_ids (?g vb)) \<subseteq> allowed_evidence_ids us"
    if "vb \<in> set vbs" for vb
    using assms(2) that by (intro someI_ex [OF resolve_block [OF assms(1)]]) blast
  have "resolve_blocks (fst (assign_evidence_handles us)) vbs = Inr (map ?g vbs)"
    unfolding resolve_blocks_def by (rule map_res_total) (use each in blast)
  moreover have "list_all2 (block_grounded us) vbs (map ?g vbs)"
    using each by (simp add: list_all2_conv_all_nth)
  moreover have "set (concat (map ab_evidence_unit_ids (map ?g vbs))) \<subseteq> allowed_evidence_ids us"
    using each by fastforce
  ultimately show thesis by (rule that)
qed

text \<open>What the parsed response of the product contract decides.\<close>

definition v2_parsed :: "executor_env \<Rightarrow> evidence_unit list \<Rightarrow> generator_response \<Rightarrow> string + v2_output" where
  "v2_parsed env us response = parse_grounded_answer_v2 (ex_loads env)
     (set (map fst (fst (assign_evidence_handles us)))) (gr_content response)"

lemma v2_parsed_ok: "v2_parsed env us response = Inr out \<Longrightarrow>
    v2_ok (set (map fst (fst (assign_evidence_handles us)))) out"
  unfolding v2_parsed_def by (simp add: parse_v2_iff)

lemma model_reasons:
  "reason \<in> MODEL_ABSTENTION_REASONS \<Longrightarrow> reason \<noteq> [] \<and> (\<exists>pr. product_reason_of reason = Some pr)"
  by (auto simp: MODEL_ABSTENTION_REASONS_def product_reason_of_def)

definition v2_result_of :: "executor_env \<Rightarrow> evidence_unit list \<Rightarrow> generator_response \<Rightarrow> grounded_answer_result \<Rightarrow> bool" where
  "v2_result_of env us response r \<longleftrightarrow> ga_attempt_count r = 1 \<and> ga_generator_invoked r \<and>
     (case v2_parsed env us response of
        Inl reason \<Rightarrow> refusal 1 r \<and>
          ga_status r = (if reason = CITATION_INVALID then Citation_Invalid else Generation_Failed)
      | Inr out \<Rightarrow>
          if v2_abstain out then refusal 1 r \<and> ga_status r = Insufficient_Evidence \<and>
            map_option product_abstention_value (ga_product_abstention_reason r) = v2_abstention_reason out
          else ga_status r = Answered \<and> answer_grounded us r \<and>
            list_all2 (block_grounded us) (v2_blocks out) (ga_answer_blocks r))"

lemma conclude_refused:
  assumes "frame_ok f" and "v2_parsed env us response = Inl reason"
  shows "\<exists>r. conclude_v2 env f us response = Inr r \<and> v2_result_of env us response r"
proof -
  let ?st = "if reason = CITATION_INVALID then Citation_Invalid else Generation_Failed"
  let ?why = "if ?st = Generation_Failed then Some reason else None"
  from assms(2) have "reason \<in> failure_reasons" unfolding v2_parsed_def by (rule parse_Inl)
  then have w: "opt_filled ?why" by (simp add: failure_reasons_filled)
  from assms(2) have c: "conclude_v2 env f us response = failed f ?st ?why 1 (stage_latency env f)
      (Some (gr_content response)) (gr_usage response) []"
    unfolding conclude_v2_def Let_def v2_parsed_def by simp
  have "?st \<noteq> Answered" by simp
  from failed_total [OF assms(1) w this] obtain r where r: "failed f ?st ?why 1 (stage_latency env f)
      (Some (gr_content response)) (gr_usage response) [] = Inr r" "refusal 1 r" "ga_status r = ?st" by blast
  have "v2_result_of env us response r"
    using r(2,3) unfolding v2_result_of_def assms(2) sum.case refusal_def by simp
  with c r(1) show ?thesis by simp
qed

lemma reason_value: "product_reason_of s = Some pr \<Longrightarrow> product_abstention_value pr = s"
  unfolding product_reason_of_def find_Some_iff by auto

lemma conclude_abstained:
  assumes "frame_ok f" and p: "v2_parsed env us response = Inr out" and "v2_abstain out"
  shows "\<exists>r. conclude_v2 env f us response = Inr r \<and> v2_result_of env us response r"
proof -
  from v2_parsed_ok [OF p] assms(3) obtain reason where
    "reason \<in> MODEL_ABSTENTION_REASONS" and reason: "v2_abstention_reason out = Some reason"
    unfolding v2_ok_def by auto
  from model_reasons [OF this(1)] obtain pr where pr: "product_reason_of reason = Some pr" "reason \<noteq> []" by blast
  have "\<exists>d. conclude_v2 env f us response = mk_grounded_answer (base_result f Insufficient_Evidence 1 d
      \<lparr>ga_abstention_reason := Some Model_Abstain, ga_product_abstention_reason := Some pr\<rparr>)"
    using assms(3) p pr reason unfolding conclude_v2_def Let_def v2_parsed_def
    by simp blast
  then obtain d where d: "conclude_v2 env f us response = mk_grounded_answer (base_result f Insufficient_Evidence 1 d
      \<lparr>ga_abstention_reason := Some Model_Abstain, ga_product_abstention_reason := Some pr\<rparr>)" ..
  have "framed f (base_result f Insufficient_Evidence 1 d
      \<lparr>ga_abstention_reason := Some Model_Abstain, ga_product_abstention_reason := Some pr\<rparr>)"
    by (simp add: framed_def base_result_def)
  with assms(1) show ?thesis
    by (rule framed_total) (use assms(3) p reason reason_value [OF pr(1)] d
        in \<open>simp_all add: v2_result_of_def refusal_def base_result_def\<close>)
qed

lemma conclude_answered:
  assumes "frame_ok f" and p: "v2_parsed env us response = Inr out" and "\<not> v2_abstain out"
    and us: "\<forall>u \<in> set us. unit_citable u"
  shows "\<exists>r. conclude_v2 env f us response = Inr r \<and> v2_result_of env us response r"
proof -
  let ?hs = "fst (assign_evidence_handles us)"
  have clean: "\<forall>u \<in> set us. unit_clean u" using us by (simp add: unit_citable_def)
  from v2_parsed_ok [OF p] assms(3) have ok: "v2_blocks out \<noteq> []" "\<forall>b \<in> set (v2_blocks out). block_ok (set (map fst ?hs)) b"
    unfolding v2_ok_def by auto
  from resolve_blocks_ok [OF clean ok(2)] obtain bs where b: "resolve_blocks ?hs (v2_blocks out) = Inr bs"
    "list_all2 (block_grounded us) (v2_blocks out) bs"
    "set (concat (map ab_evidence_unit_ids bs)) \<subseteq> allowed_evidence_ids us" .
  let ?ids = "first_occ (concat (map ab_evidence_unit_ids bs))"
  have "set ?ids \<subseteq> allowed_evidence_ids us" using b(3) by simp
  from resolve_citations_clean [OF clean this] obtain cs where c: "resolve_citations ?ids us = Inr cs"
    "map ct_evidence_unit_id cs = ?ids" "\<forall>c \<in> set cs. \<exists>u \<in> set us. c = citation_of u" by blast
  from b(2) ok(1) obtain b0 where "b0 \<in> set bs" "ab_evidence_unit_ids b0 \<noteq> []"
    by (cases bs; cases "v2_blocks out") (auto simp: block_grounded_def)
  then have "set ?ids \<noteq> {}" by auto
  then have "?ids \<noteq> []" by (metis list.set(1))
  with c(2) have ne: "cs \<noteq> []" by fastforce
  have bn: "bs \<noteq> []" using b(2) ok(1) by auto
  have "\<exists>d m. conclude_v2 env f us response = mk_grounded_answer (base_result f Answered 1 d
      \<lparr>ga_answer_text := Some (project_plain_answer bs), ga_citations := cs, ga_answer_blocks := bs, ga_metadata := m\<rparr>)"
    using assms(3) p b(1) c(1) unfolding conclude_v2_def Let_def v2_parsed_def by simp blast
  then obtain d m where d: "conclude_v2 env f us response = mk_grounded_answer (base_result f Answered 1 d
      \<lparr>ga_answer_text := Some (project_plain_answer bs), ga_citations := cs, ga_answer_blocks := bs, ga_metadata := m\<rparr>)"
    by blast
  have "framed f (base_result f Answered 1 d
      \<lparr>ga_answer_text := Some (project_plain_answer bs), ga_citations := cs, ga_answer_blocks := bs, ga_metadata := m\<rparr>)"
    by (simp add: framed_def base_result_def)
  with assms(1) show ?thesis
    by (rule framed_total) (use assms(3) p c(2,3) ne bn b(2) d in \<open>simp_all add: v2_result_of_def
        answer_grounded_def evidence_unit_ids_used_def base_result_def\<close>)
qed

lemma conclude_v2_total:
  assumes "frame_ok f" and "\<forall>u \<in> set us. unit_citable u"
  shows "\<exists>r. conclude_v2 env f us response = Inr r \<and> v2_result_of env us response r"
  using conclude_refused [OF assms(1)] conclude_abstained [OF assms(1)] conclude_answered [OF assms(1) _ _ assms(2)]
  by (cases "v2_parsed env us response") metis+

subsection \<open>The request of the product contract\<close>

lemma map_of_id_to_handle:
  "map_of (foldl (\<lambda>d (h, i). dict_set i h d) d0 ps) i =
    (case find (\<lambda>(h, j). j = i) (rev ps) of Some (h, _) \<Rightarrow> Some h | None \<Rightarrow> map_of d0 i)"
  by (induction ps rule: rev_induct) (auto split: prod.split)

lemma id_to_handle_some:
  assumes "u \<in> set us"
  shows "\<exists>h. map_of (id_to_handle (fst (assign_evidence_handles us))) (eu_evidence_unit_id u) = Some h"
proof -
  let ?ps = "fst (assign_evidence_handles us)"
  from assms obtain k where "k < length us" "us ! k = u" by (auto simp: in_set_conv_nth)
  then have "?ps ! k = (handle_of (Suc k), eu_evidence_unit_id u)" "k < length ?ps"
    by (simp_all add: assign_evidence_handles_def enum1_nth)
  then have "(handle_of (Suc k), eu_evidence_unit_id u) \<in> set (rev ?ps)" by (metis nth_mem set_rev)
  then have "find (\<lambda>(h, j). j = eu_evidence_unit_id u) (rev ?ps) \<noteq> None"
    unfolding find_None_iff by fastforce
  then show ?thesis by (auto simp: id_to_handle_def map_of_id_to_handle split: option.splits)
qed

lemma find_SomeD: "find P xs = Some x \<Longrightarrow> P x \<and> x \<in> set xs"
  by (induction xs) (auto split: if_splits)

lemma id_to_handle_distinct:
  assumes "distinct (map eu_evidence_unit_id us)" and "k < length us"
  shows "map_of (id_to_handle (fst (assign_evidence_handles us))) (eu_evidence_unit_id (us ! k)) = Some (handle_of (Suc k))"
proof -
  let ?ps = "fst (assign_evidence_handles us)"
  have "(h, eu_evidence_unit_id (us ! k)) \<in> set ?ps \<Longrightarrow> h = handle_of (Suc k)" for h
    using assms by (auto simp: assign_evidence_handles_def in_set_conv_nth enum1_nth distinct_conv_nth) metis
  moreover have "us ! k \<in> set us" using assms(2) by simp
  then obtain h where "map_of (id_to_handle ?ps) (eu_evidence_unit_id (us ! k)) = Some h"
    using id_to_handle_some by blast
  moreover from this obtain j where
    "find (\<lambda>(h, j). j = eu_evidence_unit_id (us ! k)) (rev ?ps) = Some (h, j)"
    by (auto simp: id_to_handle_def map_of_id_to_handle split: option.splits)
  from find_SomeD [OF this] have "(h, eu_evidence_unit_id (us ! k)) \<in> set ?ps" by auto
  ultimately show ?thesis by metis
qed

definition rendered_unit :: "(string \<times> string) list \<Rightarrow> (string \<times> string) list \<Rightarrow> evidence_unit \<Rightarrow> string" where
  "rendered_unit handles names u =
     render_handle_unit (the (map_of handles (eu_evidence_unit_id u))) (evidence_of names u)"

lemma product_request_ok:
  assumes "\<forall>u \<in> set us. unit_citable u" and "\<And>u. u \<in> set us \<Longrightarrow> \<exists>t. document_title names u = Inr t"
  shows "build_product_request env ai rq name us (Some names) =
    Inr (request_of (ex_system_prompt env) GROUNDED_ANSWER_V2 (ex_generation env) response_format_v2
      (user_content_v2 ai rq (map (rendered_unit (id_to_handle (fst (assign_evidence_handles us))) names) us)))"
proof -
  let ?h = "id_to_handle (fst (assign_evidence_handles us))"
  have "map_res (\<lambda>e. try_map Prompt_Raised (bind_res (dict_at ?h (pe_evidence_unit_id e))
      (\<lambda>handle. Inr (render_handle_unit handle e)))) (map (evidence_of names) us) =
    Inr (map (\<lambda>e. render_handle_unit (the (map_of ?h (pe_evidence_unit_id e))) e) (map (evidence_of names) us))"
  proof (rule map_res_total)
    fix e assume "e \<in> set (map (evidence_of names) us)"
    then obtain u where u: "u \<in> set us" "e = evidence_of names u" by auto
    from id_to_handle_some [OF u(1)] obtain h where "map_of ?h (eu_evidence_unit_id u) = Some h" ..
    with u(2) show "try_map Prompt_Raised (bind_res (dict_at ?h (pe_evidence_unit_id e))
        (\<lambda>handle. Inr (render_handle_unit handle e))) =
      Inr (render_handle_unit (the (map_of ?h (pe_evidence_unit_id e))) e)"
      by (simp add: dict_at_def evidence_of_def try_map_def)
  qed
  moreover have "map (\<lambda>e. render_handle_unit (the (map_of ?h (pe_evidence_unit_id e))) e) (map (evidence_of names) us) =
      map (rendered_unit ?h names) us" by (simp add: rendered_unit_def evidence_of_def)
  ultimately show ?thesis
    by (simp only: build_product_request_def adapt_titles_ok [OF assms] bind_res_simps build_prompt_grounded_answer_v2_def)
qed

lemma product_request_unavailable:
  assumes "v \<in> set us" and "document_title names v = Inl e0"
  shows "\<exists>m. \<exists>u \<in> set us. build_product_request env ai rq name us (Some names) =
    Inl (Provenance_Unavailable m (Some (eu_evidence_unit_id u)) (Some (eu_document_id u))) \<and>
    (\<exists>e. document_title names u = Inl e)"
proof -
  from adapt_unavailable [OF assms, of "ex_source_names env name"] obtain m u where u: "u \<in> set us"
    "adapt_prompt_evidence (ex_source_names env name) (Some names) us =
      Inl (Provenance_Unavailable m (Some (eu_evidence_unit_id u)) (Some (eu_document_id u)))"
    "\<exists>e. document_title names u = Inl e" by blast
  have "build_product_request env ai rq name us (Some names) =
      Inl (Provenance_Unavailable m (Some (eu_evidence_unit_id u)) (Some (eu_document_id u)))"
    by (simp add: build_product_request_def u(2))
  with u(1,3) show ?thesis by blast
qed

subsection \<open>Runs of the product contract\<close>

definition generator_filled :: "executor_env \<Rightarrow> bool" where
  "generator_filled env \<longleftrightarrow> (\<forall>q reason. ex_generate env q = Inl (Generator_Error reason) \<longrightarrow> trim reason \<noteq> [])"

lemma generator_failed_total:
  assumes "frame_ok f" and "generator_filled env" and "ex_generate env q = Inl e"
  shows "\<exists>r. generator_failed env f e = Inr r \<and> refusal 1 r \<and> ga_status r = Generation_Failed"
proof (cases e)
  case (Generator_Error reason)
  with assms(2,3) have "opt_filled (Some reason)" by (simp add: generator_filled_def)
  from failed_total [OF assms(1) this] Generator_Error show ?thesis
    unfolding generator_failed_def Let_def by simp
next
  case (Generator_Other m)
  have "opt_filled (Some ''provider_error'')" by simp
  from failed_total [OF assms(1) this] Generator_Other show ?thesis
    unfolding generator_failed_def Let_def by simp
qed

lemma provenance_failed_total:
  assumes "frame_ok f"
  shows "\<exists>r. provenance_failed env f m i d = Inr r \<and> refusal 0 r \<and> ga_status r = Generation_Failed"
proof -
  have "opt_filled (Some ''prompt_provenance_unavailable'')" by simp
  from failed_total [OF assms this] show ?thesis unfolding provenance_failed_def Let_def by simp
qed

lemma generate_outcome:
  assumes "frame_ok f" and "generator_filled env" and "built = Inr q"
    and "\<And>response. \<exists>r. conclude response = Inr r \<and> P response r"
  shows "\<exists>r. prompt_and_generate env f built conclude = ([q], Inr r) \<and>
    (case ex_generate env q of Inl e \<Rightarrow> refusal 1 r \<and> ga_status r = Generation_Failed
     | Inr response \<Rightarrow> P response r)"
proof (cases "ex_generate env q")
  case (Inl e)
  from generator_failed_total [OF assms(1,2) this] Inl assms(3) show ?thesis
    by (auto simp: prompt_and_generate_def)
next
  case (Inr response)
  from assms(4) [of response] Inr assms(3) show ?thesis by (auto simp: prompt_and_generate_def)
qed

lemma gencfg_filled: "trim (build_product_v2_generation_config_hash sha fr gs) \<noteq> []"
proof -
  have "CHR ''g'' \<in> set (build_product_v2_generation_config_hash sha fr gs)" "\<not> py_isspace (CHR ''g'')"
    by (simp_all add: build_product_v2_generation_config_hash_def generation_config_hash_def
        config_hash_with_eq hashed_def py_isspace_def)
  then have "nonblank (build_product_v2_generation_config_hash sha fr gs)" unfolding nonblank_iff by blast
  then show ?thesis by (rule nonblank_trim)
qed

lemma check_run_sufficient:
  "check_run repr fr env corpus ready prov us = Inr (name, d) \<Longrightarrow> d = evaluate_sufficiency_policy_v1 us"
  by (auto simp: check_run_def bind_res_Inr_iff split: if_splits dest: evaluate_runtime_Inr)

text \<open>Every outcome of one run.\<close>

definition v2_run ::
    "executor_env \<Rightarrow> (string \<times> string) list \<Rightarrow> evidence_unit list \<Rightarrow> generator_request list \<Rightarrow>
     grounded_answer_result \<Rightarrow> bool" where
  "v2_run env names us sent r \<longleftrightarrow>
     (if us = [] then sent = [] \<and> refusal 0 r \<and> ga_status r = Insufficient_Evidence \<and>
        ga_product_abstention_reason r = Some No_Evidence
      else if \<exists>u \<in> set us. \<exists>e. document_title names u = Inl e then
        sent = [] \<and> refusal 0 r \<and> ga_status r = Generation_Failed
      else (\<exists>q. sent = [q] \<and> (case ex_generate env q of
          Inl e \<Rightarrow> refusal 1 r \<and> ga_status r = Generation_Failed
        | Inr response \<Rightarrow> v2_result_of env us response r)))"

lemma product_run:
  assumes "\<forall>u \<in> set us. unit_citable u" and "provenance_filled prov" and "trim ai \<noteq> []" and "generator_filled env"
    and "check_run repr fr env corpus ready provider_only us = Inr (name, d)"
  shows "\<exists>sent r. execute_product_v2 sha fr repr env rq ai corpus us prov ready provider_only (Some names) = (sent, Inr r) \<and>
    v2_run env names us sent r"
proof -
  define f where "f = \<lparr>fr_settings = ex_generation env, fr_query = ai,
    fr_gencfg = build_product_v2_generation_config_hash sha fr (ex_generation env),
    fr_semantics = build_product_v2_generation_semantic_payload (ex_generation env),
    fr_provenance = prov, fr_sufficiency = d\<rparr>"
  have ok: "frame_ok f" using assms(2,3) gencfg_filled by (simp add: frame_ok_def f_def)
  have d: "d = evaluate_sufficiency_policy_v1 us" using check_run_sufficient [OF assms(5)] .
  have run: "execute_product_v2 sha fr repr env rq ai corpus us prov ready provider_only (Some names) =
    (if us = [] then ([], empty_context_result env f True)
     else prompt_and_generate env f (build_product_request env ai rq name us (Some names)) (conclude_v2 env f us))"
    unfolding execute_product_v2_def assms(5) sum.case prod.case Let_def f_def [symmetric]
    by (simp add: d)
  consider "us = []" | (no) v e0 where "us \<noteq> []" "v \<in> set us" "document_title names v = Inl e0"
    | (all) "us \<noteq> []" "\<And>u. u \<in> set us \<Longrightarrow> \<exists>t. document_title names u = Inr t"
    by (metis old.sum.exhaust)
  then show ?thesis
  proof cases
    case 1
    with empty_total [OF ok, of env True] run show ?thesis by (simp add: v2_run_def f_def d)
  next
    case no
    from product_request_unavailable [OF no(2,3), of env ai rq name] obtain m i d' where
      "build_product_request env ai rq name us (Some names) = Inl (Provenance_Unavailable m i d')" by blast
    with provenance_failed_total [OF ok, of env m i d'] run no show ?thesis
      by (auto simp: v2_run_def prompt_and_generate_def)
  next
    case all
    from product_request_ok [OF assms(1) all(2)] obtain q where
      q: "build_product_request env ai rq name us (Some names) = Inr q" by blast
    from all(2) have t: "\<not> (\<exists>u \<in> set us. \<exists>e. document_title names u = Inl e)" by fastforce
    have "\<exists>r. prompt_and_generate env f (build_product_request env ai rq name us (Some names))
        (conclude_v2 env f us) = ([q], Inr r) \<and> (case ex_generate env q of
          Inl e \<Rightarrow> refusal 1 r \<and> ga_status r = Generation_Failed | Inr response \<Rightarrow> v2_result_of env us response r)"
      by (rule generate_outcome [OF ok assms(4) q]) (rule conclude_v2_total [OF ok assms(1)])
    with run all(1) t show ?thesis by (auto simp: v2_run_def)
  qed
qed


subsection \<open>Runs of the legacy contract\<close>

definition v1_result_of :: "executor_env \<Rightarrow> evidence_unit list \<Rightarrow> generator_response \<Rightarrow> grounded_answer_result \<Rightarrow> bool" where
  "v1_result_of env us response r \<longleftrightarrow> ga_attempt_count r = 1 \<and> ga_generator_invoked r \<and>
     (case parse_grounded_answer_v1 (ex_loads env) (gr_content response) of
        Inl reason \<Rightarrow> refusal 1 r \<and> ga_status r = Generation_Failed
      | Inr out \<Rightarrow>
          if v1_abstain out then refusal 1 r \<and> ga_status r = Insufficient_Evidence
          else if \<not> set (v1_citation_ids out) \<subseteq> allowed_evidence_ids us then
            refusal 1 r \<and> ga_status r = Citation_Invalid
          else ga_status r = Answered \<and> ga_answer_text r = v1_answer out \<and> ga_answer_blocks r = [] \<and>
            evidence_unit_ids_used r = v1_citation_ids out \<and> ga_citations r \<noteq> [] \<and>
            (\<forall>c \<in> set (ga_citations r). \<exists>u \<in> set us. c = citation_of u))"

lemma conclude_v1_total:
  assumes "frame_ok f" and "\<forall>u \<in> set us. unit_citable u"
  shows "\<exists>r. conclude_v1 env f us response = Inr r \<and> v1_result_of env us response r"
proof (cases "parse_grounded_answer_v1 (ex_loads env) (gr_content response)")
  case (Inl reason)
  then have "opt_filled (Some reason)" by (simp add: failure_reasons_filled parse_Inl)
  from failed_total [OF assms(1) this, of Generation_Failed 1 "stage_latency env f" "Some (gr_content response)"
      "gr_usage response" "[]"] Inl show ?thesis
    by (auto simp: conclude_v1_def v1_result_of_def refusal_def)
next
  case (Inr out)
  have ok: "v1_ok out" using Inr by (simp add: parse_v1_iff)
  have clean: "\<forall>u \<in> set us. unit_clean u" using assms(2) by (simp add: unit_citable_def)
  consider "v1_abstain out" | "\<not> v1_abstain out" "\<not> set (v1_citation_ids out) \<subseteq> allowed_evidence_ids us"
    | "\<not> v1_abstain out" "set (v1_citation_ids out) \<subseteq> allowed_evidence_ids us" by blast
  then show ?thesis
  proof cases
    case 1
    then have "\<exists>d. conclude_v1 env f us response = mk_grounded_answer (base_result f Insufficient_Evidence 1 d
        \<lparr>ga_abstention_reason := Some Model_Abstain\<rparr>)"
      using Inr unfolding conclude_v1_def by simp blast
    then obtain d where d: "conclude_v1 env f us response = mk_grounded_answer (base_result f Insufficient_Evidence 1 d
        \<lparr>ga_abstention_reason := Some Model_Abstain\<rparr>)" ..
    have "framed f (base_result f Insufficient_Evidence 1 d\<lparr>ga_abstention_reason := Some Model_Abstain\<rparr>)"
      by (simp add: framed_def base_result_def)
    with assms(1) show ?thesis
      by (rule framed_total) (use 1 Inr d in \<open>simp_all add: v1_result_of_def refusal_def base_result_def\<close>)
  next
    case 2
    then have "validate_citation_membership (v1_citation_ids out) us \<noteq> []" by (simp add: membership_empty_iff)
    then have "\<exists>extra. conclude_v1 env f us response = failed f Citation_Invalid None 1 (stage_latency env f)
        (Some (gr_content response)) (gr_usage response) extra"
      using 2 Inr unfolding conclude_v1_def Let_def by simp blast
    then obtain extra where c: "conclude_v1 env f us response = failed f Citation_Invalid None 1
        (stage_latency env f) (Some (gr_content response)) (gr_usage response) extra" ..
    have "opt_filled None" "Citation_Invalid \<noteq> Answered" by simp_all
    from failed_total [OF assms(1) this, of 1 "stage_latency env f" "Some (gr_content response)"
        "gr_usage response" extra] c 2 Inr show ?thesis
      by (auto simp: v1_result_of_def refusal_def)
  next
    case 3
    from resolve_citations_clean [OF clean 3(2)] obtain cs where
      c: "resolve_citations (v1_citation_ids out) us = Inr cs" "map ct_evidence_unit_id cs = v1_citation_ids out"
        "\<forall>c \<in> set cs. \<exists>u \<in> set us. c = citation_of u" by blast
    have ne: "cs \<noteq> []" using c(2) ok 3(1) by (auto simp: v1_ok_def)
    have "validate_citation_membership (v1_citation_ids out) us = []" using 3 by (simp add: membership_empty_iff)
    then have "\<exists>d. conclude_v1 env f us response = mk_grounded_answer (base_result f Answered 1 d
        \<lparr>ga_answer_text := v1_answer out, ga_citations := cs\<rparr>)"
      using 3 Inr c(1) unfolding conclude_v1_def Let_def by simp blast
    then obtain d where d: "conclude_v1 env f us response = mk_grounded_answer (base_result f Answered 1 d
        \<lparr>ga_answer_text := v1_answer out, ga_citations := cs\<rparr>)" ..
    have "framed f (base_result f Answered 1 d\<lparr>ga_answer_text := v1_answer out, ga_citations := cs\<rparr>)"
      by (simp add: framed_def base_result_def)
    with assms(1) show ?thesis
      by (rule framed_total) (use 3 Inr c(2,3) ne d in \<open>simp_all add: v1_result_of_def
          evidence_unit_ids_used_def base_result_def\<close>)
  qed
qed

definition v1_run ::
    "executor_env \<Rightarrow> (string \<times> string) list \<Rightarrow> evidence_unit list \<Rightarrow> generator_request list \<Rightarrow>
     grounded_answer_result \<Rightarrow> bool" where
  "v1_run env names us sent r \<longleftrightarrow>
     (if us = [] then sent = [] \<and> refusal 0 r \<and> ga_status r = Insufficient_Evidence
      else if gn_contract_version (ex_generation env) \<noteq> PROMPT_GROUNDED_V1 \<and>
          (\<exists>u \<in> set us. \<exists>e. document_title names u = Inl e) then
        sent = [] \<and> refusal 0 r \<and> ga_status r = Generation_Failed
      else (\<exists>q. sent = [q] \<and> (case ex_generate env q of
          Inl e \<Rightarrow> refusal 1 r \<and> ga_status r = Generation_Failed
        | Inr response \<Rightarrow> v1_result_of env us response r)))"

lemma prompt_pair_contract:
  "validate_prompt_pair gs = Inr () \<Longrightarrow>
     gn_contract_version gs = PROMPT_GROUNDED_V1 \<or> gn_contract_version gs = PROMPT_GROUNDED_PROVENANCE_V2"
  by (auto simp: validate_prompt_pair_def PROMPT_GROUNDED_V1_def PROMPT_GROUNDED_PROVENANCE_V2_def split: if_splits)

lemma contracts_differ: "PROMPT_GROUNDED_PROVENANCE_V2 \<noteq> PROMPT_GROUNDED_V1"
  by (simp add: PROMPT_GROUNDED_V1_def PROMPT_GROUNDED_PROVENANCE_V2_def)

lemma legacy_request:
  assumes "validate_prompt_pair (ex_generation env) = Inr ()" and "\<forall>u \<in> set us. unit_citable u"
  shows "if gn_contract_version (ex_generation env) \<noteq> PROMPT_GROUNDED_V1 \<and>
      (\<exists>u \<in> set us. \<exists>e. document_title names u = Inl e)
    then \<exists>m i d. build_generator_request env query name us (Some names) = Inl (Provenance_Unavailable m i d)
    else \<exists>q. build_generator_request env query name us (Some names) = Inr q"
proof (cases "gn_contract_version (ex_generation env) = PROMPT_GROUNDED_V1")
  case True
  then show ?thesis by (simp add: build_generator_request_def)
next
  case False
  with prompt_pair_contract [OF assms(1)]
  have c: "build_generator_request env query name us (Some names) =
      bind_res (adapt_prompt_evidence (ex_source_names env name) (Some names) us) (\<lambda>es.
        Inr (build_prompt_grounded_provenance_v2 (ex_system_prompt env) (ex_generation env) query es))"
    by (auto simp: build_generator_request_def Let_def contracts_differ)
  show ?thesis
  proof (cases "\<exists>u \<in> set us. \<exists>e. document_title names u = Inl e")
    case True
    then obtain v e0 where "v \<in> set us" "document_title names v = Inl e0" by blast
    from adapt_unavailable [OF this, of "ex_source_names env name"] True False show ?thesis by (auto simp: c)
  next
    case no: False
    then have "\<exists>t. document_title names u = Inr t" if "u \<in> set us" for u
      using that by (cases "document_title names u") auto
    from adapt_titles_ok [OF assms(2) this] no show ?thesis by (auto simp: c)
  qed
qed

lemma gencfg_v1_filled: "trim (build_generation_config_hash sha fr gs) \<noteq> []"
proof -
  have "CHR ''g'' \<in> set (build_generation_config_hash sha fr gs)" "\<not> py_isspace (CHR ''g'')"
    by (simp_all add: build_generation_config_hash_def generation_config_hash_def
        config_hash_with_eq hashed_def py_isspace_def)
  then have "nonblank (build_generation_config_hash sha fr gs)" unfolding nonblank_iff by blast
  then show ?thesis by (rule nonblank_trim)
qed

definition provenance_or_none :: "execute_args \<Rightarrow> context_provenance" where
  "provenance_or_none a = (case ea_provenance a of Some p \<Rightarrow> p | None \<Rightarrow> no_provenance)"

lemma legacy_run:
  assumes "\<forall>u \<in> set (ea_evidence_units a). unit_citable u" and "provenance_filled (provenance_or_none a)"
    and "py_strip (or_str (ea_query a) None) \<noteq> []" and "generator_filled env" and "ea_source_names a = Some names"
    and "validate_prompt_pair (ex_generation env) = Inr ()"
    and "check_run repr fr env (ea_corpus_name a) (ea_check_ready a) (ea_provider_only a) (ea_evidence_units a) = Inr (name, d)"
  shows "\<exists>sent r. execute_v1 sha fr repr env a = (sent, Inr r) \<and> v1_run env names (ea_evidence_units a) sent r"
proof -
  let ?us = "ea_evidence_units a" and ?q = "py_strip (or_str (ea_query a) None)"
  define f where "f = \<lparr>fr_settings = ex_generation env, fr_query = ?q,
    fr_gencfg = build_generation_config_hash sha fr (ex_generation env),
    fr_semantics = build_generation_semantic_payload (ex_generation env),
    fr_provenance = provenance_or_none a, fr_sufficiency = d\<rparr>"
  have "nonblank ?q" using assms(3) by (simp add: nonblank_def)
  then have ok: "frame_ok f" using assms(2) gencfg_v1_filled nonblank_trim by (simp add: frame_ok_def f_def)
  have d: "d = evaluate_sufficiency_policy_v1 ?us" using check_run_sufficient [OF assms(7)] .
  have "or_str (ea_query a) None \<noteq> []" using assms(3) by (auto simp: py_strip_def)
  then have run: "execute_v1 sha fr repr env a = (if ?us = [] then ([], empty_context_result env f False)
     else prompt_and_generate env f (build_generator_request env ?q name ?us (Some names)) (conclude_v1 env f ?us))"
    using assms(3,5)
    unfolding execute_v1_def Let_def assms(7) sum.case prod.case f_def [symmetric] provenance_or_none_def [symmetric]
    by (simp add: d)
  note req = legacy_request [OF assms(6,1), of names ?q name]
  show ?thesis
  proof (cases "?us = []")
    case True
    with empty_total [OF ok, of env False] run show ?thesis by (auto simp: v1_run_def)
  next
    case False
    show ?thesis
    proof (cases "gn_contract_version (ex_generation env) \<noteq> PROMPT_GROUNDED_V1 \<and>
        (\<exists>u \<in> set ?us. \<exists>e. document_title names u = Inl e)")
      case no: True
      with req obtain m i d' where
        "build_generator_request env ?q name ?us (Some names) = Inl (Provenance_Unavailable m i d')" by auto
      with provenance_failed_total [OF ok, of env m i d'] run no False show ?thesis
        by (auto simp: v1_run_def prompt_and_generate_def)
    next
      case yes: False
      with req obtain q where q: "build_generator_request env ?q name ?us (Some names) = Inr q" by auto
      have "\<exists>r. prompt_and_generate env f (build_generator_request env ?q name ?us (Some names))
          (conclude_v1 env f ?us) = ([q], Inr r) \<and> (case ex_generate env q of
            Inl e \<Rightarrow> refusal 1 r \<and> ga_status r = Generation_Failed | Inr response \<Rightarrow> v1_result_of env ?us response r)"
        by (rule generate_outcome [OF ok assms(4) q]) (rule conclude_v1_total [OF ok assms(1)])
      with run yes False show ?thesis unfolding v1_run_def by simp blast
    qed
  qed
qed

lemma run_attempts:
  "v2_run env names us sent r \<Longrightarrow> ga_attempt_count r = length sent"
  "v1_run env names us sent r \<Longrightarrow> ga_attempt_count r = length sent"
  unfolding v2_run_def v1_run_def refusal_def v2_result_of_def v1_result_of_def
  by (auto split: if_splits sum.splits)

subsection \<open>Properties\<close>

text \<open>C28: Both response parsers accept exactly what their contract describes. A response is accepted
  when, without surrounding white space, it is not fenced, \<open>json.loads\<close> reads it as an object with
  exactly the contract's keys, and its content satisfies the contract: an abstention with a reason the
  model may give, or non-blank text with distinct, well-formed, allowed citations. The result carries
  the content unchanged; a refused v2 response has one of three failure reasons.\<close>

theorem response_parsing_exact:
  "(parse_grounded_answer_v1 loads raw = Inr a \<longleftrightarrow>
     opens_plainly raw \<and> (\<exists>j. loads (py_strip raw) = Some j \<and> encodes_v1 j a) \<and> v1_ok a) \<and>
   (parse_grounded_answer_v2 loads allowed raw = Inr r \<longleftrightarrow>
     opens_plainly raw \<and> (\<exists>j. loads (py_strip raw) = Some j \<and> encodes_v2 j r) \<and> v2_ok allowed r) \<and>
   (case parse_grounded_answer_v2 loads allowed raw of
      Inl reason \<Rightarrow> reason \<in> {PARSE_ERROR, SCHEMA_INVALID, CITATION_INVALID} | Inr _ \<Rightarrow> True)"
  using parse_Inl(1) [of loads allowed raw]
  by (simp add: parse_v1_iff parse_v2_iff failure_reasons_def split: sum.split)

text \<open>The public form of an answer loses nothing of its citations. References c1, c2, ... are given to the
  distinct cited evidence ids in order of first use, every reference of a block names the id at the
  same place of the block, and row k of the citations carries reference ck, the id it stands for and
  the excerpt of a unit with that id; no lookup fails.\<close>

theorem public_projection_exact:
  assumes "\<forall>u \<in> set us. unit_clean u"
    and "set (concat (map ab_evidence_unit_ids blocks)) \<subseteq> allowed_evidence_ids us"
  shows "\<exists>pbs ordered rows. assign_public_citation_refs blocks = Inr (pbs, ordered) \<and> distinct ordered \<and>
    set ordered = set (concat (map ab_evidence_unit_ids blocks)) \<and>
    list_all2 (\<lambda>b pb. pb_text pb = ab_text b \<and>
      list_all2 (ref_names ordered) (pb_citation_refs pb) (ab_evidence_unit_ids b)) blocks pbs \<and>
    project_public_citations ordered us = Inr rows \<and> length rows = length ordered \<and>
    (\<forall>k < length ordered. pc_citation_ref (rows ! k) = ref_of (Suc k) \<and>
      pc_evidence_unit_id (rows ! k) = ordered ! k \<and>
      (\<exists>u \<in> set us. eu_evidence_unit_id u = ordered ! k \<and>
         (pc_excerpt (rows ! k), pc_excerpt_clipped (rows ! k)) = build_citation_excerpt (eu_text u)))"
proof -
  let ?o = "first_occ (concat (map ab_evidence_unit_ids blocks))"
  have "list_all2 (ref_names ?o) (map (ref_for ?o) (ab_evidence_unit_ids b)) (ab_evidence_unit_ids b)"
    if "b \<in> set blocks" for b
  proof -
    have "ref_names ?o (ref_for ?o i) i" if "i \<in> set (ab_evidence_unit_ids b)" for i
      using that \<open>b \<in> set blocks\<close> by (intro ref_for_names) auto
    then show ?thesis by (simp add: list_all2_conv_all_nth)
  qed
  then have blocks: "list_all2 (\<lambda>b pb. pb_text pb = ab_text b \<and>
      list_all2 (ref_names ?o) (pb_citation_refs pb) (ab_evidence_unit_ids b)) blocks
    (map (\<lambda>b. \<lparr>pb_text = ab_text b, pb_citation_refs = map (ref_for ?o) (ab_evidence_unit_ids b)\<rparr>) blocks)"
    by (simp add: list_all2_conv_all_nth)
  from assms(2) have "set ?o \<subseteq> allowed_evidence_ids us" by simp
  from project_rows [OF assms(1) this] obtain rows where
    "project_public_citations ?o us = Inr rows \<and> length rows = length ?o \<and>
    (\<forall>k < length ?o. pc_citation_ref (rows ! k) = ref_of (Suc k) \<and> pc_evidence_unit_id (rows ! k) = ?o ! k \<and>
      (\<exists>u \<in> set us. eu_evidence_unit_id u = ?o ! k \<and>
         (pc_excerpt (rows ! k), pc_excerpt_clipped (rows ! k)) = build_citation_excerpt (eu_text u)))" ..
  then show ?thesis
    by (intro exI) (intro conjI, rule assign_refs_total, rule distinct_first_occ, rule set_first_occ,
      rule blocks, blast+)
qed

definition sample_unit :: evidence_unit where
  "sample_unit = \<lparr>eu_evidence_unit_id = ''ev_1'', eu_source_chunk_id = ''chunk-a'', eu_kind = Child_Unit,
     eu_text = ''Annual leave is 25 days.'', eu_clipped = False, eu_token_count = 5,
     eu_primary_anchor_chunk_id = ''chunk-a'', eu_contributing_anchor_chunk_ids = [''chunk-a''],
     eu_document_id = ''doc-1'', eu_parent_chunk_id = None, eu_section_path = [''Leave''],
     eu_page_start = None, eu_page_end = None, eu_line_start = None, eu_line_end = None,
     eu_clip = None, eu_relationship = None, eu_distance = None\<rparr>"

lemma sample_unit_citable: "unit_citable sample_unit" "unit_clean sample_unit"
proof -
  have "is_nonempty_str ''ev_1''" "is_nonempty_str ''chunk-a''" "is_nonempty_str ''doc-1''" "nonblank ''ev_1''"
    by code_simp+
  then show "unit_citable sample_unit" "unit_clean sample_unit"
    by (simp_all add: unit_citable_def unit_clean_def sample_unit_def)
qed

theorem public_projection_exact_witness:
  "\<exists>pbs rows. assign_public_citation_refs [\<lparr>ab_text = ''25 days.'', ab_evidence_unit_ids = [''ev_1'']\<rparr>] =
     Inr (pbs, [''ev_1'']) \<and>
   project_public_citations [''ev_1''] [sample_unit] = Inr rows \<and> length rows = 1"
proof -
  let ?b = "[\<lparr>ab_text = ''25 days.'', ab_evidence_unit_ids = [''ev_1'']\<rparr>]"
  have "\<forall>u \<in> set [sample_unit]. unit_clean u" using sample_unit_citable by simp
  moreover have "set (concat (map ab_evidence_unit_ids ?b)) \<subseteq> allowed_evidence_ids [sample_unit]"
    by (simp add: allowed_evidence_ids_def sample_unit_def)
  moreover have "first_occ (concat (map ab_evidence_unit_ids ?b)) = [''ev_1'']" by code_simp
  ultimately show ?thesis
    using public_projection_exact [of "[sample_unit]" ?b] assign_refs_total [of ?b] by auto
qed

text \<open>A citation excerpt is plain text: nothing of it can be read as a tag, it has no NUL, at most 400
  characters and no character that is not in the unit's text; it says truly whether it was cut; and a
  short text without tags and NULs is quoted as it is.\<close>

theorem excerpt_plain:
  "case build_citation_excerpt s of (excerpt, clipped) \<Rightarrow>
     \<not> has_tag excerpt \<and> CHR 0x00 \<notin> set excerpt \<and> length excerpt \<le> 400 \<and> set excerpt \<subseteq> set s \<and>
     clipped = (400 < length (filter (\<lambda>c. c \<noteq> CHR 0x00) (strip_tags s))) \<and>
     (if has_tag s \<or> CHR 0x00 \<in> set s \<or> 400 < length s then True else excerpt = s \<and> \<not> clipped)"
proof -
  define p where "p = filter (\<lambda>c. c \<noteq> CHR 0x00) (strip_tags s)"
  have tag: "\<not> has_tag p" unfolding p_def by (blast dest: has_tag_filter strip_tags_plain [THEN notE])
  have nul: "CHR 0x00 \<notin> set p" and sub: "set p \<subseteq> set s" by (auto simp: p_def dest: set_strip_tags)
  have same: "p = s" if "\<not> has_tag s" "CHR 0x00 \<notin> set s"
  proof -
    from that(2) have "\<forall>c \<in> set s. c \<noteq> CHR 0x00" by metis
    with strip_tags_id [OF that(1)] show ?thesis by (simp only: p_def filter_True)
  qed
  have "build_citation_excerpt s = (if length p \<le> 400 then (p, False) else (take 400 p, True))"
    by (simp add: build_citation_excerpt_def EXCERPT_MAX_CHARS_def Let_def p_def)
  with tag nul sub same show ?thesis
    unfolding p_def [symmetric] by (auto dest: has_tag_take in_set_takeD)
qed


definition sample_generation :: generation_settings where
  "sample_generation = \<lparr>gn_enabled = True, gn_provider = ''openai_compatible'',
     gn_base_url = ''http://127.0.0.1:11434/v1'', gn_model = ''local'', gn_temperature = 0,
     gn_max_output_tokens = 1200, gn_strategy = ''grounded'', gn_contract_version = ''prompt-grounded-v1''\<rparr>"

definition sample_payload :: json where
  "sample_payload = JObj [(''abstain'', JBool False), (''blocks'', JList [JObj
     [(''text'', JStr ''25 days.''), (''evidence_handles'', JList [JStr ''E1''])]]),
     (''abstention_reason'', JNull)]"

definition sample_executor :: executor_env where
  "sample_executor = \<lparr>ex_generation = sample_generation,
     ex_abstention = \<lparr>ab_enabled = True, ab_policy = SUFFICIENCY_POLICY_V1, ab_threshold = None\<rparr>,
     ex_ready = (\<lambda>_ _. Inr ()), ex_generate = (\<lambda>_. Inr \<lparr>gr_content = ''{..}'', gr_usage = []\<rparr>),
     ex_loads = (\<lambda>_. Some sample_payload), ex_source_names = (\<lambda>_. Inr []), ex_system_prompt = id,
     ex_durations = \<lparr>du_exec = 0, du_prompt = 1, du_generation = 2, du_validation = 3\<rparr>\<rparr>"

definition sample_execute :: execute_args where
  "sample_execute = \<lparr>ea_query = None, ea_corpus_name = ''default'', ea_evidence_units = [sample_unit],
     ea_provenance = None, ea_check_ready = True, ea_provider_only = False,
     ea_source_names = Some [(''doc-1'', ''Staff Guide.pdf'')],
     ea_retrieval_question = Some ''How much leave?'', ea_answer_intent = Some ''How much leave?'',
     ea_product_v2 = True\<rparr>"

lemma sample_parsed:
  "v2_parsed sample_executor [sample_unit] \<lparr>gr_content = ''{..}'', gr_usage = []\<rparr> =
     Inr \<lparr>v2_abstain = False, v2_blocks = [\<lparr>vb_text = ''25 days.'', vb_evidence_handles = [''E1'']\<rparr>],
       v2_abstention_reason = None\<rparr>"
  by code_simp

lemma sample_titles: "document_title [(''doc-1'', ''Staff Guide.pdf'')] sample_unit = Inr ''Staff Guide''"
  by code_simp

lemma sample_checks:
  "check_run id sample_float_repr sample_executor ''default'' True False [sample_unit] =
     Inr (''default'', evaluate_sufficiency_policy_v1 [sample_unit])"
  "generator_filled sample_executor" "validate_prompt_pair (ex_generation sample_executor) = Inr ()"
  "py_strip ''How much leave?'' \<noteq> []"
proof -
  have "validate_corpus_name ''default'' = Inr ''default''" by code_simp
  then show "check_run id sample_float_repr sample_executor ''default'' True False [sample_unit] =
     Inr (''default'', evaluate_sufficiency_policy_v1 [sample_unit])"
    by (simp add: check_run_def sample_executor_def sample_generation_def try_map_def
        evaluate_runtime_sufficiency_def require_runtime_sufficiency_policy_def)
  show "generator_filled sample_executor" by (simp add: generator_filled_def sample_executor_def)
  show "validate_prompt_pair (ex_generation sample_executor) = Inr ()"
    by (simp add: sample_executor_def sample_generation_def validate_prompt_pair_def)
  show "py_strip ''How much leave?'' \<noteq> []" by code_simp
qed


text \<open>C30: The product prompt shows the evidence as it is. When every unit's document has a title, the user
  message holds the current and the resolved question and, in context order, each unit under its own
  handle E1, E2, ... with its document's title, section path and unchanged text; the handle shown above
  a unit is the one citations of it are resolved by. Otherwise no prompt is built and the error names a
  unit whose document has no title.\<close>

theorem product_prompt_exact:
  assumes "\<forall>u \<in> set us. unit_citable u" and "distinct (map eu_evidence_unit_id us)"
  shows "if \<exists>u \<in> set us. \<exists>e. document_title names u = Inl e
    then \<exists>m. \<exists>u \<in> set us. build_product_request env ai rq name us (Some names) =
        Inl (Provenance_Unavailable m (Some (eu_evidence_unit_id u)) (Some (eu_document_id u))) \<and>
      (\<exists>e. document_title names u = Inl e)
    else (\<exists>q. build_product_request env ai rq name us (Some names) = Inr q \<and>
      map cm_content (gq_messages q) = [ex_system_prompt env GROUNDED_ANSWER_V2, user_content_v2 ai rq
        (map (\<lambda>(k, u). render_handle_unit (handle_of k) (evidence_of names u)) (enum1 us))] \<and>
      (\<forall>k < length us. map_of (fst (assign_evidence_handles us)) (handle_of (Suc k)) =
        Some (eu_evidence_unit_id (us ! k))))"
proof (cases "\<exists>u \<in> set us. \<exists>e. document_title names u = Inl e")
  case True
  then obtain v e0 where "v \<in> set us" "document_title names v = Inl e0" by blast
  from product_request_unavailable [OF this, of env ai rq name] True show ?thesis by simp
next
  case False
  then have t: "\<exists>t. document_title names u = Inr t" if "u \<in> set us" for u
    using that by (cases "document_title names u") auto
  let ?h = "id_to_handle (fst (assign_evidence_handles us))"
  have "map (rendered_unit ?h names) us =
      map (\<lambda>(k, u). render_handle_unit (handle_of k) (evidence_of names u)) (enum1 us)"
    using id_to_handle_distinct [OF assms(2)] by (intro nth_equalityI) (auto simp: rendered_unit_def enum1_nth)
  moreover have "map_of (fst (assign_evidence_handles us)) (handle_of (Suc k)) = Some (eu_evidence_unit_id (us ! k))"
    if "k < length us" for k using that by (auto simp: handle_lookup)
  ultimately show ?thesis using False product_request_ok [OF assms(1) t] by (simp add: request_of_def)
qed

lemma ex_system_prompt_sample: "ex_system_prompt sample_executor = id"
  by (simp add: sample_executor_def)

theorem product_prompt_exact_witness:
  "\<exists>q. build_product_request sample_executor ''How much?'' ''How much leave?'' ''default'' [sample_unit]
      (Some [(''doc-1'', ''Staff Guide.pdf'')]) = Inr q \<and>
   map cm_content (gq_messages q) = [GROUNDED_ANSWER_V2, user_content_v2 ''How much?'' ''How much leave?''
     [render_handle_unit ''E1'' (evidence_of [(''doc-1'', ''Staff Guide.pdf'')] sample_unit)]]"
proof -
  have h: "handle_of 1 = ''E1''" "enum1 [sample_unit] = [(1, sample_unit)]"
    by code_simp (simp add: enum1_def)
  have "\<forall>u \<in> set [sample_unit]. unit_citable u" "distinct (map eu_evidence_unit_id [sample_unit])"
    using sample_unit_citable by simp_all
  from product_prompt_exact [OF this, of "[(''doc-1'', ''Staff Guide.pdf'')]" sample_executor
      "''How much?''" "''How much leave?''" "''default''"]
  show ?thesis
    using h by (auto simp: sample_titles ex_system_prompt_sample simp del: One_nat_def)
qed

end
