(* ===== verification/Event_Protocol.thy ===== *)
theory Event_Protocol
  imports OR_Prelude
begin

section \<open>Interface: a fail-closed event protocol\<close>

text \<open>
  The contract shared by the state machines of the program: a step function that either
  rejects an event or returns the next state, a validity predicate every accepted step keeps,
  terminal states that reject everything, and a rank that every accepted step lowers. The
  lemmas about whole event sequences are proved once, here, and interpreted for the recovery
  protocol and for the life cycle of ingest operations.
\<close>

text \<open>Apply a sequence of events, stopping at the first rejection.\<close>

fun run_events :: "('s \<Rightarrow> 'e \<Rightarrow> 'x + 's) \<Rightarrow> 's \<Rightarrow> 'e list \<Rightarrow> 'x + 's" where
  "run_events step s [] = Inr s"
| "run_events step s (e # es) = bind_res (step s e) (\<lambda>s'. run_events step s' es)"

lemma run_events_append:
  "run_events step s (xs @ ys) = bind_res (run_events step s xs) (\<lambda>s'. run_events step s' ys)"
proof (induction xs arbitrary: s)
  case (Cons x xs)
  then show ?case by (cases "step s x") simp_all
qed simp

locale fail_closed_machine =
  fixes step :: "'s \<Rightarrow> 'e \<Rightarrow> 'x + 's"
    and valid :: "'s \<Rightarrow> bool"
    and terminal :: "'s \<Rightarrow> bool"
    and rank :: "'s \<Rightarrow> nat"
  assumes step_valid: "valid s \<Longrightarrow> step s e = Inr s' \<Longrightarrow> valid s'"
    and terminal_rejects: "valid s \<Longrightarrow> terminal s \<Longrightarrow> \<exists>x. step s e = Inl x"
    and step_rank: "valid s \<Longrightarrow> step s e = Inr s' \<Longrightarrow> rank s' < rank s"
begin

lemma run_valid: "valid s \<Longrightarrow> run_events step s es = Inr s' \<Longrightarrow> valid s'"
  by (induction es arbitrary: s) (auto simp: bind_res_Inr_iff dest: step_valid)

lemma run_rank: "valid s \<Longrightarrow> run_events step s es = Inr s' \<Longrightarrow> rank s' + length es \<le> rank s"
proof (induction es arbitrary: s)
  case (Cons e es)
  then obtain t where t: "step s e = Inr t" and r: "run_events step t es = Inr s'"
    by (auto simp: bind_res_Inr_iff)
  from t Cons.prems(1) have "valid t" and "rank t < rank s"
    by (auto intro: step_valid step_rank)
  moreover from Cons.IH [OF \<open>valid t\<close> r] have "rank s' + length es \<le> rank t" .
  ultimately show ?case by simp
qed simp

lemma run_bounded: "valid s \<Longrightarrow> run_events step s es = Inr s' \<Longrightarrow> length es \<le> rank s"
  using run_rank by fastforce

lemma terminal_run:
  assumes "valid s" and "terminal s" and "run_events step s es = Inr s'"
  shows "es = [] \<and> s' = s"
proof (cases es)
  case (Cons e rest)
  from assms(1,2) obtain x where "step s e = Inl x" using terminal_rejects by blast
  with assms(3) Cons show ?thesis by simp
qed (use assms in simp)

lemma terminal_only_last:
  assumes "valid s" and "run_events step s (xs @ ys) = Inr s'" and "run_events step s xs = Inr t"
    and "terminal t"
  shows "ys = [] \<and> s' = t"
proof -
  from assms(2,3) have "run_events step t ys = Inr s'" by (simp add: run_events_append)
  moreover from assms(1,3) have "valid t" by (rule run_valid)
  ultimately show ?thesis using assms(4) by (blast dest: terminal_run)
qed

end

end
