(* ===== verification/Recovery_Protocol.thy ===== *)
theory Recovery_Protocol
  imports Recovery_Contracts Event_Protocol
begin

section \<open>The recovery protocol (recovery/protocol.py, recovery/replay.py)\<close>

text \<open>
  The fail-closed validator of recovery states, the four event handlers of
  \<open>apply_recovery_event\<close>, and event replay. Every \<open>_fail\<close> of the source is a branch with its
  code, message and details. Python's \<open>assert\<close> statements after the required-field checks are
  the patterns of the \<open>case\<close> expressions (the check before them makes the field present).
\<close>

definition protocol_fail ::
    "recovery_error_code \<Rightarrow> string \<Rightarrow> string option \<Rightarrow> detail \<Rightarrow> detail \<Rightarrow> recovery_exc + 'a" where
  "protocol_fail code msg fld expd act =
     Inl (Protocol_Error code msg \<lparr>err_field_name = fld, err_expected = expd, err_actual = act\<rparr>)"

lemma protocol_fail_neq [simp]:
  "protocol_fail c m f x a \<noteq> Inr v"
  "protocol_fail c m f x a = Inl e \<longleftrightarrow>
     e = Protocol_Error c m \<lparr>err_field_name = f, err_expected = x, err_actual = a\<rparr>"
  by (auto simp: protocol_fail_def)

subsection \<open>Validation\<close>

definition validate_sufficiency_ref :: "sufficiency_ref \<Rightarrow> recovery_exc + unit" where
  "validate_sufficiency_ref r =
     (if policy_contract r \<noteq> SUFFICIENCY_POLICY_V1 then
        protocol_fail INCONSISTENT_SUFFICIENCY
          ''recovery sufficiency policy_contract must be sufficiency-v1''
          (Some ''policy_contract'') (DStr SUFFICIENCY_POLICY_V1) (DStr (policy_contract r))
      else if policy_version r \<noteq> RECOVERY_POLICY_VERSION_V1 then
        protocol_fail INCONSISTENT_SUFFICIENCY
          ''recovery sufficiency policy_version must be v1''
          (Some ''policy_version'') (DStr RECOVERY_POLICY_VERSION_V1) (DStr (policy_version r))
      else if sufficient r then
        (if empty_context r then
           protocol_fail INCONSISTENT_SUFFICIENCY
             ''sufficient=true requires empty_context=false''
             (Some ''empty_context'') (DBool False) (DBool True)
         else if evidence_unit_count r \<le> 0 then
           protocol_fail INCONSISTENT_SUFFICIENCY
             ''sufficient=true requires evidence_unit_count > 0''
             (Some ''evidence_unit_count'') DNone (DNum (int (evidence_unit_count r)))
         else if triggered_gates r \<noteq> [] then
           protocol_fail INCONSISTENT_SUFFICIENCY
             ''sufficient=true requires triggered_gates == []''
             (Some ''triggered_gates'') DNone DNone
         else Inr ())
      else if \<not> empty_context r then
        protocol_fail INCONSISTENT_SUFFICIENCY
          ''sufficient=false requires empty_context=true''
          (Some ''empty_context'') (DBool True) (DBool False)
      else if evidence_unit_count r \<noteq> 0 then
        protocol_fail INCONSISTENT_SUFFICIENCY
          ''sufficient=false requires evidence_unit_count == 0''
          (Some ''evidence_unit_count'') (DNum 0) (DNum (int (evidence_unit_count r)))
      else if triggered_gates r \<noteq> [EMPTY_CONTEXT_GATE_V1] then
        protocol_fail INCONSISTENT_SUFFICIENCY
          ''sufficient=false requires triggered_gates == [empty_context_v1]''
          (Some ''triggered_gates'') (DStr EMPTY_CONTEXT_GATE_V1) DNone
      else Inr ())"

text \<open>The loop of \<open>_validate_attempts\<close>: \<open>seen\<close> and \<open>index\<close> are the loop variables.\<close>

fun validate_attempts_loop ::
    "string \<Rightarrow> nat list \<Rightarrow> nat \<Rightarrow> recovery_attempt list \<Rightarrow> recovery_exc + unit" where
  "validate_attempts_loop original seen index [] = Inr ()"
| "validate_attempts_loop original seen index (attempt # rest) =
     (if attempt_number attempt \<in> set seen then
        protocol_fail DUPLICATE_ATTEMPT
          (''duplicate attempt_number '' @ str_nat (attempt_number attempt))
          (Some ''attempts.attempt_number'') DNone (DNum (int (attempt_number attempt)))
      else if attempt_number attempt \<noteq> index then
        protocol_fail NON_CONTIGUOUS_ATTEMPTS
          ''attempt numbers must be contiguous from 0''
          (Some ''attempts.attempt_number'') (DNum (int index))
          (DNum (int (attempt_number attempt)))
      else if attempt_number attempt > MAX_ATTEMPT_NUMBER_V1 then
        protocol_fail SECOND_RECOVERY_ATTEMPT
          ''attempt number exceeds one-retry contract''
          (Some ''attempts.attempt_number'') DNone (DNum (int (attempt_number attempt)))
      else
        (let expected_role = (if attempt_number attempt = 0 then INITIAL else RECOVERY) in
         if attempt_role attempt \<noteq> expected_role then
           protocol_fail INVALID_ATTEMPT_ROLE
             ''attempt role does not match attempt number''
             (Some ''attempts.attempt_role'') (DStr (role_value expected_role))
             (DStr (role_value (attempt_role attempt)))
         else if attempt_number attempt = 0 \<and> attempt_query attempt \<noteq> original then
           protocol_fail ACTIVE_QUERY_MUTATION
             ''attempt 0 active_retrieval_query must equal original_query''
             (Some ''attempts.active_retrieval_query'') DNone DNone
         else
           validate_attempts_loop original (attempt_number attempt # seen) (Suc index) rest))"

definition validate_attempts :: "recovery_state \<Rightarrow> recovery_exc + unit" where
  "validate_attempts s =
     bind_res (validate_attempts_loop (original_query s) [] 0 (attempts s)) (\<lambda>_.
       case current_sufficiency s of
         Some cur \<Rightarrow>
           (if attempts s \<noteq> [] \<and> phase s \<noteq> AWAITING_INITIAL_SUFFICIENCY \<and>
               cur \<noteq> attempt_sufficiency (last (attempts s)) then
              protocol_fail INCONSISTENT_SUFFICIENCY
                ''current_sufficiency must match latest attempt record''
                (Some ''current_sufficiency'') DNone DNone
            else Inr ())
       | None \<Rightarrow> Inr ())"

text \<open>\<open>_sufficiency_equal\<close>: identity for \<open>None\<close>, equality of the JSON dumps otherwise.\<close>

fun sufficiency_equal :: "sufficiency_ref option \<Rightarrow> sufficiency_ref option \<Rightarrow> bool" where
  "sufficiency_equal (Some l) (Some r) = (l = r)"
| "sufficiency_equal None None = True"
| "sufficiency_equal _ _ = False"

lemma sufficiency_equal_eq [simp]: "sufficiency_equal a b \<longleftrightarrow> a = b"
  by (cases a; cases b) simp_all

definition validate_two_attempt_recovery_terminal ::
    "recovery_state \<Rightarrow> bool \<Rightarrow> string \<Rightarrow> recovery_exc + unit" where
  "validate_two_attempt_recovery_terminal s attempt1_must_be_sufficient outcome_label =
     (if failure_reason s \<noteq> None then
        protocol_fail INCONSISTENT_TERMINAL (outcome_label @ '' forbids failure_reason'')
          (Some ''failure_reason'') DNone DNone
      else (case attempts s of
        [attempt0, attempt1] \<Rightarrow>
          (if attempt_number attempt0 \<noteq> 0 \<or> attempt_role attempt0 \<noteq> INITIAL \<or>
              sufficient (attempt_sufficiency attempt0) then
             protocol_fail INCONSISTENT_TERMINAL
               (outcome_label @ '' requires insufficient attempt 0/initial'') None DNone DNone
           else if attempt_number attempt1 \<noteq> 1 \<or> attempt_role attempt1 \<noteq> RECOVERY then
             protocol_fail INCONSISTENT_TERMINAL
               (outcome_label @ '' requires attempt 1/recovery'') None DNone DNone
           else if sufficient (attempt_sufficiency attempt1) \<noteq> attempt1_must_be_sufficient then
             protocol_fail INCONSISTENT_TERMINAL
               (outcome_label @ '' requires attempt 1 sufficient='' @
                  (if attempt1_must_be_sufficient then ''True'' else ''False''))
               (Some ''attempts[1].sufficiency.sufficient'') (DBool attempt1_must_be_sufficient)
               (DBool (sufficient (attempt_sufficiency attempt1)))
           else if current_attempt_number s \<noteq> 1 \<or> current_attempt_role s \<noteq> RECOVERY then
             protocol_fail INCONSISTENT_TERMINAL
               (outcome_label @ '' requires current attempt 1/recovery'') None DNone DNone
           else if active_retrieval_query s \<noteq> attempt_query attempt1 then
             protocol_fail INCONSISTENT_TERMINAL
               (outcome_label @ '' requires active query == attempt 1 query'')
               (Some ''active_retrieval_query'') DNone DNone
           else if \<not> sufficiency_equal (current_sufficiency s) (Some (attempt_sufficiency attempt1)) then
             protocol_fail INCONSISTENT_TERMINAL
               (outcome_label @ '' requires current_sufficiency == attempt 1'')
               (Some ''current_sufficiency'') DNone DNone
           else Inr ())
      | _ \<Rightarrow>
          protocol_fail INCONSISTENT_TERMINAL
            (outcome_label @ '' requires exactly two attempts'')
            (Some ''attempts'') (DNum 2) (DNum (int (length (attempts s))))))"

definition validate_failure_terminal :: "recovery_state \<Rightarrow> recovery_exc + unit" where
  "validate_failure_terminal s =
     (case failure_reason s of
        None \<Rightarrow>
          protocol_fail INVALID_STATE ''recovery failure terminal requires failure_reason''
            (Some ''failure_reason'') DNone DNone
      | Some reason \<Rightarrow>
          (if reason = PROTOCOL_VIOLATION then
             protocol_fail INCONSISTENT_TERMINAL
               ''protocol_violation is not a valid normal failure terminal reason''
               (Some ''failure_reason'') DNone DNone
           else if length (attempts s) \<noteq> 1 \<or> sufficient (attempt_sufficiency (attempts s ! 0)) then
             protocol_fail RECOVERY_WITHOUT_INITIAL_INSUFFICIENCY
               ''recovery failure terminal requires exactly one insufficient initial attempt''
               None DNone DNone
           else if \<not> sufficiency_equal (current_sufficiency s)
                       (Some (attempt_sufficiency (attempts s ! 0))) then
             protocol_fail INCONSISTENT_TERMINAL
               ''recovery failure terminal requires current_sufficiency == attempt 0''
               (Some ''current_sufficiency'') DNone DNone
           else if reason = REWRITE_PREPARATION_FAILED then
             (if current_attempt_number s \<noteq> 0 \<or> current_attempt_role s \<noteq> INITIAL then
                protocol_fail INCONSISTENT_TERMINAL
                  ''rewrite_preparation_failed requires current attempt 0/initial'' None DNone DNone
              else if active_retrieval_query s \<noteq> original_query s then
                protocol_fail INCONSISTENT_TERMINAL
                  ''rewrite_preparation_failed requires active query == original''
                  (Some ''active_retrieval_query'') DNone DNone
              else Inr ())
           else
             (if current_attempt_number s \<noteq> 1 \<or> current_attempt_role s \<noteq> RECOVERY then
                protocol_fail INCONSISTENT_TERMINAL
                  ''recovery_execution_failed requires current attempt 1/recovery'' None DNone DNone
              else Inr ())))"

definition validate_initial_sufficient_terminal :: "recovery_state \<Rightarrow> recovery_exc + unit" where
  "validate_initial_sufficient_terminal s =
     (if failure_reason s \<noteq> None then
        protocol_fail INCONSISTENT_TERMINAL ''initial_evidence_sufficient forbids failure_reason''
          (Some ''failure_reason'') DNone DNone
      else if length (attempts s) \<noteq> 1 then
        protocol_fail INCONSISTENT_TERMINAL
          ''initial_evidence_sufficient requires exactly one attempt''
          (Some ''attempts'') (DNum 1) (DNum (int (length (attempts s))))
      else
        (let attempt0 = attempts s ! 0 in
         if attempt_number attempt0 \<noteq> 0 \<or> attempt_role attempt0 \<noteq> INITIAL then
           protocol_fail INCONSISTENT_TERMINAL
             ''initial_evidence_sufficient requires attempt 0/initial'' None DNone DNone
         else if \<not> sufficient (attempt_sufficiency attempt0) then
           protocol_fail INCONSISTENT_TERMINAL
             ''initial_evidence_sufficient requires sufficient attempt 0''
             (Some ''attempts[0].sufficiency.sufficient'') (DBool True) (DBool False)
         else if current_attempt_number s \<noteq> 0 \<or> current_attempt_role s \<noteq> INITIAL then
           protocol_fail INCONSISTENT_TERMINAL
             ''initial_evidence_sufficient requires current attempt 0/initial'' None DNone DNone
         else if active_retrieval_query s \<noteq> original_query s then
           protocol_fail INCONSISTENT_TERMINAL
             ''initial_evidence_sufficient requires active query == original''
             (Some ''active_retrieval_query'') DNone DNone
         else if \<not> sufficiency_equal (current_sufficiency s) (Some (attempt_sufficiency attempt0)) then
           protocol_fail INCONSISTENT_TERMINAL
             ''initial_evidence_sufficient requires current_sufficiency == attempt 0''
             (Some ''current_sufficiency'') DNone DNone
         else Inr ()))"

definition validate_terminal_state :: "recovery_state \<Rightarrow> recovery_exc + unit" where
  "validate_terminal_state s =
     (case terminal_outcome s of
        None \<Rightarrow>
          protocol_fail INVALID_STATE ''terminal phase requires terminal_outcome''
            (Some ''terminal_outcome'') DNone DNone
      | Some INITIAL_EVIDENCE_SUFFICIENT \<Rightarrow> validate_initial_sufficient_terminal s
      | Some RECOVERED_EVIDENCE_SUFFICIENT \<Rightarrow>
          validate_two_attempt_recovery_terminal s True ''recovered_evidence_sufficient''
      | Some INSUFFICIENT_AFTER_BOUNDED_RECOVERY \<Rightarrow>
          validate_two_attempt_recovery_terminal s False ''insufficient_after_bounded_recovery''
      | Some RECOVERY_PREPARATION_OR_EXECUTION_FAILED \<Rightarrow> validate_failure_terminal s)"

definition validate_phase_consistency :: "recovery_state \<Rightarrow> recovery_exc + unit" where
  "validate_phase_consistency s =
     (if phase s = TERMINAL then validate_terminal_state s
      else if terminal_outcome s \<noteq> None \<or> failure_reason s \<noteq> None then
        protocol_fail INVALID_STATE
          ''non-terminal phase must not carry terminal_outcome/failure_reason''
          (Some ''phase'') DNone (DStr (phase_value (phase s)))
      else if phase s = AWAITING_INITIAL_SUFFICIENCY then
        (if attempts s \<noteq> [] then
           protocol_fail INVALID_STATE ''awaiting_initial_sufficiency must have empty attempts''
             (Some ''attempts'') DNone DNone
         else if active_retrieval_query s \<noteq> original_query s then
           protocol_fail ACTIVE_QUERY_MUTATION
             ''active_retrieval_query must equal original_query before recovery''
             (Some ''active_retrieval_query'') DNone DNone
         else if current_attempt_number s \<noteq> 0 \<or> current_attempt_role s \<noteq> INITIAL then
           protocol_fail INVALID_ATTEMPT_NUMBER
             ''awaiting initial sufficiency requires attempt 0/initial'' None DNone DNone
         else Inr ())
      else if phase s = RECOVERY_ELIGIBLE then
        (if length (attempts s) \<noteq> 1 \<or> sufficient (attempt_sufficiency (attempts s ! 0)) then
           protocol_fail RECOVERY_WITHOUT_INITIAL_INSUFFICIENCY
             ''recovery_eligible requires exactly one insufficient initial attempt'' None DNone DNone
         else if active_retrieval_query s \<noteq> original_query s then
           protocol_fail ACTIVE_QUERY_MUTATION
             ''active_retrieval_query may change only via prepare_recovery_query''
             (Some ''active_retrieval_query'') DNone DNone
         else if current_attempt_number s \<noteq> 0 \<or> current_attempt_role s \<noteq> INITIAL then
           protocol_fail INVALID_ATTEMPT_NUMBER
             ''recovery_eligible requires attempt 0/initial until prepare'' None DNone DNone
         else Inr ())
      else
        (if length (attempts s) \<noteq> 1 \<or> sufficient (attempt_sufficiency (attempts s ! 0)) then
           protocol_fail RECOVERY_WITHOUT_INITIAL_INSUFFICIENCY
             ''recovery preparation requires insufficient initial attempt'' None DNone DNone
         else if current_attempt_number s \<noteq> 1 \<or> current_attempt_role s \<noteq> RECOVERY then
           protocol_fail INVALID_ATTEMPT_NUMBER
             ''prepared recovery requires current attempt 1/recovery'' None DNone DNone
         else Inr ()))"

definition validate_recovery_state :: "recovery_state \<Rightarrow> recovery_exc + unit" where
  "validate_recovery_state s =
     (if schema_version s \<noteq> ''recovery-state-v1'' then
        protocol_fail INVALID_STATE ''unsupported recovery schema_version''
          (Some ''schema_version'') DNone (DStr (schema_version s))
      else if protocol_contract s \<noteq> ''recovery-protocol-v1'' then
        protocol_fail INVALID_STATE ''unsupported recovery protocol_contract''
          (Some ''protocol_contract'') DNone (DStr (protocol_contract s))
      else if max_retries s \<noteq> 1 then
        protocol_fail INVALID_STATE ''max_retries must be 1 under the one-retry contract''
          (Some ''max_retries'') (DNum 1) (DNum (int (max_retries s)))
      else if current_attempt_number s > MAX_ATTEMPT_NUMBER_V1 then
        protocol_fail SECOND_RECOVERY_ATTEMPT ''attempt number exceeds one-retry contract''
          (Some ''current_attempt_number'') DNone (DNum (int (current_attempt_number s)))
      else
        bind_res (for_each (\<lambda>a. validate_sufficiency_ref (attempt_sufficiency a)) (attempts s)) (\<lambda>_.
        bind_res (case current_sufficiency s of
                    Some cur \<Rightarrow> validate_sufficiency_ref cur | None \<Rightarrow> Inr ()) (\<lambda>_.
        bind_res (validate_attempts s) (\<lambda>_.
        validate_phase_consistency s))))"

subsection \<open>Construction of the initial state\<close>

definition build_initial_recovery_state ::
    "string \<Rightarrow> string option \<Rightarrow> recovery_exc + recovery_state" where
  "build_initial_recovery_state query cid =
     bind_res (case cid of None \<Rightarrow> Inr () | Some c \<Rightarrow> bind_res (exact_nonblank_str c) (\<lambda>_. Inr ())) (\<lambda>_.
     bind_res (exact_nonblank_str query) (\<lambda>q.
       let state = \<lparr>schema_version = RECOVERY_STATE_V1, protocol_contract = RECOVERY_PROTOCOL_V1,
                    case_id = cid, original_query = q, active_retrieval_query = q,
                    current_attempt_number = 0, current_attempt_role = INITIAL,
                    max_retries = MAX_RECOVERY_RETRIES_V1, phase = AWAITING_INITIAL_SUFFICIENCY,
                    attempts = [], current_sufficiency = None, terminal_outcome = None,
                    failure_reason = None\<rparr>
       in bind_res (validate_recovery_state state) (\<lambda>_. Inr state)))"

subsection \<open>Event handlers\<close>

definition require_event_fields ::
    "recovery_event \<Rightarrow> bool \<Rightarrow> bool \<Rightarrow> bool \<Rightarrow> bool \<Rightarrow> recovery_exc + unit" where
  "require_event_fields e require_sufficiency allow_diagnostics require_prepared_query
       require_failure_reason =
     bind_res
       (if require_sufficiency then
          (case ev_sufficiency e of
             None \<Rightarrow> protocol_fail INVALID_EVENT (kind_value (ev_kind e) @ '' requires sufficiency'')
                       (Some ''sufficiency'') DNone DNone
           | Some r \<Rightarrow> validate_sufficiency_ref r)
        else if ev_sufficiency e \<noteq> None then
          protocol_fail INVALID_EVENT (kind_value (ev_kind e) @ '' forbids sufficiency'')
            (Some ''sufficiency'') DNone DNone
        else Inr ()) (\<lambda>_.
     bind_res
       (if allow_diagnostics then Inr ()
        else if ev_diagnostics e \<noteq> None then
          protocol_fail INVALID_EVENT (kind_value (ev_kind e) @ '' forbids diagnostics'')
            (Some ''diagnostics'') DNone DNone
        else Inr ()) (\<lambda>_.
     bind_res
       (if require_prepared_query then
          (if ev_prepared_query e = None then
             protocol_fail INVALID_EVENT
               (kind_value (ev_kind e) @ '' requires prepared_retrieval_query'')
               (Some ''prepared_retrieval_query'') DNone DNone
           else Inr ())
        else if ev_prepared_query e \<noteq> None then
          protocol_fail INVALID_EVENT
            (kind_value (ev_kind e) @ '' forbids prepared_retrieval_query'')
            (Some ''prepared_retrieval_query'') DNone DNone
        else Inr ()) (\<lambda>_.
     (if require_failure_reason then
        (if ev_failure_reason e = None then
           protocol_fail INVALID_EVENT (kind_value (ev_kind e) @ '' requires failure_reason'')
             (Some ''failure_reason'') DNone DNone
         else Inr ())
      else if ev_failure_reason e \<noteq> None then
        protocol_fail INVALID_EVENT (kind_value (ev_kind e) @ '' forbids failure_reason'')
          (Some ''failure_reason'') DNone DNone
      else Inr ()))))"

definition validated :: "recovery_state \<Rightarrow> recovery_exc + recovery_state" where
  "validated s = bind_res (validate_recovery_state s) (\<lambda>_. Inr s)"

lemma validated_iff [simp]: "validated s = Inr t \<longleftrightarrow> validate_recovery_state s = Inr () \<and> t = s"
  by (auto simp: validated_def bind_res_Inr_iff)

definition apply_initial_sufficiency ::
    "recovery_state \<Rightarrow> recovery_event \<Rightarrow> recovery_exc + recovery_state" where
  "apply_initial_sufficiency s e =
     (if phase s \<noteq> AWAITING_INITIAL_SUFFICIENCY then
        protocol_fail INVALID_TRANSITION
          ''record_initial_sufficiency only valid from awaiting_initial_sufficiency''
          (Some ''phase'') DNone (DStr (phase_value (phase s)))
      else
        bind_res (require_event_fields e True True False False) (\<lambda>_.
        case ev_sufficiency e of
          None \<Rightarrow> Inl (Validation_Error ''assert event.sufficiency is not None'')
        | Some r \<Rightarrow>
            bind_res (mk_attempt 0 INITIAL (original_query s) r (ev_diagnostics e)) (\<lambda>attempt.
              if sufficient r then
                validated (s\<lparr>attempts := [attempt], current_sufficiency := Some r,
                  current_attempt_number := 0, current_attempt_role := INITIAL,
                  active_retrieval_query := original_query s, phase := TERMINAL,
                  terminal_outcome := Some INITIAL_EVIDENCE_SUFFICIENT, failure_reason := None\<rparr>)
              else
                validated (s\<lparr>attempts := [attempt], current_sufficiency := Some r,
                  current_attempt_number := 0, current_attempt_role := INITIAL,
                  active_retrieval_query := original_query s, phase := RECOVERY_ELIGIBLE,
                  terminal_outcome := None, failure_reason := None\<rparr>))))"

definition apply_prepare_recovery_query ::
    "recovery_state \<Rightarrow> recovery_event \<Rightarrow> recovery_exc + recovery_state" where
  "apply_prepare_recovery_query s e =
     (if phase s \<noteq> RECOVERY_ELIGIBLE then
        protocol_fail INVALID_TRANSITION
          ''prepare_recovery_query only valid from recovery_eligible''
          (Some ''phase'') DNone (DStr (phase_value (phase s)))
      else
        bind_res (require_event_fields e False False True False) (\<lambda>_.
        case ev_prepared_query e of
          None \<Rightarrow> Inl (Validation_Error ''assert event.prepared_retrieval_query is not None'')
        | Some q \<Rightarrow>
            validated (s\<lparr>active_retrieval_query := q, current_attempt_number := 1,
              current_attempt_role := RECOVERY, phase := RECOVERY_ATTEMPT_PENDING\<rparr>)))"

definition apply_recovery_sufficiency ::
    "recovery_state \<Rightarrow> recovery_event \<Rightarrow> recovery_exc + recovery_state" where
  "apply_recovery_sufficiency s e =
     (if phase s \<noteq> RECOVERY_ATTEMPT_PENDING then
        protocol_fail INVALID_TRANSITION
          ''record_recovery_sufficiency only valid from recovery_attempt_pending''
          (Some ''phase'') DNone (DStr (phase_value (phase s)))
      else
        bind_res (require_event_fields e True True False False) (\<lambda>_.
        case ev_sufficiency e of
          None \<Rightarrow> Inl (Validation_Error ''assert event.sufficiency is not None'')
        | Some r \<Rightarrow>
            if length (attempts s) \<noteq> 1 then
              protocol_fail INVALID_STATE
                ''recovery sufficiency requires exactly one prior attempt'' None DNone DNone
            else
              bind_res (mk_attempt 1 RECOVERY (active_retrieval_query s) r (ev_diagnostics e)) (\<lambda>attempt.
                let outcome = (if sufficient r then RECOVERED_EVIDENCE_SUFFICIENT
                               else INSUFFICIENT_AFTER_BOUNDED_RECOVERY)
                in validated (s\<lparr>attempts := attempts s @ [attempt], current_sufficiency := Some r,
                     current_attempt_number := 1, current_attempt_role := RECOVERY,
                     phase := TERMINAL, terminal_outcome := Some outcome,
                     failure_reason := None\<rparr>))))"

definition apply_fail_recovery ::
    "recovery_state \<Rightarrow> recovery_event \<Rightarrow> recovery_exc + recovery_state" where
  "apply_fail_recovery s e =
     (if phase s \<notin> {RECOVERY_ELIGIBLE, RECOVERY_ATTEMPT_PENDING} then
        protocol_fail INVALID_TRANSITION ''fail_recovery only valid after initial insufficiency''
          (Some ''phase'') DNone (DStr (phase_value (phase s)))
      else
        bind_res (require_event_fields e False False False True) (\<lambda>_.
        case ev_failure_reason e of
          None \<Rightarrow> Inl (Validation_Error ''assert event.failure_reason is not None'')
        | Some reason \<Rightarrow>
            if reason = PROTOCOL_VIOLATION then
              protocol_fail INVALID_EVENT
                ''protocol_violation is not a valid FAIL_RECOVERY event reason''
                (Some ''failure_reason'') DNone DNone
            else if phase s = RECOVERY_ELIGIBLE \<and> reason \<noteq> REWRITE_PREPARATION_FAILED then
              protocol_fail INVALID_EVENT
                ''fail_recovery from recovery_eligible requires rewrite_preparation_failed''
                (Some ''failure_reason'') (DStr (reason_value REWRITE_PREPARATION_FAILED))
                (DStr (reason_value reason))
            else if phase s \<noteq> RECOVERY_ELIGIBLE \<and> reason \<noteq> RECOVERY_EXECUTION_FAILED then
              protocol_fail INVALID_EVENT
                ''fail_recovery from recovery_attempt_pending requires recovery_execution_failed''
                (Some ''failure_reason'') (DStr (reason_value RECOVERY_EXECUTION_FAILED))
                (DStr (reason_value reason))
            else
              validated (s\<lparr>phase := TERMINAL,
                terminal_outcome := Some RECOVERY_PREPARATION_OR_EXECUTION_FAILED,
                failure_reason := Some reason\<rparr>)))"

definition apply_recovery_event ::
    "recovery_state \<Rightarrow> recovery_event \<Rightarrow> recovery_exc + recovery_state" where
  "apply_recovery_event s e =
     bind_res (validate_recovery_state s) (\<lambda>_.
       if phase s = TERMINAL then
         protocol_fail TERMINAL_STATE_TRANSITION ''cannot transition a terminal recovery state''
           (Some ''phase'') DNone DNone
       else (case ev_kind e of
           RECORD_INITIAL_SUFFICIENCY \<Rightarrow> apply_initial_sufficiency s e
         | PREPARE_RECOVERY_QUERY \<Rightarrow> apply_prepare_recovery_query s e
         | RECORD_RECOVERY_SUFFICIENCY \<Rightarrow> apply_recovery_sufficiency s e
         | FAIL_RECOVERY \<Rightarrow> apply_fail_recovery s e))"

definition replay_recovery_events ::
    "recovery_state \<Rightarrow> recovery_event list \<Rightarrow> recovery_exc + recovery_state" where
  "replay_recovery_events initial events =
     bind_res (validate_recovery_state initial) (\<lambda>_. run_events apply_recovery_event initial events)"

subsection \<open>Projection of a sufficiency decision\<close>

definition sufficiency_ref_from_decision ::
    "bool \<Rightarrow> int option \<Rightarrow> recovery_exc + sufficiency_ref" where
  "sufficiency_ref_from_decision suff count =
     (if suff then
        (let units = (case count of None \<Rightarrow> 1 | Some n \<Rightarrow> n) in
         if units < 0 then Inl (Validation_Error ''evidence_unit_count must be >= 0'')
         else enforce_sufficiency_v1_semantics
                \<lparr>policy_contract = SUFFICIENCY_POLICY_V1,
                 policy_version = RECOVERY_POLICY_VERSION_V1, sufficient = True,
                 triggered_gates = [], empty_context = False, evidence_unit_count = nat units\<rparr>)
      else (case count of
          Some n \<Rightarrow>
            (if n \<noteq> 0 then
               protocol_fail INCONSISTENT_SUFFICIENCY
                 ''insufficient recovery projection requires evidence_unit_count == 0''
                 (Some ''evidence_unit_count'') (DNum 0) (DNum n)
             else enforce_sufficiency_v1_semantics
                \<lparr>policy_contract = SUFFICIENCY_POLICY_V1,
                 policy_version = RECOVERY_POLICY_VERSION_V1, sufficient = False,
                 triggered_gates = [EMPTY_CONTEXT_GATE_V1], empty_context = True,
                 evidence_unit_count = 0\<rparr>)
        | None \<Rightarrow>
            enforce_sufficiency_v1_semantics
                \<lparr>policy_contract = SUFFICIENCY_POLICY_V1,
                 policy_version = RECOVERY_POLICY_VERSION_V1, sufficient = False,
                 triggered_gates = [EMPTY_CONTEXT_GATE_V1], empty_context = True,
                 evidence_unit_count = 0\<rparr>))"

end
