(* ===== verification/Recovery_Spec.thy ===== *)
theory Recovery_Spec
  imports Recovery_Protocol
begin

section \<open>What the recovery protocol promises\<close>

text \<open>
  An abstract view of the one-retry contract: seven situations, each with exactly the data
  that matters in it, and a step relation between them. \<open>state_of\<close> is the concrete record of a
  view. The refinement says that on a record that represents a view, \<open>apply_recovery_event\<close>
  accepts an event exactly when the abstract relation has a step for it, and returns the record
  of the next view; so every record reachable by replay represents a view. The interpretation of
  \<open>fail_closed_machine\<close> gives the facts about whole event sequences.
\<close>

subsection \<open>Valid projections of a sufficiency decision\<close>

definition valid_ref :: "sufficiency_ref \<Rightarrow> bool" where
  "valid_ref r \<longleftrightarrow> policy_contract r = SUFFICIENCY_POLICY_V1 \<and>
     policy_version r = RECOVERY_POLICY_VERSION_V1 \<and>
     (if sufficient r
      then \<not> empty_context r \<and> 0 < evidence_unit_count r \<and> triggered_gates r = []
      else empty_context r \<and> evidence_unit_count r = 0 \<and>
           triggered_gates r = [EMPTY_CONTEXT_GATE_V1])"

lemma validate_sufficiency_ref_iff [simp]:
  "validate_sufficiency_ref r = Inr u \<longleftrightarrow> valid_ref r"
  by (auto simp: validate_sufficiency_ref_def valid_ref_def)

lemma enforce_sufficiency_iff [simp]:
  "enforce_sufficiency_v1_semantics r = Inr r' \<longleftrightarrow> valid_ref r \<and> r' = r"
  by (auto simp: enforce_sufficiency_v1_semantics_def valid_ref_def)

lemma valid_insufficient_ref: "valid_ref r \<Longrightarrow> \<not> sufficient r \<Longrightarrow>
    r = \<lparr>policy_contract = SUFFICIENCY_POLICY_V1, policy_version = RECOVERY_POLICY_VERSION_V1,
         sufficient = False, triggered_gates = [EMPTY_CONTEXT_GATE_V1], empty_context = True,
         evidence_unit_count = 0\<rparr>"
  by (cases r) (simp add: valid_ref_def)

subsection \<open>Views\<close>

type_synonym judged = "sufficiency_ref \<times> recovery_diagnostics option"

datatype recovery_view =
    V_Awaiting
  | V_First_Sufficient judged
  | V_Eligible judged
  | V_Pending judged string
  | V_Second_Judged judged string judged
  | V_Rewrite_Failed judged
  | V_Execution_Failed judged string

fun view_ok :: "recovery_view \<Rightarrow> bool" where
  "view_ok V_Awaiting = True"
| "view_ok (V_First_Sufficient a) = (valid_ref (fst a) \<and> sufficient (fst a))"
| "view_ok (V_Eligible a) = (valid_ref (fst a) \<and> \<not> sufficient (fst a))"
| "view_ok (V_Pending a q) = (valid_ref (fst a) \<and> \<not> sufficient (fst a) \<and> nonblank q)"
| "view_ok (V_Second_Judged a q b) =
     (valid_ref (fst a) \<and> \<not> sufficient (fst a) \<and> nonblank q \<and> valid_ref (fst b))"
| "view_ok (V_Rewrite_Failed a) = (valid_ref (fst a) \<and> \<not> sufficient (fst a))"
| "view_ok (V_Execution_Failed a q) = (valid_ref (fst a) \<and> \<not> sufficient (fst a) \<and> nonblank q)"

fun view_terminal :: "recovery_view \<Rightarrow> bool" where
  "view_terminal V_Awaiting = False"
| "view_terminal (V_Eligible a) = False"
| "view_terminal (V_Pending a q) = False"
| "view_terminal _ = True"

definition attempt_of :: "nat \<Rightarrow> attempt_role \<Rightarrow> string \<Rightarrow> judged \<Rightarrow> recovery_attempt" where
  "attempt_of n role q j = \<lparr>attempt_number = n, attempt_role = role, attempt_query = q,
     attempt_sufficiency = fst j, attempt_diagnostics = snd j\<rparr>"

lemma attempt_of_sel [simp]:
  "attempt_number (attempt_of n role q j) = n"
  "attempt_role (attempt_of n role q j) = role"
  "attempt_query (attempt_of n role q j) = q"
  "attempt_sufficiency (attempt_of n role q j) = fst j"
  "attempt_diagnostics (attempt_of n role q j) = snd j"
  by (simp_all add: attempt_of_def)

text \<open>The concrete record of a view, for a case id and an original query.\<close>

definition base_state :: "string option \<Rightarrow> string \<Rightarrow> recovery_state" where
  "base_state cid q = \<lparr>schema_version = RECOVERY_STATE_V1,
     protocol_contract = RECOVERY_PROTOCOL_V1, case_id = cid, original_query = q,
     active_retrieval_query = q, current_attempt_number = 0, current_attempt_role = INITIAL,
     max_retries = MAX_RECOVERY_RETRIES_V1, phase = AWAITING_INITIAL_SUFFICIENCY, attempts = [],
     current_sufficiency = None, terminal_outcome = None, failure_reason = None\<rparr>"

definition judged_state :: "string option \<Rightarrow> string \<Rightarrow> judged \<Rightarrow> recovery_state" where
  "judged_state cid q a = (base_state cid q)\<lparr>attempts := [attempt_of 0 INITIAL q a],
     current_sufficiency := Some (fst a), phase := RECOVERY_ELIGIBLE\<rparr>"

definition pending_state :: "string option \<Rightarrow> string \<Rightarrow> judged \<Rightarrow> string \<Rightarrow> recovery_state" where
  "pending_state cid q a q1 = (judged_state cid q a)\<lparr>active_retrieval_query := q1,
     current_attempt_number := 1, current_attempt_role := RECOVERY,
     phase := RECOVERY_ATTEMPT_PENDING\<rparr>"

fun state_of :: "string option \<Rightarrow> string \<Rightarrow> recovery_view \<Rightarrow> recovery_state" where
  "state_of cid q V_Awaiting = base_state cid q"
| "state_of cid q (V_First_Sufficient a) =
     (judged_state cid q a)\<lparr>phase := TERMINAL, terminal_outcome := Some INITIAL_EVIDENCE_SUFFICIENT\<rparr>"
| "state_of cid q (V_Eligible a) = judged_state cid q a"
| "state_of cid q (V_Pending a q1) = pending_state cid q a q1"
| "state_of cid q (V_Second_Judged a q1 b) =
     (pending_state cid q a q1)\<lparr>attempts := [attempt_of 0 INITIAL q a, attempt_of 1 RECOVERY q1 b],
       current_sufficiency := Some (fst b), phase := TERMINAL,
       terminal_outcome := Some (if sufficient (fst b) then RECOVERED_EVIDENCE_SUFFICIENT
                                 else INSUFFICIENT_AFTER_BOUNDED_RECOVERY)\<rparr>"
| "state_of cid q (V_Rewrite_Failed a) =
     (judged_state cid q a)\<lparr>phase := TERMINAL,
       terminal_outcome := Some RECOVERY_PREPARATION_OR_EXECUTION_FAILED,
       failure_reason := Some REWRITE_PREPARATION_FAILED\<rparr>"
| "state_of cid q (V_Execution_Failed a q1) =
     (pending_state cid q a q1)\<lparr>phase := TERMINAL,
       terminal_outcome := Some RECOVERY_PREPARATION_OR_EXECUTION_FAILED,
       failure_reason := Some RECOVERY_EXECUTION_FAILED\<rparr>"

lemmas state_defs = base_state_def judged_state_def pending_state_def RECOVERY_STATE_V1_def
  RECOVERY_PROTOCOL_V1_def MAX_RECOVERY_RETRIES_V1_def MAX_ATTEMPT_NUMBER_V1_def

lemmas validator_defs = validate_recovery_state_def validate_attempts_def
  validate_phase_consistency_def validate_terminal_state_def
  validate_initial_sufficient_terminal_def validate_two_attempt_recovery_terminal_def
  validate_failure_terminal_def

text \<open>Every record of a well-formed view is accepted by the validator.\<close>

lemma validate_state_of [simp]: "view_ok v \<Longrightarrow> validate_recovery_state (state_of cid q v) = Inr ()"
  by (cases v) (auto simp: state_defs validator_defs bind_res_Inr_iff)

lemma phase_state_of [simp]: "phase (state_of cid q v) = TERMINAL \<longleftrightarrow> view_terminal v"
  by (cases v) (simp_all add: state_defs)

subsection \<open>The abstract step relation\<close>

definition event_of :: "recovery_event_kind \<Rightarrow> judged option \<Rightarrow> string option \<Rightarrow>
    recovery_failure_reason option \<Rightarrow> recovery_event" where
  "event_of k j q f = \<lparr>ev_kind = k, ev_sufficiency = map_option fst j,
     ev_diagnostics = Option.bind j snd, ev_prepared_query = q, ev_failure_reason = f\<rparr>"

inductive view_step :: "recovery_view \<Rightarrow> recovery_event \<Rightarrow> recovery_view \<Rightarrow> bool" where
  first_sufficient: "valid_ref (fst a) \<Longrightarrow> sufficient (fst a) \<Longrightarrow>
    view_step V_Awaiting (event_of RECORD_INITIAL_SUFFICIENCY (Some a) None None)
      (V_First_Sufficient a)"
| first_insufficient: "valid_ref (fst a) \<Longrightarrow> \<not> sufficient (fst a) \<Longrightarrow>
    view_step V_Awaiting (event_of RECORD_INITIAL_SUFFICIENCY (Some a) None None) (V_Eligible a)"
| prepare: "view_step (V_Eligible a) (event_of PREPARE_RECOVERY_QUERY None (Some q1) None)
    (V_Pending a q1)"
| rewrite_failed: "view_step (V_Eligible a)
    (event_of FAIL_RECOVERY None None (Some REWRITE_PREPARATION_FAILED)) (V_Rewrite_Failed a)"
| second_judged: "valid_ref (fst b) \<Longrightarrow>
    view_step (V_Pending a q1) (event_of RECORD_RECOVERY_SUFFICIENCY (Some b) None None)
      (V_Second_Judged a q1 b)"
| execution_failed: "view_step (V_Pending a q1)
    (event_of FAIL_RECOVERY None None (Some RECOVERY_EXECUTION_FAILED)) (V_Execution_Failed a q1)"

inductive_cases view_step_AwaitingE: "view_step V_Awaiting e v'"
inductive_cases view_step_EligibleE: "view_step (V_Eligible a) e v'"
inductive_cases view_step_PendingE: "view_step (V_Pending a q1) e v'"
inductive_simps view_step_terminal [simp]:
  "view_step (V_First_Sufficient a) e v'"
  "view_step (V_Second_Judged a q1 b) e v'"
  "view_step (V_Rewrite_Failed a) e v'"
  "view_step (V_Execution_Failed a q1) e v'"

subsection \<open>What each handler accepts\<close>

lemma require_event_fields_iff [simp]:
  "require_event_fields e rs ad rq rf = Inr u \<longleftrightarrow>
     (if rs then \<exists>r. ev_sufficiency e = Some r \<and> valid_ref r else ev_sufficiency e = None) \<and>
     (ad \<or> ev_diagnostics e = None) \<and>
     (ev_prepared_query e \<noteq> None \<longleftrightarrow> rq) \<and> (ev_failure_reason e \<noteq> None \<longleftrightarrow> rf)"
  unfolding require_event_fields_def bind_res_Inr_iff
  by (auto split: option.splits if_splits)

lemma event_of_iff:
  "e = event_of k (Some (r, d)) q f \<longleftrightarrow> ev_kind e = k \<and> ev_sufficiency e = Some r \<and>
     ev_diagnostics e = d \<and> ev_prepared_query e = q \<and> ev_failure_reason e = f"
  "e = event_of k None q f \<longleftrightarrow> ev_kind e = k \<and> ev_sufficiency e = None \<and>
     ev_diagnostics e = None \<and> ev_prepared_query e = q \<and> ev_failure_reason e = f"
  by (cases e; auto simp: event_of_def)+

lemma apply_initial_Inr:
  assumes "nonblank q"
  shows "apply_initial_sufficiency (base_state cid q) e = Inr s' \<longleftrightarrow>
    (\<exists>r. ev_sufficiency e = Some r \<and> valid_ref r \<and> ev_prepared_query e = None \<and>
         ev_failure_reason e = None \<and>
         s' = state_of cid q (if sufficient r then V_First_Sufficient (r, ev_diagnostics e)
                              else V_Eligible (r, ev_diagnostics e)))"
proof -
  have ok: "validate_recovery_state (state_of cid q (if sufficient r
      then V_First_Sufficient (r, d) else V_Eligible (r, d))) = Inr ()" if "valid_ref r" for r d
    using that by (intro validate_state_of) simp
  show ?thesis
  proof (cases "ev_sufficiency e")
    case (Some r)
    with assms ok [of r "ev_diagnostics e"] show ?thesis
      by (cases "sufficient r")
        (auto simp: apply_initial_sufficiency_def bind_res_Inr_iff state_defs mk_attempt_def
           attempt_of_def)
  qed (simp add: apply_initial_sufficiency_def bind_res_Inr_iff)
qed

lemma apply_prepare_Inr:
  assumes "view_ok (V_Eligible a)" and "wf_event e"
  shows "apply_prepare_recovery_query (judged_state cid q a) e = Inr s' \<longleftrightarrow>
    (\<exists>q1. ev_sufficiency e = None \<and> ev_diagnostics e = None \<and> ev_prepared_query e = Some q1 \<and>
         ev_failure_reason e = None \<and> s' = state_of cid q (V_Pending a q1))"
proof (cases "ev_prepared_query e")
  case (Some q1)
  with assms have "view_ok (V_Pending a q1)" by (simp add: wf_event_def)
  from validate_state_of [OF this, of cid q] Some show ?thesis
    by (auto simp: apply_prepare_recovery_query_def bind_res_Inr_iff state_defs)
qed (simp add: apply_prepare_recovery_query_def bind_res_Inr_iff)

lemma apply_recovery_Inr:
  assumes "view_ok (V_Pending a q1)"
  shows "apply_recovery_sufficiency (pending_state cid q a q1) e = Inr s' \<longleftrightarrow>
    (\<exists>r. ev_sufficiency e = Some r \<and> valid_ref r \<and> ev_prepared_query e = None \<and>
         ev_failure_reason e = None \<and>
         s' = state_of cid q (V_Second_Judged a q1 (r, ev_diagnostics e)))"
proof (cases "ev_sufficiency e")
  case (Some r)
  have "view_ok (V_Second_Judged a q1 (r, ev_diagnostics e))" if "valid_ref r"
    using assms that by simp
  from validate_state_of [OF this, of cid q] Some assms show ?thesis
    by (auto simp: apply_recovery_sufficiency_def bind_res_Inr_iff state_defs mk_attempt_def
           attempt_of_def)
qed (simp add: apply_recovery_sufficiency_def bind_res_Inr_iff)

lemma apply_fail_eligible_Inr:
  assumes "view_ok (V_Eligible a)"
  shows "apply_fail_recovery (judged_state cid q a) e = Inr s' \<longleftrightarrow>
    ev_sufficiency e = None \<and> ev_diagnostics e = None \<and> ev_prepared_query e = None \<and>
    ev_failure_reason e = Some REWRITE_PREPARATION_FAILED \<and>
    s' = state_of cid q (V_Rewrite_Failed a)"
proof (cases "ev_failure_reason e")
  case (Some f)
  from assms have "view_ok (V_Rewrite_Failed a)" by simp
  from validate_state_of [OF this, of cid q] Some show ?thesis
    by (cases f) (auto simp: apply_fail_recovery_def bind_res_Inr_iff state_defs)
qed (simp add: apply_fail_recovery_def bind_res_Inr_iff)

lemma apply_fail_pending_Inr:
  assumes "view_ok (V_Pending a q1)"
  shows "apply_fail_recovery (pending_state cid q a q1) e = Inr s' \<longleftrightarrow>
    ev_sufficiency e = None \<and> ev_diagnostics e = None \<and> ev_prepared_query e = None \<and>
    ev_failure_reason e = Some RECOVERY_EXECUTION_FAILED \<and>
    s' = state_of cid q (V_Execution_Failed a q1)"
proof (cases "ev_failure_reason e")
  case (Some f)
  from assms have "view_ok (V_Execution_Failed a q1)" by simp
  from validate_state_of [OF this, of cid q] Some show ?thesis
    by (cases f) (auto simp: apply_fail_recovery_def bind_res_Inr_iff state_defs)
qed (simp add: apply_fail_recovery_def bind_res_Inr_iff)

lemmas handler_defs = apply_initial_sufficiency_def apply_prepare_recovery_query_def
  apply_recovery_sufficiency_def apply_fail_recovery_def

lemma handler_wrong_phase [simp]:
  "phase s \<noteq> AWAITING_INITIAL_SUFFICIENCY \<Longrightarrow> apply_initial_sufficiency s e \<noteq> Inr s'"
  "phase s \<noteq> RECOVERY_ELIGIBLE \<Longrightarrow> apply_prepare_recovery_query s e \<noteq> Inr s'"
  "phase s \<noteq> RECOVERY_ATTEMPT_PENDING \<Longrightarrow> apply_recovery_sufficiency s e \<noteq> Inr s'"
  "phase s = AWAITING_INITIAL_SUFFICIENCY \<Longrightarrow> apply_fail_recovery s e \<noteq> Inr s'"
  by (simp_all add: handler_defs)

subsection \<open>Refinement\<close>

lemma apply_split:
  assumes "view_ok v" and "\<not> view_terminal v"
  shows "apply_recovery_event (state_of cid q v) e =
    (case ev_kind e of
       RECORD_INITIAL_SUFFICIENCY \<Rightarrow> apply_initial_sufficiency (state_of cid q v) e
     | PREPARE_RECOVERY_QUERY \<Rightarrow> apply_prepare_recovery_query (state_of cid q v) e
     | RECORD_RECOVERY_SUFFICIENCY \<Rightarrow> apply_recovery_sufficiency (state_of cid q v) e
     | FAIL_RECOVERY \<Rightarrow> apply_fail_recovery (state_of cid q v) e)"
  using assms by (simp add: apply_recovery_event_def)

lemma phases [simp]:
  "phase (base_state cid q) = AWAITING_INITIAL_SUFFICIENCY"
  "phase (judged_state cid q a) = RECOVERY_ELIGIBLE"
  "phase (pending_state cid q a q1) = RECOVERY_ATTEMPT_PENDING"
  by (simp_all add: state_defs)

lemma view_step_Awaiting:
  "view_step V_Awaiting e v' \<longleftrightarrow> (\<exists>a. e = event_of RECORD_INITIAL_SUFFICIENCY (Some a) None None \<and>
     valid_ref (fst a) \<and> v' = (if sufficient (fst a) then V_First_Sufficient a else V_Eligible a))"
  by (auto elim!: view_step_AwaitingE intro: view_step.intros)

text \<open>The same with the event's fields written out.\<close>

lemma view_step_Awaiting_fields:
  "view_step V_Awaiting e v' \<longleftrightarrow> ev_kind e = RECORD_INITIAL_SUFFICIENCY \<and>
     ev_prepared_query e = None \<and> ev_failure_reason e = None \<and>
     (\<exists>r. ev_sufficiency e = Some r \<and> valid_ref r \<and>
       v' = (if sufficient r then V_First_Sufficient (r, ev_diagnostics e)
             else V_Eligible (r, ev_diagnostics e)))"
  unfolding view_step_Awaiting split_paired_Ex event_of_iff by auto

lemma view_step_Eligible:
  "view_step (V_Eligible a) e v' \<longleftrightarrow>
     (\<exists>q1. e = event_of PREPARE_RECOVERY_QUERY None (Some q1) None \<and> v' = V_Pending a q1) \<or>
     e = event_of FAIL_RECOVERY None None (Some REWRITE_PREPARATION_FAILED) \<and>
     v' = V_Rewrite_Failed a"
  by (auto elim!: view_step_EligibleE intro: view_step.intros)

lemma view_step_Eligible_fields:
  "view_step (V_Eligible a) e v' \<longleftrightarrow> ev_sufficiency e = None \<and> ev_diagnostics e = None \<and>
     (ev_kind e = PREPARE_RECOVERY_QUERY \<and> ev_failure_reason e = None \<and>
        (\<exists>q1. ev_prepared_query e = Some q1 \<and> v' = V_Pending a q1) \<or>
      ev_kind e = FAIL_RECOVERY \<and> ev_prepared_query e = None \<and>
        ev_failure_reason e = Some REWRITE_PREPARATION_FAILED \<and> v' = V_Rewrite_Failed a)"
  unfolding view_step_Eligible event_of_iff by auto

lemma view_step_Pending:
  "view_step (V_Pending a q1) e v' \<longleftrightarrow>
     (\<exists>b. e = event_of RECORD_RECOVERY_SUFFICIENCY (Some b) None None \<and> valid_ref (fst b) \<and>
          v' = V_Second_Judged a q1 b) \<or>
     e = event_of FAIL_RECOVERY None None (Some RECOVERY_EXECUTION_FAILED) \<and>
     v' = V_Execution_Failed a q1"
  by (auto elim!: view_step_PendingE intro: view_step.intros)

lemma view_step_Pending_fields:
  "view_step (V_Pending a q1) e v' \<longleftrightarrow> ev_prepared_query e = None \<and>
     (ev_kind e = RECORD_RECOVERY_SUFFICIENCY \<and> ev_failure_reason e = None \<and>
        (\<exists>r. ev_sufficiency e = Some r \<and> valid_ref r \<and>
             v' = V_Second_Judged a q1 (r, ev_diagnostics e)) \<or>
      ev_kind e = FAIL_RECOVERY \<and> ev_sufficiency e = None \<and> ev_diagnostics e = None \<and>
        ev_failure_reason e = Some RECOVERY_EXECUTION_FAILED \<and> v' = V_Execution_Failed a q1)"
  unfolding view_step_Pending split_paired_Ex event_of_iff by auto

lemma apply_refines:
  assumes "nonblank q" and "view_ok v" and "wf_event e"
  shows "apply_recovery_event (state_of cid q v) e = Inr s' \<longleftrightarrow>
    (\<exists>v'. view_step v e v' \<and> s' = state_of cid q v')"
proof (cases "view_terminal v")
  case True
  with assms(2) have "apply_recovery_event (state_of cid q v) e \<noteq> Inr s'"
    by (simp add: apply_recovery_event_def)
  moreover have "\<not> view_step v e v'" for v'
    using True by (cases v) simp_all
  ultimately show ?thesis by blast
next
  case False
  note sp = apply_split [OF assms(2) this]
  show ?thesis
  proof (cases v)
    case V_Awaiting
    have "apply_recovery_event (state_of cid q V_Awaiting) e = Inr s' \<longleftrightarrow>
        ev_kind e = RECORD_INITIAL_SUFFICIENCY \<and>
        apply_initial_sufficiency (base_state cid q) e = Inr s'"
      using sp V_Awaiting by (simp split: recovery_event_kind.split)
    then show ?thesis unfolding V_Awaiting apply_initial_Inr [OF assms(1)] view_step_Awaiting_fields
      by blast
  next
    case (V_Eligible a)
    have "apply_recovery_event (state_of cid q (V_Eligible a)) e = Inr s' \<longleftrightarrow>
        ev_kind e = PREPARE_RECOVERY_QUERY \<and>
          apply_prepare_recovery_query (judged_state cid q a) e = Inr s' \<or>
        ev_kind e = FAIL_RECOVERY \<and> apply_fail_recovery (judged_state cid q a) e = Inr s'"
      using sp V_Eligible by (simp split: recovery_event_kind.split)
    with V_Eligible assms show ?thesis
      unfolding view_step_Eligible_fields
      by (simp only: apply_prepare_Inr apply_fail_eligible_Inr view_step_Eligible_fields) blast
  next
    case (V_Pending a q1)
    have "apply_recovery_event (state_of cid q (V_Pending a q1)) e = Inr s' \<longleftrightarrow>
        ev_kind e = RECORD_RECOVERY_SUFFICIENCY \<and>
          apply_recovery_sufficiency (pending_state cid q a q1) e = Inr s' \<or>
        ev_kind e = FAIL_RECOVERY \<and> apply_fail_recovery (pending_state cid q a q1) e = Inr s'"
      using sp V_Pending by (simp split: recovery_event_kind.split)
    with V_Pending assms show ?thesis
      by (simp only: apply_recovery_Inr apply_fail_pending_Inr view_step_Pending_fields) blast
  qed (use False in simp_all)
qed

lemma view_step_ok: "view_step v e v' \<Longrightarrow> view_ok v \<Longrightarrow> wf_event e \<Longrightarrow> view_ok v'"
  by (induction rule: view_step.induct) (auto simp: wf_event_def event_of_def)

text \<open>Sequences of abstract steps, with the events they consume.\<close>

inductive view_steps :: "recovery_view \<Rightarrow> recovery_event list \<Rightarrow> recovery_view \<Rightarrow> bool" where
  view_refl: "view_steps v [] v"
| view_more: "view_step v e v' \<Longrightarrow> view_steps v' es v'' \<Longrightarrow> view_steps v (e # es) v''"

inductive_simps view_steps_simps [simp]: "view_steps v [] v'" "view_steps v (e # es) v'"

lemma run_refines:
  assumes "nonblank q" and "view_ok v" and "\<forall>e \<in> set es. wf_event e"
  shows "run_events apply_recovery_event (state_of cid q v) es = Inr s' \<longleftrightarrow>
    (\<exists>v'. view_steps v es v' \<and> s' = state_of cid q v')"
  using assms(2,3)
proof (induction es arbitrary: v)
  case (Cons e es)
  have "run_events apply_recovery_event (state_of cid q v) (e # es) = Inr s' \<longleftrightarrow>
      (\<exists>v'. view_step v e v' \<and> run_events apply_recovery_event (state_of cid q v') es = Inr s')"
    using Cons.prems apply_refines [OF assms(1), of v e cid]
    by (auto simp: bind_res_Inr_iff)
  moreover have "view_ok v'" if "view_step v e v'" for v'
    using that Cons.prems by (auto intro: view_step_ok)
  ultimately show ?case using Cons by fastforce
qed auto

lemma build_initial_Inr:
  "build_initial_recovery_state q cid = Inr s \<longleftrightarrow>
     nonblank q \<and> (\<forall>c. cid = Some c \<longrightarrow> nonblank c) \<and> s = base_state cid q"
proof -
  have "validate_recovery_state (base_state cid q) = Inr ()"
    using validate_state_of [of V_Awaiting cid q] by simp
  then show ?thesis
    by (cases cid) (auto simp: build_initial_recovery_state_def bind_res_Inr_iff base_state_def Let_def)
qed

subsection \<open>Sequences of events\<close>

fun phase_rank :: "recovery_phase \<Rightarrow> nat" where
  "phase_rank AWAITING_INITIAL_SUFFICIENCY = 3"
| "phase_rank RECOVERY_ELIGIBLE = 2"
| "phase_rank RECOVERY_ATTEMPT_PENDING = 1"
| "phase_rank TERMINAL = 0"

lemma handlers_validate:
  "apply_recovery_event s e = Inr s' \<Longrightarrow>
     validate_recovery_state s = Inr () \<and> validate_recovery_state s' = Inr () \<and>
     phase_rank (phase s') < phase_rank (phase s)"
  by (auto simp: apply_recovery_event_def handler_defs bind_res_Inr_iff Let_def
      split: if_splits recovery_event_kind.splits option.splits)

interpretation recovery: fail_closed_machine apply_recovery_event
  "\<lambda>s. validate_recovery_state s = Inr ()" "\<lambda>s. phase s = TERMINAL" "\<lambda>s. phase_rank (phase s)"
proof unfold_locales
  fix s e assume "validate_recovery_state s = Inr ()" and "phase s = TERMINAL"
  then show "\<exists>x. apply_recovery_event s e = Inl x"
    by (simp add: apply_recovery_event_def)
qed (auto dest: handlers_validate)

subsection \<open>Exactly which records the validator accepts\<close>

text \<open>
  The validator leaves one field open: before the first decision \<open>current_sufficiency\<close> may be
  any valid projection, and while a recovery is eligible or pending it may also be absent.
\<close>

fun current_allowed :: "recovery_view \<Rightarrow> sufficiency_ref option \<Rightarrow> bool" where
  "current_allowed V_Awaiting cur = (\<forall>r. cur = Some r \<longrightarrow> valid_ref r)"
| "current_allowed (V_Eligible a) cur = (cur = None \<or> cur = Some (fst a))"
| "current_allowed (V_Pending a q1) cur = (cur = None \<or> cur = Some (fst a))"
| "current_allowed (V_Second_Judged a q1 b) cur = (cur = Some (fst b))"
| "current_allowed (V_First_Sufficient a) cur = (cur = Some (fst a))"
| "current_allowed (V_Rewrite_Failed a) cur = (cur = Some (fst a))"
| "current_allowed (V_Execution_Failed a q1) cur = (cur = Some (fst a))"

definition recovery_shape :: "recovery_state \<Rightarrow> bool" where
  "recovery_shape s \<longleftrightarrow> (\<exists>v cur. view_ok v \<and> current_allowed v cur \<and>
     s = (state_of (case_id s) (original_query s) v)\<lparr>current_sufficiency := cur\<rparr>)"

lemma shape_validates:
  "view_ok v \<Longrightarrow> current_allowed v cur \<Longrightarrow>
    validate_recovery_state ((state_of cid q v)\<lparr>current_sufficiency := cur\<rparr>) = Inr ()"
  by (cases v; cases cur)
    (auto simp: state_defs validator_defs bind_res_Inr_iff)

lemma attempts_loop_Inr:
  "validate_attempts_loop q [] 0 [a] = Inr u \<longleftrightarrow>
     a = attempt_of 0 INITIAL q (attempt_sufficiency a, attempt_diagnostics a)"
  "validate_attempts_loop q [] 0 [a, b] = Inr u \<longleftrightarrow>
     a = attempt_of 0 INITIAL q (attempt_sufficiency a, attempt_diagnostics a) \<and>
     b = attempt_of 1 RECOVERY (attempt_query b) (attempt_sufficiency b, attempt_diagnostics b)"
  by (cases a; cases b; auto simp: attempt_of_def MAX_ATTEMPT_NUMBER_V1_def)+

lemma if_fail_Inr [res_simps]:
  "(if c then protocol_fail cd m f x a else y) = Inr u \<longleftrightarrow> \<not> c \<and> y = Inr u"
  by simp

text \<open>The checks that do not depend on the phase.\<close>

lemma validate_common:
  "validate_recovery_state s = Inr u \<longleftrightarrow>
     schema_version s = RECOVERY_STATE_V1 \<and> protocol_contract s = RECOVERY_PROTOCOL_V1 \<and>
     max_retries s = MAX_RECOVERY_RETRIES_V1 \<and> current_attempt_number s \<le> 1 \<and>
     (\<forall>a \<in> set (attempts s). valid_ref (attempt_sufficiency a)) \<and>
     (\<forall>r. current_sufficiency s = Some r \<longrightarrow> valid_ref r) \<and>
     validate_attempts s = Inr () \<and> validate_phase_consistency s = Inr ()"
  unfolding validate_recovery_state_def
  by (cases "current_sufficiency s")
    (simp_all add: bind_res_Inr_iff state_defs not_less conj_assoc if_fail_Inr)

lemma validate_attempts_Inr:
  "validate_attempts s = Inr u \<longleftrightarrow>
     validate_attempts_loop (original_query s) [] 0 (attempts s) = Inr () \<and>
     (\<forall>r. current_sufficiency s = Some r \<longrightarrow> attempts s \<noteq> [] \<longrightarrow>
        phase s \<noteq> AWAITING_INITIAL_SUFFICIENCY \<longrightarrow>
        r = attempt_sufficiency (last (attempts s)))"
  by (auto simp: validate_attempts_def bind_res_Inr_iff split: option.splits)

lemma length1_conv: "length xs = Suc 0 \<longleftrightarrow> (\<exists>x. xs = [x])"
  by (cases xs) auto

lemma two_attempt_Inr:
  "validate_two_attempt_recovery_terminal s b lab = Inr u \<longleftrightarrow>
     failure_reason s = None \<and> current_attempt_number s = 1 \<and> current_attempt_role s = RECOVERY \<and>
     (\<exists>a0 a1. attempts s = [a0, a1] \<and> \<not> sufficient (attempt_sufficiency a0) \<and>
        attempt_number a0 = 0 \<and> attempt_role a0 = INITIAL \<and>
        attempt_number a1 = 1 \<and> attempt_role a1 = RECOVERY \<and>
        sufficient (attempt_sufficiency a1) = b \<and>
        active_retrieval_query s = attempt_query a1 \<and>
        current_sufficiency s = Some (attempt_sufficiency a1))"
proof (cases "\<exists>a0 a1. attempts s = [a0, a1]")
  case True
  then obtain a0 a1 where "attempts s = [a0, a1]" by blast
  then show ?thesis
    by (simp add: validate_two_attempt_recovery_terminal_def if_fail_Inr del: protocol_fail_neq) blast
next
  case False
  then have "validate_two_attempt_recovery_terminal s b lab \<noteq> Inr u"
    by (cases "attempts s"; cases "tl (attempts s)"; cases "tl (tl (attempts s))")
      (simp_all add: validate_two_attempt_recovery_terminal_def)
  with False show ?thesis by blast
qed

lemma failure_terminal_Inr:
  "validate_failure_terminal s = Inr u \<longleftrightarrow>
     (\<exists>a. attempts s = [a] \<and> \<not> sufficient (attempt_sufficiency a) \<and>
        current_sufficiency s = Some (attempt_sufficiency a)) \<and>
     (failure_reason s = Some REWRITE_PREPARATION_FAILED \<and> current_attempt_number s = 0 \<and>
        current_attempt_role s = INITIAL \<and> active_retrieval_query s = original_query s \<or>
      failure_reason s = Some RECOVERY_EXECUTION_FAILED \<and> current_attempt_number s = 1 \<and>
        current_attempt_role s = RECOVERY)"
proof (cases "failure_reason s")
  case (Some f)
  then show ?thesis
    by (cases f; cases "attempts s"; cases "tl (attempts s)")
      (auto simp: validate_failure_terminal_def if_fail_Inr)
qed (simp add: validate_failure_terminal_def)

lemma initial_sufficient_Inr:
  "validate_initial_sufficient_terminal s = Inr u \<longleftrightarrow> failure_reason s = None \<and>
     (\<exists>a. attempts s = [a] \<and> sufficient (attempt_sufficiency a) \<and>
        attempt_number a = 0 \<and> attempt_role a = INITIAL \<and>
        current_sufficiency s = Some (attempt_sufficiency a)) \<and>
     current_attempt_number s = 0 \<and> current_attempt_role s = INITIAL \<and>
     active_retrieval_query s = original_query s"
  by (cases "attempts s"; cases "tl (attempts s)")
    (auto simp: validate_initial_sufficient_terminal_def Let_def)

text \<open>A record with the given fields is the record of a view.\<close>

lemma state_eqI:
  fixes s t :: recovery_state
  assumes "schema_version s = RECOVERY_STATE_V1" "protocol_contract s = RECOVERY_PROTOCOL_V1"
    "max_retries s = MAX_RECOVERY_RETRIES_V1"
    "case_id t = case_id s" "original_query t = original_query s"
    "schema_version t = RECOVERY_STATE_V1" "protocol_contract t = RECOVERY_PROTOCOL_V1"
    "max_retries t = MAX_RECOVERY_RETRIES_V1"
    "active_retrieval_query t = active_retrieval_query s"
    "current_attempt_number t = current_attempt_number s"
    "current_attempt_role t = current_attempt_role s" "phase t = phase s"
    "attempts t = attempts s" "current_sufficiency t = current_sufficiency s"
    "terminal_outcome t = terminal_outcome s" "failure_reason t = failure_reason s"
  shows "s = t"
  using assms by (cases s; cases t) simp

lemma state_of_fixed [simp]:
  "schema_version (state_of cid q v) = RECOVERY_STATE_V1"
  "protocol_contract (state_of cid q v) = RECOVERY_PROTOCOL_V1"
  "max_retries (state_of cid q v) = MAX_RECOVERY_RETRIES_V1"
  "case_id (state_of cid q v) = cid"
  "original_query (state_of cid q v) = q"
  by (cases v; simp add: base_state_def judged_state_def pending_state_def)+

lemma shapeI:
  assumes "schema_version s = RECOVERY_STATE_V1" "protocol_contract s = RECOVERY_PROTOCOL_V1"
    "max_retries s = MAX_RECOVERY_RETRIES_V1" and v: "view_ok v" "current_allowed v (current_sufficiency s)"
    and "t = state_of (case_id s) (original_query s) v"
    "active_retrieval_query t = active_retrieval_query s"
    "current_attempt_number t = current_attempt_number s"
    "current_attempt_role t = current_attempt_role s" "phase t = phase s"
    "attempts t = attempts s" "terminal_outcome t = terminal_outcome s"
    "failure_reason t = failure_reason s"
  shows "recovery_shape s"
proof -
  have "s = (state_of (case_id s) (original_query s) v)\<lparr>current_sufficiency := current_sufficiency s\<rparr>"
    by (rule state_eqI) (use assms in simp_all)
  with v show ?thesis unfolding recovery_shape_def by blast
qed

lemma two_attempt_shape:
  assumes v: "validate_two_attempt_recovery_terminal s b lab = Inr ()"
    and fields: "schema_version s = RECOVERY_STATE_V1" "protocol_contract s = RECOVERY_PROTOCOL_V1"
    "max_retries s = MAX_RECOVERY_RETRIES_V1"
    and refs: "\<forall>a \<in> set (attempts s). valid_ref (attempt_sufficiency a)"
    and loop: "validate_attempts_loop (original_query s) [] 0 (attempts s) = Inr ()"
    and nb: "nonblank (active_retrieval_query s)" and ph: "phase s = TERMINAL"
    and out: "terminal_outcome s = Some (if b then RECOVERED_EVIDENCE_SUFFICIENT
       else INSUFFICIENT_AFTER_BOUNDED_RECOVERY)"
  shows "recovery_shape s"
proof -
  from v obtain a0 a1 where a: "attempts s = [a0, a1]"
    and f: "\<not> sufficient (attempt_sufficiency a0)" "sufficient (attempt_sufficiency a1) = b"
      "active_retrieval_query s = attempt_query a1"
      "current_sufficiency s = Some (attempt_sufficiency a1)"
      "failure_reason s = None" "current_attempt_number s = 1" "current_attempt_role s = RECOVERY"
    unfolding two_attempt_Inr by blast
  define j0 where "j0 = (attempt_sufficiency a0, attempt_diagnostics a0)"
  define j1 where "j1 = (attempt_sufficiency a1, attempt_diagnostics a1)"
  from loop a have "attempts s = [attempt_of 0 INITIAL (original_query s) j0,
      attempt_of 1 RECOVERY (active_retrieval_query s) j1]"
    by (simp add: attempts_loop_Inr j0_def j1_def f(3) del: validate_attempts_loop.simps)
  moreover have "view_ok (V_Second_Judged j0 (active_retrieval_query s) j1)"
    using f a refs nb by (simp add: j0_def j1_def)
  ultimately show ?thesis
    by (intro shapeI [where v = "V_Second_Judged j0 (active_retrieval_query s) j1", OF fields _ _ refl])
      (use f ph out in \<open>simp_all add: base_state_def judged_state_def pending_state_def j1_def\<close>)
qed

lemma shape_of_valid:
  assumes ok: "validate_recovery_state s = Inr ()" and wf: "wf_state s"
  shows "recovery_shape s"
proof -
  note c = ok [unfolded validate_common validate_attempts_Inr]
  have fields: "schema_version s = RECOVERY_STATE_V1" "protocol_contract s = RECOVERY_PROTOCOL_V1"
    "max_retries s = MAX_RECOVERY_RETRIES_V1" using c by blast+
  have ph: "validate_phase_consistency s = Inr ()" using c by blast
  have refs: "\<forall>a \<in> set (attempts s). valid_ref (attempt_sufficiency a)"
    "\<forall>r. current_sufficiency s = Some r \<longrightarrow> valid_ref r" using c by blast+
  have loop: "validate_attempts_loop (original_query s) [] 0 (attempts s) = Inr ()" using c by blast
  have nb: "nonblank (active_retrieval_query s)" "\<forall>a \<in> set (attempts s). nonblank (attempt_query a)"
    using wf by (simp_all add: wf_state_def)
  note I = shapeI [where s = s, OF _ _ _ _ _ refl]
  note sd = base_state_def judged_state_def pending_state_def
  have one: "\<exists>j. attempts s = [attempt_of 0 INITIAL (original_query s) j] \<and> valid_ref (fst j)"
    if "attempts s = [a]" for a
    using loop refs(1) that
    by (intro exI [where x = "(attempt_sufficiency a, attempt_diagnostics a)"])
      (simp add: attempts_loop_Inr del: validate_attempts_loop.simps)
  show ?thesis
  proof (cases "phase s")
    case AWAITING_INITIAL_SUFFICIENCY
    show ?thesis
      by (rule I [where v = V_Awaiting])
        (use c ph refs AWAITING_INITIAL_SUFFICIENCY in
          \<open>simp_all add: validate_phase_consistency_def sd if_fail_Inr\<close>)
  next
    case RECOVERY_ELIGIBLE
    with ph obtain a where "attempts s = [a]" "\<not> sufficient (attempt_sufficiency a)"
      by (cases "attempts s") (auto simp: validate_phase_consistency_def if_fail_Inr)
    with one obtain j where j: "attempts s = [attempt_of 0 INITIAL (original_query s) j]"
      "valid_ref (fst j)" "\<not> sufficient (fst j)" by force
    show ?thesis
      by (rule I [where v = "V_Eligible j"])
        (use c ph j RECOVERY_ELIGIBLE in
          \<open>cases "current_sufficiency s";
             auto simp: validate_phase_consistency_def sd if_fail_Inr\<close>)+
  next
    case RECOVERY_ATTEMPT_PENDING
    with ph obtain a where "attempts s = [a]" "\<not> sufficient (attempt_sufficiency a)"
      by (cases "attempts s") (auto simp: validate_phase_consistency_def if_fail_Inr)
    with one obtain j where j: "attempts s = [attempt_of 0 INITIAL (original_query s) j]"
      "valid_ref (fst j)" "\<not> sufficient (fst j)" by force
    show ?thesis
      by (rule I [where v = "V_Pending j (active_retrieval_query s)"])
        (use c ph j nb RECOVERY_ATTEMPT_PENDING in
          \<open>cases "current_sufficiency s";
             auto simp: validate_phase_consistency_def sd if_fail_Inr\<close>)+
  next
    case TERMINAL
    with ph have t: "validate_terminal_state s = Inr ()"
      by (simp add: validate_phase_consistency_def)
    then obtain out where out: "terminal_outcome s = Some out"
      by (cases "terminal_outcome s") (auto simp: validate_terminal_state_def)
    show ?thesis
    proof (cases out)
      case INITIAL_EVIDENCE_SUFFICIENT
      with t out have i: "validate_initial_sufficient_terminal s = Inr ()"
        by (simp add: validate_terminal_state_def)
      then obtain a where "attempts s = [a]" unfolding initial_sufficient_Inr by blast
      with one obtain j where j: "attempts s = [attempt_of 0 INITIAL (original_query s) j]"
        "valid_ref (fst j)" by blast
      from i j(1) have f: "sufficient (fst j)" "current_sufficiency s = Some (fst j)"
        "failure_reason s = None" "current_attempt_number s = 0" "current_attempt_role s = INITIAL"
        "active_retrieval_query s = original_query s"
        by (simp_all add: initial_sufficient_Inr)
      show ?thesis
        by (rule I [where v = "V_First_Sufficient j", OF fields])
          (use f j TERMINAL out INITIAL_EVIDENCE_SUFFICIENT in \<open>simp_all add: sd\<close>)
    next
      case RECOVERY_PREPARATION_OR_EXECUTION_FAILED
      with t out have i: "validate_failure_terminal s = Inr ()"
        by (simp add: validate_terminal_state_def)
      then obtain a where "attempts s = [a]" unfolding failure_terminal_Inr by blast
      with one obtain j where j: "attempts s = [attempt_of 0 INITIAL (original_query s) j]"
        "valid_ref (fst j)" by blast
      from i consider "failure_reason s = Some REWRITE_PREPARATION_FAILED"
        | "failure_reason s = Some RECOVERY_EXECUTION_FAILED" by (auto simp: failure_terminal_Inr)
      then show ?thesis
      proof cases
        case 1
        with i j(1) have f: "\<not> sufficient (fst j)" "current_sufficiency s = Some (fst j)"
          "current_attempt_number s = 0" "current_attempt_role s = INITIAL"
          "active_retrieval_query s = original_query s"
          by (simp_all add: failure_terminal_Inr)
        show ?thesis
          by (rule I [where v = "V_Rewrite_Failed j", OF fields])
            (use f j 1 TERMINAL out RECOVERY_PREPARATION_OR_EXECUTION_FAILED in
              \<open>simp_all add: sd\<close>)
      next
        case 2
        with i j(1) have f: "\<not> sufficient (fst j)" "current_sufficiency s = Some (fst j)"
          "current_attempt_number s = 1" "current_attempt_role s = RECOVERY"
          by (simp_all add: failure_terminal_Inr)
        show ?thesis
          by (rule I [where v = "V_Execution_Failed j (active_retrieval_query s)", OF fields])
            (use f j 2 nb TERMINAL out RECOVERY_PREPARATION_OR_EXECUTION_FAILED in
              \<open>simp_all add: sd\<close>)
      qed
    next
      case RECOVERED_EVIDENCE_SUFFICIENT
      with t out have i: "validate_two_attempt_recovery_terminal s True
          ''recovered_evidence_sufficient'' = Inr ()"
        by (simp add: validate_terminal_state_def)
      show ?thesis
        by (rule two_attempt_shape [OF i fields refs(1) loop nb(1) TERMINAL])
          (simp add: out RECOVERED_EVIDENCE_SUFFICIENT)
    next
      case INSUFFICIENT_AFTER_BOUNDED_RECOVERY
      with t out have i: "validate_two_attempt_recovery_terminal s False
          ''insufficient_after_bounded_recovery'' = Inr ()"
        by (simp add: validate_terminal_state_def)
      show ?thesis
        by (rule two_attempt_shape [OF i fields refs(1) loop nb(1) TERMINAL])
          (simp add: out INSUFFICIENT_AFTER_BOUNDED_RECOVERY)
    qed
  qed
qed

end
