(* ===== verification/Recovery_Replay.thy ===== *)
theory Recovery_Replay
  imports Recovery_Spec
begin

section \<open>Replay identity (recovery/replay.py) and the properties of the protocol\<close>

text \<open>
  The semantic payload of a recovery state (the dictionary that identifies it), equality of
  payloads, and the theorems about the protocol as a whole. The dumps are Pydantic's
  \<open>model_dump(mode="json")\<close>: a dictionary with one entry per field, in field order, enums as
  their values.
\<close>

definition dump_ref :: "sufficiency_ref \<Rightarrow> json" where
  "dump_ref r = JObj
     [(''policy_contract'', JStr (policy_contract r)),
      (''policy_version'', JStr (policy_version r)),
      (''sufficient'', JBool (sufficient r)),
      (''triggered_gates'', JList (map JStr (triggered_gates r))),
      (''empty_context'', JBool (empty_context r)),
      (''evidence_unit_count'', JInt (int (evidence_unit_count r)))]"

abbreviation json_count :: "nat option \<Rightarrow> json" where
  "json_count n \<equiv> json_opt (\<lambda>k. JInt (int k)) n"

definition dump_diagnostics :: "recovery_diagnostics \<Rightarrow> json" where
  "dump_diagnostics d = JObj
     [(''anchor_count'', json_count (dg_anchor_count d)),
      (''evidence_unit_count'', json_count (dg_evidence_unit_count d)),
      (''top_reranker_score'', json_opt JFloat (dg_top_reranker_score d)),
      (''top1_top2_margin'', json_opt JFloat (dg_top1_top2_margin d)),
      (''top_anchor_cross_retriever_support'',
         json_opt JBool (dg_top_anchor_cross_retriever_support d)),
      (''distinct_document_count'', json_count (dg_distinct_document_count d)),
      (''distinct_section_count'', json_count (dg_distinct_section_count d)),
      (''clipping_occurred'', json_opt JBool (dg_clipping_occurred d)),
      (''budget_exhausted'', json_opt JBool (dg_budget_exhausted d)),
      (''stop_reason'', json_opt (\<lambda>r. JStr (stop_value r)) (dg_stop_reason d))]"

definition dump_attempt :: "recovery_attempt \<Rightarrow> json" where
  "dump_attempt a = JObj
     [(''attempt_number'', JInt (int (attempt_number a))),
      (''attempt_role'', JStr (role_value (attempt_role a))),
      (''active_retrieval_query'', JStr (attempt_query a)),
      (''sufficiency'', dump_ref (attempt_sufficiency a)),
      (''diagnostics'', json_opt dump_diagnostics (attempt_diagnostics a))]"

definition build_recovery_semantic_payload :: "recovery_state \<Rightarrow> json" where
  "build_recovery_semantic_payload s = JObj
     [(''schema_version'', JStr (schema_version s)),
      (''protocol_contract'', JStr (protocol_contract s)),
      (''case_id'', json_opt JStr (case_id s)),
      (''original_query'', JStr (original_query s)),
      (''active_retrieval_query'', JStr (active_retrieval_query s)),
      (''current_attempt_number'', JInt (int (current_attempt_number s))),
      (''current_attempt_role'', JStr (role_value (current_attempt_role s))),
      (''max_retries'', JInt (int (max_retries s))),
      (''phase'', JStr (phase_value (phase s))),
      (''attempts'', JList (map dump_attempt (attempts s))),
      (''current_sufficiency'', json_opt dump_ref (current_sufficiency s)),
      (''terminal_outcome'', json_opt (\<lambda>r. JStr (outcome_value r)) (terminal_outcome s)),
      (''failure_reason'', json_opt (\<lambda>r. JStr (reason_value r)) (failure_reason s))]"

definition recovery_semantic_equal :: "recovery_state \<Rightarrow> recovery_state \<Rightarrow> bool" where
  "recovery_semantic_equal l r \<longleftrightarrow>
     build_recovery_semantic_payload l = build_recovery_semantic_payload r"

subsection \<open>The dumps lose nothing\<close>

lemma value_inj [simp]:
  "stop_value a = stop_value b \<longleftrightarrow> a = b"
  "phase_value c = phase_value d \<longleftrightarrow> c = d"
  "outcome_value e = outcome_value f \<longleftrightarrow> e = f"
  "reason_value g = reason_value h \<longleftrightarrow> g = h"
  "role_value i = role_value j \<longleftrightarrow> i = j"
      apply (cases a; cases b; simp)
     apply (cases c; cases d; simp)
    apply (cases e; cases f; simp)
   apply (cases g; cases h; simp)
  apply (cases i; cases j; simp)
  done

lemma json_opt_inj_simps [simp]:
  "json_opt JStr x = json_opt JStr x' \<longleftrightarrow> x = x'"
  "json_opt JBool y = json_opt JBool y' \<longleftrightarrow> y = y'"
  "json_opt JFloat z = json_opt JFloat z' \<longleftrightarrow> z = z'"
  "json_count n = json_count n' \<longleftrightarrow> n = n'"
  "json_opt (\<lambda>r. JStr (stop_value r)) s = json_opt (\<lambda>r. JStr (stop_value r)) s' \<longleftrightarrow> s = s'"
  "json_opt (\<lambda>r. JStr (outcome_value r)) t = json_opt (\<lambda>r. JStr (outcome_value r)) t' \<longleftrightarrow> t = t'"
  "json_opt (\<lambda>r. JStr (reason_value r)) u = json_opt (\<lambda>r. JStr (reason_value r)) u' \<longleftrightarrow> u = u'"
  by (rule json_opt_inj; simp)+

lemma map_JStr_inj [simp]: "map JStr xs = map JStr ys \<longleftrightarrow> xs = ys"
  by (rule map_json_inj) simp

lemma dump_ref_inj [simp]: "dump_ref a = dump_ref b \<longleftrightarrow> a = b"
  by (cases a; cases b) (simp add: dump_ref_def)

lemma dump_diagnostics_inj [simp]: "dump_diagnostics a = dump_diagnostics b \<longleftrightarrow> a = b"
  by (cases a; cases b) (simp add: dump_diagnostics_def)

lemma json_opt_dumps [simp]:
  "json_opt dump_ref x = json_opt dump_ref y \<longleftrightarrow> x = y"
  "json_opt dump_diagnostics v = json_opt dump_diagnostics w \<longleftrightarrow> v = w"
  by (rule json_opt_inj; simp add: dump_ref_def dump_diagnostics_def)+

lemma dump_attempt_inj [simp]: "dump_attempt a = dump_attempt b \<longleftrightarrow> a = b"
  by (cases a; cases b) (simp add: dump_attempt_def)

lemma map_dump_attempt_inj [simp]: "map dump_attempt xs = map dump_attempt ys \<longleftrightarrow> xs = ys"
  by (rule map_json_inj) simp

lemma semantic_payload_inj:
  "build_recovery_semantic_payload l = build_recovery_semantic_payload r \<longleftrightarrow> l = r"
  by (cases l; cases r) (simp add: build_recovery_semantic_payload_def)

subsection \<open>Facts the properties share\<close>

lemma replay_iff:
  "replay_recovery_events s0 es = Inr s \<longleftrightarrow>
     validate_recovery_state s0 = Inr () \<and> run_events apply_recovery_event s0 es = Inr s"
  by (auto simp: replay_recovery_events_def bind_res_Inr_iff)

lemma apply_keeps_query:
  "apply_recovery_event s e = Inr t \<Longrightarrow> original_query t = original_query s \<and> case_id t = case_id s"
  by (auto simp: apply_recovery_event_def handler_defs bind_res_Inr_iff Let_def
      split: if_splits recovery_event_kind.splits option.splits)

lemma run_keeps_query:
  "run_events apply_recovery_event s es = Inr t \<Longrightarrow>
     original_query t = original_query s \<and> case_id t = case_id s"
  by (induction es arbitrary: s) (auto simp: bind_res_Inr_iff dest!: apply_keeps_query)

lemma apply_keeps_wf:
  "apply_recovery_event s e = Inr t \<Longrightarrow> wf_state s \<Longrightarrow> wf_event e \<Longrightarrow> wf_state t"
  by (auto simp: apply_recovery_event_def handler_defs bind_res_Inr_iff Let_def wf_state_def
      wf_event_def split: if_splits recovery_event_kind.splits option.splits)

lemma run_keeps_wf:
  "run_events apply_recovery_event s es = Inr t \<Longrightarrow> wf_state s \<Longrightarrow> \<forall>e \<in> set es. wf_event e \<Longrightarrow>
     wf_state t"
  by (induction es arbitrary: s) (auto simp: bind_res_Inr_iff dest!: apply_keeps_wf)

lemma build_initial_valid:
  "build_initial_recovery_state q cid = Inr s0 \<Longrightarrow> validate_recovery_state s0 = Inr ()"
  using validate_state_of [of V_Awaiting cid q] by (simp add: build_initial_Inr)

lemma view_steps_ok:
  "view_steps v es v' \<Longrightarrow> view_ok v \<Longrightarrow> \<forall>e \<in> set es. wf_event e \<Longrightarrow> view_ok v'"
  by (induction rule: view_steps.induct) (auto dest: view_step_ok)

lemma replay_view:
  assumes "build_initial_recovery_state q cid = Inr s0" and "\<forall>e \<in> set es. wf_event e"
  shows "replay_recovery_events s0 es = Inr s \<longleftrightarrow>
    (\<exists>v. view_steps V_Awaiting es v \<and> s = state_of cid q v)"
proof -
  from assms(1) have "nonblank q" and s0: "s0 = state_of cid q V_Awaiting"
    by (simp_all add: build_initial_Inr)
  from run_refines [OF this(1) _ assms(2), of V_Awaiting cid s] build_initial_valid [OF assms(1)] s0
  show ?thesis by (simp add: replay_iff)
qed

text \<open>The codes the checks can raise; \<open>INVALID_TRANSITION\<close> comes from the handlers' phase tests only.\<close>

definition never_transition :: "recovery_exc + 'a \<Rightarrow> bool" where
  "never_transition m \<longleftrightarrow> (\<forall>x. m = Inl x \<longrightarrow> exc_code x \<noteq> Some INVALID_TRANSITION)"

lemma never_transition_intros [simp]:
  "never_transition (Inr y)"
  "never_transition (protocol_fail c m f a b) \<longleftrightarrow> c \<noteq> INVALID_TRANSITION"
  "never_transition (Inl (Validation_Error msg))"
  by (simp_all add: never_transition_def protocol_fail_def)

lemma never_transition_bind:
  "never_transition m \<Longrightarrow> (\<And>x. never_transition (f x)) \<Longrightarrow> never_transition (bind_res m f)"
  by (auto simp: never_transition_def bind_res_Inl_iff)

lemma never_transition_ref: "never_transition (validate_sufficiency_ref r)"
  unfolding validate_sufficiency_ref_def by (simp split: if_splits)

lemma never_transition_for_each:
  "(\<And>x. never_transition (f x)) \<Longrightarrow> never_transition (for_each f xs)"
  by (induction xs) (simp_all add: never_transition_bind)

lemma never_transition_loop: "never_transition (validate_attempts_loop q seen i xs)"
  by (induction xs arbitrary: seen i) (simp_all add: Let_def)

lemma never_transition_attempts: "never_transition (validate_attempts s)"
  unfolding validate_attempts_def
  by (rule never_transition_bind) (simp_all add: never_transition_loop split: option.split)

lemma never_transition_two: "never_transition (validate_two_attempt_recovery_terminal s b l)"
  by (cases "attempts s"; cases "tl (attempts s)"; cases "tl (tl (attempts s))")
    (simp_all add: validate_two_attempt_recovery_terminal_def)

lemma never_transition_failure: "never_transition (validate_failure_terminal s)"
  unfolding validate_failure_terminal_def by (simp split: option.split)

lemma never_transition_initial: "never_transition (validate_initial_sufficient_terminal s)"
  unfolding validate_initial_sufficient_terminal_def by (simp add: Let_def)

lemma never_transition_phase: "never_transition (validate_phase_consistency s)"
  unfolding validate_phase_consistency_def validate_terminal_state_def
  by (simp add: never_transition_two never_transition_failure never_transition_initial
      split: option.split recovery_terminal_outcome.split)

lemma never_transition_validate: "never_transition (validate_recovery_state s)"
  unfolding validate_recovery_state_def
  by (auto intro!: never_transition_bind simp: never_transition_for_each never_transition_ref
      never_transition_attempts never_transition_phase split: option.split)

lemma never_transition_fields: "never_transition (require_event_fields e a b c d)"
  unfolding require_event_fields_def
  by (intro never_transition_bind) (simp_all add: never_transition_ref split: option.split)

lemma never_transition_validated: "never_transition (validated s)"
  unfolding validated_def by (simp add: never_transition_bind never_transition_validate)

lemma never_transition_mk: "never_transition (mk_attempt n r q f d)"
  unfolding mk_attempt_def exact_nonblank_str_def by (simp add: never_transition_bind)

lemmas never_transition_facts = never_transition_fields never_transition_validated
  never_transition_mk

text \<open>The phases in which an event of each kind is admitted.\<close>

fun kind_phases :: "recovery_event_kind \<Rightarrow> recovery_phase set" where
  "kind_phases RECORD_INITIAL_SUFFICIENCY = {AWAITING_INITIAL_SUFFICIENCY}"
| "kind_phases PREPARE_RECOVERY_QUERY = {RECOVERY_ELIGIBLE}"
| "kind_phases RECORD_RECOVERY_SUFFICIENCY = {RECOVERY_ATTEMPT_PENDING}"
| "kind_phases FAIL_RECOVERY = {RECOVERY_ELIGIBLE, RECOVERY_ATTEMPT_PENDING}"

lemma handlers_in_phase:
  "phase s \<in> kind_phases RECORD_INITIAL_SUFFICIENCY \<Longrightarrow> never_transition (apply_initial_sufficiency s e)"
  "phase s \<in> kind_phases PREPARE_RECOVERY_QUERY \<Longrightarrow> never_transition (apply_prepare_recovery_query s e)"
  "phase s \<in> kind_phases RECORD_RECOVERY_SUFFICIENCY \<Longrightarrow> never_transition (apply_recovery_sufficiency s e)"
  "phase s \<in> kind_phases FAIL_RECOVERY \<Longrightarrow> never_transition (apply_fail_recovery s e)"
  by (auto simp: handler_defs never_transition_facts Let_def intro!: never_transition_bind
      split: option.split)

lemma apply_in_phase:
  assumes "phase s = TERMINAL \<or> phase s \<in> kind_phases (ev_kind e)"
  shows "never_transition (apply_recovery_event s e)"
  unfolding apply_recovery_event_def
  by (rule never_transition_bind)
    (use assms in \<open>auto simp: never_transition_validate handlers_in_phase
      split: recovery_event_kind.split\<close>)

lemma apply_out_of_phase:
  assumes "validate_recovery_state s = Inr ()" and "phase s \<noteq> TERMINAL"
    and "phase s \<notin> kind_phases (ev_kind e)"
  shows "\<exists>x. apply_recovery_event s e = Inl x \<and> exc_code x = Some INVALID_TRANSITION"
  using assms
  by (cases "ev_kind e") (auto simp: apply_recovery_event_def handler_defs)

text \<open>From every situation a terminal one is reachable in at most \<open>phase_rank\<close> events.\<close>

lemma view_finishes:
  assumes "view_ok v"
  shows "\<exists>es v'. view_steps v es v' \<and> view_terminal v' \<and> (\<forall>e \<in> set es. wf_event e) \<and>
    length es \<le> 2"
proof -
  have one: ?thesis if "view_step v e v'" "view_terminal v'" "wf_event e" for e v'
    using that by (intro exI [of _ "[e]"] exI [of _ v']) simp
  show ?thesis
  proof (cases v)
    case V_Awaiting
    define r where "r = \<lparr>policy_contract = SUFFICIENCY_POLICY_V1,
      policy_version = RECOVERY_POLICY_VERSION_V1, sufficient = True, triggered_gates = [],
      empty_context = False, evidence_unit_count = 1\<rparr>"
    have "view_step V_Awaiting (event_of RECORD_INITIAL_SUFFICIENCY (Some (r, None)) None None)
        (V_First_Sufficient (r, None))"
      by (rule view_step.intros) (simp_all add: r_def valid_ref_def)
    from one [unfolded V_Awaiting, OF this] V_Awaiting show ?thesis
      by (simp add: wf_event_def event_of_def)
  next
    case (V_Eligible a)
    from one [unfolded V_Eligible, OF view_step.rewrite_failed] V_Eligible show ?thesis
      by (simp add: wf_event_def event_of_def)
  next
    case (V_Pending a q1)
    from one [unfolded V_Pending, OF view_step.execution_failed] V_Pending show ?thesis
      by (simp add: wf_event_def event_of_def)
  qed (intro exI [of _ "[]"] exI [of _ v], simp)+
qed

text \<open>Sample data for the concrete instances below.\<close>

definition sample_ref :: "bool \<Rightarrow> sufficiency_ref" where
  "sample_ref b = \<lparr>policy_contract = ''sufficiency-v1'', policy_version = ''v1'', sufficient = b,
     triggered_gates = (if b then [] else [''empty_context_v1'']), empty_context = (\<not> b),
     evidence_unit_count = (if b then 2 else 0)\<rparr>"

definition sample_events :: "recovery_event list" where
  "sample_events =
     [event_of RECORD_INITIAL_SUFFICIENCY (Some (sample_ref False, None)) None None,
      event_of PREPARE_RECOVERY_QUERY None (Some ''leave policy'') None,
      event_of RECORD_RECOVERY_SUFFICIENCY (Some (sample_ref True, None)) None None]"

definition sample_final :: recovery_state where
  "sample_final = state_of None ''days off'' (V_Second_Judged (sample_ref False, None)
     ''leave policy'' (sample_ref True, None))"

lemma sample_ref_valid [simp]: "valid_ref (sample_ref b)"
  by (simp add: sample_ref_def valid_ref_def SUFFICIENCY_POLICY_V1_def
      RECOVERY_POLICY_VERSION_V1_def EMPTY_CONTEXT_GATE_V1_def)

lemma sample_ref_sel [simp]: "sufficient (sample_ref b) = b"
  by (simp add: sample_ref_def)

lemma nonblank_days_off [simp]: "nonblank ''days off''" by code_simp
lemma nonblank_leave_policy [simp]: "nonblank ''leave policy''" by code_simp

lemma sample_build [simp]:
  "build_initial_recovery_state ''days off'' None = Inr (base_state None ''days off'')"
  by (simp add: build_initial_Inr)

lemma sample_wf: "\<forall>e \<in> set sample_events. wf_event e"
  by (simp add: sample_events_def wf_event_def event_of_def)

lemma sample_steps: "view_steps V_Awaiting sample_events
    (V_Second_Judged (sample_ref False, None) ''leave policy'' (sample_ref True, None))"
  by (auto simp: sample_events_def intro!: exI view_step.intros)

lemma sample_replay:
  "replay_recovery_events (base_state None ''days off'') sample_events = Inr sample_final"
  using replay_view [OF sample_build sample_wf] sample_steps sample_final_def by blast

subsection \<open>Properties\<close>

text \<open>C2: Replaying events from a freshly built state implements the one-retry contract exactly:
  the code accepts a sequence if and only if the abstract relation can make those steps, and the
  record it returns is the record of the situation reached.\<close>

theorem recovery_replay_refines:
  assumes "build_initial_recovery_state q cid = Inr s0" and "\<forall>e \<in> set es. wf_event e"
  shows "replay_recovery_events s0 es = Inr s \<longleftrightarrow>
    (\<exists>v. view_steps V_Awaiting es v \<and> s = state_of cid q v)"
  by (rule replay_view [OF assms])

theorem recovery_replay_refines_witness:
  "\<exists>v. view_steps V_Awaiting sample_events v \<and> sample_final = state_of None ''days off'' v"
  using recovery_replay_refines [OF sample_build sample_wf] sample_replay by blast

text \<open>C13: From any state the validator accepts, an accepted event sequence never changes the
  original query or the case id, has at most three events, and ends in a valid state with at most
  two attempts; the first ran on the original query, and a second one exists only when the first
  was insufficient.\<close>

theorem recovery_replay_bounded:
  assumes "replay_recovery_events s0 es = Inr s" and "wf_state s0" and "\<forall>e \<in> set es. wf_event e"
  shows "original_query s = original_query s0 \<and> case_id s = case_id s0 \<and>
    length es + phase_rank (phase s) \<le> 3 \<and> validate_recovery_state s = Inr () \<and>
    length (attempts s) \<le> 2 \<and>
    (attempts s \<noteq> [] \<longrightarrow> attempt_query (hd (attempts s)) = original_query s0) \<and>
    (2 \<le> length (attempts s) \<longrightarrow> \<not> sufficient (attempt_sufficiency (hd (attempts s))))"
proof -
  from assms(1) have v0: "validate_recovery_state s0 = Inr ()"
    and r: "run_events apply_recovery_event s0 es = Inr s" by (simp_all add: replay_iff)
  have v: "validate_recovery_state s = Inr ()" using recovery.run_valid [OF v0 r] .
  have rank: "phase_rank (phase s) + length es \<le> phase_rank (phase s0)"
    using recovery.run_rank [OF v0 r] .
  have "phase_rank (phase s0) \<le> 3" by (cases "phase s0") simp_all
  moreover from shape_of_valid [OF v run_keeps_wf [OF r assms(2,3)]] obtain w cur where w: "view_ok w"
    and s: "s = (state_of (case_id s) (original_query s) w)\<lparr>current_sufficiency := cur\<rparr>"
    unfolding recovery_shape_def by blast
  have "length (attempts s) \<le> 2 \<and>
      (attempts s \<noteq> [] \<longrightarrow> attempt_query (hd (attempts s)) = original_query s) \<and>
      (2 \<le> length (attempts s) \<longrightarrow> \<not> sufficient (attempt_sufficiency (hd (attempts s))))"
    by (subst (1 2 3 5 6) s, use w in \<open>cases w\<close>)
      (simp_all add: base_state_def judged_state_def pending_state_def)
  ultimately show ?thesis using rank v run_keeps_query [OF r] by simp
qed

theorem recovery_replay_bounded_witness:
  "length sample_events + phase_rank (phase sample_final) \<le> 3 \<and> length (attempts sample_final) \<le> 2"
proof -
  have "wf_state (base_state None ''days off'')"
    by (simp add: wf_state_def base_state_def)
  from recovery_replay_bounded [OF sample_replay this sample_wf] show ?thesis by blast
qed

text \<open>C14: The validator is sound and complete for the contract: it accepts a well-formed record
  exactly when the record is that of one of the seven situations, up to the one field
  \<open>current_sufficiency\<close> it leaves open before the terminal phase.\<close>

theorem validate_recovery_state_exact:
  assumes "wf_state s"
  shows "validate_recovery_state s = Inr () \<longleftrightarrow> recovery_shape s"
proof
  assume "validate_recovery_state s = Inr ()"
  then show "recovery_shape s" by (rule shape_of_valid [OF _ assms])
next
  assume "recovery_shape s"
  then obtain v cur where "view_ok v" "current_allowed v cur"
    and s: "s = (state_of (case_id s) (original_query s) v)\<lparr>current_sufficiency := cur\<rparr>"
    unfolding recovery_shape_def by blast
  then show "validate_recovery_state s = Inr ()" by (subst s) (rule shape_validates)
qed

theorem validate_recovery_state_exact_witness:
  "validate_recovery_state (base_state None ''days off'') = Inr () \<and>
   recovery_shape (base_state None ''days off'')"
proof -
  have "wf_state (base_state None ''days off'')" by (simp add: wf_state_def base_state_def)
  from validate_recovery_state_exact [OF this] show ?thesis
    using build_initial_valid [OF sample_build] by blast
qed

text \<open>A terminal state is final: once a prefix of an accepted sequence reaches it there is no
  further event, and every event offered to it is refused with \<open>TERMINAL_STATE_TRANSITION\<close>.\<close>

theorem recovery_terminal_final:
  assumes "replay_recovery_events s0 xs = Inr t" and "phase t = TERMINAL"
  shows "(replay_recovery_events s0 (xs @ ys) = Inr s \<longleftrightarrow> ys = [] \<and> s = t) \<and>
    apply_recovery_event t e = Inl (Protocol_Error TERMINAL_STATE_TRANSITION
      ''cannot transition a terminal recovery state''
      \<lparr>err_field_name = Some ''phase'', err_expected = DNone, err_actual = DNone\<rparr>)"
proof -
  from assms(1) have v0: "validate_recovery_state s0 = Inr ()"
    and r: "run_events apply_recovery_event s0 xs = Inr t" by (simp_all add: replay_iff)
  have "validate_recovery_state t = Inr ()" using recovery.run_valid [OF v0 r] .
  moreover from this assms(2) have "apply_recovery_event t e = Inl (Protocol_Error
      TERMINAL_STATE_TRANSITION ''cannot transition a terminal recovery state''
      \<lparr>err_field_name = Some ''phase'', err_expected = DNone, err_actual = DNone\<rparr>)"
    by (simp add: apply_recovery_event_def)
  moreover have "run_events apply_recovery_event s0 (xs @ ys) = Inr s \<longleftrightarrow> ys = [] \<and> s = t"
    using recovery.terminal_only_last [OF v0 _ r assms(2), of ys s] r by auto
  ultimately show ?thesis using v0 by (simp add: replay_iff)
qed

theorem recovery_terminal_final_witness:
  "phase sample_final = TERMINAL \<and>
   exc_code (projl (apply_recovery_event sample_final (hd sample_events))) = Some TERMINAL_STATE_TRANSITION"
proof -
  have "phase sample_final = TERMINAL" by (simp add: sample_final_def)
  then show ?thesis
    using recovery_terminal_final [OF sample_replay, of "[]" sample_final "hd sample_events"] by simp
qed

text \<open>C15: No reachable state is stuck: at most two further events lead to a terminal state.\<close>

theorem recovery_never_stuck:
  assumes "build_initial_recovery_state q cid = Inr s0" and "\<forall>e \<in> set es. wf_event e"
    and "replay_recovery_events s0 es = Inr s"
  shows "\<exists>more t. replay_recovery_events s0 (es @ more) = Inr t \<and> phase t = TERMINAL \<and>
    (\<forall>e \<in> set more. wf_event e) \<and> length more \<le> 2"
proof -
  from assms obtain v where v: "view_steps V_Awaiting es v" "s = state_of cid q v"
    by (auto simp: replay_view)
  then have "view_ok v" using view_steps_ok assms(2) by fastforce
  with view_finishes obtain more v' where m: "view_steps v more v'" "view_terminal v'"
    "\<forall>e \<in> set more. wf_event e" "length more \<le> 2" by blast
  from assms(1) have nb: "nonblank q" by (simp add: build_initial_Inr)
  from run_refines [OF nb \<open>view_ok v\<close> m(3)] m(1) v(2)
  have "run_events apply_recovery_event s more = Inr (state_of cid q v')" by blast
  with assms(3) have "replay_recovery_events s0 (es @ more) = Inr (state_of cid q v')"
    by (simp add: replay_iff run_events_append)
  with m show ?thesis by (intro exI [of _ more] exI [of _ "state_of cid q v'"]) simp
qed

theorem recovery_never_stuck_witness:
  "\<exists>more t. replay_recovery_events (base_state None ''days off'') (sample_events @ more) = Inr t \<and>
     phase t = TERMINAL \<and> (\<forall>e \<in> set more. wf_event e) \<and> length more \<le> 2"
  by (rule recovery_never_stuck [OF sample_build sample_wf sample_replay])

text \<open>The code \<open>INVALID_TRANSITION\<close> means exactly one thing: a valid, non-terminal state was
  offered an event whose kind its phase does not admit.\<close>

theorem invalid_transition_exact:
  "(\<exists>x. apply_recovery_event s e = Inl x \<and> exc_code x = Some INVALID_TRANSITION) \<longleftrightarrow>
     validate_recovery_state s = Inr () \<and> phase s \<noteq> TERMINAL \<and> phase s \<notin> kind_phases (ev_kind e)"
  (is "?bad \<longleftrightarrow> ?cond")
proof
  assume bad: ?bad
  then have "\<not> never_transition (apply_recovery_event s e)"
    unfolding never_transition_def by blast
  with apply_in_phase have p: "phase s \<noteq> TERMINAL" "phase s \<notin> kind_phases (ev_kind e)" by blast+
  have "validate_recovery_state s = Inr ()"
  proof (cases "validate_recovery_state s")
    case (Inl x)
    with bad have "exc_code x = Some INVALID_TRANSITION" by (auto simp: apply_recovery_event_def)
    with Inl never_transition_validate [of s] show ?thesis by (simp add: never_transition_def)
  qed simp
  with p show ?cond by blast
qed (blast intro: apply_out_of_phase)

text \<open>The semantic payload identifies a recovery state: two states have equal payloads exactly
  when they agree in every field, diagnostics and attempt history included.\<close>

theorem recovery_semantic_equal_iff: "recovery_semantic_equal l r \<longleftrightarrow> l = r"
  by (simp add: recovery_semantic_equal_def semantic_payload_inj)

text \<open>A projection built from a decision is always a valid one that keeps the decision and its
  unit count, and it is refused exactly for a sufficient decision with a nonpositive count and an
  insufficient one with a nonzero count.\<close>

theorem sufficiency_ref_from_decision_exact:
  "case sufficiency_ref_from_decision b n of
     Inr r \<Rightarrow> valid_ref r \<and> sufficient r = b \<and> validate_sufficiency_ref r = Inr () \<and>
       int (evidence_unit_count r) = (case n of Some k \<Rightarrow> k | None \<Rightarrow> if b then 1 else 0)
   | Inl _ \<Rightarrow> (\<exists>k. n = Some k \<and> (if b then k \<le> 0 else k \<noteq> 0))"
  by (cases b; cases n)
    (auto simp: sufficiency_ref_from_decision_def Let_def valid_ref_def protocol_fail_def
      enforce_sufficiency_v1_semantics_def)

end
