(* ===== verification/Recovery_Hash.thy ===== *)
theory Recovery_Hash
  imports Recovery_Replay Core_Ids
begin

section \<open>The hash of a recovery state (recovery/replay.py)\<close>

text \<open>
  \<open>build_recovery_state_hash\<close> over the semantic payload of \<open>Recovery_Replay\<close> and the
  configuration hash of \<open>Core_Ids\<close>.
\<close>

definition build_recovery_state_hash :: "digest \<Rightarrow> (pyfloat \<Rightarrow> string) \<Rightarrow> recovery_state \<Rightarrow> string" where
  "build_recovery_state_hash sha fr s =
     replace_once ''cfg_'' ''recov_'' (canonical_config_hash sha fr (build_recovery_semantic_payload s))"

subsection \<open>Dumps are determined by their canonical form\<close>

lemma canon_json_opt: "canon (json_opt f x) = json_opt (\<lambda>y. canon (f y)) x"
  by (cases x) simp_all

lemma canon_dump_ref_inj [simp]: "canon (dump_ref a) = canon (dump_ref b) \<longleftrightarrow> a = b"
  unfolding dump_ref_def
  by (subst canon_fields) (auto simp: inj_map_eq_map inj_def comp_def intro: sufficiency_ref.equality)

lemma canon_dump_diagnostics_inj [simp]:
  "canon (dump_diagnostics a) = canon (dump_diagnostics b) \<longleftrightarrow> a = b"
  unfolding dump_diagnostics_def
  by (subst canon_fields) (auto simp: canon_json_opt intro: recovery_diagnostics.equality)

lemma canon_dumps_not_null [simp]: "canon (dump_ref a) \<noteq> JNull" "canon (dump_diagnostics d) \<noteq> JNull"
  by (simp_all add: dump_ref_def dump_diagnostics_def)

lemma canon_opt_dumps [simp]:
  "json_opt (\<lambda>r. canon (dump_ref r)) x = json_opt (\<lambda>r. canon (dump_ref r)) y \<longleftrightarrow> x = y"
  "json_opt (\<lambda>d. canon (dump_diagnostics d)) v = json_opt (\<lambda>d. canon (dump_diagnostics d)) w \<longleftrightarrow> v = w"
  by (rule json_opt_inj; simp)+

lemma canon_dump_attempt_inj [simp]: "canon (dump_attempt a) = canon (dump_attempt b) \<longleftrightarrow> a = b"
  unfolding dump_attempt_def
  by (subst canon_fields) (auto simp: canon_json_opt intro: recovery_attempt.equality)

lemma canon_payload_inj:
  "canon (build_recovery_semantic_payload l) = canon (build_recovery_semantic_payload r) \<longleftrightarrow> l = r"
  unfolding build_recovery_semantic_payload_def
  by (subst canon_fields) (auto simp: canon_json_opt comp_def inj_map_eq_map inj_def
      intro: recovery_state.equality)

text \<open>Unless SHA-256 collides on their payloads, two recovery states have the same hash exactly when
  they are the same state.\<close>

theorem recovery_state_hash_exact:
  assumes "float_repr_ok fr"
    and "no_collision sha fr (build_recovery_semantic_payload l) (build_recovery_semantic_payload r)"
  shows "(build_recovery_state_hash sha fr l = build_recovery_state_hash sha fr r) = (l = r)"
proof -
  have "build_recovery_state_hash sha fr s = hashed sha fr ''recov_'' (build_recovery_semantic_payload s)"
    for s
    using config_hash_with_eq [of "''recov_''" sha fr]
    by (simp add: build_recovery_state_hash_def config_hash_with_def)
  with hashed_eq_iff [OF assms] show ?thesis by (simp only: canon_payload_inj)
qed

theorem recovery_state_hash_exact_witness:
  "build_recovery_state_hash sample_digest sample_float_repr sample_final \<noteq>
   build_recovery_state_hash sample_digest sample_float_repr
     (sample_final\<lparr>case_id := Some ''case-1''\<rparr>)"
proof -
  have "sample_final \<noteq> sample_final\<lparr>case_id := Some ''case-1''\<rparr>"
    by (auto simp: sample_final_def pending_state_def judged_state_def base_state_def dest!: arg_cong [where f = case_id])
  with recovery_state_hash_exact [OF sample_float_repr_ok sample_no_collision] show ?thesis by blast
qed

end
