(* ===== verification/Recovery_Coordinator.thy ===== *)
theory Recovery_Coordinator
  imports Recovery_Hash Sufficiency_Policy
begin

section \<open>The recovery coordinator (recovery/coordinator.py, lineage.py, trace.py, diagnostics_adapter.py)\<close>

text \<open>
  One bounded retry over the recovery protocol: rewrite the query, assemble a second context, judge
  it, and report state and trace. The rewriter, its construction, its static provenance and the
  context assembler are arguments; calls to the rewriter and to the assembler are recorded in a log,
  so that what the trace claims can be compared with what happened.
\<close>

subsection \<open>Rewriter contracts\<close>

record rewrite_provenance =
  rw_prompt_contract :: string
  rw_output_contract :: string
  rw_adapter_contract :: string
  rw_rewriter_config_hash :: string
  rw_provider :: string
  rw_normalized_endpoint :: string
  rw_model :: string
  rw_rewrite_call_count :: nat
  rw_rewritten_query :: "string option"

text \<open>\<open>Rewrite_Error\<close> is \<open>RecoveryRewriteError\<close>; \<open>Rewriter_Other\<close> any other exception, by its \<open>str\<close>.\<close>

datatype rewrite_exc =
    Rewrite_Error string "rewrite_provenance option"
  | Rewriter_Other string

record rewrite_input =
  ri_original_query :: string
  ri_attempt_number :: nat
  ri_attempt_role :: attempt_role
  ri_sufficiency :: sufficiency_ref
  ri_diagnostics :: recovery_diagnostics

subsection \<open>Diagnostics of a context\<close>

definition adapt_context_to_recovery_diagnostics ::
    "(string \<Rightarrow> string) \<Rightarrow> (pyfloat \<Rightarrow> pyfloat \<Rightarrow> pyfloat) \<Rightarrow> context_result \<Rightarrow>
     string + recovery_diagnostics" where
  "adapt_context_to_recovery_diagnostics repr rsub r =
     (let diag = cx_diagnostics r; stop = stop_value (ad_stop_reason diag);
          score = (\<lambda>c. rp_reranker_score (hc_rerank c)) in
      if stop \<notin> set CONTEXT_STOP_REASONS_V1 then
        Inl (''unsupported context stop_reason for recovery diagnostics: '' @ repr stop)
      else Inr
        \<lparr>dg_anchor_count = Some (length (cx_anchors r)),
         dg_evidence_unit_count = Some (length (cx_evidence_units r)),
         dg_top_reranker_score = (case cx_anchors r of [] \<Rightarrow> None | a # _ \<Rightarrow> Some (score a)),
         dg_top1_top2_margin =
           (case cx_anchors r of a # b # _ \<Rightarrow> Some (rsub (score a) (score b)) | _ \<Rightarrow> None),
         dg_top_anchor_cross_retriever_support = (case cx_anchors r of [] \<Rightarrow> None
           | a # _ \<Rightarrow> Some (rp_dense_rank (hc_rerank a) \<noteq> None \<and> rp_lexical_rank (hc_rerank a) \<noteq> None)),
         dg_distinct_document_count = Some (card (eu_document_id ` set (cx_evidence_units r))),
         dg_distinct_section_count =
           Some (card ((\<lambda>u. (eu_document_id u, eu_section_path u)) ` set (cx_evidence_units r))),
         dg_clipping_occurred = Some (ad_clipping_occurred diag),
         dg_budget_exhausted = Some (ad_budget_exhausted diag),
         dg_stop_reason = stop_of_value stop\<rparr>)"

subsection \<open>Lineage\<close>

record recovery_lineage =
  li_corpus_id :: string
  li_chunk_set_id :: string
  li_dense_index_id :: string
  li_lexical_index_id :: string
  li_fusion_config_hash :: string
  li_reranker_config_hash :: string
  li_context_config_hash :: string
  li_query :: string

text \<open>
  The last check stands for the constructor \<open>RecoveryLineageV1(...)\<close>, whose \<open>ValidationError\<close> is a
  \<open>ValueError\<close>; Pydantic's rendering around the validator's message is not modelled.
\<close>

definition extract_recovery_lineage :: "context_result \<Rightarrow> string + recovery_lineage" where
  "extract_recovery_lineage r = (case cx_corpus_id r of
     None \<Rightarrow> Inl ''context metadata.corpus_id is required for recovery lineage''
   | Some corpus \<Rightarrow>
       if py_strip corpus = [] then Inl ''context metadata.corpus_id is required for recovery lineage''
       else if py_strip (cx_chunk_set_id r) = [] then
         Inl ''context metadata.chunk_set_id is required for recovery lineage''
       else if \<not> list_all nonblank [cx_dense_index_id r, cx_lexical_index_id r, cx_fusion_config_hash r,
           cx_reranker_config_hash r, cx_context_config_hash r, cx_query r] then
         Inl ''must be a nonblank string''
       else Inr \<lparr>li_corpus_id = corpus, li_chunk_set_id = cx_chunk_set_id r,
         li_dense_index_id = cx_dense_index_id r, li_lexical_index_id = cx_lexical_index_id r,
         li_fusion_config_hash = cx_fusion_config_hash r,
         li_reranker_config_hash = cx_reranker_config_hash r,
         li_context_config_hash = cx_context_config_hash r, li_query = cx_query r\<rparr>)"

definition lineage_stack_equal :: "recovery_lineage \<Rightarrow> recovery_lineage \<Rightarrow> bool" where
  "lineage_stack_equal l r \<longleftrightarrow> li_corpus_id l = li_corpus_id r \<and> li_chunk_set_id l = li_chunk_set_id r \<and>
     li_dense_index_id l = li_dense_index_id r \<and> li_lexical_index_id l = li_lexical_index_id r \<and>
     li_fusion_config_hash l = li_fusion_config_hash r \<and>
     li_reranker_config_hash l = li_reranker_config_hash r \<and>
     li_context_config_hash l = li_context_config_hash r"

subsection \<open>Trace\<close>

record runtime_trace =
  tr_schema_version :: string
  tr_recovery_state_hash :: string
  tr_original_query :: string
  tr_active_retrieval_query :: string
  tr_rewriter_contract :: "string option"
  tr_prompt_contract :: "string option"
  tr_response_contract :: "string option"
  tr_rewriter_config_hash :: "string option"
  tr_provider :: "string option"
  tr_normalized_endpoint :: "string option"
  tr_model :: "string option"
  tr_rewrite_call_count :: nat
  tr_recovery_retrieval_attempt_count :: nat
  tr_initial_sufficiency :: "sufficiency_ref option"
  tr_recovery_sufficiency :: "sufficiency_ref option"
  tr_initial_lineage :: "recovery_lineage option"
  tr_recovery_lineage :: "recovery_lineage option"
  tr_terminal_outcome :: "recovery_terminal_outcome option"
  tr_failure_reason :: "recovery_failure_reason option"
  tr_rewrite_provenance :: "rewrite_provenance option"

definition build_runtime_trace ::
    "digest \<Rightarrow> (pyfloat \<Rightarrow> string) \<Rightarrow> recovery_state \<Rightarrow> nat \<Rightarrow> nat \<Rightarrow> recovery_lineage option \<Rightarrow>
     recovery_lineage option \<Rightarrow> rewrite_provenance option \<Rightarrow> sufficiency_ref option \<Rightarrow> runtime_trace" where
  "build_runtime_trace sha fr s rewrites retrievals initial_lineage rec_lineage prov rec_sufficiency =
     \<lparr>tr_schema_version = ''recovery-runtime-trace-v1'',
      tr_recovery_state_hash = build_recovery_state_hash sha fr s,
      tr_original_query = original_query s, tr_active_retrieval_query = active_retrieval_query s,
      tr_rewriter_contract = map_option rw_adapter_contract prov,
      tr_prompt_contract = map_option rw_prompt_contract prov,
      tr_response_contract = map_option rw_output_contract prov,
      tr_rewriter_config_hash = map_option rw_rewriter_config_hash prov,
      tr_provider = map_option rw_provider prov,
      tr_normalized_endpoint = map_option rw_normalized_endpoint prov,
      tr_model = map_option rw_model prov,
      tr_rewrite_call_count = rewrites, tr_recovery_retrieval_attempt_count = retrievals,
      tr_initial_sufficiency = (case attempts s of a # _ \<Rightarrow> Some (attempt_sufficiency a)
         | [] \<Rightarrow> current_sufficiency s),
      tr_recovery_sufficiency = rec_sufficiency, tr_initial_lineage = initial_lineage,
      tr_recovery_lineage = rec_lineage, tr_terminal_outcome = terminal_outcome s,
      tr_failure_reason = failure_reason s, tr_rewrite_provenance = prov\<rparr>"

subsection \<open>Outcomes and calls\<close>

datatype coordinator_exc =
    Recovery_Runtime_Error string recovery_state runtime_trace recovery_failure_reason
  | Coordinator_Value_Error string
  | Uncaught_Protocol recovery_exc
  | Uncaught_Policy string
  | Uncaught_Adapter string

record coordinator_result =
  cr_recovery_invoked :: bool
  cr_context :: context_result
  cr_sufficiency :: policy_decision
  cr_state :: "recovery_state option"
  cr_trace :: "runtime_trace option"
  cr_rewrite_call_count :: nat
  cr_recovery_retrieval_attempt_count :: nat

datatype recovery_call = Call_Rewrite rewrite_input | Call_Assemble retrieval_request

type_synonym 'a logged = "recovery_call list \<times> (coordinator_exc + 'a)"

definition quiet :: "coordinator_exc + 'a \<Rightarrow> 'a logged" where
  "quiet r = ([], r)"

definition bind_log :: "'a logged \<Rightarrow> ('a \<Rightarrow> 'b logged) \<Rightarrow> 'b logged" where
  "bind_log m f = (case m of
     (calls, Inl e) \<Rightarrow> (calls, Inl e)
   | (calls, Inr x) \<Rightarrow> (case f x of (later, r) \<Rightarrow> (calls @ later, r)))"

record coordinator_env =
  co_enabled :: bool
  co_max_retries :: int
  co_abstention :: abstention_settings
  co_provenance :: "string + rewrite_provenance"
  co_get_rewriter :: "rewrite_exc + unit"
  co_rewrite :: "rewrite_input \<Rightarrow> rewrite_exc + string \<times> rewrite_provenance"
  co_assemble :: "retrieval_request \<Rightarrow> assemble_exc + context_result"

fun retrieval_exc_str :: "retrieval_exc \<Rightarrow> string" where
  "retrieval_exc_str (Hybrid_Retrieval_Error m) = m"
| "retrieval_exc_str (Hybrid_Rerank_Error m) = m"
| "retrieval_exc_str (Discovery_Error m) = m"
| "retrieval_exc_str (Value_Error m) = m"
| "retrieval_exc_str (Branch_Error m) = m"

fun assemble_failure :: "assemble_exc \<Rightarrow> string" where
  "assemble_failure (Context_Error m) = m"
| "assemble_failure (Upstream_Error e) = ''recovery retrieval/context failed: '' @ retrieval_exc_str e"
| "assemble_failure (Store_Error e) = ''recovery retrieval/context failed: '' @ context_exc_str e"
| "assemble_failure (Counter_Error m) = ''recovery retrieval/context failed: '' @ m"

text \<open>The keyword arguments \<open>assemble(query=..., corpus_name=...)\<close> leaves at their defaults.\<close>

definition plain_request :: "string \<Rightarrow> string \<Rightarrow> retrieval_request" where
  "plain_request query corpus_name = \<lparr>rq_query = query, rq_corpus_name = corpus_name, rq_top_k = None,
     rq_dense_index_id = None, rq_dense_collection_name = None, rq_lexical_index_id = None,
     rq_chunk_set_id = None, rq_corpus_id = None, rq_document_ids = None\<rparr>"

subsection \<open>Failing\<close>

definition fail_event :: "recovery_failure_reason \<Rightarrow> recovery_event" where
  "fail_event reason = \<lparr>ev_kind = FAIL_RECOVERY, ev_sufficiency = None, ev_diagnostics = None,
     ev_prepared_query = None, ev_failure_reason = Some reason\<rparr>"

definition record_event :: "recovery_event_kind \<Rightarrow> sufficiency_ref \<Rightarrow> recovery_diagnostics option \<Rightarrow> recovery_event" where
  "record_event kind r d = \<lparr>ev_kind = kind, ev_sufficiency = Some r, ev_diagnostics = d,
     ev_prepared_query = None, ev_failure_reason = None\<rparr>"

definition close_state :: "recovery_state \<Rightarrow> recovery_failure_reason \<Rightarrow> coordinator_exc + recovery_state" where
  "close_state s reason = (if phase s \<noteq> TERMINAL
     then try_map Uncaught_Protocol (apply_recovery_event s (fail_event reason)) else Inr s)"

definition fail_preparation ::
    "digest \<Rightarrow> (pyfloat \<Rightarrow> string) \<Rightarrow> recovery_state \<Rightarrow> string \<Rightarrow> recovery_lineage option \<Rightarrow>
     rewrite_provenance option \<Rightarrow> nat \<Rightarrow> coordinator_exc + 'a" where
  "fail_preparation sha fr s message initial_lineage prov rewrites =
     bind_res (close_state s REWRITE_PREPARATION_FAILED) (\<lambda>t.
       Inl (Recovery_Runtime_Error message t
         (build_runtime_trace sha fr t rewrites 0 initial_lineage None prov None)
         REWRITE_PREPARATION_FAILED))"

definition fail_execution ::
    "digest \<Rightarrow> (pyfloat \<Rightarrow> string) \<Rightarrow> recovery_state \<Rightarrow> string \<Rightarrow> recovery_lineage option \<Rightarrow>
     recovery_lineage option \<Rightarrow> rewrite_provenance option \<Rightarrow> coordinator_exc + 'a" where
  "fail_execution sha fr s message initial_lineage rec_lineage prov =
     bind_res (close_state s RECOVERY_EXECUTION_FAILED) (\<lambda>t.
       Inl (Recovery_Runtime_Error message t
         (build_runtime_trace sha fr t 1 1 initial_lineage rec_lineage prov None)
         RECOVERY_EXECUTION_FAILED))"

subsection \<open>run\<close>

text \<open>What the preparation of the retry produces.\<close>

record prepared =
  pp_state :: recovery_state
  pp_initial_lineage :: recovery_lineage
  pp_provenance :: rewrite_provenance

definition record_initial ::
    "digest \<Rightarrow> (pyfloat \<Rightarrow> string) \<Rightarrow> (string \<Rightarrow> string) \<Rightarrow> (pyfloat \<Rightarrow> pyfloat \<Rightarrow> pyfloat) \<Rightarrow>
     string \<Rightarrow> context_result \<Rightarrow> coordinator_exc + recovery_state \<times> sufficiency_ref \<times> recovery_diagnostics" where
  "record_initial sha fr repr rsub query initial_context =
     bind_res (try_map Uncaught_Protocol (build_initial_recovery_state query None)) (\<lambda>state.
     bind_res (try_map Uncaught_Protocol (sufficiency_ref_from_decision False (Some 0))) (\<lambda>ref.
     case adapt_context_to_recovery_diagnostics repr rsub initial_context of
       Inl m \<Rightarrow>
         bind_res (try_map Uncaught_Protocol (apply_recovery_event state
            (record_event RECORD_INITIAL_SUFFICIENCY ref None))) (\<lambda>t.
         fail_preparation sha fr t (''recovery diagnostics adaptation failed: '' @ m) None None 0)
     | Inr diagnostics \<Rightarrow>
         bind_res (try_map Uncaught_Protocol (apply_recovery_event state
            (record_event RECORD_INITIAL_SUFFICIENCY ref (Some diagnostics)))) (\<lambda>t.
         Inr (t, ref, diagnostics))))"

definition or_provenance :: "rewrite_provenance option \<Rightarrow> rewrite_provenance \<Rightarrow> rewrite_provenance option" where
  "or_provenance p q = Some (case p of Some x \<Rightarrow> x | None \<Rightarrow> q)"

definition obtain_rewriter ::
    "digest \<Rightarrow> (pyfloat \<Rightarrow> string) \<Rightarrow> coordinator_env \<Rightarrow> recovery_state \<Rightarrow> context_result \<Rightarrow>
     coordinator_exc + recovery_lineage \<times> rewrite_provenance" where
  "obtain_rewriter sha fr env state initial_context =
     (case extract_recovery_lineage initial_context of
        Inl m \<Rightarrow> fail_preparation sha fr state m None None 0
      | Inr lineage \<Rightarrow> (case co_provenance env of
          Inl m \<Rightarrow> fail_preparation sha fr state
            (''recovery rewriter provenance build failed: '' @ m) (Some lineage) None 0
        | Inr prov \<Rightarrow> (case co_get_rewriter env of
            Inl (Rewrite_Error m p) \<Rightarrow>
              fail_preparation sha fr state m (Some lineage) (or_provenance p prov) 0
          | Inl (Rewriter_Other m) \<Rightarrow> fail_preparation sha fr state
              (''recovery rewriter construction failed: '' @ m) (Some lineage) (Some prov) 0
          | Inr _ \<Rightarrow> Inr (lineage, prov))))"

definition rewrite_query ::
    "digest \<Rightarrow> (pyfloat \<Rightarrow> string) \<Rightarrow> coordinator_env \<Rightarrow> recovery_state \<Rightarrow> recovery_lineage \<Rightarrow>
     rewrite_provenance \<Rightarrow> rewrite_input \<Rightarrow> (string \<times> rewrite_provenance) logged" where
  "rewrite_query sha fr env state lineage prov input =
     ([Call_Rewrite input], (case co_rewrite env input of
        Inl (Rewrite_Error m p) \<Rightarrow>
          fail_preparation sha fr state m (Some lineage) (or_provenance p prov) 1
      | Inl (Rewriter_Other m) \<Rightarrow> fail_preparation sha fr state
          (''recovery rewrite failed: '' @ m) (Some lineage) (Some prov) 1
      | Inr out \<Rightarrow> Inr out))"

definition prepare_retry ::
    "digest \<Rightarrow> (pyfloat \<Rightarrow> string) \<Rightarrow> (string \<Rightarrow> string) \<Rightarrow> (pyfloat \<Rightarrow> pyfloat \<Rightarrow> pyfloat) \<Rightarrow>
     coordinator_env \<Rightarrow> string \<Rightarrow> context_result \<Rightarrow> prepared logged" where
  "prepare_retry sha fr repr rsub env query initial_context =
     bind_log (quiet (record_initial sha fr repr rsub query initial_context))
       (\<lambda>(state, ref, diagnostics).
     bind_log (quiet (obtain_rewriter sha fr env state initial_context)) (\<lambda>(lineage, prov).
     bind_log (rewrite_query sha fr env state lineage prov
        \<lparr>ri_original_query = query, ri_attempt_number = 0, ri_attempt_role = INITIAL,
         ri_sufficiency = ref, ri_diagnostics = diagnostics\<rparr>) (\<lambda>(rewritten, prov').
     quiet (bind_res (try_map Uncaught_Protocol
          (mk_event PREPARE_RECOVERY_QUERY None None (Some rewritten) None)) (\<lambda>e.
        bind_res (try_map Uncaught_Protocol (apply_recovery_event state e)) (\<lambda>t.
        Inr \<lparr>pp_state = t, pp_initial_lineage = lineage, pp_provenance = prov'\<rparr>))))))"

definition check_recovered ::
    "digest \<Rightarrow> (pyfloat \<Rightarrow> string) \<Rightarrow> prepared \<Rightarrow> assemble_exc + context_result \<Rightarrow>
     coordinator_exc + context_result \<times> recovery_lineage" where
  "check_recovered sha fr p outcome =
     (let s = pp_state p; il = Some (pp_initial_lineage p); prov = Some (pp_provenance p) in
      case outcome of
        Inl e \<Rightarrow> fail_execution sha fr s (assemble_failure e) il None prov
      | Inr recovered \<Rightarrow>
          if cx_query recovered \<noteq> active_retrieval_query s then
            fail_execution sha fr s ''recovery context query must equal active_retrieval_query'' il None prov
          else (case extract_recovery_lineage recovered of
              Inl m \<Rightarrow> fail_execution sha fr s m il None prov
            | Inr rl \<Rightarrow>
                if \<not> lineage_stack_equal (pp_initial_lineage p) rl then
                  fail_execution sha fr s ''recovery attempt lineage differs from initial attempt''
                    il (Some rl) prov
                else Inr (recovered, rl)))"

definition judge_recovered ::
    "digest \<Rightarrow> (pyfloat \<Rightarrow> string) \<Rightarrow> (string \<Rightarrow> string) \<Rightarrow> (pyfloat \<Rightarrow> pyfloat \<Rightarrow> pyfloat) \<Rightarrow>
     coordinator_env \<Rightarrow> prepared \<Rightarrow> context_result \<times> recovery_lineage \<Rightarrow>
     coordinator_exc + coordinator_result" where
  "judge_recovered sha fr repr rsub env p x = (case x of (recovered, rl) \<Rightarrow>
     bind_res (try_map Uncaught_Policy (evaluate_runtime_sufficiency repr fr (co_abstention env)
        (cx_evidence_units recovered))) (\<lambda>decision.
     bind_res (try_map Uncaught_Protocol (sufficiency_ref_from_decision (pd_sufficient decision)
        (Some (int (pd_evidence_unit_count decision))))) (\<lambda>ref.
     bind_res (try_map Uncaught_Adapter (adapt_context_to_recovery_diagnostics repr rsub recovered)) (\<lambda>diag.
     bind_res (try_map Uncaught_Protocol (apply_recovery_event (pp_state p)
        (record_event RECORD_RECOVERY_SUFFICIENCY ref (Some diag)))) (\<lambda>s.
     Inr \<lparr>cr_recovery_invoked = True, cr_context = recovered, cr_sufficiency = decision,
          cr_state = Some s,
          cr_trace = Some (build_runtime_trace sha fr s 1 1 (Some (pp_initial_lineage p)) (Some rl)
            (Some (pp_provenance p)) (Some ref)),
          cr_rewrite_call_count = 1, cr_recovery_retrieval_attempt_count = 1\<rparr>)))))"

definition coordinator_run ::
    "digest \<Rightarrow> (pyfloat \<Rightarrow> string) \<Rightarrow> (string \<Rightarrow> string) \<Rightarrow> (pyfloat \<Rightarrow> pyfloat \<Rightarrow> pyfloat) \<Rightarrow>
     coordinator_env \<Rightarrow> string \<Rightarrow> string \<Rightarrow> context_result \<Rightarrow> policy_decision \<Rightarrow>
     coordinator_result logged" where
  "coordinator_run sha fr repr rsub env query corpus_name initial_context initial_sufficiency =
     (if pd_sufficient initial_sufficiency \<or> \<not> co_enabled env then
        quiet (Inr \<lparr>cr_recovery_invoked = False, cr_context = initial_context,
          cr_sufficiency = initial_sufficiency, cr_state = None, cr_trace = None,
          cr_rewrite_call_count = 0, cr_recovery_retrieval_attempt_count = 0\<rparr>)
      else if co_max_retries env \<noteq> 1 then
        quiet (Inl (Coordinator_Value_Error ''retrieval_recovery.max_retries must be exactly 1''))
      else if cx_query initial_context \<noteq> query then
        quiet (Inl (Coordinator_Value_Error ''initial context query must equal original_query''))
      else
        bind_log (prepare_retry sha fr repr rsub env query initial_context) (\<lambda>p.
        let request = plain_request (active_retrieval_query (pp_state p)) corpus_name in
        bind_log ([Call_Assemble request], check_recovered sha fr p (co_assemble env request)) (\<lambda>x.
        quiet (judge_recovered sha fr repr rsub env p x))))"

text \<open>\<open>assert_recovered_terminal\<close>\<close>

definition assert_recovered_terminal ::
    "digest \<Rightarrow> (pyfloat \<Rightarrow> string) \<Rightarrow> (recovery_terminal_outcome option \<Rightarrow> string) \<Rightarrow>
     recovery_state option \<Rightarrow> coordinator_exc + unit" where
  "assert_recovered_terminal sha fr show_outcome st = (case st of
     None \<Rightarrow> Inr ()
   | Some s \<Rightarrow>
       if terminal_outcome s \<notin> {Some RECOVERED_EVIDENCE_SUFFICIENT, Some INSUFFICIENT_AFTER_BOUNDED_RECOVERY}
       then Inl (Recovery_Runtime_Error
         (''unexpected recovery terminal: '' @ show_outcome (terminal_outcome s)) s
         (build_runtime_trace sha fr s 0 0 None None None None) RECOVERY_EXECUTION_FAILED)
       else Inr ())"

end
