(* ===== verification/Recovery_Coordination.thy ===== *)
theory Recovery_Coordination
  imports Recovery_Coordinator
begin

section \<open>The coordinator follows the recovery protocol\<close>

text \<open>
  Every outcome of a coordinator run is a state of the protocol reached by replaying events, and the
  trace counts the calls that were made. The proofs work on the views of \<open>Recovery_Spec\<close>.
\<close>

subsection \<open>Steps on views\<close>

lemma step_ok:
  assumes "nonblank q" and "view_ok v" and "wf_event e" and "view_step v e v'"
  shows "apply_recovery_event (state_of cid q v) e = Inr (state_of cid q v')"
  using apply_refines [OF assms(1-3)] assms(4) by blast

definition insufficient_ref :: sufficiency_ref where
  "insufficient_ref = \<lparr>policy_contract = SUFFICIENCY_POLICY_V1,
     policy_version = RECOVERY_POLICY_VERSION_V1, sufficient = False,
     triggered_gates = [EMPTY_CONTEXT_GATE_V1], empty_context = True, evidence_unit_count = 0\<rparr>"

lemma insufficient_ref_facts [simp]:
  "valid_ref insufficient_ref" "\<not> sufficient insufficient_ref"
  "sufficiency_ref_from_decision False (Some 0) = Inr insufficient_ref"
  by (simp_all add: insufficient_ref_def valid_ref_def sufficiency_ref_from_decision_def)

lemma wf_events [simp]: "wf_event (fail_event f)" "wf_event (record_event k r d)"
  by (simp_all add: wf_event_def fail_event_def record_event_def)

lemma initial_state [simp]: "nonblank q \<Longrightarrow> build_initial_recovery_state q None = Inr (state_of None q V_Awaiting)"
  by (simp add: build_initial_Inr)

lemma apply_first:
  "nonblank q \<Longrightarrow> apply_recovery_event (state_of None q V_Awaiting)
     (record_event RECORD_INITIAL_SUFFICIENCY insufficient_ref d) =
   Inr (state_of None q (V_Eligible (insufficient_ref, d)))"
  by (rule step_ok) (simp_all add: view_step_Awaiting_fields record_event_def wf_event_def)

lemma apply_prepare:
  assumes "nonblank q" and "nonblank w" and "valid_ref (fst j)" and "\<not> sufficient (fst j)"
  shows "mk_event PREPARE_RECOVERY_QUERY None None (Some w) None = Inr e \<Longrightarrow>
    apply_recovery_event (state_of None q (V_Eligible j)) e = Inr (state_of None q (V_Pending j w))"
  using assms by (intro step_ok)
    (auto simp: mk_event_def bind_res_Inr_iff wf_event_def view_step_Eligible_fields)

lemma prepare_event:
  "nonblank w \<Longrightarrow> \<exists>e. mk_event PREPARE_RECOVERY_QUERY None None (Some w) None = Inr e"
  by (simp add: mk_event_def bind_res_Inr_iff)

lemma apply_second:
  assumes "nonblank q" and "view_ok (V_Pending j w)" and "valid_ref r"
  shows "apply_recovery_event (state_of None q (V_Pending j w))
      (record_event RECORD_RECOVERY_SUFFICIENCY r d) =
    Inr (state_of None q (V_Second_Judged j w (r, d)))"
  using assms by (intro step_ok) (auto simp: view_step_Pending_fields record_event_def wf_event_def)

lemma close_eligible:
  "nonblank q \<Longrightarrow> view_ok (V_Eligible j) \<Longrightarrow>
   close_state (state_of None q (V_Eligible j)) REWRITE_PREPARATION_FAILED =
     Inr (state_of None q (V_Rewrite_Failed j))"
  unfolding close_state_def
  by (subst step_ok [where v' = "V_Rewrite_Failed j"]) (auto simp: view_step_Eligible_fields fail_event_def wf_event_def)

lemma close_pending:
  "nonblank q \<Longrightarrow> view_ok (V_Pending j w) \<Longrightarrow>
   close_state (state_of None q (V_Pending j w)) RECOVERY_EXECUTION_FAILED =
     Inr (state_of None q (V_Execution_Failed j w))"
  unfolding close_state_def
  by (subst step_ok [where v' = "V_Execution_Failed j w"]) (auto simp: view_step_Pending_fields fail_event_def wf_event_def)

text \<open>The states a run reports, as replays of event sequences.\<close>

definition replayed :: "string \<Rightarrow> recovery_event list \<Rightarrow> recovery_state \<Rightarrow> bool" where
  "replayed q es s \<longleftrightarrow> bind_res (build_initial_recovery_state q None) (\<lambda>s0. replay_recovery_events s0 es) = Inr s"

lemma replayed_view:
  assumes "nonblank q" and "view_steps V_Awaiting es v" and "\<forall>e \<in> set es. wf_event e"
  shows "replayed q es (state_of None q v)"
proof -
  have "run_events apply_recovery_event (state_of None q V_Awaiting) es = Inr (state_of None q v)"
    using run_refines [OF assms(1) _ assms(3), of V_Awaiting None "state_of None q v"] assms(2) by auto
  then show ?thesis
    using assms(1) validate_state_of [of V_Awaiting None q]
    by (simp add: replayed_def replay_recovery_events_def)
qed

subsection \<open>The parts of a run\<close>

lemma adapt_total: "\<exists>d. adapt_context_to_recovery_diagnostics repr rsub r = Inr d"
proof -
  have "stop_value (ad_stop_reason (cx_diagnostics r)) \<in> set CONTEXT_STOP_REASONS_V1"
    by (simp add: stop_of_value_known)
  then show ?thesis by (simp add: adapt_context_to_recovery_diagnostics_def Let_def)
qed

lemma bind_log_simps [simp]:
  "bind_log (calls, Inl e) f = (calls, Inl e)"
  "bind_log (calls, Inr x) f = (calls @ fst (f x), snd (f x))"
  "bind_log (quiet (Inl e)) f = quiet (Inl e)"
  "bind_log (quiet (Inr x)) f = f x"
  by (auto simp: bind_log_def quiet_def split: prod.split)

lemma record_initial_eq:
  assumes "nonblank q" and "adapt_context_to_recovery_diagnostics repr rsub ctx = Inr d"
  shows "record_initial sha fr repr rsub q ctx =
    Inr (state_of None q (V_Eligible (insufficient_ref, Some d)), insufficient_ref, d)"
  using assms apply_first [OF assms(1), of "Some d"]
  by (simp add: record_initial_def try_map_def del: state_of.simps)

lemma fail_preparation_eq:
  assumes "nonblank q" and "view_ok (V_Eligible j)"
  shows "fail_preparation sha fr (state_of None q (V_Eligible j)) m il prov n =
    Inl (Recovery_Runtime_Error m (state_of None q (V_Rewrite_Failed j))
      (build_runtime_trace sha fr (state_of None q (V_Rewrite_Failed j)) n 0 il None prov None)
      REWRITE_PREPARATION_FAILED)"
  by (simp add: fail_preparation_def close_eligible [OF assms] del: state_of.simps)

lemma fail_execution_eq:
  assumes "nonblank q" and "view_ok (V_Pending j w)"
  shows "fail_execution sha fr (state_of None q (V_Pending j w)) m il rl prov =
    Inl (Recovery_Runtime_Error m (state_of None q (V_Execution_Failed j w))
      (build_runtime_trace sha fr (state_of None q (V_Execution_Failed j w)) 1 1 il rl prov None)
      RECOVERY_EXECUTION_FAILED)"
  by (simp add: fail_execution_def close_pending [OF assms] del: state_of.simps)

text \<open>How a run that starts can end.\<close>

definition rewrite_failed :: "digest \<Rightarrow> (pyfloat \<Rightarrow> string) \<Rightarrow> string \<Rightarrow> judged \<Rightarrow> nat \<Rightarrow> coordinator_exc \<Rightarrow> bool" where
  "rewrite_failed sha fr q j n e \<longleftrightarrow> (\<exists>m il prov. e = Recovery_Runtime_Error m
     (state_of None q (V_Rewrite_Failed j))
     (build_runtime_trace sha fr (state_of None q (V_Rewrite_Failed j)) n 0 il None prov None)
     REWRITE_PREPARATION_FAILED)"

definition execution_failed :: "digest \<Rightarrow> (pyfloat \<Rightarrow> string) \<Rightarrow> string \<Rightarrow> judged \<Rightarrow> string \<Rightarrow> coordinator_exc \<Rightarrow> bool" where
  "execution_failed sha fr q j w e \<longleftrightarrow> (\<exists>m il rl prov. e = Recovery_Runtime_Error m
     (state_of None q (V_Execution_Failed j w))
     (build_runtime_trace sha fr (state_of None q (V_Execution_Failed j w)) 1 1 il rl prov None)
     RECOVERY_EXECUTION_FAILED)"

lemma failedI [simp]:
  "rewrite_failed sha fr q j n (Recovery_Runtime_Error m (state_of None q (V_Rewrite_Failed j))
     (build_runtime_trace sha fr (state_of None q (V_Rewrite_Failed j)) n 0 il None prov None)
     REWRITE_PREPARATION_FAILED)"
  "execution_failed sha fr q j w (Recovery_Runtime_Error m (state_of None q (V_Execution_Failed j w))
     (build_runtime_trace sha fr (state_of None q (V_Execution_Failed j w)) 1 1 il rl prov None)
     RECOVERY_EXECUTION_FAILED)"
  unfolding rewrite_failed_def execution_failed_def by blast+

lemma obtain_rewriter_cases:
  assumes "nonblank q" and "view_ok (V_Eligible j)"
  shows "(\<exists>x. obtain_rewriter sha fr env (state_of None q (V_Eligible j)) ctx = Inr x) \<or>
    (\<exists>e. obtain_rewriter sha fr env (state_of None q (V_Eligible j)) ctx = Inl e \<and>
       rewrite_failed sha fr q j 0 e)"
  unfolding obtain_rewriter_def fail_preparation_eq [OF assms]
  by (auto split: sum.split rewrite_exc.split simp del: state_of.simps)

definition honest_rewriter :: "coordinator_env \<Rightarrow> bool" where
  "honest_rewriter env \<longleftrightarrow> (\<forall>i w p. co_rewrite env i = Inr (w, p) \<longrightarrow> nonblank w)"

lemma prepare_retry_cases:
  assumes q: "nonblank q" and a: "adapt_context_to_recovery_diagnostics repr rsub ctx = Inr d"
    and h: "honest_rewriter env"
  defines "j \<equiv> (insufficient_ref, Some d)"
  obtains (unprepared) e where "prepare_retry sha fr repr rsub env q ctx = ([], Inl e)" "rewrite_failed sha fr q j 0 e"
  | (unwritten) i e where "prepare_retry sha fr repr rsub env q ctx = ([Call_Rewrite i], Inl e)" "rewrite_failed sha fr q j 1 e"
  | (ready) i w p where "prepare_retry sha fr repr rsub env q ctx = ([Call_Rewrite i], Inr p)"
      "nonblank w" "pp_state p = state_of None q (V_Pending j w)"
proof -
  have ok: "view_ok (V_Eligible j)" by (simp add: j_def)
  note r = record_initial_eq [OF q a, folded j_def]
  consider (bad) e where "obtain_rewriter sha fr env (state_of None q (V_Eligible j)) ctx = Inl e"
      "rewrite_failed sha fr q j 0 e"
    | (good) lin prov where "obtain_rewriter sha fr env (state_of None q (V_Eligible j)) ctx = Inr (lin, prov)"
    using obtain_rewriter_cases [OF q ok] by (metis surj_pair)
  then show thesis
  proof cases
    case bad
    then show thesis by (intro unprepared) (simp_all add: prepare_retry_def r quiet_def del: state_of.simps)
  next
    case good
    let ?i = "\<lparr>ri_original_query = q, ri_attempt_number = 0, ri_attempt_role = INITIAL,
         ri_sufficiency = insufficient_ref, ri_diagnostics = d\<rparr>"
    show thesis
    proof (cases "co_rewrite env ?i")
      case (Inl x)
      have "\<exists>e. rewrite_query sha fr env (state_of None q (V_Eligible j)) lin prov ?i = ([Call_Rewrite ?i], Inl e) \<and>
          rewrite_failed sha fr q j 1 e"
        by (cases x) (simp_all add: rewrite_query_def Inl fail_preparation_eq [OF q ok]
            del: state_of.simps One_nat_def)
      then obtain e where e: "rewrite_query sha fr env (state_of None q (V_Eligible j)) lin prov ?i =
          ([Call_Rewrite ?i], Inl e)" "rewrite_failed sha fr q j 1 e" by blast
      with good show thesis
        by (intro unwritten [of ?i e]) (simp_all add: prepare_retry_def r del: state_of.simps)
    next
      case (Inr out)
      obtain w prov' where out: "out = (w, prov')" by (cases out)
      with Inr h have w: "nonblank w" by (auto simp: honest_rewriter_def)
      from prepare_event [OF w] obtain e where e: "mk_event PREPARE_RECOVERY_QUERY None None (Some w) None = Inr e" ..
      from apply_prepare [OF q w _ _ e, of j] ok
      have "apply_recovery_event (state_of None q (V_Eligible j)) e = Inr (state_of None q (V_Pending j w))" by simp
      with good Inr out e w show thesis
        by (intro ready [of ?i "\<lparr>pp_state = state_of None q (V_Pending j w), pp_initial_lineage = lin,
              pp_provenance = prov'\<rparr>" w])
          (simp_all add: prepare_retry_def r rewrite_query_def try_map_def quiet_def del: state_of.simps)
    qed
  qed
qed

lemma check_recovered_cases:
  assumes "nonblank q" and "view_ok (V_Pending j w)" and "pp_state p = state_of None q (V_Pending j w)"
  obtains (failed) e where "check_recovered sha fr p outcome = Inl e" "execution_failed sha fr q j w e"
  | (checked) r rl where "check_recovered sha fr p outcome = Inr (r, rl)" "outcome = Inr r" "cx_query r = w"
      "extract_recovery_lineage r = Inr rl" "lineage_stack_equal (pp_initial_lineage p) rl"
proof -
  have a: "active_retrieval_query (state_of None q (V_Pending j w)) = w" by (simp add: pending_state_def)
  have "(\<exists>e. check_recovered sha fr p outcome = Inl e \<and> execution_failed sha fr q j w e) \<or>
    (\<exists>r rl. check_recovered sha fr p outcome = Inr (r, rl) \<and> outcome = Inr r \<and> cx_query r = w \<and>
      extract_recovery_lineage r = Inr rl \<and> lineage_stack_equal (pp_initial_lineage p) rl)"
    unfolding check_recovered_def Let_def assms(3) fail_execution_eq [OF assms(1,2)] a
    by (cases outcome; cases "extract_recovery_lineage (projr outcome)")
      (simp_all del: state_of.simps One_nat_def)
  with failed checked show thesis by blast
qed

lemma decision_ref:
  "\<exists>ref. sufficiency_ref_from_decision (pd_sufficient (evaluate_sufficiency_policy_v1 us))
      (Some (int (pd_evidence_unit_count (evaluate_sufficiency_policy_v1 us)))) = Inr ref \<and> valid_ref ref \<and>
    sufficient ref = (us \<noteq> [])"
  by (cases us) (auto simp: sufficiency_ref_from_decision_def valid_ref_def)

lemma judge_recovered_cases:
  assumes "nonblank q" and "view_ok (V_Pending j w)" and "pp_state p = state_of None q (V_Pending j w)"
  obtains (policy) m where "judge_recovered sha fr repr rsub env p (r, rl) = Inl (Uncaught_Policy m)"
      "require_runtime_sufficiency_policy repr fr (co_abstention env) = Inl m"
  | (judged) ref diag where "valid_ref ref" "sufficient ref = (cx_evidence_units r \<noteq> [])"
      "judge_recovered sha fr repr rsub env p (r, rl) = Inr \<lparr>cr_recovery_invoked = True, cr_context = r,
         cr_sufficiency = evaluate_sufficiency_policy_v1 (cx_evidence_units r),
         cr_state = Some (state_of None q (V_Second_Judged j w (ref, Some diag))),
         cr_trace = Some (build_runtime_trace sha fr (state_of None q (V_Second_Judged j w (ref, Some diag)))
           1 1 (Some (pp_initial_lineage p)) (Some rl) (Some (pp_provenance p)) (Some ref)),
         cr_rewrite_call_count = 1, cr_recovery_retrieval_attempt_count = 1\<rparr>"
proof (cases "require_runtime_sufficiency_policy repr fr (co_abstention env)")
  case (Inl m)
  then show thesis by (intro policy [of m]) (simp_all add: judge_recovered_def evaluate_runtime_sufficiency_def try_map_def)
next
  case (Inr x)
  from decision_ref [of "cx_evidence_units r"] obtain ref where ref:
    "sufficiency_ref_from_decision (pd_sufficient (evaluate_sufficiency_policy_v1 (cx_evidence_units r)))
      (Some (int (pd_evidence_unit_count (evaluate_sufficiency_policy_v1 (cx_evidence_units r))))) = Inr ref"
    "valid_ref ref" "sufficient ref = (cx_evidence_units r \<noteq> [])" by blast
  from adapt_total obtain diag where d: "adapt_context_to_recovery_diagnostics repr rsub r = Inr diag" by blast
  note ap = apply_second [OF assms(1,2) ref(2), of "Some diag"]
  have "judge_recovered sha fr repr rsub env p (r, rl) = Inr \<lparr>cr_recovery_invoked = True, cr_context = r,
         cr_sufficiency = evaluate_sufficiency_policy_v1 (cx_evidence_units r),
         cr_state = Some (state_of None q (V_Second_Judged j w (ref, Some diag))),
         cr_trace = Some (build_runtime_trace sha fr (state_of None q (V_Second_Judged j w (ref, Some diag)))
           1 1 (Some (pp_initial_lineage p)) (Some rl) (Some (pp_provenance p)) (Some ref)),
         cr_rewrite_call_count = 1, cr_recovery_retrieval_attempt_count = 1\<rparr>"
    unfolding judge_recovered_def prod.case evaluate_runtime_sufficiency_def Inr bind_res_simps try_map_def
      sum.case ref(1) d assms(3) ap ..
  with ref(2,3) show thesis by (rule judged)
qed

subsection \<open>Whole runs\<close>

fun is_rewrite :: "recovery_call \<Rightarrow> bool" where
  "is_rewrite (Call_Rewrite i) = True"
| "is_rewrite (Call_Assemble rq) = False"

definition rewriter_calls :: "recovery_call list \<Rightarrow> nat" where
  "rewriter_calls calls = length (filter is_rewrite calls)"

definition assembler_calls :: "recovery_call list \<Rightarrow> nat" where
  "assembler_calls calls = length (filter (\<lambda>c. \<not> is_rewrite c) calls)"

lemma call_counts [simp]:
  "rewriter_calls [] = 0" "assembler_calls [] = 0"
  "rewriter_calls (Call_Rewrite i # cs) = Suc (rewriter_calls cs)" "rewriter_calls (Call_Assemble r # cs) = rewriter_calls cs"
  "assembler_calls (Call_Rewrite i # cs) = assembler_calls cs" "assembler_calls (Call_Assemble r # cs) = Suc (assembler_calls cs)"
  by (simp_all add: rewriter_calls_def assembler_calls_def)

text \<open>A trace that tells what happened: hash, outcome and queries of the state, and the calls made.\<close>

definition honest_trace ::
    "digest \<Rightarrow> (pyfloat \<Rightarrow> string) \<Rightarrow> recovery_call list \<Rightarrow> recovery_state \<Rightarrow> runtime_trace \<Rightarrow> bool" where
  "honest_trace sha fr calls s t \<longleftrightarrow> tr_rewrite_call_count t = rewriter_calls calls \<and>
     tr_recovery_retrieval_attempt_count t = assembler_calls calls \<and>
     tr_recovery_state_hash t = build_recovery_state_hash sha fr s \<and>
     tr_original_query t = original_query s \<and> tr_active_retrieval_query t = active_retrieval_query s \<and>
     tr_terminal_outcome t = terminal_outcome s \<and> tr_failure_reason t = failure_reason s"

lemma honest_built [simp]:
  "honest_trace sha fr calls s (build_runtime_trace sha fr s n m il rl prov rs) \<longleftrightarrow>
     n = rewriter_calls calls \<and> m = assembler_calls calls"
  by (simp add: honest_trace_def build_runtime_trace_def)

text \<open>What is promised of a run that has started.\<close>

definition audited ::
    "digest \<Rightarrow> (pyfloat \<Rightarrow> string) \<Rightarrow> (string \<Rightarrow> string) \<Rightarrow> coordinator_env \<Rightarrow> string \<Rightarrow> recovery_call list \<Rightarrow>
     coordinator_exc + coordinator_result \<Rightarrow> bool" where
  "audited sha fr repr env q calls out = (case out of
     Inr r \<Rightarrow> rewriter_calls calls = 1 \<and> assembler_calls calls = 1 \<and> cr_recovery_invoked r \<and>
       (\<exists>s t es. cr_state r = Some s \<and> cr_trace r = Some t \<and> replayed q es s \<and> length es = 3 \<and>
          honest_trace sha fr calls s t \<and>
          terminal_outcome s = Some (if pd_sufficient (cr_sufficiency r) then RECOVERED_EVIDENCE_SUFFICIENT
             else INSUFFICIENT_AFTER_BOUNDED_RECOVERY) \<and>
          pd_sufficient (cr_sufficiency r) = (cx_evidence_units (cr_context r) \<noteq> []))
   | Inl (Recovery_Runtime_Error m s t f) \<Rightarrow>
       (\<exists>es. replayed q es s \<and> length es \<le> 3) \<and> honest_trace sha fr calls s t \<and>
       terminal_outcome s = Some RECOVERY_PREPARATION_OR_EXECUTION_FAILED \<and> failure_reason s = Some f \<and>
       f = (if assembler_calls calls = 0 then REWRITE_PREPARATION_FAILED else RECOVERY_EXECUTION_FAILED)
   | Inl (Uncaught_Policy m) \<Rightarrow> require_runtime_sufficiency_policy repr fr (co_abstention env) = Inl m
   | Inl _ \<Rightarrow> False)"

definition first_event :: "judged \<Rightarrow> recovery_event" where
  "first_event j = event_of RECORD_INITIAL_SUFFICIENCY (Some j) None None"

lemma replayed_rewrite_failed:
  assumes "nonblank q" and "view_ok (V_Eligible j)"
  shows "replayed q [first_event j, fail_event REWRITE_PREPARATION_FAILED] (state_of None q (V_Rewrite_Failed j))"
  using assms by (intro replayed_view)
    (auto simp: first_event_def view_step_Awaiting view_step_Eligible fail_event_def event_of_def wf_event_def)

lemma replayed_execution_failed:
  assumes "nonblank q" and "view_ok (V_Pending j w)"
  shows "replayed q [first_event j, event_of PREPARE_RECOVERY_QUERY None (Some w) None,
    fail_event RECOVERY_EXECUTION_FAILED] (state_of None q (V_Execution_Failed j w))"
  using assms by (intro replayed_view)
    (auto simp: first_event_def view_step_Awaiting view_step_Eligible view_step_Pending fail_event_def
      event_of_def wf_event_def)

lemma replayed_second_judged:
  assumes "nonblank q" and "view_ok (V_Pending j w)" and "valid_ref (fst b)"
  shows "replayed q [first_event j, event_of PREPARE_RECOVERY_QUERY None (Some w) None,
    event_of RECORD_RECOVERY_SUFFICIENCY (Some b) None None] (state_of None q (V_Second_Judged j w b))"
  using assms by (intro replayed_view)
    (auto simp: first_event_def view_step_Awaiting view_step_Eligible view_step_Pending event_of_def wf_event_def)

lemma audited_rewrite_failed:
  assumes "nonblank q" and "view_ok (V_Eligible j)" and "rewrite_failed sha fr q j n e"
    and "n = rewriter_calls calls" and "assembler_calls calls = 0"
  shows "audited sha fr repr env q calls (Inl e)"
proof -
  from assms(3) obtain m il prov where e: "e = Recovery_Runtime_Error m (state_of None q (V_Rewrite_Failed j))
     (build_runtime_trace sha fr (state_of None q (V_Rewrite_Failed j)) n 0 il None prov None)
     REWRITE_PREPARATION_FAILED" unfolding rewrite_failed_def by blast
  have "\<exists>es. replayed q es (state_of None q (V_Rewrite_Failed j)) \<and> length es \<le> 3"
    using replayed_rewrite_failed [OF assms(1,2)] by (intro exI conjI) auto
  then show ?thesis
    unfolding audited_def e using assms(4,5) by (simp add: judged_state_def)
qed

lemma audited_execution_failed:
  assumes "nonblank q" and "view_ok (V_Pending j w)" and "execution_failed sha fr q j w e"
    and "rewriter_calls calls = 1" and "assembler_calls calls = 1"
  shows "audited sha fr repr env q calls (Inl e)"
proof -
  from assms(3) obtain m il rl prov where e: "e = Recovery_Runtime_Error m (state_of None q (V_Execution_Failed j w))
     (build_runtime_trace sha fr (state_of None q (V_Execution_Failed j w)) 1 1 il rl prov None)
     RECOVERY_EXECUTION_FAILED" unfolding execution_failed_def by blast
  have "\<exists>es. replayed q es (state_of None q (V_Execution_Failed j w)) \<and> length es \<le> 3"
    using replayed_execution_failed [OF assms(1,2)] by (intro exI conjI) auto
  then show ?thesis
    unfolding audited_def e using assms(4,5) by (simp add: pending_state_def)
qed

lemma run_starts:
  assumes "\<not> pd_sufficient d" and "co_enabled env" and "co_max_retries env = 1" and "cx_query ctx = q"
  shows "coordinator_run sha fr repr rsub env q corpus ctx d =
    bind_log (prepare_retry sha fr repr rsub env q ctx) (\<lambda>p.
      bind_log ([Call_Assemble (plain_request (active_retrieval_query (pp_state p)) corpus)],
        check_recovered sha fr p (co_assemble env (plain_request (active_retrieval_query (pp_state p)) corpus)))
        (\<lambda>x. quiet (judge_recovered sha fr repr rsub env p x)))"
  using assms by (simp add: coordinator_run_def Let_def)

lemma run_audited:
  assumes q: "nonblank q" and h: "honest_rewriter env"
    and s: "\<not> pd_sufficient d" "co_enabled env" "co_max_retries env = 1" "cx_query ctx = q"
    and run: "coordinator_run sha fr repr rsub env q corpus ctx d = (calls, out)"
  shows "audited sha fr repr env q calls out"
proof -
  obtain dg where a: "adapt_context_to_recovery_diagnostics repr rsub ctx = Inr dg" using adapt_total by blast
  let ?j = "(insufficient_ref, Some dg)"
  have ok: "view_ok (V_Eligible ?j)" by simp
  note run = run [unfolded run_starts [OF s]]
  show ?thesis
  proof (cases rule: prepare_retry_cases [OF q a h, of sha fr])
    case (1 e)
    with run have "calls = []" "out = Inl e" by simp_all
    with audited_rewrite_failed [OF q ok 1(2)] show ?thesis by simp
  next
    case (2 i e)
    with run have "calls = [Call_Rewrite i]" "out = Inl e" by simp_all
    with audited_rewrite_failed [OF q ok 2(2)] show ?thesis by simp
  next
    case (3 i w p)
    then have okp: "view_ok (V_Pending ?j w)" by simp
    let ?rq = "plain_request (active_retrieval_query (pp_state p)) corpus"
    show ?thesis
    proof (cases rule: check_recovered_cases [OF q okp 3(3), of sha fr "co_assemble env ?rq"])
      case (1 e)
      with run 3(1) have "calls = [Call_Rewrite i, Call_Assemble ?rq]" "out = Inl e" by simp_all
      with audited_execution_failed [OF q okp 1(2)] show ?thesis by simp
    next
      case (2 r rl)
      with run 3(1) have c: "calls = [Call_Rewrite i, Call_Assemble ?rq]"
        and o: "out = judge_recovered sha fr repr rsub env p (r, rl)" by (simp_all add: quiet_def)
      show ?thesis
      proof (cases rule: judge_recovered_cases [OF q okp 3(3), where sha = sha and fr = fr and repr = repr and
            rsub = rsub and env = env and r = r and rl = rl])
        case (1 m)
        with o show ?thesis by (simp add: audited_def)
      next
        case (2 ref diag)
        then have "replayed q [first_event ?j, event_of PREPARE_RECOVERY_QUERY None (Some w) None,
            event_of RECORD_RECOVERY_SUFFICIENCY (Some (ref, Some diag)) None None]
          (state_of None q (V_Second_Judged ?j w (ref, Some diag)))"
          by (intro replayed_second_judged [OF q okp]) simp
        then have "\<exists>es. replayed q es (state_of None q (V_Second_Judged ?j w (ref, Some diag))) \<and> length es = 3"
          by (intro exI conjI) auto
        with 2 o c show ?thesis by (auto simp: audited_def pending_state_def)
      qed
    qed
  qed
qed

text \<open>The assembler stores the query without surrounding white space.\<close>

definition assembler_trims :: "coordinator_env \<Rightarrow> bool" where
  "assembler_trims env \<longleftrightarrow> (\<forall>rq r. co_assemble env rq = Inr r \<longrightarrow> cx_query r = trim (rq_query rq))"

lemma assemble_trims: "co_assemble env = assemble sha fr aenv retrieve ready \<Longrightarrow> assembler_trims env"
  unfolding assembler_trims_def by (auto elim!: assemble_InrE)

lemma run_recovered:
  assumes q: "nonblank q" and h: "honest_rewriter env"
    and s: "\<not> pd_sufficient d" "co_enabled env" "co_max_retries env = 1" "cx_query ctx = q"
    and run: "coordinator_run sha fr repr rsub env q corpus ctx d = (calls, Inr r)"
  obtains w i t where "calls = [Call_Rewrite i, Call_Assemble (plain_request w corpus)]"
    and "co_assemble env (plain_request w corpus) = Inr (cr_context r)" and "cx_query (cr_context r) = w"
    and "cr_state r = Some t" and "active_retrieval_query t = w"
proof -
  obtain dg where a: "adapt_context_to_recovery_diagnostics repr rsub ctx = Inr dg" using adapt_total by blast
  note run = run [unfolded run_starts [OF s]]
  show ?thesis
  proof (cases rule: prepare_retry_cases [OF q a h, of sha fr])
    case (3 i w p)
    then have okp: "view_ok (V_Pending (insufficient_ref, Some dg) w)" by simp
    have aq: "active_retrieval_query (pp_state p) = w" by (simp add: 3(3) pending_state_def)
    show ?thesis
    proof (cases rule: check_recovered_cases [OF q okp 3(3), of sha fr "co_assemble env (plain_request w corpus)"])
      case (1 e)
      with run 3(1) aq show ?thesis by simp
    next
      case (2 r' rl)
      with run 3(1) aq have c: "calls = [Call_Rewrite i, Call_Assemble (plain_request w corpus)]"
        and o: "Inr r = judge_recovered sha fr repr rsub env p (r', rl)" by (simp_all add: quiet_def)
      show ?thesis
      proof (cases rule: judge_recovered_cases [OF q okp 3(3), where sha = sha and fr = fr and repr = repr and
            rsub = rsub and env = env and r = r' and rl = rl])
        case (1 m)
        with o show ?thesis by simp
      next
        case (2 ref diag)
        with o c \<open>cx_query r' = w\<close> \<open>co_assemble env (plain_request w corpus) = Inr r'\<close> show ?thesis
          by (intro that [of i w "state_of None q (V_Second_Judged (insufficient_ref, Some dg) w (ref, Some diag))"])
            (simp_all add: pending_state_def)
      qed
    qed
  qed (use run in simp_all)
qed

subsection \<open>Properties\<close>


definition sample_context :: "string \<Rightarrow> evidence_unit list \<Rightarrow> context_result" where
  "sample_context query us = \<lparr>cx_query = query, cx_method = ''hybrid-rerank-context'', cx_evidence_units = us,
     cx_assembled_text = [], cx_context_token_count = 0, cx_max_context_tokens = 50,
     cx_context_config_hash = ''ctxcfg_1'', cx_effective_context_semantics = JNull, cx_anchors = [],
     cx_dense_index_id = ''dense-1'', cx_lexical_index_id = ''lex-1'', cx_fusion_config_hash = ''f'',
     cx_reranker_config_hash = ''r'', cx_diagnostics = \<lparr>ad_requested_anchor_k = 5,
       ad_actual_anchor_count = 0, ad_anchors_processed = 0, ad_evidence_unit_count = 0,
       ad_context_token_count = 0, ad_budget_exhausted = False, ad_stop_reason = STOP_NO_ANCHORS,
       ad_clipping_occurred = False, ad_dedup_hits = 0, ad_containment_suppressions = 0\<rparr>,
     cx_corpus_id = Some ''corpus-1'', cx_chunk_set_id = ''set-1'', cx_input_k = 30,
     cx_input_pool_chunk_ids = []\<rparr>"

definition sample_rewrite_provenance :: rewrite_provenance where
  "sample_rewrite_provenance = \<lparr>rw_prompt_contract = ''recovery-query-rewrite-v1'',
     rw_output_contract = ''recovery-rewrite-output-v1'', rw_adapter_contract = ''fake'',
     rw_rewriter_config_hash = ''h'', rw_provider = ''fake'', rw_normalized_endpoint = ''local'',
     rw_model = ''m'', rw_rewrite_call_count = 1, rw_rewritten_query = None\<rparr>"

definition sample_coordinator :: coordinator_env where
  "sample_coordinator = \<lparr>co_enabled = True, co_max_retries = 1,
     co_abstention = \<lparr>ab_enabled = True, ab_policy = SUFFICIENCY_POLICY_V1, ab_threshold = None\<rparr>,
     co_provenance = Inr sample_rewrite_provenance, co_get_rewriter = Inr (),
     co_rewrite = (\<lambda>i. Inr (''annual leave'', sample_rewrite_provenance)),
     co_assemble = (\<lambda>rq. Inr (sample_context (trim (rq_query rq)) []))\<rparr>"

lemma sample_run_facts:
  "nonblank ''leave''" "honest_rewriter sample_coordinator" "co_max_retries sample_coordinator = 1"
  "cx_query (sample_context q us) = q" "co_enabled sample_coordinator" "assembler_trims sample_coordinator"
  "\<not> pd_sufficient (evaluate_sufficiency_policy_v1 [])"
proof -
  have "nonblank ''annual leave''" by code_simp
  then show "honest_rewriter sample_coordinator" by (simp add: honest_rewriter_def sample_coordinator_def)
  show "nonblank ''leave''" by code_simp
qed (simp_all add: sample_coordinator_def sample_context_def assembler_trims_def)

lemma sample_lineage:
  "\<exists>l. extract_recovery_lineage (sample_context q us) = Inr l \<and> l = l\<lparr>li_query := q\<rparr> \<and>
     li_corpus_id l = ''corpus-1''" if "nonblank q"
proof -
  have "py_strip ''corpus-1'' \<noteq> []" "py_strip ''set-1'' \<noteq> []"
    "list_all nonblank [''dense-1'', ''lex-1'', ''f'', ''r'', ''ctxcfg_1'']" by code_simp+
  with that show ?thesis by (simp add: extract_recovery_lineage_def sample_context_def)
qed

lemma sample_run:
  "\<exists>calls r. coordinator_run sample_digest sample_float_repr id (\<lambda>a b. a - b) sample_coordinator ''leave''
     ''default'' (sample_context ''leave'' []) (evaluate_sufficiency_policy_v1 []) = (calls, Inr r)"
proof -
  let ?E = sample_coordinator and ?C = "sample_context ''leave'' []" and ?w = "''annual leave''"
  note q = sample_run_facts(1)
  have w: "nonblank ?w" "trim ?w = ?w" by code_simp+
  obtain dg where a: "adapt_context_to_recovery_diagnostics id (\<lambda>a b. a - b) ?C = Inr dg" using adapt_total by blast
  let ?j = "(insufficient_ref, Some dg)"
  have okp: "view_ok (V_Pending ?j ?w)" using w by simp
  obtain l where l: "extract_recovery_lineage ?C = Inr l" using sample_lineage [OF q] by blast
  obtain l' where l': "extract_recovery_lineage (sample_context ?w []) = Inr l'" using sample_lineage [OF w(1)] by blast
  have st: "lineage_stack_equal l l'"
    using l l' by (auto simp: extract_recovery_lineage_def sample_context_def lineage_stack_equal_def
        split: if_splits)
  from prepare_event [OF w(1)] obtain e where e: "mk_event PREPARE_RECOVERY_QUERY None None (Some ?w) None = Inr e" ..
  have ap: "apply_recovery_event (state_of None ''leave'' (V_Eligible ?j)) e = Inr (state_of None ''leave'' (V_Pending ?j ?w))"
    using apply_prepare [OF q w(1) _ _ e, of ?j] by simp
  define p where "p = \<lparr>pp_state = state_of None ''leave'' (V_Pending ?j ?w), pp_initial_lineage = l,
      pp_provenance = sample_rewrite_provenance\<rparr>"
  have "\<exists>c. prepare_retry sample_digest sample_float_repr id (\<lambda>a b. a - b) ?E ''leave'' ?C = (c, Inr p)"
    unfolding prepare_retry_def record_initial_eq [OF q a] obtain_rewriter_def l rewrite_query_def p_def
    by (simp add: sample_coordinator_def e ap try_map_def quiet_def del: state_of.simps)
  then obtain c where pr: "prepare_retry sample_digest sample_float_repr id (\<lambda>a b. a - b) ?E ''leave'' ?C = (c, Inr p)" ..
  have aq: "active_retrieval_query (pp_state p) = ?w" by (simp add: p_def pending_state_def)
  have as: "co_assemble ?E (plain_request ?w cn) = Inr (sample_context ?w [])" for cn
    by (simp add: sample_coordinator_def plain_request_def w)
  have ck: "check_recovered sample_digest sample_float_repr p (Inr (sample_context ?w [])) = Inr (sample_context ?w [], l')"
    using st by (simp add: check_recovered_def Let_def sample_run_facts(4) l' p_def pending_state_def)
  have "\<exists>r. judge_recovered sample_digest sample_float_repr id (\<lambda>a b. a - b) ?E p (sample_context ?w [], l') = Inr r"
    by (rule judge_recovered_cases [OF q okp, of p, where sha = sample_digest and fr = sample_float_repr and repr = id
          and rsub = "\<lambda>a b. a - b" and env = ?E and r = "sample_context ?w []" and rl = l'])
      (auto simp: p_def sample_coordinator_def require_runtime_sufficiency_policy_def)
  with pr aq as ck show ?thesis
    by (simp add: run_starts [OF sample_run_facts(7,5,3,4)] quiet_def)
qed




end
