(* ===== verification/Grounded_Query.thy ===== *)
theory Grounded_Query
  imports Grounded_Answers Recovery_Coordination
begin

section \<open>The query path (generation/orchestrate.py, app/query_runtime.py)\<close>

text \<open>
  \<open>GroundedAnswerOrchestrator.run_grounded_query_core\<close>: context assembly, the sufficiency gate, the
  optional recovery and the executor, composed as the code composes them; and the product entry
  \<open>_SnapshotQueryRuntimeEntry.answer\<close> that binds a query to one published snapshot. The assembler of
  the orchestrator is also the assembler of its recovery coordinator. Checkpoints may raise; durations
  and the latency metadata of a context are measured values, hence fields of the environment.
\<close>

subsection \<open>Environment\<close>

text \<open>
  \<open>Answer_Error\<close> is \<open>GroundedAnswerError\<close> with its recovery trace. The others are exceptions the
  method lets through, and those a checkpoint raises.
\<close>

datatype query_exc =
    Answer_Error string "runtime_trace option"
  | Query_Name_Error retrieval_exc
  | Query_Assemble_Error assemble_exc
  | Query_Coordinator_Error coordinator_exc
  | Query_Generation_Error generation_exc
  | Checkpoint_Error string
  | App_Error string

record query_env =
  qe_executor :: executor_env
  qe_coordinator :: coordinator_env
  qe_assemble :: "bool \<Rightarrow> retrieval_request \<Rightarrow> assemble_exc + context_result"
  qe_require_ready :: "string \<Rightarrow> query_exc + unit"
  qe_checkpoint :: "string \<Rightarrow> query_exc + unit"
  qe_context_ms :: int
  qe_latency :: "context_result \<Rightarrow> json"
  qe_trace_block :: "runtime_trace \<Rightarrow> json"

text \<open>The sufficiency policy is the executor's; the coordinator uses the same settings and assembler.\<close>

definition coordinator_of :: "query_env \<Rightarrow> coordinator_env" where
  "coordinator_of env = (qe_coordinator env)\<lparr>co_abstention := ex_abstention (qe_executor env),
     co_assemble := qe_assemble env True\<rparr>"

record query_args =
  qa_retrieval_question :: string
  qa_answer_intent :: string
  qa_corpus_name :: string
  qa_check_ready :: bool
  qa_source_names :: "(string \<times> string) list option"
  qa_allow_recovery :: bool
  qa_dense_index_id :: "string option"
  qa_dense_collection_name :: "string option"
  qa_lexical_index_id :: "string option"
  qa_chunk_set_id :: "string option"
  qa_corpus_id :: "string option"
  qa_document_ids :: "string set option"
  qa_product_v2 :: bool

text \<open>\<open>int(breakdown["total"])\<close>, 0 where the conversion raises or the entry is missing.\<close>

definition context_latency_ms :: "json \<Rightarrow> int" where
  "context_latency_ms breakdown = (case breakdown of
     JObj kvs \<Rightarrow> (case map_of kvs ''total'' of
         Some (JInt i) \<Rightarrow> i | Some (JFloat q) \<Rightarrow> (if 0 \<le> q then \<lfloor>q\<rfloor> else \<lceil>q\<rceil>)
       | Some (JBool b) \<Rightarrow> (if b then 1 else 0) | _ \<Rightarrow> 0)
   | _ \<Rightarrow> 0)"

subsection \<open>run_grounded_query_core\<close>

definition assert_context_invariants :: "context_result \<Rightarrow> query_exc + unit" where
  "assert_context_invariants c =
     (if cx_assembled_text c \<noteq> join (LF @ LF) (map eu_text (cx_evidence_units c)) then
        Inl (Answer_Error (''Slice 7 context invariant violated: '' @
          ''assembled_text does not match evidence units'') None)
      else if cx_evidence_units c = [] \<and> (cx_assembled_text c \<noteq> [] \<or> cx_context_token_count c \<noteq> 0) then
        Inl (Answer_Error ''Slice 7 empty-context invariant violated'' None)
      else Inr ())"

definition query_request :: "query_args \<Rightarrow> string \<Rightarrow> retrieval_request" where
  "query_request a name = \<lparr>rq_query = py_strip (qa_retrieval_question a), rq_corpus_name = name,
     rq_top_k = None, rq_dense_index_id = qa_dense_index_id a,
     rq_dense_collection_name = qa_dense_collection_name a, rq_lexical_index_id = qa_lexical_index_id a,
     rq_chunk_set_id = qa_chunk_set_id a, rq_corpus_id = qa_corpus_id a,
     rq_document_ids = qa_document_ids a\<rparr>"

fun assemble_caught :: "assemble_exc \<Rightarrow> query_exc" where
  "assemble_caught (Context_Error m) = Answer_Error m None"
| "assemble_caught e = Query_Assemble_Error e"

fun recovery_caught :: "coordinator_exc \<Rightarrow> query_exc" where
  "recovery_caught (Recovery_Runtime_Error m s t reason) =
     Answer_Error (''retrieval recovery failed: '' @ m) (Some t)"
| "recovery_caught e = Query_Coordinator_Error e"

fun generation_caught :: "generation_exc \<Rightarrow> query_exc" where
  "generation_caught (Grounded_Generation_Error m) = Answer_Error m None"
| "generation_caught e = Query_Generation_Error e"

definition query_preflight :: "query_env \<Rightarrow> query_args \<Rightarrow> query_exc + string" where
  "query_preflight env a =
     (if py_strip (qa_retrieval_question a) = [] then
        Inl (Answer_Error ''retrieval_question must be non-empty'' None)
      else if py_strip (qa_answer_intent a) = [] then
        Inl (Answer_Error ''answer_intent must be non-empty'' None)
      else bind_res (try_map Query_Name_Error (validate_corpus_name (qa_corpus_name a))) (\<lambda>name.
      bind_res (if qa_check_ready a then qe_require_ready env name else Inr ()) (\<lambda>_.
      if \<not> gn_enabled (ex_generation (qe_executor env)) then
        Inl (Answer_Error ''generation.enabled is false'' None)
      else Inr name)))"

text \<open>Assembly and the gate: the context and the verdict on it.\<close>

definition first_context ::
    "(string \<Rightarrow> string) \<Rightarrow> (pyfloat \<Rightarrow> string) \<Rightarrow> query_env \<Rightarrow> query_args \<Rightarrow> string \<Rightarrow>
     query_exc + context_result \<times> policy_decision" where
  "first_context repr fr env a name =
     bind_res (qe_checkpoint env ''before_context'') (\<lambda>_.
     bind_res (try_map assemble_caught (qe_assemble env (qa_check_ready a) (query_request a name))) (\<lambda>c.
     bind_res (assert_context_invariants c) (\<lambda>_.
     bind_res (try_map (\<lambda>m. Answer_Error m None) (evaluate_runtime_sufficiency repr fr
        (ex_abstention (qe_executor env)) (cx_evidence_units c))) (\<lambda>d. Inr (c, d)))))"

text \<open>The context generation uses, its latency, and the recovery block of the diagnostics.\<close>

record active_context =
  ac_context :: context_result
  ac_context_ms :: int
  ac_recovery_block :: "json option"

definition recover ::
    "digest \<Rightarrow> (pyfloat \<Rightarrow> string) \<Rightarrow> (string \<Rightarrow> string) \<Rightarrow> (pyfloat \<Rightarrow> pyfloat \<Rightarrow> pyfloat) \<Rightarrow>
     query_env \<Rightarrow> query_args \<Rightarrow> string \<Rightarrow> context_result \<Rightarrow> policy_decision \<Rightarrow>
     recovery_call list \<times> (query_exc + active_context)" where
  "recover sha fr repr rsub env a name c d =
     (let same = \<lparr>ac_context = c, ac_context_ms = qe_context_ms env, ac_recovery_block = None\<rparr> in
      if qa_allow_recovery a \<and> \<not> pd_sufficient d \<and> co_enabled (coordinator_of env) then
        (case coordinator_run sha fr repr rsub (coordinator_of env) (py_strip (qa_retrieval_question a))
             name c d of
           (calls, Inl e) \<Rightarrow> (calls, Inl (recovery_caught e))
         | (calls, Inr r) \<Rightarrow> (calls, (case (cr_recovery_invoked r, cr_trace r) of
               (True, Some t) \<Rightarrow> bind_res (assert_context_invariants (cr_context r)) (\<lambda>_.
                 Inr \<lparr>ac_context = cr_context r,
                   ac_context_ms = context_latency_ms (qe_latency env (cr_context r)),
                   ac_recovery_block = Some (qe_trace_block env t)\<rparr>)
             | _ \<Rightarrow> Inr same)))
      else ([], Inr same))"

definition provenance_of :: "query_env \<Rightarrow> active_context \<Rightarrow> context_provenance" where
  "provenance_of env ac = (let c = ac_context ac in
     \<lparr>gp_context_config_hash = Some (cx_context_config_hash c),
      gp_dense_index_id = Some (cx_dense_index_id c), gp_lexical_index_id = Some (cx_lexical_index_id c),
      gp_fusion_config_hash = Some (cx_fusion_config_hash c),
      gp_reranker_config_hash = Some (cx_reranker_config_hash c),
      gp_chunk_set_id = Some (cx_chunk_set_id c), gp_context_latency_ms = ac_context_ms ac,
      gp_context_breakdown = qe_latency env c\<rparr>)"

text \<open>Source names restricted to the documents in scope.\<close>

definition scoped_names :: "query_args \<Rightarrow> (string \<times> string) list option" where
  "scoped_names a = (case (qa_document_ids a, qa_source_names a) of
     (Some ids, Some names) \<Rightarrow> Some (filter (\<lambda>(doc, _). doc \<in> ids) names)
   | _ \<Rightarrow> qa_source_names a)"

definition execute_request :: "query_env \<Rightarrow> query_args \<Rightarrow> string \<Rightarrow> active_context \<Rightarrow> execute_args" where
  "execute_request env a name ac =
     \<lparr>ea_query = (if qa_product_v2 a then None else Some (py_strip (qa_answer_intent a))),
      ea_corpus_name = name, ea_evidence_units = cx_evidence_units (ac_context ac),
      ea_provenance = Some (provenance_of env ac), ea_check_ready = False, ea_provider_only = False,
      ea_source_names = scoped_names a,
      ea_retrieval_question = (if qa_product_v2 a then Some (py_strip (qa_retrieval_question a)) else None),
      ea_answer_intent = (if qa_product_v2 a then Some (py_strip (qa_answer_intent a)) else None),
      ea_product_v2 = qa_product_v2 a\<rparr>"

definition with_block :: "json option \<Rightarrow> grounded_answer_result \<Rightarrow> grounded_answer_result" where
  "with_block block r = (case block of None \<Rightarrow> r
     | Some b \<Rightarrow> r\<lparr>ga_diagnostics := dict_set ''retrieval_recovery'' b (ga_diagnostics r)\<rparr>)"

definition generate_answer ::
    "digest \<Rightarrow> (pyfloat \<Rightarrow> string) \<Rightarrow> (string \<Rightarrow> string) \<Rightarrow> query_env \<Rightarrow> query_args \<Rightarrow> string \<Rightarrow>
     active_context \<Rightarrow> generator_request list \<times> (query_exc + grounded_answer_result)" where
  "generate_answer sha fr repr env a name ac =
     (case bind_res (qe_checkpoint env ''after_context'') (\<lambda>_. qe_checkpoint env ''before_generation'') of
        Inl e \<Rightarrow> ([], Inl e)
      | Inr _ \<Rightarrow> (case execute sha fr repr (qe_executor env) (execute_request env a name ac) of
          (sent, out) \<Rightarrow> (sent, bind_res (try_map generation_caught out) (\<lambda>r.
             bind_res (qe_checkpoint env ''after_generation'') (\<lambda>_.
             Inr (with_block (ac_recovery_block ac) r))))))"

text \<open>What a query did besides returning.\<close>

record query_outcome =
  qo_recovery_calls :: "recovery_call list"
  qo_sent :: "generator_request list"
  qo_result :: "query_exc + grounded_answer_result"

definition run_grounded_query_core ::
    "digest \<Rightarrow> (pyfloat \<Rightarrow> string) \<Rightarrow> (string \<Rightarrow> string) \<Rightarrow> (pyfloat \<Rightarrow> pyfloat \<Rightarrow> pyfloat) \<Rightarrow>
     query_env \<Rightarrow> query_args \<Rightarrow> query_outcome" where
  "run_grounded_query_core sha fr repr rsub env a =
     (case bind_res (query_preflight env a) (\<lambda>name.
          bind_res (first_context repr fr env a name) (\<lambda>(c, d). Inr (name, c, d))) of
        Inl e \<Rightarrow> \<lparr>qo_recovery_calls = [], qo_sent = [], qo_result = Inl e\<rparr>
      | Inr (name, c, d) \<Rightarrow> (case recover sha fr repr rsub env a name c d of
          (calls, Inl e) \<Rightarrow> \<lparr>qo_recovery_calls = calls, qo_sent = [], qo_result = Inl e\<rparr>
        | (calls, Inr ac) \<Rightarrow> (case generate_answer sha fr repr env a name ac of
            (sent, out) \<Rightarrow> \<lparr>qo_recovery_calls = calls, qo_sent = sent, qo_result = out\<rparr>)))"

text \<open>\<open>GroundedAnswerOrchestrator.answer\<close>\<close>

definition orchestrator_answer ::
    "digest \<Rightarrow> (pyfloat \<Rightarrow> string) \<Rightarrow> (string \<Rightarrow> string) \<Rightarrow> (pyfloat \<Rightarrow> pyfloat \<Rightarrow> pyfloat) \<Rightarrow>
     query_env \<Rightarrow> query_args \<Rightarrow> string \<Rightarrow> query_outcome" where
  "orchestrator_answer sha fr repr rsub env a query =
     (let q = py_strip query in
      run_grounded_query_core sha fr repr rsub env (a\<lparr>qa_retrieval_question := q, qa_answer_intent := q\<rparr>))"

subsection \<open>The product entry\<close>

record snapshot_binding =
  sb_corpus_name :: string
  sb_snapshot_id :: string
  sb_corpus_id :: string
  sb_chunk_set_id :: string
  sb_dense_index_id :: string
  sb_dense_collection_name :: string
  sb_lexical_index_id :: string
  sb_documents :: "(string \<times> string) list"

text \<open>\<open>{entry.document_id: entry.source_name for entry in corpus_manifest.documents}\<close>\<close>

definition source_name_by_document_id :: "snapshot_binding \<Rightarrow> (string \<times> string) list" where
  "source_name_by_document_id b = foldl (\<lambda>d (doc, name). dict_set doc name d) [] (sb_documents b)"

definition or_question :: "string option \<Rightarrow> string option \<Rightarrow> string" where
  "or_question specific question = (case specific of Some q \<Rightarrow> q | None \<Rightarrow>
     (case question of Some q \<Rightarrow> q | None \<Rightarrow> []))"

definition entry_args ::
    "snapshot_binding \<Rightarrow> string option \<Rightarrow> string option \<Rightarrow> string option \<Rightarrow> string set option \<Rightarrow> query_args" where
  "entry_args b question retrieval_question answer_intent document_ids =
     \<lparr>qa_retrieval_question = or_question retrieval_question question,
      qa_answer_intent = or_question answer_intent question, qa_corpus_name = sb_corpus_name b,
      qa_check_ready = False, qa_source_names = Some (source_name_by_document_id b),
      qa_allow_recovery = False, qa_dense_index_id = Some (sb_dense_index_id b),
      qa_dense_collection_name = Some (sb_dense_collection_name b),
      qa_lexical_index_id = Some (sb_lexical_index_id b), qa_chunk_set_id = Some (sb_chunk_set_id b),
      qa_corpus_id = Some (sb_corpus_id b), qa_document_ids = document_ids, qa_product_v2 = True\<rparr>"

definition entry_answer ::
    "digest \<Rightarrow> (pyfloat \<Rightarrow> string) \<Rightarrow> (string \<Rightarrow> string) \<Rightarrow> (pyfloat \<Rightarrow> pyfloat \<Rightarrow> pyfloat) \<Rightarrow>
     query_env \<Rightarrow> snapshot_binding \<Rightarrow> bool \<Rightarrow> string option \<Rightarrow> string option \<Rightarrow> string option \<Rightarrow>
     string set option \<Rightarrow> query_outcome" where
  "entry_answer sha fr repr rsub env b is_closed question retrieval_question answer_intent document_ids =
     (if is_closed then
        \<lparr>qo_recovery_calls = [], qo_sent = [], qo_result = Inl (App_Error ''runtime_not_ready'')\<rparr>
      else run_grounded_query_core sha fr repr rsub env
        (entry_args b question retrieval_question answer_intent document_ids))"

end
