(* ===== verification/Query_Properties.thy ===== *)
theory Query_Properties
  imports Grounded_Query
begin

section \<open>Properties of the query path\<close>

text \<open>
  What an assembled context hands to generation, the product query over one published snapshot from
  end to end, and what recovery does to a document scope.
\<close>

subsection \<open>Assembled contexts\<close>

lemma expand_empty_count:
  assumes "expand sha fr x as = Inr r" and "xc_evidence_units r = []"
  shows "xc_context_token_count r = 0"
proof -
  have "finish_expand x n t st = Inr r \<Longrightarrow> xc_context_token_count r = 0" for n t st
    using assms(2) by (auto simp: finish_expand_def Let_def render_plain_evidence_def split: if_splits)
  with assms(1) show ?thesis
    by (auto simp: expand_def Let_def bind_res_Inr_iff split: if_splits)
qed

lemma assembled_units:
  assumes "assemble sha fr aenv retrieve ready rq = Inr c"
    and "\<And>name s. ae_structure aenv name = Inr s \<Longrightarrow> store_wf s"
  shows "\<forall>u \<in> set (cx_evidence_units c). unit_citable u \<and> in_scope (rq_document_ids rq) (eu_document_id u)"
    and "cx_assembled_text c = render_plain_evidence (cx_evidence_units c)"
    and "cx_evidence_units c = [] \<Longrightarrow> cx_context_token_count c = 0"
    and "nonblank (cx_context_config_hash c)"
proof -
  from assms(1) obtain name cnt up s x where s: "ae_structure aenv name = Inr s"
    and e: "expand sha fr \<lparr>xp_store = s, xp_counter = ti_count cnt, xp_context = ae_context aenv\<rparr>
           (map anchor_of (kr_candidates up)) = Inr x"
    and sc: "\<forall>u \<in> set (xc_evidence_units x). in_scope (rq_document_ids rq) (eu_document_id u)"
    and c: "c = context_result_of sha fr aenv cnt (rq_query rq) up x"
    by (rule assemble_InrE)
  let ?x = "\<lparr>xp_store = s, xp_counter = ti_count cnt, xp_context = ae_context aenv\<rparr>"
  have wf: "store_wf (xp_store ?x)" using assms(2) [OF s] by simp
  have "\<forall>u \<in> set (xc_evidence_units x). unit_named u \<and> eu_text u \<noteq> []"
  proof (cases rule: expand_Inr_cases [OF e wf])
    case (2 t st)
    have "\<forall>u \<in> set (ex_units st). unit_ok ?x u"
      using run_end_units(1) [OF 2(2) wf] by (auto simp: good_units_def)
    with 2(5) show ?thesis by (simp add: unit_ok_def)
  qed simp
  then show "\<forall>u \<in> set (cx_evidence_units c). unit_citable u \<and> in_scope (rq_document_ids rq) (eu_document_id u)"
    using sc c by (simp add: unit_citableI)
  show "cx_assembled_text c = render_plain_evidence (cx_evidence_units c)"
    using expand_sound [OF e] c by simp
  show "cx_evidence_units c = [] \<Longrightarrow> cx_context_token_count c = 0"
    using expand_empty_count [OF e] c by (simp add: context_result_of_def)
  show "nonblank (cx_context_config_hash c)"
    using c config_hash_nonblank by (simp add: context_result_of_def nonblank_trimmed)
qed

lemma LF_char: "LF = [CHR 0x0A]"
  by code_simp

lemma assembled_invariants:
  assumes "assemble sha fr aenv retrieve ready rq = Inr c"
    and "\<And>name s. ae_structure aenv name = Inr s \<Longrightarrow> store_wf s"
  shows "assert_context_invariants c = Inr ()"
proof -
  have "cx_assembled_text c = join (LF @ LF) (map eu_text (cx_evidence_units c))"
    using assembled_units(2) [OF assms] by (simp add: render_plain_evidence_def EVIDENCE_JOINER_def LF_char)
  moreover have "cx_evidence_units c = [] \<Longrightarrow> cx_context_token_count c = 0"
    by (rule assembled_units(3) [OF assms])
  ultimately show ?thesis by (auto simp: assert_context_invariants_def)
qed

subsection \<open>Stages of a query\<close>

lemma first_context_Inr:
  "first_context repr fr env a name = Inr (c, d) \<Longrightarrow>
     qe_assemble env (qa_check_ready a) (query_request a name) = Inr c \<and>
     d = evaluate_sufficiency_policy_v1 (cx_evidence_units c) \<and>
     (\<exists>p. require_runtime_sufficiency_policy repr fr (ex_abstention (qe_executor env)) = Inr p)"
  by (auto simp: first_context_def bind_res_Inr_iff evaluate_runtime_sufficiency_def)

lemma recover_without: "\<not> qa_allow_recovery a \<Longrightarrow> recover sha fr repr rsub env a name c d =
    ([], Inr \<lparr>ac_context = c, ac_context_ms = qe_context_ms env, ac_recovery_block = None\<rparr>)"
  by (simp add: recover_def Let_def)

lemma query_preflight_Inr:
  "query_preflight env a = Inr name \<Longrightarrow> py_strip (qa_retrieval_question a) \<noteq> [] \<and>
     py_strip (qa_answer_intent a) \<noteq> [] \<and> validate_corpus_name (qa_corpus_name a) = Inr name \<and>
     gn_enabled (ex_generation (qe_executor env))"
  by (auto simp: query_preflight_def bind_res_Inr_iff split: if_splits)

lemma valid_name_again: "validate_corpus_name n = Inr name \<Longrightarrow> validate_corpus_name name = Inr name"
  by (auto simp: validate_corpus_name_def split: if_splits)

lemma strip_filled: "py_strip s \<noteq> [] \<Longrightarrow> trim (py_strip s) \<noteq> []"
proof -
  assume "py_strip s \<noteq> []"
  then have "nonblank (py_strip s)" by (simp add: nonblank_def)
  then show ?thesis by (rule nonblank_trim)
qed

lemma with_block_sel [simp]:
  "ga_citations (with_block b r) = ga_citations r" "ga_status (with_block b r) = ga_status r"
  by (cases b; simp add: with_block_def)+

text \<open>The names of the documents of a context reach the executor through the scope filter.\<close>

definition names_of :: "query_args \<Rightarrow> (string \<times> string) list" where
  "names_of a = (case scoped_names a of Some names \<Rightarrow> names | None \<Rightarrow> [])"

definition context_filled :: "context_result \<Rightarrow> bool" where
  "context_filled c \<longleftrightarrow> trim (cx_dense_index_id c) \<noteq> [] \<and> trim (cx_lexical_index_id c) \<noteq> [] \<and>
     trim (cx_fusion_config_hash c) \<noteq> [] \<and> trim (cx_reranker_config_hash c) \<noteq> []"

text \<open>The executor on an assembled context: it cannot raise, and its result is one of \<open>v2_run\<close>.\<close>

lemma execute_on_context:
  assumes "\<forall>u \<in> set (cx_evidence_units c). unit_citable u" and "context_filled c"
    and "nonblank (cx_context_config_hash c)" and "generator_filled (qe_executor env)"
    and "query_preflight env a = Inr name" and "scoped_names a = Some names" and "qa_product_v2 a"
    and "require_runtime_sufficiency_policy repr fr (ex_abstention (qe_executor env)) = Inr p"
    and "ac_context ac = c"
  shows "\<exists>sent r. execute sha fr repr (qe_executor env) (execute_request env a name ac) = (sent, Inr r) \<and>
    v2_run (qe_executor env) names (cx_evidence_units c) sent r"
proof -
  let ?E = "qe_executor env" and ?us = "cx_evidence_units c"
  note pre = query_preflight_Inr [OF assms(5)]
  have run: "check_run repr fr ?E name False False ?us = Inr (name, evaluate_sufficiency_policy_v1 ?us)"
    using pre assms(8) valid_name_again
    by (auto simp: check_run_def evaluate_runtime_sufficiency_def try_map_def)
  have prov: "provenance_filled (provenance_of env ac)"
    using assms(2,3,9) nonblank_trim [OF assms(3)]
    by (simp add: provenance_filled_def provenance_of_def Let_def context_filled_def)
  have "or_str (Some q) None = q" for q by (simp add: or_str_def)
  then have "execute sha fr repr ?E (execute_request env a name ac) =
    execute_product_v2 sha fr repr ?E (py_strip (qa_retrieval_question a)) (py_strip (qa_answer_intent a))
      name ?us (provenance_of env ac) False False (Some names)"
    using assms(6,7,9) pre by (simp add: execute_def execute_request_def Let_def)
  with product_run [OF assms(1) prov strip_filled [of "qa_answer_intent a"] assms(4) run] pre
  show ?thesis by simp
qed

subsection \<open>The product query\<close>

lemma v2_result_citations:
  assumes "v2_result_of env us response r"
  shows "\<forall>c \<in> set (ga_citations r). \<exists>u \<in> set us. c = citation_of u"
  using assms by (cases "v2_parsed env us response")
    (auto simp: v2_result_of_def refusal_def answer_grounded_def split: if_splits)

lemma v2_run_facts:
  assumes "v2_run env names us sent r"
  shows "length sent \<le> 1" and "\<forall>c \<in> set (ga_citations r). \<exists>u \<in> set us. c = citation_of u"
proof -
  consider "sent = []" "ga_citations r = []"
    | q where "sent = [q]" "case ex_generate env q of Inl e \<Rightarrow> refusal 1 r \<and> ga_status r = Generation_Failed
        | Inr response \<Rightarrow> v2_result_of env us response r"
    using assms unfolding v2_run_def refusal_def by (auto split: if_splits)
  then have "length sent \<le> 1 \<and> (\<forall>c \<in> set (ga_citations r). \<exists>u \<in> set us. c = citation_of u)"
  proof cases
    case 2
    then show ?thesis
      by (cases "ex_generate env q") (auto simp: refusal_def dest: v2_result_citations)
  qed simp
  then show "length sent \<le> 1" and "\<forall>c \<in> set (ga_citations r). \<exists>u \<in> set us. c = citation_of u" by blast+
qed

lemma core_Inl:
  assumes "query_preflight env a = Inl e"
  shows "run_grounded_query_core sha fr repr rsub env a = \<lparr>qo_recovery_calls = [], qo_sent = [], qo_result = Inl e\<rparr>"
  using assms by (simp add: run_grounded_query_core_def)

lemma core_context_Inl:
  assumes "query_preflight env a = Inr name" and "first_context repr fr env a name = Inl e"
  shows "run_grounded_query_core sha fr repr rsub env a = \<lparr>qo_recovery_calls = [], qo_sent = [], qo_result = Inl e\<rparr>"
  using assms by (simp add: run_grounded_query_core_def)

lemma core_unrecovered:
  assumes "query_preflight env a = Inr name" and "first_context repr fr env a name = Inr (c, d)"
    and "\<not> qa_allow_recovery a"
    and "generate_answer sha fr repr env a name
      \<lparr>ac_context = c, ac_context_ms = qe_context_ms env, ac_recovery_block = None\<rparr> = (sent, out)"
  shows "run_grounded_query_core sha fr repr rsub env a = \<lparr>qo_recovery_calls = [], qo_sent = sent, qo_result = out\<rparr>"
  using assms by (simp add: run_grounded_query_core_def recover_without)

text \<open>Errors that only generation or recovery could leak.\<close>

fun leaked :: "query_exc \<Rightarrow> bool" where
  "leaked (Query_Generation_Error g) \<longleftrightarrow> True"
| "leaked (Query_Coordinator_Error k) \<longleftrightarrow> True"
| "leaked e \<longleftrightarrow> False"

definition checkpoint_plain :: "query_env \<Rightarrow> bool" where
  "checkpoint_plain env \<longleftrightarrow> (\<forall>w e. qe_checkpoint env w = Inl e \<longrightarrow> \<not> leaked e) \<and>
     (\<forall>n e. qe_require_ready env n = Inl e \<longrightarrow> \<not> leaked e)"

lemma preflight_plain: "checkpoint_plain env \<Longrightarrow> query_preflight env a = Inl e \<Longrightarrow> \<not> leaked e"
  by (auto simp: query_preflight_def bind_res_Inl_iff checkpoint_plain_def split: if_splits)

lemma assemble_caught_plain: "\<not> leaked (assemble_caught x)"
  by (cases x) simp_all

lemma first_context_plain: "checkpoint_plain env \<Longrightarrow> first_context repr fr env a name = Inl e \<Longrightarrow> \<not> leaked e"
  by (auto simp: first_context_def bind_res_Inl_iff checkpoint_plain_def assert_context_invariants_def
      assemble_caught_plain split: if_splits)

lemma generate_cases:
  assumes "checkpoint_plain env" and "ac_recovery_block ac = None"
    and "execute sha fr repr (qe_executor env) (execute_request env a name ac) = (sent, Inr r)"
    and "generate_answer sha fr repr env a name ac = (sent', out)"
  shows "sent' = [] \<and> (\<exists>e. out = Inl e \<and> \<not> leaked e) \<or>
    sent' = sent \<and> (out = Inr r \<or> (\<exists>e. out = Inl e \<and> \<not> leaked e))"
proof -
  let ?cp = "\<lambda>w. qe_checkpoint env w"
  have plain: "\<not> leaked e" if "?cp w = Inl e" for w e using assms(1) that by (auto simp: checkpoint_plain_def)
  show ?thesis
  proof (cases "bind_res (?cp ''after_context'') (\<lambda>_. ?cp ''before_generation'')")
    case (Inl e)
    then have "\<not> leaked e" by (auto simp: bind_res_Inl_iff dest: plain)
    with Inl assms(4) show ?thesis by (simp add: generate_answer_def) blast
  next
    case (Inr u)
    with assms(2,3,4) have "sent' = sent" "out = bind_res (?cp ''after_generation'') (\<lambda>_. Inr r)"
      by (auto simp: generate_answer_def try_map_def with_block_def)
    then show ?thesis by (cases "?cp ''after_generation''") (auto dest: plain)
  qed
qed

lemma query_request_scope [simp]: "rq_document_ids (query_request a n) = qa_document_ids a"
  by (simp add: query_request_def)

lemma entry_args_sel [simp]:
  "qa_product_v2 (entry_args b q rq ai scope)" "\<not> qa_allow_recovery (entry_args b q rq ai scope)"
  "\<not> qa_check_ready (entry_args b q rq ai scope)" "qa_document_ids (entry_args b q rq ai scope) = scope"
  by (simp_all add: entry_args_def)

lemma entry_names: "scoped_names (entry_args b q rq ai scope) = Some (names_of (entry_args b q rq ai scope))"
  by (simp add: names_of_def scoped_names_def entry_args_def split: option.split)

text \<open>C6: A product query is answered from the snapshot and the documents it is bound to. Over the modelled
  retrieval and assembly, whatever the retrievers return, the entry never runs recovery, calls the
  generator at most once, and lets no validation error of its own results through. A result is the
  executor's on a context assembled for the bound request, and every citation of it is one of a unit of
  that context whose document is in the requested scope.\<close>

theorem product_query_sound:
  assumes "qe_assemble env = assemble sha fr aenv retrieve"
    and "\<And>name s. ae_structure aenv name = Inr s \<Longrightarrow> store_wf s"
    and "\<And>q c. qe_assemble env False q = Inr c \<Longrightarrow> context_filled c"
    and "generator_filled (qe_executor env)" and "checkpoint_plain env"
    and "entry_answer sha fr repr rsub env b False question rq ai scope = out"
  shows "qo_recovery_calls out = [] \<and> length (qo_sent out) \<le> 1 \<and>
    (case qo_result out of
       Inl e \<Rightarrow> \<not> leaked e
     | Inr r \<Rightarrow> (\<exists>name c. qe_assemble env False (query_request (entry_args b question rq ai scope) name) = Inr c \<and>
         v2_run (qe_executor env) (names_of (entry_args b question rq ai scope)) (cx_evidence_units c) (qo_sent out) r \<and>
         (\<forall>ct \<in> set (ga_citations r). in_scope scope (ct_document_id ct) \<and>
            (\<exists>u \<in> set (cx_evidence_units c). ct = citation_of u))))"
proof -
  let ?a = "entry_args b question rq ai scope"
  have core: "run_grounded_query_core sha fr repr rsub env ?a = out"
    using assms(6) by (simp add: entry_answer_def)
  show ?thesis
  proof (cases "query_preflight env ?a")
    case (Inl e)
    with core_Inl [OF Inl] preflight_plain [OF assms(5) Inl] core show ?thesis by auto
  next
    case pre: (Inr name)
    show ?thesis
    proof (cases "first_context repr fr env ?a name")
      case (Inl e)
      with core_context_Inl [OF pre Inl] first_context_plain [OF assms(5) Inl] core show ?thesis by auto
    next
      case (Inr cd)
      obtain c d where cd: "cd = (c, d)" by (cases cd)
      note fc = Inr [unfolded cd]
      from first_context_Inr [OF fc] obtain p where asm: "qe_assemble env False (query_request ?a name) = Inr c"
        and pol: "require_runtime_sufficiency_policy repr fr (ex_abstention (qe_executor env)) = Inr p" by auto
      note units = assembled_units [OF asm [unfolded assms(1)] assms(2)]
      let ?ac = "\<lparr>ac_context = c, ac_context_ms = qe_context_ms env, ac_recovery_block = None\<rparr>"
      have "\<exists>sent r. execute sha fr repr (qe_executor env) (execute_request env ?a name ?ac) = (sent, Inr r) \<and>
          v2_run (qe_executor env) (names_of ?a) (cx_evidence_units c) sent r"
        using units(1) by (intro execute_on_context [OF _ assms(3) [OF asm] units(4) assms(4) pre entry_names _ pol]) auto
      then obtain sent r where x: "execute sha fr repr (qe_executor env) (execute_request env ?a name ?ac) = (sent, Inr r)"
        and run: "v2_run (qe_executor env) (names_of ?a) (cx_evidence_units c) sent r" by blast
      obtain sent' res where g: "generate_answer sha fr repr env ?a name ?ac = (sent', res)" by fastforce
      have o: "out = \<lparr>qo_recovery_calls = [], qo_sent = sent', qo_result = res\<rparr>"
        using core_unrecovered [OF pre fc _ g] core by simp
      note facts = v2_run_facts [OF run]
      have "\<forall>ct \<in> set (ga_citations r). in_scope scope (ct_document_id ct) \<and>
          (\<exists>u \<in> set (cx_evidence_units c). ct = citation_of u)"
        using facts(2) units(1) by (fastforce simp: citation_of_def)
      with generate_cases [OF assms(5) _ x g] o facts(1) asm run show ?thesis by fastforce
    qed
  qed
qed

subsection \<open>A query that returns\<close>

lemma entry_returns:
  assumes "query_preflight env (entry_args b q rq ai scope) = Inr name"
    and "first_context repr fr env (entry_args b q rq ai scope) name = Inr (c, d)"
    and "execute sha fr repr (qe_executor env) (execute_request env (entry_args b q rq ai scope) name
      \<lparr>ac_context = c, ac_context_ms = qe_context_ms env, ac_recovery_block = None\<rparr>) = (sent, Inr r)"
    and "\<And>w. qe_checkpoint env w = Inr ()"
  shows "entry_answer sha fr repr rsub env b False q rq ai scope =
    \<lparr>qo_recovery_calls = [], qo_sent = sent, qo_result = Inr r\<rparr>"
proof -
  have "generate_answer sha fr repr env (entry_args b q rq ai scope) name
      \<lparr>ac_context = c, ac_context_ms = qe_context_ms env, ac_recovery_block = None\<rparr> = (sent, Inr r)"
    using assms(3,4) by (simp add: generate_answer_def try_map_def with_block_def)
  from core_unrecovered [OF assms(1,2) _ this] show ?thesis by (simp add: entry_answer_def)
qed

definition sample_anchor :: hybrid_rerank_candidate where
  "sample_anchor = candidate_core.extend (sample_candidate 1 ''chunk-a'' ''doc-1'')
     (hybrid_rerank_candidate.fields \<lparr>rp_reranker_score = 1, rp_hybrid_rank = 1, rp_rrf_score = 1 / 61,
        rp_dense_rank = Some 1, rp_dense_score = Some 1, rp_lexical_rank = None, rp_lexical_score = None\<rparr>)"

definition sample_upstream :: "bool \<Rightarrow> retrieval_request \<Rightarrow> retrieval_exc + rerank_result" where
  "sample_upstream ready q = Inr \<lparr>kr_query = rq_query q, kr_method = ''hybrid-rerank'', kr_top_k = 5,
     kr_candidates = [sample_anchor], kr_dense_index_id = ''dense-1'', kr_lexical_index_id = ''lexical-1'',
     kr_fusion_config_hash = ''fuscfg_1'', kr_reranker_config_hash = ''rrkcfg_1'',
     kr_corpus_id = Some ''corpus-1'', kr_chunk_set_id = ''set-1'', kr_input_k = 30,
     kr_input_pool_chunk_ids = [''chunk-a'']\<rparr>"

definition sample_query_env :: query_env where
  "sample_query_env = \<lparr>qe_executor = sample_executor, qe_coordinator = sample_coordinator,
     qe_assemble = assemble sample_digest sample_float_repr sample_assembler sample_upstream,
     qe_require_ready = (\<lambda>_. Inr ()), qe_checkpoint = (\<lambda>_. Inr ()), qe_context_ms = 4,
     qe_latency = (\<lambda>_. JNull), qe_trace_block = (\<lambda>_. JNull)\<rparr>"

definition sample_binding :: snapshot_binding where
  "sample_binding = \<lparr>sb_corpus_name = ''default'', sb_snapshot_id = ''snap-1'', sb_corpus_id = ''corpus-1'',
     sb_chunk_set_id = ''set-1'', sb_dense_index_id = ''dense-1'', sb_dense_collection_name = ''col-1'',
     sb_lexical_index_id = ''lexical-1'', sb_documents = [(''doc-1'', ''Staff Guide.pdf'')]\<rparr>"

abbreviation sample_query_args :: query_args where
  "sample_query_args \<equiv> entry_args sample_binding (Some ''How much leave?'') None None (Some {''doc-1''})"

lemma sample_query_facts:
  "query_preflight sample_query_env sample_query_args = Inr ''default''"
  "checkpoint_plain sample_query_env" "generator_filled (qe_executor sample_query_env)"
proof -
  have "validate_corpus_name ''default'' = Inr ''default''" "py_strip ''How much leave?'' \<noteq> []" by code_simp+
  then show "query_preflight sample_query_env sample_query_args = Inr ''default''"
    by (simp add: query_preflight_def entry_args_def or_question_def sample_binding_def sample_query_env_def
        sample_executor_def sample_generation_def try_map_def)
  show "checkpoint_plain sample_query_env" by (simp add: checkpoint_plain_def sample_query_env_def)
  show "generator_filled (qe_executor sample_query_env)" using sample_checks(2) by (simp add: sample_query_env_def)
qed

lemma sample_query_filled: "qe_assemble sample_query_env ready q = Inr c \<Longrightarrow> context_filled c"
proof -
  assume "qe_assemble sample_query_env ready q = Inr c"
  then have "assemble sample_digest sample_float_repr sample_assembler sample_upstream ready q = Inr c"
    by (simp add: sample_query_env_def)
  then obtain name cnt up x where "sample_upstream ready (q\<lparr>rq_corpus_name := name,
      rq_top_k := Some (int (cs_anchor_k (ae_context sample_assembler)))\<rparr>) = Inr up"
    and "c = context_result_of sample_digest sample_float_repr sample_assembler cnt (rq_query q) up x"
    by (rule assemble_InrE)
  moreover have "trim ''dense-1'' \<noteq> []" "trim ''lexical-1'' \<noteq> []" "trim ''fuscfg_1'' \<noteq> []" "trim ''rrkcfg_1'' \<noteq> []"
    by code_simp+
  ultimately show "context_filled c"
    by (auto simp: context_filled_def sample_upstream_def context_result_of_def)
qed

lemma sample_query_context:
  "\<exists>c. qe_assemble sample_query_env False (query_request sample_query_args ''default'') = Inr c"
proof -
  obtain s where s: "\<And>name. ae_structure sample_assembler name = Inr s" by (simp add: sample_assembler_def)
  have sel: "cd_chunk_id sample_anchor = ''chunk-a''" "cd_document_id sample_anchor = ''doc-1''"
    by (simp_all add: sample_anchor_def sample_candidate_def candidate_core.extend_def)
  obtain k where k: "get_child s ''chunk-a'' = Inr k" "ck_document_id k = ''doc-1''"
    using s [of "''default''"] by (auto simp: sample_assembler_def get_child_def)
  then have "\<forall>a \<in> set [sample_anchor]. \<exists>k. get_child s (cd_chunk_id a) = Inr k" by (simp add: sel)
  from sample_expands [OF s this, of sample_digest sample_float_repr] obtain x where
    x: "expand sample_digest sample_float_repr \<lparr>xp_store = s, xp_counter = ti_count sample_counter,
      xp_context = ae_context sample_assembler\<rparr> (map anchor_of [sample_anchor]) = Inr x" by blast
  have wf: "store_wf s" using sample_assembler_store [OF s] by blast
  have "\<forall>u \<in> set (xc_evidence_units x). eu_document_id u = ''doc-1''"
    using unit_document_of_anchor [OF x] wf k sel by (auto simp: agrees_def)
  then have sc: "assert_units_in_scope (Some {''doc-1''}) (xc_evidence_units x) = Inr ()" by simp
  have "validate_corpus_name ''default'' = Inr ''default''" "py_strip (py_strip ''How much leave?'') \<noteq> []" by code_simp+
  then have pre: "assemble_preflight sample_assembler False (query_request sample_query_args ''default'') =
      Inr (''default'', sample_counter)"
    by (simp add: assemble_preflight_def query_request_def entry_args_def or_question_def sample_assembler_def
        sample_expander_def try_map_def)
  have "assemble sample_digest sample_float_repr sample_assembler sample_upstream False
      (query_request sample_query_args ''default'') = Inr (context_result_of sample_digest sample_float_repr
        sample_assembler sample_counter (rq_query (query_request sample_query_args ''default''))
        (projr (sample_upstream False ((query_request sample_query_args ''default'')
          \<lparr>rq_corpus_name := ''default'', rq_top_k := Some (int (cs_anchor_k (ae_context sample_assembler)))\<rparr>))) x)"
    unfolding assemble_def pre bind_res_simps prod.case
    using x s sc by (simp add: sample_upstream_def try_map_def del: assert_units_iff)
  then show ?thesis by (auto simp: sample_query_env_def)
qed

theorem product_query_sound_witness:
  "\<exists>sent r. entry_answer sample_digest sample_float_repr id (\<lambda>a b. a - b) sample_query_env sample_binding False
      (Some ''How much leave?'') None None (Some {''doc-1''}) =
      \<lparr>qo_recovery_calls = [], qo_sent = sent, qo_result = Inr r\<rparr> \<and> length sent \<le> 1 \<and>
    (\<forall>ct \<in> set (ga_citations r). ct_document_id ct = ''doc-1'')"
proof -
  let ?a = sample_query_args and ?env = sample_query_env
  obtain c where c: "qe_assemble ?env False (query_request ?a ''default'') = Inr c" using sample_query_context ..
  have wf: "store_wf s" if "ae_structure sample_assembler name = Inr s" for name s
    using sample_assembler_store [OF that] by blast
  have asm: "qe_assemble ?env = assemble sample_digest sample_float_repr sample_assembler sample_upstream"
    by (simp add: sample_query_env_def)
  have units: "\<forall>u \<in> set (cx_evidence_units c). unit_citable u" "nonblank (cx_context_config_hash c)"
    and inv: "assert_context_invariants c = Inr ()"
    using assembled_units(1,4) [OF c [unfolded asm]] assembled_invariants [OF c [unfolded asm]] wf by blast+
  have pol: "require_runtime_sufficiency_policy id sample_float_repr (ex_abstention (qe_executor ?env)) =
      Inr SUFFICIENCY_POLICY_V1"
    by (simp add: sample_query_env_def sample_executor_def require_runtime_sufficiency_policy_def)
  have fc: "first_context id sample_float_repr ?env ?a ''default'' = Inr (c, evaluate_sufficiency_policy_v1 (cx_evidence_units c))"
    using c inv pol by (simp add: first_context_def evaluate_runtime_sufficiency_def try_map_def)
      (simp add: sample_query_env_def)
  let ?ac = "\<lparr>ac_context = c, ac_context_ms = qe_context_ms ?env, ac_recovery_block = None\<rparr>"
  obtain sent r where x: "execute sample_digest sample_float_repr id (qe_executor ?env)
      (execute_request ?env ?a ''default'' ?ac) = (sent, Inr r)"
    using execute_on_context [OF _ sample_query_filled [OF c] units(2) sample_query_facts(3,1) entry_names _ pol, of ?ac] units(1)
      entry_args_sel(1) by (metis (no_types, lifting) active_context.select_convs(1))
  have out: "entry_answer sample_digest sample_float_repr id (\<lambda>a b. a - b) ?env sample_binding False
      (Some ''How much leave?'') None None (Some {''doc-1''}) =
      \<lparr>qo_recovery_calls = [], qo_sent = sent, qo_result = Inr r\<rparr>"
    by (rule entry_returns [OF sample_query_facts(1) fc x]) (simp add: sample_query_env_def)
  from product_query_sound [OF asm wf sample_query_filled sample_query_facts(3,2) out] out show ?thesis
    by fastforce
qed

end
