(* ===== verification/Sufficiency_Derive.thy ===== *)
theory Sufficiency_Derive
  imports Sufficiency_Policy
begin

section \<open>Sufficiency observations (sufficiency/contracts.py, config_hash.py, derive.py)\<close>

text \<open>
  The typed provenance and the seven-feature observation, the fail-closed validation of a
  provenance, the derivation of the features, and the recomputation check of a stored observation.
  A score is a binary64 value: finite, or one of the three values \<open>math.isfinite\<close> refuses. The
  difference of two finite scores is rounded by the parameter \<open>fsub\<close>.
\<close>

subsection \<open>Floats\<close>

datatype xfloat = XFin pyfloat | XInf | XNegInf | XNaN

fun xf_str :: "xfloat \<Rightarrow> string" where
  "xf_str XInf = ''inf''"
| "xf_str XNegInf = ''-inf''"
| "xf_str XNaN = ''nan''"
| "xf_str (XFin q) = []"

text \<open>\<open>x < 0\<close> and \<open>x == y\<close> of Python; \<open>nan\<close> is below nothing and equals nothing.\<close>

fun xf_negative :: "xfloat \<Rightarrow> bool" where
  "xf_negative (XFin q) \<longleftrightarrow> q < 0"
| "xf_negative XNegInf \<longleftrightarrow> True"
| "xf_negative _ \<longleftrightarrow> False"

definition xf_eq :: "xfloat \<Rightarrow> xfloat \<Rightarrow> bool" where
  "xf_eq x y \<longleftrightarrow> x = y \<and> x \<noteq> XNaN"

type_synonym float_sub = "pyfloat \<Rightarrow> pyfloat \<Rightarrow> xfloat"

text \<open>What IEEE 754 guarantees of a difference: it is a number, and not negative where the operands
  are ordered.\<close>

definition float_sub_ok :: "float_sub \<Rightarrow> bool" where
  "float_sub_ok fsub \<longleftrightarrow> (\<forall>a b. fsub a b \<noteq> XNaN \<and> (b \<le> a \<longrightarrow> \<not> xf_negative (fsub a b)))"

subsection \<open>Errors\<close>

datatype sufficiency_error_code =
    MISSING_REQUIRED_LINEAGE
  | MISSING_REQUIRED_PROVENANCE
  | INVALID_ATTEMPT_FIELDS
  | INVALID_ANCHOR_ORDER
  | MISSING_DOCUMENT_ID
  | INVALID_SECTION_PATH
  | INVALID_RERANKER_SCORE
  | INVALID_RRF_SCORE
  | INVALID_BRANCH_SCORE
  | OBSERVATION_RECOMPUTE_MISMATCH
  | UNSUPPORTED_OBSERVATION_CONTRACT
  | UNSUPPORTED_OBSERVATION_CONFIG
  | INVALID_SEMANTIC_PAYLOAD
  | DUPLICATE_ANCHOR_CHUNK_ID
  | DUPLICATE_EVIDENCE_UNIT_ID
  | INVALID_RERANK_RANK
  | INVALID_BRANCH_RANK
  | INVALID_BRANCH_RANK_SCORE_PAIR
  | INVALID_HYBRID_RANK
  | INVALID_DIAGNOSTICS
  | INVALID_QUERY_FIELDS
  | CONTRADICTORY_UPSTREAM_STATE

datatype suff_value = VNone | VStr string | VInt int | VFloat xfloat | VBool bool

record sufficiency_error_details =
  sd_field_name :: "string option"
  sd_expected :: suff_value
  sd_actual :: suff_value
  sd_attempt_number :: "nat option"

datatype sufficiency_exc =
    Derivation_Error sufficiency_error_code string "sufficiency_error_details option"
  | Suff_Validation_Error sufficiency_error_code string "sufficiency_error_details option"

fun suff_code :: "sufficiency_exc \<Rightarrow> sufficiency_error_code" where
  "suff_code (Derivation_Error c m d) = c"
| "suff_code (Suff_Validation_Error c m d) = c"

text \<open>\<open>_fail\<close> with a field name, an expected and an actual value\<close>

definition fail_field ::
    "sufficiency_error_code \<Rightarrow> string \<Rightarrow> string \<Rightarrow> suff_value \<Rightarrow> suff_value \<Rightarrow> sufficiency_exc + 'a" where
  "fail_field code message field_name exd act = Inl (Derivation_Error code message
     (Some \<lparr>sd_field_name = Some field_name, sd_expected = exd, sd_actual = act,
            sd_attempt_number = None\<rparr>))"

definition fail_attempt ::
    "sufficiency_error_code \<Rightarrow> string \<Rightarrow> string \<Rightarrow> suff_value \<Rightarrow> suff_value \<Rightarrow> nat \<Rightarrow>
     sufficiency_exc + 'a" where
  "fail_attempt code message field_name exd act n = Inl (Derivation_Error code message
     (Some \<lparr>sd_field_name = Some field_name, sd_expected = exd, sd_actual = act,
            sd_attempt_number = Some n\<rparr>))"

lemma fail_simps [simp]:
  "fail_field c m f e a \<noteq> Inr x" "fail_attempt c m f e a n \<noteq> Inr x"
  by (simp_all add: fail_field_def fail_attempt_def)

subsection \<open>Provenance and observation\<close>

record suff_anchor =
  sa_chunk_id :: string
  sa_rerank_rank :: int
  sa_reranker_score :: xfloat
  sa_hybrid_rank :: int
  sa_rrf_score :: xfloat
  sa_dense_rank :: "int option"
  sa_dense_score :: "xfloat option"
  sa_lexical_rank :: "int option"
  sa_lexical_score :: "xfloat option"

record suff_unit =
  su_evidence_unit_id :: string
  su_document_id :: string
  su_section_path :: "string list"
  su_source_chunk_id :: string
  su_primary_anchor_chunk_id :: string

record suff_diagnostics =
  sg_evidence_unit_count :: nat
  sg_context_token_count :: nat
  sg_clipping_occurred :: bool
  sg_budget_exhausted :: bool
  sg_stop_reason :: string
  sg_dedup_hits :: nat
  sg_containment_suppressions :: nat

record suff_provenance =
  sp_schema_version :: string
  sp_case_id :: string
  sp_corpus_id :: string
  sp_chunk_set_id :: string
  sp_dense_index_id :: string
  sp_lexical_index_id :: string
  sp_fusion_config_hash :: string
  sp_reranker_config_hash :: string
  sp_context_config_hash :: string
  sp_original_query :: string
  sp_active_retrieval_query :: string
  sp_attempt_number :: nat
  sp_attempt_role :: attempt_role
  sp_anchors :: "suff_anchor list"
  sp_final_evidence_units :: "suff_unit list"
  sp_diagnostics :: suff_diagnostics

record suff_observation =
  ob_observation_contract :: string
  ob_observation_config_hash :: string
  ob_empty_context :: bool
  ob_top_reranker_score :: "xfloat option"
  ob_top1_top2_margin :: "xfloat option"
  ob_top_anchor_cross_retriever_support :: "bool option"
  ob_anchor_count :: nat
  ob_distinct_document_count :: nat
  ob_distinct_section_count :: nat

definition SUFFICIENCY_OBSERVATION_V1 :: string where
  "SUFFICIENCY_OBSERVATION_V1 = ''sufficiency-observation-v1''"

definition SUFFICIENCY_PROVENANCE_V1 :: string where
  "SUFFICIENCY_PROVENANCE_V1 = ''sufficiency-provenance-v1''"

subsection \<open>The derivation configuration and its hash\<close>

definition str_obj :: "(string \<times> string) list \<Rightarrow> (string \<times> json) list" where
  "str_obj = map (\<lambda>(k, v). (k, JStr v))"

definition OBSERVATION_DERIVATION_CONFIG_V1 :: json where
  "OBSERVATION_DERIVATION_CONFIG_V1 = JObj [
     (''contract'', JStr SUFFICIENCY_OBSERVATION_V1),
     (''features'', JObj [
        (''empty_context'', JObj (str_obj
          [(''definition'', ''len(final_evidence_units) == 0''), (''version'', ''empty-context-v1'')])),
        (''top_reranker_score'', JObj (str_obj
          [(''source'', ''reranker_raw_logit''), (''score_transform'', ''raw-logit-v1''),
           (''anchor_selection'', ''rank_1''), (''version'', ''top-reranker-score-v1'')])),
        (''top1_top2_margin'', JObj (str_obj
          [(''definition'', ''top1_score - top2_score''), (''fewer_than_two'', ''null''),
           (''version'', ''top1-top2-margin-v1'')])),
        (''top_anchor_cross_retriever_support'', JObj (str_obj
          [(''definition'', ''top anchor has both dense_rank and lexical_rank non-null''),
           (''version'', ''top-anchor-cross-retriever-v1'')])),
        (''anchor_count'', JObj (str_obj
          [(''definition'', ''len(ordered_reranked_anchors)''), (''version'', ''anchor-count-v1'')])),
        (''distinct_document_count'', JObj (str_obj
          [(''identity_field'', ''document_id''), (''normalization'', ''exact''),
           (''version'', ''distinct-document-count-v1'')])),
        (''distinct_section_count'', JObj
          ([(''identity_tuple'', JList [JStr ''document_id'', JStr ''normalized_section_path''])] @
           str_obj [(''section_path_normalization'', ''structural-only-v1'')] @
           [(''empty_path'', JList [])] @ str_obj [(''version'', ''distinct-section-count-v1'')]))]),
     (''canonicalization'', JObj (str_obj
        [(''field_order'', ''canonical''), (''null_handling'', ''explicit''),
         (''numeric_serialization'', ''canonical-json''), (''anchor_order'', ''preserve''),
         (''evidence_unit_order'', ''preserve'')]))]"

definition build_observation_config_hash ::
    "digest \<Rightarrow> (pyfloat \<Rightarrow> string) \<Rightarrow> json option \<Rightarrow> string" where
  "build_observation_config_hash sha fr config =
     config_hash_with ''obsconfig_'' sha fr
       (case config of None \<Rightarrow> OBSERVATION_DERIVATION_CONFIG_V1 | Some c \<Rightarrow> c)"

definition authoritative_observation_config_hash :: "digest \<Rightarrow> (pyfloat \<Rightarrow> string) \<Rightarrow> string" where
  "authoritative_observation_config_hash sha fr =
     config_hash_with ''obsconfig_'' sha fr OBSERVATION_DERIVATION_CONFIG_V1"

subsection \<open>Validation\<close>

definition require_finite ::
    "xfloat \<Rightarrow> string \<Rightarrow> sufficiency_error_code \<Rightarrow> sufficiency_exc + pyfloat" where
  "require_finite x field_name code = (case x of
     XFin q \<Rightarrow> Inr q
   | _ \<Rightarrow> fail_field code (field_name @ '' must be finite'') field_name VNone (VStr (xf_str x)))"

text \<open>On the list of strings (or \<open>None\<close>) its type admits.\<close>

definition normalized_section_path :: "string list option \<Rightarrow> string list" where
  "normalized_section_path path = (case path of None \<Rightarrow> [] | Some p \<Rightarrow> p)"

definition validate_attempt_fields :: "suff_provenance \<Rightarrow> sufficiency_exc + unit" where
  "validate_attempt_fields p =
     (if sp_attempt_role p = INITIAL \<and> sp_attempt_number p \<noteq> 0 then
        fail_attempt INVALID_ATTEMPT_FIELDS ''attempt_role=initial requires attempt_number=0''
          ''attempt_number'' (VInt 0) (VInt (int (sp_attempt_number p))) (sp_attempt_number p)
      else if sp_attempt_role p = RECOVERY \<and> sp_attempt_number p < 1 then
        fail_attempt INVALID_ATTEMPT_FIELDS ''attempt_role=recovery requires attempt_number>=1''
          ''attempt_number'' (VInt 1) (VInt (int (sp_attempt_number p))) (sp_attempt_number p)
      else Inr ())"

definition validate_query_fields :: "suff_provenance \<Rightarrow> sufficiency_exc + unit" where
  "validate_query_fields p =
     (if (sp_attempt_role p = INITIAL \<or> sp_attempt_number p = 0) \<and>
         sp_active_retrieval_query p \<noteq> sp_original_query p then
        fail_attempt INVALID_QUERY_FIELDS
          ''initial/attempt 0 requires active_retrieval_query == original_query''
          ''active_retrieval_query'' (VStr (sp_original_query p)) (VStr (sp_active_retrieval_query p))
          (sp_attempt_number p)
      else Inr ())"

definition lineage_fields :: "suff_provenance \<Rightarrow> (string \<times> string) list" where
  "lineage_fields p = [(''case_id'', sp_case_id p), (''corpus_id'', sp_corpus_id p),
     (''chunk_set_id'', sp_chunk_set_id p), (''dense_index_id'', sp_dense_index_id p),
     (''lexical_index_id'', sp_lexical_index_id p), (''fusion_config_hash'', sp_fusion_config_hash p),
     (''reranker_config_hash'', sp_reranker_config_hash p),
     (''context_config_hash'', sp_context_config_hash p), (''original_query'', sp_original_query p),
     (''active_retrieval_query'', sp_active_retrieval_query p)]"

definition validate_lineage :: "suff_provenance \<Rightarrow> sufficiency_exc + unit" where
  "validate_lineage p = for_each (\<lambda>(field_name, v).
     if py_strip v = [] then
       fail_field MISSING_REQUIRED_LINEAGE (''missing required lineage field: '' @ field_name)
         field_name VNone VNone
     else Inr ()) (lineage_fields p)"

definition validate_branch_pair ::
    "string \<Rightarrow> int option \<Rightarrow> xfloat option \<Rightarrow> sufficiency_exc + unit" where
  "validate_branch_pair branch rank score =
     (if (rank \<noteq> None) \<noteq> (score \<noteq> None) then
        fail_field INVALID_BRANCH_RANK_SCORE_PAIR (branch @ '' rank/score nullability must be paired'')
          (branch @ ''_rank'') (VStr ''paired'') (VStr ''mixed'')
      else
        bind_res (case rank of
            Some r \<Rightarrow> if r < 1 then
              fail_field INVALID_BRANCH_RANK (branch @ ''_rank must be a positive integer when present'')
                (branch @ ''_rank'') VNone (VInt r)
            else Inr ()
          | None \<Rightarrow> Inr ()) (\<lambda>_.
        case score of
          Some x \<Rightarrow> bind_res (require_finite x (branch @ ''_score'') INVALID_BRANCH_SCORE) (\<lambda>_. Inr ())
        | None \<Rightarrow> Inr ()))"

text \<open>The variables of the loop of \<open>_validate_anchors\<close>.\<close>

record anchor_scan =
  sc_index :: nat
  sc_chunk_ids :: "string set"
  sc_hybrid_ranks :: "int set"
  sc_dense_ranks :: "int set"
  sc_lexical_ranks :: "int set"
  sc_previous_score :: "pyfloat option"

definition scan0 :: anchor_scan where
  "scan0 = \<lparr>sc_index = 0, sc_chunk_ids = {}, sc_hybrid_ranks = {}, sc_dense_ranks = {},
     sc_lexical_ranks = {}, sc_previous_score = None\<rparr>"

definition check_new_rank ::
    "string \<Rightarrow> int set \<Rightarrow> int option \<Rightarrow> sufficiency_exc + int set" where
  "check_new_rank branch seen rank = (case rank of
     None \<Rightarrow> Inr seen
   | Some r \<Rightarrow>
       if r \<in> seen then
         fail_field INVALID_BRANCH_RANK (''duplicate '' @ branch @ ''_rank among stored anchors'')
           (branch @ ''_rank'') VNone (VInt r)
       else Inr (insert r seen))"

definition check_anchor :: "anchor_scan \<Rightarrow> suff_anchor \<Rightarrow> sufficiency_exc + anchor_scan" where
  "check_anchor sc a =
     (let expected_rank = int (sc_index sc) + 1 in
      if sa_rerank_rank a \<noteq> expected_rank then
        fail_field INVALID_RERANK_RANK ''rerank_rank must equal list position (1-based)''
          ''rerank_rank'' (VInt expected_rank) (VInt (sa_rerank_rank a))
      else if sa_chunk_id a \<in> sc_chunk_ids sc then
        fail_field DUPLICATE_ANCHOR_CHUNK_ID ''duplicate chunk_id in reranked anchor list''
          ''chunk_id'' VNone (VStr (sa_chunk_id a))
      else if sa_hybrid_rank a < 1 then
        fail_field INVALID_HYBRID_RANK ''hybrid_rank must be a positive integer''
          ''hybrid_rank'' VNone (VInt (sa_hybrid_rank a))
      else if sa_hybrid_rank a \<in> sc_hybrid_ranks sc then
        fail_field INVALID_HYBRID_RANK ''duplicate hybrid_rank among stored anchors''
          ''hybrid_rank'' VNone (VInt (sa_hybrid_rank a))
      else
        bind_res (require_finite (sa_rrf_score a) ''rrf_score'' INVALID_RRF_SCORE) (\<lambda>_.
        bind_res (require_finite (sa_reranker_score a) ''reranker_score'' INVALID_RERANKER_SCORE)
          (\<lambda>score.
        bind_res (case sc_previous_score sc of
            Some previous \<Rightarrow> if score > previous then
              fail_field INVALID_ANCHOR_ORDER
                ''reranker scores must be non-increasing with rerank order'' ''reranker_score''
                (VFloat (XFin previous)) (VFloat (XFin score))
            else Inr ()
          | None \<Rightarrow> Inr ()) (\<lambda>_.
        bind_res (validate_branch_pair ''dense'' (sa_dense_rank a) (sa_dense_score a)) (\<lambda>_.
        bind_res (validate_branch_pair ''lexical'' (sa_lexical_rank a) (sa_lexical_score a)) (\<lambda>_.
        bind_res (check_new_rank ''dense'' (sc_dense_ranks sc) (sa_dense_rank a)) (\<lambda>dense.
        bind_res (check_new_rank ''lexical'' (sc_lexical_ranks sc) (sa_lexical_rank a)) (\<lambda>lexical.
        Inr \<lparr>sc_index = sc_index sc + 1,
             sc_chunk_ids = insert (sa_chunk_id a) (sc_chunk_ids sc),
             sc_hybrid_ranks = insert (sa_hybrid_rank a) (sc_hybrid_ranks sc),
             sc_dense_ranks = dense, sc_lexical_ranks = lexical,
             sc_previous_score = Some score\<rparr>))))))))"

definition validate_anchors :: "suff_anchor list \<Rightarrow> sufficiency_exc + unit" where
  "validate_anchors anchors = bind_res (fold_res check_anchor scan0 anchors) (\<lambda>_. Inr ())"

definition check_unit :: "string set \<Rightarrow> suff_unit \<Rightarrow> sufficiency_exc + string set" where
  "check_unit seen u =
     (if py_strip (su_document_id u) = [] then
        fail_field MISSING_DOCUMENT_ID ''final EvidenceUnit missing document_id'' ''document_id'' VNone VNone
      else if su_evidence_unit_id u \<in> seen then
        fail_field DUPLICATE_EVIDENCE_UNIT_ID ''duplicate evidence_unit_id in final EvidenceUnit list''
          ''evidence_unit_id'' VNone (VStr (su_evidence_unit_id u))
      else Inr (insert (su_evidence_unit_id u) seen))"

definition validate_evidence_units :: "suff_provenance \<Rightarrow> sufficiency_exc + unit" where
  "validate_evidence_units p =
     bind_res (fold_res check_unit {} (sp_final_evidence_units p)) (\<lambda>_.
       let expected_count = length (sp_final_evidence_units p) in
       if sg_evidence_unit_count (sp_diagnostics p) \<noteq> expected_count then
         fail_field INVALID_DIAGNOSTICS
           ''diagnostics.evidence_unit_count must equal len(final_evidence_units)''
           ''evidence_unit_count'' (VInt (int expected_count))
           (VInt (int (sg_evidence_unit_count (sp_diagnostics p))))
       else Inr ())"

subsection \<open>Derivation\<close>

definition score_sub :: "float_sub \<Rightarrow> xfloat \<Rightarrow> xfloat \<Rightarrow> xfloat" where
  "score_sub fsub x y = (case (x, y) of
     (XFin a, XFin b) \<Rightarrow> fsub a b
   | (XInf, XInf) \<Rightarrow> XNaN | (XNegInf, XNegInf) \<Rightarrow> XNaN | (XNaN, _) \<Rightarrow> XNaN | (_, XNaN) \<Rightarrow> XNaN
   | (XInf, _) \<Rightarrow> XInf | (XNegInf, _) \<Rightarrow> XNegInf | (_, XInf) \<Rightarrow> XNegInf | (_, XNegInf) \<Rightarrow> XInf)"

definition top_margin :: "float_sub \<Rightarrow> suff_anchor list \<Rightarrow> sufficiency_exc + xfloat option" where
  "top_margin fsub anchors = (case anchors of
     a # b # _ \<Rightarrow>
       (let margin = score_sub fsub (sa_reranker_score a) (sa_reranker_score b) in
        if xf_negative margin then
          fail_field INVALID_ANCHOR_ORDER
            ''top1_top2_margin must not be negative under ordered raw logits'' ''top1_top2_margin''
            VNone (VFloat margin)
        else Inr (Some margin))
   | _ \<Rightarrow> Inr None)"

definition cross_support :: "suff_anchor list \<Rightarrow> bool option" where
  "cross_support anchors = (case anchors of
     [] \<Rightarrow> None | a # _ \<Rightarrow> Some (sa_dense_rank a \<noteq> None \<and> sa_lexical_rank a \<noteq> None))"

definition top_score :: "suff_anchor list \<Rightarrow> xfloat option" where
  "top_score anchors = (case anchors of [] \<Rightarrow> None | a # _ \<Rightarrow> Some (sa_reranker_score a))"

definition derive_features ::
    "float_sub \<Rightarrow> suff_provenance \<Rightarrow> string \<Rightarrow> sufficiency_exc + suff_observation" where
  "derive_features fsub p observation_config_hash =
     (let anchors = sp_anchors p; units = sp_final_evidence_units p in
      bind_res (top_margin fsub anchors) (\<lambda>margin. Inr
        \<lparr>ob_observation_contract = SUFFICIENCY_OBSERVATION_V1,
         ob_observation_config_hash = observation_config_hash,
         ob_empty_context = (length units = 0),
         ob_top_reranker_score = top_score anchors,
         ob_top1_top2_margin = margin,
         ob_top_anchor_cross_retriever_support = cross_support anchors,
         ob_anchor_count = length anchors,
         ob_distinct_document_count = card (su_document_id ` set units),
         ob_distinct_section_count =
           card ((\<lambda>u. (su_document_id u, normalized_section_path (Some (su_section_path u)))) ` set units)\<rparr>))"

definition derive_sufficiency_observation ::
    "digest \<Rightarrow> (pyfloat \<Rightarrow> string) \<Rightarrow> float_sub \<Rightarrow> suff_provenance \<Rightarrow> string option \<Rightarrow>
     sufficiency_exc + suff_observation" where
  "derive_sufficiency_observation sha fr fsub p observation_config_hash =
     (if sp_schema_version p \<noteq> ''sufficiency-provenance-v1'' then
        fail_field UNSUPPORTED_OBSERVATION_CONTRACT ''unsupported provenance schema_version''
          ''schema_version'' (VStr ''sufficiency-provenance-v1'') (VStr (sp_schema_version p))
      else
        let expected_hash = authoritative_observation_config_hash sha fr;
            resolved_hash = (case observation_config_hash of
              Some h \<Rightarrow> if h = [] then expected_hash else h | None \<Rightarrow> expected_hash) in
        if resolved_hash \<noteq> expected_hash then
          fail_field UNSUPPORTED_OBSERVATION_CONFIG
            ''unsupported observation_config_hash for this software'' ''observation_config_hash''
            (VStr expected_hash) (VStr resolved_hash)
        else
          bind_res (validate_lineage p) (\<lambda>_.
          bind_res (validate_attempt_fields p) (\<lambda>_.
          bind_res (validate_query_fields p) (\<lambda>_.
          bind_res (validate_anchors (sp_anchors p)) (\<lambda>_.
          bind_res (validate_evidence_units p) (\<lambda>_.
          derive_features fsub p resolved_hash))))))"

subsection \<open>Recomputation check\<close>

definition opt_value :: "('a \<Rightarrow> suff_value) \<Rightarrow> 'a option \<Rightarrow> suff_value" where
  "opt_value f x = (case x of None \<Rightarrow> VNone | Some y \<Rightarrow> f y)"

definition observation_fields :: "suff_observation \<Rightarrow> (string \<times> suff_value) list" where
  "observation_fields ob =
     [(''empty_context'', VBool (ob_empty_context ob)),
      (''top_reranker_score'', opt_value VFloat (ob_top_reranker_score ob)),
      (''top1_top2_margin'', opt_value VFloat (ob_top1_top2_margin ob)),
      (''top_anchor_cross_retriever_support'',
         opt_value VBool (ob_top_anchor_cross_retriever_support ob)),
      (''anchor_count'', VInt (int (ob_anchor_count ob))),
      (''distinct_document_count'', VInt (int (ob_distinct_document_count ob))),
      (''distinct_section_count'', VInt (int (ob_distinct_section_count ob))),
      (''observation_contract'', VStr (ob_observation_contract ob)),
      (''observation_config_hash'', VStr (ob_observation_config_hash ob))]"

text \<open>\<open>a == b\<close>; the two fields compared have the same declared type.\<close>

definition value_eq :: "suff_value \<Rightarrow> suff_value \<Rightarrow> bool" where
  "value_eq a b = (case (a, b) of (VFloat x, VFloat y) \<Rightarrow> xf_eq x y | _ \<Rightarrow> a = b)"

fun as_validation_error :: "sufficiency_exc \<Rightarrow> sufficiency_exc" where
  "as_validation_error (Derivation_Error c m d) = Suff_Validation_Error c m d"
| "as_validation_error e = e"

definition match_field :: "string \<times> suff_value \<Rightarrow> suff_value \<Rightarrow> sufficiency_exc + unit" where
  "match_field field act = (case field of (field_name, exd) \<Rightarrow>
     if \<not> value_eq act exd then
       Inl (Suff_Validation_Error OBSERVATION_RECOMPUTE_MISMATCH
         (''stored observation field mismatch: '' @ field_name)
         (Some \<lparr>sd_field_name = Some field_name, sd_expected = exd, sd_actual = act,
                sd_attempt_number = None\<rparr>))
     else Inr ())"

lemma match_field_iff [simp]: "match_field field act = Inr u \<longleftrightarrow> value_eq act (snd field)"
  by (cases field) (simp add: match_field_def)

definition validate_observation_against_provenance ::
    "digest \<Rightarrow> (pyfloat \<Rightarrow> string) \<Rightarrow> float_sub \<Rightarrow> suff_observation \<Rightarrow> suff_provenance \<Rightarrow>
     sufficiency_exc + unit" where
  "validate_observation_against_provenance sha fr fsub ob p =
     (if ob_observation_contract ob \<noteq> SUFFICIENCY_OBSERVATION_V1 then
        Inl (Suff_Validation_Error UNSUPPORTED_OBSERVATION_CONTRACT ''unsupported observation_contract''
          (Some \<lparr>sd_field_name = Some ''observation_contract'',
             sd_expected = VStr SUFFICIENCY_OBSERVATION_V1,
             sd_actual = VStr (ob_observation_contract ob), sd_attempt_number = None\<rparr>))
      else
        bind_res (try_map as_validation_error
          (derive_sufficiency_observation sha fr fsub p (Some (ob_observation_config_hash ob))))
          (\<lambda>recomputed.
        for_each (\<lambda>(field, act). match_field field act)
          (zip (observation_fields recomputed) (map snd (observation_fields ob)))))"

subsection \<open>What a valid provenance is\<close>

fun finite_of :: "xfloat \<Rightarrow> pyfloat" where
  "finite_of (XFin q) = q"
| "finite_of _ = 0"

definition is_fin :: "xfloat \<Rightarrow> bool" where
  "is_fin x \<longleftrightarrow> (\<exists>q. x = XFin q)"

lemma is_fin_simps [simp]: "is_fin (XFin q)" "\<not> is_fin XInf" "\<not> is_fin XNegInf" "\<not> is_fin XNaN"
  by (simp_all add: is_fin_def)

lemma require_finite_iff [simp]: "require_finite x f c = Inr q \<longleftrightarrow> is_fin x \<and> q = finite_of x"
  by (cases x) (auto simp: require_finite_def)

definition pair_ok :: "int option \<Rightarrow> xfloat option \<Rightarrow> bool" where
  "pair_ok rank score \<longleftrightarrow> (rank = None \<and> score = None \<or>
     (\<exists>r q. rank = Some r \<and> 1 \<le> r \<and> score = Some (XFin q)))"

lemma validate_branch_pair_iff [simp]:
  "validate_branch_pair b rank score = Inr u \<longleftrightarrow> pair_ok rank score"
  by (cases rank; cases score) (auto simp: validate_branch_pair_def pair_ok_def bind_res_Inr_iff is_fin_def)

definition anchor_ok :: "suff_anchor \<Rightarrow> bool" where
  "anchor_ok a \<longleftrightarrow> 1 \<le> sa_hybrid_rank a \<and> is_fin (sa_rrf_score a) \<and> is_fin (sa_reranker_score a) \<and>
     pair_ok (sa_dense_rank a) (sa_dense_score a) \<and> pair_ok (sa_lexical_rank a) (sa_lexical_score a)"

definition anchors_ok :: "suff_anchor list \<Rightarrow> bool" where
  "anchors_ok as \<longleftrightarrow> map sa_rerank_rank as = map int [1..<Suc (length as)] \<and>
     distinct (map sa_chunk_id as) \<and> distinct (map sa_hybrid_rank as) \<and>
     distinct (List.map_filter sa_dense_rank as) \<and> distinct (List.map_filter sa_lexical_rank as) \<and>
     list_all anchor_ok as \<and>
     sorted_wrt (\<lambda>x y. y \<le> x) (map (\<lambda>a. finite_of (sa_reranker_score a)) as)"

definition units_ok :: "suff_unit list \<Rightarrow> bool" where
  "units_ok us \<longleftrightarrow> (\<forall>u \<in> set us. py_strip (su_document_id u) \<noteq> []) \<and>
     distinct (map su_evidence_unit_id us)"

definition provenance_ok :: "suff_provenance \<Rightarrow> bool" where
  "provenance_ok p \<longleftrightarrow> sp_schema_version p = SUFFICIENCY_PROVENANCE_V1 \<and>
     (\<forall>(f, v) \<in> set (lineage_fields p). py_strip v \<noteq> []) \<and>
     (sp_attempt_role p = INITIAL \<longleftrightarrow> sp_attempt_number p = 0) \<and>
     (sp_attempt_number p = 0 \<longrightarrow> sp_active_retrieval_query p = sp_original_query p) \<and>
     anchors_ok (sp_anchors p) \<and> units_ok (sp_final_evidence_units p) \<and>
     sg_evidence_unit_count (sp_diagnostics p) = length (sp_final_evidence_units p)"

text \<open>The seven features, stated directly.\<close>

definition observation_of :: "float_sub \<Rightarrow> string \<Rightarrow> suff_provenance \<Rightarrow> suff_observation" where
  "observation_of fsub h p =
     (let as = sp_anchors p; us = sp_final_evidence_units p in
      \<lparr>ob_observation_contract = SUFFICIENCY_OBSERVATION_V1, ob_observation_config_hash = h,
       ob_empty_context = (us = []),
       ob_top_reranker_score = (if as = [] then None else Some (sa_reranker_score (as ! 0))),
       ob_top1_top2_margin = (if length as < 2 then None
          else Some (fsub (finite_of (sa_reranker_score (as ! 0))) (finite_of (sa_reranker_score (as ! 1))))),
       ob_top_anchor_cross_retriever_support = (if as = [] then None
          else Some (sa_dense_rank (as ! 0) \<noteq> None \<and> sa_lexical_rank (as ! 0) \<noteq> None)),
       ob_anchor_count = length as,
       ob_distinct_document_count = card (su_document_id ` set us),
       ob_distinct_section_count = card ((\<lambda>u. (su_document_id u, su_section_path u)) ` set us)\<rparr>)"

subsection \<open>The validation loops decide it\<close>

definition scan_of :: "suff_anchor list \<Rightarrow> anchor_scan" where
  "scan_of as = \<lparr>sc_index = length as, sc_chunk_ids = sa_chunk_id ` set as,
     sc_hybrid_ranks = sa_hybrid_rank ` set as,
     sc_dense_ranks = set (List.map_filter sa_dense_rank as),
     sc_lexical_ranks = set (List.map_filter sa_lexical_rank as),
     sc_previous_score = (if as = [] then None else Some (finite_of (sa_reranker_score (last as))))\<rparr>"

lemma map_filter_append [simp]: "List.map_filter f (xs @ ys) = List.map_filter f xs @ List.map_filter f ys"
  by (induction xs) (auto simp: List.map_filter_simps split: option.split)

lemma map_filter_single: "List.map_filter f [x] = (case f x of None \<Rightarrow> [] | Some y \<Rightarrow> [y])"
  by (auto simp: List.map_filter_simps split: option.split)

lemma check_new_rank_iff [simp]:
  "check_new_rank b seen rank = Inr s \<longleftrightarrow> (case rank of None \<Rightarrow> s = seen | Some r \<Rightarrow> r \<notin> seen \<and> s = insert r seen)"
  by (auto simp: check_new_rank_def split: option.splits if_splits)

lemma sorted_snoc_last:
  "sorted_wrt (\<lambda>x y. y \<le> x) (xs @ [x]) \<longleftrightarrow> sorted_wrt (\<lambda>x y. y \<le> x) xs \<and> (xs \<noteq> [] \<longrightarrow> x \<le> last xs)"
  for x :: "'a :: linorder"
proof (cases xs rule: rev_cases)
  case (snoc ys y)
  then show ?thesis by (auto simp: sorted_wrt_append)
qed simp

lemma anchors_ok_snoc:
  "anchors_ok (as @ [a]) \<longleftrightarrow> anchors_ok as \<and> sa_rerank_rank a = int (length as) + 1 \<and>
     sa_chunk_id a \<notin> sa_chunk_id ` set as \<and> sa_hybrid_rank a \<notin> sa_hybrid_rank ` set as \<and>
     (\<forall>r. sa_dense_rank a = Some r \<longrightarrow> r \<notin> set (List.map_filter sa_dense_rank as)) \<and>
     (\<forall>r. sa_lexical_rank a = Some r \<longrightarrow> r \<notin> set (List.map_filter sa_lexical_rank as)) \<and>
     anchor_ok a \<and> (as \<noteq> [] \<longrightarrow> finite_of (sa_reranker_score a) \<le> finite_of (sa_reranker_score (last as)))"
  by (auto simp: anchors_ok_def sorted_snoc_last last_map map_filter_single split: option.splits)

lemma check_anchor_iff:
  assumes "anchors_ok as"
  shows "check_anchor (scan_of as) a = Inr sc \<longleftrightarrow> anchors_ok (as @ [a]) \<and> sc = scan_of (as @ [a])"
proof -
  have "check_anchor (scan_of as) a = Inr sc \<longleftrightarrow>
     sa_rerank_rank a = int (length as) + 1 \<and> sa_chunk_id a \<notin> sa_chunk_id ` set as \<and>
     sa_hybrid_rank a \<notin> sa_hybrid_rank ` set as \<and> anchor_ok a \<and>
     (as \<noteq> [] \<longrightarrow> finite_of (sa_reranker_score a) \<le> finite_of (sa_reranker_score (last as))) \<and>
     (\<forall>r. sa_dense_rank a = Some r \<longrightarrow> r \<notin> set (List.map_filter sa_dense_rank as)) \<and>
     (\<forall>r. sa_lexical_rank a = Some r \<longrightarrow> r \<notin> set (List.map_filter sa_lexical_rank as)) \<and>
     sc = scan_of (as @ [a])"
    by (auto simp: check_anchor_def scan_of_def Let_def bind_res_Inr_iff anchor_ok_def map_filter_single
        split: option.splits if_splits)
  with assms show ?thesis by (auto simp: anchors_ok_snoc)
qed

lemma scan_anchors: "fold_res check_anchor scan0 as = Inr sc \<longleftrightarrow> anchors_ok as \<and> sc = scan_of as"
proof (induction as arbitrary: sc rule: rev_induct)
  case Nil
  then show ?case by (auto simp: anchors_ok_def scan0_def scan_of_def List.map_filter_simps)
next
  case (snoc a as)
  then show ?case using check_anchor_iff [of as a sc] anchors_ok_snoc [of as a]
    by (auto simp: fold_res_append bind_res_Inr_iff)
qed

lemma validate_anchors_iff [simp]: "validate_anchors as = Inr u \<longleftrightarrow> anchors_ok as"
  by (auto simp: validate_anchors_def bind_res_Inr_iff scan_anchors)

lemma scan_units: "fold_res check_unit {} us = Inr s \<longleftrightarrow> units_ok us \<and> s = su_evidence_unit_id ` set us"
proof (induction us arbitrary: s rule: rev_induct)
  case Nil
  then show ?case by (auto simp: units_ok_def)
next
  case (snoc u us)
  then show ?case by (auto simp: fold_res_append bind_res_Inr_iff units_ok_def check_unit_def)
qed

lemma validate_evidence_units_iff [simp]:
  "validate_evidence_units p = Inr u \<longleftrightarrow> units_ok (sp_final_evidence_units p) \<and>
     sg_evidence_unit_count (sp_diagnostics p) = length (sp_final_evidence_units p)"
  by (auto simp: validate_evidence_units_def bind_res_Inr_iff scan_units Let_def)

lemma validate_lineage_iff [simp]:
  "validate_lineage p = Inr u \<longleftrightarrow> (\<forall>(f, v) \<in> set (lineage_fields p). py_strip v \<noteq> [])"
  by (auto simp: validate_lineage_def split: if_splits)

lemma validate_attempt_iff:
  "validate_attempt_fields p = Inr u \<and> validate_query_fields p = Inr v \<longleftrightarrow>
     (sp_attempt_role p = INITIAL \<longleftrightarrow> sp_attempt_number p = 0) \<and>
     (sp_attempt_number p = 0 \<longrightarrow> sp_active_retrieval_query p = sp_original_query p)"
  by (cases "sp_attempt_role p") (auto simp: validate_attempt_fields_def validate_query_fields_def)

lemma derive_features_ok:
  assumes "anchors_ok (sp_anchors p)" and "float_sub_ok fsub"
  shows "derive_features fsub p h = Inr (observation_of fsub h p)"
proof -
  have m: "top_margin fsub (sp_anchors p) = Inr (ob_top1_top2_margin (observation_of fsub h p))"
  proof (cases "sp_anchors p")
    case (Cons a as)
    show ?thesis
    proof (cases as)
      case c: (Cons b bs)
      from assms(1) obtain x y where xy: "sa_reranker_score a = XFin x" "sa_reranker_score b = XFin y" "y \<le> x"
        by (auto simp: Cons c anchors_ok_def anchor_ok_def is_fin_def)
      with assms(2) have "\<not> xf_negative (fsub x y)" by (simp add: float_sub_ok_def)
      with xy show ?thesis by (simp add: Cons c top_margin_def score_sub_def observation_of_def Let_def)
    qed (simp add: Cons top_margin_def observation_of_def Let_def)
  qed (simp add: top_margin_def observation_of_def Let_def)
  have "top_score (sp_anchors p) = ob_top_reranker_score (observation_of fsub h p)"
    "cross_support (sp_anchors p) = ob_top_anchor_cross_retriever_support (observation_of fsub h p)"
    by (cases "sp_anchors p"; simp add: top_score_def cross_support_def observation_of_def Let_def)+
  with m show ?thesis
    unfolding derive_features_def Let_def
    by (simp add: observation_of_def Let_def normalized_section_path_def)
qed

lemma if_fail_iff:
  "(if a \<noteq> b then fail_field c m f x y else r) = Inr z \<longleftrightarrow> a = b \<and> r = Inr z"
  by simp

lemma bind_unit_Inr: "bind_res m f = Inr y \<longleftrightarrow> m = Inr () \<and> f () = Inr y"
  by (cases m) auto

lemma derive_iff:
  assumes "float_sub_ok fsub"
  shows "derive_sufficiency_observation sha fr fsub p h = Inr b \<longleftrightarrow>
    h \<in> {None, Some [], Some (authoritative_observation_config_hash sha fr)} \<and> provenance_ok p \<and>
    b = observation_of fsub (authoritative_observation_config_hash sha fr) p"
proof -
  let ?e = "authoritative_observation_config_hash sha fr"
  let ?r = "case h of None \<Rightarrow> ?e | Some x \<Rightarrow> if x = [] then ?e else x"
  have h: "?r = ?e \<longleftrightarrow> h \<in> {None, Some [], Some ?e}"
    by (auto split: option.splits if_splits)
  have "derive_sufficiency_observation sha fr fsub p h = Inr b \<longleftrightarrow>
      sp_schema_version p = ''sufficiency-provenance-v1'' \<and> ?r = ?e \<and> validate_lineage p = Inr () \<and>
      (validate_attempt_fields p = Inr () \<and> validate_query_fields p = Inr ()) \<and>
      validate_anchors (sp_anchors p) = Inr () \<and> validate_evidence_units p = Inr () \<and>
      derive_features fsub p ?e = Inr b"
    unfolding derive_sufficiency_observation_def Let_def if_fail_iff bind_unit_Inr
    by (cases "?r = ?e") (simp_all only: simp_thms conj_assoc)
  note eq = this [unfolded h validate_attempt_iff validate_lineage_iff validate_anchors_iff
      validate_evidence_units_iff]
  have f: "anchors_ok (sp_anchors p) \<Longrightarrow> derive_features fsub p ?e = Inr b \<longleftrightarrow> b = observation_of fsub ?e p"
    using derive_features_ok [OF _ assms, of p ?e] by auto
  show ?thesis
    unfolding eq provenance_ok_def SUFFICIENCY_PROVENANCE_V1_def using f by blast
qed

lemma value_eq_iff: "value_eq a b \<longleftrightarrow> a = b \<and> a \<noteq> VFloat XNaN"
  by (cases a; cases b) (auto simp: value_eq_def xf_eq_def)

lemma opt_value_eq [simp]:
  "opt_value VFloat x = opt_value VFloat y \<longleftrightarrow> x = y" "opt_value VBool c = opt_value VBool d \<longleftrightarrow> c = d"
  by (cases x; cases y; simp add: opt_value_def) (cases c; cases d; simp add: opt_value_def)

lemma observation_no_nan:
  assumes "float_sub_ok fsub" and "anchors_ok (sp_anchors p)"
  shows "\<forall>(f, v) \<in> set (observation_fields (observation_of fsub h p)). v \<noteq> VFloat XNaN"
proof -
  have "ob_top1_top2_margin (observation_of fsub h p) \<noteq> Some XNaN"
    using assms(1) by (simp add: observation_of_def Let_def float_sub_ok_def)
  moreover have "ob_top_reranker_score (observation_of fsub h p) \<noteq> Some XNaN"
    using assms(2) by (cases "sp_anchors p")
      (auto simp: observation_of_def Let_def anchors_ok_def anchor_ok_def is_fin_def)
  ultimately show ?thesis
    by (auto simp: observation_fields_def opt_value_def split: option.splits)
qed

lemma fields_match_iff:
  assumes "\<forall>(f, v) \<in> set (observation_fields a). v \<noteq> VFloat XNaN"
  shows "(\<forall>(fv, w) \<in> set (zip (observation_fields a) (map snd (observation_fields b))).
      value_eq w (snd fv)) \<longleftrightarrow> b = a"
proof -
  have "value_eq w v \<longleftrightarrow> w = v" if "(f, v) \<in> set (observation_fields a)" for f v w
    using that assms by (auto simp: value_eq_iff)
  then have "(\<forall>(fv, w) \<in> set (zip (observation_fields a) (map snd (observation_fields b))).
      value_eq w (snd fv)) \<longleftrightarrow>
    (\<forall>(fv, w) \<in> set (zip (observation_fields a) (map snd (observation_fields b))). w = snd fv)"
    by (fastforce dest: set_zip_leftD)
  also have "\<dots> \<longleftrightarrow> b = a"
    by (cases a; cases b) (auto simp: observation_fields_def)
  finally show ?thesis .
qed

subsection \<open>Properties\<close>

text \<open>C25: A sufficiency observation is derived exactly from a valid provenance (known schema and
  configuration, non-blank lineage, attempt and query fields that agree, anchors ranked 1, 2, ... with
  distinct ids and ranks, finite falling scores and paired branch provenance, units with distinct ids
  and a matching count), and then it is the seven features: the margin is not negative, and the
  document count is at most the section count, which is at most the number of units.\<close>

theorem derive_observation_exact:
  assumes "float_sub_ok fsub"
  shows "(derive_sufficiency_observation sha fr fsub p h = Inr ob) =
      (h \<in> {None, Some [], Some (authoritative_observation_config_hash sha fr)} \<and> provenance_ok p \<and>
       ob = observation_of fsub (authoritative_observation_config_hash sha fr) p) \<and>
    (derive_sufficiency_observation sha fr fsub p h = Inr ob \<longrightarrow>
      ob_distinct_document_count ob \<le> ob_distinct_section_count ob \<and>
      ob_distinct_section_count ob \<le> length (sp_final_evidence_units p) \<and>
      (ob_empty_context ob \<longleftrightarrow> ob_distinct_document_count ob = 0) \<and>
      (\<forall>m. ob_top1_top2_margin ob = Some m \<longrightarrow> \<not> xf_negative m))"
proof (intro conjI [OF derive_iff [OF assms]] impI)
  let ?us = "sp_final_evidence_units p" and ?as = "sp_anchors p"
  assume "derive_sufficiency_observation sha fr fsub p h = Inr ob"
  then have ok: "anchors_ok ?as"
    and ob: "ob = observation_of fsub (authoritative_observation_config_hash sha fr) p"
    by (simp_all add: derive_iff [OF assms] provenance_ok_def)
  have "su_document_id ` set ?us = fst ` (\<lambda>u. (su_document_id u, su_section_path u)) ` set ?us" by force
  then have "card (su_document_id ` set ?us) \<le> card ((\<lambda>u. (su_document_id u, su_section_path u)) ` set ?us)"
    by (simp add: card_image_le)
  moreover have "card ((\<lambda>u. (su_document_id u, su_section_path u)) ` set ?us) \<le> length ?us"
    by (meson card_image_le card_length finite_set le_trans)
  moreover have "\<not> xf_negative m" if "ob_top1_top2_margin ob = Some m" for m
  proof -
    from that ob have l: "2 \<le> length ?as"
      and m: "m = fsub (finite_of (sa_reranker_score (?as ! 0))) (finite_of (sa_reranker_score (?as ! 1)))"
      by (auto simp: observation_of_def Let_def split: if_splits)
    from ok l have "finite_of (sa_reranker_score (?as ! 1)) \<le> finite_of (sa_reranker_score (?as ! 0))"
      by (auto simp: anchors_ok_def sorted_wrt_map dest!: sorted_wrt_nth_less [of _ _ 0 1])
    with assms m show ?thesis by (simp add: float_sub_ok_def)
  qed
  ultimately show "ob_distinct_document_count ob \<le> ob_distinct_section_count ob \<and>
      ob_distinct_section_count ob \<le> length (sp_final_evidence_units p) \<and>
      (ob_empty_context ob \<longleftrightarrow> ob_distinct_document_count ob = 0) \<and>
      (\<forall>m. ob_top1_top2_margin ob = Some m \<longrightarrow> \<not> xf_negative m)"
    by (simp add: ob observation_of_def Let_def)
qed

definition exact_sub :: float_sub where
  "exact_sub a b = XFin (a - b)"

lemma exact_sub_ok [simp]: "float_sub_ok exact_sub"
  by (simp add: float_sub_ok_def exact_sub_def)

definition sample_provenance :: suff_provenance where
  "sample_provenance = \<lparr>sp_schema_version = ''sufficiency-provenance-v1'', sp_case_id = ''case-1'',
     sp_corpus_id = ''corpus-1'', sp_chunk_set_id = ''set-1'', sp_dense_index_id = ''dense-1'',
     sp_lexical_index_id = ''lex-1'', sp_fusion_config_hash = ''f'', sp_reranker_config_hash = ''r'',
     sp_context_config_hash = ''c'', sp_original_query = ''leave'', sp_active_retrieval_query = ''leave'',
     sp_attempt_number = 0, sp_attempt_role = INITIAL,
     sp_anchors = [
       \<lparr>sa_chunk_id = ''chunk-a'', sa_rerank_rank = 1, sa_reranker_score = XFin 3, sa_hybrid_rank = 2,
        sa_rrf_score = XFin (1 / 61), sa_dense_rank = Some 1, sa_dense_score = Some (XFin 9),
        sa_lexical_rank = Some 4, sa_lexical_score = Some (XFin 7)\<rparr>,
       \<lparr>sa_chunk_id = ''chunk-b'', sa_rerank_rank = 2, sa_reranker_score = XFin 1, sa_hybrid_rank = 1,
        sa_rrf_score = XFin (1 / 62), sa_dense_rank = Some 2, sa_dense_score = Some (XFin 8),
        sa_lexical_rank = None, sa_lexical_score = None\<rparr>],
     sp_final_evidence_units = [\<lparr>su_evidence_unit_id = ''ev-1'', su_document_id = ''doc-1'',
        su_section_path = [''Leave''], su_source_chunk_id = ''chunk-a'', su_primary_anchor_chunk_id = ''chunk-a''\<rparr>],
     sp_diagnostics = \<lparr>sg_evidence_unit_count = 1, sg_context_token_count = 5, sg_clipping_occurred = False,
        sg_budget_exhausted = False, sg_stop_reason = ''completed'', sg_dedup_hits = 0,
        sg_containment_suppressions = 0\<rparr>\<rparr>"

lemma sample_provenance_ok: "provenance_ok sample_provenance"
proof -
  have "\<forall>v \<in> set (map snd (lineage_fields sample_provenance)). py_strip v \<noteq> []" by code_simp
  moreover have "units_ok (sp_final_evidence_units sample_provenance)" by code_simp
  moreover have "anchors_ok (sp_anchors sample_provenance)"
    by (simp add: anchors_ok_def sample_provenance_def anchor_ok_def pair_ok_def List.map_filter_simps)
  ultimately show ?thesis
    unfolding provenance_ok_def by (auto simp: sample_provenance_def SUFFICIENCY_PROVENANCE_V1_def)
qed

theorem derive_observation_exact_witness:
  "\<exists>ob. derive_sufficiency_observation sample_digest sample_float_repr exact_sub sample_provenance None = Inr ob \<and>
     ob_top1_top2_margin ob = Some (XFin 2) \<and> ob_distinct_document_count ob = 1"
  using derive_observation_exact [OF exact_sub_ok, of sample_digest sample_float_repr sample_provenance None
      "observation_of exact_sub (authoritative_observation_config_hash sample_digest sample_float_repr)
         sample_provenance"] sample_provenance_ok
  by (simp add: observation_of_def sample_provenance_def exact_sub_def Let_def)

text \<open>An observation round-trips: it validates against a provenance exactly when derivation from
  that provenance produces it, whatever configuration hash it claims.\<close>

theorem validate_observation_roundtrip:
  assumes "float_sub_ok fsub"
  shows "(validate_observation_against_provenance sha fr fsub ob p = Inr ()) =
    (derive_sufficiency_observation sha fr fsub p None = Inr ob)"
proof -
  let ?e = "authoritative_observation_config_hash sha fr" and ?h = "Some (ob_observation_config_hash ob)"
  let ?d = "derive_sufficiency_observation sha fr fsub p ?h"
  have "validate_observation_against_provenance sha fr fsub ob p = Inr () \<longleftrightarrow>
    ob_observation_contract ob = SUFFICIENCY_OBSERVATION_V1 \<and> (\<exists>r. ?d = Inr r \<and>
      (\<forall>(fv, w) \<in> set (zip (observation_fields r) (map snd (observation_fields ob))). value_eq w (snd fv)))"
    by (simp add: validate_observation_against_provenance_def bind_res_Inr_iff split_beta)
  also have "\<dots> \<longleftrightarrow> ob_observation_contract ob = SUFFICIENCY_OBSERVATION_V1 \<and> ?d = Inr ob"
  proof -
    have "(\<forall>(fv, w) \<in> set (zip (observation_fields r) (map snd (observation_fields ob))). value_eq w (snd fv))
        \<longleftrightarrow> ob = r" if "?d = Inr r" for r
    proof (rule fields_match_iff)
      from that have "r = observation_of fsub ?e p" "anchors_ok (sp_anchors p)"
        by (simp_all add: derive_iff [OF assms] provenance_ok_def)
      with observation_no_nan [OF assms] show "\<forall>(f, v) \<in> set (observation_fields r). v \<noteq> VFloat XNaN"
        by simp
    qed
    then show ?thesis by blast
  qed
  also have "\<dots> \<longleftrightarrow> derive_sufficiency_observation sha fr fsub p None = Inr ob"
    by (auto simp: derive_iff [OF assms] observation_of_def Let_def)
  finally show ?thesis .
qed

theorem validate_observation_roundtrip_witness:
  "validate_observation_against_provenance sample_digest sample_float_repr exact_sub
     (observation_of exact_sub (authoritative_observation_config_hash sample_digest sample_float_repr)
        sample_provenance) sample_provenance = Inr ()"
  using validate_observation_roundtrip [OF exact_sub_ok] sample_provenance_ok
  by (simp add: derive_iff)

end
