(* ===== verification/Sufficiency_Adapter.thy ===== *)
theory Sufficiency_Adapter
  imports Sufficiency_Derive
begin

section \<open>From an assembled context to sufficiency provenance (context/sufficiency_adapter.py)\<close>

text \<open>
  The projection of a context result, with its refusal of contradictory duplicates, and its
  composition with the retrieval stages, context expansion and the derivation of the observation.
  Scores of candidates are finite floats; \<open>cx_corpus_id\<close> and \<open>cx_chunk_set_id\<close> are the two entries
  of the result's metadata the adapter reads. \<open>SufficiencyAdapterError\<close> is a derivation error.
\<close>

subsection \<open>The adapter\<close>

definition require_nonblank :: "string \<Rightarrow> string option \<Rightarrow> sufficiency_exc + string" where
  "require_nonblank field_name v =
     (if v = None \<or> v = Some [] \<or> py_strip (the v) = [] then
        fail_field MISSING_REQUIRED_LINEAGE
          (''required lineage/query field '' @ [char_of (39::nat)] @ field_name @ [char_of (39::nat)] @
           '' is missing or blank'') field_name VNone (opt_value VStr v)
      else Inr (the v))"

definition raise_contradiction ::
    "string \<Rightarrow> suff_value \<Rightarrow> suff_value \<Rightarrow> string \<Rightarrow> sufficiency_exc + 'a" where
  "raise_contradiction field_name exd act message =
     fail_field CONTRADICTORY_UPSTREAM_STATE message field_name exd act"

definition check_candidate_score :: "hybrid_rerank_candidate \<Rightarrow> sufficiency_exc + unit" where
  "check_candidate_score c =
     (if cd_score c \<noteq> rp_reranker_score (hc_rerank c) then
        raise_contradiction ''reranker_score'' (VFloat (XFin (rp_reranker_score (hc_rerank c))))
          (VFloat (XFin (cd_score c)))
          ''candidate.score disagrees with candidate.hybrid_rerank.reranker_score''
      else Inr ())"

definition validate_hybrid_rerank_context_consistency :: "context_result \<Rightarrow> sufficiency_exc + unit" where
  "validate_hybrid_rerank_context_consistency r =
     (if cx_method r \<noteq> ''hybrid-rerank-context'' then
        raise_contradiction ''method'' (VStr ''hybrid-rerank-context'') (VStr (cx_method r))
          (''context result method must be hybrid-rerank-context; '' @
           ''refusing to project contradictory/unsupported source method'')
      else if cx_context_token_count r \<noteq> ad_context_token_count (cx_diagnostics r) then
        raise_contradiction ''context_token_count''
          (VInt (int (ad_context_token_count (cx_diagnostics r)))) (VInt (int (cx_context_token_count r)))
          ''result.context_token_count disagrees with diagnostics.context_token_count''
      else if ad_evidence_unit_count (cx_diagnostics r) \<noteq> length (cx_evidence_units r) then
        raise_contradiction ''evidence_unit_count'' (VInt (int (length (cx_evidence_units r))))
          (VInt (int (ad_evidence_unit_count (cx_diagnostics r))))
          ''diagnostics.evidence_unit_count disagrees with len(evidence_units)''
      else if ad_actual_anchor_count (cx_diagnostics r) \<noteq> length (cx_anchors r) then
        raise_contradiction ''actual_anchor_count'' (VInt (int (length (cx_anchors r))))
          (VInt (int (ad_actual_anchor_count (cx_diagnostics r))))
          ''diagnostics.actual_anchor_count disagrees with len(anchors)''
      else for_each check_candidate_score (cx_anchors r))"

definition map_anchor :: "hybrid_rerank_candidate \<Rightarrow> suff_anchor" where
  "map_anchor c = (let prov = hc_rerank c in
     \<lparr>sa_chunk_id = cd_chunk_id c, sa_rerank_rank = int (cd_rank c),
      sa_reranker_score = XFin (rp_reranker_score prov), sa_hybrid_rank = int (rp_hybrid_rank prov),
      sa_rrf_score = XFin (rp_rrf_score prov), sa_dense_rank = rp_dense_rank prov,
      sa_dense_score = map_option XFin (rp_dense_score prov), sa_lexical_rank = rp_lexical_rank prov,
      sa_lexical_score = map_option XFin (rp_lexical_score prov)\<rparr>)"

definition map_evidence_unit :: "evidence_unit \<Rightarrow> suff_unit" where
  "map_evidence_unit u =
     \<lparr>su_evidence_unit_id = eu_evidence_unit_id u, su_document_id = eu_document_id u,
      su_section_path = eu_section_path u, su_source_chunk_id = eu_source_chunk_id u,
      su_primary_anchor_chunk_id = eu_primary_anchor_chunk_id u\<rparr>"

definition map_diagnostics :: "assembly_diagnostics \<Rightarrow> suff_diagnostics" where
  "map_diagnostics d =
     \<lparr>sg_evidence_unit_count = ad_evidence_unit_count d, sg_context_token_count = ad_context_token_count d,
      sg_clipping_occurred = ad_clipping_occurred d, sg_budget_exhausted = ad_budget_exhausted d,
      sg_stop_reason = stop_value (ad_stop_reason d), sg_dedup_hits = ad_dedup_hits d,
      sg_containment_suppressions = ad_containment_suppressions d\<rparr>"

definition adapt_hybrid_rerank_context_to_provenance ::
    "context_result \<Rightarrow> string \<Rightarrow> sufficiency_exc + suff_provenance" where
  "adapt_hybrid_rerank_context_to_provenance r case_name =
     bind_res (validate_hybrid_rerank_context_consistency r) (\<lambda>_.
     bind_res (require_nonblank ''case_id'' (Some case_name)) (\<lambda>kase.
     bind_res (require_nonblank ''query'' (Some (cx_query r))) (\<lambda>query.
     bind_res (require_nonblank ''corpus_id'' (cx_corpus_id r)) (\<lambda>corpus.
     bind_res (require_nonblank ''chunk_set_id'' (Some (cx_chunk_set_id r))) (\<lambda>chunk_set.
     bind_res (require_nonblank ''dense_index_id'' (Some (cx_dense_index_id r))) (\<lambda>dense.
     bind_res (require_nonblank ''lexical_index_id'' (Some (cx_lexical_index_id r))) (\<lambda>lexical.
     bind_res (require_nonblank ''fusion_config_hash'' (Some (cx_fusion_config_hash r))) (\<lambda>fusion.
     bind_res (require_nonblank ''reranker_config_hash'' (Some (cx_reranker_config_hash r))) (\<lambda>reranker.
     bind_res (require_nonblank ''context_config_hash'' (Some (cx_context_config_hash r))) (\<lambda>ctx.
     Inr \<lparr>sp_schema_version = SUFFICIENCY_PROVENANCE_V1, sp_case_id = kase, sp_corpus_id = corpus,
       sp_chunk_set_id = chunk_set, sp_dense_index_id = dense, sp_lexical_index_id = lexical,
       sp_fusion_config_hash = fusion, sp_reranker_config_hash = reranker,
       sp_context_config_hash = ctx, sp_original_query = query, sp_active_retrieval_query = query,
       sp_attempt_number = 0, sp_attempt_role = INITIAL,
       sp_anchors = map map_anchor (cx_anchors r),
       sp_final_evidence_units = map map_evidence_unit (cx_evidence_units r),
       sp_diagnostics = map_diagnostics (cx_diagnostics r)\<rparr>))))))))))"

subsection \<open>Its guards\<close>

lemma require_nonblank_iff [simp]:
  "require_nonblank f v = Inr w \<longleftrightarrow> v = Some w \<and> nonblank w"
  by (auto simp: require_nonblank_def nonblank_def)

definition consistent_result :: "context_result \<Rightarrow> bool" where
  "consistent_result r \<longleftrightarrow> cx_method r = ''hybrid-rerank-context'' \<and>
     cx_context_token_count r = ad_context_token_count (cx_diagnostics r) \<and>
     ad_evidence_unit_count (cx_diagnostics r) = length (cx_evidence_units r) \<and>
     ad_actual_anchor_count (cx_diagnostics r) = length (cx_anchors r) \<and>
     (\<forall>c \<in> set (cx_anchors r). cd_score c = rp_reranker_score (hc_rerank c))"

lemma consistency_iff [simp]:
  "validate_hybrid_rerank_context_consistency r = Inr u \<longleftrightarrow> consistent_result r"
  unfolding validate_hybrid_rerank_context_consistency_def consistent_result_def raise_contradiction_def
  by (auto simp: check_candidate_score_def raise_contradiction_def split: if_splits)

definition lineage_ok :: "context_result \<Rightarrow> bool" where
  "lineage_ok r \<longleftrightarrow> (\<exists>c. cx_corpus_id r = Some c \<and> nonblank c) \<and>
     nonblank (cx_chunk_set_id r) \<and> nonblank (cx_dense_index_id r) \<and> nonblank (cx_lexical_index_id r) \<and>
     nonblank (cx_fusion_config_hash r) \<and> nonblank (cx_reranker_config_hash r) \<and>
     nonblank (cx_context_config_hash r)"

lemma adapt_ok:
  assumes "consistent_result r" and "lineage_ok r" and "nonblank (cx_query r)" and "nonblank case_name"
  obtains p where "adapt_hybrid_rerank_context_to_provenance r case_name = Inr p"
    and "sp_schema_version p = SUFFICIENCY_PROVENANCE_V1"
    and "\<forall>(f, v) \<in> set (lineage_fields p). py_strip v \<noteq> []"
    and "sp_attempt_role p = INITIAL" and "sp_attempt_number p = 0"
    and "sp_active_retrieval_query p = sp_original_query p"
    and "sp_anchors p = map map_anchor (cx_anchors r)"
    and "sp_final_evidence_units p = map map_evidence_unit (cx_evidence_units r)"
    and "sp_diagnostics p = map_diagnostics (cx_diagnostics r)"
proof -
  from assms(2) obtain c where c: "cx_corpus_id r = Some c" by (auto simp: lineage_ok_def)
  define p where "p = \<lparr>sp_schema_version = SUFFICIENCY_PROVENANCE_V1, sp_case_id = case_name,
       sp_corpus_id = c, sp_chunk_set_id = cx_chunk_set_id r, sp_dense_index_id = cx_dense_index_id r,
       sp_lexical_index_id = cx_lexical_index_id r, sp_fusion_config_hash = cx_fusion_config_hash r,
       sp_reranker_config_hash = cx_reranker_config_hash r,
       sp_context_config_hash = cx_context_config_hash r, sp_original_query = cx_query r,
       sp_active_retrieval_query = cx_query r, sp_attempt_number = 0, sp_attempt_role = INITIAL,
       sp_anchors = map map_anchor (cx_anchors r),
       sp_final_evidence_units = map map_evidence_unit (cx_evidence_units r),
       sp_diagnostics = map_diagnostics (cx_diagnostics r)\<rparr>"
  have "adapt_hybrid_rerank_context_to_provenance r case_name = Inr p"
    using assms c
    by (simp add: adapt_hybrid_rerank_context_to_provenance_def bind_res_Inr_iff lineage_ok_def p_def)
  moreover have "\<forall>(f, v) \<in> set (lineage_fields p). py_strip v \<noteq> []"
    using assms c by (simp add: lineage_fields_def lineage_ok_def nonblank_def p_def)
  ultimately show thesis using that by (simp add: p_def)
qed

end
