(* ===== verification/Sufficiency_Pipeline.thy ===== *)
theory Sufficiency_Pipeline
  imports Sufficiency_Adapter
begin

section \<open>What the retrieval stages hand to sufficiency\<close>

text \<open>
  The provenance that fusion and reranking attach to candidates is one the sufficiency derivation
  accepts: facts of the hybrid pool, of the reranked anchors, and of the assembled context, composed
  through the modelled stages.
\<close>

subsection \<open>Sub-multisets of lists\<close>

lemma distinct_mset_mono:
  assumes "mset ys \<subseteq># mset xs" and "distinct xs"
  shows "distinct ys"
proof -
  obtain zs where "mset xs = mset (ys @ zs)"
    using assms(1) by (metis ex_mset mset_append subset_mset.le_iff_add)
  with assms(2) show ?thesis by (metis distinct_append mset_eq_imp_distinct_iff)
qed

lemma mset_map_filter_mono:
  "mset ys \<subseteq># mset xs \<Longrightarrow> mset (List.map_filter g ys) \<subseteq># mset (List.map_filter g xs)"
  by (simp add: List.map_filter_def image_mset_subseteq_mono multiset_filter_mono)

lemma mset_take_sort: "mset (take n (sort_key f xs)) \<subseteq># mset xs"
proof -
  have "mset (take n (sort_key f xs)) \<subseteq># mset (take n (sort_key f xs) @ drop n (sort_key f xs))"
    by (simp only: mset_append mset_subset_eq_add_left)
  then show ?thesis by simp
qed

lemma map_filter_map: "List.map_filter g (map h xs) = List.map_filter (\<lambda>x. g (h x)) xs"
  by (induction xs) (auto simp: List.map_filter_simps split: option.split)

lemma distinct_map_filter_nth:
  assumes "\<And>i j r. i < length xs \<Longrightarrow> j < length xs \<Longrightarrow> g (xs ! i) = Some r \<Longrightarrow> g (xs ! j) = Some r \<Longrightarrow> i = j"
  shows "distinct (List.map_filter g xs)"
  using assms
proof (induction xs)
  case (Cons x xs)
  have "distinct (List.map_filter g xs)"
    by (rule Cons.IH) (metis Cons.prems Suc_less_eq length_Cons nat.inject nth_Cons_Suc)
  moreover have "r \<notin> set (List.map_filter g xs)" if "g x = Some r" for r
  proof
    assume "r \<in> set (List.map_filter g xs)"
    then obtain j where "j < length xs" "g (xs ! j) = Some r"
      by (auto simp: List.map_filter_def in_set_conv_nth)
    with Cons.prems [of 0 "Suc j" r] that show False by simp
  qed
  ultimately show ?case by (auto simp: List.map_filter_simps split: option.split)
qed (simp add: List.map_filter_simps)

subsection \<open>The hybrid pool\<close>

definition branch_pair :: "int option \<Rightarrow> pyfloat option \<Rightarrow> bool" where
  "branch_pair rank score \<longleftrightarrow> (rank = None \<longleftrightarrow> score = None) \<and> (\<forall>r. rank = Some r \<longrightarrow> 1 \<le> r)"

definition pool_sound :: "hybrid_candidate list \<Rightarrow> bool" where
  "pool_sound cs \<longleftrightarrow> distinct (map cd_rank cs) \<and> distinct (map cd_chunk_id cs) \<and>
     distinct (List.map_filter (\<lambda>c. fp_dense_rank (hc_fusion c)) cs) \<and>
     distinct (List.map_filter (\<lambda>c. fp_lexical_rank (hc_fusion c)) cs) \<and>
     (\<forall>c \<in> set cs. 1 \<le> cd_rank c \<and>
        branch_pair (fp_dense_rank (hc_fusion c)) (fp_dense_score (hc_fusion c)) \<and>
        branch_pair (fp_lexical_rank (hc_fusion c)) (fp_lexical_score (hc_fusion c)))"

lemma hybrid_candidate_scores [simp]:
  "fp_dense_score (hc_fusion (hybrid_candidate_of n s h)) = fh_dense_score h"
  "fp_lexical_score (hc_fusion (hybrid_candidate_of n s h)) = fh_lexical_score h"
  by (simp_all add: hybrid_candidate_of_def candidate_core.extend_def hybrid_candidate.fields_def)

lemma branch_view_pair:
  assumes "branch_view hits cid rank score" and "\<forall>h \<in> set hits. 1 \<le> bh_rank h"
  shows "branch_pair rank score"
  using assms by (auto simp: branch_view_def branch_pair_def best_hit_def split: option.splits)

lemma branch_view_inj:
  assumes "branch_view hits c1 (Some r) s1" and "branch_view hits c2 (Some r) s2"
    and "distinct (map bh_rank hits)"
  shows "c1 = c2"
  using assms by (auto simp: branch_view_def best_hit_def distinct_map dest: inj_onD)

text \<open>A branch that ranks its candidates without repetition, as both retrievers of the code do.\<close>

definition distinct_ranks :: "(branch_query \<Rightarrow> string + 'a candidate_core_scheme branch_result) \<Rightarrow> bool" where
  "distinct_ranks branch \<longleftrightarrow> (\<forall>q res. branch q = Inr res \<longrightarrow> distinct (map cd_rank (br_candidates res)))"

lemma branch_hit_ranks: "map bh_rank (map branch_hit_of cs) = map int (map cd_rank cs)"
  by (simp add: branch_hit_of_def)

lemma hybrid_pool_sound:
  assumes "hybrid_retrieve rnd env dense lexical rq = Inr r"
    and "distinct_ranks dense" and "distinct_ranks lexical"
  shows "pool_sound (hr_candidates r)"
  using assms(1)
proof (rule hybrid_retrieve_InrE)
  fix name bound li lcs and dres :: "dense_candidate branch_result" and ls :: "lexical_candidate list"
    and fused :: "fused_hit list"
  let ?D = "map branch_hit_of (br_candidates dres)" and ?L = "map branch_hit_of ls"
  let ?sel = "take (nat (hybrid_final_k (he_fusion env) rq)) fused"
  assume d: "dense (dense_query rq bound name (fs_dense_top_k (he_fusion env))) = Inr dres"
    and l: "ls = [] \<or> (\<exists>res. lexical (lexical_query rq bound name (fs_lexical_top_k (he_fusion env))) =
       Inr res \<and> ls = br_candidates res)"
    and f: "fuse rnd (fs_rrf_k (he_fusion env)) ?D ?L = Inr fused"
    and j: "map_res (join_hit (dict_by cd_chunk_id (br_candidates dres)) (dict_by cd_chunk_id ls))
       (enum1 ?sel) = Inr (hr_candidates r)"
  note len = join_each(1) [OF j]
  have dd: "distinct (map bh_rank ?D)" "distinct (map bh_rank ?L)"
    using d l assms(2,3) unfolding branch_hit_ranks distinct_ranks_def
    by (auto simp: distinct_map inj_on_def)
  from f have r1: "\<forall>h \<in> set ?D \<union> set ?L. 1 \<le> bh_rank h" by (elim fuse_InrE)
  have view: "branch_view ?D (fh_chunk_id h) (fh_dense_rank h) (fh_dense_score h)"
    "branch_view ?L (fh_chunk_id h) (fh_lexical_rank h) (fh_lexical_score h)" if "h \<in> set ?sel" for h
    using fuse_hits [OF f] that by (blast dest: in_set_takeD)+
  have dist: "distinct (map fh_chunk_id ?sel)"
    using fuse_ids(1) [OF f] by (simp add: take_map [symmetric])
  have at: "\<exists>s. hr_candidates r ! i = hybrid_candidate_of (Suc i) s (?sel ! i)" if "i < length ?sel" for i
    using join_each(2) [OF j that] by blast
  have same: "i = k" if "i < length ?sel" "k < length ?sel" "fh_chunk_id (?sel ! i) = fh_chunk_id (?sel ! k)" for i k
    using nth_eq_iff_index_eq [OF dist, of i k] that by simp
  have dense: "distinct (List.map_filter (\<lambda>c. fp_dense_rank (hc_fusion c)) (hr_candidates r))"
  proof (rule distinct_map_filter_nth)
    fix i k x
    assume ik: "i < length (hr_candidates r)" "k < length (hr_candidates r)"
      and "fp_dense_rank (hc_fusion (hr_candidates r ! i)) = Some x"
        "fp_dense_rank (hc_fusion (hr_candidates r ! k)) = Some x"
    with at [of i] at [of k] len have "fh_dense_rank (?sel ! i) = Some x" "fh_dense_rank (?sel ! k) = Some x"
      by auto
    with view(1) [of "?sel ! i"] view(1) [of "?sel ! k"] ik len branch_view_inj [OF _ _ dd(1)]
    have "fh_chunk_id (?sel ! i) = fh_chunk_id (?sel ! k)" by (metis nth_mem)
    then show "i = k" using same ik len by simp
  qed
  have lexi: "distinct (List.map_filter (\<lambda>c. fp_lexical_rank (hc_fusion c)) (hr_candidates r))"
  proof (rule distinct_map_filter_nth)
    fix i k x
    assume ik: "i < length (hr_candidates r)" "k < length (hr_candidates r)"
      and "fp_lexical_rank (hc_fusion (hr_candidates r ! i)) = Some x"
        "fp_lexical_rank (hc_fusion (hr_candidates r ! k)) = Some x"
    with at [of i] at [of k] len have "fh_lexical_rank (?sel ! i) = Some x" "fh_lexical_rank (?sel ! k) = Some x"
      by auto
    with view(2) [of "?sel ! i"] view(2) [of "?sel ! k"] ik len branch_view_inj [OF _ _ dd(2)]
    have "fh_chunk_id (?sel ! i) = fh_chunk_id (?sel ! k)" by (metis nth_mem)
    then show "i = k" using same ik len by simp
  qed
  have "1 \<le> cd_rank c \<and> branch_pair (fp_dense_rank (hc_fusion c)) (fp_dense_score (hc_fusion c)) \<and>
      branch_pair (fp_lexical_rank (hc_fusion c)) (fp_lexical_score (hc_fusion c))"
    if "c \<in> set (hr_candidates r)" for c
  proof -
    from that obtain i where i: "i < length (hr_candidates r)" "c = hr_candidates r ! i"
      by (auto simp: in_set_conv_nth)
    with len have "?sel ! i \<in> set ?sel" by (metis nth_mem)
    from branch_view_pair [OF view(1) [OF this]] branch_view_pair [OF view(2) [OF this]] r1 at [of i] i len
    show ?thesis by auto
  qed
  moreover have "distinct (map cd_rank (hr_candidates r))"
    unfolding hybrid_ranked(2) [OF assms(1)] by simp
  ultimately show ?thesis
    using dense lexi hybrid_ranked(3) [OF assms(1)] by (simp add: pool_sound_def)
qed

subsection \<open>The reranked anchors\<close>

lemma map_anchor_sel [simp]:
  "sa_chunk_id (map_anchor (rerank_candidate_of (n, c, x))) = cd_chunk_id c"
  "sa_rerank_rank (map_anchor (rerank_candidate_of (n, c, x))) = int n"
  "sa_reranker_score (map_anchor (rerank_candidate_of (n, c, x))) = XFin x"
  "sa_hybrid_rank (map_anchor (rerank_candidate_of (n, c, x))) = int (cd_rank c)"
  "sa_rrf_score (map_anchor (rerank_candidate_of (n, c, x))) = XFin (fp_rrf_score (hc_fusion c))"
  "sa_dense_rank (map_anchor (rerank_candidate_of (n, c, x))) = fp_dense_rank (hc_fusion c)"
  "sa_lexical_rank (map_anchor (rerank_candidate_of (n, c, x))) = fp_lexical_rank (hc_fusion c)"
  "sa_dense_score (map_anchor (rerank_candidate_of (n, c, x))) = map_option XFin (fp_dense_score (hc_fusion c))"
  "sa_lexical_score (map_anchor (rerank_candidate_of (n, c, x))) = map_option XFin (fp_lexical_score (hc_fusion c))"
  by (simp_all add: map_anchor_def Let_def rerank_candidate_of_def candidate_core.extend_def
      hybrid_rerank_candidate.fields_def)

lemma branch_pair_ok: "branch_pair rank score \<Longrightarrow> pair_ok rank (map_option XFin score)"
  by (cases rank; cases score) (auto simp: branch_pair_def pair_ok_def)

lemma map_enum1_snd: "(\<And>n x. f (n, x) = g x) \<Longrightarrow> map f (enum1 xs) = map g xs"
  by (metis (no_types, lifting) map_eq_conv map_map map_snd_enum1 comp_apply prod.collapse)

lemma map_filter_enum1: "(\<And>n x. f (n, x) = g x) \<Longrightarrow> List.map_filter f (enum1 xs) = List.map_filter g xs"
proof -
  assume f: "\<And>n x. f (n, x) = g x"
  have "List.map_filter f (enum1 xs) = List.map_filter (\<lambda>p. g (snd p)) (enum1 xs)"
    by (rule arg_cong [where f = "\<lambda>h. List.map_filter h (enum1 xs)"]) (auto simp: f)
  also have "\<dots> = List.map_filter g (map snd (enum1 xs))" by (simp only: map_filter_map)
  finally show ?thesis by simp
qed

lemma reranked_anchors_ok:
  assumes "pool_sound pool" and "length scores = length pool"
  shows "anchors_ok (map map_anchor (map rerank_candidate_of
    (enum1 (take n (sort_key rerank_key (zip pool scores))))))"
proof -
  define ss where "ss = take n (sort_key rerank_key (zip pool scores))"
  let ?as = "map map_anchor (map rerank_candidate_of (enum1 ss))"
  have sub: "mset ss \<subseteq># mset (zip pool scores)" by (simp add: ss_def mset_take_sort)
  have fsts: "map fst (zip pool scores) = pool" using assms(2) by simp
  have dist: "distinct (map (\<lambda>p. f (fst p)) ss)" if "distinct (map f pool)" for f :: "hybrid_candidate \<Rightarrow> 'b"
  proof (rule distinct_mset_mono)
    show "mset (map (\<lambda>p. f (fst p)) ss) \<subseteq># mset (map (\<lambda>p. f (fst p)) (zip pool scores))"
      using sub by (simp add: image_mset_subseteq_mono)
    have "map (\<lambda>p. f (fst p)) (zip pool scores) = map f (map fst (zip pool scores))" by simp
    with that fsts show "distinct (map (\<lambda>p. f (fst p)) (zip pool scores))" by simp
  qed
  have filt: "distinct (List.map_filter (\<lambda>p. g (fst p)) ss)" if "distinct (List.map_filter g pool)"
    for g :: "hybrid_candidate \<Rightarrow> 'b option"
  proof (rule distinct_mset_mono)
    show "mset (List.map_filter (\<lambda>p. g (fst p)) ss) \<subseteq># mset (List.map_filter (\<lambda>p. g (fst p)) (zip pool scores))"
      using sub by (rule mset_map_filter_mono)
    have "List.map_filter (\<lambda>p. g (fst p)) (zip pool scores) = List.map_filter g (map fst (zip pool scores))"
      by (simp only: map_filter_map)
    with that fsts show "distinct (List.map_filter (\<lambda>p. g (fst p)) (zip pool scores))" by simp
  qed
  have mem: "c \<in> set pool" if "(c, x) \<in> set ss" for c x
    using that unfolding ss_def by (auto dest!: in_set_takeD set_zip_leftD)
  have ok: "anchor_ok (map_anchor (rerank_candidate_of (k, c, x)))" if "(c, x) \<in> set ss" for k c x
    using mem [OF that] assms(1) by (auto simp: anchor_ok_def pool_sound_def branch_pair_ok)
  have "list_all anchor_ok ?as"
    unfolding list_all_iff by (auto dest!: enum1_snd_in intro!: ok)
  moreover have "map sa_rerank_rank ?as = map int [1 ..< Suc (length ?as)]"
  proof -
    have "map sa_rerank_rank ?as = map (\<lambda>p. int (fst p)) (enum1 ss)" by auto
    also have "\<dots> = map int (map fst (enum1 ss))" by (simp only: map_map comp_def)
    finally show ?thesis by (simp del: upt_Suc)
  qed
  moreover have "map sa_chunk_id ?as = map (\<lambda>p. cd_chunk_id (fst p)) ss"
    unfolding map_map by (rule map_enum1_snd) auto
  moreover have "map sa_hybrid_rank ?as = map int (map (\<lambda>p. cd_rank (fst p)) ss)"
    unfolding map_map comp_def by (rule map_enum1_snd) auto
  moreover have "List.map_filter sa_dense_rank ?as = List.map_filter (\<lambda>p. fp_dense_rank (hc_fusion (fst p))) ss"
    unfolding map_filter_map by (rule map_filter_enum1) auto
  moreover have "List.map_filter sa_lexical_rank ?as = List.map_filter (\<lambda>p. fp_lexical_rank (hc_fusion (fst p))) ss"
    unfolding map_filter_map by (rule map_filter_enum1) auto
  moreover have "map (\<lambda>a. finite_of (sa_reranker_score a)) ?as = map snd ss"
    unfolding map_map comp_def by (rule map_enum1_snd) auto
  moreover have "sorted_wrt (\<lambda>x y. y \<le> x) (map snd ss)"
  proof -
    have "sorted (map rerank_key ss)" unfolding ss_def by (rule sorted_take_map) simp
    then have "sorted_wrt (\<lambda>p q. rerank_key p \<le> rerank_key q) ss" by (simp add: sorted_wrt_map)
    then show ?thesis unfolding sorted_wrt_map
      by (rule sorted_wrt_mono_rel [rotated]) (auto simp: rerank_key_def less_eq_prod_def)
  qed
  ultimately show ?thesis
    using assms(1) dist [of cd_rank] dist [of cd_chunk_id]
      filt [of "\<lambda>c. fp_dense_rank (hc_fusion c)"] filt [of "\<lambda>c. fp_lexical_rank (hc_fusion c)"]
    unfolding anchors_ok_def pool_sound_def ss_def [symmetric] by (simp add: distinct_map inj_on_def del: upt_Suc map_map)
qed

lemma rerank_anchors_ok:
  assumes "rerank_retrieve repr env (hybrid_retrieve rnd henv dense lexical) score_pairs check_ready rq = Inr r"
    and "distinct_ranks dense" and "distinct_ranks lexical"
  shows "anchors_ok (map map_anchor (kr_candidates r))"
    and "\<forall>c \<in> set (kr_candidates r). cd_score c = rp_reranker_score (hc_rerank c)"
  using assms(1)
  by (rule rerank_retrieve_InrE;
      use hybrid_pool_sound [OF _ assms(2,3)] reranked_anchors_ok in \<open>auto dest!: enum1_snd_in\<close>)+

subsection \<open>The assembled context\<close>

lemma sort_key_Nil_iff: "sort_key f xs = [] \<longleftrightarrow> xs = []"
  by (metis length_0_conv length_sort)

lemma expand_diagnostics:
  assumes "expand sha fr x as = Inr r"
  shows "ad_context_token_count (xc_diagnostics r) = xc_context_token_count r \<and>
    ad_evidence_unit_count (xc_diagnostics r) = length (xc_evidence_units r) \<and>
    ad_actual_anchor_count (xc_diagnostics r) = length as"
  using assms
  by (auto simp: expand_def Let_def bind_res_Inr_iff no_anchors_diagnostics_def finish_expand_def
      order_anchors_def sort_key_Nil_iff split: if_splits)

lemma assembled_consistent:
  assumes "assemble sha fr env (\<lambda>ready q. rerank_retrieve repr renv
      (hybrid_retrieve rnd henv dense lexical) score_pairs ready q) check_ready rq = Inr r"
    and "distinct_ranks dense" and "distinct_ranks lexical"
  shows "consistent_result r" and "nonblank (cx_query r)" and "anchors_ok (map map_anchor (cx_anchors r))"
proof -
  from assms(1) obtain name c up s x where
    p: "assemble_preflight env check_ready rq = Inr (name, c)"
    and up: "rerank_retrieve repr renv (hybrid_retrieve rnd henv dense lexical) score_pairs check_ready
      (rq\<lparr>rq_corpus_name := name, rq_top_k := Some (int (cs_anchor_k (ae_context env)))\<rparr>) = Inr up"
    and e: "expand sha fr \<lparr>xp_store = s, xp_counter = ti_count c, xp_context = ae_context env\<rparr>
           (map anchor_of (kr_candidates up)) = Inr x"
    and r: "r = context_result_of sha fr env c (rq_query rq) up x"
    by (rule assemble_InrE)
  from rerank_anchors_ok [OF up assms(2,3)] r
  show "anchors_ok (map map_anchor (cx_anchors r))" by simp
  from rerank_anchors_ok(2) [OF up assms(2,3)] expand_diagnostics [OF e] r
  show "consistent_result r" by (simp add: consistent_result_def context_result_of_def)
  from p have "nonblank (rq_query rq)"
    by (auto simp: assemble_preflight_def nonblank_def split: if_splits)
  with r show "nonblank (cx_query r)" by (simp add: nonblank_trimmed)
qed

subsection \<open>Properties\<close>


subsection \<open>A small instance of the whole pipeline\<close>

definition bound_env :: hybrid_env where
  "bound_env = \<lparr>he_fusion = he_fusion sample_env, he_facts = he_facts sample_env, he_fusion_config_hash = ''fuscfg_1''\<rparr>"

definition bound_request :: retrieval_request where
  "bound_request = \<lparr>rq_query = ''annual leave'', rq_corpus_name = ''default'', rq_top_k = Some 2,
     rq_dense_index_id = Some ''dense-1'', rq_dense_collection_name = Some ''col-1'',
     rq_lexical_index_id = Some ''lexical-1'', rq_chunk_set_id = Some ''set-1'',
     rq_corpus_id = Some ''corpus-1'', rq_document_ids = None\<rparr>"

definition unit_scores :: "rerank_pair list \<Rightarrow> string + pyfloat list" where
  "unit_scores ps = Inr (map (\<lambda>_. 1) ps)"

lemma sample_distinct_ranks: "distinct_ranks sample_dense_branch" "distinct_ranks sample_lexical_branch"
  by (auto simp: distinct_ranks_def sample_dense_branch_def sample_dense_result_def sample_lexical_branch_def)

lemma bound_hybrid:
  assumes R: "R = bound_request\<lparr>rq_top_k := Some 30\<rparr>"
  shows "\<exists>h. hybrid_retrieve id bound_env sample_dense_branch sample_lexical_branch R = Inr h"
proof -
  have 1: "py_strip ''annual leave'' = ''annual leave''" and 3: "validate_corpus_name ''default'' = Inr ''default''"
    by code_simp+
  have p: "hybrid_preflight bound_env R = Inr (''default'', True)"
    by (simp add: hybrid_preflight_def bound_env_def sample_env_def bound_request_def R 1 3
        hybrid_final_k_def hybrid_binding_def Let_def)
  have l: "lexical_branch sample_lexical_branch q True R None =
     Inr ([branch_hit_of (sample_candidate 1 ''chunk-b'' ''doc-2'')],
          [(''chunk-b'', sample_candidate 1 ''chunk-b'' ''doc-2'')], ''lexical-1'', ''set-1'')" for q
    by (simp add: lexical_branch_def sample_lexical_branch_def dict_by_def Hybrid_Retrieval.or_empty_def sample_candidate_def)
  have d: "sample_dense_branch (dense_query R True ''default'' (fs_dense_top_k (he_fusion bound_env))) =
      Inr sample_dense_result"
    by (simp add: sample_dense_branch_def)
  from l have l': "lexical_branch sample_lexical_branch
      (lexical_query R True ''default'' (fs_lexical_top_k (he_fusion bound_env))) True R
      (if True then None else Some (he_status bound_env ''default'')) =
     Inr ([branch_hit_of (sample_candidate 1 ''chunk-b'' ''doc-2'')],
          [(''chunk-b'', sample_candidate 1 ''chunk-b'' ''doc-2'')], ''lexical-1'', ''set-1'')" by simp
  show ?thesis
    by (rule hybrid_retrieve_total [where dense = sample_dense_branch and
          lexical = sample_lexical_branch and env = bound_env and rq = R, OF p d l'])
      (auto simp: R bound_request_def sample_dense_result_def Hybrid_Retrieval.or_empty_def
        sample_candidate_def branch_hit_of_def candidate_core.extend_def dense_candidate.fields_def)
qed

lemma bound_hybrid_fields:
  assumes h: "hybrid_retrieve id bound_env sample_dense_branch sample_lexical_branch
    (bound_request\<lparr>rq_top_k := Some 30\<rparr>) = Inr h"
  shows "hr_corpus_id h = Some ''corpus-1''" and "hr_chunk_set_id h = ''set-1''"
    and "hr_dense_index_id h = ''dense-1''" and "hr_lexical_index_id h = ''lexical-1''"
    and "hr_fusion_config_hash h = ''fuscfg_1''"
  using h unfolding hybrid_retrieve_def
  by (auto simp: bind_res_Inr_iff bound_request_def Let_def hybrid_preflight_def hybrid_binding_def
      lexical_branch_def sample_lexical_branch_def sample_dense_branch_def sample_dense_result_def
      Hybrid_Retrieval.or_empty_def bound_env_def split: if_splits)

definition pool_members :: "(string \<times> string) set" where
  "pool_members = {(''chunk-a'', ''doc-1''), (''chunk-b'', ''doc-2'')}"

lemma bound_members:
  assumes "hybrid_retrieve id bound_env sample_dense_branch sample_lexical_branch R = Inr h"
    and "c \<in> set (hr_candidates h)"
  shows "cd_text c = ''some text'' \<and> (cd_chunk_id c, cd_document_id c) \<in> pool_members"
proof -
  from hybrid_member [OF assms] obtain s where "same_content c s"
    "returned_by sample_dense_branch (py_strip (rq_query R)) s \<or>
     returned_by sample_lexical_branch (py_strip (rq_query R)) s" by blast
  then show ?thesis
    by (auto simp: returned_by_def sample_dense_branch_def sample_dense_result_def sample_lexical_branch_def
        sample_candidate_def candidate_core.extend_def dense_candidate.fields_def pool_members_def
        dest!: same_contentD)
qed

definition bound_rerank :: "bool \<Rightarrow> retrieval_request \<Rightarrow> retrieval_exc + rerank_result" where
  "bound_rerank ready q = rerank_retrieve id sample_rerank_env
     (hybrid_retrieve id bound_env sample_dense_branch sample_lexical_branch) unit_scores ready q"

lemma bound_reranked:
  assumes R: "R = bound_request\<lparr>rq_corpus_name := ''default'', rq_top_k := Some 5\<rparr>"
  obtains up where "bound_rerank True R = Inr up"
    and "kr_corpus_id up = Some ''corpus-1''" and "kr_chunk_set_id up = ''set-1''"
    and "kr_dense_index_id up = ''dense-1''" and "kr_lexical_index_id up = ''lexical-1''"
    and "kr_fusion_config_hash up = ''fuscfg_1''" and "kr_reranker_config_hash up = ''cfg_2''"
    and "\<forall>c \<in> set (kr_candidates up). (cd_chunk_id c, cd_document_id c) \<in> pool_members"
proof -
  have st: "py_strip ''annual leave'' = ''annual leave''" and t: "py_strip ''some text'' \<noteq> []"
    and n: "validate_corpus_name ''default'' = Inr ''default''" by code_simp+
  have p: "rerank_preflight sample_rerank_env R True = Inr ''default''"
    by (auto simp: rerank_preflight_def R bound_request_def st n sample_rerank_env_def Let_def
        rerank_final_k_def rerank_require_ready_def hybrid_rerank_status_def reranker_config_ok_def)
  let ?H = "R\<lparr>rq_query := py_strip (rq_query R), rq_corpus_name := ''default'',
     rq_top_k := Some (rs_input_k (re_settings sample_rerank_env))\<rparr>"
  have H: "?H = bound_request\<lparr>rq_top_k := Some 30\<rparr>"
    by (simp add: R bound_request_def st sample_rerank_env_def)
  from bound_hybrid [OF refl] obtain h where
    h: "hybrid_retrieve id bound_env sample_dense_branch sample_lexical_branch ?H = Inr h" unfolding H by blast
  note mem = bound_members [OF h]
  have bp: "map_res (build_pair id ''annual leave'') (hr_candidates h) =
      Inr (map (\<lambda>c. \<lparr>pr_chunk_id = cd_chunk_id c, pr_query_text = ''annual leave'',
        pr_passage_text = cd_text c\<rparr>) (hr_candidates h))"
    by (rule map_res_total) (use mem t in \<open>simp add: build_pair_def\<close>)
  then have b: "build_pairs id (rq_query R) (hr_candidates h) = Inr (map (\<lambda>c. \<lparr>pr_chunk_id = cd_chunk_id c,
      pr_query_text = ''annual leave'', pr_passage_text = cd_text c\<rparr>) (hr_candidates h))"
    by (simp add: build_pairs_def R bound_request_def st)
  have sc: "rq_document_ids R = None" by (simp add: R bound_request_def)
  have "\<exists>up. bound_rerank True R = Inr up \<and> kr_corpus_id up = hr_corpus_id h \<and>
      kr_chunk_set_id up = hr_chunk_set_id h \<and> kr_dense_index_id up = hr_dense_index_id h \<and>
      kr_lexical_index_id up = hr_lexical_index_id h \<and>
      kr_fusion_config_hash up = hr_fusion_config_hash h \<and>
      kr_reranker_config_hash up = re_reranker_config_hash sample_rerank_env"
    unfolding bound_rerank_def rerank_retrieve_def p bind_res_simps Let_def h try_map_def sum.case sc b
    by (simp add: unit_scores_def sort_scored_def rerank_result_of_def)
  then obtain up where up: "bound_rerank True R = Inr up" "kr_corpus_id up = hr_corpus_id h"
    "kr_chunk_set_id up = hr_chunk_set_id h" "kr_dense_index_id up = hr_dense_index_id h"
    "kr_lexical_index_id up = hr_lexical_index_id h"
    "kr_fusion_config_hash up = hr_fusion_config_hash h"
    "kr_reranker_config_hash up = ''cfg_2''" by (auto simp: sample_rerank_env_def)
  note fields = bound_hybrid_fields [OF h [unfolded H]]
  have "(cd_chunk_id c, cd_document_id c) \<in> pool_members" if "c \<in> set (kr_candidates up)" for c
    using up(1) [unfolded bound_rerank_def]
  proof (rule rerank_retrieve_InrE)
    fix name hres pairs scores
    assume q: "rerank_preflight sample_rerank_env R True = Inr name"
      and hh: "hybrid_retrieve id bound_env sample_dense_branch sample_lexical_branch
        (R\<lparr>rq_query := py_strip (rq_query R), rq_corpus_name := name,
          rq_top_k := Some (rs_input_k (re_settings sample_rerank_env))\<rparr>) = Inr hres"
      and l: "length scores = length (hr_candidates hres)"
      and cs: "kr_candidates up = map rerank_candidate_of (enum1 (take (nat (rerank_final_k
         (re_settings sample_rerank_env) R)) (sort_key rerank_key (zip (hr_candidates hres) scores))))"
    from rerank_selects(3) [OF l cs that] obtain j where "j < length (hr_candidates hres)"
      "same_content c (core_of (hr_candidates hres ! j))" by blast
    with bound_members [OF hh, of "hr_candidates hres ! j"] show ?thesis
      by (auto dest!: same_contentD)
  qed
  then show thesis using up that fields by simp
qed


end
