(* ===== verification/App_Errors.thy ===== *)
theory App_Errors
  imports Py_Json
begin

section \<open>Application errors (app/errors.py)\<close>

text \<open>
  The product error codes with their catalog, the details an error may carry and the envelope a client
  sees. Details come in two forms: the trusted \<open>SafeErrorDetails\<close>, checked when it is built, and a
  mapping from anywhere, of which only identity-like entries survive. A \<open>fields\<close> entry of trusted
  details is kept as the JSON it is dumped to.
\<close>

subsection \<open>Catalog\<close>

datatype error_code =
    E_REQUEST_INVALID | E_DOCUMENT_INVALID | E_DOCUMENT_UNKNOWN | E_CORPUS_UNKNOWN | E_CORPUS_NOT_READY
  | E_CORPUS_BUSY | E_SNAPSHOT_UNAVAILABLE | E_INGEST_FAILED | E_GENERATION_UNAVAILABLE
  | E_GENERATION_TIMEOUT | E_GENERATION_FAILED | E_RESPONSE_PARSE_ERROR | E_CITATION_INVALID
  | E_RUNTIME_NOT_READY | E_SERVICE_OVERLOADED | E_REQUEST_TIMEOUT | E_REQUEST_CANCELLED
  | E_TRACE_UNKNOWN | E_INTERNAL_ERROR | E_WORKSPACE_UNKNOWN | E_WORKSPACE_NOT_READY
  | E_WORKSPACE_CONFLICT | E_SOURCE_UNKNOWN | E_OPERATION_UNKNOWN | E_IDEMPOTENCY_CONFLICT
  | E_WORKSPACE_STATE_UNAVAILABLE | E_SETTINGS_INVALID | E_SETTINGS_LOCKED | E_SETTINGS_PROBE_FAILED
  | E_GOLD_PROJECT_UNKNOWN | E_GOLD_CAMPAIGN_UNKNOWN | E_GOLD_TASK_UNKNOWN | E_GOLD_BASELINE_UNKNOWN
  | E_GOLD_CONFLICT | E_GOLD_BUSY | E_GOLD_STATE_UNAVAILABLE

record error_spec =
  es_http_status :: "nat option"
  es_retryable :: bool
  es_default_message :: string

definition spec :: "nat \<Rightarrow> bool \<Rightarrow> string \<Rightarrow> error_spec" where
  "spec status retryable m = \<lparr>es_http_status = Some status, es_retryable = retryable, es_default_message = m\<rparr>"

fun error_catalog :: "error_code \<Rightarrow> error_spec" where
  "error_catalog E_REQUEST_INVALID = spec 422 False ''Request validation failed''"
| "error_catalog E_DOCUMENT_INVALID = spec 422 False ''Submitted document is invalid''"
| "error_catalog E_DOCUMENT_UNKNOWN = spec 404 False ''Document not found in published snapshot''"
| "error_catalog E_CORPUS_UNKNOWN = spec 404 False ''Corpus does not exist''"
| "error_catalog E_CORPUS_NOT_READY = spec 409 False ''Corpus has no published grounded-capable snapshot''"
| "error_catalog E_CORPUS_BUSY = spec 409 True ''Corpus mutation lease already held''"
| "error_catalog E_SNAPSHOT_UNAVAILABLE = spec 409 False ''Published snapshot cannot be bound safely''"
| "error_catalog E_INGEST_FAILED = spec 500 False ''Ingest failed''"
| "error_catalog E_GENERATION_UNAVAILABLE = spec 502 True ''Local generation provider is unavailable''"
| "error_catalog E_GENERATION_TIMEOUT = spec 504 True ''Generation request timed out''"
| "error_catalog E_GENERATION_FAILED = spec 502 False ''Generation failed''"
| "error_catalog E_RESPONSE_PARSE_ERROR =
     spec 502 False ''Generated response failed the structured output contract''"
| "error_catalog E_CITATION_INVALID =
     spec 502 False ''Citation validation failed''"
| "error_catalog E_RUNTIME_NOT_READY = spec 503 True ''OfflineRAG runtime is not ready''"
| "error_catalog E_SERVICE_OVERLOADED = spec 503 True ''Service is temporarily overloaded''"
| "error_catalog E_REQUEST_TIMEOUT = spec 504 True ''Request deadline exceeded''"
| "error_catalog E_REQUEST_CANCELLED =
     \<lparr>es_http_status = None, es_retryable = True, es_default_message = ''Request was cancelled''\<rparr>"
| "error_catalog E_TRACE_UNKNOWN = spec 404 False ''Trace not found''"
| "error_catalog E_INTERNAL_ERROR = spec 500 False ''Internal application error''"
| "error_catalog E_WORKSPACE_UNKNOWN = spec 404 False ''Workspace not found''"
| "error_catalog E_WORKSPACE_NOT_READY = spec 409 False ''Workspace has no current publication''"
| "error_catalog E_WORKSPACE_CONFLICT = spec 409 False ''Workspace revision or state conflict''"
| "error_catalog E_SOURCE_UNKNOWN = spec 404 False ''Source not found in workspace''"
| "error_catalog E_OPERATION_UNKNOWN = spec 404 False ''Managed operation not found''"
| "error_catalog E_IDEMPOTENCY_CONFLICT =
     spec 409 False ''Idempotency key conflicts with a different request''"
| "error_catalog E_WORKSPACE_STATE_UNAVAILABLE =
     spec 409 False ''Workspace durable state cannot be bound safely''"
| "error_catalog E_SETTINGS_INVALID = spec 422 False ''Settings validation failed''"
| "error_catalog E_SETTINGS_LOCKED = spec 409 False ''Setting is locked by operator configuration''"
| "error_catalog E_SETTINGS_PROBE_FAILED = spec 409 True ''Generation connection probe failed''"
| "error_catalog E_GOLD_PROJECT_UNKNOWN = spec 404 False ''Gold project not found''"
| "error_catalog E_GOLD_CAMPAIGN_UNKNOWN = spec 404 False ''Gold campaign not found''"
| "error_catalog E_GOLD_TASK_UNKNOWN = spec 404 False ''Gold task not found''"
| "error_catalog E_GOLD_BASELINE_UNKNOWN = spec 404 False ''Gold authoring baseline not found''"
| "error_catalog E_GOLD_CONFLICT =
     spec 409 False ''Gold Lab state conflicts with the requested operation''"
| "error_catalog E_GOLD_BUSY = spec 409 True ''Gold Lab resource is busy''"
| "error_catalog E_GOLD_STATE_UNAVAILABLE =
     spec 409 False ''Gold Lab durable state cannot be bound safely''"

subsection \<open>Details\<close>

text \<open>The pattern \<open>^[A-Za-z0-9][A-Za-z0-9._-]{0,127}$\<close> under \<open>fullmatch\<close>.\<close>

definition is_safe_identity :: "string \<Rightarrow> bool" where
  "is_safe_identity s \<longleftrightarrow> (case s of [] \<Rightarrow> False
     | c # cs \<Rightarrow> is_ascii_alnum c \<and> length cs \<le> 127 \<and>
         list_all (\<lambda>x. is_ascii_alnum x \<or> x \<in> {CHR ''.'', CHR ''_'', CHR ''-''}) cs)"

fun is_safe_id :: "json \<Rightarrow> bool" where
  "is_safe_id (JStr s) \<longleftrightarrow> is_safe_identity s"
| "is_safe_id v \<longleftrightarrow> False"

definition UNTRUSTED_DETAIL_KEYS :: "string set" where
  "UNTRUSTED_DETAIL_KEYS = {''corpus'', ''snapshot_id'', ''document_id'', ''field'', ''stage'',
     ''provider_failure_class'', ''workspace_id'', ''source_id'', ''operation_id'', ''project_id'',
     ''campaign_id'', ''task_id'', ''dataset_id'', ''case_id''}"

definition SECRET_KEY_TOKENS :: "string list" where
  "SECRET_KEY_TOKENS = [''api_key'', ''authorization'', ''password'', ''secret'', ''token'',
     ''credential'', ''private_key'']"

definition normalize_key :: "string \<Rightarrow> string" where
  "normalize_key key = map (\<lambda>c. if c = CHR ''-'' then CHR ''_'' else c) (py_lower (py_strip key))"

definition is_secret_key :: "string \<Rightarrow> bool" where
  "is_secret_key key = (let tok = normalize_key key in
     tok \<in> set SECRET_KEY_TOKENS \<or> list_ex (\<lambda>s. py_in s tok) SECRET_KEY_TOKENS)"

record safe_error_details =
  sd_corpus :: "string option"
  sd_snapshot_id :: "string option"
  sd_document_id :: "string option"
  sd_workspace_id :: "string option"
  sd_source_id :: "string option"
  sd_operation_id :: "string option"
  sd_project_id :: "string option"
  sd_campaign_id :: "string option"
  sd_task_id :: "string option"
  sd_dataset_id :: "string option"
  sd_case_id :: "string option"
  sd_stage :: "string option"
  sd_provider_failure_class :: "string option"
  sd_field :: "string option"
  sd_reason :: "string option"
  sd_fields :: "json list option"

definition no_details :: safe_error_details where
  "no_details = \<lparr>sd_corpus = None, sd_snapshot_id = None, sd_document_id = None, sd_workspace_id = None,
     sd_source_id = None, sd_operation_id = None, sd_project_id = None, sd_campaign_id = None,
     sd_task_id = None, sd_dataset_id = None, sd_case_id = None, sd_stage = None,
     sd_provider_failure_class = None, sd_field = None, sd_reason = None, sd_fields = None\<rparr>"

text \<open>The fourteen identity fields, by name and in the order of the class.\<close>

definition identity_fields :: "safe_error_details \<Rightarrow> (string \<times> string option) list" where
  "identity_fields d = [(''corpus'', sd_corpus d), (''snapshot_id'', sd_snapshot_id d),
     (''document_id'', sd_document_id d), (''workspace_id'', sd_workspace_id d),
     (''source_id'', sd_source_id d), (''operation_id'', sd_operation_id d),
     (''project_id'', sd_project_id d), (''campaign_id'', sd_campaign_id d), (''task_id'', sd_task_id d),
     (''dataset_id'', sd_dataset_id d), (''case_id'', sd_case_id d), (''stage'', sd_stage d),
     (''provider_failure_class'', sd_provider_failure_class d), (''field'', sd_field d)]"

definition require_safe_id :: "string option \<Rightarrow> string + unit" where
  "require_safe_id v = (case v of None \<Rightarrow> Inr ()
     | Some s \<Rightarrow> guard_res (is_safe_identity s) ''detail identity fields must be safe identifiers'')"

definition bound_reason :: "string option \<Rightarrow> string + string option" where
  "bound_reason v = (case v of None \<Rightarrow> Inr None
     | Some s \<Rightarrow> (let t = py_strip s in
         if t = [] \<or> 200 < length t then Inl ''reason must be a non-empty bounded string''
         else if \<not> is_safe_identity t then Inl ''reason must be a safe application reason code''
         else Inr (Some t)))"

text \<open>Building a \<open>SafeErrorDetails\<close>\<close>

definition mk_details :: "safe_error_details \<Rightarrow> string + safe_error_details" where
  "mk_details d =
     bind_res (for_each (\<lambda>(_, v). require_safe_id v) (identity_fields d)) (\<lambda>_.
     bind_res (bound_reason (sd_reason d)) (\<lambda>r. Inr (d\<lparr>sd_reason := r\<rparr>)))"

text \<open>\<open>model_dump(exclude_none=True)\<close>\<close>

definition to_envelope_dict :: "safe_error_details \<Rightarrow> (string \<times> json) list" where
  "to_envelope_dict d =
     List.map_filter (\<lambda>(k, v). map_option (\<lambda>s. (k, JStr s)) v)
       (identity_fields d @ [(''reason'', sd_reason d)]) @
     (case sd_fields d of None \<Rightarrow> [] | Some fs \<Rightarrow> [(''fields'', JList fs)])"

definition sanitize_step :: "(string \<times> json) list \<Rightarrow> string \<times> json \<Rightarrow> (string \<times> json) list" where
  "sanitize_step cleaned item = (case item of (key, v) \<Rightarrow>
     if is_secret_key key then cleaned
     else (let norm = normalize_key key in
       if norm \<in> {''reason'', ''fields''} then cleaned
       else if norm \<notin> UNTRUSTED_DETAIL_KEYS then cleaned
       else if is_safe_id v then dict_set norm v cleaned else cleaned))"

definition sanitize_untrusted_mapping :: "(string \<times> json) list \<Rightarrow> (string \<times> json) list option" where
  "sanitize_untrusted_mapping details =
     (let cleaned = foldl sanitize_step [] details in if cleaned = [] then None else Some cleaned)"

text \<open>What \<open>AppError\<close> was given.\<close>

datatype error_details =
    No_Details
  | Trusted_Details safe_error_details
  | Untrusted_Details "(string \<times> json) list"

fun sanitize_error_details :: "error_details \<Rightarrow> (string \<times> json) list option" where
  "sanitize_error_details No_Details = None"
| "sanitize_error_details (Trusted_Details d) =
     (let payload = to_envelope_dict d in if payload = [] then None else Some payload)"
| "sanitize_error_details (Untrusted_Details m) = sanitize_untrusted_mapping m"

subsection \<open>Errors and their envelope\<close>

record app_error =
  er_code :: error_code
  er_message :: string
  er_details :: error_details
  er_trace_id :: "string option"

definition app_error_of :: "error_code \<Rightarrow> string option \<Rightarrow> error_details \<Rightarrow> string option \<Rightarrow> app_error" where
  "app_error_of code m details trace_id =
     \<lparr>er_code = code, er_message = (case m of Some t \<Rightarrow> t | None \<Rightarrow> es_default_message (error_catalog code)),
      er_details = details, er_trace_id = trace_id\<rparr>"

record error_response =
  rs_code :: error_code
  rs_message :: string
  rs_retryable :: bool
  rs_trace_id :: "string option"
  rs_details :: "(string \<times> json) list option"

definition to_error_response :: "app_error \<Rightarrow> error_response" where
  "to_error_response e =
     \<lparr>rs_code = er_code e, rs_message = er_message e, rs_retryable = es_retryable (error_catalog (er_code e)),
      rs_trace_id = er_trace_id e, rs_details = sanitize_error_details (er_details e)\<rparr>"

text \<open>
  What the application raises: an \<open>AppError\<close>, a \<open>RuntimeError\<close>, a \<open>ValueError\<close>, the
  validation error of a \<open>SafeErrorDetails\<close> that could not be built, or an \<open>OSError\<close> of the file system.
\<close>

datatype app_exc =
    Raised app_error
  | Runtime_Error string
  | Value_Error string
  | Details_Error string
  | OS_Error string

text \<open>\<open>raise AppError(code, details=SafeErrorDetails(...))\<close>\<close>

definition raise_app :: "error_code \<Rightarrow> safe_error_details \<Rightarrow> app_exc + 'a" where
  "raise_app code d = (case mk_details d of
     Inl m \<Rightarrow> Inl (Details_Error m)
   | Inr d' \<Rightarrow> Inl (Raised (app_error_of code None (Trusted_Details d') None)))"

definition document_identity_conflict_error ::
    "string option \<Rightarrow> string option \<Rightarrow> app_exc + 'a" where
  "document_identity_conflict_error document_id workspace_id =
     (case mk_details (no_details\<lparr>sd_reason := Some ''document_identity_conflict'',
         sd_document_id := document_id, sd_workspace_id := workspace_id\<rparr>) of
        Inl m \<Rightarrow> Inl (Details_Error m)
      | Inr d \<Rightarrow> Inl (Raised (app_error_of E_DOCUMENT_INVALID
          (Some ''This document is already present in this workspace.'') (Trusted_Details d) None)))"

subsection \<open>What an envelope can carry\<close>

definition entry_from :: "(string \<times> json) list \<Rightarrow> string \<times> json \<Rightarrow> bool" where
  "entry_from m e \<longleftrightarrow> fst e \<in> UNTRUSTED_DETAIL_KEYS \<and> is_safe_id (snd e) \<and>
     (\<exists>key. (key, snd e) \<in> set m \<and> normalize_key key = fst e \<and> \<not> is_secret_key key)"

lemma set_dict_set: "set (dict_set k v d) \<subseteq> insert (k, v) (set d)"
  by (induction d) auto

lemma sanitize_sound:
  "distinct (map fst (foldl sanitize_step [] m)) \<and> (\<forall>e \<in> set (foldl sanitize_step [] m). entry_from m e)"
proof (induction m rule: rev_induct)
  case (snoc x m)
  obtain key v where x: "x = (key, v)" by (cases x)
  let ?d = "foldl sanitize_step [] m"
  have old: "entry_from (m @ [x]) e" if "e \<in> set ?d" for e using snoc that by (force simp: entry_from_def)
  show ?case
  proof (cases "is_secret_key key \<or> normalize_key key \<in> {''reason'', ''fields''} \<or>
      normalize_key key \<notin> UNTRUSTED_DETAIL_KEYS \<or> \<not> is_safe_id v")
    case True
    then have "sanitize_step ?d x = ?d" by (auto simp: sanitize_step_def x Let_def)
    with snoc old show ?thesis by simp
  next
    case False
    then have eq: "sanitize_step ?d x = dict_set (normalize_key key) v ?d" by (simp add: sanitize_step_def x Let_def)
    have new: "entry_from (m @ [x]) (normalize_key key, v)" using False by (auto simp: entry_from_def x)
    have "entry_from (m @ [x]) e" if "e \<in> set (dict_set (normalize_key key) v ?d)" for e
      using set_dict_set that old new by fastforce
    with snoc eq show ?thesis by (simp add: distinct_update)
  qed
qed simp

lemma mk_details_Inr:
  assumes "mk_details x = Inr d" and "(k, Some s) \<in> set (identity_fields d @ [(''reason'', sd_reason d)])"
  shows "is_safe_identity s"
proof -
  from assms(1) obtain r where ids: "\<forall>e \<in> set (identity_fields x). require_safe_id (snd e) = Inr ()"
    and r: "bound_reason (sd_reason x) = Inr r" and d: "d = x\<lparr>sd_reason := r\<rparr>"
    by (force simp: mk_details_def bind_res_Inr_iff)
  have "identity_fields d = identity_fields x" by (simp add: d identity_fields_def)
  with assms(2) consider "(k, Some s) \<in> set (identity_fields x)" | "r = Some s" by (auto simp: d)
  then show ?thesis
  proof cases
    case 1
    with ids have "require_safe_id (Some s) = Inr ()" by force
    then show ?thesis by (simp add: require_safe_id_def)
  next
    case 2
    with r show ?thesis by (auto simp: bound_reason_def Let_def split: option.splits if_splits)
  qed
qed


end
