(* ===== verification/Operations.thy ===== *)
theory Operations
  imports App_Errors
begin

section \<open>Operations: admission, cancellation, drain (app/operations.py, app/capacity.py)\<close>

text \<open>
  The process-local control of product operations: capacity gates, the handle of an admitted operation
  with its cancel flag, deadline and ingest life cycle, and the registry that admits, releases and drains.
  Every method that runs under a lock is one function on the state. The registry and the owners of an
  operation share its handle, so handles are kept in a store under their operation id; readings of
  \<open>time.monotonic()\<close> and fresh \<open>uuid4\<close> values are arguments, and \<open>rnd\<close> rounds a float sum.
\<close>

subsection \<open>Capacity gates\<close>

record capacity_gate =
  cg_max :: nat
  cg_semaphore :: nat
  cg_held :: nat

definition mk_gate :: "int \<Rightarrow> app_exc + capacity_gate" where
  "mk_gate max_concurrent =
     (if max_concurrent < 1 then Inl (Value_Error ''max_concurrent must be >= 1'')
      else Inr \<lparr>cg_max = nat max_concurrent, cg_semaphore = nat max_concurrent, cg_held = 0\<rparr>)"

definition try_acquire :: "capacity_gate \<Rightarrow> bool \<times> capacity_gate" where
  "try_acquire g =
     (if 0 < cg_semaphore g
      then (True, g\<lparr>cg_semaphore := cg_semaphore g - 1, cg_held := cg_held g + 1\<rparr>)
      else (False, g))"

text \<open>\<open>BoundedSemaphore.release\<close> raises when its value would exceed the initial one.\<close>

definition release_gate :: "capacity_gate \<Rightarrow> app_exc + capacity_gate" where
  "release_gate g =
     (if cg_held g = 0 then Inl (Runtime_Error ''capacity release without acquire'')
      else if cg_max g \<le> cg_semaphore g then Inl (Value_Error ''Semaphore released too many times'')
      else Inr (g\<lparr>cg_held := cg_held g - 1, cg_semaphore := cg_semaphore g + 1\<rparr>))"

subsection \<open>Handles\<close>

datatype operation_kind = QUERY | INGEST | MANAGED_INGEST | GOLD_BOOTSTRAP
datatype ingest_lifecycle = PRE_LEASE | POST_LEASE | PUBLICATION | TERMINAL_LIFECYCLE
datatype cancel_reason = NO_REASON | CLIENT_DISCONNECT | SHUTDOWN

fun cancel_reason_value :: "cancel_reason \<Rightarrow> string" where
  "cancel_reason_value NO_REASON = ''none''"
| "cancel_reason_value CLIENT_DISCONNECT = ''client_disconnect''"
| "cancel_reason_value SHUTDOWN = ''shutdown''"

record operation_handle =
  oh_op_id :: string
  oh_kind :: operation_kind
  oh_deadline_mono :: pyfloat
  oh_cancel_event :: bool
  oh_cancel_reason :: cancel_reason
  oh_lifecycle :: "ingest_lifecycle option"
  oh_released :: bool

definition is_ingest_lifecycle_kind :: "operation_handle \<Rightarrow> bool" where
  "is_ingest_lifecycle_kind h \<longleftrightarrow> oh_kind h \<in> {INGEST, MANAGED_INGEST, GOLD_BOOTSTRAP}"

definition has_request_deadline :: "operation_handle \<Rightarrow> bool" where
  "has_request_deadline h \<longleftrightarrow> oh_kind h = INGEST"

definition in_publication :: "operation_handle \<Rightarrow> bool" where
  "in_publication h \<longleftrightarrow> oh_lifecycle h = Some PUBLICATION"

text \<open>The cases in which \<open>signal_cancel\<close> returns without a trace.\<close>

definition cancel_ignored :: "cancel_reason \<Rightarrow> operation_handle \<Rightarrow> bool" where
  "cancel_ignored reason h \<longleftrightarrow>
     oh_kind h \<in> {GOLD_BOOTSTRAP, MANAGED_INGEST} \<and>
       (reason = CLIENT_DISCONNECT \<or> reason = SHUTDOWN \<and> in_publication h) \<or>
     oh_kind h = INGEST \<and>
       (reason = CLIENT_DISCONNECT \<and>
          oh_lifecycle h \<in> {Some POST_LEASE, Some PUBLICATION, Some TERMINAL_LIFECYCLE} \<or>
        reason = SHUTDOWN \<and> in_publication h)"

definition signal_cancel :: "cancel_reason \<Rightarrow> operation_handle \<Rightarrow> operation_handle" where
  "signal_cancel reason h =
     (if reason = NO_REASON then h
      else if cancel_ignored reason h then h
      else h\<lparr>oh_cancel_reason := (if oh_cancel_reason h = NO_REASON then reason else oh_cancel_reason h),
             oh_cancel_event := True\<rparr>)"

definition raise_at :: "error_code \<Rightarrow> string \<Rightarrow> string \<Rightarrow> app_exc + 'a" where
  "raise_at code reason stage = raise_app code (no_details\<lparr>sd_reason := Some reason,
     sd_stage := (if stage = [] then None else Some stage)\<rparr>)"

definition complete_lease_acquire :: "pyfloat \<Rightarrow> operation_handle \<Rightarrow> app_exc + operation_handle" where
  "complete_lease_acquire now h =
     (if \<not> is_ingest_lifecycle_kind h then
        Inl (Runtime_Error ''complete_lease_acquire only valid for ingest/bootstrap'')
      else if oh_lifecycle h \<noteq> Some PRE_LEASE then Inr h
      else if oh_cancel_event h \<and> oh_cancel_reason h = CLIENT_DISCONNECT then
        raise_at E_REQUEST_CANCELLED ''client_disconnect'' ''lease''
      else if oh_cancel_event h \<and> oh_cancel_reason h = SHUTDOWN then
        raise_at E_INGEST_FAILED ''shutdown_abort'' ''lease''
      else if has_request_deadline h \<and> oh_deadline_mono h \<le> now then
        raise_at E_REQUEST_TIMEOUT ''ingest_deadline_exceeded'' ''lease''
      else Inr (h\<lparr>oh_lifecycle := Some POST_LEASE\<rparr>))"

definition enter_publication :: "pyfloat \<Rightarrow> operation_handle \<Rightarrow> app_exc + operation_handle" where
  "enter_publication now h =
     (if \<not> is_ingest_lifecycle_kind h then
        Inl (Runtime_Error ''enter_publication only valid for ingest/bootstrap'')
      else if oh_lifecycle h \<in> {Some TERMINAL_LIFECYCLE, Some PUBLICATION} then Inr h
      else if oh_cancel_event h \<and> oh_cancel_reason h = SHUTDOWN then
        raise_at (if oh_kind h = GOLD_BOOTSTRAP then E_INTERNAL_ERROR else E_INGEST_FAILED)
          ''shutdown_abort'' ''publish''
      else if has_request_deadline h \<and> oh_deadline_mono h \<le> now then
        raise_at E_REQUEST_TIMEOUT ''ingest_deadline_exceeded'' ''publish''
      else Inr (h\<lparr>oh_lifecycle := Some PUBLICATION\<rparr>))"

definition mark_terminal :: "operation_handle \<Rightarrow> operation_handle" where
  "mark_terminal h =
     (if is_ingest_lifecycle_kind h then h\<lparr>oh_lifecycle := Some TERMINAL_LIFECYCLE\<rparr> else h)"

definition deadline_expired :: "pyfloat \<Rightarrow> operation_handle \<Rightarrow> bool" where
  "deadline_expired now h \<longleftrightarrow> oh_deadline_mono h \<le> now"

text \<open>\<open>checkpoint\<close>, by kind of operation\<close>

definition checkpoint_detached :: "error_code \<Rightarrow> string \<Rightarrow> operation_handle \<Rightarrow> app_exc + unit" where
  "checkpoint_detached code here h =
     (if oh_cancel_event h \<and> oh_cancel_reason h = SHUTDOWN then
        (if in_publication h then Inr () else raise_at code ''shutdown_abort'' here)
      else Inr ())"

definition checkpoint_query :: "pyfloat \<Rightarrow> string \<Rightarrow> operation_handle \<Rightarrow> app_exc + unit" where
  "checkpoint_query now here h =
     (if oh_cancel_event h \<and> oh_cancel_reason h \<in> {CLIENT_DISCONNECT, SHUTDOWN} then
        raise_at E_REQUEST_CANCELLED (cancel_reason_value (oh_cancel_reason h)) here
      else if deadline_expired now h then raise_at E_REQUEST_TIMEOUT ''query_deadline_exceeded'' here
      else Inr ())"

definition checkpoint_ingest :: "pyfloat \<Rightarrow> string \<Rightarrow> operation_handle \<Rightarrow> app_exc + unit" where
  "checkpoint_ingest now here h =
     (if oh_cancel_event h \<and> oh_cancel_reason h = CLIENT_DISCONNECT then
        (if oh_lifecycle h = Some PRE_LEASE then raise_at E_REQUEST_CANCELLED ''client_disconnect'' here
         else Inr ())
      else if oh_cancel_event h \<and> oh_cancel_reason h = SHUTDOWN then
        (if in_publication h then Inr () else raise_at E_INGEST_FAILED ''shutdown_abort'' here)
      else if deadline_expired now h then
        (if in_publication h then Inr ()
         else raise_at E_REQUEST_TIMEOUT ''ingest_deadline_exceeded'' here)
      else Inr ())"

definition checkpoint :: "pyfloat \<Rightarrow> string \<Rightarrow> operation_handle \<Rightarrow> app_exc + unit" where
  "checkpoint now here h = (case oh_kind h of
     GOLD_BOOTSTRAP \<Rightarrow> checkpoint_detached E_INTERNAL_ERROR here h
   | MANAGED_INGEST \<Rightarrow> checkpoint_detached E_INGEST_FAILED here h
   | QUERY \<Rightarrow> checkpoint_query now here h
   | INGEST \<Rightarrow> checkpoint_ingest now here h)"

subsection \<open>The registry\<close>

text \<open>
  \<open>rg_handles\<close> holds every handle ever admitted, \<open>rg_active\<close> the keys of \<open>_active\<close> in order, and
  \<open>rg_pending\<close> the handles a running \<open>signal_shutdown\<close> has still to signal (its local list).
\<close>

record registry =
  rg_query_gate :: capacity_gate
  rg_ingest_gate :: capacity_gate
  rg_gold_gate :: capacity_gate
  rg_handles :: "string \<Rightarrow> operation_handle option"
  rg_active :: "string list"
  rg_draining :: bool
  rg_grace_exhausted :: bool
  rg_pending :: "string list"

definition gate_of :: "operation_kind \<Rightarrow> registry \<Rightarrow> capacity_gate" where
  "gate_of k s = (case k of QUERY \<Rightarrow> rg_query_gate s | INGEST \<Rightarrow> rg_ingest_gate s
     | MANAGED_INGEST \<Rightarrow> rg_ingest_gate s | GOLD_BOOTSTRAP \<Rightarrow> rg_gold_gate s)"

definition set_gate :: "operation_kind \<Rightarrow> capacity_gate \<Rightarrow> registry \<Rightarrow> registry" where
  "set_gate k g s = (case k of QUERY \<Rightarrow> s\<lparr>rg_query_gate := g\<rparr> | INGEST \<Rightarrow> s\<lparr>rg_ingest_gate := g\<rparr>
     | MANAGED_INGEST \<Rightarrow> s\<lparr>rg_ingest_gate := g\<rparr> | GOLD_BOOTSTRAP \<Rightarrow> s\<lparr>rg_gold_gate := g\<rparr>)"

definition op_prefix :: "operation_kind \<Rightarrow> string" where
  "op_prefix k = (case k of QUERY \<Rightarrow> ''opq'' | INGEST \<Rightarrow> ''opi'' | MANAGED_INGEST \<Rightarrow> ''opm''
     | GOLD_BOOTSTRAP \<Rightarrow> ''opg'')"

definition exhausted_reason :: "operation_kind \<Rightarrow> string" where
  "exhausted_reason k = (case k of QUERY \<Rightarrow> ''query_capacity_exhausted''
     | INGEST \<Rightarrow> ''ingest_capacity_exhausted'' | MANAGED_INGEST \<Rightarrow> ''ingest_capacity_exhausted''
     | GOLD_BOOTSTRAP \<Rightarrow> ''gold_bootstrap_capacity_exhausted'')"

definition new_handle :: "(pyfloat \<Rightarrow> pyfloat) \<Rightarrow> operation_kind \<Rightarrow> string \<Rightarrow> pyfloat \<Rightarrow> pyfloat \<Rightarrow> operation_handle" where
  "new_handle rnd k uid now seconds =
     \<lparr>oh_op_id = op_prefix k @ ''_'' @ uid, oh_kind = k, oh_deadline_mono = rnd (now + seconds),
      oh_cancel_event = False, oh_cancel_reason = NO_REASON,
      oh_lifecycle = (if k = QUERY then None else Some PRE_LEASE), oh_released = False\<rparr>"

definition add_key :: "string \<Rightarrow> string list \<Rightarrow> string list" where
  "add_key k ks = (if k \<in> set ks then ks else ks @ [k])"

text \<open>
  The second look at \<open>_draining\<close> in \<open>_admit\<close> can never see a change, both being under the lock.
\<close>

definition admit ::
    "(pyfloat \<Rightarrow> pyfloat) \<Rightarrow> operation_kind \<Rightarrow> string \<Rightarrow> pyfloat \<Rightarrow> pyfloat \<Rightarrow> registry \<Rightarrow>
     app_exc + operation_handle \<times> registry" where
  "admit rnd k uid now seconds s =
     (if rg_draining s then raise_app E_RUNTIME_NOT_READY no_details
      else (case try_acquire (gate_of k s) of
         (False, _) \<Rightarrow> raise_app E_SERVICE_OVERLOADED (no_details\<lparr>sd_reason := Some (exhausted_reason k)\<rparr>)
       | (True, g) \<Rightarrow>
           (let h = new_handle rnd k uid now seconds in
            Inr (h, (set_gate k g s)\<lparr>rg_handles := (rg_handles s)(oh_op_id h \<mapsto> h),
              rg_active := add_key (oh_op_id h) (rg_active s)\<rparr>))))"

record operation_deadlines =
  od_query :: pyfloat
  od_ingest :: pyfloat

definition sentinel_seconds :: pyfloat where
  "sentinel_seconds = 604800"

text \<open>\<open>admit_query\<close>, \<open>admit_ingest\<close>, \<open>admit_managed_ingest\<close>, \<open>admit_gold_bootstrap\<close>\<close>

definition admit_kind ::
    "(pyfloat \<Rightarrow> pyfloat) \<Rightarrow> operation_deadlines \<Rightarrow> operation_kind \<Rightarrow> pyfloat option \<Rightarrow> string \<Rightarrow> pyfloat \<Rightarrow>
     registry \<Rightarrow> app_exc + operation_handle \<times> registry" where
  "admit_kind rnd od k deadline_seconds uid now s =
     admit rnd k uid now (case k of
         QUERY \<Rightarrow> (case deadline_seconds of Some d \<Rightarrow> d | None \<Rightarrow> od_query od)
       | INGEST \<Rightarrow> (case deadline_seconds of Some d \<Rightarrow> d | None \<Rightarrow> od_ingest od)
       | _ \<Rightarrow> sentinel_seconds) s"

definition update_handle :: "string \<Rightarrow> (operation_handle \<Rightarrow> operation_handle) \<Rightarrow> registry \<Rightarrow> registry" where
  "update_handle i f s = s\<lparr>rg_handles := (rg_handles s)(i := map_option f (rg_handles s i))\<rparr>"

definition release_op :: "string \<Rightarrow> registry \<Rightarrow> app_exc + registry" where
  "release_op i s = (case rg_handles s i of
     None \<Rightarrow> Inr s
   | Some h \<Rightarrow>
       if oh_released h then Inr s
       else bind_res (release_gate (gate_of (oh_kind h) s)) (\<lambda>g.
         Inr ((set_gate (oh_kind h) g (update_handle i (\<lambda>h. mark_terminal (h\<lparr>oh_released := True\<rparr>)) s))
           \<lparr>rg_active := filter (\<lambda>a. a \<noteq> i) (rg_active s)\<rparr>)))"

definition prepare_for_start :: "registry \<Rightarrow> app_exc + registry" where
  "prepare_for_start s =
     (if rg_active s \<noteq> [] then Inl (Runtime_Error ''cannot prepare registry while operations are active'')
      else Inr (s\<lparr>rg_draining := False, rg_grace_exhausted := False\<rparr>))"

text \<open>\<open>signal_shutdown\<close>: the locked part, and one signal of the loop after it.\<close>

definition begin_shutdown :: "registry \<Rightarrow> registry" where
  "begin_shutdown s = s\<lparr>rg_draining := True, rg_pending := rg_pending s @ rg_active s\<rparr>"

definition deliver_shutdown :: "string \<Rightarrow> registry \<Rightarrow> registry" where
  "deliver_shutdown i s =
     (update_handle i (signal_cancel SHUTDOWN) s)\<lparr>rg_pending := remove1 i (rg_pending s)\<rparr>"

definition signal_shutdown :: "registry \<Rightarrow> registry" where
  "signal_shutdown s = fold deliver_shutdown (rg_active s) (begin_shutdown s)"

definition active_count :: "registry \<Rightarrow> nat" where
  "active_count s = length (rg_active s)"

text \<open>
  \<open>wait_until_idle\<close> with a timeout: \<open>polls\<close> are the successive observations of the loop, the number
  of active operations and the time; it returns at the first idle one or the first after the deadline.
\<close>

fun wait_polls :: "pyfloat \<Rightarrow> (nat \<times> pyfloat) list \<Rightarrow> bool option" where
  "wait_polls deadline [] = None"
| "wait_polls deadline ((active, now) # polls) =
     (if active = 0 then Some True else if deadline - now \<le> 0 then Some False
      else wait_polls deadline polls)"

subsection \<open>Concurrent steps\<close>

text \<open>
  Any interleaving of the locked methods: admissions with fresh ids, releases, signals, the two
  transitions of an ingest, the two parts of a shutdown, a restart. A step that raises changes nothing.
\<close>

definition handle_step :: "string \<Rightarrow> (operation_handle \<Rightarrow> app_exc + operation_handle) \<Rightarrow> registry \<Rightarrow> registry" where
  "handle_step i f s = update_handle i (\<lambda>h. case f h of Inl _ \<Rightarrow> h | Inr h' \<Rightarrow> h') s"

inductive reg_step :: "(pyfloat \<Rightarrow> pyfloat) \<Rightarrow> registry \<Rightarrow> registry \<Rightarrow> bool" for rnd where
  step_admit: "rg_handles s (op_prefix k @ ''_'' @ uid) = None \<Longrightarrow>
     admit rnd k uid now seconds s = Inr (h, s') \<Longrightarrow> reg_step rnd s s'"
| step_release: "release_op i s = Inr s' \<Longrightarrow> reg_step rnd s s'"
| step_cancel: "reg_step rnd s (update_handle i (signal_cancel reason) s)"
| step_lease: "reg_step rnd s (handle_step i (complete_lease_acquire now) s)"
| step_publish: "reg_step rnd s (handle_step i (enter_publication now) s)"
| step_begin_shutdown: "reg_step rnd s (begin_shutdown s)"
| step_deliver: "i \<in> set (rg_pending s) \<Longrightarrow> reg_step rnd s (deliver_shutdown i s)"
| step_prepare: "prepare_for_start s = Inr s' \<Longrightarrow> reg_step rnd s s'"

definition new_registry :: "capacity_gate \<Rightarrow> capacity_gate \<Rightarrow> capacity_gate \<Rightarrow> registry" where
  "new_registry q i g = \<lparr>rg_query_gate = q, rg_ingest_gate = i, rg_gold_gate = g,
     rg_handles = (\<lambda>_. None), rg_active = [], rg_draining = False, rg_grace_exhausted = False,
     rg_pending = []\<rparr>"

text \<open>The states a runtime can be in: from three new gates, by any steps.\<close>

inductive reg_reachable :: "(pyfloat \<Rightarrow> pyfloat) \<Rightarrow> registry \<Rightarrow> bool" for rnd where
  reach_new: "mk_gate q = Inr gq \<Longrightarrow> mk_gate i = Inr gi \<Longrightarrow> mk_gate g = Inr gg \<Longrightarrow>
     reg_reachable rnd (new_registry gq gi gg)"
| reach_step: "reg_reachable rnd s \<Longrightarrow> reg_step rnd s s' \<Longrightarrow> reg_reachable rnd s'"

end
