(* ===== verification/Operation_Properties.thy ===== *)
theory Operation_Properties
  imports Operations
begin

section \<open>Operations: capacity, publication, drain\<close>

text \<open>
  The invariant of the registry under any interleaving, and what follows from it: slots never leak,
  publication is a point of no return, and a drain stops everything that is not publishing.
\<close>

named_theorems handle_defs \<open>the operations on one handle\<close>

lemmas [handle_defs] = is_ingest_lifecycle_kind_def has_request_deadline_def in_publication_def
  cancel_ignored_def signal_cancel_def complete_lease_acquire_def enter_publication_def mark_terminal_def

subsection \<open>Errors always raise\<close>

lemma raise_app_Inl: "\<exists>e. raise_app code d = Inl e"
  by (cases "mk_details d") (simp_all add: raise_app_def)

lemma raise_app_neq [simp]: "raise_app code d \<noteq> Inr x"
  using raise_app_Inl [of code d] by (metis sum.distinct(1))

lemma raise_at_neq [simp]: "raise_at code reason stage \<noteq> Inr x"
  by (simp add: raise_at_def)

lemma raise_at_Inl [simp]: "\<exists>e. raise_at code reason stage = Inl e"
  by (simp add: raise_at_def raise_app_Inl)

lemma case_raise_at [simp]: "(case (raise_at code reason stage :: app_exc + 'b) of Inl _ \<Rightarrow> h | Inr h' \<Rightarrow> f h') = h"
  by (cases "raise_at code reason stage :: app_exc + 'b") auto

subsection \<open>One handle\<close>

definition handle_ok :: "operation_handle \<Rightarrow> bool" where
  "handle_ok h \<longleftrightarrow> (oh_lifecycle h = None \<longleftrightarrow> oh_kind h = QUERY) \<and>
     (oh_cancel_event h \<longleftrightarrow> oh_cancel_reason h \<noteq> NO_REASON) \<and>
     (oh_lifecycle h = Some TERMINAL_LIFECYCLE \<longleftrightarrow> oh_released h \<and> oh_kind h \<noteq> QUERY) \<and>
     (in_publication h \<longrightarrow> oh_cancel_reason h \<noteq> SHUTDOWN) \<and>
     (oh_lifecycle h = Some POST_LEASE \<longrightarrow> oh_cancel_reason h \<noteq> CLIENT_DISCONNECT) \<and>
     (oh_kind h \<in> {MANAGED_INGEST, GOLD_BOOTSTRAP} \<longrightarrow> oh_cancel_reason h \<noteq> CLIENT_DISCONNECT)"

text \<open>What can become of a handle: it never forgets why it was cancelled, and never leaves publication
  but by being released.\<close>

definition later :: "operation_handle \<Rightarrow> operation_handle \<Rightarrow> bool" where
  "later h h' \<longleftrightarrow> oh_kind h' = oh_kind h \<and> oh_op_id h' = oh_op_id h \<and> (oh_released h \<longrightarrow> oh_released h') \<and>
     (in_publication h \<longrightarrow> in_publication h' \<or> oh_released h') \<and>
     (oh_cancel_reason h \<noteq> NO_REASON \<longrightarrow> oh_cancel_reason h' = oh_cancel_reason h)"

lemma later_refl [simp]: "later h h"
  by (simp add: later_def)

lemma released_not_publishing: "handle_ok h \<Longrightarrow> oh_released h \<Longrightarrow> \<not> in_publication h"
  by (auto simp: handle_ok_def in_publication_def)

lemma later_trans: "later a b \<Longrightarrow> later b c \<Longrightarrow> later a c"
  by (auto simp: later_def)

text \<open>Operations of an owner or of a signal: no release.\<close>

definition owner_op :: "(operation_handle \<Rightarrow> operation_handle) \<Rightarrow> bool" where
  "owner_op f \<longleftrightarrow> (\<forall>h. handle_ok h \<longrightarrow> handle_ok (f h) \<and> later h (f h) \<and> oh_released (f h) = oh_released h)"

lemma owner_signal: "owner_op (signal_cancel reason)"
  unfolding owner_op_def
proof (intro allI impI)
  fix h assume "handle_ok h"
  then show "handle_ok (signal_cancel reason h) \<and> later h (signal_cancel reason h) \<and>
      oh_released (signal_cancel reason h) = oh_released h"
    by (cases reason; cases "oh_kind h") (auto simp: handle_ok_def later_def handle_defs)
qed

definition ignoring :: "(operation_handle \<Rightarrow> app_exc + operation_handle) \<Rightarrow> operation_handle \<Rightarrow> operation_handle" where
  "ignoring f h = (case f h of Inl _ \<Rightarrow> h | Inr h' \<Rightarrow> h')"

lemma owner_lease: "owner_op (ignoring (complete_lease_acquire now))"
  unfolding owner_op_def
proof (intro allI impI)
  fix h assume "handle_ok h"
  then show "handle_ok (ignoring (complete_lease_acquire now) h) \<and>
      later h (ignoring (complete_lease_acquire now) h) \<and>
      oh_released (ignoring (complete_lease_acquire now) h) = oh_released h"
    by (cases "oh_cancel_reason h") (auto simp: handle_ok_def later_def handle_defs ignoring_def)
qed

lemma owner_publish: "owner_op (ignoring (enter_publication now))"
  unfolding owner_op_def
proof (intro allI impI)
  fix h assume "handle_ok h"
  then show "handle_ok (ignoring (enter_publication now) h) \<and>
      later h (ignoring (enter_publication now) h) \<and>
      oh_released (ignoring (enter_publication now) h) = oh_released h"
    by (cases "oh_cancel_reason h") (auto simp: handle_ok_def later_def handle_defs ignoring_def)
qed

text \<open>A handle a shutdown has dealt with.\<close>

definition settled :: "operation_handle \<Rightarrow> bool" where
  "settled h \<longleftrightarrow> oh_cancel_reason h \<noteq> NO_REASON \<or> in_publication h"

lemma settled_later: "settled h \<Longrightarrow> later h h' \<Longrightarrow> \<not> oh_released h' \<Longrightarrow> settled h'"
  by (auto simp: settled_def later_def)

lemma settled_shutdown: "settled (signal_cancel SHUTDOWN h)"
  by (cases "oh_kind h") (auto simp: settled_def handle_defs)

lemma publishing_goes_on: "handle_ok h \<Longrightarrow> in_publication h \<Longrightarrow> checkpoint now here h = Inr ()"
  by (cases "oh_kind h"; cases "oh_cancel_reason h")
    (auto simp: handle_ok_def in_publication_def checkpoint_def checkpoint_detached_def checkpoint_ingest_def)

lemma cancelled_stops:
  assumes "handle_ok h" and "oh_cancel_reason h \<noteq> NO_REASON" and "\<not> in_publication h"
    and "oh_cancel_reason h = CLIENT_DISCONNECT \<Longrightarrow> \<not> oh_released h"
  shows "\<exists>e. checkpoint now here h = Inl e"
proof (cases "oh_cancel_reason h")
  case CLIENT_DISCONNECT
  with assms have "oh_kind h = QUERY \<or> oh_kind h = INGEST \<and> oh_lifecycle h = Some PRE_LEASE"
    by (cases "oh_kind h"; cases "oh_lifecycle h"; cases "the (oh_lifecycle h)")
      (auto simp: handle_ok_def in_publication_def)
  with assms CLIENT_DISCONNECT show ?thesis
    by (auto simp: handle_ok_def checkpoint_def checkpoint_query_def checkpoint_ingest_def)
next
  case SHUTDOWN
  with assms show ?thesis
    by (cases "oh_kind h") (auto simp: handle_ok_def checkpoint_def checkpoint_query_def
      checkpoint_ingest_def checkpoint_detached_def)
qed (use assms in simp)

subsection \<open>The registry\<close>

definition gate_class :: "operation_kind \<Rightarrow> operation_kind" where
  "gate_class k = (if k = MANAGED_INGEST then INGEST else k)"

definition holds_slot :: "registry \<Rightarrow> operation_kind \<Rightarrow> string \<Rightarrow> bool" where
  "holds_slot s k i \<longleftrightarrow> (case rg_handles s i of None \<Rightarrow> False
     | Some h \<Rightarrow> gate_class (oh_kind h) = gate_class k)"

definition holders :: "registry \<Rightarrow> operation_kind \<Rightarrow> nat" where
  "holders s k = length (filter (holds_slot s k) (rg_active s))"

definition gate_ok :: "registry \<Rightarrow> operation_kind \<Rightarrow> bool" where
  "gate_ok s k \<longleftrightarrow> cg_held (gate_of k s) = holders s k \<and>
     cg_semaphore (gate_of k s) + cg_held (gate_of k s) = cg_max (gate_of k s)"

definition active_ok :: "registry \<Rightarrow> bool" where
  "active_ok s \<longleftrightarrow> distinct (rg_active s) \<and>
     (\<forall>i. i \<in> set (rg_active s) \<longleftrightarrow> (\<exists>h. rg_handles s i = Some h \<and> \<not> oh_released h))"

definition handles_ok :: "registry \<Rightarrow> bool" where
  "handles_ok s \<longleftrightarrow> (\<forall>i h. rg_handles s i = Some h \<longrightarrow> handle_ok h \<and> oh_op_id h = i)"

definition drain_ok :: "registry \<Rightarrow> bool" where
  "drain_ok s \<longleftrightarrow> (rg_draining s \<longrightarrow> (\<forall>i h. rg_handles s i = Some h \<longrightarrow> \<not> oh_released h \<longrightarrow>
     i \<in> set (rg_pending s) \<or> settled h))"

definition reg_inv :: "registry \<Rightarrow> bool" where
  "reg_inv s \<longleftrightarrow> handles_ok s \<and> active_ok s \<and> (\<forall>k. gate_ok s k) \<and> drain_ok s"

text \<open>No handle is lost, and each only becomes a later one.\<close>

definition handles_later :: "registry \<Rightarrow> registry \<Rightarrow> bool" where
  "handles_later s s' \<longleftrightarrow> (\<forall>i h. rg_handles s i = Some h \<longrightarrow> (\<exists>h'. rg_handles s' i = Some h' \<and> later h h'))"

lemma update_handle_sel [simp]:
  "rg_handles (update_handle i f s) = (rg_handles s)(i := map_option f (rg_handles s i))"
  "rg_active (update_handle i f s) = rg_active s" "rg_draining (update_handle i f s) = rg_draining s"
  "rg_pending (update_handle i f s) = rg_pending s" "gate_of k (update_handle i f s) = gate_of k s"
  by (simp_all add: update_handle_def gate_of_def split: operation_kind.split)

lemma set_gate_sel [simp]:
  "rg_handles (set_gate k g s) = rg_handles s" "rg_active (set_gate k g s) = rg_active s"
  "rg_draining (set_gate k g s) = rg_draining s" "rg_pending (set_gate k g s) = rg_pending s"
  "gate_of k' (set_gate k g s) = (if gate_class k' = gate_class k then g else gate_of k' s)"
  by (cases k; cases k'; simp add: set_gate_def gate_of_def gate_class_def)+

lemma gate_of_update [simp]:
  "gate_of k (s\<lparr>rg_handles := a\<rparr>) = gate_of k s" "gate_of k (s\<lparr>rg_active := b\<rparr>) = gate_of k s"
  "gate_of k (s\<lparr>rg_pending := c\<rparr>) = gate_of k s" "gate_of k (s\<lparr>rg_draining := d\<rparr>) = gate_of k s"
  "gate_of k (s\<lparr>rg_grace_exhausted := e\<rparr>) = gate_of k s"
  by (simp_all add: gate_of_def split: operation_kind.split)

lemma gate_of_class: "gate_class k' = gate_class k \<Longrightarrow> gate_of k' s = gate_of k s"
  by (cases k; cases k') (simp_all add: gate_class_def gate_of_def)

lemma holders_update:
  assumes "owner_op f" and "handles_ok s"
  shows "holders (update_handle i f s) k = holders s k"
proof -
  have "holds_slot (update_handle i f s) k = holds_slot s k"
    using assms by (intro ext, cases "rg_handles s i")
      (auto simp: holds_slot_def owner_op_def handles_ok_def later_def split: option.split)
  then show ?thesis by (simp add: holders_def)
qed

lemma owner_update:
  assumes f: "owner_op f" and inv: "reg_inv s"
  shows "reg_inv (update_handle i f s)" and "handles_later s (update_handle i f s)"
proof -
  have h: "handle_ok (f h)" "later h (f h)" "oh_released (f h) = oh_released h" "oh_op_id h = i"
    if "rg_handles s i = Some h" for h
    using f inv that by (auto simp: owner_op_def reg_inv_def handles_ok_def)
  have 1: "handles_ok (update_handle i f s)"
    using inv h by (auto simp: handles_ok_def reg_inv_def later_def)
  have 2: "active_ok (update_handle i f s)"
    using inv h by (auto simp: active_ok_def reg_inv_def)
  have 3: "gate_ok (update_handle i f s) k" for k
  proof -
    have "gate_ok s k" and "handles_ok s" using inv by (simp_all add: reg_inv_def)
    then show ?thesis using holders_update [OF f, of s i k] by (simp add: gate_ok_def)
  qed
  have 4: "drain_ok (update_handle i f s)"
    using inv h by (auto simp: drain_ok_def reg_inv_def) (metis settled_later)
  show "reg_inv (update_handle i f s)" using 1 2 3 4 by (simp add: reg_inv_def)
  show "handles_later s (update_handle i f s)" using h by (auto simp: handles_later_def)
qed

text \<open>Steps of the registry\<close>

lemma handle_step_ignoring: "handle_step i f = update_handle i (ignoring f)"
  by (rule ext) (simp add: handle_step_def ignoring_def [abs_def])

lemma try_acquire_iff: "try_acquire g = (True, g') \<longleftrightarrow>
    0 < cg_semaphore g \<and> g' = g\<lparr>cg_semaphore := cg_semaphore g - 1, cg_held := cg_held g + 1\<rparr>"
  by (auto simp: try_acquire_def)

lemma admit_Inr: "admit rnd k uid now seconds s = Inr (h, s') \<longleftrightarrow>
    \<not> rg_draining s \<and> h = new_handle rnd k uid now seconds \<and>
    (\<exists>g. try_acquire (gate_of k s) = (True, g) \<and>
      s' = (set_gate k g s)\<lparr>rg_handles := (rg_handles s)(oh_op_id h \<mapsto> h),
        rg_active := add_key (oh_op_id h) (rg_active s)\<rparr>)"
  by (auto simp: admit_def Let_def split: bool.splits prod.splits)

lemma admit_sel:
  assumes "admit rnd k uid now seconds s = Inr (h, s')"
  shows "rg_handles s' = (rg_handles s)(oh_op_id h \<mapsto> h)" "rg_active s' = add_key (oh_op_id h) (rg_active s)"
    "rg_pending s' = rg_pending s" "h = new_handle rnd k uid now seconds"
  using assms by (auto simp: admit_Inr)

lemma new_handle_ok: "handle_ok (new_handle rnd k uid now seconds)"
  by (simp add: handle_ok_def new_handle_def in_publication_def)

lemma new_handle_sel [simp]:
  "oh_op_id (new_handle rnd k uid now seconds) = op_prefix k @ ''_'' @ uid"
  "oh_kind (new_handle rnd k uid now seconds) = k" "\<not> oh_released (new_handle rnd k uid now seconds)"
  by (simp_all add: new_handle_def)

lemma filter_fresh: "i \<notin> set xs \<Longrightarrow> (\<And>j. j \<in> set xs \<Longrightarrow> P j = Q j) \<Longrightarrow> filter P xs = filter Q xs"
  by (rule filter_cong) auto

lemma admit_inv:
  assumes inv: "reg_inv s" and fresh: "rg_handles s (op_prefix k @ ''_'' @ uid) = None"
    and ad: "admit rnd k uid now seconds s = Inr (h, s')"
  shows "reg_inv s'" and "handles_later s s'"
proof -
  define i where "i = oh_op_id h"
  from ad obtain g where nd: "\<not> rg_draining s" and h: "h = new_handle rnd k uid now seconds"
    and g: "0 < cg_semaphore (gate_of k s)"
      "g = (gate_of k s)\<lparr>cg_semaphore := cg_semaphore (gate_of k s) - 1, cg_held := cg_held (gate_of k s) + 1\<rparr>"
    and s': "s' = (set_gate k g s)\<lparr>rg_handles := (rg_handles s)(i \<mapsto> h), rg_active := add_key i (rg_active s)\<rparr>"
    unfolding i_def by (auto simp: admit_Inr try_acquire_iff)
  from fresh h have fr: "rg_handles s i = None" by (simp add: i_def)
  then have ni: "i \<notin> set (rg_active s)" using inv by (auto simp: reg_inv_def active_ok_def)
  then have ak: "add_key i (rg_active s) = rg_active s @ [i]" by (simp add: add_key_def)
  have hs: "holds_slot s' k' j = (if j = i then gate_class k = gate_class k' else holds_slot s k' j)" for k' j
    by (simp add: s' holds_slot_def h)
  have hold: "holders s' k' = holders s k' + (if gate_class k' = gate_class k then 1 else 0)" for k'
  proof -
    have "filter (holds_slot s' k') (rg_active s) = filter (holds_slot s k') (rg_active s)"
      using ni by (intro filter_cong) (auto simp: hs)
    moreover have "rg_active s' = rg_active s @ [i]" by (simp add: s' ak)
    ultimately show ?thesis by (auto simp: holders_def hs)
  qed
  have gate: "gate_of k' s' = (if gate_class k' = gate_class k then g else gate_of k' s)" for k'
    by (simp add: s')
  have 1: "handles_ok s'" using inv by (auto simp: handles_ok_def reg_inv_def s' i_def h new_handle_ok)
  have 2: "active_ok s'" using inv ni fr by (auto simp: active_ok_def reg_inv_def s' ak h)
  have 3: "gate_ok s' k'" for k'
  proof -
    have go: "gate_ok s k'" "gate_ok s k" using inv by (simp_all add: reg_inv_def)
    show ?thesis
    proof (cases "gate_class k' = gate_class k")
      case True
      with go gate_of_class [OF True, of s] have "holders s k' = holders s k" by (simp add: gate_ok_def)
      with True go g show ?thesis by (simp add: gate_ok_def hold gate)
    qed (use go in \<open>simp add: gate_ok_def hold gate\<close>)
  qed
  have 4: "drain_ok s'" using nd by (simp add: drain_ok_def s')
  show "reg_inv s'" using 1 2 3 4 by (simp add: reg_inv_def)
  show "handles_later s s'" using fr by (auto simp: handles_later_def s')
qed

lemma release_gate_ok:
  "0 < cg_held g \<Longrightarrow> cg_semaphore g + cg_held g = cg_max g \<Longrightarrow>
     release_gate g = Inr (g\<lparr>cg_held := cg_held g - 1, cg_semaphore := cg_semaphore g + 1\<rparr>)"
  by (simp add: release_gate_def)

lemma mark_terminal_sel [simp]:
  "oh_kind (mark_terminal h) = oh_kind h" "oh_op_id (mark_terminal h) = oh_op_id h"
  "oh_released (mark_terminal h) = oh_released h" "oh_cancel_reason (mark_terminal h) = oh_cancel_reason h"
  "oh_cancel_event (mark_terminal h) = oh_cancel_event h"
  by (simp_all add: mark_terminal_def)

lemma released_ok:
  assumes "handle_ok h"
  shows "handle_ok (mark_terminal (h\<lparr>oh_released := True\<rparr>))" and "later h (mark_terminal (h\<lparr>oh_released := True\<rparr>))"
  using assms by (cases "oh_kind h"; auto simp: handle_ok_def later_def handle_defs)+

text \<open>Releasing an active operation: the gate has its slot, so nothing is raised.\<close>

lemma release_inv:
  assumes inv: "reg_inv s"
  shows "\<exists>s'. release_op i s = Inr s' \<and> reg_inv s' \<and> handles_later s s' \<and> i \<notin> set (rg_active s')"
proof (cases "i \<in> set (rg_active s)")
  case False
  then have "release_op i s = Inr s"
    using inv by (auto simp: release_op_def reg_inv_def active_ok_def split: option.split)
  with inv False show ?thesis by (auto simp: handles_later_def)
next
  case True
  then obtain h where h: "rg_handles s i = Some h" "\<not> oh_released h" and ok: "handle_ok h" "oh_op_id h = i"
    using inv by (auto simp: reg_inv_def active_ok_def handles_ok_def)
  define k where "k = oh_kind h"
  define f where "f = (\<lambda>h. mark_terminal (h\<lparr>oh_released := True\<rparr>))"
  define g where "g = (gate_of k s)\<lparr>cg_held := cg_held (gate_of k s) - 1, cg_semaphore := cg_semaphore (gate_of k s) + 1\<rparr>"
  define s' where "s' = (set_gate k g (update_handle i f s))\<lparr>rg_active := filter (\<lambda>a. a \<noteq> i) (rg_active s)\<rparr>"
  have go: "gate_ok s k'" for k' using inv by (simp add: reg_inv_def)
  have dist: "distinct (rg_active s)" using inv by (simp add: reg_inv_def active_ok_def)
  have hs: "holds_slot s' k' j = holds_slot s k' j" for k' j
    using h by (auto simp: s'_def holds_slot_def f_def split: option.split)
  have hi: "holds_slot s k' i \<longleftrightarrow> gate_class k' = gate_class k" for k'
    using h by (auto simp: holds_slot_def k_def)
  have hold: "holders s k' = holders s' k' + (if gate_class k' = gate_class k then 1 else 0)" for k'
  proof -
    from True dist obtain xs ys where a: "rg_active s = xs @ i # ys" "i \<notin> set xs" "i \<notin> set ys"
      by (metis split_list distinct.simps(2) distinct_append disjoint_iff list.set_intros(1))
    then have "filter (\<lambda>a. a \<noteq> i) xs = xs" and "filter (\<lambda>a. a \<noteq> i) ys = ys" by (auto simp: filter_id_conv)
    with a have "filter (\<lambda>a. a \<noteq> i) (rg_active s) = xs @ ys" by simp
    then have "rg_active s' = xs @ ys" by (simp add: s'_def)
    then show ?thesis using a by (simp add: holders_def hs [abs_def] hi)
  qed
  have "0 < cg_held (gate_of k s)" using go [of k] hold [of k] by (simp add: gate_ok_def)
  then have "release_gate (gate_of k s) = Inr g"
    using go [of k] by (simp add: release_gate_ok g_def gate_ok_def)
  then have r: "release_op i s = Inr s'" using h by (simp add: release_op_def k_def s'_def f_def)
  have gate: "gate_of k' s' = (if gate_class k' = gate_class k then g else gate_of k' s)" for k'
    by (simp add: s'_def)
  have 1: "handles_ok s'" using inv released_ok [OF ok(1)] h ok
    by (auto simp: handles_ok_def reg_inv_def s'_def f_def)
  have 2: "active_ok s'" using inv h by (auto simp: active_ok_def reg_inv_def s'_def f_def)
  have 3: "gate_ok s' k'" for k'
  proof -
    show ?thesis using gate_of_class [of k' k s] go [of k'] go [of k] hold [of k'] \<open>0 < cg_held (gate_of k s)\<close>
      by (auto simp: gate_ok_def gate g_def)
  qed
  have 4: "drain_ok s'" using inv by (auto simp: drain_ok_def reg_inv_def s'_def f_def)
  have "handles_later s s'" using h released_ok(2) [OF ok(1)] by (auto simp: handles_later_def s'_def f_def)
  moreover have "i \<notin> set (rg_active s')" by (simp add: s'_def)
  ultimately show ?thesis using r 1 2 3 4 by (auto simp: reg_inv_def)
qed

text \<open>Steps that change only the flags and the list of handles still to be signalled.\<close>

lemma reg_frame:
  assumes "reg_inv s" and "rg_handles s' = rg_handles s" and "rg_active s' = rg_active s"
    and "\<And>k. gate_of k s' = gate_of k s" and "drain_ok s'"
  shows "reg_inv s' \<and> handles_later s s'"
proof -
  have "holders s' k = holders s k" for k using assms(2,3) by (simp add: holders_def holds_slot_def [abs_def])
  then have "gate_ok s' k = gate_ok s k" for k using assms(4) by (simp add: gate_ok_def)
  with assms show ?thesis by (simp add: reg_inv_def handles_ok_def active_ok_def handles_later_def)
qed

lemma prepare_inv: "reg_inv s \<Longrightarrow> prepare_for_start s = Inr s' \<Longrightarrow> reg_inv s' \<and> handles_later s s'"
  by (rule reg_frame) (auto simp: prepare_for_start_def drain_ok_def split: if_splits)

lemma begin_shutdown_inv: "reg_inv s \<Longrightarrow> reg_inv (begin_shutdown s) \<and> handles_later s (begin_shutdown s)"
  by (rule reg_frame) (auto simp: begin_shutdown_def drain_ok_def reg_inv_def active_ok_def)

lemma deliver_inv:
  assumes "reg_inv s"
  shows "reg_inv (deliver_shutdown i s)" and "handles_later s (deliver_shutdown i s)"
proof -
  let ?t = "update_handle i (signal_cancel SHUTDOWN) s"
  note t = owner_update [OF owner_signal assms, of i SHUTDOWN]
  have "drain_ok (deliver_shutdown i s)"
    unfolding drain_ok_def
  proof (intro impI allI)
    fix j h assume d: "rg_draining (deliver_shutdown i s)"
      and h: "rg_handles (deliver_shutdown i s) j = Some h" "\<not> oh_released h"
    show "j \<in> set (rg_pending (deliver_shutdown i s)) \<or> settled h"
    proof (cases "j = i")
      case True
      with h(1) show ?thesis using settled_shutdown by (auto simp: deliver_shutdown_def)
    next
      case False
      from t(1) have "drain_ok ?t" by (simp add: reg_inv_def)
      with d h have "j \<in> set (rg_pending ?t) \<or> settled h" by (auto simp: drain_ok_def deliver_shutdown_def)
      with False show ?thesis by (auto simp: deliver_shutdown_def)
    qed
  qed
  with reg_frame [OF t(1), of "deliver_shutdown i s"] t(2)
  show "reg_inv (deliver_shutdown i s)" and "handles_later s (deliver_shutdown i s)"
    by (simp_all add: deliver_shutdown_def handles_later_def)
qed

lemma step_inv:
  assumes "reg_step rnd s s'" and "reg_inv s"
  shows "reg_inv s' \<and> handles_later s s'"
  using assms
proof cases
  case (step_admit k uid now seconds h)
  with admit_inv [OF assms(2)] show ?thesis by blast
next
  case (step_release i)
  with release_inv [OF assms(2), of i] show ?thesis by auto
qed (use assms(2) owner_update [OF owner_signal] owner_update [OF owner_lease] owner_update [OF owner_publish]
  deliver_inv begin_shutdown_inv prepare_inv in \<open>auto simp: handle_step_ignoring\<close>)

lemma new_registry_inv:
  assumes "mk_gate q = Inr gq" "mk_gate i = Inr gi" "mk_gate g = Inr gg"
  shows "reg_inv (new_registry gq gi gg)"
proof -
  have "gate_ok (new_registry gq gi gg) k" for k
    using assms by (cases k)
      (auto simp: mk_gate_def gate_ok_def holders_def new_registry_def gate_of_def split: if_splits)
  then show ?thesis by (simp add: reg_inv_def handles_ok_def active_ok_def drain_ok_def new_registry_def)
qed

lemma reachable_inv: "reg_reachable rnd s \<Longrightarrow> reg_inv s"
  by (induction rule: reg_reachable.induct) (auto intro: new_registry_inv dest: step_inv)

lemma steps_later:
  assumes "(reg_step rnd)\<^sup>*\<^sup>* s s'" and "reg_inv s"
  shows "reg_inv s' \<and> handles_later s s'"
  using assms
proof (induction rule: rtranclp_induct)
  case (step t u)
  from step.IH [OF step.prems] step_inv [OF step.hyps(2)]
  show ?case by (meson handles_later_def later_trans)
qed (simp add: handles_later_def)

subsection \<open>Properties\<close>

text \<open>C3: Capacity never leaks. Whatever admissions, releases, cancellations, shutdowns and restarts are
  interleaved, each gate holds exactly one slot per unreleased operation of its class, never more than
  its maximum; releasing, once or again, never raises and gives the slot back; and an operation is
  admitted exactly when no drain is on and a slot of its class is free.\<close>

theorem capacity_exact:
  assumes "reg_reachable rnd s"
  shows "cg_held (gate_of k s) = holders s k \<and> holders s k \<le> cg_max (gate_of k s) \<and>
    cg_semaphore (gate_of k s) = cg_max (gate_of k s) - holders s k \<and>
    (\<exists>s'. release_op i s = Inr s' \<and> i \<notin> set (rg_active s') \<and> release_op i s' = Inr s') \<and>
    (\<exists>r. admit rnd k uid now seconds s = Inr r) = (\<not> rg_draining s \<and> holders s k < cg_max (gate_of k s))"
proof -
  from assms have inv: "reg_inv s" by (rule reachable_inv)
  then have g: "gate_ok s k" by (simp add: reg_inv_def)
  from release_inv [OF inv, of i] obtain s' where r: "release_op i s = Inr s'" "reg_inv s'" "i \<notin> set (rg_active s')"
    by blast
  then have "release_op i s' = Inr s'"
    by (auto simp: release_op_def reg_inv_def active_ok_def split: option.split)
  moreover have "(\<exists>r. admit rnd k uid now seconds s = Inr r) = (\<not> rg_draining s \<and> 0 < cg_semaphore (gate_of k s))"
    by (simp add: admit_Inr try_acquire_iff)
  ultimately show ?thesis using g r by (auto simp: gate_ok_def)
qed

definition sample_gate :: capacity_gate where
  "sample_gate = \<lparr>cg_max = 1, cg_semaphore = 1, cg_held = 0\<rparr>"

definition sample_op :: string where "sample_op = op_prefix INGEST @ ''_'' @ ''1''"

definition sample_admitted :: registry where
  "sample_admitted = (case admit (\<lambda>x. x) INGEST ''1'' 0 60 (new_registry sample_gate sample_gate sample_gate) of
     Inr (_, s) \<Rightarrow> s | Inl _ \<Rightarrow> new_registry sample_gate sample_gate sample_gate)"

definition sample_publishing :: registry where
  "sample_publishing = handle_step sample_op (enter_publication 2)
     (handle_step sample_op (complete_lease_acquire 1) sample_admitted)"

definition sample_drained :: registry where
  "sample_drained = deliver_shutdown sample_op (begin_shutdown sample_publishing)"

lemma sample_admit: "admit (\<lambda>x. x) INGEST ''1'' 0 60 (new_registry sample_gate sample_gate sample_gate) =
    Inr (new_handle (\<lambda>x. x) INGEST ''1'' 0 60, sample_admitted)"
  by (simp add: sample_admitted_def admit_def new_registry_def gate_of_def try_acquire_def sample_gate_def Let_def)

lemma sample_reach: "reg_reachable (\<lambda>x. x) sample_admitted" "reg_reachable (\<lambda>x. x) sample_publishing"
  "reg_reachable (\<lambda>x. x) (begin_shutdown sample_publishing)"
proof -
  have g: "mk_gate 1 = Inr sample_gate" by (simp add: mk_gate_def sample_gate_def)
  have "rg_handles (new_registry sample_gate sample_gate sample_gate) (op_prefix INGEST @ ''_'' @ ''1'') = None"
    by (simp add: new_registry_def)
  from reach_step [OF reach_new [OF g g g] step_admit [OF this sample_admit]]
  show a: "reg_reachable (\<lambda>x. x) sample_admitted" .
  from reach_step [OF reach_step [OF a step_lease] step_publish]
  show p: "reg_reachable (\<lambda>x. x) sample_publishing" by (simp add: sample_publishing_def)
  from reach_step [OF p step_begin_shutdown]
  show "reg_reachable (\<lambda>x. x) (begin_shutdown sample_publishing)" .
qed

lemma sample_handles: "rg_handles sample_admitted sample_op = Some (new_handle (\<lambda>x. x) INGEST ''1'' 0 60)"
  "rg_active sample_admitted = [sample_op]" "rg_pending sample_admitted = []"
  by (simp_all add: admit_sel(1-3) [OF sample_admit] sample_op_def new_registry_def add_key_def)

definition sample_control :: operation_handle where
  "sample_control = new_handle (\<lambda>x. x) INGEST ''1'' 0 60"

lemma sample_transitions:
  "complete_lease_acquire 1 sample_control = Inr (sample_control\<lparr>oh_lifecycle := Some POST_LEASE\<rparr>)"
  "enter_publication 2 (sample_control\<lparr>oh_lifecycle := Some POST_LEASE\<rparr>) =
     Inr (sample_control\<lparr>oh_lifecycle := Some PUBLICATION\<rparr>)"
  by (simp_all add: complete_lease_acquire_def enter_publication_def sample_control_def new_handle_def
    is_ingest_lifecycle_kind_def has_request_deadline_def)

lemma sample_handle: "\<exists>h. rg_handles sample_publishing sample_op = Some h \<and> oh_kind h = INGEST \<and> in_publication h"
  by (simp add: sample_publishing_def handle_step_def sample_handles sample_control_def [symmetric]
    sample_transitions in_publication_def) (simp add: sample_control_def)

theorem capacity_exact_witness:
  "reg_reachable (\<lambda>x. x) sample_admitted \<and> cg_held (gate_of MANAGED_INGEST sample_admitted) = holders sample_admitted INGEST"
proof -
  have "gate_of MANAGED_INGEST sample_admitted = gate_of INGEST sample_admitted" by (simp add: gate_of_def)
  then show ?thesis using sample_reach(1) capacity_exact [OF sample_reach(1), of INGEST] by simp
qed



text \<open>A drain stops everything but publications. When a shutdown has delivered its signals, nothing more
  is admitted, and of every active operation the next checkpoint raises, unless it is publishing, in
  which case none does.\<close>

theorem drain_stops:
  assumes "reg_reachable rnd s" and "rg_draining s" and "rg_pending s = []"
  shows "(\<exists>e. admit rnd k uid now seconds s = Inl e) \<and>
    (\<forall>i \<in> set (rg_active s). \<exists>h. rg_handles s i = Some h \<and>
       (if in_publication h then checkpoint now here h = Inr () else (\<exists>e. checkpoint now here h = Inl e)))"
proof
  show "\<exists>e. admit rnd k uid now seconds s = Inl e" using assms(2) by (simp add: admit_def raise_app_Inl)
  show "\<forall>i \<in> set (rg_active s). \<exists>h. rg_handles s i = Some h \<and>
       (if in_publication h then checkpoint now here h = Inr () else (\<exists>e. checkpoint now here h = Inl e))"
  proof
    fix i assume "i \<in> set (rg_active s)"
    with reachable_inv [OF assms(1)] assms(2,3) obtain h where h: "rg_handles s i = Some h" "\<not> oh_released h"
      and ok: "handle_ok h" and "settled h"
      by (auto simp: reg_inv_def active_ok_def handles_ok_def drain_ok_def)
    then have "\<exists>e. checkpoint now here h = Inl e" if "\<not> in_publication h"
      using that cancelled_stops [OF ok] by (auto simp: settled_def)
    with h publishing_goes_on [OF ok] show "\<exists>h. rg_handles s i = Some h \<and>
       (if in_publication h then checkpoint now here h = Inr () else (\<exists>e. checkpoint now here h = Inl e))"
      by auto
  qed
qed

theorem drain_stops_witness:
  "rg_draining sample_drained \<and> rg_active sample_drained = [sample_op] \<and>
   (\<exists>e. admit (\<lambda>x. x) QUERY ''2'' 5 30 sample_drained = Inl e)"
proof -
  have act: "rg_active sample_publishing = [sample_op]" "rg_pending sample_publishing = []"
    by (simp_all add: sample_publishing_def handle_step_def sample_handles)
  then have "reg_step (\<lambda>x. x) (begin_shutdown sample_publishing) sample_drained"
    unfolding sample_drained_def by (intro step_deliver) (simp add: begin_shutdown_def)
  with sample_reach(3) have "reg_reachable (\<lambda>x. x) sample_drained" by (rule reach_step)
  moreover have d: "rg_draining sample_drained" "rg_pending sample_drained = []" "rg_active sample_drained = [sample_op]"
    using act by (simp_all add: sample_drained_def begin_shutdown_def deliver_shutdown_def)
  ultimately show ?thesis using drain_stops [of "\<lambda>x. x" sample_drained QUERY "''2''" 5 30] by simp
qed

end
