(* ===== verification/Lexical_Scoring.thy ===== *)
theory Lexical_Scoring
  imports Py_Json
begin

section \<open>BM25 scoring (lexical/scoring.py)\<close>

text \<open>
  The Okapi scorer in its two forms: document at a time and accumulated over postings. Float operations
  round with \<open>fl\<close> after every operator, in the order of the source, and \<open>lg\<close> is \<open>math.log\<close>. A mapping
  is an association list; postings are the pairs of \<open>items()\<close> or of the iterable.
\<close>

datatype scoring_exc = Score_Value_Error string | Score_Key_Error string

definition idf :: "(pyfloat \<Rightarrow> pyfloat) \<Rightarrow> (pyfloat \<Rightarrow> pyfloat) \<Rightarrow> int \<Rightarrow> int \<Rightarrow> scoring_exc + pyfloat" where
  "idf fl lg n df =
     (if n < 0 then Inl (Score_Value_Error ''n must be >= 0'')
      else if df < 0 then Inl (Score_Value_Error ''df must be >= 0'')
      else Inr (lg (fl (1 + fl (fl (of_int (n - df) + 1 / 2) / fl (of_int df + 1 / 2))))))"

record bm25 =
  bm_k1 :: pyfloat
  bm_b :: pyfloat

definition score_term_contribution ::
    "(pyfloat \<Rightarrow> pyfloat) \<Rightarrow> bm25 \<Rightarrow> pyfloat \<Rightarrow> pyfloat \<Rightarrow> pyfloat \<Rightarrow> pyfloat \<Rightarrow> scoring_exc + pyfloat" where
  "score_term_contribution fl p tf doc_length avgdl idf_value =
     (if tf \<le> 0 then Inr 0
      else if avgdl \<le> 0 then Inl (Score_Value_Error ''avgdl must be > 0'')
      else if doc_length < 0 then Inl (Score_Value_Error ''doc_length must be >= 0'')
      else (let denominator = fl (tf + fl (bm_k1 p *
                fl (fl (1 - bm_b p) + fl (bm_b p * fl (doc_length / avgdl))))) in
        if denominator = 0 then Inr 0
        else Inr (fl (fl (idf_value * fl (tf * fl (bm_k1 p + 1))) / denominator))))"

text \<open>\<open>d.get(k, 0)\<close>\<close>

definition get0 :: "(string \<times> 'v::zero) list \<Rightarrow> string \<Rightarrow> 'v" where
  "get0 d k = (case map_of d k of Some v \<Rightarrow> v | None \<Rightarrow> 0)"

record corpus_stats =
  st_n :: int
  st_avgdl :: pyfloat
  st_dfs :: "(string \<times> int) list"

text \<open>One term of \<open>score_document\<close>; \<open>seen\<close> makes the loop run over the first occurrences.\<close>

definition document_step ::
    "(pyfloat \<Rightarrow> pyfloat) \<Rightarrow> (pyfloat \<Rightarrow> pyfloat) \<Rightarrow> bm25 \<Rightarrow> corpus_stats \<Rightarrow> (string \<times> pyfloat) list \<Rightarrow> pyfloat \<Rightarrow>
     pyfloat \<Rightarrow> string \<Rightarrow> scoring_exc + pyfloat" where
  "document_step fl lg p st term_tfs doc_length acc t =
     (let tf = get0 term_tfs t; df = get0 (st_dfs st) t in
      if tf \<le> 0 then Inr acc
      else if df \<le> 0 then Inr acc
      else bind_res (idf fl lg (st_n st) df) (\<lambda>i.
        bind_res (score_term_contribution fl p tf doc_length (st_avgdl st) i) (\<lambda>c. Inr (fl (acc + c)))))"

definition score_document ::
    "(pyfloat \<Rightarrow> pyfloat) \<Rightarrow> (pyfloat \<Rightarrow> pyfloat) \<Rightarrow> bm25 \<Rightarrow> corpus_stats \<Rightarrow> (string \<times> pyfloat) list \<Rightarrow>
     string list \<Rightarrow> pyfloat \<Rightarrow> scoring_exc + pyfloat" where
  "score_document fl lg p st term_tfs query_terms doc_length =
     fold_res (document_step fl lg p st term_tfs doc_length) 0 (first_occ query_terms)"

type_synonym scores = "(string \<times> pyfloat) list"

definition posting_step ::
    "(pyfloat \<Rightarrow> pyfloat) \<Rightarrow> bm25 \<Rightarrow> pyfloat \<Rightarrow> (string \<times> pyfloat) list \<Rightarrow> pyfloat \<Rightarrow>
     scores \<Rightarrow> string \<times> pyfloat \<Rightarrow> scoring_exc + scores" where
  "posting_step fl p avgdl doc_lengths idf_value scores posting = (case posting of (chunk_id, tf) \<Rightarrow>
     if tf \<le> 0 then Inr scores
     else (case map_of doc_lengths chunk_id of
         None \<Rightarrow> Inl (Score_Key_Error chunk_id)
       | Some doc_length \<Rightarrow>
           bind_res (score_term_contribution fl p tf doc_length avgdl idf_value) (\<lambda>contrib.
             Inr (dict_set chunk_id (fl (get0 scores chunk_id + contrib)) scores))))"

definition term_step ::
    "(pyfloat \<Rightarrow> pyfloat) \<Rightarrow> (pyfloat \<Rightarrow> pyfloat) \<Rightarrow> bm25 \<Rightarrow> corpus_stats \<Rightarrow> (string \<times> (string \<times> pyfloat) list) list \<Rightarrow>
     (string \<times> pyfloat) list \<Rightarrow> scores \<Rightarrow> string \<Rightarrow> scoring_exc + scores" where
  "term_step fl lg p st postings_by_term doc_lengths scores t =
     (let df = get0 (st_dfs st) t in
      if df \<le> 0 then Inr scores
      else (case map_of postings_by_term t of
          None \<Rightarrow> Inr scores
        | Some postings \<Rightarrow> bind_res (idf fl lg (st_n st) df) (\<lambda>i.
            fold_res (posting_step fl p (st_avgdl st) doc_lengths i) scores postings)))"

definition accumulate_scores ::
    "(pyfloat \<Rightarrow> pyfloat) \<Rightarrow> (pyfloat \<Rightarrow> pyfloat) \<Rightarrow> bm25 \<Rightarrow> corpus_stats \<Rightarrow> (string \<times> (string \<times> pyfloat) list) list \<Rightarrow>
     (string \<times> pyfloat) list \<Rightarrow> string list \<Rightarrow> scoring_exc + scores" where
  "accumulate_scores fl lg p st postings_by_term doc_lengths query_terms =
     fold_res (term_step fl lg p st postings_by_term doc_lengths) [] (first_occ query_terms)"

text \<open>\<open>BM25OkapiV1Scorer.__init__\<close>\<close>

definition mk_scorer :: "pyfloat \<Rightarrow> pyfloat \<Rightarrow> scoring_exc + bm25" where
  "mk_scorer k1 b =
     (if k1 < 0 \<or> b < 0 then Inl (Score_Value_Error ''BM25 parameters must be >= 0'')
      else Inr \<lparr>bm_k1 = k1, bm_b = b\<rparr>)"

subsection \<open>Both forms agree\<close>

text \<open>The term frequencies of one document, read off the postings.\<close>

definition tfs_of :: "(string \<times> (string \<times> pyfloat) list) list \<Rightarrow> string \<Rightarrow> (string \<times> pyfloat) list" where
  "tfs_of postings_by_term d =
     List.map_filter (\<lambda>(t, ps). map_option (\<lambda>tf. (t, tf)) (map_of ps d)) postings_by_term"

definition scores_term :: "corpus_stats \<Rightarrow> (string \<times> (string \<times> pyfloat) list) list \<Rightarrow> string \<Rightarrow> string \<Rightarrow> bool" where
  "scores_term st postings_by_term d t \<longleftrightarrow> 0 < get0 (st_dfs st) t \<and>
     (\<exists>ps tf. map_of postings_by_term t = Some ps \<and> map_of ps d = Some tf \<and> 0 < tf)"

lemma map_of_tfs:
  "distinct (map fst pbt) \<Longrightarrow> map_of (tfs_of pbt d) t = Option.bind (map_of pbt t) (\<lambda>ps. map_of ps d)"
proof (induction pbt arbitrary: t)
  case (Cons x pbt)
  obtain u ps where x: "x = (u, ps)" by (cases x)
  have "map_of pbt u = None" using Cons.prems x by (simp add: map_of_eq_None_iff)
  then have "map_of (tfs_of pbt d) u = None" using Cons by simp
  with Cons x show ?case by (cases "map_of ps d") (auto simp: tfs_of_def List.map_filter_simps)
qed (simp add: tfs_of_def List.map_filter_simps)

lemma get0_tfs:
  "distinct (map fst pbt) \<Longrightarrow> get0 (tfs_of pbt d) t =
     (case map_of pbt t of None \<Rightarrow> 0 | Some ps \<Rightarrow> get0 ps d)"
  by (simp add: get0_def map_of_tfs split: option.split)

lemma get0_dict_set [simp]: "get0 (dict_set k v d) j = (if j = k then v else get0 d j)"
  by (simp add: get0_def)

text \<open>The inner loop, seen from one document.\<close>

lemma postings_fold:
  assumes "fold_res (posting_step fl p a dls i) scores ps = Inr scores'" and "distinct (map fst ps)"
  shows "if 0 < get0 ps d
     then \<exists>dl c. map_of dls d = Some dl \<and> score_term_contribution fl p (get0 ps d) dl a i = Inr c \<and>
       map_of scores' d = Some (fl (get0 scores d + c))
     else map_of scores' d = map_of scores d"
  using assms
proof (induction ps arbitrary: scores)
  case (Cons x ps)
  obtain e tf where x: "x = (e, tf)" by (cases x)
  from Cons.prems(1) obtain t where t: "posting_step fl p a dls i scores x = Inr t"
    and r: "fold_res (posting_step fl p a dls i) t ps = Inr scores'" by (auto simp: bind_res_Inr_iff)
  have dist: "distinct (map fst ps)" and e: "map_of ps e = None"
    using Cons.prems(2) x by (auto simp: map_of_eq_None_iff)
  note IH = Cons.IH [OF r dist]
  show ?case
  proof (cases "d = e")
    case True
    with e have "get0 ps d = 0" and g: "get0 (x # ps) d = tf" by (simp_all add: get0_def x)
    with IH have "map_of scores' d = map_of t d" by simp
    with t True g show ?thesis
      by (auto simp: posting_step_def x bind_res_Inr_iff split: if_splits option.splits)
  next
    case False
    then have "get0 (x # ps) d = get0 ps d" by (simp add: get0_def x)
    moreover have "map_of t d = map_of scores d" and "get0 t d = get0 scores d"
      using t False by (auto simp: posting_step_def x bind_res_Inr_iff get0_def split: if_splits option.splits)
    ultimately show ?thesis using IH by (auto split: if_splits)
  qed
qed (simp add: get0_def)

lemma term_step_document:
  assumes "term_step fl lg p st pbt dls scores t = Inr scores'"
    and "distinct (map fst pbt)" and "\<forall>(t, ps) \<in> set pbt. distinct (map fst ps)"
  shows "if scores_term st pbt d t
     then \<exists>dl s. map_of dls d = Some dl \<and> document_step fl lg p st (tfs_of pbt d) dl (get0 scores d) t = Inr s \<and>
       map_of scores' d = Some s
     else map_of scores' d = map_of scores d \<and>
       (\<forall>dl. document_step fl lg p st (tfs_of pbt d) dl (get0 scores d) t = Inr (get0 scores d))"
proof (cases "get0 (st_dfs st) t \<le> 0")
  case True
  with assms(1) show ?thesis by (simp add: term_step_def scores_term_def document_step_def Let_def)
next
  case df: False
  show ?thesis
  proof (cases "map_of pbt t")
    case None
    with assms(1,2) df show ?thesis by (simp add: term_step_def scores_term_def document_step_def Let_def get0_tfs)
  next
    case (Some ps)
    with assms(3) have dist: "distinct (map fst ps)" by (auto dest: map_of_SomeD)
    from assms(1) df Some obtain i where i: "idf fl lg (st_n st) (get0 (st_dfs st) t) = Inr i"
      and f: "fold_res (posting_step fl p (st_avgdl st) dls i) scores ps = Inr scores'"
      by (auto simp: term_step_def Let_def bind_res_Inr_iff)
    have sc: "scores_term st pbt d t \<longleftrightarrow> 0 < get0 ps d"
      using df Some by (auto simp: scores_term_def get0_def split: option.splits)
    have tf: "get0 (tfs_of pbt d) t = get0 ps d" using assms(2) Some by (simp add: get0_tfs)
    show ?thesis using postings_fold [OF f dist, of d] df i
      by (auto simp: sc document_step_def Let_def tf split: if_splits)
  qed
qed

lemma terms_fold:
  assumes "fold_res (term_step fl lg p st pbt dls) scores ts = Inr scores'"
    and "distinct (map fst pbt)" and "\<forall>(t, ps) \<in> set pbt. distinct (map fst ps)"
  shows "(\<forall>dl. map_of dls d = Some dl \<longrightarrow>
       fold_res (document_step fl lg p st (tfs_of pbt d) dl) (get0 scores d) ts = Inr (get0 scores' d)) \<and>
     (map_of scores' d \<noteq> None \<longleftrightarrow> map_of scores d \<noteq> None \<or> (\<exists>t \<in> set ts. scores_term st pbt d t)) \<and>
     ((\<exists>t \<in> set ts. scores_term st pbt d t) \<longrightarrow> map_of dls d \<noteq> None)"
  using assms(1)
proof (induction ts arbitrary: scores)
  case (Cons t ts)
  from Cons.prems obtain u where t: "term_step fl lg p st pbt dls scores t = Inr u"
    and r: "fold_res (term_step fl lg p st pbt dls) u ts = Inr scores'" by (auto simp: bind_res_Inr_iff)
  note IH = Cons.IH [OF r] and one = term_step_document [OF t assms(2,3), of d]
  show ?case
  proof (cases "scores_term st pbt d t")
    case True
    with one obtain dl s where "map_of dls d = Some dl" "map_of u d = Some s"
      "document_step fl lg p st (tfs_of pbt d) dl (get0 scores d) t = Inr s" by auto
    moreover from this have "get0 u d = s" by (simp add: get0_def)
    ultimately show ?thesis using IH True by auto
  next
    case False
    with one have "map_of u d = map_of scores d" by simp
    moreover from this have "get0 u d = get0 scores d" by (simp add: get0_def)
    ultimately show ?thesis using IH False one by auto
  qed
qed simp

text \<open>
  The accumulated scores are the document scores: a document has a score exactly when a query term
  with a positive document frequency occurs in it, and then it is the one \<open>score_document\<close> computes
  from its own term frequencies and length, operation for operation.
\<close>

lemma accumulate_exact:
  assumes "accumulate_scores fl lg p st pbt dls qs = Inr scores"
    and "distinct (map fst pbt)" and "\<forall>(t, ps) \<in> set pbt. distinct (map fst ps)"
  shows "if \<exists>t \<in> set qs. scores_term st pbt d t
     then \<exists>dl s. map_of dls d = Some dl \<and> map_of scores d = Some s \<and>
       score_document fl lg p st (tfs_of pbt d) qs dl = Inr s
     else map_of scores d = None"
  using terms_fold [OF assms(1) [unfolded accumulate_scores_def] assms(2,3), of d]
  by (auto simp: get0_def score_document_def split: option.splits)

subsection \<open>When scoring succeeds\<close>

lemma posting_fold_total:
  assumes "0 < a" and "\<forall>(d, tf) \<in> set ps. \<exists>dl. map_of dls d = Some dl \<and> 0 \<le> dl"
  shows "\<exists>scores'. fold_res (posting_step fl p a dls i) scores ps = Inr scores'"
  using assms(2)
proof (induction ps arbitrary: scores)
  case (Cons x ps)
  obtain d tf where x: "x = (d, tf)" by (cases x)
  with Cons.prems obtain dl where "map_of dls d = Some dl" "0 \<le> dl" by auto
  then have "\<exists>t. posting_step fl p a dls i scores x = Inr t"
    using assms(1) by (auto simp: posting_step_def x score_term_contribution_def Let_def)
  with Cons show ?case by auto
qed simp

lemma accumulate_total:
  assumes "0 < st_avgdl st" and "0 \<le> st_n st"
    and "\<forall>(t, ps) \<in> set pbt. \<forall>(d, tf) \<in> set ps. \<exists>dl. map_of dls d = Some dl \<and> 0 \<le> dl"
  shows "\<exists>scores. accumulate_scores fl lg p st pbt dls qs = Inr scores"
proof -
  have step: "\<exists>s'. term_step fl lg p st pbt dls s t = Inr s'" for s t
  proof (cases "map_of pbt t")
    case (Some ps)
    with assms(3) have "\<forall>(d, tf) \<in> set ps. \<exists>dl. map_of dls d = Some dl \<and> 0 \<le> dl"
      by (auto dest!: map_of_SomeD)
    note t = posting_fold_total [OF assms(1) this]
    show ?thesis
    proof (cases "get0 (st_dfs st) t \<le> 0")
      case False
      with assms(2) obtain i where "idf fl lg (st_n st) (get0 (st_dfs st) t) = Inr i" by (auto simp: idf_def)
      with False Some t [of fl p i s] show ?thesis by (auto simp: term_step_def)
    qed (simp add: term_step_def)
  qed (simp add: term_step_def Let_def)
  have "\<exists>s'. fold_res (term_step fl lg p st pbt dls) s ts = Inr s'" for s ts
    by (induction ts arbitrary: s) (use step in \<open>auto simp: bind_res_Inr_iff, metis\<close>)
  then show ?thesis by (simp add: accumulate_scores_def)
qed

end
