(* ===== verification/Lexical_Index.thy ===== *)
theory Lexical_Index
  imports Lexical_Scoring "HOL-Library.Multiset"
begin

section \<open>The inverted index (lexical/backend.py)\<close>

text \<open>
  The three files of a published index as records, their construction from analyzed chunks, the
  integrity check, the directory of published indexes, and search. \<open>fl\<close> rounds a float division;
  integer counts are converted to floats exactly, as they are below \<open>2^53\<close>, and Python's \<open>sum\<close> of
  such floats is exact too. Further metadata entries, which nothing reads back, are kept in
  \<open>im_extra\<close>. Reading the JSON back into these types is the decoding of \<open>Unreadable\<close> or not.
\<close>

subsection \<open>Payloads\<close>

record lexical_document_input =
  ld_chunk_id :: string
  ld_terms :: "string list"
  ld_chunk_artifact_id :: "string option"
  ld_document_id :: "string option"

record document_row =
  dr_chunk_id :: string
  dr_doc_id :: int
  dr_length :: int
  dr_chunk_artifact_id :: "string option"
  dr_document_id :: "string option"

record term_payload =
  tp_df :: int
  tp_postings :: "(string \<times> int) list"

record index_metadata =
  im_schema_version :: string
  im_lexical_index_id :: string
  im_chunk_set_id :: string
  im_lexical_config_hash :: string
  im_backend_contract :: string
  im_k1 :: pyfloat
  im_b :: pyfloat
  im_n :: int
  im_avgdl :: pyfloat
  im_total_tokens :: int
  im_vocabulary_size :: int
  im_indexed_child_count :: int
  im_extra :: "(string \<times> json) list"

record stored_index =
  si_metadata :: index_metadata
  si_documents :: "document_row list"
  si_postings :: "(string \<times> term_payload) list"

datatype index_exc =
    Index_Runtime_Error string
  | Index_Value_Error string
  | Index_Key_Error string
  | Index_Scoring_Error scoring_exc

definition SCHEMA_VERSION :: string where "SCHEMA_VERSION = ''offline-rag-local-inverted-index-v1''"
definition LOCAL_INVERTED_INDEX_CONTRACT :: string where
  "LOCAL_INVERTED_INDEX_CONTRACT = ''local-inverted-index-v1''"

subsection \<open>build\<close>

definition document_row_of :: "nat \<Rightarrow> lexical_document_input \<Rightarrow> document_row" where
  "document_row_of i d = \<lparr>dr_chunk_id = ld_chunk_id d, dr_doc_id = int i, dr_length = int (length (ld_terms d)),
     dr_chunk_artifact_id = ld_chunk_artifact_id d, dr_document_id = ld_document_id d\<rparr>"

text \<open>The vocabulary in order; \<open>postings_map[term]\<close> collects the \<open>Counter\<close> entries in document order.\<close>

definition vocabulary :: "lexical_document_input list \<Rightarrow> string list" where
  "vocabulary docs = sort (remdups (concat (map ld_terms docs)))"

definition postings_of :: "string \<Rightarrow> lexical_document_input list \<Rightarrow> (string \<times> int) list" where
  "postings_of t docs = map (\<lambda>d. (ld_chunk_id d, int (count_list (ld_terms d) t)))
     (filter (\<lambda>d. t \<in> set (ld_terms d)) docs)"

definition term_payload_of :: "string \<Rightarrow> lexical_document_input list \<Rightarrow> term_payload" where
  "term_payload_of t docs = (let pairs = sort_key fst (postings_of t docs) in
     \<lparr>tp_df = int (length pairs), tp_postings = pairs\<rparr>)"

definition build_payload ::
    "(pyfloat \<Rightarrow> pyfloat) \<Rightarrow> string \<Rightarrow> lexical_document_input list \<Rightarrow> string \<Rightarrow> string \<Rightarrow> pyfloat \<Rightarrow> pyfloat \<Rightarrow>
     (string \<times> json) list \<Rightarrow> index_exc + stored_index" where
  "build_payload fl index_id docs chunk_set_id config_hash k1 b extra =
     (if docs = [] then Inl (Index_Value_Error ''cannot build lexical index with zero documents'')
      else (let ordered = sort_key ld_chunk_id docs in
        if \<not> distinct (map ld_chunk_id ordered) then
          Inl (Index_Value_Error ''duplicate chunk_id in lexical document inputs'')
        else bind_res (for_each (\<lambda>d. guard_res (ld_terms d \<noteq> [])
            (Index_Value_Error (''zero-term child cannot be indexed: '' @ ld_chunk_id d))) ordered) (\<lambda>_.
          let n = int (length ordered); total_tokens = int (sum_list (map (length \<circ> ld_terms) ordered));
              payload = map (\<lambda>t. (t, term_payload_of t ordered)) (vocabulary ordered) in
          Inr \<lparr>si_metadata = \<lparr>im_schema_version = SCHEMA_VERSION, im_lexical_index_id = index_id,
                 im_chunk_set_id = chunk_set_id, im_lexical_config_hash = config_hash,
                 im_backend_contract = LOCAL_INVERTED_INDEX_CONTRACT, im_k1 = k1, im_b = b, im_n = n,
                 im_avgdl = fl (of_int total_tokens / of_int n), im_total_tokens = total_tokens,
                 im_vocabulary_size = int (length payload), im_indexed_child_count = n, im_extra = extra\<rparr>,
               si_documents = map (\<lambda>(i, d). document_row_of i d) (enumerate 0 ordered),
               si_postings = payload\<rparr>)))"

subsection \<open>Integrity\<close>

definition value_guard :: "bool \<Rightarrow> string \<Rightarrow> index_exc + unit" where
  "value_guard b m = guard_res b (Index_Value_Error m)"

definition check_row :: "int \<times> document_row \<Rightarrow> index_exc + unit" where
  "check_row ir = (case ir of (expected, row) \<Rightarrow>
     bind_res (value_guard (dr_doc_id row = expected) ''doc_id assignment must be 0..n-1 by sorted chunk_id'') (\<lambda>_.
     value_guard (1 \<le> dr_length row) (''document length must be >= 1 for '' @ dr_chunk_id row)))"

text \<open>One posting, with the chunks seen and the previous chunk of its term.\<close>

definition check_posting ::
    "string set \<Rightarrow> string \<Rightarrow> string set \<times> string option \<Rightarrow> string \<times> int \<Rightarrow> index_exc + string set \<times> string option" where
  "check_posting known t acc posting = (case (acc, posting) of ((seen, prev), (chunk_id, tf)) \<Rightarrow>
     bind_res (value_guard (chunk_id \<in> known) (''posting references unknown chunk_id '' @ chunk_id)) (\<lambda>_.
     bind_res (value_guard (1 \<le> tf) (''tf must be >= 1 for '' @ t @ ''/'' @ chunk_id)) (\<lambda>_.
     bind_res (value_guard (chunk_id \<notin> seen) (''duplicate posting for '' @ t @ ''/'' @ chunk_id)) (\<lambda>_.
     bind_res (value_guard (\<not> (case prev of None \<Rightarrow> False | Some p \<Rightarrow> chunk_id < p))
       (''postings for '' @ t @ '' must be sorted by chunk_id'')) (\<lambda>_.
     Inr (insert chunk_id seen, Some chunk_id))))))"

definition check_term :: "string set \<Rightarrow> string \<times> term_payload \<Rightarrow> index_exc + unit" where
  "check_term known tp = (case tp of (t, payload) \<Rightarrow>
     bind_res (value_guard (tp_df payload = int (length (tp_postings payload))) (''df mismatch for term '' @ t)) (\<lambda>_.
     bind_res (fold_res (check_posting known t) ({}, None) (tp_postings payload)) (\<lambda>_. Inr ())))"

definition validate_payloads :: "(pyfloat \<Rightarrow> pyfloat) \<Rightarrow> stored_index \<Rightarrow> index_exc + unit" where
  "validate_payloads fl si =
     (let m = si_metadata si; n = im_n m; chunk_ids = map dr_chunk_id (si_documents si);
          total_tokens = sum_list (map dr_length (si_documents si)) in
      bind_res (value_guard (im_schema_version m = SCHEMA_VERSION) ''unsupported lexical index schema_version'') (\<lambda>_.
      bind_res (value_guard (im_backend_contract m = LOCAL_INVERTED_INDEX_CONTRACT) ''backend_contract mismatch'') (\<lambda>_.
      bind_res (value_guard (n = int (length (si_documents si))) ''N does not match documents length'') (\<lambda>_.
      bind_res (value_guard (im_indexed_child_count m = n) ''indexed_child_count mismatch'') (\<lambda>_.
      bind_res (value_guard (1 \<le> n) ''lexical index must contain at least one document'') (\<lambda>_.
      bind_res (value_guard (chunk_ids = sort chunk_ids) ''documents.json must be sorted by chunk_id'') (\<lambda>_.
      bind_res (value_guard (distinct chunk_ids) ''duplicate chunk_id in documents.json'') (\<lambda>_.
      bind_res (for_each check_row (zip (map int [0 ..< length (si_documents si)]) (si_documents si))) (\<lambda>_.
      bind_res (value_guard (\<bar>im_avgdl m - fl (of_int total_tokens / of_int n)\<bar> \<le> 1 / 10 ^ 9)
        ''avgdl does not match sum(dl)/N'') (\<lambda>_.
      bind_res (value_guard (im_total_tokens m = total_tokens) ''total_tokens mismatch'') (\<lambda>_.
      bind_res (value_guard (im_vocabulary_size m = int (length (si_postings si))) ''vocabulary_size mismatch'') (\<lambda>_.
      for_each (check_term (set chunk_ids)) (si_postings si)))))))))))))"

subsection \<open>The directory of indexes\<close>

text \<open>
  An index directory with its three files readable, with all three but not readable as an index, or
  with one missing. Staging and the atomic rename make \<open>build\<close> one step.
\<close>

datatype index_directory = Complete stored_index | Unreadable | Incomplete

type_synonym index_root = "string \<Rightarrow> index_directory option"

definition index_exists :: "index_root \<Rightarrow> string \<Rightarrow> bool" where
  "index_exists disk i \<longleftrightarrow> (case disk i of Some (Complete _) \<Rightarrow> True | Some Unreadable \<Rightarrow> True | _ \<Rightarrow> False)"

definition validate :: "(pyfloat \<Rightarrow> pyfloat) \<Rightarrow> index_root \<Rightarrow> string \<Rightarrow> bool" where
  "validate fl disk i \<longleftrightarrow> (case disk i of
     Some (Complete si) \<Rightarrow> validate_payloads fl si = Inr () \<and> im_lexical_index_id (si_metadata si) = i
   | _ \<Rightarrow> False)"

definition build ::
    "(pyfloat \<Rightarrow> pyfloat) \<Rightarrow> index_root \<Rightarrow> string \<Rightarrow> lexical_document_input list \<Rightarrow> string \<Rightarrow> string \<Rightarrow>
     pyfloat \<Rightarrow> pyfloat \<Rightarrow> (string \<times> json) list \<Rightarrow> index_exc + index_metadata \<times> index_root" where
  "build fl disk index_id docs chunk_set_id config_hash k1 b extra =
     (if index_exists disk index_id then
        (case disk index_id of
           Some (Complete si) \<Rightarrow> if validate fl disk index_id then Inr (si_metadata si, disk)
             else Inl (Index_Runtime_Error (''existing lexical index failed validation: '' @ index_id))
         | _ \<Rightarrow> Inl (Index_Runtime_Error (''existing lexical index failed validation: '' @ index_id)))
      else bind_res (build_payload fl index_id docs chunk_set_id config_hash k1 b extra) (\<lambda>si.
        bind_res (validate_payloads fl si) (\<lambda>_.
        if disk index_id \<noteq> None then
          Inl (Index_Runtime_Error (''lexical index destination already exists: '' @ index_id))
        else Inr (si_metadata si, disk(index_id \<mapsto> Complete si)))))"

record open_index =
  oi_index :: stored_index
  oi_scorer :: bm25

definition open_lexical :: "(pyfloat \<Rightarrow> pyfloat) \<Rightarrow> index_root \<Rightarrow> string \<Rightarrow> index_exc + open_index" where
  "open_lexical fl disk i = (case disk i of
     Some (Complete si) \<Rightarrow>
       if validate fl disk i then
         bind_res (try_map Index_Scoring_Error (mk_scorer (im_k1 (si_metadata si)) (im_b (si_metadata si)))) (\<lambda>sc.
         Inr \<lparr>oi_index = si, oi_scorer = sc\<rparr>)
       else Inl (Index_Runtime_Error (''lexical index failed validation: '' @ i))
   | _ \<Rightarrow> Inl (Index_Runtime_Error (''lexical index failed validation: '' @ i)))"

subsection \<open>search\<close>

record lexical_search_hit =
  lh_chunk_id :: string
  lh_score :: pyfloat
  lh_chunk_artifact_id :: "string option"
  lh_document_id :: "string option"
  lh_doc_id :: int

definition doc_by_chunk :: "open_index \<Rightarrow> (string \<times> document_row) list" where
  "doc_by_chunk oi = dict_by dr_chunk_id (si_documents (oi_index oi))"

definition doc_lengths :: "open_index \<Rightarrow> (string \<times> pyfloat) list" where
  "doc_lengths oi = map (\<lambda>(c, row). (c, of_int (dr_length row))) (doc_by_chunk oi)"

text \<open>What a search scores: statistics, postings and lengths.\<close>

record search_view =
  sv_stats :: corpus_stats
  sv_postings :: "(string \<times> (string \<times> pyfloat) list) list"
  sv_lengths :: "(string \<times> pyfloat) list"

definition float_postings :: "(string \<times> int) list \<Rightarrow> (string \<times> pyfloat) list" where
  "float_postings = map (\<lambda>(c, tf). (c, of_int tf))"

definition full_view :: "open_index \<Rightarrow> search_view" where
  "full_view oi = (let si = oi_index oi in
     \<lparr>sv_stats = \<lparr>st_n = im_n (si_metadata si), st_avgdl = im_avgdl (si_metadata si),
        st_dfs = map (\<lambda>(t, p). (t, tp_df p)) (si_postings si)\<rparr>,
      sv_postings = map (\<lambda>(t, p). (t, float_postings (tp_postings p))) (si_postings si),
      sv_lengths = doc_lengths oi\<rparr>)"

definition eligible_chunks :: "open_index \<Rightarrow> string set \<Rightarrow> string set" where
  "eligible_chunks oi ids = {c. \<exists>row. (c, row) \<in> set (doc_by_chunk oi) \<and>
     (case dr_document_id row of Some d \<Rightarrow> d | None \<Rightarrow> []) \<in> ids}"

definition scoped_view :: "(pyfloat \<Rightarrow> pyfloat) \<Rightarrow> open_index \<Rightarrow> string set \<Rightarrow> search_view" where
  "scoped_view fl oi eligible =
     (let lengths = filter (\<lambda>(c, _). c \<in> eligible) (doc_lengths oi); n = length lengths;
          scoped = filter (\<lambda>(_, ps). ps \<noteq> []) (map (\<lambda>(t, p).
            (t, float_postings (filter (\<lambda>(c, _). c \<in> eligible) (tp_postings p)))) (si_postings (oi_index oi))) in
      \<lparr>sv_stats = \<lparr>st_n = int n, st_avgdl = fl (sum_list (map snd lengths) / of_nat n),
         st_dfs = map (\<lambda>(t, ps). (t, int (length ps))) scoped\<rparr>,
       sv_postings = scoped, sv_lengths = lengths\<rparr>)"

definition hit_of :: "open_index \<Rightarrow> string \<times> pyfloat \<Rightarrow> index_exc + lexical_search_hit" where
  "hit_of oi cs = (case cs of (chunk_id, score) \<Rightarrow> (case map_of (doc_by_chunk oi) chunk_id of
     None \<Rightarrow> Inl (Index_Key_Error chunk_id)
   | Some row \<Rightarrow> Inr \<lparr>lh_chunk_id = chunk_id, lh_score = score,
       lh_chunk_artifact_id = dr_chunk_artifact_id row, lh_document_id = dr_document_id row,
       lh_doc_id = dr_doc_id row\<rparr>))"

definition rank_key :: "string \<times> pyfloat \<Rightarrow> pyfloat \<times> string" where
  "rank_key cs = (- snd cs, fst cs)"

definition search_over ::
    "(pyfloat \<Rightarrow> pyfloat) \<Rightarrow> (pyfloat \<Rightarrow> pyfloat) \<Rightarrow> open_index \<Rightarrow> string list \<Rightarrow> int \<Rightarrow> search_view \<Rightarrow>
     index_exc + lexical_search_hit list" where
  "search_over fl lg oi query_terms top_k v =
     bind_res (try_map Index_Scoring_Error (accumulate_scores fl lg (oi_scorer oi) (sv_stats v)
       (sv_postings v) (sv_lengths v) query_terms)) (\<lambda>scores.
     map_res (hit_of oi) (take (nat top_k) (sort_key rank_key scores)))"

definition search ::
    "(pyfloat \<Rightarrow> pyfloat) \<Rightarrow> (pyfloat \<Rightarrow> pyfloat) \<Rightarrow> open_index \<Rightarrow> string list \<Rightarrow> int \<Rightarrow> string set option \<Rightarrow>
     index_exc + lexical_search_hit list" where
  "search fl lg oi query_terms top_k document_ids =
     (if top_k < 1 then Inl (Index_Value_Error ''top_k must be >= 1'')
      else if query_terms = [] then Inr []
      else (case document_ids of
          None \<Rightarrow> search_over fl lg oi query_terms top_k (full_view oi)
        | Some ids \<Rightarrow>
            if ids = {} then Inr []
            else (let eligible = eligible_chunks oi ids in
              if eligible = {} then Inr []
              else search_over fl lg oi query_terms top_k (scoped_view fl oi eligible))))"

definition indexed_chunk_ids :: "open_index \<Rightarrow> string set" where
  "indexed_chunk_ids oi = set (map fst (doc_by_chunk oi))"

end
