(* ===== verification/Lexical_Index_Properties.thy ===== *)
theory Lexical_Index_Properties
  imports Lexical_Index
begin

section \<open>The inverted index: integrity and search\<close>

text \<open>
  What the integrity check accepts, that a freshly built index passes it, that search on an index that
  passes it ranks the matching documents by their document scores and never raises, and that a search
  restricted to some documents is the search of the index of those documents alone.
\<close>

subsection \<open>The integrity check\<close>

lemma value_guard_Inr [simp]: "value_guard b m = Inr u \<longleftrightarrow> b"
  by (simp add: value_guard_def)

lemma check_postings_iff:
  "(\<exists>r. fold_res (check_posting known t) (seen, prev) ps = Inr r) \<longleftrightarrow>
     (\<forall>(c, tf) \<in> set ps. c \<in> known \<and> 1 \<le> tf \<and> c \<notin> seen) \<and> distinct (map fst ps) \<and>
     sorted ((case prev of None \<Rightarrow> [] | Some p \<Rightarrow> [p]) @ map fst ps)"
proof (induction ps arbitrary: seen prev)
  case Nil
  then show ?case by (cases prev) simp_all
next
  case (Cons x ps)
  obtain c tf where x: "x = (c, tf)" by (cases x)
  have "(\<exists>r. fold_res (check_posting known t) (seen, prev) (x # ps) = Inr r) \<longleftrightarrow>
      c \<in> known \<and> 1 \<le> tf \<and> c \<notin> seen \<and> \<not> (case prev of None \<Rightarrow> False | Some p \<Rightarrow> c < p) \<and>
      (\<exists>r. fold_res (check_posting known t) (insert c seen, Some c) ps = Inr r)"
    by (auto simp: check_posting_def x bind_res_Inr_iff)
  also have "\<dots> \<longleftrightarrow> (\<forall>(c, tf) \<in> set (x # ps). c \<in> known \<and> 1 \<le> tf \<and> c \<notin> seen) \<and> distinct (map fst (x # ps)) \<and>
      sorted ((case prev of None \<Rightarrow> [] | Some p \<Rightarrow> [p]) @ map fst (x # ps))"
    unfolding Cons.IH x by (cases prev) (auto, force+)
  finally show ?case .
qed

definition payload_ok :: "string set \<Rightarrow> term_payload \<Rightarrow> bool" where
  "payload_ok known p \<longleftrightarrow> tp_df p = int (length (tp_postings p)) \<and>
     (\<forall>(c, tf) \<in> set (tp_postings p). c \<in> known \<and> 1 \<le> tf) \<and>
     distinct (map fst (tp_postings p)) \<and> sorted (map fst (tp_postings p))"

lemma check_term_iff: "check_term known (t, p) = Inr () \<longleftrightarrow> payload_ok known p"
  using check_postings_iff [of known t "{}" None "tp_postings p"]
  by (auto simp: check_term_def bind_res_Inr_iff payload_ok_def)

definition rows_ok :: "document_row list \<Rightarrow> bool" where
  "rows_ok rows \<longleftrightarrow> rows \<noteq> [] \<and> sorted (map dr_chunk_id rows) \<and> distinct (map dr_chunk_id rows) \<and>
     map dr_doc_id rows = map int [0 ..< length rows] \<and> (\<forall>row \<in> set rows. 1 \<le> dr_length row)"

definition metadata_ok :: "(pyfloat \<Rightarrow> pyfloat) \<Rightarrow> stored_index \<Rightarrow> bool" where
  "metadata_ok fl si \<longleftrightarrow> (let m = si_metadata si; total_tokens = sum_list (map dr_length (si_documents si)) in
     im_schema_version m = SCHEMA_VERSION \<and> im_backend_contract m = LOCAL_INVERTED_INDEX_CONTRACT \<and>
     im_n m = int (length (si_documents si)) \<and> im_indexed_child_count m = im_n m \<and>
     \<bar>im_avgdl m - fl (of_int total_tokens / of_int (im_n m))\<bar> \<le> 1 / 10 ^ 9 \<and>
     im_total_tokens m = total_tokens \<and> im_vocabulary_size m = int (length (si_postings si)))"

lemma sorted_iff_sort: "xs = sort xs \<longleftrightarrow> sorted xs"
  by (metis sorted_sort sort_key_id_if_sorted map_ident)

lemma check_rows_iff:
  "(\<forall>ir \<in> set (zip (map int [0 ..< length rows]) rows). check_row ir = Inr ()) \<longleftrightarrow>
     map dr_doc_id rows = map int [0 ..< length rows] \<and> (\<forall>row \<in> set rows. 1 \<le> dr_length row)"
proof -
  have "(\<forall>ir \<in> set (zip (map int [0 ..< length rows]) rows). check_row ir = Inr ()) \<longleftrightarrow>
      (\<forall>i < length rows. dr_doc_id (rows ! i) = int i \<and> 1 \<le> dr_length (rows ! i))"
    by (simp add: all_set_conv_all_nth check_row_def bind_res_Inr_iff)
  also have "\<dots> \<longleftrightarrow> map dr_doc_id rows = map int [0 ..< length rows] \<and> (\<forall>row \<in> set rows. 1 \<le> dr_length row)"
    by (auto simp: list_eq_iff_nth_eq [of "map dr_doc_id rows"] all_set_conv_all_nth)
  finally show ?thesis .
qed

lemma validate_payloads_iff:
  "validate_payloads fl si = Inr () \<longleftrightarrow> metadata_ok fl si \<and> rows_ok (si_documents si) \<and>
     (\<forall>(t, p) \<in> set (si_postings si). payload_ok (set (map dr_chunk_id (si_documents si))) p)"
  (is "?l \<longleftrightarrow> ?r")
proof -
  have "?l \<longleftrightarrow> metadata_ok fl si \<and> si_documents si \<noteq> [] \<and> sorted (map dr_chunk_id (si_documents si)) \<and>
      distinct (map dr_chunk_id (si_documents si)) \<and>
      (\<forall>ir \<in> set (zip (map int [0 ..< length (si_documents si)]) (si_documents si)). check_row ir = Inr ()) \<and>
      (\<forall>tp \<in> set (si_postings si). check_term (set (map dr_chunk_id (si_documents si))) tp = Inr ())"
    by (auto simp: validate_payloads_def bind_res_Inr_iff Let_def metadata_ok_def sorted_iff_sort
      Suc_le_eq)
  moreover have "(\<forall>tp \<in> set ps. check_term known tp = Inr ()) \<longleftrightarrow> (\<forall>(t, p) \<in> set ps. payload_ok known p)" for known ps
    by (intro ball_cong refl) (auto simp: check_term_iff split: prod.split)
  ultimately show ?thesis unfolding check_rows_iff by (auto simp: rows_ok_def)
qed

subsection \<open>A built index passes\<close>

text \<open>The payload of the documents in chunk order.\<close>

definition index_of ::
    "(pyfloat \<Rightarrow> pyfloat) \<Rightarrow> string \<Rightarrow> lexical_document_input list \<Rightarrow> string \<Rightarrow> string \<Rightarrow> pyfloat \<Rightarrow> pyfloat \<Rightarrow>
     (string \<times> json) list \<Rightarrow> stored_index" where
  "index_of fl index_id ordered chunk_set_id config_hash k1 b extra =
     (let n = int (length ordered); total_tokens = int (sum_list (map (length \<circ> ld_terms) ordered));
          payload = map (\<lambda>t. (t, term_payload_of t ordered)) (vocabulary ordered) in
      \<lparr>si_metadata = \<lparr>im_schema_version = SCHEMA_VERSION, im_lexical_index_id = index_id,
         im_chunk_set_id = chunk_set_id, im_lexical_config_hash = config_hash,
         im_backend_contract = LOCAL_INVERTED_INDEX_CONTRACT, im_k1 = k1, im_b = b, im_n = n,
         im_avgdl = fl (of_int total_tokens / of_int n), im_total_tokens = total_tokens,
         im_vocabulary_size = int (length payload), im_indexed_child_count = n, im_extra = extra\<rparr>,
       si_documents = map (\<lambda>(i, d). document_row_of i d) (enumerate 0 ordered), si_postings = payload\<rparr>)"

definition indexable :: "lexical_document_input list \<Rightarrow> bool" where
  "indexable docs \<longleftrightarrow> docs \<noteq> [] \<and> distinct (map ld_chunk_id docs) \<and> (\<forall>d \<in> set docs. ld_terms d \<noteq> [])"

lemma indexable_sort [simp]: "indexable (sort_key ld_chunk_id docs) = indexable docs"
proof -
  have "mset (map ld_chunk_id (sort_key ld_chunk_id docs)) = mset (map ld_chunk_id docs)" by simp
  then have "distinct (map ld_chunk_id (sort_key ld_chunk_id docs)) = distinct (map ld_chunk_id docs)"
    by (rule mset_eq_imp_distinct_iff)
  then show ?thesis by (metis indexable_def length_0_conv length_sort set_sort)
qed

lemma build_payload_iff:
  "build_payload fl i docs cs ch k1 b extra = Inr si \<longleftrightarrow>
     indexable docs \<and> si = index_of fl i (sort_key ld_chunk_id docs) cs ch k1 b extra"
proof (cases "docs = []")
  case False
  then have "indexable docs \<longleftrightarrow> distinct (map ld_chunk_id (sort_key ld_chunk_id docs)) \<and>
      (\<forall>d \<in> set (sort_key ld_chunk_id docs). ld_terms d \<noteq> [])"
    by (metis indexable_def indexable_sort length_0_conv length_sort)
  then show ?thesis using False
    by (auto simp: build_payload_def index_of_def Let_def bind_res_Inr_iff)
qed (simp add: build_payload_def indexable_def)

lemma rows_of_index:
  "map dr_chunk_id (map (\<lambda>(i, d). document_row_of i d) (enumerate k ds)) = map ld_chunk_id ds"
  "map dr_length (map (\<lambda>(i, d). document_row_of i d) (enumerate k ds)) = map (int \<circ> length \<circ> ld_terms) ds"
  "map dr_document_id (map (\<lambda>(i, d). document_row_of i d) (enumerate k ds)) = map ld_document_id ds"
  "map dr_doc_id (map (\<lambda>(i, d). document_row_of i d) (enumerate k ds)) = map int [k ..< k + length ds]"
  by (induction ds arbitrary: k)
    (simp_all add: document_row_of_def enumerate_simps(2) upt_conv_Cons del: upt_Suc)

lemma postings_sort_fst: "mset (postings_of t (sort_key ld_chunk_id ds)) = mset (postings_of t ds)"
  by (simp add: postings_of_def mset_filter filter_sort)

lemma count_list_pos: "t \<in> set xs \<Longrightarrow> Suc 0 \<le> count_list xs t"
  by (induction xs) auto

lemma payload_of_ok:
  assumes "distinct (map ld_chunk_id ds)"
  shows "payload_ok (set (map ld_chunk_id ds)) (term_payload_of t ds)"
proof -
  have f: "map fst (postings_of t ds) = map ld_chunk_id (filter (\<lambda>d. t \<in> set (ld_terms d)) ds)"
    by (simp add: postings_of_def)
  then have "distinct (map fst (postings_of t ds))" using assms by (simp add: distinct_map_filter)
  moreover have "mset (map fst (sort_key fst (postings_of t ds))) = mset (map fst (postings_of t ds))" by simp
  ultimately have "distinct (map fst (sort_key fst (postings_of t ds)))"
    using mset_eq_imp_distinct_iff by blast
  moreover have "sorted (map fst (sort_key fst (postings_of t ds)))" by simp
  moreover have "\<forall>(c, tf) \<in> set (postings_of t ds). c \<in> set (map ld_chunk_id ds) \<and> 1 \<le> tf"
    by (auto simp: postings_of_def count_list_pos)
  ultimately show ?thesis by (simp add: payload_ok_def term_payload_of_def Let_def)
qed

lemma sum_lengths: "sum_list (map (int \<circ> length \<circ> ld_terms) ds) = int (sum_list (map (length \<circ> ld_terms) ds))"
  by (induction ds) simp_all

lemma length_Suc_ge: "xs \<noteq> [] \<Longrightarrow> Suc 0 \<le> length xs"
  by (cases xs) simp_all

lemma index_of_valid:
  assumes "indexable ds" and "sorted (map ld_chunk_id ds)"
  shows "validate_payloads fl (index_of fl i ds cs ch k1 b extra) = Inr ()"
proof -
  let ?si = "index_of fl i ds cs ch k1 b extra"
  have docs: "si_documents ?si = map (\<lambda>(i, d). document_row_of i d) (enumerate 0 ds)"
    and post: "si_postings ?si = map (\<lambda>t. (t, term_payload_of t ds)) (vocabulary ds)"
    by (simp_all add: index_of_def Let_def)
  have ids: "map dr_chunk_id (si_documents ?si) = map ld_chunk_id ds" unfolding docs by (rule rows_of_index)
  have lens: "map dr_length (si_documents ?si) = map (int \<circ> length \<circ> ld_terms) ds" unfolding docs by (rule rows_of_index)
  have "map dr_doc_id (si_documents ?si) = map int [0 ..< length (si_documents ?si)]"
    unfolding docs using rows_of_index(4) [of 0 ds] by simp
  moreover have "\<forall>row \<in> set (si_documents ?si). 1 \<le> dr_length row"
  proof -
    have "dr_length ` set (si_documents ?si) = (int \<circ> length \<circ> ld_terms) ` set ds"
      using arg_cong [OF lens, of set] by (simp only: set_map)
    moreover have "\<forall>n \<in> (int \<circ> length \<circ> ld_terms) ` set ds. 1 \<le> n"
      using assms(1) by (auto simp: indexable_def length_Suc_ge)
    ultimately show ?thesis by blast
  qed
  ultimately have rows: "rows_ok (si_documents ?si)"
    using assms by (auto simp: rows_ok_def ids indexable_def docs [symmetric])
      (metis docs enumerate_simps(1) length_0_conv length_enumerate length_map)
  have meta: "metadata_ok fl ?si"
    unfolding metadata_ok_def lens sum_lengths by (simp add: index_of_def Let_def)
  show ?thesis
    unfolding validate_payloads_iff ids
    using rows meta payload_of_ok [of ds] assms(1) by (auto simp: post indexable_def)
qed

text \<open>Building never fails its own check.\<close>

lemma built_valid: "build_payload fl i docs cs ch k1 b extra = Inr si \<Longrightarrow> validate_payloads fl si = Inr ()"
  using index_of_valid [of "sort_key ld_chunk_id docs"] by (auto simp: build_payload_iff)

subsection \<open>Search\<close>

text \<open>What scoring needs of a view: dictionaries have each key once, every posting has a length.\<close>

definition view_ok :: "search_view \<Rightarrow> bool" where
  "view_ok v \<longleftrightarrow> distinct (map fst (sv_postings v)) \<and>
     (\<forall>(t, ps) \<in> set (sv_postings v). distinct (map fst ps) \<and>
        (\<forall>(c, tf) \<in> set ps. \<exists>l. map_of (sv_lengths v) c = Some l \<and> 0 \<le> l)) \<and>
     0 < st_avgdl (sv_stats v) \<and> 0 \<le> st_n (sv_stats v)"

lemma view_okI:
  assumes "distinct (map fst (sv_postings v))" and "0 < st_avgdl (sv_stats v)" and "0 \<le> st_n (sv_stats v)"
    and "\<And>t ps. (t, ps) \<in> set (sv_postings v) \<Longrightarrow> distinct (map fst ps) \<and>
      (\<forall>(c, tf) \<in> set ps. \<exists>l. map_of (sv_lengths v) c = Some l \<and> 0 \<le> l)"
  shows "view_ok v"
  using assms by (fastforce simp: view_ok_def)

definition matches :: "search_view \<Rightarrow> string list \<Rightarrow> string \<Rightarrow> bool" where
  "matches v qs c \<longleftrightarrow> (\<exists>t \<in> set qs. scores_term (sv_stats v) (sv_postings v) c t)"

text \<open>The document score of a chunk under the statistics of a view.\<close>

definition chunk_score ::
    "(pyfloat \<Rightarrow> pyfloat) \<Rightarrow> (pyfloat \<Rightarrow> pyfloat) \<Rightarrow> bm25 \<Rightarrow> search_view \<Rightarrow> string list \<Rightarrow> string \<Rightarrow> scoring_exc + pyfloat" where
  "chunk_score fl lg p v qs c =
     score_document fl lg p (sv_stats v) (tfs_of (sv_postings v) c) qs (get0 (sv_lengths v) c)"

lemma fold_res_keys:
  assumes "fold_res f s xs = Inr s'" and "distinct (map fst s)"
    and "\<And>s x s'. f s x = Inr s' \<Longrightarrow> distinct (map fst s) \<Longrightarrow> distinct (map fst s')"
  shows "distinct (map fst s')"
  using assms(1,2) by (induction xs arbitrary: s) (auto simp: bind_res_Inr_iff dest: assms(3))

lemma accumulate_distinct:
  assumes "accumulate_scores fl lg p st pbt dls qs = Inr scores"
  shows "distinct (map fst scores)"
proof -
  have one: "distinct (map fst s')" if "posting_step fl p a dls i s x = Inr s'" "distinct (map fst s)" for s x s' a i
    using that by (cases x) (auto simp: posting_step_def bind_res_Inr_iff distinct_update split: if_splits option.splits)
  have "distinct (map fst s')" if "term_step fl lg p st pbt dls s t = Inr s'" "distinct (map fst s)" for s t s'
    using that by (auto simp: term_step_def Let_def bind_res_Inr_iff split: if_splits option.splits
      intro: fold_res_keys [OF _ _ one])
  from fold_res_keys [OF assms [unfolded accumulate_scores_def] _ this] show ?thesis by simp
qed

lemma inj_rank_key: "inj rank_key"
  by (rule injI) (auto simp: rank_key_def prod_eq_iff)

lemma view_scores:
  assumes "view_ok v"
  shows "\<exists>scores. accumulate_scores fl lg p (sv_stats v) (sv_postings v) (sv_lengths v) qs = Inr scores \<and>
    distinct (map fst scores) \<and>
    (\<forall>c s. (c, s) \<in> set scores \<longleftrightarrow> matches v qs c \<and> chunk_score fl lg p v qs c = Inr s) \<and>
    (\<forall>c. matches v qs c \<longrightarrow> (\<exists>s. chunk_score fl lg p v qs c = Inr s)) \<and>
    fst ` set scores \<subseteq> set (map fst (sv_lengths v))"
proof -
  have "\<forall>(t, ps) \<in> set (sv_postings v). \<forall>(d, tf) \<in> set ps. \<exists>dl. map_of (sv_lengths v) d = Some dl \<and> 0 \<le> dl"
    and dist: "distinct (map fst (sv_postings v))" "\<forall>(t, ps) \<in> set (sv_postings v). distinct (map fst ps)"
    and pos: "0 < st_avgdl (sv_stats v)" "0 \<le> st_n (sv_stats v)"
    using assms by (auto simp: view_ok_def)
  from accumulate_total [OF pos this(1), of fl lg p qs] obtain scores where
    a: "accumulate_scores fl lg p (sv_stats v) (sv_postings v) (sv_lengths v) qs = Inr scores" by blast
  have d: "distinct (map fst scores)" using a by (rule accumulate_distinct)
  note ex = accumulate_exact [OF a dist]
  have m: "if matches v qs c then (\<exists>s. map_of scores c = Some s \<and> chunk_score fl lg p v qs c = Inr s \<and>
      c \<in> set (map fst (sv_lengths v))) else map_of scores c = None" for c
    using ex [of c] by (auto simp: matches_def [symmetric] chunk_score_def get0_def split: if_splits
      dest: map_of_SomeD) (metis fst_conv image_eqI map_of_SomeD)
  have "(c, s) \<in> set scores \<longleftrightarrow> map_of scores c = Some s" for c s using d by simp
  with m have "(c, s) \<in> set scores \<longleftrightarrow> matches v qs c \<and> chunk_score fl lg p v qs c = Inr s" for c s
    by (metis Inr_inject option.distinct(1) option.inject)
  moreover have "matches v qs c \<longrightarrow> (\<exists>s. chunk_score fl lg p v qs c = Inr s)" for c
    using m [of c] by (auto split: if_splits)
  moreover have "fst ` set scores \<subseteq> set (map fst (sv_lengths v))"
  proof
    fix c assume "c \<in> fst ` set scores"
    then have "map_of scores c \<noteq> None" by (simp add: map_of_eq_None_iff)
    with m [of c] show "c \<in> set (map fst (sv_lengths v))" by (auto split: if_splits)
  qed
  ultimately show ?thesis using a d by blast
qed

definition pair_of :: "lexical_search_hit \<Rightarrow> string \<times> pyfloat" where
  "pair_of h = (lh_chunk_id h, lh_score h)"

lemma map_res_hits:
  assumes "map_res (hit_of oi) ranked = Inr hits"
  shows "map pair_of hits = ranked" and "\<And>h. h \<in> set hits \<Longrightarrow> hit_of oi (pair_of h) = Inr h"
proof -
  from assms have l2: "list_all2 (\<lambda>x h. hit_of oi x = Inr h) ranked hits" by (simp add: map_res_Inr_iff)
  have one: "hit_of oi x = Inr h \<Longrightarrow> pair_of h = x" for x h
    by (cases x) (auto simp: hit_of_def pair_of_def split: option.splits)
  from l2 show "map pair_of hits = ranked" by (induction rule: list_all2_induct) (auto dest: one)
  from l2 show "h \<in> set hits \<Longrightarrow> hit_of oi (pair_of h) = Inr h" for h
    by (induction rule: list_all2_induct) (auto simp: one)
qed

lemma sorted_take_le:
  assumes "sorted (map f xs)" and "x \<in> set (take n xs)" and "y \<in> set xs" and "y \<notin> set (take n xs)"
  shows "f x \<le> f y"
proof -
  have "y \<in> set (drop n xs)" using assms(3,4) by (metis append_take_drop_id Un_iff set_append)
  moreover have "sorted (map f (take n xs) @ map f (drop n xs))"
    using assms(1) by (metis append_take_drop_id map_append)
  ultimately show ?thesis using assms(2) by (auto simp: sorted_append)
qed

text \<open>The ranking of a view: the best matching chunks by score, then by id.\<close>

definition ranking ::
    "(pyfloat \<Rightarrow> pyfloat) \<Rightarrow> (pyfloat \<Rightarrow> pyfloat) \<Rightarrow> bm25 \<Rightarrow> search_view \<Rightarrow> string list \<Rightarrow> nat \<Rightarrow>
     (string \<times> pyfloat) list \<Rightarrow> bool" where
  "ranking fl lg p v qs k ranked \<longleftrightarrow> length ranked \<le> k \<and> distinct (map fst ranked) \<and>
     sorted (map rank_key ranked) \<and>
     (\<forall>(c, s) \<in> set ranked. matches v qs c \<and> chunk_score fl lg p v qs c = Inr s) \<and>
     (\<forall>c. matches v qs c \<longrightarrow> c \<notin> fst ` set ranked \<longrightarrow> length ranked = k \<and>
        (\<exists>s. chunk_score fl lg p v qs c = Inr s \<and> (\<forall>x \<in> set ranked. rank_key x \<le> (- s, c))))"

lemma search_over_ranks:
  assumes "view_ok v" and "set (map fst (sv_lengths v)) \<subseteq> set (map fst (doc_by_chunk oi))"
  shows "\<exists>hits. search_over fl lg oi qs k v = Inr hits \<and>
    ranking fl lg (oi_scorer oi) v qs (nat k) (map pair_of hits) \<and>
    (\<forall>h \<in> set hits. hit_of oi (pair_of h) = Inr h)"
proof -
  from view_scores [OF assms(1), of fl lg "oi_scorer oi" qs] obtain scores where
    a: "accumulate_scores fl lg (oi_scorer oi) (sv_stats v) (sv_postings v) (sv_lengths v) qs = Inr scores"
    and d: "distinct (map fst scores)"
    and mem: "\<And>c s. (c, s) \<in> set scores \<longleftrightarrow> matches v qs c \<and> chunk_score fl lg (oi_scorer oi) v qs c = Inr s"
    and tot: "\<And>c. matches v qs c \<Longrightarrow> \<exists>s. chunk_score fl lg (oi_scorer oi) v qs c = Inr s"
    and keys: "fst ` set scores \<subseteq> set (map fst (sv_lengths v))" by blast
  define all where "all = sort_key rank_key scores"
  define ranked where "ranked = take (nat k) all"
  have srt: "sorted (map rank_key all)" by (simp add: all_def)
  have da: "distinct (map fst all)" unfolding all_def using d
    by (metis mset_map mset_sort mset_eq_imp_distinct_iff)
  have "\<exists>h. hit_of oi x = Inr h" if "x \<in> set ranked" for x
  proof -
    obtain c s where x: "x = (c, s)" by (cases x)
    from that have "x \<in> set scores" by (auto simp: ranked_def all_def dest: in_set_takeD)
    with keys assms(2) x have "c \<in> set (map fst (doc_by_chunk oi))" by force
    then obtain row where "map_of (doc_by_chunk oi) c = Some row" by (metis map_of_eq_None_iff option.exhaust set_map)
    then show ?thesis by (auto simp: hit_of_def x)
  qed
  then have "map_res (hit_of oi) ranked = Inr (map (\<lambda>x. SOME h. hit_of oi x = Inr h) ranked)"
    by (intro map_res_total) (metis (mono_tags, lifting) someI_ex)
  then obtain hits where h: "map_res (hit_of oi) ranked = Inr hits" by blast
  note hits = map_res_hits [OF h]
  have "ranking fl lg (oi_scorer oi) v qs (nat k) ranked"
    unfolding ranking_def
  proof (intro conjI allI impI)
    show "length ranked \<le> nat k" by (simp add: ranked_def)
    show "distinct (map fst ranked)" unfolding ranked_def take_map [symmetric] using da by (rule distinct_take)
    show "sorted (map rank_key ranked)" unfolding ranked_def take_map [symmetric] using srt by (rule sorted_wrt_take)
    show "\<forall>(c, s) \<in> set ranked. matches v qs c \<and> chunk_score fl lg (oi_scorer oi) v qs c = Inr s"
      using mem by (auto simp: ranked_def all_def dest!: in_set_takeD)
    fix c assume c: "matches v qs c" and nin: "c \<notin> fst ` set ranked"
    from tot [OF c] obtain s where s: "chunk_score fl lg (oi_scorer oi) v qs c = Inr s" ..
    with c mem have "(c, s) \<in> set all" by (simp add: all_def)
    moreover from nin have out: "(c, s) \<notin> set (take (nat k) all)" by (force simp: ranked_def)
    ultimately have "nat k < length all" by (metis take_all not_le_imp_less)
    then show "length ranked = nat k" by (simp add: ranked_def)
    have "\<forall>x \<in> set ranked. rank_key x \<le> rank_key (c, s)"
      using sorted_take_le [OF srt _ \<open>(c, s) \<in> set all\<close> out] by (simp add: ranked_def)
    with s show "\<exists>s. chunk_score fl lg (oi_scorer oi) v qs c = Inr s \<and> (\<forall>x \<in> set ranked. rank_key x \<le> (- s, c))"
      by (auto simp: rank_key_def)
  qed
  with h hits a show ?thesis
    unfolding search_over_def by (intro exI [of _ hits]) (simp add: ranked_def [symmetric] all_def [symmetric] try_map_def)
qed

subsection \<open>Views of a sound index\<close>

text \<open>An opened index: it passed the check, and its postings were a dictionary.\<close>

definition index_ok :: "(pyfloat \<Rightarrow> pyfloat) \<Rightarrow> open_index \<Rightarrow> bool" where
  "index_ok fl oi \<longleftrightarrow> validate_payloads fl (oi_index oi) = Inr () \<and> distinct (map fst (si_postings (oi_index oi)))"

lemma open_lexical_iff: "open_lexical fl disk i = Inr oi \<longleftrightarrow>
    disk i = Some (Complete (oi_index oi)) \<and> validate fl disk i \<and>
    mk_scorer (im_k1 (si_metadata (oi_index oi))) (im_b (si_metadata (oi_index oi))) = Inr (oi_scorer oi)"
  by (cases oi) (auto simp: open_lexical_def bind_res_Inr_iff split: option.splits index_directory.splits)

lemma index_ok_rows:
  assumes "index_ok fl oi"
  shows "doc_by_chunk oi = map (\<lambda>r. (dr_chunk_id r, r)) (si_documents (oi_index oi))"
    and "doc_lengths oi = map (\<lambda>r. (dr_chunk_id r, of_int (dr_length r))) (si_documents (oi_index oi))"
  using assms by (simp_all add: index_ok_def validate_payloads_iff rows_ok_def doc_lengths_def doc_by_chunk_def
    dict_by_distinct_map)

lemma float_postings_keys [simp]: "map fst (float_postings ps) = map fst ps"
  by (simp add: float_postings_def case_prod_beta comp_def)

lemma float_postings_set: "(c, tf) \<in> set (float_postings ps) \<Longrightarrow> c \<in> fst ` set ps"
  by (force simp: float_postings_def)

lemma lengths_at_least:
  assumes "\<forall>l \<in> set ls. (1 :: pyfloat) \<le> l"
  shows "of_nat (length ls) \<le> sum_list ls"
  using assms by (induction ls) auto

lemma mean_at_least_one:
  assumes "ls \<noteq> []" and "\<forall>l \<in> set ls. (1 :: pyfloat) \<le> l"
  shows "1 \<le> sum_list ls / of_nat (length ls)"
  using lengths_at_least [OF assms(2)] assms(1) by (simp add: le_divide_eq)

lemma of_int_sum_list: "of_int (sum_list xs) = sum_list (map of_int xs)"
  by (induction xs) simp_all

lemma full_view_ok:
  assumes ok: "index_ok fl oi" and r: "float_rounding fl"
  shows "view_ok (full_view oi)"
proof -
  let ?si = "oi_index oi" and ?rows = "si_documents (oi_index oi)"
  have v: "metadata_ok fl ?si" "rows_ok ?rows"
    and post: "\<And>t p. (t, p) \<in> set (si_postings ?si) \<Longrightarrow> payload_ok (set (map dr_chunk_id ?rows)) p"
    and keys: "distinct (map fst (si_postings ?si))"
    using ok by (auto simp: index_ok_def validate_payloads_iff)
  have len: "\<exists>l. map_of (doc_lengths oi) c = Some l \<and> 0 \<le> l" if "c \<in> dr_chunk_id ` set ?rows" for c
  proof -
    from that have "map_of (doc_lengths oi) c \<noteq> None"
      by (simp add: index_ok_rows [OF ok] map_of_eq_None_iff image_image)
    then obtain l where "map_of (doc_lengths oi) c = Some l" by blast
    moreover from this have "0 \<le> l" using v(2)
      by (auto simp: index_ok_rows [OF ok] rows_ok_def dest!: map_of_SomeD) (metis order_trans zero_le_one)
    ultimately show ?thesis by blast
  qed
  have ps: "distinct (map fst ps) \<and> (\<forall>(c, tf) \<in> set ps. \<exists>l. map_of (doc_lengths oi) c = Some l \<and> 0 \<le> l)"
    if "(t, ps) \<in> set (sv_postings (full_view oi))" for t ps
  proof -
    from that obtain p where p: "(t, p) \<in> set (si_postings ?si)" "ps = float_postings (tp_postings p)"
      by (auto simp: full_view_def Let_def)
    with post have "payload_ok (set (map dr_chunk_id ?rows)) p" by blast
    then show ?thesis using len float_postings_set unfolding p(2) payload_ok_def by fastforce
  qed
  let ?q = "of_int (sum_list (map dr_length ?rows)) / of_int (im_n (si_metadata ?si)) :: pyfloat"
  have "1 \<le> ?q"
    using mean_at_least_one [of "map (of_int \<circ> dr_length) ?rows"] v
    by (auto simp: metadata_ok_def rows_ok_def Let_def of_int_sum_list comp_def)
  then have "1 \<le> fl ?q" by (rule float_rounding_facts(3) [OF r])
  moreover have "\<bar>im_avgdl (si_metadata ?si) - fl ?q\<bar> \<le> 1 / 10 ^ 9"
    using v(1) unfolding metadata_ok_def Let_def by blast
  moreover have "(1 :: pyfloat) / 10 ^ 9 < 1" by simp
  ultimately have "0 < im_avgdl (si_metadata ?si)" by linarith
  moreover have "0 \<le> im_n (si_metadata ?si)" using v(1) by (simp add: metadata_ok_def Let_def)
  moreover have "distinct (map fst (sv_postings (full_view oi)))"
    using keys by (simp add: full_view_def Let_def comp_def case_prod_beta)
  moreover have "sv_lengths (full_view oi) = doc_lengths oi" by (simp add: full_view_def Let_def)
  ultimately show ?thesis using ps by (intro view_okI) (simp_all add: full_view_def Let_def)
qed

lemma scoped_view_ok:
  assumes ok: "index_ok fl oi" and r: "float_rounding fl" and el: "eligible = eligible_chunks oi ids" "eligible \<noteq> {}"
  shows "view_ok (scoped_view fl oi eligible)"
proof -
  let ?rows = "si_documents (oi_index oi)" and ?ls = "sv_lengths (scoped_view fl oi eligible)"
  have lengths: "?ls = filter (\<lambda>(c, _). c \<in> eligible) (doc_lengths oi)" by (simp add: scoped_view_def Let_def)
  have rows: "rows_ok ?rows" using ok by (simp add: index_ok_def validate_payloads_iff)
  have sub: "eligible \<subseteq> set (map fst (doc_lengths oi))"
    by (auto simp: el(1) eligible_chunks_def index_ok_rows [OF ok] image_iff)
  have one: "1 \<le> l" if "(c, l) \<in> set (doc_lengths oi)" for c l
    using that rows by (auto simp: index_ok_rows [OF ok] rows_ok_def)
  obtain c where "c \<in> eligible" using el(2) by blast
  moreover from this sub obtain l where "(c, l) \<in> set (doc_lengths oi)" by auto
  ultimately have "(c, l) \<in> set ?ls" by (simp add: lengths)
  then have "?ls \<noteq> []" by auto
  then have "1 \<le> sum_list (map snd ?ls) / of_nat (length (map snd ?ls))"
    by (intro mean_at_least_one) (auto simp: lengths one)
  then have "1 \<le> fl (sum_list (map snd ?ls) / of_nat (length ?ls))"
    using float_rounding_facts(3) [OF r] by (metis length_map)
  then have avg: "0 < st_avgdl (sv_stats (scoped_view fl oi eligible))"
    by (simp add: scoped_view_def Let_def)
  have dl: "distinct (map fst (doc_lengths oi))"
    using rows by (simp add: index_ok_rows [OF ok] rows_ok_def comp_def)
  have len: "\<exists>l. map_of ?ls c = Some l \<and> 0 \<le> l" if "c \<in> eligible" for c
  proof -
    from that sub obtain l where l: "(c, l) \<in> set (doc_lengths oi)" by auto
    then have "(c, l) \<in> set ?ls" using that by (simp add: lengths)
    moreover have "distinct (map fst ?ls)" unfolding lengths using dl by (rule distinct_map_filter)
    ultimately show ?thesis using one [OF l] by (intro exI [of _ l]) simp
  qed
  have ps: "distinct (map fst ps) \<and> (\<forall>(c, tf) \<in> set ps. \<exists>l. map_of ?ls c = Some l \<and> 0 \<le> l)"
    if "(t, ps) \<in> set (sv_postings (scoped_view fl oi eligible))" for t ps
  proof -
    from that obtain p where p: "(t, p) \<in> set (si_postings (oi_index oi))"
      and eq: "ps = float_postings (filter (\<lambda>(c, _). c \<in> eligible) (tp_postings p))"
      by (auto simp: scoped_view_def Let_def)
    from ok p have "distinct (map fst (tp_postings p))"
      by (auto simp: index_ok_def validate_payloads_iff payload_ok_def)
    then have "distinct (map fst ps)" by (simp add: eq distinct_map_filter)
    moreover have "c \<in> eligible" if "(c, tf) \<in> set ps" for c tf
      using float_postings_set [OF that [unfolded eq]] by auto
    ultimately show ?thesis using len by auto
  qed
  have "distinct (map fst (si_postings (oi_index oi)))" using ok by (simp add: index_ok_def)
  then have "distinct (map fst (sv_postings (scoped_view fl oi eligible)))"
    by (simp add: scoped_view_def Let_def distinct_map_filter comp_def case_prod_beta)
  moreover have "0 \<le> st_n (sv_stats (scoped_view fl oi eligible))" by (simp add: scoped_view_def Let_def)
  ultimately show ?thesis using avg ps by (intro view_okI)
qed

text \<open>The view a search with a scope uses.\<close>

definition search_view_of :: "(pyfloat \<Rightarrow> pyfloat) \<Rightarrow> open_index \<Rightarrow> string set option \<Rightarrow> search_view" where
  "search_view_of fl oi scope = (case scope of None \<Rightarrow> full_view oi
     | Some ids \<Rightarrow> scoped_view fl oi (eligible_chunks oi ids))"

definition row_document :: "open_index \<Rightarrow> string \<Rightarrow> string" where
  "row_document oi c = (case map_of (doc_by_chunk oi) c of
     Some row \<Rightarrow> (case dr_document_id row of Some d \<Rightarrow> d | None \<Rightarrow> []) | None \<Rightarrow> [])"

lemma view_keys:
  assumes "index_ok fl oi"
  shows "set (map fst (sv_lengths (full_view oi))) \<subseteq> set (map fst (doc_by_chunk oi))"
    and "set (map fst (sv_lengths (scoped_view fl oi eligible))) \<subseteq> set (map fst (doc_by_chunk oi)) \<inter> eligible"
  by (auto simp: full_view_def scoped_view_def Let_def index_ok_rows [OF assms] image_image)

lemma eligible_document:
  assumes "index_ok fl oi" and "c \<in> eligible_chunks oi ids"
  shows "row_document oi c \<in> ids"
proof -
  from assms(2) obtain row where row: "(c, row) \<in> set (doc_by_chunk oi)"
    "(case dr_document_id row of Some d \<Rightarrow> d | None \<Rightarrow> []) \<in> ids" by (auto simp: eligible_chunks_def)
  have "distinct (map fst (doc_by_chunk oi))" by (simp add: doc_by_chunk_def)
  with row(1) have "map_of (doc_by_chunk oi) c = Some row" by simp
  with row(2) show ?thesis by (simp add: row_document_def)
qed

text \<open>A match is found only where a length is known, that is among the chunks of the view.\<close>

lemma matches_length:
  assumes "view_ok v" and "matches v qs c"
  shows "c \<in> set (map fst (sv_lengths v))"
proof -
  define p :: bm25 where "p = \<lparr>bm_k1 = 0, bm_b = 0\<rparr>"
  from view_scores [OF assms(1), of id id p qs] obtain scores where
    mem: "\<And>c s. (c, s) \<in> set scores \<longleftrightarrow> matches v qs c \<and> chunk_score id id p v qs c = Inr s"
    and tot: "\<And>c. matches v qs c \<Longrightarrow> \<exists>s. chunk_score id id p v qs c = Inr s"
    and keys: "fst ` set scores \<subseteq> set (map fst (sv_lengths v))" by blast
  from tot [OF assms(2)] obtain s where "chunk_score id id p v qs c = Inr s" ..
  with assms(2) mem have "(c, s) \<in> set scores" by blast
  then have "c \<in> fst ` set scores" by force
  with keys show ?thesis by blast
qed

text \<open>
  Search never raises on a sound index and returns the ranking of its view; with a scope, of the
  statistics and postings of the documents in scope alone.
\<close>

lemma search_ranks:
  assumes ok: "index_ok fl oi" and r: "float_rounding fl" and k: "1 \<le> k" and q: "qs \<noteq> []"
  shows "\<exists>hits. search fl lg oi qs k scope = Inr hits \<and>
    (\<forall>h \<in> set hits. hit_of oi (pair_of h) = Inr h \<and>
       (case scope of None \<Rightarrow> True | Some ids \<Rightarrow> row_document oi (lh_chunk_id h) \<in> ids)) \<and>
    (if (case scope of None \<Rightarrow> True | Some ids \<Rightarrow> eligible_chunks oi ids \<noteq> {})
     then ranking fl lg (oi_scorer oi) (search_view_of fl oi scope) qs (nat k) (map pair_of hits)
     else hits = [])"
proof (cases scope)
  case None
  from search_over_ranks [OF full_view_ok [OF ok r] view_keys(1) [OF ok], of fl lg qs k] show ?thesis
    using k q None by (auto simp: search_def search_view_of_def)
next
  case (Some ids)
  show ?thesis
  proof (cases "eligible_chunks oi ids = {}")
    case True
    then show ?thesis using k q Some by (simp add: search_def)
  next
    case False
    then have ne: "ids \<noteq> {}" by (auto simp: eligible_chunks_def)
    note v = scoped_view_ok [OF ok r refl False]
    from search_over_ranks [OF v, of oi fl lg qs k] view_keys(2) [OF ok] obtain hits where
      h: "search_over fl lg oi qs k (scoped_view fl oi (eligible_chunks oi ids)) = Inr hits"
      and rk: "ranking fl lg (oi_scorer oi) (scoped_view fl oi (eligible_chunks oi ids)) qs (nat k) (map pair_of hits)"
      and rows: "\<forall>h \<in> set hits. hit_of oi (pair_of h) = Inr h" by blast
    have "lh_chunk_id h \<in> eligible_chunks oi ids" if "h \<in> set hits" for h
    proof -
      from rk that have "matches (scoped_view fl oi (eligible_chunks oi ids)) qs (lh_chunk_id h)"
        by (auto simp: ranking_def pair_of_def)
      from matches_length [OF v this] view_keys(2) [OF ok] show ?thesis by blast
    qed
    then have "row_document oi (lh_chunk_id h) \<in> ids" if "h \<in> set hits" for h
      using that eligible_document [OF ok] by blast
    with h rk rows show ?thesis using k q Some False ne by (simp add: search_def search_view_of_def)
  qed
qed

subsection \<open>A scoped search is the search of a smaller index\<close>

definition in_documents :: "string set \<Rightarrow> lexical_document_input \<Rightarrow> bool" where
  "in_documents ids d \<longleftrightarrow> (case ld_document_id d of Some x \<Rightarrow> x | None \<Rightarrow> []) \<in> ids"

text \<open>What the rows of an index keep of its documents.\<close>

lemma rows_fields:
  "map (\<lambda>r. (dr_chunk_id r, dr_length r, dr_document_id r)) (map (\<lambda>(i, d). document_row_of i d) (enumerate k ds)) =
     map (\<lambda>d. (ld_chunk_id d, int (length (ld_terms d)), ld_document_id d)) ds"
  by (induction ds arbitrary: k) (simp_all add: document_row_of_def enumerate_simps(2))

lemma row_of_member:
  "d \<in> set ds \<Longrightarrow> \<exists>j. document_row_of j d \<in> set (map (\<lambda>(i, d). document_row_of i d) (enumerate k ds))"
  by (induction ds arbitrary: k) (auto simp: enumerate_simps(2), blast+)

text \<open>An open index whose payload was built from the documents \<open>ds\<close> in chunk order.\<close>

definition built_from :: "(pyfloat \<Rightarrow> pyfloat) \<Rightarrow> lexical_document_input list \<Rightarrow> open_index \<Rightarrow> bool" where
  "built_from fl ds oi \<longleftrightarrow> indexable ds \<and> sorted (map ld_chunk_id ds) \<and>
     (\<exists>i cs ch k1 b extra. oi_index oi = index_of fl i ds cs ch k1 b extra)"

lemma built_fields:
  assumes "built_from fl ds oi"
  shows "si_documents (oi_index oi) = map (\<lambda>(i, d). document_row_of i d) (enumerate 0 ds)"
    and "si_postings (oi_index oi) = map (\<lambda>t. (t, term_payload_of t ds)) (vocabulary ds)"
    and "im_n (si_metadata (oi_index oi)) = int (length ds)"
    and "im_avgdl (si_metadata (oi_index oi)) = fl (of_int (int (sum_list (map (length \<circ> ld_terms) ds))) / of_nat (length ds))"
  using assms by (auto simp: built_from_def index_of_def Let_def)

lemma built_index_ok: "built_from fl ds oi \<Longrightarrow> index_ok fl oi"
  using index_of_valid by (fastforce simp: index_ok_def built_from_def built_fields(2) index_of_def Let_def comp_def vocabulary_def)

lemma built_lengths:
  assumes "built_from fl ds oi"
  shows "doc_lengths oi = map (\<lambda>d. (ld_chunk_id d, of_int (int (length (ld_terms d))))) ds"
proof -
  have "doc_lengths oi = map (\<lambda>(c, n, _). (c, of_int n))
      (map (\<lambda>r. (dr_chunk_id r, dr_length r, dr_document_id r)) (si_documents (oi_index oi)))"
    by (simp add: index_ok_rows [OF built_index_ok [OF assms]] comp_def)
  then show ?thesis unfolding built_fields(1) [OF assms] rows_fields by (simp add: comp_def)
qed

lemma built_eligible:
  assumes "built_from fl ds oi"
  shows "eligible_chunks oi ids = ld_chunk_id ` {d \<in> set ds. in_documents ids d}"
proof -
  have "eligible_chunks oi ids = (\<lambda>(c, n, d). c) ` {x \<in> set (map (\<lambda>r. (dr_chunk_id r, dr_length r, dr_document_id r))
      (si_documents (oi_index oi))). (case snd (snd x) of Some d \<Rightarrow> d | None \<Rightarrow> []) \<in> ids}"
    by (auto simp: eligible_chunks_def index_ok_rows [OF built_index_ok [OF assms]] image_iff) force+
  then show ?thesis unfolding built_fields(1) [OF assms] rows_fields
    by (auto simp: in_documents_def image_iff) force+
qed

lemma eligible_iff:
  "built_from fl ds oi \<Longrightarrow> d \<in> set ds \<Longrightarrow> ld_chunk_id d \<in> eligible_chunks oi ids \<longleftrightarrow> in_documents ids d"
  by (auto simp: built_eligible built_from_def indexable_def distinct_map inj_on_def)

lemma built_row:
  assumes "built_from fl ds oi" and "d \<in> set ds"
  shows "\<exists>j. map_of (doc_by_chunk oi) (ld_chunk_id d) = Some (document_row_of j d)"
proof -
  from row_of_member [OF assms(2), of 0] obtain j where
    "document_row_of j d \<in> set (si_documents (oi_index oi))" unfolding built_fields(1) [OF assms(1)] by blast
  then have "(ld_chunk_id d, document_row_of j d) \<in> set (doc_by_chunk oi)"
    by (force simp: index_ok_rows [OF built_index_ok [OF assms(1)]] document_row_of_def)
  moreover have "distinct (map fst (doc_by_chunk oi))" by (simp add: doc_by_chunk_def)
  ultimately show ?thesis by (metis map_of_is_SomeI)
qed

lemma scoped_postings:
  assumes "\<And>d. d \<in> set ds \<Longrightarrow> ld_chunk_id d \<in> el \<longleftrightarrow> in_documents ids d"
  shows "filter (\<lambda>(c, _). c \<in> el) (tp_postings (term_payload_of t ds)) =
    tp_postings (term_payload_of t (filter (in_documents ids) ds))"
proof -
  have "filter (\<lambda>(c, _). c \<in> el) (postings_of t ds) = postings_of t (filter (in_documents ids) ds)"
    using assms by (induction ds) (auto simp: postings_of_def)
  then show ?thesis by (simp add: term_payload_of_def Let_def filter_sort)
qed

lemma postings_empty_iff: "tp_postings (term_payload_of t ds) = [] \<longleftrightarrow> (\<forall>d \<in> set ds. t \<notin> set (ld_terms d))"
proof -
  have "tp_postings (term_payload_of t ds) = [] \<longleftrightarrow> postings_of t ds = []"
    by (simp add: term_payload_of_def Let_def) (metis length_0_conv length_sort)
  then show ?thesis by (auto simp: postings_of_def filter_empty_conv)
qed

lemma scoped_vocabulary:
  "vocabulary (filter P ds) = filter (\<lambda>t. tp_postings (term_payload_of t (filter P ds)) \<noteq> []) (vocabulary ds)"
  by (rule sorted_distinct_set_unique)
    (auto simp: vocabulary_def postings_empty_iff sorted_filter [of "\<lambda>x. x", simplified])

lemma float_postings_Nil [simp]: "float_postings ps = [] \<longleftrightarrow> ps = []"
  by (simp add: float_postings_def)

lemma mean_length:
  "of_int (int (sum_list (map (length \<circ> ld_terms) ds))) =
     sum_list (map snd (map (\<lambda>d. (ld_chunk_id d, of_int (int (length (ld_terms d))) :: pyfloat)) ds))"
  by (induction ds) simp_all

lemma scoped_view_is_full:
  assumes b: "built_from fl ds oi" and b': "built_from fl (filter (in_documents ids) ds) oi'"
  shows "scoped_view fl oi (eligible_chunks oi ids) = full_view oi'"
proof -
  let ?ds = "filter (in_documents ids) ds" and ?el = "eligible_chunks oi ids"
  note el = eligible_iff [OF b, of _ ids] and len' = built_lengths [OF b'] and post' = built_fields(2) [OF b']
  have len: "filter (\<lambda>(c, _). c \<in> ?el) (doc_lengths oi) = doc_lengths oi'"
    unfolding built_lengths [OF b] len' using el by (induction ds) auto
  have scoped: "filter (\<lambda>(_, ps). ps \<noteq> []) (map (\<lambda>(t, p). (t, float_postings (filter (\<lambda>(c, _). c \<in> ?el) (tp_postings p))))
      (si_postings (oi_index oi))) = map (\<lambda>(t, p). (t, float_postings (tp_postings p))) (si_postings (oi_index oi'))"
    unfolding built_fields(2) [OF b] post'
    by (simp add: scoped_postings [OF el] comp_def filter_map case_prod_beta scoped_vocabulary [of "in_documents ids" ds])
  have df: "tp_df (term_payload_of t ?ds) = int (length (tp_postings (term_payload_of t ?ds)))" for t
    by (simp add: term_payload_of_def Let_def)
  have fp: "length (float_postings ps) = length ps" for ps by (simp add: float_postings_def)
  have avg: "im_avgdl (si_metadata (oi_index oi')) =
      fl (sum_list (map snd (doc_lengths oi')) / of_nat (length (doc_lengths oi')))"
    unfolding built_fields(4) [OF b'] mean_length len' by simp
  have n: "im_n (si_metadata (oi_index oi')) = int (length (doc_lengths oi'))"
    unfolding built_fields(3) [OF b'] len' by simp
  show ?thesis
    unfolding scoped_view_def full_view_def Let_def len scoped
    by (simp add: avg n post' df fp comp_def)
qed

text \<open>Hits up to the row number, which depends on the index.\<close>

definition without_doc_id :: "lexical_search_hit \<Rightarrow> lexical_search_hit" where
  "without_doc_id h = h\<lparr>lh_doc_id := 0\<rparr>"

lemma same_hit:
  assumes "built_from fl ds oi" and "built_from fl' ds' oi'" and "d \<in> set ds" and "d \<in> set ds'"
    and "hit_of oi (ld_chunk_id d, s) = Inr h" and "hit_of oi' (ld_chunk_id d, s) = Inr h'"
  shows "without_doc_id h = without_doc_id h'"
proof -
  from built_row [OF assms(1,3)] built_row [OF assms(2,4)] obtain j j' where
    "map_of (doc_by_chunk oi) (ld_chunk_id d) = Some (document_row_of j d)"
    "map_of (doc_by_chunk oi') (ld_chunk_id d) = Some (document_row_of j' d)" by blast
  with assms(5,6) show ?thesis by (auto simp: hit_of_def without_doc_id_def document_row_of_def)
qed

lemma search_over_hits:
  assumes "view_ok v" and "set (map fst (sv_lengths v)) \<subseteq> set (map fst (doc_by_chunk oi))"
    and "accumulate_scores fl lg (oi_scorer oi) (sv_stats v) (sv_postings v) (sv_lengths v) qs = Inr scores"
  shows "\<exists>hits. search_over fl lg oi qs k v = Inr hits \<and>
    list_all2 (\<lambda>x h. hit_of oi x = Inr h) (take (nat k) (sort_key rank_key scores)) hits"
  using search_over_ranks [OF assms(1,2), of fl lg qs k] assms(3)
  by (auto simp: search_over_def try_map_def map_res_Inr_iff)

lemma scoped_search_eq:
  assumes b: "built_from fl ds oi" and b': "built_from fl (filter (in_documents ids) ds) oi'"
    and sc: "oi_scorer oi = oi_scorer oi'" and r: "float_rounding fl" and k: "1 \<le> k"
  shows "\<exists>hits hits'. search fl lg oi qs k (Some ids) = Inr hits \<and> search fl lg oi' qs k None = Inr hits' \<and>
    map without_doc_id hits = map without_doc_id hits'"
proof (cases "qs = []")
  case True
  then show ?thesis using k by (simp add: search_def)
next
  case False
  let ?ds = "filter (in_documents ids) ds" and ?v = "full_view oi'"
  note ok = built_index_ok [OF b] and ok' = built_index_ok [OF b'] and same = scoped_view_is_full [OF b b']
  have vk: "view_ok ?v" using ok' r by (rule full_view_ok)
  have keys: "set (map fst (sv_lengths ?v)) = ld_chunk_id ` set ?ds"
    by (simp add: full_view_def Let_def built_lengths [OF b'] image_image)
  have "?ds \<noteq> []" using b' by (simp add: built_from_def indexable_def)
  then have el: "eligible_chunks oi ids \<noteq> {}" by (auto simp: built_eligible [OF b] filter_empty_conv)
  then have "ids \<noteq> {}" by (auto simp: eligible_chunks_def)
  with el have s1: "search fl lg oi qs k (Some ids) = search_over fl lg oi qs k ?v"
    using k False same by (simp add: search_def)
  have s2: "search fl lg oi' qs k None = search_over fl lg oi' qs k ?v" using k False by (simp add: search_def)
  from view_scores [OF vk, of fl lg "oi_scorer oi" qs] obtain scores where
    a: "accumulate_scores fl lg (oi_scorer oi) (sv_stats ?v) (sv_postings ?v) (sv_lengths ?v) qs = Inr scores"
    and sub: "fst ` set scores \<subseteq> set (map fst (sv_lengths ?v))" by blast
  define ranked where "ranked = take (nat k) (sort_key rank_key scores)"
  have k1: "set (map fst (sv_lengths ?v)) \<subseteq> set (map fst (doc_by_chunk oi))"
    using view_keys(2) [OF ok, of "eligible_chunks oi ids"] same by auto
  from search_over_hits [OF vk k1 a, of k] obtain hits where h: "search_over fl lg oi qs k ?v = Inr hits"
    "list_all2 (\<lambda>x h. hit_of oi x = Inr h) ranked hits" by (auto simp: ranked_def)
  from search_over_hits [OF vk view_keys(1) [OF ok'] a [unfolded sc], of k] obtain hits' where
    h': "search_over fl lg oi' qs k ?v = Inr hits'"
    "list_all2 (\<lambda>x h. hit_of oi' x = Inr h) ranked hits'" by (auto simp: ranked_def)
  have member: "\<exists>d \<in> set ?ds. fst x = ld_chunk_id d" if "x \<in> set ranked" for x
  proof -
    from that have "fst x \<in> fst ` set scores" by (auto simp: ranked_def dest: in_set_takeD)
    with sub keys show ?thesis by blast
  qed
  have "map without_doc_id hits = map without_doc_id hits'"
  proof (rule nth_equalityI)
    show len: "length (map without_doc_id hits) = length (map without_doc_id hits')"
      using h(2) h'(2) by (metis length_map list_all2_lengthD)
    fix n assume "n < length (map without_doc_id hits)"
    then have n: "n < length hits" "n < length hits'" "n < length ranked"
      using len list_all2_lengthD [OF h(2)] by simp_all
    obtain c s where x: "ranked ! n = (c, s)" by (cases "ranked ! n")
    with member [OF nth_mem [OF n(3)]] obtain d where d: "d \<in> set ?ds" "c = ld_chunk_id d" by auto
    have "hit_of oi (c, s) = Inr (hits ! n)" and "hit_of oi' (c, s) = Inr (hits' ! n)"
      using list_all2_nthD [OF h(2) n(3)] list_all2_nthD [OF h'(2) n(3)] x by simp_all
    with same_hit [OF b b' _ d(1)] d have "without_doc_id (hits ! n) = without_doc_id (hits' ! n)" by simp
    with n show "map without_doc_id hits ! n = map without_doc_id hits' ! n" by simp
  qed
  with h(1) h'(1) s1 s2 show ?thesis by auto
qed

lemma built_payload_from:
  "build_payload fl i docs cs ch k1 b extra = Inr (oi_index oi) \<Longrightarrow> built_from fl (sort_key ld_chunk_id docs) oi"
  by (auto simp: build_payload_iff built_from_def) blast

lemma vocabulary_postings:
  "(\<exists>p. (t, p) \<in> set (map (\<lambda>t. (t, term_payload_of t (sort_key ld_chunk_id docs))) (vocabulary (sort_key ld_chunk_id docs))) \<and>
      (c, tf) \<in> set (tp_postings p)) \<longleftrightarrow>
   (\<exists>d \<in> set docs. c = ld_chunk_id d \<and> t \<in> set (ld_terms d) \<and> tf = int (count_list (ld_terms d) t))"
  (is "?l = ?r")
proof -
  have "?l \<longleftrightarrow> t \<in> set (vocabulary (sort_key ld_chunk_id docs)) \<and>
      (c, tf) \<in> set (postings_of t (sort_key ld_chunk_id docs))"
    by (auto simp: term_payload_of_def Let_def)
  also have "\<dots> \<longleftrightarrow> ?r" by (auto simp: postings_of_def vocabulary_def)
  finally show ?thesis .
qed

subsection \<open>Properties\<close>


definition sample_inputs :: "lexical_document_input list" where
  "sample_inputs =
     [\<lparr>ld_chunk_id = ''c2'', ld_terms = [''leave'', ''policy''], ld_chunk_artifact_id = Some ''a2'',
       ld_document_id = Some ''doc-2''\<rparr>,
      \<lparr>ld_chunk_id = ''c1'', ld_terms = [''annual'', ''leave'', ''leave''], ld_chunk_artifact_id = Some ''a1'',
       ld_document_id = Some ''doc-1''\<rparr>]"

lemma sample_indexable: "indexable sample_inputs"
  by (simp add: indexable_def sample_inputs_def)


text \<open>C8: Lexical search on an opened index never raises and is exact: within the top k it returns, by
  falling BM25 score and rising chunk id, chunks that contain a query term, each with the score
  \<open>score_document\<close> gives its own term frequencies and length under the statistics of the search; a
  matching chunk is left out only when k others rank before it. With a document scope only chunks of
  documents in scope are returned.\<close>

theorem lexical_search_exact:
  assumes "open_lexical fl disk i = Inr oi" and "distinct (map fst (si_postings (oi_index oi)))"
    and "float_rounding fl" and "1 \<le> k" and "qs \<noteq> []"
  shows "\<exists>hits. search fl lg oi qs k scope = Inr hits \<and>
    (\<forall>h \<in> set hits. hit_of oi (pair_of h) = Inr h \<and>
       (case scope of None \<Rightarrow> True | Some ids \<Rightarrow> row_document oi (lh_chunk_id h) \<in> ids)) \<and>
    (if (case scope of None \<Rightarrow> True | Some ids \<Rightarrow> eligible_chunks oi ids \<noteq> {})
     then ranking fl lg (oi_scorer oi) (search_view_of fl oi scope) qs (nat k) (map pair_of hits)
     else hits = [])"
proof -
  have "index_ok fl oi" using assms(1,2) by (auto simp: open_lexical_iff index_ok_def validate_def)
  then show ?thesis using assms(3-5) by (rule search_ranks)
qed

definition sample_root :: index_root where
  "sample_root = [''lex-1'' \<mapsto> Complete (index_of id ''lex-1'' (sort_key ld_chunk_id sample_inputs)
     ''cs-1'' ''cfg'' (6 / 5) (3 / 4) [])]"

definition sample_open :: open_index where
  "sample_open = \<lparr>oi_index = index_of id ''lex-1'' (sort_key ld_chunk_id sample_inputs) ''cs-1'' ''cfg'' (6 / 5) (3 / 4) [],
     oi_scorer = \<lparr>bm_k1 = 6 / 5, bm_b = 3 / 4\<rparr>\<rparr>"

lemma sample_payload: "build_payload id ''lex-1'' sample_inputs ''cs-1'' ''cfg'' (6 / 5) (3 / 4) [] = Inr (oi_index sample_open)"
  by (simp add: build_payload_iff sample_indexable sample_open_def)

lemma sample_opens: "open_lexical id sample_root ''lex-1'' = Inr sample_open"
  using built_valid [OF sample_payload]
  by (simp add: open_lexical_iff validate_def) (simp add: sample_root_def sample_open_def mk_scorer_def index_of_def Let_def)

lemma id_rounding: "float_rounding id"
  by (simp add: float_rounding_def mono_def)

theorem lexical_search_exact_witness:
  "\<exists>hits. search id id sample_open [''annual'', ''leave''] 5 (Some {''doc-1''}) = Inr hits \<and>
     (\<forall>h \<in> set hits. row_document sample_open (lh_chunk_id h) \<in> {''doc-1''})"
proof -
  have "index_ok id sample_open" by (rule built_index_ok [OF built_payload_from [OF sample_payload]])
  then have "distinct (map fst (si_postings (oi_index sample_open)))" by (simp add: index_ok_def)
  from lexical_search_exact [OF sample_opens this id_rounding, of 5 "[''annual'', ''leave'']" id "Some {''doc-1''}"]
  show ?thesis by auto
qed

text \<open>Scoping a search is the same as searching a smaller index. On an index built from some chunks, a
  search restricted to a set of documents returns the hits, with the same scores and order, of an
  unrestricted search on the index built from the chunks of those documents alone; nothing when there
  are none. Frequencies and lengths outside the scope have no influence.\<close>

theorem scoped_search_subindex:
  assumes "build_payload fl i docs cs ch k1 b extra = Inr si" and "float_rounding fl" and "1 \<le> k"
  shows "case build_payload fl i' (filter (in_documents ids) docs) cs' ch' k1' b' extra' of
      Inl _ \<Rightarrow> search fl lg \<lparr>oi_index = si, oi_scorer = sc\<rparr> qs k (Some ids) = Inr []
    | Inr si' \<Rightarrow> \<exists>hits hits'. search fl lg \<lparr>oi_index = si, oi_scorer = sc\<rparr> qs k (Some ids) = Inr hits \<and>
        search fl lg \<lparr>oi_index = si', oi_scorer = sc\<rparr> qs k None = Inr hits' \<and>
        map without_doc_id hits = map without_doc_id hits'"
proof -
  let ?oi = "\<lparr>oi_index = si, oi_scorer = sc\<rparr>" and ?docs = "filter (in_documents ids) docs"
  have b: "built_from fl (sort_key ld_chunk_id docs) ?oi" by (rule built_payload_from) (use assms(1) in simp)
  have idx: "indexable docs" using assms(1) by (simp add: build_payload_iff)
  show ?thesis
  proof (cases "build_payload fl i' ?docs cs' ch' k1' b' extra'")
    case (Inl e)
    then have "\<not> indexable ?docs" using build_payload_iff by (metis sum.distinct(1))
    with idx have "?docs = []" by (auto simp: indexable_def distinct_map_filter)
    then have "eligible_chunks ?oi ids = {}" by (auto simp: built_eligible [OF b] filter_empty_conv)
    with Inl show ?thesis using assms(3) by (simp add: search_def)
  next
    case (Inr si')
    have "built_from fl (sort_key ld_chunk_id ?docs) \<lparr>oi_index = si', oi_scorer = sc\<rparr>"
      by (rule built_payload_from) (use Inr in simp)
    then have "built_from fl (filter (in_documents ids) (sort_key ld_chunk_id docs)) \<lparr>oi_index = si', oi_scorer = sc\<rparr>"
      by (simp add: filter_sort)
    from scoped_search_eq [OF b this _ assms(2,3)] Inr show ?thesis by simp
  qed
qed

theorem scoped_search_subindex_witness:
  "\<exists>hits. search id id sample_open [''leave''] 3 (Some {''doc-3''}) = Inr hits \<and> hits = []"
proof -
  have "filter (in_documents {''doc-3''}) sample_inputs = []" by (simp add: sample_inputs_def in_documents_def)
  then have "build_payload id [] (filter (in_documents {''doc-3''}) sample_inputs) [] [] 0 0 [] =
      Inl (Index_Value_Error ''cannot build lexical index with zero documents'')" by (simp add: build_payload_def)
  then have "search id id \<lparr>oi_index = oi_index sample_open, oi_scorer = oi_scorer sample_open\<rparr> [''leave''] 3
      (Some {''doc-3''}) = Inr []"
    using scoped_search_subindex [OF sample_payload id_rounding, where k = 3 and i' = "[]" and ids = "{''doc-3''}"
      and cs' = "[]" and ch' = "[]" and k1' = 0 and b' = 0 and extra' = "[]" and lg = id
      and sc = "oi_scorer sample_open" and qs = "[''leave'']"] by simp
  moreover have "\<lparr>oi_index = oi_index sample_open, oi_scorer = oi_scorer sample_open\<rparr> = sample_open"
    by (rule open_index.equality) simp_all
  ultimately have "search id id sample_open [''leave''] 3 (Some {''doc-3''}) = Inr []" by (simp only:)
  then show ?thesis by simp
qed

end
