(* ===== verification/Text_Splitting.thy ===== *)
theory Text_Splitting
  imports Clip "HOL-Library.Sublist"
begin

section \<open>Splitting oversized text (chunking/structure_aware.py)\<close>

text \<open>
  The three splitters of the chunker: running text by sentences, lines or words, tables by rows
  with the header repeated, code and lists by lines; with \<open>str.splitlines\<close> and the sentence
  pattern \<open>(?<=[.!?])\s+\<close>. The lemmas show that no word is lost, and when a part can exceed the limit.
\<close>

subsection \<open>Lines and sentences\<close>

text \<open>The line boundaries of \<open>str.splitlines\<close> below code point 256, CR LF being one.\<close>

definition is_linebreak :: "char \<Rightarrow> bool" where
  "is_linebreak c \<longleftrightarrow> (let n = (of_char c :: nat) in (10 \<le> n \<and> n \<le> 13) \<or> (28 \<le> n \<and> n \<le> 30) \<or> n = 133)"

fun lines_from :: "string \<Rightarrow> string \<Rightarrow> string list" where
  "lines_from cur [] = (if cur = [] then [] else [cur])"
| "lines_from cur [c] = (if is_linebreak c then [cur] else [cur @ [c]])"
| "lines_from cur (c # d # cs) =
     (if c = CHR 0x0D \<and> d = CHR 0x0A then cur # lines_from [] cs
      else if is_linebreak c then cur # lines_from [] (d # cs)
      else lines_from (cur @ [c]) (d # cs))"

definition splitlines :: "string \<Rightarrow> string list" where
  "splitlines s = lines_from [] s"

text \<open>
  \<open>_SENTENCE_SPLIT.split(text)\<close>: \<open>prev\<close> is the character before, \<open>cur\<close> the piece so far. A match
  takes the whole run of white space, so the next one cannot start before the run ends.
\<close>

definition ends_sentence :: "char \<Rightarrow> bool" where
  "ends_sentence c \<longleftrightarrow> c \<in> {CHR ''.'', CHR ''!'', CHR ''?''}"

function sentences_from :: "bool \<Rightarrow> string \<Rightarrow> string \<Rightarrow> string list" where
  "sentences_from after_end cur [] = [cur]"
| "sentences_from after_end cur (c # cs) =
     (if after_end \<and> py_isspace c then cur # sentences_from False [] (dropWhile py_isspace cs)
      else sentences_from (ends_sentence c) (cur @ [c]) cs)"
  by pat_completeness auto
termination
  by (relation "measure (\<lambda>(_, _, cs). length cs)") (auto simp: le_imp_less_Suc length_dropWhile_le)

definition sentence_split :: "string \<Rightarrow> string list" where
  "sentence_split s = sentences_from False [] s"

subsection \<open>The splitters\<close>

definition newline :: string where "newline = [CHR 0x0A]"
definition blank :: string where "blank = '' ''"

text \<open>
  The loops fill \<open>current\<close> and put it out when the next item would not fit; \<open>enough\<close> is the length
  \<open>current\<close> must exceed to be put out (1 for a table, whose header stays, else 0), and \<open>restart\<close>
  what a new part begins with.
\<close>

definition pack_step ::
    "token_counter \<Rightarrow> nat \<Rightarrow> string \<Rightarrow> nat \<Rightarrow> string list \<Rightarrow> string list \<times> string list \<Rightarrow> string \<Rightarrow>
     string list \<times> string list" where
  "pack_step cnt max_tokens sep enough restart st item = (case st of (current, chunks) \<Rightarrow>
     if enough < length current \<and> max_tokens < cnt (join sep (current @ [item])) then
       (restart @ [item], chunks @ [join sep current])
     else (current @ [item], chunks))"

definition pack_flush :: "string \<Rightarrow> string list \<times> string list \<Rightarrow> string list" where
  "pack_flush sep st = (case st of (current, chunks) \<Rightarrow>
     if current = [] then chunks else chunks @ [join sep current])"

definition pack ::
    "token_counter \<Rightarrow> nat \<Rightarrow> string \<Rightarrow> string list \<Rightarrow> string list \<Rightarrow> string list" where
  "pack cnt max_tokens sep restart items =
     pack_flush sep (foldl (pack_step cnt max_tokens sep (length restart) restart) (restart, []) items)"

definition strip_parts :: "string list \<Rightarrow> string list" where
  "strip_parts parts = map py_strip (filter (\<lambda>p. py_strip p \<noteq> []) parts)"

definition split_pieces :: "string \<Rightarrow> string list" where
  "split_pieces text = (let sentences = strip_parts (sentence_split text) in
     if length sentences \<le> 1 then
       (let lines = strip_parts (splitlines text) in if lines = [] then [text] else lines)
     else sentences)"

definition split_text_units :: "string \<Rightarrow> token_counter \<Rightarrow> nat \<Rightarrow> string list" where
  "split_text_units text cnt max_tokens =
     (if cnt text \<le> max_tokens then [text]
      else (let units = concat (map (\<lambda>s. if cnt s \<le> max_tokens then [s]
              else pack cnt max_tokens blank [] (py_split s)) (split_pieces text)) in
        if units = [] then [text] else units))"

definition split_table_text :: "string \<Rightarrow> token_counter \<Rightarrow> nat \<Rightarrow> string list" where
  "split_table_text text cnt max_tokens = (case splitlines text of
     [] \<Rightarrow> [text]
   | header # body \<Rightarrow> if body = [] then [text] else pack cnt max_tokens newline [header] body)"

definition split_code_or_list :: "string \<Rightarrow> token_counter \<Rightarrow> nat \<Rightarrow> string list" where
  "split_code_or_list text cnt max_tokens =
     pack cnt max_tokens newline [] (let lines = splitlines text in if lines = [] then [text] else lines)"

subsection \<open>Words\<close>

text \<open>\<open>py_split\<close> in one pass; the words of a text are the words of its parts around white space.\<close>

fun words_from :: "string \<Rightarrow> string \<Rightarrow> string list" where
  "words_from cur [] = (if cur = [] then [] else [cur])"
| "words_from cur (c # cs) =
     (if py_isspace c then (if cur = [] then [] else [cur]) @ words_from [] cs
      else words_from (cur @ [c]) cs)"

named_theorems word_simps \<open>the words of composed texts\<close>

lemma words_from_word: "\<forall>c \<in> set w. \<not> py_isspace c \<Longrightarrow> words_from cur (w @ r) = words_from (cur @ w) r"
  by (induction w arbitrary: cur) auto

lemma words_from_spaces: "words_from [] (dropWhile py_isspace s) = words_from [] s"
  by (induction s) auto

lemma words_from_rest: "cur \<noteq> [] \<Longrightarrow>
    words_from cur (dropWhile (\<lambda>x. \<not> py_isspace x) r) =
    cur # words_from [] (dropWhile (\<lambda>x. \<not> py_isspace x) r)"
  by (induction r) auto

lemma py_split_from: "py_split s = words_from [] s"
proof (induction s rule: py_split.induct)
  case (1 s)
  show ?case
  proof (cases "dropWhile py_isspace s")
    case Nil
    then have "py_split s = []" by (subst py_split.simps) (simp only: Nil list.case)
    moreover have "words_from [] s = []" using words_from_spaces [of s] by (simp add: Nil)
    ultimately show ?thesis by simp
  next
    case (Cons c cs)
    let ?w = "takeWhile (\<lambda>x. \<not> py_isspace x) (c # cs)"
    let ?r = "dropWhile (\<lambda>x. \<not> py_isspace x) (c # cs)"
    have c: "\<not> py_isspace c" by (metis Cons hd_dropWhile list.sel(1) list.distinct(1))
    then have w: "?w \<noteq> []" by simp
    have "words_from [] s = words_from [] (?w @ ?r)"
      using words_from_spaces [of s] by (simp only: Cons takeWhile_dropWhile_id)
    also have "\<dots> = words_from ?w ?r"
      by (subst words_from_word) (auto dest: set_takeWhileD simp del: takeWhile.simps dropWhile.simps)
    also have "\<dots> = ?w # words_from [] ?r" by (rule words_from_rest [OF w])
    also have "\<dots> = ?w # py_split ?r" using 1 [OF Cons] by (simp only:)
    also have "\<dots> = py_split s" by (subst (2) py_split.simps) (simp only: Cons list.case)
    finally show ?thesis ..
  qed
qed

lemma words_from_append_space:
  "py_isspace c \<Longrightarrow> words_from cur (a @ c # b) = words_from cur a @ words_from [] b"
  by (induction a arbitrary: cur) auto

lemma words_Nil [word_simps]: "py_split [] = []"
  by (simp add: py_split_from)

lemma words_at_space [word_simps]: "py_isspace c \<Longrightarrow> py_split (a @ c # b) = py_split a @ py_split b"
  by (simp add: py_split_from words_from_append_space)

lemma words_space [word_simps]: "py_isspace c \<Longrightarrow> py_split (c # b) = py_split b"
  using words_at_space [of c "[]" b] by (simp add: words_Nil)

lemma words_drop_spaces [word_simps]: "py_split (dropWhile py_isspace s) = py_split s"
  by (simp add: py_split_from words_from_spaces)

lemma words_append_spaces: "\<forall>c \<in> set w. py_isspace c \<Longrightarrow> py_split (s @ w) = py_split s"
proof (induction w arbitrary: s)
  case (Cons c w)
  then have "py_split w = []" using Cons.IH [of "[]"] by (simp add: words_Nil)
  with Cons.prems show ?case by (simp add: words_at_space)
qed simp

lemma words_strip [word_simps]: "py_split (py_strip s) = py_split s"
proof -
  let ?w = "rev (takeWhile py_isspace (rev (dropWhile py_isspace s)))"
  have "py_strip s @ ?w = dropWhile py_isspace s" unfolding py_strip_def by (rule strip_by_prefix)
  moreover have "py_split (py_strip s @ ?w) = py_split (py_strip s)"
    by (rule words_append_spaces) (auto dest: set_takeWhileD)
  ultimately show ?thesis by (metis words_drop_spaces)
qed

lemma words_trim [word_simps]: "py_split (trim s) = py_split s"
proof -
  let ?w = "rev (takeWhile uni_isspace (rev (dropWhile uni_isspace s)))"
  have "trim s @ ?w = dropWhile uni_isspace s" unfolding trim_def by (rule strip_by_prefix)
  moreover have "py_split (trim s @ ?w) = py_split (trim s)"
    by (rule words_append_spaces) (auto dest: set_takeWhileD uni_py_isspace)
  moreover have "py_split (dropWhile uni_isspace s) = py_split s"
    by (induction s) (auto simp: words_space uni_py_isspace)
  ultimately show ?thesis by metis
qed

lemma words_eq_Nil: "py_split s = [] \<longleftrightarrow> \<not> nonblank s"
proof -
  have "words_from cur s = [] \<longleftrightarrow> cur = [] \<and> (\<forall>c \<in> set s. py_isspace c)" for cur
    by (induction s arbitrary: cur) auto
  then show ?thesis by (simp add: py_split_from nonblank_iff)
qed

lemma words_blank: "py_strip s = [] \<Longrightarrow> py_split s = []"
  by (simp add: words_eq_Nil nonblank_def)

lemma words_no_space:
  "w \<in> set (words_from cur s) \<Longrightarrow> \<forall>c \<in> set cur. \<not> py_isspace c \<Longrightarrow> \<forall>c \<in> set w. \<not> py_isspace c"
proof (induction s arbitrary: cur)
  case (Cons a s)
  show ?case
  proof (cases "py_isspace a")
    case True
    with Cons.prems have "w = cur \<or> w \<in> set (words_from [] s)" by (auto split: if_splits)
    with Cons.prems Cons.IH [of "[]"] show ?thesis by auto
  next
    case False
    with Cons.prems Cons.IH [of "cur @ [a]"] show ?thesis by simp
  qed
qed (simp split: if_splits)

lemma word_of_word: "w \<in> set (py_split s) \<Longrightarrow> py_split w = [w]"
proof -
  assume w: "w \<in> set (py_split s)"
  then have "\<forall>c \<in> set w. \<not> py_isspace c" unfolding py_split_from by (rule words_no_space) simp
  moreover have "w \<noteq> []" using w py_split_words by blast
  ultimately show ?thesis using words_from_word [of w "[]" "[]"] by (simp add: py_split_from)
qed

lemma words_are_words: "concat (map py_split (py_split s)) = py_split s"
proof -
  have "map py_split (py_split s) = map (\<lambda>w. [w]) (py_split s)" by (simp add: word_of_word)
  then show ?thesis by (simp only: concat_map_singleton list.map_ident)
qed

lemma words_join [word_simps]:
  "sep \<noteq> [] \<Longrightarrow> \<forall>c \<in> set sep. py_isspace c \<Longrightarrow> py_split (join sep xs) = concat (map py_split xs)"
proof (induction sep xs rule: join.induct)
  case (3 sep x y xs)
  then obtain c w where sep: "sep = c # w" by (cases sep) auto
  with 3 have "\<forall>c \<in> set w. py_isspace c" by simp
  then have "py_split (w @ z) = py_split z" for z
    by (induction w) (simp_all add: words_space)
  with 3 sep show ?case by (simp add: words_at_space)
qed (simp_all add: words_Nil)

lemma sep_spaces [simp]: "newline \<noteq> []" "\<forall>c \<in> set newline. py_isspace c" "blank \<noteq> []" "\<forall>c \<in> set blank. py_isspace c"
  by (simp_all add: newline_def blank_def py_isspace_def)

lemma linebreak_space: "is_linebreak c \<Longrightarrow> py_isspace c"
  by (auto simp: is_linebreak_def py_isspace_def Let_def)

lemma words_lines [word_simps]: "concat (map py_split (splitlines s)) = py_split s"
proof -
  have cr: "py_isspace (CHR 0x0D)" "py_isspace (CHR 0x0A)" by (simp_all add: py_isspace_def)
  have "concat (map py_split (lines_from cur s)) = py_split (cur @ s)" for cur
    by (induction cur s rule: lines_from.induct)
      (auto simp: word_simps cr linebreak_space)
  then show ?thesis by (simp add: splitlines_def)
qed

lemma words_sentences [word_simps]: "concat (map py_split (sentence_split s)) = py_split s"
proof -
  have "concat (map py_split (sentences_from b cur s)) = py_split (cur @ s)" for b cur
    by (induction b cur s rule: sentences_from.induct) (auto simp: word_simps)
  then show ?thesis by (simp add: sentence_split_def)
qed

lemma words_parts [word_simps]: "concat (map py_split (strip_parts ps)) = concat (map py_split ps)"
  by (induction ps) (auto simp: strip_parts_def words_strip words_blank)

lemma words_pieces [word_simps]: "concat (map py_split (split_pieces s)) = py_split s"
proof -
  have "py_split s = []" if "strip_parts (splitlines s) = []"
    using words_parts [of "splitlines s"] that by (simp add: words_lines)
  then show ?thesis
    by (auto simp: split_pieces_def Let_def words_parts words_sentences words_lines)
qed

subsection \<open>Packing\<close>

text \<open>A part fits, or it is one item after what a part restarts with.\<close>

definition packed_ok :: "token_counter \<Rightarrow> nat \<Rightarrow> string \<Rightarrow> string list \<Rightarrow> string set \<Rightarrow> string \<Rightarrow> bool" where
  "packed_ok cnt m sep restart items p \<longleftrightarrow> cnt p \<le> m \<or> (\<exists>i \<in> items. p = join sep (restart @ [i]))"

lemma pack_fold:
  assumes "st = foldl (pack_step cnt m sep (length restart) restart) (restart, []) items"
  shows "(items = [] \<and> fst st = restart \<or> items \<noteq> [] \<and> fst st \<noteq> [] \<and> packed_ok cnt m sep restart (set items) (join sep (fst st))) \<and>
    (\<forall>p \<in> set (snd st). packed_ok cnt m sep restart (set items) p) \<and> (\<exists>ys. fst st = restart @ ys)"
  using assms
proof (induction items arbitrary: st rule: rev_induct)
  case (snoc x items)
  let ?st = "foldl (pack_step cnt m sep (length restart) restart) (restart, []) items"
  obtain cur chunks where st: "?st = (cur, chunks)" by (cases ?st)
  have mono: "packed_ok cnt m sep restart (set items) p \<Longrightarrow> packed_ok cnt m sep restart (set (items @ [x])) p" for p
    by (auto simp: packed_ok_def)
  note IH = snoc.IH [OF refl, unfolded st fst_conv snd_conv]
  have stx: "st = pack_step cnt m sep (length restart) restart (cur, chunks) x" by (simp add: snoc.prems st)
  have x: "packed_ok cnt m sep restart (set (items @ [x])) (join sep (restart @ [x]))"
    by (auto simp: packed_ok_def)
  show ?case
  proof (cases "length restart < length cur \<and> m < cnt (join sep (cur @ [x]))")
    case True
    then have "items \<noteq> []" using IH by auto
    with True IH x mono show ?thesis by (auto simp: stx pack_step_def)
  next
    case False
    then have "packed_ok cnt m sep restart (set (items @ [x])) (join sep (cur @ [x]))"
    proof (cases "length restart < length cur")
      case False
      moreover from IH obtain ys where "cur = restart @ ys" by blast
      ultimately have "cur = restart" by simp
      with x show ?thesis by simp
    qed (auto simp: packed_ok_def)
    with False IH mono show ?thesis by (auto simp: stx pack_step_def)
  qed
qed simp

lemma pack_fits:
  "p \<in> set (pack cnt m sep restart items) \<Longrightarrow> items \<noteq> [] \<Longrightarrow> packed_ok cnt m sep restart (set items) p"
  using pack_fold [OF refl, where cnt = cnt and m = m and sep = sep and restart = restart and items = items]
  by (auto simp: pack_def pack_flush_def case_prod_beta split: if_splits)

lemma pack_empty: "pack cnt m sep restart [] = (if restart = [] then [] else [join sep restart])"
  by (simp add: pack_def pack_flush_def)

lemma pack_words:
  assumes "sep \<noteq> []" and "\<forall>c \<in> set sep. py_isspace c"
  shows "concat (map py_split (pack cnt m sep [] items)) = concat (map py_split items)"
proof -
  note w = words_join [OF assms]
  have "concat (map py_split (snd st)) @ concat (map py_split (fst st)) = concat (map py_split items)"
    if "st = foldl (pack_step cnt m sep 0 []) ([], []) items" for st
    using that
    by (induction items arbitrary: st rule: rev_induct) (auto simp: pack_step_def case_prod_beta w)
  from this [OF refl] show ?thesis by (auto simp: pack_def pack_flush_def case_prod_beta w)
qed

lemma pack_words_header:
  assumes "sep \<noteq> []" and "\<forall>c \<in> set sep. py_isspace c"
  shows "subseq (py_split h @ concat (map py_split items)) (concat (map py_split (pack cnt m sep [h] items)))"
proof -
  note w = words_join [OF assms]
  have "fst st \<noteq> [] \<and> subseq (py_split h @ concat (map py_split items))
      (concat (map py_split (snd st)) @ concat (map py_split (fst st)))"
    if "st = foldl (pack_step cnt m sep (Suc 0) [h]) ([h], []) items" for st
    using that
  proof (induction items arbitrary: st rule: rev_induct)
    case (snoc x items)
    let ?st = "foldl (pack_step cnt m sep (Suc 0) [h]) ([h], []) items"
    obtain cur chunks where st: "?st = (cur, chunks)" by (cases ?st)
    note IH = snoc.IH [OF refl, unfolded st fst_conv snd_conv]
    have stx: "st = pack_step cnt m sep (Suc 0) [h] (cur, chunks) x" by (simp add: snoc.prems st)
    have mono: "subseq (a @ b) (c @ b)" if "subseq a c" for a b c :: "string list"
      using that by (simp add: list_emb_append_mono)
    from IH have "subseq ((py_split h @ concat (map py_split items)) @ py_split x)
        (concat (map py_split chunks) @ concat (map py_split cur) @ py_split h @ py_split x)"
      by (metis append.assoc list_emb_append_mono list_emb_append2 subseq_order.order_refl)
    moreover from IH have "subseq ((py_split h @ concat (map py_split items)) @ py_split x)
        ((concat (map py_split chunks) @ concat (map py_split cur)) @ py_split x)" by (intro mono) simp
    ultimately show ?case using IH by (auto simp: stx pack_step_def w)
  qed simp
  from this [OF refl] show ?thesis by (auto simp: pack_def pack_flush_def case_prod_beta w)
qed

subsection \<open>What the splitters keep\<close>

theorem split_text_words: "concat (map py_split (split_text_units s cnt m)) = py_split s"
proof -
  have "concat (map py_split (concat (map (\<lambda>s. if cnt s \<le> m then [s] else pack cnt m blank [] (py_split s)) ps))) =
      concat (map py_split ps)" for ps
    by (induction ps) (auto simp: pack_words words_are_words)
  from this [of "split_pieces s"] show ?thesis
    by (auto simp: split_text_units_def Let_def words_pieces)
qed

theorem split_code_words: "concat (map py_split (split_code_or_list s cnt m)) = py_split s"
  using words_lines [of s] by (auto simp: split_code_or_list_def pack_words Let_def)

theorem split_table_words: "subseq (py_split s) (concat (map py_split (split_table_text s cnt m)))"
proof (cases "splitlines s")
  case (Cons h body)
  then have "py_split s = py_split h @ concat (map py_split body)" using words_lines [of s] by simp
  with Cons show ?thesis by (simp add: split_table_text_def pack_words_header)
qed (simp add: split_table_text_def)

end
