(* ===== verification/Chunker.thy ===== *)
theory Chunker
  imports Text_Splitting
begin

section \<open>The structure-aware chunker (chunking/structure_aware.py, chunking/validation.py)\<close>

text \<open>
  Parsed blocks, their grouping into parents, the children of a parent, the chunks with their
  identities and neighbour links, and the validation of the result. The token counter, SHA-256 and
  float \<open>repr\<close> are part of the environment \<open>chunker\<close>.
\<close>

subsection \<open>Blocks (domain/blocks.py)\<close>

datatype content_type = HEADING | TEXT_BLOCK | LIST_BLOCK | TABLE | CODE

fun content_type_value :: "content_type \<Rightarrow> string" where
  "content_type_value HEADING = ''heading''"
| "content_type_value TEXT_BLOCK = ''text''"
| "content_type_value LIST_BLOCK = ''list''"
| "content_type_value TABLE = ''table''"
| "content_type_value CODE = ''code''"

record source_locator =
  sl_page_number :: "nat option"
  sl_bbox :: "pyfloat list option"
  sl_source_ref :: "string option"
  sl_line_start :: "nat option"
  sl_line_end :: "nat option"

record content_block =
  cb_id :: string
  cb_document_id :: string
  cb_order :: nat
  cb_content_type :: content_type
  cb_text :: string
  cb_page_number :: "nat option"
  cb_section_path :: "string list"
  cb_source_locator :: "source_locator option"
  cb_metadata :: "(string \<times> json) list"

text \<open>Of a parsed document the chunker reads the document id and the blocks.\<close>

record parsed_document =
  pd_document_id :: string
  pd_blocks :: "content_block list"

record chunker_budgets =
  bd_child_target :: nat
  bd_child_max :: nat
  bd_parent_target :: nat
  bd_parent_max :: nat
  bd_parent_child :: bool

record chunker =
  ch_sha :: digest
  ch_fr :: "pyfloat \<Rightarrow> string"
  ch_count :: token_counter
  ch_tokenizer_name :: string
  ch_tokenizer_encoding :: string
  ch_budgets :: chunker_budgets
  ch_cfg_hash :: string

datatype chunker_exc =
    Block_Value_Error string
  | Chunk_Model_Error string
  | Chunk_Set_Validation_Error string

definition STRUCTURE_AWARE_CHUNKER_VERSION :: string where
  "STRUCTURE_AWARE_CHUNKER_VERSION = ''structure-aware-chunker-v1''"

subsection \<open>Aggregates\<close>

definition para_sep :: string where "para_sep = [CHR 0x0A, CHR 0x0A]"

definition join_blocks :: "content_block list \<Rightarrow> string" where
  "join_blocks blocks = join para_sep (filter (\<lambda>t. t \<noteq> []) (map (\<lambda>b. py_strip (cb_text b)) blocks))"

definition aggregate_pages :: "content_block list \<Rightarrow> nat option \<times> nat option" where
  "aggregate_pages blocks = (let pages = List.map_filter cb_page_number blocks in
     if pages = [] then (None, None) else (Some (Min (set pages)), Some (Max (set pages))))"

definition aggregate_lines :: "content_block list \<Rightarrow> nat option \<times> nat option" where
  "aggregate_lines blocks =
     (let locs = List.map_filter cb_source_locator blocks;
          starts = List.map_filter sl_line_start locs; ends = List.map_filter sl_line_end locs in
      if starts = [] \<and> ends = [] then (None, None)
      else (Some (if starts \<noteq> [] then Min (set starts) else Min (set ends)),
            Some (if ends \<noteq> [] then Max (set ends) else Max (set starts))))"

subsection \<open>Parent spans\<close>

text \<open>Blocks with section paths: the current path, the current span, the spans before it.\<close>

definition section_step ::
    "token_counter \<Rightarrow> nat \<Rightarrow> string list option \<times> content_block list \<times> content_block list list \<Rightarrow>
     content_block \<Rightarrow> string list option \<times> content_block list \<times> content_block list list" where
  "section_step cnt parent_max st block = (case st of (current_key, current, spans) \<Rightarrow>
     (let key = cb_section_path block;
          (cur, closed_spans) = if current \<noteq> [] \<and> Some key \<noteq> current_key then ([], spans @ [current])
            else (current, spans) in
      if parent_max < cnt (join_blocks (cur @ [block])) \<and> 1 < length (cur @ [block]) then
        (Some (cb_section_path block), [block], closed_spans @ [cur])
      else (Some key, cur @ [block], closed_spans)))"

definition unstructured_step ::
    "token_counter \<Rightarrow> nat \<Rightarrow> nat \<Rightarrow> content_block list \<times> content_block list list \<Rightarrow> content_block \<Rightarrow>
     content_block list \<times> content_block list list" where
  "unstructured_step cnt parent_target parent_max st block = (case st of (current, spans) \<Rightarrow>
     (let candidate = current @ [block] in
      if current \<noteq> [] \<and> parent_max < cnt (join_blocks candidate) then ([block], spans @ [current])
      else if parent_target \<le> cnt (join_blocks candidate) \<and> cb_content_type block \<noteq> HEADING then
        ([], spans @ [candidate])
      else (candidate, spans)))"

definition close_span :: "'a list \<Rightarrow> 'a list list \<Rightarrow> 'a list list" where
  "close_span current spans = (if current = [] then spans else spans @ [current])"

definition group_parent_spans ::
    "content_block list \<Rightarrow> token_counter \<Rightarrow> chunker_budgets \<Rightarrow> content_block list list" where
  "group_parent_spans blocks cnt bd =
     (if blocks = [] then []
      else if list_ex (\<lambda>b. cb_section_path b \<noteq> []) blocks then
        (case foldl (section_step cnt (bd_parent_max bd)) (None, [], []) blocks of
           (_, current, spans) \<Rightarrow> close_span current spans)
      else (case foldl (unstructured_step cnt (bd_parent_target bd) (bd_parent_max bd)) ([], []) blocks of
           (current, spans) \<Rightarrow> close_span current spans))"

subsection \<open>Units of a parent\<close>

datatype unit_mode = MERGED | SPLIT | OVERSIZED_UNSPLITTABLE

type_synonym child_unit = "content_block list \<times> string \<times> unit_mode"

definition merged_unit :: "content_block list \<Rightarrow> child_unit list" where
  "merged_unit buffer = (if buffer = [] then [] else [(buffer, join_blocks buffer, MERGED)])"

definition split_block :: "token_counter \<Rightarrow> nat \<Rightarrow> content_block \<Rightarrow> string list" where
  "split_block cnt child_max block =
     (if cb_content_type block = TABLE then split_table_text (cb_text block) cnt child_max
      else if cb_content_type block \<in> {CODE, LIST_BLOCK} then split_code_or_list (cb_text block) cnt child_max
      else split_text_units (cb_text block) cnt child_max)"

definition part_unit :: "token_counter \<Rightarrow> nat \<Rightarrow> content_block \<Rightarrow> string \<Rightarrow> child_unit" where
  "part_unit cnt child_max block part =
     ([block], part, if child_max < cnt part then OVERSIZED_UNSPLITTABLE else SPLIT)"

definition oversize_warning :: "content_block \<Rightarrow> string" where
  "oversize_warning block = ''oversized unsplittable block '' @ cb_id block @ '' exceeds child max_tokens''"

definition unit_step ::
    "token_counter \<Rightarrow> chunker_budgets \<Rightarrow> content_block list \<times> child_unit list \<times> string list \<Rightarrow> content_block \<Rightarrow>
     content_block list \<times> child_unit list \<times> string list" where
  "unit_step cnt bd st block = (case st of (buffer, units, warnings) \<Rightarrow>
     if cb_content_type block = HEADING \<and> buffer = [] then (buffer @ [block], units, warnings)
     else if bd_child_max bd < cnt (cb_text block) then
       (let parts = split_block cnt (bd_child_max bd) block in
        ([], units @ merged_unit buffer @ map (part_unit cnt (bd_child_max bd) block) parts,
         warnings @ map (\<lambda>_. oversize_warning block) (filter (\<lambda>p. bd_child_max bd < cnt p) parts)))
     else (let candidate = buffer @ [block] in
       if buffer \<noteq> [] \<and> bd_child_max bd < cnt (join_blocks candidate) then
         ([block], units @ merged_unit buffer, warnings)
       else if bd_child_target bd \<le> cnt (join_blocks candidate) \<and> cb_content_type block \<noteq> HEADING then
         ([], units @ merged_unit candidate, warnings)
       else (candidate, units, warnings)))"

definition child_units ::
    "token_counter \<Rightarrow> chunker_budgets \<Rightarrow> content_block list \<Rightarrow> child_unit list \<times> string list" where
  "child_units cnt bd blocks = (case foldl (unit_step cnt bd) ([], [], []) blocks of
     (buffer, units, warnings) \<Rightarrow> (units @ merged_unit buffer, warnings))"

subsection \<open>Chunks\<close>

text \<open>
  Constructing a \<open>Chunk\<close>: the string fields are \<open>NonEmptyStr\<close>, trimmed and not empty; then the
  model validator. The neighbours are not given here.
\<close>

definition req_str :: "string \<Rightarrow> string + string" where
  "req_str s = (case nonempty_str s of None \<Rightarrow> Inl ''String should have at least 1 character''
     | Some t \<Rightarrow> Inr t)"

definition opt_str :: "string option \<Rightarrow> string + string option" where
  "opt_str x = (case x of None \<Rightarrow> Inr None | Some s \<Rightarrow> bind_res (req_str s) (\<lambda>t. Inr (Some t)))"

definition mk_chunk :: "chunk \<Rightarrow> chunker_exc + chunk" where
  "mk_chunk c = try_map Chunk_Model_Error
     (bind_res (req_str (ck_chunk_id c)) (\<lambda>chunk_id.
      bind_res (req_str (ck_document_id c)) (\<lambda>document_id.
      bind_res (opt_str (ck_parent_chunk_id c)) (\<lambda>parent_chunk_id.
      bind_res (req_str (ck_text c)) (\<lambda>text.
      bind_res (req_str (ck_content_type c)) (\<lambda>content_type.
      bind_res (req_str (ck_content_hash c)) (\<lambda>content_hash.
      bind_res (map_res req_str (ck_source_block_ids c)) (\<lambda>source_block_ids.
      validate_chunk (c\<lparr>ck_chunk_id := chunk_id, ck_document_id := document_id,
        ck_parent_chunk_id := parent_chunk_id, ck_text := text, ck_content_type := content_type,
        ck_content_hash := content_hash, ck_source_block_ids := source_block_ids\<rparr>)))))))))"

definition chunk_content_hash :: "chunker \<Rightarrow> string \<Rightarrow> chunker_exc + string" where
  "chunk_content_hash c text = try_map Block_Value_Error (content_hash_from_bytes (ch_sha c) (utf8 text))"

definition make_parent ::
    "chunker \<Rightarrow> string \<Rightarrow> nat \<Rightarrow> content_block list \<Rightarrow> chunker_exc + chunk" where
  "make_parent c document_id order blocks =
     (let parent_text = join_blocks blocks; (page_start, page_end) = aggregate_pages blocks;
          (line_start, line_end) = aggregate_lines blocks; source_ids = map cb_id blocks in
      bind_res (chunk_content_hash c parent_text) (\<lambda>content_hash.
      mk_chunk \<lparr>ck_chunk_id = parent_chunk_id_from_parts (ch_sha c) (ch_fr c) document_id (ch_cfg_hash c)
          source_ids parent_text STRUCTURE_AWARE_CHUNKER_VERSION,
        ck_document_id = document_id, ck_kind = PARENT, ck_parent_chunk_id = None,
        ck_text = parent_text, ck_page_start = page_start, ck_page_end = page_end,
        ck_line_start = line_start, ck_line_end = line_end,
        ck_section_path = cb_section_path (hd blocks), ck_order = order,
        ck_token_count = ch_count c parent_text, ck_content_type = ''parent'',
        ck_content_hash = content_hash, ck_source_block_ids = source_ids,
        ck_previous_chunk_id = None, ck_next_chunk_id = None, ck_metadata = []\<rparr>))"

text \<open>
  The identity key of a child without its constant parts (document, configuration, version, kind),
  and the number of earlier children of the document with the same key.
\<close>

type_synonym identity_key = "string \<times> string list \<times> string"
type_synonym occurrence_counts = "(identity_key \<times> nat) list"

definition occurrence_of :: "occurrence_counts \<Rightarrow> identity_key \<Rightarrow> nat" where
  "occurrence_of counts key = (case map_of counts key of Some n \<Rightarrow> n | None \<Rightarrow> 0)"

definition make_child ::
    "chunker \<Rightarrow> string \<Rightarrow> string option \<Rightarrow> nat \<Rightarrow> nat \<Rightarrow> child_unit \<Rightarrow> chunker_exc + chunk" where
  "make_child c document_id parent_for_id order occurrence u = (case u of (blocks, text, mode) \<Rightarrow>
     (let (page_start, page_end) = aggregate_pages blocks; (line_start, line_end) = aggregate_lines blocks;
          source_ids = first_occ (map cb_id blocks) in
      bind_res (try_map Block_Value_Error (child_chunk_id_from_parts (ch_sha c) (ch_fr c) document_id
        parent_for_id (ch_cfg_hash c) source_ids text STRUCTURE_AWARE_CHUNKER_VERSION (int occurrence))) (\<lambda>child_id.
      bind_res (chunk_content_hash c text) (\<lambda>content_hash.
      mk_chunk \<lparr>ck_chunk_id = child_id, ck_document_id = document_id, ck_kind = CHILD,
        ck_parent_chunk_id = parent_for_id, ck_text = text, ck_page_start = page_start,
        ck_page_end = page_end, ck_line_start = line_start, ck_line_end = line_end,
        ck_section_path = cb_section_path (hd blocks), ck_order = order,
        ck_token_count = ch_count c text,
        ck_content_type = (if length blocks = 1 then content_type_value (cb_content_type (hd blocks))
          else ''mixed''),
        ck_content_hash = content_hash, ck_source_block_ids = source_ids,
        ck_previous_chunk_id = None, ck_next_chunk_id = None,
        ck_metadata = (if mode = OVERSIZED_UNSPLITTABLE then [(''oversized_unsplittable'', JBool True)]
          else [])\<rparr>))))"

definition heading_only :: "nat \<Rightarrow> child_unit \<Rightarrow> bool" where
  "heading_only span_length u \<longleftrightarrow> (case u of (blocks, text, mode) \<Rightarrow>
     length blocks = 1 \<and> cb_content_type (hd blocks) = HEADING \<and> mode = MERGED \<and> 1 < span_length)"

definition emit_child ::
    "chunker \<Rightarrow> string \<Rightarrow> string \<Rightarrow> nat \<Rightarrow> chunk list \<times> occurrence_counts \<Rightarrow> child_unit \<Rightarrow>
     chunker_exc + chunk list \<times> occurrence_counts" where
  "emit_child c document_id parent_id span_length st u = (case (st, u) of ((children, counts), (blocks, text, mode)) \<Rightarrow>
     if py_strip text = [] then Inr st
     else if heading_only span_length u then Inr st
     else (let parent_for_id = (if bd_parent_child (ch_budgets c) then Some parent_id else None);
               key = (or_empty parent_for_id, first_occ (map cb_id blocks), strip_newlines text);
               occurrence = occurrence_of counts key in
       bind_res (make_child c document_id parent_for_id (length children) occurrence u) (\<lambda>child.
       Inr (children @ [child], dict_set key (occurrence + 1) counts))))"

record chunking_state =
  cs_parents :: "chunk list"
  cs_children :: "chunk list"
  cs_counts :: occurrence_counts
  cs_warnings :: "string list"

definition emit_span ::
    "chunker \<Rightarrow> string \<Rightarrow> chunking_state \<Rightarrow> content_block list \<Rightarrow> chunker_exc + chunking_state" where
  "emit_span c document_id st blocks =
     (if py_strip (join_blocks blocks) = [] then Inr st
      else bind_res (make_parent c document_id (length (cs_parents st)) blocks) (\<lambda>parent.
       (let (units, warnings) = child_units (ch_count c) (ch_budgets c) blocks;
            parent_id = parent_chunk_id_from_parts (ch_sha c) (ch_fr c) document_id (ch_cfg_hash c)
              (map cb_id blocks) (join_blocks blocks) STRUCTURE_AWARE_CHUNKER_VERSION in
        bind_res (fold_res (emit_child c document_id parent_id (length blocks))
          (cs_children st, cs_counts st) units) (\<lambda>(children, counts).
        Inr \<lparr>cs_parents = cs_parents st @ [parent], cs_children = children, cs_counts = counts,
             cs_warnings = cs_warnings st @ warnings\<rparr>))))"

text \<open>The neighbour links: \<open>model_copy\<close> does not validate.\<close>

definition neighbor :: "chunk list \<Rightarrow> nat \<Rightarrow> string option" where
  "neighbor children i = (if i < length children then Some (ck_chunk_id (children ! i)) else None)"

definition wire_neighbors :: "chunk list \<Rightarrow> chunk list" where
  "wire_neighbors children = map (\<lambda>(i, child). child\<lparr>ck_order := i,
     ck_previous_chunk_id := (if 0 < i then neighbor children (i - 1) else None),
     ck_next_chunk_id := neighbor children (i + 1)\<rparr>) (enumerate 0 children)"

subsection \<open>Validation of a chunk artifact\<close>

definition set_guard :: "bool \<Rightarrow> string \<Rightarrow> chunker_exc + unit" where
  "set_guard b m = guard_res b (Chunk_Set_Validation_Error m)"

definition check_parent :: "string \<Rightarrow> chunk \<Rightarrow> chunker_exc + unit" where
  "check_parent document_id parent =
     bind_res (set_guard (ck_kind parent = PARENT) ''parents list contains non-parent chunk'') (\<lambda>_.
     set_guard (ck_document_id parent = document_id) ''parent document_id mismatch'')"

definition check_parent_link :: "(string \<times> chunk) list \<Rightarrow> chunk \<Rightarrow> chunker_exc + unit" where
  "check_parent_link parent_by_id child = (case ck_parent_chunk_id child of
     None \<Rightarrow> Inl (Chunk_Set_Validation_Error ''child missing parent_chunk_id'')
   | Some p \<Rightarrow> if p = [] then Inl (Chunk_Set_Validation_Error ''child missing parent_chunk_id'')
       else (case map_of parent_by_id p of
           None \<Rightarrow> Inl (Chunk_Set_Validation_Error (''missing parent '' @ p))
         | Some parent \<Rightarrow> set_guard (set (ck_source_block_ids child) \<subseteq> set (ck_source_block_ids parent))
             ''child source blocks outside parent span''))"

text \<open>A neighbour must exist and point back; \<open>back\<close> is its link in the other direction.\<close>

definition check_link ::
    "(string \<times> chunk) list \<Rightarrow> (chunk \<Rightarrow> string option) \<Rightarrow> string \<Rightarrow> string option \<Rightarrow> chunk \<Rightarrow> chunker_exc + unit" where
  "check_link child_by_id back name link child = (case link of
     None \<Rightarrow> Inr ()
   | Some i \<Rightarrow> (case map_of child_by_id i of
       None \<Rightarrow> Inl (Chunk_Set_Validation_Error (''missing '' @ name @ '' neighbor '' @ i))
     | Some other \<Rightarrow> set_guard (back other = Some (ck_chunk_id child))
         (''neighbor link asymmetry ('' @ name @ '')'')))"

definition oversized_flag :: "chunk \<Rightarrow> bool" where
  "oversized_flag child \<longleftrightarrow> dict_get (ck_metadata child) ''oversized_unsplittable'' = JBool True"

definition check_child ::
    "(string \<times> chunk) list \<Rightarrow> (string \<times> chunk) list \<Rightarrow> string \<Rightarrow> bool \<Rightarrow> nat \<Rightarrow> nat \<times> chunk \<Rightarrow> chunker_exc + unit" where
  "check_child parent_by_id child_by_id document_id parent_child child_max ic = (case ic of (index, child) \<Rightarrow>
     bind_res (set_guard (ck_kind child = CHILD) ''children list contains non-child chunk'') (\<lambda>_.
     bind_res (set_guard (ck_document_id child = document_id) ''child document_id mismatch'') (\<lambda>_.
     bind_res (set_guard (ck_order child = index) ''child order must be contiguous from 0'') (\<lambda>_.
     bind_res (if parent_child then check_parent_link parent_by_id child else Inr ()) (\<lambda>_.
     bind_res (set_guard (ck_token_count child \<le> child_max \<or> oversized_flag child)
       (''child '' @ ck_chunk_id child @ '' exceeds max_tokens='' @ str_nat child_max)) (\<lambda>_.
     bind_res (check_link child_by_id ck_next_chunk_id ''previous'' (ck_previous_chunk_id child) child) (\<lambda>_.
     bind_res (check_link child_by_id ck_previous_chunk_id ''next'' (ck_next_chunk_id child) child) (\<lambda>_.
     set_guard (ck_previous_chunk_id child \<noteq> Some (ck_chunk_id child) \<and>
       ck_next_chunk_id child \<noteq> Some (ck_chunk_id child)) ''self-neighbor links are invalid''))))))))"

definition check_chain :: "chunk list \<Rightarrow> nat \<times> chunk \<Rightarrow> chunker_exc + unit" where
  "check_chain children ic = (case ic of (index, child) \<Rightarrow>
     set_guard (ck_previous_chunk_id child = (if 0 < index then neighbor children (index - 1) else None) \<and>
       ck_next_chunk_id child = neighbor children (index + 1)) ''neighbor chain does not match child order'')"

definition validate_chunk_artifact ::
    "chunk list \<Rightarrow> chunk list \<Rightarrow> string \<Rightarrow> bool \<Rightarrow> nat \<Rightarrow> chunker_exc + unit" where
  "validate_chunk_artifact parents children document_id parent_child child_max =
     (let parent_by_id = dict_by ck_chunk_id parents; child_by_id = dict_by ck_chunk_id children in
      bind_res (set_guard (length parent_by_id = length parents) ''duplicate parent chunk IDs'') (\<lambda>_.
      bind_res (set_guard (length child_by_id = length children) ''duplicate child chunk IDs'') (\<lambda>_.
      bind_res (for_each (check_parent document_id) parents) (\<lambda>_.
      bind_res (for_each (check_child parent_by_id child_by_id document_id parent_child child_max)
        (enumerate 0 children)) (\<lambda>_.
      for_each (check_chain children) (enumerate 0 children))))))"

subsection \<open>Chunking a document\<close>

record document_chunk_artifact = chunk_artifact +
  da_parsed_artifact_id :: string
  da_document_id :: string
  da_chunk_config_hash :: string
  da_chunker_version :: string
  da_tokenizer_name :: string
  da_tokenizer_encoding :: string
  da_parent_count :: nat
  da_child_count :: nat
  da_warnings :: "string list"

definition check_block :: "string \<Rightarrow> nat \<times> content_block \<Rightarrow> chunker_exc + unit" where
  "check_block document_id ib = (case ib of (index, block) \<Rightarrow>
     bind_res (guard_res (cb_order block = index)
       (Block_Value_Error ''ParsedDocument blocks must have contiguous order'')) (\<lambda>_.
     guard_res (cb_document_id block = document_id) (Block_Value_Error ''block document_id mismatch'')))"

definition chunk_document ::
    "chunker \<Rightarrow> parsed_document \<Rightarrow> string \<Rightarrow> string \<Rightarrow> chunker_exc + document_chunk_artifact" where
  "chunk_document c parsed parsed_id artifact_id =
     (let document_id = pd_document_id parsed; bd = ch_budgets c in
      bind_res (for_each (check_block document_id) (enumerate 0 (pd_blocks parsed))) (\<lambda>_.
      bind_res (fold_res (emit_span c document_id)
        \<lparr>cs_parents = [], cs_children = [], cs_counts = [], cs_warnings = []\<rparr>
        (group_parent_spans (pd_blocks parsed) (ch_count c) bd)) (\<lambda>st.
      (let children = wire_neighbors (cs_children st) in
       bind_res (validate_chunk_artifact (cs_parents st) children document_id (bd_parent_child bd)
         (bd_child_max bd)) (\<lambda>_.
       Inr \<lparr>ca_chunk_artifact_id = artifact_id, ca_parents = cs_parents st, ca_children = children,
         da_parsed_artifact_id = parsed_id, da_document_id = document_id,
         da_chunk_config_hash = ch_cfg_hash c, da_chunker_version = STRUCTURE_AWARE_CHUNKER_VERSION,
         da_tokenizer_name = ch_tokenizer_name c, da_tokenizer_encoding = ch_tokenizer_encoding c,
         da_parent_count = length (cs_parents st), da_child_count = length children,
         da_warnings = cs_warnings st\<rparr>)))))"

end
