(* ===== verification/Chunker_Words.thy ===== *)
theory Chunker_Words
  imports Chunker
begin

section \<open>What chunking keeps\<close>

text \<open>
  The parent spans partition the blocks; the words of the parents are the words of the blocks, and
  the words of everything but headings survive in order in the children. The invariants of the three
  loops, and of the fold over the spans, that later proofs reuse.
\<close>

subsection \<open>Spans\<close>

lemma concat_close [simp]: "concat (close_span cur spans) = concat spans @ cur"
  by (simp add: close_span_def)

lemma close_nonempty: "[] \<notin> set spans \<Longrightarrow> [] \<notin> set (close_span cur spans)"
  by (auto simp: close_span_def)

lemma section_fold:
  "(\<lambda>bs st. concat (snd (snd st)) @ fst (snd st) = bs \<and> [] \<notin> set (snd (snd st))) blocks
     (foldl (section_step cnt m) (None, [], []) blocks)"
  by (rule foldl_prefix) (auto simp: section_step_def Let_def split: prod.splits if_splits)

lemma unstructured_fold:
  "(\<lambda>bs st. concat (snd st) @ fst st = bs \<and> [] \<notin> set (snd st)) blocks
     (foldl (unstructured_step cnt t m) ([], []) blocks)"
  by (rule foldl_prefix) (auto simp: unstructured_step_def Let_def split: prod.splits if_splits)

lemma spans_partition:
  "concat (group_parent_spans blocks cnt bd) = blocks" "[] \<notin> set (group_parent_spans blocks cnt bd)"
  using section_fold [of cnt "bd_parent_max bd" blocks]
    unstructured_fold [of cnt "bd_parent_target bd" "bd_parent_max bd" blocks]
  by (auto simp: group_parent_spans_def case_prod_beta close_nonempty simp del: concat_eq_Nil_conv)

subsection \<open>Words\<close>

definition block_words :: "content_block \<Rightarrow> string list" where
  "block_words b = py_split (cb_text b)"

definition body_words :: "content_block \<Rightarrow> string list" where
  "body_words b = (if cb_content_type b = HEADING then [] else block_words b)"

definition chunk_words :: "chunk \<Rightarrow> string list" where
  "chunk_words c = py_split (ck_text c)"

definition unit_words :: "nat \<Rightarrow> child_unit \<Rightarrow> string list" where
  "unit_words n u = (if heading_only n u then [] else py_split (fst (snd u)))"

lemma words_join_blocks: "py_split (join_blocks bs) = concat (map block_words bs)"
proof -
  have "para_sep \<noteq> []" "\<forall>c \<in> set para_sep. py_isspace c" by (simp_all add: para_sep_def py_isspace_def)
  then have "py_split (join_blocks bs) =
      concat (map py_split (filter (\<lambda>t. t \<noteq> []) (map (\<lambda>b. py_strip (cb_text b)) bs)))"
    unfolding join_blocks_def by (rule words_join)
  also have "\<dots> = concat (map block_words bs)"
    by (induction bs) (auto simp: block_words_def words_strip words_blank)
  finally show ?thesis .
qed

lemma body_sub: "subseq (body_words b) (block_words b)"
  by (simp add: body_words_def)

lemma bodies_sub: "subseq (concat (map body_words bs)) (concat (map block_words bs))"
  by (induction bs) (simp_all add: body_sub list_emb_append_mono)

lemma merged_words:
  "subseq (concat (map body_words buffer)) (concat (map (unit_words n) (merged_unit buffer)))"
proof (cases "buffer \<noteq> [] \<and> heading_only n (buffer, join_blocks buffer, MERGED)")
  case True
  then obtain b where "buffer = [b]" "cb_content_type b = HEADING"
    by (auto simp: heading_only_def length_Suc_conv)
  then show ?thesis by (simp add: body_words_def)
next
  case False
  then show ?thesis using bodies_sub [of buffer]
    by (auto simp: merged_unit_def unit_words_def words_join_blocks)
qed

lemma split_words: "subseq (block_words b) (concat (map py_split (split_block cnt m b)))"
  by (simp add: split_block_def block_words_def split_table_words split_code_words split_text_words)

lemma parts_words:
  "concat (map (unit_words n) (map (part_unit cnt m b) parts)) = concat (map py_split parts)"
  by (induction parts) (auto simp: unit_words_def part_unit_def heading_only_def)

lemma unit_step_words:
  assumes "subseq done_words (concat (map (unit_words n) units) @ concat (map body_words buf))"
    and "unit_step cnt bd (buf, units, ws) b = (buf', units', ws')"
  shows "subseq (done_words @ body_words b) (concat (map (unit_words n) units') @ concat (map body_words buf'))"
proof -
  let ?u = "concat (map (unit_words n) units)" and ?b = "concat (map body_words buf)"
  let ?m = "\<lambda>bs. concat (map (unit_words n) (merged_unit bs))"
  have keep: "subseq (done_words @ body_words b) (?u @ ?b @ body_words b)"
    using list_emb_append_mono [OF assms(1) subseq_order.order_refl, of "body_words b"] by simp
  have flush: "subseq (done_words @ body_words b) (?u @ x)" if "subseq (?b @ body_words b) x" for x
    using keep list_emb_append_mono [OF subseq_order.order_refl that, of ?u] by (rule subseq_order.trans)
  have s: "subseq (body_words b) (concat (map py_split (split_block cnt k b)))" for k
    using body_sub split_words by (rule subseq_order.trans)
  consider "buf' = buf @ [b]" "units' = units"
    | "buf' = [b]" "units' = units @ merged_unit buf"
    | "buf' = []" "units' = units @ merged_unit (buf @ [b])"
    | "buf' = []" "units' = units @ merged_unit buf @
        map (part_unit cnt (bd_child_max bd) b) (split_block cnt (bd_child_max bd) b)"
    using assms(2) by (auto simp: unit_step_def Let_def split: if_splits)
  then show ?thesis
  proof cases
    case 1
    with keep show ?thesis by simp
  next
    case 2
    with flush [OF list_emb_append_mono [OF merged_words subseq_order.order_refl], of n] show ?thesis by simp
  next
    case 3
    with flush [of "?m (buf @ [b])"] merged_words [of "buf @ [b]" n] show ?thesis by simp
  next
    case 4
    with flush [OF list_emb_append_mono [OF merged_words s], of n] show ?thesis
      by (simp add: parts_words del: map_map)
  qed
qed

lemma child_units_words:
  "subseq (concat (map body_words blocks)) (concat (map (unit_words n) (fst (child_units cnt bd blocks))))"
proof -
  let ?P = "\<lambda>bs (st :: content_block list \<times> child_unit list \<times> string list). subseq (concat (map body_words bs))
      (concat (map (unit_words n) (fst (snd st))) @ concat (map body_words (fst st)))"
  obtain buf units ws where st: "foldl (unit_step cnt bd) ([], [], []) blocks = (buf, units, ws)"
    by (metis prod_cases3)
  have "?P blocks (foldl (unit_step cnt bd) ([], [], []) blocks)"
  proof (rule foldl_prefix [where P = ?P])
    fix ys y t assume "?P ys t"
    then show "?P (ys @ [y]) (unit_step cnt bd t y)"
      by (cases t, cases "unit_step cnt bd t y") (simp add: unit_step_words)
  qed simp
  then have "subseq (concat (map body_words blocks)) (concat (map (unit_words n) units) @ concat (map body_words buf))"
    by (simp add: st)
  also have "subseq \<dots> (concat (map (unit_words n) units) @ concat (map (unit_words n) (merged_unit buf)))"
    by (rule list_emb_append_mono [OF subseq_order.order_refl merged_words])
  finally show ?thesis by (simp add: child_units_def st)
qed

end
