(* ===== verification/Chunker_Invariants.thy ===== *)
theory Chunker_Invariants
  imports Chunker_Words
begin

section \<open>Invariants of chunking a document\<close>

text \<open>
  What the loops of \<open>chunk_document\<close> keep: every chunk comes from a unit of its span, ids come from
  distinct identity keys and occurrence numbers, and the words of the units reach the children.
\<close>

subsection \<open>Constructed chunks\<close>

definition trimmed :: "chunk \<Rightarrow> chunk" where
  "trimmed c = c\<lparr>ck_chunk_id := trim (ck_chunk_id c), ck_document_id := trim (ck_document_id c),
     ck_parent_chunk_id := map_option trim (ck_parent_chunk_id c), ck_text := trim (ck_text c),
     ck_content_type := trim (ck_content_type c), ck_content_hash := trim (ck_content_hash c),
     ck_source_block_ids := map trim (ck_source_block_ids c)\<rparr>"

definition strings_ok :: "chunk \<Rightarrow> bool" where
  "strings_ok c \<longleftrightarrow> trim (ck_chunk_id c) \<noteq> [] \<and> trim (ck_document_id c) \<noteq> [] \<and>
     (case ck_parent_chunk_id c of None \<Rightarrow> True | Some p \<Rightarrow> trim p \<noteq> []) \<and> trim (ck_text c) \<noteq> [] \<and>
     trim (ck_content_type c) \<noteq> [] \<and> trim (ck_content_hash c) \<noteq> [] \<and>
     (\<forall>b \<in> set (ck_source_block_ids c). trim b \<noteq> [])"

lemma req_str_iff: "req_str s = Inr t \<longleftrightarrow> trim s \<noteq> [] \<and> t = trim s"
  by (auto simp: req_str_def nonempty_str_def Let_def)

lemma opt_str_iff:
  "opt_str x = Inr y \<longleftrightarrow> y = map_option trim x \<and> (case x of None \<Rightarrow> True | Some p \<Rightarrow> trim p \<noteq> [])"
  by (auto simp: opt_str_def bind_res_Inr_iff req_str_iff split: option.splits)

lemma req_strs_iff: "map_res req_str xs = Inr ys \<longleftrightarrow> ys = map trim xs \<and> (\<forall>x \<in> set xs. trim x \<noteq> [])"
  by (induction xs arbitrary: ys) (auto simp: bind_res_Inr_iff req_str_iff)

lemma validate_chunk_same: "validate_chunk c = Inr d \<Longrightarrow> d = c"
  by (auto simp: validate_chunk_def split: if_splits)

lemma mk_chunk_iff:
  "mk_chunk c = Inr d \<longleftrightarrow> d = trimmed c \<and> strings_ok c \<and> validate_chunk (trimmed c) = Inr (trimmed c)"
proof -
  have "mk_chunk c = Inr d \<longleftrightarrow> strings_ok c \<and> validate_chunk (trimmed c) = Inr d"
    by (auto simp: mk_chunk_def bind_res_Inr_iff req_str_iff opt_str_iff req_strs_iff strings_ok_def trimmed_def)
  then show ?thesis by (auto dest: validate_chunk_same)
qed

lemma trimmed_fields [simp]:
  "ck_chunk_id (trimmed c) = trim (ck_chunk_id c)" "ck_document_id (trimmed c) = trim (ck_document_id c)"
  "ck_parent_chunk_id (trimmed c) = map_option trim (ck_parent_chunk_id c)" "ck_text (trimmed c) = trim (ck_text c)"
  "ck_source_block_ids (trimmed c) = map trim (ck_source_block_ids c)" "ck_kind (trimmed c) = ck_kind c"
  "ck_token_count (trimmed c) = ck_token_count c" "ck_metadata (trimmed c) = ck_metadata c"
  "ck_order (trimmed c) = ck_order c" "ck_previous_chunk_id (trimmed c) = ck_previous_chunk_id c"
  "ck_next_chunk_id (trimmed c) = ck_next_chunk_id c"
  "ck_page_start (trimmed c) = ck_page_start c" "ck_page_end (trimmed c) = ck_page_end c"
  "ck_line_start (trimmed c) = ck_line_start c" "ck_line_end (trimmed c) = ck_line_end c"
  by (simp_all add: trimmed_def)

lemma chunk_words_trimmed [simp]: "chunk_words (trimmed c) = py_split (ck_text c)"
  by (simp add: chunk_words_def words_trim)

subsection \<open>Identities\<close>

definition span_parent_id :: "chunker \<Rightarrow> string \<Rightarrow> content_block list \<Rightarrow> string" where
  "span_parent_id c document_id blocks = parent_chunk_id_from_parts (ch_sha c) (ch_fr c) document_id
     (ch_cfg_hash c) (map cb_id blocks) (join_blocks blocks) STRUCTURE_AWARE_CHUNKER_VERSION"

definition key_id :: "chunker \<Rightarrow> string \<Rightarrow> identity_key \<times> nat \<Rightarrow> string" where
  "key_id c document_id kn = (case kn of ((parent, ids, text), n) \<Rightarrow>
     hashed (ch_sha c) (ch_fr c) ''chunk_'' (JObj (child_chunk_payload document_id (Some parent)
       (ch_cfg_hash c) ids text STRUCTURE_AWARE_CHUNKER_VERSION (int n))))"

lemma child_id_key:
  "child_chunk_id_from_parts (ch_sha c) (ch_fr c) d p (ch_cfg_hash c) ids text
     STRUCTURE_AWARE_CHUNKER_VERSION (int n) = Inr (key_id c d ((or_empty p, ids, strip_newlines text), n))"
  by (simp add: child_chunk_id_from_parts_def key_id_def child_chunk_payload_def or_empty_def strip_newlines_def
      split: option.split)

text \<open>A child is built from a unit of its span.\<close>

definition unit_child :: "chunker \<Rightarrow> string \<Rightarrow> content_block list \<Rightarrow> child_unit \<Rightarrow> chunk \<Rightarrow> bool" where
  "unit_child c d blocks u child \<longleftrightarrow> u \<in> set (fst (child_units (ch_count c) (ch_budgets c) blocks)) \<and>
     \<not> heading_only (length blocks) u \<and> py_strip (fst (snd u)) \<noteq> [] \<and>
     ck_kind child = CHILD \<and> ck_document_id child = trim d \<and> ck_text child = trim (fst (snd u)) \<and>
     ck_parent_chunk_id child = (if bd_parent_child (ch_budgets c) then Some (trim (span_parent_id c d blocks)) else None) \<and>
     set (ck_source_block_ids child) = (\<lambda>b. trim (cb_id b)) ` set (fst u) \<and>
     ck_token_count child = ch_count c (fst (snd u)) \<and>
     (oversized_flag child \<longleftrightarrow> snd (snd u) = OVERSIZED_UNSPLITTABLE)"

definition emitted :: "content_block list \<Rightarrow> child_unit \<Rightarrow> bool" where
  "emitted blocks u \<longleftrightarrow> \<not> heading_only (length blocks) u \<and> py_strip (fst (snd u)) \<noteq> []"

lemma make_child_spec:
  assumes "make_child c d p k n u = Inr child"
  shows "ck_chunk_id child = trim (key_id c d ((or_empty p, first_occ (map cb_id (fst u)), strip_newlines (fst (snd u))), n)) \<and>
    ck_kind child = CHILD \<and> ck_document_id child = trim d \<and> ck_text child = trim (fst (snd u)) \<and>
    ck_parent_chunk_id child = map_option trim p \<and>
    set (ck_source_block_ids child) = (\<lambda>b. trim (cb_id b)) ` set (fst u) \<and>
    ck_token_count child = ch_count c (fst (snd u)) \<and>
    (oversized_flag child \<longleftrightarrow> snd (snd u) = OVERSIZED_UNSPLITTABLE)"
  using assms
  by (cases "snd (snd u) = OVERSIZED_UNSPLITTABLE") (auto simp: make_child_def Let_def bind_res_Inr_iff mk_chunk_iff child_id_key oversized_flag_def dict_get_def
      case_prod_beta image_image split: prod.splits)

text \<open>The ids emitted so far come from distinct keys and occurrence numbers below the counts.\<close>

definition ids_inv :: "chunker \<Rightarrow> string \<Rightarrow> chunk list \<times> occurrence_counts \<Rightarrow> bool" where
  "ids_inv c d st \<longleftrightarrow> (\<exists>pairs. map ck_chunk_id (fst st) = map (\<lambda>kn. trim (key_id c d kn)) pairs \<and>
     distinct pairs \<and> (\<forall>(k, n) \<in> set pairs. n < occurrence_of (snd st) k \<and> strip_newlines (snd (snd k)) = snd (snd k)))"

lemma occurrence_of_set: "occurrence_of (dict_set k v counts) k' = (if k = k' then v else occurrence_of counts k')"
  by (simp add: occurrence_of_def)

lemma emit_child_cases:
  assumes "emit_child c d pid n (children, counts) u = Inr (children', counts')"
  shows "(children' = children \<and> counts' = counts \<and> (py_strip (fst (snd u)) = [] \<or> heading_only n u)) \<or>
    (\<exists>child key. children' = children @ [child] \<and> counts' = dict_set key (occurrence_of counts key + 1) counts \<and>
       py_strip (fst (snd u)) \<noteq> [] \<and> \<not> heading_only n u \<and>
       key = (or_empty (if bd_parent_child (ch_budgets c) then Some pid else None),
         first_occ (map cb_id (fst u)), strip_newlines (fst (snd u))) \<and>
       make_child c d (if bd_parent_child (ch_budgets c) then Some pid else None) (length children)
         (occurrence_of counts key) u = Inr child)"
  using assms by (cases u) (auto simp: emit_child_def Let_def bind_res_Inr_iff split: if_splits)

lemma emit_child_ids:
  assumes "emit_child c d pid n st u = Inr st'" and "ids_inv c d st"
  shows "ids_inv c d st'"
proof -
  obtain children counts children' counts' where st: "st = (children, counts)" "st' = (children', counts')"
    by (cases st, cases st')
  from assms(2) obtain pairs where p: "map ck_chunk_id children = map (\<lambda>kn. trim (key_id c d kn)) pairs"
    "distinct pairs" "\<forall>(k, n) \<in> set pairs. n < occurrence_of counts k \<and> strip_newlines (snd (snd k)) = snd (snd k)" by (auto simp: ids_inv_def st)
  from emit_child_cases [OF assms(1) [unfolded st]] show ?thesis
  proof (elim disjE exE conjE)
    fix child key assume e: "children' = children @ [child]" "counts' = dict_set key (occurrence_of counts key + 1) counts"
      "key = (or_empty (if bd_parent_child (ch_budgets c) then Some pid else None),
         first_occ (map cb_id (fst u)), strip_newlines (fst (snd u)))"
      "make_child c d (if bd_parent_child (ch_budgets c) then Some pid else None) (length children)
         (occurrence_of counts key) u = Inr child"
    let ?pairs = "pairs @ [(key, occurrence_of counts key)]"
    have "map ck_chunk_id children' = map (\<lambda>kn. trim (key_id c d kn)) ?pairs"
      using make_child_spec [OF e(4)] p(1) by (simp add: e(1)) (simp add: e(3))
    moreover have "distinct ?pairs" using p(2,3) by auto
    moreover have "strip_newlines (snd (snd key)) = snd (snd key)" by (simp add: e(3) strip_newlines_def)
    then have "\<forall>(k, n) \<in> set ?pairs. n < occurrence_of counts' k \<and> strip_newlines (snd (snd k)) = snd (snd k)"
      using p(3) by (auto simp: e(2) occurrence_of_set less_Suc_eq)
    ultimately show ?thesis unfolding ids_inv_def st fst_conv snd_conv by blast
  qed (use assms(2) st in auto)
qed

lemma emit_child_words:
  assumes "emit_child c d pid n st u = Inr st'"
  shows "concat (map chunk_words (fst st')) = concat (map chunk_words (fst st)) @ unit_words n u"
proof -
  obtain children counts children' counts' where st: "st = (children, counts)" "st' = (children', counts')"
    by (cases st, cases st')
  from emit_child_cases [OF assms [unfolded st]] show ?thesis
    by (elim disjE exE conjE)
      (auto simp: st unit_words_def words_blank chunk_words_def words_trim dest!: make_child_spec)
qed

lemma emit_child_units:
  assumes "emit_child c d (span_parent_id c d blocks) (length blocks) st u = Inr st'"
    and "u \<in> set (fst (child_units (ch_count c) (ch_budgets c) blocks))" and "child \<in> set (fst st')"
  shows "child \<in> set (fst st) \<or> unit_child c d blocks u child"
proof -
  obtain children counts children' counts' where st: "st = (children, counts)" "st' = (children', counts')"
    by (cases st, cases st')
  from emit_child_cases [OF assms(1) [unfolded st]] assms(2,3) show ?thesis
    by (elim disjE exE conjE) (auto simp: st unit_child_def dest!: make_child_spec)
qed

lemma emit_child_adds:
  assumes "emit_child c d (span_parent_id c d blocks) (length blocks) st u = Inr st'"
    and "u \<in> set (fst (child_units (ch_count c) (ch_budgets c) blocks))"
  shows "set (fst st) \<subseteq> set (fst st') \<and> (emitted blocks u \<longrightarrow> (\<exists>child \<in> set (fst st'). unit_child c d blocks u child))"
proof -
  obtain children counts children' counts' where st: "st = (children, counts)" "st' = (children', counts')"
    by (cases st, cases st')
  from emit_child_cases [OF assms(1) [unfolded st]] assms(2) show ?thesis
    by (elim disjE exE conjE) (auto simp: st emitted_def unit_child_def dest!: make_child_spec)
qed

subsection \<open>Spans and documents\<close>

definition nonblank_span :: "content_block list \<Rightarrow> bool" where
  "nonblank_span blocks \<longleftrightarrow> py_strip (join_blocks blocks) \<noteq> []"

definition span_parent :: "chunker \<Rightarrow> string \<Rightarrow> content_block list \<Rightarrow> chunk \<Rightarrow> bool" where
  "span_parent c d blocks p \<longleftrightarrow> ck_chunk_id p = trim (span_parent_id c d blocks) \<and> ck_kind p = PARENT \<and>
     ck_document_id p = trim d \<and> ck_text p = trim (join_blocks blocks) \<and>
     ck_source_block_ids p = map (\<lambda>b. trim (cb_id b)) blocks"

definition span_words :: "chunker \<Rightarrow> content_block list \<Rightarrow> string list" where
  "span_words c blocks = concat (map (unit_words (length blocks)) (fst (child_units (ch_count c) (ch_budgets c) blocks)))"

definition units_emitted :: "chunker \<Rightarrow> string \<Rightarrow> content_block list \<Rightarrow> chunk list \<Rightarrow> bool" where
  "units_emitted c d blocks children \<longleftrightarrow> (\<forall>u \<in> set (fst (child_units (ch_count c) (ch_budgets c) blocks)).
     emitted blocks u \<longrightarrow> (\<exists>child \<in> set children. unit_child c d blocks u child))"

definition span_inv :: "chunker \<Rightarrow> string \<Rightarrow> content_block list list \<Rightarrow> chunking_state \<Rightarrow> bool" where
  "span_inv c d spans st \<longleftrightarrow>
     list_all2 (span_parent c d) (filter nonblank_span spans) (cs_parents st) \<and>
     ids_inv c d (cs_children st, cs_counts st) \<and>
     (\<forall>child \<in> set (cs_children st). \<exists>blocks u. blocks \<in> set spans \<and> nonblank_span blocks \<and> unit_child c d blocks u child) \<and>
     (\<forall>blocks \<in> set spans. nonblank_span blocks \<longrightarrow> units_emitted c d blocks (cs_children st)) \<and>
     concat (map chunk_words (cs_children st)) = concat (map (span_words c) (filter nonblank_span spans))"

lemma make_parent_spec: "make_parent c d k blocks = Inr p \<Longrightarrow> span_parent c d blocks p"
  by (auto simp: make_parent_def Let_def bind_res_Inr_iff mk_chunk_iff span_parent_def span_parent_id_def
      split: prod.splits)

lemma emit_span_cases:
  assumes "emit_span c d st blocks = Inr st'"
  shows "\<not> nonblank_span blocks \<and> st' = st \<or>
    nonblank_span blocks \<and> (\<exists>p. make_parent c d (length (cs_parents st)) blocks = Inr p \<and>
      cs_parents st' = cs_parents st @ [p] \<and>
      fold_res (emit_child c d (span_parent_id c d blocks) (length blocks)) (cs_children st, cs_counts st)
        (fst (child_units (ch_count c) (ch_budgets c) blocks)) = Inr (cs_children st', cs_counts st'))"
  using assms
  by (auto simp: emit_span_def nonblank_span_def bind_res_Inr_iff Let_def span_parent_id_def case_prod_beta
      split: if_splits)

lemma emit_units_inv:
  assumes "fold_res (emit_child c d (span_parent_id c d blocks) (length blocks)) st
      (fst (child_units (ch_count c) (ch_budgets c) blocks)) = Inr st'" and "ids_inv c d st"
  shows "ids_inv c d st' \<and> (\<forall>child \<in> set (fst st'). child \<in> set (fst st) \<or> (\<exists>u. unit_child c d blocks u child)) \<and>
    concat (map chunk_words (fst st')) = concat (map chunk_words (fst st)) @ span_words c blocks \<and>
    set (fst st) \<subseteq> set (fst st') \<and> units_emitted c d blocks (fst st')"
proof -
  let ?P = "\<lambda>us st'. ids_inv c d st' \<and>
      (\<forall>child \<in> set (fst st'). child \<in> set (fst st) \<or> (\<exists>u. unit_child c d blocks u child)) \<and>
      concat (map chunk_words (fst st')) = concat (map chunk_words (fst st)) @ concat (map (unit_words (length blocks)) us) \<and>
      set (fst st) \<subseteq> set (fst st') \<and>
      (\<forall>u \<in> set us. emitted blocks u \<longrightarrow> (\<exists>child \<in> set (fst st'). unit_child c d blocks u child))"
  have "?P (fst (child_units (ch_count c) (ch_budgets c) blocks)) st'"
  proof (rule fold_res_prefix [OF assms(1), where P = ?P])
    fix us u v w
    assume I: "?P us v" and u: "u \<in> set (fst (child_units (ch_count c) (ch_budgets c) blocks))"
      and e: "emit_child c d (span_parent_id c d blocks) (length blocks) v u = Inr w"
    note adds = emit_child_adds [OF e u]
    show "?P (us @ [u]) w"
    proof (intro conjI ballI impI)
      fix child assume "child \<in> set (fst w)"
      with emit_child_units [OF e u] I show "child \<in> set (fst st) \<or> (\<exists>u. unit_child c d blocks u child)" by blast
    next
      fix u' assume "u' \<in> set (us @ [u])" and em: "emitted blocks u'"
      then consider "u' \<in> set us" | "u' = u" by auto
      then show "\<exists>child \<in> set (fst w). unit_child c d blocks u' child"
        using I adds em by cases blast+
    next
      show "set (fst st) \<subseteq> set (fst w)" using I adds by blast
    qed (use I emit_child_ids [OF e] emit_child_words [OF e] in simp_all)
  qed (use assms(2) in simp)
  then show ?thesis by (simp add: span_words_def units_emitted_def)
qed

lemma emit_span_inv:
  assumes "emit_span c d st blocks = Inr st'" and "span_inv c d spans st"
  shows "span_inv c d (spans @ [blocks]) st'"
  using emit_span_cases [OF assms(1)]
proof (elim disjE conjE exE)
  fix p assume n: "nonblank_span blocks" and p: "make_parent c d (length (cs_parents st)) blocks = Inr p"
    "cs_parents st' = cs_parents st @ [p]"
    and e: "fold_res (emit_child c d (span_parent_id c d blocks) (length blocks)) (cs_children st, cs_counts st)
        (fst (child_units (ch_count c) (ch_budgets c) blocks)) = Inr (cs_children st', cs_counts st')"
  have "ids_inv c d (cs_children st, cs_counts st)" using assms(2) by (simp add: span_inv_def)
  note u = emit_units_inv [OF e this, unfolded fst_conv]
  have "list_all2 (span_parent c d) (filter nonblank_span (spans @ [blocks])) (cs_parents st')"
    using assms(2) n p make_parent_spec by (simp add: span_inv_def list_all2_appendI)
  moreover have "\<forall>child \<in> set (cs_children st'). \<exists>bs u. bs \<in> set (spans @ [blocks]) \<and> nonblank_span bs \<and> unit_child c d bs u child"
    using u assms(2) n unfolding span_inv_def by (metis Un_iff list.set_intros(1) set_append)
  moreover have "\<forall>bs \<in> set (spans @ [blocks]). nonblank_span bs \<longrightarrow> units_emitted c d bs (cs_children st')"
    using u assms(2) unfolding span_inv_def units_emitted_def by auto blast+
  ultimately show ?thesis using u assms(2) n by (simp add: span_inv_def)
next
  assume "\<not> nonblank_span blocks" and "st' = st"
  moreover have "\<forall>child \<in> set (cs_children st). \<exists>bs u. bs \<in> set (spans @ [blocks]) \<and> nonblank_span bs \<and> unit_child c d bs u child"
    using assms(2) unfolding span_inv_def by (metis Un_iff set_append)
  ultimately show ?thesis using assms(2) by (simp add: span_inv_def)
qed

lemma spans_inv:
  assumes "fold_res (emit_span c d) \<lparr>cs_parents = [], cs_children = [], cs_counts = [], cs_warnings = []\<rparr> spans = Inr st"
  shows "span_inv c d spans st"
proof (rule fold_res_prefix [OF assms])
  show "span_inv c d [] \<lparr>cs_parents = [], cs_children = [], cs_counts = [], cs_warnings = []\<rparr>"
    by (simp add: span_inv_def ids_inv_def)
qed (rule emit_span_inv)

lemma wire_fields [simp]:
  "map ck_chunk_id (wire_neighbors cs) = map ck_chunk_id cs" "map chunk_words (wire_neighbors cs) = map chunk_words cs"
  "length (wire_neighbors cs) = length cs"
proof -
  have "map f (wire_neighbors cs) = map f cs"
    if "\<And>i p n x. f (x\<lparr>ck_order := i, ck_previous_chunk_id := p, ck_next_chunk_id := n\<rparr>) = f x" for f :: "chunk \<Rightarrow> 'b"
    using that by (intro nth_equalityI) (simp_all add: wire_neighbors_def nth_enumerate_eq)
  from this [of ck_chunk_id] this [of chunk_words] show
    "map ck_chunk_id (wire_neighbors cs) = map ck_chunk_id cs" "map chunk_words (wire_neighbors cs) = map chunk_words cs"
    by (simp_all add: chunk_words_def)
qed (simp add: wire_neighbors_def)

lemma chunk_document_inv:
  assumes "chunk_document c parsed pid aid = Inr a"
  shows "\<exists>st. span_inv c (pd_document_id parsed) (group_parent_spans (pd_blocks parsed) (ch_count c) (ch_budgets c)) st \<and>
    ca_parents a = cs_parents st \<and> ca_children a = wire_neighbors (cs_children st) \<and>
    ca_chunk_artifact_id a = aid \<and>
    validate_chunk_artifact (ca_parents a) (ca_children a) (pd_document_id parsed)
      (bd_parent_child (ch_budgets c)) (bd_child_max (ch_budgets c)) = Inr ()"
  using assms by (auto simp: chunk_document_def Let_def bind_res_Inr_iff intro!: spans_inv)

lemma parents_words:
  assumes "span_inv c d spans st"
  shows "concat (map chunk_words (cs_parents st)) = concat (map block_words (concat spans))"
proof -
  have "list_all2 (span_parent c d) (filter nonblank_span spans) (cs_parents st)" using assms by (simp add: span_inv_def)
  then have "map chunk_words (cs_parents st) = map (\<lambda>s. py_split (join_blocks s)) (filter nonblank_span spans)"
    by (induction rule: list_all2_induct) (auto simp: chunk_words_def span_parent_def words_trim)
  moreover have "concat (map (\<lambda>s. py_split (join_blocks s)) (filter nonblank_span spans)) =
      concat (map (\<lambda>s. py_split (join_blocks s)) spans)"
    by (induction spans) (auto simp: nonblank_span_def words_blank)
  moreover have "concat (map (\<lambda>s. py_split (join_blocks s)) spans) = concat (map block_words (concat spans))"
    by (induction spans) (auto simp: words_join_blocks)
  ultimately show ?thesis by simp
qed

lemma children_words:
  assumes "span_inv c d spans st"
  shows "subseq (concat (map body_words (concat spans))) (concat (map chunk_words (cs_children st)))"
proof -
  have "concat (map body_words s) = []" if "\<not> nonblank_span s" for s
  proof -
    from that have "concat (map block_words s) = []"
      using words_blank words_join_blocks [of s] by (simp add: nonblank_span_def)
    then show ?thesis using bodies_sub [of s] by (simp del: concat_eq_Nil_conv)
  qed
  then have "subseq (concat (map body_words (concat spans))) (concat (map (span_words c) (filter nonblank_span spans)))"
  proof (induction spans)
    case (Cons s spans)
    then show ?case using child_units_words [of s "length s" "ch_count c" "ch_budgets c"]
      by (cases "nonblank_span s") (simp_all add: span_words_def list_emb_append_mono del: concat_eq_Nil_conv)
  qed simp
  then show ?thesis using assms by (simp add: span_inv_def)
qed

end
