(* ===== verification/Chunker_Total.thy ===== *)
theory Chunker_Total
  imports Chunker_Invariants
begin

section \<open>When chunking succeeds\<close>

text \<open>
  Well-formed parsed documents, digests without collisions, and the lemmas that every construction
  and every check of \<open>chunk_document\<close> then succeeds, except for a heading above the child limit that
  is alone in its span.
\<close>

definition locator_complete :: "source_locator option \<Rightarrow> bool" where
  "locator_complete l \<longleftrightarrow> (case l of None \<Rightarrow> True
     | Some l \<Rightarrow> (case (sl_line_start l, sl_line_end l) of
         (None, None) \<Rightarrow> True | (Some i, Some j) \<Rightarrow> i \<le> j | _ \<Rightarrow> False))"

definition wf_block :: "content_block \<Rightarrow> bool" where
  "wf_block b \<longleftrightarrow> is_nonempty_str (cb_id b) \<and> cb_text b \<noteq> [] \<and> py_strip (cb_text b) = cb_text b \<and>
     locator_complete (cb_source_locator b)"

definition wf_parsed :: "parsed_document \<Rightarrow> bool" where
  "wf_parsed p \<longleftrightarrow> is_nonempty_str (pd_document_id p) \<and> distinct (map cb_id (pd_blocks p)) \<and>
     list_all wf_block (pd_blocks p) \<and>
     list_all (\<lambda>(i, b). cb_order b = i \<and> cb_document_id b = pd_document_id p) (enumerate 0 (pd_blocks p))"

definition hash_ok :: "digest \<Rightarrow> (pyfloat \<Rightarrow> string) \<Rightarrow> bool" where
  "hash_ok sha fr \<longleftrightarrow> float_repr_ok fr \<and> (\<forall>a b. no_collision sha fr a b) \<and> (\<forall>bs. is_nonempty_str (sha bs))"

subsection \<open>Strings\<close>

lemma nonempty_strD: "is_nonempty_str s \<Longrightarrow> trim s = s" "is_nonempty_str s \<Longrightarrow> s \<noteq> []"
  by (auto simp: is_nonempty_str_iff)

lemma hashed_clean:
  assumes "hash_ok sha fr" and "p \<noteq> []" and "\<not> uni_isspace (hd p)"
  shows "trim (hashed sha fr p j) = hashed sha fr p j"
proof -
  let ?h = "sha (utf8 (json_dumps fr j))"
  have h: "?h \<noteq> []" "trim ?h = ?h" using assms(1) by (auto simp: hash_ok_def is_nonempty_str_iff)
  then have "\<not> uni_isspace (last ?h)" using strip_by_last [of uni_isspace ?h] by (simp add: trim_def)
  with h assms(2,3) show ?thesis by (auto simp: hashed_def trim_def intro!: strip_by_id)
qed

lemma key_id_clean: "hash_ok (ch_sha c) (ch_fr c) \<Longrightarrow> trim (key_id c d kn) = key_id c d kn"
  by (cases kn) (auto simp: key_id_def hashed_clean uni_isspace_def split: prod.split)

lemma span_parent_id_clean:
  "hash_ok (ch_sha c) (ch_fr c) \<Longrightarrow> trim (span_parent_id c d s) = span_parent_id c d s"
  by (simp add: span_parent_id_def parent_chunk_id_from_parts_def hashed_clean uni_isspace_def)

lemma ids_nonempty [simp]: "key_id c d kn \<noteq> []" "span_parent_id c d s \<noteq> []"
  by (auto simp: key_id_def hashed_def span_parent_id_def parent_chunk_id_from_parts_def split: prod.split)

lemma key_id_inj:
  assumes "hash_ok (ch_sha c) (ch_fr c)" and "key_id c d kn = key_id c d' kn'"
    and "strip_newlines (snd (snd (fst kn))) = snd (snd (fst kn))"
    and "strip_newlines (snd (snd (fst kn'))) = snd (snd (fst kn'))"
  shows "kn = kn' \<and> d = d'"
proof -
  obtain p i t n where kn: "kn = ((p, i, t), n)" by (metis prod.exhaust)
  obtain p' i' t' n' where kn': "kn' = ((p', i', t'), n')" by (metis prod.exhaust)
  have "canon (JObj (child_chunk_payload d (Some p) (ch_cfg_hash c) i t STRUCTURE_AWARE_CHUNKER_VERSION (int n))) =
    canon (JObj (child_chunk_payload d' (Some p') (ch_cfg_hash c) i' t' STRUCTURE_AWARE_CHUNKER_VERSION (int n')))"
    using assms(1,2) hashed_eq_iff [of "ch_fr c" "ch_sha c"] by (simp add: key_id_def kn kn' hash_ok_def del: canon.simps)
  with assms(3,4) show ?thesis by (simp add: child_payload_eq kn kn' or_empty_def del: canon.simps)
qed

lemma span_parent_id_inj:
  assumes "hash_ok (ch_sha c) (ch_fr c)" and "span_parent_id c d s = span_parent_id c d' s'"
  shows "map cb_id s = map cb_id s' \<and> d = d'"
proof -
  let ?p = "\<lambda>d s. [(''document_id'', JStr d), (''chunk_config_hash'', JStr (ch_cfg_hash c)),
     (''chunker_version'', JStr STRUCTURE_AWARE_CHUNKER_VERSION), (''source_block_ids'', jstrs (map cb_id s)),
     (''text'', JStr (strip_newlines (join_blocks s))), (''kind'', JStr ''parent'')]"
  have "canon (JObj (?p d s)) = canon (JObj (?p d' s'))"
    using assms hashed_eq_iff [of "ch_fr c" "ch_sha c" "JObj (?p d s)" "JObj (?p d' s')" "''parent_''"]
    by (simp only: span_parent_id_def parent_chunk_id_from_parts_def hash_ok_def)
  then have "map (\<lambda>m. canon (snd m)) (?p d s) = map (\<lambda>m. canon (snd m)) (?p d' s')"
    by (subst (asm) canon_fields) simp_all
  then show ?thesis by simp
qed

lemma child_ids_distinct:
  assumes "hash_ok (ch_sha c) (ch_fr c)" and "ids_inv c d (children, counts)"
  shows "distinct (map ck_chunk_id children)"
proof -
  from assms(2) obtain pairs where p: "map ck_chunk_id children = map (\<lambda>kn. trim (key_id c d kn)) pairs"
    "distinct pairs" "\<forall>(k, n) \<in> set pairs. n < occurrence_of counts k \<and> strip_newlines (snd (snd k)) = snd (snd k)"
    by (auto simp: ids_inv_def)
  have "inj_on (key_id c d) (set pairs)"
  proof (rule inj_onI)
    fix x y assume "x \<in> set pairs" "y \<in> set pairs" and e: "key_id c d x = key_id c d y"
    with p(3) have "strip_newlines (snd (snd (fst x))) = snd (snd (fst x))"
      "strip_newlines (snd (snd (fst y))) = snd (snd (fst y))" by (auto simp: case_prod_beta)
    with key_id_inj [OF assms(1) e] show "x = y" by blast
  qed
  then show ?thesis using p(1,2) by (simp add: key_id_clean [OF assms(1)] distinct_map)
qed

lemma parent_ids_distinct:
  assumes "hash_ok (ch_sha c) (ch_fr c)" and "span_inv c d spans st"
    and "distinct (map cb_id (concat spans))" and "[] \<notin> set spans"
  shows "distinct (map ck_chunk_id (cs_parents st))"
proof -
  have l: "list_all2 (span_parent c d) (filter nonblank_span spans) (cs_parents st)" using assms(2) by (simp add: span_inv_def)
  then have m: "map ck_chunk_id (cs_parents st) = map (span_parent_id c d) (filter nonblank_span spans)"
    by (induction rule: list_all2_induct) (simp_all add: span_parent_def span_parent_id_clean [OF assms(1)])
  have "distinct (concat (map (map cb_id) spans))" using assms(3) by (simp add: map_concat)
  then have "distinct (removeAll [] (map (map cb_id) spans))" by (simp add: distinct_concat_iff)
  moreover have "removeAll [] (map (map cb_id) spans) = map (map cb_id) spans"
    using assms(4) by (intro removeAll_id) auto
  ultimately have "distinct (map (map cb_id) spans)" by simp
  then have "distinct (map (map cb_id) (filter nonblank_span spans))" by (rule distinct_map_filter)
  then have "distinct (map (span_parent_id c d) (filter nonblank_span spans))"
    by (rule distinct_map_via) (use span_parent_id_inj [OF assms(1)] in blast)
  with m show ?thesis by simp
qed

subsection \<open>Chunks\<close>

lemma strip_trim: "py_strip s = s \<Longrightarrow> trim s = s"
proof -
  assume s: "py_strip s = s"
  have "s = [] \<or> \<not> py_isspace (hd s) \<and> \<not> py_isspace (last s)"
    using strip_by_hd [of py_isspace s] strip_by_last [of py_isspace s] s by (auto simp: py_strip_def)
  then show ?thesis unfolding trim_def by (auto intro!: strip_by_id dest: uni_py_isspace)
qed

lemma not_blank_trim: "py_strip s \<noteq> [] \<Longrightarrow> trim s \<noteq> []"
  by (rule nonblank_trim) (auto simp: nonblank_def py_strip_def)

lemma Min_le_Max: "(x :: nat) \<in> set xs \<Longrightarrow> y \<in> set ys \<Longrightarrow> x \<le> y \<Longrightarrow> Min (set xs) \<le> Max (set ys)"
  by (meson List.finite_set Max_ge Min_le order.trans)

lemma pages_in_order: "aggregate_pages bs = (i, j) \<Longrightarrow> \<not> range_reversed i j"
  by (auto simp: aggregate_pages_def Let_def range_reversed_def split: if_splits) (metis hd_in_set less_irrefl)

lemma lines_in_order:
  assumes "\<forall>b \<in> set bs. locator_complete (cb_source_locator b)" and "aggregate_lines bs = (i, j)"
  shows "\<not> range_reversed i j"
proof -
  let ?locs = "List.map_filter cb_source_locator bs"
  let ?s = "List.map_filter sl_line_start ?locs" and ?e = "List.map_filter sl_line_end ?locs"
  have c: "(sl_line_start l = None \<longleftrightarrow> sl_line_end l = None) \<and>
      (\<forall>a b. sl_line_start l = Some a \<longrightarrow> sl_line_end l = Some b \<longrightarrow> a \<le> b)" if "l \<in> set ?locs" for l
  proof -
    from that obtain b where "b \<in> set bs" "cb_source_locator b = Some l" by (auto simp: map_filter_in)
    with assms(1) have "locator_complete (Some l)" by metis
    then show ?thesis by (auto simp: locator_complete_def split: option.splits)
  qed
  show ?thesis
  proof (cases "?s = []")
    case True
    then have n: "sl_line_start l = None" if "l \<in> set ?locs" for l
      using that map_filter_in [of _ sl_line_start ?locs] by (cases "sl_line_start l") auto
    have "y \<notin> set ?e" for y
    proof
      assume "y \<in> set ?e"
      then obtain l where "l \<in> set ?locs" "sl_line_end l = Some y" using map_filter_in [of y sl_line_end ?locs] by blast
      with n c show False by (metis option.distinct(1))
    qed
    then have "?e = []" by (metis ex_in_conv set_empty)
    with True assms(2) show ?thesis by (auto simp: aggregate_lines_def range_reversed_def)
  next
    case False
    then have "hd ?s \<in> set ?s" by (rule hd_in_set)
    then obtain l a where l: "l \<in> set ?locs" "sl_line_start l = Some a" using map_filter_in [of "hd ?s" sl_line_start ?locs] by blast
    with c obtain b where b: "sl_line_end l = Some b" "a \<le> b" by (metis option.exhaust)
    then have "a \<in> set ?s" "b \<in> set ?e"
      using l map_filter_in [of a sl_line_start ?locs] map_filter_in [of b sl_line_end ?locs] by blast+
    then have "\<not> Max (set ?e) < Min (set ?s)" using b(2) Min_le_Max by (metis not_le)
    moreover have "?e \<noteq> []" using \<open>b \<in> set ?e\<close> by (metis empty_iff empty_set)
    moreover from this False assms(2) have "i = Some (Min (set ?s))" "j = Some (Max (set ?e))"
      by (auto simp: aggregate_lines_def Let_def)
    ultimately show ?thesis by (simp only: range_reversed_def prod.case option.case not_False_eq_True)
  qed
qed

text \<open>What a constructed chunk needs, on the strings before trimming.\<close>

lemma mk_chunk_total:
  assumes "strings_ok c" and "\<not> range_reversed (ck_page_start c) (ck_page_end c)"
    and "\<not> range_reversed (ck_line_start c) (ck_line_end c)" and "ck_source_block_ids c \<noteq> []"
    and "ck_kind c = PARENT \<Longrightarrow> ck_parent_chunk_id c = None \<and> ck_previous_chunk_id c = None \<and> ck_next_chunk_id c = None"
  shows "\<exists>d. mk_chunk c = Inr d"
  using assms by (auto simp: mk_chunk_iff validate_chunk_def)

lemma content_hash_total:
  "t \<noteq> [] \<Longrightarrow> chunk_content_hash c t = Inr (ch_sha c (utf8 t))"
  by (cases t) (auto simp: chunk_content_hash_def content_hash_from_bytes_def try_map_def utf8_def utf8_char_nonempty)

definition wf_unit :: "content_block list \<Rightarrow> bool" where
  "wf_unit bs \<longleftrightarrow> bs \<noteq> [] \<and> list_all wf_block bs"

lemma first_occ_nonempty: "xs \<noteq> [] \<Longrightarrow> first_occ xs \<noteq> []"
  by (metis set_empty set_first_occ)

lemma wf_unit_ids: "wf_unit bs \<Longrightarrow> \<forall>b \<in> set (map cb_id bs). trim b \<noteq> []"
  by (auto simp: wf_unit_def list_all_iff wf_block_def is_nonempty_str_iff)

lemma wf_unit_lines: "wf_unit bs \<Longrightarrow> aggregate_lines bs = (i, j) \<Longrightarrow> \<not> range_reversed i j"
  by (rule lines_in_order) (auto simp: wf_unit_def list_all_iff wf_block_def)

lemma content_type_clean: "trim (content_type_value t) \<noteq> []" "trim ''mixed'' \<noteq> []" "trim ''parent'' \<noteq> []"
  by (cases t) (simp_all add: trim_def strip_by_eq_Nil_iff uni_isspace_def)

lemma chunk_parent_total:
  assumes "hash_ok (ch_sha c) (ch_fr c)" and "is_nonempty_str d" and "wf_unit bs" and "nonblank_span bs"
  shows "\<exists>p. make_parent c d k bs = Inr p"
proof -
  obtain i j where pg: "aggregate_pages bs = (i, j)" by (cases "aggregate_pages bs")
  obtain m n where ln: "aggregate_lines bs = (m, n)" by (cases "aggregate_lines bs")
  have t: "join_blocks bs \<noteq> []" "trim (join_blocks bs) \<noteq> []"
    using assms(4) not_blank_trim by (auto simp: nonblank_span_def py_strip_def)
  have sha: "trim (ch_sha c x) \<noteq> []" for x using assms(1) by (auto simp: hash_ok_def is_nonempty_str_iff)
  have pid: "trim (span_parent_id c d bs) \<noteq> []" by (simp add: span_parent_id_clean [OF assms(1)])
  show ?thesis unfolding make_parent_def
    using assms(2,3) t sha pid pages_in_order [OF pg] wf_unit_lines [OF assms(3) ln] wf_unit_ids [OF assms(3)]
    by (simp add: pg ln content_hash_total span_parent_id_def [symmetric] Let_def)
      (rule mk_chunk_total, auto simp: strings_ok_def content_type_clean nonempty_strD wf_unit_def)
qed

lemma chunk_child_total:
  assumes "hash_ok (ch_sha c) (ch_fr c)" and "is_nonempty_str d" and "wf_unit (fst u)"
    and "py_strip (fst (snd u)) \<noteq> []" and "case p of None \<Rightarrow> True | Some x \<Rightarrow> trim x \<noteq> []"
  shows "\<exists>ch. make_child c d p k n u = Inr ch"
proof -
  obtain bs t mode where u: "u = (bs, t, mode)" by (metis prod_cases3)
  obtain i j where pg: "aggregate_pages bs = (i, j)" by (cases "aggregate_pages bs")
  obtain m q where ln: "aggregate_lines bs = (m, q)" by (cases "aggregate_lines bs")
  have t: "t \<noteq> []" "trim t \<noteq> []" using assms(4) not_blank_trim by (auto simp: u py_strip_def)
  have wf: "wf_unit bs" using assms(3) by (simp add: u)
  have sha: "trim (ch_sha c x) \<noteq> []" for x using assms(1) by (auto simp: hash_ok_def is_nonempty_str_iff)
  have ids: "first_occ (map cb_id bs) \<noteq> []" using wf by (simp add: wf_unit_def first_occ_nonempty)
  have kid: "trim (key_id c d kn) \<noteq> []" for kn by (simp add: key_id_clean [OF assms(1)])
  show ?thesis unfolding make_child_def u
    using assms(2,5) t sha kid ids pages_in_order [OF pg] wf_unit_lines [OF wf ln] wf_unit_ids [OF wf]
    by (simp add: pg ln content_hash_total child_id_key try_map_def Let_def split del: if_split)
      (rule mk_chunk_total, auto simp: strings_ok_def content_type_clean nonempty_strD first_occ_nonempty wf_unit_def)
qed

subsection \<open>Units\<close>

text \<open>The exception to the child limit: a heading on its own.\<close>

definition lone_heading :: "child_unit \<Rightarrow> bool" where
  "lone_heading u \<longleftrightarrow> (\<exists>h. u = ([h], join_blocks [h], MERGED) \<and> cb_content_type h = HEADING)"

definition unit_fits :: "token_counter \<Rightarrow> nat \<Rightarrow> content_block list \<Rightarrow> child_unit \<Rightarrow> bool" where
  "unit_fits cnt m blocks u \<longleftrightarrow> fst u \<noteq> [] \<and> set (fst u) \<subseteq> set blocks \<and>
     (snd (snd u) = OVERSIZED_UNSPLITTABLE \<or> cnt (fst (snd u)) \<le> m \<or> lone_heading u)"

definition buffer_fits :: "token_counter \<Rightarrow> nat \<Rightarrow> content_block list \<Rightarrow> bool" where
  "buffer_fits cnt m buf \<longleftrightarrow> buf = [] \<or> cnt (join_blocks buf) \<le> m \<or> (\<exists>h. buf = [h] \<and> cb_content_type h = HEADING)"

lemma unit_fits_mono: "unit_fits cnt m xs u \<Longrightarrow> set xs \<subseteq> set ys \<Longrightarrow> unit_fits cnt m ys u"
  by (auto simp: unit_fits_def)

lemma merged_fits: "buffer_fits cnt m buf \<Longrightarrow> set buf \<subseteq> set blocks \<Longrightarrow> u \<in> set (merged_unit buf) \<Longrightarrow> unit_fits cnt m blocks u"
  by (auto simp: merged_unit_def buffer_fits_def unit_fits_def lone_heading_def split: if_splits)

lemma part_fits: "b \<in> set blocks \<Longrightarrow> unit_fits cnt m blocks (part_unit cnt m b p)"
  by (simp add: unit_fits_def part_unit_def)

lemma join_one: "wf_block b \<Longrightarrow> join_blocks [b] = cb_text b"
  by (simp add: join_blocks_def wf_block_def)

lemma unit_step_fits:
  assumes "buffer_fits cnt (bd_child_max bd) buf" and "set buf \<subseteq> set done_blocks"
    and "\<forall>u \<in> set units. unit_fits cnt (bd_child_max bd) done_blocks u" and "wf_block b"
    and "unit_step cnt bd (buf, units, ws) b = (buf', units', ws')"
  shows "buffer_fits cnt (bd_child_max bd) buf' \<and> set buf' \<subseteq> set (done_blocks @ [b]) \<and>
    (\<forall>u \<in> set units'. unit_fits cnt (bd_child_max bd) (done_blocks @ [b]) u)"
proof -
  let ?m = "bd_child_max bd" and ?all = "done_blocks @ [b]"
  have old: "unit_fits cnt ?m ?all u" if "u \<in> set units" for u
    using unit_fits_mono [OF assms(3) [rule_format, OF that], of ?all] by auto
  have flush: "unit_fits cnt ?m ?all u" if "u \<in> set (merged_unit buf)" for u
    using merged_fits [OF assms(1) _ that, of ?all] assms(2) by auto
  have one: "buffer_fits cnt ?m [b]" if "\<not> ?m < cnt (cb_text b)"
    using that by (simp add: buffer_fits_def join_one [OF assms(4)])
  have cand: "buffer_fits cnt ?m (buf @ [b])" if "\<not> ?m < cnt (cb_text b)" "\<not> (buf \<noteq> [] \<and> ?m < cnt (join_blocks (buf @ [b])))"
    using that one by (cases "buf = []") (auto simp: buffer_fits_def)
  have candu: "unit_fits cnt ?m ?all u" if "buffer_fits cnt ?m (buf @ [b])" "u \<in> set (merged_unit (buf @ [b]))" for u
    using merged_fits [OF that(1) _ that(2), of ?all] assms(2) by auto
  consider "buf' = [b]" "units' = units" "cb_content_type b = HEADING"
    | "buf' = buf @ [b]" "units' = units" "buffer_fits cnt ?m (buf @ [b])"
    | "buf' = [b]" "units' = units @ merged_unit buf" "\<not> ?m < cnt (cb_text b)"
    | "buf' = []" "units' = units @ merged_unit (buf @ [b])" "buffer_fits cnt ?m (buf @ [b])"
    | "buf' = []" "units' = units @ merged_unit buf @ map (part_unit cnt ?m b) (split_block cnt ?m b)"
    using assms(5) cand by (auto simp: unit_step_def Let_def split: if_splits)
  then show ?thesis
  proof cases
    case 1
    then have "buffer_fits cnt ?m buf'" by (simp add: buffer_fits_def)
    with 1 old show ?thesis by auto
  next
    case 2
    with assms(2) old show ?thesis by auto
  next
    case 3
    with old flush one show ?thesis by auto
  next
    case 4
    moreover have "buffer_fits cnt ?m []" by (simp add: buffer_fits_def)
    ultimately show ?thesis using old candu by auto
  next
    case 5
    moreover have "buffer_fits cnt ?m []" by (simp add: buffer_fits_def)
    moreover have "unit_fits cnt ?m ?all (part_unit cnt ?m b p)" for p by (rule part_fits) simp
    ultimately show ?thesis using old flush by auto
  qed
qed

lemma child_units_fit:
  assumes "list_all wf_block blocks" and "u \<in> set (fst (child_units cnt bd blocks))"
  shows "unit_fits cnt (bd_child_max bd) blocks u"
proof -
  let ?P = "\<lambda>bs (st :: content_block list \<times> child_unit list \<times> string list).
      buffer_fits cnt (bd_child_max bd) (fst st) \<and> set (fst st) \<subseteq> set bs \<and>
      (\<forall>u \<in> set (fst (snd st)). unit_fits cnt (bd_child_max bd) bs u)"
  obtain buf units ws where st: "foldl (unit_step cnt bd) ([], [], []) blocks = (buf, units, ws)"
    by (metis prod_cases3)
  have "?P blocks (foldl (unit_step cnt bd) ([], [], []) blocks)"
  proof (rule foldl_prefix [where P = ?P])
    show "?P [] ([], [], [])" by (simp add: buffer_fits_def)
  next
    fix ys y t assume P: "?P ys t" and "y \<in> set blocks"
    then have "wf_block y" using assms(1) by (simp add: list_all_iff)
    obtain b us w where t: "t = (b, us, w)" by (metis prod_cases3)
    obtain b' us' w' where t': "unit_step cnt bd (b, us, w) y = (b', us', w')" by (metis prod_cases3)
    from P have "buffer_fits cnt (bd_child_max bd) b" "set b \<subseteq> set ys"
      "\<forall>u \<in> set us. unit_fits cnt (bd_child_max bd) ys u" by (simp_all add: t)
    from unit_step_fits [OF this \<open>wf_block y\<close> t']
    show "?P (ys @ [y]) (unit_step cnt bd t y)" unfolding t t' fst_conv snd_conv .
  qed
  then have P: "?P blocks (buf, units, ws)" unfolding st .
  from assms(2) have "u \<in> set units \<or> u \<in> set (merged_unit buf)" by (simp add: child_units_def st)
  then show ?thesis using P merged_fits [of cnt "bd_child_max bd" buf blocks u] by auto
qed

subsection \<open>Emission\<close>

lemma emit_child_total:
  assumes "hash_ok (ch_sha c) (ch_fr c)" and "is_nonempty_str d" and "wf_unit (fst u)"
  shows "\<exists>st'. emit_child c d (span_parent_id c d blocks) n st u = Inr st'"
proof -
  obtain children counts where st: "st = (children, counts)" by (cases st)
  obtain bs t mode where u: "u = (bs, t, mode)" by (metis prod_cases3)
  have "trim (span_parent_id c d blocks) \<noteq> []" by (simp add: span_parent_id_clean [OF assms(1)])
  then have mk: "\<exists>ch. make_child c d (if bd_parent_child (ch_budgets c) then Some (span_parent_id c d blocks) else None) k m u = Inr ch"
    if "py_strip t \<noteq> []" for k m
    using that by (intro chunk_child_total assms) (simp_all add: u)
  let ?p = "if bd_parent_child (ch_budgets c) then Some (span_parent_id c d blocks) else None"
  let ?key = "(or_empty ?p, first_occ (map cb_id bs), strip_newlines t)"
  show ?thesis
  proof (cases "py_strip t = [] \<or> heading_only n u")
    case False
    with mk obtain ch where "make_child c d ?p (length children) (occurrence_of counts ?key) u = Inr ch" by blast
    with False have "emit_child c d (span_parent_id c d blocks) n st u =
        Inr (children @ [ch], dict_set ?key (occurrence_of counts ?key + 1) counts)"
      by (simp only: emit_child_def st u prod.case if_False Let_def bind_res_simps de_Morgan_disj if_cancel)
    then show ?thesis by blast
  qed (auto simp: emit_child_def st u)
qed

lemma emit_span_total:
  assumes "hash_ok (ch_sha c) (ch_fr c)" and "is_nonempty_str d" and "wf_unit blocks"
  shows "\<exists>st'. emit_span c d st blocks = Inr st'"
proof (cases "nonblank_span blocks")
  case True
  from chunk_parent_total [OF assms True] obtain p where p: "make_parent c d (length (cs_parents st)) blocks = Inr p" by blast
  have "\<exists>r. fold_res (emit_child c d (span_parent_id c d blocks) (length blocks)) (cs_children st, cs_counts st)
      (fst (child_units (ch_count c) (ch_budgets c) blocks)) = Inr r"
  proof (rule fold_res_total)
    fix s u assume "u \<in> set (fst (child_units (ch_count c) (ch_budgets c) blocks))"
    then have "wf_unit (fst u)"
      using child_units_fit [of blocks u] assms(3) by (auto simp: unit_fits_def wf_unit_def list_all_iff)
    then show "\<exists>t. emit_child c d (span_parent_id c d blocks) (length blocks) s u = Inr t"
      by (rule emit_child_total [OF assms(1,2)])
  qed
  then show ?thesis using True p
    by (auto simp: emit_span_def nonblank_span_def Let_def span_parent_id_def case_prod_beta)
qed (simp add: emit_span_def nonblank_span_def)

end
