(* ===== verification/Chunker_Properties.thy ===== *)
theory Chunker_Properties
  imports Chunker_Total
begin

section \<open>Properties of the chunker\<close>

subsection \<open>Validation of wired children\<close>

lemma set_guard_Inr [simp]: "set_guard b m = Inr u \<longleftrightarrow> b"
  by (simp add: set_guard_def)

lemma enumerate0_iff: "(i, x) \<in> set (enumerate 0 xs) \<longleftrightarrow> i < length xs \<and> x = xs ! i"
  by (auto simp: in_set_enumerate_eq)

lemma wired_nth: "i < length cs \<Longrightarrow> wire_neighbors cs ! i = (cs ! i)\<lparr>ck_order := i,
    ck_previous_chunk_id := (if 0 < i then neighbor cs (i - 1) else None), ck_next_chunk_id := neighbor cs (i + 1)\<rparr>"
  by (simp add: wire_neighbors_def nth_enumerate_eq)

lemma wired_fields:
  assumes "i < length cs"
  shows "ck_chunk_id (wire_neighbors cs ! i) = ck_chunk_id (cs ! i)" "ck_order (wire_neighbors cs ! i) = i"
    "ck_previous_chunk_id (wire_neighbors cs ! i) = (if 0 < i then Some (ck_chunk_id (cs ! (i - 1))) else None)"
    "ck_next_chunk_id (wire_neighbors cs ! i) = (if Suc i < length cs then Some (ck_chunk_id (cs ! Suc i)) else None)"
  using assms by (cases i; simp add: wired_nth neighbor_def)+

lemma neighbor_wired: "neighbor (wire_neighbors cs) i = neighbor cs i"
  by (simp add: neighbor_def wired_fields)

lemma lookup_wired:
  assumes "distinct (map ck_chunk_id cs)" and "i < length cs"
  shows "map_of (dict_by ck_chunk_id (wire_neighbors cs)) (ck_chunk_id (cs ! i)) = Some (wire_neighbors cs ! i)"
proof -
  have "wire_neighbors cs ! i \<in> set (wire_neighbors cs)" using assms(2) by (intro nth_mem) simp
  then have "map_of (dict_by ck_chunk_id (wire_neighbors cs)) (ck_chunk_id (wire_neighbors cs ! i)) = Some (wire_neighbors cs ! i)"
    by (intro dict_by_distinct) (simp_all only: wire_fields assms(1))
  then show ?thesis by (simp only: wired_fields [OF assms(2)])
qed

lemma links_ok:
  assumes "distinct (map ck_chunk_id cs)" and i: "i < length cs"
  shows "check_link (dict_by ck_chunk_id (wire_neighbors cs)) ck_next_chunk_id ''previous''
      (ck_previous_chunk_id (wire_neighbors cs ! i)) (wire_neighbors cs ! i) = Inr ()"
    and "check_link (dict_by ck_chunk_id (wire_neighbors cs)) ck_previous_chunk_id ''next''
      (ck_next_chunk_id (wire_neighbors cs ! i)) (wire_neighbors cs ! i) = Inr ()"
    and "ck_previous_chunk_id (wire_neighbors cs ! i) \<noteq> Some (ck_chunk_id (wire_neighbors cs ! i))"
    and "ck_next_chunk_id (wire_neighbors cs ! i) \<noteq> Some (ck_chunk_id (wire_neighbors cs ! i))"
proof -
  note look = lookup_wired [OF assms(1)]
  have inj: "ck_chunk_id (cs ! a) = ck_chunk_id (cs ! b) \<longleftrightarrow> a = b" if "a < length cs" "b < length cs" for a b
    using that assms(1) nth_eq_iff_index_eq [of "map ck_chunk_id cs" a b] by simp
  show "check_link (dict_by ck_chunk_id (wire_neighbors cs)) ck_next_chunk_id ''previous''
      (ck_previous_chunk_id (wire_neighbors cs ! i)) (wire_neighbors cs ! i) = Inr ()"
  proof (cases i)
    case (Suc j)
    then have j: "j < length cs" using i by simp
    show ?thesis using i by (simp add: Suc wired_fields check_link_def look [OF j] set_guard_def wired_fields [OF j]
          del: map_of_eq_Some_iff)
  qed (use i in \<open>simp add: wired_fields check_link_def\<close>)
  show "check_link (dict_by ck_chunk_id (wire_neighbors cs)) ck_previous_chunk_id ''next''
      (ck_next_chunk_id (wire_neighbors cs ! i)) (wire_neighbors cs ! i) = Inr ()"
  proof (cases "Suc i < length cs")
    case True
    then show ?thesis using i by (simp add: wired_fields check_link_def look [OF True] set_guard_def
          wired_fields [OF True] del: map_of_eq_Some_iff)
  qed (use i in \<open>simp add: wired_fields check_link_def\<close>)
  show "ck_previous_chunk_id (wire_neighbors cs ! i) \<noteq> Some (ck_chunk_id (wire_neighbors cs ! i))"
    using i inj [of "i - 1" i] by (cases i) (simp_all add: wired_fields)
  show "ck_next_chunk_id (wire_neighbors cs ! i) \<noteq> Some (ck_chunk_id (wire_neighbors cs ! i))"
    using i inj [of "Suc i" i] by (simp add: wired_fields)
qed

lemma length_dict_by: "distinct (map key xs) \<Longrightarrow> length (dict_by key xs) = length xs"
  by (simp add: dict_by_distinct_map)

lemma dict_by_length: "length (dict_by key xs) = length xs \<Longrightarrow> distinct (map key xs)"
proof -
  assume l: "length (dict_by key xs) = length xs"
  have "set (map fst (dict_by key xs)) = set (map key xs)"
    using dict_by_in [of key xs] by (auto simp: map_of_eq_None_iff image_iff) force+
  then have "card (set (map key xs)) = length (map key xs)"
    using l distinct_card [OF distinct_dict_by, of key xs] by simp
  then show ?thesis by (rule card_distinct)
qed

text \<open>What the validator says of one child, apart from order and links.\<close>

definition child_sound :: "chunk list \<Rightarrow> string \<Rightarrow> bool \<Rightarrow> nat \<Rightarrow> chunk \<Rightarrow> bool" where
  "child_sound parents d parent_child child_max child \<longleftrightarrow> ck_kind child = CHILD \<and> ck_document_id child = d \<and>
     (if parent_child then (\<exists>p \<in> set parents. ck_parent_chunk_id child = Some (ck_chunk_id p) \<and> ck_chunk_id p \<noteq> [] \<and>
        set (ck_source_block_ids child) \<subseteq> set (ck_source_block_ids p)) else True) \<and>
     (ck_token_count child \<le> child_max \<or> oversized_flag child)"

lemma check_parent_link_iff:
  assumes "distinct (map ck_chunk_id parents)"
  shows "check_parent_link (dict_by ck_chunk_id parents) child = Inr () \<longleftrightarrow>
    (\<exists>p \<in> set parents. ck_parent_chunk_id child = Some (ck_chunk_id p) \<and> ck_chunk_id p \<noteq> [] \<and>
       set (ck_source_block_ids child) \<subseteq> set (ck_source_block_ids p))"
proof (cases "ck_parent_chunk_id child")
  case (Some i)
  show ?thesis
  proof (cases "map_of (dict_by ck_chunk_id parents) i")
    case None
    then show ?thesis using Some dict_by_None [of ck_chunk_id parents i] by (auto simp: check_parent_link_def)
  next
    case (Some p)
    note p = dict_by_SomeD [OF Some]
    have "q = p" if "q \<in> set parents" "ck_chunk_id q = i" for q
      using that p assms by (simp add: distinct_map inj_on_def)
    then have "(\<exists>q \<in> set parents. ck_parent_chunk_id child = Some (ck_chunk_id q) \<and> ck_chunk_id q \<noteq> [] \<and>
        set (ck_source_block_ids child) \<subseteq> set (ck_source_block_ids q)) \<longleftrightarrow>
        i \<noteq> [] \<and> set (ck_source_block_ids child) \<subseteq> set (ck_source_block_ids p)"
      unfolding \<open>ck_parent_chunk_id child = Some i\<close> option.inject using p by metis
    then show ?thesis using Some \<open>ck_parent_chunk_id child = Some i\<close>
      by (simp add: check_parent_link_def set_guard_def guard_res_def)
  qed
qed (simp add: check_parent_link_def)

lemma child_sound_wired:
  assumes "i < length cs"
  shows "child_sound parents d pc m (wire_neighbors cs ! i) = child_sound parents d pc m (cs ! i)"
  using assms by (simp add: child_sound_def wired_nth oversized_flag_def)

theorem validate_wired_iff:
  "validate_chunk_artifact parents (wire_neighbors cs) d pc m = Inr () \<longleftrightarrow>
     distinct (map ck_chunk_id parents) \<and> distinct (map ck_chunk_id cs) \<and>
     (\<forall>p \<in> set parents. ck_kind p = PARENT \<and> ck_document_id p = d) \<and>
     (\<forall>child \<in> set cs. child_sound parents d pc m child)"
proof (cases "distinct (map ck_chunk_id parents) \<and> distinct (map ck_chunk_id cs)")
  case False
  then show ?thesis
    using dict_by_length [of ck_chunk_id parents] dict_by_length [of ck_chunk_id "wire_neighbors cs"]
    by (auto simp: validate_chunk_artifact_def Let_def bind_res_Inr_iff)
next
  case True
  let ?W = "wire_neighbors cs"
  have child: "check_child (dict_by ck_chunk_id parents) (dict_by ck_chunk_id ?W) d pc m (i, ?W ! i) = Inr () \<longleftrightarrow>
      child_sound parents d pc m (cs ! i)" if i: "i < length cs" for i
    using links_ok [OF conjunct2 [OF True] i] check_parent_link_iff [OF conjunct1 [OF True], of "?W ! i"]
    by (simp add: check_child_def bind_res_Inr_iff child_sound_def [of _ _ _ _ "?W ! i"]
        flip: child_sound_wired [OF i]) (auto simp: wired_nth i)
  have chain: "check_chain ?W (i, ?W ! i) = Inr ()" if "i < length cs" for i
    using that by (cases i) (simp_all add: check_chain_def neighbor_wired wired_fields neighbor_def)
  have "(\<forall>x \<in> set (enumerate 0 ?W). check_child (dict_by ck_chunk_id parents) (dict_by ck_chunk_id ?W) d pc m x = Inr ()) \<longleftrightarrow>
      (\<forall>i < length cs. child_sound parents d pc m (cs ! i))"
    using child by (auto simp: enumerate0_iff)
  also have "\<dots> \<longleftrightarrow> (\<forall>child \<in> set cs. child_sound parents d pc m child)" by (metis in_set_conv_nth)
  finally show ?thesis using True chain
    by (auto simp: validate_chunk_artifact_def Let_def bind_res_Inr_iff length_dict_by check_parent_def enumerate0_iff)
qed

subsection \<open>Success\<close>

lemma wf_parsed_checks:
  "wf_parsed p \<Longrightarrow> for_each (check_block (pd_document_id p)) (enumerate 0 (pd_blocks p)) = Inr ()"
  by (auto simp: wf_parsed_def check_block_def bind_res_Inr_iff list_all_iff)

lemma wf_spans:
  assumes "wf_parsed p" and "s \<in> set (group_parent_spans (pd_blocks p) cnt bd)"
  shows "wf_unit s"
proof -
  have "set s \<subseteq> set (pd_blocks p)" using assms(2) spans_partition(1) [of "pd_blocks p" cnt bd] by (metis UN_upper set_concat)
  moreover have "s \<noteq> []" using assms(2) spans_partition(2) by metis
  ultimately show ?thesis using assms(1) by (auto simp: wf_parsed_def wf_unit_def list_all_iff)
qed

lemma nonblank_wf: "wf_block b \<Longrightarrow> b \<in> set s \<Longrightarrow> nonblank_span s"
proof -
  assume b: "wf_block b" "b \<in> set s"
  then have "block_words b \<noteq> []" by (auto simp: wf_block_def block_words_def words_eq_Nil nonblank_def)
  with b have "py_split (join_blocks s) \<noteq> []" by (auto simp: words_join_blocks)
  then show ?thesis by (auto simp: nonblank_span_def dest: words_blank)
qed

text \<open>The obstacle: a heading above the child limit that is a span of its own.\<close>

definition lone_big_heading :: "chunker \<Rightarrow> parsed_document \<Rightarrow> bool" where
  "lone_big_heading c p \<longleftrightarrow> list_ex (\<lambda>s. length s = 1 \<and> cb_content_type (hd s) = HEADING \<and>
     bd_child_max (ch_budgets c) < ch_count c (cb_text (hd s)))
     (group_parent_spans (pd_blocks p) (ch_count c) (ch_budgets c))"

lemma unit_child_fits:
  assumes "wf_unit s" and "unit_child c d s u child" and "\<not> (length s = 1 \<and> cb_content_type (hd s) = HEADING \<and>
     bd_child_max (ch_budgets c) < ch_count c (cb_text (hd s)))"
  shows "ck_token_count child \<le> bd_child_max (ch_budgets c) \<or> oversized_flag child"
proof -
  have wf: "list_all wf_block s" using assms(1) by (simp add: wf_unit_def)
  have u: "u \<in> set (fst (child_units (ch_count c) (ch_budgets c) s))" "\<not> heading_only (length s) u"
    "ck_token_count child = ch_count c (fst (snd u))" "oversized_flag child \<longleftrightarrow> snd (snd u) = OVERSIZED_UNSPLITTABLE"
    using assms(2) by (simp_all add: unit_child_def)
  from child_units_fit [OF wf u(1)] consider "oversized_flag child" | "ck_token_count child \<le> bd_child_max (ch_budgets c)"
    | "lone_heading u" "set (fst u) \<subseteq> set s" by (auto simp: unit_fits_def u)
  then show ?thesis
  proof cases
    case 3
    then obtain h where h: "u = ([h], join_blocks [h], MERGED)" "cb_content_type h = HEADING" "h \<in> set s"
      by (auto simp: lone_heading_def)
    with u(2) have "length s \<le> 1" by (auto simp: heading_only_def)
    with h(3) have "s = [h]" by (cases s) auto
    moreover have "join_blocks [h] = cb_text h" using wf h(3) by (intro join_one) (simp add: list_all_iff)
    ultimately show ?thesis using assms(3) h u(3) by auto
  qed auto
qed

lemma list_all2_span: "list_all2 P xs ys \<Longrightarrow> x \<in> set xs \<Longrightarrow> \<exists>y \<in> set ys. P x y"
  by (metis in_set_conv_nth list_all2_conv_all_nth)

lemma span_children_sound:
  assumes h: "hash_ok (ch_sha c) (ch_fr c)" and wf: "wf_parsed p"
    and inv: "span_inv c (pd_document_id p) (group_parent_spans (pd_blocks p) (ch_count c) (ch_budgets c)) st"
    and "\<not> lone_big_heading c p" and child: "child \<in> set (cs_children st)"
  shows "child_sound (cs_parents st) (pd_document_id p) (bd_parent_child (ch_budgets c)) (bd_child_max (ch_budgets c)) child"
proof -
  let ?d = "pd_document_id p" and ?spans = "group_parent_spans (pd_blocks p) (ch_count c) (ch_budgets c)"
  from inv child obtain s u where s: "s \<in> set ?spans" "nonblank_span s" and uc: "unit_child c ?d s u child"
    unfolding span_inv_def by blast
  have wfs: "wf_unit s" using wf s(1) by (rule wf_spans)
  have fits: "ck_token_count child \<le> bd_child_max (ch_budgets c) \<or> oversized_flag child"
    using assms(4) s(1) by (intro unit_child_fits [OF wfs uc]) (auto simp: lone_big_heading_def list_ex_iff)
  from inv s obtain q where q: "q \<in> set (cs_parents st)" "span_parent c ?d s q"
    using list_all2_span [of "span_parent c ?d" "filter nonblank_span ?spans" "cs_parents st" s] by (auto simp: span_inv_def)
  have "set (fst u) \<subseteq> set s" using child_units_fit [of s u] uc wfs by (auto simp: unit_child_def unit_fits_def wf_unit_def)
  then have "set (ck_source_block_ids child) \<subseteq> set (ck_source_block_ids q)"
    using uc q(2) by (auto simp: unit_child_def span_parent_def)
  moreover have "trim ?d = ?d" using wf by (simp add: wf_parsed_def is_nonempty_str_iff)
  moreover have "ck_chunk_id q \<noteq> []" using q(2) by (simp add: span_parent_def span_parent_id_clean [OF h])
  moreover have "ck_parent_chunk_id child = Some (ck_chunk_id q)" if "bd_parent_child (ch_budgets c)"
    using uc q(2) that by (simp add: unit_child_def span_parent_def)
  ultimately have "\<exists>q \<in> set (cs_parents st). ck_parent_chunk_id child = Some (ck_chunk_id q) \<and> ck_chunk_id q \<noteq> [] \<and>
      set (ck_source_block_ids child) \<subseteq> set (ck_source_block_ids q)" if "bd_parent_child (ch_budgets c)"
    using that q(1) by blast
  moreover have "ck_kind child = CHILD" "ck_document_id child = ?d"
    using uc \<open>trim ?d = ?d\<close> by (simp_all add: unit_child_def)
  ultimately show ?thesis using fits by (simp add: child_sound_def)
qed

lemma span_parents_sound:
  assumes "span_inv c d spans st" and "trim d = d" and "q \<in> set (cs_parents st)"
  shows "ck_kind q = PARENT \<and> ck_document_id q = d"
proof -
  have "list_all2 (span_parent c d) (filter nonblank_span spans) (cs_parents st)" using assms(1) by (simp add: span_inv_def)
  with assms(3) obtain s where "span_parent c d s q" by (metis in_set_conv_nth list_all2_conv_all_nth)
  with assms(2) show ?thesis by (simp add: span_parent_def)
qed

lemma chunking_succeeds:
  assumes h: "hash_ok (ch_sha c) (ch_fr c)" and wf: "wf_parsed p" and n: "\<not> lone_big_heading c p"
  shows "\<exists>a. chunk_document c p pid aid = Inr a"
proof -
  let ?d = "pd_document_id p" and ?bd = "ch_budgets c"
  let ?spans = "group_parent_spans (pd_blocks p) (ch_count c) ?bd"
  have d: "is_nonempty_str ?d" "trim ?d = ?d" using wf by (simp_all add: wf_parsed_def is_nonempty_str_iff)
  have "\<exists>st. fold_res (emit_span c ?d) \<lparr>cs_parents = [], cs_children = [], cs_counts = [], cs_warnings = []\<rparr> ?spans = Inr st"
    by (rule fold_res_total) (rule emit_span_total [OF h d(1) wf_spans [OF wf]])
  then obtain st where st: "fold_res (emit_span c ?d)
      \<lparr>cs_parents = [], cs_children = [], cs_counts = [], cs_warnings = []\<rparr> ?spans = Inr st" by blast
  note inv = spans_inv [OF st]
  have "distinct (map cb_id (concat ?spans))" using wf by (simp add: spans_partition wf_parsed_def)
  then have "distinct (map ck_chunk_id (cs_parents st))"
    by (rule parent_ids_distinct [OF h inv]) (rule spans_partition)
  moreover have "distinct (map ck_chunk_id (cs_children st))"
    using inv child_ids_distinct [OF h] by (metis span_inv_def)
  ultimately have "validate_chunk_artifact (cs_parents st) (wire_neighbors (cs_children st)) ?d
      (bd_parent_child ?bd) (bd_child_max ?bd) = Inr ()"
    unfolding validate_wired_iff
    using span_parents_sound [OF inv d(2)] span_children_sound [OF h wf inv n] by blast
  then show ?thesis using st by (simp add: chunk_document_def Let_def wf_parsed_checks [OF wf])
qed

lemma big_heading_fails:
  assumes wf: "wf_parsed p" and n: "lone_big_heading c p"
  shows "chunk_document c p pid aid \<noteq> Inr a"
proof
  assume "chunk_document c p pid aid = Inr a"
  from chunk_document_inv [OF this] obtain st where
    inv: "span_inv c (pd_document_id p) (group_parent_spans (pd_blocks p) (ch_count c) (ch_budgets c)) st"
    and v: "validate_chunk_artifact (cs_parents st) (wire_neighbors (cs_children st)) (pd_document_id p)
      (bd_parent_child (ch_budgets c)) (bd_child_max (ch_budgets c)) = Inr ()" by metis
  from n obtain s where s: "s \<in> set (group_parent_spans (pd_blocks p) (ch_count c) (ch_budgets c))" "length s = 1"
    "cb_content_type (hd s) = HEADING" "bd_child_max (ch_budgets c) < ch_count c (cb_text (hd s))"
    by (auto simp: lone_big_heading_def list_ex_iff)
  then obtain h where h: "s = [h]" by (auto simp: length_Suc_conv)
  have wfh: "wf_block h" using wf_spans [OF wf s(1)] by (simp add: h wf_unit_def)
  let ?u = "([h], join_blocks [h], MERGED)"
  have "fst (child_units (ch_count c) (ch_budgets c) s) = [?u]"
    using s(3) by (simp add: child_units_def h unit_step_def merged_unit_def)
  moreover have "emitted s ?u" using wfh by (simp add: emitted_def heading_only_def h join_one) (simp add: wf_block_def)
  moreover have "nonblank_span s" using nonblank_wf [OF wfh] by (simp add: h)
  ultimately obtain child where c: "child \<in> set (cs_children st)" "unit_child c (pd_document_id p) s ?u child"
    using inv s(1) unfolding span_inv_def units_emitted_def by fastforce
  then have "child_sound (cs_parents st) (pd_document_id p) (bd_parent_child (ch_budgets c)) (bd_child_max (ch_budgets c)) child"
    using v unfolding validate_wired_iff by blast
  with c(2) s(4) show False by (simp add: child_sound_def unit_child_def h join_one [OF wfh])
qed

subsection \<open>Theorems\<close>

text \<open>C12: Chunking loses no content. Whenever a document is chunked, the words of its parents in order are
  exactly the words of its blocks, and the words of all its blocks but the headings occur, in order,
  in the words of its children (a split table repeats its header, a heading is kept with what follows
  it or left to the parent).\<close>

theorem chunking_keeps_words:
  "case chunk_document c p pid aid of
     Inl _ \<Rightarrow> True
   | Inr a \<Rightarrow> concat (map chunk_words (ca_parents a)) = concat (map block_words (pd_blocks p)) \<and>
       subseq (concat (map body_words (pd_blocks p))) (concat (map chunk_words (ca_children a)))"
proof (cases "chunk_document c p pid aid")
  case (Inr a)
  from chunk_document_inv [OF Inr] obtain st where
    inv: "span_inv c (pd_document_id p) (group_parent_spans (pd_blocks p) (ch_count c) (ch_budgets c)) st"
    and a: "ca_parents a = cs_parents st" "ca_children a = wire_neighbors (cs_children st)" by blast
  show ?thesis using parents_words [OF inv] children_words [OF inv] by (simp add: Inr a spans_partition)
qed simp

text \<open>C34: When chunking succeeds: for a well-formed parsed document (ordered blocks of the document with
  distinct ids and trimmed text, line numbers given in pairs) and a digest without collisions, exactly
  when no heading above the child limit is a parent of its own. So every other oversized block is split
  or flagged, all ids are distinct, and no check of the validator fails.\<close>

theorem chunking_succeeds_iff:
  assumes "wf_parsed p" and "hash_ok (ch_sha c) (ch_fr c)"
  shows "(\<exists>a. chunk_document c p pid aid = Inr a) \<longleftrightarrow> \<not> lone_big_heading c p"
  using chunking_succeeds [OF assms(2,1)] big_heading_fails [OF assms(1)] by blast

definition sample_clean_digest :: digest where
  "sample_clean_digest bs = ''x'' @ sample_digest bs @ ''x''"

lemma sample_hash_ok: "hash_ok sample_clean_digest sample_float_repr"
proof -
  have "trim (sample_clean_digest bs) = sample_clean_digest bs" for bs
    unfolding trim_def by (rule strip_by_id) (simp add: sample_clean_digest_def uni_isspace_def)
  then show ?thesis
    by (auto simp: hash_ok_def sample_float_repr_ok no_collision_def sample_clean_digest_def is_nonempty_str_iff
        dest: sample_digest_inj)
qed

definition sample_chunker :: chunker where
  "sample_chunker = \<lparr>ch_sha = sample_clean_digest, ch_fr = sample_float_repr, ch_count = fake_count,
     ch_tokenizer_name = ''fake'', ch_tokenizer_encoding = ''whitespace'',
     ch_budgets = \<lparr>bd_child_target = 2, bd_child_max = 3, bd_parent_target = 8, bd_parent_max = 16, bd_parent_child = True\<rparr>,
     ch_cfg_hash = ''cfg''\<rparr>"

definition sample_block :: "string \<Rightarrow> nat \<Rightarrow> content_type \<Rightarrow> string \<Rightarrow> content_block" where
  "sample_block i k t tx = \<lparr>cb_id = i, cb_document_id = ''doc'', cb_order = k, cb_content_type = t, cb_text = tx,
     cb_page_number = None, cb_section_path = [], cb_source_locator = None, cb_metadata = []\<rparr>"

definition sample_parsed :: "content_type \<Rightarrow> parsed_document" where
  "sample_parsed t = \<lparr>pd_document_id = ''doc'', pd_blocks = [sample_block ''b0'' 0 t ''annual leave of four weeks'']\<rparr>"

lemma sample_wf_parsed: "wf_parsed (sample_parsed t)"
  by (simp add: wf_parsed_def sample_parsed_def sample_block_def wf_block_def locator_complete_def is_nonempty_str_iff
      trim_def py_strip_def strip_by_def uni_isspace_def py_isspace_def)

lemma sample_spans: "group_parent_spans (pd_blocks (sample_parsed t)) fake_count bd = [pd_blocks (sample_parsed t)]"
  by (simp add: group_parent_spans_def sample_parsed_def sample_block_def unstructured_step_def close_span_def Let_def)

theorem chunking_succeeds_iff_witness:
  "(\<exists>a. chunk_document sample_chunker (sample_parsed TEXT_BLOCK) ''parsed'' ''artifact'' = Inr a) \<and>
   \<not> (\<exists>a. chunk_document sample_chunker (sample_parsed HEADING) ''parsed'' ''artifact'' = Inr a)"
proof -
  have h: "hash_ok (ch_sha sample_chunker) (ch_fr sample_chunker)" by (simp add: sample_chunker_def sample_hash_ok)
  have "fake_count ''annual leave of four weeks'' = 5"
    by (simp add: fake_count_words py_isspace_def)
  then have "lone_big_heading sample_chunker (sample_parsed t) \<longleftrightarrow> t = HEADING" for t
    unfolding lone_big_heading_def sample_chunker_def chunker.simps sample_spans
    by (simp add: sample_parsed_def sample_block_def)
  with chunking_succeeds_iff [OF sample_wf_parsed h] show ?thesis by blast
qed

end
