(* ===== verification/Chunker_Store.thy ===== *)
theory Chunker_Store
  imports Chunker_Properties
begin

section \<open>Chunked documents in the structure store\<close>

text \<open>
  The composition of the chunker with the store of \<open>context/store.py\<close>: the artifacts of different
  documents load into one store, whose two integrity reports are empty; and where the composition
  with clipping breaks.
\<close>

subsection \<open>Loading\<close>

definition by_id :: "chunk list \<Rightarrow> (string \<times> chunk) list" where
  "by_id cs = map (\<lambda>c. (ck_chunk_id c, c)) cs"

lemma index_chunks_fresh:
  "\<forall>c \<in> set cs. ck_kind c = kind \<Longrightarrow> distinct (map fst d @ map ck_chunk_id cs) \<Longrightarrow>
     index_chunks kind w dup a cs d = Inr (d @ by_id cs)"
proof (induction cs arbitrary: d)
  case (Cons c cs)
  then have f: "ck_chunk_id c \<notin> fst ` set d" by auto
  then have "map_of d (ck_chunk_id c) = None" by (simp add: map_of_eq_None_iff)
  moreover have "index_chunks kind w dup a cs (d @ [(ck_chunk_id c, c)]) = Inr ((d @ [(ck_chunk_id c, c)]) @ by_id cs)"
    using Cons.prems by (intro Cons.IH) auto
  ultimately show ?case using Cons.prems(1) by (simp add: update_fresh [OF f] by_id_def)
qed (simp add: by_id_def)

definition kinds_ok :: "chunk_artifact \<Rightarrow> bool" where
  "kinds_ok a \<longleftrightarrow> (\<forall>c \<in> set (ca_parents a). ck_kind c = PARENT) \<and> (\<forall>c \<in> set (ca_children a). ck_kind c = CHILD)"

lemma load_artifacts_fresh:
  assumes "list_all2 (\<lambda>i a. load i = Some a) ids arts" and "\<forall>a \<in> set arts. kinds_ok a"
    and "distinct (map fst cs @ map ck_chunk_id (concat (map ca_children arts)))"
    and "distinct (map fst ps @ map ck_chunk_id (concat (map ca_parents arts)))"
  shows "load_artifacts load ids (cs, ps) =
    Inr (cs @ by_id (concat (map ca_children arts)), ps @ by_id (concat (map ca_parents arts)))"
  using assms
proof (induction ids arts arbitrary: cs ps rule: list_all2_induct)
  case (Cons i ids a arts)
  have "index_chunks PARENT w dup (ca_chunk_artifact_id a) (ca_parents a) ps = Inr (ps @ by_id (ca_parents a))" for w dup
    using Cons.prems by (intro index_chunks_fresh) (auto simp: kinds_ok_def)
  moreover have "index_chunks CHILD w dup (ca_chunk_artifact_id a) (ca_children a) cs = Inr (cs @ by_id (ca_children a))" for w dup
    using Cons.prems by (intro index_chunks_fresh) (auto simp: kinds_ok_def)
  ultimately have "index_artifact a (cs, ps) = Inr (cs @ by_id (ca_children a), ps @ by_id (ca_parents a))"
    by (simp add: index_artifact_def)
  moreover have "load_artifacts load ids (cs @ by_id (ca_children a), ps @ by_id (ca_parents a)) =
      Inr ((cs @ by_id (ca_children a)) @ by_id (concat (map ca_children arts)),
           (ps @ by_id (ca_parents a)) @ by_id (concat (map ca_parents arts)))"
    using Cons.prems by (intro Cons.IH) (auto simp: by_id_def comp_def)
  ultimately show ?case using Cons.hyps by (simp add: by_id_def)
qed (simp add: by_id_def)

subsection \<open>What one artifact promises\<close>

text \<open>The ids of a document's chunks carry its id; links stay in the artifact.\<close>

definition child_tag :: "chunker \<Rightarrow> string \<Rightarrow> string \<Rightarrow> bool" where
  "child_tag c d i \<longleftrightarrow> (\<exists>kn. i = key_id c d kn \<and> strip_newlines (snd (snd (fst kn))) = snd (snd (fst kn)))"

definition parent_tag :: "chunker \<Rightarrow> string \<Rightarrow> string \<Rightarrow> bool" where
  "parent_tag c d i \<longleftrightarrow> (\<exists>s. i = span_parent_id c d s)"

definition linked_in :: "chunk list \<Rightarrow> string \<Rightarrow> string option \<Rightarrow> bool" where
  "linked_in cs d link \<longleftrightarrow> (case link of None \<Rightarrow> True
     | Some i \<Rightarrow> \<exists>n \<in> set cs. ck_chunk_id n = i \<and> ck_document_id n = d \<and> ck_kind n = CHILD)"

definition artifact_ok :: "chunker \<Rightarrow> string \<Rightarrow> chunk_artifact \<Rightarrow> bool" where
  "artifact_ok c d a \<longleftrightarrow> kinds_ok a \<and> distinct (map ck_chunk_id (ca_children a)) \<and> distinct (map ck_chunk_id (ca_parents a)) \<and>
     (\<forall>x \<in> set (ca_children a). child_tag c d (ck_chunk_id x)) \<and>
     (\<forall>x \<in> set (ca_parents a). parent_tag c d (ck_chunk_id x) \<and> ck_document_id x = d) \<and>
     (\<forall>x \<in> set (ca_children a). ck_document_id x = d \<and>
        linked_in (ca_children a) d (ck_previous_chunk_id x) \<and> linked_in (ca_children a) d (ck_next_chunk_id x) \<and>
        (if bd_parent_child (ch_budgets c) then \<exists>p \<in> set (ca_parents a). ck_parent_chunk_id x = Some (ck_chunk_id p) \<and> ck_chunk_id p \<noteq> []
         else ck_parent_chunk_id x = None))"

lemma tags_unique:
  assumes "hash_ok (ch_sha c) (ch_fr c)"
  shows "child_tag c d i \<Longrightarrow> child_tag c d' i \<Longrightarrow> d = d'" and "parent_tag c d i \<Longrightarrow> parent_tag c d' i \<Longrightarrow> d = d'"
proof -
  assume "child_tag c d i" and "child_tag c d' i"
  then obtain kn kn' where "key_id c d kn = key_id c d' kn'" "strip_newlines (snd (snd (fst kn))) = snd (snd (fst kn))"
    "strip_newlines (snd (snd (fst kn'))) = snd (snd (fst kn'))" unfolding child_tag_def by blast
  from key_id_inj [OF assms this] show "d = d'" by (rule conjunct2)
next
  assume "parent_tag c d i" and "parent_tag c d' i"
  then obtain s s' where "span_parent_id c d s = span_parent_id c d' s'" unfolding parent_tag_def by blast
  from span_parent_id_inj [OF assms this] show "d = d'" by (rule conjunct2)
qed

lemma ids_inv_tags:
  assumes "hash_ok (ch_sha c) (ch_fr c)" and "ids_inv c d st" and "x \<in> set (fst st)"
  shows "child_tag c d (ck_chunk_id x)"
proof -
  from assms(2) obtain pairs where p: "map ck_chunk_id (fst st) = map (\<lambda>kn. trim (key_id c d kn)) pairs"
    "\<forall>(k, n) \<in> set pairs. n < occurrence_of (snd st) k \<and> strip_newlines (snd (snd k)) = snd (snd k)"
    unfolding ids_inv_def by blast
  from assms(3) have "ck_chunk_id x \<in> set (map ck_chunk_id (fst st))" by simp
  then obtain kn where "kn \<in> set pairs" "ck_chunk_id x = key_id c d kn"
    unfolding p(1) by (auto simp: key_id_clean [OF assms(1)])
  moreover from this(1) p(2) have "strip_newlines (snd (snd (fst kn))) = snd (snd (fst kn))" by (cases kn) auto
  ultimately show ?thesis unfolding child_tag_def by blast
qed

lemma chunked_artifact_ok:
  assumes h: "hash_ok (ch_sha c) (ch_fr c)" and a: "chunk_document c p pid aid = Inr a"
  shows "artifact_ok c (pd_document_id p) (chunk_artifact.truncate a)"
proof -
  let ?d = "pd_document_id p"
  from chunk_document_inv [OF a] obtain st where
    inv: "span_inv c ?d (group_parent_spans (pd_blocks p) (ch_count c) (ch_budgets c)) st"
    and pa: "ca_parents a = cs_parents st" and ch: "ca_children a = wire_neighbors (cs_children st)"
    and v: "validate_chunk_artifact (cs_parents st) (wire_neighbors (cs_children st)) ?d
      (bd_parent_child (ch_budgets c)) (bd_child_max (ch_budgets c)) = Inr ()" by metis
  let ?cs = "cs_children st" and ?W = "wire_neighbors (cs_children st)"
  note v = v [unfolded validate_wired_iff]
  have sound: "child_sound (cs_parents st) ?d (bd_parent_child (ch_budgets c)) (bd_child_max (ch_budgets c)) (?cs ! i)"
    if "i < length ?cs" for i using v that by simp
  have linked: "linked_in ?W ?d (neighbor ?cs i)" for i
  proof (cases "i < length ?cs")
    case True
    then have "?W ! i \<in> set ?W" by (intro nth_mem) simp
    moreover have "ck_chunk_id (?W ! i) = ck_chunk_id (?cs ! i) \<and> ck_document_id (?W ! i) = ?d \<and> ck_kind (?W ! i) = CHILD"
      using sound [OF True] True by (simp add: wired_nth child_sound_def)
    ultimately show ?thesis using True by (auto simp: linked_in_def neighbor_def)
  qed (simp add: linked_in_def neighbor_def)
  have child_tags: "child_tag c ?d (ck_chunk_id x)" if "x \<in> set ?cs" for x
    using inv that ids_inv_tags [OF h, of ?d "(?cs, cs_counts st)" x] by (simp add: span_inv_def)
  have parent_tags: "parent_tag c ?d (ck_chunk_id x)" if "x \<in> set (cs_parents st)" for x
  proof -
    have "list_all2 (span_parent c ?d) (filter nonblank_span (group_parent_spans (pd_blocks p) (ch_count c) (ch_budgets c))) (cs_parents st)"
      using inv by (simp add: span_inv_def)
    with that obtain s where "span_parent c ?d s x" by (metis in_set_conv_nth list_all2_conv_all_nth)
    then show ?thesis by (auto simp: parent_tag_def span_parent_def span_parent_id_clean [OF h])
  qed
  have no_parent: "ck_parent_chunk_id x = None" if x: "x \<in> set ?cs" and n: "\<not> bd_parent_child (ch_budgets c)" for x
  proof -
    from inv x obtain s u where "unit_child c ?d s u x" unfolding span_inv_def by blast
    with n show ?thesis by (simp add: unit_child_def)
  qed
  have "child_tag c ?d (ck_chunk_id x) \<and> ck_kind x = CHILD \<and> ck_document_id x = ?d \<and>
      linked_in ?W ?d (ck_previous_chunk_id x) \<and> linked_in ?W ?d (ck_next_chunk_id x) \<and>
      (if bd_parent_child (ch_budgets c) then \<exists>q \<in> set (cs_parents st). ck_parent_chunk_id x = Some (ck_chunk_id q) \<and> ck_chunk_id q \<noteq> []
       else ck_parent_chunk_id x = None)" if x: "x \<in> set ?W" for x
  proof -
    from x obtain i where i: "i < length ?cs" "x = ?W ! i" by (metis in_set_conv_nth wire_fields(3))
    then have m: "?cs ! i \<in> set ?cs" by simp
    have prev: "linked_in ?W ?d (ck_previous_chunk_id x)" using linked [of "i - 1"] i by (simp add: wired_nth) (simp add: linked_in_def)
    have "linked_in ?W ?d (ck_next_chunk_id x)" using linked [of "i + 1"] i by (simp add: wired_nth)
    with prev sound [OF i(1)] child_tags [OF m] no_parent [OF m] show ?thesis
      by (auto simp: i(2) wired_nth [OF i(1)] child_sound_def split: if_splits)
  qed
  then show ?thesis using v parent_tags
    by (simp add: artifact_ok_def kinds_ok_def chunk_artifact.truncate_def pa ch)
qed

subsection \<open>The store of a corpus\<close>

lemma distinct_tagged:
  assumes "list_all2 P ts xss" and "distinct ts" and "\<And>t xs. P t xs \<Longrightarrow> distinct xs \<and> (\<forall>x \<in> set xs. tag t x)"
    and "\<And>t t' x. tag t x \<Longrightarrow> tag t' x \<Longrightarrow> t = t'"
  shows "distinct (concat xss) \<and> (\<forall>x \<in> set (concat xss). \<exists>t \<in> set ts. tag t x)"
  using assms(1,2)
proof (induction rule: list_all2_induct)
  case (Cons t ts xs xss)
  then have IH: "distinct (concat xss)" "\<forall>x \<in> set (concat xss). \<exists>t \<in> set ts. tag t x" by simp_all
  have xs: "distinct xs" "\<forall>x \<in> set xs. tag t x" using assms(3) [OF Cons.hyps(1)] by blast+
  have "set xs \<inter> set (concat xss) = {}"
  proof (rule ccontr)
    assume "set xs \<inter> set (concat xss) \<noteq> {}"
    then obtain x where "x \<in> set xs" "x \<in> set (concat xss)" by blast
    with IH xs obtain t' where "t' \<in> set ts" "tag t x" "tag t' x" by blast
    with assms(4) Cons.prems show False by auto
  qed
  with IH xs show ?case by auto
qed simp

lemma by_id_fields: "map snd (by_id cs) = cs" "map fst (by_id cs) = map ck_chunk_id cs"
  "set (by_id cs) = (\<lambda>c. (ck_chunk_id c, c)) ` set cs"
  by (simp_all add: by_id_def comp_def)

lemma map_of_by_id: "distinct (map ck_chunk_id cs) \<Longrightarrow> c \<in> set cs \<Longrightarrow> map_of (by_id cs) (ck_chunk_id c) = Some c"
  by (rule map_of_is_SomeI) (simp_all add: by_id_fields)

lemma store_links:
  assumes "linked_in (ca_children a) d link" and "a \<in> set arts" and "distinct (map ck_chunk_id (concat (map ca_children arts)))"
    and "st_children s = by_id (concat (map ca_children arts))" and "ck_document_id child = d"
  shows "neighbor_link_problems s i child nm link = []"
proof (cases link)
  case (Some j)
  with assms(1) obtain n where n: "n \<in> set (ca_children a)" "ck_chunk_id n = j" "ck_document_id n = d" "ck_kind n = CHILD"
    by (auto simp: linked_in_def)
  then have "n \<in> set (concat (map ca_children arts))" using assms(2) by auto
  from map_of_by_id [OF assms(3) this] have "map_of (st_children s) j = Some n" by (simp only: assms(4) n(2))
  with n assms(5) Some show ?thesis by (simp add: neighbor_link_problems_def del: map_of_eq_Some_iff)
qed (simp add: neighbor_link_problems_def)

text \<open>A chunked corpus: each document with its parsed and artifact ids, and the artifact it gives.\<close>

definition chunked_corpus :: "chunker \<Rightarrow> (parsed_document \<times> string \<times> string) list \<Rightarrow> chunk_artifact list \<Rightarrow> bool" where
  "chunked_corpus c jobs arts \<longleftrightarrow> distinct (map (\<lambda>(p, _, _). pd_document_id p) jobs) \<and>
     list_all2 (\<lambda>(p, pid, aid) a. \<exists>d. chunk_document c p pid aid = Inr d \<and> a = chunk_artifact.truncate d) jobs arts"

lemma corpus_artifacts:
  assumes "hash_ok (ch_sha c) (ch_fr c)" and "chunked_corpus c jobs arts"
  shows "list_all2 (\<lambda>d a. artifact_ok c d a) (map (\<lambda>(p, _, _). pd_document_id p) jobs) arts"
  using assms(2) chunked_artifact_ok [OF assms(1)]
  by (auto simp: chunked_corpus_def list_all2_map1 elim!: list_all2_mono)

text \<open>C35: A chunked corpus is structurally sound in the store. When every document of a corpus (documents
  distinct) is chunked and the manifest's artifacts are those, the store loads, holds exactly their
  children and parents in order, and both integrity reports are empty: every neighbour and parent link
  resolves within the document. Without parent chunking no child names a parent.\<close>

theorem chunked_corpus_sound:
  assumes "hash_ok (ch_sha c) (ch_fr c)" and "chunked_corpus c jobs arts" and "list_all2 (\<lambda>i a. load i = Some a) ids arts"
  shows "\<exists>s. load_structure_store load ids csid cid = Inr s \<and>
    map snd (st_children s) = concat (map ca_children arts) \<and> map snd (st_parents s) = concat (map ca_parents arts) \<and>
    validate_neighbor_links s = [] \<and>
    (if bd_parent_child (ch_budgets c) then validate_parent_links s = []
     else list_all (\<lambda>x. ck_parent_chunk_id x = None) (concat (map ca_children arts)))"
proof -
  let ?cs = "concat (map ca_children arts)" and ?ps = "concat (map ca_parents arts)"
  let ?docs = "map (\<lambda>(p, _, _). pd_document_id p) jobs"
  note ok = corpus_artifacts [OF assms(1,2)] and tags = tags_unique [OF assms(1)]
  have docs: "distinct ?docs" using assms(2) by (simp add: chunked_corpus_def)
  have lc: "list_all2 (\<lambda>d xs. distinct xs \<and> (\<forall>x \<in> set xs. child_tag c d x)) ?docs (map (\<lambda>a. map ck_chunk_id (ca_children a)) arts)"
    and lp: "list_all2 (\<lambda>d xs. distinct xs \<and> (\<forall>x \<in> set xs. parent_tag c d x)) ?docs (map (\<lambda>a. map ck_chunk_id (ca_parents a)) arts)"
    using ok by (auto simp: list_all2_map2 artifact_ok_def elim!: list_all2_mono)
  have dc: "distinct (map ck_chunk_id ?cs)"
    using distinct_tagged [OF lc docs, where tag = "child_tag c"] tags(1) by (simp add: map_concat comp_def)
  have dp: "distinct (map ck_chunk_id ?ps)"
    using distinct_tagged [OF lp docs, where tag = "parent_tag c"] tags(2) by (simp add: map_concat comp_def)
  have each: "\<exists>d. artifact_ok c d a" if "a \<in> set arts" for a
    using ok that by (metis in_set_conv_nth list_all2_conv_all_nth)
  have "load_artifacts load ids ([], []) = Inr ([] @ by_id ?cs, [] @ by_id ?ps)"
    using assms(3) each dc dp by (intro load_artifacts_fresh) (auto simp: artifact_ok_def)
  then obtain s where s: "load_structure_store load ids csid cid = Inr s" "st_children s = by_id ?cs" "st_parents s = by_id ?ps"
    by (simp add: load_structure_store_def)
  have child: "neighbor_link_problems s (ck_chunk_id x) x n1 (ck_previous_chunk_id x) = [] \<and>
      neighbor_link_problems s (ck_chunk_id x) x n2 (ck_next_chunk_id x) = [] \<and>
      (if bd_parent_child (ch_budgets c) then \<exists>p. ck_parent_chunk_id x = Some (ck_chunk_id p) \<and> ck_chunk_id p \<noteq> [] \<and>
         map_of (st_parents s) (ck_chunk_id p) = Some p \<and> ck_document_id p = ck_document_id x
       else ck_parent_chunk_id x = None)" if x: "x \<in> set ?cs" for x n1 n2
  proof -
    from x obtain a where a: "a \<in> set arts" "x \<in> set (ca_children a)" by auto
    from each [OF a(1)] obtain d where d: "artifact_ok c d a" by blast
    with a(2) have l: "ck_document_id x = d" "linked_in (ca_children a) d (ck_previous_chunk_id x)"
      "linked_in (ca_children a) d (ck_next_chunk_id x)"
      and p: "if bd_parent_child (ch_budgets c) then \<exists>p \<in> set (ca_parents a). ck_parent_chunk_id x = Some (ck_chunk_id p) \<and>
         ck_chunk_id p \<noteq> [] \<and> ck_document_id p = d else ck_parent_chunk_id x = None"
      by (auto simp: artifact_ok_def split: if_splits)
    have "map_of (st_parents s) (ck_chunk_id p) = Some p" if "p \<in> set (ca_parents a)" for p
      unfolding s(3) by (rule map_of_by_id [OF dp]) (use that a(1) in auto)
    with p l(1) store_links [OF l(2) a(1) dc s(2) l(1)] store_links [OF l(3) a(1) dc s(2) l(1)] show ?thesis
      by (auto split: if_splits)
  qed
  have "validate_neighbor_links s = []"
    using child by (force simp: validate_neighbor_links_def s(2) by_id_fields split: option.splits if_splits)
  moreover have "validate_parent_links s = []" if "bd_parent_child (ch_budgets c)"
    using child that by (force simp: validate_parent_links_def s(2) by_id_fields split: option.splits)
  ultimately show ?thesis using s child by (auto simp: by_id_fields list_all_iff)
qed

theorem chunked_corpus_sound_witness:
  "\<exists>a s. load_structure_store [''artifact'' \<mapsto> a] [''artifact''] ''set-1'' ''corpus-1'' = Inr s \<and>
     validate_neighbor_links s = [] \<and> validate_parent_links s = []"
proof -
  have h: "hash_ok (ch_sha sample_chunker) (ch_fr sample_chunker)" by (simp add: sample_chunker_def sample_hash_ok)
  have "\<not> lone_big_heading sample_chunker (sample_parsed TEXT_BLOCK)"
    unfolding lone_big_heading_def sample_chunker_def chunker.simps sample_spans
    by (simp add: sample_parsed_def sample_block_def)
  from chunking_succeeds [OF h sample_wf_parsed this] obtain d where
    d: "chunk_document sample_chunker (sample_parsed TEXT_BLOCK) ''parsed'' ''artifact'' = Inr d" by blast
  then have "chunked_corpus sample_chunker [(sample_parsed TEXT_BLOCK, ''parsed'', ''artifact'')] [chunk_artifact.truncate d]"
    by (simp add: chunked_corpus_def)
  from chunked_corpus_sound [OF h this, where load = "[''artifact'' \<mapsto> chunk_artifact.truncate d]"
      and ids = "[''artifact'']" and csid = "''set-1''" and cid = "''corpus-1''"]
  show ?thesis by (auto simp: sample_chunker_def)
qed

subsection \<open>Split children and clipping\<close>

text \<open>
  A part of a split table repeats the header, so all parts but the first are no substring of the
  parent. The chunker records no span of the child in its metadata, and clipping then raises: a
  table of three lines, a child limit of four words, and a context of five in which the child fits.
\<close>

definition table_text :: string where
  "table_text = ''k v'' @ [CHR 0x0A] @ ''a 1'' @ [CHR 0x0A] @ ''b 2''"

definition second_part :: string where
  "second_part = ''k v'' @ [CHR 0x0A] @ ''b 2''"

lemma table_words: "fake_count table_text = 6" "fake_count second_part = 4"
  "fake_count (''k v'' @ [CHR 0x0A] @ ''a 1'') = 4"
  by (simp_all add: fake_count_words table_text_def second_part_def py_isspace_def)

lemma table_lines: "splitlines table_text = [''k v'', ''a 1'', ''b 2'']"
  by (simp add: splitlines_def table_text_def is_linebreak_def)

lemma second_part_missing: "occurrences second_part table_text 0 = []"
  by (subst occurrences.simps) (simp add: second_part_def table_text_def py_find_def)

theorem split_child_not_located:
  "split_block fake_count 4 (sample_block ''b0'' 0 TABLE table_text) = [''k v'' @ [CHR 0x0A] @ ''a 1'', second_part] \<and>
   try_emit_parent sha fr fake_count 5 [] (sample_parent\<lparr>ck_text := join_blocks [sample_block ''b0'' 0 TABLE table_text]\<rparr>)
     (sample_child\<lparr>ck_text := second_part\<rparr>) =
   Inl (Context_Structure_Error (''anchor c1 text not found in parent p1''))"
proof
  have "fake_count (join newline [''k v'', ''a 1'', ''b 2'']) = 6" "fake_count (join newline [''k v'', ''a 1'']) = 4"
    by (simp_all add: fake_count_words newline_def py_isspace_def)
  then show "split_block fake_count 4 (sample_block ''b0'' 0 TABLE table_text) = [''k v'' @ [CHR 0x0A] @ ''a 1'', second_part]"
    by (simp add: split_block_def sample_block_def split_table_text_def table_lines pack_def pack_flush_def pack_step_def)
      (simp add: newline_def second_part_def)
  have "join_blocks [sample_block ''b0'' 0 TABLE table_text] = table_text"
    by (simp add: join_blocks_def sample_block_def table_text_def py_strip_def strip_by_def py_isspace_def)
  then show "try_emit_parent sha fr fake_count 5 [] (sample_parent\<lparr>ck_text := join_blocks [sample_block ''b0'' 0 TABLE table_text]\<rparr>)
     (sample_child\<lparr>ck_text := second_part\<rparr>) = Inl (Context_Structure_Error (''anchor c1 text not found in parent p1''))"
    by (simp add: try_emit_parent_def rendered_count_def table_words Let_def locate_anchor_in_parent_def span_from_search_def
        second_part_missing sample_child_def sample_parent_def) (simp add: second_part_def)
qed

end
