(* ===== verification/Artifacts.thy ===== *)
theory Artifacts
  imports App_Errors
begin

section \<open>Stored artifacts and their manifests (domain/corpus.py, domain/chunking.py, domain/indexing.py)\<close>

text \<open>
  The immutable manifests a publication refers to, with the fields of their classes (times as text),
  and what reading one of their files gives: nothing there, something that is no such manifest, or
  the manifest.
\<close>

subsection \<open>Manifests\<close>

record corpus_document_entry =
  ce_document_id :: string
  ce_source_path :: string
  ce_source_name :: string
  ce_source_content_hash :: string
  ce_source_size_bytes :: int
  ce_source_media_type :: string
  ce_parser_name :: string
  ce_parser_version :: string
  ce_block_count :: int
  ce_processed_artifact :: string
  ce_processed_artifact_hash :: string
  ce_parsed_artifact_id :: string
  ce_parse_config_hash :: string
  ce_warnings_count :: int

record corpus_manifest =
  mc_schema_version :: string
  mc_corpus_id :: string
  mc_corpus_hash :: string
  mc_created_at :: string
  mc_config_hash :: string
  mc_documents :: "corpus_document_entry list"
  mc_parser_environment :: "(string \<times> json) list"
  mc_metadata :: "(string \<times> json) list"

record chunk_set_document_entry =
  se_document_id :: string
  se_parsed_artifact_id :: string
  se_chunk_artifact_id :: string
  se_chunk_artifact :: string
  se_chunk_artifact_hash :: string
  se_parent_count :: int
  se_child_count :: int

record chunk_set_manifest =
  mk_schema_version :: string
  mk_chunk_set_id :: string
  mk_corpus_id :: string
  mk_chunk_config_hash :: string
  mk_chunker_version :: string
  mk_tokenizer_name :: string
  mk_tokenizer_encoding :: string
  mk_documents :: "chunk_set_document_entry list"
  mk_total_parent_count :: int
  mk_total_child_count :: int
  mk_created_at :: string
  mk_metadata :: "(string \<times> json) list"

record dense_index_manifest =
  md_schema_version :: string
  md_index_id :: string
  md_corpus_id :: string
  md_chunk_set_id :: string
  md_embedding_config_hash :: string
  md_index_config_hash :: string
  md_index_contract_version :: string
  md_embedding_text_strategy :: string
  md_embedding_text_contract :: string
  md_embedding_model_id :: string
  md_embedding_model_revision :: string
  md_embedding_dimension :: int
  md_normalize :: bool
  md_similarity_metric :: string
  md_backend :: string
  md_backend_contract :: string
  md_collection_name :: string
  md_expected_child_count :: int
  md_indexed_child_count :: int
  md_created_at :: string
  md_metadata :: "(string \<times> json) list"

record lexical_index_manifest =
  ml_schema_version :: string
  ml_lexical_index_id :: string
  ml_corpus_id :: string
  ml_chunk_set_id :: string
  ml_lexical_config_hash :: string
  ml_text_strategy :: string
  ml_text_contract :: string
  ml_analyzer_strategy :: string
  ml_analyzer_contract :: string
  ml_bm25_contract :: string
  ml_bm25_k1 :: pyfloat
  ml_bm25_b :: pyfloat
  ml_bm25_idf :: string
  ml_bm25_query_tf :: string
  ml_backend :: string
  ml_backend_contract :: string
  ml_expected_child_count :: int
  ml_indexed_child_count :: int
  ml_document_count :: int
  ml_vocabulary_size :: int
  ml_avgdl :: pyfloat
  ml_physical_index_relpath :: string
  ml_created_at :: string
  ml_searchable_units_contract :: "string option"
  ml_chunk_set_child_count :: "int option"
  ml_zero_term_excluded_count :: "int option"
  ml_eligible_child_count :: "int option"
  ml_metadata :: "(string \<times> json) list"

subsection \<open>Reading a file\<close>

datatype 'a file_read = Missing_File | Corrupt_File | Loaded_File 'a

text \<open>\<open>Path(name)\<close>: absolute, or the last component under a root. \<open>pathlib\<close> drops empty and dot components.\<close>

datatype manifest_path = Absolute_Path string | Under_Root string

definition path_name :: "string \<Rightarrow> string" where
  "path_name p = (let parts = [x \<leftarrow> split_char CHR ''/'' p. x \<noteq> [] \<and> x \<noteq> ''.''] in
     if parts = [] then [] else last parts)"

definition manifest_file :: "string \<Rightarrow> manifest_path" where
  "manifest_file name = (if starts_with name ''/'' then Absolute_Path name else Under_Root (path_name name))"

end
