(* ===== verification/Publication.thy ===== *)
theory Publication
  imports Artifacts Retrieval_Types Core_Ids Lexical_Index
begin

section \<open>Product publication (app/publication.py, app/snapshot.py, app/corpus.py, app/workspace/retirement.py)\<close>

text \<open>
  A corpus is published by naming a snapshot: an immutable manifest of the artifacts an answer reads,
  identified by a hash of its fields, with a mutable pointer \<open>current.json\<close> to it. The model keeps the
  files of \<open>product/\<close> as texts. Reading and writing their JSON is pydantic's and a parameter
  (\<open>codecs\<close>); the artifacts outside \<open>product/\<close> are an argument (\<open>artifact_roots\<close>), one for each time
  they are read; \<open>write_outcomes\<close> says which of the file system's calls succeed.
\<close>

subsection \<open>Corpus names\<close>

definition validate_product_corpus_name :: "string \<Rightarrow> app_exc + string" where
  "validate_product_corpus_name name = (case validate_corpus_name name of
     Inr n \<Rightarrow> Inr n
   | Inl _ \<Rightarrow> (case mk_details (no_details\<lparr>sd_reason := Some ''invalid_corpus_name''\<rparr>) of
       Inl m \<Rightarrow> Inl (Details_Error m)
     | Inr d \<Rightarrow> Inl (Raised (app_error_of E_REQUEST_INVALID (Some ''Invalid corpus name'') (Trusted_Details d) None))))"

subsection \<open>Snapshots\<close>

definition PRODUCT_MODE_GROUNDED_V1 :: string where "PRODUCT_MODE_GROUNDED_V1 = ''grounded_v1''"
definition SNAPSHOT_SCHEMA_VERSION :: string where
  "SNAPSHOT_SCHEMA_VERSION = ''offline-rag-corpus-read-snapshot-v1''"

record canonical_snapshot =
  sn_schema_version :: string
  sn_product_mode_id :: string
  sn_corpus_id :: string
  sn_corpus_manifest :: string
  sn_chunk_set_id :: string
  sn_chunk_manifest :: string
  sn_dense_index_id :: string
  sn_dense_index_manifest :: string
  sn_lexical_index_id :: string
  sn_lexical_index_manifest :: string
  sn_embedding_config_hash :: string
  sn_index_config_hash :: string
  sn_lexical_config_hash :: string
  sn_fusion_config_hash :: string
  sn_reranker_config_hash :: string
  sn_context_config_hash :: string

definition snapshot_fields :: "canonical_snapshot \<Rightarrow> (string \<times> string) list" where
  "snapshot_fields m =
     [(''schema_version'', sn_schema_version m), (''product_mode_id'', sn_product_mode_id m),
      (''corpus_id'', sn_corpus_id m), (''corpus_manifest'', sn_corpus_manifest m),
      (''chunk_set_id'', sn_chunk_set_id m), (''chunk_manifest'', sn_chunk_manifest m),
      (''dense_index_id'', sn_dense_index_id m), (''dense_index_manifest'', sn_dense_index_manifest m),
      (''lexical_index_id'', sn_lexical_index_id m), (''lexical_index_manifest'', sn_lexical_index_manifest m),
      (''embedding_config_hash'', sn_embedding_config_hash m), (''index_config_hash'', sn_index_config_hash m),
      (''lexical_config_hash'', sn_lexical_config_hash m), (''fusion_config_hash'', sn_fusion_config_hash m),
      (''reranker_config_hash'', sn_reranker_config_hash m), (''context_config_hash'', sn_context_config_hash m)]"

definition snapshot_json :: "canonical_snapshot \<Rightarrow> json" where
  "snapshot_json m = JObj (map (\<lambda>(k, v). (k, JStr v)) (snapshot_fields m))"

definition compute_snapshot_id :: "digest \<Rightarrow> (pyfloat \<Rightarrow> string) \<Rightarrow> canonical_snapshot \<Rightarrow> string" where
  "compute_snapshot_id sha fr m =
     ''snap_'' @ removeprefix ''cfg_'' (canonical_config_hash sha fr (snapshot_json m))"

record corpus_read_snapshot =
  rn_corpus_name :: string
  rn_snapshot_id :: string
  rn_identity :: canonical_snapshot
  rn_corpus_manifest :: corpus_manifest

record document_summary =
  ds_document_id :: string
  ds_source_name :: string
  ds_content_type :: string
  ds_byte_size :: int
  ds_content_hash :: string

definition summary_of :: "corpus_document_entry \<Rightarrow> document_summary" where
  "summary_of e = \<lparr>ds_document_id = ce_document_id e, ds_source_name = ce_source_name e,
     ds_content_type = ce_source_media_type e, ds_byte_size = ce_source_size_bytes e,
     ds_content_hash = ce_source_content_hash e\<rparr>"

definition document_summaries :: "corpus_read_snapshot \<Rightarrow> document_summary list" where
  "document_summaries s = map summary_of (mc_documents (rn_corpus_manifest s))"

definition get_document_summary :: "corpus_read_snapshot \<Rightarrow> string \<Rightarrow> document_summary option" where
  "get_document_summary s d =
     map_option summary_of (find (\<lambda>e. ce_document_id e = d) (mc_documents (rn_corpus_manifest s)))"

subsection \<open>What a publication reads\<close>

record config_hashes =
  hs_embedding :: string
  hs_index :: string
  hs_lexical :: string
  hs_fusion :: string
  hs_reranker :: string
  hs_context :: string

text \<open>The vector store's client: either method may be missing, and counting may raise.\<close>

record vector_store =
  vs_collection_exists :: "(string \<Rightarrow> bool) option"
  vs_count :: "(string \<Rightarrow> int option) option"

record artifact_roots =
  ar_corpus :: "manifest_path \<Rightarrow> corpus_manifest file_read"
  ar_chunk :: "manifest_path \<Rightarrow> chunk_set_manifest file_read"
  ar_dense :: "manifest_path \<Rightarrow> dense_index_manifest file_read"
  ar_lexical :: "manifest_path \<Rightarrow> lexical_index_manifest file_read"
  ar_lexical_indexes :: index_root
  ar_vectors :: "vector_store option"
  ar_hashes :: config_hashes

definition refuse :: "error_code \<Rightarrow> string \<Rightarrow> app_exc + 'a" where
  "refuse code reason = raise_app code (no_details\<lparr>sd_reason := Some reason\<rparr>)"

definition require_that :: "bool \<Rightarrow> error_code \<Rightarrow> string \<Rightarrow> app_exc + unit" where
  "require_that ok code reason = (if ok then Inr () else refuse code reason)"

fun read_manifest :: "'a file_read \<Rightarrow> app_exc + 'a" where
  "read_manifest Missing_File = refuse E_SNAPSHOT_UNAVAILABLE ''artifact_missing''"
| "read_manifest Corrupt_File = refuse E_SNAPSHOT_UNAVAILABLE ''artifact_corrupt''"
| "read_manifest (Loaded_File m) = Inr m"

definition assert_current_config_matches :: "config_hashes \<Rightarrow> canonical_snapshot \<Rightarrow> app_exc + unit" where
  "assert_current_config_matches h m =
     bind_res (require_that (hs_embedding h = sn_embedding_config_hash m) E_CORPUS_NOT_READY ''embedding_config_stale'') (\<lambda>_.
     bind_res (require_that (hs_index h = sn_index_config_hash m) E_CORPUS_NOT_READY ''index_config_stale'') (\<lambda>_.
     bind_res (require_that (hs_lexical h = sn_lexical_config_hash m) E_CORPUS_NOT_READY ''lexical_config_stale'') (\<lambda>_.
     bind_res (require_that (hs_fusion h = sn_fusion_config_hash m) E_CORPUS_NOT_READY ''fusion_config_stale'') (\<lambda>_.
     bind_res (require_that (hs_reranker h = sn_reranker_config_hash m) E_CORPUS_NOT_READY ''reranker_config_stale'') (\<lambda>_.
     require_that (hs_context h = sn_context_config_hash m) E_CORPUS_NOT_READY ''context_config_stale'')))))"

definition assert_dense_backing_complete :: "vector_store option \<Rightarrow> dense_index_manifest \<Rightarrow> app_exc + unit" where
  "assert_dense_backing_complete q d =
     (if md_expected_child_count d \<noteq> md_indexed_child_count d \<or> md_indexed_child_count d < 1 then
        refuse E_CORPUS_NOT_READY ''dense_index_incomplete''
      else (case q of None \<Rightarrow> refuse E_SNAPSHOT_UNAVAILABLE ''qdrant_unavailable''
      | Some v \<Rightarrow> (case (vs_collection_exists v, vs_count v) of
          (Some exists_in, Some count_of) \<Rightarrow>
            if \<not> exists_in (md_collection_name d) then refuse E_SNAPSHOT_UNAVAILABLE ''qdrant_collection_missing''
            else (case count_of (md_collection_name d) of
                None \<Rightarrow> refuse E_SNAPSHOT_UNAVAILABLE ''qdrant_count_failed''
              | Some actual \<Rightarrow> if actual \<noteq> md_indexed_child_count d then
                    refuse E_SNAPSHOT_UNAVAILABLE ''qdrant_count_mismatch''
                  else Inr ())
        | _ \<Rightarrow> refuse E_SNAPSHOT_UNAVAILABLE ''qdrant_unavailable'')))"

definition assert_lexical_backing_complete ::
    "(pyfloat \<Rightarrow> pyfloat) \<Rightarrow> index_root \<Rightarrow> lexical_index_manifest \<Rightarrow> app_exc + unit" where
  "assert_lexical_backing_complete fl disk l =
     (if ml_expected_child_count l \<noteq> ml_indexed_child_count l \<or> ml_indexed_child_count l < 1 then
        refuse E_CORPUS_NOT_READY ''lexical_index_incomplete''
      else if \<not> index_exists disk (ml_lexical_index_id l) then
        refuse E_SNAPSHOT_UNAVAILABLE ''lexical_index_missing''
      else if \<not> validate fl disk (ml_lexical_index_id l) then
        refuse E_SNAPSHOT_UNAVAILABLE ''lexical_index_invalid''
      else Inr ())"

definition assert_provenance ::
    "canonical_snapshot \<Rightarrow> corpus_manifest \<Rightarrow> chunk_set_manifest \<Rightarrow> dense_index_manifest \<Rightarrow>
     lexical_index_manifest \<Rightarrow> app_exc + unit" where
  "assert_provenance m c k d l =
     bind_res (require_that (mc_corpus_id c = sn_corpus_id m) E_CORPUS_NOT_READY ''corpus_id_mismatch'') (\<lambda>_.
     bind_res (require_that (mk_corpus_id k = sn_corpus_id m \<and> mk_chunk_set_id k = sn_chunk_set_id m)
       E_CORPUS_NOT_READY ''chunk_provenance_mismatch'') (\<lambda>_.
     bind_res (require_that (md_corpus_id d = sn_corpus_id m \<and> md_chunk_set_id d = sn_chunk_set_id m \<and>
         md_index_id d = sn_dense_index_id m) E_CORPUS_NOT_READY ''dense_provenance_mismatch'') (\<lambda>_.
     bind_res (require_that (ml_corpus_id l = sn_corpus_id m \<and> ml_chunk_set_id l = sn_chunk_set_id m \<and>
         ml_lexical_index_id l = sn_lexical_index_id m) E_CORPUS_NOT_READY ''lexical_provenance_mismatch'') (\<lambda>_.
     bind_res (require_that (md_embedding_config_hash d = sn_embedding_config_hash m)
       E_CORPUS_NOT_READY ''embedding_config_mismatch'') (\<lambda>_.
     bind_res (require_that (md_index_config_hash d = sn_index_config_hash m)
       E_CORPUS_NOT_READY ''index_config_mismatch'') (\<lambda>_.
     require_that (ml_lexical_config_hash l = sn_lexical_config_hash m)
       E_CORPUS_NOT_READY ''lexical_config_mismatch''))))))"

definition validate_grounded_identity ::
    "(pyfloat \<Rightarrow> pyfloat) \<Rightarrow> artifact_roots \<Rightarrow> bool \<Rightarrow> canonical_snapshot \<Rightarrow> app_exc + unit" where
  "validate_grounded_identity fl w require_current_config_match m =
     bind_res (require_that (sn_product_mode_id m = PRODUCT_MODE_GROUNDED_V1)
       E_CORPUS_NOT_READY ''unsupported_product_mode'') (\<lambda>_.
     bind_res (read_manifest (ar_corpus w (manifest_file (sn_corpus_manifest m)))) (\<lambda>c.
     bind_res (read_manifest (ar_chunk w (manifest_file (sn_chunk_manifest m)))) (\<lambda>k.
     bind_res (read_manifest (ar_dense w (manifest_file (sn_dense_index_manifest m)))) (\<lambda>d.
     bind_res (read_manifest (ar_lexical w (manifest_file (sn_lexical_index_manifest m)))) (\<lambda>l.
     bind_res (assert_provenance m c k d l) (\<lambda>_.
     bind_res (if require_current_config_match then assert_current_config_matches (ar_hashes w) m else Inr ()) (\<lambda>_.
     bind_res (assert_dense_backing_complete (ar_vectors w) d) (\<lambda>_.
     assert_lexical_backing_complete fl (ar_lexical_indexes w) l))))))))"

subsection \<open>The product directory\<close>

record product_files =
  pf_current :: "string option"
  pf_snapshots :: "string \<Rightarrow> string option"
  pf_retired :: "string option"

type_synonym product_root = "string \<Rightarrow> product_files"

definition no_product_files :: product_files where
  "no_product_files = \<lparr>pf_current = None, pf_snapshots = (\<lambda>_. None), pf_retired = None\<rparr>"

record retirement_record =
  rr_schema_version :: string
  rr_corpus_name :: string
  rr_retired_at :: string
  rr_last_snapshot_id :: "string option"
  rr_already_retired :: bool

definition RETIREMENT_SCHEMA_VERSION :: string where
  "RETIREMENT_SCHEMA_VERSION = ''offline-rag-publication-retirement-v1''"

text \<open>\<open>model_dump_json\<close> and \<open>model_validate_json\<close> of the three classes; a pointer's id is not empty.\<close>

record codecs =
  cd_dump_snapshot :: "canonical_snapshot \<Rightarrow> string"
  cd_load_snapshot :: "string \<Rightarrow> canonical_snapshot option"
  cd_dump_pointer :: "string \<Rightarrow> string"
  cd_load_pointer :: "string \<Rightarrow> string option"
  cd_dump_retirement :: "retirement_record \<Rightarrow> string"
  cd_load_retirement :: "string \<Rightarrow> retirement_record option"

definition load_pointer :: "codecs \<Rightarrow> string \<Rightarrow> string option" where
  "load_pointer k t = (case cd_load_pointer k t of Some s \<Rightarrow> if s = [] then None else Some s | None \<Rightarrow> None)"

definition published_snapshot_id :: "codecs \<Rightarrow> product_root \<Rightarrow> string \<Rightarrow> app_exc + string option" where
  "published_snapshot_id k root_dir corpus_name =
     bind_res (validate_product_corpus_name corpus_name) (\<lambda>name.
     case pf_current (root_dir name) of
       None \<Rightarrow> Inr None
     | Some t \<Rightarrow> (case load_pointer k t of
           None \<Rightarrow> raise_app E_SNAPSHOT_UNAVAILABLE
             (no_details\<lparr>sd_corpus := Some name, sd_reason := Some ''pointer_unreadable''\<rparr>)
         | Some s \<Rightarrow> Inr (Some s)))"

subsection \<open>Publishing\<close>

text \<open>Which of the file system's calls succeed: writing the snapshot, the pointer, removing the marker.\<close>

record write_outcomes =
  wo_snapshot :: bool
  wo_pointer :: bool
  wo_marker :: bool

definition put_snapshot :: "string \<Rightarrow> string \<Rightarrow> string \<Rightarrow> product_root \<Rightarrow> product_root" where
  "put_snapshot name sid t root_dir = root_dir(name := (root_dir name)
     \<lparr>pf_snapshots := (pf_snapshots (root_dir name))(sid \<mapsto> t)\<rparr>)"

definition put_pointer :: "string \<Rightarrow> string option \<Rightarrow> product_root \<Rightarrow> product_root" where
  "put_pointer name t root_dir = root_dir(name := (root_dir name)\<lparr>pf_current := t\<rparr>)"

definition put_marker :: "string \<Rightarrow> string option \<Rightarrow> product_root \<Rightarrow> product_root" where
  "put_marker name t root_dir = root_dir(name := (root_dir name)\<lparr>pf_retired := t\<rparr>)"

text \<open>
  The durable write of a snapshot's manifest: an identical text is left alone, another one is a conflict.
\<close>

definition store_snapshot ::
    "write_outcomes \<Rightarrow> string \<Rightarrow> string \<Rightarrow> string \<Rightarrow> product_root \<Rightarrow> app_exc + product_root" where
  "store_snapshot wo name sid payload root_dir = (case pf_snapshots (root_dir name) sid of
     Some existing \<Rightarrow> if existing \<noteq> payload then raise_app E_SNAPSHOT_UNAVAILABLE
         (no_details\<lparr>sd_corpus := Some name, sd_snapshot_id := Some sid, sd_reason := Some ''snapshot_conflict''\<rparr>)
       else Inr root_dir
   | None \<Rightarrow> if wo_snapshot wo then Inr (put_snapshot name sid payload root_dir)
       else Inl (OS_Error ''write''))"

text \<open>Replacing the pointer, then clearing a stale marker of retirement.\<close>

definition swing_pointer ::
    "codecs \<Rightarrow> write_outcomes \<Rightarrow> string \<Rightarrow> string \<Rightarrow> product_root \<Rightarrow> (app_exc + string) \<times> product_root" where
  "swing_pointer k wo name sid root_dir =
     (if \<not> wo_pointer wo then (Inl (OS_Error ''write''), root_dir)
      else (let moved = put_pointer name (Some (cd_dump_pointer k sid)) root_dir in
        if \<not> wo_marker wo then (Inl (OS_Error ''unlink''), moved)
        else (Inr sid, put_marker name None moved)))"

definition publish ::
    "digest \<Rightarrow> (pyfloat \<Rightarrow> string) \<Rightarrow> (pyfloat \<Rightarrow> pyfloat) \<Rightarrow> codecs \<Rightarrow> artifact_roots \<Rightarrow> artifact_roots \<Rightarrow>
     write_outcomes \<Rightarrow> bool \<Rightarrow> string \<Rightarrow> canonical_snapshot \<Rightarrow> product_root \<Rightarrow>
     (app_exc + string) \<times> product_root" where
  "publish sha fr fl k before after wo require_current_config_match corpus_name m root_dir =
     (case validate_product_corpus_name corpus_name of
        Inl e \<Rightarrow> (Inl e, root_dir)
      | Inr name \<Rightarrow> (let sid = compute_snapshot_id sha fr m in
          case validate_grounded_identity fl before require_current_config_match m of
            Inl e \<Rightarrow> (Inl e, root_dir)
          | Inr _ \<Rightarrow> (case store_snapshot wo name sid (cd_dump_snapshot k m) root_dir of
              Inl e \<Rightarrow> (Inl e, root_dir)
            | Inr stored \<Rightarrow> (case validate_grounded_identity fl after require_current_config_match m of
                Inl e \<Rightarrow> (Inl e, stored)
              | Inr _ \<Rightarrow> swing_pointer k wo name sid stored))))"

subsection \<open>Resolving\<close>

definition snapshot_id_refused :: "string \<Rightarrow> bool" where
  "snapshot_id_refused s \<longleftrightarrow> s = [] \<or> CHR ''/'' \<in> set s \<or> CHR 0x5C \<in> set s \<or> py_in ''..'' s"

definition unavailable :: "string \<Rightarrow> string \<Rightarrow> string \<Rightarrow> app_exc + 'a" where
  "unavailable name sid reason = raise_app E_SNAPSHOT_UNAVAILABLE
     (no_details\<lparr>sd_corpus := Some name, sd_snapshot_id := Some sid, sd_reason := Some reason\<rparr>)"

definition resolve_snapshot ::
    "digest \<Rightarrow> (pyfloat \<Rightarrow> string) \<Rightarrow> (pyfloat \<Rightarrow> pyfloat) \<Rightarrow> codecs \<Rightarrow> artifact_roots \<Rightarrow> product_root \<Rightarrow>
     string \<Rightarrow> string \<Rightarrow> app_exc + corpus_read_snapshot" where
  "resolve_snapshot sha fr fl k w root_dir corpus_name sid =
     bind_res (validate_product_corpus_name corpus_name) (\<lambda>name.
     if snapshot_id_refused sid then raise_app E_REQUEST_INVALID
       (no_details\<lparr>sd_corpus := Some name, sd_reason := Some ''invalid_snapshot_id''\<rparr>)
     else (case pf_snapshots (root_dir name) sid of
       None \<Rightarrow> unavailable name sid ''snapshot_missing''
     | Some t \<Rightarrow> (case cd_load_snapshot k t of
         None \<Rightarrow> unavailable name sid ''snapshot_corrupt''
       | Some m \<Rightarrow>
         if compute_snapshot_id sha fr m \<noteq> sid then unavailable name sid ''snapshot_id_mismatch''
         else bind_res (validate_grounded_identity fl w True m) (\<lambda>_.
           case ar_corpus w (manifest_file (sn_corpus_manifest m)) of
             Loaded_File c \<Rightarrow> Inr \<lparr>rn_corpus_name = name, rn_snapshot_id = sid, rn_identity = m,
               rn_corpus_manifest = c\<rparr>
           | _ \<Rightarrow> unavailable name sid ''corpus_manifest_unreadable''))))"

definition resolve ::
    "digest \<Rightarrow> (pyfloat \<Rightarrow> string) \<Rightarrow> (pyfloat \<Rightarrow> pyfloat) \<Rightarrow> codecs \<Rightarrow> artifact_roots \<Rightarrow> product_root \<Rightarrow>
     string \<Rightarrow> app_exc + corpus_read_snapshot" where
  "resolve sha fr fl k w root_dir corpus_name =
     bind_res (validate_product_corpus_name corpus_name) (\<lambda>name.
     bind_res (published_snapshot_id k root_dir name) (\<lambda>current.
     case current of
       None \<Rightarrow> raise_app E_CORPUS_UNKNOWN
         (no_details\<lparr>sd_corpus := Some name, sd_reason := Some ''not_published''\<rparr>)
     | Some sid \<Rightarrow> resolve_snapshot sha fr fl k w root_dir name sid))"

subsection \<open>Retiring and restoring\<close>

text \<open>\<open>marker_written\<close> and \<open>pointer_removed\<close>: whether the write and the unlink succeed.\<close>

definition retire_current_publication ::
    "codecs \<Rightarrow> string \<Rightarrow> bool \<Rightarrow> bool \<Rightarrow> string \<Rightarrow> product_root \<Rightarrow>
     (app_exc + retirement_record) \<times> product_root" where
  "retire_current_publication k now marker_written pointer_removed corpus_name root_dir =
     (case validate_product_corpus_name corpus_name of
        Inl e \<Rightarrow> (Inl e, root_dir)
      | Inr name \<Rightarrow> (let files = root_dir name;
          rec = (\<lambda>already prior. \<lparr>rr_schema_version = RETIREMENT_SCHEMA_VERSION, rr_corpus_name = name,
            rr_retired_at = now, rr_last_snapshot_id = prior, rr_already_retired = already \<and> prior = None\<rparr>);
          finish = (\<lambda>r. if \<not> marker_written then (Inl (OS_Error ''write''), root_dir)
            else (let marked = put_marker name (Some (cd_dump_retirement k r)) root_dir in
              if pf_current files = None then (Inr r, marked)
              else if \<not> pointer_removed then (Inl (OS_Error ''unlink''), marked)
              else (Inr r, put_pointer name None marked))) in
          case pf_current files of
            Some t \<Rightarrow> (case load_pointer k t of
                None \<Rightarrow> (raise_app E_SNAPSHOT_UNAVAILABLE
                  (no_details\<lparr>sd_corpus := Some name, sd_reason := Some ''pointer_unreadable''\<rparr>), root_dir)
              | Some s \<Rightarrow> finish (rec False (Some s)))
          | None \<Rightarrow> (case pf_retired files of
                None \<Rightarrow> finish (rec True None)
              | Some t \<Rightarrow> (case cd_load_retirement k t of
                    Some r \<Rightarrow> (Inr (r\<lparr>rr_already_retired := True\<rparr>), root_dir)
                  | None \<Rightarrow> finish (rec True None)))))"

definition clear_retirement_marker :: "bool \<Rightarrow> string \<Rightarrow> product_root \<Rightarrow> (app_exc + unit) \<times> product_root" where
  "clear_retirement_marker removed corpus_name root_dir = (case validate_product_corpus_name corpus_name of
     Inl e \<Rightarrow> (Inl e, root_dir)
   | Inr name \<Rightarrow> if removed then (Inr (), put_marker name None root_dir) else (Inl (OS_Error ''unlink''), root_dir))"

definition restore_current_publication_pointer ::
    "codecs \<Rightarrow> write_outcomes \<Rightarrow> string \<Rightarrow> string \<Rightarrow> product_root \<Rightarrow> (app_exc + string) \<times> product_root" where
  "restore_current_publication_pointer k wo corpus_name sid root_dir =
     (case validate_product_corpus_name corpus_name of
        Inl e \<Rightarrow> (Inl e, root_dir)
      | Inr name \<Rightarrow>
          if snapshot_id_refused sid then (refuse E_REQUEST_INVALID ''invalid_snapshot_id'', root_dir)
          else if pf_snapshots (root_dir name) sid = None then
            (unavailable name sid ''snapshot_missing'', root_dir)
          else if \<not> wo_pointer wo then (Inl (OS_Error ''write''), root_dir)
          else (let moved = put_pointer name (Some (cd_dump_pointer k sid)) root_dir in
            case clear_retirement_marker (wo_marker wo) name moved of
              (Inl e, r) \<Rightarrow> (Inl e, r)
            | (Inr _, r) \<Rightarrow> (Inr sid, r)))"

end
