(* ===== verification/Publication_Properties.thy ===== *)
theory Publication_Properties
  imports Publication Lexical_Index_Properties
begin

section \<open>What a publication guarantees\<close>

text \<open>
  An identity is ready when every artifact it names is there, belongs to it, and is backed by a complete
  vector collection and a valid lexical index under the current configuration: this is what validation
  checks. Publishing moves the pointer of one corpus, to a stored and twice validated snapshot, or moves
  nothing; resolving gives the snapshot the pointer names exactly when it is ready. Every product
  directory the operations can reach keeps its pointer on a stored snapshot.
\<close>

subsection \<open>Refusals\<close>

lemma raise_app_Inr [simp]: "raise_app c d = Inr x \<longleftrightarrow> False"
  by (simp add: raise_app_def split: sum.splits)

lemma refuse_Inr [simp]: "refuse c r = Inr x \<longleftrightarrow> False" "unavailable n s r = Inr y \<longleftrightarrow> False"
  by (simp_all add: refuse_def unavailable_def)

lemma require_that_Inr [simp]: "require_that b c r = Inr u \<longleftrightarrow> b"
  by (simp add: require_that_def)

lemma read_manifest_Inr [simp]: "read_manifest f = Inr m \<longleftrightarrow> f = Loaded_File m"
  by (cases f) auto

lemma mk_details_reason:
  "is_safe_identity s \<Longrightarrow> py_strip s = s \<Longrightarrow> mk_details (no_details\<lparr>sd_reason := Some s\<rparr>) = Inr (no_details\<lparr>sd_reason := Some s\<rparr>)"
  by (cases s) (auto simp: mk_details_def identity_fields_def no_details_def require_safe_id_def bound_reason_def
    is_safe_identity_def)

subsection \<open>Readiness\<close>

definition hashes_current :: "config_hashes \<Rightarrow> canonical_snapshot \<Rightarrow> bool" where
  "hashes_current h m \<longleftrightarrow> h = \<lparr>hs_embedding = sn_embedding_config_hash m, hs_index = sn_index_config_hash m,
     hs_lexical = sn_lexical_config_hash m, hs_fusion = sn_fusion_config_hash m,
     hs_reranker = sn_reranker_config_hash m, hs_context = sn_context_config_hash m\<rparr>"

definition vectors_complete :: "vector_store option \<Rightarrow> dense_index_manifest \<Rightarrow> bool" where
  "vectors_complete q d \<longleftrightarrow> (case q of None \<Rightarrow> False | Some v \<Rightarrow>
     (case (vs_collection_exists v, vs_count v) of
        (Some e, Some n) \<Rightarrow> e (md_collection_name d) \<and> n (md_collection_name d) = Some (md_indexed_child_count d)
      | _ \<Rightarrow> False))"

definition belong_together ::
    "canonical_snapshot \<Rightarrow> corpus_manifest \<Rightarrow> chunk_set_manifest \<Rightarrow> dense_index_manifest \<Rightarrow>
     lexical_index_manifest \<Rightarrow> bool" where
  "belong_together m c k d l \<longleftrightarrow>
     {mc_corpus_id c, mk_corpus_id k, md_corpus_id d, ml_corpus_id l} = {sn_corpus_id m} \<and>
     {mk_chunk_set_id k, md_chunk_set_id d, ml_chunk_set_id l} = {sn_chunk_set_id m} \<and>
     md_index_id d = sn_dense_index_id m \<and> ml_lexical_index_id l = sn_lexical_index_id m \<and>
     md_embedding_config_hash d = sn_embedding_config_hash m \<and>
     md_index_config_hash d = sn_index_config_hash m \<and> ml_lexical_config_hash l = sn_lexical_config_hash m"

definition grounded_ready :: "(pyfloat \<Rightarrow> pyfloat) \<Rightarrow> artifact_roots \<Rightarrow> bool \<Rightarrow> canonical_snapshot \<Rightarrow> bool" where
  "grounded_ready fl w current m \<longleftrightarrow> sn_product_mode_id m = ''grounded_v1'' \<and> (\<exists>c k d l.
     ar_corpus w (manifest_file (sn_corpus_manifest m)) = Loaded_File c \<and>
     ar_chunk w (manifest_file (sn_chunk_manifest m)) = Loaded_File k \<and>
     ar_dense w (manifest_file (sn_dense_index_manifest m)) = Loaded_File d \<and>
     ar_lexical w (manifest_file (sn_lexical_index_manifest m)) = Loaded_File l \<and>
     belong_together m c k d l \<and>
     md_expected_child_count d = md_indexed_child_count d \<and> 1 \<le> md_indexed_child_count d \<and>
     vectors_complete (ar_vectors w) d \<and>
     ml_expected_child_count l = ml_indexed_child_count l \<and> 1 \<le> ml_indexed_child_count l \<and>
     index_exists (ar_lexical_indexes w) (ml_lexical_index_id l) \<and>
     validate fl (ar_lexical_indexes w) (ml_lexical_index_id l)) \<and>
   (current \<longrightarrow> hashes_current (ar_hashes w) m)"

lemma provenance_iff: "assert_provenance m c k d l = Inr u \<longleftrightarrow> belong_together m c k d l"
  by (auto simp: assert_provenance_def bind_res_Inr_iff belong_together_def)

lemma current_config_iff: "assert_current_config_matches h m = Inr u \<longleftrightarrow> hashes_current h m"
  by (cases h) (auto simp: assert_current_config_matches_def bind_res_Inr_iff hashes_current_def)

lemma dense_backing_iff:
  "assert_dense_backing_complete q d = Inr u \<longleftrightarrow>
     md_expected_child_count d = md_indexed_child_count d \<and> 1 \<le> md_indexed_child_count d \<and> vectors_complete q d"
  by (auto simp: assert_dense_backing_complete_def vectors_complete_def split: option.splits)

lemma lexical_backing_iff:
  "assert_lexical_backing_complete fl disk l = Inr u \<longleftrightarrow>
     ml_expected_child_count l = ml_indexed_child_count l \<and> 1 \<le> ml_indexed_child_count l \<and>
     index_exists disk (ml_lexical_index_id l) \<and> validate fl disk (ml_lexical_index_id l)"
  by (auto simp: assert_lexical_backing_complete_def)

lemma validate_grounded_iff: "validate_grounded_identity fl w cur m = Inr u \<longleftrightarrow> grounded_ready fl w cur m"
  by (auto simp: validate_grounded_identity_def bind_res_Inr_iff grounded_ready_def PRODUCT_MODE_GROUNDED_V1_def
    provenance_iff current_config_iff dense_backing_iff lexical_backing_iff)

subsection \<open>Names and identities\<close>

lemma product_name_Inr: "validate_product_corpus_name n = Inr x \<longleftrightarrow> validate_corpus_name n = Inr x"
  by (auto simp: validate_product_corpus_name_def split: sum.splits)

lemma product_name_same: "validate_product_corpus_name n = Inr x \<Longrightarrow> x = n"
  by (auto simp: product_name_Inr validate_corpus_name_def split: if_splits)

text \<open>A digest written in letters and digits, as a hexadecimal one is.\<close>

definition alnum_digest :: "digest \<Rightarrow> bool" where
  "alnum_digest sha \<longleftrightarrow> (\<forall>bs. list_all is_ascii_alnum (sha bs))"

lemma snapshot_id_form: "compute_snapshot_id sha fr m = ''snap_'' @ sha (utf8 (json_dumps fr (snapshot_json m)))"
  by (simp add: compute_snapshot_id_def canonical_config_hash_def hashed_def removeprefix_def)

lemma py_in_set:
  assumes "py_in s t"
  shows "set s \<subseteq> set t"
proof -
  from assms obtain i where "py_find s t 0 = Some i" by (auto simp: py_in_def)
  then have "occurs_at s t i" by (rule py_find_Some)
  then have "take (length s) (drop i t) = s" by (simp add: occurs_at_def py_slice_def)
  then show ?thesis by (metis set_drop_subset set_take_subset subset_trans)
qed

lemma snapshot_id_accepted:
  assumes "alnum_digest sha"
  shows "\<not> snapshot_id_refused (compute_snapshot_id sha fr m)"
proof -
  let ?h = "sha (utf8 (json_dumps fr (snapshot_json m)))"
  have ok: "is_ascii_alnum c" if "c \<in> set ?h" for c
    using assms that by (auto simp: alnum_digest_def list_all_iff)
  have bad: "\<not> is_ascii_alnum CHR ''/''" "\<not> is_ascii_alnum CHR 0x5C" "\<not> is_ascii_alnum CHR ''.''"
    by (simp_all add: is_ascii_alnum_def)
  have "CHR ''/'' \<notin> set ?h" "CHR 0x5C \<notin> set ?h" "CHR ''.'' \<notin> set ?h" using ok bad by blast+
  then show ?thesis using py_in_set [of "''..''" "''snap_'' @ ?h"]
    by (auto simp: snapshot_id_refused_def snapshot_id_form)
qed

subsection \<open>One publication\<close>

definition stored_after :: "canonical_snapshot \<Rightarrow> codecs \<Rightarrow> write_outcomes \<Rightarrow> string \<Rightarrow> product_files \<Rightarrow> bool" where
  "stored_after m k wo sid files \<longleftrightarrow> (case pf_snapshots files sid of
     Some t \<Rightarrow> t = cd_dump_snapshot k m | None \<Rightarrow> wo_snapshot wo)"

lemma store_snapshot_Inr:
  "store_snapshot wo name sid (cd_dump_snapshot k m) r = Inr r' \<longleftrightarrow>
     stored_after m k wo sid (r name) \<and> r' = put_snapshot name sid (cd_dump_snapshot k m) r"
proof (cases "pf_snapshots (r name) sid")
  case (Some t)
  then have "t = cd_dump_snapshot k m \<Longrightarrow> put_snapshot name sid (cd_dump_snapshot k m) r = r"
    by (simp add: put_snapshot_def fun_upd_idem)
  with Some show ?thesis by (auto simp: store_snapshot_def stored_after_def)
qed (auto simp: store_snapshot_def stored_after_def)

text \<open>The three ways a publication ends: nothing stored, stored only, pointer moved.\<close>

lemma publish_cases:
  assumes "publish sha fr fl k b a wo cur name m r = (res, r')"
  obtains (untouched) e where "res = Inl e" "r' = r"
      "\<not> (validate_corpus_name name = Inr name \<and> grounded_ready fl b cur m \<and>
          stored_after m k wo (compute_snapshot_id sha fr m) (r name))"
  | (stored) e where "res = Inl e" "r' = put_snapshot name (compute_snapshot_id sha fr m) (cd_dump_snapshot k m) r"
      "validate_corpus_name name = Inr name" "grounded_ready fl b cur m"
      "stored_after m k wo (compute_snapshot_id sha fr m) (r name)"
      "\<not> (grounded_ready fl a cur m \<and> wo_pointer wo)"
  | (moved) "validate_corpus_name name = Inr name" "grounded_ready fl b cur m" "grounded_ready fl a cur m"
      "stored_after m k wo (compute_snapshot_id sha fr m) (r name)" "wo_pointer wo"
      "(res, r') = (let p = put_pointer name (Some (cd_dump_pointer k (compute_snapshot_id sha fr m)))
         (put_snapshot name (compute_snapshot_id sha fr m) (cd_dump_snapshot k m) r) in
         if wo_marker wo then (Inr (compute_snapshot_id sha fr m), put_marker name None p)
         else (Inl (OS_Error ''unlink''), p))"
proof (cases "validate_product_corpus_name name")
  case (Inl e)
  then have "validate_corpus_name name \<noteq> Inr name" by (metis Inl_Inr_False product_name_Inr)
  moreover have "res = Inl e" "r' = r" using Inl assms by (simp_all add: publish_def)
  ultimately show thesis using untouched by blast
next
  case (Inr n)
  with product_name_same have n: "n = name" by blast
  with Inr have valid: "validate_corpus_name name = Inr name" by (simp add: product_name_Inr)
  note pub = assms [unfolded publish_def Inr n sum.case Let_def]
  show thesis
  proof (cases "grounded_ready fl b cur m \<and> stored_after m k wo (compute_snapshot_id sha fr m) (r name)")
    case False
    then have "r' = r \<and> (\<exists>e. res = Inl e)"
      using pub by (auto simp: validate_grounded_iff store_snapshot_Inr split: sum.splits)
    with False untouched show thesis by blast
  next
    case True
    then have v: "validate_grounded_identity fl b cur m = Inr ()"
      and st: "store_snapshot wo name (compute_snapshot_id sha fr m) (cd_dump_snapshot k m) r =
        Inr (put_snapshot name (compute_snapshot_id sha fr m) (cd_dump_snapshot k m) r)"
      by (simp_all add: validate_grounded_iff store_snapshot_Inr)
    note pub' = pub [unfolded v st sum.case]
    show thesis
    proof (cases "grounded_ready fl a cur m \<and> wo_pointer wo")
      case False
      then have "r' = put_snapshot name (compute_snapshot_id sha fr m) (cd_dump_snapshot k m) r \<and> (\<exists>e. res = Inl e)"
        using pub' by (auto simp: validate_grounded_iff swing_pointer_def split: sum.splits)
      with False True valid stored show thesis by blast
    next
      case moves: True
      then have "validate_grounded_identity fl a cur m = Inr ()" by (simp add: validate_grounded_iff)
      with pub' moves have "(res, r') = (let p = put_pointer name (Some (cd_dump_pointer k (compute_snapshot_id sha fr m)))
         (put_snapshot name (compute_snapshot_id sha fr m) (cd_dump_snapshot k m) r) in
         if wo_marker wo then (Inr (compute_snapshot_id sha fr m), put_marker name None p)
         else (Inl (OS_Error ''unlink''), p))"
        by (auto simp: swing_pointer_def Let_def split: if_splits)
      with moved moves True valid show thesis by blast
    qed
  qed
qed


text \<open>C36: Publishing is atomic for readers. It touches no other corpus, never rewrites a stored snapshot
  and stores at most the identity's own manifest under its id. The pointer is replaced exactly when the
  identity is ready at both validations, no other text is stored under its id and the writes succeed; it
  then names the stored snapshot, and otherwise stays what it was. The id is returned exactly when the
  stale marker of retirement could be cleared as well.\<close>

theorem publish_atomic:
  "case publish sha fr fl k before after wo cur name m root_dir of (res, root') \<Rightarrow>
   let sid = compute_snapshot_id sha fr m; old = root_dir name; new = root' name;
     moves = (validate_corpus_name name = Inr name \<and> grounded_ready fl before cur m \<and>
       grounded_ready fl after cur m \<and> stored_after m k wo sid old \<and> wo_pointer wo) in
   root'(name := old) = root_dir \<and> pf_snapshots old \<subseteq>\<^sub>m pf_snapshots new \<and>
   pf_snapshots new \<in> {pf_snapshots old, (pf_snapshots old)(sid \<mapsto> cd_dump_snapshot k m)} \<and>
   pf_current new = (if moves then Some (cd_dump_pointer k sid) else pf_current old) \<and>
   (if moves then pf_snapshots new sid = Some (cd_dump_snapshot k m) else True) \<and>
   pf_retired new = (if moves \<and> wo_marker wo then None else pf_retired old) \<and>
   (res = Inr sid) = (moves \<and> wo_marker wo) \<and> (\<exists>x. res = Inr x) = (moves \<and> wo_marker wo)"
proof -
  let ?sid = "compute_snapshot_id sha fr m"
  let ?put = "put_snapshot name ?sid (cd_dump_snapshot k m) root_dir"
  obtain res root' where eq: "publish sha fr fl k before after wo cur name m root_dir = (res, root')"
    by (meson surj_pair)
  have put: "?put(name := root_dir name) = root_dir" "pf_current (?put name) = pf_current (root_dir name)"
    "pf_retired (?put name) = pf_retired (root_dir name)"
    "pf_snapshots (?put name) = (pf_snapshots (root_dir name))(?sid \<mapsto> cd_dump_snapshot k m)"
    by (simp_all add: put_snapshot_def fun_upd_idem_iff)
  have le: "pf_snapshots (root_dir name) \<subseteq>\<^sub>m (pf_snapshots (root_dir name))(?sid \<mapsto> cd_dump_snapshot k m)"
    if "stored_after m k wo ?sid (root_dir name)"
    using that by (auto simp: map_le_def stored_after_def split: option.splits)
  from eq show ?thesis
  proof (cases rule: publish_cases)
    case (untouched e)
    then show ?thesis by (auto simp: eq Let_def map_le_def)
  next
    case (stored e)
    with le put show ?thesis by (auto simp: eq Let_def)
  next
    case moved
    with le put show ?thesis
      by (cases "wo_marker wo") (auto simp: eq Let_def put_pointer_def put_marker_def)
  qed
qed

subsection \<open>Resolving\<close>

lemma published_pointer:
  "published_snapshot_id k r name = Inr cur \<longleftrightarrow> validate_corpus_name name = Inr name \<and>
     (case pf_current (r name) of None \<Rightarrow> cur = None
      | Some t \<Rightarrow> load_pointer k t \<noteq> None \<and> cur = load_pointer k t)"
proof (cases "validate_product_corpus_name name")
  case (Inr n)
  with product_name_same have n: "n = name" by blast
  with Inr have "validate_corpus_name name = Inr name" by (simp add: product_name_Inr)
  then show ?thesis by (auto simp: published_snapshot_id_def Inr n split: option.splits)
next
  case (Inl e)
  then have "validate_corpus_name name \<noteq> Inr name" by (metis Inl_Inr_False product_name_Inr)
  with Inl show ?thesis by (simp add: published_snapshot_id_def)
qed

lemma resolve_snapshot_Inr:
  "resolve_snapshot sha fr fl k w r name sid = Inr s \<longleftrightarrow>
     validate_corpus_name name = Inr name \<and> \<not> snapshot_id_refused sid \<and>
     (\<exists>t. pf_snapshots (r name) sid = Some t \<and> cd_load_snapshot k t = Some (rn_identity s)) \<and>
     compute_snapshot_id sha fr (rn_identity s) = sid \<and> grounded_ready fl w True (rn_identity s) \<and>
     ar_corpus w (manifest_file (sn_corpus_manifest (rn_identity s))) = Loaded_File (rn_corpus_manifest s) \<and>
     rn_corpus_name s = name \<and> rn_snapshot_id s = sid"
proof (cases "validate_product_corpus_name name")
  case (Inr n)
  with product_name_same have n: "n = name" by blast
  with Inr have valid: "validate_corpus_name name = Inr name" by (simp add: product_name_Inr)
  show ?thesis
    unfolding resolve_snapshot_def Inr n bind_res_simps
    by (cases s) (auto simp: valid bind_res_Inr_iff validate_grounded_iff split: option.splits file_read.splits)
next
  case (Inl e)
  then have "validate_corpus_name name \<noteq> Inr name" by (metis Inl_Inr_False product_name_Inr)
  with Inl show ?thesis by (simp add: resolve_snapshot_def)
qed

text \<open>C37: Resolving a corpus returns a snapshot exactly when the current pointer names a stored manifest
  that hashes to the pointer's id and every artifact it names is present, belongs together and is backed
  by a complete vector collection and a valid lexical index under the current configuration; the
  snapshot returned is that one, with the corpus manifest it names.\<close>

theorem resolve_exact:
  "resolve sha fr fl k w root_dir name = Inr s \<longleftrightarrow>
     validate_corpus_name name = Inr name \<and> rn_corpus_name s = name \<and>
     (\<exists>t u. pf_current (root_dir name) = Some t \<and> load_pointer k t = Some (rn_snapshot_id s) \<and>
        pf_snapshots (root_dir name) (rn_snapshot_id s) = Some u \<and> cd_load_snapshot k u = Some (rn_identity s)) \<and>
     \<not> snapshot_id_refused (rn_snapshot_id s) \<and>
     compute_snapshot_id sha fr (rn_identity s) = rn_snapshot_id s \<and> grounded_ready fl w True (rn_identity s) \<and>
     ar_corpus w (manifest_file (sn_corpus_manifest (rn_identity s))) = Loaded_File (rn_corpus_manifest s)"
proof -
  have "resolve sha fr fl k w root_dir name = Inr s \<longleftrightarrow>
    (\<exists>n sid. validate_product_corpus_name name = Inr n \<and> published_snapshot_id k root_dir n = Inr (Some sid) \<and>
      resolve_snapshot sha fr fl k w root_dir n sid = Inr s)"
    by (auto simp: resolve_def bind_res_Inr_iff split: option.splits)
  also have "\<dots> \<longleftrightarrow> (\<exists>sid. validate_corpus_name name = Inr name \<and>
      published_snapshot_id k root_dir name = Inr (Some sid) \<and> resolve_snapshot sha fr fl k w root_dir name sid = Inr s)"
    using product_name_same by (auto simp: product_name_Inr)
  finally show ?thesis by (auto simp: published_pointer resolve_snapshot_Inr split: option.splits)
qed


subsection \<open>Reachable product directories\<close>

text \<open>What the operations do to the product directories, whatever they read and whichever writes succeed.\<close>

inductive product_step :: "digest \<Rightarrow> (pyfloat \<Rightarrow> string) \<Rightarrow> codecs \<Rightarrow> product_root \<Rightarrow> product_root \<Rightarrow> bool"
  for sha fr k
  where
    Publishes: "publish sha fr fl k before after wo cur name m r = (res, r') \<Longrightarrow> product_step sha fr k r r'"
  | Retires: "retire_current_publication k now written removed name r = (rec, r') \<Longrightarrow> product_step sha fr k r r'"
  | Clears: "clear_retirement_marker removed name r = (u, r') \<Longrightarrow> product_step sha fr k r r'"
  | Restores: "restore_current_publication_pointer k wo name sid r = (res, r') \<Longrightarrow> product_step sha fr k r r'"

definition product_ok :: "digest \<Rightarrow> (pyfloat \<Rightarrow> string) \<Rightarrow> codecs \<Rightarrow> product_files \<Rightarrow> bool" where
  "product_ok sha fr k files \<longleftrightarrow>
     (\<forall>sid t. pf_snapshots files sid = Some t \<longrightarrow> (\<exists>m. t = cd_dump_snapshot k m \<and> compute_snapshot_id sha fr m = sid)) \<and>
     (\<forall>t. pf_current files = Some t \<longrightarrow> (\<exists>sid. t = cd_dump_pointer k sid \<and> pf_snapshots files sid \<noteq> None))"

lemma product_ok_marker: "product_ok sha fr k (put_marker n t r c) = product_ok sha fr k (r c)"
  by (simp add: product_ok_def put_marker_def)

lemma product_ok_snapshot:
  assumes "product_ok sha fr k (r c)"
  shows "product_ok sha fr k (put_snapshot n (compute_snapshot_id sha fr m) (cd_dump_snapshot k m) r c)"
proof (cases "c = n")
  case True
  then have snaps: "pf_snapshots (put_snapshot n (compute_snapshot_id sha fr m) (cd_dump_snapshot k m) r c) =
      (pf_snapshots (r c))(compute_snapshot_id sha fr m \<mapsto> cd_dump_snapshot k m)"
    and cur: "pf_current (put_snapshot n (compute_snapshot_id sha fr m) (cd_dump_snapshot k m) r c) = pf_current (r c)"
    by (simp_all add: put_snapshot_def)
  show ?thesis unfolding product_ok_def snaps cur
  proof (intro conjI allI impI)
    fix sid t
    assume "((pf_snapshots (r c))(compute_snapshot_id sha fr m \<mapsto> cd_dump_snapshot k m)) sid = Some t"
    then show "\<exists>m. t = cd_dump_snapshot k m \<and> compute_snapshot_id sha fr m = sid"
      using assms unfolding product_ok_def by (cases "sid = compute_snapshot_id sha fr m") auto
  next
    fix t assume "pf_current (r c) = Some t"
    then obtain sid where "t = cd_dump_pointer k sid" "pf_snapshots (r c) sid \<noteq> None"
      using assms unfolding product_ok_def by blast
    then show "\<exists>sid. t = cd_dump_pointer k sid \<and>
        ((pf_snapshots (r c))(compute_snapshot_id sha fr m \<mapsto> cd_dump_snapshot k m)) sid \<noteq> None"
      by (intro exI [of _ sid]) auto
  qed
qed (use assms in \<open>simp add: put_snapshot_def\<close>)

lemma product_ok_unpointed: "product_ok sha fr k (r c) \<Longrightarrow> product_ok sha fr k (put_pointer n None r c)"
  by (simp add: product_ok_def put_pointer_def)

lemma product_ok_pointed:
  assumes "product_ok sha fr k (r c)" and "pf_snapshots (r n) sid \<noteq> None"
  shows "product_ok sha fr k (put_pointer n (Some (cd_dump_pointer k sid)) r c)"
proof (cases "c = n")
  case True
  then show ?thesis using assms unfolding product_ok_def put_pointer_def by auto
qed (use assms in \<open>simp add: put_pointer_def\<close>)

lemmas product_ok_put = product_ok_marker product_ok_snapshot product_ok_unpointed product_ok_pointed

lemma product_step_ok:
  assumes "product_step sha fr k r r'" and "\<forall>c. product_ok sha fr k (r c)"
  shows "product_ok sha fr k (r' c)"
  using assms(1)
proof cases
  case (Publishes fl before after wo cur name m res)
  let ?put = "put_snapshot name (compute_snapshot_id sha fr m) (cd_dump_snapshot k m) r"
  have put: "product_ok sha fr k (?put c)" using assms(2) by (simp add: product_ok_put)
  have there: "pf_snapshots (?put name) (compute_snapshot_id sha fr m) \<noteq> None" by (simp add: put_snapshot_def)
  have pointed: "product_ok sha fr k (put_pointer name (Some (cd_dump_pointer k (compute_snapshot_id sha fr m))) ?put c)"
    by (rule product_ok_pointed [OF put there])
  from Publishes show ?thesis
  proof (cases rule: publish_cases)
    case moved
    then show ?thesis using pointed by (auto simp: Let_def product_ok_put split: if_splits)
  qed (use assms(2) put in auto)
next
  case (Retires now written removed name rec)
  have "\<exists>t. r' = r \<or> r' = put_marker name t r \<or> r' = put_pointer name None (put_marker name t r)"
  proof (cases "validate_product_corpus_name name")
    case (Inr n)
    with product_name_same have n: "n = name" by blast
    show ?thesis
      using Retires [unfolded retire_current_publication_def Inr n sum.case Let_def]
      by (auto split: option.splits if_splits)
  qed (use Retires in \<open>simp add: retire_current_publication_def\<close>)
  with assms(2) show ?thesis by (auto simp: product_ok_put)
next
  case (Clears removed name u)
  then show ?thesis using assms(2) product_name_same
    by (auto simp: clear_retirement_marker_def product_ok_put split: sum.splits if_splits)
next
  case (Restores wo name sid res)
  show ?thesis
  proof (cases "validate_product_corpus_name name")
    case (Inr n)
    with product_name_same have n: "n = name" by blast
    have "product_ok sha fr k (put_pointer name (Some (cd_dump_pointer k sid)) r c)"
      if "pf_snapshots (r name) sid \<noteq> None"
      by (rule product_ok_pointed) (use assms(2) that in simp_all)
    then show ?thesis
      using Restores [unfolded restore_current_publication_pointer_def Inr n sum.case Let_def] assms(2) Inr n
      by (auto simp: clear_retirement_marker_def product_ok_put split: if_splits)
  qed (use Restores assms(2) in \<open>simp add: restore_current_publication_pointer_def\<close>)
qed

lemma reachable_product_ok:
  assumes "(product_step sha fr k)\<^sup>*\<^sup>* (\<lambda>_. no_product_files) r"
  shows "product_ok sha fr k (r c)"
  using assms
proof (induction arbitrary: c rule: rtranclp_induct)
  case base
  then show ?case by (simp add: product_ok_def no_product_files_def)
next
  case (step r r')
  then show ?case using product_step_ok by blast
qed


text \<open>What pydantic promises of its JSON: reading what was written gives it back.\<close>

definition codecs_faithful :: "codecs \<Rightarrow> bool" where
  "codecs_faithful k \<longleftrightarrow> (\<forall>m. cd_load_snapshot k (cd_dump_snapshot k m) = Some m) \<and>
     (\<forall>s. cd_load_pointer k (cd_dump_pointer k s) = Some s)"

lemma pointed_snapshot:
  assumes "codecs_faithful k" and "alnum_digest sha" and "validate_corpus_name name = Inr name"
    and cur: "pf_current (r name) = Some (cd_dump_pointer k (compute_snapshot_id sha fr m))"
    and stored: "pf_snapshots (r name) (compute_snapshot_id sha fr m) = Some (cd_dump_snapshot k m)"
  shows "published_snapshot_id k r name = Inr (Some (compute_snapshot_id sha fr m))"
    and "resolve sha fr fl k w r name =
      bind_res (validate_grounded_identity fl w True m) (\<lambda>_. case ar_corpus w (manifest_file (sn_corpus_manifest m)) of
        Loaded_File c \<Rightarrow> Inr \<lparr>rn_corpus_name = name, rn_snapshot_id = compute_snapshot_id sha fr m,
          rn_identity = m, rn_corpus_manifest = c\<rparr>
      | _ \<Rightarrow> unavailable name (compute_snapshot_id sha fr m) ''corpus_manifest_unreadable'')"
proof -
  have name: "validate_product_corpus_name name = Inr name" using assms(3) by (simp add: product_name_Inr)
  have "compute_snapshot_id sha fr m \<noteq> []" by (simp add: snapshot_id_form)
  then have "load_pointer k (cd_dump_pointer k (compute_snapshot_id sha fr m)) = Some (compute_snapshot_id sha fr m)"
    using assms(1) by (simp add: load_pointer_def codecs_faithful_def)
  then show pub: "published_snapshot_id k r name = Inr (Some (compute_snapshot_id sha fr m))"
    by (simp add: published_snapshot_id_def name cur)
  show "resolve sha fr fl k w r name =
      bind_res (validate_grounded_identity fl w True m) (\<lambda>_. case ar_corpus w (manifest_file (sn_corpus_manifest m)) of
        Loaded_File c \<Rightarrow> Inr \<lparr>rn_corpus_name = name, rn_snapshot_id = compute_snapshot_id sha fr m,
          rn_identity = m, rn_corpus_manifest = c\<rparr>
      | _ \<Rightarrow> unavailable name (compute_snapshot_id sha fr m) ''corpus_manifest_unreadable'')"
    using assms(1) snapshot_id_accepted [OF assms(2)]
    by (simp add: resolve_def name pub resolve_snapshot_def stored codecs_faithful_def)
qed

text \<open>C4: In any product directory that publishing, retiring, restoring and clearing can reach, whatever they
  read and whichever of their writes fail, resolving a corpus is as good as its artifacts: it is
  unpublished, or its pointer names a stored manifest that hashes to that name and resolving returns that
  identity or exactly the error validation raises for it. A dangling, unreadable or mismatching pointer
  cannot arise.\<close>

theorem publication_invariant:
  assumes "(product_step sha fr k)\<^sup>*\<^sup>* (\<lambda>_. no_product_files) r" and "codecs_faithful k" and "alnum_digest sha"
    and "validate_corpus_name name = Inr name"
  shows "case pf_current (r name) of
      None \<Rightarrow> published_snapshot_id k r name = Inr None \<and> resolve sha fr fl k w r name =
        raise_app E_CORPUS_UNKNOWN (no_details\<lparr>sd_corpus := Some name, sd_reason := Some ''not_published''\<rparr>)
    | Some t \<Rightarrow> (\<exists>m. published_snapshot_id k r name = Inr (Some (compute_snapshot_id sha fr m)) \<and>
        pf_snapshots (r name) (compute_snapshot_id sha fr m) = Some (cd_dump_snapshot k m) \<and>
        (case validate_grounded_identity fl w True m of
           Inl e \<Rightarrow> resolve sha fr fl k w r name = Inl e
         | Inr _ \<Rightarrow> (\<exists>s. resolve sha fr fl k w r name = Inr s \<and> rn_identity s = m \<and>
             rn_snapshot_id s = compute_snapshot_id sha fr m)))"
proof (cases "pf_current (r name)")
  case None
  then show ?thesis using assms(4)
    by (simp add: resolve_def published_snapshot_id_def product_name_Inr [THEN iffD2, OF assms(4)])
next
  case (Some t)
  with reachable_product_ok [OF assms(1), of name] obtain sid where t: "t = cd_dump_pointer k sid"
    and "pf_snapshots (r name) sid \<noteq> None" by (auto simp: product_ok_def)
  with reachable_product_ok [OF assms(1), of name] obtain m where m: "compute_snapshot_id sha fr m = sid"
    and st: "pf_snapshots (r name) sid = Some (cd_dump_snapshot k m)" by (fastforce simp: product_ok_def)
  note res = pointed_snapshot(1) [OF assms(2-4), where r = r and fr = fr and m = m, unfolded m, OF Some [unfolded t] st]
    pointed_snapshot(2) [OF assms(2-4), where r = r and fr = fr and m = m and fl = fl and w = w, unfolded m, OF Some [unfolded t] st]
  have "\<exists>s. resolve sha fr fl k w r name = Inr s \<and> rn_identity s = m \<and> rn_snapshot_id s = sid"
    if "validate_grounded_identity fl w True m = Inr u" for u
  proof -
    from that obtain c where "ar_corpus w (manifest_file (sn_corpus_manifest m)) = Loaded_File c"
      by (auto simp: validate_grounded_iff grounded_ready_def)
    with res(2) show ?thesis by (simp add: that)
  qed
  with res st m Some show ?thesis
    by (auto intro!: exI [of _ m] split: sum.splits)
qed

text \<open>C38: A publication that succeeds is what readers get: while the artifacts stay as the second validation
  saw them, resolving the corpus returns the published identity under the id publishing returned, with
  the corpus manifest it names, and lists that manifest's documents.\<close>

theorem publication_roundtrip:
  assumes "publish sha fr fl k before after wo True name m root_dir = (Inr sid, root')"
    and "codecs_faithful k" and "alnum_digest sha"
  shows "\<exists>c. ar_corpus after (manifest_file (sn_corpus_manifest m)) = Loaded_File c \<and>
    resolve sha fr fl k after root' name = Inr \<lparr>rn_corpus_name = name, rn_snapshot_id = sid,
      rn_identity = m, rn_corpus_manifest = c\<rparr>"
  using assms(1)
proof (cases rule: publish_cases)
  case moved
  let ?sid = "compute_snapshot_id sha fr m"
  from moved(6) have ids: "sid = ?sid" "pf_current (root' name) = Some (cd_dump_pointer k ?sid)"
    "pf_snapshots (root' name) ?sid = Some (cd_dump_snapshot k m)"
    by (auto simp: Let_def put_pointer_def put_marker_def put_snapshot_def split: if_splits)
  from moved(3) obtain c where "ar_corpus after (manifest_file (sn_corpus_manifest m)) = Loaded_File c"
    by (auto simp: grounded_ready_def)
  moreover have "validate_grounded_identity fl after True m = Inr ()" using moved(3) by (simp add: validate_grounded_iff)
  ultimately show ?thesis
    using pointed_snapshot(2) [OF assms(2,3) moved(1), where r = root' and fr = fr and m = m and fl = fl and w = after] ids by simp
qed auto

subsection \<open>A published corpus\<close>

text \<open>A concrete writing: a field is its characters, each after an \<open>a\<close>, and a final \<open>b\<close>.\<close>

definition pack :: "string list \<Rightarrow> string" where
  "pack ss = concat (map (\<lambda>s. concat (map (\<lambda>c. [CHR ''a'', c]) s) @ ''b'') ss)"

fun unpack :: "string \<Rightarrow> string \<Rightarrow> string list" where
  "unpack acc (x # r) = (if x = CHR ''b'' then rev acc # unpack [] r
     else (case r of [] \<Rightarrow> [] | c # r' \<Rightarrow> unpack (c # acc) r'))"
| "unpack acc [] = []"

lemma unpack_field: "unpack acc (concat (map (\<lambda>c. [CHR ''a'', c]) s) @ CHR ''b'' # r) = (rev acc @ s) # unpack [] r"
  by (induction s arbitrary: acc) simp_all

lemma unpack_pack: "unpack [] (pack ss) = ss"
  by (induction ss) (simp_all add: pack_def unpack_field)

fun snapshot_of_fields :: "string list \<Rightarrow> canonical_snapshot option" where
  "snapshot_of_fields [a, b, c, d, e, f, g, h, i, j, k, l, m, n, p, q] = Some
     \<lparr>sn_schema_version = a, sn_product_mode_id = b, sn_corpus_id = c, sn_corpus_manifest = d,
      sn_chunk_set_id = e, sn_chunk_manifest = f, sn_dense_index_id = g, sn_dense_index_manifest = h,
      sn_lexical_index_id = i, sn_lexical_index_manifest = j, sn_embedding_config_hash = k,
      sn_index_config_hash = l, sn_lexical_config_hash = m, sn_fusion_config_hash = n,
      sn_reranker_config_hash = p, sn_context_config_hash = q\<rparr>"
| "snapshot_of_fields _ = None"

definition sample_codecs :: codecs where
  "sample_codecs = \<lparr>cd_dump_snapshot = (\<lambda>m. pack (map snd (snapshot_fields m))),
     cd_load_snapshot = (\<lambda>t. snapshot_of_fields (unpack [] t)),
     cd_dump_pointer = (\<lambda>s. pack [s]), cd_load_pointer = (\<lambda>t. case unpack [] t of [s] \<Rightarrow> Some s | _ \<Rightarrow> None),
     cd_dump_retirement = (\<lambda>r. []), cd_load_retirement = (\<lambda>t. None)\<rparr>"

lemma sample_codecs_faithful: "codecs_faithful sample_codecs"
  by (simp add: codecs_faithful_def sample_codecs_def unpack_pack snapshot_fields_def)

definition sample_identity :: canonical_snapshot where
  "sample_identity = \<lparr>sn_schema_version = SNAPSHOT_SCHEMA_VERSION, sn_product_mode_id = PRODUCT_MODE_GROUNDED_V1,
     sn_corpus_id = ''corpus_1'', sn_corpus_manifest = ''corpus_1.json'', sn_chunk_set_id = ''chunkset_1'',
     sn_chunk_manifest = ''chunkset_1.json'', sn_dense_index_id = ''idx_1'', sn_dense_index_manifest = ''idx_1.json'',
     sn_lexical_index_id = ''lex-1'', sn_lexical_index_manifest = ''lex-1.json'',
     sn_embedding_config_hash = ''e'', sn_index_config_hash = ''i'', sn_lexical_config_hash = ''l'',
     sn_fusion_config_hash = ''f'', sn_reranker_config_hash = ''r'', sn_context_config_hash = ''c''\<rparr>"

definition sample_artifacts :: artifact_roots where
  "sample_artifacts = \<lparr>
     ar_corpus = (\<lambda>p. if p = Under_Root ''corpus_1.json'' then Loaded_File
       \<lparr>mc_schema_version = ''v1'', mc_corpus_id = ''corpus_1'', mc_corpus_hash = ''h'', mc_created_at = ''t'',
        mc_config_hash = ''p'', mc_documents = [], mc_parser_environment = [], mc_metadata = []\<rparr> else Missing_File),
     ar_chunk = (\<lambda>p. if p = Under_Root ''chunkset_1.json'' then Loaded_File
       \<lparr>mk_schema_version = ''v1'', mk_chunk_set_id = ''chunkset_1'', mk_corpus_id = ''corpus_1'',
        mk_chunk_config_hash = ''h'', mk_chunker_version = ''v'', mk_tokenizer_name = ''t'',
        mk_tokenizer_encoding = ''u'', mk_documents = [], mk_total_parent_count = 0, mk_total_child_count = 2,
        mk_created_at = ''t'', mk_metadata = []\<rparr> else Missing_File),
     ar_dense = (\<lambda>p. if p = Under_Root ''idx_1.json'' then Loaded_File
       \<lparr>md_schema_version = ''v1'', md_index_id = ''idx_1'', md_corpus_id = ''corpus_1'',
        md_chunk_set_id = ''chunkset_1'', md_embedding_config_hash = ''e'', md_index_config_hash = ''i'',
        md_index_contract_version = ''v'', md_embedding_text_strategy = ''s'', md_embedding_text_contract = ''c'',
        md_embedding_model_id = ''m'', md_embedding_model_revision = ''r'', md_embedding_dimension = 4,
        md_normalize = True, md_similarity_metric = ''cosine'', md_backend = ''q'', md_backend_contract = ''q1'',
        md_collection_name = ''col'', md_expected_child_count = 2, md_indexed_child_count = 2,
        md_created_at = ''t'', md_metadata = []\<rparr> else Missing_File),
     ar_lexical = (\<lambda>p. if p = Under_Root ''lex-1.json'' then Loaded_File
       \<lparr>ml_schema_version = ''v1'', ml_lexical_index_id = ''lex-1'', ml_corpus_id = ''corpus_1'',
        ml_chunk_set_id = ''chunkset_1'', ml_lexical_config_hash = ''l'', ml_text_strategy = ''s'',
        ml_text_contract = ''c'', ml_analyzer_strategy = ''a'', ml_analyzer_contract = ''a1'',
        ml_bm25_contract = ''b'', ml_bm25_k1 = 6 / 5, ml_bm25_b = 3 / 4, ml_bm25_idf = ''i'',
        ml_bm25_query_tf = ''q'', ml_backend = ''l'', ml_backend_contract = ''l1'', ml_expected_child_count = 2,
        ml_indexed_child_count = 2, ml_document_count = 2, ml_vocabulary_size = 2, ml_avgdl = 2,
        ml_physical_index_relpath = ''p'', ml_created_at = ''t'', ml_searchable_units_contract = None,
        ml_chunk_set_child_count = None, ml_zero_term_excluded_count = None, ml_eligible_child_count = None,
        ml_metadata = []\<rparr> else Missing_File),
     ar_lexical_indexes = sample_root,
     ar_vectors = Some \<lparr>vs_collection_exists = Some (\<lambda>n. n = ''col''), vs_count = Some (\<lambda>_. Some 2)\<rparr>,
     ar_hashes = \<lparr>hs_embedding = ''e'', hs_index = ''i'', hs_lexical = ''l'', hs_fusion = ''f'',
       hs_reranker = ''r'', hs_context = ''c''\<rparr>\<rparr>"

lemma sample_ready: "grounded_ready id sample_artifacts True sample_identity"
proof -
  have "validate id sample_root ''lex-1''" "index_exists sample_root ''lex-1''"
    using sample_opens by (auto simp: open_lexical_iff validate_def index_exists_def split: option.splits index_directory.splits)
  moreover have "manifest_file ''corpus_1.json'' = Under_Root ''corpus_1.json''"
    "manifest_file ''chunkset_1.json'' = Under_Root ''chunkset_1.json''"
    "manifest_file ''idx_1.json'' = Under_Root ''idx_1.json''"
    "manifest_file ''lex-1.json'' = Under_Root ''lex-1.json''" by code_simp+
  ultimately show ?thesis
    by (simp add: grounded_ready_def sample_artifacts_def sample_identity_def belong_together_def
      vectors_complete_def hashes_current_def PRODUCT_MODE_GROUNDED_V1_def)
qed

definition flat_digest :: digest where
  "flat_digest bs = replicate (length bs mod 7) CHR ''f''"

lemma flat_digest_alnum: "alnum_digest flat_digest"
  by (simp add: alnum_digest_def flat_digest_def list_all_iff is_ascii_alnum_def)

abbreviation all_writes :: write_outcomes where
  "all_writes \<equiv> \<lparr>wo_snapshot = True, wo_pointer = True, wo_marker = True\<rparr>"

lemma sample_published:
  "\<exists>sid r. publish flat_digest fr id sample_codecs sample_artifacts sample_artifacts all_writes True
     ''default'' sample_identity (\<lambda>_. no_product_files) = (Inr sid, r)"
proof -
  have "validate_corpus_name ''default'' = Inr ''default''" by code_simp
  then have "validate_product_corpus_name ''default'' = Inr ''default''" by (simp add: product_name_Inr)
  moreover have "validate_grounded_identity id sample_artifacts True sample_identity = Inr ()"
    by (simp add: validate_grounded_iff sample_ready)
  ultimately show ?thesis
    by (simp add: publish_def store_snapshot_def no_product_files_def swing_pointer_def Let_def)
qed

theorem publication_roundtrip_witness:
  "\<exists>r sid s. publish flat_digest sample_float_repr id sample_codecs sample_artifacts sample_artifacts all_writes True
     ''default'' sample_identity (\<lambda>_. no_product_files) = (Inr sid, r) \<and>
   resolve flat_digest sample_float_repr id sample_codecs sample_artifacts r ''default'' = Inr s \<and>
   rn_identity s = sample_identity"
proof -
  obtain sid r where pub: "publish flat_digest sample_float_repr id sample_codecs sample_artifacts sample_artifacts
      all_writes True ''default'' sample_identity (\<lambda>_. no_product_files) = (Inr sid, r)"
    using sample_published by blast
  from publication_roundtrip [OF this sample_codecs_faithful flat_digest_alnum] pub show ?thesis by auto
qed

theorem publication_invariant_witness:
  "\<exists>r m. pf_current (r ''default'') \<noteq> None \<and>
     published_snapshot_id sample_codecs r ''default'' = Inr (Some (compute_snapshot_id flat_digest sample_float_repr m))"
proof -
  obtain sid r where pub: "publish flat_digest sample_float_repr id sample_codecs sample_artifacts sample_artifacts
      all_writes True ''default'' sample_identity (\<lambda>_. no_product_files) = (Inr sid, r)"
    using sample_published by blast
  then have reach: "(product_step flat_digest sample_float_repr sample_codecs)\<^sup>*\<^sup>* (\<lambda>_. no_product_files) r"
    by (intro r_into_rtranclp Publishes)
  have name: "validate_corpus_name ''default'' = Inr ''default''" by code_simp
  from pub have "pf_current (r ''default'') \<noteq> None"
  proof (cases rule: publish_cases)
    case moved
    from moved(6) show ?thesis by (auto simp: Let_def put_pointer_def put_marker_def split: if_splits)
  qed auto
  with publication_invariant [OF reach sample_codecs_faithful flat_digest_alnum name, of id sample_artifacts]
  show ?thesis by (auto split: option.splits)
qed

end
