(* ===== verification/Leases.thy ===== *)
theory Leases
  imports Publication_Properties
begin

section \<open>Mutation leases (app/leases.py, app/workspace/leases.py)\<close>

text \<open>
  A lease is an object with a file descriptor on \<open>corpus.<name>.lock\<close> or \<open>workspace.<id>.lock\<close>; holding
  it is holding that file's exclusive \<open>flock\<close>, which belongs to the open file, is refused at once
  (or waited for, on request), and is dropped by the
  system when the file is closed or its process dies. A world has the lease objects of all processes by a
  number each, with the process that made them, and the kernel's table of locks.
\<close>

subsection \<open>Lease objects and the lock table\<close>

datatype lease_kind = Corpus_Lease | Workspace_Lease

record lease =
  ls_process :: nat
  ls_kind :: lease_kind
  ls_subject :: string
  ls_fd :: bool
  ls_held :: bool

record lease_world =
  lw_leases :: "nat \<Rightarrow> lease option"
  lw_locks :: "string \<Rightarrow> nat option"

text \<open>The lock file of a corpus name or workspace id.\<close>

fun lock_file :: "lease_kind \<Rightarrow> string \<Rightarrow> string" where
  "lock_file Corpus_Lease s = ''corpus.'' @ s @ ''.lock''"
| "lock_file Workspace_Lease s = ''workspace.'' @ s @ ''.lock''"

lemma lock_file_inj: "lock_file k s = lock_file k' s' \<longleftrightarrow> k = k' \<and> s = s'"
  by (cases k; cases k') simp_all

definition corpus_lease_path :: "string \<Rightarrow> app_exc + string" where
  "corpus_lease_path corpus_name =
     bind_res (validate_product_corpus_name corpus_name) (\<lambda>name. Inr (lock_file Corpus_Lease name))"

definition workspace_id_refused :: "string \<Rightarrow> bool" where
  "workspace_id_refused w \<longleftrightarrow>
     w = [] \<or> CHR ''/'' \<in> set w \<or> CHR 0x5C \<in> set w \<or> py_in ''..'' w \<or> \<not> starts_with w ''ws_''"

definition workspace_lease_path :: "string \<Rightarrow> app_exc + string" where
  "workspace_lease_path workspace_id =
     (if workspace_id_refused workspace_id then refuse E_REQUEST_INVALID ''invalid_workspace_id''
      else Inr (lock_file Workspace_Lease workspace_id))"

definition put_lease :: "nat \<Rightarrow> lease \<Rightarrow> lease_world \<Rightarrow> lease_world" where
  "put_lease i l w = w\<lparr>lw_leases := (lw_leases w)(i \<mapsto> l)\<rparr>"

definition new_lease ::
    "nat \<Rightarrow> nat \<Rightarrow> lease_kind \<Rightarrow> string \<Rightarrow> lease_world \<Rightarrow> (app_exc + unit) \<times> lease_world" where
  "new_lease process i kind subject w =
     (case (case kind of
          Corpus_Lease \<Rightarrow> bind_res (validate_product_corpus_name subject) (\<lambda>name.
            bind_res (corpus_lease_path name) (\<lambda>_. Inr name))
        | Workspace_Lease \<Rightarrow> bind_res (workspace_lease_path subject) (\<lambda>_. Inr subject)) of
        Inl e \<Rightarrow> (Inl e, w)
      | Inr name \<Rightarrow> (Inr (), put_lease i \<lparr>ls_process = process, ls_kind = kind, ls_subject = name,
          ls_fd = False, ls_held = False\<rparr> w))"

definition lease_busy :: "lease \<Rightarrow> app_exc + 'a" where
  "lease_busy l = (case ls_kind l of
     Corpus_Lease \<Rightarrow> raise_app E_CORPUS_BUSY
       (no_details\<lparr>sd_corpus := Some (ls_subject l), sd_reason := Some ''lease_held''\<rparr>)
   | Workspace_Lease \<Rightarrow> raise_app E_WORKSPACE_CONFLICT
       (no_details\<lparr>sd_workspace_id := Some (ls_subject l), sd_reason := Some ''lease_held''\<rparr>))"

definition lease_lock :: "lease \<Rightarrow> string" where
  "lease_lock l = lock_file (ls_kind l) (ls_subject l)"

definition take_lock :: "nat \<Rightarrow> lease \<Rightarrow> lease_world \<Rightarrow> lease_world" where
  "take_lock i l w = put_lease i (l\<lparr>ls_fd := True, ls_held := True\<rparr>)
     (w\<lparr>lw_locks := (lw_locks w)(lease_lock l \<mapsto> i)\<rparr>)"

text \<open>\<open>acquire\<close>: nothing to do, refused because another open file has the lock, or taken.\<close>

definition acquire :: "nat \<Rightarrow> lease_world \<Rightarrow> (app_exc + unit) \<times> lease_world" where
  "acquire i w = (case lw_leases w i of
     None \<Rightarrow> (Inr (), w)
   | Some l \<Rightarrow>
       if ls_held l then (Inr (), w)
       else if lw_locks w (lease_lock l) \<noteq> None then (lease_busy l, w)
       else (Inr (), take_lock i l w))"

text \<open>\<open>acquire(blocking=True)\<close>: \<open>None\<close> while it waits.\<close>

definition acquire_blocking :: "nat \<Rightarrow> lease_world \<Rightarrow> lease_world option" where
  "acquire_blocking i w = (case lw_leases w i of
     None \<Rightarrow> Some w
   | Some l \<Rightarrow>
       if ls_held l then Some w
       else if lw_locks w (lease_lock l) \<noteq> None then None
       else Some (take_lock i l w))"

definition release :: "nat \<Rightarrow> lease_world \<Rightarrow> lease_world" where
  "release i w = (case lw_leases w i of
     None \<Rightarrow> w
   | Some l \<Rightarrow>
       if \<not> ls_held l \<or> \<not> ls_fd l then w
       else put_lease i (l\<lparr>ls_fd := False, ls_held := False\<rparr>)
         (w\<lparr>lw_locks := (lw_locks w)(lease_lock l := None)\<rparr>))"

text \<open>A process dies: its files are closed, so its locks go, and its lease objects with them.\<close>

definition die :: "nat \<Rightarrow> lease_world \<Rightarrow> lease_world" where
  "die process w =
     (let mine = (\<lambda>i. case lw_leases w i of Some l \<Rightarrow> ls_process l = process | None \<Rightarrow> False) in
      w\<lparr>lw_leases := (\<lambda>i. if mine i then None else lw_leases w i),
        lw_locks := (\<lambda>p. case lw_locks w p of Some i \<Rightarrow> if mine i then None else Some i | None \<Rightarrow> None)\<rparr>)"

subsection \<open>Interleavings\<close>

inductive lease_step :: "lease_world \<Rightarrow> lease_world \<Rightarrow> bool" where
  Makes: "lw_leases w i = None \<Longrightarrow> new_lease process i kind subject w = (r, w') \<Longrightarrow> lease_step w w'"
| Acquires: "acquire i w = (r, w') \<Longrightarrow> lease_step w w'"
| Waits: "acquire_blocking i w = Some w' \<Longrightarrow> lease_step w w'"
| Releases: "lease_step w (release i w)"
| Dies: "lease_step w (die process w)"

definition no_leases :: lease_world where
  "no_leases = \<lparr>lw_leases = (\<lambda>_. None), lw_locks = (\<lambda>_. None)\<rparr>"

definition holds :: "lease_world \<Rightarrow> nat \<Rightarrow> string \<Rightarrow> bool" where
  "holds w i p \<longleftrightarrow> (case lw_leases w i of Some l \<Rightarrow> ls_held l \<and> lease_lock l = p | None \<Rightarrow> False)"

text \<open>The table has exactly the held leases, and a lease has a descriptor exactly while it is held.\<close>

definition leases_ok :: "lease_world \<Rightarrow> bool" where
  "leases_ok w \<longleftrightarrow> (\<forall>i l. lw_leases w i = Some l \<longrightarrow> ls_fd l = ls_held l) \<and>
     (\<forall>p i. lw_locks w p = Some i \<longleftrightarrow> holds w i p)"

lemma leases_okD:
  assumes "leases_ok w"
  shows "lw_leases w i = Some l \<Longrightarrow> ls_fd l = ls_held l" and "lw_locks w p = Some i \<longleftrightarrow> holds w i p"
  using assms by (auto simp: leases_ok_def)

lemma leases_ok_take:
  assumes "leases_ok w" and "lw_leases w i = Some l" and "\<not> ls_held l" and "lw_locks w (lease_lock l) = None"
  shows "leases_ok (take_lock i l w)"
proof -
  have holds: "holds (take_lock i l w) j p \<longleftrightarrow> (if j = i then p = lease_lock l else holds w j p)" for j p
    by (auto simp: take_lock_def holds_def put_lease_def lease_lock_def)
  have "\<not> holds w i p" for p using assms(2,3) by (simp add: holds_def)
  moreover have "\<not> holds w j (lease_lock l)" for j
    using assms(4) leases_okD(2) [OF assms(1)] by (metis option.distinct(1))
  ultimately show ?thesis using assms
    unfolding leases_ok_def holds by (auto simp: take_lock_def put_lease_def)
qed

lemma leases_ok_drop:
  assumes "leases_ok w" and l: "lw_leases w i = Some l" "ls_held l"
    and w': "w' = put_lease i (l\<lparr>ls_fd := False, ls_held := False\<rparr>) (w\<lparr>lw_locks := (lw_locks w)(lease_lock l := None)\<rparr>)"
  shows "leases_ok w'"
proof -
  have holds: "holds w' j p \<longleftrightarrow> j \<noteq> i \<and> holds w j p" for j p
    by (auto simp: w' holds_def put_lease_def)
  have only: "j = i" if "holds w j (lease_lock l)" for j
  proof -
    have "holds w i (lease_lock l)" using l by (simp add: holds_def)
    with that leases_okD(2) [OF assms(1)] show ?thesis by (metis option.inject)
  qed
  have "holds w i p \<longleftrightarrow> p = lease_lock l" for p using l by (auto simp: holds_def)
  with only assms(1) l show ?thesis unfolding leases_ok_def holds by (auto simp: w' put_lease_def)
qed

lemma leases_ok_die:
  assumes "leases_ok w"
  shows "leases_ok (die process w)"
proof -
  let ?w = "die process w"
  have holds: "holds ?w j p \<longleftrightarrow> lw_leases ?w j \<noteq> None \<and> holds w j p" for j p
    by (auto simp: holds_def die_def Let_def split: option.splits if_splits)
  have gone: "lw_leases ?w j = Some l \<Longrightarrow> lw_leases w j = Some l" for j l
    by (simp add: die_def Let_def split: if_splits)
  have locks: "lw_locks ?w p = Some i \<longleftrightarrow> lw_locks w p = Some i \<and> lw_leases ?w i \<noteq> None" for p i
  proof (cases "lw_locks w p = Some i")
    case True
    then have "lw_leases w i \<noteq> None" using leases_okD(2) [OF assms] by (auto simp: holds_def split: option.splits)
    with True show ?thesis by (auto simp: die_def Let_def split: option.splits if_splits)
  qed (auto simp: die_def Let_def split: option.splits if_splits)
  show ?thesis unfolding leases_ok_def holds locks
    using assms gone by (auto simp: leases_ok_def)
qed

lemma leases_ok_step:
  assumes "lease_step w w'" and "leases_ok w"
  shows "leases_ok w'"
  using assms(1)
proof cases
  case (Makes i process kind subject r)
  have "w' = w \<or> (\<exists>l. w' = put_lease i l w \<and> \<not> ls_held l \<and> \<not> ls_fd l)"
    using Makes(2) by (force simp: new_lease_def split: sum.splits)
  then show ?thesis
  proof
    assume "\<exists>l. w' = put_lease i l w \<and> \<not> ls_held l \<and> \<not> ls_fd l"
    then obtain l where l: "w' = put_lease i l w" "\<not> ls_held l" "\<not> ls_fd l" by blast
    have "holds w' j p = holds w j p" for j p using l Makes(1) by (auto simp: holds_def put_lease_def)
    with l assms(2) show ?thesis by (auto simp: leases_ok_def put_lease_def split: if_splits)
  qed (use assms(2) in simp)
next
  case (Acquires i r)
  then have "w' = w \<or> (\<exists>l. lw_leases w i = Some l \<and> \<not> ls_held l \<and> lw_locks w (lease_lock l) = None \<and> w' = take_lock i l w)"
    by (auto simp: acquire_def split: option.splits if_splits)
  with leases_ok_take assms(2) show ?thesis by auto
next
  case (Waits i)
  then have "w' = w \<or> (\<exists>l. lw_leases w i = Some l \<and> \<not> ls_held l \<and> lw_locks w (lease_lock l) = None \<and> w' = take_lock i l w)"
    by (auto simp: acquire_blocking_def split: option.splits if_splits)
  with leases_ok_take assms(2) show ?thesis by auto
next
  case (Releases i)
  then have "w' = w \<or> (\<exists>l. lw_leases w i = Some l \<and> ls_held l \<and>
      w' = put_lease i (l\<lparr>ls_fd := False, ls_held := False\<rparr>) (w\<lparr>lw_locks := (lw_locks w)(lease_lock l := None)\<rparr>))"
    by (auto simp: release_def split: option.splits if_splits)
  with leases_ok_drop assms(2) show ?thesis by blast
next
  case (Dies process)
  with leases_ok_die assms(2) show ?thesis by simp
qed

lemma reachable_leases_ok: "lease_step\<^sup>*\<^sup>* no_leases w \<Longrightarrow> leases_ok w"
proof (induction rule: rtranclp_induct)
  case base
  show ?case by (simp add: leases_ok_def no_leases_def holds_def)
next
  case (step y z)
  then show ?case using leases_ok_step by blast
qed


lemma lease_lock_iff: "lease_lock l = lease_lock l' \<longleftrightarrow> ls_kind l = ls_kind l' \<and> ls_subject l = ls_subject l'"
  by (simp add: lease_lock_def lock_file_inj)

text \<open>C39: Leases exclude each other and are never stale. In every interleaving of making, acquiring, waiting,
  releasing and dying processes, at most one lease object holds a corpus or workspace; acquiring fails
  as busy exactly when another live object holds the same corpus or workspace, and then changes nothing;
  after the holder releases it or its process dies the lease can be taken at once.\<close>

theorem lease_exclusive:
  assumes "lease_step\<^sup>*\<^sup>* no_leases w" and "lw_leases w i = Some l"
  shows "(let rivals = {j. j \<noteq> i \<and> holds w j (lease_lock l)} in
      (if ls_held l then rivals = {} else True) \<and>
      acquire i w = (if rivals = {} then (Inr (), if ls_held l then w else take_lock i l w) else (lease_busy l, w)) \<and>
      (rivals = {} \<longrightarrow> holds (snd (acquire i w)) i (lease_lock l)) \<and> \<not> holds (release i w) i (lease_lock l) \<and>
      (\<forall>j h. lw_leases w j = Some h \<and> j \<in> rivals \<and> ls_process h \<noteq> ls_process l \<longrightarrow>
         fst (acquire i (release j w)) = Inr () \<and> fst (acquire i (die (ls_process h) w)) = Inr ()))"
proof -
  note ok = reachable_leases_ok [OF assms(1)]
  let ?R = "{j. j \<noteq> i \<and> holds w j (lease_lock l)}"
  have uniq: "j = j'" if "holds w j p" "holds w j' p" for j j' p
    using that leases_okD(2) [OF ok] by (metis option.inject)
  have own: "holds w i (lease_lock l) \<longleftrightarrow> ls_held l" using assms(2) by (simp add: holds_def)
  have held: "?R = {}" if "ls_held l" using uniq own that by blast
  have free: "lw_locks w (lease_lock l) = None \<longleftrightarrow> ?R = {}" if "\<not> ls_held l"
  proof -
    have "lw_locks w (lease_lock l) \<noteq> None \<longleftrightarrow> (\<exists>j. holds w j (lease_lock l))"
      using leases_okD(2) [OF ok] by (metis not_None_eq)
    with own that show ?thesis by auto
  qed
  have acq: "acquire i w = (if ?R = {} then (Inr (), if ls_held l then w else take_lock i l w) else (lease_busy l, w))"
    using assms(2) held free by (auto simp: acquire_def)
  have taken: "holds (take_lock i l w) i (lease_lock l)"
    by (simp add: holds_def take_lock_def put_lease_def lease_lock_def)
  have dropped: "\<not> holds (release i w) i (lease_lock l)"
    using assms(2) leases_okD(1) [OF ok] by (auto simp: release_def holds_def put_lease_def)
  have again: "fst (acquire i (release j w)) = Inr () \<and> fst (acquire i (die (ls_process h) w)) = Inr ()"
    if j: "lw_leases w j = Some h" "j \<in> ?R" "ls_process h \<noteq> ls_process l" for j h
  proof -
    from j have jh: "holds w j (lease_lock l)" "ls_held h" "lease_lock h = lease_lock l" "j \<noteq> i"
      by (auto simp: holds_def)
    with held have "\<not> ls_held l" using j(2) by blast
    have lock: "lw_locks w (lease_lock l) = Some j" using jh(1) leases_okD(2) [OF ok] by blast
    have "lw_leases (release j w) i = Some l" "lw_locks (release j w) (lease_lock l) = None"
      using j jh assms(2) leases_okD(1) [OF ok j(1)] by (simp_all add: release_def put_lease_def)
    moreover have "lw_leases (die (ls_process h) w) i = Some l" "lw_locks (die (ls_process h) w) (lease_lock l) = None"
      using j assms(2) lock by (simp_all add: die_def Let_def)
    ultimately show ?thesis by (simp add: acquire_def)
  qed
  show ?thesis unfolding Let_def
  proof (intro conjI)
    show "?R = {} \<longrightarrow> holds (snd (acquire i w)) i (lease_lock l)" using acq taken own by auto
  qed (use held acq dropped again in auto)
qed

definition sample_world :: lease_world where
  "sample_world = snd (acquire 4 (snd (new_lease 7 5 Corpus_Lease ''default''
     (snd (new_lease 3 4 Corpus_Lease ''default'' no_leases)))))"

lemma sample_world_reachable: "lease_step\<^sup>*\<^sup>* no_leases sample_world"
proof -
  let ?w0 = "snd (new_lease 3 4 Corpus_Lease ''default'' no_leases)"
  let ?w1 = "snd (new_lease 7 5 Corpus_Lease ''default'' ?w0)"
  have "lw_leases ?w0 5 = None"
    by (simp add: new_lease_def put_lease_def no_leases_def split: sum.splits)
  then have "lease_step ?w0 ?w1" by (rule Makes [OF _ prod.collapse [symmetric]])
  moreover have "lease_step no_leases ?w0" by (rule Makes [OF _ prod.collapse [symmetric]]) (simp add: no_leases_def)
  moreover have "lease_step ?w1 sample_world"
    unfolding sample_world_def by (rule Acquires [OF prod.collapse [symmetric]])
  ultimately show ?thesis by (meson converse_rtranclp_into_rtranclp rtranclp.rtrancl_refl)
qed

lemma sample_world_leases:
  "lw_leases sample_world 4 = Some \<lparr>ls_process = 3, ls_kind = Corpus_Lease, ls_subject = ''default'', ls_fd = True, ls_held = True\<rparr>"
  "lw_leases sample_world 5 = Some \<lparr>ls_process = 7, ls_kind = Corpus_Lease, ls_subject = ''default'', ls_fd = False, ls_held = False\<rparr>"
proof -
  have "validate_corpus_name ''default'' = Inr ''default''" by code_simp
  then have name: "validate_product_corpus_name ''default'' = Inr ''default''" by (simp add: product_name_Inr)
  have new: "snd (new_lease p i Corpus_Lease ''default'' w) =
      put_lease i \<lparr>ls_process = p, ls_kind = Corpus_Lease, ls_subject = ''default'', ls_fd = False, ls_held = False\<rparr> w" for p i w
    by (simp add: new_lease_def name corpus_lease_path_def)
  show "lw_leases sample_world 4 = Some \<lparr>ls_process = 3, ls_kind = Corpus_Lease, ls_subject = ''default'', ls_fd = True, ls_held = True\<rparr>"
    "lw_leases sample_world 5 = Some \<lparr>ls_process = 7, ls_kind = Corpus_Lease, ls_subject = ''default'', ls_fd = False, ls_held = False\<rparr>"
    unfolding sample_world_def new by (simp_all add: acquire_def put_lease_def no_leases_def take_lock_def)
qed

theorem lease_exclusive_witness:
  "\<exists>l. lw_leases sample_world 5 = Some l \<and> acquire 5 sample_world = (lease_busy l, sample_world) \<and>
     fst (acquire 5 (die 3 sample_world)) = Inr ()"
proof -
  have "4 \<in> {j. j \<noteq> 5 \<and> holds sample_world j (lease_lock \<lparr>ls_process = 7, ls_kind = Corpus_Lease, ls_subject = ''default'',
      ls_fd = False, ls_held = False\<rparr>)}"
    by (simp add: holds_def sample_world_leases lease_lock_def)
  then have rival: "4 \<noteq> (5::nat)" "holds sample_world 4 (lease_lock \<lparr>ls_process = 7, ls_kind = Corpus_Lease,
      ls_subject = ''default'', ls_fd = False, ls_held = False\<rparr>)" by simp_all
  note all = lease_exclusive [OF sample_world_reachable sample_world_leases(2), unfolded Let_def]
  have "{j. j \<noteq> 5 \<and> holds sample_world j (lease_lock \<lparr>ls_process = 7, ls_kind = Corpus_Lease,
      ls_subject = ''default'', ls_fd = False, ls_held = False\<rparr>)} \<noteq> {}" using rival by blast
  with all [THEN conjunct2, THEN conjunct1] have "acquire 5 sample_world = (lease_busy \<lparr>ls_process = 7,
      ls_kind = Corpus_Lease, ls_subject = ''default'', ls_fd = False, ls_held = False\<rparr>, sample_world)"
    by (simp only: if_False)
  moreover have "fst (acquire 5 (die 3 sample_world)) = Inr ()"
    using all [THEN conjunct2, THEN conjunct2, THEN conjunct2, THEN conjunct2, THEN spec [of _ 4], THEN spec]
      sample_world_leases(1) rival by fastforce
  ultimately show ?thesis using sample_world_leases(2) by blast
qed

end
