(* ===== verification/Workspace_Records.thy ===== *)
theory Workspace_Records
  imports Leases
begin

section \<open>Workspace records (app/workspace/models.py, app/workspace/corpus_ownership.py)\<close>

text \<open>
  The durable records of a workspace and its source versions with their validation, revisions, and the
  guard that keeps a workspace's backing corpus to the workspace. Times are text. A file's JSON is read
  into a record and validated as the class does; a copy made by \<open>model_copy\<close> is not validated.
\<close>

subsection \<open>Source versions and workspaces\<close>

datatype workspace_status = WS_ACTIVE | WS_EMPTY | WS_TOMBSTONED

definition WORKSPACE_SCHEMA_VERSION :: string where "WORKSPACE_SCHEMA_VERSION = ''offline-rag-workspace-v1''"
definition SOURCE_VERSION_SCHEMA_VERSION :: string where
  "SOURCE_VERSION_SCHEMA_VERSION = ''offline-rag-source-version-v1''"

record source_version =
  sv_schema_version :: string
  sv_source_id :: string
  sv_version :: int
  sv_display_name :: string
  sv_content_type :: "string option"
  sv_byte_size :: "int option"
  sv_content_hash :: "string option"
  sv_document_id :: "string option"
  sv_vault_object_id :: string
  sv_active :: bool
  sv_created_at :: string
  sv_active_from_revision :: int
  sv_active_from_snapshot_id :: "string option"
  sv_active_through_revision :: "int option"
  sv_active_through_snapshot_id :: "string option"

record workspace_record =
  wr_schema_version :: string
  wr_workspace_id :: string
  wr_title :: string
  wr_description :: string
  wr_revision :: int
  wr_backing_corpus_name :: string
  wr_current_snapshot_id :: "string option"
  wr_status :: workspace_status
  wr_created_at :: string
  wr_updated_at :: string
  wr_sources :: "source_version list"

text \<open>\<open>_safe_ids\<close>: a present identity is stripped, not blank and free of path elements.\<close>

definition path_element :: "string \<Rightarrow> bool" where
  "path_element s \<longleftrightarrow> CHR ''/'' \<in> set s \<or> CHR 0x5C \<in> set s \<or> py_in ''..'' s"

definition safe_id :: "string \<Rightarrow> string + string" where
  "safe_id s = (let t = py_strip s in
     if t = [] then Inl ''identity fields must be non-empty strings''
     else if path_element t then Inl ''identity fields must not contain path elements''
     else Inr t)"

definition safe_id_option :: "string option \<Rightarrow> string + string option" where
  "safe_id_option v = (case v of None \<Rightarrow> Inr None | Some s \<Rightarrow> bind_res (safe_id s) (\<lambda>t. Inr (Some t)))"

definition mk_source_version :: "source_version \<Rightarrow> string + source_version" where
  "mk_source_version s =
     bind_res (guard_res (sv_schema_version s = SOURCE_VERSION_SCHEMA_VERSION) ''schema_version'') (\<lambda>_.
     bind_res (safe_id (sv_source_id s)) (\<lambda>sid.
     bind_res (guard_res (1 \<le> sv_version s) ''version'') (\<lambda>_.
     bind_res (guard_res (1 \<le> length (sv_display_name s) \<and> length (sv_display_name s) \<le> 512) ''display_name'') (\<lambda>_.
     bind_res (guard_res (case sv_byte_size s of None \<Rightarrow> True | Some b \<Rightarrow> 0 \<le> b) ''byte_size'') (\<lambda>_.
     bind_res (safe_id_option (sv_content_hash s)) (\<lambda>h.
     bind_res (safe_id_option (sv_document_id s)) (\<lambda>d.
     bind_res (safe_id (sv_vault_object_id s)) (\<lambda>v.
     bind_res (guard_res (1 \<le> sv_active_from_revision s) ''active_from_revision'') (\<lambda>_.
     bind_res (guard_res (case sv_active_through_revision s of None \<Rightarrow> True | Some r \<Rightarrow> 1 \<le> r)
       ''active_through_revision'') (\<lambda>_.
     Inr (s\<lparr>sv_source_id := sid, sv_content_hash := h, sv_document_id := d, sv_vault_object_id := v\<rparr>)))))))))))"

definition active_sources :: "workspace_record \<Rightarrow> source_version list" where
  "active_sources w = filter sv_active (wr_sources w)"

definition status_invariant :: "workspace_record \<Rightarrow> string + unit" where
  "status_invariant w = (case wr_status w of
     WS_EMPTY \<Rightarrow> bind_res (guard_res (wr_sources w = []) ''empty workspace must have sources == []'') (\<lambda>_.
       guard_res (wr_current_snapshot_id w = None) ''empty workspace must have current_snapshot_id == null'')
   | WS_ACTIVE \<Rightarrow> bind_res (guard_res (active_sources w \<noteq> [])
         ''active workspace must have at least one active source'') (\<lambda>_.
       guard_res (wr_current_snapshot_id w \<noteq> None) ''active workspace must have current_snapshot_id set'')
   | WS_TOMBSTONED \<Rightarrow> guard_res (wr_current_snapshot_id w = None)
       ''tombstoned workspace must have current_snapshot_id == null'')"

text \<open>The validator calls \<open>validate_product_corpus_name\<close>, whose \<open>AppError\<close> is no validation error and passes through.\<close>

definition workspace_record_fields :: "workspace_record \<Rightarrow> string + workspace_record" where
  "workspace_record_fields w =
     bind_res (guard_res (wr_schema_version w = WORKSPACE_SCHEMA_VERSION) ''schema_version'') (\<lambda>_.
     bind_res (safe_id (wr_workspace_id w)) (\<lambda>i.
     bind_res (guard_res (1 \<le> length (wr_title w) \<and> length (wr_title w) \<le> 256) ''title'') (\<lambda>_.
     bind_res (guard_res (length (wr_description w) \<le> 4096) ''description'') (\<lambda>_.
     bind_res (guard_res (1 \<le> wr_revision w) ''revision'') (\<lambda>_.
     bind_res (safe_id (wr_backing_corpus_name w)) (\<lambda>c.
     bind_res (guard_res (length c \<le> 64) ''backing_corpus_name'') (\<lambda>_.
     bind_res (safe_id_option (wr_current_snapshot_id w)) (\<lambda>s.
     bind_res (map_res mk_source_version (wr_sources w)) (\<lambda>srcs.
     let r = w\<lparr>wr_workspace_id := i, wr_backing_corpus_name := c, wr_current_snapshot_id := s, wr_sources := srcs\<rparr> in
     bind_res (status_invariant r) (\<lambda>_.
     bind_res (guard_res (wr_title r \<noteq> wr_backing_corpus_name r)
       ''workspace title must not equal backing corpus identity'') (\<lambda>_.
     Inr r)))))))))))"

definition mk_workspace_record :: "workspace_record \<Rightarrow> app_exc + workspace_record" where
  "mk_workspace_record w = bind_res (try_map App_Errors.Value_Error (workspace_record_fields w)) (\<lambda>r.
     bind_res (validate_product_corpus_name (wr_backing_corpus_name r)) (\<lambda>_. Inr r))"

text \<open>Reading \<open>workspace.json\<close>: \<open>corrupt\<close> is what the caller raises for a file that does not validate.\<close>

definition read_record :: "(app_exc + workspace_record) \<Rightarrow> workspace_record file_read \<Rightarrow> app_exc + workspace_record" where
  "read_record corrupt f = (case f of
     Loaded_File w \<Rightarrow> (case mk_workspace_record w of
         Inl (App_Errors.Value_Error _) \<Rightarrow> corrupt
       | r \<Rightarrow> r)
   | _ \<Rightarrow> corrupt)"

subsection \<open>Revisions and names\<close>

definition serialize_revision :: "int \<Rightarrow> app_exc + string" where
  "serialize_revision r = (if r < 1 then refuse E_REQUEST_INVALID ''invalid_workspace_revision'' else Inr (str_int r))"

definition parse_revision :: "string \<Rightarrow> app_exc + int" where
  "parse_revision value = (let t = py_strip value in
     if t = [] \<or> \<not> list_all is_digit t then refuse E_REQUEST_INVALID ''invalid_workspace_revision''
     else if (int (nat_of_digits t)) < 1 then refuse E_REQUEST_INVALID ''invalid_workspace_revision''
     else Inr (int (nat_of_digits t)))"

definition advance_revision :: "int \<Rightarrow> app_exc + int" where
  "advance_revision current =
     (if current < 1 then refuse E_WORKSPACE_STATE_UNAVAILABLE ''invalid_workspace_revision'' else Inr (current + 1))"

definition backing_corpus_name_for :: "string \<Rightarrow> app_exc + string" where
  "backing_corpus_name_for workspace_id =
     (if \<not> starts_with workspace_id ''ws_'' \<or> length workspace_id < 6 then
        refuse E_REQUEST_INVALID ''invalid_workspace_id''
      else validate_product_corpus_name (''wsc_'' @ take 48 (removeprefix ''ws_'' workspace_id)))"

definition new_empty_workspace :: "string \<Rightarrow> string \<Rightarrow> string \<Rightarrow> string \<Rightarrow> app_exc + workspace_record" where
  "new_empty_workspace now title description workspace_id =
     (if path_element workspace_id \<or> \<not> starts_with workspace_id ''ws_'' then
        refuse E_REQUEST_INVALID ''invalid_workspace_id''
      else bind_res (backing_corpus_name_for workspace_id) (\<lambda>corpus.
        mk_workspace_record \<lparr>wr_schema_version = WORKSPACE_SCHEMA_VERSION,
          wr_workspace_id = workspace_id, wr_title = title, wr_description = description, wr_revision = 1,
          wr_backing_corpus_name = corpus, wr_current_snapshot_id = None, wr_status = WS_EMPTY,
          wr_created_at = now, wr_updated_at = now, wr_sources = []\<rparr>))"

definition state_error :: "string \<Rightarrow> string \<Rightarrow> app_exc + 'a" where
  "state_error workspace_id reason = raise_app E_WORKSPACE_STATE_UNAVAILABLE
     (no_details\<lparr>sd_workspace_id := Some workspace_id, sd_reason := Some reason\<rparr>)"

definition conflict_error :: "string \<Rightarrow> string \<Rightarrow> app_exc + 'a" where
  "conflict_error workspace_id reason = raise_app E_WORKSPACE_CONFLICT
     (no_details\<lparr>sd_workspace_id := Some workspace_id, sd_reason := Some reason\<rparr>)"

definition assert_empty_invariant :: "workspace_record \<Rightarrow> app_exc + unit" where
  "assert_empty_invariant w =
     (if wr_status w \<noteq> WS_EMPTY then state_error (wr_workspace_id w) ''expected_empty_status''
      else if wr_sources w \<noteq> [] \<or> wr_current_snapshot_id w \<noteq> None then
        state_error (wr_workspace_id w) ''empty_invariant_violated''
      else Inr ())"

definition assert_non_empty_invariant :: "workspace_record \<Rightarrow> app_exc + unit" where
  "assert_non_empty_invariant w =
     (if wr_status w \<noteq> WS_ACTIVE then state_error (wr_workspace_id w) ''expected_active_status''
      else if active_sources w = [] \<or> wr_current_snapshot_id w = None then
        state_error (wr_workspace_id w) ''active_invariant_violated''
      else Inr ())"

subsection \<open>Who owns a backing corpus\<close>

text \<open>An entry of the workspaces directory: its name, whether it is a directory, and its \<open>workspace.json\<close>.\<close>

type_synonym workspace_entry = "string \<times> bool \<times> workspace_record file_read"

definition ownership_error :: "string \<Rightarrow> string \<Rightarrow> string \<Rightarrow> app_exc + 'a" where
  "ownership_error workspace_id corpus reason = raise_app E_WORKSPACE_STATE_UNAVAILABLE
     (no_details\<lparr>sd_workspace_id := Some workspace_id, sd_corpus := Some corpus, sd_reason := Some reason\<rparr>)"

fun find_workspace_in :: "workspace_entry list \<Rightarrow> string \<Rightarrow> app_exc + string option" where
  "find_workspace_in [] corpus_name = Inr None"
| "find_workspace_in ((name, is_dir, f) # rest) corpus_name =
     (if \<not> is_dir \<or> \<not> starts_with name ''ws_'' \<or> backing_corpus_name_for name \<noteq> Inr corpus_name then
        find_workspace_in rest corpus_name
      else (case f of
          Missing_File \<Rightarrow> ownership_error name corpus_name ''workspace_ownership_record_missing''
        | _ \<Rightarrow> bind_res (read_record (ownership_error name corpus_name ''workspace_ownership_record_unreadable'') f) (\<lambda>r.
            if wr_workspace_id r \<noteq> name \<or> wr_backing_corpus_name r \<noteq> corpus_name then
              ownership_error name corpus_name ''workspace_ownership_record_inconsistent''
            else Inr (Some (wr_workspace_id r)))))"

definition find_workspace_id_for_backing_corpus :: "workspace_entry list option \<Rightarrow> string \<Rightarrow> app_exc + string option" where
  "find_workspace_id_for_backing_corpus entries corpus_name = (case entries of
     None \<Rightarrow> Inr None | Some es \<Rightarrow> find_workspace_in es corpus_name)"

definition assert_legacy_ingest_allowed :: "workspace_entry list option \<Rightarrow> string \<Rightarrow> app_exc + unit" where
  "assert_legacy_ingest_allowed entries corpus_name =
     bind_res (find_workspace_id_for_backing_corpus entries corpus_name) (\<lambda>owner. case owner of
       None \<Rightarrow> Inr ()
     | Some w \<Rightarrow> raise_app E_WORKSPACE_CONFLICT (no_details\<lparr>sd_workspace_id := Some w,
         sd_corpus := Some corpus_name, sd_reason := Some ''workspace_managed_corpus''\<rparr>))"

definition workspace_file :: "workspace_entry list option \<Rightarrow> string \<Rightarrow> workspace_record file_read" where
  "workspace_file entries workspace_id = (case entries of None \<Rightarrow> Missing_File
     | Some es \<Rightarrow> (case map_of es workspace_id of Some (True, f) \<Rightarrow> f | _ \<Rightarrow> Missing_File))"

definition assert_authorized_workspace_corpus ::
    "workspace_entry list option \<Rightarrow> string \<Rightarrow> string \<Rightarrow> app_exc + unit" where
  "assert_authorized_workspace_corpus entries corpus_name workspace_id =
     bind_res (backing_corpus_name_for workspace_id) (\<lambda>expected.
     let mismatch = raise_app E_WORKSPACE_CONFLICT (no_details\<lparr>sd_workspace_id := Some workspace_id,
       sd_corpus := Some corpus_name, sd_reason := Some ''workspace_corpus_mismatch''\<rparr>) in
     if corpus_name \<noteq> expected then mismatch
     else (case workspace_file entries workspace_id of
         Missing_File \<Rightarrow> raise_app E_WORKSPACE_UNKNOWN (no_details\<lparr>sd_workspace_id := Some workspace_id\<rparr>)
       | f \<Rightarrow> bind_res (read_record (state_error workspace_id ''workspace_state_unreadable'') f) (\<lambda>r.
           if wr_backing_corpus_name r \<noteq> corpus_name \<or> wr_workspace_id r \<noteq> workspace_id then mismatch
           else Inr ())))"

subsection \<open>Facts\<close>

lemma safe_id_idem: "safe_id s = Inr t \<Longrightarrow> safe_id t = Inr t"
  by (auto simp: safe_id_def Let_def split: if_splits)

lemma safe_id_option_idem: "safe_id_option v = Inr u \<Longrightarrow> safe_id_option u = Inr u"
  by (auto simp: safe_id_option_def bind_res_Inr_iff safe_id_idem split: option.splits)

lemma mk_source_version_iff:
  "mk_source_version s = Inr t \<longleftrightarrow> (\<exists>sid h d v.
     sv_schema_version s = SOURCE_VERSION_SCHEMA_VERSION \<and> safe_id (sv_source_id s) = Inr sid \<and> 1 \<le> sv_version s \<and>
     1 \<le> length (sv_display_name s) \<and> length (sv_display_name s) \<le> 512 \<and>
     (case sv_byte_size s of None \<Rightarrow> True | Some b \<Rightarrow> 0 \<le> b) \<and> safe_id_option (sv_content_hash s) = Inr h \<and>
     safe_id_option (sv_document_id s) = Inr d \<and> safe_id (sv_vault_object_id s) = Inr v \<and>
     1 \<le> sv_active_from_revision s \<and> (case sv_active_through_revision s of None \<Rightarrow> True | Some r \<Rightarrow> 1 \<le> r) \<and>
     t = s\<lparr>sv_source_id := sid, sv_content_hash := h, sv_document_id := d, sv_vault_object_id := v\<rparr>)"
  by (auto simp: mk_source_version_def bind_res_Inr_iff guard_res_iff)

lemma mk_source_version_idem: "mk_source_version s = Inr t \<Longrightarrow> mk_source_version t = Inr t"
  unfolding mk_source_version_iff
  apply (elim exE)
  subgoal for sid h d v
    by (rule exI [of _ sid], rule exI [of _ h], rule exI [of _ d], rule exI [of _ v])
      (auto simp: safe_id_idem safe_id_option_idem)
  done

lemma map_res_idem:
  assumes "map_res f xs = Inr ys" and "\<And>x y. f x = Inr y \<Longrightarrow> f y = Inr y"
  shows "map_res f ys = Inr ys"
  using assms(1)
proof (induction xs arbitrary: ys)
  case (Cons x xs)
  then show ?case using assms(2) by (auto simp: bind_res_Inr_iff)
qed simp

lemma workspace_record_fields_iff:
  "workspace_record_fields w = Inr r \<longleftrightarrow> (\<exists>i c s srcs.
     wr_schema_version w = WORKSPACE_SCHEMA_VERSION \<and> safe_id (wr_workspace_id w) = Inr i \<and>
     1 \<le> length (wr_title w) \<and> length (wr_title w) \<le> 256 \<and> length (wr_description w) \<le> 4096 \<and>
     1 \<le> wr_revision w \<and> safe_id (wr_backing_corpus_name w) = Inr c \<and> length c \<le> 64 \<and>
     safe_id_option (wr_current_snapshot_id w) = Inr s \<and> map_res mk_source_version (wr_sources w) = Inr srcs \<and>
     r = w\<lparr>wr_workspace_id := i, wr_backing_corpus_name := c, wr_current_snapshot_id := s, wr_sources := srcs\<rparr> \<and>
     status_invariant r = Inr () \<and> wr_title r \<noteq> wr_backing_corpus_name r)"
  by (auto simp: workspace_record_fields_def bind_res_Inr_iff guard_res_iff Let_def)

lemma mk_workspace_record_iff:
  "mk_workspace_record w = Inr r \<longleftrightarrow> workspace_record_fields w = Inr r \<and>
     validate_corpus_name (wr_backing_corpus_name r) = Inr (wr_backing_corpus_name r)"
proof -
  have "(\<exists>n. validate_product_corpus_name m = Inr n) \<longleftrightarrow> validate_corpus_name m = Inr m" for m
    using product_name_same by (auto simp: product_name_Inr)
  then show ?thesis
    by (auto simp: mk_workspace_record_def bind_res_Inr_iff try_map_def split: sum.splits)
qed

lemma mk_workspace_record_idem: "mk_workspace_record w = Inr r \<Longrightarrow> mk_workspace_record r = Inr r"
  unfolding mk_workspace_record_iff workspace_record_fields_iff
  apply (elim conjE exE, intro conjI)
  subgoal for i c s srcs
    by (rule exI [of _ i], rule exI [of _ c], rule exI [of _ s], rule exI [of _ srcs])
      (auto simp: safe_id_idem safe_id_option_idem map_res_idem [OF _ mk_source_version_idem])
  subgoal by assumption
  done

lemma state_error_Inr [simp]: "state_error w r = Inr x \<longleftrightarrow> False" "conflict_error w r = Inr x \<longleftrightarrow> False"
  by (simp_all add: state_error_def conflict_error_def)

end
