(* ===== verification/Durable.thy ===== *)
theory Durable
  imports App_Errors
begin

section \<open>Durable programs\<close>

text \<open>
  A program over durable state gives what it returns or raises, the states it passes through - one for
  each durable write, in order - and the state it ends in. A process can be killed after any write, so the
  states passed through are where a crash can leave the files. \<open>ensures P p Q C\<close> says of a program
  started where \<open>P\<close> holds that it ends in \<open>Q\<close> and passes through \<open>C\<close> only.
\<close>

type_synonym ('s, 'a) prog = "'s \<Rightarrow> (app_exc + 'a) \<times> 's list \<times> 's"

definition ret :: "'a \<Rightarrow> ('s, 'a) prog" where
  "ret a = (\<lambda>s. (Inr a, [], s))"

definition lift_res :: "(app_exc + 'a) \<Rightarrow> ('s, 'a) prog" where
  "lift_res r = (\<lambda>s. (r, [], s))"

definition inspect :: "('s \<Rightarrow> app_exc + 'a) \<Rightarrow> ('s, 'a) prog" where
  "inspect f = (\<lambda>s. (f s, [], s))"

definition durably :: "('s \<Rightarrow> 's) \<Rightarrow> ('s, unit) prog" where
  "durably f = (\<lambda>s. (Inr (), [f s], f s))"

definition bind_prog :: "('s, 'a) prog \<Rightarrow> ('a \<Rightarrow> ('s, 'b) prog) \<Rightarrow> ('s, 'b) prog" where
  "bind_prog p f = (\<lambda>s. case p s of
     (Inl e, tr, s') \<Rightarrow> (Inl e, tr, s')
   | (Inr a, tr, s') \<Rightarrow> (case f a s' of (r, tr', s'') \<Rightarrow> (r, tr @ tr', s'')))"

text \<open>\<open>try: ... except\<close>\<close>

definition handle_prog :: "('s, 'a) prog \<Rightarrow> (app_exc \<Rightarrow> ('s, 'a) prog) \<Rightarrow> ('s, 'a) prog" where
  "handle_prog p h = (\<lambda>s. case p s of
     (Inr a, tr, s') \<Rightarrow> (Inr a, tr, s')
   | (Inl e, tr, s') \<Rightarrow> (case h e s' of (r, tr', s'') \<Rightarrow> (r, tr @ tr', s'')))"

fun each :: "('x \<Rightarrow> ('s, 'a) prog) \<Rightarrow> 'x list \<Rightarrow> ('s, unit) prog" where
  "each f [] = ret ()"
| "each f (x # xs) = bind_prog (f x) (\<lambda>_. each f xs)"

definition ensures ::
    "('s \<Rightarrow> bool) \<Rightarrow> ('s, 'a) prog \<Rightarrow> (app_exc + 'a \<Rightarrow> 's \<Rightarrow> bool) \<Rightarrow> ('s \<Rightarrow> bool) \<Rightarrow> bool" where
  "ensures P p Q C \<longleftrightarrow> (\<forall>s. P s \<longrightarrow> (case p s of (r, tr, s') \<Rightarrow> Q r s' \<and> list_all C tr))"

lemma ensuresD: "ensures P p Q C \<Longrightarrow> P s \<Longrightarrow> p s = (r, tr, s') \<Longrightarrow> Q r s' \<and> list_all C tr"
  by (auto simp: ensures_def)

lemma ensures_ret: "(\<forall>s. P s \<longrightarrow> Q (Inr a) s) \<Longrightarrow> ensures P (ret a) Q C"
  by (simp add: ensures_def ret_def)

lemma ensures_lift: "(\<forall>s. P s \<longrightarrow> Q r s) \<Longrightarrow> ensures P (lift_res r) Q C"
  by (simp add: ensures_def lift_res_def)

lemma ensures_durably: "(\<forall>s. P s \<longrightarrow> Q (Inr ()) (f s) \<and> C (f s)) \<Longrightarrow> ensures P (durably f) Q C"
  by (simp add: ensures_def durably_def)

lemma ensures_bind:
  assumes "ensures P p (\<lambda>r s. case r of Inl e \<Rightarrow> Q (Inl e) s | Inr a \<Rightarrow> R a s) C" and "\<forall>a. ensures (R a) (f a) Q C"
  shows "ensures P (bind_prog p f) Q C"
  unfolding ensures_def
proof (intro allI impI)
  fix s assume "P s"
  obtain r tr s' where p: "p s = (r, tr, s')" by (metis prod_cases3)
  note one = ensuresD [OF assms(1) \<open>P s\<close> p]
  show "case bind_prog p f s of (r, tr, s') \<Rightarrow> Q r s' \<and> list_all C tr"
  proof (cases r)
    case (Inl e)
    with p one show ?thesis by (simp add: bind_prog_def)
  next
    case (Inr a)
    obtain r2 tr2 s2 where f: "f a s' = (r2, tr2, s2)" by (metis prod_cases3)
    from one Inr have "R a s'" by simp
    from ensuresD [OF assms(2) [rule_format] this f] one Inr p f show ?thesis by (simp add: bind_prog_def)
  qed
qed

lemma ensures_each:
  assumes "\<forall>x \<in> set xs. ensures I (f x) (\<lambda>r s. I s \<and> (\<exists>a. r = Inr a)) C"
  shows "ensures I (each f xs) (\<lambda>r s. I s \<and> r = Inr ()) C"
  using assms
proof (induction xs)
  case Nil
  then show ?case by (simp add: ensures_ret)
next
  case (Cons x xs)
  have "ensures I (f x) (\<lambda>r s. case r of Inl e \<Rightarrow> I s \<and> Inl e = Inr () | Inr a \<Rightarrow> I s) C"
    using Cons.prems by (auto simp: ensures_def split: sum.splits)
  then show ?case unfolding each.simps by (rule ensures_bind) (use Cons in simp)
qed

lemma ensures_mono:
  assumes "ensures P p Q C" and "\<forall>s. P' s \<longrightarrow> P s" and "\<forall>r s. Q r s \<longrightarrow> Q' r s" and "\<forall>s. C s \<longrightarrow> C' s"
  shows "ensures P' p Q' C'"
  using assms unfolding ensures_def by (fastforce simp: list_all_iff)

lemma bind_prog_run:
  "p s = (Inr a, tr, s') \<Longrightarrow> bind_prog p f s = (case f a s' of (r, tr', s'') \<Rightarrow> (r, tr @ tr', s''))"
  "p s = (Inl e, tr, s') \<Longrightarrow> bind_prog p f s = (Inl e, tr, s')"
  by (simp_all add: bind_prog_def)

subsection \<open>Sequencing\<close>

lemma ensures_seq:
  assumes "ensures P p (\<lambda>r s. \<exists>a. r = Inr a \<and> R a s) C" and "\<forall>a. ensures (R a) (f a) Q C"
  shows "ensures P (bind_prog p f) Q C"
  by (rule ensures_bind [where R = R]) (use assms in \<open>auto simp: ensures_def split: sum.splits prod.splits\<close>)

lemma ensures_inspect: "(\<forall>s. P s \<longrightarrow> Q (f s) s) \<Longrightarrow> ensures P (inspect f) Q C"
  by (simp add: ensures_def inspect_def)

lemma ensures_look:
  assumes "\<forall>s. P s \<longrightarrow> (\<exists>a. f s = Inr a \<and> R a s)" and "\<forall>a. ensures (R a) (g a) Q C"
  shows "ensures P (bind_prog (inspect f) g) Q C"
  by (rule ensures_seq [where R = R]) (use assms in \<open>auto intro!: ensures_inspect\<close>)

lemma ensures_write:
  assumes "\<forall>s. P s \<longrightarrow> C (h s) \<and> R (h s)" and "ensures R (g ()) Q C"
  shows "ensures P (bind_prog (durably h) g) Q C"
  by (rule ensures_seq [where R = "\<lambda>_. R"]) (use assms in \<open>auto intro!: ensures_durably\<close>)

lemma ensures_pure: "(b \<Longrightarrow> ensures P p Q C) \<Longrightarrow> ensures (\<lambda>s. b \<and> P s) p Q C"
  by (auto simp: ensures_def)

lemma ensures_some: "(\<forall>x. ensures (P x) p Q C) \<Longrightarrow> ensures (\<lambda>s. \<exists>x. P x s) p Q C"
  unfolding ensures_def by metis

lemma ensures_pre: "ensures P p Q C \<Longrightarrow> \<forall>s. P' s \<longrightarrow> P s \<Longrightarrow> ensures P' p Q C"
  by (rule ensures_mono) auto

end
