(* ===== verification/Workspace_Store.thy ===== *)
theory Workspace_Store
  imports Workspace_Records Durable
begin

section \<open>Workspace state (app/workspace/store.py, history.py, mutation_ops.py)\<close>

text \<open>
  The durable files of one workspace: its record, its source history by source and version, the journals
  that fence it, its managed operations by id (their status), and the product directories its publications
  live in. The store's operations run under the workspace's lease, whose check is \<open>lease_guard\<close>; times and
  fresh ids are arguments.
\<close>

datatype publication_phase = INTENT_RECORDED | PUBLICATION_OBSERVED | WORKSPACE_COMMITTED | LINEAGE_COMMITTED | COMMITTED
datatype mutation_kind = SOURCE_ADD | SOURCE_REMOVE | SOURCE_REPLACE

type_synonym source_ref = "string \<times> int"

record lineage_delta =
  ln_appended :: "source_ref list"
  ln_superseded :: "source_ref list"

text \<open>The journal; the prior workspace and the desired sources it keeps as JSON text are kept as records.\<close>

record publication_journal =
  pj_journal_id :: string
  pj_operation_id :: string
  pj_workspace_id :: string
  pj_backing_corpus :: string
  pj_mutation_kind :: mutation_kind
  pj_prior_revision :: int
  pj_prior_snapshot_id :: "string option"
  pj_prior_workspace :: workspace_record
  pj_desired_sources :: "source_version list"
  pj_lineage_delta :: lineage_delta
  pj_new_snapshot_id :: "string option"
  pj_phase :: publication_phase
  pj_created_at :: string
  pj_updated_at :: string

datatype operation_status = OP_PENDING | OP_PREPARING | OP_RUNNING | OP_SUCCEEDED | OP_FAILED | OP_INTERRUPTED

record workspace_state =
  ws_record :: "workspace_record file_read"
  ws_history :: "source_ref \<Rightarrow> source_version file_read"
  ws_journal :: "publication_journal file_read"
  ws_empty_journal :: bool
  ws_operations :: "string \<Rightarrow> operation_status option"
  ws_product :: product_root

subsection \<open>Leases\<close>

text \<open>What \<open>_with_lease\<close> finds for a lease it is given, of the store and of a coordinator.\<close>

definition lease_guard :: "lease_world \<Rightarrow> nat \<Rightarrow> string \<Rightarrow> app_exc + unit" where
  "lease_guard lw i workspace_id = (case lw_leases lw i of
     Some l \<Rightarrow> if ls_kind l \<noteq> Workspace_Lease \<or> ls_subject l \<noteq> workspace_id then
         refuse E_REQUEST_INVALID ''lease_workspace_mismatch''
       else if \<not> ls_held l then state_error workspace_id ''lease_not_held'' else Inr ()
   | None \<Rightarrow> refuse E_REQUEST_INVALID ''lease_workspace_mismatch'')"

definition guarded :: "app_exc + unit \<Rightarrow> ('s, 'a) prog \<Rightarrow> ('s, 'a) prog" where
  "guarded g p = bind_prog (lift_res g) (\<lambda>_. p)"

subsection \<open>The record\<close>

definition workspace_id_ok :: "string \<Rightarrow> app_exc + unit" where
  "workspace_id_ok w = (if workspace_id_refused w then refuse E_REQUEST_INVALID ''invalid_workspace_id'' else Inr ())"

definition put_record :: "workspace_record \<Rightarrow> workspace_state \<Rightarrow> workspace_state" where
  "put_record r s = s\<lparr>ws_record := Loaded_File r\<rparr>"

definition workspace_unknown :: "string \<Rightarrow> string option \<Rightarrow> app_exc + 'a" where
  "workspace_unknown w reason = raise_app E_WORKSPACE_UNKNOWN
     (no_details\<lparr>sd_workspace_id := Some w, sd_reason := reason\<rparr>)"

definition read_store_record :: "string \<Rightarrow> workspace_record file_read \<Rightarrow> app_exc + workspace_record" where
  "read_store_record w f = bind_res (read_record (state_error w ''workspace_state_corrupt'') f) (\<lambda>r.
     if wr_workspace_id r \<noteq> w then state_error w ''workspace_id_mismatch'' else Inr r)"

definition get_workspace :: "string \<Rightarrow> bool \<Rightarrow> workspace_state \<Rightarrow> app_exc + workspace_record" where
  "get_workspace w include_tombstoned s = bind_res (workspace_id_ok w) (\<lambda>_.
     if ws_record s = Missing_File then workspace_unknown w None
     else bind_res (read_store_record w (ws_record s)) (\<lambda>r.
       if wr_status r = WS_TOMBSTONED \<and> \<not> include_tombstoned then
         workspace_unknown w (Some ''workspace_tombstoned'')
       else Inr r))"

definition no_transition_journal :: "string \<Rightarrow> workspace_state \<Rightarrow> app_exc + unit" where
  "no_transition_journal w s =
     (if ws_empty_journal s then conflict_error w ''empty_transition_in_progress''
      else if ws_journal s \<noteq> Missing_File then conflict_error w ''publication_transition_in_progress''
      else Inr ())"

definition create_workspace :: "app_exc + unit \<Rightarrow> workspace_record \<Rightarrow> (workspace_state, workspace_record) prog" where
  "create_workspace lease r = guarded lease (bind_prog (inspect (\<lambda>s.
     if ws_record s \<noteq> Missing_File then conflict_error (wr_workspace_id r) ''workspace_exists'' else Inr ())) (\<lambda>_.
     bind_prog (durably (put_record r)) (\<lambda>_. ret r)))"

definition save_workspace ::
    "app_exc + unit \<Rightarrow> bool \<Rightarrow> workspace_record \<Rightarrow> (workspace_state, workspace_record) prog" where
  "save_workspace lease allow_during_journal r = guarded lease (bind_prog (inspect (\<lambda>s.
     if ws_record s = Missing_File then workspace_unknown (wr_workspace_id r) None
     else if allow_during_journal then Inr () else no_transition_journal (wr_workspace_id r) s)) (\<lambda>_.
     bind_prog (durably (put_record r)) (\<lambda>_. ret r)))"

text \<open>A revision-checked change of the stored record, by \<open>model_copy\<close>.\<close>

definition change_workspace ::
    "app_exc + unit \<Rightarrow> string \<Rightarrow> int \<Rightarrow> string \<Rightarrow> (workspace_record \<Rightarrow> workspace_record) \<Rightarrow>
     (workspace_state, workspace_record) prog" where
  "change_workspace lease w expected_revision now f = guarded lease (bind_prog (inspect (\<lambda>s.
     bind_res (no_transition_journal w s) (\<lambda>_.
     bind_res (get_workspace w False s) (\<lambda>r.
     if wr_revision r \<noteq> expected_revision then conflict_error w ''revision_conflict''
     else bind_res (advance_revision (wr_revision r)) (\<lambda>next_revision.
       Inr (f (r\<lparr>wr_revision := next_revision, wr_updated_at := now\<rparr>))))))) (\<lambda>r.
     bind_prog (durably (put_record r)) (\<lambda>_. ret r)))"

definition apply_metadata_patch ::
    "app_exc + unit \<Rightarrow> string \<Rightarrow> int \<Rightarrow> string \<Rightarrow> string option \<Rightarrow> string option \<Rightarrow>
     (workspace_state, workspace_record) prog" where
  "apply_metadata_patch lease w expected_revision now title description =
     change_workspace lease w expected_revision now (\<lambda>r.
       r\<lparr>wr_title := (case title of None \<Rightarrow> wr_title r | Some t \<Rightarrow> t),
         wr_description := (case description of None \<Rightarrow> wr_description r | Some d \<Rightarrow> d)\<rparr>)"

definition tombstone_workspace :: "app_exc + unit \<Rightarrow> string \<Rightarrow> int \<Rightarrow> string \<Rightarrow> (workspace_state, workspace_record) prog" where
  "tombstone_workspace lease w expected_revision now =
     change_workspace lease w expected_revision now (\<lambda>r. r\<lparr>wr_status := WS_TOMBSTONED, wr_current_snapshot_id := None\<rparr>)"

subsection \<open>Source history\<close>

definition put_version :: "source_version \<Rightarrow> workspace_state \<Rightarrow> workspace_state" where
  "put_version v s = s\<lparr>ws_history := (ws_history s)((sv_source_id v, sv_version v) := Loaded_File v)\<rparr>"

definition version_path_ok :: "string \<Rightarrow> source_ref \<Rightarrow> app_exc + unit" where
  "version_path_ok w key =
     (if snd key < 1 then refuse E_REQUEST_INVALID ''invalid_source_version''
      else if fst key = [] \<or> path_element (fst key) then refuse E_REQUEST_INVALID ''invalid_source_id''
      else if w = [] \<or> path_element w then refuse E_REQUEST_INVALID ''invalid_workspace_id''
      else Inr ())"

definition read_version :: "string \<Rightarrow> source_version file_read \<Rightarrow> app_exc + source_version" where
  "read_version w f = (case f of
     Loaded_File v \<Rightarrow> (case mk_source_version v of Inr x \<Rightarrow> Inr x | Inl _ \<Rightarrow> state_error w ''source_history_corrupt'')
   | _ \<Rightarrow> state_error w ''source_history_corrupt'')"

definition same_identity :: "source_version \<Rightarrow> source_version \<Rightarrow> bool" where
  "same_identity a b \<longleftrightarrow> sv_display_name a = sv_display_name b \<and> sv_content_hash a = sv_content_hash b \<and>
     sv_document_id a = sv_document_id b \<and> sv_vault_object_id a = sv_vault_object_id b \<and>
     sv_byte_size a = sv_byte_size b"

definition append_version :: "string \<Rightarrow> source_version \<Rightarrow> (workspace_state, source_version) prog" where
  "append_version w v = bind_prog (inspect (\<lambda>s. bind_res (version_path_ok w (sv_source_id v, sv_version v)) (\<lambda>_.
     case ws_history s (sv_source_id v, sv_version v) of
       Missing_File \<Rightarrow> Inr None
     | f \<Rightarrow> bind_res (read_version w f) (\<lambda>existing.
         if same_identity existing v then Inr (Some existing)
         else raise_app E_WORKSPACE_CONFLICT (no_details\<lparr>sd_workspace_id := Some w,
           sd_source_id := Some (sv_source_id v), sd_reason := Some ''source_version_identity_conflict''\<rparr>))))) (\<lambda>found.
     case found of Some existing \<Rightarrow> ret existing
     | None \<Rightarrow> bind_prog (durably (put_version v)) (\<lambda>_. ret v))"

definition version_unknown :: "string \<Rightarrow> source_ref \<Rightarrow> app_exc + 'a" where
  "version_unknown w key = raise_app E_SOURCE_UNKNOWN (no_details\<lparr>sd_workspace_id := Some w,
     sd_source_id := Some (fst key), sd_reason := Some ''source_version_unknown''\<rparr>)"

definition supersede_version ::
    "string \<Rightarrow> source_ref \<Rightarrow> int \<Rightarrow> string option \<Rightarrow> (workspace_state, source_version) prog" where
  "supersede_version w key through_revision through_snapshot = bind_prog (inspect (\<lambda>s.
     bind_res (version_path_ok w key) (\<lambda>_.
     if ws_history s key = Missing_File then version_unknown w key
     else read_version w (ws_history s key)))) (\<lambda>existing.
     if \<not> sv_active existing \<and> sv_active_through_revision existing \<noteq> None then ret existing
     else (let superseded = existing\<lparr>sv_active := False, sv_active_through_revision := Some through_revision,
         sv_active_through_snapshot_id := through_snapshot\<rparr> in
       bind_prog (durably (\<lambda>s. s\<lparr>ws_history := (ws_history s)(key := Loaded_File superseded)\<rparr>)) (\<lambda>_.
       ret superseded)))"

subsection \<open>Managed operations\<close>

fun legal_transitions :: "operation_status \<Rightarrow> operation_status list" where
  "legal_transitions OP_PENDING = [OP_PREPARING, OP_RUNNING, OP_FAILED, OP_INTERRUPTED]"
| "legal_transitions OP_PREPARING = [OP_RUNNING, OP_FAILED, OP_INTERRUPTED]"
| "legal_transitions OP_RUNNING = [OP_SUCCEEDED, OP_FAILED, OP_INTERRUPTED]"
| "legal_transitions OP_SUCCEEDED = []"
| "legal_transitions OP_FAILED = []"
| "legal_transitions OP_INTERRUPTED = []"

definition terminal_status :: "operation_status \<Rightarrow> bool" where
  "terminal_status st \<longleftrightarrow> st \<in> {OP_SUCCEEDED, OP_FAILED, OP_INTERRUPTED}"

definition assert_legal_status_transition :: "operation_status \<Rightarrow> operation_status \<Rightarrow> app_exc + unit" where
  "assert_legal_status_transition current nxt =
     (if current = nxt then Inr ()
      else if nxt \<notin> set (legal_transitions current) then
        refuse E_WORKSPACE_STATE_UNAVAILABLE ''illegal_operation_status_transition''
      else Inr ())"

definition get_operation :: "string \<Rightarrow> string \<Rightarrow> workspace_state \<Rightarrow> app_exc + operation_status" where
  "get_operation w i s = (case ws_operations s i of
     Some st \<Rightarrow> Inr st
   | None \<Rightarrow> raise_app E_OPERATION_UNKNOWN (no_details\<lparr>sd_workspace_id := Some w, sd_operation_id := Some i\<rparr>))"

definition update_status :: "string \<Rightarrow> string \<Rightarrow> operation_status \<Rightarrow> (workspace_state, operation_status) prog" where
  "update_status w i st = bind_prog (inspect (\<lambda>s. bind_res (get_operation w i s) (\<lambda>current.
     bind_res (assert_legal_status_transition current st) (\<lambda>_. Inr current)))) (\<lambda>current.
     if current = st \<and> terminal_status st then ret st
     else bind_prog (durably (\<lambda>s. s\<lparr>ws_operations := (ws_operations s)(i \<mapsto> st)\<rparr>)) (\<lambda>_. ret st))"

end
