(* ===== verification/Publication_Journal.thy ===== *)
theory Publication_Journal
  imports Workspace_Store
begin

section \<open>The publication transition journal (app/workspace/publication_journal.py)\<close>

text \<open>
  A mutation of a workspace's sources changes two registries: the product pointer of the backing corpus
  and the workspace record. The journal makes the pair recoverable. Every operation is a durable program
  over the workspace state, so a crash can stop it after any of its writes; the guards are what the lease
  checks found, and \<open>codecs\<close> are those of the publication files.
\<close>

subsection \<open>Journal file\<close>

definition load_journal :: "string \<Rightarrow> workspace_state \<Rightarrow> app_exc + publication_journal option" where
  "load_journal w s = (case ws_journal s of
     Missing_File \<Rightarrow> Inr None
   | Corrupt_File \<Rightarrow> state_error w ''publication_journal_corrupt''
   | Loaded_File j \<Rightarrow> Inr (Some j))"

definition require_journal :: "string \<Rightarrow> workspace_state \<Rightarrow> app_exc + publication_journal" where
  "require_journal w s = bind_res (load_journal w s) (\<lambda>j. case j of
     None \<Rightarrow> state_error w ''publication_journal_missing'' | Some j \<Rightarrow> Inr j)"

definition put_journal :: "publication_journal \<Rightarrow> workspace_state \<Rightarrow> workspace_state" where
  "put_journal j s = s\<lparr>ws_journal := Loaded_File j\<rparr>"

definition save_journal :: "string \<Rightarrow> publication_journal \<Rightarrow> (workspace_state, publication_journal) prog" where
  "save_journal now j = (let updated = j\<lparr>pj_updated_at := now\<rparr> in
     bind_prog (durably (put_journal updated)) (\<lambda>_. ret updated))"

definition unlink_journal :: "(workspace_state, unit) prog" where
  "unlink_journal = (\<lambda>s. if ws_journal s = Missing_File then (Inr (), [], s)
     else durably (\<lambda>s. s\<lparr>ws_journal := Missing_File\<rparr>) s)"

definition forward_phase :: "publication_phase \<Rightarrow> bool" where
  "forward_phase p \<longleftrightarrow> p \<in> {WORKSPACE_COMMITTED, LINEAGE_COMMITTED, COMMITTED}"

subsection \<open>Steps\<close>

definition begin_publication ::
    "app_exc + unit \<Rightarrow> string \<Rightarrow> string \<Rightarrow> string \<Rightarrow> string \<Rightarrow> mutation_kind \<Rightarrow> int \<Rightarrow> source_version list \<Rightarrow>
     lineage_delta \<Rightarrow> (workspace_state, publication_journal) prog" where
  "begin_publication lease now journal_id w operation_id kind expected_revision desired delta =
     guarded lease (bind_prog (inspect (\<lambda>s.
       if desired = [] then raise_app E_REQUEST_INVALID (no_details\<lparr>sd_workspace_id := Some w,
         sd_reason := Some ''publication_requires_active_source''\<rparr>)
       else if ws_journal s \<noteq> Missing_File then conflict_error w ''publication_transition_in_progress''
       else if ws_empty_journal s then conflict_error w ''empty_transition_in_progress''
       else bind_res (get_workspace w False s) (\<lambda>r.
         if wr_revision r \<noteq> expected_revision then conflict_error w ''revision_conflict''
         else if wr_status r \<notin> {WS_ACTIVE, WS_EMPTY} then raise_app E_WORKSPACE_NOT_READY
           (no_details\<lparr>sd_workspace_id := Some w, sd_reason := Some ''workspace_not_mutable''\<rparr>)
         else Inr \<lparr>pj_journal_id = journal_id, pj_operation_id = operation_id, pj_workspace_id = w,
           pj_backing_corpus = wr_backing_corpus_name r, pj_mutation_kind = kind,
           pj_prior_revision = wr_revision r, pj_prior_snapshot_id = wr_current_snapshot_id r,
           pj_prior_workspace = r, pj_desired_sources = desired, pj_lineage_delta = delta,
           pj_new_snapshot_id = None, pj_phase = INTENT_RECORDED, pj_created_at = now, pj_updated_at = now\<rparr>)))
     (save_journal now))"

definition mark_publication_observed ::
    "app_exc + unit \<Rightarrow> string \<Rightarrow> string \<Rightarrow> string \<Rightarrow> (workspace_state, publication_journal) prog" where
  "mark_publication_observed lease now w sid =
     guarded lease (bind_prog (inspect (require_journal w)) (\<lambda>j. case pj_new_snapshot_id j of
       Some observed \<Rightarrow> if observed \<noteq> sid then lift_res (raise_app E_WORKSPACE_CONFLICT
           (no_details\<lparr>sd_workspace_id := Some w, sd_snapshot_id := Some sid,
             sd_reason := Some ''publication_snapshot_conflict''\<rparr>))
         else ret j
     | None \<Rightarrow> if pj_phase j \<noteq> INTENT_RECORDED then lift_res (state_error w ''publication_journal_phase_invalid'')
         else save_journal now (j\<lparr>pj_new_snapshot_id := Some sid, pj_phase := PUBLICATION_OBSERVED\<rparr>)))"

definition commit_workspace ::
    "app_exc + unit \<Rightarrow> string \<Rightarrow> string \<Rightarrow> workspace_record \<Rightarrow> (workspace_state, publication_journal) prog" where
  "commit_workspace lease now w new_record =
     guarded lease (bind_prog (inspect (require_journal w)) (\<lambda>j.
       if forward_phase (pj_phase j) then ret j
       else if pj_phase j \<noteq> PUBLICATION_OBSERVED then lift_res (state_error w ''publication_journal_phase_invalid'')
       else if wr_workspace_id new_record \<noteq> w then lift_res (raise_app E_REQUEST_INVALID
         (no_details\<lparr>sd_workspace_id := Some w, sd_reason := Some ''workspace_id_mismatch''\<rparr>))
       else if wr_revision new_record \<noteq> pj_prior_revision j + 1 then
         lift_res (state_error w ''unexpected_committed_revision'')
       else if wr_current_snapshot_id new_record \<noteq> pj_new_snapshot_id j then
         lift_res (state_error w ''unexpected_committed_snapshot'')
       else if wr_status new_record \<noteq> WS_ACTIVE then lift_res (state_error w ''unexpected_committed_status'')
       else bind_prog (save_workspace lease True new_record) (\<lambda>_.
         save_journal now (j\<lparr>pj_phase := WORKSPACE_COMMITTED\<rparr>))))"

definition find_version :: "source_version list \<Rightarrow> source_ref \<Rightarrow> source_version option" where
  "find_version vs key = map_of (rev (map (\<lambda>v. ((sv_source_id v, sv_version v), v)) vs)) key"

definition append_ref :: "string \<Rightarrow> source_version list \<Rightarrow> source_ref \<Rightarrow> (workspace_state, unit) prog" where
  "append_ref w vs key = (case find_version vs key of
     None \<Rightarrow> lift_res (state_error w ''lineage_source_missing'')
   | Some v \<Rightarrow> bind_prog (append_version w v) (\<lambda>_. ret ()))"

definition supersede_ref ::
    "string \<Rightarrow> source_version list \<Rightarrow> int \<Rightarrow> string option \<Rightarrow> source_ref \<Rightarrow> (workspace_state, unit) prog" where
  "supersede_ref w prior prior_revision prior_snapshot key =
     bind_prog (inspect (\<lambda>s. bind_res (version_path_ok w key) (\<lambda>_. Inr (ws_history s key = Missing_File)))) (\<lambda>missing.
     bind_prog (if missing then append_ref w prior key else ret ()) (\<lambda>_.
     bind_prog (supersede_version w key prior_revision prior_snapshot) (\<lambda>_. ret ())))"

definition commit_lineage :: "app_exc + unit \<Rightarrow> string \<Rightarrow> string \<Rightarrow> (workspace_state, publication_journal) prog" where
  "commit_lineage lease now w =
     guarded lease (bind_prog (inspect (require_journal w)) (\<lambda>j.
       if pj_phase j \<in> {LINEAGE_COMMITTED, COMMITTED} then ret j
       else if pj_phase j \<noteq> WORKSPACE_COMMITTED then lift_res (state_error w ''publication_journal_phase_invalid'')
       else bind_prog (inspect (get_workspace w True)) (\<lambda>committed.
         bind_prog (each (append_ref w (wr_sources committed)) (ln_appended (pj_lineage_delta j))) (\<lambda>_.
         bind_prog (each (supersede_ref w (wr_sources (pj_prior_workspace j)) (pj_prior_revision j)
           (pj_prior_snapshot_id j)) (ln_superseded (pj_lineage_delta j))) (\<lambda>_.
         save_journal now (j\<lparr>pj_phase := LINEAGE_COMMITTED\<rparr>))))))"

definition mark_committed :: "app_exc + unit \<Rightarrow> string \<Rightarrow> string \<Rightarrow> (workspace_state, publication_journal) prog" where
  "mark_committed lease now w = guarded lease (bind_prog (commit_lineage lease now w) (\<lambda>j.
     if pj_phase j = LINEAGE_COMMITTED then save_journal now (j\<lparr>pj_phase := COMMITTED\<rparr>) else ret j))"

definition drop_journal :: "app_exc + unit \<Rightarrow> string \<Rightarrow> (workspace_state, unit) prog" where
  "drop_journal lease w = guarded lease (bind_prog (inspect (load_journal w)) (\<lambda>found. case found of
     None \<Rightarrow> ret ()
   | Some j \<Rightarrow> if pj_phase j \<noteq> COMMITTED then lift_res (state_error w ''publication_journal_phase_invalid'')
       else unlink_journal))"

definition finalize :: "app_exc + unit \<Rightarrow> string \<Rightarrow> string \<Rightarrow> (workspace_state, publication_journal) prog" where
  "finalize lease now w = guarded lease (bind_prog (mark_committed lease now w) (\<lambda>j.
     bind_prog (drop_journal lease w) (\<lambda>_. ret j)))"

subsection \<open>Recovery\<close>

definition live_snapshot_id :: "codecs \<Rightarrow> string \<Rightarrow> workspace_state \<Rightarrow> string option" where
  "live_snapshot_id k corpus s = (case pf_current (ws_product s corpus) of
     None \<Rightarrow> None | Some t \<Rightarrow> load_pointer k t)"

definition workspace_committed :: "publication_journal \<Rightarrow> workspace_record option \<Rightarrow> bool" where
  "workspace_committed j workspace = (case workspace of
     None \<Rightarrow> False
   | Some r \<Rightarrow> forward_phase (pj_phase j) \<or>
       pj_new_snapshot_id j \<noteq> None \<and> wr_current_snapshot_id r = pj_new_snapshot_id j \<and>
       pj_prior_revision j < wr_revision r)"

text \<open>An operation on the product directories, as its two writes: after the first, and after both.\<close>

definition product_prog ::
    "(product_root \<Rightarrow> (app_exc + 'a) \<times> product_root) \<Rightarrow> (product_root \<Rightarrow> (app_exc + 'a) \<times> product_root) \<Rightarrow>
     (workspace_state, unit) prog" where
  "product_prog first both = (\<lambda>s. case both (ws_product s) of
     (Inl e, p) \<Rightarrow> (Inl e, [], s\<lparr>ws_product := p\<rparr>)
   | (Inr _, p) \<Rightarrow> (Inr (), [s\<lparr>ws_product := snd (first (ws_product s))\<rparr>, s\<lparr>ws_product := p\<rparr>], s\<lparr>ws_product := p\<rparr>))"

definition restore_pointer :: "codecs \<Rightarrow> string \<Rightarrow> string \<Rightarrow> (workspace_state, unit) prog" where
  "restore_pointer k corpus sid = product_prog
     (restore_current_publication_pointer k \<lparr>wo_snapshot = True, wo_pointer = True, wo_marker = False\<rparr> corpus sid)
     (restore_current_publication_pointer k \<lparr>wo_snapshot = True, wo_pointer = True, wo_marker = True\<rparr> corpus sid)"

definition retire_pointer :: "codecs \<Rightarrow> string \<Rightarrow> string \<Rightarrow> (workspace_state, unit) prog" where
  "retire_pointer k now corpus = product_prog
     (retire_current_publication k now True False corpus) (retire_current_publication k now True True corpus)"

definition clear_marker :: "string \<Rightarrow> (workspace_state, unit) prog" where
  "clear_marker corpus = product_prog (clear_retirement_marker False corpus) (clear_retirement_marker True corpus)"

definition ensure_new_current :: "codecs \<Rightarrow> string \<Rightarrow> string \<Rightarrow> (workspace_state, unit) prog" where
  "ensure_new_current k corpus sid = bind_prog (inspect (\<lambda>s. Inr (live_snapshot_id k corpus s))) (\<lambda>live.
     if live \<noteq> Some sid then restore_pointer k corpus sid else clear_marker corpus)"

definition restore_prior_publication ::
    "codecs \<Rightarrow> string \<Rightarrow> string \<Rightarrow> string option \<Rightarrow> (workspace_state, unit) prog" where
  "restore_prior_publication k now corpus prior = (case prior of
     Some sid \<Rightarrow> restore_pointer k corpus sid
   | None \<Rightarrow> bind_prog (inspect (\<lambda>s. Inr (live_snapshot_id k corpus s))) (\<lambda>live.
       if live \<noteq> None then retire_pointer k now corpus else clear_marker corpus))"

text \<open>Ending the managed operation: left alone when unknown or already terminal.\<close>

definition end_operation :: "string \<Rightarrow> string \<Rightarrow> operation_status \<Rightarrow> (workspace_state, unit) prog" where
  "end_operation w i st = bind_prog (inspect (\<lambda>s. Inr (ws_operations s i))) (\<lambda>found. case found of
     None \<Rightarrow> ret ()
   | Some current \<Rightarrow> if terminal_status current then ret ()
       else bind_prog (update_status w i st) (\<lambda>_. ret ()))"

definition complete_operation_succeeded :: "string \<Rightarrow> publication_journal \<Rightarrow> (workspace_state, unit) prog" where
  "complete_operation_succeeded w j = bind_prog (inspect (\<lambda>s. Inr (ws_operations s (pj_operation_id j)))) (\<lambda>found.
     case found of None \<Rightarrow> ret ()
     | Some current \<Rightarrow> if terminal_status current then ret ()
         else bind_prog (inspect (get_workspace w True)) (\<lambda>_.
           bind_prog (update_status w (pj_operation_id j) OP_SUCCEEDED) (\<lambda>_. ret ())))"

definition recover_forward ::
    "codecs \<Rightarrow> app_exc + unit \<Rightarrow> app_exc + unit \<Rightarrow> string \<Rightarrow> string \<Rightarrow> publication_journal \<Rightarrow>
     (workspace_state, string) prog" where
  "recover_forward k lease corpus_lease now w j =
     bind_prog (case pj_new_snapshot_id j of None \<Rightarrow> ret ()
       | Some sid \<Rightarrow> guarded corpus_lease (ensure_new_current k (pj_backing_corpus j) sid)) (\<lambda>_.
     bind_prog (if forward_phase (pj_phase j) then ret j
       else save_journal now (j\<lparr>pj_phase := WORKSPACE_COMMITTED\<rparr>)) (\<lambda>j.
     bind_prog (mark_committed lease now w) (\<lambda>_.
     bind_prog (complete_operation_succeeded w j) (\<lambda>_.
     bind_prog (drop_journal lease w) (\<lambda>_. ret ''B'')))))"

definition recover_back ::
    "codecs \<Rightarrow> app_exc + unit \<Rightarrow> string \<Rightarrow> string \<Rightarrow> bool \<Rightarrow> publication_journal \<Rightarrow> (workspace_state, string) prog" where
  "recover_back k corpus_lease now w terminalize_abandoned j =
     bind_prog (guarded corpus_lease
       (restore_prior_publication k now (pj_backing_corpus j) (pj_prior_snapshot_id j))) (\<lambda>_.
     bind_prog (durably (put_record (pj_prior_workspace j))) (\<lambda>_.
     bind_prog (if terminalize_abandoned then end_operation w (pj_operation_id j) OP_INTERRUPTED else ret ()) (\<lambda>_.
     bind_prog unlink_journal (\<lambda>_. ret ''A''))))"

definition recover ::
    "codecs \<Rightarrow> app_exc + unit \<Rightarrow> app_exc + unit \<Rightarrow> string \<Rightarrow> string \<Rightarrow> bool \<Rightarrow> (workspace_state, string) prog" where
  "recover k lease corpus_lease now w terminalize_abandoned =
     guarded lease (bind_prog (inspect (load_journal w)) (\<lambda>found. case found of
       None \<Rightarrow> ret ''clean''
     | Some j \<Rightarrow> bind_prog (inspect (\<lambda>s. case get_workspace w True s of
           Inl (Raised _) \<Rightarrow> Inr None | Inl e \<Rightarrow> Inl e | Inr r \<Rightarrow> Inr (Some r))) (\<lambda>workspace.
         if workspace_committed j workspace then recover_forward k lease corpus_lease now w j
         else recover_back k corpus_lease now w terminalize_abandoned j)))"

subsection \<open>One mutation (app/workspace/lifecycle.py)\<close>

text \<open>
  The record after a publication: the desired sources, the appended ones marked with the snapshot that
  first has them.
\<close>

definition committed_record ::
    "string \<Rightarrow> workspace_record \<Rightarrow> source_version list \<Rightarrow> lineage_delta \<Rightarrow> string \<Rightarrow> app_exc + workspace_record" where
  "committed_record now prior desired delta sid =
     bind_res (advance_revision (wr_revision prior)) (\<lambda>next_revision. Inr (prior\<lparr>
       wr_sources := map (\<lambda>v. if (sv_source_id v, sv_version v) \<in> set (ln_appended delta)
         then v\<lparr>sv_active_from_snapshot_id := Some sid\<rparr> else v) desired,
       wr_current_snapshot_id := Some sid, wr_status := WS_ACTIVE, wr_revision := next_revision,
       wr_updated_at := now\<rparr>))"

text \<open>
  From the journal's begin to its end. \<open>ingest\<close> is the replace ingest of the desired set: its result and
  the product directories it leaves, with the states it passes through. A failure recovers at once, under
  the leases still held, and then fails the operation.
\<close>

definition wrapped_fault :: "app_exc \<Rightarrow> app_exc" where
  "wrapped_fault e = (case e of Raised _ \<Rightarrow> e | _ \<Rightarrow> (case refuse E_INTERNAL_ERROR ''workspace_mutation_fault'' of
     Inl x \<Rightarrow> x | Inr () \<Rightarrow> e))"

definition fail_operation :: "codecs \<Rightarrow> string \<Rightarrow> string \<Rightarrow> string \<Rightarrow> app_exc \<Rightarrow> (workspace_state, 'a) prog" where
  "fail_operation k now w operation_id e =
     bind_prog (handle_prog (recover k (Inr ()) (Inr ()) now w False)
       (\<lambda>x. case x of Raised _ \<Rightarrow> ret ''failed'' | _ \<Rightarrow> lift_res (Inl x))) (\<lambda>_.
     bind_prog (handle_prog (bind_prog (update_status w operation_id OP_FAILED) (\<lambda>_. ret ())) (\<lambda>x. case x of
         Raised err \<Rightarrow> if er_code err \<noteq> E_WORKSPACE_STATE_UNAVAILABLE then lift_res (Inl x)
           else bind_prog (inspect (get_operation w operation_id)) (\<lambda>st.
             if terminal_status st then ret () else lift_res (Inl x))
       | _ \<Rightarrow> lift_res (Inl x))) (\<lambda>_. lift_res (Inl (wrapped_fault e))))"

definition call_ingest ::
    "(product_root \<Rightarrow> (app_exc + string) \<times> product_root list \<times> product_root) \<Rightarrow> (workspace_state, string) prog" where
  "call_ingest ingest = (\<lambda>s. case ingest (ws_product s) of (r, tr, p) \<Rightarrow>
     (r, map (\<lambda>q. s\<lparr>ws_product := q\<rparr>) tr, s\<lparr>ws_product := p\<rparr>))"

definition execute_publication ::
    "codecs \<Rightarrow> (product_root \<Rightarrow> (app_exc + string) \<times> product_root list \<times> product_root) \<Rightarrow> string \<Rightarrow> string \<Rightarrow>
     string \<Rightarrow> string \<Rightarrow> mutation_kind \<Rightarrow> workspace_record \<Rightarrow> source_version list \<Rightarrow> lineage_delta \<Rightarrow>
     (workspace_state, unit) prog" where
  "execute_publication k ingest now journal_id w operation_id kind prior desired delta =
     handle_prog
      (bind_prog (begin_publication (Inr ()) now journal_id w operation_id kind (wr_revision prior) desired delta) (\<lambda>_.
       bind_prog (update_status w operation_id OP_RUNNING) (\<lambda>_.
       bind_prog (call_ingest ingest) (\<lambda>sid.
       bind_prog (mark_publication_observed (Inr ()) now w sid) (\<lambda>_.
       bind_prog (lift_res (committed_record now prior desired delta sid)) (\<lambda>committed.
       bind_prog (commit_workspace (Inr ()) now w committed) (\<lambda>_.
       bind_prog (mark_committed (Inr ()) now w) (\<lambda>_.
       bind_prog (update_status w operation_id OP_SUCCEEDED) (\<lambda>_.
       drop_journal (Inr ()) w)))))))))
      (fail_operation k now w operation_id)"

end
