(* ===== verification/Product_Ingest.thy ===== *)
theory Product_Ingest
  imports Publication_Journal Operations
begin

section \<open>Full-replace ingest (app/ingest.py)\<close>

text \<open>
  \<open>run_product_replace_ingest\<close> as a durable program: the guards before the lease, the lease, the candidate,
  the four stages between checkpoints, the identity built from their outputs, and the publication. The
  scientific stages, the hooks and the settings are arguments (\<open>ingest_stages\<close>); so are the cancellations
  that arrive and the clock at each control point. An operation control is optional, as in the code.
\<close>

subsection \<open>The upload\<close>

record spooled_upload_file =
  uf_storage_name :: string
  uf_client_filename :: string
  uf_source_name :: string
  uf_document_id :: string
  uf_size_bytes :: int
  uf_media_type :: string

record spooled_upload =
  up_corpus_name :: string
  up_files :: "spooled_upload_file list"

definition is_lower_hex :: "char \<Rightarrow> bool" where
  "is_lower_hex c \<longleftrightarrow> c \<in> set ''0123456789abcdef''"

definition identity_step ::
    "string list \<times> (string \<times> string \<times> string) list \<Rightarrow> spooled_upload_file \<Rightarrow>
     app_exc + string list \<times> (string \<times> string \<times> string) list" where
  "identity_step acc f = (case acc of (seen, identities) \<Rightarrow>
     let doc_id = uf_document_id f; content_hash = removeprefix ''doc_'' doc_id in
     if doc_id \<in> set seen then document_identity_conflict_error (Some doc_id) None
     else if length content_hash \<noteq> 64 \<or> \<not> list_all is_lower_hex content_hash \<or> \<not> starts_with doc_id ''doc_'' then
       refuse E_INGEST_FAILED ''invalid_document_identity''
     else Inr (doc_id # seen, dict_set (uf_storage_name f) (doc_id, content_hash) identities))"

definition validate_document_identities ::
    "spooled_upload \<Rightarrow> app_exc + (string \<times> string \<times> string) list" where
  "validate_document_identities up = bind_res (fold_res identity_step ([], []) (up_files up)) (\<lambda>acc. Inr (snd acc))"

subsection \<open>Stages and control\<close>

datatype stage_status = STAGE_SUCCESS | STAGE_FAILED | STAGE_NO_OP

record ingestion_outcome =
  io_status :: stage_status
  io_failure_class :: string
  io_failure_reason :: "string option"

record ingest_stages =
  ig_ready :: "app_exc + unit"
  ig_establish :: "app_exc + unit"
  ig_after_lease :: "app_exc + unit"
  ig_inputs :: "string list"
  ig_before_stage :: "string \<Rightarrow> app_exc + unit"
  ig_after_stage :: "string \<Rightarrow> app_exc + unit"
  ig_run_ingestion :: "app_exc + ingestion_outcome"
  ig_corpus_documents :: "app_exc + string list"
  ig_run_chunking :: "app_exc + stage_status \<times> int"
  ig_run_indexing :: "app_exc + stage_status \<times> string option"
  ig_run_lexical_indexing :: "app_exc + stage_status"
  ig_identity :: "app_exc + canonical_snapshot"

record ingest_state =
  in_leases :: lease_world
  in_candidates :: "string list"
  in_product :: product_root
  in_handle :: "operation_handle option"

text \<open>What reaches the handle before a control point, and the clock there.\<close>

record control_world =
  cw_arrivals :: "string \<Rightarrow> cancel_reason list"
  cw_clock :: "string \<Rightarrow> pyfloat"

definition control_point ::
    "control_world \<Rightarrow> string \<Rightarrow> (operation_handle \<Rightarrow> app_exc + operation_handle) \<Rightarrow> (ingest_state, unit) prog" where
  "control_point cw place f = (\<lambda>s. case in_handle s of
     None \<Rightarrow> (Inr (), [], s)
   | Some h \<Rightarrow> (let h1 = foldl (\<lambda>h r. signal_cancel r h) h (cw_arrivals cw place) in
       case f h1 of
         Inl e \<Rightarrow> (Inl e, [], s\<lparr>in_handle := Some h1\<rparr>)
       | Inr h2 \<Rightarrow> (Inr (), [], s\<lparr>in_handle := Some h2\<rparr>)))"

definition checkpoint_at :: "control_world \<Rightarrow> string \<Rightarrow> (ingest_state, unit) prog" where
  "checkpoint_at cw place = control_point cw place (\<lambda>h. bind_res (checkpoint (cw_clock cw place) place h) (\<lambda>_. Inr h))"

definition run_stage ::
    "control_world \<Rightarrow> ingest_stages \<Rightarrow> string \<Rightarrow> (app_exc + 'a) \<Rightarrow> (ingest_state, 'a) prog" where
  "run_stage cw st stage out =
     bind_prog (checkpoint_at cw (''pre_'' @ stage)) (\<lambda>_.
     bind_prog (lift_res (ig_before_stage st stage)) (\<lambda>_.
     bind_prog (lift_res out) (\<lambda>r.
     bind_prog (lift_res (ig_after_stage st stage)) (\<lambda>_. ret r))))"

definition map_ingestion_failure :: "ingestion_outcome \<Rightarrow> app_exc + 'a" where
  "map_ingestion_failure r =
     (if py_lower (io_failure_class r) = ''internal'' then refuse E_INGEST_FAILED ''internal_ingest_failure''
      else if io_failure_reason r = Some ''ocr_required'' then refuse E_DOCUMENT_INVALID ''ocr_required''
      else refuse E_DOCUMENT_INVALID ''document_unparseable'')"

text \<open>\<open>dense/failure.py\<close>\<close>

definition DENSE_FAILURE_PUBLIC_REASONS :: "string list" where
  "DENSE_FAILURE_PUBLIC_REASONS = [''embedding_generation_failed'', ''cuda_memory_exhausted'',
     ''embedding_artifact_persistence_failed'', ''dense_materialization_failed'', ''dense_validation_failed'',
     ''dense_precondition_failed'', ''dense_stage_failed'']"

definition public_dense_failure_reason :: "string option \<Rightarrow> string" where
  "public_dense_failure_reason classification = (case classification of
     Some c \<Rightarrow> if c \<in> set DENSE_FAILURE_PUBLIC_REASONS then c else ''stage_failed''
   | None \<Rightarrow> ''stage_failed'')"

definition stage_failed :: "string \<Rightarrow> string \<Rightarrow> app_exc + 'a" where
  "stage_failed stage reason = raise_app E_INGEST_FAILED
     (no_details\<lparr>sd_stage := Some stage, sd_reason := Some reason\<rparr>)"

text \<open>\<open>workspace/capacity.py\<close>: only an add or a replace is held to the ceiling, when there is one.\<close>

definition enforce_searchable_workload_capacity :: "int option \<Rightarrow> int \<Rightarrow> mutation_kind option \<Rightarrow> app_exc + unit" where
  "enforce_searchable_workload_capacity cap children kind =
     (if kind \<notin> {Some SOURCE_ADD, Some SOURCE_REPLACE} then Inr ()
      else (case cap of
          None \<Rightarrow> Inr ()
        | Some limit \<Rightarrow> if limit < children then raise_app E_REQUEST_INVALID (no_details\<lparr>
              sd_reason := Some ''searchable_workload_capacity_exceeded'',
              sd_fields := Some [JObj [(''loc'', JList [JStr ''max_searchable_child_chunks_per_workspace'']),
                (''msg'', JStr (''limit='' @ str_int limit @ '' observed='' @ str_int children)),
                (''type'', JStr ''workspace_capacity'')]]\<rparr>)
            else Inr ()))"

subsection \<open>The transaction\<close>

text \<open>Publishing inside the program: the states after the snapshot, the pointer and the marker.\<close>

definition publish_prog ::
    "(write_outcomes \<Rightarrow> product_root \<Rightarrow> (app_exc + string) \<times> product_root) \<Rightarrow> write_outcomes \<Rightarrow>
     (ingest_state, string) prog" where
  "publish_prog pub wo = (\<lambda>s. case pub wo (in_product s) of (r, p) \<Rightarrow>
     (r, map (\<lambda>wo. s\<lparr>in_product := snd (pub wo (in_product s))\<rparr>)
        [wo\<lparr>wo_pointer := False\<rparr>, wo\<lparr>wo_marker := False\<rparr>, wo], s\<lparr>in_product := p\<rparr>))"

definition doc_count_ok :: "spooled_upload \<Rightarrow> string list \<Rightarrow> app_exc + unit" where
  "doc_count_ok up ids = (if length ids \<noteq> length (up_files up) then refuse E_INGEST_FAILED ''replace_set_mismatch''
     else if \<not> distinct ids then document_identity_conflict_error None None else Inr ())"

definition run_pipeline ::
    "control_world \<Rightarrow> ingest_stages \<Rightarrow> int option \<Rightarrow> mutation_kind option \<Rightarrow> spooled_upload \<Rightarrow>
     (ingest_state, canonical_snapshot) prog" where
  "run_pipeline cw st cap kind up =
     bind_prog (run_stage cw st ''ingest'' (ig_run_ingestion st)) (\<lambda>r.
     bind_prog (lift_res (if io_status r = STAGE_FAILED then map_ingestion_failure r else Inr ())) (\<lambda>_.
     bind_prog (lift_res (bind_res (ig_corpus_documents st) (doc_count_ok up))) (\<lambda>_.
     bind_prog (run_stage cw st ''chunk'' (ig_run_chunking st)) (\<lambda>c.
     bind_prog (lift_res (if fst c = STAGE_FAILED then stage_failed ''chunk'' ''stage_failed'' else Inr ())) (\<lambda>_.
     bind_prog (lift_res (enforce_searchable_workload_capacity cap (snd c) kind)) (\<lambda>_.
     bind_prog (run_stage cw st ''dense'' (ig_run_indexing st)) (\<lambda>d.
     bind_prog (lift_res (if fst d = STAGE_FAILED
       then stage_failed ''dense'' (public_dense_failure_reason (snd d)) else Inr ())) (\<lambda>_.
     bind_prog (run_stage cw st ''lexical'' (ig_run_lexical_indexing st)) (\<lambda>l.
     bind_prog (lift_res (if l = STAGE_FAILED then stage_failed ''lexical'' ''stage_failed'' else Inr ())) (\<lambda>_.
     lift_res (ig_identity st)))))))))))"

definition publish_candidate ::
    "control_world \<Rightarrow> ingest_stages \<Rightarrow> (canonical_snapshot \<Rightarrow> write_outcomes \<Rightarrow> product_root \<Rightarrow> (app_exc + string) \<times> product_root) \<Rightarrow>
     write_outcomes \<Rightarrow> canonical_snapshot \<Rightarrow> (ingest_state, string) prog" where
  "publish_candidate cw st pub wo m =
     bind_prog (checkpoint_at cw ''pre_publish'') (\<lambda>_.
     bind_prog (lift_res (ig_before_stage st ''publish'')) (\<lambda>_.
     bind_prog (control_point cw ''publish'' (enter_publication (cw_clock cw ''publish''))) (\<lambda>_.
     bind_prog (publish_prog (pub m) wo) (\<lambda>sid.
     bind_prog (lift_res (ig_after_stage st ''publish'')) (\<lambda>_. ret sid)))))"

definition add_candidate :: "string \<Rightarrow> (ingest_state, unit) prog" where
  "add_candidate cid = durably (\<lambda>s. s\<lparr>in_candidates := in_candidates s @ [cid]\<rparr>)"

definition under_lease ::
    "control_world \<Rightarrow> ingest_stages \<Rightarrow> (canonical_snapshot \<Rightarrow> write_outcomes \<Rightarrow> product_root \<Rightarrow> (app_exc + string) \<times> product_root) \<Rightarrow>
     write_outcomes \<Rightarrow> int option \<Rightarrow> mutation_kind option \<Rightarrow> string \<Rightarrow> spooled_upload \<Rightarrow>
     (ingest_state, string) prog" where
  "under_lease cw st pub wo cap kind cid up =
     bind_prog (control_point cw ''lease'' (complete_lease_acquire (cw_clock cw ''lease''))) (\<lambda>_.
     bind_prog (lift_res (ig_establish st)) (\<lambda>_.
     bind_prog (add_candidate cid) (\<lambda>_.
     bind_prog (lift_res (ig_after_lease st)) (\<lambda>_.
     bind_prog (lift_res (if ig_inputs st = [] then refuse E_INGEST_FAILED ''candidate_sources_missing'' else Inr ())) (\<lambda>_.
     bind_prog (run_pipeline cw st cap kind up) (publish_candidate cw st pub wo))))))"

text \<open>\<open>except AppError: raise\<close>, \<open>except Exception\<close>\<close>

definition as_ingest_failure :: "app_exc \<Rightarrow> app_exc + 'a" where
  "as_ingest_failure e = (case e of Raised _ \<Rightarrow> Inl e | _ \<Rightarrow> refuse E_INGEST_FAILED ''internal_ingest_failure'')"

definition acquire_prog :: "nat \<Rightarrow> (ingest_state, unit) prog" where
  "acquire_prog i = (\<lambda>s. case acquire i (in_leases s) of (r, lw) \<Rightarrow> (r, [], s\<lparr>in_leases := lw\<rparr>))"

definition release_prog :: "nat \<Rightarrow> ingest_state \<Rightarrow> ingest_state" where
  "release_prog i s = s\<lparr>in_leases := release i (in_leases s)\<rparr>"

text \<open>With a lease of its own: released whatever happens once it was taken.\<close>

definition with_own_lease ::
    "control_world \<Rightarrow> nat \<Rightarrow> (ingest_state, string) prog \<Rightarrow> (ingest_state, string) prog" where
  "with_own_lease cw i body = bind_prog (handle_prog (bind_prog (checkpoint_at cw ''pre_lease'') (\<lambda>_. acquire_prog i))
       (\<lambda>e. lift_res (as_ingest_failure e))) (\<lambda>_.
     (\<lambda>s. case handle_prog body (\<lambda>e. lift_res (as_ingest_failure e)) s of
        (r, tr, s') \<Rightarrow> (r, tr, release_prog i s')))"

definition with_given_lease :: "control_world \<Rightarrow> (ingest_state, string) prog \<Rightarrow> (ingest_state, string) prog" where
  "with_given_lease cw body = handle_prog (bind_prog (checkpoint_at cw ''pre_lease'') (\<lambda>_. body))
     (\<lambda>e. lift_res (as_ingest_failure e))"

definition given_lease_ok :: "nat \<Rightarrow> string \<Rightarrow> lease_world \<Rightarrow> app_exc + unit" where
  "given_lease_ok i corpus lw = (case lw_leases lw i of
     Some l \<Rightarrow> if ls_held l \<and> ls_kind l = Corpus_Lease \<and> ls_subject l = corpus then Inr ()
       else raise_app E_WORKSPACE_STATE_UNAVAILABLE
         (no_details\<lparr>sd_corpus := Some corpus, sd_reason := Some ''corpus_lease_not_held''\<rparr>)
   | None \<Rightarrow> raise_app E_WORKSPACE_STATE_UNAVAILABLE
         (no_details\<lparr>sd_corpus := Some corpus, sd_reason := Some ''corpus_lease_not_held''\<rparr>))"

datatype ingest_lease = Own_Lease nat nat | Given_Lease nat

definition make_lease :: "nat \<Rightarrow> nat \<Rightarrow> string \<Rightarrow> (ingest_state, unit) prog" where
  "make_lease p i corpus = (\<lambda>s. case new_lease p i Corpus_Lease corpus (in_leases s) of
     (r, lw) \<Rightarrow> (r, [], s\<lparr>in_leases := lw\<rparr>))"

definition run_product_replace_ingest ::
    "control_world \<Rightarrow> ingest_stages \<Rightarrow> (canonical_snapshot \<Rightarrow> write_outcomes \<Rightarrow> product_root \<Rightarrow> (app_exc + string) \<times> product_root) \<Rightarrow>
     write_outcomes \<Rightarrow> int option \<Rightarrow> mutation_kind option \<Rightarrow> workspace_entry list option \<Rightarrow> string option \<Rightarrow> string \<Rightarrow>
     ingest_lease \<Rightarrow> spooled_upload \<Rightarrow> (ingest_state, string) prog" where
  "run_product_replace_ingest cw st pub wo cap kind workspaces authorize cid lease up =
     bind_prog (lift_res (ig_ready st)) (\<lambda>_.
     bind_prog (checkpoint_at cw ''pre_validate'') (\<lambda>_.
     bind_prog (lift_res (case authorize of
         None \<Rightarrow> assert_legacy_ingest_allowed workspaces (up_corpus_name up)
       | Some w \<Rightarrow> assert_authorized_workspace_corpus workspaces (up_corpus_name up) w)) (\<lambda>_.
     bind_prog (lift_res (validate_document_identities up)) (\<lambda>_.
     let body = under_lease cw st pub wo cap kind cid up in
     case lease of
       Given_Lease i \<Rightarrow> bind_prog (inspect (\<lambda>s. given_lease_ok i (up_corpus_name up) (in_leases s))) (\<lambda>_.
         with_given_lease cw body)
     | Own_Lease p i \<Rightarrow> bind_prog (make_lease p i (up_corpus_name up)) (\<lambda>_. with_own_lease cw i body)))))"

text \<open>The publication the runtime does: \<open>ProductPublicationRegistry.publish\<close> with the current configuration.\<close>

definition runtime_publish ::
    "digest \<Rightarrow> (pyfloat \<Rightarrow> string) \<Rightarrow> (pyfloat \<Rightarrow> pyfloat) \<Rightarrow> codecs \<Rightarrow> artifact_roots \<Rightarrow> artifact_roots \<Rightarrow> string \<Rightarrow>
     canonical_snapshot \<Rightarrow> write_outcomes \<Rightarrow> product_root \<Rightarrow> (app_exc + string) \<times> product_root" where
  "runtime_publish sha fr fl k before after corpus m wo p = publish sha fr fl k before after wo True corpus m p"

end
