(* ===== verification/Mutation_States.thy ===== *)
theory Mutation_States
  imports Publication_Journal
begin

section \<open>A mutation happens or it does not\<close>

text \<open>
  Two settled states of a workspace: its record and the live publication agree, and no journal is open. A
  mutation goes from one settled state to the next; wherever it is stopped, the journal it leaves says
  which side it is on, and recovery settles it there. What the coordinator needs of the ingest is an
  interface (\<open>replace_ingest\<close>): it stores, it moves the pointer to what it stored or not at all.
\<close>

subsection \<open>The mutation\<close>

record mutation =
  mu_workspace :: string
  mu_prior :: workspace_record
  mu_desired :: "source_version list"
  mu_delta :: lineage_delta
  mu_operation :: string

definition mu_corpus :: "mutation \<Rightarrow> string" where
  "mu_corpus m = wr_backing_corpus_name (mu_prior m)"

text \<open>A mutation planned on a record that was read, with validated sources, one of them active, and no version
  both started and ended.\<close>

definition mutation_ok :: "mutation \<Rightarrow> bool" where
  "mutation_ok m \<longleftrightarrow> mk_workspace_record (mu_prior m) = Inr (mu_prior m) \<and>
     wr_workspace_id (mu_prior m) = mu_workspace m \<and> \<not> workspace_id_refused (mu_workspace m) \<and>
     wr_status (mu_prior m) \<in> {WS_ACTIVE, WS_EMPTY} \<and> filter sv_active (mu_desired m) \<noteq> [] \<and>
     (\<forall>v \<in> set (mu_desired m). mk_source_version v = Inr v) \<and>
     set (ln_appended (mu_delta m)) \<inter> set (ln_superseded (mu_delta m)) = {}"

text \<open>The history is fit for the mutation's lineage.\<close>

definition lineage_ready :: "mutation \<Rightarrow> workspace_state \<Rightarrow> bool" where
  "lineage_ready m s \<longleftrightarrow>
     (\<forall>key \<in> set (ln_appended (mu_delta m)) \<union> set (ln_superseded (mu_delta m)).
        version_path_ok (mu_workspace m) key = Inr () \<and>
        (case ws_history s key of Missing_File \<Rightarrow> True | Corrupt_File \<Rightarrow> False
         | Loaded_File x \<Rightarrow> mk_source_version x = Inr x)) \<and>
     (\<forall>key \<in> set (ln_appended (mu_delta m)). \<exists>v. find_version (mu_desired m) key = Some v \<and>
        (\<forall>x. ws_history s key = Loaded_File x \<longrightarrow> same_identity x v)) \<and>
     (\<forall>key \<in> set (ln_superseded (mu_delta m)). ws_history s key = Missing_File \<longrightarrow>
        find_version (wr_sources (mu_prior m)) key \<noteq> None)"

text \<open>The pointer names a stored snapshot, and the snapshot of the prior record is stored.\<close>

definition pointer_ok :: "codecs \<Rightarrow> product_files \<Rightarrow> bool" where
  "pointer_ok k files \<longleftrightarrow> (case pf_current files of None \<Rightarrow> True
     | Some t \<Rightarrow> (\<exists>sid. sid \<noteq> [] \<and> t = cd_dump_pointer k sid))"

definition stored :: "product_files \<Rightarrow> string \<Rightarrow> bool" where
  "stored files sid \<longleftrightarrow> pf_snapshots files sid \<noteq> None \<and> \<not> snapshot_id_refused sid \<and> safe_id sid = Inr sid"

definition common :: "codecs \<Rightarrow> mutation \<Rightarrow> workspace_state \<Rightarrow> bool" where
  "common k m s \<longleftrightarrow> pointer_ok k (ws_product s (mu_corpus m)) \<and> lineage_ready m s \<and> \<not> ws_empty_journal s \<and>
     (\<forall>sid. wr_current_snapshot_id (mu_prior m) = Some sid \<longrightarrow> stored (ws_product s (mu_corpus m)) sid)"

text \<open>Settled at a record: no journal, and the publication is the one the record claims.\<close>

definition settled :: "codecs \<Rightarrow> mutation \<Rightarrow> workspace_record \<Rightarrow> workspace_state \<Rightarrow> bool" where
  "settled k m r s \<longleftrightarrow> ws_record s = Loaded_File r \<and> ws_journal s = Missing_File \<and>
     live_snapshot_id k (mu_corpus m) s = wr_current_snapshot_id r"

definition journaled :: "mutation \<Rightarrow> publication_journal \<Rightarrow> bool" where
  "journaled m j \<longleftrightarrow> pj_operation_id j = mu_operation m \<and> pj_backing_corpus j = mu_corpus m \<and>
     pj_prior_revision j = wr_revision (mu_prior m) \<and> pj_prior_snapshot_id j = wr_current_snapshot_id (mu_prior m) \<and>
     pj_prior_workspace j = mu_prior m \<and> pj_lineage_delta j = mu_delta m"

text \<open>The record a snapshot commits, at some time.\<close>

definition commits :: "mutation \<Rightarrow> string \<Rightarrow> workspace_record \<Rightarrow> bool" where
  "commits m sid r \<longleftrightarrow> (\<exists>now. committed_record now (mu_prior m) (mu_desired m) (mu_delta m) sid = Inr r)"

text \<open>Between the journal's begin and the record's write.\<close>

definition backward :: "codecs \<Rightarrow> mutation \<Rightarrow> publication_journal \<Rightarrow> workspace_state \<Rightarrow> bool" where
  "backward k m j s \<longleftrightarrow> common k m s \<and> ws_record s = Loaded_File (mu_prior m) \<and> ws_journal s = Loaded_File j \<and>
     journaled m j \<and> (pj_phase j = INTENT_RECORDED \<and> pj_new_snapshot_id j = None \<or>
      pj_phase j = PUBLICATION_OBSERVED \<and> pj_new_snapshot_id j \<noteq> None)"

text \<open>The record claims the new snapshot: a state the code only moves forward from.\<close>

definition forward ::
    "codecs \<Rightarrow> mutation \<Rightarrow> string \<Rightarrow> workspace_record \<Rightarrow> product_root \<Rightarrow> operation_status option \<Rightarrow>
     publication_journal \<Rightarrow> workspace_state \<Rightarrow> bool" where
  "forward k m sid r p st j s \<longleftrightarrow> common k m s \<and> ws_product s = p \<and> stored (p (mu_corpus m)) sid \<and>
     ws_record s = Loaded_File r \<and> commits m sid r \<and> ws_journal s = Loaded_File j \<and> journaled m j \<and>
     pj_phase j \<noteq> INTENT_RECORDED \<and> pj_new_snapshot_id j = Some sid \<and>
     ws_operations s (mu_operation m) = st \<and> st \<notin> {Some OP_PENDING, Some OP_PREPARING}"

definition after_pivot :: "codecs \<Rightarrow> mutation \<Rightarrow> workspace_record \<Rightarrow> workspace_state \<Rightarrow> bool" where
  "after_pivot k m r s \<longleftrightarrow> (\<exists>sid p st j. forward k m sid r p st j s)"

definition new_side :: "codecs \<Rightarrow> mutation \<Rightarrow> workspace_record \<Rightarrow> workspace_state \<Rightarrow> bool" where
  "new_side k m r s \<longleftrightarrow> (\<exists>sid. commits m sid r) \<and> (after_pivot k m r s \<or> common k m s \<and> settled k m r s)"

definition old_side :: "codecs \<Rightarrow> mutation \<Rightarrow> workspace_state \<Rightarrow> bool" where
  "old_side k m s \<longleftrightarrow> (\<exists>j. backward k m j s) \<or> common k m s \<and> settled k m (mu_prior m) s"

subsection \<open>The committed record\<close>

lemma mk_source_keeps: "mk_source_version v = Inr v \<Longrightarrow> mk_source_version (v\<lparr>sv_active_from_snapshot_id := x\<rparr>) =
    Inr (v\<lparr>sv_active_from_snapshot_id := x\<rparr>)"
proof -
  assume "mk_source_version v = Inr v"
  then obtain sid h d vo where v: "sv_schema_version v = SOURCE_VERSION_SCHEMA_VERSION" "safe_id (sv_source_id v) = Inr sid"
    "1 \<le> sv_version v" "1 \<le> length (sv_display_name v)" "length (sv_display_name v) \<le> 512"
    "case sv_byte_size v of None \<Rightarrow> True | Some b \<Rightarrow> 0 \<le> b" "safe_id_option (sv_content_hash v) = Inr h"
    "safe_id_option (sv_document_id v) = Inr d" "safe_id (sv_vault_object_id v) = Inr vo"
    "1 \<le> sv_active_from_revision v" "case sv_active_through_revision v of None \<Rightarrow> True | Some r \<Rightarrow> 1 \<le> r"
    and eq: "v = v\<lparr>sv_source_id := sid, sv_content_hash := h, sv_document_id := d, sv_vault_object_id := vo\<rparr>"
    unfolding mk_source_version_iff by blast
  have "v\<lparr>sv_active_from_snapshot_id := x\<rparr> = v\<lparr>sv_active_from_snapshot_id := x\<rparr>
      \<lparr>sv_source_id := sid, sv_content_hash := h, sv_document_id := d, sv_vault_object_id := vo\<rparr>"
    by (subst eq) simp
  then show ?thesis unfolding mk_source_version_iff
    by (intro exI [of _ sid] exI [of _ h] exI [of _ d] exI [of _ vo]) (use v in simp)
qed

lemma map_res_same: "(\<forall>x \<in> set xs. f x = Inr x) \<Longrightarrow> map_res f xs = Inr xs"
  by (induction xs) auto

lemma committed_valid:
  assumes ok: "mutation_ok m" and sid: "safe_id sid = Inr sid"
    and r: "committed_record now (mu_prior m) (mu_desired m) (mu_delta m) sid = Inr r"
  shows "mk_workspace_record r = Inr r" and "wr_workspace_id r = mu_workspace m"
    and "wr_revision r = wr_revision (mu_prior m) + 1" and "wr_current_snapshot_id r = Some sid"
    and "wr_status r = WS_ACTIVE" and "1 \<le> wr_revision (mu_prior m)"
    and "wr_sources r = map (\<lambda>v. if (sv_source_id v, sv_version v) \<in> set (ln_appended (mu_delta m))
         then v\<lparr>sv_active_from_snapshot_id := Some sid\<rparr> else v) (mu_desired m)"
proof -
  let ?mark = "\<lambda>v. if (sv_source_id v, sv_version v) \<in> set (ln_appended (mu_delta m))
    then v\<lparr>sv_active_from_snapshot_id := Some sid\<rparr> else v"
  from r have rev: "1 \<le> wr_revision (mu_prior m)" and
    req: "r = (mu_prior m)\<lparr>wr_sources := map ?mark (mu_desired m), wr_current_snapshot_id := Some sid,
      wr_status := WS_ACTIVE, wr_revision := wr_revision (mu_prior m) + 1, wr_updated_at := now\<rparr>"
    by (auto simp: committed_record_def bind_res_Inr_iff advance_revision_def split: if_splits)
  show "wr_workspace_id r = mu_workspace m" using ok by (simp add: req mutation_ok_def)
  show "wr_revision r = wr_revision (mu_prior m) + 1" "wr_current_snapshot_id r = Some sid" "wr_status r = WS_ACTIVE"
    "1 \<le> wr_revision (mu_prior m)" "wr_sources r = map ?mark (mu_desired m)" using rev by (simp_all add: req)
  let ?p = "mu_prior m"
  from ok have prior: "mk_workspace_record ?p = Inr ?p" by (simp add: mutation_ok_def)
  then obtain i c s srcs where p: "wr_schema_version ?p = WORKSPACE_SCHEMA_VERSION" "safe_id (wr_workspace_id ?p) = Inr i"
    "1 \<le> length (wr_title ?p)" "length (wr_title ?p) \<le> 256" "length (wr_description ?p) \<le> 4096"
    "safe_id (wr_backing_corpus_name ?p) = Inr c" "length c \<le> 64" "wr_title ?p \<noteq> wr_backing_corpus_name ?p"
    and peq: "?p = ?p\<lparr>wr_workspace_id := i, wr_backing_corpus_name := c, wr_current_snapshot_id := s, wr_sources := srcs\<rparr>"
    unfolding mk_workspace_record_iff workspace_record_fields_iff by metis
  have ic: "i = wr_workspace_id ?p" "c = wr_backing_corpus_name ?p" by (subst peq, simp)+
  have "map_res mk_source_version (map ?mark (mu_desired m)) = Inr (map ?mark (mu_desired m))"
    by (rule map_res_same) (use ok mk_source_keeps in \<open>auto simp: mutation_ok_def\<close>)
  moreover have "filter sv_active (map ?mark (mu_desired m)) \<noteq> []"
    using ok by (auto simp: mutation_ok_def filter_map filter_empty_conv)
  then have "status_invariant r = Inr ()" by (simp add: req status_invariant_def active_sources_def guard_res_def)
  ultimately have "workspace_record_fields r = Inr r"
    unfolding workspace_record_fields_iff
    by (intro exI [of _ i] exI [of _ c] exI [of _ "Some sid"] exI [of _ "map ?mark (mu_desired m)"])
      (use p ic rev sid in \<open>simp add: req safe_id_option_def\<close>)
  moreover have "validate_corpus_name (wr_backing_corpus_name ?p) = Inr (wr_backing_corpus_name ?p)"
    using prior by (simp add: mk_workspace_record_iff)
  ultimately show "mk_workspace_record r = Inr r" by (simp add: mk_workspace_record_iff req)
qed


subsection \<open>Running programs\<close>

lemma guarded_Inr [simp]: "guarded (Inr u) p = p"
  by (rule ext) (simp add: guarded_def bind_prog_def lift_res_def split: prod.splits sum.splits)

lemma run_simps:
  "ret a s = (Inr a, [], s)" "lift_res r s = (r, [], s)" "inspect f s = (f s, [], s)" "durably g s = (Inr (), [g s], g s)"
  by (simp_all add: ret_def lift_res_def inspect_def durably_def)

lemma save_journal_run: "save_journal now j s = (Inr (j\<lparr>pj_updated_at := now\<rparr>), [put_journal (j\<lparr>pj_updated_at := now\<rparr>) s],
    put_journal (j\<lparr>pj_updated_at := now\<rparr>) s)"
  by (simp add: save_journal_def Let_def bind_prog_def run_simps)

lemma get_workspace_run:
  assumes "mk_workspace_record r = Inr r" and "wr_workspace_id r = w" and "\<not> workspace_id_refused w"
    and "ws_record s = Loaded_File r" and "tomb \<or> wr_status r \<noteq> WS_TOMBSTONED"
  shows "get_workspace w tomb s = Inr r"
  using assms by (auto simp: get_workspace_def workspace_id_ok_def read_store_record_def read_record_def)

lemma mutation_okD:
  assumes "mutation_ok m"
  shows "mk_workspace_record (mu_prior m) = Inr (mu_prior m)" and "wr_workspace_id (mu_prior m) = mu_workspace m"
    and "\<not> workspace_id_refused (mu_workspace m)" and "validate_product_corpus_name (mu_corpus m) = Inr (mu_corpus m)"
    and "mu_desired m \<noteq> []" and "wr_status (mu_prior m) \<noteq> WS_TOMBSTONED" and "1 \<le> wr_revision (mu_prior m)"
proof -
  from assms have prior: "mk_workspace_record (mu_prior m) = Inr (mu_prior m)" by (simp add: mutation_ok_def)
  then have "validate_corpus_name (mu_corpus m) = Inr (mu_corpus m)" by (simp add: mk_workspace_record_iff mu_corpus_def)
  then show "validate_product_corpus_name (mu_corpus m) = Inr (mu_corpus m)" by (simp add: product_name_Inr)
  from prior show "1 \<le> wr_revision (mu_prior m)"
    by (auto simp: mk_workspace_record_iff workspace_record_fields_iff)
qed (use assms in \<open>auto simp: mutation_ok_def\<close>)

subsection \<open>Changing the product directory\<close>

definition product_change :: "codecs \<Rightarrow> string \<Rightarrow> workspace_state \<Rightarrow> workspace_state \<Rightarrow> bool" where
  "product_change k c s t \<longleftrightarrow> (\<exists>p. t = s\<lparr>ws_product := p\<rparr> \<and> pf_snapshots (ws_product s c) \<subseteq>\<^sub>m pf_snapshots (p c) \<and>
     (pointer_ok k (ws_product s c) \<longrightarrow> pointer_ok k (p c)))"

lemma product_changeI:
  assumes "pf_snapshots (ws_product s c) \<subseteq>\<^sub>m pf_snapshots (p c)"
    and "pointer_ok k (ws_product s c) \<Longrightarrow> pointer_ok k (p c)"
  shows "product_change k c s (s\<lparr>ws_product := p\<rparr>)"
  unfolding product_change_def by (rule exI [of _ p]) (use assms in simp)

lemma stored_mono: "pf_snapshots f \<subseteq>\<^sub>m pf_snapshots g \<Longrightarrow> stored f sid \<Longrightarrow> stored g sid"
  by (auto simp: stored_def map_le_def dom_def)

lemma pointer_ok_cases [simp]:
  "pf_current f = None \<Longrightarrow> pointer_ok k f"
  "pf_current f = Some (cd_dump_pointer k sid) \<Longrightarrow> sid \<noteq> [] \<Longrightarrow> pointer_ok k f"
  by (auto simp: pointer_ok_def)

lemma product_change_keeps:
  assumes "product_change k (mu_corpus m) s t"
  shows "common k m s \<Longrightarrow> common k m t" and "backward k m j s \<Longrightarrow> backward k m j t"
    and "forward k m sid r (ws_product s) st j s \<Longrightarrow> forward k m sid r (ws_product t) st j t"
proof -
  from assms obtain p where t: "t = s\<lparr>ws_product := p\<rparr>"
    and snaps: "pf_snapshots (ws_product s (mu_corpus m)) \<subseteq>\<^sub>m pf_snapshots (p (mu_corpus m))"
    and ptr: "pointer_ok k (ws_product s (mu_corpus m)) \<longrightarrow> pointer_ok k (p (mu_corpus m))"
    by (auto simp: product_change_def)
  note st = stored_mono [OF snaps]
  show common: "common k m s \<Longrightarrow> common k m t"
    using ptr st by (simp add: common_def t lineage_ready_def)
  show "backward k m j s \<Longrightarrow> backward k m j t" using common by (simp add: backward_def t)
  show "forward k m sid r (ws_product s) st j s \<Longrightarrow> forward k m sid r (ws_product t) st j t"
    using st common by (simp add: forward_def t)
qed

lemma live_of_pointer:
  assumes "codecs_faithful k" and "sid \<noteq> []" and "pf_current (ws_product s c) = Some (cd_dump_pointer k sid)"
  shows "live_snapshot_id k c s = Some sid"
  using assms by (simp add: live_snapshot_id_def load_pointer_def codecs_faithful_def)

lemma live_None:
  assumes "codecs_faithful k" and "pointer_ok k (ws_product s c)"
  shows "live_snapshot_id k c s = None \<longleftrightarrow> pf_current (ws_product s c) = None"
  using assms by (auto simp: live_snapshot_id_def load_pointer_def codecs_faithful_def pointer_ok_def split: option.splits)

lemma restore_pointer_run:
  assumes "validate_product_corpus_name c = Inr c" and "stored (ws_product s c) sid"
  obtains s1 s2 where "restore_pointer k c sid s = (Inr (), [s1, s2], s2)"
    and "product_change k c s s1" and "product_change k c s s2"
    and "pf_current (ws_product s2 c) = Some (cd_dump_pointer k sid)"
proof
  let ?p1 = "put_pointer c (Some (cd_dump_pointer k sid)) (ws_product s)"
  have "sid \<noteq> []" using assms(2) by (auto simp: stored_def snapshot_id_refused_def)
  from assms(2) obtain u where u: "pf_snapshots (ws_product s c) sid = Some u" "\<not> snapshot_id_refused sid"
    by (auto simp: stored_def)
  show "restore_pointer k c sid s = (Inr (), [s\<lparr>ws_product := ?p1\<rparr>, s\<lparr>ws_product := put_marker c None ?p1\<rparr>],
      s\<lparr>ws_product := put_marker c None ?p1\<rparr>)"
    by (simp add: restore_pointer_def product_prog_def restore_current_publication_pointer_def assms(1) u
      clear_retirement_marker_def Let_def)
  show "product_change k c s (s\<lparr>ws_product := ?p1\<rparr>)" "product_change k c s (s\<lparr>ws_product := put_marker c None ?p1\<rparr>)"
    using \<open>sid \<noteq> []\<close> by (auto intro!: product_changeI simp: put_pointer_def put_marker_def)
qed (simp add: put_pointer_def put_marker_def)

lemma clear_marker_run:
  assumes "validate_product_corpus_name c = Inr c"
  obtains s1 where "clear_marker c s = (Inr (), [s, s1], s1)" and "product_change k c s s1"
    and "pf_current (ws_product s1 c) = pf_current (ws_product s c)"
proof
  show "clear_marker c s = (Inr (), [s, s\<lparr>ws_product := put_marker c None (ws_product s)\<rparr>],
      s\<lparr>ws_product := put_marker c None (ws_product s)\<rparr>)"
    using assms by (simp add: clear_marker_def product_prog_def clear_retirement_marker_def)
qed (auto intro!: product_changeI simp: put_marker_def pointer_ok_def)

lemma retire_pointer_run:
  assumes "validate_product_corpus_name c = Inr c" and "codecs_faithful k" and "pointer_ok k (ws_product s c)"
    and "pf_current (ws_product s c) \<noteq> None"
  obtains s1 s2 where "retire_pointer k now c s = (Inr (), [s1, s2], s2)"
    and "product_change k c s s1" and "product_change k c s s2" and "pf_current (ws_product s2 c) = None"
proof -
  from assms(3,4) obtain sid where cur: "pf_current (ws_product s c) = Some (cd_dump_pointer k sid)" "sid \<noteq> []"
    by (auto simp: pointer_ok_def)
  have load: "load_pointer k (cd_dump_pointer k sid) = Some sid"
    using assms(2) cur(2) by (simp add: load_pointer_def codecs_faithful_def)
  let ?r = "\<lparr>rr_schema_version = RETIREMENT_SCHEMA_VERSION, rr_corpus_name = c, rr_retired_at = now,
    rr_last_snapshot_id = Some sid, rr_already_retired = False\<rparr>"
  let ?p = "put_marker c (Some (cd_dump_retirement k ?r)) (ws_product s)"
  show thesis
  proof
    show "retire_pointer k now c s = (Inr (), [s\<lparr>ws_product := ?p\<rparr>, s\<lparr>ws_product := put_pointer c None ?p\<rparr>],
        s\<lparr>ws_product := put_pointer c None ?p\<rparr>)"
      by (simp add: retire_pointer_def product_prog_def retire_current_publication_def assms(1) cur load Let_def)
  qed (auto intro!: product_changeI simp: put_pointer_def put_marker_def pointer_ok_def)
qed

lemma ensure_new_current_run:
  assumes "validate_product_corpus_name c = Inr c" and "codecs_faithful k" and "stored (ws_product s c) sid"
  obtains tr s2 where "ensure_new_current k c sid s = (Inr (), tr, s2)" and "\<forall>t \<in> set tr. t = s \<or> product_change k c s t"
    and "product_change k c s s2" and "live_snapshot_id k c s2 = Some sid"
proof (cases "live_snapshot_id k c s = Some sid")
  case True
  obtain s1 where one: "clear_marker c s = (Inr (), [s, s1], s1)" "product_change k c s s1"
    "pf_current (ws_product s1 c) = pf_current (ws_product s c)" using clear_marker_run [OF assms(1)] by blast
  have "live_snapshot_id k c s1 = Some sid" using True one(3) by (simp add: live_snapshot_id_def)
  then show thesis using that [of "[s, s1]" s1] one True
    by (simp add: ensure_new_current_def bind_prog_def run_simps)
next
  case False
  obtain s1 s2 where r: "restore_pointer k c sid s = (Inr (), [s1, s2], s2)" "product_change k c s s1"
    "product_change k c s s2" "pf_current (ws_product s2 c) = Some (cd_dump_pointer k sid)"
    using restore_pointer_run [OF assms(1,3)] by blast
  have "sid \<noteq> []" using assms(3) by (auto simp: stored_def snapshot_id_refused_def)
  with r(4) assms(2) have "live_snapshot_id k c s2 = Some sid" by (simp add: live_of_pointer)
  then show thesis using that [of "[s1, s2]" s2] r False
    by (simp add: ensure_new_current_def bind_prog_def run_simps)
qed

lemma restore_prior_run:
  assumes "validate_product_corpus_name c = Inr c" and "codecs_faithful k" and "pointer_ok k (ws_product s c)"
    and "\<forall>sid. prior = Some sid \<longrightarrow> stored (ws_product s c) sid"
  obtains tr s2 where "restore_prior_publication k now c prior s = (Inr (), tr, s2)"
    and "\<forall>t \<in> set tr. t = s \<or> product_change k c s t" and "product_change k c s s2" and "live_snapshot_id k c s2 = prior"
proof (cases prior)
  case (Some sid)
  with assms(4) have st: "stored (ws_product s c) sid" by simp
  then have "sid \<noteq> []" by (auto simp: stored_def snapshot_id_refused_def)
  obtain s1 s2 where r: "restore_pointer k c sid s = (Inr (), [s1, s2], s2)" "product_change k c s s1"
    "product_change k c s s2" "pf_current (ws_product s2 c) = Some (cd_dump_pointer k sid)"
    using restore_pointer_run [OF assms(1) st] by blast
  have "live_snapshot_id k c s2 = Some sid" by (rule live_of_pointer [OF assms(2) \<open>sid \<noteq> []\<close> r(4)])
  with that [of "[s1, s2]" s2] r show thesis by (simp add: restore_prior_publication_def Some)
next
  case None
  show thesis
  proof (cases "pf_current (ws_product s c)")
    case unpublished: None
    obtain s1 where one: "clear_marker c s = (Inr (), [s, s1], s1)" "product_change k c s s1"
      "pf_current (ws_product s1 c) = pf_current (ws_product s c)" using clear_marker_run [OF assms(1)] by blast
    have "live_snapshot_id k c s = None" "live_snapshot_id k c s1 = None"
      using unpublished one(3) by (simp_all add: live_snapshot_id_def)
    then show thesis using that [of "[s, s1]" s1] one None
      by (simp add: restore_prior_publication_def bind_prog_def run_simps)
  next
    case (Some t)
    obtain s1 s2 where r: "retire_pointer k now c s = (Inr (), [s1, s2], s2)" "product_change k c s s1"
      "product_change k c s s2" "pf_current (ws_product s2 c) = None"
      using retire_pointer_run [OF assms(1-3), of now] Some by blast
    have "live_snapshot_id k c s \<noteq> None" using live_None [OF assms(2,3)] Some by simp
    moreover have "live_snapshot_id k c s2 = None" using r(4) by (simp add: live_snapshot_id_def)
    ultimately show thesis using that [of "[s1, s2]" s2] r None
      by (auto simp: restore_prior_publication_def bind_prog_def run_simps)
  qed
qed

end
