(* ===== verification/Mutation_Recovery.thy ===== *)
theory Mutation_Recovery
  imports Mutation_States
begin

section \<open>Recovery settles a mutation\<close>

text \<open>
  Every program of the journal keeps to the side it starts on: behind the record's write it only moves
  forward, before it only back. Recovery of any state of a side ends settled on that side.
\<close>

subsection \<open>The lineage\<close>

lemma find_version_Some:
  assumes "find_version vs key = Some v"
  shows "v \<in> set vs" and "(sv_source_id v, sv_version v) = key"
  using assms by (auto simp: find_version_def dest!: map_of_SomeD)

lemma find_version_map:
  assumes "\<forall>v. sv_source_id (f v) = sv_source_id v \<and> sv_version (f v) = sv_version v"
  shows "find_version (map f vs) key = map_option f (find_version vs key)"
proof -
  have "map_of (map (\<lambda>v. ((sv_source_id v, sv_version v), f v)) xs) key =
      map_option f (map_of (map (\<lambda>v. ((sv_source_id v, sv_version v), v)) xs) key)" for xs :: "source_version list"
    by (induction xs) auto
  then show ?thesis using assms by (simp add: find_version_def rev_map o_def)
qed

definition put_history :: "source_ref \<Rightarrow> source_version \<Rightarrow> workspace_state \<Rightarrow> workspace_state" where
  "put_history key v s = s\<lparr>ws_history := (ws_history s)(key := Loaded_File v)\<rparr>"

lemma forward_put_history:
  assumes "forward k m sid r p st j s" and "mk_source_version v = Inr v"
    and "key \<in> set (ln_appended (mu_delta m)) \<Longrightarrow> \<exists>d. find_version (mu_desired m) key = Some d \<and> same_identity v d"
  shows "forward k m sid r p st j (put_history key v s)"
  using assms by (auto simp: forward_def common_def lineage_ready_def put_history_def)

lemma append_version_run:
  assumes "version_path_ok w (sv_source_id v, sv_version v) = Inr ()"
  shows "ws_history s (sv_source_id v, sv_version v) = Missing_File \<Longrightarrow>
      append_version w v s = (Inr v, [put_history (sv_source_id v, sv_version v) v s], put_history (sv_source_id v, sv_version v) v s)"
    and "ws_history s (sv_source_id v, sv_version v) = Loaded_File x \<Longrightarrow> mk_source_version x = Inr x \<Longrightarrow> same_identity x v \<Longrightarrow>
      append_version w v s = (Inr x, [], s)"
  using assms by (simp_all add: append_version_def bind_prog_def run_simps read_version_def put_version_def put_history_def)

lemma forward_history:
  assumes "forward k m sid r p st j s" and "key \<in> set (ln_appended (mu_delta m)) \<union> set (ln_superseded (mu_delta m))"
  shows "version_path_ok (mu_workspace m) key = Inr ()"
    and "case ws_history s key of Missing_File \<Rightarrow> True | Corrupt_File \<Rightarrow> False | Loaded_File x \<Rightarrow> mk_source_version x = Inr x"
  using assms by (auto simp: forward_def common_def lineage_ready_def)

lemma append_keeps:
  assumes s: "forward k m sid r p st j s" and found: "find_version vs key = Some v" and v: "mk_source_version v = Inr v"
    and key: "key \<in> set (ln_appended (mu_delta m)) \<union> set (ln_superseded (mu_delta m))"
    and app: "key \<in> set (ln_appended (mu_delta m)) \<Longrightarrow> \<exists>d. find_version (mu_desired m) key = Some d \<and> same_identity v d"
    and old: "\<And>x. ws_history s key = Loaded_File x \<Longrightarrow> same_identity x v"
  obtains a tr s' where "append_ref (mu_workspace m) vs key s = (Inr a, tr, s')"
    and "list_all (forward k m sid r p st j) tr" and "forward k m sid r p st j s'" and "ws_history s' key \<noteq> Missing_File"
proof -
  note eq = find_version_Some(2) [OF found]
  note path = forward_history(1) [OF s key] and hist = forward_history(2) [OF s key]
  note run = append_version_run [where v = v and w = "mu_workspace m" and s = s, unfolded eq, OF path]
  show thesis
  proof (cases "ws_history s key")
    case Missing_File
    let ?s = "put_history key v s"
    have "forward k m sid r p st j ?s" by (rule forward_put_history [OF s v app])
    moreover have "append_ref (mu_workspace m) vs key s = (Inr (), [?s], ?s)"
      using run(1) [OF Missing_File] by (simp add: append_ref_def found bind_prog_def run_simps)
    ultimately show thesis using that [of "()" "[?s]" ?s] by (simp add: put_history_def)
  next
    case (Loaded_File x)
    with hist have "append_version (mu_workspace m) v s = (Inr x, [], s)" using run(2) [OF Loaded_File] old by simp
    with s that [of "()" "[]" s] Loaded_File show thesis by (simp add: append_ref_def found bind_prog_def run_simps)
  qed (use hist in simp)
qed

lemma append_appended:
  assumes ok: "mutation_ok m" and key: "key \<in> set (ln_appended (mu_delta m))"
  shows "ensures (forward k m sid r p st j) (append_ref (mu_workspace m) (wr_sources r) key)
    (\<lambda>res s. forward k m sid r p st j s \<and> (\<exists>a. res = Inr a)) (forward k m sid r p st j)"
  unfolding ensures_def
proof (intro allI impI)
  fix s assume s: "forward k m sid r p st j s"
  let ?mark = "\<lambda>v. if (sv_source_id v, sv_version v) \<in> set (ln_appended (mu_delta m))
    then v\<lparr>sv_active_from_snapshot_id := Some sid\<rparr> else v"
  from s obtain now where "committed_record now (mu_prior m) (mu_desired m) (mu_delta m) sid = Inr r" and "safe_id sid = Inr sid"
    by (auto simp: forward_def commits_def stored_def)
  from committed_valid(7) [OF ok this(2,1)] have src: "wr_sources r = map ?mark (mu_desired m)" .
  from s key obtain d where d: "find_version (mu_desired m) key = Some d"
    "\<forall>x. ws_history s key = Loaded_File x \<longrightarrow> same_identity x d"
    by (auto simp: forward_def common_def lineage_ready_def)
  have found: "find_version (wr_sources r) key = Some (?mark d)"
    unfolding src by (subst find_version_map) (simp_all add: d(1))
  have "mk_source_version d = Inr d" using ok find_version_Some(1) [OF d(1)] by (simp add: mutation_ok_def)
  then have v: "mk_source_version (?mark d) = Inr (?mark d)" by (simp add: mk_source_keeps)
  obtain a tr s' where "append_ref (mu_workspace m) (wr_sources r) key s = (Inr a, tr, s')"
    "list_all (forward k m sid r p st j) tr" "forward k m sid r p st j s'"
    by (rule append_keeps [OF s found v]) (use key d in \<open>auto simp: same_identity_def\<close>)
  then show "case append_ref (mu_workspace m) (wr_sources r) key s of (res, tr, s') \<Rightarrow>
      (forward k m sid r p st j s' \<and> (\<exists>a. res = Inr a)) \<and> list_all (forward k m sid r p st j) tr" by simp
qed

lemma prior_source_valid:
  assumes "mutation_ok m" and "v \<in> set (wr_sources (mu_prior m))"
  shows "mk_source_version v = Inr v"
proof -
  let ?p = "mu_prior m"
  obtain i c s srcs where srcs: "map_res mk_source_version (wr_sources ?p) = Inr srcs"
    and peq: "?p = ?p\<lparr>wr_workspace_id := i, wr_backing_corpus_name := c, wr_current_snapshot_id := s, wr_sources := srcs\<rparr>"
    using assms(1) unfolding mutation_ok_def mk_workspace_record_iff workspace_record_fields_iff by metis
  have "srcs = wr_sources ?p" by (subst peq, simp)
  moreover have "map_res f xs = Inr xs \<Longrightarrow> x \<in> set xs \<Longrightarrow> f x = Inr x" for f :: "source_version \<Rightarrow> string + source_version" and xs x
    by (induction xs) (auto simp: bind_res_Inr_iff)
  ultimately show ?thesis using srcs assms(2) by blast
qed

lemma close_valid:
  assumes "mk_source_version x = Inr x" and "1 \<le> n"
  shows "mk_source_version (x\<lparr>sv_active := False, sv_active_through_revision := Some n, sv_active_through_snapshot_id := t\<rparr>) =
    Inr (x\<lparr>sv_active := False, sv_active_through_revision := Some n, sv_active_through_snapshot_id := t\<rparr>)"
proof -
  let ?y = "x\<lparr>sv_active := False, sv_active_through_revision := Some n, sv_active_through_snapshot_id := t\<rparr>"
  from assms(1) obtain sid h d vo where x: "sv_schema_version x = SOURCE_VERSION_SCHEMA_VERSION" "safe_id (sv_source_id x) = Inr sid"
    "1 \<le> sv_version x" "1 \<le> length (sv_display_name x)" "length (sv_display_name x) \<le> 512"
    "case sv_byte_size x of None \<Rightarrow> True | Some b \<Rightarrow> 0 \<le> b" "safe_id_option (sv_content_hash x) = Inr h"
    "safe_id_option (sv_document_id x) = Inr d" "safe_id (sv_vault_object_id x) = Inr vo" "1 \<le> sv_active_from_revision x"
    and eq: "x = x\<lparr>sv_source_id := sid, sv_content_hash := h, sv_document_id := d, sv_vault_object_id := vo\<rparr>"
    unfolding mk_source_version_iff by blast
  have "?y = ?y\<lparr>sv_source_id := sid, sv_content_hash := h, sv_document_id := d, sv_vault_object_id := vo\<rparr>"
    by (subst eq) simp
  then show ?thesis unfolding mk_source_version_iff
    by (intro exI [of _ sid] exI [of _ h] exI [of _ d] exI [of _ vo]) (use x assms(2) in simp)
qed

lemma supersede_superseded:
  assumes ok: "mutation_ok m" and key: "key \<in> set (ln_superseded (mu_delta m))"
  shows "ensures (forward k m sid r p st j) (supersede_ref (mu_workspace m) (wr_sources (mu_prior m)) (wr_revision (mu_prior m)) t key)
    (\<lambda>res s. forward k m sid r p st j s \<and> (\<exists>a. res = Inr a)) (forward k m sid r p st j)"
proof -
  have new: "key \<notin> set (ln_appended (mu_delta m))" using ok key by (auto simp: mutation_ok_def)
  have path: "version_path_ok (mu_workspace m) key = Inr ()" if "forward k m sid r p st j s" for s
    using forward_history(1) [OF that] key by simp
  have close: "ensures (\<lambda>s. forward k m sid r p st j s \<and> ws_history s key \<noteq> Missing_File)
    (supersede_version (mu_workspace m) key (wr_revision (mu_prior m)) t)
    (\<lambda>res s. forward k m sid r p st j s \<and> (\<exists>a. res = Inr a)) (forward k m sid r p st j)"
    unfolding ensures_def
  proof (intro allI impI)
    fix s assume s: "forward k m sid r p st j s \<and> ws_history s key \<noteq> Missing_File"
    with key forward_history(2) obtain x where x: "ws_history s key = Loaded_File x" "mk_source_version x = Inr x"
      by (cases "ws_history s key") fastforce+
    let ?y = "x\<lparr>sv_active := False, sv_active_through_revision := Some (wr_revision (mu_prior m)), sv_active_through_snapshot_id := t\<rparr>"
    have "forward k m sid r p st j (put_history key ?y s)"
      by (rule forward_put_history) (use s new close_valid [OF x(2) mutation_okD(7) [OF ok]] in auto)
    with s x path show "case supersede_version (mu_workspace m) key (wr_revision (mu_prior m)) t s of (res, tr, s') \<Rightarrow>
        (forward k m sid r p st j s' \<and> (\<exists>a. res = Inr a)) \<and> list_all (forward k m sid r p st j) tr"
      by (simp add: supersede_version_def bind_prog_def run_simps read_version_def put_history_def Let_def)
  qed
  have fill: "ensures (\<lambda>s. forward k m sid r p st j s \<and> missing = (ws_history s key = Missing_File))
    (if missing then append_ref (mu_workspace m) (wr_sources (mu_prior m)) key else ret ())
    (\<lambda>res s. \<exists>a. res = Inr a \<and> forward k m sid r p st j s \<and> ws_history s key \<noteq> Missing_File) (forward k m sid r p st j)" for missing
    unfolding ensures_def
  proof (intro allI impI)
    fix s assume s: "forward k m sid r p st j s \<and> missing = (ws_history s key = Missing_File)"
    show "case (if missing then append_ref (mu_workspace m) (wr_sources (mu_prior m)) key else ret ()) s of (res, tr, s') \<Rightarrow>
        (\<exists>a. res = Inr a \<and> forward k m sid r p st j s' \<and> ws_history s' key \<noteq> Missing_File) \<and> list_all (forward k m sid r p st j) tr"
    proof (cases missing)
      case True
      with s key obtain v where v: "find_version (wr_sources (mu_prior m)) key = Some v"
        by (auto simp: forward_def common_def lineage_ready_def)
      have f: "forward k m sid r p st j s" using s by simp
      obtain a tr s' where "append_ref (mu_workspace m) (wr_sources (mu_prior m)) key s = (Inr a, tr, s')"
        "list_all (forward k m sid r p st j) tr" "forward k m sid r p st j s'" "ws_history s' key \<noteq> Missing_File"
        by (rule append_keeps [OF f v prior_source_valid [OF ok find_version_Some(1) [OF v]]])
          (use key new s True in auto)
      then show ?thesis using True by simp
    qed (use s in \<open>simp add: run_simps\<close>)
  qed
  show ?thesis unfolding supersede_ref_def
    apply (rule ensures_look [where R = "\<lambda>missing s. forward k m sid r p st j s \<and> missing = (ws_history s key = Missing_File)"])
    subgoal using path by simp
    subgoal
      apply (intro allI)
      apply (rule ensures_seq [OF fill])
      apply (intro allI)
      apply (rule ensures_seq [where R = "\<lambda>_. forward k m sid r p st j"])
      subgoal by (rule ensures_mono [OF close]) auto
      subgoal by (simp add: ensures_ret)
      done
    done
qed

subsection \<open>Moving forward\<close>

text \<open>Steps of the journal's phase.\<close>

lemma forward_get:
  assumes "mutation_ok m" and "forward k m sid r p st j s"
  shows "get_workspace (mu_workspace m) True s = Inr r"
proof -
  from assms(2) obtain now where "committed_record now (mu_prior m) (mu_desired m) (mu_delta m) sid = Inr r" "safe_id sid = Inr sid"
    by (auto simp: forward_def commits_def stored_def)
  note c = committed_valid(1,2) [OF assms(1) this(2,1)]
  show ?thesis
    by (rule get_workspace_run [OF c mutation_okD(3) [OF assms(1)]]) (use assms(2) in \<open>simp_all add: forward_def\<close>)
qed

lemma forward_phase_write:
  assumes "forward k m sid r p st j s" and "ph \<noteq> INTENT_RECORDED"
  shows "forward k m sid r p st (j\<lparr>pj_phase := ph, pj_updated_at := now\<rparr>) (put_journal (j\<lparr>pj_phase := ph, pj_updated_at := now\<rparr>) s)"
  using assms by (auto simp: forward_def common_def lineage_ready_def put_journal_def journaled_def)

abbreviation forwards :: "codecs \<Rightarrow> mutation \<Rightarrow> string \<Rightarrow> workspace_record \<Rightarrow> product_root \<Rightarrow> operation_status option \<Rightarrow>
    workspace_state \<Rightarrow> bool" where
  "forwards k m sid r p st s \<equiv> (\<exists>j. forward k m sid r p st j s)"

lemma save_phase:
  assumes "ph \<noteq> INTENT_RECORDED"
  shows "ensures (forward k m sid r p st j) (save_journal now (j\<lparr>pj_phase := ph\<rparr>))
    (\<lambda>res s. \<exists>j'. res = Inr j' \<and> forward k m sid r p st j' s \<and> pj_phase j' = ph) (forwards k m sid r p st)"
  using forward_phase_write [OF _ assms] by (fastforce simp: ensures_def save_journal_run)

lemma forward_journal:
  "forward k m sid r p st j s \<Longrightarrow> require_journal w s = Inr j \<and> load_journal w s = Inr (Some j)"
  by (simp add: forward_def require_journal_def load_journal_def)

lemma commit_lineage_forward:
  assumes ok: "mutation_ok m"
  shows "ensures (\<lambda>s. forward k m sid r p st j s \<and> forward_phase (pj_phase j)) (commit_lineage (Inr ()) now (mu_workspace m))
    (\<lambda>res s. \<exists>j'. res = Inr j' \<and> forward k m sid r p st j' s \<and> (pj_phase j' = LINEAGE_COMMITTED \<or> pj_phase j' = COMMITTED)) (forwards k m sid r p st)"
proof -
  let ?Q = "\<lambda>res s. \<exists>j'. res = Inr j' \<and> forward k m sid r p st j' s \<and> (pj_phase j' = LINEAGE_COMMITTED \<or> pj_phase j' = COMMITTED)"
  have lineage: "ensures (forward k m sid r p st j) (bind_prog (inspect (get_workspace (mu_workspace m) True)) (\<lambda>committed.
       bind_prog (each (append_ref (mu_workspace m) (wr_sources committed)) (ln_appended (pj_lineage_delta j))) (\<lambda>_.
       bind_prog (each (supersede_ref (mu_workspace m) (wr_sources (pj_prior_workspace j)) (pj_prior_revision j)
           (pj_prior_snapshot_id j)) (ln_superseded (pj_lineage_delta j))) (\<lambda>_.
         save_journal now (j\<lparr>pj_phase := LINEAGE_COMMITTED\<rparr>))))) ?Q (forwards k m sid r p st)" if j: "journaled m j"
  proof -
    from j have jm: "pj_lineage_delta j = mu_delta m" "pj_prior_workspace j = mu_prior m"
      "pj_prior_revision j = wr_revision (mu_prior m)" by (simp_all add: journaled_def)
    have loop: "ensures (forward k m sid r p st j) (each f xs) (\<lambda>res s. \<exists>a. res = Inr a \<and> forward k m sid r p st j s) (forwards k m sid r p st)"
      if "\<forall>x \<in> set xs. ensures (forward k m sid r p st j) (f x) (\<lambda>res s. forward k m sid r p st j s \<and> (\<exists>a. res = Inr a)) (forward k m sid r p st j)"
      for f :: "source_ref \<Rightarrow> (workspace_state, unit) prog" and xs
      by (rule ensures_mono [OF ensures_each [OF that]]) auto
    show ?thesis unfolding jm
      apply (rule ensures_look [where R = "\<lambda>c s. c = r \<and> forward k m sid r p st j s"])
      subgoal using forward_get [OF ok] by simp
      apply (intro allI ensures_pure)
      apply hypsubst
      apply (rule ensures_seq [OF loop])
      subgoal using append_appended [OF ok] by simp
      apply (intro allI)
      apply (rule ensures_seq [OF loop])
      subgoal using supersede_superseded [OF ok] by simp
      apply (intro allI)
      apply (rule ensures_mono [OF save_phase [of LINEAGE_COMMITTED]])
      by auto
  qed
  show ?thesis unfolding commit_lineage_def guarded_Inr
    apply (rule ensures_look [where R = "\<lambda>i s. (i = j \<and> journaled m j \<and> forward_phase (pj_phase j)) \<and> forward k m sid r p st j s"])
    subgoal by (auto simp: forward_journal forward_def)
    apply (intro allI ensures_pure)
    apply (auto simp: forward_phase_def lineage intro: ensures_ret)
    done
qed

lemma mark_committed_forward:
  assumes "mutation_ok m"
  shows "ensures (\<lambda>s. forward k m sid r p st j s \<and> forward_phase (pj_phase j)) (mark_committed (Inr ()) now (mu_workspace m))
    (\<lambda>res s. \<exists>j'. res = Inr j' \<and> forward k m sid r p st j' s \<and> pj_phase j' = COMMITTED) (forwards k m sid r p st)"
  unfolding mark_committed_def guarded_Inr
  apply (rule ensures_seq [where R = "\<lambda>j' s. (pj_phase j' = LINEAGE_COMMITTED \<or> pj_phase j' = COMMITTED) \<and> forward k m sid r p st j' s"])
  subgoal by (rule ensures_mono [OF commit_lineage_forward [OF assms]]) auto
  apply (intro allI ensures_pure)
  apply (auto intro: ensures_ret ensures_mono [OF save_phase])
  done

text \<open>The operation ends: running operations succeed, an ended or unknown one is left alone.\<close>

definition succeeded_after :: "operation_status option \<Rightarrow> operation_status option" where
  "succeeded_after st = (case st of None \<Rightarrow> None | Some x \<Rightarrow> if terminal_status x then Some x else Some OP_SUCCEEDED)"

lemma forward_operations:
  assumes "forward k m sid r p st j s" and "st' \<notin> {OP_PENDING, OP_PREPARING}"
  shows "forward k m sid r p (Some st') j (s\<lparr>ws_operations := (ws_operations s)(mu_operation m \<mapsto> st')\<rparr>)"
  using assms by (auto simp: forward_def common_def lineage_ready_def)

lemma update_status_run:
  assumes "ws_operations s i = Some cur" and "st \<in> set (legal_transitions cur)"
  shows "update_status w i st s = (Inr st, [s\<lparr>ws_operations := (ws_operations s)(i \<mapsto> st)\<rparr>],
    s\<lparr>ws_operations := (ws_operations s)(i \<mapsto> st)\<rparr>)"
proof -
  have "cur \<noteq> st" using assms(2) by (cases cur) auto
  with assms show ?thesis
    by (simp add: update_status_def get_operation_def assert_legal_status_transition_def bind_prog_def run_simps)
qed

lemma complete_forward:
  assumes ok: "mutation_ok m" and j: "pj_operation_id j0 = mu_operation m"
  shows "ensures (forward k m sid r p st j) (complete_operation_succeeded (mu_workspace m) j0)
    (\<lambda>res s. \<exists>a. res = Inr a \<and> forward k m sid r p (succeeded_after st) j s) (forwards k m sid r p (succeeded_after st))"
  unfolding ensures_def
proof (intro allI impI)
  fix s assume s: "forward k m sid r p st j s"
  then have st: "ws_operations s (mu_operation m) = st" by (simp add: forward_def)
  show "case complete_operation_succeeded (mu_workspace m) j0 s of (res, tr, s') \<Rightarrow>
      (\<exists>a. res = Inr a \<and> forward k m sid r p (succeeded_after st) j s') \<and> list_all (forwards k m sid r p (succeeded_after st)) tr"
  proof (cases "\<exists>x. st = Some x \<and> \<not> terminal_status x")
    case False
    with s st show ?thesis
      by (auto simp: complete_operation_succeeded_def j bind_prog_def run_simps succeeded_after_def split: option.splits)
  next
    case True
    with s have "st = Some OP_RUNNING"
      by (metis (full_types) forward_def insertCI operation_status.exhaust terminal_status_def)
    note run = update_status_run [OF st [unfolded this], where st = OP_SUCCEEDED]
    have "get_workspace (mu_workspace m) True s = Inr r" using forward_get [OF ok] s by blast
    moreover have "forward k m sid r p (Some OP_SUCCEEDED) j (s\<lparr>ws_operations := (ws_operations s)(mu_operation m \<mapsto> OP_SUCCEEDED)\<rparr>)"
      by (rule forward_operations [OF s]) simp
    ultimately show ?thesis using run st \<open>st = Some OP_RUNNING\<close>
      by (auto simp: complete_operation_succeeded_def j bind_prog_def run_simps succeeded_after_def terminal_status_def)
  qed
qed

lemma drop_journal_forward:
  assumes "forward k m sid r p st j s" and "pj_phase j = COMMITTED"
  shows "drop_journal (Inr ()) w s = (Inr (), [s\<lparr>ws_journal := Missing_File\<rparr>], s\<lparr>ws_journal := Missing_File\<rparr>)"
  using assms forward_journal [OF assms(1)]
  by (simp add: drop_journal_def bind_prog_def run_simps unlink_journal_def forward_def)

text \<open>Forward states with the pointer at the new snapshot settle by dropping the journal.\<close>

lemma forward_settles:
  assumes "mutation_ok m" and "forward k m sid r p st j s" and "live_snapshot_id k (mu_corpus m) s = Some sid"
  shows "common k m (s\<lparr>ws_journal := Missing_File\<rparr>)" and "settled k m r (s\<lparr>ws_journal := Missing_File\<rparr>)"
proof -
  from assms(2) obtain now where "committed_record now (mu_prior m) (mu_desired m) (mu_delta m) sid = Inr r" "safe_id sid = Inr sid"
    by (auto simp: forward_def commits_def stored_def)
  from committed_valid(4) [OF assms(1) this(2,1)] have "wr_current_snapshot_id r = Some sid" .
  then show "settled k m r (s\<lparr>ws_journal := Missing_File\<rparr>)" using assms(2,3)
    by (simp add: settled_def forward_def live_snapshot_id_def)
  show "common k m (s\<lparr>ws_journal := Missing_File\<rparr>)" using assms(2) by (auto simp: forward_def common_def lineage_ready_def)
qed

subsection \<open>Recovery\<close>

lemma forward_new_side: "forward k m sid r p st j s \<Longrightarrow> new_side k m r s"
  by (auto simp: new_side_def after_pivot_def forward_def)

lemma forward_operation: "forward k m sid r p st j s \<Longrightarrow> pj_operation_id j = mu_operation m"
  by (simp add: forward_def journaled_def)

lemma ensure_new_forward:
  assumes ok: "mutation_ok m" and k: "codecs_faithful k"
  shows "ensures (forward k m sid r p st j) (ensure_new_current k (mu_corpus m) sid)
    (\<lambda>res s. \<exists>a. res = Inr a \<and> (\<exists>p'. (\<forall>t. ws_product t = p' \<longrightarrow> live_snapshot_id k (mu_corpus m) t = Some sid) \<and>
       forward k m sid r p' st j s)) (new_side k m r)"
  unfolding ensures_def
proof (intro allI impI)
  fix s assume s: "forward k m sid r p st j s"
  then have "stored (ws_product s (mu_corpus m)) sid" by (simp add: forward_def)
  then obtain tr s2 where run: "ensure_new_current k (mu_corpus m) sid s = (Inr (), tr, s2)"
    and tr: "\<forall>t \<in> set tr. t = s \<or> product_change k (mu_corpus m) s t"
    and s2: "product_change k (mu_corpus m) s s2" "live_snapshot_id k (mu_corpus m) s2 = Some sid"
    using ensure_new_current_run [OF mutation_okD(4) [OF ok] k] by metis
  have s': "forward k m sid r (ws_product s) st j s" using s by (simp add: forward_def)
  have "list_all (new_side k m r) tr"
    using tr forward_new_side [OF s] product_change_keeps(3) [OF _ s'] forward_new_side by (fastforce simp: list_all_iff)
  moreover have "live_snapshot_id k (mu_corpus m) t = Some sid" if "ws_product t = ws_product s2" for t
    using s2(2) that by (simp add: live_snapshot_id_def)
  ultimately show "case ensure_new_current k (mu_corpus m) sid s of (res, tr, s') \<Rightarrow>
      (\<exists>a. res = Inr a \<and> (\<exists>p'. (\<forall>t. ws_product t = p' \<longrightarrow> live_snapshot_id k (mu_corpus m) t = Some sid) \<and>
        forward k m sid r p' st j s')) \<and> list_all (new_side k m r) tr"
    using run product_change_keeps(3) [OF s2(1) s'] by auto
qed

lemma close_out:
  assumes ok: "mutation_ok m" and live: "\<forall>t. ws_product t = p \<longrightarrow> live_snapshot_id k (mu_corpus m) t = Some sid"
    and i: "pj_operation_id j0 = mu_operation m"
  shows "ensures (\<lambda>s. forward k m sid r p st j s \<and> forward_phase (pj_phase j))
    (bind_prog (mark_committed (Inr ()) now (mu_workspace m)) (\<lambda>_.
     bind_prog (complete_operation_succeeded (mu_workspace m) j0) (\<lambda>_.
     bind_prog (drop_journal (Inr ()) (mu_workspace m)) (\<lambda>_. ret out))))
    (\<lambda>res s. res = Inr out \<and> common k m s \<and> settled k m r s \<and> ws_operations s (mu_operation m) = succeeded_after st)
    (new_side k m r)"
proof -
  have drop: "ensures (\<lambda>s. pj_phase j' = COMMITTED \<and> forward k m sid r p (succeeded_after st) j' s)
      (bind_prog (drop_journal (Inr ()) (mu_workspace m)) (\<lambda>_. ret out))
      (\<lambda>res s. res = Inr out \<and> common k m s \<and> settled k m r s \<and> ws_operations s (mu_operation m) = succeeded_after st)
      (new_side k m r)" for j'
    unfolding ensures_def
  proof (intro allI impI)
    fix s assume s: "pj_phase j' = COMMITTED \<and> forward k m sid r p (succeeded_after st) j' s"
    then have "live_snapshot_id k (mu_corpus m) s = Some sid" using live by (simp add: forward_def)
    note settle = forward_settles [OF ok conjunct2 [OF s] this]
    moreover have "\<exists>sid. commits m sid r" "ws_operations s (mu_operation m) = succeeded_after st"
      using s by (auto simp: forward_def)
    ultimately show "case bind_prog (drop_journal (Inr ()) (mu_workspace m)) (\<lambda>_. ret out) s of (res, tr, s') \<Rightarrow>
        (res = Inr out \<and> common k m s' \<and> settled k m r s' \<and> ws_operations s' (mu_operation m) = succeeded_after st) \<and>
        list_all (new_side k m r) tr"
      using drop_journal_forward [of k m sid r p "succeeded_after st" j' s "mu_workspace m"] s
      by (simp add: bind_prog_def run_simps new_side_def)
  qed
  show ?thesis
    apply (rule ensures_seq [where R = "\<lambda>j' s. pj_phase j' = COMMITTED \<and> forward k m sid r p st j' s"])
    subgoal by (rule ensures_mono [OF mark_committed_forward [OF ok]]) (auto intro: forward_new_side)
    apply (intro allI ensures_pure)
    subgoal for j'
      apply (rule ensures_seq [where R = "\<lambda>_ s. pj_phase j' = COMMITTED \<and> forward k m sid r p (succeeded_after st) j' s"])
      subgoal by (rule ensures_mono [OF complete_forward [OF ok i]]) (auto intro: forward_new_side)
      subgoal using drop by blast
      done
    done
qed

lemma recover_forward_ensures:
  assumes ok: "mutation_ok m" and k: "codecs_faithful k" and j: "journaled m j" "pj_new_snapshot_id j = Some sid"
  shows "ensures (forward k m sid r p st j) (recover_forward k (Inr ()) (Inr ()) now (mu_workspace m) j)
    (\<lambda>res s. res = Inr ''B'' \<and> common k m s \<and> settled k m r s \<and> ws_operations s (mu_operation m) = succeeded_after st)
    (new_side k m r)"
proof -
  have i: "pj_operation_id j = mu_operation m" "pj_backing_corpus j = mu_corpus m" using j(1) by (simp_all add: journaled_def)
  show ?thesis unfolding recover_forward_def j(2) option.case guarded_Inr i(2)
    apply (rule ensures_seq [OF ensure_new_forward [OF ok k]])
    apply (intro allI ensures_some ensures_pure)
    subgoal for _ p'
      apply (rule ensures_seq [where R = "\<lambda>j' s. (pj_operation_id j' = mu_operation m) \<and>
          forward k m sid r p' st j' s \<and> forward_phase (pj_phase j')"])
      subgoal
        apply (cases "forward_phase (pj_phase j)")
         apply (simp add: ensures_ret i)
        apply simp
        apply (rule ensures_mono [OF save_phase [where ph = WORKSPACE_COMMITTED and st = st and p = p' and sid = sid and r = r]])
        by (auto simp: forward_phase_def intro: forward_new_side forward_operation)
      apply (intro allI ensures_pure)
      by (rule close_out [OF ok])
    done
qed

definition interrupted_after :: "operation_status option \<Rightarrow> operation_status option" where
  "interrupted_after st = (case st of None \<Rightarrow> None | Some x \<Rightarrow> if terminal_status x then Some x else Some OP_INTERRUPTED)"

lemma backward_operations: "backward k m j s \<Longrightarrow> backward k m j (s\<lparr>ws_operations := ops\<rparr>)"
  by (auto simp: backward_def common_def lineage_ready_def)

lemma interrupt_run:
  assumes "backward k m j s" and "i = mu_operation m"
  obtains tr u where "end_operation w i OP_INTERRUPTED s = (Inr (), tr, u)" and "list_all (backward k m j) tr"
    and "backward k m j u" and "ws_product u = ws_product s"
    and "ws_operations u (mu_operation m) = interrupted_after (ws_operations s (mu_operation m))"
proof (cases "\<exists>x. ws_operations s i = Some x \<and> \<not> terminal_status x")
  case False
  then show thesis using that [of "[]" s] assms
    by (auto simp: end_operation_def bind_prog_def run_simps interrupted_after_def split: option.splits)
next
  case True
  then obtain x where x: "ws_operations s i = Some x" "\<not> terminal_status x" by blast
  then have "OP_INTERRUPTED \<in> set (legal_transitions x)" by (cases x) (auto simp: terminal_status_def)
  note run = update_status_run [OF x(1) this, of w]
  let ?u = "s\<lparr>ws_operations := (ws_operations s)(i \<mapsto> OP_INTERRUPTED)\<rparr>"
  have "backward k m j ?u" by (rule backward_operations [OF assms(1)])
  with that [of "[?u]" ?u] run x assms show thesis
    by (simp add: end_operation_def bind_prog_def run_simps interrupted_after_def)
qed

lemma put_record_same: "ws_record s = Loaded_File r \<Longrightarrow> put_record r s = s"
  by (simp add: put_record_def)

lemma recover_back_run:
  assumes ok: "mutation_ok m" and k: "codecs_faithful k" and s: "backward k m j s"
  obtains tr u where "recover_back k (Inr ()) now (mu_workspace m) b j s = (Inr ''A'', tr, u)" and "list_all (old_side k m) tr"
    and "common k m u" and "settled k m (mu_prior m) u" and "ws_operations u (mu_operation m) =
      (if b then interrupted_after else id) (ws_operations s (mu_operation m))"
proof -
  from s have j: "pj_operation_id j = mu_operation m" "pj_backing_corpus j = mu_corpus m"
    "pj_prior_snapshot_id j = wr_current_snapshot_id (mu_prior m)" "pj_prior_workspace j = mu_prior m"
    and c: "pointer_ok k (ws_product s (mu_corpus m))"
      "\<forall>sid. wr_current_snapshot_id (mu_prior m) = Some sid \<longrightarrow> stored (ws_product s (mu_corpus m)) sid"
    by (simp_all add: backward_def journaled_def common_def)
  obtain tr1 s1 where one: "restore_prior_publication k now (mu_corpus m) (wr_current_snapshot_id (mu_prior m)) s = (Inr (), tr1, s1)"
    "\<forall>t \<in> set tr1. t = s \<or> product_change k (mu_corpus m) s t" "product_change k (mu_corpus m) s s1"
    "live_snapshot_id k (mu_corpus m) s1 = wr_current_snapshot_id (mu_prior m)"
    using restore_prior_run [OF mutation_okD(4) [OF ok] k c] by metis
  have tr1: "list_all (backward k m j) tr1"
    using one(2) s product_change_keeps(2) [OF _ s] by (fastforce simp: list_all_iff)
  have s1: "backward k m j s1" by (rule product_change_keeps(2) [OF one(3) s])
  then have rec: "put_record (mu_prior m) s1 = s1" by (simp add: put_record_same backward_def)
  have ops: "ws_operations s1 = ws_operations s" using one(3) by (auto simp: product_change_def)
  obtain tr2 s2 where two: "(if b then end_operation (mu_workspace m) (pj_operation_id j) OP_INTERRUPTED else ret ()) s1 = (Inr (), tr2, s2)"
    "list_all (backward k m j) tr2" "backward k m j s2" "ws_product s2 = ws_product s1"
    "ws_operations s2 (mu_operation m) = (if b then interrupted_after else id) (ws_operations s1 (mu_operation m))"
  proof (cases b)
    case True
    obtain tr u where "end_operation (mu_workspace m) (pj_operation_id j) OP_INTERRUPTED s1 = (Inr (), tr, u)"
      "list_all (backward k m j) tr" "backward k m j u" "ws_product u = ws_product s1"
      "ws_operations u (mu_operation m) = interrupted_after (ws_operations s1 (mu_operation m))"
      by (rule interrupt_run [OF s1 j(1)])
    with that [of tr u] True show thesis by simp
  next
    case False
    then show thesis using that [of "[]" s1] s1 by (simp add: run_simps)
  qed
  let ?u = "s2\<lparr>ws_journal := Missing_File\<rparr>"
  have un: "unlink_journal s2 = (Inr (), [?u], ?u)" using two(3) by (simp add: unlink_journal_def backward_def run_simps)
  have u: "common k m ?u" "settled k m (mu_prior m) ?u"
    using two(3,4) one(4) by (auto simp: backward_def common_def lineage_ready_def settled_def live_snapshot_id_def)
  have "recover_back k (Inr ()) now (mu_workspace m) b j s = (Inr ''A'', tr1 @ s1 # tr2 @ [?u], ?u)"
    by (simp add: recover_back_def j bind_prog_def run_simps one(1) rec two(1) un)
  then show thesis
    by (rule that) (use tr1 s1 two u ops in \<open>auto simp: old_side_def list_all_iff\<close>)
qed

text \<open>Recovery of any state of either side settles it there.\<close>

lemma recover_old_side:
  assumes ok: "mutation_ok m" and k: "codecs_faithful k" and s: "old_side k m s"
  obtains out tr u where "recover k (Inr ()) (Inr ()) now (mu_workspace m) b s = (Inr out, tr, u)" and "list_all (old_side k m) tr"
    and "common k m u" and "settled k m (mu_prior m) u"
    and "out = (if ws_journal s = Missing_File then ''clean'' else ''A'')" and "ws_journal s = Missing_File \<Longrightarrow> u = s"
    and "ws_operations u (mu_operation m) =
      (if b \<and> ws_journal s \<noteq> Missing_File then interrupted_after else id) (ws_operations s (mu_operation m))"
  using s unfolding old_side_def
proof (elim disjE exE)
  assume s: "common k m s \<and> settled k m (mu_prior m) s"
  then have "recover k (Inr ()) (Inr ()) now (mu_workspace m) b s = (Inr ''clean'', [], s)"
    by (simp add: recover_def bind_prog_def run_simps load_journal_def settled_def)
  then show thesis by (rule that) (use s in \<open>simp_all add: settled_def\<close>)
next
  fix j assume s: "backward k m j s"
  then have get: "get_workspace (mu_workspace m) True s = Inr (mu_prior m)" and load: "load_journal (mu_workspace m) s = Inr (Some j)"
    using get_workspace_run [OF mutation_okD(1-3) [OF ok]] by (simp_all add: backward_def load_journal_def)
  have "\<not> workspace_committed j (Some (mu_prior m))"
    using s by (auto simp: backward_def workspace_committed_def forward_phase_def journaled_def)
  with get load have "recover k (Inr ()) (Inr ()) now (mu_workspace m) b s = recover_back k (Inr ()) now (mu_workspace m) b j s"
    by (simp add: recover_def bind_prog_def run_simps split: prod.splits)
  moreover have "ws_journal s \<noteq> Missing_File" using s by (simp add: backward_def)
  moreover obtain tr u where "recover_back k (Inr ()) now (mu_workspace m) b j s = (Inr ''A'', tr, u)" "list_all (old_side k m) tr"
    "common k m u" "settled k m (mu_prior m) u"
    "ws_operations u (mu_operation m) = (if b then interrupted_after else id) (ws_operations s (mu_operation m))"
    by (rule recover_back_run [OF ok k s])
  ultimately show thesis using that [of "''A''" tr u] by simp
qed

lemma recover_new_side:
  assumes ok: "mutation_ok m" and k: "codecs_faithful k" and s: "new_side k m r s"
  obtains out tr u where "recover k (Inr ()) (Inr ()) now (mu_workspace m) b s = (Inr out, tr, u)" and "list_all (new_side k m r) tr"
    and "common k m u" and "settled k m r u" and "out = (if ws_journal s = Missing_File then ''clean'' else ''B'')"
    and "ws_journal s = Missing_File \<Longrightarrow> u = s" and "ws_operations u (mu_operation m) =
      (if ws_journal s \<noteq> Missing_File then succeeded_after else id) (ws_operations s (mu_operation m))"
  using s unfolding new_side_def
proof (elim conjE disjE)
  assume s: "common k m s" "settled k m r s"
  then have "recover k (Inr ()) (Inr ()) now (mu_workspace m) b s = (Inr ''clean'', [], s)"
    by (simp add: recover_def bind_prog_def run_simps load_journal_def settled_def)
  then show thesis by (rule that) (use s in \<open>simp_all add: settled_def\<close>)
next
  assume "after_pivot k m r s"
  then obtain sid p st j where f: "forward k m sid r p st j s" by (auto simp: after_pivot_def)
  then obtain t where t: "committed_record t (mu_prior m) (mu_desired m) (mu_delta m) sid = Inr r" "safe_id sid = Inr sid"
    by (auto simp: forward_def commits_def stored_def)
  note c = committed_valid [OF ok t(2,1)]
  have j: "journaled m j" "pj_new_snapshot_id j = Some sid" using f by (simp_all add: forward_def)
  have "workspace_committed j (Some r)"
    using f c(3,4) by (cases "pj_phase j") (auto simp: forward_def workspace_committed_def forward_phase_def journaled_def)
  with forward_get [OF ok f] forward_journal [OF f]
  have "recover k (Inr ()) (Inr ()) now (mu_workspace m) b s = recover_forward k (Inr ()) (Inr ()) now (mu_workspace m) j s"
    by (simp add: recover_def bind_prog_def run_simps split: prod.splits)
  moreover obtain res tr u where run: "recover_forward k (Inr ()) (Inr ()) now (mu_workspace m) j s = (res, tr, u)"
    by (metis prod_cases3)
  moreover have "ws_journal s \<noteq> Missing_File" "ws_operations s (mu_operation m) = st" using f by (simp_all add: forward_def)
  moreover note ends = ensuresD [OF recover_forward_ensures [OF ok k j] f run]
  ultimately show thesis using that [of "''B''" tr u] by simp
qed

end
