(* ===== verification/Mutation_Execution.thy ===== *)
theory Mutation_Execution
  imports Mutation_Recovery
begin

section \<open>Executing a mutation\<close>

text \<open>
  The coordinator needs little of the ingest it calls: it keeps stored snapshots, points the corpus at a
  snapshot it identified or leaves the pointer, and returns the id of a snapshot that is stored and
  pointed at. \<open>replace_ingest\<close> is that interface; inside it the mutation is followed from its
  journal's begin to its end.
\<close>

subsection \<open>Being stopped\<close>

text \<open>
  Where a process killed while it runs, and then again while it recovers, can leave the files.
\<close>

inductive stopped ::
    "('s, 'a) prog \<Rightarrow> (string \<Rightarrow> ('s, 'b) prog) \<Rightarrow> 's \<Rightarrow> 's \<Rightarrow> bool" for run recovery s0 where
  Stopped: "run s0 = (res, tr, u) \<Longrightarrow> t \<in> set (s0 # tr) \<Longrightarrow> stopped run recovery s0 t"
| Stopped_Again: "stopped run recovery s0 t \<Longrightarrow> recovery now t = (res, tr, u) \<Longrightarrow> t' \<in> set tr \<Longrightarrow>
    stopped run recovery s0 t'"

lemma stopped_invariant:
  assumes "stopped run recovery s0 t" and "list_all I (s0 # fst (snd (run s0)))"
    and "\<forall>now t. I t \<longrightarrow> list_all I (fst (snd (recovery now t)))"
  shows "I t"
  using assms(1)
proof induction
  case (Stopped res tr u t)
  then show ?case using assms(2) by (auto simp: list_all_iff)
next
  case (Stopped_Again t now res tr u t')
  then show ?case using assms(3) [rule_format, OF Stopped_Again.IH, of now] by (simp add: list_all_iff)
qed

subsection \<open>Snapshot ids\<close>

lemma snapshot_id_safe:
  assumes "alnum_digest sha"
  shows "safe_id (compute_snapshot_id sha fr m) = Inr (compute_snapshot_id sha fr m)"
proof -
  let ?s = "compute_snapshot_id sha fr m"
  have "\<not> py_isspace c" if "c \<in> set ?s" for c
    using assms that unfolding snapshot_id_form alnum_digest_def list_all_iff
    by (fastforce simp: py_isspace_def is_ascii_alnum_def Let_def)
  then have "py_strip ?s = ?s"
    unfolding py_strip_def by (intro strip_by_id) (metis hd_in_set last_in_set)
  moreover have "\<not> path_element ?s" "?s \<noteq> []"
    using snapshot_id_accepted [OF assms] by (auto simp: path_element_def snapshot_id_refused_def)
  ultimately show ?thesis by (simp add: safe_id_def)
qed

subsection \<open>From the publication to the end\<close>

definition finish_mutation ::
    "string \<Rightarrow> mutation \<Rightarrow> string \<Rightarrow> (workspace_state, unit) prog" where
  "finish_mutation now m sid =
     bind_prog (mark_publication_observed (Inr ()) now (mu_workspace m) sid) (\<lambda>_.
     bind_prog (lift_res (committed_record now (mu_prior m) (mu_desired m) (mu_delta m) sid)) (\<lambda>committed.
     bind_prog (commit_workspace (Inr ()) now (mu_workspace m) committed) (\<lambda>_.
     bind_prog (mark_committed (Inr ()) now (mu_workspace m)) (\<lambda>_.
     bind_prog (update_status (mu_workspace m) (mu_operation m) OP_SUCCEEDED) (\<lambda>_.
     drop_journal (Inr ()) (mu_workspace m))))))"

lemma finish_forward:
  assumes ok: "mutation_ok m" and live: "\<forall>t. ws_product t = p \<longrightarrow> live_snapshot_id k (mu_corpus m) t = Some sid"
  shows "ensures (\<lambda>s. forward k m sid r p (Some OP_RUNNING) j s \<and> forward_phase (pj_phase j))
    (bind_prog (mark_committed (Inr ()) now (mu_workspace m)) (\<lambda>_.
     bind_prog (update_status (mu_workspace m) (mu_operation m) OP_SUCCEEDED) (\<lambda>_.
     drop_journal (Inr ()) (mu_workspace m))))
    (\<lambda>res s. res = Inr () \<and> common k m s \<and> settled k m r s \<and> ws_operations s (mu_operation m) = Some OP_SUCCEEDED)
    (new_side k m r)"
  apply (rule ensures_seq [where R = "\<lambda>j' s. pj_phase j' = COMMITTED \<and> forward k m sid r p (Some OP_RUNNING) j' s"])
  subgoal by (rule ensures_mono [OF mark_committed_forward [OF ok]]) (auto intro: forward_new_side)
  apply (intro allI ensures_pure)
  subgoal for j'
    unfolding ensures_def
  proof (intro allI impI)
    fix s assume com: "pj_phase j' = COMMITTED" and s: "forward k m sid r p (Some OP_RUNNING) j' s"
    let ?t = "s\<lparr>ws_operations := (ws_operations s)(mu_operation m \<mapsto> OP_SUCCEEDED)\<rparr>"
    have run: "update_status (mu_workspace m) (mu_operation m) OP_SUCCEEDED s = (Inr OP_SUCCEEDED, [?t], ?t)"
      by (rule update_status_run [where cur = OP_RUNNING]) (use s in \<open>simp_all add: forward_def\<close>)
    have t: "forward k m sid r p (Some OP_SUCCEEDED) j' ?t" by (rule forward_operations [OF s]) simp
    then have "live_snapshot_id k (mu_corpus m) ?t = Some sid" using live by (simp add: forward_def)
    note settle = forward_settles [OF ok t this]
    moreover have "\<exists>sid. commits m sid r" using s by (auto simp: forward_def)
    ultimately show "case bind_prog (update_status (mu_workspace m) (mu_operation m) OP_SUCCEEDED)
        (\<lambda>_. drop_journal (Inr ()) (mu_workspace m)) s of (res, tr, s') \<Rightarrow>
        (res = Inr () \<and> common k m s' \<and> settled k m r s' \<and> ws_operations s' (mu_operation m) = Some OP_SUCCEEDED) \<and>
        list_all (new_side k m r) tr"
      using drop_journal_forward [OF t com, of "mu_workspace m"] forward_new_side [OF t]
      by (simp add: bind_prog_def run new_side_def)
  qed
  done

lemma commits_some:
  assumes "mutation_ok m"
  obtains r where "committed_record now (mu_prior m) (mu_desired m) (mu_delta m) sid = Inr r"
  using mutation_okD(7) [OF assms] by (simp add: committed_record_def advance_revision_def)

lemma finish_mutation_run:
  assumes ok: "mutation_ok m" and s: "backward k m j s" and j: "pj_phase j = INTENT_RECORDED" "pj_new_snapshot_id j = None"
    and sid: "stored (ws_product s (mu_corpus m)) sid" and live: "live_snapshot_id k (mu_corpus m) s = Some sid"
    and op: "ws_operations s (mu_operation m) = Some OP_RUNNING"
  obtains r tr u where "finish_mutation now m sid s = (Inr (), tr, u)" and "commits m sid r"
    and "list_all (\<lambda>t. old_side k m t \<or> new_side k m r t) tr"
    and "common k m u" and "settled k m r u" and "ws_operations u (mu_operation m) = Some OP_SUCCEEDED"
proof -
  let ?w = "mu_workspace m"
  obtain r where r: "committed_record now (mu_prior m) (mu_desired m) (mu_delta m) sid = Inr r" by (rule commits_some [OF ok])
  have safe: "safe_id sid = Inr sid" using sid by (simp add: stored_def)
  note c = committed_valid [OF ok safe r]
  let ?j1 = "j\<lparr>pj_new_snapshot_id := Some sid, pj_phase := PUBLICATION_OBSERVED, pj_updated_at := now\<rparr>"
  let ?s1 = "put_journal ?j1 s" let ?s2 = "put_record r ?s1"
  let ?j2 = "?j1\<lparr>pj_phase := WORKSPACE_COMMITTED, pj_updated_at := now\<rparr>" let ?s3 = "put_journal ?j2 ?s2"
  have jn: "journaled m j" "ws_journal s = Loaded_File j" using s by (simp_all add: backward_def)
  have mark: "mark_publication_observed (Inr ()) now ?w sid s = (Inr ?j1, [?s1], ?s1)"
    using j jn(2) by (simp add: mark_publication_observed_def bind_prog_def run_simps require_journal_def load_journal_def save_journal_run)
  have s1: "backward k m ?j1 ?s1"
    using s by (auto simp: backward_def common_def lineage_ready_def put_journal_def journaled_def)
  have com: "commits m sid r" using r by (auto simp: commits_def)
  have s2: "forward k m sid r (ws_product s) (Some OP_RUNNING) ?j1 ?s2"
    using s1 sid op com by (auto simp: forward_def backward_def common_def lineage_ready_def put_record_def put_journal_def)
  have "commit_workspace (Inr ()) now ?w r ?s1 = (Inr ?j2, [?s2, ?s3], ?s3)"
    using c(2-5) jn s1 by (simp add: commit_workspace_def bind_prog_def run_simps require_journal_def load_journal_def forward_phase_def
      journaled_def save_workspace_def save_journal_run put_journal_def backward_def)
  moreover have s3: "forward k m sid r (ws_product s) (Some OP_RUNNING) ?j2 ?s3"
    by (rule forward_phase_write [OF s2]) simp
  have all_live: "\<forall>t. ws_product t = ws_product s \<longrightarrow> live_snapshot_id k (mu_corpus m) t = Some sid"
    using live by (simp add: live_snapshot_id_def)
  obtain res tr u where run: "bind_prog (mark_committed (Inr ()) now ?w) (\<lambda>_. bind_prog (update_status ?w (mu_operation m) OP_SUCCEEDED)
      (\<lambda>_. drop_journal (Inr ()) ?w)) ?s3 = (res, tr, u)" by (metis prod_cases3)
  have "forward k m sid r (ws_product s) (Some OP_RUNNING) ?j2 ?s3 \<and> forward_phase (pj_phase ?j2)"
    using s3 by (simp add: forward_phase_def)
  note fin = ensuresD [OF finish_forward [OF ok all_live] this run]
  ultimately have "finish_mutation now m sid s = (Inr (), ?s1 # ?s2 # ?s3 # tr, u)"
    using mark run fin by (simp add: finish_mutation_def bind_prog_run r run_simps)
  then show thesis
    by (rule that [OF _ com]) (use fin s1 forward_new_side [OF s2] forward_new_side [OF s3] in \<open>auto simp: old_side_def list_all_iff\<close>)
qed

subsection \<open>The ingest a mutation calls\<close>

locale replace_ingest =
  fixes sha :: digest and fr :: "pyfloat \<Rightarrow> string" and k :: codecs and corpus :: string
    and ingest :: "product_root \<Rightarrow> (app_exc + string) \<times> product_root list \<times> product_root"
  assumes keeps: "ingest p = (res, tr, p') \<Longrightarrow> q \<in> set (p' # tr) \<Longrightarrow>
      pf_snapshots (p corpus) \<subseteq>\<^sub>m pf_snapshots (q corpus)"
    and points: "ingest p = (res, tr, p') \<Longrightarrow> q \<in> set (p' # tr) \<Longrightarrow>
      pf_current (q corpus) = pf_current (p corpus) \<or>
      (\<exists>m. pf_current (q corpus) = Some (cd_dump_pointer k (compute_snapshot_id sha fr m)))"
    and returns: "ingest p = (Inr sid, tr, p') \<Longrightarrow> (\<exists>m. sid = compute_snapshot_id sha fr m) \<and>
      pf_snapshots (p' corpus) sid \<noteq> None \<and> pf_current (p' corpus) = Some (cd_dump_pointer k sid)"

subsection \<open>The beginning and a failure\<close>

lemma begin_run:
  assumes ok: "mutation_ok m" and s: "common k m s" "settled k m (mu_prior m) s"
  obtains j where "begin_publication (Inr ()) now jid (mu_workspace m) (mu_operation m) kind (wr_revision (mu_prior m))
      (mu_desired m) (mu_delta m) s = (Inr j, [put_journal j s], put_journal j s)"
    and "backward k m j (put_journal j s)" and "pj_phase j = INTENT_RECORDED" and "pj_new_snapshot_id j = None"
proof -
  let ?p = "mu_prior m"
  have "get_workspace (mu_workspace m) False s = Inr ?p"
    by (rule get_workspace_run [OF mutation_okD(1-3) [OF ok]]) (use s mutation_okD(6) [OF ok] in \<open>simp_all add: settled_def\<close>)
  moreover have "wr_status ?p \<in> {WS_ACTIVE, WS_EMPTY}" using ok by (simp add: mutation_ok_def)
  ultimately have "begin_publication (Inr ()) now jid (mu_workspace m) (mu_operation m) kind (wr_revision ?p)
      (mu_desired m) (mu_delta m) s = save_journal now \<lparr>pj_journal_id = jid, pj_operation_id = mu_operation m,
        pj_workspace_id = mu_workspace m, pj_backing_corpus = mu_corpus m, pj_mutation_kind = kind,
        pj_prior_revision = wr_revision ?p, pj_prior_snapshot_id = wr_current_snapshot_id ?p,
        pj_prior_workspace = ?p, pj_desired_sources = mu_desired m, pj_lineage_delta = mu_delta m,
        pj_new_snapshot_id = None, pj_phase = INTENT_RECORDED, pj_created_at = now, pj_updated_at = now\<rparr> s"
    using s mutation_okD(5) [OF ok]
    by (auto simp: begin_publication_def bind_prog_def run_simps settled_def common_def mu_corpus_def split: prod.splits)
  then show thesis unfolding save_journal_run
    by (rule that) (use s in \<open>auto simp: backward_def common_def lineage_ready_def put_journal_def journaled_def settled_def\<close>)
qed

lemma fail_run:
  assumes ok: "mutation_ok m" and k: "codecs_faithful k" and s: "backward k m j s"
    and op: "ws_operations s (mu_operation m) = Some OP_RUNNING"
  obtains tr u where "fail_operation k now (mu_workspace m) (mu_operation m) e s = (Inl (wrapped_fault e), tr, u)"
    and "list_all (old_side k m) tr" and "common k m u" and "settled k m (mu_prior m) u"
    and "ws_operations u (mu_operation m) = Some OP_FAILED"
proof -
  have "old_side k m s" "ws_journal s \<noteq> Missing_File" using s by (auto simp: old_side_def backward_def)
  then have side: "old_side k m s" "ws_journal s \<noteq> Missing_File" by simp_all
  obtain out tr u where "recover k (Inr ()) (Inr ()) now (mu_workspace m) False s = (Inr out, tr, u)"
    "list_all (old_side k m) tr" "common k m u" "settled k m (mu_prior m) u"
    "out = (if ws_journal s = Missing_File then ''clean'' else ''A'')" "ws_operations u (mu_operation m) =
      (if False \<and> ws_journal s \<noteq> Missing_File then interrupted_after else id) (ws_operations s (mu_operation m))"
    by (rule recover_old_side [OF ok k side(1)])
  with op have rec: "recover k (Inr ()) (Inr ()) now (mu_workspace m) False s = (Inr out, tr, u)"
    "list_all (old_side k m) tr" "common k m u" "settled k m (mu_prior m) u" "ws_operations u (mu_operation m) = Some OP_RUNNING"
    by simp_all
  let ?u = "u\<lparr>ws_operations := (ws_operations u)(mu_operation m \<mapsto> OP_FAILED)\<rparr>"
  have upd: "update_status (mu_workspace m) (mu_operation m) OP_FAILED u = (Inr OP_FAILED, [?u], ?u)"
    by (rule update_status_run [OF rec(5)]) simp
  have u: "common k m ?u" "settled k m (mu_prior m) ?u"
    using rec(3,4) by (auto simp: common_def lineage_ready_def settled_def live_snapshot_id_def)
  have "fail_operation k now (mu_workspace m) (mu_operation m) e s = (Inl (wrapped_fault e), tr @ [?u], ?u)"
    by (simp add: fail_operation_def bind_prog_def handle_prog_def run_simps rec(1) upd)
  then show thesis by (rule that) (use rec(2) u in \<open>auto simp: old_side_def\<close>)
qed

subsection \<open>The whole mutation\<close>

lemma execute_publication_split:
  "execute_publication k ingest now jid (mu_workspace m) (mu_operation m) kind (mu_prior m) (mu_desired m) (mu_delta m) =
    handle_prog (bind_prog (begin_publication (Inr ()) now jid (mu_workspace m) (mu_operation m) kind
        (wr_revision (mu_prior m)) (mu_desired m) (mu_delta m)) (\<lambda>_.
      bind_prog (update_status (mu_workspace m) (mu_operation m) OP_RUNNING) (\<lambda>_.
      bind_prog (call_ingest ingest) (finish_mutation now m))))
     (fail_operation k now (mu_workspace m) (mu_operation m))"
  by (simp add: execute_publication_def finish_mutation_def [abs_def])

context replace_ingest
begin

lemma ingest_changes:
  assumes "ingest (ws_product s) = (res, tr, p')" and "q \<in> set (p' # tr)"
  shows "product_change k corpus s (s\<lparr>ws_product := q\<rparr>)"
proof (rule product_changeI)
  show "pf_snapshots (ws_product s corpus) \<subseteq>\<^sub>m pf_snapshots (q corpus)" by (rule keeps [OF assms])
  have "compute_snapshot_id sha fr m \<noteq> []" for m by (simp add: snapshot_id_form)
  assume "pointer_ok k (ws_product s corpus)"
  from points [OF assms] show "pointer_ok k (q corpus)"
  proof
    assume "pf_current (q corpus) = pf_current (ws_product s corpus)"
    with \<open>pointer_ok k (ws_product s corpus)\<close> show ?thesis by (simp add: pointer_ok_def)
  next
    assume "\<exists>m. pf_current (q corpus) = Some (cd_dump_pointer k (compute_snapshot_id sha fr m))"
    with \<open>\<And>m. compute_snapshot_id sha fr m \<noteq> []\<close> show ?thesis by (auto intro: pointer_ok_cases(2))
  qed
qed

lemma execution_run:
  assumes sha: "alnum_digest sha" and k: "codecs_faithful k" and ok: "mutation_ok m" and c: "mu_corpus m = corpus"
    and s: "common k m s" "settled k m (mu_prior m) s" and op: "ws_operations s (mu_operation m) = Some OP_PREPARING"
    and run: "execute_publication k ingest now jid (mu_workspace m) (mu_operation m) kind (mu_prior m) (mu_desired m)
      (mu_delta m) s = (res, tr, u)"
  shows "case fst (ingest (ws_product s)) of
      Inl e \<Rightarrow> res = Inl (wrapped_fault e) \<and> settled k m (mu_prior m) u \<and>
        ws_operations u (mu_operation m) = Some OP_FAILED \<and> list_all (old_side k m) tr
    | Inr sid \<Rightarrow> res = Inr () \<and> (\<exists>r. commits m sid r \<and> settled k m r u \<and>
        ws_operations u (mu_operation m) = Some OP_SUCCEEDED \<and> list_all (\<lambda>t. old_side k m t \<or> new_side k m r t) tr)"
proof -
  obtain j where j: "begin_publication (Inr ()) now jid (mu_workspace m) (mu_operation m) kind (wr_revision (mu_prior m))
      (mu_desired m) (mu_delta m) s = (Inr j, [put_journal j s], put_journal j s)"
    "backward k m j (put_journal j s)" "pj_phase j = INTENT_RECORDED" "pj_new_snapshot_id j = None"
    using begin_run [OF ok s] by metis
  let ?s1 = "put_journal j s"
  let ?s2 = "?s1\<lparr>ws_operations := (ws_operations ?s1)(mu_operation m \<mapsto> OP_RUNNING)\<rparr>"
  have upd: "update_status (mu_workspace m) (mu_operation m) OP_RUNNING ?s1 = (Inr OP_RUNNING, [?s2], ?s2)"
    by (rule update_status_run [where cur = OP_PREPARING]) (use op in \<open>simp_all add: put_journal_def\<close>)
  have s2: "backward k m j ?s2" by (rule backward_operations [OF j(2)])
  have p: "ws_product ?s2 = ws_product s" by (simp add: put_journal_def)
  obtain r ptr p' where ing: "ingest (ws_product s) = (r, ptr, p')" by (metis prod_cases3)
  let ?q = "\<lambda>q. ?s2\<lparr>ws_product := q\<rparr>"
  have during: "backward k m j (?q q)" if "q \<in> set (p' # ptr)" for q
    by (rule product_change_keeps(2) [OF _ s2]) (use ingest_changes [where s = ?s2] ing p c that in auto)
  have side: "list_all (old_side k m) ([?s1] @ [?s2] @ map ?q ptr)" "old_side k m (?q p')"
    using j(2) s2 during by (auto simp: old_side_def list_all_iff)
  have opr: "ws_operations (?q p') (mu_operation m) = Some OP_RUNNING" by simp
  have call: "call_ingest ingest ?s2 = (r, map ?q ptr, ?q p')" by (simp add: call_ingest_def p ing)
  show ?thesis
  proof (cases r)
    case (Inl e)
    obtain ftr fu where f: "fail_operation k now (mu_workspace m) (mu_operation m) e (?q p') =
        (Inl (wrapped_fault e) :: app_exc + unit, ftr, fu)"
      "list_all (old_side k m) ftr" "common k m fu" "settled k m (mu_prior m) fu"
      "ws_operations fu (mu_operation m) = Some OP_FAILED"
      by (rule fail_run [OF ok k during opr]) simp_all
    have "res = Inl (wrapped_fault e)" "tr = ([?s1] @ [?s2] @ map ?q ptr) @ ftr" "u = fu"
      using run by (simp_all add: execute_publication_split handle_prog_def bind_prog_run j(1) upd call Inl f(1))
    then show ?thesis using f side ing Inl by simp
  next
    case (Inr sid)
    from returns [OF ing [unfolded Inr]] obtain sn where sn: "sid = compute_snapshot_id sha fr sn"
      "pf_snapshots (p' corpus) sid \<noteq> None" "pf_current (p' corpus) = Some (cd_dump_pointer k sid)" by blast
    have st: "stored (ws_product (?q p') (mu_corpus m)) sid"
      using sn snapshot_id_accepted [OF sha] snapshot_id_safe [OF sha] by (simp add: stored_def c)
    have "sid \<noteq> []" using sn(1) by (simp add: snapshot_id_form)
    then have live: "live_snapshot_id k (mu_corpus m) (?q p') = Some sid"
      by (intro live_of_pointer [OF k]) (simp_all add: c sn(3))
    have bw: "backward k m j (?q p')" by (rule during) simp
    obtain rec ftr fu where f: "finish_mutation now m sid (?q p') = (Inr (), ftr, fu)" "commits m sid rec"
      "list_all (\<lambda>t. old_side k m t \<or> new_side k m rec t) ftr" "common k m fu" "settled k m rec fu"
      "ws_operations fu (mu_operation m) = Some OP_SUCCEEDED"
      by (rule finish_mutation_run [OF ok bw j(3,4) st live opr])
    have "res = Inr ()" "tr = ([?s1] @ [?s2] @ map ?q ptr) @ ftr" "u = fu"
      using run by (simp_all add: execute_publication_split handle_prog_def bind_prog_run j(1) upd call Inr f(1))
    then show ?thesis using f side ing Inr by (auto simp: list_all_iff)
  qed
qed

text \<open>Wherever it was stopped, recovery settles the workspace at the record it finds, and then has nothing to do.\<close>

lemma stopped_recovers:
  assumes sha: "alnum_digest sha" and k: "codecs_faithful k" and ok: "mutation_ok m" and c: "mu_corpus m = corpus"
    and s: "common k m s" "settled k m (mu_prior m) s" and op: "ws_operations s (mu_operation m) = Some OP_PREPARING"
    and stop: "stopped (execute_publication k ingest now jid (mu_workspace m) (mu_operation m) kind (mu_prior m) (mu_desired m)
        (mu_delta m)) (\<lambda>now. recover k (Inr ()) (Inr ()) now (mu_workspace m) True) s t"
  shows "\<exists>r. ws_record t = Loaded_File r \<and> (r = mu_prior m \<or> (\<exists>sid. commits m sid r)) \<and>
    (case recover k (Inr ()) (Inr ()) later (mu_workspace m) True t of (res, tr, u) \<Rightarrow>
       res = Inr (if ws_journal t = Missing_File then ''clean'' else if r = mu_prior m then ''A'' else ''B'') \<and>
       settled k m r u \<and> ws_operations u (mu_operation m) = (if ws_journal t = Missing_File then id
         else if r = mu_prior m then interrupted_after else succeeded_after) (ws_operations t (mu_operation m)) \<and>
       recover k (Inr ()) (Inr ()) last_time (mu_workspace m) True u = (Inr ''clean'', [], u))"
proof -
  let ?I = "\<lambda>t. old_side k m t \<or> (\<exists>r. new_side k m r t)"
  let ?rec = "\<lambda>now. recover k (Inr ()) (Inr ()) now (mu_workspace m) True"
  obtain res tr u where run: "execute_publication k ingest now jid (mu_workspace m) (mu_operation m) kind (mu_prior m) (mu_desired m)
    (mu_delta m) s = (res, tr, u)" by (metis prod_cases3)
  have "list_all ?I tr"
  proof (cases "fst (ingest (ws_product s))")
    case (Inl e)
    with execution_run [OF sha k ok c s op run] have "list_all (old_side k m) tr" by simp
    then show ?thesis by (rule list.pred_mono_strong) simp
  next
    case (Inr sid)
    with execution_run [OF sha k ok c s op run] obtain r where "list_all (\<lambda>t. old_side k m t \<or> new_side k m r t) tr" by auto
    then show ?thesis by (rule list.pred_mono_strong) auto
  qed
  moreover have "?I s" using s by (simp add: old_side_def)
  moreover have "list_all ?I (fst (snd (?rec now t)))" if "?I t" for now t
    using that
  proof (elim disjE exE)
    assume t: "old_side k m t"
    obtain out tr u where "?rec now t = (Inr out, tr, u)" "list_all (old_side k m) tr"
      by (rule recover_old_side [OF ok k t])
    then show ?thesis by (simp add: list_all_iff)
  next
    fix r assume t: "new_side k m r t"
    obtain out tr u where "?rec now t = (Inr out, tr, u)" "list_all (new_side k m r) tr"
      by (rule recover_new_side [OF ok k t])
    then show ?thesis by (auto simp: list_all_iff)
  qed
  ultimately have "?I t" using stopped_invariant [OF stop, where I = ?I] by (simp add: run)
  moreover have clean: "?rec last_time u = (Inr ''clean'', [], u)" if "settled k m r u" for r u
    using that by (simp add: recover_def bind_prog_def run_simps load_journal_def settled_def)
  ultimately show ?thesis
  proof (elim disjE exE)
    assume t: "old_side k m t"
    then have "ws_record t = Loaded_File (mu_prior m)" by (auto simp: old_side_def backward_def settled_def)
    moreover obtain tr u where "?rec later t = (Inr (if ws_journal t = Missing_File then ''clean'' else ''A''), tr, u)"
      "settled k m (mu_prior m) u" "ws_operations u (mu_operation m) =
        (if ws_journal t \<noteq> Missing_File then interrupted_after else id) (ws_operations t (mu_operation m))"
      by (rule recover_old_side [OF ok k t, where b = True and now = later]) simp
    ultimately show ?thesis using clean by auto
  next
    fix r assume t: "new_side k m r t"
    then have rec: "ws_record t = Loaded_File r" "\<exists>sid. commits m sid r"
      by (auto simp: new_side_def after_pivot_def forward_def settled_def)
    then have "r \<noteq> mu_prior m"
      by (auto simp: commits_def committed_record_def bind_res_Inr_iff advance_revision_def split: if_splits
        dest!: arg_cong [where f = wr_revision])
    moreover obtain tr u where "?rec later t = (Inr (if ws_journal t = Missing_File then ''clean'' else ''B''), tr, u)"
      "settled k m r u" "ws_operations u (mu_operation m) =
        (if ws_journal t \<noteq> Missing_File then succeeded_after else id) (ws_operations t (mu_operation m))"
      by (rule recover_new_side [OF ok k t, where b = True and now = later]) simp
    ultimately show ?thesis using rec clean by auto
  qed
qed

end

end
