(* ===== verification/Candidate_Recovery.thy ===== *)
theory Candidate_Recovery
  imports Leases "HOL-Library.Multiset"
begin

section \<open>Abandoned candidates (app/candidate_recovery.py)\<close>

text \<open>
  A corpus directory has candidates and abandoned remnants, by name, in the order the file system lists
  them; what is below a name is a value that moving carries along. The corpora directory is the list of
  its entries. \<open>can_move\<close> says which of the moves succeed; a move that fails raises.
\<close>

record 'c corpus_dir =
  co_is_dir :: bool
  co_candidates :: "(string \<times> 'c) list option"
  co_abandoned :: "(string \<times> 'c) list"

definition hidden :: "string \<Rightarrow> bool" where
  "hidden name \<longleftrightarrow> starts_with name ''.''"

subsection \<open>A free name\<close>

definition numbered :: "string \<Rightarrow> nat \<Rightarrow> string" where
  "numbered base n = (if n = 0 then base else base @ ''.'' @ str_nat n)"

lemma numbered_inj: "numbered base m = numbered base n \<longleftrightarrow> m = n"
  by (auto simp: numbered_def str_nat_inj)

lemma finite_taken: "finite {k. n \<le> k \<and> numbered base k \<in> set taken}"
proof -
  have "inj_on (numbered base) UNIV" by (auto simp: inj_on_def numbered_inj)
  then have "finite (numbered base -` set taken)" by (simp add: finite_vimageI)
  then show ?thesis by (rule rev_finite_subset) auto
qed

function free_from :: "string list \<Rightarrow> string \<Rightarrow> nat \<Rightarrow> string" where
  "free_from taken base n =
     (if numbered base n \<in> set taken then free_from taken base (n + 1) else numbered base n)"
  by pat_completeness auto

termination
proof (relation "measure (\<lambda>(taken, base, n). card {k. n \<le> k \<and> numbered base k \<in> set taken})")
  fix taken base and n :: nat
  assume "numbered base n \<in> set taken"
  then have "n \<in> {k. n \<le> k \<and> numbered base k \<in> set taken}" "n \<notin> {k. n + 1 \<le> k \<and> numbered base k \<in> set taken}"
    by simp_all
  moreover have "{k. n + 1 \<le> k \<and> numbered base k \<in> set taken} \<subseteq> {k. n \<le> k \<and> numbered base k \<in> set taken}"
    by auto
  ultimately have "{k. n + 1 \<le> k \<and> numbered base k \<in> set taken} \<subset> {k. n \<le> k \<and> numbered base k \<in> set taken}"
    by blast
  then show "((taken, base, n + 1), (taken, base, n)) \<in>
      measure (\<lambda>(taken, base, n). card {k. n \<le> k \<and> numbered base k \<in> set taken})"
    using finite_taken [of n base taken] by (simp add: psubset_card_mono)
qed simp

declare free_from.simps [simp del]

lemma free_from_fresh: "free_from taken base n \<notin> set taken \<and> (\<exists>k. free_from taken base n = numbered base k)"
proof (induction taken base n rule: free_from.induct)
  case (1 taken base n)
  then show ?case by (subst (1 2) free_from.simps) auto
qed

subsection \<open>Recovery\<close>

text \<open>The result of moving: whether a move raised, the directory and the targets so far.\<close>

fun move_children ::
    "string \<Rightarrow> (string \<Rightarrow> bool) \<Rightarrow> (string \<times> 'c) list \<Rightarrow> 'c corpus_dir \<Rightarrow> (app_exc + string list) \<times> 'c corpus_dir" where
  "move_children stamp can_move [] d = (Inr [], d)"
| "move_children stamp can_move ((name, c) # rest) d =
     (let target = free_from (map fst (co_abandoned d)) (stamp @ ''-'' @ name) 0 in
      if \<not> can_move name then (Inl (OS_Error ''move''), d)
      else (case move_children stamp can_move rest
          (d\<lparr>co_candidates := map_option (filter (\<lambda>e. fst e \<noteq> name)) (co_candidates d),
             co_abandoned := co_abandoned d @ [(target, c)]\<rparr>) of
        (Inl e, d') \<Rightarrow> (Inl e, d')
      | (Inr moved, d') \<Rightarrow> (Inr (target # moved), d')))"

definition visible_children :: "(string \<times> 'c) list \<Rightarrow> (string \<times> 'c) list" where
  "visible_children es = filter (\<lambda>e. \<not> hidden (fst e)) es"

text \<open>One corpus directory, with lease object \<open>i\<close> of process \<open>p\<close>.\<close>

definition recover_corpus ::
    "string \<Rightarrow> (string \<Rightarrow> bool) \<Rightarrow> nat \<Rightarrow> nat \<Rightarrow> string \<Rightarrow> 'c corpus_dir \<Rightarrow> lease_world \<Rightarrow>
     (app_exc + string list) \<times> 'c corpus_dir \<times> lease_world" where
  "recover_corpus stamp can_move p i name d w =
     (if \<not> co_is_dir d \<or> hidden name then (Inr [], d, w)
      else (case co_candidates d of
        None \<Rightarrow> (Inr [], d, w)
      | Some listing \<Rightarrow>
          if visible_children listing = [] then (Inr [], d, w)
          else (case new_lease p i Corpus_Lease name w of
              (Inl _, w1) \<Rightarrow> (Inr [], d, w1)
            | (Inr _, w1) \<Rightarrow> (case acquire i w1 of
                (Inl _, w2) \<Rightarrow> (Inr [], d, w2)
              | (Inr _, w2) \<Rightarrow> (case move_children stamp can_move (visible_children listing) d of
                  (r, d') \<Rightarrow> (r, d', release i w2))))))"

fun recover_entries ::
    "string \<Rightarrow> (string \<Rightarrow> string \<Rightarrow> bool) \<Rightarrow> nat \<Rightarrow> nat \<Rightarrow> (string \<times> 'c corpus_dir) list \<Rightarrow> lease_world \<Rightarrow>
     (app_exc + string list) \<times> (string \<times> 'c corpus_dir) list \<times> lease_world" where
  "recover_entries stamp can_move p i [] w = (Inr [], [], w)"
| "recover_entries stamp can_move p i ((name, d) # rest) w =
     (case recover_corpus stamp (can_move name) p i name d w of
        (Inl e, d', w') \<Rightarrow> (Inl e, (name, d') # rest, w')
      | (Inr moved, d', w') \<Rightarrow> (case recover_entries stamp can_move p i rest w' of
          (r, rest', w'') \<Rightarrow> (map_sum id (\<lambda>ms. moved @ ms) r, (name, d') # rest', w'')))"

text \<open>\<open>recover_abandoned_candidates\<close>; no corpora directory is \<open>None\<close>.\<close>

definition recover_abandoned_candidates ::
    "string \<Rightarrow> (string \<Rightarrow> string \<Rightarrow> bool) \<Rightarrow> nat \<Rightarrow> nat \<Rightarrow> (string \<times> 'c corpus_dir) list option \<Rightarrow> lease_world \<Rightarrow>
     (app_exc + string list) \<times> (string \<times> 'c corpus_dir) list option \<times> lease_world" where
  "recover_abandoned_candidates stamp can_move p i corpora w = (case corpora of
     None \<Rightarrow> (Inr [], None, w)
   | Some entries \<Rightarrow> (case recover_entries stamp can_move p i (sort_key fst entries) w of
       (r, es, w') \<Rightarrow> (r, Some es, w')))"

subsection \<open>Nothing is lost\<close>

definition all_contents :: "'c corpus_dir \<Rightarrow> 'c multiset" where
  "all_contents d = mset (map snd (concat (case co_candidates d of None \<Rightarrow> [] | Some l \<Rightarrow> [l]))) +
     mset (map snd (co_abandoned d))"

definition names_distinct :: "'c corpus_dir \<Rightarrow> bool" where
  "names_distinct d \<longleftrightarrow> distinct (map fst (co_abandoned d)) \<and>
     (case co_candidates d of None \<Rightarrow> True | Some l \<Rightarrow> distinct (map fst l))"

text \<open>A directory after some of its candidates were moved: the same contents, old remnants in place.\<close>

definition conserved :: "'c corpus_dir \<Rightarrow> 'c corpus_dir \<Rightarrow> bool" where
  "conserved d d' \<longleftrightarrow> co_is_dir d' = co_is_dir d \<and> all_contents d' = all_contents d \<and> names_distinct d' \<and>
     (\<exists>new. co_abandoned d' = co_abandoned d @ new)"

lemma filter_key_out: "name \<notin> fst ` set es \<Longrightarrow> filter (\<lambda>e. fst e \<noteq> name) es = es"
  by (induction es) auto

lemma move_one:
  assumes "names_distinct d" and "co_candidates d = Some l" and "(name, c) \<in> set l"
  shows "conserved d (d\<lparr>co_candidates := map_option (filter (\<lambda>e. fst e \<noteq> name)) (co_candidates d),
     co_abandoned := co_abandoned d @ [(free_from (map fst (co_abandoned d)) base 0, c)]\<rparr>)"
proof -
  from assms(3) obtain us vs where l: "l = us @ (name, c) # vs" by (meson split_list)
  have "name \<notin> fst ` set us" "name \<notin> fst ` set vs"
    using assms(1,2) by (auto simp: names_distinct_def l)
  then have "filter (\<lambda>e. fst e \<noteq> name) us = us" "filter (\<lambda>e. fst e \<noteq> name) vs = vs"
    by (simp_all add: filter_key_out)
  with l have "filter (\<lambda>e. fst e \<noteq> name) l = us @ vs" by simp
  then show ?thesis
    using assms(1,2) l free_from_fresh [of "map fst (co_abandoned d)" base 0]
    by (auto simp: conserved_def all_contents_def names_distinct_def)
qed

lemma conserved_trans: "conserved a b \<Longrightarrow> conserved b c \<Longrightarrow> conserved a c"
  by (auto simp: conserved_def)

lemma move_children_facts:
  assumes "move_children stamp can_move cs d = (r, d')" and "names_distinct d"
    and "co_candidates d = Some l" and "set cs \<subseteq> set l" and "distinct (map fst cs)"
  shows "conserved d d' \<and> (\<exists>l'. co_candidates d' = Some l') \<and>
    (\<forall>ts. r = Inr ts \<longrightarrow> co_candidates d' = Some (filter (\<lambda>e. fst e \<notin> fst ` set cs) l) \<and>
       co_abandoned d' = co_abandoned d @ zip ts (map snd cs) \<and>
       list_all2 (\<lambda>t e. \<exists>k. t = numbered (stamp @ ''-'' @ fst e) k) ts cs) \<and>
    ((\<exists>ts. r = Inr ts) = list_all can_move (map fst cs))"
  using assms
proof (induction cs arbitrary: d l r)
  case Nil
  then show ?case by (auto simp: conserved_def)
next
  case (Cons e cs)
  obtain name c where e: "e = (name, c)" by (cases e)
  let ?t = "free_from (map fst (co_abandoned d)) (stamp @ ''-'' @ name) 0"
  let ?d = "d\<lparr>co_candidates := map_option (filter (\<lambda>e. fst e \<noteq> name)) (co_candidates d),
    co_abandoned := co_abandoned d @ [(?t, c)]\<rparr>"
  show ?case
  proof (cases "can_move name")
    case False
    with Cons.prems show ?thesis by (auto simp: e Let_def conserved_def)
  next
    case True
    obtain r1 where rec: "move_children stamp can_move cs ?d = (r1, d')"
      and r: "r = (case r1 of Inl x \<Rightarrow> Inl x | Inr ts \<Rightarrow> Inr (?t # ts))"
      using Cons.prems(1) True by (auto simp: e Let_def split: prod.splits sum.splits)
    have one: "conserved d ?d" using Cons.prems by (intro move_one) (auto simp: e)
    have l: "co_candidates ?d = Some (filter (\<lambda>e. fst e \<noteq> name) l)" using Cons.prems(3) by simp
    have sub: "set cs \<subseteq> set (filter (\<lambda>e. fst e \<noteq> name) l)" using Cons.prems(4,5) by (auto simp: e)
    have IH: "conserved ?d d' \<and> (\<exists>l'. co_candidates d' = Some l') \<and>
      (\<forall>ts. r1 = Inr ts \<longrightarrow> co_candidates d' = Some (filter (\<lambda>e. fst e \<notin> fst ` set cs) (filter (\<lambda>e. fst e \<noteq> name) l)) \<and>
         co_abandoned d' = co_abandoned ?d @ zip ts (map snd cs) \<and>
         list_all2 (\<lambda>t e. \<exists>k. t = numbered (stamp @ ''-'' @ fst e) k) ts cs) \<and>
      ((\<exists>ts. r1 = Inr ts) = list_all can_move (map fst cs))"
      by (rule Cons.IH [OF rec _ l sub]) (use one Cons.prems(5) in \<open>auto simp: conserved_def\<close>)
    moreover have "\<exists>k. ?t = numbered (stamp @ ''-'' @ name) k" using free_from_fresh by blast
    ultimately show ?thesis using conserved_trans [OF one] True
      by (auto simp: r e Int_def conj_commute split: sum.splits)
  qed
qed


text \<open>A corpus whose candidates may be taken: no live owner holds its lease.\<close>

definition abandonable :: "lease_world \<Rightarrow> string \<Rightarrow> 'c corpus_dir \<Rightarrow> bool" where
  "abandonable w name d \<longleftrightarrow> co_is_dir d \<and> \<not> hidden name \<and>
     (case co_candidates d of None \<Rightarrow> False | Some l \<Rightarrow> visible_children l \<noteq> []) \<and>
     validate_corpus_name name = Inr name \<and> lw_locks w (lock_file Corpus_Lease name) = None"

text \<open>All its candidates are remnants now, each under a stamped name of its own.\<close>

definition recovered :: "string \<Rightarrow> 'c corpus_dir \<Rightarrow> 'c corpus_dir \<Rightarrow> bool" where
  "recovered stamp d d' \<longleftrightarrow> (\<exists>l ts. co_candidates d = Some l \<and> co_candidates d' = Some (filter (\<lambda>e. hidden (fst e)) l) \<and>
     co_abandoned d' = co_abandoned d @ zip ts (map snd (visible_children l)) \<and>
     list_all2 (\<lambda>t e. \<exists>k. t = numbered (stamp @ ''-'' @ fst e) k) ts (visible_children l))"

lemma new_corpus_lease:
  "new_lease p i Corpus_Lease name w = (if validate_corpus_name name = Inr name
     then (Inr (), put_lease i \<lparr>ls_process = p, ls_kind = Corpus_Lease, ls_subject = name, ls_fd = False, ls_held = False\<rparr> w)
     else (fst (new_lease p i Corpus_Lease name w), w)) \<and>
   ((\<exists>u. fst (new_lease p i Corpus_Lease name w) = Inr u) = (validate_corpus_name name = Inr name))"
proof (cases "validate_product_corpus_name name")
  case (Inl e)
  then have "validate_corpus_name name \<noteq> Inr name" by (metis Inl_Inr_False product_name_Inr)
  then show ?thesis by (auto simp: new_lease_def Inl)
next
  case (Inr n)
  with product_name_same have "n = name" by blast
  with Inr have a: "validate_product_corpus_name name = Inr name" by simp
  then have b: "validate_corpus_name name = Inr name" by (simp add: product_name_Inr)
  show ?thesis by (simp add: new_lease_def corpus_lease_path_def a b)
qed

lemma move_all_visible:
  assumes "move_children stamp can_move (visible_children l) d = (r, d')" and "names_distinct d" and "co_candidates d = Some l"
  shows "conserved d d'" and "r = Inr ts \<Longrightarrow> recovered stamp d d'"
    and "(\<exists>ts. r = Inr ts) = list_all (\<lambda>e. can_move (fst e)) (visible_children l)"
proof -
  have "distinct (map fst l)" using assms(2,3) by (simp add: names_distinct_def)
  then have "distinct (map fst (visible_children l))" "set (visible_children l) \<subseteq> set l"
    by (auto simp: visible_children_def distinct_map_filter)
  note facts = move_children_facts [OF assms(1-3) this(2,1)]
  have rest: "filter (\<lambda>e. fst e \<notin> fst ` set (visible_children l)) l = filter (\<lambda>e. hidden (fst e)) l"
    by (rule filter_cong) (auto simp: visible_children_def)
  show "conserved d d'" "r = Inr ts \<Longrightarrow> recovered stamp d d'" using facts assms(3) by (auto simp: recovered_def rest)
  show "(\<exists>ts. r = Inr ts) = list_all (\<lambda>e. can_move (fst e)) (visible_children l)"
    using facts by (simp add: list_all_iff)
qed

lemma recover_corpus_facts:
  assumes "recover_corpus stamp can_move p i name d w = (r, d', w')" and "names_distinct d"
  shows "lw_locks w' = lw_locks w" and "conserved d d'" and "j \<noteq> i \<Longrightarrow> lw_leases w' j = lw_leases w j"
    and "if abandonable w name d then (r = Inr ts \<longrightarrow> recovered stamp d d') else d' = d \<and> r = Inr []"
    and "(\<exists>ts. r = Inr ts) = (abandonable w name d \<longrightarrow>
      list_all (\<lambda>e. can_move (fst e)) (concat (map visible_children (case co_candidates d of None \<Rightarrow> [] | Some l \<Rightarrow> [l]))))"
proof -
  have "lw_locks w' = lw_locks w \<and> conserved d d' \<and> (j \<noteq> i \<longrightarrow> lw_leases w' j = lw_leases w j) \<and>
    (if abandonable w name d then (r = Inr ts \<longrightarrow> recovered stamp d d') else d' = d \<and> r = Inr []) \<and>
    (\<exists>ts. r = Inr ts) = (abandonable w name d \<longrightarrow>
      list_all (\<lambda>e. can_move (fst e)) (concat (map visible_children (case co_candidates d of None \<Rightarrow> [] | Some l \<Rightarrow> [l]))))"
    (is "?goal")
  proof (cases "abandonable w name d")
    case True
    then obtain l where l: "co_candidates d = Some l" "visible_children l \<noteq> []"
      by (auto simp: abandonable_def split: option.splits)
    let ?l = "\<lparr>ls_process = p, ls_kind = Corpus_Lease, ls_subject = name, ls_fd = False, ls_held = False\<rparr>"
    have new: "new_lease p i Corpus_Lease name w = (Inr (), put_lease i ?l w)"
      using True new_corpus_lease [of p i name w] by (simp add: abandonable_def)
    have acq: "acquire i (put_lease i ?l w) = (Inr (), take_lock i ?l (put_lease i ?l w))"
      using True by (simp add: abandonable_def acquire_def put_lease_def lease_lock_def)
    obtain r1 d1 where mv: "move_children stamp can_move (visible_children l) d = (r1, d1)" by fastforce
    have out: "r = r1" "d' = d1" "w' = release i (take_lock i ?l (put_lease i ?l w))"
      using assms(1) True by (simp_all add: recover_corpus_def l new acq mv abandonable_def)
    have "lw_locks w (lock_file Corpus_Lease name) = None" using True by (simp add: abandonable_def)
    then have "lw_locks w' = lw_locks w" "j \<noteq> i \<longrightarrow> lw_leases w' j = lw_leases w j"
      by (simp_all add: out release_def take_lock_def put_lease_def lease_lock_def fun_upd_idem)
    with True move_all_visible [OF mv assms(2) l(1)] l(1) show ?thesis by (simp add: out)
  next
    case False
    have "r = Inr [] \<and> d' = d \<and> lw_locks w' = lw_locks w \<and> (j \<noteq> i \<longrightarrow> lw_leases w' j = lw_leases w j)"
    proof (cases "validate_corpus_name name = Inr name")
      case True
      let ?l = "\<lparr>ls_process = p, ls_kind = Corpus_Lease, ls_subject = name, ls_fd = False, ls_held = False\<rparr>"
      have new: "new_lease p i Corpus_Lease name w = (Inr (), put_lease i ?l w)"
        using True new_corpus_lease [of p i name w] by simp
      show ?thesis
      proof (cases "lw_locks w (lock_file Corpus_Lease name) = None")
        case free: True
        with False True assms(1) show ?thesis
          by (auto simp: recover_corpus_def abandonable_def split: if_splits option.splits)
      next
        case False
        have "\<exists>e. (lease_busy ?l :: app_exc + unit) = Inl e" by (simp add: lease_busy_def raise_app_def split: sum.splits)
        then obtain e where "(lease_busy ?l :: app_exc + unit) = Inl e" by blast
        with False have "acquire i (put_lease i ?l w) = (Inl e, put_lease i ?l w)"
          by (simp add: acquire_def put_lease_def lease_lock_def)
        with assms(1) show ?thesis
          by (auto simp: recover_corpus_def new split: if_splits option.splits) (simp_all add: put_lease_def)
      qed
    next
      case invalid: False
      then have "\<exists>e. new_lease p i Corpus_Lease name w = (Inl e, w)"
        using new_corpus_lease [of p i name w] by (metis sum.exhaust prod.collapse)
      then show ?thesis using assms(1) by (auto simp: recover_corpus_def split: if_splits option.splits)
    qed
    moreover have "conserved d d" using assms(2) by (simp add: conserved_def)
    ultimately show ?thesis using False by auto
  qed
  then show "lw_locks w' = lw_locks w" "conserved d d'" "j \<noteq> i \<Longrightarrow> lw_leases w' j = lw_leases w j"
    "if abandonable w name d then (r = Inr ts \<longrightarrow> recovered stamp d d') else d' = d \<and> r = Inr []"
    "(\<exists>ts. r = Inr ts) = (abandonable w name d \<longrightarrow>
      list_all (\<lambda>e. can_move (fst e)) (concat (map visible_children (case co_candidates d of None \<Rightarrow> [] | Some l \<Rightarrow> [l]))))"
    by simp_all
qed

lemma abandonable_locks: "lw_locks w' = lw_locks w \<Longrightarrow> abandonable w' n d = abandonable w n d"
  by (simp add: abandonable_def)

text \<open>What recovery does to one directory, given the result of the whole.\<close>

definition recovery_of :: "string \<Rightarrow> lease_world \<Rightarrow> (app_exc + string list) \<Rightarrow> string \<times> 'c corpus_dir \<Rightarrow>
    string \<times> 'c corpus_dir \<Rightarrow> bool" where
  "recovery_of stamp w r before after \<longleftrightarrow> fst after = fst before \<and> conserved (snd before) (snd after) \<and>
     (if abandonable w (fst before) (snd before) then (case r of Inr _ \<Rightarrow> recovered stamp (snd before) (snd after) | Inl _ \<Rightarrow> True)
      else snd after = snd before)"

lemma recover_entries_facts:
  assumes "recover_entries stamp can_move p i entries w = (r, es, w')" and "\<forall>e \<in> set entries. names_distinct (snd e)"
  shows "list_all2 (recovery_of stamp w r) entries es \<and> lw_locks w' = lw_locks w \<and>
    (\<forall>j. j \<noteq> i \<longrightarrow> lw_leases w' j = lw_leases w j)"
  using assms
proof (induction entries arbitrary: w r es w')
  case (Cons e rest)
  obtain name d where e: "e = (name, d)" by (cases e)
  obtain r1 d1 w1 where one: "recover_corpus stamp (can_move name) p i name d w = (r1, d1, w1)" by (metis prod_cases3)
  have nd: "names_distinct d" using Cons.prems(2) by (simp add: e)
  note f = recover_corpus_facts [OF one nd]
  show ?case
  proof (cases r1)
    case (Inl x)
    have "list_all2 (recovery_of stamp w (Inl x)) rest rest"
      using Cons.prems(2) by (auto simp: list_all2_conv_all_nth recovery_of_def conserved_def)
    moreover have "recovery_of stamp w (Inl x) (name, d) (name, d1)" using f Inl by (simp add: recovery_of_def)
    ultimately show ?thesis using Cons.prems(1) f(1,3) by (auto simp: e one Inl)
  next
    case (Inr moved)
    obtain r2 es2 w2 where more_: "recover_entries stamp can_move p i rest w1 = (r2, es2, w2)" by (metis prod_cases3)
    have out: "r = map_sum id ((@) moved) r2" "es = (name, d1) # es2" "w' = w2"
      using Cons.prems(1) by (simp_all add: e one Inr more_)
    from Cons.IH [OF more_] Cons.prems(2) have IH: "list_all2 (recovery_of stamp w1 r2) rest es2"
      "lw_locks w2 = lw_locks w1" "\<forall>j. j \<noteq> i \<longrightarrow> lw_leases w2 j = lw_leases w1 j" by simp_all
    have "list_all2 (recovery_of stamp w r) rest es2" using IH(1)
      by (rule list_all2_mono) (auto simp: recovery_of_def out abandonable_locks [OF f(1)] split: sum.splits)
    moreover have "recovery_of stamp w r (name, d) (name, d1)"
      using f(2,4) Inr by (auto simp: recovery_of_def split: sum.splits if_splits)
    ultimately have "list_all2 (recovery_of stamp w r) (e # rest) es" by (simp add: e out(2))
    moreover have "lw_locks w' = lw_locks w" using IH(2) f(1) by (simp add: out(3))
    moreover have "lw_leases w' j = lw_leases w j" if "j \<noteq> i" for j using IH(3) f(3) that by (simp add: out(3))
    ultimately show ?thesis by blast
  qed
qed simp

text \<open>C5: Recovery loses nothing and disturbs no one. Over all corpus directories, whichever moves fail, a
  directory keeps exactly its contents and its old remnants in place, and a corpus that is not a valid
  visible name, has no visible candidate, or whose lease is held, is left as it was; every lock and every
  other lease object is as before. When no move fails, every visible candidate of every other corpus is
  now a remnant under its stamped name, all names distinct.\<close>

theorem candidates_recovered:
  assumes "recover_abandoned_candidates stamp can_move p i (Some entries) w = (r, Some es, w')"
    and "\<forall>e \<in> set entries. names_distinct (snd e)"
  shows "list_all2 (recovery_of stamp w r) (sort_key fst entries) es \<and> lw_locks w' = lw_locks w \<and>
    (\<forall>j. j \<noteq> i \<longrightarrow> lw_leases w' j = lw_leases w j)"
proof -
  have "recover_entries stamp can_move p i (sort_key fst entries) w = (r, es, w')"
    using assms(1) by (auto simp: recover_abandoned_candidates_def split: prod.splits)
  from recover_entries_facts [OF this] assms(2) show ?thesis by simp
qed

definition sample_corpora :: "(string \<times> string corpus_dir) list" where
  "sample_corpora = [(''default'', \<lparr>co_is_dir = True, co_candidates = Some [(''c1'', ''old''), (''.tmp'', ''t'')],
     co_abandoned = [(''s-c1'', ''older'')]\<rparr>)]"

theorem candidates_recovered_witness:
  "\<exists>r es w'. recover_abandoned_candidates ''s'' (\<lambda>_ _. True) 7 6 (Some sample_corpora) sample_world = (r, Some es, w') \<and>
     map (\<lambda>e. co_abandoned (snd e)) es = [[(''s-c1'', ''older'')]]"
proof -
  obtain r es w' where rec: "recover_abandoned_candidates ''s'' (\<lambda>_ _. True) 7 6 (Some sample_corpora) sample_world = (r, Some es, w')"
    by (metis (no_types, lifting) option.simps(5) prod_cases3 recover_abandoned_candidates_def prod.case)
  have "\<forall>e \<in> set sample_corpora. names_distinct (snd e)" by (simp add: sample_corpora_def names_distinct_def)
  from candidates_recovered [OF rec this] have "list_all2 (recovery_of ''s'' sample_world r) (sort_key fst sample_corpora) es"
    by simp
  moreover have "holds sample_world 4 (lock_file Corpus_Lease ''default'')"
    by (simp add: holds_def sample_world_leases lease_lock_def)
  then have "lw_locks sample_world (lock_file Corpus_Lease ''default'') = Some 4"
    using leases_okD(2) [OF reachable_leases_ok [OF sample_world_reachable]] by blast
  ultimately show ?thesis using rec
    by (auto simp: sample_corpora_def list_all2_Cons1 recovery_of_def abandonable_def)
qed

end
