(* ===== verification/Ingest_Properties.thy ===== *)
theory Ingest_Properties
  imports Product_Ingest Mutation_Execution Candidate_Recovery
begin

section \<open>What an ingest can change\<close>

text \<open>
  Every step of the ingest before its publication leaves the product directories and the leases alone;
  the publication changes the product directories only, and only with an identity whose stages all
  passed. It is the ingest the mutation coordinator needs.
\<close>

subsection \<open>Quiet programs\<close>

definition same_outside :: "ingest_state \<Rightarrow> ingest_state \<Rightarrow> bool" where
  "same_outside s t \<longleftrightarrow> in_product t = in_product s \<and> in_leases t = in_leases s"

definition quiet :: "(ingest_state, 'a) prog \<Rightarrow> bool" where
  "quiet prog \<longleftrightarrow> (\<forall>s. case prog s of (r, tr, s') \<Rightarrow> list_all (same_outside s) (s' # tr))"

named_theorems quiet_intro

lemma quietD: "quiet prog \<Longrightarrow> prog s = (r, tr, s') \<Longrightarrow> list_all (same_outside s) (s' # tr)"
  by (auto simp: quiet_def dest: spec [of _ s])

lemma quiet_bind [quiet_intro]:
  assumes "quiet p" and "\<forall>a. quiet (f a)"
  shows "quiet (bind_prog p f)"
  unfolding quiet_def
proof
  fix s
  obtain r tr s1 where p: "p s = (r, tr, s1)" by (metis prod_cases3)
  note one = quietD [OF assms(1) p]
  show "case bind_prog p f s of (r, tr, s') \<Rightarrow> list_all (same_outside s) (s' # tr)"
  proof (cases r)
    case (Inr a)
    obtain r2 tr2 s2 where f: "f a s1 = (r2, tr2, s2)" by (metis prod_cases3)
    from assms(2) have "quiet (f a)" by blast
    from quietD [OF this f] one show ?thesis by (auto simp: bind_prog_def p Inr f same_outside_def list_all_iff)
  qed (use one in \<open>simp add: bind_prog_def p\<close>)
qed

lemma quiet_lift [quiet_intro]: "quiet (lift_res r)"
  by (simp add: quiet_def lift_res_def same_outside_def)

lemma quiet_ret [quiet_intro]: "quiet (ret a)"
  by (simp add: quiet_def ret_def same_outside_def)

lemma quiet_inspect [quiet_intro]: "quiet (inspect f)"
  by (simp add: quiet_def inspect_def same_outside_def)

lemma quiet_control [quiet_intro]: "quiet (control_point cw place f)"
  by (simp add: quiet_def control_point_def same_outside_def Let_def split: option.splits sum.splits)

lemma quiet_checkpoint [quiet_intro]: "quiet (checkpoint_at cw place)"
  by (simp add: checkpoint_at_def quiet_control)

lemma quiet_stage [quiet_intro]: "quiet (run_stage cw st stage out)"
  unfolding run_stage_def by (intro quiet_intro allI)

lemma quiet_candidate [quiet_intro]: "quiet (add_candidate cid)"
  by (simp add: quiet_def add_candidate_def durably_def same_outside_def)

lemma quiet_pipeline [quiet_intro]: "quiet (run_pipeline cw st cap kind up)"
  unfolding run_pipeline_def by (intro quiet_intro allI)

subsection \<open>The stages\<close>

text \<open>Every stage ran and passed its check, and this is the identity built from them.\<close>

definition stages_passed ::
    "ingest_stages \<Rightarrow> int option \<Rightarrow> mutation_kind option \<Rightarrow> spooled_upload \<Rightarrow> canonical_snapshot \<Rightarrow> bool" where
  "stages_passed st cap kind up m \<longleftrightarrow> (\<exists>r ids c d l.
     ig_run_ingestion st = Inr r \<and> io_status r \<noteq> STAGE_FAILED \<and>
     ig_corpus_documents st = Inr ids \<and> length ids = length (up_files up) \<and> distinct ids \<and>
     ig_run_chunking st = Inr c \<and> fst c \<noteq> STAGE_FAILED \<and>
     (case (kind, cap) of (None, _) \<Rightarrow> True | (_, None) \<Rightarrow> True
      | (Some x, Some limit) \<Rightarrow> x = SOURCE_REMOVE \<or> snd c \<le> limit) \<and>
     ig_run_indexing st = Inr d \<and> fst d \<noteq> STAGE_FAILED \<and>
     ig_run_lexical_indexing st = Inr l \<and> l \<noteq> STAGE_FAILED \<and> ig_identity st = Inr m)"

lemma bind_prog_Inr:
  "bind_prog p f s = (Inr b, tr, s') \<longleftrightarrow> (\<exists>a tr1 s1 tr2. p s = (Inr a, tr1, s1) \<and> f a s1 = (Inr b, tr2, s') \<and> tr = tr1 @ tr2)"
  by (auto simp: bind_prog_def split: prod.splits sum.splits)

lemma lift_res_Inr: "lift_res r s = (Inr a, tr, s') \<longleftrightarrow> r = Inr a \<and> tr = [] \<and> s' = s"
  by (auto simp: lift_res_def)

lemma run_stage_Inr: "run_stage cw st stage out s = (Inr a, tr, s') \<Longrightarrow> out = Inr a"
  by (auto simp: run_stage_def bind_prog_Inr lift_res_Inr ret_def)

lemma raise_app_not_Inr: "raise_app code d \<noteq> Inr x"
  by (simp add: raise_app_def split: sum.splits)

lemma conflict_not_Inr: "document_identity_conflict_error d w \<noteq> Inr x"
  by (simp add: document_identity_conflict_error_def split: sum.splits)

lemma run_pipeline_Inr:
  assumes "run_pipeline cw st cap kind up s = (Inr m, tr, s')"
  shows "stages_passed st cap kind up m"
proof -
  from assms obtain r c d l where
    st: "ig_run_ingestion st = Inr r" "ig_run_chunking st = Inr c" "ig_run_indexing st = Inr d" "ig_run_lexical_indexing st = Inr l"
    and checks: "(if io_status r = STAGE_FAILED then map_ingestion_failure r else Inr ()) = Inr ()"
      "bind_res (ig_corpus_documents st) (doc_count_ok up) = Inr ()"
      "(if fst c = STAGE_FAILED then stage_failed ''chunk'' ''stage_failed'' else Inr ()) = Inr ()"
      "enforce_searchable_workload_capacity cap (snd c) kind = Inr ()"
      "(if fst d = STAGE_FAILED then stage_failed ''dense'' (public_dense_failure_reason (snd d)) else Inr ()) = Inr ()"
      "(if l = STAGE_FAILED then stage_failed ''lexical'' ''stage_failed'' else Inr ()) = Inr ()"
      "ig_identity st = Inr m"
    by (auto 0 0 simp: run_pipeline_def bind_prog_Inr lift_res_Inr dest!: run_stage_Inr)
  have "io_status r \<noteq> STAGE_FAILED"
    using checks(1) by (auto simp: map_ingestion_failure_def refuse_def raise_app_not_Inr split: if_splits)
  moreover obtain ids where "ig_corpus_documents st = Inr ids" "length ids = length (up_files up)" "distinct ids"
    using checks(2) by (auto simp: bind_res_Inr_iff doc_count_ok_def refuse_def raise_app_not_Inr conflict_not_Inr split: if_splits)
  moreover have "fst c \<noteq> STAGE_FAILED" "fst d \<noteq> STAGE_FAILED" "l \<noteq> STAGE_FAILED"
    using checks(3,5,6) by (auto simp: stage_failed_def raise_app_not_Inr split: if_splits)
  moreover have "case (kind, cap) of (None, _) \<Rightarrow> True | (_, None) \<Rightarrow> True | (Some x, Some limit) \<Rightarrow> x = SOURCE_REMOVE \<or> snd c \<le> limit"
    using checks(4) by (auto simp: enforce_searchable_workload_capacity_def raise_app_not_Inr split: if_splits option.splits)
      (meson mutation_kind.exhaust not_le_imp_less)
  ultimately show ?thesis unfolding stages_passed_def using st checks(7) by blast
qed

subsection \<open>The publication\<close>

text \<open>
  A program that publishes once, at its end: it leaves the leases, the product directories are as they
  were or as publishing an identity with \<open>P\<close> leaves them, and an id it returns is that publication's.
\<close>

definition changed_by ::
    "(canonical_snapshot \<Rightarrow> bool) \<Rightarrow> (canonical_snapshot \<Rightarrow> write_outcomes \<Rightarrow> product_root \<Rightarrow> (app_exc + string) \<times> product_root) \<Rightarrow>
     product_root \<Rightarrow> product_root \<Rightarrow> bool" where
  "changed_by P pub p q \<longleftrightarrow> q = p \<or> (\<exists>m wo. P m \<and> q = snd (pub m wo p))"

definition publishes ::
    "(canonical_snapshot \<Rightarrow> bool) \<Rightarrow> (canonical_snapshot \<Rightarrow> write_outcomes \<Rightarrow> product_root \<Rightarrow> (app_exc + string) \<times> product_root) \<Rightarrow>
     write_outcomes \<Rightarrow> (ingest_state, string) prog \<Rightarrow> bool" where
  "publishes P pub wo prog \<longleftrightarrow> (\<forall>s. case prog s of (r, tr, s') \<Rightarrow>
     list_all (\<lambda>t. in_leases t = in_leases s \<and> changed_by P pub (in_product s) (in_product t)) (s' # tr) \<and>
     (\<forall>sid. r = Inr sid \<longrightarrow> (\<exists>m. P m \<and> pub m wo (in_product s) = (Inr sid, in_product s'))))"

lemma publishesD:
  assumes "publishes P pub wo prog" and "prog s = (r, tr, s')"
  shows "list_all (\<lambda>t. in_leases t = in_leases s \<and> changed_by P pub (in_product s) (in_product t)) (s' # tr)"
    and "\<forall>sid. r = Inr sid \<longrightarrow> (\<exists>m. P m \<and> pub m wo (in_product s) = (Inr sid, in_product s'))"
  using assms(1) [unfolded publishes_def, THEN spec [of _ s]] unfolding assms(2) by simp_all

lemma publishes_after_quiet:
  assumes "quiet p" and "\<And>s a tr s'. p s = (Inr a, tr, s') \<Longrightarrow> publishes P pub wo (f a)"
  shows "publishes P pub wo (bind_prog p f)"
  unfolding publishes_def
proof
  fix s
  obtain r tr s1 where p: "p s = (r, tr, s1)" by (metis prod_cases3)
  note one = quietD [OF assms(1) p]
  show "case bind_prog p f s of (r, tr, s') \<Rightarrow>
     list_all (\<lambda>t. in_leases t = in_leases s \<and> changed_by P pub (in_product s) (in_product t)) (s' # tr) \<and>
     (\<forall>sid. r = Inr sid \<longrightarrow> (\<exists>m. P m \<and> pub m wo (in_product s) = (Inr sid, in_product s')))"
  proof (cases r)
    case (Inr a)
    obtain r2 tr2 s2 where f: "f a s1 = (r2, tr2, s2)" by (metis prod_cases3)
    note two = publishesD [OF assms(2) [OF p [unfolded Inr]] f]
    from one have eq: "in_product s1 = in_product s" "in_leases s1 = in_leases s" by (simp_all add: same_outside_def)
    from one two [unfolded eq] show ?thesis
      by (simp add: bind_prog_def p Inr f same_outside_def list_all_iff) (auto simp: changed_by_def)
  qed (use one in \<open>auto simp: bind_prog_def p same_outside_def list_all_iff changed_by_def\<close>)
qed

lemma publishes_handle:
  assumes "publishes P pub wo p" and "\<And>e x. h e \<noteq> Inr x"
  shows "publishes P pub wo (handle_prog p (\<lambda>e. lift_res (h e)))"
  unfolding publishes_def
proof
  fix s
  obtain r tr s1 where p: "p s = (r, tr, s1)" by (metis prod_cases3)
  have "\<exists>x. h e = Inl x" for e using assms(2) by (cases "h e") auto
  then obtain g where g: "h e = Inl (g e)" for e by metis
  show "case handle_prog p (\<lambda>e. lift_res (h e)) s of (r, tr, s') \<Rightarrow>
     list_all (\<lambda>t. in_leases t = in_leases s \<and> changed_by P pub (in_product s) (in_product t)) (s' # tr) \<and>
     (\<forall>sid. r = Inr sid \<longrightarrow> (\<exists>m. P m \<and> pub m wo (in_product s) = (Inr sid, in_product s')))"
    using publishesD [OF assms(1) p] by (cases r) (simp_all add: handle_prog_def p lift_res_def g)
qed

lemma publishes_publish:
  assumes "P m"
  shows "publishes P pub wo (bind_prog (publish_prog (pub m) wo) (\<lambda>sid. bind_prog (lift_res (hook :: app_exc + unit)) (\<lambda>_. ret sid)))"
  unfolding publishes_def
proof
  fix s :: ingest_state
  obtain r p where pub: "pub m wo (in_product s) = (r, p)" by fastforce
  let ?tr = "map (\<lambda>wo. s\<lparr>in_product := snd (pub m wo (in_product s))\<rparr>) [wo\<lparr>wo_pointer := False\<rparr>, wo\<lparr>wo_marker := False\<rparr>, wo]"
  have run: "publish_prog (pub m) wo s = (r, ?tr, s\<lparr>in_product := p\<rparr>)"
    by (simp add: publish_prog_def pub del: list.map)
  have p: "p = snd (pub m wo (in_product s))" by (simp add: pub)
  have "changed_by P pub (in_product s) (snd (pub m wo' (in_product s)))" for wo'
    using assms by (auto simp: changed_by_def)
  then have tr: "list_all (\<lambda>t. in_leases t = in_leases s \<and> changed_by P pub (in_product s) (in_product t))
      (s\<lparr>in_product := p\<rparr> # ?tr)" by (simp add: p)
  have "bind_prog (publish_prog (pub m) wo) (\<lambda>sid. bind_prog (lift_res hook) (\<lambda>_. ret sid)) s =
      ((case r of Inl e \<Rightarrow> Inl e | Inr sid \<Rightarrow> (case hook of Inl e \<Rightarrow> Inl e | Inr _ \<Rightarrow> Inr sid)), ?tr, s\<lparr>in_product := p\<rparr>)"
    unfolding bind_prog_def run by (simp add: lift_res_def ret_def split: sum.splits del: list.map)
  then show "case bind_prog (publish_prog (pub m) wo) (\<lambda>sid. bind_prog (lift_res hook) (\<lambda>_. ret sid)) s of (r, tr, s') \<Rightarrow>
     list_all (\<lambda>t. in_leases t = in_leases s \<and> changed_by P pub (in_product s) (in_product t)) (s' # tr) \<and>
     (\<forall>sid. r = Inr sid \<longrightarrow> (\<exists>m. P m \<and> pub m wo (in_product s) = (Inr sid, in_product s')))"
    using tr assms pub by (auto split: sum.splits)
qed

lemma publishes_under_lease:
  "publishes (stages_passed st cap kind up) pub wo (under_lease cw st pub wo cap kind cid up)"
proof -
  have last: "publishes (stages_passed st cap kind up) pub wo (publish_candidate cw st pub wo m)"
    if "stages_passed st cap kind up m" for m
    unfolding publish_candidate_def
    by (intro publishes_after_quiet quiet_intro publishes_publish that)
  show ?thesis unfolding under_lease_def
    by (intro publishes_after_quiet quiet_intro allI) (rule last, erule run_pipeline_Inr)
qed

lemma as_ingest_failure_Inl: "as_ingest_failure e \<noteq> Inr x"
  by (cases e) (simp_all add: as_ingest_failure_def refuse_def raise_app_not_Inr)

subsection \<open>Leases around the ingest\<close>

lemma publishes_given_lease:
  assumes "publishes P pub wo body"
  shows "publishes P pub wo (with_given_lease cw body)"
  unfolding with_given_lease_def
  by (intro publishes_handle publishes_after_quiet quiet_intro assms as_ingest_failure_Inl)

text \<open>What a run does to the outside, with lease \<open>i\<close> on the corpus: the product directories change only under the lease.\<close>

definition leased_run ::
    "(canonical_snapshot \<Rightarrow> bool) \<Rightarrow> (canonical_snapshot \<Rightarrow> write_outcomes \<Rightarrow> product_root \<Rightarrow> (app_exc + string) \<times> product_root) \<Rightarrow>
     write_outcomes \<Rightarrow> nat \<Rightarrow> string \<Rightarrow> product_root \<Rightarrow> (app_exc + string) \<Rightarrow> ingest_state list \<Rightarrow> product_root \<Rightarrow> bool" where
  "leased_run P pub wo i lock p r tr p' \<longleftrightarrow>
     list_all (\<lambda>t. changed_by P pub p (in_product t) \<and> (in_product t = p \<or> holds (in_leases t) i lock)) tr \<and>
     (case r of Inl _ \<Rightarrow> changed_by P pub p p' | Inr sid \<Rightarrow> \<exists>m. P m \<and> pub m wo p = (Inr sid, p'))"

lemma leased_run_of_publishes:
  assumes "publishes P pub wo prog" and "prog s = (r, tr, s')" and "holds (in_leases s) i lock"
  shows "leased_run P pub wo i lock (in_product s) r tr (in_product s')" and "in_leases s' = in_leases s"
  using publishesD [OF assms(1,2)] assms(3) by (auto simp: leased_run_def list_all_iff split: sum.splits)

lemma leased_run_unchanged:
  "list_all (\<lambda>t. in_product t = p) tr \<Longrightarrow> leased_run P pub wo i lock p (Inl e) tr p"
  by (auto simp: leased_run_def list_all_iff changed_by_def)

lemma leased_run_prefix:
  "list_all (\<lambda>t. in_product t = p) tr1 \<Longrightarrow> leased_run P pub wo i lock p r tr2 p' \<Longrightarrow> leased_run P pub wo i lock p r (tr1 @ tr2) p'"
  by (auto simp: leased_run_def list_all_iff changed_by_def)

lemma leased_run_final:
  assumes "leased_run P pub wo i lock p r tr p'"
  shows "changed_by P pub p p'"
proof (cases r)
  case (Inl e)
  with assms show ?thesis by (simp add: leased_run_def)
next
  case (Inr sid)
  with assms obtain m where "P m" "p' = snd (pub m wo p)" by (auto simp: leased_run_def)
  then show ?thesis by (auto simp: changed_by_def)
qed

lemma acquire_then_release:
  assumes "lw_leases lw i = Some l" and "\<not> ls_held l" and "lw_locks lw (lease_lock l) = None"
  shows "lw_locks (release i (take_lock i l lw)) = lw_locks lw"
    and "j \<noteq> i \<Longrightarrow> lw_leases (release i (take_lock i l lw)) j = lw_leases lw j"
    and "holds (take_lock i l lw) i (lease_lock l)"
  using assms by (auto simp: release_def take_lock_def put_lease_def holds_def lease_lock_def)

lemma as_ingest_failure_raises: "\<exists>x. as_ingest_failure e = (Inl x :: app_exc + 'b)"
  by (cases "as_ingest_failure e :: app_exc + 'b") (simp_all add: as_ingest_failure_Inl)

lemma own_lease_run:
  assumes body: "publishes P pub wo body" and run: "with_own_lease cw i body s = (r, tr, s')"
    and l: "lw_leases (in_leases s) i = Some l" "\<not> ls_held l"
  shows "leased_run P pub wo i (lease_lock l) (in_product s) r tr (in_product s') \<and>
    lw_locks (in_leases s') = lw_locks (in_leases s) \<and> (\<forall>j. j \<noteq> i \<longrightarrow> lw_leases (in_leases s') j = lw_leases (in_leases s) j)"
proof -
  obtain r0 tr0 s0 where cp: "checkpoint_at cw ''pre_lease'' s = (r0, tr0, s0)" by (metis prod_cases3)
  have s0: "in_product s0 = in_product s" "in_leases s0 = in_leases s" "list_all (\<lambda>t. in_product t = in_product s) tr0"
    using quietD [OF quiet_checkpoint cp] by (auto simp: same_outside_def list_all_iff)
  show ?thesis
  proof (cases r0)
    case (Inl e)
    obtain x where "as_ingest_failure e = (Inl x :: app_exc + unit)" using as_ingest_failure_raises by blast
    then have "r = Inl x" "tr = tr0" "s' = s0"
      using run by (simp_all add: with_own_lease_def bind_prog_def handle_prog_def cp Inl lift_res_def)
    with s0 show ?thesis by (simp add: leased_run_unchanged)
  next
    case (Inr u)
    show ?thesis
    proof (cases "lw_locks (in_leases s) (lease_lock l) = None")
      case False
      have "\<exists>e. (lease_busy l :: app_exc + unit) = Inl e"
        by (cases "ls_kind l") (simp_all add: lease_busy_def raise_app_def split: sum.splits)
      then obtain e where "(lease_busy l :: app_exc + unit) = Inl e" by blast
      then have acq: "acquire i (in_leases s) = (Inl e, in_leases s)" using l False by (simp add: acquire_def)
      obtain x where "as_ingest_failure e = (Inl x :: app_exc + unit)" using as_ingest_failure_raises by blast
      then have "r = Inl x" "tr = tr0" "s' = s0\<lparr>in_leases := in_leases s\<rparr>"
        using run by (simp_all add: with_own_lease_def bind_prog_def handle_prog_def cp Inr lift_res_def acquire_prog_def s0 acq)
      with s0 show ?thesis by (simp add: leased_run_unchanged)
    next
      case True
      let ?lw = "take_lock i l (in_leases s)"
      let ?s1 = "s0\<lparr>in_leases := ?lw\<rparr>"
      have acq: "acquire i (in_leases s) = (Inr (), ?lw)" using l True by (simp add: acquire_def)
      note locks = acquire_then_release [OF l True]
      let ?prog = "handle_prog body (\<lambda>e. lift_res (as_ingest_failure e))"
      obtain r1 tr1 s2 where body_run: "?prog ?s1 = (r1, tr1, s2)" by (metis prod_cases3)
      have "publishes P pub wo ?prog" by (rule publishes_handle [OF body as_ingest_failure_Inl])
      note eff = leased_run_of_publishes [OF this body_run, of i "lease_lock l"]
      have taking: "handle_prog (bind_prog (checkpoint_at cw ''pre_lease'') (\<lambda>_. acquire_prog i))
          (\<lambda>e. lift_res (as_ingest_failure e)) s = (Inr (), tr0, ?s1)"
        by (simp add: handle_prog_def bind_prog_def cp Inr acquire_prog_def s0 acq)
      have "r = r1" "tr = tr0 @ tr1" "s' = release_prog i s2"
        using run unfolding with_own_lease_def by (simp_all add: bind_prog_run taking body_run)
      with eff locks s0 show ?thesis by (auto simp: release_prog_def intro: leased_run_prefix)
    qed
  qed
qed

subsection \<open>The whole ingest\<close>

fun lease_number :: "ingest_lease \<Rightarrow> nat" where
  "lease_number (Own_Lease p i) = i"
| "lease_number (Given_Lease i) = i"

definition leases_kept :: "ingest_lease \<Rightarrow> lease_world \<Rightarrow> lease_world \<Rightarrow> bool" where
  "leases_kept lease w w' \<longleftrightarrow> (case lease of Given_Lease _ \<Rightarrow> w' = w
     | Own_Lease p i \<Rightarrow> lw_locks w' = lw_locks w \<and> (\<forall>j. j \<noteq> i \<longrightarrow> lw_leases w' j = lw_leases w j))"

definition ingest_effect ::
    "(canonical_snapshot \<Rightarrow> bool) \<Rightarrow> (canonical_snapshot \<Rightarrow> write_outcomes \<Rightarrow> product_root \<Rightarrow> (app_exc + string) \<times> product_root) \<Rightarrow>
     write_outcomes \<Rightarrow> ingest_lease \<Rightarrow> string \<Rightarrow> (ingest_state, string) prog \<Rightarrow> bool" where
  "ingest_effect P pub wo lease corpus prog \<longleftrightarrow> (\<forall>s. case prog s of (r, tr, s') \<Rightarrow>
     leased_run P pub wo (lease_number lease) (lock_file Corpus_Lease corpus) (in_product s) r tr (in_product s') \<and>
     leases_kept lease (in_leases s) (in_leases s'))"

lemma leases_kept_refl [simp]: "leases_kept lease w w"
  by (simp add: leases_kept_def split: ingest_lease.splits)

lemma ingest_effect_after_quiet:
  assumes "quiet p" and "\<forall>a. ingest_effect P pub wo lease corpus (f a)"
  shows "ingest_effect P pub wo lease corpus (bind_prog p f)"
  unfolding ingest_effect_def
proof
  fix s
  obtain r tr s1 where p: "p s = (r, tr, s1)" by (metis prod_cases3)
  have one: "in_product s1 = in_product s" "in_leases s1 = in_leases s" "list_all (\<lambda>t. in_product t = in_product s) tr"
    using quietD [OF assms(1) p] by (auto simp: same_outside_def list_all_iff)
  show "case bind_prog p f s of (r, tr, s') \<Rightarrow>
     leased_run P pub wo (lease_number lease) (lock_file Corpus_Lease corpus) (in_product s) r tr (in_product s') \<and>
     leases_kept lease (in_leases s) (in_leases s')"
  proof (cases r)
    case (Inl e)
    with one show ?thesis by (simp add: bind_prog_def p leased_run_unchanged)
  next
    case (Inr a)
    obtain r2 tr2 s2 where f: "f a s1 = (r2, tr2, s2)" by (metis prod_cases3)
    note two = assms(2) [THEN spec [of _ a], unfolded ingest_effect_def, THEN spec [of _ s1], unfolded f prod.case]
    with one show ?thesis by (simp add: bind_prog_def p Inr f leased_run_prefix two)
  qed
qed

lemma ingest_effect_given:
  assumes "publishes P pub wo body"
  shows "ingest_effect P pub wo (Given_Lease i) corpus
    (bind_prog (inspect (\<lambda>s. given_lease_ok i corpus (in_leases s))) (\<lambda>_. with_given_lease cw body))"
  unfolding ingest_effect_def
proof
  fix s
  obtain r tr s' where run: "with_given_lease cw body s = (r, tr, s')" by (metis prod_cases3)
  show "case bind_prog (inspect (\<lambda>s. given_lease_ok i corpus (in_leases s))) (\<lambda>_. with_given_lease cw body) s of (r, tr, s') \<Rightarrow>
     leased_run P pub wo (lease_number (Given_Lease i)) (lock_file Corpus_Lease corpus) (in_product s) r tr (in_product s') \<and>
     leases_kept (Given_Lease i) (in_leases s) (in_leases s')"
  proof (cases "given_lease_ok i corpus (in_leases s)")
    case (Inl e)
    then show ?thesis by (simp add: bind_prog_def inspect_def leased_run_unchanged)
  next
    case (Inr u)
    then have "holds (in_leases s) i (lock_file Corpus_Lease corpus)"
      by (auto simp: given_lease_ok_def holds_def lease_lock_def raise_app_not_Inr split: option.splits if_splits)
    note eff = leased_run_of_publishes [OF publishes_given_lease [OF assms] run this]
    then show ?thesis by (simp add: bind_prog_def inspect_def Inr run)
  qed
qed

lemma ingest_effect_own:
  assumes "publishes P pub wo body"
  shows "ingest_effect P pub wo (Own_Lease p i) corpus (bind_prog (make_lease p i corpus) (\<lambda>_. with_own_lease cw i body))"
  unfolding ingest_effect_def
proof
  fix s
  let ?l = "\<lparr>ls_process = p, ls_kind = Corpus_Lease, ls_subject = corpus, ls_fd = False, ls_held = False\<rparr>"
  show "case bind_prog (make_lease p i corpus) (\<lambda>_. with_own_lease cw i body) s of (r, tr, s') \<Rightarrow>
     leased_run P pub wo (lease_number (Own_Lease p i)) (lock_file Corpus_Lease corpus) (in_product s) r tr (in_product s') \<and>
     leases_kept (Own_Lease p i) (in_leases s) (in_leases s')"
  proof (cases "validate_corpus_name corpus = Inr corpus")
    case False
    then obtain e where "new_lease p i Corpus_Lease corpus (in_leases s) = (Inl e, in_leases s)"
      using new_corpus_lease [of p i corpus "in_leases s"] by (metis sum.exhaust prod.collapse)
    then show ?thesis by (simp add: bind_prog_def make_lease_def leased_run_unchanged)
  next
    case True
    let ?s1 = "s\<lparr>in_leases := put_lease i ?l (in_leases s)\<rparr>"
    have new: "new_lease p i Corpus_Lease corpus (in_leases s) = (Inr (), put_lease i ?l (in_leases s))"
      using True new_corpus_lease [of p i corpus "in_leases s"] by simp
    obtain r tr s' where run: "with_own_lease cw i body ?s1 = (r, tr, s')" by (metis prod_cases3)
    have "lw_leases (in_leases ?s1) i = Some ?l" by (simp add: put_lease_def)
    note eff = own_lease_run [OF assms run this]
    have "bind_prog (make_lease p i corpus) (\<lambda>_. with_own_lease cw i body) s = (r, tr, s')"
      by (simp add: bind_prog_def make_lease_def new run)
    with eff show ?thesis by (simp add: leases_kept_def put_lease_def lease_lock_def)
  qed
qed

lemma ingest_effect_run:
  "ingest_effect (stages_passed st cap kind up) pub wo lease (up_corpus_name up)
    (run_product_replace_ingest cw st pub wo cap kind workspaces authorize cid lease up)"
  unfolding run_product_replace_ingest_def Let_def
  by (intro ingest_effect_after_quiet quiet_intro allI, cases lease)
    (simp_all add: ingest_effect_own ingest_effect_given publishes_under_lease)

subsection \<open>The ingest the coordinator needs\<close>

text \<open>The ingest as the mutation calls it: from the product directories, with everything else it reads fixed.\<close>

definition ingest_of ::
    "(ingest_state, string) prog \<Rightarrow> ingest_state \<Rightarrow> product_root \<Rightarrow> (app_exc + string) \<times> product_root list \<times> product_root" where
  "ingest_of prog s p = (case prog (s\<lparr>in_product := p\<rparr>) of (r, tr, s') \<Rightarrow> (r, map in_product tr, in_product s'))"

lemma publish_changes:
  assumes "changed_by P (runtime_publish sha fr fl k before after c) p q"
  shows "pf_snapshots (p c) \<subseteq>\<^sub>m pf_snapshots (q c) \<and> (pf_current (q c) = pf_current (p c) \<or>
    (\<exists>m. pf_current (q c) = Some (cd_dump_pointer k (compute_snapshot_id sha fr m))))"
  using assms unfolding changed_by_def
proof (elim disjE exE conjE)
  fix m wo assume q: "q = snd (runtime_publish sha fr fl k before after c m wo p)"
  obtain r where "publish sha fr fl k before after wo True c m p = (r, q)"
    using q by (metis prod.collapse runtime_publish_def)
  then show ?thesis
  proof (cases rule: publish_cases)
    case (stored e)
    then show ?thesis by (auto simp: put_snapshot_def stored_after_def map_le_def split: option.splits)
  next
    case moved
    then show ?thesis
      by (auto simp: Let_def put_snapshot_def put_pointer_def put_marker_def stored_after_def map_le_def split: option.splits if_splits)
  qed simp
qed simp

lemma publish_returns:
  assumes "runtime_publish sha fr fl k before after c m wo p = (Inr sid, q)"
  shows "sid = compute_snapshot_id sha fr m \<and> pf_snapshots (q c) sid = Some (cd_dump_snapshot k m) \<and>
    pf_current (q c) = Some (cd_dump_pointer k sid)"
  using assms unfolding runtime_publish_def
  by (cases rule: publish_cases) (auto simp: Let_def put_snapshot_def put_pointer_def put_marker_def split: if_splits)

abbreviation product_ingest_of where
  "product_ingest_of sha fr fl k before after cw st wo cap kind workspaces authorize cid lease up s0 \<equiv>
     ingest_of (run_product_replace_ingest cw st (runtime_publish sha fr fl k before after (up_corpus_name up)) wo cap
       kind workspaces authorize cid lease up) s0"

lemma ingest_of_effect:
  assumes "product_ingest_of sha fr fl k before after cw st wo cap kind workspaces authorize cid lease up s0 p = (r, tr, p')"
  shows "q \<in> set (p' # tr) \<Longrightarrow> changed_by (stages_passed st cap kind up) (runtime_publish sha fr fl k before after (up_corpus_name up)) p q"
    and "r = Inr sid \<Longrightarrow> \<exists>m. runtime_publish sha fr fl k before after (up_corpus_name up) m wo p = (Inr sid, p')"
proof -
  let ?pub = "runtime_publish sha fr fl k before after (up_corpus_name up)"
  obtain tr1 s1 where run: "run_product_replace_ingest cw st ?pub wo cap kind workspaces authorize cid lease up (s0\<lparr>in_product := p\<rparr>) = (r, tr1, s1)"
    and out: "tr = map in_product tr1" "p' = in_product s1"
    using assms by (auto simp: ingest_of_def split: prod.splits)
  note eff = ingest_effect_run [where st = st and cap = cap and kind = kind and up = up and pub = ?pub and wo = wo and lease = lease
    and cw = cw and workspaces = workspaces and authorize = authorize and cid = cid, unfolded ingest_effect_def,
    THEN spec [where x = "s0\<lparr>in_product := p\<rparr>"], unfolded run prod.case]
  show "q \<in> set (p' # tr) \<Longrightarrow> changed_by (stages_passed st cap kind up) ?pub p q"
    using leased_run_final [OF conjunct1 [OF eff]] eff by (auto simp: out leased_run_def list_all_iff)
  show "r = Inr sid \<Longrightarrow> \<exists>m. ?pub m wo p = (Inr sid, p')"
    using eff by (auto simp: out leased_run_def)
qed

interpretation product_ingest: replace_ingest sha fr k "up_corpus_name up"
  "product_ingest_of sha fr fl k before after cw st wo cap kind workspaces authorize cid lease up s0"
  for sha fr fl k before after cw st wo cap kind workspaces authorize cid lease up s0
proof unfold_locales
  fix p res tr p' q
  assume run: "product_ingest_of sha fr fl k before after cw st wo cap kind workspaces authorize cid lease up s0 p = (res, tr, p')"
    and q: "q \<in> set (p' # tr)"
  note ch = publish_changes [OF ingest_of_effect(1) [OF run q]]
  show "pf_snapshots (p (up_corpus_name up)) \<subseteq>\<^sub>m pf_snapshots (q (up_corpus_name up))"
    and "pf_current (q (up_corpus_name up)) = pf_current (p (up_corpus_name up)) \<or>
      (\<exists>m. pf_current (q (up_corpus_name up)) = Some (cd_dump_pointer k (compute_snapshot_id sha fr m)))"
    using ch by blast+
next
  fix p sid tr p'
  assume run: "product_ingest_of sha fr fl k before after cw st wo cap kind workspaces authorize cid lease up s0 p = (Inr sid, tr, p')"
  show "(\<exists>m. sid = compute_snapshot_id sha fr m) \<and> pf_snapshots (p' (up_corpus_name up)) sid \<noteq> None \<and>
      pf_current (p' (up_corpus_name up)) = Some (cd_dump_pointer k sid)"
    using ingest_of_effect(2) [OF run refl] publish_returns by blast
qed

end
