(* ===== verification/Mutation_Safety.thy ===== *)
theory Mutation_Safety
  imports Ingest_Properties
begin

section \<open>Mutations over the modelled ingest\<close>

text \<open>
  What holds of a source mutation as the program runs it: the journal's coordinator over
  \<open>run_product_replace_ingest\<close>, which publishes through the registry. The properties rest on the
  interpretation of the coordinator's interface on that ingest.
\<close>

subsection \<open>The ingest alone\<close>

text \<open>C10: An ingest publishes last and under its lease. Whatever the stages, hooks, cancellations and write
  failures do, at every durable write and at the end the product directories are as before or as
  publishing the identity of stages that all passed leaves them, and they differ only while the lease
  of the corpus is held; an id returned is that publication's. A lease it was given is left as it was;
  with one of its own, no lock and no other lease is changed.\<close>

theorem ingest_publishes_last:
  "case run_product_replace_ingest cw st (runtime_publish sha fr fl k before after (up_corpus_name up)) wo cap kind
      workspaces authorize cid lease up s of (r, tr, s') \<Rightarrow>
   let pub = runtime_publish sha fr fl k before after (up_corpus_name up); old = in_product s;
     fine = (\<lambda>q. q = old \<or> (\<exists>m wo'. stages_passed st cap kind up m \<and> q = snd (pub m wo' old))) in
   list_all (\<lambda>t. fine (in_product t) \<and> (in_product t = old \<or>
     holds (in_leases t) (lease_number lease) (lock_file Corpus_Lease (up_corpus_name up)))) tr \<and>
   fine (in_product s') \<and>
   (case r of Inl _ \<Rightarrow> True
    | Inr sid \<Rightarrow> \<exists>m. stages_passed st cap kind up m \<and> pub m wo old = (Inr sid, in_product s')) \<and>
   (case lease of Given_Lease _ \<Rightarrow> in_leases s' = in_leases s
    | Own_Lease _ i \<Rightarrow> lw_locks (in_leases s') = lw_locks (in_leases s) \<and>
        (lw_leases (in_leases s'))(i := None) = (lw_leases (in_leases s))(i := None))"
proof -
  let ?pub = "runtime_publish sha fr fl k before after (up_corpus_name up)"
  obtain r tr s' where run: "run_product_replace_ingest cw st ?pub wo cap kind workspaces authorize cid lease up s = (r, tr, s')"
    by (metis prod_cases3)
  note eff = ingest_effect_run [where st = st and cap = cap and kind = kind and up = up and pub = ?pub and wo = wo and lease = lease
    and cw = cw and workspaces = workspaces and authorize = authorize and cid = cid, unfolded ingest_effect_def,
    THEN spec [where x = s], unfolded run prod.case]
  have "changed_by (stages_passed st cap kind up) ?pub (in_product s) (in_product s')"
    by (rule leased_run_final) (use eff in blast)
  with eff show ?thesis unfolding run prod.case Let_def
    by (auto simp: leased_run_def leases_kept_def changed_by_def list_all_iff split: sum.splits ingest_lease.splits)
qed

subsection \<open>The mutation\<close>

text \<open>C9: A mutation happens or it does not, and its operation says which. Started on a settled workspace with
  its operation preparing, it always ends: with the ingest's error, the old record and publication and
  the operation failed, or without error, at the record that commits the ingest's snapshot, with that
  snapshot published and the operation succeeded. It fails exactly when the ingest fails.\<close>

theorem mutation_outcome:
  assumes "alnum_digest sha" and "codecs_faithful k" and "mutation_ok m" and "mu_corpus m = up_corpus_name up"
    and "common k m s" and "settled k m (mu_prior m) s" and "ws_operations s (mu_operation m) = Some OP_PREPARING"
  shows "let ingest = product_ingest_of sha fr fl k before after cw st wo cap kind workspaces authorize cid lease up s0 in
    case execute_publication k ingest now jid (mu_workspace m) (mu_operation m) mk (mu_prior m) (mu_desired m) (mu_delta m) s of
      (res, tr, u) \<Rightarrow> (case fst (ingest (ws_product s)) of
          Inl e \<Rightarrow> res = Inl (wrapped_fault e) \<and> settled k m (mu_prior m) u \<and>
            ws_operations u (mu_operation m) = Some OP_FAILED
        | Inr sid \<Rightarrow> res = Inr () \<and> (\<exists>r. commits m sid r \<and> settled k m r u) \<and>
            ws_operations u (mu_operation m) = Some OP_SUCCEEDED)"
proof -
  let ?ing = "product_ingest_of sha fr fl k before after cw st wo cap kind workspaces authorize cid lease up s0"
  obtain res tr u where run: "execute_publication k ?ing now jid (mu_workspace m) (mu_operation m) mk (mu_prior m)
      (mu_desired m) (mu_delta m) s = (res, tr, u)" by (metis prod_cases3)
  from product_ingest.execution_run [OF assms run] show ?thesis
    unfolding Let_def run prod.case by (cases "fst (?ing (ws_product s))") auto
qed


subsection \<open>A first source\<close>

definition sample_source :: source_version where
  "sample_source = \<lparr>sv_schema_version = SOURCE_VERSION_SCHEMA_VERSION, sv_source_id = ''src_1'', sv_version = 3,
     sv_display_name = ''a.pdf'', sv_content_type = None, sv_byte_size = Some 5, sv_content_hash = None,
     sv_document_id = None, sv_vault_object_id = ''vlt_1'', sv_active = True, sv_created_at = ''t0'',
     sv_active_from_revision = 4, sv_active_from_snapshot_id = None, sv_active_through_revision = None,
     sv_active_through_snapshot_id = None\<rparr>"

definition sample_record :: workspace_record where
  "sample_record = \<lparr>wr_schema_version = WORKSPACE_SCHEMA_VERSION, wr_workspace_id = ''ws_abc'', wr_title = ''Notes'',
     wr_description = [], wr_revision = 3, wr_backing_corpus_name = ''default'', wr_current_snapshot_id = None,
     wr_status = WS_EMPTY, wr_created_at = ''t0'', wr_updated_at = ''t0'', wr_sources = []\<rparr>"

definition sample_mutation :: mutation where
  "sample_mutation = \<lparr>mu_workspace = ''ws_abc'', mu_prior = sample_record, mu_desired = [sample_source],
     mu_delta = \<lparr>ln_appended = [(''src_1'', 3)], ln_superseded = []\<rparr>, mu_operation = ''wop_1''\<rparr>"

definition sample_state :: workspace_state where
  "sample_state = \<lparr>ws_record = Loaded_File sample_record, ws_history = (\<lambda>_. Missing_File), ws_journal = Missing_File,
     ws_empty_journal = False, ws_operations = [''wop_1'' \<mapsto> OP_PREPARING], ws_product = (\<lambda>_. no_product_files)\<rparr>"

lemma default_name: "validate_corpus_name ''default'' = Inr ''default''"
  by code_simp

lemma sample_mutation_ok: "mutation_ok sample_mutation"
proof -
  have "workspace_record_fields sample_record = Inr sample_record" by code_simp
  then have "mk_workspace_record sample_record = Inr sample_record"
    by (simp add: mk_workspace_record_iff default_name) (simp add: sample_record_def default_name)
  moreover have "mk_source_version sample_source = Inr sample_source" by code_simp
  moreover have "\<not> workspace_id_refused ''ws_abc''" by code_simp
  ultimately show ?thesis by (simp add: mutation_ok_def sample_mutation_def sample_record_def) (simp add: sample_source_def)
qed

lemma sample_state_ready:
  "common k sample_mutation sample_state" "settled k sample_mutation (mu_prior sample_mutation) sample_state"
  "ws_operations sample_state (mu_operation sample_mutation) = Some OP_PREPARING"
proof -
  have "version_path_ok ''ws_abc'' (''src_1'', 3) = Inr ()" by code_simp
  moreover have "find_version [sample_source] (''src_1'', 3) = Some sample_source" by code_simp
  ultimately show "common k sample_mutation sample_state"
    by (simp add: common_def lineage_ready_def sample_mutation_def sample_state_def no_product_files_def pointer_ok_def sample_record_def)
qed (simp_all add: settled_def sample_state_def sample_mutation_def live_snapshot_id_def sample_record_def no_product_files_def)

text \<open>Its ingest, under a lease the coordinator holds; every stage succeeds.\<close>

definition sample_upload :: spooled_upload where
  "sample_upload = \<lparr>up_corpus_name = ''default'', up_files = [\<lparr>uf_storage_name = ''s1'', uf_client_filename = ''a.pdf'',
     uf_source_name = ''a.pdf'', uf_document_id = ''doc_'' @ replicate 64 CHR ''a'', uf_size_bytes = 5, uf_media_type = ''pdf''\<rparr>]\<rparr>"

definition sample_stages :: ingest_stages where
  "sample_stages = \<lparr>ig_ready = Inr (), ig_establish = Inr (), ig_after_lease = Inr (), ig_inputs = [''s1''],
     ig_before_stage = (\<lambda>_. Inr ()), ig_after_stage = (\<lambda>_. Inr ()),
     ig_run_ingestion = Inr \<lparr>io_status = STAGE_SUCCESS, io_failure_class = [], io_failure_reason = None\<rparr>,
     ig_corpus_documents = Inr [''d1''], ig_run_chunking = Inr (STAGE_SUCCESS, 2),
     ig_run_indexing = Inr (STAGE_SUCCESS, None), ig_run_lexical_indexing = Inr STAGE_SUCCESS,
     ig_identity = Inr sample_identity\<rparr>"

definition sample_ingest_state :: ingest_state where
  "sample_ingest_state = \<lparr>in_leases = sample_world, in_candidates = [], in_product = (\<lambda>_. no_product_files), in_handle = None\<rparr>"

definition sample_control :: control_world where
  "sample_control = \<lparr>cw_arrivals = (\<lambda>_. []), cw_clock = (\<lambda>_. 0)\<rparr>"

abbreviation sample_ingest :: "product_root \<Rightarrow> (app_exc + string) \<times> product_root list \<times> product_root" where
  "sample_ingest \<equiv> product_ingest_of flat_digest sample_float_repr id sample_codecs sample_artifacts sample_artifacts
     sample_control sample_stages all_writes (Some 9) (Some SOURCE_ADD) None None ''c1'' (Given_Lease 4) sample_upload
     sample_ingest_state"

lemma no_control: "in_handle s = None \<Longrightarrow> control_point cw place f s = (Inr (), [], s)"
  by (simp add: control_point_def)

lemma sample_pipeline:
  "in_handle s = None \<Longrightarrow>
    run_pipeline cw sample_stages (Some 9) (Some SOURCE_ADD) sample_upload s = (Inr sample_identity, [], s)"
  by (simp add: run_pipeline_def run_stage_def checkpoint_at_def bind_prog_def run_simps no_control sample_stages_def
    doc_count_ok_def sample_upload_def enforce_searchable_workload_capacity_def)

lemma sample_ingest_succeeds: "\<exists>sid. fst (sample_ingest (\<lambda>_. no_product_files)) = Inr sid"
proof -
  let ?pub = "runtime_publish flat_digest sample_float_repr id sample_codecs sample_artifacts sample_artifacts ''default''"
  obtain sid r where pub: "?pub sample_identity all_writes (\<lambda>_. no_product_files) = (Inr sid, r)"
    using sample_published [of sample_float_repr] by (auto simp: runtime_publish_def)
  let ?s = "sample_ingest_state\<lparr>in_product := \<lambda>_. no_product_files\<rparr>"
  have s: "in_handle ?s = None" "in_leases ?s = sample_world" "in_handle sample_ingest_state = None" by (simp_all add: sample_ingest_state_def)
  have given: "given_lease_ok 4 ''default'' sample_world = Inr ()" by (simp add: given_lease_ok_def sample_world_leases)
  have ids: "validate_document_identities sample_upload = Inr [(''s1'', ''doc_'' @ replicate 64 CHR ''a'', replicate 64 CHR ''a'')]"
    by code_simp
  have stages: "ig_ready sample_stages = Inr ()" "ig_establish sample_stages = Inr ()" "ig_after_lease sample_stages = Inr ()"
    "ig_inputs sample_stages \<noteq> []" "ig_before_stage sample_stages n = Inr ()" "ig_after_stage sample_stages n = Inr ()"
    "up_corpus_name sample_upload = ''default''" for n by (simp_all add: sample_stages_def sample_upload_def)
  have "\<exists>tr t. run_product_replace_ingest sample_control sample_stages ?pub all_writes (Some 9) (Some SOURCE_ADD) None None ''c1''
      (Given_Lease 4) sample_upload ?s = (Inr sid, tr, t)"
    by (simp add: run_product_replace_ingest_def with_given_lease_def under_lease_def add_candidate_def publish_candidate_def
      publish_prog_def checkpoint_at_def handle_prog_def bind_prog_def run_simps no_control s given ids stages sample_pipeline pub
      assert_legacy_ingest_allowed_def find_workspace_id_for_backing_corpus_def)
  then show ?thesis unfolding ingest_of_def stages(7) by (auto split: prod.splits)
qed

theorem mutation_outcome_witness:
  "case execute_publication sample_codecs sample_ingest ''t1'' ''jrn_1'' ''ws_abc'' ''wop_1'' SOURCE_ADD sample_record
      [sample_source] \<lparr>ln_appended = [(''src_1'', 3)], ln_superseded = []\<rparr> sample_state of (res, tr, u) \<Rightarrow>
     res = Inr () \<and> ws_operations u ''wop_1'' = Some OP_SUCCEEDED"
proof -
  have "mu_corpus sample_mutation = up_corpus_name sample_upload"
    by (simp add: mu_corpus_def sample_mutation_def sample_record_def sample_upload_def)
  note out = mutation_outcome [OF flat_digest_alnum sample_codecs_faithful sample_mutation_ok this
    sample_state_ready(1) sample_state_ready(2) sample_state_ready(3),
    where fr = sample_float_repr and fl = id and before = sample_artifacts and after = sample_artifacts and cw = sample_control
      and st = sample_stages and wo = all_writes and cap = "Some 9" and kind = "Some SOURCE_ADD" and workspaces = None
      and authorize = None and cid = "''c1''" and lease = "Given_Lease 4" and ?s0.0 = sample_ingest_state
      and now = "''t1''" and jid = "''jrn_1''" and mk = SOURCE_ADD]
  have "ws_product sample_state = (\<lambda>_. no_product_files)" by (simp add: sample_state_def)
  with out sample_ingest_succeeds show ?thesis
    by (auto simp: Let_def sample_mutation_def split: prod.splits sum.splits)
qed

lemma trace_prefix:
  "p s = (Inr a, tr, s') \<Longrightarrow> \<exists>r tr2 u. bind_prog p f s = (r, tr @ tr2, u)"
  "p s = (r0, tr, s') \<Longrightarrow> \<exists>r tr2 u. handle_prog p h s = (r, tr @ tr2, u)"
  by (auto simp: bind_prog_def handle_prog_def split: sum.splits prod.splits)


end
