(* ===== verification/Workspace_Properties.thy ===== *)
theory Workspace_Properties
  imports Workspace_Store
begin

section \<open>Metadata patches\<close>

text \<open>
  A patch writes a copy the model class does not validate; reading validates. When the two agree is
  exactly a condition on the patched title and description.
\<close>

definition patched :: "string \<Rightarrow> string option \<Rightarrow> string option \<Rightarrow> workspace_record \<Rightarrow> workspace_record" where
  "patched now title description r = r\<lparr>wr_revision := wr_revision r + 1, wr_updated_at := now,
     wr_title := (case title of None \<Rightarrow> wr_title r | Some t \<Rightarrow> t),
     wr_description := (case description of None \<Rightarrow> wr_description r | Some d \<Rightarrow> d)\<rparr>"

definition presentable :: "workspace_record \<Rightarrow> bool" where
  "presentable r \<longleftrightarrow> 1 \<le> length (wr_title r) \<and> length (wr_title r) \<le> 256 \<and> length (wr_description r) \<le> 4096 \<and>
     wr_title r \<noteq> wr_backing_corpus_name r"

lemma record_fields_same:
  assumes "workspace_record_fields r = Inr r"
  obtains "wr_schema_version r = WORKSPACE_SCHEMA_VERSION" "safe_id (wr_workspace_id r) = Inr (wr_workspace_id r)"
    "presentable r" "1 \<le> wr_revision r" "safe_id (wr_backing_corpus_name r) = Inr (wr_backing_corpus_name r)"
    "length (wr_backing_corpus_name r) \<le> 64" "safe_id_option (wr_current_snapshot_id r) = Inr (wr_current_snapshot_id r)"
    "map_res mk_source_version (wr_sources r) = Inr (wr_sources r)" "status_invariant r = Inr ()"
proof -
  from assms obtain i c s srcs where f: "wr_schema_version r = WORKSPACE_SCHEMA_VERSION" "safe_id (wr_workspace_id r) = Inr i"
    "1 \<le> length (wr_title r)" "length (wr_title r) \<le> 256" "length (wr_description r) \<le> 4096" "1 \<le> wr_revision r"
    "safe_id (wr_backing_corpus_name r) = Inr c" "length c \<le> 64" "safe_id_option (wr_current_snapshot_id r) = Inr s"
    "map_res mk_source_version (wr_sources r) = Inr srcs" "status_invariant r = Inr ()" "wr_title r \<noteq> wr_backing_corpus_name r"
    and eq: "r = r\<lparr>wr_workspace_id := i, wr_backing_corpus_name := c, wr_current_snapshot_id := s, wr_sources := srcs\<rparr>"
    unfolding workspace_record_fields_iff by metis
  have "i = wr_workspace_id r" "c = wr_backing_corpus_name r" "s = wr_current_snapshot_id r" "srcs = wr_sources r"
    by (subst eq, simp)+
  with f that show thesis by (simp add: presentable_def)
qed

lemma patched_fields:
  assumes "workspace_record_fields r = Inr r"
  shows "(\<exists>x. workspace_record_fields (patched now title description r) = Inr x) = presentable (patched now title description r)"
    and "workspace_record_fields (patched now title description r) = Inr x \<Longrightarrow> x = patched now title description r"
proof -
  let ?r = "patched now title description r"
  obtain a: "wr_schema_version r = WORKSPACE_SCHEMA_VERSION" "safe_id (wr_workspace_id r) = Inr (wr_workspace_id r)"
    "presentable r" "1 \<le> wr_revision r" "safe_id (wr_backing_corpus_name r) = Inr (wr_backing_corpus_name r)"
    "length (wr_backing_corpus_name r) \<le> 64" "safe_id_option (wr_current_snapshot_id r) = Inr (wr_current_snapshot_id r)"
    "map_res mk_source_version (wr_sources r) = Inr (wr_sources r)" "status_invariant r = Inr ()"
    by (rule record_fields_same [OF assms])
  have same: "wr_schema_version ?r = wr_schema_version r" "wr_workspace_id ?r = wr_workspace_id r"
    "wr_backing_corpus_name ?r = wr_backing_corpus_name r" "wr_current_snapshot_id ?r = wr_current_snapshot_id r"
    "wr_sources ?r = wr_sources r" "wr_revision ?r = wr_revision r + 1" "wr_status ?r = wr_status r"
    by (simp_all add: patched_def)
  have act: "active_sources ?r = active_sources r" by (simp add: active_sources_def same)
  have inv: "status_invariant ?r = Inr ()" using a(9) act
    by (cases "wr_status r") (simp_all add: status_invariant_def same)
  have keep: "?r\<lparr>wr_workspace_id := wr_workspace_id r, wr_backing_corpus_name := wr_backing_corpus_name r,
      wr_current_snapshot_id := wr_current_snapshot_id r, wr_sources := wr_sources r\<rparr> = ?r" by (simp add: patched_def)
  have iff: "workspace_record_fields ?r = Inr x \<longleftrightarrow> presentable ?r \<and> x = ?r" for x
    unfolding workspace_record_fields_iff same using a inv keep by (auto simp: presentable_def same)
  show "(\<exists>x. workspace_record_fields ?r = Inr x) = presentable ?r" by (simp add: iff)
  show "workspace_record_fields ?r = Inr x \<Longrightarrow> x = ?r" by (simp add: iff)
qed

text \<open>C40: A metadata patch of a readable workspace always reports success, but the workspace stays readable
  only if the new title and description fit and the title is not the name of the backing corpus; otherwise
  every later read of the workspace fails as corrupt state.\<close>

theorem patched_workspace_readable:
  assumes "mk_workspace_record r = Inr r" and "ws_record s = Loaded_File r" and "wr_workspace_id r = w"
    and "\<not> workspace_id_refused w" and "wr_status r \<noteq> WS_TOMBSTONED" and "no_transition_journal w s = Inr ()"
  shows "case apply_metadata_patch (Inr ()) w (wr_revision r) now title description s of (res, tr, s') \<Rightarrow>
    res = Inr (patched now title description r) \<and>
    get_workspace w False s' = (if presentable (patched now title description r)
      then Inr (patched now title description r) else state_error w ''workspace_state_corrupt'')"
proof -
  let ?r = "patched now title description r"
  have f: "workspace_record_fields r = Inr r" and name: "validate_corpus_name (wr_backing_corpus_name r) = Inr (wr_backing_corpus_name r)"
    using assms(1) by (simp_all add: mk_workspace_record_iff)
  have rev: "1 \<le> wr_revision r" by (rule record_fields_same [OF f])
  have get: "get_workspace w False s = Inr r"
    using assms by (simp add: get_workspace_def workspace_id_ok_def read_store_record_def read_record_def)
  have same: "wr_workspace_id ?r = w" "wr_backing_corpus_name ?r = wr_backing_corpus_name r" "wr_status ?r = wr_status r"
    using assms(3) by (simp_all add: patched_def)
  have run: "apply_metadata_patch (Inr ()) w (wr_revision r) now title description s = (Inr ?r, [put_record ?r s], put_record ?r s)"
    using assms(6) get rev by (simp add: apply_metadata_patch_def change_workspace_def guarded_def bind_prog_def lift_res_def inspect_def
      durably_def ret_def advance_revision_def patched_def cong: option.case_cong)
  have read: "get_workspace w False (put_record ?r s) = (if presentable ?r then Inr ?r else state_error w ''workspace_state_corrupt'')"
  proof (cases "presentable ?r")
    case True
    then have "workspace_record_fields ?r = Inr ?r" using patched_fields [OF f] by metis
    then have "mk_workspace_record ?r = Inr ?r" by (simp add: mk_workspace_record_iff same name)
    with True show ?thesis using assms(4,5) same
      by (simp add: get_workspace_def workspace_id_ok_def read_store_record_def read_record_def put_record_def)
  next
    case False
    then obtain e where "workspace_record_fields ?r = Inl e"
      using patched_fields(1) [OF f] by (cases "workspace_record_fields ?r") auto
    then have "mk_workspace_record ?r = Inl (App_Errors.Value_Error e)" by (simp add: mk_workspace_record_def try_map_def)
    moreover obtain x where "(state_error w ''workspace_state_corrupt'' :: app_exc + workspace_record) = Inl x"
      by (cases "state_error w ''workspace_state_corrupt'' :: app_exc + workspace_record") auto
    ultimately show ?thesis using False assms(4)
      by (simp add: get_workspace_def workspace_id_ok_def read_store_record_def read_record_def put_record_def)
  qed
  show ?thesis unfolding run prod.case using read by simp
qed

definition patch_record :: workspace_record where
  "patch_record = \<lparr>wr_schema_version = WORKSPACE_SCHEMA_VERSION, wr_workspace_id = ''ws_abc'', wr_title = ''Notes'',
     wr_description = [], wr_revision = 3, wr_backing_corpus_name = ''wsc_abc'', wr_current_snapshot_id = None,
     wr_status = WS_EMPTY, wr_created_at = ''t0'', wr_updated_at = ''t0'', wr_sources = []\<rparr>"

definition patch_state :: workspace_state where
  "patch_state = \<lparr>ws_record = Loaded_File patch_record, ws_history = (\<lambda>_. Missing_File), ws_journal = Missing_File,
     ws_empty_journal = False, ws_operations = (\<lambda>_. None), ws_product = (\<lambda>_. no_product_files)\<rparr>"

theorem patched_workspace_readable_witness:
  "\<exists>r tr s'. apply_metadata_patch (Inr ()) ''ws_abc'' 3 ''t1'' (Some ''wsc_abc'') None patch_state = (Inr r, tr, s') \<and>
     get_workspace ''ws_abc'' False s' = state_error ''ws_abc'' ''workspace_state_corrupt''"
proof -
  have "workspace_record_fields patch_record = Inr patch_record" "validate_corpus_name ''wsc_abc'' = Inr ''wsc_abc''" by code_simp+
  then have ok: "mk_workspace_record patch_record = Inr patch_record"
    by (simp add: mk_workspace_record_iff) (simp add: patch_record_def)
  have "\<not> workspace_id_refused ''ws_abc''" by code_simp
  note p = patched_workspace_readable [OF ok _ _ this, where s = patch_state and now = "''t1''" and title = "Some ''wsc_abc''" and description = None]
  have "\<not> presentable (patched ''t1'' (Some ''wsc_abc'') None patch_record)" by code_simp
  then show ?thesis using p
    by (auto simp: patch_state_def patch_record_def no_transition_journal_def split: prod.splits)
qed

end
