(* ===== verification/Spec2Isabelle.thy ===== *)
theory Spec2Isabelle
  imports Query_Properties Sufficiency_Pipeline Hybrid_Retrieval Operation_Properties
    Lexical_Index_Properties Chunker_Store Mutation_Safety Workspace_Properties
begin

text \<open>
  Verification development for offline-rag, an offline retrieval-augmented question answering service
  in Python. File names are under \<open>src/src/offline_rag/\<close>.

  \<^bold>\<open>The program.\<close> Documents are parsed into blocks and chunked (\<open>chunking/\<close>); chunks are embedded into
  a dense index and counted into a lexical index (\<open>lexical/\<close>); the three together, under content-derived
  identities (\<open>core/ids.py\<close>), are published as an immutable snapshot that a pointer file names
  (\<open>app/publication.py\<close>). A query binds a snapshot, retrieves from both indexes, fuses and reranks the
  hits (\<open>hybrid/\<close>, \<open>rerank/\<close>), expands them into a bounded context (\<open>context/\<close>), judges whether that suffices
  (\<open>sufficiency/\<close>), at most once rewrites the query and tries again (\<open>recovery/\<close>), and has a language model
  answer from the context alone, with checked citations (\<open>generation/\<close>). Workspaces (\<open>app/workspace/\<close>)
  keep versioned sources over a backing corpus: every mutation reingests and republishes it under leases
  and a journal, so that a crash leaves either the old state or the new one.

  \<^bold>\<open>Theories and the code they model.\<close>
  \<^item> \<open>OR_Prelude\<close>, \<open>Py_Json\<close>: error results, Python strings, dictionaries, sorting and JSON values; the lemmas
    on them that every component uses.
  \<^item> \<open>Context_Contracts\<close>, \<open>Retrieval_Types\<close>, \<open>Fusion\<close>, \<open>Hybrid_Retrieval\<close>, \<open>Rerank_Retrieval\<close>: candidates and
    their checks (\<open>domain/indexing.py\<close>, \<open>context/contracts.py\<close>), reciprocal rank fusion, \<open>HybridRetriever\<close>,
    \<open>HybridRerankRetriever\<close>. The contract of a scoped retriever is the locale \<open>scoped_retriever\<close>, with
    the hybrid retriever, the reranker and the assembler as interpretations.
  \<^item> \<open>Core_Ids\<close>: canonical JSON, content hashes and every derived identity.
  \<^item> \<open>Text_Splitting\<close>, \<open>Chunker\<close>: \<open>StructureAwareChunker\<close> with its splitters and validator; \<open>Chunker_Words\<close>,
    \<open>Chunker_Invariants\<close>, \<open>Chunker_Total\<close>, \<open>Chunker_Properties\<close>: what it keeps and when it succeeds.
  \<^item> \<open>Chunk_Store\<close>, \<open>Clip\<close>, \<open>Expand\<close>, \<open>Expand_Inv\<close>, \<open>Expansion_Properties\<close>, \<open>Context_Assembly\<close>: the structure
    store, clipping, expansion and assembly of the context; \<open>Chunker_Store\<close> joins chunker and store. The
    store and a well-behaved token counter are the locales \<open>chunk_source\<close> and \<open>trim_counter\<close>.
  \<^item> \<open>Sufficiency_Policy\<close>, \<open>Sufficiency_Derive\<close>, \<open>Sufficiency_Adapter\<close>, \<open>Sufficiency_Pipeline\<close>: the policy, the
    observation and its provenance, and that every assembled context has one.
  \<^item> \<open>Recovery_Contracts\<close>, \<open>Event_Protocol\<close>, \<open>Recovery_Protocol\<close>, \<open>Recovery_Spec\<close>, \<open>Recovery_Replay\<close>,
    \<open>Recovery_Hash\<close>, \<open>Recovery_Coordinator\<close>, \<open>Recovery_Coordination\<close>: the recovery state machine, its
    abstract specification, replay and hash, and the coordinator that drives it. The protocol's discipline
    is the locale \<open>fail_closed_machine\<close>.
  \<^item> \<open>Grounded_Types\<close>, \<open>Citations\<close>, \<open>Answer_Schema\<close>, \<open>Prompting\<close>, \<open>Grounded_Executor\<close>, \<open>Citation_Projection\<close>,
    \<open>Grounded_Answers\<close>, \<open>Grounded_Query\<close>, \<open>Query_Properties\<close>: results, citations, response parsing, prompts,
    the executor and the query path (\<open>generation/\<close>, \<open>app/query_runtime.py\<close>).
  \<^item> \<open>Lexical_Scoring\<close>, \<open>Lexical_Index\<close>, \<open>Lexical_Index_Properties\<close>: BM25 and the inverted index.
  \<^item> \<open>App_Errors\<close>, \<open>Operations\<close>, \<open>Operation_Properties\<close>: service errors and their sanitizer, admission gates,
    operation handles, cancellation and shutdown (\<open>app/errors.py\<close>, \<open>app/capacity.py\<close>, \<open>app/operations.py\<close>).
  \<^item> \<open>Artifacts\<close>, \<open>Publication\<close>, \<open>Publication_Properties\<close>, \<open>Leases\<close>, \<open>Candidate_Recovery\<close>: stored artifacts,
    the publication registry, leases over file locks, and recovery of abandoned candidates.
  \<^item> \<open>Durable\<close>, \<open>Workspace_Records\<close>, \<open>Workspace_Store\<close>, \<open>Workspace_Properties\<close>: programs whose durable writes are
    the points a crash can stop them at; workspace records, store, source history, managed operations.
  \<^item> \<open>Publication_Journal\<close>, \<open>Product_Ingest\<close>, \<open>Mutation_States\<close>, \<open>Mutation_Recovery\<close>, \<open>Mutation_Execution\<close>,
    \<open>Ingest_Properties\<close>, \<open>Mutation_Safety\<close>: the transition journal, the full-replace ingest and a mutation
    from journal to end (\<open>app/workspace/publication_journal.py\<close>, \<open>app/ingest.py\<close>, \<open>app/workspace/lifecycle.py\<close>).
    What a mutation needs of its ingest is the locale \<open>replace_ingest\<close>, interpreted by the modelled ingest.

  \<^bold>\<open>How state and operations correspond.\<close> A class or pydantic model is a record whose constructor function
  (\<open>mk_...\<close>) is its validation; an exception is the left side of a sum; a method that mutates its object
  returns the new state; a directory is a function from names to files. Locked methods are steps of an
  inductive relation whose interleavings are the reachable states (\<open>Operation_Properties\<close>, \<open>Leases\<close>,
  \<open>Publication_Properties\<close>). Code that writes several files is a durable program (\<open>Durable\<close>): it returns
  the states it passes through, and \<open>stopped\<close> (\<open>Mutation_Execution\<close>) says where a killed process and a killed
  recovery can leave the files.

  \<^bold>\<open>Parameters.\<close> What is not under \<open>src\<close> or not this program's logic is an argument: SHA-256 (\<open>sha\<close>; where it
  matters a property assumes its digests are alphanumeric or do not collide on the inputs named), \<open>repr\<close> of
  floats (\<open>fr\<close>), float rounding (\<open>rnd\<close>, \<open>fl\<close>; monotone where assumed) and the logarithm, regular-expression
  substitutions of the normalizers, token counters, the dense and lexical branches, reranker, rewriter and
  language model, \<open>json.loads\<close>, pydantic reading and writing of a file (\<open>codecs\<close>: reading back what was
  written is assumed), clocks, fresh ids, system prompts, the ingest stages, and for every write whether it
  succeeded. Each property that assumes something of them has a witness that instantiates it.

  \<^bold>\<open>Termination and bounds.\<close> There is no fuel: loops are structural recursion or functions with a measure
  (splitting shortens the text, clipping binary-searches an interval, expansion consumes a list of anchors,
  candidate renaming searches the finitely many names taken). Replay of a recovery accepts at most three
  events, a query sends at most one generation request and one rewrite. Python integers are \<open>int\<close>; the
  lexical term frequencies and revisions have no width to overflow.

  \<^bold>\<open>What the lemmas show.\<close> For every component: the constructors accept exactly the valid records; each
  operation on each branch, errors included; the invariant and its preservation. On top of them the
  properties C1 to C40, of which the first are: mutations survive being killed at any write; recovery replay
  refines its abstract protocol; gates, pointer, candidates and leases keep their invariants in every
  interleaving; a query path that stays in scope, within budget and cites only its evidence; search that
  returns exactly the best matches; a chunker that loses no word.

  \<^bold>\<open>Not modelled.\<close> The HTTP layer and the command line (\<open>api/\<close>, \<open>cli.py\<close>), dense execution and its
  provisioning (\<open>dense/\<close>: embedding runtimes and a vector database), parsers and file ingestion
  (\<open>ingestion/\<close>, apart from corpus names), evaluation harnesses (\<open>evaluation/\<close>, \<open>gold_authoring/\<close>, \<open>scripts/\<close>),
  the gold lab and conversations (\<open>app/gold_lab/\<close>, \<open>app/conversation/\<close>), model clients, configuration loading,
  traces and logging. They are input and output around the logic above, or experiments about it.
  Within \<open>app/workspace/\<close>: planning and capacity checks before the journal begins, the vault and upload spool,
  the journal of metadata and tombstone mutations (\<open>sync_journal.py\<close>) and of the transition to an empty
  workspace (\<open>journal.py\<close>; here a flag that excludes a publication). In a journaled mutation a write that
  fails is not distinguished from a crash before it.
\<close>

end
